(* ===== verification/Prelude.thy ===== *)
theory Prelude
  imports Complex_Main "HOL-Library.AList" "HOL-Library.Sublist" "HOL-Library.Option_ord"
begin

text \<open>
  Shared vocabulary of the development: the dynamic values the Python code keeps in its
  dictionaries (\<open>jval\<close>, \<open>obj\<close>), its exceptions as values (\<open>pyerr\<close>), time as whole
  microseconds, and the generic facts on dictionaries, lists and transactions that the
  components share.

  A Python dict with string keys is an association list (\<open>obj\<close>): reading is
  \<open>map_of\<close>, assignment is \<open>AList.update\<close> (in place when the key is there, at the end
  when it is new, which is Python's insertion order), \<open>d.update(e)\<close> is \<open>dupd\<close>.

  A timestamp text is represented by what \<open>state.parse_iso\<close> makes of it: \<open>JTime t\<close> is a text
  that reads as the instant \<open>t\<close> (microseconds since the epoch, UTC); a text it rejects with
  \<open>ValueError\<close> is any \<open>JStr\<close>. Texts without a zone, which no writer of the program
  produces, have no representation.
\<close>

section \<open>Hint collections\<close>

named_theorems dict_simps \<open>reading a dictionary after a write\<close>
named_theorems row_simps \<open>reading a table after a statement\<close>
named_theorems op_defs \<open>the store operations, to be unfolded\<close>

section \<open>Dynamic values\<close>

datatype jval =
    JNull
  | JBool bool
  | JInt int
  | JFloat rat
  | JStr string
  | JTime int
  | JList "jval list"
  | JObj "(string \<times> jval) list"

type_synonym obj = "(string \<times> jval) list"

fun truthy :: "jval \<Rightarrow> bool" where
  "truthy JNull = False"
| "truthy (JBool b) = b"
| "truthy (JInt i) = (i \<noteq> 0)"
| "truthy (JFloat r) = (r \<noteq> 0)"
| "truthy (JStr s) = (s \<noteq> [])"
| "truthy (JTime t) = True"
| "truthy (JList vs) = (vs \<noteq> [])"
| "truthy (JObj d) = (d \<noteq> [])"

abbreviation dget :: "obj \<Rightarrow> string \<Rightarrow> jval option" where
  "dget d k \<equiv> map_of d k"

abbreviation dset :: "string \<Rightarrow> jval \<Rightarrow> obj \<Rightarrow> obj" where
  "dset k v d \<equiv> AList.update k v d"

text \<open>\<open>bool(d.get(k))\<close>\<close>

definition dtrue :: "obj \<Rightarrow> string \<Rightarrow> bool" where
  "dtrue d k = (case dget d k of None \<Rightarrow> False | Some v \<Rightarrow> truthy v)"

text \<open>\<open>d.update(e)\<close>\<close>

fun dupd :: "obj \<Rightarrow> obj \<Rightarrow> obj" where
  "dupd d [] = d"
| "dupd d ((k, v) # e) = dupd (AList.update k v d) e"

text \<open>\<open>{k: v for k, v in d.items() if k not in ks}\<close>\<close>

definition dwithout :: "string list \<Rightarrow> obj \<Rightarrow> obj" where
  "dwithout ks d = filter (\<lambda>(k, v). k \<notin> set ks) d"

text \<open>The string of a field that holds one, and the empty string otherwise.\<close>

definition sget :: "obj \<Rightarrow> string \<Rightarrow> string" where
  "sget d k = (case dget d k of Some (JStr s) \<Rightarrow> s | _ \<Rightarrow> [])"

text \<open>The integer of a field that holds one (\<open>None\<close>: absent, null or not an integer).\<close>

definition iget :: "obj \<Rightarrow> string \<Rightarrow> int option" where
  "iget d k = (case dget d k of Some (JInt i) \<Rightarrow> Some i | _ \<Rightarrow> None)"

declare update_conv' [simp, dict_simps]
declare delete_conv' [simp, dict_simps]

lemma map_of_dupd [dict_simps]: "map_of (dupd d e) = map_of d ++ map_of (rev e)"
  by (induction d e rule: dupd.induct) (auto simp: map_add_def fun_eq_iff split: option.splits)


lemma map_of_rev_keys: "distinct (map fst e) \<Longrightarrow> map_of (rev e) = map_of e"
proof (induction e)
  case Nil
  then show ?case by simp
next
  case (Cons p e)
  then have "map_of e (fst p) = None" by (simp add: map_of_eq_None_iff)
  with Cons show ?case
    by (cases p) (auto simp: map_add_def fun_eq_iff split: option.splits)
qed

lemma dupd_Nil_left: "distinct (map fst e) \<Longrightarrow> map_of (dupd [] e) = map_of e"
  by (simp add: map_of_dupd map_of_rev_keys)

lemma map_of_dwithout [dict_simps]:
  "map_of (dwithout ks d) k = (if k \<in> set ks then None else map_of d k)"
  by (induction d) (auto simp: dwithout_def)

lemma distinct_dwithout: "distinct (map fst d) \<Longrightarrow> distinct (map fst (dwithout ks d))"
  by (induction d) (auto simp: dwithout_def)

lemma distinct_dupd: "distinct (map fst d) \<Longrightarrow> distinct (map fst (dupd d e))"
  by (induction d e rule: dupd.induct) (auto simp: distinct_update)

lemma dtrue_dset [dict_simps]:
  "dtrue (dset k v d) k' = (if k' = k then truthy v else dtrue d k')"
  by (auto simp: dtrue_def)

lemma sget_dset [dict_simps]:
  "sget (dset k v d) k' = (if k' = k then (case v of JStr s \<Rightarrow> s | _ \<Rightarrow> []) else sget d k')"
  by (auto simp: sget_def split: jval.splits)

section \<open>Time\<close>

text \<open>
  \<open>state.parse_iso\<close> on a stored text, with \<open>None\<close> for its \<open>ValueError\<close>; \<open>state.utcnow\<close>
  and every \<open>strftime(_ISO_FMT)\<close> print whole seconds, dropping the microseconds.
\<close>

fun parse_iso :: "jval \<Rightarrow> int option" where
  "parse_iso (JTime t) = Some t"
| "parse_iso _ = None"

definition usec :: int where
  "usec = 1000000"

definition iso :: "int \<Rightarrow> jval" where
  "iso t = JTime (t div usec * usec)"

abbreviation seconds :: "int \<Rightarrow> int" where
  "seconds n \<equiv> n * usec"

abbreviation minutes :: "int \<Rightarrow> int" where
  "minutes n \<equiv> n * 60 * usec"

lemma parse_iso_iso [simp]: "parse_iso (iso t) = Some (t div usec * usec)"
  by (simp add: iso_def)

lemma iso_le: "t div usec * usec \<le> t"
  by (simp add: usec_def)

lemma iso_gt: "t - usec < t div usec * usec"
  by (simp add: usec_def)

section \<open>Exceptions and results\<close>

datatype mismatch =
    NoActiveClaim
  | TokenMismatch jval jval
  | PhaseMismatch jval jval
  | ClaimChanged

datatype conflict =
    ClaimMoved
  | ClaimGone
  | ClaimFieldMoved string
  | EventsMoved
  | BlockerMoved string
  | StatusMoved
  | ClaimHeldByOther
  | BlockerVanished string

datatype pyerr =
    InvalidSlug string
  | FileNotFoundErr string
  | FileExistsErr string
  | ClaimMismatch mismatch
  | TickConflict conflict
  | ValueErr string
  | KeyErr string
  | RuntimeErr string
  | IntegrityErr
  | DbBusy
  | AlreadyQueued string nat

type_synonym 'a res = "pyerr + 'a"

definition bind_res :: "'a res \<Rightarrow> ('a \<Rightarrow> 'b res) \<Rightarrow> 'b res" where
  "bind_res m f = (case m of Inl e \<Rightarrow> Inl e | Inr x \<Rightarrow> f x)"

lemma bind_res_simps [simp]:
  "bind_res (Inl e) f = Inl e"
  "bind_res (Inr x) f = f x"
  by (simp_all add: bind_res_def)

lemma bind_res_Inr: "bind_res m f = Inr y \<longleftrightarrow> (\<exists>x. m = Inr x \<and> f x = Inr y)"
  by (cases m) auto

lemma bind_res_Inl: "bind_res m f = Inl e \<longleftrightarrow> m = Inl e \<or> (\<exists>x. m = Inr x \<and> f x = Inl e)"
  by (cases m) auto

lemma bind_res_assoc: "bind_res (bind_res m f) g = bind_res m (\<lambda>x. bind_res (f x) g)"
  by (cases m) auto

definition guard_res :: "bool \<Rightarrow> pyerr \<Rightarrow> unit res" where
  "guard_res b e = (if b then Inr () else Inl e)"

lemma guard_res_Inr [simp]: "guard_res b e = Inr u \<longleftrightarrow> b"
  by (simp add: guard_res_def)

lemma guard_res_Inl [simp]: "guard_res b e = Inl e' \<longleftrightarrow> \<not> b \<and> e' = e"
  by (auto simp: guard_res_def)

section \<open>Lists\<close>

text \<open>The last element satisfying a predicate: the reverse scans of the event log.\<close>

fun find_last :: "('a \<Rightarrow> bool) \<Rightarrow> 'a list \<Rightarrow> 'a option" where
  "find_last P [] = None"
| "find_last P (x # xs) =
     (case find_last P xs of Some y \<Rightarrow> Some y | None \<Rightarrow> if P x then Some x else None)"

lemma find_last_None_iff: "find_last P xs = None \<longleftrightarrow> (\<forall>x\<in>set xs. \<not> P x)"
  by (induction xs) (auto split: option.splits)

lemma find_last_Some: "find_last P xs = Some x \<Longrightarrow> x \<in> set xs \<and> P x"
  by (induction xs) (auto split: option.splits if_splits)

lemma find_last_append:
  "find_last P (xs @ ys) = (case find_last P ys of Some y \<Rightarrow> Some y | None \<Rightarrow> find_last P xs)"
  by (induction xs) (auto split: option.splits)

lemma find_last_snoc [simp]:
  "find_last P (xs @ [y]) = (if P y then Some y else find_last P xs)"
  by (simp add: find_last_append)

text \<open>Position of the first occurrence: Python's \<open>xs.index(x)\<close>.\<close>

fun index_of :: "'a \<Rightarrow> 'a list \<Rightarrow> nat option" where
  "index_of x [] = None"
| "index_of x (y # ys) = (if x = y then Some 0 else map_option Suc (index_of x ys))"

lemma index_of_None: "index_of x xs = None \<longleftrightarrow> x \<notin> set xs"
  by (induction xs) auto

lemma index_of_Some: "index_of x xs = Some i \<Longrightarrow> i < length xs \<and> xs ! i = x"
  by (induction xs arbitrary: i) (auto split: if_splits)

text \<open>Replacing the first element that satisfies a predicate.\<close>

fun upd_first :: "('a \<Rightarrow> bool) \<Rightarrow> ('a \<Rightarrow> 'a) \<Rightarrow> 'a list \<Rightarrow> 'a list" where
  "upd_first P f [] = []"
| "upd_first P f (x # xs) = (if P x then f x # xs else x # upd_first P f xs)"

lemma length_upd_first [simp]: "length (upd_first P f xs) = length xs"
  by (induction xs) auto

lemma map_upd_first: "(\<And>x. g (f x) = g x) \<Longrightarrow> map g (upd_first P f xs) = map g xs"
  by (induction xs) auto

section \<open>Rounding\<close>

text \<open>\<open>round(x)\<close> and \<open>round(x, 1)\<close>: to the nearest, a tie to the even neighbour.\<close>

definition round_half_even :: "rat \<Rightarrow> int" where
  "round_half_even r =
     (let f = \<lfloor>r\<rfloor>; d = r - of_int f
      in if d < 1/2 \<or> (d = 1/2 \<and> even f) then f else f + 1)"

definition round1 :: "rat \<Rightarrow> rat" where
  "round1 r = of_int (round_half_even (r * 10)) / 10"

end
