(* ===== verification/Py_Text.thy ===== *)
theory Py_Text
  imports Prelude "HOL-Library.Char_ord" "HOL-Library.List_Lexorder"
begin

text \<open>
  The operations on \<open>str\<close> that the modelled code uses. Characters are single bytes, so
  \<open>str.isspace\<close>, \<open>str.isdigit\<close> and \<open>str.lower\<close> are modelled on ASCII; a non-ASCII
  character is the bytes of its UTF-8 encoding, none of which is a space, a digit or a
  letter.
\<close>

section \<open>Character classes\<close>

definition DIGITS :: string where
  "DIGITS = ''0123456789''"

definition is_digit :: "char \<Rightarrow> bool" where
  "is_digit c \<longleftrightarrow> c \<in> set DIGITS"

text \<open>\<open>str.isspace\<close>: tab, line feed, vertical tab, form feed, carriage return, the four
  separators 28 to 31 and the blank.\<close>

definition is_space :: "char \<Rightarrow> bool" where
  "is_space c \<longleftrightarrow> c \<in> {CHR 0x09, CHR 0x0A, CHR 0x0B, CHR 0x0C, CHR 0x0D,
                       CHR 0x1C, CHR 0x1D, CHR 0x1E, CHR 0x1F, CHR 0x20}"

definition newline :: char where
  "newline = CHR 0x0A"

section \<open>Decimal numbers\<close>

definition digit_val :: "char \<Rightarrow> nat" where
  "digit_val c = (case index_of c DIGITS of Some i \<Rightarrow> i | None \<Rightarrow> 0)"

fun show_nat :: "nat \<Rightarrow> string" where
  "show_nat n = (if n < 10 then [DIGITS ! n] else show_nat (n div 10) @ [DIGITS ! (n mod 10)])"

declare show_nat.simps [simp del]

definition show_int :: "int \<Rightarrow> string" where
  "show_int i = (if i < 0 then CHR ''-'' # show_nat (nat (- i)) else show_nat (nat i))"

definition nat_of_digits :: "string \<Rightarrow> nat" where
  "nat_of_digits s = foldl (\<lambda>a c. a * 10 + digit_val c) 0 s"

text \<open>\<open>s.isdigit()\<close>: not empty, and every character a digit.\<close>

definition isdigit :: "string \<Rightarrow> bool" where
  "isdigit s \<longleftrightarrow> s \<noteq> [] \<and> list_all is_digit s"

lemma DIGITS_nth: "n < 10 \<Longrightarrow> digit_val (DIGITS ! n) = n \<and> is_digit (DIGITS ! n)"
proof -
  assume "n < 10"
  then have "n \<in> {0, 1, 2, 3, 4, 5, 6, 7, 8, 9}" by auto
  then show ?thesis
    by (auto simp: DIGITS_def digit_val_def is_digit_def)
qed

lemma nat_of_digits_snoc: "nat_of_digits (s @ [c]) = nat_of_digits s * 10 + digit_val c"
  by (simp add: nat_of_digits_def)

lemma nat_of_digits_show [simp]: "nat_of_digits (show_nat n) = n"
proof (induction n rule: show_nat.induct)
  case (1 n)
  show ?case
  proof (cases "n < 10")
    case True
    then show ?thesis
      by (subst show_nat.simps) (simp add: nat_of_digits_def DIGITS_nth)
  next
    case False
    with 1 show ?thesis
      by (subst show_nat.simps) (simp add: nat_of_digits_snoc DIGITS_nth)
  qed
qed

lemma show_nat_inject [simp]: "show_nat m = show_nat n \<longleftrightarrow> m = n"
  by (metis nat_of_digits_show)

lemma isdigit_show_nat [simp]: "isdigit (show_nat n)"
proof (induction n rule: show_nat.induct)
  case (1 n)
  show ?case
  proof (cases "n < 10")
    case True
    then show ?thesis by (subst show_nat.simps) (simp add: isdigit_def DIGITS_nth)
  next
    case False
    with 1 show ?thesis by (subst show_nat.simps) (simp add: isdigit_def DIGITS_nth)
  qed
qed

lemma show_nat_no_dash: "CHR ''-'' \<notin> set (show_nat n)"
proof -
  have "list_all is_digit (show_nat n)" using isdigit_show_nat[of n] by (simp add: isdigit_def)
  moreover have "\<not> is_digit (CHR ''-'')" by (simp add: is_digit_def DIGITS_def)
  ultimately show ?thesis by (auto simp: list_all_iff)
qed

lemma show_int_inject [simp]: "show_int i = show_int j \<longleftrightarrow> i = j"
proof
  assume eq: "show_int i = show_int j"
  have dash: "\<And>n xs. show_nat n \<noteq> CHR ''-'' # xs"
    using show_nat_no_dash by (metis list.set_intros(1))
  show "i = j"
    using eq by (auto simp: show_int_def dash dash[symmetric] split: if_splits)
qed simp

section \<open>Trimming and splitting\<close>

definition lstrip :: "string \<Rightarrow> string" where
  "lstrip s = dropWhile is_space s"

definition rstrip :: "string \<Rightarrow> string" where
  "rstrip s = rev (dropWhile is_space (rev s))"

definition strip :: "string \<Rightarrow> string" where
  "strip s = rstrip (lstrip s)"

text \<open>
  \<open>int(s)\<close> on a text: surrounding blanks, an optional sign and digits. The digit separator
  \<open>_\<close> of Python's literals is not read.
\<close>

definition int_of_text :: "string \<Rightarrow> int option" where
  "int_of_text s =
     (case strip s of
        [] \<Rightarrow> None
      | c # cs \<Rightarrow>
          if c = CHR ''-'' then (if isdigit cs then Some (- int (nat_of_digits cs)) else None)
          else if c = CHR ''+'' then (if isdigit cs then Some (int (nat_of_digits cs)) else None)
          else if isdigit (c # cs) then Some (int (nat_of_digits (c # cs))) else None)"

text \<open>\<open>s.split(c)\<close>: the fields between the separators, empty ones included.\<close>

fun split_on :: "char \<Rightarrow> string \<Rightarrow> string list" where
  "split_on c [] = [[]]"
| "split_on c (x # xs) =
     (if x = c then [] # split_on c xs
      else (case split_on c xs of [] \<Rightarrow> [[x]] | y # ys \<Rightarrow> (x # y) # ys))"

text \<open>\<open>c.join(xs)\<close>\<close>

fun join_with :: "char \<Rightarrow> string list \<Rightarrow> string" where
  "join_with c [] = []"
| "join_with c [x] = x"
| "join_with c (x # y # ys) = x @ c # join_with c (y # ys)"

lemma split_on_not_Nil [simp]: "split_on c s \<noteq> []"
  by (induction s) (auto split: list.splits)

lemma join_split: "join_with c (split_on c s) = s"
proof (induction s)
  case Nil
  then show ?case by simp
next
  case (Cons x xs)
  show ?case
  proof (cases "split_on c xs")
    case Nil
    then show ?thesis by simp
  next
    case (Cons y ys)
    with Cons.IH show ?thesis by (cases ys) auto
  qed
qed

lemma split_on_no_sep: "c \<notin> set s \<Longrightarrow> split_on c s = [s]"
  by (induction s) auto

lemma split_on_append: "c \<notin> set s \<Longrightarrow> split_on c (s @ c # t) = s # split_on c t"
  by (induction s) auto

lemma split_join: "xs \<noteq> [] \<Longrightarrow> \<forall>x\<in>set xs. c \<notin> set x \<Longrightarrow> split_on c (join_with c xs) = xs"
  by (induction c xs rule: join_with.induct) (auto simp: split_on_no_sep split_on_append)

text \<open>\<open>s.split(None, n)\<close>: at most \<open>n\<close> cuts at runs of blanks; the rest keeps its inner blanks.\<close>

fun split_ws :: "nat \<Rightarrow> string \<Rightarrow> string list" where
  "split_ws n s =
     (case lstrip s of
        [] \<Rightarrow> []
      | t \<Rightarrow> (case n of
                0 \<Rightarrow> [t]
              | Suc m \<Rightarrow> takeWhile (\<lambda>c. \<not> is_space c) t # split_ws m (dropWhile (\<lambda>c. \<not> is_space c) t)))"

declare split_ws.simps [simp del]

text \<open>The lines of a text cut at line feeds, without a last empty one (\<open>splitlines\<close> on a text
  whose only line ends are line feeds).\<close>

definition split_lines :: "string \<Rightarrow> string list" where
  "split_lines s = (let ls = split_on newline s in if last ls = [] then butlast ls else ls)"

lemma strip_not_space:
  "(\<forall>c\<in>set s. \<not> is_space c) \<Longrightarrow> strip s = s"
proof -
  assume a: "\<forall>c\<in>set s. \<not> is_space c"
  then have l: "lstrip s = s" by (cases s) (auto simp: lstrip_def)
  from a have "rev (dropWhile is_space (rev s)) = s" by (cases "rev s") (auto simp: rev_swap)
  with l show ?thesis by (simp add: strip_def rstrip_def)
qed

lemma digit_not_space: "is_digit c \<Longrightarrow> \<not> is_space c"
  by (auto simp: is_digit_def DIGITS_def is_space_def)

lemma int_of_text_show: "int_of_text (show_int i) = Some i"
proof -
  have d: "\<forall>c\<in>set (show_nat n). is_digit c" for n
    using isdigit_show_nat[of n] by (auto simp: isdigit_def list_all_iff)
  have "strip (show_nat n) = show_nat n" for n
    by (rule strip_not_space) (use d digit_not_space in blast)
  moreover have "strip (CHR ''-'' # show_nat n) = CHR ''-'' # show_nat n" for n
    by (rule strip_not_space) (use d digit_not_space in \<open>auto simp: is_space_def\<close>)
  moreover obtain c cs where c: "show_nat (nat i) = c # cs" "is_digit c"
    using isdigit_show_nat[of "nat i"] by (cases "show_nat (nat i)") (auto simp: isdigit_def)
  moreover from c(2) have "c \<noteq> CHR ''-''" "c \<noteq> CHR ''+''"
    by (auto simp: is_digit_def DIGITS_def)
  moreover from calculation have "strip (c # cs) = c # cs" by metis
  ultimately show ?thesis
    using isdigit_show_nat[of "nat i"] nat_of_digits_show[of "nat i"]
    by (auto simp: int_of_text_def show_int_def)
qed

end
