(* ===== verification/Slugs.thy ===== *)
theory Slugs
  imports Py_Text
begin

text \<open>
  Slugs and the command-line marker (\<open>state.py\<close>): the alphabet of a slug, the
  path-traversal guard \<open>validate_slug\<close>, and the search for a whole slug token in a process
  command line that every liveness probe and every reap rests on.
\<close>

section \<open>The slug pattern\<close>

text \<open>\<open>_SLUG_CHARS = a-z0-9_-\<close>\<close>

definition SLUG_CHARS :: string where
  "SLUG_CHARS = ''abcdefghijklmnopqrstuvwxyz0123456789_-''"

definition is_slug_char :: "char \<Rightarrow> bool" where
  "is_slug_char c \<longleftrightarrow> c \<in> set SLUG_CHARS"

text \<open>The first character: the alphabet without \<open>_\<close> and \<open>-\<close>.\<close>

definition is_slug_head :: "char \<Rightarrow> bool" where
  "is_slug_head c \<longleftrightarrow> is_slug_char c \<and> c \<noteq> CHR ''_'' \<and> c \<noteq> CHR ''-''"

text \<open>\<open>SLUG_PATTERN\<close>, one head and at most 63 further characters, over a whole text.\<close>

definition slug_pattern :: "string \<Rightarrow> bool" where
  "slug_pattern s \<longleftrightarrow>
     (case s of [] \<Rightarrow> False | c # cs \<Rightarrow> is_slug_head c \<and> length cs \<le> 63 \<and> list_all is_slug_char cs)"

text \<open>
  \<open>_SLUG_RE.match\<close>: the pattern between \<open>^\<close> and \<open>$\<close>, and Python's \<open>$\<close> also matches just
  before a line feed that ends the text.
\<close>

definition slug_re_match :: "string \<Rightarrow> bool" where
  "slug_re_match s \<longleftrightarrow>
     slug_pattern s \<or> (s \<noteq> [] \<and> last s = newline \<and> slug_pattern (butlast s))"

definition validate_slug :: "string \<Rightarrow> unit res" where
  "validate_slug slug = guard_res (slug_re_match slug) (InvalidSlug slug)"

lemma validate_slug_Inr [simp]: "validate_slug s = Inr u \<longleftrightarrow> slug_re_match s"
  by (simp add: validate_slug_def)

lemma validate_slug_Inl: "validate_slug s = Inl e \<longleftrightarrow> \<not> slug_re_match s \<and> e = InvalidSlug s"
  by (simp add: validate_slug_def)

lemmas slug_eval = slug_re_match_def slug_pattern_def is_slug_head_def is_slug_char_def
  SLUG_CHARS_def newline_def

lemma slug_char_cases: "is_slug_char c \<Longrightarrow> c \<noteq> CHR ''/'' \<and> c \<noteq> CHR ''.'' \<and> c \<noteq> CHR 0x00 \<and> c \<noteq> newline \<and> \<not> is_space c"
  by (auto simp: is_slug_char_def SLUG_CHARS_def newline_def is_space_def)

lemma slug_pattern_chars: "slug_pattern s \<Longrightarrow> c \<in> set s \<Longrightarrow> is_slug_char c"
  by (auto simp: slug_pattern_def is_slug_head_def list_all_iff split: list.splits)

lemma slug_re_cases:
  assumes "slug_re_match s"
  obtains "slug_pattern s" | t where "s = t @ [newline]" "slug_pattern t"
  using assms unfolding slug_re_match_def by (metis append_butlast_last_id)

lemma slug_re_chars: "slug_re_match s \<Longrightarrow> c \<in> set s \<Longrightarrow> is_slug_char c \<or> c = newline"
  by (erule slug_re_cases) (auto dest: slug_pattern_chars)

lemma slug_pattern_shape: "slug_pattern s \<Longrightarrow> s \<noteq> [] \<and> length s \<le> 64 \<and> is_slug_head (hd s)"
  by (auto simp: slug_pattern_def split: list.splits)

text \<open>
  path-traversal guard. A slug that \<open>validate_slug\<close> accepts is not empty, is at most 65 bytes
  long, and holds neither a path separator, nor a dot, nor a NUL, nor a blank other than at
  most the single trailing line feed Python's \<open>$\<close> lets through.
\<close>

theorem validate_slug_safe:
  assumes "validate_slug s = Inr ()"
  shows "s \<noteq> [] \<and> length s \<le> 65 \<and> CHR ''/'' \<notin> set s \<and> CHR ''.'' \<notin> set s \<and> CHR 0x00 \<notin> set s
    \<and> (\<forall>c\<in>set (butlast s). is_slug_char c) \<and> is_slug_head (hd s)"
proof -
  have m: "slug_re_match s" using assms by simp
  have ch: "c \<in> set s \<Longrightarrow> is_slug_char c \<or> c = newline" for c using m slug_re_chars by blast
  have sep: "c \<notin> set s" if "c = CHR ''/'' \<or> c = CHR ''.'' \<or> c = CHR 0x00" for c
    using ch[of c] that slug_char_cases[of c] by (auto simp: newline_def)
  have rest: "s \<noteq> [] \<and> length s \<le> 65 \<and> (\<forall>c\<in>set (butlast s). is_slug_char c) \<and> is_slug_head (hd s)"
    using m
  proof (cases rule: slug_re_cases)
    case 1
    then show ?thesis
      using slug_pattern_shape[OF 1] slug_pattern_chars[OF 1] in_set_butlastD[of _ s] by auto
  next
    case (2 t)
    then show ?thesis
      using slug_pattern_shape[OF 2(2)] slug_pattern_chars[OF 2(2)] by auto
  qed
  show ?thesis using rest sep by blast
qed

theorem validate_slug_safe_witness:
  "validate_slug ''w1_foo-2'' = Inr () \<and> CHR ''/'' \<notin> set ''w1_foo-2''"
proof -
  have "validate_slug ''w1_foo-2'' = Inr ()" by (simp add: slug_eval)
  with validate_slug_safe[OF this] show ?thesis by metis
qed

text \<open>The finding behind the trailing line feed: such a text passes the guard.\<close>

lemma validate_slug_trailing_newline: "validate_slug (''abc'' @ [newline]) = Inr ()"
  by (simp add: slug_eval)

section \<open>The command-line marker\<close>

text \<open>The negative look-ahead at the end of the marker.\<close>

definition bounded_right :: "string \<Rightarrow> bool" where
  "bounded_right t \<longleftrightarrow> (case t of [] \<Rightarrow> True | c # _ \<Rightarrow> \<not> is_slug_char c)"

text \<open>
  \<open>re.search\<close> tries the positions from left to right; \<open>prev\<close> says whether the character before
  the position is a slug character (the negative look-behind).
\<close>

fun marker_scan :: "bool \<Rightarrow> string \<Rightarrow> string \<Rightarrow> bool" where
  "marker_scan prev m s =
     ((\<not> prev \<and> prefix m s \<and> bounded_right (drop (length m) s)) \<or>
      (case s of [] \<Rightarrow> False | c # cs \<Rightarrow> marker_scan (is_slug_char c) m cs))"

declare marker_scan.simps [simp del]

definition cmdline_marker_present :: "string \<Rightarrow> string \<Rightarrow> bool" where
  "cmdline_marker_present cmdline marker = marker_scan False marker cmdline"

definition bounded_left :: "string \<Rightarrow> bool" where
  "bounded_left t \<longleftrightarrow> t = [] \<or> \<not> is_slug_char (last t)"

lemma marker_scan_iff:
  "marker_scan prev m s \<longleftrightarrow>
     (\<exists>pre post. s = pre @ m @ post \<and> bounded_right post
        \<and> (if pre = [] then \<not> prev else \<not> is_slug_char (last pre)))"
proof (induction s arbitrary: prev)
  case Nil
  show ?case by (subst marker_scan.simps) auto
next
  case (Cons c cs)
  have here: "(\<exists>post. c # cs = m @ post \<and> bounded_right post)
      \<longleftrightarrow> prefix m (c # cs) \<and> bounded_right (drop (length m) (c # cs))"
    by (auto simp: prefix_def)
  show ?case
  proof
    assume "marker_scan prev m (c # cs)"
    then consider "\<not> prev" "prefix m (c # cs)" "bounded_right (drop (length m) (c # cs))"
      | "marker_scan (is_slug_char c) m cs"
      by (subst (asm) marker_scan.simps) auto
    then show "\<exists>pre post. c # cs = pre @ m @ post \<and> bounded_right post
        \<and> (if pre = [] then \<not> prev else \<not> is_slug_char (last pre))"
    proof cases
      case 1
      then show ?thesis using here by (metis append_Nil)
    next
      case 2
      then obtain pre post where "cs = pre @ m @ post" "bounded_right post"
        "if pre = [] then \<not> is_slug_char c else \<not> is_slug_char (last pre)"
        using Cons.IH by blast
      then show ?thesis by (intro exI[of _ "c # pre"] exI[of _ post]) (auto split: if_splits)
    qed
  next
    assume "\<exists>pre post. c # cs = pre @ m @ post \<and> bounded_right post
        \<and> (if pre = [] then \<not> prev else \<not> is_slug_char (last pre))"
    then obtain pre post where p: "c # cs = pre @ m @ post" "bounded_right post"
      "if pre = [] then \<not> prev else \<not> is_slug_char (last pre)" by blast
    show "marker_scan prev m (c # cs)"
    proof (cases pre)
      case Nil
      then show ?thesis using p here by (subst marker_scan.simps) auto
    next
      case (Cons d pre')
      then have "\<exists>pre post. cs = pre @ m @ post \<and> bounded_right post
        \<and> (if pre = [] then \<not> is_slug_char c else \<not> is_slug_char (last pre))"
        using p by (intro exI[of _ pre'] exI[of _ post]) (auto split: if_splits)
      then show ?thesis using Cons.IH by (subst marker_scan.simps) simp
    qed
  qed
qed

lemma cmdline_marker_iff:
  "cmdline_marker_present s m \<longleftrightarrow>
     (\<exists>pre post. s = pre @ m @ post \<and> bounded_left pre \<and> bounded_right post)"
  unfolding cmdline_marker_present_def marker_scan_iff bounded_left_def by auto

text \<open>The maximal runs of slug characters of a command line.\<close>

fun slug_tokens_acc :: "string \<Rightarrow> string \<Rightarrow> string list" where
  "slug_tokens_acc acc [] = (if acc = [] then [] else [acc])"
| "slug_tokens_acc acc (c # cs) =
     (if is_slug_char c then slug_tokens_acc (acc @ [c]) cs
      else (if acc = [] then [] else [acc]) @ slug_tokens_acc [] cs)"

definition slug_tokens :: "string \<Rightarrow> string list" where
  "slug_tokens s = slug_tokens_acc [] s"

lemma slug_tokens_acc_iff:
  assumes "list_all is_slug_char acc" "list_all is_slug_char m" "m \<noteq> []"
  shows "m \<in> set (slug_tokens_acc acc s) \<longleftrightarrow>
    (\<exists>pre post. acc @ s = pre @ m @ post \<and> bounded_left pre \<and> bounded_right post)"
  using assms
proof (induction acc s rule: slug_tokens_acc.induct)
  case (1 acc)
  have "acc = m" if "acc = pre @ m @ post" "bounded_left pre" "bounded_right post" for pre post
  proof -
    have "post = []" using that 1(1) by (auto simp: bounded_right_def list_all_iff split: list.splits)
    moreover have "pre = []" using that 1(1) by (auto simp: bounded_left_def list_all_iff)
    ultimately show ?thesis using that by simp
  qed
  moreover have "\<exists>pre post. m = pre @ m @ post \<and> bounded_left pre \<and> bounded_right post"
    by (intro exI[of _ "[]"]) (simp add: bounded_left_def bounded_right_def)
  ultimately have "(\<exists>pre post. acc = pre @ m @ post \<and> bounded_left pre \<and> bounded_right post) \<longleftrightarrow> acc = m"
    by metis
  then show ?case using 1(3) by auto
next
  case (2 acc c cs)
  show ?case
  proof (cases "is_slug_char c")
    case True
    then show ?thesis using 2 by simp
  next
    case False
    have IH: "m \<in> set (slug_tokens_acc [] cs) \<longleftrightarrow>
       (\<exists>pre post. cs = pre @ m @ post \<and> bounded_left pre \<and> bounded_right post)"
      using 2 False by simp
    have m: "c \<notin> set m" using 2(4) False by (auto simp: list_all_iff)
    show ?thesis
    proof
      assume "m \<in> set (slug_tokens_acc acc (c # cs))"
      then consider "m = acc" | "m \<in> set (slug_tokens_acc [] cs)" using False by (auto split: if_splits)
      then show "\<exists>pre post. acc @ c # cs = pre @ m @ post \<and> bounded_left pre \<and> bounded_right post"
      proof cases
        case 1
        then show ?thesis using False
          by (intro exI[of _ "[]"] exI[of _ "c # cs"]) (simp add: bounded_left_def bounded_right_def)
      next
        case 2
        then obtain pre post where "cs = pre @ m @ post" "bounded_left pre" "bounded_right post"
          using IH by blast
        then show ?thesis using False
          by (intro exI[of _ "acc @ c # pre"] exI[of _ post]) (auto simp: bounded_left_def)
      qed
    next
      assume "\<exists>pre post. acc @ c # cs = pre @ m @ post \<and> bounded_left pre \<and> bounded_right post"
      then obtain pre post where p: "acc @ c # cs = pre @ m @ post" "bounded_left pre" "bounded_right post"
        by blast
      from p(1) consider us where "acc = pre @ us" "m @ post = us @ c # cs"
        | us where "acc @ us = pre" "c # cs = us @ m @ post"
        using append_eq_append_conv2[of acc "c # cs" pre "m @ post"] by metis
      then show "m \<in> set (slug_tokens_acc acc (c # cs))"
      proof cases
        case (1 us)
        have pre: "pre = []" using 1(1) p(2) 2(3) by (auto simp: bounded_left_def list_all_iff)
        from 1(2) obtain vs where "m = us @ vs \<and> vs @ post = c # cs \<or> m @ vs = us \<and> post = vs @ c # cs"
          using append_eq_append_conv2[of m post us "c # cs"] by metis
        then have "m = acc"
          using pre 1(1) m p(3) 2(3)
          by (cases vs) (auto simp: bounded_right_def list_all_iff)
        then show ?thesis using False 2(5) by simp
      next
        case (2 us)
        show ?thesis
        proof (cases us)
          case Nil
          then show ?thesis using 2(2) m \<open>m \<noteq> []\<close> by (cases m) auto
        next
          case (Cons d us')
          then have "cs = us' @ m @ post" "bounded_left us'" using 2 p(2) by (auto simp: bounded_left_def split: if_splits)
          then show ?thesis using IH p(3) False by auto
        qed
      qed
    qed
  qed
qed

text \<open>
  The marker test is token membership: for a slug as marker, the regular expression's
  search succeeds exactly when the slug is one of the maximal runs of slug characters of the
  command line. So \<open>w1\<close> is found in \<open>--plan=w1\<close> and never inside \<open>w1-foo\<close>.
\<close>

theorem cmdline_marker_is_token:
  assumes "slug_pattern m"
  shows "cmdline_marker_present s m \<longleftrightarrow> m \<in> set (slug_tokens s)"
proof -
  have m: "list_all is_slug_char m" "m \<noteq> []"
    using slug_pattern_chars[OF assms] assms by (auto simp: list_all_iff slug_pattern_def)
  then show ?thesis
    using slug_tokens_acc_iff[of "[]" m s] by (simp add: slug_tokens_def cmdline_marker_iff)
qed

theorem cmdline_marker_is_token_witness:
  "cmdline_marker_present ''clu --plan=w1 a'' ''w1'' \<and> \<not> cmdline_marker_present ''clu w1-foo'' ''w1''"
proof -
  have m: "slug_pattern ''w1''" by (simp add: slug_eval)
  show ?thesis
    unfolding cmdline_marker_is_token[OF m]
    by (simp add: slug_tokens_def is_slug_char_def SLUG_CHARS_def)
qed

end
