(* ===== verification/Processes.thy ===== *)
theory Processes
  imports Slugs
begin

text \<open>
  What the supervisor asks of the operating system about a worker: the liveness probe
  \<open>claim_worker_alive\<close>, the process-group reaper \<open>reap_orphan_pgroup\<close> (\<open>state.py\<close>), the
  \<open>ps\<close> parser and the process-tree walker (\<open>supervisor.py\<close>).

  The operating system is not under \<open>src/\<close>. Its answers are the record \<open>os_view\<close>, an argument
  of every operation; what the code sends to it (signals) is part of the result.
\<close>

section \<open>The operating system's answers\<close>

datatype kill_result = Delivered | NoSuchProcess | NotPermitted

text \<open>A subprocess call: it failed (timeout, \<open>OSError\<close>), or it exited with a code and an output.\<close>

datatype ps_result = PsFailed | PsExit int string

record os_view =
  own_pgid :: "int option"
  kill_probe :: "int \<Rightarrow> kill_result"
  ps_command :: "int \<Rightarrow> ps_result"
  ps_groups :: ps_result
  term_answer :: "int \<Rightarrow> kill_result"
  poll_answer :: "int \<Rightarrow> nat \<Rightarrow> kill_result"
  kill_answer :: "int \<Rightarrow> kill_result"
  ps_tree :: ps_result

section \<open>Liveness probe\<close>

text \<open>\<open>claim_worker_alive\<close>; the pid a claim carries is an integer whenever it is not null.\<close>

definition claim_worker_alive :: "os_view \<Rightarrow> obj \<Rightarrow> string option \<Rightarrow> bool" where
  "claim_worker_alive os claim cmdline_match =
     (case iget claim ''pid'' of
        None \<Rightarrow> True
      | Some pid \<Rightarrow>
          (case kill_probe os pid of
             NoSuchProcess \<Rightarrow> False
           | NotPermitted \<Rightarrow> True
           | Delivered \<Rightarrow>
               (case cmdline_match of
                  None \<Rightarrow> True
                | Some m \<Rightarrow>
                    (case ps_command os pid of
                       PsFailed \<Rightarrow> True
                     | PsExit rc out \<Rightarrow> if rc \<noteq> 0 then False else cmdline_marker_present out m))))"

section \<open>The group reaper\<close>

record reap_result =
  signaled :: "string option"
  escalated_kill :: bool
  cmdline_mismatch :: bool

datatype os_signal = Probe | Term | Kill

definition pgroup_member_cmdlines :: "os_view \<Rightarrow> int \<Rightarrow> string list" where
  "pgroup_member_cmdlines os pgid =
     (case ps_groups os of
        PsFailed \<Rightarrow> []
      | PsExit rc out \<Rightarrow>
          if rc \<noteq> 0 then []
          else concat (map (\<lambda>line.
            case split_ws 1 line of
              [pg, cmd] \<Rightarrow> if isdigit pg \<and> int (nat_of_digits pg) = pgid then [cmd] else []
            | _ \<Rightarrow> []) (split_lines out)))"

text \<open>
  The poll loop: \<open>n\<close> polls are left, \<open>i\<close> is the number of the next one. It stops at the first
  poll that finds no process; a delivered or refused probe polls again. The result is the
  number of polls made and whether the group was seen to be gone.
\<close>

fun poll_group :: "os_view \<Rightarrow> int \<Rightarrow> nat \<Rightarrow> nat \<Rightarrow> nat \<times> bool" where
  "poll_group os pgid 0 i = (i, False)"
| "poll_group os pgid (Suc n) i =
     (case poll_answer os pgid i of
        NoSuchProcess \<Rightarrow> (Suc i, True)
      | NotPermitted \<Rightarrow> poll_group os pgid n (Suc i)
      | Delivered \<Rightarrow> poll_group os pgid n (Suc i))"

definition no_reap :: "bool \<Rightarrow> reap_result" where
  "no_reap mismatch = \<lparr>signaled = None, escalated_kill = False, cmdline_mismatch = mismatch\<rparr>"

text \<open>\<open>reap_orphan_pgroup\<close>: the result and the \<open>killpg\<close> calls it made, in order.\<close>

definition reap_orphan_pgroup ::
    "os_view \<Rightarrow> int \<Rightarrow> string option \<Rightarrow> reap_result \<times> (int \<times> os_signal) list" where
  "reap_orphan_pgroup os pgid cmdline_match =
     (if pgid \<le> 0 \<or> own_pgid os = Some pgid then (no_reap False, [])
      else
        let members = pgroup_member_cmdlines os pgid in
        if (case cmdline_match of None \<Rightarrow> False
            | Some m \<Rightarrow> \<not> list_ex (\<lambda>cmd. cmdline_marker_present cmd m) members)
        then (no_reap (members \<noteq> []), [])
        else if term_answer os pgid \<noteq> Delivered then (no_reap False, [(pgid, Term)])
        else
          let (polls, gone) = poll_group os pgid 20 0;
              sent = (pgid, Term) # replicate polls (pgid, Probe)
          in if gone
             then (\<lparr>signaled = Some ''SIGTERM'', escalated_kill = False, cmdline_mismatch = False\<rparr>, sent)
             else (\<lparr>signaled = Some ''SIGTERM+SIGKILL'', escalated_kill = True,
                    cmdline_mismatch = False\<rparr>, sent @ [(pgid, Kill)]))"

lemma poll_group_not_gone:
  "poll_group os pgid n i = (k, False) \<Longrightarrow>
     k = i + n \<and> (\<forall>j. i \<le> j \<and> j < i + n \<longrightarrow> poll_answer os pgid j \<noteq> NoSuchProcess)"
proof (induction n arbitrary: i)
  case (Suc n)
  then have a: "poll_answer os pgid i \<noteq> NoSuchProcess" "poll_group os pgid n (Suc i) = (k, False)"
    by (auto split: kill_result.splits)
  from Suc.IH[OF a(2)] a(1) show ?case
    by (metis Suc_leI add_Suc_right add_Suc_shift le_eq_less_or_eq)
qed auto

lemma poll_group_gone:
  "poll_group os pgid n i = (k, True) \<Longrightarrow> i < k \<and> k \<le> i + n \<and> poll_answer os pgid (k - 1) = NoSuchProcess"
proof (induction n arbitrary: i)
  case (Suc n)
  then show ?case by (auto split: kill_result.splits dest!: Suc.IH)
qed auto

lemma reap_target: "(g, s) \<in> set (snd (reap_orphan_pgroup os pgid m)) \<Longrightarrow> g = pgid"
  by (auto simp: reap_orphan_pgroup_def Let_def split: if_splits prod.splits option.splits)

text \<open>
  C21 The reaper never signals its caller, and never a group that it cannot tie to the plan.
  Every \<open>killpg\<close> it makes goes to the requested group, that group is neither 0 nor negative
  nor the caller's own, and when a marker is given at least one live member of the group
  carries it as a whole token.
\<close>

theorem reap_signals_only_matched_group:
  assumes "(g, s) \<in> set (snd (reap_orphan_pgroup os pgid match))"
  shows "g = pgid \<and> pgid > 0 \<and> own_pgid os \<noteq> Some pgid
    \<and> (\<forall>m. match = Some m \<longrightarrow>
         (\<exists>cmd \<in> set (pgroup_member_cmdlines os pgid). cmdline_marker_present cmd m))"
  using assms
  by (auto simp: reap_orphan_pgroup_def Let_def list_ex_iff split: if_splits prod.splits option.splits)

text \<open>
  Escalation order. \<open>SIGTERM\<close> is always the first signal, it is sent at most once, and
  \<open>SIGKILL\<close> is sent exactly when the result says so, as the last signal and only after twenty
  probes none of which found the group gone.
\<close>

theorem reap_escalation:
  "(case snd (reap_orphan_pgroup os pgid match) of
      [] \<Rightarrow> \<not> escalated_kill (fst (reap_orphan_pgroup os pgid match))
    | sig # rest \<Rightarrow> sig = (pgid, Term) \<and> (pgid, Term) \<notin> set rest
        \<and> (escalated_kill (fst (reap_orphan_pgroup os pgid match)) \<longleftrightarrow> (pgid, Kill) \<in> set rest)
        \<and> ((pgid, Kill) \<in> set rest \<longrightarrow>
             rest = replicate 20 (pgid, Probe) @ [(pgid, Kill)]
             \<and> (\<forall>j<20. poll_answer os pgid j \<noteq> NoSuchProcess)))"
proof -
  obtain k gone where p: "poll_group os pgid 20 0 = (k, gone)" by (cases "poll_group os pgid 20 0")
  show ?thesis
  proof (cases gone)
    case True
    then show ?thesis using p by (auto simp: reap_orphan_pgroup_def Let_def no_reap_def split: option.splits)
  next
    case False
    with p have "k = 20" "\<forall>j<20. poll_answer os pgid j \<noteq> NoSuchProcess"
      using poll_group_not_gone[of os pgid 20 0 k] by auto
    then show ?thesis using p False
      by (auto simp: reap_orphan_pgroup_def Let_def no_reap_def split: option.splits)
  qed
qed

definition example_os :: os_view where
  "example_os = \<lparr>own_pgid = Some 7, kill_probe = (\<lambda>_. Delivered),
     ps_command = (\<lambda>_. PsExit 0 ''claude /clu-phase w1 a''),
     ps_groups = PsExit 0 (''42 clu heartbeat --plan w1'' @ [newline] @ ''43 sh''),
     term_answer = (\<lambda>_. Delivered), poll_answer = (\<lambda>_ i. if i < 2 then Delivered else NoSuchProcess),
     kill_answer = (\<lambda>_. Delivered),
     ps_tree = PsExit 0 (''  PID  PPID ELAPSED TIME COMMAND'' @ [newline] @
        ''42 1 10:00 0:01.50 claude'' @ [newline] @
        ''50 42 05:00 0:00.10 xcodebuild test'' @ [newline] @
        ''51 50 04:00 0:00.00 sim'')\<rparr>"

definition stubborn_os :: os_view where
  "stubborn_os = example_os\<lparr>poll_answer := (\<lambda>_ _. Delivered)\<rparr>"

theorem reap_signals_only_matched_group_witness:
  "(42, Kill) \<in> set (snd (reap_orphan_pgroup stubborn_os 42 (Some ''w1'')))
   \<and> (\<exists>cmd \<in> set (pgroup_member_cmdlines stubborn_os 42). cmdline_marker_present cmd ''w1'')
   \<and> snd (reap_orphan_pgroup stubborn_os 42 (Some ''w2'')) = []"
proof -
  have "(42, Kill) \<in> set (snd (reap_orphan_pgroup stubborn_os 42 (Some ''w1'')))"
    "snd (reap_orphan_pgroup stubborn_os 42 (Some ''w2'')) = []"
    by code_simp+
  with reap_signals_only_matched_group[of 42 Kill stubborn_os 42 "Some ''w1''"] show ?thesis by simp
qed

theorem reap_escalation_witness:
  "(42, Kill) \<in> set (snd (reap_orphan_pgroup stubborn_os 42 (Some ''w1'')))
   \<and> escalated_kill (fst (reap_orphan_pgroup stubborn_os 42 (Some ''w1'')))
   \<and> poll_answer stubborn_os 42 19 \<noteq> NoSuchProcess"
proof -
  have s: "snd (reap_orphan_pgroup stubborn_os 42 (Some ''w1'')) =
      (42, Term) # replicate 20 (42, Probe) @ [(42, Kill)]"
    by code_simp
  show ?thesis using reap_escalation[of stubborn_os 42 "Some ''w1''"] unfolding s by simp
qed

section \<open>The process table\<close>

record descendant =
  dpid :: int
  parent_pid :: int
  elapsed_seconds :: rat
  cpu_seconds :: rat
  command :: string

text \<open>\<open>s.split(c, 1)\<close> on a text that holds \<open>c\<close>.\<close>

definition cut_at :: "char \<Rightarrow> string \<Rightarrow> string \<times> string" where
  "cut_at c s = (takeWhile (\<lambda>x. x \<noteq> c) s, drop 1 (dropWhile (\<lambda>x. x \<noteq> c) s))"

text \<open>
  \<open>float("0." + s)\<close> for a run of digits, exactly; the texts with an exponent or a blank that
  \<open>float\<close> also reads are not produced by \<open>ps\<close> and are taken as rejected.
\<close>

definition fraction_of :: "string \<Rightarrow> rat option" where
  "fraction_of s = (if list_all is_digit s
     then Some (of_nat (nat_of_digits s) / 10 ^ length s) else None)"

text \<open>\<open>[int(p) for p in parts]\<close>\<close>

fun ints_of :: "string list \<Rightarrow> int list option" where
  "ints_of [] = Some []"
| "ints_of (p # ps) =
     (case int_of_text p of None \<Rightarrow> None | Some i \<Rightarrow> map_option (Cons i) (ints_of ps))"

text \<open>The clock part \<open>[[hh:]mm:]ss\<close> and the days, once the fraction has been cut off.\<close>

definition clock_seconds :: "int \<Rightarrow> rat \<Rightarrow> string \<Rightarrow> rat" where
  "clock_seconds days fraction s =
     (case ints_of (split_on CHR '':'' s) of
        None \<Rightarrow> 0
      | Some ns \<Rightarrow>
          (let nums = replicate (3 - length ns) 0 @ ns;
               n = length nums
           in of_int (days * 86400 + nums ! (n - 3) * 3600 + nums ! (n - 2) * 60 + nums ! (n - 1))
              + fraction))"

definition parse_duration :: "string \<Rightarrow> rat" where
  "parse_duration raw =
     (let s = strip raw in
      if s = [] \<or> s = ''-'' then 0
      else
        case (if CHR ''-'' \<in> set s
              then map_option (\<lambda>d. (d, snd (cut_at CHR ''-'' s))) (int_of_text (fst (cut_at CHR ''-'' s)))
              else Some (0, s)) of
          None \<Rightarrow> 0
        | Some (days, t) \<Rightarrow>
            if CHR ''.'' \<in> set t
            then (case fraction_of (snd (cut_at CHR ''.'' t)) of
                    None \<Rightarrow> 0
                  | Some f \<Rightarrow> clock_seconds days f (fst (cut_at CHR ''.'' t)))
            else clock_seconds days 0 t)"

definition parse_ps_line :: "string \<Rightarrow> descendant list" where
  "parse_ps_line line =
     (case split_ws 4 (strip line) of
        [p, pp, el, cpu, cmd] \<Rightarrow>
          (case (int_of_text p, int_of_text pp) of
             (Some pid, Some ppid) \<Rightarrow>
               [\<lparr>dpid = pid, parent_pid = ppid, elapsed_seconds = parse_duration el,
                 cpu_seconds = parse_duration cpu, command = cmd\<rparr>]
           | _ \<Rightarrow> [])
      | _ \<Rightarrow> [])"

definition parse_ps_output :: "string \<Rightarrow> descendant list" where
  "parse_ps_output raw =
     (let lines = split_on newline (strip raw);
          start = (if isdigit (take 1 (lstrip (hd lines))) then 0 else 1)
      in concat (map parse_ps_line (drop start lines)))"

text \<open>\<open>capture_ps_snapshot\<close>\<close>

definition capture_ps_snapshot :: "os_view \<Rightarrow> string" where
  "capture_ps_snapshot os =
     (case ps_tree os of PsFailed \<Rightarrow> [] | PsExit rc out \<Rightarrow> if rc = 0 then out else [])"

section \<open>The process-tree walker\<close>

definition children_of :: "descendant list \<Rightarrow> int \<Rightarrow> descendant list" where
  "children_of procs p = filter (\<lambda>d. parent_pid d = p) procs"

text \<open>The inner loop over the children of one process: the seen set, the queue and the output.\<close>

fun visit_children ::
    "descendant list \<Rightarrow> int set \<Rightarrow> int list \<Rightarrow> descendant list \<Rightarrow> int set \<times> int list \<times> descendant list" where
  "visit_children [] seen queue out = (seen, queue, out)"
| "visit_children (c # cs) seen queue out =
     (if dpid c \<in> seen then visit_children cs seen queue out
      else visit_children cs (insert (dpid c) seen) (queue @ [dpid c]) (out @ [c]))"

definition unseen :: "descendant list \<Rightarrow> int set \<Rightarrow> nat" where
  "unseen procs seen = card (dpid ` set procs - seen)"

lemma unseen_insert:
  assumes "c \<in> set procs" "dpid c \<notin> seen"
  shows "Suc (unseen procs (insert (dpid c) seen)) = unseen procs seen"
proof -
  have "dpid ` set procs - insert (dpid c) seen = (dpid ` set procs - seen) - {dpid c}" by auto
  then show ?thesis
    using assms unfolding unseen_def by (metis Diff_iff List.finite_set card_Suc_Diff1 finite_Diff finite_imageI imageI)
qed

lemma visit_children_measure:
  "visit_children cs seen queue out = (seen', queue', out') \<Longrightarrow> set cs \<subseteq> set procs \<Longrightarrow>
     2 * unseen procs seen' + length queue' \<le> 2 * unseen procs seen + length queue"
proof (induction cs seen queue out rule: visit_children.induct)
  case (2 c cs seen queue out)
  then show ?case using unseen_insert[of c procs seen] by (fastforce split: if_splits)
qed simp

function bfs_walk ::
    "descendant list \<Rightarrow> int set \<Rightarrow> int list \<Rightarrow> descendant list \<Rightarrow> descendant list" where
  "bfs_walk procs seen [] out = out"
| "bfs_walk procs seen (current # queue) out =
     (case visit_children (children_of procs current) seen queue out of
        (seen', queue', out') \<Rightarrow> bfs_walk procs seen' queue' out')"
  by pat_completeness auto
termination
proof (relation "measure (\<lambda>(procs, seen, queue, out). 2 * unseen procs seen + length queue)", goal_cases)
  case 1
  show ?case by simp
next
  case (2 procs seen current queue out seen' rest queue' out')
  then have v: "visit_children (children_of procs current) seen queue out = (seen', queue', out')"
    by simp
  show ?case
    using visit_children_measure[OF v, of procs] by (auto simp: children_of_def)
qed

definition walk_tree :: "int \<Rightarrow> descendant list \<Rightarrow> descendant list" where
  "walk_tree root_pid procs = bfs_walk procs {root_pid} [root_pid] []"

text \<open>\<open>walk_worker_tree(root_pid, ps_output=...)\<close>\<close>

definition walk_worker_tree :: "int \<Rightarrow> string \<Rightarrow> descendant list" where
  "walk_worker_tree root_pid ps_output = walk_tree root_pid (parse_ps_output ps_output)"

definition child_edges :: "descendant list \<Rightarrow> (int \<times> int) set" where
  "child_edges procs = {(p, c). \<exists>d\<in>set procs. parent_pid d = p \<and> dpid d = c}"

definition reaches :: "descendant list \<Rightarrow> int \<Rightarrow> int \<Rightarrow> bool" where
  "reaches procs r p \<longleftrightarrow> (r, p) \<in> (child_edges procs)\<^sup>*"

definition closed_in :: "descendant list \<Rightarrow> int \<Rightarrow> int set \<Rightarrow> bool" where
  "closed_in procs p seen \<longleftrightarrow> dpid ` set (children_of procs p) \<subseteq> seen"

lemma edge_children: "(p, c) \<in> child_edges procs \<longleftrightarrow> c \<in> dpid ` set (children_of procs p)"
  by (auto simp: child_edges_def children_of_def)

lemma closed_in_mono: "closed_in procs p seen \<Longrightarrow> seen \<subseteq> seen' \<Longrightarrow> closed_in procs p seen'"
  by (auto simp: closed_in_def)

text \<open>What the walk keeps: the output is duplicate-free, it is the seen set less the root, the
  queue is part of what was seen, and every seen process that has left the queue has all its
  children seen.\<close>

definition walk_core :: "int \<Rightarrow> descendant list \<Rightarrow> int set \<Rightarrow> descendant list \<Rightarrow> bool" where
  "walk_core r procs seen out \<longleftrightarrow>
     seen = insert r (dpid ` set out) \<and> r \<notin> dpid ` set out \<and> distinct (map dpid out)
     \<and> set out \<subseteq> set procs \<and> (\<forall>p\<in>seen. reaches procs r p)"

definition walk_inv :: "int \<Rightarrow> descendant list \<Rightarrow> int set \<Rightarrow> int list \<Rightarrow> descendant list \<Rightarrow> bool" where
  "walk_inv r procs seen queue out \<longleftrightarrow>
     walk_core r procs seen out \<and> set queue \<subseteq> seen
     \<and> (\<forall>p\<in>seen. p \<in> set queue \<or> closed_in procs p seen)"

lemma walk_core_step:
  assumes "walk_core r procs seen out" "p \<in> seen" "c \<in> set (children_of procs p)" "dpid c \<notin> seen"
  shows "walk_core r procs (insert (dpid c) seen) (out @ [c])"
proof -
  have "reaches procs r p" using assms(1,2) by (simp add: walk_core_def)
  moreover have "(p, dpid c) \<in> child_edges procs" using assms(3) by (simp add: edge_children)
  ultimately have "reaches procs r (dpid c)"
    unfolding reaches_def by (rule rtrancl_into_rtrancl)
  moreover have "c \<in> set procs" using assms(3) by (simp add: children_of_def)
  ultimately show ?thesis using assms(1,4) by (auto simp: walk_core_def)
qed

lemma visit_children_core:
  assumes "visit_children cs seen queue out = (seen', queue', out')"
    "walk_core r procs seen out" "p \<in> seen" "set cs \<subseteq> set (children_of procs p)"
    "set queue \<subseteq> seen" "\<forall>q\<in>seen. q = p \<or> q \<in> set queue \<or> closed_in procs q seen"
  shows "walk_core r procs seen' out' \<and> seen \<subseteq> seen' \<and> dpid ` set cs \<subseteq> seen' \<and> set queue' \<subseteq> seen'
    \<and> (\<forall>q\<in>seen'. q = p \<or> q \<in> set queue' \<or> closed_in procs q seen')"
  using assms
proof (induction cs seen queue out rule: visit_children.induct)
  case (2 c cs seen queue out)
  show ?case
  proof (cases "dpid c \<in> seen")
    case True
    with 2 show ?thesis by auto
  next
    case False
    let ?seen = "insert (dpid c) seen"
    have "walk_core r procs ?seen (out @ [c])"
      using walk_core_step[of r procs seen out p c] 2(4-6) False by simp
    moreover have "\<forall>q\<in>?seen. q = p \<or> q \<in> set (queue @ [dpid c]) \<or> closed_in procs q ?seen"
      using 2(8) closed_in_mono[of procs _ seen ?seen] by auto
    moreover have "visit_children cs ?seen (queue @ [dpid c]) (out @ [c]) = (seen', queue', out')"
      using 2(3) False by simp
    moreover have "p \<in> ?seen" "set cs \<subseteq> set (children_of procs p)" "set (queue @ [dpid c]) \<subseteq> ?seen"
      using 2(5-7) by auto
    ultimately have "walk_core r procs seen' out' \<and> ?seen \<subseteq> seen' \<and> dpid ` set cs \<subseteq> seen'
      \<and> set queue' \<subseteq> seen' \<and> (\<forall>q\<in>seen'. q = p \<or> q \<in> set queue' \<or> closed_in procs q seen')"
      using 2(2)[OF False] by blast
    then show ?thesis by auto
  qed
qed auto

lemma walk_step:
  assumes "walk_inv r procs seen (p # queue) out"
    "visit_children (children_of procs p) seen queue out = (seen', queue', out')"
  shows "walk_inv r procs seen' queue' out'"
proof -
  have "walk_core r procs seen' out' \<and> seen \<subseteq> seen' \<and> dpid ` set (children_of procs p) \<subseteq> seen'
    \<and> set queue' \<subseteq> seen' \<and> (\<forall>q\<in>seen'. q = p \<or> q \<in> set queue' \<or> closed_in procs q seen')"
    by (rule visit_children_core[OF assms(2)]) (use assms(1) in \<open>auto simp: walk_inv_def\<close>)
  moreover from this have "closed_in procs p seen'" by (simp add: closed_in_def)
  ultimately show ?thesis by (auto simp: walk_inv_def)
qed

lemma bfs_walk_inv:
  "walk_inv r procs seen queue out \<Longrightarrow>
     \<exists>seen'. walk_inv r procs seen' [] (bfs_walk procs seen queue out)"
proof (induction procs seen queue out rule: bfs_walk.induct)
  case (2 procs seen p queue out)
  then show ?case by (auto split: prod.splits dest: walk_step)
qed auto

lemma closed_rtrancl: "(r, q) \<in> E\<^sup>* \<Longrightarrow> r \<in> S \<Longrightarrow> (\<And>p c. p \<in> S \<Longrightarrow> (p, c) \<in> E \<Longrightarrow> c \<in> S) \<Longrightarrow> q \<in> S"
  by (induction rule: rtrancl_induct) auto

text \<open>
  C22 The process-tree walker is exact. It terminates on every process table, cyclic ones
  included, and returns each process reachable from the worker by parent links exactly once,
  never the worker itself, and nothing else.
\<close>

theorem walk_tree_exact:
  "dpid ` set (walk_tree r procs) = {q. (r, q) \<in> (child_edges procs)\<^sup>*} - {r}
   \<and> distinct (map dpid (walk_tree r procs)) \<and> set (walk_tree r procs) \<subseteq> set procs"
proof -
  have "walk_inv r procs {r} [r] []" by (auto simp: walk_inv_def walk_core_def reaches_def)
  then obtain seen where w: "walk_inv r procs seen [] (walk_tree r procs)"
    unfolding walk_tree_def by (meson bfs_walk_inv)
  then have core: "walk_core r procs seen (walk_tree r procs)" by (simp add: walk_inv_def)
  have step: "c \<in> seen" if "p \<in> seen" "(p, c) \<in> child_edges procs" for p c
    using w that by (auto simp: walk_inv_def closed_in_def edge_children)
  have "r \<in> seen" using core by (simp add: walk_core_def)
  then have "q \<in> seen" if "(r, q) \<in> (child_edges procs)\<^sup>*" for q
    using closed_rtrancl[OF that] step by metis
  moreover have "(r, q) \<in> (child_edges procs)\<^sup>*" if "q \<in> seen" for q
    using core that by (simp add: walk_core_def reaches_def)
  ultimately have "seen = {q. (r, q) \<in> (child_edges procs)\<^sup>*}" by blast
  then show ?thesis using core by (auto simp: walk_core_def)
qed

text \<open>The idle watchdog's sample: the worker's own processor time plus that of its whole tree.\<close>

definition tree_cpu_seconds :: "int \<Rightarrow> string \<Rightarrow> rat option" where
  "tree_cpu_seconds pid snapshot =
     (case find (\<lambda>p. dpid p = pid) (parse_ps_output snapshot) of
        None \<Rightarrow> None
      | Some p \<Rightarrow> Some (cpu_seconds p + sum_list (map cpu_seconds (walk_worker_tree pid snapshot))))"

end
