(* ===== verification/Plan_Doc.thy ===== *)
theory Plan_Doc
  imports Processes
begin

text \<open>
  The plan document and the projections of its event log (\<open>state.py\<close>): the dictionary
  \<open>st.load\<close> returns, the constants of its vocabulary, the reads derived from the events
  (completed phases, attempts, status reason), and the configuration thresholds.

  The document is the record \<open>doc\<close>. Its fixed keys are fields, \<open>d_extra\<close> holds the keys that
  have no column of their own, and the nested objects (claim, blockers, tasks, events) stay
  dictionaries, as in the code. A key that may be absent is an option field.
\<close>

section \<open>Constants\<close>

abbreviation STATUS_RUNNING :: string where "STATUS_RUNNING \<equiv> ''running''"
abbreviation STATUS_PAUSED :: string where "STATUS_PAUSED \<equiv> ''paused''"
abbreviation STATUS_HALTED :: string where "STATUS_HALTED \<equiv> ''halted''"
abbreviation STATUS_HALTED_REPLAN :: string where "STATUS_HALTED_REPLAN \<equiv> ''halted_for_replan''"
abbreviation STATUS_DONE :: string where "STATUS_DONE \<equiv> ''done''"

definition TERMINAL_STATUSES :: "jval list" where
  "TERMINAL_STATUSES = [JStr STATUS_PAUSED, JStr STATUS_HALTED, JStr STATUS_HALTED_REPLAN, JStr STATUS_DONE]"

abbreviation EVENT_PHASE_STARTED :: string where "EVENT_PHASE_STARTED \<equiv> ''phase_started''"
abbreviation EVENT_PHASE_COMPLETED :: string where "EVENT_PHASE_COMPLETED \<equiv> ''phase_completed''"
abbreviation EVENT_PHASE_BLOCKED :: string where "EVENT_PHASE_BLOCKED \<equiv> ''phase_blocked''"
abbreviation EVENT_LEASE_EXPIRED :: string where "EVENT_LEASE_EXPIRED \<equiv> ''lease_expired''"
abbreviation EVENT_CLAIM_FORCE_RELEASED :: string where "EVENT_CLAIM_FORCE_RELEASED \<equiv> ''claim_force_released''"
abbreviation EVENT_BLOCKER_ANSWERED :: string where "EVENT_BLOCKER_ANSWERED \<equiv> ''blocker_answered''"
abbreviation EVENT_BLOCKER_CONSUMED :: string where "EVENT_BLOCKER_CONSUMED \<equiv> ''blocker_consumed''"
abbreviation EVENT_BLOCKER_SLA_EXCEEDED :: string where "EVENT_BLOCKER_SLA_EXCEEDED \<equiv> ''blocker_sla_exceeded''"
abbreviation EVENT_PHASE_MAX_ATTEMPTS :: string where "EVENT_PHASE_MAX_ATTEMPTS \<equiv> ''phase_max_attempts''"
abbreviation EVENT_TASK_SPAWNED :: string where "EVENT_TASK_SPAWNED \<equiv> ''task_spawned''"
abbreviation EVENT_TASK_COMPLETED :: string where "EVENT_TASK_COMPLETED \<equiv> ''task_completed''"
abbreviation EVENT_PLAN_COMPLETED :: string where "EVENT_PLAN_COMPLETED \<equiv> ''plan_completed''"
abbreviation EVENT_PLAN_ABANDONED :: string where "EVENT_PLAN_ABANDONED \<equiv> ''plan_abandoned''"
abbreviation EVENT_SYSTEMIC_FAILURE :: string where "EVENT_SYSTEMIC_FAILURE \<equiv> ''systemic_failure''"
abbreviation EVENT_QUOTA_DEATH :: string where "EVENT_QUOTA_DEATH \<equiv> ''quota_death''"
abbreviation EVENT_QUOTA_PAUSED :: string where "EVENT_QUOTA_PAUSED \<equiv> ''quota_paused''"
abbreviation EVENT_QUOTA_RESUMED :: string where "EVENT_QUOTA_RESUMED \<equiv> ''quota_resumed''"
abbreviation EVENT_PHASE_STALLED :: string where "EVENT_PHASE_STALLED \<equiv> ''phase_stalled''"
abbreviation EVENT_PAUSED :: string where "EVENT_PAUSED \<equiv> ''paused''"
abbreviation EVENT_RESUMED :: string where "EVENT_RESUMED \<equiv> ''resumed''"
abbreviation EVENT_RETRY_REQUESTED :: string where "EVENT_RETRY_REQUESTED \<equiv> ''retry_requested''"
abbreviation EVENT_QUEUE_POPPED :: string where "EVENT_QUEUE_POPPED \<equiv> ''queue_popped''"
abbreviation EVENT_STUCK_BLOCKER_REPINGED :: string where "EVENT_STUCK_BLOCKER_REPINGED \<equiv> ''stuck_blocker_repinged''"
abbreviation EVENT_STALLED_CLAIM_NOTIFIED :: string where "EVENT_STALLED_CLAIM_NOTIFIED \<equiv> ''stalled_claim_notified''"
abbreviation EVENT_LEASE_EXTENDED :: string where "EVENT_LEASE_EXTENDED \<equiv> ''lease_extended''"
abbreviation EVENT_ATTEMPTS_RESET :: string where "EVENT_ATTEMPTS_RESET \<equiv> ''attempts_reset''"
abbreviation EVENT_ATTESTATION_REFUSED :: string where "EVENT_ATTESTATION_REFUSED \<equiv> ''attestation_refused''"
abbreviation EVENT_PHASE_ORPHAN_REAPED :: string where "EVENT_PHASE_ORPHAN_REAPED \<equiv> ''phase_orphan_reaped''"
abbreviation EVENT_PHASE_WORKER_DEAD :: string where "EVENT_PHASE_WORKER_DEAD \<equiv> ''phase_worker_dead''"
abbreviation EVENT_TOOL_STUCK :: string where "EVENT_TOOL_STUCK \<equiv> ''tool_stuck''"
abbreviation EVENT_WORKER_IDLE :: string where "EVENT_WORKER_IDLE \<equiv> ''worker_idle''"
abbreviation EVENT_OPERATOR_SKIP_VERIFY :: string where "EVENT_OPERATOR_SKIP_VERIFY \<equiv> ''operator_skip_verify''"
abbreviation EVENT_OPERATOR_SKIP_SIMPLIFY :: string where "EVENT_OPERATOR_SKIP_SIMPLIFY \<equiv> ''operator_skip_simplify''"
abbreviation EVENT_VERIFY_POLICY_SKIPPED :: string where "EVENT_VERIFY_POLICY_SKIPPED \<equiv> ''verify_policy_skipped''"
abbreviation EVENT_OPERATOR_FORCE_COMPLETE :: string where "EVENT_OPERATOR_FORCE_COMPLETE \<equiv> ''operator_force_complete''"
abbreviation EVENT_WORKTREE_CLEANED :: string where "EVENT_WORKTREE_CLEANED \<equiv> ''worktree_cleaned''"
abbreviation EVENT_WORKTREE_RETAINED_AHEAD :: string where "EVENT_WORKTREE_RETAINED_AHEAD \<equiv> ''worktree_retained_ahead''"
abbreviation EVENT_VERIFY_STAMPED :: string where "EVENT_VERIFY_STAMPED \<equiv> ''verify_stamped''"
abbreviation EVENT_SIMPLIFY_STAMPED :: string where "EVENT_SIMPLIFY_STAMPED \<equiv> ''simplify_stamped''"
abbreviation EVENT_HEARTBEAT_LOOP_FAILING :: string where "EVENT_HEARTBEAT_LOOP_FAILING \<equiv> ''heartbeat_loop_failing''"
abbreviation EVENT_PHASE_WORKER_DEAD_REPORTED :: string where "EVENT_PHASE_WORKER_DEAD_REPORTED \<equiv> ''phase_worker_dead_reported''"
abbreviation EVENT_WORKTREE_CONFLICT_WARNING :: string where "EVENT_WORKTREE_CONFLICT_WARNING \<equiv> ''worktree_conflict_warning''"

definition DEFAULT_LEASE_TTL_MIN :: int where "DEFAULT_LEASE_TTL_MIN = 60"
definition DEFAULT_SLA_HOURS :: int where "DEFAULT_SLA_HOURS = 24"
definition DEFAULT_MAX_ATTEMPTS :: int where "DEFAULT_MAX_ATTEMPTS = 3"
definition DEFAULT_MAX_SPAWNS_PER_PHASE :: int where "DEFAULT_MAX_SPAWNS_PER_PHASE = 10"
definition DEFAULT_MAX_QUEUE_ADDS_PER_PHASE :: int where "DEFAULT_MAX_QUEUE_ADDS_PER_PHASE = 3"
definition STALLED_HEARTBEAT_MIN_FLOOR :: int where "STALLED_HEARTBEAT_MIN_FLOOR = 15"
definition STALLED_HEARTBEAT_MIN_CEILING :: int where "STALLED_HEARTBEAT_MIN_CEILING = 25"

section \<open>The document\<close>

record doc =
  d_slug :: string
  d_status :: jval
  d_plan_dir :: jval
  d_created_at :: jval
  d_batch_id :: jval
  d_config :: "obj option"
  d_phases :: "obj list option"
  d_worktree :: "jval option"
  d_extra :: obj
  d_claim :: "obj option"
  d_blockers :: "obj list"
  d_tasks :: "obj list"
  d_events :: "obj list"

definition empty_state :: "int \<Rightarrow> string \<Rightarrow> string \<Rightarrow> doc" where
  "empty_state now slug plan_dir =
     \<lparr>d_slug = slug, d_status = JStr STATUS_RUNNING, d_plan_dir = JStr plan_dir,
      d_created_at = iso now, d_batch_id = JNull,
      d_config = Some
        [(''lease_ttl_minutes'', JInt DEFAULT_LEASE_TTL_MIN),
         (''blocked_question_sla_hours'', JInt DEFAULT_SLA_HOURS),
         (''max_attempts_per_phase'', JInt DEFAULT_MAX_ATTEMPTS),
         (''max_spawns_per_phase'', JInt DEFAULT_MAX_SPAWNS_PER_PHASE),
         (''max_queue_adds_per_phase'', JInt DEFAULT_MAX_QUEUE_ADDS_PER_PHASE)],
      d_phases = Some [], d_worktree = None, d_extra = [], d_claim = None,
      d_blockers = [], d_tasks = [], d_events = []\<rparr>"

text \<open>An event as \<open>append_event\<close> builds it, and the append itself.\<close>

definition mk_event :: "int \<Rightarrow> string \<Rightarrow> obj \<Rightarrow> obj" where
  "mk_event now ty flds = (''ts'', iso now) # (''type'', JStr ty) # flds"

definition append_event :: "int \<Rightarrow> string \<Rightarrow> obj \<Rightarrow> doc \<Rightarrow> doc" where
  "append_event now ty flds d = d\<lparr>d_events := d_events d @ [mk_event now ty flds]\<rparr>"

abbreviation ev_is :: "string \<Rightarrow> obj \<Rightarrow> bool" where
  "ev_is ty e \<equiv> dget e ''type'' = Some (JStr ty)"

abbreviation ev_phase :: "string \<Rightarrow> obj \<Rightarrow> bool" where
  "ev_phase p e \<equiv> dget e ''phase'' = Some (JStr p)"

abbreviation opt_str :: "string option \<Rightarrow> jval" where
  "opt_str s \<equiv> (case s of None \<Rightarrow> JNull | Some t \<Rightarrow> JStr t)"

text \<open>\<open>d.get(k)\<close> as a value: absent reads as \<open>None\<close>.\<close>

definition jget :: "obj \<Rightarrow> string \<Rightarrow> jval" where
  "jget d k = (case dget d k of None \<Rightarrow> JNull | Some v \<Rightarrow> v)"

lemma jget_dset [dict_simps]: "jget (dset k v d) k' = (if k' = k then v else jget d k')"
  by (simp add: jget_def)

section \<open>Thresholds\<close>

text \<open>\<open>int(v)\<close>, with \<open>None\<close> for the \<open>TypeError\<close> or \<open>ValueError\<close> it raises.\<close>

fun int_of_jval :: "jval \<Rightarrow> int option" where
  "int_of_jval (JInt i) = Some i"
| "int_of_jval (JBool b) = Some (if b then 1 else 0)"
| "int_of_jval (JFloat r) = Some (if r < 0 then - \<lfloor>- r\<rfloor> else \<lfloor>r\<rfloor>)"
| "int_of_jval (JStr s) = int_of_text s"
| "int_of_jval _ = None"

definition to_int :: "jval \<Rightarrow> int res" where
  "to_int v = (case int_of_jval v of Some i \<Rightarrow> Inr i | None \<Rightarrow> Inl (ValueErr ''int''))"

definition config_get :: "doc \<Rightarrow> string \<Rightarrow> jval option" where
  "config_get d k = (case d_config d of None \<Rightarrow> None | Some c \<Rightarrow> dget c k)"

definition lease_ttl_for_phase :: "doc \<Rightarrow> string \<Rightarrow> int res" where
  "lease_ttl_for_phase d p =
     (case find (\<lambda>ph. dget ph ''id'' = Some (JStr p) \<and> dget ph ''lease_ttl_minutes'' \<noteq> None)
             (case d_phases d of None \<Rightarrow> [] | Some ps \<Rightarrow> ps) of
        Some ph \<Rightarrow> to_int (jget ph ''lease_ttl_minutes'')
      | None \<Rightarrow>
          (case config_get d ''lease_ttl_minutes'' of
             None \<Rightarrow> Inr DEFAULT_LEASE_TTL_MIN
           | Some v \<Rightarrow> to_int v))"

definition stalled_threshold_for_phase :: "doc \<Rightarrow> string \<Rightarrow> int res" where
  "stalled_threshold_for_phase d p =
     (case config_get d ''stalled_heartbeat_minutes'' of
        Some v \<Rightarrow> if v \<noteq> JNull then to_int v
                  else bind_res (lease_ttl_for_phase d p) (\<lambda>ttl.
                    Inr (min STALLED_HEARTBEAT_MIN_CEILING (max STALLED_HEARTBEAT_MIN_FLOOR (ttl div 2))))
      | None \<Rightarrow> bind_res (lease_ttl_for_phase d p) (\<lambda>ttl.
          Inr (min STALLED_HEARTBEAT_MIN_CEILING (max STALLED_HEARTBEAT_MIN_FLOOR (ttl div 2)))))"

text \<open>
  Without an operator override the stalled-heartbeat threshold is always between 15 and 25
  minutes, whatever the lease of the phase, and an override is obeyed as it stands.
\<close>

theorem stalled_threshold_bounds:
  assumes "stalled_threshold_for_phase d p = Inr t"
  shows "(case config_get d ''stalled_heartbeat_minutes'' of
            Some (JInt m) \<Rightarrow> t = m
          | None \<Rightarrow> 15 \<le> t \<and> t \<le> 25
          | Some JNull \<Rightarrow> 15 \<le> t \<and> t \<le> 25
          | Some _ \<Rightarrow> True)"
  using assms
  by (auto simp: stalled_threshold_for_phase_def bind_res_Inr to_int_def STALLED_HEARTBEAT_MIN_FLOOR_def
      STALLED_HEARTBEAT_MIN_CEILING_def split: option.splits jval.splits if_splits)

theorem stalled_threshold_bounds_witness:
  "stalled_threshold_for_phase (empty_state 0 ''w1'' ''plans'') ''a'' = Inr 25 \<and> (15::int) \<le> 25"
proof -
  have "stalled_threshold_for_phase (empty_state 0 ''w1'' ''plans'') ''a'' = Inr 25"
    by (simp add: stalled_threshold_for_phase_def config_get_def empty_state_def lease_ttl_for_phase_def
        to_int_def DEFAULT_LEASE_TTL_MIN_def STALLED_HEARTBEAT_MIN_FLOOR_def STALLED_HEARTBEAT_MIN_CEILING_def)
  from stalled_threshold_bounds[OF this] this show ?thesis
    by (simp add: config_get_def empty_state_def)
qed

section \<open>Projections of the event log\<close>

definition completed_phase_ids :: "obj list \<Rightarrow> jval list" where
  "completed_phase_ids evs =
     concat (map (\<lambda>e. if ev_is EVENT_PHASE_COMPLETED e
                      then (case dget e ''phase'' of None \<Rightarrow> [] | Some v \<Rightarrow> [v]) else []) evs)"

text \<open>\<open>latest_event(data, event_type, phase=...)\<close>: the reverse scan.\<close>

definition latest_event :: "obj list \<Rightarrow> string \<Rightarrow> string option \<Rightarrow> obj option" where
  "latest_event evs ty ph =
     find_last (\<lambda>e. ev_is ty e \<and> (case ph of None \<Rightarrow> True | Some p \<Rightarrow> ev_phase p e)) evs"

text \<open>The events after the last one that satisfies \<open>P\<close>: \<open>data["events"][floor + 1:]\<close>.\<close>

definition since_floor :: "(obj \<Rightarrow> bool) \<Rightarrow> obj list \<Rightarrow> obj list" where
  "since_floor P evs = rev (takeWhile (\<lambda>e. \<not> P e) (rev evs))"

definition resets_attempts :: "string \<Rightarrow> obj \<Rightarrow> bool" where
  "resets_attempts p e \<longleftrightarrow>
     (ev_is EVENT_RETRY_REQUESTED e \<or> ev_is EVENT_ATTEMPTS_RESET e) \<and> ev_phase p e"

definition forgives :: "string \<Rightarrow> obj \<Rightarrow> bool" where
  "forgives p e \<longleftrightarrow>
     (ev_is EVENT_SYSTEMIC_FAILURE e \<or> ev_is EVENT_QUOTA_DEATH e) \<and> ev_phase p e \<and> dtrue e ''token''"

definition starts_phase :: "string \<Rightarrow> obj \<Rightarrow> bool" where
  "starts_phase p e \<longleftrightarrow> ev_is EVENT_PHASE_STARTED e \<and> ev_phase p e"

definition forgiven_tokens :: "string \<Rightarrow> obj list \<Rightarrow> jval list" where
  "forgiven_tokens p evs = map (\<lambda>e. jget e ''token'') (filter (forgives p) evs)"

definition attempts_for_phase :: "obj list \<Rightarrow> string \<Rightarrow> nat" where
  "attempts_for_phase evs p =
     (let es = since_floor (resets_attempts p) evs
      in length (filter (\<lambda>e. starts_phase p e \<and> jget e ''claimed_by'' \<notin> set (forgiven_tokens p es)) es))"

text \<open>\<open>_started_count\<close> of the supervisor: what a claim is stamped with.\<close>

definition started_count :: "obj list \<Rightarrow> string \<Rightarrow> nat" where
  "started_count evs p = length (filter (starts_phase p) evs)"

definition most_recent_halted_phase :: "obj list \<Rightarrow> jval option" where
  "most_recent_halted_phase evs =
     (case latest_event evs EVENT_PHASE_MAX_ATTEMPTS None of
        None \<Rightarrow> None
      | Some e \<Rightarrow> dget e ''phase'')"

text \<open>The text of \<open>status_reason\<close>, before it is put into words.\<close>

datatype reason =
    OperatorPause jval
  | SlaExceeded jval jval
  | MaxAttempts jval jval
  | WorkerReplan

definition status_reason :: "jval \<Rightarrow> obj list \<Rightarrow> reason option" where
  "status_reason status evs =
     (if status = JStr STATUS_PAUSED then
        (case find_last (\<lambda>e. ev_is EVENT_PAUSED e \<or> ev_is EVENT_BLOCKER_SLA_EXCEEDED e) evs of
           None \<Rightarrow> None
         | Some e \<Rightarrow>
             if ev_is EVENT_PAUSED e
             then Some (OperatorPause (if dtrue e ''reason'' then jget e ''reason'' else JStr []))
             else Some (SlaExceeded (jget e ''blocker_id'') (jget e ''age_hours'')))
      else if status = JStr STATUS_HALTED then
        map_option (\<lambda>e. MaxAttempts (jget e ''phase'') (jget e ''attempts''))
          (latest_event evs EVENT_PHASE_MAX_ATTEMPTS None)
      else if status = JStr STATUS_HALTED_REPLAN then Some WorkerReplan
      else None)"

lemma since_floor_snoc:
  "since_floor P (evs @ [e]) = (if P e then [] else since_floor P evs @ [e])"
  by (simp add: since_floor_def)

lemma since_floor_suffix: "suffix (since_floor P evs) evs"
proof -
  have "rev evs = takeWhile (\<lambda>e. \<not> P e) (rev evs) @ dropWhile (\<lambda>e. \<not> P e) (rev evs)" by simp
  then have "evs = rev (dropWhile (\<lambda>e. \<not> P e) (rev evs)) @ since_floor P evs"
    unfolding since_floor_def by (metis rev_append rev_rev_ident)
  then show ?thesis by (metis suffixI)
qed

lemma length_filter_mono:
  assumes "\<And>e. p e \<Longrightarrow> q e"
  shows "length (filter p es) \<le> length (filter q es)"
  using assms by (induction es) auto

lemma filter_suffix_le: "suffix xs ys \<Longrightarrow> length (filter P xs) \<le> length (filter P ys)"
  by (auto simp: suffix_def)

lemma attempts_le_started: "attempts_for_phase evs p \<le> started_count evs p"
proof -
  let ?es = "since_floor (resets_attempts p) evs"
  have "attempts_for_phase evs p \<le> length (filter (starts_phase p) ?es)"
    unfolding attempts_for_phase_def Let_def by (rule length_filter_mono) simp
  also have "\<dots> \<le> started_count evs p"
    unfolding started_count_def by (rule filter_suffix_le[OF since_floor_suffix])
  finally show ?thesis .
qed

lemma attempts_reset: "resets_attempts p e \<Longrightarrow> attempts_for_phase (evs @ [e]) p = 0"
  by (simp add: attempts_for_phase_def since_floor_snoc)

lemma starts_phase_excl: "starts_phase p e \<Longrightarrow> \<not> resets_attempts p e \<and> \<not> forgives p e"
  by (auto simp: starts_phase_def resets_attempts_def forgives_def)

lemma forgives_excl: "forgives p e \<Longrightarrow> \<not> resets_attempts p e \<and> \<not> starts_phase p e"
  by (auto simp: starts_phase_def resets_attempts_def forgives_def)

lemma forgiven_tokens_snoc:
  "forgiven_tokens p (es @ [e]) =
     forgiven_tokens p es @ (if forgives p e then [jget e ''token''] else [])"
  by (simp add: forgiven_tokens_def)

lemma attempts_start:
  assumes "starts_phase p e" "jget e ''claimed_by'' \<notin> set (forgiven_tokens p evs)"
  shows "attempts_for_phase (evs @ [e]) p = Suc (attempts_for_phase evs p)"
proof -
  have "set (forgiven_tokens p (since_floor (resets_attempts p) evs)) \<subseteq> set (forgiven_tokens p evs)"
    using set_mono_suffix[OF since_floor_suffix] by (auto simp: forgiven_tokens_def)
  then show ?thesis
    using assms starts_phase_excl[OF assms(1)]
    by (auto simp: attempts_for_phase_def since_floor_snoc forgiven_tokens_snoc Let_def)
qed

lemma attempts_forgive:
  "forgives p e \<Longrightarrow>
     attempts_for_phase (evs @ [e]) p =
       length (filter (\<lambda>s. starts_phase p s \<and>
           jget s ''claimed_by'' \<notin> insert (jget e ''token'')
             (set (forgiven_tokens p (since_floor (resets_attempts p) evs))))
         (since_floor (resets_attempts p) evs))"
  using forgives_excl[of p e]
  by (simp add: attempts_for_phase_def since_floor_snoc forgiven_tokens_snoc Let_def)

lemma attempts_other:
  "\<not> resets_attempts p e \<Longrightarrow> \<not> starts_phase p e \<Longrightarrow> \<not> forgives p e \<Longrightarrow>
     attempts_for_phase (evs @ [e]) p = attempts_for_phase evs p"
  by (simp add: attempts_for_phase_def since_floor_snoc forgiven_tokens_snoc Let_def)

text \<open>
  The attempt budget. A retry (or an operator's reset) of the phase starts the count at
  zero; a start whose token no later death can name adds one; the death of a worker by quota
  or by a systemic failure takes back exactly the starts of its token, so that it costs the
  phase nothing; other events leave the count alone; and the count never exceeds the number
  of starts.
\<close>

theorem attempts_budget:
  "attempts_for_phase (evs @ [e]) p \<le> started_count (evs @ [e]) p \<and>
   (if resets_attempts p e then attempts_for_phase (evs @ [e]) p = 0
    else if starts_phase p e then
      jget e ''claimed_by'' \<notin> set (forgiven_tokens p evs) \<longrightarrow>
        attempts_for_phase (evs @ [e]) p = Suc (attempts_for_phase evs p)
    else if forgives p e then
      attempts_for_phase (evs @ [e]) p =
        length (filter (\<lambda>s. starts_phase p s \<and>
            jget s ''claimed_by'' \<notin> insert (jget e ''token'')
              (set (forgiven_tokens p (since_floor (resets_attempts p) evs))))
          (since_floor (resets_attempts p) evs))
    else attempts_for_phase (evs @ [e]) p = attempts_for_phase evs p)"
  using attempts_le_started attempts_reset attempts_start attempts_forgive attempts_other
  by presburger

theorem attempts_budget_witness:
  "attempts_for_phase ([] @ [mk_event 0 EVENT_PHASE_STARTED [(''phase'', JStr ''a''), (''claimed_by'', JStr ''t'')]]) ''a''
     = Suc (attempts_for_phase [] ''a'')"
  using attempts_budget[of "[]" "mk_event 0 EVENT_PHASE_STARTED [(''phase'', JStr ''a''), (''claimed_by'', JStr ''t'')]" "''a''"]
  by (simp add: mk_event_def starts_phase_def resets_attempts_def forgiven_tokens_def)

lemma quota_death_costs_nothing:
  assumes "starts_phase p s" "forgives p q" "jget s ''claimed_by'' = jget q ''token''"
  shows "attempts_for_phase (evs @ [s] @ [q]) p \<le> attempts_for_phase evs p"
proof -
  note ex = starts_phase_excl[OF assms(1)] forgives_excl[OF assms(2)]
  let ?es = "since_floor (resets_attempts p) evs"
  have "since_floor (resets_attempts p) (evs @ [s]) = ?es @ [s]"
    using ex by (simp add: since_floor_snoc)
  then have "attempts_for_phase ((evs @ [s]) @ [q]) p =
      length (filter (\<lambda>x. starts_phase p x \<and> jget x ''claimed_by'' \<notin>
        insert (jget q ''token'') (set (forgiven_tokens p (?es @ [s])))) (?es @ [s]))"
    using attempts_forgive[OF assms(2), of "evs @ [s]"] by simp
  also have "\<dots> = length (filter (\<lambda>x. starts_phase p x \<and> jget x ''claimed_by'' \<notin>
        insert (jget q ''token'') (set (forgiven_tokens p ?es))) ?es)"
    using ex assms(3) by (simp add: forgiven_tokens_snoc)
  also have "\<dots> \<le> attempts_for_phase evs p"
    unfolding attempts_for_phase_def Let_def by (rule length_filter_mono) simp
  finally show ?thesis by simp
qed

end
