(* ===== verification/Claims.thy ===== *)
theory Claims
  imports Plan_Doc
begin

text \<open>
  The domain logic of the live claim (\<open>state.py\<close>): claiming, matching and releasing a phase,
  leases and heartbeats, the dedup markers, the attestation map, the processor-time evidence of
  the idle watchdog, and the two suppressions (the active-tool marker and the declared quiet
  span).

  \<open>now\<close> is the instant \<open>_now_utc()\<close> returns, in microseconds. Comparisons of
  \<open>total_seconds()\<close> with a bound are made on the exact microsecond count; the division by a
  million that Python makes is monotone, so the comparison with an integer bound is the same.
  Configured floating-point bounds are rationals.
\<close>

section \<open>Leases\<close>

text \<open>\<open>parse_iso(claim["lease_expires"])\<close>, with \<open>None\<close> for \<open>KeyError\<close> and \<open>ValueError\<close>.\<close>

definition time_field :: "obj \<Rightarrow> string \<Rightarrow> int option" where
  "time_field claim k = (case dget claim k of None \<Rightarrow> None | Some v \<Rightarrow> parse_iso v)"

definition release_if_expired :: "int \<Rightarrow> doc \<Rightarrow> bool \<times> doc" where
  "release_if_expired now d =
     (case d_claim d of
        None \<Rightarrow> (False, d)
      | Some claim \<Rightarrow>
          (case time_field claim ''lease_expires'' of
             None \<Rightarrow> (False, d)
           | Some expires \<Rightarrow>
               if expires > now then (False, d)
               else (True, (append_event now EVENT_LEASE_EXPIRED
                       [(''phase'', jget claim ''phase_id''), (''claimed_by'', jget claim ''claimed_by'')] d)
                     \<lparr>d_claim := None\<rparr>)))"

text \<open>
  \<open>claim_phase\<close>; \<open>fresh\<close> is the hexadecimal text of the new UUID. The document is changed in
  place before the check of the live claim raises, so the result carries it in both cases.
\<close>

definition claim_phase ::
    "int \<Rightarrow> string \<Rightarrow> string \<Rightarrow> int \<Rightarrow> string option \<Rightarrow> doc \<Rightarrow> string res \<times> doc" where
  "claim_phase now fresh phase_id lease_minutes claimed_by d0 =
     (let d = snd (release_if_expired now d0) in
      case d_claim d of
        Some _ \<Rightarrow> (Inl (RuntimeErr ''already claimed''), d)
      | None \<Rightarrow>
          (let token = (case claimed_by of Some t \<Rightarrow> if t \<noteq> [] then t else ''session-'' @ take 16 fresh
                        | None \<Rightarrow> ''session-'' @ take 16 fresh);
               attempts = int (started_count (d_events d) phase_id) + 1;
               started = iso now
           in (Inr token,
               append_event now EVENT_PHASE_STARTED [(''phase'', JStr phase_id), (''claimed_by'', JStr token)]
                 (d\<lparr>d_claim := Some
                     [(''phase_id'', JStr phase_id), (''claimed_by'', JStr token),
                      (''lease_expires'', iso (now + minutes lease_minutes)),
                      (''started_at'', started), (''last_heartbeat_at'', started),
                      (''attempts'', JInt attempts)]\<rparr>))))"

definition assert_claim_match :: "obj option \<Rightarrow> string \<Rightarrow> string \<Rightarrow> unit res" where
  "assert_claim_match c token phase =
     (case c of
        None \<Rightarrow> Inl (ClaimMismatch NoActiveClaim)
      | Some claim \<Rightarrow>
          if dget claim ''claimed_by'' \<noteq> Some (JStr token)
          then Inl (ClaimMismatch (TokenMismatch (jget claim ''claimed_by'') (JStr token)))
          else if dget claim ''phase_id'' \<noteq> Some (JStr phase)
          then Inl (ClaimMismatch (PhaseMismatch (jget claim ''phase_id'') (JStr phase)))
          else Inr ())"

definition record_heartbeat :: "int \<Rightarrow> string \<Rightarrow> string \<Rightarrow> doc \<Rightarrow> (jval \<times> doc) res" where
  "record_heartbeat now token phase d =
     bind_res (assert_claim_match (d_claim d) token phase) (\<lambda>_.
       Inr (iso now, d\<lparr>d_claim := map_option (dset ''last_heartbeat_at'' (iso now)) (d_claim d)\<rparr>))"

definition release_claim :: "string option \<Rightarrow> string option \<Rightarrow> doc \<Rightarrow> doc res" where
  "release_claim token phase d =
     (case (token, phase) of
        (None, None) \<Rightarrow> Inr (d\<lparr>d_claim := None\<rparr>)
      | (Some t, Some p) \<Rightarrow>
          bind_res (assert_claim_match (d_claim d) t p) (\<lambda>_. Inr (d\<lparr>d_claim := None\<rparr>))
      | _ \<Rightarrow> Inl (ValueErr ''release_claim: expected_token and expected_phase must be passed together''))"

text \<open>What \<open>coolant.emit_stop\<close> is called with: the session and the phase of the released claim.\<close>

definition release_claim_and_emit ::
    "string option \<Rightarrow> string option \<Rightarrow> bool \<Rightarrow> doc \<Rightarrow> (doc \<times> (jval \<times> jval) option) res" where
  "release_claim_and_emit token phase coolant_enabled d =
     bind_res (release_claim token phase d) (\<lambda>d'.
       Inr (d', (case d_claim d of
                   None \<Rightarrow> None
                 | Some claim \<Rightarrow>
                     if coolant_enabled \<and> dtrue claim ''phase_id'' \<and> dtrue claim ''claimed_by''
                     then Some (jget claim ''claimed_by'', jget claim ''phase_id'') else None)))"

definition claim_live :: "int \<Rightarrow> obj option \<Rightarrow> bool" where
  "claim_live now c = (case c of None \<Rightarrow> False
     | Some claim \<Rightarrow> (case time_field claim ''lease_expires'' of None \<Rightarrow> True | Some e \<Rightarrow> now < e))"

text \<open>
  Mutual exclusion of claims. Claiming a phase succeeds exactly when no claim is live: there
  is none, or its lease has passed. A refused attempt leaves the document as it was, and a
  successful one installs a claim that only its own token and phase match, and logs the start
  of the phase (after the expiry of the old lease, when there was one).
\<close>

theorem claim_phase_exclusive:
  "case claim_phase now fresh p m by d of
     (Inl e, d') \<Rightarrow> claim_live now (d_claim d) \<and> d' = d
   | (Inr token, d') \<Rightarrow> \<not> claim_live now (d_claim d)
       \<and> (\<forall>t q. assert_claim_match (d_claim d') t q = Inr () \<longleftrightarrow> t = token \<and> q = p)
       \<and> (\<exists>pre. d_events d' = d_events d @ pre @ [mk_event now EVENT_PHASE_STARTED
             [(''phase'', JStr p), (''claimed_by'', JStr token)]]
           \<and> (pre = [] \<longleftrightarrow> d_claim d = None))"
  by (auto simp: claim_phase_def release_if_expired_def claim_live_def Let_def append_event_def
      assert_claim_match_def split: option.splits)

lemma release_if_expired_iff:
  "fst (release_if_expired now d) \<longleftrightarrow> (\<exists>c e. d_claim d = Some c \<and> time_field c ''lease_expires'' = Some e \<and> e \<le> now)"
  by (auto simp: release_if_expired_def split: option.splits)

section \<open>Heartbeats\<close>

text \<open>\<open>claim.get(k) or claim.get(k2)\<close> for a timestamp: the first that is truthy.\<close>

definition heartbeat_age :: "int \<Rightarrow> obj \<Rightarrow> int option" where
  "heartbeat_age now claim =
     (if claim = [] then None
      else let last = (if dtrue claim ''last_heartbeat_at'' then jget claim ''last_heartbeat_at''
                       else jget claim ''started_at'') in
        if \<not> truthy last then None
        else map_option (\<lambda>t. now - t) (parse_iso last))"

definition is_claim_stalled :: "int \<Rightarrow> obj \<Rightarrow> int \<Rightarrow> bool" where
  "is_claim_stalled now claim threshold_minutes =
     (case heartbeat_age now claim of None \<Rightarrow> False | Some age \<Rightarrow> age \<ge> minutes threshold_minutes)"

definition claim_is_stalled :: "int \<Rightarrow> doc \<Rightarrow> obj \<Rightarrow> bool res" where
  "claim_is_stalled now d claim =
     bind_res (stalled_threshold_for_phase d (sget claim ''phase_id''))
       (\<lambda>m. Inr (is_claim_stalled now claim m))"

lemma heartbeat_resets_age:
  assumes "record_heartbeat now token phase d = Inr (ts, d')" "d_claim d' = Some claim"
  shows "heartbeat_age now' claim = Some (now' - now div usec * usec)"
proof -
  obtain c where "d_claim d = Some c" using assms by (cases "d_claim d") (auto simp: record_heartbeat_def bind_res_Inr)
  then have claim: "claim = dset ''last_heartbeat_at'' (iso now) c"
    using assms by (auto simp: record_heartbeat_def bind_res_Inr)
  then have "dget claim ''last_heartbeat_at'' = Some (iso now)" by simp
  moreover from this have "claim \<noteq> []" by auto
  ultimately show ?thesis by (simp add: heartbeat_age_def dtrue_def jget_def iso_def)
qed

section \<open>Terminal status, zombies, reaping\<close>

definition terminalize :: "int \<Rightarrow> string \<Rightarrow> string \<Rightarrow> obj \<Rightarrow> doc \<Rightarrow> bool \<times> doc" where
  "terminalize now status event flds d =
     (if d_status d \<in> set TERMINAL_STATUSES then (False, d)
      else (True, append_event now event flds (d\<lparr>d_status := JStr status\<rparr>)))"

definition reap_claim :: "os_view \<Rightarrow> doc \<Rightarrow> (reap_result \<times> (int \<times> os_signal) list) option" where
  "reap_claim os d =
     (case d_claim d of
        None \<Rightarrow> None
      | Some claim \<Rightarrow>
          if claim = [] then None
          else (case iget claim (if dtrue claim ''pgid'' then ''pgid'' else ''pid'') of
                  None \<Rightarrow> None
                | Some pgid \<Rightarrow>
                    if pgid = 0 \<or> d_slug d = [] then None
                    else Some (reap_orphan_pgroup os pgid (Some (d_slug d)))))"

definition is_zombie_state :: "os_view \<Rightarrow> doc \<Rightarrow> bool" where
  "is_zombie_state os d =
     (if d_status d \<noteq> JStr STATUS_RUNNING then False
      else case d_claim d of
        None \<Rightarrow> True
      | Some claim \<Rightarrow> claim = [] \<or> \<not> claim_worker_alive os claim (Some (d_slug d)))"

lemma terminalize_idempotent:
  assumes "status \<in> {STATUS_PAUSED, STATUS_HALTED, STATUS_HALTED_REPLAN, STATUS_DONE}"
  shows "terminalize now' status' event' f' (snd (terminalize now status event f d))
    = (False, snd (terminalize now status event f d))"
  using assms by (auto simp: terminalize_def append_event_def TERMINAL_STATUSES_def)

section \<open>Attestations and markers\<close>

definition attestations_of :: "obj \<Rightarrow> obj" where
  "attestations_of claim = (case dget claim ''attestations'' of Some (JObj a) \<Rightarrow> a | _ \<Rightarrow> [])"

definition attestation_entry :: "int \<Rightarrow> string \<Rightarrow> jval" where
  "attestation_entry now sha = JObj [(''at'', iso now), (''commit_sha'', JStr sha)]"

definition stamp_attestation :: "int \<Rightarrow> string \<Rightarrow> string \<Rightarrow> doc \<Rightarrow> doc res" where
  "stamp_attestation now kind sha d =
     (case d_claim d of
        None \<Rightarrow> Inl (ValueErr ''stamp_attestation: no current_claim'')
      | Some claim \<Rightarrow>
          if claim = [] then Inl (ValueErr ''stamp_attestation: no current_claim'')
          else Inr (d\<lparr>d_claim := Some (dset ''attestations''
                 (JObj (dset kind (attestation_entry now sha) (attestations_of claim))) claim)\<rparr>))"

definition entry_sha :: "jval option \<Rightarrow> jval" where
  "entry_sha v = (case v of Some (JObj e) \<Rightarrow> jget e ''commit_sha'' | _ \<Rightarrow> JNull)"

definition attestation_commit_sha :: "obj option \<Rightarrow> string \<Rightarrow> jval" where
  "attestation_commit_sha c kind =
     (case c of None \<Rightarrow> JNull | Some claim \<Rightarrow> entry_sha (dget (attestations_of claim) kind))"

lemma attestations_of_dset [simp]:
  "attestations_of (dset k v claim) =
     (if k = ''attestations'' then (case v of JObj a \<Rightarrow> a | _ \<Rightarrow> []) else attestations_of claim)"
  by (simp add: attestations_of_def)

lemma entry_sha_entry [simp]: "entry_sha (Some (attestation_entry now sha)) = JStr sha"
  by (simp add: entry_sha_def attestation_entry_def jget_def)

lemma stamp_attestation_frame:
  assumes "stamp_attestation now kind sha d = Inr d'"
  shows "attestation_commit_sha (d_claim d') k =
    (if k = kind then JStr sha else attestation_commit_sha (d_claim d) k)"
proof -
  obtain c where c: "d_claim d = Some c" "c \<noteq> []"
    using assms by (auto simp: stamp_attestation_def split: option.splits if_splits)
  then have "d_claim d' = Some (dset ''attestations''
      (JObj (dset kind (attestation_entry now sha) (attestations_of c))) c)"
    using assms by (auto simp: stamp_attestation_def)
  with c show ?thesis by (simp add: attestation_commit_sha_def)
qed

definition stuck_map :: "obj \<Rightarrow> obj" where
  "stuck_map claim = (case dget claim ''stuck_tool_emitted_at'' of Some (JObj m) \<Rightarrow> m | _ \<Rightarrow> [])"

definition mark_tool_stuck_emitted :: "obj \<Rightarrow> int \<Rightarrow> jval \<Rightarrow> obj" where
  "mark_tool_stuck_emitted claim pid stamp =
     dset ''stuck_tool_emitted_at'' (JObj (dset (show_int pid) stamp (stuck_map claim))) claim"

definition tool_stuck_already_emitted :: "obj \<Rightarrow> int \<Rightarrow> bool" where
  "tool_stuck_already_emitted claim pid \<longleftrightarrow> dget (stuck_map claim) (show_int pid) \<noteq> None"

lemma mark_tool_stuck [simp]:
  "tool_stuck_already_emitted (mark_tool_stuck_emitted claim pid stamp) pid' \<longleftrightarrow>
     pid' = pid \<or> tool_stuck_already_emitted claim pid'"
  by (auto simp: tool_stuck_already_emitted_def mark_tool_stuck_emitted_def stuck_map_def)

definition mark_heartbeat_loop_failing_notified :: "obj \<Rightarrow> bool \<times> obj" where
  "mark_heartbeat_loop_failing_notified claim =
     (if dtrue claim ''heartbeat_loop_failing_notified'' then (False, claim)
      else (True, dset ''heartbeat_loop_failing_notified'' (JBool True) claim))"

definition worker_idle_already_emitted :: "obj \<Rightarrow> bool" where
  "worker_idle_already_emitted claim = dtrue claim ''worker_idle_notified''"

definition mark_worker_idle_emitted :: "obj \<Rightarrow> int \<Rightarrow> obj" where
  "mark_worker_idle_emitted claim now =
     dset ''worker_idle_notified_at'' (iso now) (dset ''worker_idle_notified'' (JBool True) claim)"

definition worker_death_already_reported :: "obj \<Rightarrow> bool" where
  "worker_death_already_reported claim = dtrue claim ''worker_death_reported''"

definition mark_worker_death_reported :: "obj \<Rightarrow> int \<Rightarrow> obj" where
  "mark_worker_death_reported claim now =
     dset ''worker_death_reported_at'' (iso now) (dset ''worker_death_reported'' (JBool True) claim)"

section \<open>The idle watchdog's evidence\<close>

definition WORKER_IDLE_SAMPLE_CAP :: nat where
  "WORKER_IDLE_SAMPLE_CAP = 200"

definition cpu_samples_of :: "obj \<Rightarrow> jval list" where
  "cpu_samples_of claim = (case dget claim ''cpu_samples'' of Some (JList vs) \<Rightarrow> vs | _ \<Rightarrow> [])"

text \<open>\<open>parse_iso(sample["ts"])\<close> and \<open>float(sample["cpu"])\<close>, with \<open>None\<close> for any error.\<close>

definition sample_ts :: "jval \<Rightarrow> int option" where
  "sample_ts s = (case s of JObj d \<Rightarrow> time_field d ''ts'' | _ \<Rightarrow> None)"

definition sample_cpu :: "jval \<Rightarrow> rat option" where
  "sample_cpu s = (case s of
      JObj d \<Rightarrow> (case dget d ''cpu'' of
                   Some (JFloat r) \<Rightarrow> Some r
                 | Some (JInt i) \<Rightarrow> Some (of_int i)
                 | _ \<Rightarrow> None)
    | _ \<Rightarrow> None)"

definition cpu_sample :: "rat \<Rightarrow> int \<Rightarrow> jval" where
  "cpu_sample cpu now = JObj [(''ts'', iso now), (''cpu'', JFloat cpu)]"

definition append_cpu_sample :: "obj \<Rightarrow> rat \<Rightarrow> int \<Rightarrow> rat \<Rightarrow> obj" where
  "append_cpu_sample claim cpu now retain_seconds =
     (let samples = cpu_samples_of claim @ [cpu_sample cpu now];
          cutoff = of_int now - retain_seconds * of_int usec;
          kept = filter (\<lambda>s. case sample_ts s of None \<Rightarrow> False | Some ts \<Rightarrow> of_int ts \<ge> cutoff) samples
      in dset ''cpu_samples'' (JList (drop (length kept - WORKER_IDLE_SAMPLE_CAP) kept)) claim)"

fun all_some :: "'a option list \<Rightarrow> 'a list option" where
  "all_some [] = Some []"
| "all_some (None # xs) = None"
| "all_some (Some x # xs) = map_option (Cons x) (all_some xs)"

fun gaps_ok :: "rat \<Rightarrow> int list \<Rightarrow> bool" where
  "gaps_ok gap (t1 # t2 # ts) \<longleftrightarrow> of_int (t2 - t1) \<le> gap * of_int usec \<and> gaps_ok gap (t2 # ts)"
| "gaps_ok gap _ \<longleftrightarrow> True"

definition worker_idle_window_satisfied ::
    "obj \<Rightarrow> int \<Rightarrow> int \<Rightarrow> rat \<Rightarrow> rat \<Rightarrow> rat \<Rightarrow> bool" where
  "worker_idle_window_satisfied claim now min_samples window_min max_sample_gap cpu_delta_threshold =
     (let samples = cpu_samples_of claim in
      if samples = [] \<or> int (length samples) < min_samples then False
      else case (all_some (map sample_ts samples), all_some (map sample_cpu samples)) of
        (Some stamps, Some cpus) \<Rightarrow>
          if of_int (last stamps - hd stamps) < window_min * 60 * of_int usec then False
          else if \<not> gaps_ok max_sample_gap stamps then False
          else if of_int (now - last stamps) > max_sample_gap * of_int usec then False
          else let delta = last cpus - hd cpus in
            if delta < 0 then False else delta \<le> cpu_delta_threshold
      | _ \<Rightarrow> False)"

lemma all_some_Some: "all_some xs = Some ys \<longleftrightarrow> xs = map Some ys"
  by (induction xs arbitrary: ys rule: all_some.induct) (auto simp: Cons_eq_map_conv)

lemma gaps_ok_cover:
  assumes "gaps_ok gap ts" "ts \<noteq> []" "of_int (now - last ts) \<le> gap * of_int usec"
    "hd ts \<le> t" "t \<le> now"
  shows "\<exists>s\<in>set ts. s \<le> t \<and> of_int (t - s) \<le> gap * of_int usec"
  using assms
proof (induction gap ts rule: gaps_ok.induct, goal_cases)
  case (1 gap t1 t2 ts)
  show ?case
  proof (cases "t2 \<le> t")
    case True
    with 1 show ?thesis by auto
  next
    case False
    have "(of_int (t - t1) :: rat) \<le> of_int (t2 - t1)" using False by simp
    also have "\<dots> \<le> gap * of_int usec" using 1(2) by simp
    finally show ?thesis using 1(5) by auto
  qed
next
  case (3 gap s)
  have "(of_int (t - s) :: rat) \<le> of_int (now - s)" using 3(5) by simp
  also have "\<dots> \<le> gap * of_int usec" using 3(3) by simp
  finally show ?case using 3(4) by auto
qed simp

text \<open>
  The idle judgment is evidence. When the window predicate holds, the sample history spans
  at least the configured window, every instant from the first sample to now was preceded by a
  sample no further back than the largest allowed gap (there is no hole the worker could have
  worked in unseen), and the processor time of the tree rose by at most the threshold over it.
\<close>

theorem idle_window_is_evidence:
  assumes "worker_idle_window_satisfied claim now min_samples window_min gap thr"
  shows "\<exists>stamps cpus.
    map sample_ts (cpu_samples_of claim) = map Some stamps
    \<and> map sample_cpu (cpu_samples_of claim) = map Some cpus
    \<and> stamps \<noteq> [] \<and> int (length stamps) \<ge> min_samples
    \<and> of_int (last stamps - hd stamps) \<ge> window_min * 60 * of_int usec
    \<and> (\<forall>t. hd stamps \<le> t \<and> t \<le> now \<longrightarrow> (\<exists>s\<in>set stamps. s \<le> t \<and> of_int (t - s) \<le> gap * of_int usec))
    \<and> 0 \<le> last cpus - hd cpus \<and> last cpus - hd cpus \<le> thr"
proof -
  let ?s = "cpu_samples_of claim"
  from assms obtain stamps cpus where
    m: "map sample_ts ?s = map Some stamps" "map sample_cpu ?s = map Some cpus" and
    r: "?s \<noteq> []" "int (length ?s) \<ge> min_samples"
      "of_int (last stamps - hd stamps) \<ge> window_min * 60 * of_int usec" "gaps_ok gap stamps"
      "of_int (now - last stamps) \<le> gap * of_int usec"
      "0 \<le> last cpus - hd cpus \<and> last cpus - hd cpus \<le> thr"
    unfolding worker_idle_window_satisfied_def Let_def
    by (auto simp: all_some_Some split: option.splits if_splits)
  have len: "length stamps = length ?s" using m(1) by (metis length_map)
  then have ne: "stamps \<noteq> []" using r(1) by auto
  show ?thesis
    using m ne r len gaps_ok_cover[OF r(4) ne r(5)]
    by (intro exI[of _ stamps] exI[of _ cpus]) simp
qed

definition example_idle_claim :: obj where
  "example_idle_claim = [(''phase_id'', JStr ''a''), (''cpu_samples'', JList
     [cpu_sample 5 0, cpu_sample 5 (seconds 300), cpu_sample (51/10) (seconds 600)])]"

theorem idle_window_is_evidence_witness:
  "worker_idle_window_satisfied example_idle_claim (seconds 610) 3 10 400 1 \<and>
   (\<exists>stamps. map sample_ts (cpu_samples_of example_idle_claim) = map Some stamps \<and>
     (\<forall>t. hd stamps \<le> t \<and> t \<le> seconds 610 \<longrightarrow>
        (\<exists>s\<in>set stamps. s \<le> t \<and> of_int (t - s) \<le> (400::rat) * of_int usec)))"
proof -
  have w: "worker_idle_window_satisfied example_idle_claim (seconds 610) 3 10 400 1"
    by (simp add: worker_idle_window_satisfied_def example_idle_claim_def cpu_samples_of_def
        cpu_sample_def sample_ts_def sample_cpu_def time_field_def iso_def usec_def)
  from idle_window_is_evidence[OF w] w show ?thesis by blast
qed

lemma append_cpu_sample_newest:
  assumes "0 \<le> retain" "now div usec * usec = now"
  shows "\<exists>older. cpu_samples_of (append_cpu_sample claim cpu now retain) = older @ [cpu_sample cpu now]"
proof -
  let ?keep = "\<lambda>s. case sample_ts s of None \<Rightarrow> False | Some ts \<Rightarrow> of_int ts \<ge> of_int now - retain * of_int usec"
  have "(0::rat) \<le> retain * of_int usec" using assms(1) by (simp add: usec_def)
  then have "?keep (cpu_sample cpu now)"
    using assms(2) by (simp add: sample_ts_def cpu_sample_def time_field_def iso_def)
  then have "filter ?keep (cpu_samples_of claim @ [cpu_sample cpu now])
      = filter ?keep (cpu_samples_of claim) @ [cpu_sample cpu now]" by simp
  then show ?thesis
    by (simp add: append_cpu_sample_def Let_def cpu_samples_of_def WORKER_IDLE_SAMPLE_CAP_def)
qed

text \<open>
  Retention is by age, with a hard cap. After a sample is appended the history holds at
  most 200 samples and every one of them is dated and no older than the retention bound; each
  of them is a sample of the old history or the new one, in the old order.
\<close>

theorem append_cpu_sample_retention:
  "let kept = cpu_samples_of (append_cpu_sample claim cpu now retain)
   in length kept \<le> 200
     \<and> (\<forall>s\<in>set kept. \<exists>ts. sample_ts s = Some ts \<and> of_int now - of_int ts \<le> retain * of_int usec)
     \<and> subseq kept (cpu_samples_of claim @ [cpu_sample cpu now])"
proof -
  let ?keep = "\<lambda>s. case sample_ts s of None \<Rightarrow> False | Some ts \<Rightarrow> of_int ts \<ge> of_int now - retain * of_int usec"
  let ?f = "filter ?keep (cpu_samples_of claim @ [cpu_sample cpu now])"
  have k: "cpu_samples_of (append_cpu_sample claim cpu now retain) = drop (length ?f - 200) ?f"
    by (simp add: append_cpu_sample_def Let_def cpu_samples_of_def WORKER_IDLE_SAMPLE_CAP_def)
  have "\<exists>ts. sample_ts s = Some ts \<and> of_int now - of_int ts \<le> retain * of_int usec"
    if "s \<in> set (drop n ?f)" for s n
  proof -
    have "?keep s" using that in_set_dropD[of s n ?f] by (simp only: set_filter mem_Collect_eq)
    then show ?thesis by (cases "sample_ts s") (simp_all add: algebra_simps)
  qed
  moreover have "subseq (drop n ?f) (cpu_samples_of claim @ [cpu_sample cpu now])" for n
    by (rule subseq_order.trans[OF suffix_imp_subseq[OF suffix_drop] subseq_filter_left])
  ultimately show ?thesis unfolding k Let_def by (auto simp del: filter_append)
qed

theorem append_cpu_sample_retention_witness:
  "length (cpu_samples_of (append_cpu_sample example_idle_claim 6 (seconds 700) 500)) \<le> 200"
  using append_cpu_sample_retention[of example_idle_claim 6 "seconds 700" 500]
  unfolding Let_def by blast

section \<open>Suppressions\<close>

definition ACTIVITY_MARKER_FALLBACK_BOUND_SECONDS :: int where
  "ACTIVITY_MARKER_FALLBACK_BOUND_SECONDS = 300"

definition activity_marker_suppresses :: "obj \<Rightarrow> int \<Rightarrow> int \<Rightarrow> bool" where
  "activity_marker_suppresses claim now max_age_seconds =
     (if \<not> dtrue claim ''active_tool_started_at'' then False
      else
        let bound = (if max_age_seconds \<le> 0 then ACTIVITY_MARKER_FALLBACK_BOUND_SECONDS else max_age_seconds)
        in case time_field claim ''active_tool_started_at'' of
             None \<Rightarrow> False
           | Some t \<Rightarrow> now - t < seconds bound)"

text \<open>
  \<open>timedelta(minutes=m)\<close> to the nearest microsecond; Python rounds an exact half to even where
  \<open>round\<close> rounds it up, and \<open>strftime\<close> then drops the fraction of the second.
\<close>

definition build_quiet_span :: "string \<Rightarrow> rat \<Rightarrow> int \<Rightarrow> rat \<Rightarrow> obj" where
  "build_quiet_span reason expected_minutes now ceiling_minutes =
     (let m = max 0 (min expected_minutes ceiling_minutes)
      in [(''reason'', JStr reason), (''started_at'', iso now),
          (''expires_at'', iso (now + round (m * 60 * of_int usec)))])"

definition quiet_span_active :: "obj \<Rightarrow> int \<Rightarrow> bool" where
  "quiet_span_active claim now =
     (case dget claim ''quiet_span'' of
        Some (JObj qs) \<Rightarrow>
          (case dget qs ''expires_at'' of
             Some (JTime expiry) \<Rightarrow> now < expiry
           | _ \<Rightarrow> False)
      | _ \<Rightarrow> False)"

text \<open>
  A declared quiet span is a lease. Whatever duration the worker asks for, the span it gets
  is over once the configured ceiling has passed since the declaration, with a ceiling of zero
  (or a negative request) it is never active at all, and it needs no closing message.
\<close>

theorem quiet_span_bounded:
  assumes "dget claim ''quiet_span'' = Some (JObj (build_quiet_span reason expected t0 ceil_min))"
    and "quiet_span_active claim now"
  shows "of_int (now - t0) < max 0 (min expected ceil_min) * 60 * of_int usec + 1/2
    \<and> (t0 \<le> now \<longrightarrow> 0 < expected \<and> 0 < ceil_min)"
proof -
  let ?m = "max 0 (min expected ceil_min)"
  let ?len = "?m * 60 * of_int usec"
  have "now < (t0 + round ?len) div usec * usec"
    using assms by (simp add: quiet_span_active_def build_quiet_span_def Let_def iso_def)
  then have lt: "now - t0 < round ?len" using iso_le[of "t0 + round ?len"] by linarith
  then have "(of_int (now - t0) :: rat) < of_int (round ?len)" using of_int_less_iff by blast
  also have "\<dots> \<le> ?len + 1/2" using of_int_round_le by blast
  finally have 1: "of_int (now - t0) < ?len + 1/2" .
  have "0 < expected \<and> 0 < ceil_min" if "t0 \<le> now"
  proof (rule ccontr)
    assume "\<not> (0 < expected \<and> 0 < ceil_min)"
    then have "?m = 0" by (auto simp: max_def min_def)
    then have "round ?len = 0" by simp
    then show False using lt that by linarith
  qed
  with 1 show ?thesis by blast
qed

theorem quiet_span_bounded_witness:
  "quiet_span_active [(''quiet_span'', JObj (build_quiet_span ''review'' 600 0 45))] (seconds 60) \<and>
   (of_int (seconds 60 - 0) :: rat) < max 0 (min 600 45) * 60 * of_int usec + 1/2"
proof -
  have a: "quiet_span_active [(''quiet_span'', JObj (build_quiet_span ''review'' 600 0 45))] (seconds 60)"
    by (simp add: quiet_span_active_def build_quiet_span_def Let_def iso_def usec_def)
  have "dget [(''quiet_span'', JObj (build_quiet_span ''review'' 600 0 45))] ''quiet_span''
      = Some (JObj (build_quiet_span ''review'' 600 0 45))" by simp
  from quiet_span_bounded[OF this a] a show ?thesis by blast
qed

end
