(* ===== verification/Store_Tables.thy ===== *)
theory Store_Tables
  imports Claims
begin

text \<open>
  The tables of the project database (\<open>db.py\<close>) and how \<open>plan_store.py\<close> writes a plan into them
  and reads it back: the column maps of a claim, a blocker, a task, an event and a plan head,
  the snapshot, and the inserts.

  A row maps column names to SQL values; a column that was never written is \<open>SNull\<close>. Tables
  are lists in rowid order, which for \<open>events\<close> is the order of the ids. A JSON column holds the
  value itself (\<open>SJson\<close>), \<open>json.dumps\<close> and \<open>json.loads\<close> being inverse on the values stored.
\<close>

section \<open>Rows\<close>

datatype sqlv = SNull | SVal jval | SJson jval

type_synonym row = "string \<Rightarrow> sqlv"

text \<open>What binding a Python value to a scalar column stores: \<open>None\<close> is NULL, a bool an integer.\<close>

fun sql_scalar :: "jval \<Rightarrow> sqlv" where
  "sql_scalar JNull = SNull"
| "sql_scalar (JBool b) = SVal (JInt (if b then 1 else 0))"
| "sql_scalar v = SVal v"

text \<open>\<open>row[col]\<close> as a Python value, and \<open>json.loads(row[col])\<close> of an object column.\<close>

fun scalar_of :: "sqlv \<Rightarrow> jval" where
  "scalar_of SNull = JNull"
| "scalar_of (SVal v) = v"
| "scalar_of (SJson v) = v"

fun json_obj :: "sqlv \<Rightarrow> obj" where
  "json_obj (SJson (JObj d)) = d"
| "json_obj _ = []"

definition json_or_null :: "obj \<Rightarrow> sqlv" where
  "json_or_null d = (if d = [] then SNull else SJson (JObj d))"

lemma json_obj_or_null [simp]: "json_obj (json_or_null d) = d"
  by (simp add: json_or_null_def)

definition set_cols :: "(string \<times> sqlv) list \<Rightarrow> row \<Rightarrow> row" where
  "set_cols cs r = (\<lambda>c. case map_of cs c of None \<Rightarrow> r c | Some v \<Rightarrow> v)"

record event_row =
  er_id :: int
  er_slug :: string
  er_ts :: sqlv
  er_type :: sqlv
  er_payload :: sqlv

record archive_row = event_row +
  ar_archived_at :: sqlv

record queue_row =
  qr_id :: int
  qr_slug :: string
  qr_added_at :: sqlv
  qr_added_by :: sqlv
  qr_batch_id :: sqlv
  qr_extra :: sqlv

record history_row = queue_row +
  hr_ended_at :: sqlv
  hr_outcome :: sqlv

text \<open>The project database; \<open>t_seq\<close>, \<open>t_qseq\<close> and \<open>t_hseq\<close> are the AUTOINCREMENT counters.\<close>

record pdb =
  t_plans :: "(string \<times> row) list"
  t_claims :: "(string \<times> row) list"
  t_blockers :: "(string \<times> row) list"
  t_tasks :: "(string \<times> row) list"
  t_events :: "event_row list"
  t_seq :: int
  t_archive :: "archive_row list"
  t_queue :: "queue_row list"
  t_qseq :: int
  t_history :: "history_row list"
  t_hseq :: int
  t_quota :: "row option"

definition empty_db :: pdb where
  "empty_db = \<lparr>t_plans = [], t_claims = [], t_blockers = [], t_tasks = [], t_events = [], t_seq = 0,
     t_archive = [], t_queue = [], t_qseq = 0, t_history = [], t_hseq = 0, t_quota = None\<rparr>"

section \<open>Column maps\<close>

definition PLAN_SCALARS :: "string list" where
  "PLAN_SCALARS = [''status'', ''plan_dir'', ''created_at'', ''batch_id'']"

definition PLAN_JSON :: "string list" where
  "PLAN_JSON = [''config'', ''phases'', ''worktree'']"

definition PLAN_DERIVED :: "string list" where
  "PLAN_DERIVED = [''schema_version'', ''plan_slug'', ''current_claim'', ''blockers'', ''spawned_tasks'', ''events'']"

definition PLAN_OWN_KEYS :: "string list" where
  "PLAN_OWN_KEYS = PLAN_SCALARS @ PLAN_JSON @ PLAN_DERIVED"

definition CLAIM_SCALARS :: "string list" where
  "CLAIM_SCALARS = [''phase_id'', ''claimed_by'', ''lease_expires'', ''started_at'', ''last_heartbeat_at'',
     ''attempts'', ''pid'', ''pgid'', ''log_path'', ''session_id'', ''active_tool_started_at'']"

definition CLAIM_JSON :: "string list" where
  "CLAIM_JSON = [''attestations'', ''cpu_samples'']"

definition CLAIM_OWN_KEYS :: "string list" where
  "CLAIM_OWN_KEYS = CLAIM_SCALARS @ CLAIM_JSON"

text \<open>Every blocker key is its own column name, except \<open>id\<close>.\<close>

definition BLOCKER_ALWAYS :: "(string \<times> string) list" where
  "BLOCKER_ALWAYS = [(''id'', ''blocker_id''), (''phase_id'', ''phase_id''), (''type'', ''type''),
     (''question'', ''question''), (''options'', ''options''), (''context'', ''context''),
     (''asked_at'', ''asked_at''), (''answer'', ''answer''), (''answered_at'', ''answered_at'')]"

definition BLOCKER_OPTIONAL :: "(string \<times> string) list" where
  "BLOCKER_OPTIONAL = [(''consumed'', ''consumed''), (''last_repinged_at'', ''last_repinged_at''),
     (''notify_metadata'', ''notify_metadata'')]"

definition BLOCKER_JSON :: "string list" where
  "BLOCKER_JSON = [''options'', ''notify_metadata'']"

definition BLOCKER_COLUMN :: "(string \<times> string) list" where
  "BLOCKER_COLUMN = BLOCKER_ALWAYS @ BLOCKER_OPTIONAL"

definition BLOCKER_KNOWN :: "string list" where
  "BLOCKER_KNOWN = map fst BLOCKER_COLUMN"

section \<open>Claims\<close>

definition scalar_field :: "row \<Rightarrow> string \<Rightarrow> obj" where
  "scalar_field r c = (case r c of SVal v \<Rightarrow> [(c, v)] | _ \<Rightarrow> [])"

definition json_field :: "row \<Rightarrow> string \<Rightarrow> obj" where
  "json_field r c = (case r c of SJson v \<Rightarrow> [(c, v)] | _ \<Rightarrow> [])"

definition read_claim_row :: "row \<Rightarrow> obj" where
  "read_claim_row r =
     dupd (concat (map (scalar_field r) CLAIM_SCALARS) @ concat (map (json_field r) CLAIM_JSON))
          (json_obj (r ''flags''))"

definition read_claim :: "pdb \<Rightarrow> string \<Rightarrow> obj option" where
  "read_claim db slug = map_option read_claim_row (map_of (t_claims db) slug)"

definition claim_row :: "obj \<Rightarrow> row" where
  "claim_row claim = (\<lambda>c.
     if c \<in> set CLAIM_SCALARS then sql_scalar (jget claim c)
     else if c \<in> set CLAIM_JSON then (case dget claim c of None \<Rightarrow> SNull | Some v \<Rightarrow> SJson v)
     else if c = ''flags'' then json_or_null (dwithout CLAIM_OWN_KEYS claim)
     else SNull)"

definition write_claim :: "string \<Rightarrow> obj option \<Rightarrow> pdb \<Rightarrow> pdb" where
  "write_claim slug c db =
     (case c of
        None \<Rightarrow> db\<lparr>t_claims := AList.delete slug (t_claims db)\<rparr>
      | Some claim \<Rightarrow> db\<lparr>t_claims := AList.update slug (claim_row claim) (t_claims db)\<rparr>)"

text \<open>\<open>_claim_assignments\<close>: the columns and values of an UPDATE that merges \<open>fields\<close> into a row.\<close>

definition claim_assignments :: "row \<Rightarrow> obj \<Rightarrow> (string \<times> sqlv) list" where
  "claim_assignments r flds =
     (let own = filter (\<lambda>(k, v). k \<in> set CLAIM_OWN_KEYS) flds;
          flags = dupd (json_obj (r ''flags'')) (dwithout CLAIM_OWN_KEYS flds)
      in map (\<lambda>(k, v). (k, if k \<in> set CLAIM_SCALARS then sql_scalar v else SJson v)) own
         @ (if flags = [] then [] else [(''flags'', SJson (JObj flags))]))"

text \<open>What a claim field reads back as after a write: NULL is absent, a bool an integer.\<close>

definition stored_field :: "string \<Rightarrow> jval \<Rightarrow> jval option" where
  "stored_field k v =
     (if k \<in> set CLAIM_SCALARS then (case sql_scalar v of SVal w \<Rightarrow> Some w | _ \<Rightarrow> None) else Some v)"

text \<open>The shape every stored claim row has: the JSON tail never shadows a column.\<close>

definition claim_row_ok :: "row \<Rightarrow> bool" where
  "claim_row_ok r \<longleftrightarrow>
     (\<forall>c\<in>set CLAIM_SCALARS. \<forall>v. r c \<noteq> SJson v) \<and> (\<forall>c\<in>set CLAIM_JSON. \<forall>v. r c \<noteq> SVal v)
     \<and> set (map fst (json_obj (r ''flags''))) \<inter> set CLAIM_OWN_KEYS = {}
     \<and> distinct (map fst (json_obj (r ''flags'')))"

lemma sql_scalar_cases: "sql_scalar v = SNull \<or> (\<exists>w. sql_scalar v = SVal w)"
  by (cases v) auto

lemma map_of_concat_fields:
  assumes "\<And>c. set (map fst (f c)) \<subseteq> {c}"
  shows "map_of (concat (map f cs)) k = (if k \<in> set cs then map_of (f k) k else None)"
proof (induction cs)
  case (Cons c cs)
  have "k \<noteq> c \<Longrightarrow> map_of (f c) k = None"
    using assms[of c] by (auto simp: map_of_eq_None_iff)
  moreover have "k \<in> set cs \<Longrightarrow> map_of (concat (map f cs)) k = map_of (f k) k" using Cons.IH by simp
  ultimately show ?case using Cons.IH by (cases "k = c") (auto simp: map_add_def split: option.splits)
qed simp

lemma map_of_scalar_field [simp]:
  "map_of (scalar_field r k) k = (case r k of SVal v \<Rightarrow> Some v | _ \<Rightarrow> None)"
  "map_of (json_field r k) k = (case r k of SJson v \<Rightarrow> Some v | _ \<Rightarrow> None)"
  by (auto simp: scalar_field_def json_field_def split: sqlv.splits)

lemma claim_keys_disjoint: "set CLAIM_SCALARS \<inter> set CLAIM_JSON = {}" "''flags'' \<notin> set CLAIM_OWN_KEYS"
  by (simp_all add: CLAIM_SCALARS_def CLAIM_JSON_def CLAIM_OWN_KEYS_def)

lemma read_claim_row_get:
  assumes "distinct (map fst (json_obj (r ''flags'')))"
  shows "dget (read_claim_row r) k =
    (case map_of (json_obj (r ''flags'')) k of Some v \<Rightarrow> Some v | None \<Rightarrow>
       if k \<in> set CLAIM_SCALARS then (case r k of SVal v \<Rightarrow> Some v | _ \<Rightarrow> None)
       else if k \<in> set CLAIM_JSON then (case r k of SJson v \<Rightarrow> Some v | _ \<Rightarrow> None) else None)"
proof -
  have s: "map_of (concat (map (scalar_field r) CLAIM_SCALARS)) k =
      (if k \<in> set CLAIM_SCALARS then (case r k of SVal v \<Rightarrow> Some v | _ \<Rightarrow> None) else None)"
    by (subst map_of_concat_fields) (auto simp: scalar_field_def split: sqlv.splits)
  have j: "map_of (concat (map (json_field r) CLAIM_JSON)) k =
      (if k \<in> set CLAIM_JSON then (case r k of SJson v \<Rightarrow> Some v | _ \<Rightarrow> None) else None)"
    by (subst map_of_concat_fields) (auto simp: json_field_def split: sqlv.splits)
  show ?thesis
    unfolding read_claim_row_def map_of_dupd map_of_rev_keys[OF assms] map_of_append
    using claim_keys_disjoint(1)
    by (auto simp: map_add_def s j split: option.splits sqlv.splits)
qed

lemma own_keys_set: "set CLAIM_OWN_KEYS = set CLAIM_SCALARS \<union> set CLAIM_JSON"
  by (simp add: CLAIM_OWN_KEYS_def)

lemma flags_not_own: "''flags'' \<notin> set CLAIM_SCALARS" "''flags'' \<notin> set CLAIM_JSON"
  using claim_keys_disjoint(2) by (simp_all add: own_keys_set)

lemma dwithout_keys: "set (map fst (dwithout ks d)) = set (map fst d) - set ks"
  by (auto simp: dwithout_def image_iff)

lemma dupd_keys: "set (map fst (dupd d e)) = set (map fst d) \<union> set (map fst e)"
  by (induction d e rule: dupd.induct) (auto simp: dom_update)

lemma claim_row_ok_claim_row [simp]:
  assumes "distinct (map fst claim)"
  shows "claim_row_ok (claim_row claim)"
proof -
  have "sql_scalar w \<noteq> SJson v" for w v by (cases w) auto
  moreover have "c \<in> set CLAIM_JSON \<Longrightarrow> c \<notin> set CLAIM_SCALARS" for c
    using claim_keys_disjoint(1) by blast
  ultimately show ?thesis
    using assms flags_not_own dwithout_keys[of CLAIM_OWN_KEYS claim]
    by (auto simp: claim_row_ok_def claim_row_def distinct_dwithout split: option.splits)
qed

lemma read_claim_row_ok:
  assumes "claim_row_ok r"
  shows "dget (read_claim_row r) k =
    (if k \<in> set CLAIM_SCALARS then (case r k of SVal v \<Rightarrow> Some v | _ \<Rightarrow> None)
     else if k \<in> set CLAIM_JSON then (case r k of SJson v \<Rightarrow> Some v | _ \<Rightarrow> None)
     else map_of (json_obj (r ''flags'')) k)"
proof -
  have "k \<in> set CLAIM_OWN_KEYS \<Longrightarrow> map_of (json_obj (r ''flags'')) k = None"
    using assms by (auto simp: claim_row_ok_def map_of_eq_None_iff)
  then show ?thesis
    using assms by (subst read_claim_row_get) (auto simp: claim_row_ok_def own_keys_set split: option.splits)
qed

text \<open>
  Claim round trip. Writing a claim dictionary into its row and reading it back returns
  every field: a column that was given, a JSON column, and every field no column exists for
  (through the \<open>flags\<close> tail). The only change is the one the storage makes: a null scalar
  reads back as absent, a bool in a scalar column as an integer.
\<close>

theorem claim_roundtrip:
  assumes "distinct (map fst claim)"
  shows "dget (read_claim_row (claim_row claim)) k =
    (case dget claim k of None \<Rightarrow> None | Some v \<Rightarrow> stored_field k v)"
proof -
  have d: "k \<in> set CLAIM_SCALARS \<Longrightarrow> k \<notin> set CLAIM_JSON" using claim_keys_disjoint(1) by blast
  show ?thesis
    unfolding read_claim_row_ok[OF claim_row_ok_claim_row[OF assms]]
    using d flags_not_own
    by (auto simp: claim_row_def stored_field_def map_of_dwithout own_keys_set jget_def split: option.splits)
qed

theorem claim_roundtrip_witness:
  "dget (read_claim_row (claim_row [(''phase_id'', JStr ''a''), (''worker_idle_notified'', JBool True)]))
     ''worker_idle_notified'' = Some (JBool True)"
proof -
  have "distinct (map fst [(''phase_id'', JStr ''a''), (''worker_idle_notified'', JBool True)])" by simp
  from claim_roundtrip[OF this, of "''worker_idle_notified''"] show ?thesis
    by (simp add: stored_field_def CLAIM_SCALARS_def)
qed

lemma map_of_assign:
  "map_of (map (\<lambda>(k, v). (k, f k v)) (filter (\<lambda>(k, v). k \<in> K) d)) c =
     (if c \<in> K then map_option (f c) (map_of d c) else None)"
  by (induction d) auto

lemma claim_assignments_get:
  assumes "distinct (map fst flds)"
  shows "map_of (claim_assignments r flds) c =
    (if c \<in> set CLAIM_OWN_KEYS
     then map_option (\<lambda>v. if c \<in> set CLAIM_SCALARS then sql_scalar v else SJson v) (dget flds c)
     else if c = ''flags'' \<and> dupd (json_obj (r ''flags'')) (dwithout CLAIM_OWN_KEYS flds) \<noteq> []
     then Some (SJson (JObj (dupd (json_obj (r ''flags'')) (dwithout CLAIM_OWN_KEYS flds))))
     else None)"
  using claim_keys_disjoint(2)
  by (auto simp: claim_assignments_def Let_def map_of_assign map_add_def split: option.splits)

lemma set_cols_claim_ok:
  assumes ok: "claim_row_ok r" and d: "distinct (map fst flds)"
  shows "claim_row_ok (set_cols (claim_assignments r flds) r)"
    and "json_obj (set_cols (claim_assignments r flds) r ''flags'')
      = dupd (json_obj (r ''flags'')) (dwithout CLAIM_OWN_KEYS flds)"
proof -
  let ?r = "set_cols (claim_assignments r flds) r"
  let ?fl = "dupd (json_obj (r ''flags'')) (dwithout CLAIM_OWN_KEYS flds)"
  have "?fl = [] \<Longrightarrow> json_obj (r ''flags'') = []"
    using dupd_keys[of "json_obj (r ''flags'')" "dwithout CLAIM_OWN_KEYS flds"] by auto
  then show fl: "json_obj (?r ''flags'') = ?fl"
    using claim_keys_disjoint(2) by (auto simp: set_cols_def claim_assignments_get[OF d])
  have "distinct (map fst ?fl)" using ok by (simp add: claim_row_ok_def distinct_dupd)
  moreover have "set (map fst ?fl) \<inter> set CLAIM_OWN_KEYS = {}"
    using ok unfolding dupd_keys dwithout_keys by (auto simp: claim_row_ok_def)
  moreover have "sql_scalar w \<noteq> SJson v" for w v by (cases w) auto
  moreover have "c \<in> set CLAIM_JSON \<Longrightarrow> c \<notin> set CLAIM_SCALARS" for c using claim_keys_disjoint(1) by blast
  ultimately show "claim_row_ok ?r"
    using ok flags_not_own unfolding claim_row_ok_def fl
    by (auto simp: set_cols_def claim_assignments_get[OF d] own_keys_set split: option.splits)
qed

text \<open>
  A field write is a merge. After an UPDATE with the assignments computed for \<open>fields\<close>, the
  claim reads back as the old claim updated by \<open>fields\<close>, whichever of them have a column: the
  fields not named keep their values, the columns and the markers in the tail alike.
\<close>

theorem claim_assignments_merge:
  assumes "claim_row_ok r" "distinct (map fst flds)"
  shows "dget (read_claim_row (set_cols (claim_assignments r flds) r)) k =
    (case dget flds k of Some v \<Rightarrow> stored_field k v | None \<Rightarrow> dget (read_claim_row r) k)"
proof -
  have d: "k \<in> set CLAIM_SCALARS \<Longrightarrow> k \<notin> set CLAIM_JSON" using claim_keys_disjoint(1) by blast
  have rv: "map_of (rev (dwithout CLAIM_OWN_KEYS flds)) = map_of (dwithout CLAIM_OWN_KEYS flds)"
    by (rule map_of_rev_keys) (simp add: assms(2) distinct_dwithout)
  show ?thesis
    unfolding read_claim_row_ok[OF set_cols_claim_ok(1)[OF assms]] read_claim_row_ok[OF assms(1)]
      set_cols_claim_ok(2)[OF assms]
    using d sql_scalar_cases
    by (auto simp: set_cols_def claim_assignments_get[OF assms(2)] own_keys_set stored_field_def
        map_of_dupd rv map_of_dwithout map_add_def split: option.splits)
qed

theorem claim_assignments_merge_witness:
  "dget (read_claim_row (set_cols (claim_assignments (claim_row [(''phase_id'', JStr ''a'')]) [(''pid'', JInt 7)])
     (claim_row [(''phase_id'', JStr ''a'')]))) ''phase_id'' = dget (read_claim_row (claim_row [(''phase_id'', JStr ''a'')])) ''phase_id''"
proof -
  have "claim_row_ok (claim_row [(''phase_id'', JStr ''a'')])" "distinct (map fst [(''pid'', JInt 7)])"
    by simp_all
  from claim_assignments_merge[OF this, of "''phase_id''"] show ?thesis by simp
qed

section \<open>Blockers and tasks\<close>

definition blocker_key :: "string \<Rightarrow> string" where
  "blocker_key c = (if c = ''blocker_id'' then ''id'' else c)"

definition blocker_value :: "string \<Rightarrow> jval \<Rightarrow> sqlv" where
  "blocker_value k v =
     (if k \<in> set BLOCKER_JSON then SJson v
      else if k = ''consumed'' then SVal (JInt (if truthy v then 1 else 0))
      else sql_scalar v)"

text \<open>The row one INSERT makes: the nine columns always, the optional ones when the key is there;
  the schema gives \<open>consumed\<close> the default 0.\<close>

definition blocker_row :: "obj \<Rightarrow> row" where
  "blocker_row b = (\<lambda>c. let k = blocker_key c in
     if c \<in> set (map snd BLOCKER_ALWAYS) then blocker_value k (jget b k)
     else if c \<in> set (map snd BLOCKER_OPTIONAL) then
       (case dget b k of
          None \<Rightarrow> if c = ''consumed'' then SVal (JInt 0) else SNull
        | Some v \<Rightarrow> blocker_value k v)
     else SNull)"

definition read_blocker_row :: "row \<Rightarrow> obj" where
  "read_blocker_row r =
     map (\<lambda>(k, c). (k, scalar_of (r c))) BLOCKER_ALWAYS
     @ concat (map (\<lambda>(k, c).
         if r c = SNull then []
         else if k = ''consumed'' then [(k, JBool (truthy (scalar_of (r c))))]
         else [(k, scalar_of (r c))]) BLOCKER_OPTIONAL)"

definition rows_of :: "(string \<times> row) list \<Rightarrow> string \<Rightarrow> row list" where
  "rows_of t slug = map snd (filter (\<lambda>(s, r). s = slug) t)"

definition read_blockers :: "pdb \<Rightarrow> string \<Rightarrow> obj list" where
  "read_blockers db slug = map read_blocker_row (rows_of (t_blockers db) slug)"

definition key_taken :: "(string \<times> row) list \<Rightarrow> string \<Rightarrow> string \<Rightarrow> sqlv \<Rightarrow> bool" where
  "key_taken t slug c v \<longleftrightarrow> v \<noteq> SNull \<and> list_ex (\<lambda>(s, r). s = slug \<and> r c = v) t"

fun write_blockers :: "string \<Rightarrow> obj list \<Rightarrow> pdb \<Rightarrow> unit res \<times> pdb" where
  "write_blockers slug [] db = (Inr (), db)"
| "write_blockers slug (b # bs) db =
     (if \<not> list_all (\<lambda>k. k \<in> set BLOCKER_KNOWN) (map fst b) then (Inl (ValueErr ''unknown blocker field''), db)
      else if key_taken (t_blockers db) slug ''blocker_id'' (blocker_row b ''blocker_id'') then (Inl IntegrityErr, db)
      else write_blockers slug bs (db\<lparr>t_blockers := t_blockers db @ [(slug, blocker_row b)]\<rparr>))"

definition task_row :: "obj \<Rightarrow> row" where
  "task_row t = (\<lambda>c.
     if c = ''task_id'' then sql_scalar (jget t ''id'')
     else if c = ''status'' then sql_scalar (jget t ''status'')
     else if c = ''payload'' then json_or_null (dwithout [''id'', ''status''] t)
     else SNull)"

definition read_task_row :: "row \<Rightarrow> obj" where
  "read_task_row r =
     dset ''status'' (scalar_of (r ''status''))
       (dupd [(''id'', scalar_of (r ''task_id''))] (json_obj (r ''payload'')))"

definition read_tasks :: "pdb \<Rightarrow> string \<Rightarrow> obj list" where
  "read_tasks db slug = map read_task_row (rows_of (t_tasks db) slug)"

fun write_tasks :: "string \<Rightarrow> obj list \<Rightarrow> pdb \<Rightarrow> unit res \<times> pdb" where
  "write_tasks slug [] db = (Inr (), db)"
| "write_tasks slug (t # ts) db =
     (if key_taken (t_tasks db) slug ''task_id'' (task_row t ''task_id'') then (Inl IntegrityErr, db)
      else write_tasks slug ts (db\<lparr>t_tasks := t_tasks db @ [(slug, task_row t)]\<rparr>))"

section \<open>Events\<close>

definition event_payload :: "obj \<Rightarrow> sqlv" where
  "event_payload ev = json_or_null (dwithout [''ts'', ''type'', ''id''] ev)"

definition insert_event :: "string \<Rightarrow> pdb \<Rightarrow> obj \<Rightarrow> pdb" where
  "insert_event slug db ev =
     db\<lparr>t_events := t_events db @
          [\<lparr>er_id = t_seq db + 1, er_slug = slug, er_ts = sql_scalar (jget ev ''ts''),
            er_type = sql_scalar (jget ev ''type''), er_payload = event_payload ev\<rparr>],
        t_seq := t_seq db + 1\<rparr>"

definition insert_events :: "string \<Rightarrow> obj list \<Rightarrow> pdb \<Rightarrow> pdb" where
  "insert_events slug evs db = foldl (insert_event slug) db evs"

definition event_from_row :: "event_row \<Rightarrow> obj" where
  "event_from_row r =
     dset ''id'' (JInt (er_id r))
       (dupd [(''ts'', scalar_of (er_ts r)), (''type'', scalar_of (er_type r))] (json_obj (er_payload r)))"

definition plan_events :: "pdb \<Rightarrow> string \<Rightarrow> event_row list" where
  "plan_events db slug = filter (\<lambda>e. er_slug e = slug) (t_events db)"

definition read_events :: "pdb \<Rightarrow> string \<Rightarrow> obj list" where
  "read_events db slug = map event_from_row (plan_events db slug)"

definition events_after :: "pdb \<Rightarrow> string \<Rightarrow> int \<Rightarrow> obj list" where
  "events_after db slug after_id =
     map event_from_row (filter (\<lambda>e. er_id e > after_id) (plan_events db slug))"

definition archived_from_row :: "archive_row \<Rightarrow> obj" where
  "archived_from_row r =
     dset ''archived_at'' (scalar_of (ar_archived_at r))
       (dset ''id'' (JInt (er_id r))
         (dupd [(''ts'', scalar_of (er_ts r)), (''type'', scalar_of (er_type r))] (json_obj (er_payload r))))"

definition read_archived_events :: "pdb \<Rightarrow> string \<Rightarrow> obj list" where
  "read_archived_events db slug =
     map archived_from_row (sort_key er_id (filter (\<lambda>e. er_slug e = slug) (t_archive db)))"

text \<open>\<open>SELECT COALESCE(MAX(id), 0) FROM events WHERE plan_slug = ?\<close>\<close>

definition max_event_id :: "pdb \<Rightarrow> string \<Rightarrow> int" where
  "max_event_id db slug = foldr max (map er_id (plan_events db slug)) 0"

lemma plan_events_insert [simp]:
  "plan_events (insert_event slug db ev) s = plan_events db s @
     (if s = slug then [\<lparr>er_id = t_seq db + 1, er_slug = slug, er_ts = sql_scalar (jget ev ''ts''),
            er_type = sql_scalar (jget ev ''type''), er_payload = event_payload ev\<rparr>] else [])"
  by (simp add: plan_events_def insert_event_def)

lemma insert_event_others [simp]:
  "t_plans (insert_event slug db ev) = t_plans db"
  "t_claims (insert_event slug db ev) = t_claims db"
  "t_blockers (insert_event slug db ev) = t_blockers db"
  "t_tasks (insert_event slug db ev) = t_tasks db"
  "t_archive (insert_event slug db ev) = t_archive db"
  "t_queue (insert_event slug db ev) = t_queue db"
  "t_history (insert_event slug db ev) = t_history db"
  "t_quota (insert_event slug db ev) = t_quota db"
  "t_seq (insert_event slug db ev) = t_seq db + 1"
  by (simp_all add: insert_event_def)

lemma insert_events_others [simp]:
  "t_plans (insert_events slug evs db) = t_plans db"
  "t_claims (insert_events slug evs db) = t_claims db"
  "t_blockers (insert_events slug evs db) = t_blockers db"
  "t_tasks (insert_events slug evs db) = t_tasks db"
  "t_archive (insert_events slug evs db) = t_archive db"
  "t_queue (insert_events slug evs db) = t_queue db"
  "t_history (insert_events slug evs db) = t_history db"
  "t_quota (insert_events slug evs db) = t_quota db"
  "t_seq (insert_events slug evs db) = t_seq db + int (length evs)"
  by (induction evs arbitrary: db) (simp_all add: insert_events_def)

lemma plan_events_insert_events:
  "\<exists>new. plan_events (insert_events slug evs db) s = plan_events db s @ new
     \<and> length new = (if s = slug then length evs else 0) \<and> (\<forall>e\<in>set new. er_id e > t_seq db)"
proof (induction evs arbitrary: db)
  case Nil
  then show ?case by (simp add: insert_events_def)
next
  case (Cons ev evs)
  from Cons.IH[of "insert_event slug db ev"] obtain new where
    n: "plan_events (insert_events slug evs (insert_event slug db ev)) s
          = plan_events (insert_event slug db ev) s @ new"
      "length new = (if s = slug then length evs else 0)" "\<forall>e\<in>set new. er_id e > t_seq db + 1"
    by auto
  then have "\<forall>e\<in>set new. t_seq db < er_id e" by (simp add: order_less_trans[of _ "t_seq db + 1"])
  with n(1,2) show ?case by (auto simp: insert_events_def)
qed

text \<open>
  Event round trip: an event reads back with every field it was built with, and its id.
\<close>

lemma event_roundtrip:
  assumes "distinct (map fst ev)" "k \<noteq> ''id''"
    "k \<in> {''ts'', ''type''} \<Longrightarrow> (case dget ev k of Some (JBool b) \<Rightarrow> False | None \<Rightarrow> False | _ \<Rightarrow> True)"
  shows "dget (event_from_row \<lparr>er_id = i, er_slug = slug, er_ts = sql_scalar (jget ev ''ts''),
      er_type = sql_scalar (jget ev ''type''), er_payload = event_payload ev\<rparr>) k = dget ev k"
proof -
  have sc: "scalar_of (sql_scalar v) = v" if "\<forall>b. v \<noteq> JBool b" for v using that by (cases v) auto
  have "map_of (rev (dwithout [''ts'', ''type'', ''id''] ev)) = map_of (dwithout [''ts'', ''type'', ''id''] ev)"
    by (rule map_of_rev_keys) (simp add: assms(1) distinct_dwithout)
  then have r: "map_of (event_from_row \<lparr>er_id = i, er_slug = slug, er_ts = sql_scalar (jget ev ''ts''),
      er_type = sql_scalar (jget ev ''type''), er_payload = event_payload ev\<rparr>) k =
    (if k = ''ts'' then Some (scalar_of (sql_scalar (jget ev ''ts'')))
     else if k = ''type'' then Some (scalar_of (sql_scalar (jget ev ''type''))) else dget ev k)"
    using assms(2) by (simp add: event_from_row_def event_payload_def map_of_dupd map_of_dwithout map_add_def split: option.split)
  have "jget ev k = v" if "dget ev k = Some v" for v using that by (simp add: jget_def)
  then show ?thesis
    using r assms(3) sc by (cases "dget ev k") (auto split: jval.splits)
qed

section \<open>The plan head, the snapshot, the insert\<close>

definition head_row :: "doc \<Rightarrow> row" where
  "head_row d = (\<lambda>c.
     if c = ''status'' then sql_scalar (d_status d)
     else if c = ''plan_dir'' then sql_scalar (d_plan_dir d)
     else if c = ''created_at'' then sql_scalar (d_created_at d)
     else if c = ''batch_id'' then sql_scalar (d_batch_id d)
     else if c = ''config'' then (case d_config d of None \<Rightarrow> SNull | Some o' \<Rightarrow> SJson (JObj o'))
     else if c = ''phases'' then (case d_phases d of None \<Rightarrow> SNull | Some ps \<Rightarrow> SJson (JList (map JObj ps)))
     else if c = ''worktree'' then (case d_worktree d of None \<Rightarrow> SNull | Some v \<Rightarrow> SJson v)
     else if c = ''extra'' then json_or_null (d_extra d)
     else if c = ''version'' then SVal (JInt 0)
     else SNull)"

fun obj_of :: "jval \<Rightarrow> obj" where
  "obj_of (JObj d) = d"
| "obj_of _ = []"

definition snapshot_in_txn :: "pdb \<Rightarrow> string \<Rightarrow> doc res" where
  "snapshot_in_txn db slug =
     (case map_of (t_plans db) slug of
        None \<Rightarrow> Inl (FileNotFoundErr slug)
      | Some r \<Rightarrow> Inr
          \<lparr>d_slug = slug, d_status = scalar_of (r ''status''), d_plan_dir = scalar_of (r ''plan_dir''),
           d_created_at = scalar_of (r ''created_at''), d_batch_id = scalar_of (r ''batch_id''),
           d_config = (case r ''config'' of SJson v \<Rightarrow> Some (obj_of v) | _ \<Rightarrow> None),
           d_phases = (case r ''phases'' of SJson (JList vs) \<Rightarrow> Some (map obj_of vs) | _ \<Rightarrow> None),
           d_worktree = (case r ''worktree'' of SJson v \<Rightarrow> Some v | _ \<Rightarrow> None),
           d_extra = json_obj (r ''extra''),
           d_claim = read_claim db slug, d_blockers = read_blockers db slug,
           d_tasks = read_tasks db slug, d_events = read_events db slug\<rparr>)"

definition snapshot :: "pdb \<Rightarrow> string \<Rightarrow> doc res" where
  "snapshot db slug = bind_res (validate_slug slug) (\<lambda>_. snapshot_in_txn db slug)"

text \<open>\<open>dump_json\<close> up to the printing: the history with the archive merged back by id.\<close>

definition dump_events :: "pdb \<Rightarrow> string \<Rightarrow> obj list" where
  "dump_events db slug =
     (let archived = read_archived_events db slug;
          hot = read_events db slug
      in if archived = [] then hot
         else sort_key (\<lambda>e. case iget e ''id'' of None \<Rightarrow> 0 | Some i \<Rightarrow> i) (archived @ hot))"

definition plan_exists :: "pdb \<Rightarrow> string \<Rightarrow> bool" where
  "plan_exists db slug \<longleftrightarrow> slug_re_match slug \<and> map_of (t_plans db) slug \<noteq> None"

definition plan_slugs :: "pdb \<Rightarrow> string list" where
  "plan_slugs db = sort (map fst (t_plans db))"

definition insert_plan :: "doc \<Rightarrow> pdb \<Rightarrow> unit res \<times> pdb" where
  "insert_plan d db =
     (let slug = d_slug d in
      if map_of (t_plans db) slug \<noteq> None then (Inl IntegrityErr, db)
      else
        let db1 = db\<lparr>t_plans := t_plans db @ [(slug, head_row d)]\<rparr>;
            db2 = write_claim slug (d_claim d) db1
        in case write_blockers slug (d_blockers d) db2 of
             (Inl e, db3) \<Rightarrow> (Inl e, db3)
           | (Inr _, db3) \<Rightarrow>
               (case write_tasks slug (d_tasks d) db3 of
                  (Inl e, db4) \<Rightarrow> (Inl e, db4)
                | (Inr _, db4) \<Rightarrow> (Inr (), insert_events slug (d_events d) db4)))"

text \<open>\<open>create_in_txn\<close>: the insert is the duplicate check.\<close>

definition create_in_txn :: "doc \<Rightarrow> pdb \<Rightarrow> unit res \<times> pdb" where
  "create_in_txn d db =
     (case validate_slug (d_slug d) of
        Inl e \<Rightarrow> (Inl e, db)
      | Inr _ \<Rightarrow>
          (case insert_plan d db of
             (Inl IntegrityErr, db') \<Rightarrow> (Inl (FileExistsErr (d_slug d)), db')
           | r \<Rightarrow> r))"

end
