(* ===== verification/Plan_Store.thy ===== *)
theory Plan_Store
  imports Store_Tables
begin

text \<open>
  The native operations of \<open>plan_store.py\<close>: one write transaction per purpose, on the rows it
  names. \<open>write_txn\<close> is \<open>db.write_txn\<close> (all or nothing), \<open>plan_txn\<close> is \<open>_plan_txn\<close> (validate
  the slug, bump the version, which is also the existence check). A body returns its result or
  the exception it raised together with the database as it left it; the transaction discards
  the latter when there is an exception.

  \<open>now\<close> is the instant the operation reads its clock at. A call that cannot get the write lock
  raises \<open>DbBusy\<close> and does nothing; only \<open>op_activity\<close>, which handles it, has it as an input.
\<close>

section \<open>Transactions\<close>

type_synonym 'a txn = "pdb \<Rightarrow> 'a res \<times> pdb"

definition ret :: "'a \<Rightarrow> 'a txn" where
  "ret x = (\<lambda>db. (Inr x, db))"

definition fail :: "pyerr \<Rightarrow> 'a txn" where
  "fail e = (\<lambda>db. (Inl e, db))"

definition andthen :: "'a txn \<Rightarrow> ('a \<Rightarrow> 'b txn) \<Rightarrow> 'b txn" where
  "andthen m f = (\<lambda>db. case m db of (Inl e, db') \<Rightarrow> (Inl e, db') | (Inr x, db') \<Rightarrow> f x db')"

definition modify :: "(pdb \<Rightarrow> pdb) \<Rightarrow> unit txn" where
  "modify f = (\<lambda>db. (Inr (), f db))"

definition query :: "(pdb \<Rightarrow> 'a) \<Rightarrow> 'a txn" where
  "query f = (\<lambda>db. (Inr (f db), db))"

definition write_txn :: "'a txn \<Rightarrow> 'a txn" where
  "write_txn body = (\<lambda>db. case body db of (Inl e, db') \<Rightarrow> (Inl e, db) | (Inr x, db') \<Rightarrow> (Inr x, db'))"

definition locked :: "bool \<Rightarrow> 'a txn \<Rightarrow> 'a txn" where
  "locked busy m = (if busy then fail DbBusy else m)"

definition bump_version :: "row \<Rightarrow> row" where
  "bump_version r = r(''version'' := (case r ''version'' of
     SVal (JInt n) \<Rightarrow> SVal (JInt (n + 1)) | v \<Rightarrow> v))"

definition update_plan :: "string \<Rightarrow> (row \<Rightarrow> row) \<Rightarrow> pdb \<Rightarrow> pdb" where
  "update_plan slug f db = db\<lparr>t_plans := AList.map_entry slug f (t_plans db)\<rparr>"

definition bump :: "string \<Rightarrow> unit txn" where
  "bump slug = (\<lambda>db.
     if map_of (t_plans db) slug = None then (Inl (FileNotFoundErr slug), db)
     else (Inr (), update_plan slug bump_version db))"

definition plan_txn :: "string \<Rightarrow> 'a txn \<Rightarrow> 'a txn" where
  "plan_txn slug body = (\<lambda>db.
     case validate_slug slug of
       Inl e \<Rightarrow> (Inl e, db)
     | Inr _ \<Rightarrow> write_txn (andthen (bump slug) (\<lambda>_. body)) db)"

section \<open>Claim rows\<close>

definition claim_row_of :: "pdb \<Rightarrow> string \<Rightarrow> row option" where
  "claim_row_of db slug = map_of (t_claims db) slug"

text \<open>The identity of the live claim: \<open>(claimed_by, phase_id)\<close>.\<close>

definition holder :: "pdb \<Rightarrow> string \<Rightarrow> (jval \<times> jval) option" where
  "holder db slug = map_option (\<lambda>r. (scalar_of (r ''claimed_by''), scalar_of (r ''phase_id''))) (claim_row_of db slug)"

definition update_claim :: "string \<Rightarrow> (string \<times> sqlv) list \<Rightarrow> pdb \<Rightarrow> pdb" where
  "update_claim slug cols db = db\<lparr>t_claims := AList.map_entry slug (set_cols cols) (t_claims db)\<rparr>"

text \<open>The predicate every token-guarded operation shares (\<open>_CLAIM_CAS\<close> and its Python form).\<close>

definition cas_row :: "string \<Rightarrow> string option \<Rightarrow> row \<Rightarrow> bool" where
  "cas_row token phase r \<longleftrightarrow>
     r ''claimed_by'' = SVal (JStr token)
     \<and> (case phase of None \<Rightarrow> True | Some p \<Rightarrow> r ''phase_id'' = SVal (JStr p))"

definition claim_mismatch :: "pdb \<Rightarrow> string \<Rightarrow> jval \<Rightarrow> string option \<Rightarrow> pyerr" where
  "claim_mismatch db slug token phase =
     (case claim_row_of db slug of
        None \<Rightarrow> ClaimMismatch NoActiveClaim
      | Some r \<Rightarrow>
          if scalar_of (r ''claimed_by'') \<noteq> token
          then ClaimMismatch (TokenMismatch (scalar_of (r ''claimed_by'')) token)
          else (case phase of
                  Some p \<Rightarrow> if scalar_of (r ''phase_id'') \<noteq> JStr p
                            then ClaimMismatch (PhaseMismatch (scalar_of (r ''phase_id'')) (JStr p))
                            else ClaimMismatch ClaimChanged
                | None \<Rightarrow> ClaimMismatch ClaimChanged))"

text \<open>\<open>UPDATE claims SET ... WHERE\<close> the compare-and-set; the number of rows it touched.\<close>

definition cas_update :: "string \<Rightarrow> string \<Rightarrow> string \<Rightarrow> (string \<times> sqlv) list \<Rightarrow> pdb \<Rightarrow> nat \<times> pdb" where
  "cas_update slug token phase cols db =
     (case claim_row_of db slug of
        None \<Rightarrow> (0, db)
      | Some r \<Rightarrow> if cas_row token (Some phase) r then (1, update_claim slug cols db) else (0, db))"

text \<open>The check the operations make on the row they read before they write.\<close>

definition require_token :: "string \<Rightarrow> string \<Rightarrow> string option \<Rightarrow> row txn" where
  "require_token slug token phase = (\<lambda>db.
     case claim_row_of db slug of
       None \<Rightarrow> (Inl (claim_mismatch db slug (JStr token) phase), db)
     | Some r \<Rightarrow> if cas_row token phase r then (Inr r, db)
                 else (Inl (claim_mismatch db slug (JStr token) phase), db))"

definition check_token :: "string \<Rightarrow> string option \<Rightarrow> string option \<Rightarrow> unit txn" where
  "check_token slug token phase =
     (case token of None \<Rightarrow> ret () | Some t \<Rightarrow> andthen (require_token slug t phase) (\<lambda>_. ret ()))"

definition delete_claim :: "string \<Rightarrow> pdb \<Rightarrow> pdb" where
  "delete_claim slug db = db\<lparr>t_claims := AList.delete slug (t_claims db)\<rparr>"

definition release_in_txn :: "string \<Rightarrow> string option \<Rightarrow> string option \<Rightarrow> obj option txn" where
  "release_in_txn slug token phase = (\<lambda>db.
     if (token = None) \<noteq> (phase = None)
     then (Inl (ValueErr ''release: token and phase must be passed together''), db)
     else
       let claim = read_claim db slug in
       if token \<noteq> None \<and>
          (case claim of None \<Rightarrow> True
           | Some c \<Rightarrow> jget c ''claimed_by'' \<noteq> opt_str token \<or> jget c ''phase_id'' \<noteq> opt_str phase)
       then (Inl (claim_mismatch db slug (opt_str token) phase), db)
       else (Inr claim, delete_claim slug db))"

section \<open>Operations on the claim\<close>

definition op_heartbeat :: "int \<Rightarrow> string \<Rightarrow> string \<Rightarrow> string \<Rightarrow> jval txn" where
  "op_heartbeat now slug token phase =
     plan_txn slug (\<lambda>db.
       let (n, db') = cas_update slug token phase [(''last_heartbeat_at'', sql_scalar (iso now))] db
       in if n = 0 then (Inl (claim_mismatch db' slug (JStr token) (Some phase)), db')
          else (Inr (iso now), db'))"

definition op_activity :: "bool \<Rightarrow> int \<Rightarrow> string \<Rightarrow> string \<Rightarrow> string \<Rightarrow> string \<Rightarrow> bool txn" where
  "op_activity busy now slug token phase action = (\<lambda>db0.
     if action \<noteq> ''start'' \<and> action \<noteq> ''end'' then (Inl (ValueErr ''action must be start or end''), db0)
     else
       case locked busy (plan_txn slug
         (andthen
           (if action = ''end'' then ret [(''active_tool_started_at'', SNull)]
            else andthen (require_token slug token (Some phase)) (\<lambda>r.
              ret (claim_assignments r
                [(''active_tool_started_at'', iso now), (''cpu_samples'', JList []),
                 (''worker_idle_notified'', JBool False), (''worker_idle_notified_at'', JNull)])))
           (\<lambda>cols db.
              let (n, db') = cas_update slug token phase cols db
              in if n = 0 then (Inl (claim_mismatch db' slug (JStr token) (Some phase)), db')
                 else (Inr True, db')))) db0 of
         (Inl DbBusy, db') \<Rightarrow> (Inr False, db')
       | r \<Rightarrow> r)"

definition op_stamp_claim_fields ::
    "string \<Rightarrow> string \<Rightarrow> obj \<Rightarrow> string option \<Rightarrow> string option \<Rightarrow> obj list \<Rightarrow> bool txn" where
  "op_stamp_claim_fields slug token flds phase if_unset evs =
     plan_txn slug (andthen (require_token slug token phase) (\<lambda>r.
       if (case if_unset of None \<Rightarrow> False
           | Some k \<Rightarrow>
               let current = jget (json_obj (r ''flags'')) k
               in truthy (if current = JNull \<and> k \<in> set CLAIM_SCALARS then scalar_of (r k) else current))
       then ret False
       else andthen (modify (\<lambda>db. insert_events slug evs (update_claim slug (claim_assignments r flds) db)))
              (\<lambda>_. ret True)))"

definition op_append_events :: "string \<Rightarrow> obj list \<Rightarrow> string option \<Rightarrow> string option \<Rightarrow> unit txn" where
  "op_append_events slug evs token phase =
     plan_txn slug (andthen (check_token slug token phase) (\<lambda>_. modify (insert_events slug evs)))"

definition op_release_claim ::
    "string \<Rightarrow> string option \<Rightarrow> string option \<Rightarrow> obj list \<Rightarrow> obj option txn" where
  "op_release_claim slug token phase evs =
     plan_txn slug (andthen (release_in_txn slug token phase) (\<lambda>claim.
       andthen (modify (insert_events slug evs)) (\<lambda>_. ret claim)))"

definition op_stamp_attestation ::
    "int \<Rightarrow> string \<Rightarrow> string option \<Rightarrow> string option \<Rightarrow> string \<Rightarrow> string \<Rightarrow> obj list \<Rightarrow> unit txn" where
  "op_stamp_attestation now slug token phase kind sha evs =
     plan_txn slug (andthen (check_token slug token phase) (\<lambda>_ db.
       case claim_row_of db slug of
         None \<Rightarrow> (Inl (ValueErr ''stamp_attestation: no current_claim''), db)
       | Some r \<Rightarrow>
           (Inr (), insert_events slug evs (update_claim slug
              [(''attestations'', SJson (JObj (dset kind (attestation_entry now sha)
                 (json_obj (r ''attestations'')))))] db))))"

definition op_refuse_attestation ::
    "int \<Rightarrow> string \<Rightarrow> string \<Rightarrow> string \<Rightarrow> string \<Rightarrow> (jval \<times> bool) txn" where
  "op_refuse_attestation now slug phase gate head_sha =
     plan_txn slug (\<lambda>db.
       let atts = (case claim_row_of db slug of None \<Rightarrow> [] | Some r \<Rightarrow> json_obj (r ''attestations''));
           fresh = entry_sha (dget atts gate)
       in if fresh \<noteq> JNull \<and> fresh = JStr head_sha then (Inr (JNull, False), db)
          else (Inr (fresh, True), insert_events slug
            [mk_event now EVENT_ATTESTATION_REFUSED
              [(''phase'', JStr phase), (''gate'', JStr gate), (''stamped_at'', fresh),
               (''head_sha'', JStr head_sha)]] db))"

text \<open>\<open>_extended_expiry\<close>: never from a deadline in the past, never shortening a live one.\<close>

definition extended_expiry :: "int \<Rightarrow> sqlv \<Rightarrow> int \<Rightarrow> jval" where
  "extended_expiry now current mins =
     (let baseline = (case parse_iso (scalar_of current) of Some t \<Rightarrow> max t now | None \<Rightarrow> now)
      in iso (baseline + minutes mins))"

definition op_extend_lease :: "int \<Rightarrow> string \<Rightarrow> string \<Rightarrow> int \<Rightarrow> jval txn" where
  "op_extend_lease now slug phase mins =
     plan_txn slug (\<lambda>db.
       case claim_row_of db slug of
         None \<Rightarrow> (Inl (claim_mismatch db slug JNull (Some phase)), db)
       | Some r \<Rightarrow>
           if r ''phase_id'' \<noteq> SVal (JStr phase)
           then (Inl (claim_mismatch db slug (scalar_of (r ''claimed_by'')) (Some phase)), db)
           else
             let expiry = extended_expiry now (r ''lease_expires'') mins
             in (Inr expiry, insert_events slug
                   [mk_event now EVENT_LEASE_EXTENDED
                     [(''phase'', JStr phase), (''extended_by_minutes'', JInt mins),
                      (''new_expires'', expiry), (''operator'', JBool True)]]
                   (update_claim slug [(''lease_expires'', sql_scalar expiry)] db)))"

section \<open>Operations on blockers and tasks\<close>

definition op_add_blocker ::
    "int \<Rightarrow> string \<Rightarrow> string \<Rightarrow> string \<Rightarrow> string list \<Rightarrow> string \<Rightarrow> string \<Rightarrow> string option \<Rightarrow> string option \<Rightarrow> string txn" where
  "op_add_blocker now slug phase_id question options context blocker_type rel_token rel_phase =
     plan_txn slug
       (andthen (if rel_token \<noteq> None \<or> rel_phase \<noteq> None
                 then andthen (release_in_txn slug rel_token rel_phase) (\<lambda>_. ret ()) else ret ())
       (\<lambda>_. andthen (query (\<lambda>db. ''q-'' @ show_nat (length (rows_of (t_blockers db) slug) + 1)))
       (\<lambda>blocker_id. andthen
         (write_blockers slug
            [[(''id'', JStr blocker_id), (''phase_id'', JStr phase_id), (''type'', JStr blocker_type),
              (''question'', JStr question), (''options'', JList (map JStr options)),
              (''context'', JStr context), (''asked_at'', iso now), (''answer'', JNull),
              (''answered_at'', JNull)]])
       (\<lambda>_. andthen
         (modify (insert_events slug
            [mk_event now EVENT_PHASE_BLOCKED
              [(''phase'', JStr phase_id), (''blocker_id'', JStr blocker_id), (''question'', JStr question)]]))
       (\<lambda>_. ret blocker_id)))))"

text \<open>\<open>_resolve_answer\<close>: an option index becomes the option.\<close>

definition resolve_answer :: "sqlv \<Rightarrow> string \<Rightarrow> jval" where
  "resolve_answer options raw =
     (let os = (case options of SJson (JList vs) \<Rightarrow> vs | _ \<Rightarrow> []) in
      if isdigit raw \<and> nat_of_digits raw < length os then os ! nat_of_digits raw else JStr raw)"

definition is_blocker :: "string \<Rightarrow> string \<Rightarrow> string \<times> row \<Rightarrow> bool" where
  "is_blocker slug blocker_id = (\<lambda>(s, r). s = slug \<and> r ''blocker_id'' = SVal (JStr blocker_id))"

definition update_blockers :: "(string \<times> row \<Rightarrow> bool) \<Rightarrow> (string \<times> sqlv) list \<Rightarrow> pdb \<Rightarrow> pdb" where
  "update_blockers P cols db =
     db\<lparr>t_blockers := map (\<lambda>(s, r). if P (s, r) then (s, set_cols cols r) else (s, r)) (t_blockers db)\<rparr>"

definition op_answer_blocker :: "int \<Rightarrow> string \<Rightarrow> string \<Rightarrow> string \<Rightarrow> jval txn" where
  "op_answer_blocker now slug blocker_id answer =
     plan_txn slug (\<lambda>db.
       let open_row = (\<lambda>(s, r). is_blocker slug blocker_id (s, r) \<and> r ''answer'' = SNull)
       in case find open_row (t_blockers db) of
            None \<Rightarrow> (Inl (KeyErr ''no unanswered blocker''), db)
          | Some (_, r) \<Rightarrow>
              let resolved = resolve_answer (r ''options'') answer
              in (Inr resolved, insert_events slug
                    [mk_event now EVENT_BLOCKER_ANSWERED
                      [(''blocker_id'', JStr blocker_id), (''answer'', resolved)]]
                    (update_blockers open_row
                      [(''answer'', sql_scalar resolved), (''answered_at'', sql_scalar (iso now))] db)))"

definition op_stamp_blocker_metadata :: "string \<Rightarrow> string \<Rightarrow> string \<Rightarrow> obj \<Rightarrow> unit txn" where
  "op_stamp_blocker_metadata slug blocker_id channel metadata =
     plan_txn slug (\<lambda>db.
       case find (is_blocker slug blocker_id) (t_blockers db) of
         None \<Rightarrow> (Inr (), db)
       | Some (_, r) \<Rightarrow>
           (Inr (), update_blockers (is_blocker slug blocker_id)
              [(''notify_metadata'',
                SJson (JObj (dset channel (JObj metadata) (json_obj (r ''notify_metadata'')))))] db))"

definition op_spawn_task ::
    "int \<Rightarrow> string \<Rightarrow> obj \<Rightarrow> string \<Rightarrow> string option \<Rightarrow> string option \<Rightarrow> string txn" where
  "op_spawn_task now slug task status token phase =
     plan_txn slug
       (andthen (check_token slug token phase)
       (\<lambda>_. andthen (query (\<lambda>db. ''task-'' @ show_nat (length (rows_of (t_tasks db) slug) + 1)))
       (\<lambda>task_id. andthen
         (write_tasks slug [dset ''status'' (JStr status) (dset ''id'' (JStr task_id) task)])
       (\<lambda>_. andthen
         (modify (insert_events slug
            [mk_event now EVENT_TASK_SPAWNED
              [(''task'', JStr task_id), (''source'', jget task ''source''),
               (''spawned_by_phase'', jget task ''spawned_by_phase'')]]))
       (\<lambda>_. ret task_id)))))"

definition is_task :: "string \<Rightarrow> string \<Rightarrow> string \<times> row \<Rightarrow> bool" where
  "is_task slug task = (\<lambda>(s, r). s = slug \<and> r ''task_id'' = SVal (JStr task))"

definition update_tasks :: "(string \<times> row \<Rightarrow> bool) \<Rightarrow> (string \<times> sqlv) list \<Rightarrow> pdb \<Rightarrow> pdb" where
  "update_tasks P cols db =
     db\<lparr>t_tasks := map (\<lambda>(s, r). if P (s, r) then (s, set_cols cols r) else (s, r)) (t_tasks db)\<rparr>"

definition op_complete_task ::
    "int \<Rightarrow> string \<Rightarrow> string \<Rightarrow> string option \<Rightarrow> string option \<Rightarrow> obj list \<Rightarrow> unit txn" where
  "op_complete_task now slug task token phase evs =
     plan_txn slug (andthen (check_token slug token phase) (\<lambda>_ db.
       case find (is_task slug task) (t_tasks db) of
         None \<Rightarrow> (Inl (KeyErr ''no task''), db)
       | Some (_, r) \<Rightarrow>
           if r ''status'' = SVal (JStr ''done'') then (Inr (), db)
           else (Inr (), insert_events slug evs
             (update_tasks (is_task slug task)
                [(''status'', SVal (JStr ''done'')),
                 (''payload'', SJson (JObj (dset ''completed_at'' (iso now) (json_obj (r ''payload'')))))] db))))"

section \<open>Operations on the plan head\<close>

definition op_set_status ::
    "string \<Rightarrow> string \<Rightarrow> obj list \<Rightarrow> string option \<Rightarrow> string option \<Rightarrow> unit txn" where
  "op_set_status slug status evs rel_token rel_phase =
     plan_txn slug
       (andthen (if rel_token \<noteq> None \<or> rel_phase \<noteq> None
                 then andthen (release_in_txn slug rel_token rel_phase) (\<lambda>_. ret ()) else ret ())
       (\<lambda>_. modify (\<lambda>db. insert_events slug evs
              (update_plan slug (set_cols [(''status'', SVal (JStr status))]) db))))"

text \<open>\<open>_set_head_fields\<close>: the columns of an UPDATE, or the key it refuses.\<close>

definition head_assignments :: "row \<Rightarrow> obj \<Rightarrow> string list \<Rightarrow> (string \<times> sqlv) list res" where
  "head_assignments r flds remove =
     (if list_ex (\<lambda>(k, v). k \<in> set PLAN_DERIVED) flds then Inl (ValueErr ''derived from another table'')
      else if list_ex (\<lambda>k. k \<in> set PLAN_DERIVED \<or> k \<in> set PLAN_SCALARS) remove
      then Inl (ValueErr ''has a column of its own and cannot be removed'')
      else
        let own = map (\<lambda>(k, v). (k, if k \<in> set PLAN_SCALARS then sql_scalar v else SJson v))
                    (filter (\<lambda>(k, v). k \<in> set (PLAN_SCALARS @ PLAN_JSON)) flds);
            cleared = map (\<lambda>k. (k, SNull)) (filter (\<lambda>k. k \<in> set PLAN_JSON) remove);
            writes = dwithout (PLAN_SCALARS @ PLAN_JSON) flds;
            drops = filter (\<lambda>k. k \<notin> set PLAN_JSON) remove;
            extra = dwithout drops (dupd (json_obj (r ''extra'')) writes)
        in Inr (own @ cleared @
             (if writes = [] \<and> drops = [] then [] else [(''extra'', json_or_null extra)])))"

definition set_head_fields :: "string \<Rightarrow> obj \<Rightarrow> string list \<Rightarrow> unit txn" where
  "set_head_fields slug flds remove = (\<lambda>db.
     case map_of (t_plans db) slug of
       None \<Rightarrow> (Inr (), db)
     | Some r \<Rightarrow>
         (case head_assignments r flds remove of
            Inl e \<Rightarrow> (Inl e, db)
          | Inr cols \<Rightarrow> (Inr (), update_plan slug (set_cols (rev cols)) db)))"

definition op_set_fields :: "string \<Rightarrow> obj \<Rightarrow> string list \<Rightarrow> obj list \<Rightarrow> unit txn" where
  "op_set_fields slug flds remove evs =
     plan_txn slug (andthen (set_head_fields slug flds remove) (\<lambda>_. modify (insert_events slug evs)))"

definition op_set_worktree :: "string \<Rightarrow> jval \<Rightarrow> obj list \<Rightarrow> unit txn" where
  "op_set_worktree slug worktree evs = op_set_fields slug [(''worktree'', worktree)] [] evs"

definition op_archive_events :: "int \<Rightarrow> string \<Rightarrow> nat txn" where
  "op_archive_events now slug =
     plan_txn slug (\<lambda>db.
       (Inr (length (plan_events db slug)),
        db\<lparr>t_archive := t_archive db @
             map (\<lambda>e. event_row.extend (event_row.truncate e) \<lparr>ar_archived_at = sql_scalar (iso now)\<rparr>) (plan_events db slug),
           t_events := filter (\<lambda>e. er_slug e \<noteq> slug) (t_events db)\<rparr>))"

definition create :: "doc \<Rightarrow> unit txn" where
  "create d = write_txn (create_in_txn d)"

end
