(* ===== verification/Store_Inv.thy ===== *)
theory Store_Inv
  imports Plan_Store
begin

text \<open>
  What every operation of the store keeps: the database invariant \<open>db_ok\<close> and the step
  contract \<open>step_ok\<close> (the other plans are untouched, the history of the plan only grows). The
  contract composes along a transaction, so each operation is proved from its statements.
\<close>

section \<open>Invariant and step contract\<close>

text \<open>One entry of a plan's history, hot or archived.\<close>

type_synonym entry = "int \<times> sqlv \<times> sqlv \<times> sqlv"

definition entry_of :: "'a event_row_scheme \<Rightarrow> entry" where
  "entry_of e = (er_id e, er_ts e, er_type e, er_payload e)"

definition history :: "pdb \<Rightarrow> string \<Rightarrow> entry list" where
  "history db slug =
     map entry_of (filter (\<lambda>e. er_slug e = slug) (t_archive db)) @ map entry_of (plan_events db slug)"

definition version_of :: "pdb \<Rightarrow> string \<Rightarrow> int option" where
  "version_of db slug =
     (case map_of (t_plans db) slug of
        Some r \<Rightarrow> (case r ''version'' of SVal (JInt n) \<Rightarrow> Some n | _ \<Rightarrow> None)
      | None \<Rightarrow> None)"

definition plan_row_ok :: "row \<Rightarrow> bool" where
  "plan_row_ok r \<longleftrightarrow> (\<exists>n. r ''version'' = SVal (JInt n))
     \<and> set (map fst (json_obj (r ''extra''))) \<inter> set PLAN_OWN_KEYS = {}"

definition claims_ok :: "pdb \<Rightarrow> bool" where
  "claims_ok db \<longleftrightarrow> distinct (map fst (t_claims db)) \<and> set (map fst (t_claims db)) \<subseteq> set (map fst (t_plans db))
     \<and> (\<forall>(s, r)\<in>set (t_claims db). claim_row_ok r)"

definition plans_ok :: "pdb \<Rightarrow> bool" where
  "plans_ok db \<longleftrightarrow> distinct (map fst (t_plans db)) \<and> (\<forall>(s, r)\<in>set (t_plans db). plan_row_ok r \<and> slug_re_match s)"

definition keys_ok :: "string \<Rightarrow> (string \<times> row) list \<Rightarrow> bool" where
  "keys_ok c t \<longleftrightarrow> (\<forall>(s, r)\<in>set t. \<exists>k. r c = SVal (JStr k)) \<and> distinct (map (\<lambda>(s, r). (s, r c)) t)"

text \<open>Ids grow along the hot table and along the whole history of each plan, and none was reused.\<close>

definition events_ok :: "pdb \<Rightarrow> bool" where
  "events_ok db \<longleftrightarrow>
     sorted_wrt (<) (map er_id (t_events db))
     \<and> (\<forall>e\<in>set (t_events db). 0 < er_id e \<and> er_id e \<le> t_seq db \<and> er_slug e \<in> set (map fst (t_plans db)))
     \<and> (\<forall>e\<in>set (t_archive db). 0 < er_id e \<and> er_id e \<le> t_seq db \<and> er_slug e \<in> set (map fst (t_plans db)))
     \<and> (\<forall>s. sorted_wrt (<) (map fst (history db s))) \<and> 0 \<le> t_seq db"

definition db_ok :: "pdb \<Rightarrow> bool" where
  "db_ok db \<longleftrightarrow> plans_ok db \<and> claims_ok db \<and> keys_ok ''blocker_id'' (t_blockers db)
     \<and> keys_ok ''task_id'' (t_tasks db) \<and> events_ok db"

definition same_plan :: "string \<Rightarrow> pdb \<Rightarrow> pdb \<Rightarrow> bool" where
  "same_plan s db db' \<longleftrightarrow> map_of (t_plans db') s = map_of (t_plans db) s
     \<and> map_of (t_claims db') s = map_of (t_claims db) s
     \<and> rows_of (t_blockers db') s = rows_of (t_blockers db) s
     \<and> rows_of (t_tasks db') s = rows_of (t_tasks db) s
     \<and> plan_events db' s = plan_events db s \<and> history db' s = history db s"

definition history_grows :: "pdb \<Rightarrow> pdb \<Rightarrow> string \<Rightarrow> bool" where
  "history_grows db db' s \<longleftrightarrow> (\<exists>new. history db' s = history db s @ new \<and> (\<forall>e\<in>set new. fst e > t_seq db))"

definition step_ok :: "string \<Rightarrow> pdb \<Rightarrow> pdb \<Rightarrow> bool" where
  "step_ok slug db db' \<longleftrightarrow> db_ok db' \<and> (\<forall>s. s \<noteq> slug \<longrightarrow> same_plan s db db')
     \<and> history_grows db db' slug \<and> t_seq db \<le> t_seq db' \<and> map fst (t_plans db') = map fst (t_plans db)
     \<and> t_queue db' = t_queue db \<and> t_history db' = t_history db \<and> t_quota db' = t_quota db"

abbreviation has_plan :: "pdb \<Rightarrow> string \<Rightarrow> bool" where
  "has_plan db slug \<equiv> map_of (t_plans db) slug \<noteq> None"

text \<open>A statement, or a transaction body, that keeps the contract whatever its outcome.\<close>

definition keeps :: "string \<Rightarrow> 'a txn \<Rightarrow> bool" where
  "keeps slug m \<longleftrightarrow> (\<forall>db. db_ok db \<and> has_plan db slug \<longrightarrow> step_ok slug db (snd (m db)))"

lemma history_grows_refl [simp]: "history_grows db db s"
  by (simp add: history_grows_def)

lemma same_plan_refl [simp]: "same_plan s db db"
  by (simp add: same_plan_def)

lemma step_ok_refl: "db_ok db \<Longrightarrow> step_ok slug db db"
  by (simp add: step_ok_def)

lemma history_grows_trans:
  "history_grows db db1 s \<Longrightarrow> history_grows db1 db2 s \<Longrightarrow> t_seq db \<le> t_seq db1 \<Longrightarrow> history_grows db db2 s"
  by (fastforce simp: history_grows_def)

lemma same_plan_trans: "same_plan s db db1 \<Longrightarrow> same_plan s db1 db2 \<Longrightarrow> same_plan s db db2"
  by (simp add: same_plan_def)

lemma step_ok_trans: "step_ok slug db db1 \<Longrightarrow> step_ok slug db1 db2 \<Longrightarrow> step_ok slug db db2"
  unfolding step_ok_def using history_grows_trans same_plan_trans by (metis order_trans)

lemma step_ok_db_ok: "step_ok slug db db' \<Longrightarrow> db_ok db'"
  by (simp add: step_ok_def)

lemma keepsI: "(\<And>db. db_ok db \<Longrightarrow> has_plan db slug \<Longrightarrow> step_ok slug db (snd (m db))) \<Longrightarrow> keeps slug m"
  by (simp add: keeps_def)

lemma keepsD: "keeps slug m \<Longrightarrow> db_ok db \<Longrightarrow> has_plan db slug \<Longrightarrow> step_ok slug db (snd (m db))"
  by (simp add: keeps_def)

lemma step_ok_has_plan: "step_ok slug db db' \<Longrightarrow> has_plan db' s \<longleftrightarrow> has_plan db s"
  by (simp add: step_ok_def map_of_eq_None_iff flip: set_map)

named_theorems keeps_intros \<open>statements that keep the step contract\<close>

lemma keeps_ret [keeps_intros]: "keeps slug (ret x)"
  by (simp add: keeps_def ret_def step_ok_refl)

lemma keeps_query [keeps_intros]: "keeps slug (query f)"
  by (simp add: keeps_def query_def step_ok_refl)

lemma keeps_fail [keeps_intros]: "keeps slug (fail e)"
  by (simp add: keeps_def fail_def step_ok_refl)

lemma keeps_andthen [keeps_intros]:
  assumes "keeps slug m" "\<And>x. keeps slug (f x)"
  shows "keeps slug (andthen m f)"
proof (rule keepsI)
  fix db assume ok: "db_ok db" and p: "has_plan db slug"
  obtain r db' where m: "m db = (r, db')" by (cases "m db")
  have s: "step_ok slug db db'" using keepsD[OF assms(1) ok p] m by simp
  show "step_ok slug db (snd (andthen m f db))"
  proof (cases r)
    case (Inl e)
    then show ?thesis using s m by (simp add: andthen_def)
  next
    case (Inr x)
    have "has_plan db' slug" using p step_ok_has_plan[OF s] by simp
    then show ?thesis
      using step_ok_trans[OF s keepsD[OF assms(2) step_ok_db_ok[OF s]]] m Inr by (simp add: andthen_def)
  qed
qed

lemma write_txn_snd: "snd (write_txn m db) = db \<or> snd (write_txn m db) = snd (m db)"
  by (auto simp: write_txn_def split: prod.splits sum.splits)

lemma keeps_if [keeps_intros]:
  "keeps slug m1 \<Longrightarrow> keeps slug m2 \<Longrightarrow> keeps slug (if b then m1 else m2)"
  by simp

section \<open>Statements\<close>

lemma map_of_map_entry:
  "map_of (AList.map_entry k f xs) k' = (if k' = k then map_option f (map_of xs k) else map_of xs k')"
  by (induction xs) auto

lemma set_map_entry: "x \<in> set (AList.map_entry k f xs) \<Longrightarrow> x \<in> set xs \<or> (\<exists>v. (k, v) \<in> set xs \<and> x = (k, f v))"
  by (induction xs) (auto split: if_splits)

lemma map_fst_map_entry [simp]: "map fst (AList.map_entry k f xs) = map fst xs"
  by (induction xs) auto

lemma rows_of_upd:
  "(\<And>s r. P (s, r) \<Longrightarrow> s = slug) \<Longrightarrow> s \<noteq> slug \<Longrightarrow>
     rows_of (map (\<lambda>(s, r). if P (s, r) then (s, f r) else (s, r)) t) s = rows_of t s"
  by (induction t) (auto simp: rows_of_def split: if_splits)

text \<open>Changes that touch only the claim row of one plan.\<close>

lemma claims_step:
  assumes ok: "db_ok db" and c: "claims_ok (db\<lparr>t_claims := cl\<rparr>)"
    and o: "\<And>s. s \<noteq> slug \<Longrightarrow> map_of cl s = map_of (t_claims db) s"
  shows "step_ok slug db (db\<lparr>t_claims := cl\<rparr>)"
proof -
  have h: "history (db\<lparr>t_claims := cl\<rparr>) s = history db s" "plan_events (db\<lparr>t_claims := cl\<rparr>) s = plan_events db s" for s
    by (simp_all add: history_def plan_events_def)
  then have "events_ok (db\<lparr>t_claims := cl\<rparr>)" using ok by (simp add: db_ok_def events_ok_def)
  then show ?thesis using ok c o h
    by (simp add: step_ok_def db_ok_def plans_ok_def same_plan_def history_grows_def)
qed

lemma update_claim_step:
  assumes "db_ok db" "\<And>r. claim_row_of db slug = Some r \<Longrightarrow> claim_row_ok (set_cols cols r)"
  shows "step_ok slug db (update_claim slug cols db)"
proof -
  have d: "distinct (map fst (t_claims db))" using assms(1) by (simp add: db_ok_def claims_ok_def)
  have "(s, r) \<in> set (AList.map_entry slug (set_cols cols) (t_claims db)) \<Longrightarrow> claim_row_ok r" for s r
    using assms d set_map_entry[of "(s, r)" slug "set_cols cols" "t_claims db"]
    by (auto simp: db_ok_def claims_ok_def claim_row_of_def)
  then have "claims_ok (db\<lparr>t_claims := AList.map_entry slug (set_cols cols) (t_claims db)\<rparr>)"
    using assms(1) by (auto simp: db_ok_def claims_ok_def)
  then show ?thesis
    unfolding update_claim_def by (rule claims_step[OF assms(1)]) (simp add: map_of_map_entry)
qed

lemma delete_claim_step:
  assumes "db_ok db"
  shows "step_ok slug db (delete_claim slug db)"
proof -
  have sub: "set (AList.delete slug (t_claims db)) \<subseteq> set (t_claims db)"
    by (auto simp: AList.delete_eq)
  then have "fst ` set (AList.delete slug (t_claims db)) \<subseteq> fst ` set (t_claims db)" by (rule image_mono)
  then have "claims_ok (db\<lparr>t_claims := AList.delete slug (t_claims db)\<rparr>)"
    using assms sub unfolding db_ok_def claims_ok_def by (simp add: distinct_delete) blast
  then show ?thesis
    unfolding delete_claim_def by (rule claims_step[OF assms]) simp
qed

text \<open>Changes that touch only the head row of one plan.\<close>

lemma update_plan_step:
  assumes ok: "db_ok db" and r: "\<And>r. map_of (t_plans db) slug = Some r \<Longrightarrow> plan_row_ok r \<Longrightarrow> plan_row_ok (f r)"
  shows "step_ok slug db (update_plan slug f db)"
proof -
  let ?p = "AList.map_entry slug f (t_plans db)"
  have d: "distinct (map fst (t_plans db))" using ok by (simp add: db_ok_def plans_ok_def)
  have h: "history (db\<lparr>t_plans := ?p\<rparr>) s = history db s" "plan_events (db\<lparr>t_plans := ?p\<rparr>) s = plan_events db s" for s
    by (simp_all add: history_def plan_events_def)
  have "plan_row_ok x \<and> slug_re_match s" if "(s, x) \<in> set ?p" for s x
    using that ok r d set_map_entry[of "(s, x)" slug f "t_plans db"]
    by (auto simp: db_ok_def plans_ok_def)
  then have "plans_ok (db\<lparr>t_plans := ?p\<rparr>)" using d by (auto simp: plans_ok_def)
  moreover have "events_ok (db\<lparr>t_plans := ?p\<rparr>)"
    using ok h by (simp add: db_ok_def events_ok_def flip: set_map)
  ultimately show ?thesis
    using ok h unfolding update_plan_def
    by (simp add: step_ok_def db_ok_def claims_ok_def same_plan_def history_grows_def map_of_map_entry flip: set_map)
qed

lemma bump_step: "keeps slug (bump slug)"
proof (rule keepsI)
  fix db assume ok: "db_ok db"
  have "step_ok slug db (update_plan slug bump_version db)"
    by (rule update_plan_step[OF ok]) (auto simp: plan_row_ok_def bump_version_def)
  then show "step_ok slug db (snd (bump slug db))"
    using step_ok_refl[OF ok] by (simp add: bump_def)
qed

lemma plan_txn_step:
  assumes "keeps slug m" "db_ok db"
  shows "step_ok slug db (snd (plan_txn slug m db))"
proof (cases "has_plan db slug \<and> slug_re_match slug")
  case True
  have k: "keeps slug (andthen (bump slug) (\<lambda>_. m))" by (intro keeps_andthen bump_step assms(1))
  have "snd (plan_txn slug m db) = snd (write_txn (andthen (bump slug) (\<lambda>_. m)) db)"
    using True by (simp add: plan_txn_def validate_slug_def guard_res_def)
  then show ?thesis
    using write_txn_snd[of "andthen (bump slug) (\<lambda>_. m)" db] keepsD[OF k assms(2)] True
      step_ok_refl[OF assms(2)] by (metis (no_types))
next
  case False
  then show ?thesis
    by (auto simp: plan_txn_def validate_slug_def guard_res_def write_txn_def andthen_def bump_def
        step_ok_refl[OF assms(2)])
qed

text \<open>The append.\<close>

lemma history_insert_event:
  "history (insert_event slug db ev) s = history db s @
     (if s = slug then [(t_seq db + 1, sql_scalar (jget ev ''ts''), sql_scalar (jget ev ''type''), event_payload ev)] else [])"
  by (simp add: history_def entry_of_def)

lemma history_ids_le:
  assumes "events_ok db" "e \<in> set (history db s)"
  shows "fst e \<le> t_seq db"
  using assms by (auto simp: events_ok_def history_def plan_events_def entry_of_def)

lemma sorted_wrt_snoc: "sorted_wrt P (xs @ [y]) \<longleftrightarrow> sorted_wrt P xs \<and> (\<forall>x\<in>set xs. P x y)"
  by (simp add: sorted_wrt_append)

lemma insert_event_step:
  assumes ok: "db_ok db" and p: "map_of (t_plans db) slug \<noteq> None"
  shows "step_ok slug db (insert_event slug db ev)"
proof -
  let ?db = "insert_event slug db ev"
  have ev: "events_ok db" using ok by (simp add: db_ok_def)
  have slug: "slug \<in> fst ` set (t_plans db)" using p by (auto simp: map_of_eq_None_iff)
  have sorted: "sorted_wrt (<) (map fst (history ?db s))" for s
  proof -
    have "sorted_wrt (<) (map fst (history db s))" using ev by (simp add: events_ok_def)
    moreover have "fst e < t_seq db + 1" if "e \<in> set (history db s)" for e
      using history_ids_le[OF ev that] by simp
    ultimately show ?thesis by (auto simp: history_insert_event sorted_wrt_snoc)
  qed
  have hot: "sorted_wrt (<) (map er_id (t_events db))"
    "\<forall>e\<in>set (t_events db). 0 < er_id e \<and> er_id e \<le> t_seq db \<and> er_slug e \<in> set (map fst (t_plans db))"
    using ev by (simp_all add: events_ok_def)
  have "sorted_wrt (<) (map er_id (t_events ?db))"
    using hot by (fastforce simp: insert_event_def sorted_wrt_snoc)
  moreover have "\<forall>e\<in>set (t_events ?db). 0 < er_id e \<and> er_id e \<le> t_seq ?db \<and> er_slug e \<in> set (map fst (t_plans ?db))"
    using hot slug ev by (auto simp: insert_event_def events_ok_def intro: order_trans)
  moreover have "\<forall>e\<in>set (t_archive ?db). 0 < er_id e \<and> er_id e \<le> t_seq ?db \<and> er_slug e \<in> set (map fst (t_plans ?db))"
    using ev by (fastforce simp: events_ok_def)
  moreover have "0 \<le> t_seq ?db" using ev by (simp add: events_ok_def)
  ultimately have "events_ok ?db" using sorted by (simp add: events_ok_def)
  then show ?thesis
    using ok by (auto simp: step_ok_def db_ok_def plans_ok_def claims_ok_def same_plan_def history_grows_def
        history_insert_event)
qed

lemma insert_events_step:
  "db_ok db \<Longrightarrow> map_of (t_plans db) slug \<noteq> None \<Longrightarrow> step_ok slug db (insert_events slug evs db)"
proof (induction evs arbitrary: db)
  case Nil
  then show ?case by (simp add: insert_events_def step_ok_refl)
next
  case (Cons ev evs)
  have 1: "step_ok slug db (insert_event slug db ev)" using insert_event_step Cons.prems by blast
  have "step_ok slug (insert_event slug db ev) (insert_events slug evs (insert_event slug db ev))"
    using Cons.IH[OF step_ok_db_ok[OF 1]] Cons.prems by simp
  then show ?case using step_ok_trans[OF 1] by (simp add: insert_events_def)
qed

lemma keeps_modify_events [keeps_intros]: "keeps slug (modify (insert_events slug evs))"
  by (rule keepsI) (simp add: modify_def insert_events_step)

text \<open>Sequencing with a fact on the value that is handed over.\<close>

lemma keeps_andthen_post:
  assumes "keeps slug m" "\<And>db x db'. db_ok db \<Longrightarrow> m db = (Inr x, db') \<Longrightarrow> Q x" "\<And>x. Q x \<Longrightarrow> keeps slug (f x)"
  shows "keeps slug (andthen m f)"
proof (rule keepsI)
  fix db assume ok: "db_ok db" and p: "has_plan db slug"
  obtain r db' where m: "m db = (r, db')" by (cases "m db")
  have s: "step_ok slug db db'" using keepsD[OF assms(1) ok p] m by simp
  show "step_ok slug db (snd (andthen m f db))"
  proof (cases r)
    case (Inl e)
    then show ?thesis using s m by (simp add: andthen_def)
  next
    case (Inr x)
    then have "keeps slug (f x)" using assms(2)[OF ok] assms(3) m by blast
    moreover have "has_plan db' slug" using p step_ok_has_plan[OF s] by simp
    ultimately show ?thesis
      using step_ok_trans[OF s keepsD[OF _ step_ok_db_ok[OF s]]] m Inr by (simp add: andthen_def)
  qed
qed

section \<open>Claim statements\<close>

lemma db_ok_claim_row: "db_ok db \<Longrightarrow> claim_row_of db slug = Some r \<Longrightarrow> claim_row_ok r"
  by (auto simp: db_ok_def claims_ok_def claim_row_of_def dest: map_of_SomeD)

lemma set_scalar_ok:
  assumes "claim_row_ok r" "c \<in> set CLAIM_SCALARS"
  shows "claim_row_ok (set_cols [(c, sql_scalar v)] r)"
proof -
  have "c \<noteq> ''flags''" "c \<notin> set CLAIM_JSON" using assms(2) flags_not_own claim_keys_disjoint(1) by auto
  moreover have "sql_scalar v \<noteq> SJson w" for w by (cases v) auto
  ultimately show ?thesis using assms(1) by (auto simp: claim_row_ok_def set_cols_def)
qed

lemma set_json_ok:
  assumes "claim_row_ok r" "c \<in> set CLAIM_JSON"
  shows "claim_row_ok (set_cols [(c, SJson v)] r)"
proof -
  have "c \<noteq> ''flags''" "c \<notin> set CLAIM_SCALARS" using assms(2) flags_not_own claim_keys_disjoint(1) by auto
  then show ?thesis using assms(1) by (auto simp: claim_row_ok_def set_cols_def)
qed

lemma set_assignments_ok:
  assumes "claim_row_ok r" "claim_row_ok r0" "distinct (map fst flds)"
  shows "claim_row_ok (set_cols (claim_assignments r flds) r0)"
proof -
  let ?r = "set_cols (claim_assignments r flds) r0"
  have ok1: "claim_row_ok (set_cols (claim_assignments r flds) r)"
    by (rule set_cols_claim_ok(1)[OF assms(1,3)])
  have "json_obj (?r ''flags'') = json_obj (set_cols (claim_assignments r flds) r ''flags'')
      \<or> json_obj (?r ''flags'') = json_obj (r0 ''flags'')"
    by (auto simp: set_cols_def split: option.splits)
  moreover have "?r c = set_cols (claim_assignments r flds) r c \<or> ?r c = r0 c" for c
    by (auto simp: set_cols_def split: option.splits)
  ultimately show ?thesis using ok1 assms(2) unfolding claim_row_ok_def by (metis (no_types, opaque_lifting))
qed

lemma keeps_require_token [keeps_intros]: "keeps slug (require_token slug token phase)"
  by (rule keepsI) (auto simp: require_token_def step_ok_refl split: option.splits)

lemma keeps_check_token [keeps_intros]: "keeps slug (check_token slug token phase)"
  unfolding check_token_def by (cases token) (auto intro: keeps_intros)

lemma require_token_ok:
  "db_ok db \<Longrightarrow> require_token slug token phase db = (Inr r, db') \<Longrightarrow> claim_row_ok r"
  by (auto simp: require_token_def db_ok_claim_row split: option.splits if_splits)

lemma keeps_cas:
  assumes "\<And>r. claim_row_ok r \<Longrightarrow> claim_row_ok (set_cols cols r)"
  shows "keeps slug (\<lambda>db. let (n, db') = cas_update slug token phase cols db
     in if n = 0 then (Inl (claim_mismatch db' slug tk ph), db') else (Inr x, db'))"
proof (rule keepsI)
  fix db assume ok: "db_ok db"
  then show "step_ok slug db (snd (let (n, db') = cas_update slug token phase cols db
     in if n = 0 then (Inl (claim_mismatch db' slug tk ph), db') else (Inr x, db')))"
    by (auto simp: cas_update_def step_ok_refl split: option.splits
        intro!: update_claim_step assms db_ok_claim_row)
qed

lemma keeps_release [keeps_intros]: "keeps slug (release_in_txn slug token phase)"
  by (rule keepsI) (simp add: release_in_txn_def Let_def step_ok_refl delete_claim_step)

text \<open>A claim update followed by events.\<close>

lemma claim_then_events:
  assumes "db_ok db" "has_plan db slug" "\<And>r. claim_row_of db slug = Some r \<Longrightarrow> claim_row_ok (set_cols cols r)"
  shows "step_ok slug db (insert_events slug evs (update_claim slug cols db))"
proof -
  have 1: "step_ok slug db (update_claim slug cols db)" by (rule update_claim_step[OF assms(1,3)])
  show ?thesis
    by (rule step_ok_trans[OF 1 insert_events_step[OF step_ok_db_ok[OF 1]]])
      (use assms(2) in \<open>simp add: update_claim_def\<close>)
qed

section \<open>Blocker, task and archive statements\<close>

lemma history_other_tables:
  "history (db\<lparr>t_blockers := b\<rparr>) s = history db s" "plan_events (db\<lparr>t_blockers := b\<rparr>) s = plan_events db s"
  "history (db\<lparr>t_tasks := b\<rparr>) s = history db s" "plan_events (db\<lparr>t_tasks := b\<rparr>) s = plan_events db s"
  by (simp_all add: history_def plan_events_def)

lemma blockers_step:
  assumes "db_ok db" "keys_ok ''blocker_id'' t" "\<And>s. s \<noteq> slug \<Longrightarrow> rows_of t s = rows_of (t_blockers db) s"
  shows "step_ok slug db (db\<lparr>t_blockers := t\<rparr>)"
  using assms
  by (simp add: step_ok_def db_ok_def plans_ok_def claims_ok_def events_ok_def same_plan_def history_grows_def
      history_other_tables)

lemma tasks_step:
  assumes "db_ok db" "keys_ok ''task_id'' t" "\<And>s. s \<noteq> slug \<Longrightarrow> rows_of t s = rows_of (t_tasks db) s"
  shows "step_ok slug db (db\<lparr>t_tasks := t\<rparr>)"
  using assms
  by (simp add: step_ok_def db_ok_def plans_ok_def claims_ok_def events_ok_def same_plan_def history_grows_def
      history_other_tables)

lemma keys_ok_snoc:
  "keys_ok c t \<Longrightarrow> r c = SVal (JStr k) \<Longrightarrow> \<not> key_taken t slug c (r c) \<Longrightarrow> keys_ok c (t @ [(slug, r)])"
  by (auto simp: keys_ok_def key_taken_def list_ex_iff)

lemma keys_ok_upd:
  assumes "keys_ok c t" "\<And>r. f r c = r c"
  shows "keys_ok c (map (\<lambda>(s, r). if P (s, r) then (s, f r) else (s, r)) t)"
proof -
  have "map (\<lambda>(s, r). (s, r c)) (map (\<lambda>(s, r). if P (s, r) then (s, f r) else (s, r)) t) = map (\<lambda>(s, r). (s, r c)) t"
    using assms(2) by (induction t) auto
  moreover have "\<forall>(s, r)\<in>set (map (\<lambda>(s, r). if P (s, r) then (s, f r) else (s, r)) t). \<exists>k. r c = SVal (JStr k)"
    using assms by (auto simp: keys_ok_def split: if_splits)
  ultimately show ?thesis using assms(1) by (simp only: keys_ok_def)
qed

lemma keeps_write_blockers:
  "(\<forall>b\<in>set bs. \<exists>k. jget b ''id'' = JStr k) \<Longrightarrow> keeps slug (write_blockers slug bs)"
proof (induction bs)
  case Nil
  then show ?case by (auto intro!: keepsI simp: step_ok_refl)
next
  case (Cons b bs)
  show ?case
  proof (rule keepsI)
    fix db assume ok: "db_ok db" and p: "has_plan db slug"
    let ?db = "db\<lparr>t_blockers := t_blockers db @ [(slug, blocker_row b)]\<rparr>"
    obtain k where n: "blocker_row b ''blocker_id'' = SVal (JStr k)"
      using Cons.prems by (auto simp: blocker_row_def Let_def BLOCKER_ALWAYS_def blocker_key_def blocker_value_def BLOCKER_JSON_def)
    have "step_ok slug db (snd (write_blockers slug bs ?db))"
      if "\<not> key_taken (t_blockers db) slug ''blocker_id'' (blocker_row b ''blocker_id'')"
    proof -
      have 1: "step_ok slug db ?db"
        by (rule blockers_step[OF ok]) (use ok n that keys_ok_snoc[of "''blocker_id''" "t_blockers db" "blocker_row b" k slug] in
            \<open>auto simp: db_ok_def rows_of_def\<close>)
      have "step_ok slug ?db (snd (write_blockers slug bs ?db))"
        by (rule keepsD[OF Cons.IH step_ok_db_ok[OF 1]]) (use Cons.prems p in auto)
      then show ?thesis by (rule step_ok_trans[OF 1])
    qed
    then show "step_ok slug db (snd (write_blockers slug (b # bs) db))"
      using step_ok_refl[OF ok] by simp
  qed
qed

lemma keeps_write_tasks:
  "(\<forall>t\<in>set ts. \<exists>k. jget t ''id'' = JStr k) \<Longrightarrow> keeps slug (write_tasks slug ts)"
proof (induction ts)
  case Nil
  then show ?case by (auto intro!: keepsI simp: step_ok_refl)
next
  case (Cons t ts)
  show ?case
  proof (rule keepsI)
    fix db assume ok: "db_ok db" and p: "has_plan db slug"
    let ?db = "db\<lparr>t_tasks := t_tasks db @ [(slug, task_row t)]\<rparr>"
    obtain k where n: "task_row t ''task_id'' = SVal (JStr k)"
      using Cons.prems by (auto simp: task_row_def)
    have "step_ok slug db (snd (write_tasks slug ts ?db))"
      if "\<not> key_taken (t_tasks db) slug ''task_id'' (task_row t ''task_id'')"
    proof -
      have 1: "step_ok slug db ?db"
        by (rule tasks_step[OF ok]) (use ok n that keys_ok_snoc[of "''task_id''" "t_tasks db" "task_row t" k slug] in
            \<open>auto simp: db_ok_def rows_of_def\<close>)
      have "step_ok slug ?db (snd (write_tasks slug ts ?db))"
        by (rule keepsD[OF Cons.IH step_ok_db_ok[OF 1]]) (use Cons.prems p in auto)
      then show ?thesis by (rule step_ok_trans[OF 1])
    qed
    then show "step_ok slug db (snd (write_tasks slug (t # ts) db))"
      using step_ok_refl[OF ok] by simp
  qed
qed

lemma update_blockers_step:
  assumes "db_ok db" "\<And>s r. P (s, r) \<Longrightarrow> s = slug" "\<And>r. set_cols cols r ''blocker_id'' = r ''blocker_id''"
  shows "step_ok slug db (update_blockers P cols db)"
  unfolding update_blockers_def
proof (rule blockers_step[OF assms(1)])
  show "keys_ok ''blocker_id'' (map (\<lambda>(s, r). if P (s, r) then (s, set_cols cols r) else (s, r)) (t_blockers db))"
    by (rule keys_ok_upd) (use assms(1,3) in \<open>auto simp: db_ok_def\<close>)
  show "s \<noteq> slug \<Longrightarrow> rows_of (map (\<lambda>(s, r). if P (s, r) then (s, set_cols cols r) else (s, r)) (t_blockers db)) s
      = rows_of (t_blockers db) s" for s
    by (rule rows_of_upd[of P slug]) (use assms(2) in auto)
qed

lemma update_tasks_step:
  assumes "db_ok db" "\<And>s r. P (s, r) \<Longrightarrow> s = slug" "\<And>r. set_cols cols r ''task_id'' = r ''task_id''"
  shows "step_ok slug db (update_tasks P cols db)"
  unfolding update_tasks_def
proof (rule tasks_step[OF assms(1)])
  show "keys_ok ''task_id'' (map (\<lambda>(s, r). if P (s, r) then (s, set_cols cols r) else (s, r)) (t_tasks db))"
    by (rule keys_ok_upd) (use assms(1,3) in \<open>auto simp: db_ok_def\<close>)
  show "s \<noteq> slug \<Longrightarrow> rows_of (map (\<lambda>(s, r). if P (s, r) then (s, set_cols cols r) else (s, r)) (t_tasks db)) s
      = rows_of (t_tasks db) s" for s
    by (rule rows_of_upd[of P slug]) (use assms(2) in auto)
qed

section \<open>The operations keep the contract\<close>

lemma set_cols_other [simp]: "map_of cols c = None \<Longrightarrow> set_cols cols r c = r c"
  by (simp add: set_cols_def)

lemma CLAIM_columns:
  "''last_heartbeat_at'' \<in> set CLAIM_SCALARS" "''active_tool_started_at'' \<in> set CLAIM_SCALARS"
  "''lease_expires'' \<in> set CLAIM_SCALARS" "''attestations'' \<in> set CLAIM_JSON"
  by (simp_all add: CLAIM_SCALARS_def CLAIM_JSON_def)

lemma op_heartbeat_step: "db_ok db \<Longrightarrow> step_ok slug db (snd (op_heartbeat now slug token phase db))"
  unfolding op_heartbeat_def
  by (intro plan_txn_step keeps_cas set_scalar_ok CLAIM_columns)

lemma snd_drop_busy:
  "snd (case p of (Inl DbBusy, db') \<Rightarrow> (Inr False, db') | r \<Rightarrow> r) = snd p"
  by (cases p, cases "fst p", cases "projl (fst p)") auto

lemma op_activity_step:
  assumes "db_ok db"
  shows "step_ok slug db (snd (op_activity busy now slug token phase action db))"
proof -
  let ?flds = "[(''active_tool_started_at'', iso now), (''cpu_samples'', JList []),
                 (''worker_idle_notified'', JBool False), (''worker_idle_notified_at'', JNull)]"
  let ?cols = "if action = ''end'' then ret [(''active_tool_started_at'', SNull)]
      else andthen (require_token slug token (Some phase)) (\<lambda>r. ret (claim_assignments r ?flds))"
  let ?upd = "\<lambda>cols db. let (n, db') = cas_update slug token phase cols db
      in if n = 0 then (Inl (claim_mismatch db' slug (JStr token) (Some phase)), db') else (Inr True, db')"
  have "keeps slug (andthen ?cols ?upd)"
  proof (rule keeps_andthen_post[where Q = "\<lambda>cols. \<forall>r. claim_row_ok r \<longrightarrow> claim_row_ok (set_cols cols r)"])
    show "keeps slug ?cols" by (intro keeps_intros)
    show "keeps slug (?upd cols)" if "\<forall>r. claim_row_ok r \<longrightarrow> claim_row_ok (set_cols cols r)" for cols
      by (rule keeps_cas) (use that in blast)
    show "\<forall>r. claim_row_ok r \<longrightarrow> claim_row_ok (set_cols cols r)"
      if ok: "db_ok db" and m: "?cols db = (Inr cols, db')" for db cols db'
    proof (cases "action = ''end''")
      case True
      then have "cols = [(''active_tool_started_at'', sql_scalar JNull)]" using m by (simp add: ret_def)
      then show ?thesis using set_scalar_ok CLAIM_columns(2) by blast
    next
      case False
      then obtain r db1 where "require_token slug token (Some phase) db = (Inr r, db1)"
        "cols = claim_assignments r ?flds"
        using m by (auto simp: andthen_def ret_def split: prod.splits sum.splits)
      moreover from this(1) have "claim_row_ok r" by (rule require_token_ok[OF ok])
      ultimately have "claim_row_ok r \<and> cols = claim_assignments r ?flds" by simp
      then show ?thesis using set_assignments_ok[of r _ ?flds] by simp
    qed
  qed
  from plan_txn_step[OF this assms] show ?thesis
    using step_ok_refl[OF assms]
    by (cases "action = ''end''") (simp_all add: op_activity_def snd_drop_busy locked_def fail_def)
qed

lemma op_stamp_claim_fields_step:
  assumes "db_ok db" "distinct (map fst flds)"
  shows "step_ok slug db (snd (op_stamp_claim_fields slug token flds phase if_unset evs db))"
proof -
  have "keeps slug (modify (\<lambda>db. insert_events slug evs (update_claim slug (claim_assignments r flds) db)))"
    if "claim_row_ok r" for r
    by (rule keepsI, simp only: modify_def snd_conv, rule claim_then_events, assumption, assumption,
        rule set_assignments_ok[OF that db_ok_claim_row assms(2)])
  then show ?thesis
    unfolding op_stamp_claim_fields_def
    by (intro plan_txn_step[OF _ assms(1)]
        keeps_andthen_post[where Q = claim_row_ok, OF keeps_require_token require_token_ok]
        keeps_if keeps_ret keeps_andthen)
qed

lemma op_append_events_step: "db_ok db \<Longrightarrow> step_ok slug db (snd (op_append_events slug evs token phase db))"
  unfolding op_append_events_def by (intro plan_txn_step keeps_intros)

lemma op_release_claim_step: "db_ok db \<Longrightarrow> step_ok slug db (snd (op_release_claim slug token phase evs db))"
  unfolding op_release_claim_def by (intro plan_txn_step keeps_intros)

lemma op_stamp_attestation_step:
  "db_ok db \<Longrightarrow> step_ok slug db (snd (op_stamp_attestation now slug token phase kind sha evs db))"
  unfolding op_stamp_attestation_def
  by (intro plan_txn_step keeps_andthen keeps_check_token)
    (auto intro!: keepsI claim_then_events set_json_ok CLAIM_columns dest: db_ok_claim_row
      simp: step_ok_refl split: option.splits)

lemma op_refuse_attestation_step:
  "db_ok db \<Longrightarrow> step_ok slug db (snd (op_refuse_attestation now slug phase gate sha db))"
  unfolding op_refuse_attestation_def
  by (intro plan_txn_step) (auto intro!: keepsI insert_events_step simp: step_ok_refl Let_def)

lemma op_extend_lease_step:
  "db_ok db \<Longrightarrow> step_ok slug db (snd (op_extend_lease now slug phase mins db))"
  unfolding op_extend_lease_def
  by (intro plan_txn_step)
    (auto intro!: keepsI claim_then_events set_scalar_ok CLAIM_columns dest: db_ok_claim_row
      simp: step_ok_refl Let_def split: option.splits)

lemma op_add_blocker_step:
  "db_ok db \<Longrightarrow> step_ok slug db (snd (op_add_blocker now slug p q opts ctx ty rt rp db))"
  unfolding op_add_blocker_def
  by (intro plan_txn_step keeps_intros keeps_write_blockers) (simp_all add: jget_def)

lemma op_answer_blocker_step:
  "db_ok db \<Longrightarrow> step_ok slug db (snd (op_answer_blocker now slug b a db))"
  unfolding op_answer_blocker_def
proof (intro plan_txn_step keepsI)
  fix db assume ok: "db_ok db" and p: "has_plan db slug"
  let ?P = "\<lambda>(s, r). is_blocker slug b (s, r) \<and> r ''answer'' = SNull"
  have 1: "step_ok slug db (update_blockers ?P cols db)"
    if "map fst cols = [''answer'', ''answered_at'']" for cols
    by (rule update_blockers_step[OF ok]) (use that in \<open>auto simp: is_blocker_def set_cols_def map_of_eq_None_iff split: option.splits dest: map_of_SomeD\<close>)
  have "step_ok slug db (insert_events slug evs (update_blockers ?P [(''answer'', x), (''answered_at'', y)] db))" for evs x y
    by (rule step_ok_trans[OF 1 insert_events_step[OF step_ok_db_ok[OF 1]]])
      (use p in \<open>simp_all add: update_blockers_def\<close>)
  then show "step_ok slug db (snd (let open_row = ?P in case find open_row (t_blockers db) of
        None \<Rightarrow> (Inl (KeyErr ''no unanswered blocker''), db)
      | Some (_, r) \<Rightarrow>
          let resolved = resolve_answer (r ''options'') a
          in (Inr resolved, insert_events slug
                [mk_event now EVENT_BLOCKER_ANSWERED [(''blocker_id'', JStr b), (''answer'', resolved)]]
                (update_blockers open_row
                  [(''answer'', sql_scalar resolved), (''answered_at'', sql_scalar (iso now))] db))))"
    by (simp add: Let_def step_ok_refl[OF ok] split: option.splits prod.splits)
qed

lemma op_stamp_blocker_metadata_step:
  "db_ok db \<Longrightarrow> step_ok slug db (snd (op_stamp_blocker_metadata slug b ch md db))"
  unfolding op_stamp_blocker_metadata_def
  by (intro plan_txn_step keepsI)
    (auto intro!: update_blockers_step simp: step_ok_refl is_blocker_def split: option.splits)

lemma op_spawn_task_step:
  "db_ok db \<Longrightarrow> step_ok slug db (snd (op_spawn_task now slug task status token phase db))"
  unfolding op_spawn_task_def
  by (intro plan_txn_step keeps_intros keeps_write_tasks) (simp_all add: jget_dset)

lemma op_complete_task_step:
  "db_ok db \<Longrightarrow> step_ok slug db (snd (op_complete_task now slug task token phase evs db))"
  unfolding op_complete_task_def
proof (intro plan_txn_step keeps_andthen keeps_check_token keepsI)
  fix db assume ok: "db_ok db" and p: "has_plan db slug"
  have 1: "step_ok slug db (update_tasks (is_task slug task) [(''status'', x), (''payload'', y)] db)" for x y
    by (rule update_tasks_step[OF ok]) (auto simp: is_task_def)
  have "step_ok slug db (insert_events slug evs (update_tasks (is_task slug task) [(''status'', x), (''payload'', y)] db))" for x y
    by (rule step_ok_trans[OF 1 insert_events_step[OF step_ok_db_ok[OF 1]]])
      (use p in \<open>simp_all add: update_tasks_def\<close>)
  then show "step_ok slug db (snd (case find (is_task slug task) (t_tasks db) of
         None \<Rightarrow> (Inl (KeyErr ''no task''), db)
       | Some (_, r) \<Rightarrow>
           if r ''status'' = SVal (JStr ''done'') then (Inr (), db)
           else (Inr (), insert_events slug evs
             (update_tasks (is_task slug task)
                [(''status'', SVal (JStr ''done'')),
                 (''payload'', SJson (JObj (dset ''completed_at'' (iso now) (json_obj (r ''payload'')))))] db))))"
    by (simp add: step_ok_refl[OF ok] split: option.splits prod.splits)
qed

text \<open>A head update followed by events.\<close>

lemma plan_then_events:
  assumes "db_ok db" "has_plan db slug"
    "\<And>r. map_of (t_plans db) slug = Some r \<Longrightarrow> plan_row_ok r \<Longrightarrow> plan_row_ok (set_cols cols r)"
  shows "step_ok slug db (insert_events slug evs (update_plan slug (set_cols cols) db))"
proof -
  have 1: "step_ok slug db (update_plan slug (set_cols cols) db)" by (rule update_plan_step[OF assms(1,3)])
  show ?thesis
    by (rule step_ok_trans[OF 1 insert_events_step[OF step_ok_db_ok[OF 1]]])
      (use assms(2) in \<open>simp add: update_plan_def map_of_map_entry\<close>)
qed

lemma op_set_status_step:
  "db_ok db \<Longrightarrow> step_ok slug db (snd (op_set_status slug status evs rt rp db))"
  unfolding op_set_status_def
  by (intro plan_txn_step keeps_intros)
    (auto intro!: keepsI plan_then_events simp: modify_def plan_row_ok_def)

lemma head_assignments_ok:
  assumes "plan_row_ok r" "head_assignments r flds remove = Inr cols"
  shows "plan_row_ok (set_cols (rev cols) r)"
proof -
  let ?writes = "dwithout (PLAN_SCALARS @ PLAN_JSON) flds"
  let ?drops = "filter (\<lambda>k. k \<notin> set PLAN_JSON) remove"
  let ?extra = "dwithout ?drops (dupd (json_obj (r ''extra'')) ?writes)"
  have der: "\<forall>k\<in>set (map fst flds). k \<notin> set PLAN_DERIVED"
    using assms(2) by (auto simp: head_assignments_def list_ex_iff split: if_splits)
  have ex: "set (map fst ?extra) \<inter> set PLAN_OWN_KEYS = {}"
    using assms(1) der unfolding dwithout_keys dupd_keys plan_row_ok_def PLAN_OWN_KEYS_def by auto
  have cols: "set cols \<subseteq> {(k, v). k \<in> set (PLAN_SCALARS @ PLAN_JSON) \<or> (k, v) = (''extra'', json_or_null ?extra)}"
    using assms(2) by (auto simp: head_assignments_def Let_def split: if_splits)
  have "map_of (rev cols) ''version'' = None"
    using cols by (auto simp: map_of_eq_None_iff PLAN_SCALARS_def PLAN_JSON_def)
  moreover have "set_cols (rev cols) r ''extra'' = json_or_null ?extra \<or> set_cols (rev cols) r ''extra'' = r ''extra''"
  proof (cases "map_of (rev cols) ''extra''")
    case (Some v)
    then have "(''extra'', v) \<in> set cols" using map_of_SomeD by fastforce
    then show ?thesis using cols Some by (auto simp: set_cols_def PLAN_SCALARS_def PLAN_JSON_def)
  qed (simp add: set_cols_def)
  moreover from this have "json_obj (set_cols (rev cols) r ''extra'') = ?extra
      \<or> json_obj (set_cols (rev cols) r ''extra'') = json_obj (r ''extra'')" by auto
  then have "set (map fst (json_obj (set_cols (rev cols) r ''extra''))) \<inter> set PLAN_OWN_KEYS = {}"
    using ex assms(1) unfolding plan_row_ok_def by (elim disjE) (simp_all only:)
  ultimately show ?thesis
    using assms(1) unfolding plan_row_ok_def by (simp only: set_cols_other)
qed

lemma keeps_set_head_fields [keeps_intros]: "keeps slug (set_head_fields slug flds remove)"
  by (rule keepsI)
    (auto simp: set_head_fields_def step_ok_refl split: option.splits sum.splits
      intro!: update_plan_step dest: head_assignments_ok)

lemma op_set_fields_step: "db_ok db \<Longrightarrow> step_ok slug db (snd (op_set_fields slug flds remove evs db))"
  unfolding op_set_fields_def by (intro plan_txn_step keeps_intros)

lemma op_set_worktree_step: "db_ok db \<Longrightarrow> step_ok slug db (snd (op_set_worktree slug wt evs db))"
  unfolding op_set_worktree_def by (rule op_set_fields_step)

lemma entry_of_archived [simp]: "entry_of (event_row.extend (event_row.truncate e) m) = entry_of e"
  "er_slug (event_row.extend (event_row.truncate e) m) = er_slug e"
  "er_id (event_row.extend (event_row.truncate e) m) = er_id e"
  by (simp_all add: entry_of_def event_row.defs)

text \<open>Archiving moves the hot events to the end of the archive: the history stays as it is.\<close>

lemma history_archive:
  "history (db\<lparr>t_archive := t_archive db @ map (\<lambda>e. event_row.extend (event_row.truncate e) m) (plan_events db slug),
     t_events := filter (\<lambda>e. er_slug e \<noteq> slug) (t_events db)\<rparr>) s = history db s"
proof (cases "s = slug")
  case True
  then show ?thesis
    by (auto simp: history_def plan_events_def filter_map comp_def)
next
  case False
  then show ?thesis
    by (auto simp: history_def plan_events_def filter_map comp_def intro: arg_cong[where f = "map entry_of"] filter_cong)
qed

lemma op_archive_events_step:
  assumes "db_ok db"
  shows "step_ok slug db (snd (op_archive_events now slug db))"
  unfolding op_archive_events_def
proof (rule plan_txn_step[OF keepsI assms])
  fix db assume ok: "db_ok db"
  let ?db = "db\<lparr>t_archive := t_archive db @
             map (\<lambda>e. event_row.extend (event_row.truncate e) \<lparr>ar_archived_at = sql_scalar (iso now)\<rparr>) (plan_events db slug),
           t_events := filter (\<lambda>e. er_slug e \<noteq> slug) (t_events db)\<rparr>"
  have pe: "plan_events ?db s = plan_events db s" if "s \<noteq> slug" for s
    using that by (auto simp: plan_events_def intro: filter_cong)
  have h: "history ?db s = history db s" for s by (rule history_archive)
  have "sorted_wrt (<) (map er_id (t_events ?db))"
    using ok by (simp add: db_ok_def events_ok_def sorted_wrt_map sorted_wrt_filter)
  then have "events_ok ?db"
    using ok unfolding db_ok_def events_ok_def history_archive by (auto simp: plan_events_def)
  then show "step_ok slug db (snd (Inr (length (plan_events db slug)), ?db))"
    using ok pe h by (simp add: step_ok_def same_plan_def history_grows_def db_ok_def plans_ok_def claims_ok_def)
qed

end
