(* ===== verification/Tick_Apply.thy ===== *)
theory Tick_Apply
  imports Store_Inv
begin

text \<open>
  The end-of-tick transaction of \<open>plan_store.py\<close>: the precondition vocabulary, the observed
  snapshot, and \<open>apply_tick_delta\<close>, which re-asserts the preconditions and writes the whole
  decision of one tick, or nothing.
\<close>

section \<open>Preconditions\<close>

text \<open>
  \<open>TickPreconditions\<close>. \<open>pre_claim = None\<close> is \<open>UNCHECKED\<close>, \<open>Some None\<close> asserts that there is no
  claim; a null \<open>pre_status\<close> is unchecked.
\<close>

record tick_pre =
  pre_claim :: "(jval \<times> jval) option option"
  pre_max_event_id :: "int option"
  pre_claim_fields :: obj
  pre_blockers :: "(string \<times> bool \<times> bool) list"
  pre_status :: jval

definition no_pre :: tick_pre where
  "no_pre = \<lparr>pre_claim = None, pre_max_event_id = None, pre_claim_fields = [], pre_blockers = [],
     pre_status = JNull\<rparr>"

definition claim_identity :: "obj option \<Rightarrow> (jval \<times> jval) option" where
  "claim_identity c = map_option (\<lambda>cl. (jget cl ''claimed_by'', jget cl ''phase_id'')) c"

definition snapshot_with_preconditions :: "pdb \<Rightarrow> string \<Rightarrow> (doc \<times> tick_pre) res" where
  "snapshot_with_preconditions db slug =
     bind_res (snapshot db slug) (\<lambda>d. Inr (d,
       \<lparr>pre_claim = Some (claim_identity (d_claim d)),
        pre_max_event_id = Some (max_event_id db slug),
        pre_claim_fields = (case d_claim d of None \<Rightarrow> [] | Some c \<Rightarrow> c),
        pre_blockers = map (\<lambda>b. (sget b ''id'', jget b ''answer'' = JNull, dtrue b ''consumed'')) (d_blockers d),
        pre_status = d_status d\<rparr>))"

definition conflict :: "conflict \<Rightarrow> unit res" where
  "conflict c = Inl (TickConflict c)"

definition check_claim :: "pdb \<Rightarrow> string \<Rightarrow> (jval \<times> jval) option option \<Rightarrow> unit res" where
  "check_claim db slug want =
     (case want of
        None \<Rightarrow> Inr ()
      | Some w \<Rightarrow> if claim_identity (read_claim db slug) = w then Inr () else conflict ClaimMoved)"

definition check_claim_fields :: "pdb \<Rightarrow> string \<Rightarrow> obj \<Rightarrow> unit res" where
  "check_claim_fields db slug flds =
     (if flds = [] then Inr ()
      else case read_claim db slug of
        None \<Rightarrow> conflict ClaimGone
      | Some c \<Rightarrow>
          (case find (\<lambda>(k, v). jget c k \<noteq> v) flds of
             None \<Rightarrow> Inr ()
           | Some (k, _) \<Rightarrow> conflict (ClaimFieldMoved k)))"

definition check_events :: "pdb \<Rightarrow> string \<Rightarrow> int option \<Rightarrow> unit res" where
  "check_events db slug m =
     (case m of None \<Rightarrow> Inr ()
      | Some i \<Rightarrow> if max_event_id db slug = i then Inr () else conflict EventsMoved)"

definition blocker_state :: "pdb \<Rightarrow> string \<Rightarrow> string \<Rightarrow> (bool \<times> bool) option" where
  "blocker_state db slug b =
     map_option (\<lambda>(s, r). (scalar_of (r ''answer'') = JNull, truthy (scalar_of (r ''consumed''))))
       (find (is_blocker slug b) (t_blockers db))"

definition check_blockers :: "pdb \<Rightarrow> string \<Rightarrow> (string \<times> bool \<times> bool) list \<Rightarrow> unit res" where
  "check_blockers db slug bs =
     (case find (\<lambda>(b, st). blocker_state db slug b \<noteq> Some st) bs of
        None \<Rightarrow> Inr ()
      | Some (b, _) \<Rightarrow> conflict (BlockerMoved b))"

definition check_status :: "pdb \<Rightarrow> string \<Rightarrow> jval \<Rightarrow> unit res" where
  "check_status db slug st =
     (if st = JNull then Inr ()
      else case map_of (t_plans db) slug of
        None \<Rightarrow> conflict StatusMoved
      | Some r \<Rightarrow> if scalar_of (r ''status'') = st then Inr () else conflict StatusMoved)"

text \<open>\<open>_assert_preconditions\<close>, in the order of the code.\<close>

definition assert_preconditions :: "pdb \<Rightarrow> string \<Rightarrow> tick_pre \<Rightarrow> unit res" where
  "assert_preconditions db slug p =
     bind_res (check_claim db slug (pre_claim p)) (\<lambda>_.
     bind_res (check_claim_fields db slug (pre_claim_fields p)) (\<lambda>_.
     bind_res (check_events db slug (pre_max_event_id p)) (\<lambda>_.
     bind_res (check_blockers db slug (pre_blockers p)) (\<lambda>_.
     check_status db slug (pre_status p)))))"

section \<open>The delta and its apply\<close>

record inbox_event =
  ie_type :: string
  ie_plan :: string
  ie_details :: obj

record tick_delta =
  dl_events :: "obj list"
  dl_claim_updates :: obj
  dl_claim_token :: jval
  dl_blocker_updates :: "(string \<times> obj) list"
  dl_release :: bool
  dl_status :: "string option"
  dl_claim_phase :: "string option"
  dl_lease_minutes :: "int option"
  dl_claim_attempts :: "int option"
  dl_inbox :: "inbox_event list"
  dl_observed :: tick_pre
  dl_pre :: tick_pre

definition empty_delta :: "tick_pre \<Rightarrow> tick_delta" where
  "empty_delta observed =
     \<lparr>dl_events = [], dl_claim_updates = [], dl_claim_token = JNull, dl_blocker_updates = [],
      dl_release = False, dl_status = None, dl_claim_phase = None, dl_lease_minutes = None,
      dl_claim_attempts = None, dl_inbox = [], dl_observed = observed, dl_pre = no_pre\<rparr>"

definition delta_is_empty :: "tick_delta \<Rightarrow> bool" where
  "delta_is_empty dl \<longleftrightarrow> dl_events dl = [] \<and> dl_claim_updates dl = [] \<and> dl_blocker_updates dl = []
     \<and> \<not> dl_release dl \<and> dl_status dl = None \<and> dl_claim_phase dl = None"

definition apply_claim_updates :: "string \<Rightarrow> jval \<Rightarrow> obj \<Rightarrow> unit txn" where
  "apply_claim_updates slug token flds = (\<lambda>db.
     case claim_row_of db slug of
       None \<Rightarrow> (Inl (TickConflict ClaimHeldByOther), db)
     | Some r \<Rightarrow>
         if scalar_of (r ''claimed_by'') \<noteq> token then (Inl (TickConflict ClaimHeldByOther), db)
         else (Inr (), update_claim slug (claim_assignments r flds) db))"

definition apply_blocker_updates :: "string \<Rightarrow> string \<Rightarrow> obj \<Rightarrow> unit txn" where
  "apply_blocker_updates slug b flds = (\<lambda>db.
     if list_ex (\<lambda>(k, v). k \<notin> set BLOCKER_KNOWN) flds then (Inl (ValueErr ''blocker field has no column''), db)
     else if find (is_blocker slug b) (t_blockers db) = None then (Inl (TickConflict (BlockerVanished b)), db)
     else (Inr (), update_blockers (is_blocker slug b)
            (map (\<lambda>(k, v). (if k = ''id'' then ''blocker_id'' else k, blocker_value k v)) flds) db))"

fun apply_all_blockers :: "string \<Rightarrow> (string \<times> obj) list \<Rightarrow> unit txn" where
  "apply_all_blockers slug [] = ret ()"
| "apply_all_blockers slug ((b, flds) # rest) =
     andthen (apply_blocker_updates slug b flds) (\<lambda>_. apply_all_blockers slug rest)"

text \<open>\<open>_claim_in_txn\<close>: the claim is built by \<open>claim_phase\<close> on a scratch document.\<close>

definition scratch_doc :: "string \<Rightarrow> doc" where
  "scratch_doc slug =
     \<lparr>d_slug = slug, d_status = JNull, d_plan_dir = JNull, d_created_at = JNull, d_batch_id = JNull,
      d_config = None, d_phases = None, d_worktree = None, d_extra = [], d_claim = None,
      d_blockers = [], d_tasks = [], d_events = []\<rparr>"

definition claim_in_txn :: "int \<Rightarrow> string \<Rightarrow> string \<Rightarrow> tick_delta \<Rightarrow> string \<Rightarrow> string txn" where
  "claim_in_txn now fresh slug dl phase = (\<lambda>db.
     case claim_phase now fresh phase (case dl_lease_minutes dl of None \<Rightarrow> 0 | Some m \<Rightarrow> m) None (scratch_doc slug) of
       (Inl e, _) \<Rightarrow> (Inl e, db)
     | (Inr token, scratch) \<Rightarrow>
         let claim = (case d_claim scratch of None \<Rightarrow> [] | Some c \<Rightarrow> c);
             stamped = (case dl_claim_attempts dl of None \<Rightarrow> claim | Some n \<Rightarrow> dset ''attempts'' (JInt n) claim)
         in (Inr token, insert_events slug (d_events scratch) (write_claim slug (Some stamped) db)))"

definition apply_tick_delta :: "int \<Rightarrow> string \<Rightarrow> string \<Rightarrow> tick_pre \<Rightarrow> tick_delta \<Rightarrow> string option txn" where
  "apply_tick_delta now fresh slug pre dl =
     plan_txn slug
       (andthen (\<lambda>db. (assert_preconditions db slug pre, db))
       (\<lambda>_. andthen (if dl_claim_updates dl = [] then ret ()
                     else apply_claim_updates slug (dl_claim_token dl) (dl_claim_updates dl))
       (\<lambda>_. andthen (apply_all_blockers slug (dl_blocker_updates dl))
       (\<lambda>_. andthen (if dl_release dl then modify (delete_claim slug) else ret ())
       (\<lambda>_. andthen (case dl_status dl of None \<Rightarrow> ret ()
                     | Some s \<Rightarrow> modify (update_plan slug (set_cols [(''status'', SVal (JStr s))])))
       (\<lambda>_. andthen (modify (insert_events slug (dl_events dl)))
       (\<lambda>_. case dl_claim_phase dl of None \<Rightarrow> ret None
            | Some p \<Rightarrow> andthen (claim_in_txn now fresh slug dl p) (\<lambda>t. ret (Some t)))))))))"

section \<open>The apply keeps the store contract\<close>

text \<open>What the tick puts in a delta: claim updates are a dictionary, and no blocker is renamed.\<close>

definition delta_ok :: "tick_delta \<Rightarrow> bool" where
  "delta_ok dl \<longleftrightarrow> distinct (map fst (dl_claim_updates dl))
     \<and> (\<forall>(b, flds)\<in>set (dl_blocker_updates dl). ''id'' \<notin> set (map fst flds))"

lemma keeps_apply_claim_updates:
  assumes "distinct (map fst flds)"
  shows "keeps slug (apply_claim_updates slug token flds)"
  by (rule keepsI)
    (auto simp: apply_claim_updates_def step_ok_refl split: option.splits
      intro!: update_claim_step set_assignments_ok assms dest: db_ok_claim_row)

lemma blocker_cols_keep_id:
  assumes "''id'' \<notin> set (map fst flds)" "list_all (\<lambda>(k, v). k \<in> set BLOCKER_KNOWN) flds"
  shows "set_cols (map (\<lambda>(k, v). (if k = ''id'' then ''blocker_id'' else k, blocker_value k v)) flds) r ''blocker_id''
    = r ''blocker_id''"
proof -
  have n: "''blocker_id'' \<notin> set BLOCKER_KNOWN"
    by (simp add: BLOCKER_KNOWN_def BLOCKER_COLUMN_def BLOCKER_ALWAYS_def BLOCKER_OPTIONAL_def)
  have "map_of (map (\<lambda>(k, v). (if k = ''id'' then ''blocker_id'' else k, blocker_value k v)) flds) ''blocker_id'' = None"
    using assms
  proof (induction flds)
    case (Cons f flds)
    obtain k v where "f = (k, v)" by (cases f)
    with Cons n show ?case by (cases "k = ''blocker_id''") auto
  qed simp
  then show ?thesis by simp
qed

lemma keeps_apply_blocker_updates:
  assumes "''id'' \<notin> set (map fst flds)"
  shows "keeps slug (apply_blocker_updates slug b flds)"
proof (rule keepsI)
  fix db assume ok: "db_ok db"
  show "step_ok slug db (snd (apply_blocker_updates slug b flds db))"
  proof (cases "list_all (\<lambda>(k, v). k \<in> set BLOCKER_KNOWN) flds")
    case True
    have "step_ok slug db (update_blockers (is_blocker slug b)
            (map (\<lambda>(k, v). (if k = ''id'' then ''blocker_id'' else k, blocker_value k v)) flds) db)"
      by (rule update_blockers_step[OF ok]) (simp add: is_blocker_def, rule blocker_cols_keep_id[OF assms True])
    then show ?thesis by (simp add: apply_blocker_updates_def step_ok_refl[OF ok])
  next
    case False
    then have "list_ex (\<lambda>(k, v). k \<notin> set BLOCKER_KNOWN) flds" by (force simp: list_all_iff list_ex_iff)
    then show ?thesis by (simp add: apply_blocker_updates_def step_ok_refl[OF ok])
  qed
qed

lemma keeps_apply_all_blockers:
  "\<forall>(b, flds)\<in>set bs. ''id'' \<notin> set (map fst flds) \<Longrightarrow> keeps slug (apply_all_blockers slug bs)"
  by (induction slug bs rule: apply_all_blockers.induct)
    (auto intro!: keeps_intros keeps_apply_blocker_updates)

lemma write_claim_step:
  assumes "db_ok db" "has_plan db slug" "distinct (map fst claim)"
  shows "step_ok slug db (write_claim slug (Some claim) db)"
proof -
  let ?t = "AList.update slug (claim_row claim) (t_claims db)"
  have "slug \<in> set (map fst (t_plans db))" using assms(2) by (auto simp: map_of_eq_None_iff)
  moreover have "set (map fst ?t) = insert slug (set (map fst (t_claims db)))"
    by (simp add: dom_update)
  moreover have d: "distinct (map fst ?t)" using assms(1) by (simp add: db_ok_def claims_ok_def distinct_update)
  moreover have "claim_row_ok r" if "(s, r) \<in> set ?t" for s r
  proof -
    have "map_of ?t s = Some r" by (rule map_of_is_SomeI[OF d that])
    then have "r = claim_row claim \<or> map_of (t_claims db) s = Some r" by (auto split: if_splits)
    then show ?thesis using assms by (auto simp: db_ok_def claims_ok_def dest!: map_of_SomeD)
  qed
  ultimately have "claims_ok (db\<lparr>t_claims := ?t\<rparr>)"
    using assms(1) unfolding db_ok_def claims_ok_def by auto
  then show ?thesis unfolding write_claim_def option.case
    by (rule claims_step[OF assms(1)]) simp
qed

lemma claim_phase_scratch:
  "claim_phase now fresh p m None (scratch_doc slug) =
    (let token = ''session-'' @ take 16 fresh in
     (Inr token, (scratch_doc slug)\<lparr>d_claim := Some
         [(''phase_id'', JStr p), (''claimed_by'', JStr token), (''lease_expires'', iso (now + minutes m)),
          (''started_at'', iso now), (''last_heartbeat_at'', iso now), (''attempts'', JInt 1)],
       d_events := [mk_event now EVENT_PHASE_STARTED [(''phase'', JStr p), (''claimed_by'', JStr token)]]\<rparr>))"
  by (simp add: claim_phase_def release_if_expired_def scratch_doc_def append_event_def started_count_def Let_def)

text \<open>The claim a dispatch installs, and the event that names its token.\<close>

definition dispatched_claim :: "int \<Rightarrow> string \<Rightarrow> tick_delta \<Rightarrow> string \<Rightarrow> obj" where
  "dispatched_claim now token dl p =
     [(''phase_id'', JStr p), (''claimed_by'', JStr token),
      (''lease_expires'', iso (now + minutes (case dl_lease_minutes dl of None \<Rightarrow> 0 | Some m \<Rightarrow> m))),
      (''started_at'', iso now), (''last_heartbeat_at'', iso now),
      (''attempts'', JInt (case dl_claim_attempts dl of None \<Rightarrow> 1 | Some n \<Rightarrow> n))]"

lemma claim_in_txn_eq:
  "claim_in_txn now fresh slug dl p db =
     (let token = ''session-'' @ take 16 fresh in
      (Inr token, insert_events slug
         [mk_event now EVENT_PHASE_STARTED [(''phase'', JStr p), (''claimed_by'', JStr token)]]
         (write_claim slug (Some (dispatched_claim now token dl p)) db)))"
  by (simp add: claim_in_txn_def claim_phase_scratch dispatched_claim_def Let_def split: option.split)

lemma keeps_claim_in_txn: "keeps slug (claim_in_txn now fresh slug dl p)"
proof (rule keepsI)
  fix db assume ok: "db_ok db" and p: "has_plan db slug"
  let ?w = "write_claim slug (Some (dispatched_claim now (''session-'' @ take 16 fresh) dl p)) db"
  have 1: "step_ok slug db ?w"
    by (rule write_claim_step[OF ok p]) (simp add: dispatched_claim_def)
  then have "step_ok slug db (insert_events slug evs ?w)" for evs
    using step_ok_trans[OF 1 insert_events_step[OF step_ok_db_ok[OF 1]]] p step_ok_has_plan[OF 1] by metis
  then show "step_ok slug db (snd (claim_in_txn now fresh slug dl p db))"
    by (simp add: claim_in_txn_eq Let_def)
qed

lemma apply_tick_delta_step:
  assumes "db_ok db" "delta_ok dl"
  shows "step_ok slug db (snd (apply_tick_delta now fresh slug pre dl db))"
proof -
  have rel: "keeps slug (modify (delete_claim slug))"
    by (rule keepsI) (simp add: modify_def delete_claim_step)
  have st: "keeps slug (modify (update_plan slug (set_cols [(''status'', x)])))" for x
    by (rule keepsI) (auto simp: modify_def plan_row_ok_def intro!: update_plan_step)
  have pre: "keeps slug (\<lambda>db. (assert_preconditions db slug pre, db))"
    by (rule keepsI) (simp add: step_ok_refl)
  have cu: "keeps slug (apply_claim_updates slug (dl_claim_token dl) (dl_claim_updates dl))"
    by (rule keeps_apply_claim_updates) (use assms(2) in \<open>simp add: delta_ok_def\<close>)
  have bu: "keeps slug (apply_all_blockers slug (dl_blocker_updates dl))"
    by (rule keeps_apply_all_blockers) (use assms(2) in \<open>simp add: delta_ok_def\<close>)
  show ?thesis
    unfolding apply_tick_delta_def
    by (intro plan_txn_step[OF _ assms(1)] keeps_andthen pre bu keeps_modify_events)
      (auto intro!: keeps_intros rel st cu keeps_claim_in_txn split: option.splits)
qed

section \<open>Optimistic concurrency\<close>

lemma plan_txn_Inr:
  "plan_txn slug m db = (Inr x, db') \<longleftrightarrow>
     slug_re_match slug \<and> has_plan db slug \<and> m (update_plan slug bump_version db) = (Inr x, db')"
  by (auto simp: plan_txn_def validate_slug_def guard_res_def write_txn_def andthen_def bump_def
      split: prod.splits sum.splits)

lemma plan_txn_Inl:
  "plan_txn slug m db = (Inl e, db') \<Longrightarrow> db' = db"
  by (auto simp: plan_txn_def write_txn_def split: prod.splits sum.splits)

lemma andthen_Inr:
  "andthen m f db = (Inr y, db') \<longleftrightarrow> (\<exists>x db1. m db = (Inr x, db1) \<and> f x db1 = (Inr y, db'))"
  by (auto simp: andthen_def split: prod.splits sum.splits)

lemma reads_after_bump [simp]:
  "claim_row_of (update_plan slug f db) s = claim_row_of db s"
  "read_claim (update_plan slug f db) s = read_claim db s"
  "holder (update_plan slug f db) s = holder db s"
  "max_event_id (update_plan slug f db) s = max_event_id db s"
  "blocker_state (update_plan slug f db) s b = blocker_state db s b"
  "t_blockers (update_plan slug f db) = t_blockers db"
  "t_tasks (update_plan slug f db) = t_tasks db"
  by (simp_all add: update_plan_def claim_row_of_def read_claim_def holder_def max_event_id_def
      plan_events_def blocker_state_def)

lemma assert_after_bump [simp]:
  "assert_preconditions (update_plan slug bump_version db) slug p = assert_preconditions db slug p"
proof -
  let ?db = "update_plan slug bump_version db"
  have "check_status ?db slug st = check_status db slug st" for st
    by (simp add: check_status_def update_plan_def map_of_map_entry bump_version_def split: option.split)
  moreover have "check_claim ?db slug w = check_claim db slug w" for w
    by (cases w) (simp_all add: check_claim_def)
  moreover have "check_claim_fields ?db slug flds = check_claim_fields db slug flds" for flds
    by (simp add: check_claim_fields_def)
  moreover have "check_events ?db slug m = check_events db slug m" for m
    by (cases m) (simp_all add: check_events_def)
  moreover have "check_blockers ?db slug bs = check_blockers db slug bs" for bs
    by (simp add: check_blockers_def)
  ultimately show ?thesis by (simp add: assert_preconditions_def)
qed

definition plain_writes :: "string \<Rightarrow> tick_delta \<Rightarrow> pdb \<Rightarrow> pdb" where
  "plain_writes slug dl db =
     insert_events slug (dl_events dl)
       ((case dl_status dl of None \<Rightarrow> id | Some s \<Rightarrow> update_plan slug (set_cols [(''status'', SVal (JStr s))]))
         ((if dl_release dl then delete_claim slug else id) db))"

lemma apply_tick_delta_InrE:
  assumes "apply_tick_delta now fresh slug pre dl db = (Inr t, db')"
  obtains db1 db2 where "assert_preconditions db slug pre = Inr ()" "slug_re_match slug" "has_plan db slug"
    "(if dl_claim_updates dl = [] then ret ()
      else apply_claim_updates slug (dl_claim_token dl) (dl_claim_updates dl)) (update_plan slug bump_version db) = (Inr (), db1)"
    "apply_all_blockers slug (dl_blocker_updates dl) db1 = (Inr (), db2)"
    "(case dl_claim_phase dl of None \<Rightarrow> t = None \<and> db' = plain_writes slug dl db2
      | Some p \<Rightarrow> \<exists>tok. t = Some tok \<and> claim_in_txn now fresh slug dl p (plain_writes slug dl db2) = (Inr tok, db'))"
proof -
  have rel: "(if dl_release dl then modify (delete_claim slug) else ret ())
      = modify (if dl_release dl then delete_claim slug else id)"
    by (auto simp: modify_def ret_def)
  have st: "(case dl_status dl of None \<Rightarrow> ret ()
                     | Some s \<Rightarrow> modify (update_plan slug (set_cols [(''status'', SVal (JStr s))])))
      = modify (case dl_status dl of None \<Rightarrow> id | Some s \<Rightarrow> update_plan slug (set_cols [(''status'', SVal (JStr s))]))"
    by (auto simp: modify_def ret_def split: option.split)
  have mod: "andthen (modify f) g d = g () (f d)" for f and g :: "unit \<Rightarrow> 'z txn" and d
    by (simp add: andthen_def modify_def)
  from assms show thesis
    unfolding apply_tick_delta_def plan_txn_Inr andthen_Inr rel st mod
    by (elim conjE exE, intro that) (auto simp: plain_writes_def ret_def andthen_Inr split: option.splits)
qed

text \<open>
  A tick's write is conditional and atomic. When the apply succeeds, every precondition
  held in the very database it wrote to, and a token is returned exactly when the delta
  dispatches a phase; when it fails for whatever reason, the database is exactly as before,
  its version counters included.
\<close>

theorem apply_conditional_atomic:
  "case apply_tick_delta now fresh slug pre dl db of
     (Inl e, db') \<Rightarrow> db' = db
   | (Inr t, db') \<Rightarrow> assert_preconditions db slug pre = Inr () \<and> (t = None \<longleftrightarrow> dl_claim_phase dl = None)"
proof (cases "apply_tick_delta now fresh slug pre dl db")
  case (Pair r db')
  show ?thesis
  proof (cases r)
    case (Inl e)
    then show ?thesis using Pair plan_txn_Inl unfolding apply_tick_delta_def by fastforce
  next
    case (Inr t)
    with Pair have "apply_tick_delta now fresh slug pre dl db = (Inr t, db')" by simp
    then show ?thesis
      by (elim apply_tick_delta_InrE) (auto simp: Pair Inr split: option.splits)
  qed
qed

text \<open>
  C4 One winner per dispatch. Two ticks that both decided to dispatch on \<open>no claim\<close> cannot both
  claim: once any claim is in place, a delta whose decision rested on there being none is
  refused and changes nothing; and a successful dispatch leaves exactly its own claim.
\<close>

theorem dispatch_one_winner:
  assumes "db_ok db" and "delta_ok dl" and "pre_claim pre = Some None"
    and "apply_tick_delta now fresh slug pre dl db = (Inr (Some token), db1)"
    and "pre_claim pre2 = Some None"
  shows "read_claim db slug = None
    \<and> holder db1 slug = Some (JStr token, JStr (the (dl_claim_phase dl)))
    \<and> apply_tick_delta now2 fresh2 slug pre2 dl2 db1 = (Inl (TickConflict ClaimMoved), db1)"
proof -
  from assms(4) obtain db3 p where a: "assert_preconditions db slug pre = Inr ()" "slug_re_match slug" "has_plan db slug"
    and p: "dl_claim_phase dl = Some p" "claim_in_txn now fresh slug dl p db3 = (Inr token, db1)"
    by (elim apply_tick_delta_InrE) (auto split: option.splits)
  have 1: "read_claim db slug = None"
    using a(1) assms(3) by (auto simp: assert_preconditions_def bind_res_Inr check_claim_def conflict_def
        claim_identity_def split: if_splits)
  have c: "claim_row_of db1 slug = Some (claim_row (dispatched_claim now token dl p))"
    using p(2) by (auto simp: claim_in_txn_eq Let_def claim_row_of_def write_claim_def)
  then have h: "holder db1 slug = Some (JStr token, JStr p)"
    by (simp add: holder_def claim_row_def CLAIM_SCALARS_def dispatched_claim_def jget_def)
  have "read_claim db1 slug \<noteq> None" using c by (simp add: read_claim_def claim_row_of_def)
  then have chk: "assert_preconditions db1 slug pre2 = Inl (TickConflict ClaimMoved)"
    using assms(5) by (auto simp: assert_preconditions_def check_claim_def claim_identity_def conflict_def)
  have "has_plan db1 slug"
    using step_ok_has_plan[OF apply_tick_delta_step[OF assms(1,2)]] assms(4) a(3) by (metis snd_conv)
  then have "apply_tick_delta now2 fresh2 slug pre2 dl2 db1 = (Inl (TickConflict ClaimMoved), db1)"
    using a(2) chk by (simp add: apply_tick_delta_def plan_txn_def validate_slug_def guard_res_def
        write_txn_def andthen_def bump_def)
  with 1 h p(1) show ?thesis by simp
qed

text \<open>The part of the observed facts a decision copies across.\<close>

definition pre_within :: "tick_pre \<Rightarrow> tick_pre \<Rightarrow> bool" where
  "pre_within p obs \<longleftrightarrow>
     (pre_claim p = None \<or> pre_claim p = pre_claim obs)
     \<and> (pre_max_event_id p = None \<or> pre_max_event_id p = pre_max_event_id obs)
     \<and> (\<forall>(k, v)\<in>set (pre_claim_fields p). pre_claim obs \<noteq> Some None \<and> v = jget (pre_claim_fields obs) k)
     \<and> set (pre_blockers p) \<subseteq> set (pre_blockers obs)
     \<and> (pre_status p = JNull \<or> pre_status p = pre_status obs)"

lemma find_unique_key:
  assumes "keys_ok c t" "(slug, r) \<in> set t" "r c = SVal (JStr k)"
  shows "find (\<lambda>(s, r). s = slug \<and> r c = SVal (JStr k)) t = Some (slug, r)"
  using assms
proof (induction t)
  case (Cons x t)
  obtain s' r' where x: "x = (s', r')" by (cases x)
  show ?case
  proof (cases "s' = slug \<and> r' c = SVal (JStr k)")
    case True
    then have "(slug, r) \<notin> set t" using Cons.prems x by (force simp: keys_ok_def)
    then show ?thesis using True Cons.prems x by auto
  next
    case False
    then show ?thesis using Cons x by (auto simp: keys_ok_def)
  qed
qed simp

lemma read_blocker_fields:
  "sget (read_blocker_row r) ''id'' = (case scalar_of (r ''blocker_id'') of JStr s \<Rightarrow> s | _ \<Rightarrow> [])"
  "jget (read_blocker_row r) ''answer'' = scalar_of (r ''answer'')"
  "dtrue (read_blocker_row r) ''consumed'' = truthy (scalar_of (r ''consumed''))"
  by (simp_all add: read_blocker_row_def BLOCKER_ALWAYS_def BLOCKER_OPTIONAL_def sget_def jget_def dtrue_def
      split: jval.split)

lemma blocker_state_observed:
  assumes "db_ok db" "b \<in> set (read_blockers db slug)"
  shows "blocker_state db slug (sget b ''id'') = Some (jget b ''answer'' = JNull, dtrue b ''consumed'')"
proof -
  from assms(2) obtain r where r: "b = read_blocker_row r" "(slug, r) \<in> set (t_blockers db)"
    by (auto simp: read_blockers_def rows_of_def)
  have ko: "keys_ok ''blocker_id'' (t_blockers db)" using assms(1) by (simp add: db_ok_def)
  then obtain k where k: "r ''blocker_id'' = SVal (JStr k)" using r(2) by (auto simp: keys_ok_def)
  then show ?thesis
    using find_unique_key[OF ko r(2) k] by (simp add: blocker_state_def is_blocker_def r(1) read_blocker_fields)
qed

lemma snapshot_in_txn_reads:
  assumes "snapshot_in_txn db slug = Inr d"
  shows "\<exists>r. map_of (t_plans db) slug = Some r \<and> d_slug d = slug \<and> d_claim d = read_claim db slug
    \<and> d_blockers d = read_blockers db slug \<and> d_status d = scalar_of (r ''status'')
    \<and> d_tasks d = read_tasks db slug \<and> d_events d = read_events db slug"
proof (cases "map_of (t_plans db) slug")
  case (Some r)
  then have "d = projr (snapshot_in_txn db slug)" using assms by simp
  then show ?thesis using Some by (simp add: snapshot_in_txn_def)
qed (use assms in \<open>simp add: snapshot_in_txn_def\<close>)

lemma observed_preconditions_hold:
  assumes "db_ok db" and "snapshot_with_preconditions db slug = Inr (d, obs)" and "pre_within p obs"
  shows "assert_preconditions db slug p = Inr ()"
proof -
  from assms(2) have snap: "snapshot_in_txn db slug = Inr d" and obs:
    "obs = \<lparr>pre_claim = Some (claim_identity (d_claim d)),
        pre_max_event_id = Some (max_event_id db slug),
        pre_claim_fields = (case d_claim d of None \<Rightarrow> [] | Some c \<Rightarrow> c),
        pre_blockers = map (\<lambda>b. (sget b ''id'', jget b ''answer'' = JNull, dtrue b ''consumed'')) (d_blockers d),
        pre_status = d_status d\<rparr>"
    unfolding snapshot_with_preconditions_def snapshot_def bind_res_Inr by auto
  from snapshot_in_txn_reads[OF snap] obtain r where r: "map_of (t_plans db) slug = Some r"
    and d: "d_claim d = read_claim db slug" "d_blockers d = read_blockers db slug"
      "d_status d = scalar_of (r ''status'')" by blast
  have "check_claim db slug (pre_claim p) = Inr ()"
    using assms(3) by (auto simp: pre_within_def obs check_claim_def d)
  moreover have "check_events db slug (pre_max_event_id p) = Inr ()"
    using assms(3) by (auto simp: pre_within_def obs check_events_def)
  moreover have "check_status db slug (pre_status p) = Inr ()"
    using assms(3) r by (auto simp: pre_within_def obs check_status_def d)
  moreover have "check_claim_fields db slug (pre_claim_fields p) = Inr ()"
  proof (cases "pre_claim_fields p = []")
    case False
    then have "pre_claim obs \<noteq> Some None" using assms(3) by (cases "pre_claim_fields p") (auto simp: pre_within_def)
    then obtain c where c: "read_claim db slug = Some c" by (auto simp: obs d claim_identity_def)
    have "find (\<lambda>(k, v). jget c k \<noteq> v) (pre_claim_fields p) = None"
      using assms(3) c by (auto simp: find_None_iff pre_within_def obs d)
    then show ?thesis using c by (simp add: check_claim_fields_def)
  qed (simp add: check_claim_fields_def)
  moreover have "check_blockers db slug (pre_blockers p) = Inr ()"
  proof -
    have "blocker_state db slug b = Some st" if "(b, st) \<in> set (pre_blockers p)" for b st
    proof -
      have "(b, st) \<in> set (pre_blockers obs)" using assms(3) that by (auto simp: pre_within_def)
      then obtain bl where "bl \<in> set (read_blockers db slug)" "b = sget bl ''id''"
        "st = (jget bl ''answer'' = JNull, dtrue bl ''consumed'')" by (auto simp: obs d)
      then show ?thesis using blocker_state_observed[OF assms(1)] by simp
    qed
    then have "find (\<lambda>(b, st). blocker_state db slug b \<noteq> Some st) (pre_blockers p) = None"
      by (auto simp: find_None_iff)
    then show ?thesis by (simp add: check_blockers_def)
  qed
  ultimately show ?thesis by (simp add: assert_preconditions_def)
qed

text \<open>
  An undisturbed tick commits its decision: whatever subset of the observed facts a decision
  declares, the preconditions hold in the database the snapshot was taken from.
\<close>

theorem snapshot_preconditions_hold:
  assumes "db_ok db" and "snapshot_with_preconditions db slug = Inr (d, obs)" and "pre_within p obs"
  shows "assert_preconditions db slug p = Inr ()"
  by (rule observed_preconditions_hold[OF assms])

lemma heartbeat_reads:
  assumes ok: "db_ok db" and h: "op_heartbeat now slug token phase db = (Inr ts, db')"
  obtains r where "claim_row_of db slug = Some r" "cas_row token (Some phase) r"
    "claim_row_of db' slug = Some (set_cols [(''last_heartbeat_at'', sql_scalar (iso now))] r)"
    "max_event_id db' slug = max_event_id db slug" "t_blockers db' = t_blockers db"
    "map_of (t_plans db') slug = map_option bump_version (map_of (t_plans db) slug)" "ts = iso now"
proof -
  from h obtain r where r: "claim_row_of db slug = Some r" "cas_row token (Some phase) r" "ts = iso now"
    "db' = update_claim slug [(''last_heartbeat_at'', sql_scalar (iso now))] (update_plan slug bump_version db)"
    by (auto simp: op_heartbeat_def plan_txn_Inr cas_update_def split: option.splits if_splits)
  show thesis
    by (rule that[OF r(1,2)])
      (use r in \<open>simp_all add: update_claim_def update_plan_def claim_row_of_def max_event_id_def plan_events_def map_of_map_entry\<close>)
qed

text \<open>
  Preconditions, not a version counter. A heartbeat that lands between a tick's snapshot and
  its apply disturbs no decision except one that judged the heartbeat: the preconditions that
  do not name \<open>last_heartbeat_at\<close> are worth exactly what they were, and a decision that saw
  another heartbeat time is refused.
\<close>

theorem heartbeat_disturbs_only_heartbeat_judgments:
  assumes "db_ok db" and "op_heartbeat now slug token phase db = (Inr ts, db')"
  shows "(''last_heartbeat_at'' \<notin> set (map fst (pre_claim_fields p)) \<longrightarrow>
      assert_preconditions db' slug p = assert_preconditions db slug p)
    \<and> (\<forall>v. (''last_heartbeat_at'', v) \<in> set (pre_claim_fields p) \<and> v \<noteq> ts \<longrightarrow>
      (\<exists>c. assert_preconditions db' slug p = Inl (TickConflict c)))"
proof -
  from heartbeat_reads[OF assms] obtain r where r: "claim_row_of db slug = Some r"
    "claim_row_of db' slug = Some (set_cols [(''last_heartbeat_at'', sql_scalar (iso now))] r)"
    "max_event_id db' slug = max_event_id db slug" "t_blockers db' = t_blockers db"
    "map_of (t_plans db') slug = map_option bump_version (map_of (t_plans db) slug)" "ts = iso now" by metis
  let ?c = "read_claim_row r" and ?c' = "read_claim_row (set_cols [(''last_heartbeat_at'', sql_scalar (iso now))] r)"
  have ok: "claim_row_ok r" by (rule db_ok_claim_row[OF assms(1) r(1)])
  have ok': "claim_row_ok (set_cols [(''last_heartbeat_at'', sql_scalar (iso now))] r)"
    by (rule set_scalar_ok[OF ok CLAIM_columns(1)])
  have fl: "set_cols [(''last_heartbeat_at'', x)] r ''flags'' = r ''flags''" for x by simp
  have g: "jget ?c' k = (if k = ''last_heartbeat_at'' then iso now else jget ?c k)" for k
    unfolding jget_def read_claim_row_ok[OF ok] read_claim_row_ok[OF ok'] fl
    using CLAIM_columns(1) by (auto simp: set_cols_def iso_def)
  have rc: "read_claim db slug = Some ?c" "read_claim db' slug = Some ?c'"
    using r(1,2) by (simp_all add: read_claim_def claim_row_of_def)
  have cl: "check_claim db' slug w = check_claim db slug w" for w
    by (cases w) (simp_all add: check_claim_def rc claim_identity_def g)
  have ev: "check_events db' slug m = check_events db slug m" for m
    by (cases m) (simp_all add: check_events_def r)
  have bl: "check_blockers db' slug bs = check_blockers db slug bs" for bs
    by (simp add: check_blockers_def blocker_state_def r)
  have st: "check_status db' slug x = check_status db slug x" for x
    by (simp add: check_status_def r bump_version_def split: option.split)
  have "assert_preconditions db' slug p = assert_preconditions db slug p"
    if "''last_heartbeat_at'' \<notin> set (map fst (pre_claim_fields p))"
  proof -
    have "find (\<lambda>(k, v). jget ?c' k \<noteq> v) (pre_claim_fields p) = find (\<lambda>(k, v). jget ?c k \<noteq> v) (pre_claim_fields p)"
      by (rule find_cong[OF refl]) (use that in \<open>auto simp: g image_iff\<close>)
    then have "check_claim_fields db' slug (pre_claim_fields p) = check_claim_fields db slug (pre_claim_fields p)"
      by (simp add: check_claim_fields_def rc)
    then show ?thesis by (simp add: assert_preconditions_def cl ev bl st)
  qed
  moreover have "\<exists>c. assert_preconditions db' slug p = Inl (TickConflict c)"
    if v: "(''last_heartbeat_at'', v) \<in> set (pre_claim_fields p)" "v \<noteq> ts" for v
  proof -
    have "find (\<lambda>(k, v). jget ?c' k \<noteq> v) (pre_claim_fields p) \<noteq> None"
      using v r(6) by (auto simp: find_None_iff g)
    then have "\<exists>c. check_claim_fields db' slug (pre_claim_fields p) = Inl (TickConflict c)"
      using v(1) by (auto simp: check_claim_fields_def rc conflict_def split: option.splits)
    then obtain c where "check_claim_fields db' slug (pre_claim_fields p) = Inl (TickConflict c)" by blast
    moreover have "check_claim db' slug (pre_claim p) = Inr ()
        \<or> (\<exists>c. check_claim db' slug (pre_claim p) = Inl (TickConflict c))"
      by (auto simp: check_claim_def conflict_def split: option.splits)
    ultimately show ?thesis unfolding assert_preconditions_def by (elim disjE exE) simp_all
  qed
  ultimately show ?thesis by blast
qed

end
