(* ===== verification/Store_Steps.thy ===== *)
theory Store_Steps
  imports Tick_Apply
begin

text \<open>
  The store as a transition system: every operation as a step, the reachable databases, and the
  two contracts the rest of the program relies on, stated as locales and interpreted on the
  model: an append-only log, and mutual exclusion by claim tokens.
\<close>

section \<open>Creating a plan\<close>

text \<open>What the callers of \<open>create\<close> hand over (\<open>empty_state\<close> and the queue's pop build it).\<close>

definition doc_ok :: "doc \<Rightarrow> bool" where
  "doc_ok d \<longleftrightarrow> set (map fst (d_extra d)) \<inter> set PLAN_OWN_KEYS = {}
     \<and> (\<forall>c. d_claim d = Some c \<longrightarrow> distinct (map fst c))
     \<and> (\<forall>b\<in>set (d_blockers d). \<exists>k. jget b ''id'' = JStr k)
     \<and> (\<forall>t\<in>set (d_tasks d). \<exists>k. jget t ''id'' = JStr k)"

definition grows_ok :: "string \<Rightarrow> pdb \<Rightarrow> pdb \<Rightarrow> bool" where
  "grows_ok slug db db' \<longleftrightarrow> db_ok db' \<and> (\<forall>s. history_grows db db' s) \<and> t_seq db \<le> t_seq db'
     \<and> (\<forall>s. s \<noteq> slug \<longrightarrow> same_plan s db db')
     \<and> t_queue db' = t_queue db \<and> t_history db' = t_history db \<and> t_quota db' = t_quota db"

lemma step_ok_grows: "step_ok slug db db' \<Longrightarrow> grows_ok slug db db'"
  unfolding step_ok_def grows_ok_def same_plan_def history_grows_def
  by (metis append_Nil2 empty_iff empty_set)

lemma grows_ok_refl: "db_ok db \<Longrightarrow> grows_ok slug db db"
  by (simp add: grows_ok_def)

lemma grows_ok_trans: "grows_ok slug db db1 \<Longrightarrow> grows_ok slug db1 db2 \<Longrightarrow> grows_ok slug db db2"
  unfolding grows_ok_def using history_grows_trans same_plan_trans by (metis order_trans)

lemma head_row_ok: "set (map fst (d_extra d)) \<inter> set PLAN_OWN_KEYS = {} \<Longrightarrow> plan_row_ok (head_row d)"
  by (simp add: plan_row_ok_def head_row_def)

lemma add_plan_grows:
  assumes ok: "db_ok db" and n: "map_of (t_plans db) slug = None" and r: "plan_row_ok r" "slug_re_match slug"
  shows "grows_ok slug db (db\<lparr>t_plans := t_plans db @ [(slug, r)]\<rparr>)"
proof -
  let ?db = "db\<lparr>t_plans := t_plans db @ [(slug, r)]\<rparr>"
  have h: "history ?db s = history db s" "plan_events ?db s = plan_events db s" for s
    by (simp_all add: history_def plan_events_def)
  have "slug \<notin> set (map fst (t_plans db))" using n by (auto simp: map_of_eq_None_iff)
  then have "plans_ok ?db" using ok r by (auto simp: db_ok_def plans_ok_def)
  moreover have "claims_ok ?db" using ok by (auto simp: db_ok_def claims_ok_def)
  moreover have "events_ok ?db" using ok h by (auto simp: db_ok_def events_ok_def)
  ultimately show ?thesis using ok h
    by (simp add: grows_ok_def db_ok_def history_grows_def same_plan_def map_add_def split: option.split)
qed

lemma write_claim_opt_step:
  assumes "db_ok db" "has_plan db slug" "\<forall>c. cl = Some c \<longrightarrow> distinct (map fst c)"
  shows "step_ok slug db (write_claim slug cl db)"
  using assms write_claim_step[OF assms(1,2)] delete_claim_step[OF assms(1), of slug]
  by (cases cl) (simp_all add: write_claim_def delete_claim_def)

lemma insert_plan_grows:
  assumes ok: "db_ok db" and d: "doc_ok d" "slug_re_match (d_slug d)"
    and i: "insert_plan d db = (Inr (), db')"
  shows "grows_ok (d_slug d) db db'"
proof -
  let ?s = "d_slug d"
  let ?db1 = "db\<lparr>t_plans := t_plans db @ [(?s, head_row d)]\<rparr>"
  let ?db2 = "write_claim ?s (d_claim d) ?db1"
  from i have n: "map_of (t_plans db) ?s = None" by (auto simp: insert_plan_def Let_def split: if_splits)
  with i obtain db3 db4 where w: "write_blockers ?s (d_blockers d) ?db2 = (Inr (), db3)"
    "write_tasks ?s (d_tasks d) db3 = (Inr (), db4)" "db' = insert_events ?s (d_events d) db4"
    by (auto simp: insert_plan_def Let_def split: prod.splits sum.splits)
  have 1: "grows_ok ?s db ?db1"
    by (rule add_plan_grows[OF ok n head_row_ok d(2)]) (use d(1) in \<open>simp add: doc_ok_def\<close>)
  then have ok1: "db_ok ?db1" by (simp add: grows_ok_def)
  have p1: "has_plan ?db1 ?s" using n by simp
  have 2: "step_ok ?s ?db1 ?db2"
    by (rule write_claim_opt_step[OF ok1 p1]) (use d(1) in \<open>simp add: doc_ok_def\<close>)
  have kb: "keeps ?s (write_blockers ?s (d_blockers d))" "keeps ?s (write_tasks ?s (d_tasks d))"
    using d(1) by (simp_all add: doc_ok_def keeps_write_blockers keeps_write_tasks)
  have p2: "has_plan ?db2 ?s" using p1 step_ok_has_plan[OF 2] by blast
  have 3: "step_ok ?s ?db2 db3" using keepsD[OF kb(1) step_ok_db_ok[OF 2] p2] w(1) by simp
  then have p3: "has_plan db3 ?s" using p2 step_ok_has_plan[OF 3] by blast
  have 4: "step_ok ?s db3 db4" using keepsD[OF kb(2) step_ok_db_ok[OF 3] p3] w(2) by simp
  then have p4: "has_plan db4 ?s" using p3 step_ok_has_plan[OF 4] by blast
  have 5: "step_ok ?s db4 db'" unfolding w(3) by (rule insert_events_step[OF step_ok_db_ok[OF 4] p4])
  show ?thesis
    using grows_ok_trans[OF 1] step_ok_grows[OF step_ok_trans[OF 2 step_ok_trans[OF 3 step_ok_trans[OF 4 5]]]]
    by blast
qed

lemma create_in_txn_Inr:
  "create_in_txn d db = (Inr (), db') \<longleftrightarrow> slug_re_match (d_slug d) \<and> insert_plan d db = (Inr (), db')"
  by (auto simp: create_in_txn_def validate_slug_def guard_res_def split: prod.splits sum.splits pyerr.splits)

lemma create_grows:
  assumes "db_ok db" "doc_ok d"
  shows "grows_ok (d_slug d) db (snd (create d db))"
proof (cases "fst (create_in_txn d db)")
  case (Inl e)
  then show ?thesis
    by (cases "create_in_txn d db") (simp add: create_def write_txn_def grows_ok_refl[OF assms(1)])
next
  case (Inr u)
  then obtain db' where c: "create_in_txn d db = (Inr (), db')" by (cases "create_in_txn d db") auto
  then show ?thesis
    using insert_plan_grows[OF assms] c unfolding create_in_txn_Inr by (simp add: create_def write_txn_def c)
qed

section \<open>Every operation as a step\<close>

datatype store_op =
    OpHeartbeat int string string string
  | OpActivity bool int string string string string
  | OpStampClaim string string obj "string option" "string option" "obj list"
  | OpAppendEvents string "obj list" "string option" "string option"
  | OpReleaseClaim string "string option" "string option" "obj list"
  | OpStampAttestation int string "string option" "string option" string string "obj list"
  | OpRefuseAttestation int string string string string
  | OpExtendLease int string string int
  | OpAddBlocker int string string string "string list" string string "string option" "string option"
  | OpAnswerBlocker int string string string
  | OpStampMetadata string string string obj
  | OpSpawnTask int string obj string "string option" "string option"
  | OpCompleteTask int string string "string option" "string option" "obj list"
  | OpSetStatus string string "obj list" "string option" "string option"
  | OpSetFields string obj "string list" "obj list"
  | OpSetWorktree string jval "obj list"
  | OpArchive int string
  | OpTick int string string tick_pre tick_delta
  | OpCreate doc

text \<open>The database an operation leaves behind.\<close>

fun run_op :: "store_op \<Rightarrow> pdb \<Rightarrow> pdb" where
  "run_op (OpHeartbeat now s t p) db = snd (op_heartbeat now s t p db)"
| "run_op (OpActivity busy now s t p a) db = snd (op_activity busy now s t p a db)"
| "run_op (OpStampClaim s t f p u e) db = snd (op_stamp_claim_fields s t f p u e db)"
| "run_op (OpAppendEvents s e t p) db = snd (op_append_events s e t p db)"
| "run_op (OpReleaseClaim s t p e) db = snd (op_release_claim s t p e db)"
| "run_op (OpStampAttestation now s t p k sha e) db = snd (op_stamp_attestation now s t p k sha e db)"
| "run_op (OpRefuseAttestation now s p g sha) db = snd (op_refuse_attestation now s p g sha db)"
| "run_op (OpExtendLease now s p m) db = snd (op_extend_lease now s p m db)"
| "run_op (OpAddBlocker now s p q os c ty rt rp) db = snd (op_add_blocker now s p q os c ty rt rp db)"
| "run_op (OpAnswerBlocker now s b a) db = snd (op_answer_blocker now s b a db)"
| "run_op (OpStampMetadata s b ch m) db = snd (op_stamp_blocker_metadata s b ch m db)"
| "run_op (OpSpawnTask now s t st tk p) db = snd (op_spawn_task now s t st tk p db)"
| "run_op (OpCompleteTask now s t tk p e) db = snd (op_complete_task now s t tk p e db)"
| "run_op (OpSetStatus s st e rt rp) db = snd (op_set_status s st e rt rp db)"
| "run_op (OpSetFields s f r e) db = snd (op_set_fields s f r e db)"
| "run_op (OpSetWorktree s w e) db = snd (op_set_worktree s w e db)"
| "run_op (OpArchive now s) db = snd (op_archive_events now s db)"
| "run_op (OpTick now fresh s pre dl) db = snd (apply_tick_delta now fresh s pre dl db)"
| "run_op (OpCreate d) db = snd (create d db)"

fun op_slug :: "store_op \<Rightarrow> string" where
  "op_slug (OpHeartbeat now s t p) = s"
| "op_slug (OpActivity busy now s t p a) = s"
| "op_slug (OpStampClaim s t f p u e) = s"
| "op_slug (OpAppendEvents s e t p) = s"
| "op_slug (OpReleaseClaim s t p e) = s"
| "op_slug (OpStampAttestation now s t p k sha e) = s"
| "op_slug (OpRefuseAttestation now s p g sha) = s"
| "op_slug (OpExtendLease now s p m) = s"
| "op_slug (OpAddBlocker now s p q os c ty rt rp) = s"
| "op_slug (OpAnswerBlocker now s b a) = s"
| "op_slug (OpStampMetadata s b ch m) = s"
| "op_slug (OpSpawnTask now s t st tk p) = s"
| "op_slug (OpCompleteTask now s t tk p e) = s"
| "op_slug (OpSetStatus s st e rt rp) = s"
| "op_slug (OpSetFields s f r e) = s"
| "op_slug (OpSetWorktree s w e) = s"
| "op_slug (OpArchive now s) = s"
| "op_slug (OpTick now fresh s pre dl) = s"
| "op_slug (OpCreate d) = d_slug d"

text \<open>The arguments are the dictionaries Python can build.\<close>

fun op_args_ok :: "store_op \<Rightarrow> bool" where
  "op_args_ok (OpStampClaim s t f p u e) = distinct (map fst f)"
| "op_args_ok (OpTick now fresh s pre dl) = delta_ok dl"
| "op_args_ok (OpCreate d) = doc_ok d"
| "op_args_ok _ = True"

lemmas op_steps = op_heartbeat_step op_activity_step op_stamp_claim_fields_step op_append_events_step
  op_release_claim_step op_stamp_attestation_step op_refuse_attestation_step op_extend_lease_step
  op_add_blocker_step op_answer_blocker_step op_stamp_blocker_metadata_step op_spawn_task_step
  op_complete_task_step op_set_status_step op_set_fields_step op_set_worktree_step op_archive_events_step
  apply_tick_delta_step

lemma run_op_grows: "db_ok db \<Longrightarrow> op_args_ok op \<Longrightarrow> grows_ok (op_slug op) db (run_op op db)"
  by (cases op) (simp_all add: op_steps[THEN step_ok_grows] create_grows)

inductive db_step :: "pdb \<Rightarrow> pdb \<Rightarrow> bool" where
  run: "op_args_ok op \<Longrightarrow> db_step db (run_op op db)"

inductive_cases db_stepE: "db_step db db'"

lemma empty_db_ok: "db_ok empty_db"
  by (simp add: db_ok_def empty_db_def plans_ok_def claims_ok_def keys_ok_def events_ok_def history_def plan_events_def)

section \<open>Contract: an append-only log\<close>

locale append_only_log =
  fixes hist :: "'s \<Rightarrow> 'k \<Rightarrow> 'e list"
    and key :: "'e \<Rightarrow> int"
    and inv :: "'s \<Rightarrow> bool"
    and step :: "'s \<Rightarrow> 's \<Rightarrow> bool"
  assumes step_inv: "inv s \<Longrightarrow> step s s' \<Longrightarrow> inv s'"
    and step_prefix: "inv s \<Longrightarrow> step s s' \<Longrightarrow> prefix (hist s k) (hist s' k)"
    and keys_sorted: "inv s \<Longrightarrow> sorted_wrt (<) (map key (hist s k))"
    and keys_pos: "inv s \<Longrightarrow> e \<in> set (hist s k) \<Longrightarrow> 0 < key e"
begin

lemma steps_inv: "step\<^sup>*\<^sup>* s s' \<Longrightarrow> inv s \<Longrightarrow> inv s'"
  by (induction rule: rtranclp_induct) (auto intro: step_inv)

lemma steps_prefix: "step\<^sup>*\<^sup>* s s' \<Longrightarrow> inv s \<Longrightarrow> prefix (hist s k) (hist s' k)"
proof (induction rule: rtranclp_induct)
  case (step y z)
  then have "inv y" using steps_inv by blast
  then show ?case using step step_prefix prefix_order.trans by blast
qed simp

text \<open>The largest key seen so far separates the old entries from the later ones.\<close>

lemma cursor_separates:
  assumes "step\<^sup>*\<^sup>* s s'" "inv s" "e \<in> set (hist s' k)"
    and c: "c = (if hist s k = [] then 0 else key (last (hist s k)))"
  shows "key e > c \<longleftrightarrow> e \<notin> set (hist s k)"
proof -
  have inv': "inv s'" by (rule steps_inv[OF assms(1,2)])
  from steps_prefix[OF assms(1,2)] obtain new where n: "hist s' k = hist s k @ new" by (auto simp: prefix_def)
  have sorted: "sorted_wrt (<) (map key (hist s k @ new))" using keys_sorted[OF inv', of k] n by simp
  show ?thesis
  proof
    assume gt: "key e > c"
    show "e \<notin> set (hist s k)"
    proof
      assume e: "e \<in> set (hist s k)"
      then obtain i where i: "i < length (hist s k)" "e = hist s k ! i" by (metis in_set_conv_nth)
      moreover from this(1) have l: "last (hist s k) = hist s k ! (length (hist s k) - 1)"
        by (metis last_conv_nth less_nat_zero_code list.size(3))
      ultimately have "key e \<le> key (last (hist s k))"
        using keys_sorted[OF assms(2), of k] unfolding l
        by (cases "i = length (hist s k) - 1") (auto simp: sorted_wrt_iff_nth_less less_imp_le)
      then show False using gt c e by (cases "hist s k") auto
    qed
  next
    assume "e \<notin> set (hist s k)"
    then have e: "e \<in> set new" using assms(3) n by simp
    show "key e > c"
    proof (cases "hist s k = []")
      case True
      then show ?thesis using c keys_pos[OF inv' assms(3)] by simp
    next
      case False
      then have "last (hist s k) \<in> set (hist s k)" by simp
      then show ?thesis using c False e sorted by (auto simp: sorted_wrt_append)
    qed
  qed
qed

end

interpretation store_log: append_only_log history fst db_ok db_step
proof
  fix db db' s
  assume ok: "db_ok db" and st: "db_step db db'"
  from st obtain op where "op_args_ok op" "db' = run_op op db" by (auto elim: db_stepE)
  then have g: "grows_ok (op_slug op) db db'" using run_op_grows[OF ok] by simp
  then show "db_ok db'" by (simp add: grows_ok_def)
  have "history_grows db db' s" using g by (simp add: grows_ok_def)
  then show "prefix (history db s) (history db' s)" by (auto simp: history_grows_def)
next
  fix db s e
  assume ok: "db_ok db"
  then show "sorted_wrt (<) (map fst (history db s))" by (simp add: db_ok_def events_ok_def)
  show "e \<in> set (history db s) \<Longrightarrow> 0 < fst e"
    using ok by (auto simp: db_ok_def events_ok_def history_def entry_of_def plan_events_def)
qed

text \<open>
  C5 The store invariant and the append-only history. From the empty database, any sequence of
  operations, with whatever outcomes, leads to a database that satisfies the invariant, and
  the history of every plan (archive and hot log together) only ever grows at its end: archival,
  releases, ticks and failed operations included.
\<close>

theorem history_append_only:
  assumes "db_step\<^sup>*\<^sup>* empty_db db" and "db_step\<^sup>*\<^sup>* db db'"
  shows "db_ok db' \<and> prefix (history db s) (history db' s)"
proof -
  have ok: "db_ok db" by (rule store_log.steps_inv[OF assms(1) empty_db_ok])
  show ?thesis
    using store_log.steps_inv[OF assms(2) ok] store_log.steps_prefix[OF assms(2) ok] by blast
qed

definition example_db :: pdb where
  "example_db = run_op (OpCreate (empty_state 0 ''w1'' ''plans'')) empty_db"

lemma example_step: "db_step empty_db example_db"
  unfolding example_db_def by (rule db_step.run) (simp add: doc_ok_def empty_state_def)

lemma example_db_ok: "db_ok example_db"
  by (rule store_log.step_inv[OF empty_db_ok example_step])

theorem history_append_only_witness:
  "db_ok (run_op (OpAppendEvents ''w1'' [mk_event 0 EVENT_PAUSED []] None None) example_db) \<and>
   prefix (history example_db ''w1'')
     (history (run_op (OpAppendEvents ''w1'' [mk_event 0 EVENT_PAUSED []] None None) example_db) ''w1'')"
  by (rule history_append_only[OF r_into_rtranclp[of db_step, OF example_step] r_into_rtranclp[of db_step]])
    (rule db_step.run, simp)

definition last_seen :: "pdb \<Rightarrow> string \<Rightarrow> int" where
  "last_seen db slug = (if history db slug = [] then 0 else fst (last (history db slug)))"

text \<open>
  The stream cursor. A reader that remembers the highest id it has seen of a plan's history
  and later asks for the events past it receives exactly the hot events it had not seen: no
  event is replayed and none is skipped, whatever happened in between, archival included.
\<close>

theorem cursor_exact:
  assumes "db_step\<^sup>*\<^sup>* empty_db db" and "db_step\<^sup>*\<^sup>* db db'"
  shows "events_after db' slug (last_seen db slug) =
    map event_from_row (filter (\<lambda>e. entry_of e \<notin> set (history db slug)) (plan_events db' slug))"
proof -
  have ok: "db_ok db" by (rule store_log.steps_inv[OF assms(1) empty_db_ok])
  have "er_id e > last_seen db slug \<longleftrightarrow> entry_of e \<notin> set (history db slug)" if "e \<in> set (plan_events db' slug)" for e
  proof -
    have "entry_of e \<in> set (history db' slug)" using that by (simp add: history_def)
    from store_log.cursor_separates[OF assms(2) ok this refl] show ?thesis
      by (simp add: last_seen_def entry_of_def)
  qed
  then have "filter (\<lambda>e. er_id e > last_seen db slug) (plan_events db' slug)
      = filter (\<lambda>e. entry_of e \<notin> set (history db slug)) (plan_events db' slug)"
    by (rule filter_cong[OF refl])
  then show ?thesis by (simp add: events_after_def)
qed

theorem cursor_exact_witness:
  "events_after (run_op (OpAppendEvents ''w1'' [mk_event 0 EVENT_PAUSED []] None None) example_db) ''w1''
     (last_seen example_db ''w1'') =
   map event_from_row (filter (\<lambda>e. entry_of e \<notin> set (history example_db ''w1''))
     (plan_events (run_op (OpAppendEvents ''w1'' [mk_event 0 EVENT_PAUSED []] None None) example_db) ''w1''))"
  by (rule cursor_exact[OF r_into_rtranclp[of db_step, OF example_step] r_into_rtranclp[of db_step]])
    (rule db_step.run, simp)

text \<open>
  Operations on one plan do not touch another. Whatever an operation on a plan does, every
  other plan keeps its head row, claim, blockers, tasks, events and history.
\<close>

theorem other_plans_untouched:
  assumes "db_ok db" and "op_args_ok op" and "s \<noteq> op_slug op"
  shows "same_plan s db (run_op op db)"
  using run_op_grows[OF assms(1,2)] assms(3) by (simp add: grows_ok_def)

theorem other_plans_untouched_witness:
  "same_plan ''w1'' example_db (run_op (OpAppendEvents ''w2'' [mk_event 0 EVENT_PAUSED []] None None) example_db)"
  by (rule other_plans_untouched[OF example_db_ok]) simp_all

section \<open>Contract: mutual exclusion by claim tokens\<close>

text \<open>A sequence of calls, each with its own token and phase; the accepted ones are returned.\<close>

fun run_calls ::
    "('op \<Rightarrow> 'k \<Rightarrow> 't \<Rightarrow> 'p \<Rightarrow> 's \<Rightarrow> ('e + 'r) \<times> 's) \<Rightarrow> 'k \<Rightarrow> ('op \<times> 't \<times> 'p) list \<Rightarrow> 's \<Rightarrow> ('op \<times> 't \<times> 'p) list \<times> 's" where
  "run_calls run k [] s = ([], s)"
| "run_calls run k ((op, t, p) # cs) s =
     (case run op k t p s of
        (Inl e, s') \<Rightarrow> run_calls run k cs s'
      | (Inr r, s') \<Rightarrow> (case run_calls run k cs s' of (acc, s'') \<Rightarrow> ((op, t, p) # acc, s'')))"

locale token_guarded =
  fixes holder :: "'s \<Rightarrow> 'k \<Rightarrow> ('h \<times> 'h) option"
    and tok :: "'t \<Rightarrow> 'h" and ph :: "'p \<Rightarrow> 'h"
    and inv :: "'s \<Rightarrow> bool"
    and run :: "'op \<Rightarrow> 'k \<Rightarrow> 't \<Rightarrow> 'p \<Rightarrow> 's \<Rightarrow> ('e + 'r) \<times> 's"
  assumes inj_tok: "inj tok" and inj_ph: "inj ph"
    and run_inv: "inv s \<Longrightarrow> inv (snd (run op k t p s))"
    and refused: "inv s \<Longrightarrow> holder s k \<noteq> Some (tok t, ph p) \<Longrightarrow> \<exists>e. run op k t p s = (Inl e, s)"
    and no_new_claim: "inv s \<Longrightarrow> holder (snd (run op k t p s)) k = holder s k \<or> holder (snd (run op k t p s)) k = None"
begin

lemma accepted_holds: "inv s \<Longrightarrow> run op k t p s = (Inr r, s') \<Longrightarrow> holder s k = Some (tok t, ph p)"
proof (rule ccontr)
  assume "inv s" "run op k t p s = (Inr r, s')" "holder s k \<noteq> Some (tok t, ph p)"
  then show False using refused[of s k t p op] by auto
qed

lemma calls_by_holder:
  "inv s \<Longrightarrow> run_calls run k cs s = (acc, s') \<Longrightarrow> (op, t, p) \<in> set acc \<Longrightarrow> holder s k = Some (tok t, ph p)"
proof (induction cs arbitrary: s acc s' op t p)
  case (Cons c cs s acc s' op t p)
  obtain op1 t1 p1 where c: "c = (op1, t1, p1)" by (cases c)
  obtain r1 s1 where r1: "run op1 k t1 p1 s = (r1, s1)" by (cases "run op1 k t1 p1 s")
  have inv1: "inv s1" and h1: "holder s1 k = holder s k \<or> holder s1 k = None"
    using run_inv[OF Cons.prems(1)] no_new_claim[OF Cons.prems(1)] r1 by (metis snd_conv)+
  obtain acc1 s2 where rest: "run_calls run k cs s1 = (acc1, s2)" by (cases "run_calls run k cs s1")
  have later: "holder s k = Some (tok t', ph p')" if "(op', t', p') \<in> set acc1" for op' t' p'
    using Cons.IH[OF inv1 rest] that h1 by (metis option.distinct(1))
  show ?case
  proof (cases r1)
    case (Inl e)
    then show ?thesis using Cons.prems(2,3) c r1 rest later by (simp split: prod.splits)
  next
    case (Inr x)
    then have "(op, t, p) = (op1, t1, p1) \<or> (op, t, p) \<in> set acc1"
      using Cons.prems(2,3) c r1 rest by auto
    then show ?thesis using accepted_holds[OF Cons.prems(1)] r1 Inr later by blast
  qed
qed simp

lemma no_claim_no_effect:
  "inv s \<Longrightarrow> holder s k = None \<Longrightarrow> run_calls run k cs s = ([], s)"
proof (induction cs)
  case (Cons c cs)
  obtain op t p where c: "c = (op, t, p)" by (cases c)
  obtain e where "run op k t p s = (Inl e, s)" using refused[OF Cons.prems(1), of k t p op] Cons.prems(2) by auto
  then show ?case using Cons c by simp
qed simp

end

text \<open>The calls a worker makes with its token (\<open>clu heartbeat\<close>, the activity hook, \<open>clu block\<close>, ...).\<close>

datatype worker_op =
    WHeartbeat int
  | WActivityStart int
  | WActivityEnd int
  | WStamp obj "string option" "obj list"
  | WAppend "obj list"
  | WRelease "obj list"
  | WAttest int string string "obj list"
  | WBlock int string "string list" string string
  | WSpawn int obj string
  | WTaskDone int string "obj list"

definition discard :: "'a txn \<Rightarrow> unit txn" where
  "discard m = andthen m (\<lambda>_. ret ())"

fun run_worker :: "worker_op \<Rightarrow> string \<Rightarrow> string \<Rightarrow> string \<Rightarrow> unit txn" where
  "run_worker (WHeartbeat now) s t p = discard (op_heartbeat now s t p)"
| "run_worker (WActivityStart now) s t p = discard (op_activity False now s t p ''start'')"
| "run_worker (WActivityEnd now) s t p = discard (op_activity False now s t p ''end'')"
| "run_worker (WStamp f u e) s t p = discard (op_stamp_claim_fields s t (dwithout [''claimed_by'', ''phase_id''] (dupd [] f)) (Some p) u e)"
| "run_worker (WAppend e) s t p = discard (op_append_events s e (Some t) (Some p))"
| "run_worker (WRelease e) s t p = discard (op_release_claim s (Some t) (Some p) e)"
| "run_worker (WAttest now k sha e) s t p = discard (op_stamp_attestation now s (Some t) (Some p) k sha e)"
| "run_worker (WBlock now q os ctx ty) s t p = discard (op_add_blocker now s p q os ctx ty (Some t) (Some p))"
| "run_worker (WSpawn now task st) s t p = discard (op_spawn_task now s task st (Some t) (Some p))"
| "run_worker (WTaskDone now task e) s t p = discard (op_complete_task now s task (Some t) (Some p) e)"

subsection \<open>A stale or forged token changes nothing\<close>

definition refuses :: "string \<Rightarrow> string \<Rightarrow> string \<Rightarrow> 'a txn \<Rightarrow> bool" where
  "refuses slug t p m \<longleftrightarrow>
     (\<forall>db. db_ok db \<and> holder db slug \<noteq> Some (JStr t, JStr p) \<longrightarrow> (\<exists>e db'. m db = (Inl e, db')))"

lemma cas_row_holder:
  "claim_row_of db slug = Some r \<Longrightarrow> cas_row t (Some p) r \<Longrightarrow> holder db slug = Some (JStr t, JStr p)"
  by (simp add: cas_row_def holder_def)

lemma refuses_require [intro]: "refuses slug t p (require_token slug t (Some p))"
  by (auto simp: refuses_def require_token_def dest: cas_row_holder split: option.split)

lemma refuses_andthen [intro]: "refuses slug t p m \<Longrightarrow> refuses slug t p (andthen m f)"
  by (fastforce simp: refuses_def andthen_def)

lemma refuses_check [intro]: "refuses slug t p (check_token slug (Some t) (Some p))"
  by (auto simp: check_token_def)

lemma refuses_cas [intro]:
  "refuses slug t p (\<lambda>db. case cas_update slug t p cols db of (n, db') \<Rightarrow>
        if n = 0 then (Inl (claim_mismatch db' slug tk ph), db') else (Inr x, db'))"
  by (auto simp: refuses_def cas_update_def dest: cas_row_holder split: option.split)

lemma read_claim_identity:
  assumes "db_ok db"
  shows "claim_identity (read_claim db slug) = holder db slug"
proof (cases "claim_row_of db slug")
  case (Some r)
  have ok: "claim_row_ok r" by (rule db_ok_claim_row[OF assms Some])
  have i: "''claimed_by'' \<in> set CLAIM_SCALARS" "''phase_id'' \<in> set CLAIM_SCALARS"
    by (simp_all add: CLAIM_SCALARS_def)
  then have "jget (read_claim_row r) c = scalar_of (r c)" if "c \<in> {''claimed_by'', ''phase_id''}" for c
    using that ok unfolding jget_def read_claim_row_ok[OF ok]
    by (cases "r c") (auto simp: claim_row_ok_def)
  then show ?thesis using Some by (simp add: claim_identity_def read_claim_def claim_row_of_def holder_def)
qed (simp add: claim_identity_def read_claim_def claim_row_of_def holder_def)

lemma refuses_release [intro]: "refuses slug t p (release_in_txn slug (Some t) (Some p))"
proof -
  have "\<exists>e db'. release_in_txn slug (Some t) (Some p) db = (Inl e, db')"
    if "db_ok db" "holder db slug \<noteq> Some (JStr t, JStr p)" for db
    using that(2) unfolding read_claim_identity[OF that(1), symmetric]
    by (cases "read_claim db slug") (auto simp: release_in_txn_def claim_identity_def)
  then show ?thesis by (simp add: refuses_def)
qed

lemma refuses_plan_txn:
  assumes "refuses slug t p m" "db_ok db" "holder db slug \<noteq> Some (JStr t, JStr p)"
  shows "\<exists>e. plan_txn slug m db = (Inl e, db)"
proof (cases "plan_txn slug m db")
  case (Pair r db')
  show ?thesis
  proof (cases r)
    case (Inl e)
    then show ?thesis using Pair plan_txn_Inl by fastforce
  next
    case (Inr x)
    let ?db = "update_plan slug bump_version db"
    have m: "m ?db = (Inr x, db')" using Pair Inr by (simp add: plan_txn_Inr)
    have "db_ok ?db"
      by (rule step_ok_db_ok[OF update_plan_step[OF assms(2)]]) (auto simp: plan_row_ok_def bump_version_def)
    moreover have "holder ?db slug \<noteq> Some (JStr t, JStr p)" using assms(3) by simp
    ultimately obtain e db2 where "m ?db = (Inl e, db2)" using assms(1) unfolding refuses_def by blast
    then show ?thesis using m by simp
  qed
qed

lemma discard_Inl: "m db = (Inl e, db') \<Longrightarrow> discard m db = (Inl e, db')"
  by (simp add: discard_def andthen_def)

lemma refuses_activity:
  assumes "db_ok db" "holder db slug \<noteq> Some (JStr t, JStr p)" "a = ''start'' \<or> a = ''end''"
  shows "\<exists>e. op_activity False now slug t p a db = (Inl e, db)"
proof -
  let ?flds = "[(''active_tool_started_at'', iso now), (''cpu_samples'', JList []),
                 (''worker_idle_notified'', JBool False), (''worker_idle_notified_at'', JNull)]"
  let ?upd = "\<lambda>cols db. let (n, db') = cas_update slug t p cols db
      in if n = 0 then (Inl (claim_mismatch db' slug (JStr t) (Some p)), db') else (Inr True, db')"
  let ?cols = "if a = ''end'' then ret [(''active_tool_started_at'', SNull)]
      else andthen (require_token slug t (Some p)) (\<lambda>r. ret (claim_assignments r ?flds))"
  have "andthen (ret c) ?upd = ?upd c" for c by (simp add: andthen_def ret_def)
  then have "refuses slug t p (andthen ?cols ?upd)" using assms(3) by auto
  from refuses_plan_txn[OF this assms(1,2)] obtain e
    where e: "plan_txn slug (andthen ?cols ?upd) db = (Inl e, db)" by blast
  have "e \<noteq> DbBusy"
  proof
    assume "e = DbBusy"
    with e show False
      using assms(3) by (auto simp: plan_txn_def validate_slug_def guard_res_def write_txn_def andthen_def bump_def
          ret_def require_token_def cas_update_def claim_mismatch_def Let_def split: if_splits option.splits)
  qed
  then show ?thesis using e assms(3) by (cases e) (auto simp: op_activity_def locked_def)
qed

lemma worker_refused:
  assumes ok: "db_ok db" "holder db slug \<noteq> Some (JStr t, JStr p)"
  shows "\<exists>e. run_worker op slug t p db = (Inl e, db)"
proof -
  have d: "(\<exists>e. m db = (Inl e, db)) \<Longrightarrow> (\<exists>e. discard m db = (Inl e, db))" for m :: "'b txn"
    by (auto intro: discard_Inl)
  note r = refuses_plan_txn[OF _ ok]
  show ?thesis
    by (cases op; simp; rule d)
      (auto intro!: refuses_activity[OF ok] r simp: op_heartbeat_def op_stamp_claim_fields_def op_append_events_def
        op_release_claim_def op_stamp_attestation_def op_add_blocker_def op_spawn_task_def op_complete_task_def)
qed

subsection \<open>No worker call installs a claim\<close>

definition keeps_holder :: "string \<Rightarrow> 'a txn \<Rightarrow> bool" where
  "keeps_holder slug m \<longleftrightarrow>
     (\<forall>db. holder (snd (m db)) slug = holder db slug \<or> holder (snd (m db)) slug = None)"

named_theorems holder_intros \<open>statements that install no claim\<close>

lemma keeps_holderI: "(\<And>db. holder (snd (m db)) slug = holder db slug \<or> holder (snd (m db)) slug = None) \<Longrightarrow> keeps_holder slug m"
  by (simp add: keeps_holder_def)

lemma kh_ret [holder_intros]: "keeps_holder slug (ret x)" and kh_query [holder_intros]: "keeps_holder slug (query f)"
  by (simp_all add: keeps_holder_def ret_def query_def)

lemma kh_andthen [holder_intros]:
  assumes "keeps_holder slug m" "\<And>x. keeps_holder slug (f x)"
  shows "keeps_holder slug (andthen m f)"
proof (rule keeps_holderI)
  fix db
  obtain r db1 where m: "m db = (r, db1)" by (cases "m db")
  have 1: "holder db1 slug = holder db slug \<or> holder db1 slug = None"
    using assms(1) m by (metis keeps_holder_def snd_conv)
  show "holder (snd (andthen m f db)) slug = holder db slug \<or> holder (snd (andthen m f db)) slug = None"
  proof (cases r)
    case (Inl e)
    then show ?thesis using 1 m by (simp add: andthen_def)
  next
    case (Inr x)
    have "holder (snd (f x db1)) slug = holder db1 slug \<or> holder (snd (f x db1)) slug = None"
      using assms(2) by (simp add: keeps_holder_def)
    then show ?thesis using 1 m Inr by (auto simp: andthen_def)
  qed
qed

lemma kh_if [holder_intros]: "keeps_holder slug m \<Longrightarrow> keeps_holder slug m' \<Longrightarrow> keeps_holder slug (if b then m else m')"
  by simp

lemma kh_plan_txn [holder_intros]:
  assumes "keeps_holder slug m"
  shows "keeps_holder slug (plan_txn slug m)"
proof (rule keeps_holderI)
  fix db
  show "holder (snd (plan_txn slug m db)) slug = holder db slug \<or> holder (snd (plan_txn slug m db)) slug = None"
  proof (cases "plan_txn slug m db")
    case (Pair r db')
    show ?thesis
    proof (cases r)
      case (Inl e)
      then show ?thesis using Pair plan_txn_Inl by fastforce
    next
      case (Inr x)
      then have "m (update_plan slug bump_version db) = (Inr x, db')" using Pair by (simp add: plan_txn_Inr)
      then show ?thesis using assms Pair by (metis keeps_holder_def reads_after_bump(3) snd_conv)
    qed
  qed
qed

lemma kh_events [holder_intros]: "keeps_holder slug (modify (insert_events slug evs))"
  by (simp add: keeps_holder_def modify_def holder_def claim_row_of_def)

lemma kh_require [holder_intros]: "keeps_holder slug (require_token slug t p)"
  by (rule keeps_holderI) (auto simp: require_token_def split: option.split)

lemma kh_check [holder_intros]: "keeps_holder slug (check_token slug t p)"
  by (cases t) (auto simp: check_token_def intro: holder_intros)

lemma kh_release [holder_intros]: "keeps_holder slug (release_in_txn slug t p)"
  by (rule keeps_holderI) (auto simp: release_in_txn_def Let_def delete_claim_def holder_def claim_row_of_def)

definition spares_identity :: "(string \<times> sqlv) list \<Rightarrow> bool" where
  "spares_identity cols \<longleftrightarrow> map_of cols ''claimed_by'' = None \<and> map_of cols ''phase_id'' = None"

lemma holder_update_claim:
  "spares_identity cols \<Longrightarrow> holder (update_claim slug cols db) slug = holder db slug"
  by (cases "map_of (t_claims db) slug")
    (simp_all add: holder_def claim_row_of_def update_claim_def map_of_map_entry spares_identity_def)

lemma kh_cas [holder_intros]:
  "spares_identity cols \<Longrightarrow> keeps_holder slug (\<lambda>db. case cas_update slug t p cols db of (n, db') \<Rightarrow>
     if n = 0 then (Inl (claim_mismatch db' slug tk ph), db') else (Inr x, db'))"
  by (rule keeps_holderI) (auto simp: cas_update_def holder_update_claim split: option.split)

lemma holder_other_tables [simp]:
  "holder (db\<lparr>t_blockers := b\<rparr>) s = holder db s" "holder (db\<lparr>t_tasks := b\<rparr>) s = holder db s"
  "holder (insert_events slug evs db) s = holder db s" "holder (update_tasks P cols db) s = holder db s"
  by (simp_all add: holder_def claim_row_of_def update_tasks_def)

lemma kh_write_blockers [holder_intros]: "keeps_holder slug (write_blockers slug bs)"
proof (rule keeps_holderI, rule disjI1)
  show "holder (snd (write_blockers slug bs db)) slug = holder db slug" for db
    by (induction bs arbitrary: db) simp_all
qed

lemma kh_write_tasks [holder_intros]: "keeps_holder slug (write_tasks slug ts)"
proof (rule keeps_holderI, rule disjI1)
  show "holder (snd (write_tasks slug ts db)) slug = holder db slug" for db
    by (induction ts arbitrary: db) simp_all
qed

lemma spares_assignments:
  assumes "distinct (map fst flds)" "dget flds ''claimed_by'' = None" "dget flds ''phase_id'' = None"
  shows "spares_identity (claim_assignments r flds)"
  using assms by (simp add: spares_identity_def claim_assignments_get)

lemma kh_discard [holder_intros]: "keeps_holder slug m \<Longrightarrow> keeps_holder slug (discard m)"
  by (simp add: discard_def kh_andthen kh_ret)

lemma kh_activity: "keeps_holder slug (op_activity False now slug t p a)"
proof -
  let ?flds = "[(''active_tool_started_at'', iso now), (''cpu_samples'', JList []),
                 (''worker_idle_notified'', JBool False), (''worker_idle_notified_at'', JNull)]"
  let ?upd = "\<lambda>cols db. let (n, db') = cas_update slug t p cols db
      in if n = 0 then (Inl (claim_mismatch db' slug (JStr t) (Some p)), db') else (Inr True, db')"
  have s: "keeps_holder slug (?upd (claim_assignments r ?flds))" for r
    unfolding Let_def by (intro kh_cas spares_assignments) simp_all
  have e: "keeps_holder slug (?upd [(''active_tool_started_at'', SNull)])"
    unfolding Let_def by (intro kh_cas) (simp add: spares_identity_def)
  have "andthen (ret c) ?upd = ?upd c" for c by (simp add: andthen_def ret_def)
  moreover have "andthen (andthen (require_token slug t (Some p)) (\<lambda>r. ret (claim_assignments r ?flds))) ?upd
      = andthen (require_token slug t (Some p)) (\<lambda>r. ?upd (claim_assignments r ?flds))"
    by (auto simp: andthen_def ret_def fun_eq_iff split: prod.split sum.split)
  ultimately have "keeps_holder slug (andthen (if a = ''end'' then ret [(''active_tool_started_at'', SNull)]
      else andthen (require_token slug t (Some p)) (\<lambda>r. ret (claim_assignments r ?flds))) ?upd)"
    using s e by (auto intro!: kh_andthen kh_require)
  then have "keeps_holder slug (plan_txn slug (andthen (if a = ''end'' then ret [(''active_tool_started_at'', SNull)]
      else andthen (require_token slug t (Some p)) (\<lambda>r. ret (claim_assignments r ?flds))) ?upd))"
    by (rule kh_plan_txn)
  then show ?thesis
    by (cases "a = ''end''") (simp_all add: op_activity_def locked_def keeps_holder_def snd_drop_busy)
qed

lemma kh_stamp:
  assumes "distinct (map fst flds)" "dget flds ''claimed_by'' = None" "dget flds ''phase_id'' = None"
  shows "keeps_holder slug (op_stamp_claim_fields slug t flds p u evs)"
proof -
  have "keeps_holder slug (modify (\<lambda>db. insert_events slug evs (update_claim slug (claim_assignments r flds) db)))" for r
    by (rule keeps_holderI) (simp add: modify_def holder_update_claim spares_assignments[OF assms])
  then show ?thesis unfolding op_stamp_claim_fields_def by (intro holder_intros)
qed

lemma worker_keeps_holder: "keeps_holder slug (run_worker op slug t p)"
proof (cases op)
  case (WStamp f u e)
  have "keeps_holder slug (op_stamp_claim_fields slug t (dwithout [''claimed_by'', ''phase_id''] (dupd [] f)) (Some p) u e)"
    by (rule kh_stamp) (simp_all add: distinct_dwithout distinct_dupd map_of_dwithout)
  then show ?thesis using WStamp by (simp add: kh_discard)
next
  case (WAttest now k sha e)
  have "keeps_holder slug (op_stamp_attestation now slug (Some t) (Some p) k sha e)"
    unfolding op_stamp_attestation_def
    by (intro holder_intros keeps_holderI)
      (auto simp: holder_update_claim spares_identity_def split: option.split)
  then show ?thesis using WAttest by (simp add: kh_discard)
next
  case (WTaskDone now task e)
  have "keeps_holder slug (op_complete_task now slug task (Some t) (Some p) e)"
    unfolding op_complete_task_def
    by (intro holder_intros keeps_holderI) (auto split: option.split)
  then show ?thesis using WTaskDone by (simp add: kh_discard)
next
  case (WHeartbeat now)
  have "keeps_holder slug (op_heartbeat now slug t p)"
    unfolding op_heartbeat_def Let_def by (intro kh_plan_txn kh_cas) (simp add: spares_identity_def)
  then show ?thesis using WHeartbeat by (simp add: kh_discard)
qed (auto intro!: kh_discard kh_activity holder_intros
      simp: op_append_events_def op_release_claim_def op_add_blocker_def op_spawn_task_def)

lemma worker_step: "db_ok db \<Longrightarrow> db_ok (snd (run_worker op slug t p db))"
proof -
  assume ok: "db_ok db"
  have d: "snd (discard m db) = snd (m db)" for m :: "'b txn"
    by (auto simp: discard_def andthen_def ret_def split: prod.split sum.split)
  show ?thesis
    by (cases op) (use op_steps[OF ok, THEN step_ok_db_ok] in
        \<open>simp_all add: d op_stamp_claim_fields_step[OF ok, THEN step_ok_db_ok] distinct_dwithout distinct_dupd\<close>)
qed

interpretation store_claims: token_guarded holder JStr JStr db_ok run_worker
proof
  show "inj JStr" by (simp add: inj_def)
  show "db_ok db \<Longrightarrow> db_ok (snd (run_worker op k t p db))" for db op k t p by (rule worker_step)
  show "db_ok db \<Longrightarrow> holder db k \<noteq> Some (JStr t, JStr p) \<Longrightarrow> \<exists>e. run_worker op k t p db = (Inl e, db)" for db op k t p
    by (rule worker_refused)
  show "holder (snd (run_worker op k t p db)) k = holder db k \<or> holder (snd (run_worker op k t p db)) k = None" for db op k t p
    using worker_keeps_holder by (simp add: keeps_holder_def)
qed

text \<open>
  C6 One claim, one token. In any sequence of worker calls on a plan, in any interleaving of
  any number of workers, every call that is accepted carries the token and the phase of the
  claim that was live at the start; so calls of two different tokens are never both accepted.
  A call without that token raises and leaves the whole database as it was.
\<close>

theorem worker_calls_one_token:
  assumes "db_ok db" and "run_calls run_worker slug calls db = (accepted, db')"
  shows "(\<forall>(op, t, p)\<in>set accepted. holder db slug = Some (JStr t, JStr p))
    \<and> (\<forall>op t p. holder db slug \<noteq> Some (JStr t, JStr p) \<longrightarrow> (\<exists>e. run_worker op slug t p db = (Inl e, db)))"
  using store_claims.calls_by_holder[OF assms] store_claims.refused[OF assms(1)] by auto

section \<open>The native operation refines the domain function\<close>

lemma assert_claim_match_row:
  assumes "db_ok db"
  shows "assert_claim_match (read_claim db slug) t p =
    (if holder db slug = Some (JStr t, JStr p) then Inr ()
     else Inl (claim_mismatch db slug (JStr t) (Some p)))"
proof (cases "claim_row_of db slug")
  case None
  then show ?thesis
    by (simp add: assert_claim_match_def read_claim_def claim_row_of_def holder_def claim_mismatch_def)
next
  case (Some r)
  have "claim_identity (read_claim db slug) = holder db slug" by (rule read_claim_identity[OF assms])
  then have j: "jget (read_claim_row r) ''claimed_by'' = scalar_of (r ''claimed_by'')"
    "jget (read_claim_row r) ''phase_id'' = scalar_of (r ''phase_id'')"
    using Some by (simp_all add: claim_identity_def read_claim_def claim_row_of_def holder_def)
  have d: "dget (read_claim_row r) k \<noteq> Some (JStr x) \<longleftrightarrow> jget (read_claim_row r) k \<noteq> JStr x" for k x
    by (auto simp: jget_def split: option.splits)
  show ?thesis
    using Some by (simp add: assert_claim_match_def read_claim_def claim_row_of_def d j holder_def claim_mismatch_def)
qed

lemma holder_cas:
  assumes "db_ok db" "claim_row_of db slug = Some r"
  shows "cas_row t (Some p) r \<longleftrightarrow> holder db slug = Some (JStr t, JStr p)"
proof -
  have ok: "claim_row_ok r" by (rule db_ok_claim_row[OF assms])
  have "c \<in> set CLAIM_SCALARS \<Longrightarrow> r c = SVal (JStr x) \<longleftrightarrow> scalar_of (r c) = JStr x" for c x
    using ok by (cases "r c") (auto simp: claim_row_ok_def)
  then show ?thesis using assms(2) by (simp add: cas_row_def holder_def CLAIM_SCALARS_def)
qed

text \<open>
  The one-row heartbeat refines the heartbeat of the plan document. On a stored plan the
  native operation answers exactly what \<open>record_heartbeat\<close> answers on the loaded document, the
  same exception with the same fields included; when it succeeds the claim reads back as the
  document's updated claim and the event history is the same; when it fails nothing changed.
\<close>

theorem heartbeat_refines:
  assumes "db_ok db" and "snapshot db slug = Inr d"
  shows "case record_heartbeat now t p d of
      Inl e \<Rightarrow> op_heartbeat now slug t p db = (Inl e, db)
    | Inr (ts, d') \<Rightarrow> \<exists>db' c c'. op_heartbeat now slug t p db = (Inr ts, db')
        \<and> read_claim db' slug = Some c' \<and> d_claim d' = Some c \<and> (\<forall>k. dget c' k = dget c k)
        \<and> read_events db' slug = d_events d'"
proof -
  from assms(2) have "slug_re_match slug" and snap: "snapshot_in_txn db slug = Inr d"
    by (auto simp: snapshot_def bind_res_Inr)
  from snapshot_in_txn_reads[OF snap] have pl: "has_plan db slug" and d: "d_claim d = read_claim db slug"
    "d_events d = read_events db slug" by auto
  let ?db = "update_plan slug bump_version db"
  note m = assert_claim_match_row[OF assms(1), of slug t p]
  show ?thesis
  proof (cases "holder db slug = Some (JStr t, JStr p)")
    case False
    from worker_refused[OF assms(1) False, of "WHeartbeat now"]
    obtain e where "op_heartbeat now slug t p db = (Inl e, db)"
      by (auto simp: discard_def andthen_def ret_def split: prod.splits sum.splits)
    moreover have "e = claim_mismatch db slug (JStr t) (Some p)"
      using calculation False \<open>slug_re_match slug\<close> pl holder_cas[OF assms(1)]
      by (auto simp: op_heartbeat_def plan_txn_def validate_slug_def guard_res_def write_txn_def andthen_def bump_def
          cas_update_def claim_mismatch_def split: option.splits if_splits)
    ultimately show ?thesis using False by (simp add: record_heartbeat_def d m)
  next
    case True
    then obtain r where r: "claim_row_of db slug = Some r" by (auto simp: holder_def)
    then have cas: "cas_row t (Some p) r" using True holder_cas[OF assms(1)] by simp
    let ?r = "set_cols [(''last_heartbeat_at'', sql_scalar (iso now))] r"
    let ?db' = "update_claim slug [(''last_heartbeat_at'', sql_scalar (iso now))] ?db"
    have op: "op_heartbeat now slug t p db = (Inr (iso now), ?db')"
      unfolding op_heartbeat_def plan_txn_Inr using \<open>slug_re_match slug\<close> pl r cas by (simp add: cas_update_def)
    have rd: "read_claim ?db' slug = Some (read_claim_row ?r)"
      using r by (simp add: read_claim_def update_claim_def map_of_map_entry update_plan_def claim_row_of_def)
    have ok: "claim_row_ok r" by (rule db_ok_claim_row[OF assms(1) r])
    have ok': "claim_row_ok ?r" by (rule set_scalar_ok[OF ok CLAIM_columns(1)])
    have fl: "set_cols [(''last_heartbeat_at'', x)] r ''flags'' = r ''flags''" for x by simp
    have c: "dget (read_claim_row ?r) k = dget (dset ''last_heartbeat_at'' (iso now) (read_claim_row r)) k" for k
      unfolding read_claim_row_ok[OF ok'] update_conv' fun_upd_apply read_claim_row_ok[OF ok] fl
      using CLAIM_columns(1) by (auto simp: set_cols_def iso_def)
    have ev: "read_events ?db' slug = read_events db slug"
      by (simp add: read_events_def plan_events_def update_claim_def update_plan_def)
    have dc: "d_claim d = Some (read_claim_row r)" using d(1) r by (simp add: read_claim_def claim_row_of_def)
    have "assert_claim_match (Some (read_claim_row r)) t p = Inr ()" using m True d(1) dc by simp
    then have "record_heartbeat now t p d = Inr (iso now,
        d\<lparr>d_claim := Some (dset ''last_heartbeat_at'' (iso now) (read_claim_row r))\<rparr>)"
      by (simp add: record_heartbeat_def dc)
    then show ?thesis using op rd c ev d(2) by simp
  qed
qed

end
