(* ===== verification/Store_Examples.thy ===== *)
theory Store_Examples
  imports Store_Steps
begin

text \<open>
  Concrete stores: a plan just created, and one created with a claim its worker holds. They
  show that the situations the store theorems speak of arise from runs of the operations.
\<close>

lemma create_plain:
  assumes "slug_re_match (d_slug d)" "d_blockers d = []" "d_tasks d = []"
  shows "run_op (OpCreate d) empty_db =
    insert_events (d_slug d) (d_events d)
      (write_claim (d_slug d) (d_claim d) (empty_db\<lparr>t_plans := [(d_slug d, head_row d)]\<rparr>))"
  using assms
  by (simp add: create_def write_txn_def create_in_txn_def validate_slug_def guard_res_def insert_plan_def
      Let_def empty_db_def)

definition held_doc :: doc where
  "held_doc = snd (claim_phase 0 ''abc'' ''a'' 30 None (empty_state 0 ''w1'' ''plans''))"

definition held_db :: pdb where
  "held_db = run_op (OpCreate held_doc) empty_db"

lemma held_doc_fields:
  "d_extra held_doc = []"
  "d_slug held_doc = ''w1''" "d_blockers held_doc = []" "d_tasks held_doc = []"
  "d_claim held_doc = Some
     [(''phase_id'', JStr ''a''), (''claimed_by'', JStr ''session-abc''), (''lease_expires'', iso (minutes 30)),
      (''started_at'', iso 0), (''last_heartbeat_at'', iso 0), (''attempts'', JInt 1)]"
  by (simp_all add: held_doc_def claim_phase_def release_if_expired_def empty_state_def append_event_def
      started_count_def Let_def)

lemma w1_slug: "slug_re_match ''w1''"
  by (simp add: slug_eval)

lemma example_reads:
  "has_plan example_db ''w1''" "read_claim example_db ''w1'' = None" "claim_row_of example_db ''w1'' = None"
proof -
  have e: "example_db = insert_events ''w1'' (d_events (empty_state 0 ''w1'' ''plans''))
      (write_claim ''w1'' None (empty_db\<lparr>t_plans := [(''w1'', head_row (empty_state 0 ''w1'' ''plans''))]\<rparr>))"
    unfolding example_db_def using w1_slug by (subst create_plain) (simp_all add: empty_state_def)
  show "has_plan example_db ''w1''" "read_claim example_db ''w1'' = None" "claim_row_of example_db ''w1'' = None"
    by (simp_all add: e read_claim_def claim_row_of_def write_claim_def empty_db_def)
qed

lemma held_reads:
  "has_plan held_db ''w1''" "holder held_db ''w1'' = Some (JStr ''session-abc'', JStr ''a'')"
  "claim_row_of held_db ''w1'' \<noteq> None"
proof -
  have e: "held_db = insert_events ''w1'' (d_events held_doc)
      (write_claim ''w1'' (d_claim held_doc) (empty_db\<lparr>t_plans := [(''w1'', head_row held_doc)]\<rparr>))"
    unfolding held_db_def using w1_slug by (subst create_plain) (simp_all add: held_doc_fields)
  show "has_plan held_db ''w1''" "holder held_db ''w1'' = Some (JStr ''session-abc'', JStr ''a'')"
    "claim_row_of held_db ''w1'' \<noteq> None"
    by (simp_all add: e holder_def claim_row_of_def write_claim_def empty_db_def
        held_doc_fields claim_row_def CLAIM_SCALARS_def jget_def)
qed

lemma held_db_ok: "db_ok held_db"
  unfolding held_db_def
  by (rule store_log.step_inv[OF empty_db_ok db_step.run])
    (simp add: doc_ok_def held_doc_fields)

section \<open>Runs on the example stores\<close>

theorem worker_calls_one_token_witness:
  "\<exists>acc db' e. run_calls run_worker ''w1'' [(WHeartbeat 5, ''session-abc'', ''a''), (WRelease [], ''t2'', ''b'')] held_db
       = (acc, db')
     \<and> (WRelease [], ''t2'', ''b'') \<notin> set acc \<and> run_worker (WRelease []) ''w1'' ''t2'' ''b'' held_db = (Inl e, held_db)"
proof -
  let ?calls = "[(WHeartbeat 5, ''session-abc'', ''a''), (WRelease [], ''t2'', ''b'')]"
  obtain acc db' where r: "run_calls run_worker ''w1'' ?calls held_db = (acc, db')"
    by (cases "run_calls run_worker ''w1'' ?calls held_db")
  note w = worker_calls_one_token[OF held_db_ok r]
  have h: "holder held_db ''w1'' \<noteq> Some (JStr ''t2'', JStr ''b'')" by (simp add: held_reads(2))
  from w h have "(WRelease [], ''t2'', ''b'') \<notin> set acc" by blast
  moreover from w h have "\<exists>e. run_worker (WRelease []) ''w1'' ''t2'' ''b'' held_db = (Inl e, held_db)" by blast
  ultimately show ?thesis using r by blast
qed

theorem heartbeat_refines_witness:
  "\<exists>d db'. snapshot held_db ''w1'' = Inr d \<and> op_heartbeat 5 ''w1'' ''session-abc'' ''a'' held_db = (Inr (iso 5), db')"
proof -
  obtain d where d: "snapshot held_db ''w1'' = Inr d"
    using held_reads(1) w1_slug
    by (auto simp: snapshot_def snapshot_in_txn_def validate_slug_def guard_res_def split: option.splits)
  have "d_claim d = read_claim held_db ''w1''"
    using d by (auto simp: snapshot_def bind_res_Inr dest: snapshot_in_txn_reads)
  then have "record_heartbeat 5 ''session-abc'' ''a'' d =
      Inr (iso 5, d\<lparr>d_claim := map_option (dset ''last_heartbeat_at'' (iso 5)) (d_claim d)\<rparr>)"
    by (simp add: record_heartbeat_def assert_claim_match_row[OF held_db_ok] held_reads(2))
  with heartbeat_refines[OF held_db_ok d, of 5 "''session-abc''" "''a''"] d show ?thesis by auto
qed

definition dispatch_delta :: tick_delta where
  "dispatch_delta = (empty_delta no_pre)\<lparr>dl_claim_phase := Some ''a'', dl_lease_minutes := Some 30\<rparr>"

lemma dispatch_delta_applies:
  "\<exists>db1. apply_tick_delta 0 ''abc'' ''w1'' (no_pre\<lparr>pre_claim := Some None\<rparr>) dispatch_delta example_db
     = (Inr (Some ''session-abc''), db1)"
  using example_reads w1_slug
  by (simp add: apply_tick_delta_def plan_txn_Inr dispatch_delta_def empty_delta_def assert_preconditions_def
      check_claim_def check_claim_fields_def check_events_def check_blockers_def check_status_def no_pre_def
      claim_identity_def claim_in_txn_def claim_phase_def release_if_expired_def scratch_doc_def append_event_def
      Let_def andthen_def ret_def modify_def plan_txn_def write_txn_def validate_slug_def guard_res_def bump_def
      read_claim_def claim_row_of_def update_plan_def)

theorem dispatch_one_winner_witness:
  "\<exists>db1. apply_tick_delta 0 ''abc'' ''w1'' (no_pre\<lparr>pre_claim := Some None\<rparr>) dispatch_delta example_db
       = (Inr (Some ''session-abc''), db1)
     \<and> apply_tick_delta 1 ''def'' ''w1'' (no_pre\<lparr>pre_claim := Some None\<rparr>) dispatch_delta db1
       = (Inl (TickConflict ClaimMoved), db1)"
proof -
  obtain db1 where a: "apply_tick_delta 0 ''abc'' ''w1'' (no_pre\<lparr>pre_claim := Some None\<rparr>) dispatch_delta example_db
     = (Inr (Some ''session-abc''), db1)"
    using dispatch_delta_applies by blast
  have "delta_ok dispatch_delta" by (simp add: delta_ok_def dispatch_delta_def empty_delta_def)
  from dispatch_one_winner[OF example_db_ok this _ a, of "no_pre\<lparr>pre_claim := Some None\<rparr>" 1 "''def''" dispatch_delta] a
  show ?thesis by simp
qed

theorem snapshot_preconditions_hold_witness:
  "\<exists>d obs. snapshot_with_preconditions held_db ''w1'' = Inr (d, obs)
     \<and> pre_claim obs = Some (Some (JStr ''session-abc'', JStr ''a''))
     \<and> assert_preconditions held_db ''w1'' (obs\<lparr>pre_claim_fields := []\<rparr>) = Inr ()"
proof -
  obtain d where d: "snapshot held_db ''w1'' = Inr d"
    using held_reads(1) w1_slug
    by (auto simp: snapshot_def snapshot_in_txn_def validate_slug_def guard_res_def split: option.splits)
  then obtain obs where o1: "snapshot_with_preconditions held_db ''w1'' = Inr (d, obs)"
    by (simp add: snapshot_with_preconditions_def)
  have cl: "d_claim d = read_claim held_db ''w1''"
    using d by (auto simp: snapshot_def bind_res_Inr dest: snapshot_in_txn_reads)
  have "claim_identity (d_claim d) = Some (JStr ''session-abc'', JStr ''a'')"
    using held_reads(2) read_claim_identity[OF held_db_ok] cl by simp
  then have "pre_claim obs = Some (Some (JStr ''session-abc'', JStr ''a''))"
    using o1 d by (auto simp: snapshot_with_preconditions_def)
  moreover have "pre_within (obs\<lparr>pre_claim_fields := []\<rparr>) obs" by (simp add: pre_within_def)
  ultimately show ?thesis using o1 snapshot_preconditions_hold[OF held_db_ok o1, of "obs\<lparr>pre_claim_fields := []\<rparr>"] by blast
qed

theorem heartbeat_disturbs_witness:
  "\<exists>db'. op_heartbeat 5000000 ''w1'' ''session-abc'' ''a'' held_db = (Inr (iso 5000000), db')
     \<and> assert_preconditions db' ''w1'' no_pre = Inr ()
     \<and> (\<exists>c. assert_preconditions db' ''w1'' (no_pre\<lparr>pre_claim_fields := [(''last_heartbeat_at'', iso 0)]\<rparr>)
            = Inl (TickConflict c))"
proof -
  have "cas_row ''session-abc'' (Some ''a'') (the (claim_row_of held_db ''w1''))"
    using held_reads(2,3) holder_cas[OF held_db_ok] by (auto simp: holder_def)
  then obtain db' where a: "op_heartbeat 5000000 ''w1'' ''session-abc'' ''a'' held_db = (Inr (iso 5000000), db')"
    unfolding op_heartbeat_def plan_txn_Inr using held_reads w1_slug by (auto simp: cas_update_def)
  note h = heartbeat_disturbs_only_heartbeat_judgments[OF held_db_ok a]
  have "assert_preconditions held_db ''w1'' no_pre = Inr ()"
    by (simp add: assert_preconditions_def check_claim_def check_claim_fields_def check_events_def
        check_blockers_def check_status_def no_pre_def)
  then have "assert_preconditions db' ''w1'' no_pre = Inr ()"
    using h[of no_pre] by (simp add: no_pre_def)
  moreover have "\<exists>c. assert_preconditions db' ''w1'' (no_pre\<lparr>pre_claim_fields := [(''last_heartbeat_at'', iso 0)]\<rparr>)
            = Inl (TickConflict c)"
    using h[of "no_pre\<lparr>pre_claim_fields := [(''last_heartbeat_at'', iso 0)]\<rparr>"] by (simp add: iso_def usec_def)
  ultimately show ?thesis using a by blast
qed

end
