(* ===== verification/Blockers.thy ===== *)
theory Blockers
  imports Claims
begin

text \<open>
  The blocker dictionary operations of \<open>state.py\<close> and the blocker state machine of
  \<open>state_blocker.py\<close>: asking, answering, the open and the answered-but-unconsumed blockers, and
  the choice of the blockers to ping again. What is sent
  is recorded by its kind and arguments (theory \<open>Notify\<close>); the rendered bodies are in \<open>Message_Text\<close>.
\<close>

section \<open>Asking and answering\<close>

definition add_blocker ::
    "int \<Rightarrow> string \<Rightarrow> string \<Rightarrow> string list \<Rightarrow> string \<Rightarrow> string \<Rightarrow> doc \<Rightarrow> string \<times> doc" where
  "add_blocker now phase_id question options context blocker_type d =
     (let blocker_id = ''q-'' @ show_nat (length (d_blockers d) + 1)
      in (blocker_id,
          append_event now EVENT_PHASE_BLOCKED
            [(''phase'', JStr phase_id), (''blocker_id'', JStr blocker_id), (''question'', JStr question)]
            (d\<lparr>d_blockers := d_blockers d @
               [[(''id'', JStr blocker_id), (''phase_id'', JStr phase_id), (''type'', JStr blocker_type),
                 (''question'', JStr question), (''options'', JList (map JStr options)),
                 (''context'', JStr context), (''asked_at'', iso now), (''answer'', JNull),
                 (''answered_at'', JNull)]]\<rparr>)))"

definition has_id :: "string \<Rightarrow> obj \<Rightarrow> bool" where
  "has_id blocker_id b \<longleftrightarrow> dget b ''id'' = Some (JStr blocker_id)"

definition is_open :: "obj \<Rightarrow> bool" where
  "is_open b \<longleftrightarrow> jget b ''answer'' = JNull"

definition answer_blocker :: "int \<Rightarrow> string \<Rightarrow> string \<Rightarrow> doc \<Rightarrow> doc res" where
  "answer_blocker now blocker_id answer d =
     (if list_ex (\<lambda>b. has_id blocker_id b \<and> is_open b) (d_blockers d)
      then Inr (append_event now EVENT_BLOCKER_ANSWERED
             [(''blocker_id'', JStr blocker_id), (''answer'', JStr answer)]
             (d\<lparr>d_blockers := upd_first (\<lambda>b. has_id blocker_id b \<and> is_open b)
                (\<lambda>b. dset ''answered_at'' (iso now) (dset ''answer'' (JStr answer) b)) (d_blockers d)\<rparr>))
      else Inl (KeyErr (''no unanswered blocker '' @ blocker_id)))"

definition blocker_options :: "obj \<Rightarrow> jval list" where
  "blocker_options b = (case dget b ''options'' of Some (JList vs) \<Rightarrow> vs | _ \<Rightarrow> [])"

definition resolve_blocker_answer :: "string \<Rightarrow> string \<Rightarrow> doc \<Rightarrow> jval" where
  "resolve_blocker_answer blocker_id raw d =
     (if \<not> isdigit raw then JStr raw
      else case find (\<lambda>b. has_id blocker_id b \<and> nat_of_digits raw < length (blocker_options b)) (d_blockers d) of
             None \<Rightarrow> JStr raw
           | Some b \<Rightarrow> blocker_options b ! nat_of_digits raw)"

definition open_blockers :: "doc \<Rightarrow> obj list" where
  "open_blockers d = filter is_open (d_blockers d)"

definition phase_has_open_blocker :: "doc \<Rightarrow> string \<Rightarrow> bool" where
  "phase_has_open_blocker d p \<longleftrightarrow> list_ex (\<lambda>b. dget b ''phase_id'' = Some (JStr p)) (open_blockers d)"

definition get_worktree :: "doc \<Rightarrow> jval option" where
  "get_worktree d = d_worktree d"

text \<open>The git root of the claim; \<open>project_root\<close> is the configured root.\<close>

definition claim_git_root :: "string \<Rightarrow> doc \<Rightarrow> jval" where
  "claim_git_root project_root d =
     (case get_worktree d of
        Some (JObj wt) \<Rightarrow> if dtrue wt ''path'' then jget wt ''path'' else JStr project_root
      | _ \<Rightarrow> JStr project_root)"

section \<open>The state machine\<close>

text \<open>A blocker that has been answered and whose answer no tick has consumed yet.\<close>

definition is_answered :: "obj \<Rightarrow> bool" where
  "is_answered b \<longleftrightarrow> \<not> is_open b \<and> \<not> dtrue b ''consumed''"

definition process_answered_blockers :: "doc \<Rightarrow> (string \<times> string) list \<times> string option" where
  "process_answered_blockers d =
     (let events = map (\<lambda>b. (EVENT_BLOCKER_CONSUMED, sget b ''id'')) (filter is_answered (d_blockers d))
      in (events, if events = [] then None else Some STATUS_RUNNING))"

definition STUCK_BLOCKER_THRESHOLD_MINUTES :: int where
  "STUCK_BLOCKER_THRESHOLD_MINUTES = 30"

definition needs_reping :: "int \<Rightarrow> obj \<Rightarrow> bool" where
  "needs_reping now b =
     (if dtrue b ''consumed'' \<or> \<not> is_open b then False
      else case time_field b ''asked_at'' of
        None \<Rightarrow> False
      | Some created \<Rightarrow>
          if now - created < minutes STUCK_BLOCKER_THRESHOLD_MINUTES then False
          else if dtrue b ''last_repinged_at'' then
            (case time_field b ''last_repinged_at'' of
               None \<Rightarrow> True
             | Some last_pinged \<Rightarrow> now - last_pinged \<ge> minutes STUCK_BLOCKER_THRESHOLD_MINUTES)
          else True)"

text \<open>\<open>stuck_blocker_repings\<close>: the blocker, its phase and its age in minutes.\<close>

definition stuck_blocker_repings :: "int \<Rightarrow> doc \<Rightarrow> (string \<times> string \<times> int) list" where
  "stuck_blocker_repings now d =
     map (\<lambda>b. (sget b ''id'', sget b ''phase_id'',
               (now - the (time_field b ''asked_at'')) div (60 * usec)))
       (filter (needs_reping now) (d_blockers d))"

section \<open>Properties\<close>

lemma list_ex_upd_first:
  "list_ex P xs \<Longrightarrow> \<exists>as x bs. xs = as @ x # bs \<and> P x \<and> (\<forall>a\<in>set as. \<not> P a)
     \<and> upd_first P f xs = as @ f x # bs"
proof (induction xs)
  case (Cons x xs)
  show ?case
  proof (cases "P x")
    case True
    then show ?thesis by (intro exI[of _ "[]"] exI[of _ x] exI[of _ xs]) simp
  next
    case False
    with Cons obtain as y bs where
      "xs = as @ y # bs" "P y" "\<forall>a\<in>set as. \<not> P a" "upd_first P f xs = as @ f y # bs" by auto
    with False show ?thesis by (intro exI[of _ "x # as"] exI[of _ y] exI[of _ bs]) simp
  qed
qed simp

lemma open_after_answer [simp]: "\<not> is_open (dset ''answered_at'' v (dset ''answer'' (JStr a) b))"
  by (simp add: is_open_def jget_def)

text \<open>
  Answering closes exactly one blocker. A successful answer names an open blocker of that id;
  afterwards there is one open blocker fewer, the others are untouched and in place, the event
  records the answer, and a second answer to the same question is refused when its id is unique.
\<close>

theorem answer_blocker_closes_one:
  assumes "answer_blocker now q a d = Inr d'"
  shows "\<exists>as b bs. d_blockers d = as @ b # bs \<and> has_id q b \<and> is_open b
    \<and> d_blockers d' = as @ dset ''answered_at'' (iso now) (dset ''answer'' (JStr a) b) # bs
    \<and> Suc (length (open_blockers d')) = length (open_blockers d)
    \<and> d_events d' = d_events d @ [mk_event now EVENT_BLOCKER_ANSWERED [(''blocker_id'', JStr q), (''answer'', JStr a)]]
    \<and> (length (filter (has_id q) (d_blockers d)) = 1 \<longrightarrow>
         answer_blocker now2 q a2 d' = Inl (KeyErr (''no unanswered blocker '' @ q)))"
proof -
  let ?P = "\<lambda>b. has_id q b \<and> is_open b"
  let ?f = "\<lambda>b. dset ''answered_at'' (iso now) (dset ''answer'' (JStr a) b)"
  from assms have ex: "list_ex ?P (d_blockers d)"
    and d': "d' = append_event now EVENT_BLOCKER_ANSWERED [(''blocker_id'', JStr q), (''answer'', JStr a)]
        (d\<lparr>d_blockers := upd_first ?P ?f (d_blockers d)\<rparr>)"
    by (auto simp: answer_blocker_def split: if_splits)
  obtain as b bs where s: "d_blockers d = as @ b # bs" "?P b" "upd_first ?P ?f (d_blockers d) = as @ ?f b # bs"
    using list_ex_upd_first[OF ex, of ?f] by blast
  have bl: "d_blockers d' = as @ ?f b # bs" using d' s by (simp add: append_event_def)
  have u: "answer_blocker now2 q a2 d' = Inl (KeyErr (''no unanswered blocker '' @ q))"
    if "length (filter (has_id q) (d_blockers d)) = 1"
  proof -
    have "filter (has_id q) as = []" "filter (has_id q) bs = []" using that s(1,2) by auto
    then have "\<not> list_ex ?P (d_blockers d')" by (auto simp: bl list_ex_iff filter_empty_conv)
    then show ?thesis by (simp add: answer_blocker_def)
  qed
  show ?thesis
    using s bl d' u by (intro exI[of _ as] exI[of _ b] exI[of _ bs])
      (simp add: open_blockers_def append_event_def)
qed

definition asked_doc :: doc where
  "asked_doc = snd (add_blocker 0 ''a'' ''which?'' [''x'', ''y''] [] ''blocked_input'' (empty_state 0 ''w1'' ''plans''))"

theorem answer_blocker_closes_one_witness:
  "\<exists>d'. answer_blocker 7 ''q-1'' ''x'' asked_doc = Inr d'
     \<and> Suc (length (open_blockers d')) = length (open_blockers asked_doc)"
proof -
  have n: "''q-'' @ show_nat 1 = ''q-1''" by code_simp
  then have "list_ex (\<lambda>b. has_id ''q-1'' b \<and> is_open b) (d_blockers asked_doc)"
    by (simp add: asked_doc_def add_blocker_def append_event_def empty_state_def has_id_def is_open_def jget_def Let_def)
  then obtain d' where "answer_blocker 7 ''q-1'' ''x'' asked_doc = Inr d'" by (simp add: answer_blocker_def)
  from answer_blocker_closes_one[OF this, of 8 "''y''"] this show ?thesis by blast
qed

text \<open>Re-pinging quiets the blocker for the threshold: half an hour later, and no sooner.\<close>

lemma reping_backoff:
  assumes "needs_reping now b" "now \<le> now'" "now' < now div usec * usec + minutes 30"
  shows "\<not> needs_reping now' (dset ''last_repinged_at'' (iso now) b)"
  using assms
  by (auto simp: needs_reping_def STUCK_BLOCKER_THRESHOLD_MINUTES_def time_field_def is_open_def jget_def
      dtrue_def iso_def split: option.splits if_splits)

end
