(* ===== verification/Notify.thy ===== *)
theory Notify
  imports Blockers
begin

text \<open>
  The outbound notification router (\<open>notify.py\<close>): the kinds and what they carry, the quiet
  window, and the routing of one notification to the configured channels. Rendering to text is
  left out: a notice stands for its kind and the arguments of its \<open>render_\<close> function. The local
  wall clock is a time of day in microseconds.
\<close>

section \<open>Kinds\<close>

datatype notice =
    StalledNote jval int
  | CompletedNote nat
  | HaltedNote string nat
  | StuckBlockerNote string string int
  | StalledClaimNote jval int
  | WorkerIdleNote jval int rat
  | WorkerDeadNote jval int
  | QuotaPausedNote string int
  | QuotaStuckNote string
  | QuotaResumedNote
  | BlockerNote string string "string list"
  | HeartbeatLoopFailingNote string string
  | WorkerDeadReportedNote string jval jval
  | QueueSkippedNote string
  | WorktreeConflictNote string string
  | GateCleanNote string "string list"
  | GateDirtyNote string string string
  | ReadyToShipNote "string list"
  | PlanAutoArchivedNote string string
  | SystemicFailureNote string string
  | WorktreeMissingNote string

abbreviation KIND_STALLED :: string where "KIND_STALLED \<equiv> ''stalled''"
abbreviation KIND_COMPLETED :: string where "KIND_COMPLETED \<equiv> ''completed''"
abbreviation KIND_HALTED :: string where "KIND_HALTED \<equiv> ''halted''"
abbreviation KIND_STALLED_CLAIM :: string where "KIND_STALLED_CLAIM \<equiv> ''stalled_claim''"
abbreviation KIND_WORKER_IDLE :: string where "KIND_WORKER_IDLE \<equiv> ''worker_idle''"
abbreviation KIND_QUOTA_PAUSED :: string where "KIND_QUOTA_PAUSED \<equiv> ''quota_paused''"
abbreviation KIND_QUOTA_RESUMED :: string where "KIND_QUOTA_RESUMED \<equiv> ''quota_resumed''"
abbreviation KIND_QUOTA_STUCK :: string where "KIND_QUOTA_STUCK \<equiv> ''quota_stuck''"
abbreviation KIND_STUCK_BLOCKER :: string where "KIND_STUCK_BLOCKER \<equiv> ''stuck_blocker''"
abbreviation KIND_BLOCKER :: string where "KIND_BLOCKER \<equiv> ''blocker''"
abbreviation KIND_QUEUE_SKIPPED :: string where "KIND_QUEUE_SKIPPED \<equiv> ''queue_skipped''"
abbreviation KIND_HEARTBEAT_LOOP_FAILING :: string where "KIND_HEARTBEAT_LOOP_FAILING \<equiv> ''heartbeat_loop_failing''"
abbreviation KIND_WORKER_DEAD_REPORTED :: string where "KIND_WORKER_DEAD_REPORTED \<equiv> ''phase_worker_dead_reported''"
abbreviation KIND_GATE_CLEAN :: string where "KIND_GATE_CLEAN \<equiv> ''gate_clean''"
abbreviation KIND_GATE_DIRTY :: string where "KIND_GATE_DIRTY \<equiv> ''gate_dirty''"
abbreviation KIND_PLAN_AUTO_ARCHIVED :: string where "KIND_PLAN_AUTO_ARCHIVED \<equiv> ''plan_auto_archived''"
abbreviation KIND_READY_TO_SHIP :: string where "KIND_READY_TO_SHIP \<equiv> ''ready_to_ship''"

definition QUIET_HOURS_BYPASS_KINDS :: "string list" where
  "QUIET_HOURS_BYPASS_KINDS = [KIND_HALTED, KIND_QUOTA_STUCK]"

text \<open>The kind a notice is sent under (\<open>ACTION_NOTIFY_KIND\<close> for the primary actions).\<close>

fun notice_kind :: "notice \<Rightarrow> string" where
  "notice_kind (StalledNote _ _) = KIND_STALLED"
| "notice_kind (CompletedNote _) = KIND_COMPLETED"
| "notice_kind (HaltedNote _ _) = KIND_HALTED"
| "notice_kind (StuckBlockerNote _ _ _) = KIND_STUCK_BLOCKER"
| "notice_kind (StalledClaimNote _ _) = KIND_STALLED_CLAIM"
| "notice_kind (WorkerIdleNote _ _ _) = KIND_WORKER_IDLE"
| "notice_kind (WorkerDeadNote _ _) = KIND_STALLED"
| "notice_kind (QuotaPausedNote _ _) = KIND_QUOTA_PAUSED"
| "notice_kind (QuotaStuckNote _) = KIND_QUOTA_STUCK"
| "notice_kind QuotaResumedNote = KIND_QUOTA_RESUMED"
| "notice_kind (BlockerNote _ _ _) = KIND_BLOCKER"
| "notice_kind (HeartbeatLoopFailingNote _ _) = KIND_HEARTBEAT_LOOP_FAILING"
| "notice_kind (WorkerDeadReportedNote _ _ _) = KIND_WORKER_DEAD_REPORTED"
| "notice_kind (QueueSkippedNote _) = KIND_QUEUE_SKIPPED"
| "notice_kind (WorktreeConflictNote _ _) = KIND_HALTED"
| "notice_kind (GateCleanNote _ _) = KIND_GATE_CLEAN"
| "notice_kind (GateDirtyNote _ _ _) = KIND_GATE_DIRTY"
| "notice_kind (ReadyToShipNote _) = KIND_READY_TO_SHIP"
| "notice_kind (PlanAutoArchivedNote _ _) = KIND_PLAN_AUTO_ARCHIVED"
| "notice_kind (SystemicFailureNote _ _) = KIND_HALTED"
| "notice_kind (WorktreeMissingNote _) = KIND_HALTED"

text \<open>\<open>quota_pause_notification\<close>: the paused-or-stuck routing of a classified death.\<close>

definition quota_pause_notification :: "string \<Rightarrow> int option \<Rightarrow> notice" where
  "quota_pause_notification line paused_until =
     (case paused_until of None \<Rightarrow> QuotaStuckNote line | Some t \<Rightarrow> QuotaPausedNote line t)"

section \<open>The quiet window\<close>

text \<open>\<open>parse_hhmm\<close>, with \<open>None\<close> for the \<open>ValueError\<close> of the unpacking, of \<open>int\<close> or of \<open>time\<close>.\<close>

definition parse_hhmm :: "string \<Rightarrow> int option" where
  "parse_hhmm s =
     (if CHR '':'' \<notin> set s then None
      else case (int_of_text (fst (cut_at CHR '':'' s)), int_of_text (snd (cut_at CHR '':'' s))) of
        (Some hh, Some mm) \<Rightarrow>
          if 0 \<le> hh \<and> hh \<le> 23 \<and> 0 \<le> mm \<and> mm \<le> 59 then Some (minutes (hh * 60 + mm)) else None
      | _ \<Rightarrow> None)"

definition is_quiet_hours :: "int \<Rightarrow> int \<Rightarrow> int \<Rightarrow> bool" where
  "is_quiet_hours t start stop =
     (if start = stop then False
      else if start < stop then start \<le> t \<and> t < stop
      else t \<ge> start \<or> t < stop)"

text \<open>A channel of the specification; \<open>ch_kinds = None\<close> takes every kind.\<close>

record channel =
  ch_kind :: string
  ch_enabled :: bool
  ch_kinds :: "string list option"

record notify_spec =
  quiet_hours :: "string list"
  channels :: "channel list"

definition in_quiet_window :: "notify_spec \<Rightarrow> int \<Rightarrow> bool" where
  "in_quiet_window spec local_time =
     (case quiet_hours spec of
        (s # e # _) \<Rightarrow>
          (case (parse_hhmm s, parse_hhmm e) of
             (Some start, Some stop) \<Rightarrow> is_quiet_hours local_time start stop
           | _ \<Rightarrow> False)
      | _ \<Rightarrow> False)"

section \<open>Routing\<close>

definition NOTIFIER_KINDS :: "string list" where
  "NOTIFIER_KINDS = [''imessage'', ''discord'']"

definition channel_takes :: "string \<Rightarrow> channel \<Rightarrow> bool" where
  "channel_takes kind ch \<longleftrightarrow> ch_kind ch \<in> set NOTIFIER_KINDS \<and> ch_enabled ch
     \<and> (case ch_kinds ch of None \<Rightarrow> True | Some ks \<Rightarrow> kind \<in> set ks)"

text \<open>
  \<open>notify\<close>: the result, the channels a send was tried on, and whether the inbox event was
  written. \<open>delivers\<close> says for which channels the backend succeeds; \<open>to_inbox\<close> that a plan and a
  project were given.
\<close>

definition send_notice ::
    "(channel \<Rightarrow> bool) \<Rightarrow> bool \<Rightarrow> notify_spec \<Rightarrow> int \<Rightarrow> bool \<Rightarrow> string \<Rightarrow> bool \<times> channel list \<times> bool" where
  "send_notice delivers suppressed spec local_time to_inbox kind =
     (if suppressed then (False, [], to_inbox)
      else if in_quiet_window spec local_time \<and> kind \<notin> set QUIET_HOURS_BYPASS_KINDS then (False, [], to_inbox)
      else let tried = filter (channel_takes kind) (channels spec)
           in (list_ex delivers tried, tried, to_inbox))"

section \<open>Properties\<close>

text \<open>
  The quiet window and the loud window partition the day. Unless its two ends coincide, at every
  time of day exactly one of the window and the window with the ends exchanged is quiet, so a
  window over midnight is the complement of the day window between the same hours; and the start
  is inside while the end is outside.
\<close>

theorem quiet_window_partition:
  "(is_quiet_hours t a b \<longleftrightarrow> a \<noteq> b \<and> \<not> is_quiet_hours t b a)
   \<and> \<not> is_quiet_hours b a b \<and> (is_quiet_hours a a b \<longleftrightarrow> a \<noteq> b)"
  by (auto simp: is_quiet_hours_def)

text \<open>
  Quiet hours defer, they do not lose. In the quiet window nothing is sent on any channel unless
  its kind is halted or quota-stuck; the in-session inbox entry is written all the same, and the
  two emergency kinds reach the same channels at every hour.
\<close>

theorem quiet_hours_gate:
  "case send_notice delivers False spec t to_inbox kind of (sent, tried, inbox) \<Rightarrow>
     inbox = to_inbox
     \<and> (in_quiet_window spec t \<and> kind \<noteq> KIND_HALTED \<and> kind \<noteq> KIND_QUOTA_STUCK \<longrightarrow> \<not> sent \<and> tried = [])
     \<and> (\<not> in_quiet_window spec t \<or> kind = KIND_HALTED \<or> kind = KIND_QUOTA_STUCK \<longrightarrow>
          tried = filter (channel_takes kind) (channels spec)
          \<and> (sent \<longleftrightarrow> (\<exists>ch\<in>set (channels spec). channel_takes kind ch \<and> delivers ch)))"
  by (auto simp: send_notice_def QUIET_HOURS_BYPASS_KINDS_def Let_def list_ex_iff)

definition night_spec :: notify_spec where
  "night_spec = \<lparr>quiet_hours = [''22:00'', ''08:00''],
     channels = [\<lparr>ch_kind = ''discord'', ch_enabled = True, ch_kinds = None\<rparr>]\<rparr>"

lemma night_window: "in_quiet_window night_spec (minutes 180)" "\<not> in_quiet_window night_spec (minutes 600)"
  by code_simp+

theorem quiet_hours_gate_witness:
  "fst (send_notice (\<lambda>_. True) False night_spec (minutes 180) True KIND_COMPLETED) = False
   \<and> fst (send_notice (\<lambda>_. True) False night_spec (minutes 180) True KIND_HALTED)"
proof -
  have n: "in_quiet_window night_spec (minutes 180)" by (rule night_window)
  have ch: "\<exists>ch\<in>set (channels night_spec). channel_takes KIND_HALTED ch"
    by (simp add: night_spec_def channel_takes_def NOTIFIER_KINDS_def)
  show ?thesis
    using quiet_hours_gate[where delivers="\<lambda>_. True" and spec=night_spec and t="minutes 180" and to_inbox=True and kind=KIND_COMPLETED]
      quiet_hours_gate[where delivers="\<lambda>_. True" and spec=night_spec and t="minutes 180" and to_inbox=True and kind=KIND_HALTED] n ch
    by (auto split: prod.splits)
qed

end
