(* ===== verification/Quota.thy ===== *)
theory Quota
  imports Plan_Store Notify
begin

text \<open>
  The quota pause (\<open>quota.py\<close>): classifying the tail of a worker log, reading the reset time out
  of the matched line, the single pause row of the project database, and the gate every dispatch
  passes. Texts are read as bytes, so a typographic apostrophe is its three UTF-8 bytes, and
  matching without case is over ASCII letters. Time zones are a parameter: \<open>zones name now\<close> is
  the zone of that name (of the system, for \<open>None\<close>) with its conversions between instants and
  wall-clock times, or \<open>None\<close> where \<open>ZoneInfo\<close> raises.
\<close>

section \<open>Matching\<close>

definition lower_char :: "char \<Rightarrow> char" where
  "lower_char c = (if CHR ''A'' \<le> c \<and> c \<le> CHR ''Z'' then char_of (of_char c + 32 :: nat) else c)"

text \<open>The rest of \<open>s\<close> after the lower-case text \<open>p\<close>, matched without case.\<close>

fun ci_rest :: "string \<Rightarrow> string \<Rightarrow> string option" where
  "ci_rest [] s = Some s"
| "ci_rest (p # ps) [] = None"
| "ci_rest (p # ps) (c # cs) = (if lower_char c = p then ci_rest ps cs else None)"

text \<open>\<open>pattern.search\<close> for a pattern given as its match at a position: the leftmost match.\<close>

fun search_from :: "(string \<Rightarrow> 'a option) \<Rightarrow> string \<Rightarrow> 'a option" where
  "search_from f [] = f []"
| "search_from f (c # cs) = (case f (c # cs) of Some x \<Rightarrow> Some x | None \<Rightarrow> search_from f cs)"

definition apos_rest :: "string \<Rightarrow> string option" where
  "apos_rest s = (case s of
     c # cs \<Rightarrow>
       if c = CHR 0x27 then Some cs
       else if take 3 s = [CHR 0xE2, CHR 0x80, CHR 0x99] \<or> take 3 s = [CHR 0xEF, CHR 0xBF, CHR 0xBD]
       then Some (drop 3 s) else None
   | [] \<Rightarrow> None)"

definition you_rest :: "string \<Rightarrow> string \<Rightarrow> string option" where
  "you_rest lit s =
     (case ci_rest ''you'' s of None \<Rightarrow> None
      | Some r \<Rightarrow> (case apos_rest r of None \<Rightarrow> None | Some r' \<Rightarrow> ci_rest lit r'))"

definition QUOTA_SIGNATURES :: "(string \<times> (string \<Rightarrow> bool)) list" where
  "QUOTA_SIGNATURES =
     [(''session_limit'', \<lambda>l. search_from (you_rest ''ve hit your session limit'') l \<noteq> None),
      (''weekly_limit'', \<lambda>l. search_from (you_rest ''ve hit your weekly limit'') l \<noteq> None),
      (''model_limit'', \<lambda>l. list_ex (\<lambda>m. search_from (you_rest (''ve hit your '' @ m @ '' limit'')) l \<noteq> None)
          [''opus'', ''sonnet'', ''haiku'']),
      (''usage_credits'', \<lambda>l. search_from (you_rest ''re out of usage credits'') l \<noteq> None),
      (''extra_usage'', \<lambda>l.
          search_from (\<lambda>s. case you_rest ''ve used'' s of None \<Rightarrow> None
                           | Some r \<Rightarrow> search_from (ci_rest ''extra usage'') r) l \<noteq> None
          \<or> search_from (you_rest ''re out of extra usage'') l \<noteq> None)]"

record quota_match =
  qm_signature :: string
  qm_line :: string

definition classify_quota :: "string \<Rightarrow> quota_match option" where
  "classify_quota tail =
     (let lines = split_lines tail in
      case find (\<lambda>(name, matches). list_ex matches lines) QUOTA_SIGNATURES of
        None \<Rightarrow> None
      | Some (name, matches) \<Rightarrow>
          map_option (\<lambda>l. \<lparr>qm_signature = name, qm_line = strip l\<rparr>) (find matches lines))"

definition LOG_TAIL_LINES :: nat where
  "LOG_TAIL_LINES = 50"

text \<open>\<open>read_log_tail\<close> on the content of the file, \<open>None\<close> where the file cannot be read.\<close>

definition read_log_tail :: "string option \<Rightarrow> string" where
  "read_log_tail content =
     (case content of None \<Rightarrow> []
      | Some s \<Rightarrow>
          (let ls = split_on newline s;
               kept = map (\<lambda>l. l @ [newline]) (butlast ls) @ (if last ls = [] then [] else [last ls])
           in concat (drop (length kept - LOG_TAIL_LINES) kept)))"

definition classify_log_tail :: "(jval \<Rightarrow> string option) \<Rightarrow> jval \<Rightarrow> quota_match option" where
  "classify_log_tail files log_path =
     (if truthy log_path then classify_quota (read_log_tail (files log_path)) else None)"

section \<open>The reset time\<close>

record zone =
  wall_of :: "int \<Rightarrow> int"
  instant_of :: "int \<Rightarrow> int"

text \<open>The start of the reset fragment: \<open>resets\<close>, blanks, and the text from the first digit on.\<close>

definition reset_start :: "string \<Rightarrow> string option" where
  "reset_start s =
     (case ci_rest ''resets'' s of
        Some (c # r) \<Rightarrow>
          if is_space c \<and> lstrip r \<noteq> [] \<and> is_digit (hd (lstrip r)) then Some (lstrip r) else None
      | _ \<Rightarrow> None)"

text \<open>The hour, the minutes if there are any, \<open>Some True\<close> for \<open>pm\<close>, and the zone in parentheses.\<close>

definition reset_parts :: "string \<Rightarrow> nat \<times> nat option \<times> bool option \<times> string option" where
  "reset_parts s =
     (let hh = takeWhile is_digit (take 2 s);
          r1 = drop (length hh) s;
          (mm, r2) = (case r1 of
             x # a # b # t \<Rightarrow> if x = CHR '':'' \<and> is_digit a \<and> is_digit b
                             then (Some (nat_of_digits [a, b]), t) else (None, r1)
           | _ \<Rightarrow> (None, r1));
          (ap, r3) = (case lstrip r2 of
             x # y # t \<Rightarrow> if lower_char x \<in> {CHR ''a'', CHR ''p''} \<and> lower_char y = CHR ''m''
                         then (Some (lower_char x = CHR ''p''), t) else (None, r2)
           | _ \<Rightarrow> (None, r2));
          tz = (case lstrip r3 of
             x # t \<Rightarrow> (let name = takeWhile (\<lambda>c. c \<noteq> CHR '')'') t in
                       if x = CHR ''('' \<and> name \<noteq> [] \<and> CHR '')'' \<in> set t then Some name else None)
           | [] \<Rightarrow> None)
      in (nat_of_digits hh, mm, ap, tz))"

text \<open>The three \<open>strptime\<close> formats tried in order, on the carved token.\<close>

definition clock_time :: "nat \<Rightarrow> nat option \<Rightarrow> bool option \<Rightarrow> (nat \<times> nat) option" where
  "clock_time hh mm ap =
     (case (mm, ap) of
        (Some m, Some pm) \<Rightarrow> if 1 \<le> hh \<and> hh \<le> 12 \<and> m < 60 then Some (hh mod 12 + (if pm then 12 else 0), m) else None
      | (None, Some pm) \<Rightarrow> if 1 \<le> hh \<and> hh \<le> 12 then Some (hh mod 12 + (if pm then 12 else 0), 0) else None
      | (Some m, None) \<Rightarrow> if hh \<le> 23 \<and> m < 60 then Some (hh, m) else None
      | (None, None) \<Rightarrow> None)"

abbreviation day :: int where
  "day \<equiv> seconds 86400"

definition parse_reset :: "(string option \<Rightarrow> int \<Rightarrow> zone option) \<Rightarrow> string \<Rightarrow> int \<Rightarrow> int option" where
  "parse_reset zones line now =
     (case search_from reset_start line of
        None \<Rightarrow> None
      | Some s \<Rightarrow>
          (case reset_parts s of
             (hh, mm, ap, tz_name) \<Rightarrow>
               (case clock_time hh mm ap of
                  None \<Rightarrow> None
                | Some (h, m) \<Rightarrow>
                    (case zones (map_option strip tz_name) now of
                       None \<Rightarrow> None
                     | Some z \<Rightarrow>
                         (let local_now = wall_of z now;
                              candidate = local_now - local_now mod day + minutes (int h * 60 + int m)
                          in if instant_of z candidate \<le> now
                             then Some (instant_of z (candidate + day))
                             else Some (instant_of z candidate))))))"

section \<open>The pause row\<close>

definition PAUSE_BUFFER_SEC :: int where "PAUSE_BUFFER_SEC = 120"
definition CANARY_WINDOW_SEC :: int where "CANARY_WINDOW_SEC = 180"

definition iso_or_none :: "int option \<Rightarrow> jval" where
  "iso_or_none t = (case t of None \<Rightarrow> JNull | Some x \<Rightarrow> iso x)"

definition pause_row :: "int option \<Rightarrow> quota_match \<Rightarrow> int \<Rightarrow> row" where
  "pause_row paused_until qm now =
     set_cols [(''paused_until'', sql_scalar (iso_or_none paused_until)),
       (''signature'', SVal (JStr (qm_signature qm))), (''line'', SVal (JStr (qm_line qm))),
       (''canary_plan'', SNull), (''canary_deadline'', SNull), (''created_at'', sql_scalar (iso now))]
       (\<lambda>_. SNull)"

definition record_quota_pause ::
    "(string option \<Rightarrow> int \<Rightarrow> zone option) \<Rightarrow> quota_match \<Rightarrow> int \<Rightarrow> pdb \<Rightarrow> int option \<times> pdb" where
  "record_quota_pause zones qm now db =
     (let paused_until = map_option (\<lambda>r. r + seconds PAUSE_BUFFER_SEC) (parse_reset zones (qm_line qm) now)
      in (paused_until, db\<lparr>t_quota := Some (pause_row paused_until qm now)\<rparr>))"

definition QUOTA_COLUMNS :: "string list" where
  "QUOTA_COLUMNS = [''paused_until'', ''signature'', ''line'', ''canary_plan'', ''canary_deadline'', ''created_at'']"

definition read_pause :: "pdb \<Rightarrow> obj option" where
  "read_pause db = map_option (\<lambda>r. map (\<lambda>c. (c, scalar_of (r c))) QUOTA_COLUMNS) (t_quota db)"

definition clear_pause :: "pdb \<Rightarrow> obj option \<times> pdb" where
  "clear_pause db = (read_pause db, db\<lparr>t_quota := None\<rparr>)"

text \<open>
  \<open>record_quota_death\<close>: the pause row in its own transaction, and the two events of the plan;
  their log is the caller's.
\<close>

definition record_quota_death ::
    "(string option \<Rightarrow> int \<Rightarrow> zone option) \<Rightarrow> int \<Rightarrow> quota_match \<Rightarrow> jval \<Rightarrow> jval \<Rightarrow> pdb
       \<Rightarrow> int option \<times> obj list \<times> pdb" where
  "record_quota_death zones now qm phase_id token db =
     (case record_quota_pause zones qm now db of
        (paused_until, db') \<Rightarrow>
          (paused_until,
           [mk_event now EVENT_QUOTA_DEATH
              [(''phase'', phase_id), (''token'', token), (''signature'', JStr (qm_signature qm)),
               (''line'', JStr (qm_line qm))],
            mk_event now EVENT_QUOTA_PAUSED
              [(''paused_until'', iso_or_none paused_until), (''signature'', JStr (qm_signature qm))]],
           db'))"

section \<open>The gate\<close>

datatype gate_detail = NoDetail | GateBusy | QuotaStuck | QuotaPaused jval | QuotaCanary jval

record gate =
  g_dispatch :: bool
  g_detail :: gate_detail
  g_resumed :: bool

definition DISPATCH :: gate where
  "DISPATCH = \<lparr>g_dispatch = True, g_detail = NoDetail, g_resumed = False\<rparr>"

definition hold :: "gate_detail \<Rightarrow> gate" where
  "hold d = \<lparr>g_dispatch = False, g_detail = d, g_resumed = False\<rparr>"

text \<open>A nullable timestamp column: \<open>None\<close> when it cannot be read, \<open>Some None\<close> when it is null.\<close>

definition time_column :: "row \<Rightarrow> string \<Rightarrow> int option option" where
  "time_column r c =
     (if scalar_of (r c) = JNull then Some None
      else (case parse_iso (scalar_of (r c)) of None \<Rightarrow> None | Some t \<Rightarrow> Some (Some t)))"

definition decide_in_txn :: "string \<Rightarrow> int \<Rightarrow> pdb \<Rightarrow> gate \<times> pdb" where
  "decide_in_txn slug now db =
     (case t_quota db of
        None \<Rightarrow> (DISPATCH, db)
      | Some r \<Rightarrow>
          (case (time_column r ''paused_until'', time_column r ''canary_deadline'') of
             (Some until, Some deadline) \<Rightarrow>
               (case until of
                  None \<Rightarrow> (hold QuotaStuck, db)
                | Some t \<Rightarrow>
                    if now < t then (hold (QuotaPaused (scalar_of (r ''paused_until''))), db)
                    else if scalar_of (r ''canary_plan'') = JNull then
                      (DISPATCH, db\<lparr>t_quota := Some (set_cols [(''canary_plan'', SVal (JStr slug)),
                         (''canary_deadline'', sql_scalar (iso (now + seconds CANARY_WINDOW_SEC)))] r)\<rparr>)
                    else if (case deadline of None \<Rightarrow> True | Some dl \<Rightarrow> now \<ge> dl) then
                      (\<lparr>g_dispatch = True, g_detail = NoDetail, g_resumed = True\<rparr>, db\<lparr>t_quota := None\<rparr>)
                    else if scalar_of (r ''canary_plan'') = JStr slug then (DISPATCH, db)
                    else (hold (QuotaCanary (scalar_of (r ''canary_plan''))), db))
           | _ \<Rightarrow> (DISPATCH, db)))"

text \<open>How the store answers the gate: readable, contended past the wait, or unreadable.\<close>

datatype store_health = StoreOk | StoreBusy | StoreBroken

definition gate_decision :: "store_health \<Rightarrow> string \<Rightarrow> int \<Rightarrow> pdb \<Rightarrow> gate \<times> pdb" where
  "gate_decision health slug now db =
     (case health of
        StoreBusy \<Rightarrow> (hold GateBusy, db)
      | StoreBroken \<Rightarrow> (DISPATCH, db)
      | StoreOk \<Rightarrow> if read_pause db = None then (DISPATCH, db) else decide_in_txn slug now db)"

lemma gate_ok [simp]: "gate_decision StoreOk slug now db = decide_in_txn slug now db"
  by (simp add: gate_decision_def read_pause_def decide_in_txn_def)

section \<open>Properties\<close>

fun consult_all :: "(string \<times> int) list \<Rightarrow> pdb \<Rightarrow> gate list \<times> pdb" where
  "consult_all [] db = ([], db)"
| "consult_all ((slug, now) # cs) db =
     (case gate_decision StoreOk slug now db of
        (g, db') \<Rightarrow> (case consult_all cs db' of (gs, db'') \<Rightarrow> (g # gs, db'')))"

definition paused_until_is :: "int \<Rightarrow> row \<Rightarrow> bool" where
  "paused_until_is t r \<longleftrightarrow> scalar_of (r ''paused_until'') = JTime t"

definition no_canary :: "row \<Rightarrow> bool" where
  "no_canary r \<longleftrightarrow> scalar_of (r ''canary_plan'') = JNull \<and> scalar_of (r ''canary_deadline'') = JNull"

definition canary_is :: "string \<Rightarrow> int \<Rightarrow> row \<Rightarrow> bool" where
  "canary_is slug t r \<longleftrightarrow> scalar_of (r ''canary_plan'') = JStr slug \<and> scalar_of (r ''canary_deadline'') = JTime t"

lemma consult_in_window:
  assumes "t_quota db = Some r" "paused_until_is t0 r" "canary_is s dl r"
    "\<forall>(p, n)\<in>set cs. t0 \<le> n \<and> n < dl"
  shows "consult_all cs db = (map (\<lambda>(p, n). if p = s then DISPATCH else hold (QuotaCanary (JStr s))) cs, db)"
  using assms
  by (induction cs)
    (auto simp: decide_in_txn_def time_column_def paused_until_is_def canary_is_def)

text \<open>
  C7 One canary after a quota reset. Once the pause is over, the first plan that consults the gate
  is dispatched, and every consultation by any plan until its window closes is dispatched when it
  is that plan's own and held otherwise; nothing resumes in the window. The first consultation
  after the window, by whichever plan, deletes the pause and resumes the project, and from then
  on every plan is dispatched.
\<close>

theorem quota_one_canary:
  assumes "t_quota db = Some r" and "paused_until_is t0 r" and "no_canary r"
    and "t0 \<le> n" and "dl = (n + 180 * 1000000) div 1000000 * 1000000"
    and "\<forall>(p, m)\<in>set cs. t0 \<le> m \<and> m < dl"
    and "dl \<le> n'"
  shows "case consult_all ((s, n) # cs) db of (gs, db') \<Rightarrow>
      map g_dispatch gs = map (\<lambda>(p, m). p = s) ((s, n) # cs)
      \<and> (\<forall>g\<in>set gs. \<not> g_resumed g)
      \<and> g_dispatch (fst (gate_decision StoreOk p' n' db')) \<and> g_resumed (fst (gate_decision StoreOk p' n' db'))
      \<and> (\<forall>q m. gate_decision StoreOk q m (snd (gate_decision StoreOk p' n' db'))
              = (DISPATCH, snd (gate_decision StoreOk p' n' db')))"
proof -
  have usec: "usec = 1000000" by (simp add: usec_def)
  let ?r = "set_cols [(''canary_plan'', SVal (JStr s)),
      (''canary_deadline'', sql_scalar (iso (n + seconds CANARY_WINDOW_SEC)))] r"
  let ?db = "db\<lparr>t_quota := Some ?r\<rparr>"
  have dl: "iso (n + seconds CANARY_WINDOW_SEC) = JTime dl"
    using assms(5) by (simp add: iso_def CANARY_WINDOW_SEC_def usec)
  have first: "gate_decision StoreOk s n db = (DISPATCH, ?db)"
    using assms(1-4) by (simp add: decide_in_txn_def time_column_def paused_until_is_def no_canary_def)
  have c: "canary_is s dl ?r" "paused_until_is t0 ?r"
    using assms(2) by (simp_all add: canary_is_def paused_until_is_def dl set_cols_def)
  have rest: "consult_all cs ?db = (map (\<lambda>(p, n). if p = s then DISPATCH else hold (QuotaCanary (JStr s))) cs, ?db)"
    by (rule consult_in_window[OF _ c(2,1) assms(6)]) simp
  have t: "t0 \<le> n'"
  proof -
    have "n < dl" using assms(5) iso_gt[of "n + 180 * 1000000"] unfolding usec_def by linarith
    then show ?thesis using assms(4,7) by linarith
  qed
  have last: "gate_decision StoreOk p' n' ?db = (\<lparr>g_dispatch = True, g_detail = NoDetail, g_resumed = True\<rparr>, ?db\<lparr>t_quota := None\<rparr>)"
    using c t assms(7) by (simp add: decide_in_txn_def time_column_def paused_until_is_def canary_is_def)
  have cons: "consult_all ((s, n) # cs) db
      = (DISPATCH # map (\<lambda>(p, n). if p = s then DISPATCH else hold (QuotaCanary (JStr s))) cs, ?db)"
    by (simp only: consult_all.simps first rest prod.case)
  have d: "g_dispatch DISPATCH" "\<not> g_resumed DISPATCH" "\<And>x. \<not> g_dispatch (hold x)" "\<And>x. \<not> g_resumed (hold x)"
    by (simp_all add: DISPATCH_def hold_def)
  have free: "gate_decision StoreOk q m (?db\<lparr>t_quota := None\<rparr>) = (DISPATCH, ?db\<lparr>t_quota := None\<rparr>)" for q m
    by (simp add: decide_in_txn_def)
  show ?thesis
    unfolding cons prod.case last fst_conv snd_conv
    by (intro conjI allI free) (auto simp: d split: if_splits)
qed

definition paused_db :: pdb where
  "paused_db = empty_db\<lparr>t_quota := Some (pause_row (Some 0) \<lparr>qm_signature = ''session_limit'', qm_line = []\<rparr> 0)\<rparr>"

theorem quota_one_canary_witness:
  "map g_dispatch (fst (consult_all [(''w1'', 5), (''w2'', 6), (''w1'', 7)] paused_db)) = [True, False, True]"
proof -
  let ?r = "pause_row (Some 0) \<lparr>qm_signature = ''session_limit'', qm_line = []\<rparr> 0"
  have "t_quota paused_db = Some ?r" "paused_until_is 0 ?r" "no_canary ?r"
    by (simp_all add: paused_db_def pause_row_def paused_until_is_def no_canary_def iso_or_none_def iso_def set_cols_def)
  from quota_one_canary[OF this, of 5 180000000 "[(''w2'', 6), (''w1'', 7)]" 180000000 "''w1''"]
  show ?thesis by (auto split: prod.splits)
qed

text \<open>
  A stuck pause freezes dispatch until the operator clears it. When the reset could not be read,
  the pause has no end: every consultation, at any time and by any plan, is held and leaves the
  row as it is; clearing it reports the row that was removed and releases every plan.
\<close>

theorem quota_stuck_until_cleared:
  assumes "record_quota_pause zones qm now db = (None, db')"
  shows "consult_all cs db' = (map (\<lambda>_. hold QuotaStuck) cs, db')
    \<and> map_option (\<lambda>d. jget d ''line'') (fst (clear_pause db')) = Some (JStr (qm_line qm))
    \<and> consult_all cs (snd (clear_pause db')) = (map (\<lambda>_. DISPATCH) cs, snd (clear_pause db'))"
proof -
  have q: "t_quota db' = Some (pause_row None qm now)"
    using assms by (auto simp: record_quota_pause_def Let_def)
  have 1: "consult_all cs db' = (map (\<lambda>_. hold QuotaStuck) cs, db')"
    using q by (induction cs) (auto simp: decide_in_txn_def time_column_def pause_row_def iso_or_none_def set_cols_def)
  have 2: "consult_all cs d = (map (\<lambda>_. DISPATCH) cs, d)" if "t_quota d = None" for d
    using that by (induction cs) (auto simp: decide_in_txn_def)
  show ?thesis
    using 1 2[of "snd (clear_pause db')"] q
    by (simp add: clear_pause_def read_pause_def QUOTA_COLUMNS_def jget_def pause_row_def set_cols_def)
qed

theorem quota_stuck_until_cleared_witness:
  "\<exists>db'. record_quota_pause (\<lambda>_ _. None) \<lparr>qm_signature = ''session_limit'', qm_line = ''no reset''\<rparr> 0 empty_db = (None, db')
     \<and> fst (consult_all [(''w1'', 5)] db') = [hold QuotaStuck]"
proof -
  let ?qm = "\<lparr>qm_signature = ''session_limit'', qm_line = ''no reset''\<rparr>"
  have "parse_reset (\<lambda>_ _. None) ''no reset'' 0 = None"
    by code_simp
  then have "record_quota_pause (\<lambda>_ _. None) ?qm 0 empty_db
      = (None, empty_db\<lparr>t_quota := Some (pause_row None ?qm 0)\<rparr>)"
    by (simp add: record_quota_pause_def)
  from quota_stuck_until_cleared[OF this, of "[(''w1'', 5)]"] this show ?thesis by auto
qed

definition fixed_zone :: "int \<Rightarrow> zone" where
  "fixed_zone off = \<lparr>wall_of = (\<lambda>t. t + off), instant_of = (\<lambda>w. w - off)\<rparr>"

lemma floor_mod:
  assumes "0 \<le> c" "c < (D::int)"
  shows "(w - w mod D + c) mod D = c" "(w - w mod D + c + D) mod D = c"
  using assms by (simp_all add: minus_mod_eq_mult_div)

text \<open>
  The reset time read from a log line is the next occurrence of its wall-clock time: for a zone
  with a fixed offset it lies after now and at most a day after it, on the minute, and it shows
  the hour and the minute that the line names.
\<close>

theorem parse_reset_next:
  assumes "parse_reset zones line now = Some r"
    and "\<forall>name. zones name now = Some (fixed_zone off) \<or> zones name now = None"
  shows "now < r \<and> r \<le> now + 86400 * 1000000
    \<and> (\<exists>s hh mm ap tz h m. search_from reset_start line = Some s \<and> reset_parts s = (hh, mm, ap, tz)
        \<and> clock_time hh mm ap = Some (h, m) \<and> h < 24 \<and> m < 60
        \<and> (r + off) mod (86400 * 1000000) = (int h * 60 + int m) * 60 * 1000000)"
proof -
  from assms(1) obtain s hh mm ap tz h m z where
    s: "search_from reset_start line = Some s" "reset_parts s = (hh, mm, ap, tz)" "clock_time hh mm ap = Some (h, m)"
      "zones (map_option strip tz) now = Some z" and
    r: "r = (let c = wall_of z now - wall_of z now mod day + minutes (int h * 60 + int m)
         in if instant_of z c \<le> now then instant_of z (c + day) else instant_of z c)"
    by (auto simp: parse_reset_def Let_def split: option.splits prod.splits if_splits)
  from s(4) assms(2) have z: "z = fixed_zone off" by (metis option.inject option.distinct(1))
  have hm: "h < 24" "m < 60"
    using s(3) by (auto simp: clock_time_def split: option.splits if_splits)
  let ?u = "1000000::int"
  let ?D = "86400 * ?u"
  define w where "w = now + off"
  define c where "c = (int h * 60 + int m) * 60 * ?u"
  have c: "0 \<le> c" "c < ?D" using hm by (simp_all add: c_def)
  have rr: "r = (if w - w mod ?D + c - off \<le> now then w - w mod ?D + c + ?D - off else w - w mod ?D + c - off)"
    by (simp add: r z fixed_zone_def Let_def w_def c_def usec_def algebra_simps)
  have m: "0 \<le> w mod ?D" "w mod ?D < ?D" by simp_all
  have "now < r \<and> r \<le> now + ?D"
    using m c by (simp add: rr w_def split: if_split) linarith
  moreover have "(r + off) mod ?D = c"
  proof -
    have "r + off = w - w mod ?D + c \<or> r + off = w - w mod ?D + c + ?D" by (simp add: rr)
    then show ?thesis using floor_mod[OF c, of w] by metis
  qed
  ultimately show ?thesis using s hm by (auto simp: c_def)
qed

theorem parse_reset_next_witness:
  "parse_reset (\<lambda>_ _. Some (fixed_zone 0)) ''You've hit your session limit - resets 1:50am (UTC)'' 0 = Some (seconds 6600)
   \<and> (0::int) < seconds 6600"
proof -
  have e: "parse_reset (\<lambda>_ _. Some (fixed_zone 0)) ''You've hit your session limit - resets 1:50am (UTC)'' 0 = Some (seconds 6600)"
    by code_simp
  from parse_reset_next[OF e, of 0] e show ?thesis by simp
qed

text \<open>The classification of the line a worker prints when the session limit is hit.\<close>

lemma classify_session_limit:
  "classify_quota (''start'' @ [newline] @ ''You've hit your session limit - resets 1:50am'')
     = Some \<lparr>qm_signature = ''session_limit'', qm_line = ''You've hit your session limit - resets 1:50am''\<rparr>"
  by code_simp

end
