(* ===== verification/Plan_Parser.thy ===== *)
theory Plan_Parser
  imports Quota
begin

text \<open>
  The parser of the master plan's \<open>Sessions index\<close> table (\<open>plan_parser.py\<close>) and of the effort
  column. The file is a text with line feeds as its line ends (as \<open>read_text\<close> returns it); the
  regular expressions are written out as the matches they make, leftmost and greedy or lazy as
  the code has them.
\<close>

record phase =
  ph_id :: string
  ph_plan_file :: string
  ph_scope :: string
  ph_effort :: string

section \<open>The header\<close>

definition skip_blanks :: "string \<Rightarrow> string option" where
  "skip_blanks s = (case s of c # _ \<Rightarrow> if is_space c then Some (lstrip s) else None | [] \<Rightarrow> None)"

text \<open>
  \<open>_SESSIONS_HEADER_RE\<close> at a position: what is left of the text after the match. The blanks
  after the title are taken greedily, up to the last line end among them.
\<close>

definition header_at :: "string \<Rightarrow> string option" where
  "header_at s =
     Option.bind (ci_rest ''##'' s) (\<lambda>s1.
     Option.bind (skip_blanks s1) (\<lambda>s2.
     Option.bind (ci_rest ''session'' s2) (\<lambda>s3.
     Option.bind (skip_blanks (case ci_rest ''s'' s3 of Some t \<Rightarrow> t | None \<Rightarrow> s3)) (\<lambda>s4.
     Option.bind (ci_rest ''index'' s4) (\<lambda>s5.
       (let blanks = takeWhile is_space s5; rest = dropWhile is_space s5
        in if rest = [] then Some []
           else if newline \<in> set blanks
           then Some (newline # rev (takeWhile (\<lambda>c. c \<noteq> newline) (rev blanks)) @ rest)
           else None))))))"

fun find_header :: "bool \<Rightarrow> string \<Rightarrow> string option" where
  "find_header line_start [] = (if line_start then header_at [] else None)"
| "find_header line_start (c # cs) =
     (case (if line_start then header_at (c # cs) else None) of
        Some r \<Rightarrow> Some r
      | None \<Rightarrow> find_header (c = newline) cs)"

section \<open>Rows\<close>

definition strip_char :: "char \<Rightarrow> string \<Rightarrow> string" where
  "strip_char x s = rev (dropWhile (\<lambda>c. c = x) (rev (dropWhile (\<lambda>c. c = x) s)))"

definition split_row :: "string \<Rightarrow> string list" where
  "split_row row = map strip (split_on CHR ''|'' (strip_char CHR ''|'' (strip row)))"

text \<open>\<open>_SEPARATOR_RE\<close> on a stripped line.\<close>

definition is_separator :: "string \<Rightarrow> bool" where
  "is_separator s \<longleftrightarrow> length s \<ge> 3 \<and> hd s = CHR ''|'' \<and> last s = CHR ''|''
     \<and> list_all (\<lambda>c. is_space c \<or> c \<in> {CHR ''-'', CHR '':'', CHR ''|''}) s"

text \<open>\<open>_MD_LINK_RE\<close>: the shortest text in brackets that a target in parentheses follows to the end.\<close>

definition is_target :: "string \<Rightarrow> bool" where
  "is_target s \<longleftrightarrow> take 2 s = ''](''  \<and> length s \<ge> 3 \<and> last s = CHR '')''
     \<and> CHR '')'' \<notin> set (butlast (drop 2 s))"

fun link_from :: "string \<Rightarrow> string \<Rightarrow> string option" where
  "link_from acc [] = None"
| "link_from acc (c # cs) =
     (if acc \<noteq> [] \<and> is_target (c # cs) then Some acc else link_from (acc @ [c]) cs)"

definition link_text :: "string \<Rightarrow> string" where
  "link_text raw =
     (case raw of
        c # cs \<Rightarrow> if c = CHR ''['' then (case link_from [] cs of Some t \<Rightarrow> strip t | None \<Rightarrow> raw) else raw
      | [] \<Rightarrow> raw)"

text \<open>\<open>Path(s).stem\<close>\<close>

definition path_name :: "string \<Rightarrow> string" where
  "path_name s =
     (case filter (\<lambda>p. p \<noteq> [] \<and> p \<noteq> ''.'') (split_on CHR ''/'' s) of [] \<Rightarrow> [] | ps \<Rightarrow> last ps)"

definition name_stem :: "string \<Rightarrow> string" where
  "name_stem n =
     (let ext = takeWhile (\<lambda>c. c \<noteq> CHR ''.'') (rev n)
      in if length ext < length n \<and> ext \<noteq> [] \<and> Suc (length ext) < length n
         then take (length n - Suc (length ext)) n else n)"

definition path_stem :: "string \<Rightarrow> string" where
  "path_stem s = name_stem (path_name s)"

definition phase_id_of :: "string \<Rightarrow> string \<Rightarrow> string" where
  "phase_id_of master_stem basename =
     (if prefix (master_stem @ ''-'') basename then drop (length master_stem + 1) basename else basename)"

definition row_phase :: "string \<Rightarrow> string list \<Rightarrow> phase res" where
  "row_phase master_stem cells =
     (let plan_file = strip_char CHR 0x60 (link_text (strip (cells ! 1)));
          pid = phase_id_of master_stem (path_stem plan_file)
      in bind_res (validate_slug pid) (\<lambda>_.
           Inr \<lparr>ph_id = pid, ph_plan_file = plan_file, ph_scope = strip (cells ! 2), ph_effort = strip (cells ! 3)\<rparr>))"

text \<open>The loop over the lines; the flags are \<open>in_table\<close> and \<open>seen_separator\<close>.\<close>

fun table_phases :: "string \<Rightarrow> bool \<Rightarrow> bool \<Rightarrow> string list \<Rightarrow> phase list res" where
  "table_phases stem in_table seen [] = Inr []"
| "table_phases stem in_table seen (line # lines) =
     (let s = strip line in
      if \<not> in_table \<and> prefix ''##'' s then Inr []
      else if \<not> in_table \<and> \<not> prefix ''|'' s then table_phases stem False seen lines
      else if s = [] then Inr []
      else if prefix ''##'' s then Inr []
      else if is_separator s then table_phases stem True True lines
      else if \<not> seen then table_phases stem True False lines
      else if length (split_row s) < 4 then table_phases stem True True lines
      else bind_res (row_phase stem (split_row s)) (\<lambda>p.
           bind_res (table_phases stem True True lines) (\<lambda>ps. Inr (p # ps))))"

definition parse_sessions_index :: "string \<Rightarrow> string \<Rightarrow> phase list res" where
  "parse_sessions_index master_stem text =
     (case find_header True text of
        None \<Rightarrow> Inr []
      | Some rest \<Rightarrow> table_phases master_stem False False (split_lines rest))"

section \<open>Effort\<close>

text \<open>A decimal number and what follows it.\<close>

definition number_at :: "string \<Rightarrow> (rat \<times> string) option" where
  "number_at s =
     (let ds = takeWhile is_digit s; r = drop (length ds) s in
      if ds = [] then None
      else (case r of
              c # t \<Rightarrow> (let fs = takeWhile is_digit t in
                        if c = CHR ''.'' \<and> fs \<noteq> []
                        then Some (of_nat (nat_of_digits ds) + of_nat (nat_of_digits fs) / 10 ^ length fs,
                                   drop (length fs) t)
                        else Some (of_nat (nat_of_digits ds), r))
            | [] \<Rightarrow> Some (of_nat (nat_of_digits ds), r)))"

definition effort_single :: "string \<Rightarrow> rat option" where
  "effort_single s =
     (case number_at s of
        None \<Rightarrow> None
      | Some (v, u) \<Rightarrow> if ci_rest ''h'' u = Some [] then Some (v * 60)
                        else if ci_rest ''min'' u = Some [] then Some v else None)"

definition effort_range :: "string \<Rightarrow> rat option" where
  "effort_range s =
     (case number_at s of
        Some (_, c # t) \<Rightarrow> if c = CHR ''-'' then effort_single t else None
      | _ \<Rightarrow> None)"

definition parse_effort_minutes :: "string \<Rightarrow> int option" where
  "parse_effort_minutes raw =
     (let s = filter (\<lambda>c. c \<noteq> CHR '' '') (strip raw) in
      map_option round_half_even
        (case effort_range s of Some v \<Rightarrow> Some v | None \<Rightarrow> effort_single s))"

lemma effort_examples:
  "parse_effort_minutes ''2-3 h'' = Some 180" "parse_effort_minutes ''1.5h'' = Some 90"
  "parse_effort_minutes ''45 min'' = Some 45" "parse_effort_minutes ''2-3 hr'' = None"
  by code_simp+

section \<open>Properties\<close>

text \<open>
  Every phase the parser returns has an id that passes the slug check, so a plan file cannot
  put shell characters or path separators into a dispatch command through its table.
\<close>

theorem parse_index_ids_safe:
  assumes "parse_sessions_index stem text = Inr ps" and "p \<in> set ps"
  shows "validate_slug (ph_id p) = Inr () \<and> slug_re_match (ph_id p)"
proof -
  have row: "slug_re_match (ph_id q)" if "row_phase stem cells = Inr q" for cells q
    using that by (auto simp: row_phase_def Let_def bind_res_Inr validate_slug_def)
  have "\<forall>p\<in>set ps. slug_re_match (ph_id p)" if "table_phases stem it sn lines = Inr ps" for it sn lines ps
    using that
  proof (induction stem it sn lines arbitrary: ps rule: table_phases.induct)
    case (2 stem it sn line lines)
    then show ?case
      by (auto simp: Let_def bind_res_Inr validate_slug_def row_phase_def split: if_splits)
  qed simp
  with assms show ?thesis
    by (auto simp: parse_sessions_index_def validate_slug_def split: option.splits)
qed

definition render_row :: "phase \<Rightarrow> string" where
  "render_row p = CHR ''|'' # join_with CHR ''|''
     (map (\<lambda>c. CHR '' '' # c @ '' '') [ph_id p, CHR 0x60 # ph_plan_file p @ [CHR 0x60], ph_scope p, ph_effort p]) @ ''|''"

definition render_index :: "phase list \<Rightarrow> string" where
  "render_index ps = ''## Sessions index'' @ [newline] @ join_with newline
     ([] # ''| Session | Plan file | Scope | Effort |'' # ''|---|---|---|---|'' # map render_row ps)"

definition cell_ok :: "string \<Rightarrow> bool" where
  "cell_ok s \<longleftrightarrow> strip s = s \<and> newline \<notin> set s \<and> CHR ''|'' \<notin> set s"

definition phase_ok :: "string \<Rightarrow> phase \<Rightarrow> bool" where
  "phase_ok stem p \<longleftrightarrow> slug_pattern (ph_id p) \<and> ph_plan_file p = stem @ ''-'' @ ph_id p @ ''.md''
     \<and> cell_ok (ph_scope p) \<and> cell_ok (ph_effort p)"

lemma strip_pad: "strip s = s \<Longrightarrow> strip (CHR '' '' # s @ '' '') = s"
proof -
  assume a: "strip s = s"
  have "lstrip (CHR '' '' # s @ '' '') = lstrip (s @ '' '')" by (simp add: lstrip_def is_space_def)
  show ?thesis
  proof (cases "s = []")
    case True
    then show ?thesis by (simp add: strip_def lstrip_def rstrip_def is_space_def)
  next
    case False
    have h: "\<not> is_space (hd s)"
    proof
      assume sp: "is_space (hd s)"
      then have "length (strip s) < length s"
      proof -
        from False sp have "lstrip s = lstrip (tl s)" by (cases s) (auto simp: lstrip_def)
        then have "length (lstrip s) \<le> length (tl s)" using length_dropWhile_le[of is_space "tl s"] by (simp add: lstrip_def)
        moreover have "length (strip s) \<le> length (lstrip s)"
          unfolding strip_def rstrip_def using length_dropWhile_le[of is_space "rev (lstrip s)"] by simp
        moreover have "length (tl s) < length s" using False by simp
        ultimately show ?thesis by linarith
      qed
      with a show False by simp
    qed
    then have l: "lstrip s = s" using False by (cases s) (auto simp: lstrip_def)
    with a have r: "rstrip s = s" by (simp add: strip_def)
    have "lstrip (CHR '' '' # s @ '' '') = s @ '' ''" using h False
      by (cases s) (auto simp: lstrip_def is_space_def)
    moreover have "rstrip (s @ '' '') = rstrip s" by (simp add: rstrip_def is_space_def)
    ultimately show ?thesis using r by (simp add: strip_def)
  qed
qed

lemma slug_chars_plain:
  assumes "is_slug_char c"
  shows "\<not> is_space c \<and> c \<notin> {CHR ''|'', CHR 0x60, CHR ''['', CHR ''/'', CHR ''.'', newline}"
  using assms by (auto simp: is_slug_char_def SLUG_CHARS_def is_space_def newline_def)

lemma strip_ends: "s \<noteq> [] \<Longrightarrow> \<not> is_space (hd s) \<Longrightarrow> \<not> is_space (last s) \<Longrightarrow> strip s = s"
proof -
  assume a: "s \<noteq> []" "\<not> is_space (hd s)" "\<not> is_space (last s)"
  then have "lstrip s = s" by (cases s) (auto simp: lstrip_def)
  moreover have "dropWhile is_space (rev s) = rev s" using a by (cases s rule: rev_cases) auto
  ultimately show ?thesis by (simp add: strip_def rstrip_def)
qed

lemma strip_char_ends:
  "s \<noteq> [] \<Longrightarrow> hd s \<noteq> x \<Longrightarrow> last s \<noteq> x \<Longrightarrow> strip_char x (x # s @ [x]) = s"
proof -
  assume a: "s \<noteq> []" "hd s \<noteq> x" "last s \<noteq> x"
  obtain y ys where s: "s = y # ys" using a(1) by (cases s) auto
  obtain z zs where r: "rev s = z # zs" using a(1) by (cases "rev s") auto
  have yz: "y \<noteq> x" "z \<noteq> x" using a s r by (auto simp: last_rev hd_rev[symmetric])
  have "dropWhile (\<lambda>c. c = x) (x # s @ [x]) = s @ [x]" using s yz by simp
  moreover have "dropWhile (\<lambda>c. c = x) (rev (s @ [x])) = rev s" using r yz by simp
  ultimately show ?thesis by (simp add: strip_char_def)
qed

lemma file_chars:
  assumes stem: "slug_pattern stem" and ok: "phase_ok stem p" and c: "c \<in> set (ph_plan_file p)"
  shows "c \<noteq> CHR ''/'' \<and> c \<noteq> newline \<and> c \<noteq> CHR ''|'' \<and> c \<noteq> CHR 0x60"
  using c ok slug_pattern_chars[OF stem] slug_pattern_chars[of "ph_id p"] slug_chars_plain
  by (fastforce simp: phase_ok_def newline_def)

lemma file_name:
  assumes stem: "slug_pattern stem" and ok: "phase_ok stem p"
  shows "path_stem (ph_plan_file p) = stem @ ''-'' @ ph_id p"
proof -
  have f: "ph_plan_file p = stem @ ''-'' @ ph_id p @ ''.md''" using ok by (simp add: phase_ok_def)
  have "CHR ''/'' \<notin> set (ph_plan_file p)" using file_chars[OF stem ok] by blast
  then have n: "path_name (ph_plan_file p) = ph_plan_file p"
    by (simp add: path_name_def split_on_no_sep f)
  have "takeWhile (\<lambda>c. c \<noteq> CHR ''.'') (rev (ph_plan_file p)) = ''dm''" by (simp add: f)
  then show ?thesis unfolding path_stem_def n by (simp add: name_stem_def f)
qed

lemma row_cells:
  assumes stem: "slug_pattern stem" and ok: "phase_ok stem p"
  shows "split_row (render_row p) = [ph_id p, CHR 0x60 # ph_plan_file p @ [CHR 0x60], ph_scope p, ph_effort p]"
proof -
  let ?cells = "[ph_id p, CHR 0x60 # ph_plan_file p @ [CHR 0x60], ph_scope p, ph_effort p]"
  let ?pad = "\<lambda>c. CHR '' '' # c @ '' ''"
  let ?inner = "join_with CHR ''|'' (map ?pad ?cells)"
  have idc: "\<forall>c\<in>set (ph_id p). \<not> is_space c \<and> c \<noteq> CHR ''|''"
    using ok slug_pattern_chars[of "ph_id p"] slug_chars_plain by (auto simp: phase_ok_def)
  have st: "strip c = c" if "c \<in> set ?cells" for c
    using that ok strip_not_space[of "ph_id p"] idc strip_ends[of "CHR 0x60 # ph_plan_file p @ [CHR 0x60]"]
    by (auto simp: phase_ok_def cell_ok_def is_space_def)
  have nb: "\<forall>x\<in>set (map ?pad ?cells). CHR ''|'' \<notin> set x"
    using ok idc file_chars[OF stem ok] by (auto simp: phase_ok_def cell_ok_def)
  have "render_row p \<noteq> []" "hd (render_row p) = CHR ''|''" "last (render_row p) = CHR ''|''"
    by (simp_all add: render_row_def)
  then have "strip (render_row p) = render_row p" by (intro strip_ends) (simp_all add: is_space_def)
  moreover have "strip_char CHR ''|'' (render_row p) = ?inner"
    unfolding render_row_def by (rule strip_char_ends) simp_all
  moreover have "split_on CHR ''|'' ?inner = map ?pad ?cells"
    by (rule split_join[OF _ nb]) simp
  moreover have "map strip (map ?pad ?cells) = ?cells"
  proof -
    have "map (\<lambda>c. strip (?pad c)) ?cells = map (\<lambda>c. c) ?cells"
      by (rule map_cong[OF refl]) (rule strip_pad[OF st])
    then show ?thesis by simp
  qed
  ultimately show ?thesis by (simp only: split_row_def)
qed

lemma row_strip: "strip (render_row p) = render_row p"
  by (rule strip_ends) (simp_all add: render_row_def is_space_def)

lemma row_not_separator: "\<not> is_separator (render_row p)"
  by (simp add: is_separator_def render_row_def is_space_def list_all_iff)

lemma row_no_newline:
  assumes stem: "slug_pattern stem" and ok: "phase_ok stem p"
  shows "newline \<notin> set (render_row p)"
proof -
  have "newline \<notin> set (ph_id p)"
    using ok slug_pattern_chars[of "ph_id p" newline] slug_chars_plain[of newline] by (auto simp: phase_ok_def)
  moreover have "newline \<notin> set (ph_plan_file p)" using file_chars[OF stem ok, of newline] by blast
  moreover have "newline \<notin> set (ph_scope p)" "newline \<notin> set (ph_effort p)"
    using ok by (simp_all add: phase_ok_def cell_ok_def)
  ultimately show ?thesis by (simp add: render_row_def newline_def)
qed

lemma row_parsed:
  assumes stem: "slug_pattern stem" and ok: "phase_ok stem p"
  shows "row_phase stem (split_row (render_row p)) = Inr p"
proof -
  let ?q = "CHR 0x60 # ph_plan_file p @ [CHR 0x60]"
  have ne: "ph_plan_file p \<noteq> []" using ok by (simp add: phase_ok_def)
  have "strip ?q = ?q" by (rule strip_ends) (simp_all add: is_space_def)
  moreover have "link_text ?q = ?q" by (simp add: link_text_def)
  moreover have "strip_char CHR 0x60 ?q = ph_plan_file p"
    by (rule strip_char_ends[OF ne]) (use file_chars[OF stem ok] ne in \<open>auto dest: hd_in_set last_in_set\<close>)
  moreover have "phase_id_of stem (stem @ ''-'' @ ph_id p) = ph_id p" by (simp add: phase_id_of_def)
  moreover have "slug_re_match (ph_id p)"
    using ok by (simp add: phase_ok_def slug_re_match_def)
  moreover have "strip (ph_scope p) = ph_scope p" "strip (ph_effort p) = ph_effort p"
    using ok by (simp_all add: phase_ok_def cell_ok_def)
  ultimately show ?thesis 
    by (simp add: row_cells[OF stem ok] row_phase_def file_name[OF stem ok] Let_def validate_slug_def guard_res_def)

qed

lemma rows_parsed:
  assumes "slug_pattern stem"
  shows "\<forall>p\<in>set ps. phase_ok stem p \<Longrightarrow> table_phases stem True True (map render_row ps) = Inr ps"
proof (induction ps)
  case (Cons p ps)
  then have ok: "phase_ok stem p" by simp
  have h: "render_row p \<noteq> []" "\<not> prefix ''##'' (render_row p)" by (simp_all add: render_row_def)
  have n: "length (split_row (render_row p)) = 4" by (simp add: row_cells[OF assms ok])
  have ih: "table_phases stem True True (map render_row ps) = Inr ps" using Cons by simp
  show ?case
    by (simp add: ih h n row_strip row_not_separator row_parsed[OF assms ok] Let_def)
qed simp

lemma lower_S: "lower_char CHR ''S'' = CHR ''s''" "lower_char CHR ''#'' = CHR ''#''"
  by code_simp+

lemma lower_low [simp]: "\<not> c \<le> CHR ''Z'' \<Longrightarrow> lower_char c = c"
  by (simp add: lower_char_def)

lemma header_found:
  "find_header True (''## Sessions index'' @ [newline, newline] @ CHR ''|'' # t) = Some (newline # CHR ''|'' # t)"
  by (simp add: header_at_def skip_blanks_def lstrip_def is_space_def lower_S lower_low newline_def)

text \<open>
  Round trip: a Sessions index written for any list of phases in the canonical form, with slug
  ids, files named after the plan and the phase, and cells that hold no bar and no line end, is
  read back as exactly those phases, in order.
\<close>

theorem sessions_index_roundtrip:
  assumes "slug_pattern stem" and "\<forall>p\<in>set ps. phase_ok stem p"
  shows "parse_sessions_index stem (render_index ps) = Inr ps"
proof -
  let ?head = "''| Session | Plan file | Scope | Effort |''"
  let ?sep = "''|---|---|---|---|''"
  let ?lines = "?head # ?sep # map render_row ps"
  have j: "join_with newline ([] # ?lines) = newline # join_with newline ?lines" by simp
  obtain t where t: "join_with newline ?lines = CHR ''|'' # t" by simp
  have f: "find_header True (render_index ps) = Some (newline # join_with newline ?lines)"
    unfolding render_index_def j t using header_found[of t] by simp
  have nn: "\<forall>l\<in>set ?lines. newline \<notin> set l"
    using row_no_newline[OF assms(1)] assms(2) by (auto simp: newline_def)
  have sp: "split_on newline (newline # join_with newline ?lines) = [] # ?lines"
    using split_join[OF _ nn] by simp
  have "last ?lines \<noteq> []" by (auto simp: last_map render_row_def)
  then have "split_lines (newline # join_with newline ?lines) = [] # ?lines"
    unfolding split_lines_def sp Let_def by simp
  moreover have "strip ?head = ?head" "strip ?sep = ?sep" by code_simp+
  moreover have "\<not> is_separator ?head" "is_separator ?sep" by code_simp+
  moreover have "strip [] = []" by code_simp
  ultimately show ?thesis
    unfolding parse_sessions_index_def f option.case
    using rows_parsed[OF assms] by (simp add: Let_def)
qed

theorem sessions_index_roundtrip_witness:
  "parse_sessions_index ''w1'' (render_index
     [\<lparr>ph_id = ''a'', ph_plan_file = ''w1-a.md'', ph_scope = ''x'', ph_effort = ''1h''\<rparr>])
   = Inr [\<lparr>ph_id = ''a'', ph_plan_file = ''w1-a.md'', ph_scope = ''x'', ph_effort = ''1h''\<rparr>]"
proof -
  have "slug_pattern ''w1''" by code_simp
  moreover have "phase_ok ''w1'' \<lparr>ph_id = ''a'', ph_plan_file = ''w1-a.md'', ph_scope = ''x'', ph_effort = ''1h''\<rparr>"
    by code_simp
  ultimately show ?thesis by (intro sessions_index_roundtrip) simp_all
qed

definition example_phase :: phase where
  "example_phase = \<lparr>ph_id = ''a'', ph_plan_file = ''w1-a.md'', ph_scope = ''x'', ph_effort = ''1h''\<rparr>"

theorem parse_index_ids_safe_witness:
  "validate_slug (ph_id example_phase) = Inr ()"
proof -
  have "parse_sessions_index ''w1'' (render_index [example_phase]) = Inr [example_phase]" by code_simp
  from parse_index_ids_safe[OF this, of example_phase] show ?thesis by simp
qed

end
