(* ===== verification/Supervisor.thy ===== *)
theory Supervisor
  imports Tick_Apply Plan_Parser
begin

text \<open>
  One tick of the supervisor (\<open>supervisor.py\<close>): snapshot, detect, apply. The detection works on
  a copy of the snapshot and on the delta, both in the record \<open>work\<close>; it writes nothing but the
  quota row. \<open>tick_decide\<close> is the code up to a call of \<open>_commit\<close>, \<open>tick_commit\<close> is \<open>_commit\<close>, and
  \<open>tick\<close> puts whatever other processes wrote in between (\<open>others\<close>) between the two.

  The inputs of a tick are in \<open>tick_env\<close>: the process table and the answers of \<open>kill\<close>, the worker
  logs, the time zones, the text of the master plan, the health of the store at the quota gate,
  the local time of day and the fresh UUID. One instant \<open>now\<close> stands for the clock readings of
  a tick. \<open>data["config"]\<close> raises \<open>KeyError\<close> on a plan without one, and a comparison with a value
  that is not a number raises \<open>TypeError\<close> (here a \<open>RuntimeErr\<close>).
\<close>

section \<open>Environment and results\<close>

record tick_config =
  tc_stuck_threshold :: int
  tc_stuck_cpu :: int
  tc_idle_window :: rat
  tc_idle_gap :: rat
  tc_idle_cpu :: rat
  tc_idle_samples :: int
  tc_coolant :: bool
  tc_notify :: notify_spec

record tick_env =
  te_cfg :: tick_config
  te_os :: os_view
  te_logs :: "jval \<Rightarrow> string option"
  te_zones :: "string option \<Rightarrow> int \<Rightarrow> zone option"
  te_plan :: "string option"
  te_store :: store_health
  te_local :: int
  te_fresh :: string

datatype action = ADispatch | AIdle | ALeaseExpired | AWorkerDead | AEscalate | ABlockerResumed
  | AHalt | APlanDone | AError | AStalled

datatype detail =
    NoInfo
  | NoState
  | ConcurrentWrite
  | Death jval "string option"
  | StalledFor jval int
  | EscalatedBlocker string rat
  | ResumedBlocker string
  | TerminalStatus jval
  | InFlight jval jval
  | PinnedBy string
  | NoIndex
  | HaltedPhase string nat
  | GateHeld gate_detail
  | Dispatched string string
  | PlanSlug string
  | TasksPending nat
  | NothingDispatchable

record tick_result =
  tr_action :: action
  tr_detail :: detail
  tr_phase :: jval
  tr_token :: jval
  tr_body :: "notice option"
  tr_side :: "notice list"
  tr_worktree :: "jval option"

definition result :: "action \<Rightarrow> detail \<Rightarrow> tick_result" where
  "result a dt = \<lparr>tr_action = a, tr_detail = dt, tr_phase = JNull, tr_token = JNull, tr_body = None,
     tr_side = [], tr_worktree = None\<rparr>"

text \<open>What runs only after the commit, in order.\<close>

datatype post = PostStop jval jval | PostReapRecord int jval int | PostReapQuiet int

section \<open>Writing into the delta and the working snapshot\<close>

record work =
  w_doc :: doc
  w_delta :: tick_delta
  w_side :: "notice list"

definition carry_events :: "obj list \<Rightarrow> work \<Rightarrow> work" where
  "carry_events evs w = w\<lparr>w_delta := (w_delta w)\<lparr>dl_events := dl_events (w_delta w) @ evs\<rparr>,
     w_doc := (w_doc w)\<lparr>d_events := d_events (w_doc w) @ evs\<rparr>\<rparr>"

definition delta_event :: "int \<Rightarrow> string \<Rightarrow> obj \<Rightarrow> work \<Rightarrow> work" where
  "delta_event now ty flds w = carry_events [mk_event now ty flds] w"

definition set_claim_updates :: "jval \<Rightarrow> obj \<Rightarrow> work \<Rightarrow> work" where
  "set_claim_updates token flds w = w\<lparr>w_delta := (w_delta w)\<lparr>dl_claim_token := token,
     dl_claim_updates := dupd (dl_claim_updates (w_delta w)) flds\<rparr>\<rparr>"

definition put_claim :: "obj \<Rightarrow> work \<Rightarrow> work" where
  "put_claim claim w = w\<lparr>w_doc := (w_doc w)\<lparr>d_claim := Some claim\<rparr>\<rparr>"

definition stamp_claim :: "obj \<Rightarrow> obj \<Rightarrow> work \<Rightarrow> work" where
  "stamp_claim claim flds w = put_claim (dupd claim flds) (set_claim_updates (jget claim ''claimed_by'') flds w)"

text \<open>The claim has been edited in place: it goes to the snapshot, the named fields to the delta.\<close>

definition record_claim :: "obj \<Rightarrow> string list \<Rightarrow> work \<Rightarrow> work" where
  "record_claim claim names w =
     put_claim claim (set_claim_updates (jget claim ''claimed_by'') (map (\<lambda>n. (n, jget claim n)) names) w)"

definition stamp_blocker :: "string \<Rightarrow> obj \<Rightarrow> work \<Rightarrow> work" where
  "stamp_blocker b flds w =
     w\<lparr>w_delta := (w_delta w)\<lparr>dl_blocker_updates := AList.update b
          (dupd (case map_of (dl_blocker_updates (w_delta w)) b of None \<Rightarrow> [] | Some u \<Rightarrow> u) flds)
          (dl_blocker_updates (w_delta w))\<rparr>,
       w_doc := (w_doc w)\<lparr>d_blockers := upd_first (has_id b) (\<lambda>bl. dupd bl flds) (d_blockers (w_doc w))\<rparr>\<rparr>"

definition set_status :: "string \<Rightarrow> work \<Rightarrow> work" where
  "set_status s w = w\<lparr>w_delta := (w_delta w)\<lparr>dl_status := Some s\<rparr>, w_doc := (w_doc w)\<lparr>d_status := JStr s\<rparr>\<rparr>"

definition delta_status :: "string \<Rightarrow> work \<Rightarrow> work" where
  "delta_status s w = w\<lparr>w_delta := (w_delta w)\<lparr>dl_status := Some s\<rparr>\<rparr>"

definition set_release :: "work \<Rightarrow> work" where
  "set_release w = w\<lparr>w_delta := (w_delta w)\<lparr>dl_release := True\<rparr>, w_doc := (w_doc w)\<lparr>d_claim := None\<rparr>\<rparr>"

definition add_side :: "notice \<Rightarrow> work \<Rightarrow> work" where
  "add_side n w = w\<lparr>w_side := w_side w @ [n]\<rparr>"

definition add_inbox :: "string \<Rightarrow> obj \<Rightarrow> work \<Rightarrow> work" where
  "add_inbox ty details w = w\<lparr>w_delta := (w_delta w)\<lparr>dl_inbox := dl_inbox (w_delta w) @
     [\<lparr>ie_type = ty, ie_plan = d_slug (w_doc w), ie_details = details\<rparr>]\<rparr>\<rparr>"

text \<open>The \<open>require_\<close> methods of \<open>TickDelta\<close>.\<close>

definition require :: "(tick_pre \<Rightarrow> tick_pre \<Rightarrow> tick_pre) \<Rightarrow> work \<Rightarrow> work" where
  "require f w = w\<lparr>w_delta := (w_delta w)\<lparr>dl_pre := f (dl_observed (w_delta w)) (dl_pre (w_delta w))\<rparr>\<rparr>"

definition require_claim :: "work \<Rightarrow> work" where
  "require_claim = require (\<lambda>obs pre. pre\<lparr>pre_claim := pre_claim obs\<rparr>)"

definition require_claim_field :: "string \<Rightarrow> work \<Rightarrow> work" where
  "require_claim_field k = require (\<lambda>obs pre.
     pre\<lparr>pre_claim_fields := dset k (jget (pre_claim_fields obs) k) (pre_claim_fields pre)\<rparr>)"

definition require_event_log :: "work \<Rightarrow> work" where
  "require_event_log = require (\<lambda>obs pre. pre\<lparr>pre_max_event_id := pre_max_event_id obs\<rparr>)"

definition require_blocker :: "string \<Rightarrow> work \<Rightarrow> work" where
  "require_blocker b = require (\<lambda>obs pre.
     case map_of (pre_blockers obs) b of
       None \<Rightarrow> pre
     | Some st \<Rightarrow> pre\<lparr>pre_blockers := AList.update b st (pre_blockers pre)\<rparr>)"

definition require_status :: "work \<Rightarrow> work" where
  "require_status = require (\<lambda>obs pre. pre\<lparr>pre_status := pre_status obs\<rparr>)"

section \<open>The gap-fill emitters\<close>

text \<open>\<open>_emit_stalled_claim_notify\<close>\<close>

definition emit_stalled_claim_notify :: "int \<Rightarrow> work \<Rightarrow> work" where
  "emit_stalled_claim_notify now w =
     (case d_claim (w_doc w) of
        None \<Rightarrow> w
      | Some claim \<Rightarrow>
          if claim = [] \<or> d_status (w_doc w) \<noteq> JStr STATUS_RUNNING \<or> dtrue claim ''stalled_notified'' then w
          else case time_field claim ''lease_expires'' of
            None \<Rightarrow> w
          | Some expires \<Rightarrow>
              if expires \<ge> now then w
              else let age_min = (now - expires) div (60 * usec); phase = jget claim ''phase_id'' in
                add_inbox ''stalled_claim''
                  [(''phase_id'', phase), (''stalled_min'', JInt age_min), (''claimed_by'', jget claim ''claimed_by'')]
                 (add_side (StalledClaimNote phase age_min)
                   (delta_event now EVENT_STALLED_CLAIM_NOTIFIED [(''phase'', phase), (''stalled_min'', JInt age_min)]
                     (stamp_claim claim [(''stalled_notified'', JBool True)]
                       (require_claim_field ''stalled_notified'' (require_claim_field ''lease_expires'' w))))))"

text \<open>\<open>_emit_stuck_blocker_repings\<close>, one blocker and all.\<close>

definition reping_blocker :: "int \<Rightarrow> string \<times> string \<times> int \<Rightarrow> work \<Rightarrow> work" where
  "reping_blocker now r w =
     (case r of (bid, phase, age) \<Rightarrow>
        (case find (has_id bid) (d_blockers (w_doc w)) of
           None \<Rightarrow> w
         | Some b \<Rightarrow>
             (let age_min = (case time_field b ''asked_at'' of None \<Rightarrow> 0 | Some t \<Rightarrow> (now - t) div (60 * usec)) in
              add_inbox ''stuck_blocker''
                [(''blocker_id'', JStr bid), (''phase_id'', jget b ''phase_id''), (''question'', jget b ''question''),
                 (''options'', jget b ''options'')]
               (add_side (StuckBlockerNote bid phase age)
                 (delta_event now EVENT_STUCK_BLOCKER_REPINGED
                    [(''blocker_id'', JStr bid), (''phase'', jget b ''phase_id''), (''age_min'', JInt age_min)]
                   (stamp_blocker bid [(''last_repinged_at'', iso now)] (require_blocker bid w)))))))"

definition emit_stuck_blocker_repings :: "int \<Rightarrow> work \<Rightarrow> work" where
  "emit_stuck_blocker_repings now w = fold (reping_blocker now) (stuck_blocker_repings now (w_doc w)) w"

definition STUCK_TOOL_DRIFT_SECONDS :: int where "STUCK_TOOL_DRIFT_SECONDS = 5"

definition stuck_candidate :: "tick_config \<Rightarrow> rat \<Rightarrow> descendant \<Rightarrow> bool" where
  "stuck_candidate cfg active_age_s d \<longleftrightarrow>
     elapsed_seconds d \<le> active_age_s + of_int STUCK_TOOL_DRIFT_SECONDS
     \<and> elapsed_seconds d \<ge> of_int (tc_stuck_threshold cfg)
     \<and> cpu_seconds d \<le> of_int (tc_stuck_cpu cfg)"

definition report_stuck_tool :: "int \<Rightarrow> int \<Rightarrow> obj \<Rightarrow> descendant \<Rightarrow> work \<Rightarrow> work" where
  "report_stuck_tool now pid claim d w =
     (let phase = jget claim ''phase_id'';
          claim' = mark_tool_stuck_emitted claim (dpid d) (iso now);
          body = [(''descendant_pid'', JInt (dpid d)), (''command'', JStr (take 200 (command d))),
                  (''elapsed_seconds'', JInt \<lfloor>elapsed_seconds d\<rfloor>), (''cpu_seconds'', JFloat (cpu_seconds d))]
      in add_inbox ''tool_stuck'' ((''phase_id'', phase) # (''worker_pid'', JInt pid) # body)
          (delta_event now EVENT_TOOL_STUCK
             ((''plan'', JStr (d_slug (w_doc w))) # (''phase'', phase) # (''worker_pid'', JInt pid) # body)
            (record_claim claim' [''stuck_tool_emitted_at'']
              (require_claim_field ''stuck_tool_emitted_at''
                (require_claim_field ''quiet_span'' (require_claim_field ''active_tool_started_at'' w))))))"

definition stuck_tool_step :: "tick_config \<Rightarrow> int \<Rightarrow> int \<Rightarrow> rat \<Rightarrow> descendant \<Rightarrow> work \<Rightarrow> work" where
  "stuck_tool_step cfg now pid active_age_s d w =
     (case d_claim (w_doc w) of
        None \<Rightarrow> w
      | Some claim \<Rightarrow>
          if stuck_candidate cfg active_age_s d \<and> \<not> tool_stuck_already_emitted claim (dpid d)
          then report_stuck_tool now pid claim d w else w)"

definition claim_pid :: "obj \<Rightarrow> int option" where
  "claim_pid claim = (case iget claim ''pid'' of Some p \<Rightarrow> if p = 0 then None else Some p | None \<Rightarrow> None)"

text \<open>\<open>_emit_stuck_tool\<close>\<close>

definition emit_stuck_tool :: "tick_config \<Rightarrow> os_view \<Rightarrow> int \<Rightarrow> work \<Rightarrow> work" where
  "emit_stuck_tool cfg os now w =
     (if tc_stuck_threshold cfg = 0 then w
      else case d_claim (w_doc w) of
        None \<Rightarrow> w
      | Some claim \<Rightarrow>
          (case claim_pid claim of
             None \<Rightarrow> w
           | Some pid \<Rightarrow>
               if \<not> dtrue claim ''active_tool_started_at'' then w
               else case time_field claim ''active_tool_started_at'' of
                 None \<Rightarrow> w
               | Some t \<Rightarrow>
                   fold (stuck_tool_step cfg now pid (of_int (now - t) / of_int usec))
                     (walk_worker_tree pid (capture_ps_snapshot os)) w))"

text \<open>The sample of \<open>_emit_worker_idle\<close>: the claim after \<open>append_cpu_sample\<close>, when \<open>ps\<close> saw the worker.\<close>

definition sample_worker :: "tick_config \<Rightarrow> os_view \<Rightarrow> int \<Rightarrow> int \<Rightarrow> obj \<Rightarrow> work \<Rightarrow> obj \<times> work" where
  "sample_worker cfg os now pid claim w =
     (case tree_cpu_seconds pid (capture_ps_snapshot os) of
        None \<Rightarrow> (claim, w)
      | Some cpu \<Rightarrow>
          (let claim' = append_cpu_sample claim cpu now (tc_idle_window cfg * 60 + tc_idle_gap cfg)
           in (claim', record_claim claim' [''cpu_samples''] (require_claim_field ''cpu_samples'' w))))"

definition low_cpu_minutes :: "int \<Rightarrow> obj \<Rightarrow> rat" where
  "low_cpu_minutes now claim =
     (case cpu_samples_of claim of
        [] \<Rightarrow> 0
      | s # _ \<Rightarrow> (case sample_ts s of None \<Rightarrow> 0 | Some t \<Rightarrow> of_int (now - t) / of_int usec / 60))"

definition report_worker_idle :: "int \<Rightarrow> int \<Rightarrow> obj \<Rightarrow> work \<Rightarrow> work" where
  "report_worker_idle now pid claim w =
     (let phase = jget claim ''phase_id'';
          low = low_cpu_minutes now claim
      in add_inbox ''worker_idle''
           [(''phase_id'', phase), (''pid'', JInt pid), (''low_cpu_minutes'', JFloat (round1 low))]
          (add_side (WorkerIdleNote phase pid low)
            (delta_event now EVENT_WORKER_IDLE
               [(''plan'', JStr (d_slug (w_doc w))), (''phase'', phase), (''pid'', JInt pid),
                (''low_cpu_minutes'', JFloat (round1 low))]
              (record_claim (mark_worker_idle_emitted claim now) [''worker_idle_notified'', ''worker_idle_notified_at'']
                (require_claim_field ''worker_idle_notified''
                  (require_claim_field ''quiet_span'' (require_claim_field ''active_tool_started_at'' w)))))))"

text \<open>\<open>_emit_worker_idle\<close>\<close>

definition emit_worker_idle :: "tick_config \<Rightarrow> os_view \<Rightarrow> int \<Rightarrow> work \<Rightarrow> work" where
  "emit_worker_idle cfg os now w =
     (case d_claim (w_doc w) of
        None \<Rightarrow> w
      | Some claim0 \<Rightarrow>
          (case claim_pid claim0 of
             None \<Rightarrow> w
           | Some pid \<Rightarrow>
               if activity_marker_suppresses claim0 now (tc_stuck_threshold cfg) then w
               else case sample_worker cfg os now pid claim0 w of
                 (claim, w1) \<Rightarrow>
                   if quiet_span_active claim now then w1
                   else if \<not> worker_idle_window_satisfied claim now (tc_idle_samples cfg) (tc_idle_window cfg)
                          (tc_idle_gap cfg) (tc_idle_cpu cfg) then w1
                   else if worker_idle_already_emitted claim then w1
                   else report_worker_idle now pid claim w1))"

definition emit_all :: "tick_env \<Rightarrow> int \<Rightarrow> work \<Rightarrow> work" where
  "emit_all env now w =
     emit_worker_idle (te_cfg env) (te_os env) now
       (emit_stuck_tool (te_cfg env) (te_os env) now
         (emit_stuck_blocker_repings now (emit_stalled_claim_notify now w)))"

section \<open>The priority chain\<close>

record decision =
  dc_result :: tick_result
  dc_work :: work
  dc_post :: "post list"

definition decided :: "tick_result \<Rightarrow> work \<Rightarrow> decision" where
  "decided r w = \<lparr>dc_result = r, dc_work = w, dc_post = []\<rparr>"

definition lease_expired :: "int \<Rightarrow> obj \<Rightarrow> bool" where
  "lease_expired now claim = (case time_field claim ''lease_expires'' of None \<Rightarrow> False | Some e \<Rightarrow> e \<le> now)"

text \<open>
  The quota classification both death branches make: the pause row is written at once, the two
  events and the notice go to the tick.
\<close>

definition harvest_quota :: "tick_env \<Rightarrow> int \<Rightarrow> obj \<Rightarrow> work \<Rightarrow> pdb \<Rightarrow> string option \<times> work \<times> pdb" where
  "harvest_quota env now claim w db =
     (case classify_log_tail (te_logs env) (jget claim ''log_path'') of
        None \<Rightarrow> (None, w, db)
      | Some qm \<Rightarrow>
          (case record_quota_death (te_zones env) now qm (jget claim ''phase_id'') (jget claim ''claimed_by'') db of
             (until, evs, db') \<Rightarrow>
               (Some (qm_signature qm),
                add_side (quota_pause_notification (qm_line qm) until) (carry_events evs w), db')))"

definition stop_post :: "tick_env \<Rightarrow> obj \<Rightarrow> post list" where
  "stop_post env claim =
     (if dtrue claim ''claimed_by'' \<and> dtrue claim ''phase_id'' \<and> tc_coolant (te_cfg env)
      then [PostStop (jget claim ''claimed_by'') (jget claim ''phase_id'')] else [])"

definition group_of :: "obj \<Rightarrow> int \<Rightarrow> int" where
  "group_of claim pid = (case iget claim ''pgid'' of Some g \<Rightarrow> if g = 0 then pid else g | None \<Rightarrow> pid)"

definition decide_lease_expired :: "tick_env \<Rightarrow> int \<Rightarrow> obj \<Rightarrow> work \<Rightarrow> pdb \<Rightarrow> decision \<times> pdb" where
  "decide_lease_expired env now claim w db =
     (let phase = jget claim ''phase_id'';
          w1 = set_release (delta_event now EVENT_LEASE_EXPIRED
                 [(''phase'', phase), (''claimed_by'', jget claim ''claimed_by'')]
                 (require_claim_field ''lease_expires'' (require_claim w)))
      in case harvest_quota env now claim w1 db of
           (sig, w2, db') \<Rightarrow>
             (\<lparr>dc_result = result ALeaseExpired (Death phase sig), dc_work = w2,
               dc_post = stop_post env claim @
                 (case claim_pid claim of None \<Rightarrow> []
                  | Some pid \<Rightarrow> [PostReapRecord (group_of claim pid) phase pid])\<rparr>, db'))"

definition decide_worker_dead :: "tick_env \<Rightarrow> int \<Rightarrow> obj \<Rightarrow> int \<Rightarrow> work \<Rightarrow> pdb \<Rightarrow> decision \<times> pdb" where
  "decide_worker_dead env now claim pid w db =
     (let phase = jget claim ''phase_id'' in
      case harvest_quota env now claim w db of
        (sig, w1, db') \<Rightarrow>
          (\<lparr>dc_result = (result AWorkerDead (Death phase sig))\<lparr>tr_phase := phase, tr_token := jget claim ''claimed_by'',
               tr_body := (if sig \<noteq> None \<or> worker_death_already_reported claim then None
                           else Some (WorkerDeadNote phase pid))\<rparr>,
            dc_work = set_release (delta_event now EVENT_PHASE_WORKER_DEAD [(''phase'', phase), (''pid'', JInt pid)]
              (require_claim w1)),
            dc_post = stop_post env claim @ [PostReapQuiet (group_of claim pid)]\<rparr>, db'))"

text \<open>\<open>_detect_stalled\<close>: nothing, or the stalled result and the work after it.\<close>

definition detect_stalled :: "int \<Rightarrow> work \<Rightarrow> (tick_result \<times> work) option res" where
  "detect_stalled now w =
     (case d_claim (w_doc w) of
        None \<Rightarrow> Inr None
      | Some claim \<Rightarrow>
          if claim = [] \<or> dtrue claim ''stalled_notified''
             \<or> jget claim ''last_heartbeat_at'' = jget claim ''started_at'' then Inr None
          else bind_res (stalled_threshold_for_phase (w_doc w) (sget claim ''phase_id'')) (\<lambda>threshold.
            let age = (case heartbeat_age now claim of None \<Rightarrow> 0 | Some a \<Rightarrow> a);
                phase = jget claim ''phase_id''
            in if age < minutes threshold then Inr None
               else Inr (Some
                 ((result AStalled (StalledFor phase age))\<lparr>tr_phase := phase, tr_token := jget claim ''claimed_by'',
                    tr_body := Some (StalledNote phase age)\<rparr>,
                  delta_event now EVENT_PHASE_STALLED
                    [(''phase'', phase), (''claimed_by'', jget claim ''claimed_by''),
                     (''age_seconds'', JFloat (round1 (of_int age / of_int usec)))]
                    (stamp_claim claim [(''stalled_notified'', JBool True)]
                      (require_claim_field ''stalled_notified'' (require_claim_field ''last_heartbeat_at'' w)))))))"

text \<open>A number of the configuration, for a comparison.\<close>

fun jnum :: "jval \<Rightarrow> rat res" where
  "jnum (JInt i) = Inr (of_int i)"
| "jnum (JBool b) = Inr (if b then 1 else 0)"
| "jnum (JFloat r) = Inr r"
| "jnum _ = Inl (RuntimeErr ''TypeError'')"

definition config_num :: "doc \<Rightarrow> string \<Rightarrow> int \<Rightarrow> rat res" where
  "config_num d k dflt =
     (case d_config d of
        None \<Rightarrow> Inl (KeyErr ''config'')
      | Some c \<Rightarrow> (case dget c k of None \<Rightarrow> Inr (of_int dflt) | Some v \<Rightarrow> jnum v))"

definition age_hours :: "int \<Rightarrow> obj \<Rightarrow> rat option" where
  "age_hours now b = map_option (\<lambda>t. of_int (now - t) / of_int usec / 3600) (time_field b ''asked_at'')"

definition escalate_blocker :: "int \<Rightarrow> obj \<Rightarrow> work \<Rightarrow> tick_result \<times> work" where
  "escalate_blocker now b w =
     (let bid = sget b ''id''; a = (case age_hours now b of None \<Rightarrow> 0 | Some a \<Rightarrow> a) in
      (result AEscalate (EscalatedBlocker bid a),
       delta_event now EVENT_BLOCKER_SLA_EXCEEDED
         [(''blocker_id'', JStr bid), (''age_hours'', JFloat (round1 a))]
         (set_status STATUS_PAUSED (require_status (require_blocker bid w)))))"

definition sla_exceeded :: "int \<Rightarrow> rat \<Rightarrow> obj \<Rightarrow> bool" where
  "sla_exceeded now sla b = (case age_hours now b of None \<Rightarrow> False | Some a \<Rightarrow> a \<ge> sla)"

text \<open>The escalation of the first blocker past its service time, outside quiet hours.\<close>

definition escalate :: "tick_env \<Rightarrow> int \<Rightarrow> work \<Rightarrow> (tick_result \<times> work) option res" where
  "escalate env now w =
     (if in_quiet_window (tc_notify (te_cfg env)) (te_local env) then Inr None
      else if d_config (w_doc w) = None then Inl (KeyErr ''config'')
      else if filter (\<lambda>b. age_hours now b \<noteq> None) (open_blockers (w_doc w)) = [] then Inr None
      else bind_res (config_num (w_doc w) ''blocked_question_sla_hours'' DEFAULT_SLA_HOURS) (\<lambda>sla.
        Inr (map_option (\<lambda>b. escalate_blocker now b w)
          (find (\<lambda>b. sla_exceeded now sla b \<and> d_status (w_doc w) \<noteq> JStr STATUS_PAUSED)
             (open_blockers (w_doc w))))))"

text \<open>The answered blockers: each is consumed, and the plan runs again.\<close>

definition consume_blocker :: "int \<Rightarrow> string \<times> string \<Rightarrow> work \<Rightarrow> work" where
  "consume_blocker now e w =
     (case e of (ty, bid) \<Rightarrow>
        delta_event now ty [(''blocker_id'', JStr bid)]
          (if find (has_id bid) (d_blockers (w_doc w)) = None then w
           else stamp_blocker bid [(''consumed'', JBool True)] (require_blocker bid w)))"

definition consume_answers :: "int \<Rightarrow> work \<Rightarrow> (tick_result \<times> work) option" where
  "consume_answers now w =
     (case process_answered_blockers (w_doc w) of
        ([], _) \<Rightarrow> None
      | (e # es, target) \<Rightarrow>
          (let w1 = fold (consume_blocker now) (e # es) w;
               w2 = (case target of None \<Rightarrow> w1 | Some s \<Rightarrow> set_status s (require_status w1))
           in Some (result ABlockerResumed (ResumedBlocker (snd e)), w2)))"

text \<open>The preconditions of the transitions that rest on the whole history.\<close>

definition require_all :: "work \<Rightarrow> work" where
  "require_all w = require_status (require_event_log (require_claim w))"

definition claim_for :: "int \<Rightarrow> phase \<Rightarrow> int \<Rightarrow> work \<Rightarrow> work" where
  "claim_for now p lease w =
     (let w1 = require_all w in
      w1\<lparr>w_delta := (w_delta w1)\<lparr>dl_claim_phase := Some (ph_id p), dl_lease_minutes := Some lease,
        dl_claim_attempts := Some (int (started_count (d_events (w_doc w1)) (ph_id p)) + 1)\<rparr>\<rparr>)"

text \<open>The body of the dispatch loop for the phase it acts on.\<close>

definition dispatch_phase :: "tick_env \<Rightarrow> int \<Rightarrow> rat \<Rightarrow> phase \<Rightarrow> work \<Rightarrow> pdb \<Rightarrow> decision res \<times> pdb" where
  "dispatch_phase env now max_attempts p w db =
     (let prior = attempts_for_phase (d_events (w_doc w)) (ph_id p) in
      if of_nat prior \<ge> max_attempts then
        (Inr (decided
           ((result AHalt (HaltedPhase (ph_id p) prior))\<lparr>tr_body := Some (HaltedNote (ph_id p) prior)\<rparr>)
           (delta_event now EVENT_PHASE_MAX_ATTEMPTS [(''phase'', JStr (ph_id p)), (''attempts'', JInt (int prior))]
             (delta_status STATUS_HALTED (require_all w)))), db)
      else
        case gate_decision (te_store env) (d_slug (w_doc w)) now db of
          (g, db') \<Rightarrow>
            if \<not> g_dispatch g then (Inr (decided (result AIdle (GateHeld (g_detail g))) w), db')
            else
              let w1 = (if g_resumed g then add_side QuotaResumedNote (delta_event now EVENT_QUOTA_RESUMED [] w) else w)
              in (case lease_ttl_for_phase (w_doc w1) (ph_id p) of
                    Inl e \<Rightarrow> (Inl e, db')
                  | Inr lease \<Rightarrow>
                      (Inr (decided ((result ADispatch NoInfo)\<lparr>tr_phase := JStr (ph_id p)\<rparr>)
                             (claim_for now p lease w1)), db')))"

definition commit_count :: "obj list \<Rightarrow> nat" where
  "commit_count evs = sum_list (map (\<lambda>e. if ev_is EVENT_PHASE_COMPLETED e
      then (case dget e ''commits'' of Some (JList vs) \<Rightarrow> length vs | _ \<Rightarrow> 0) else 0) evs)"

definition is_completed :: "doc \<Rightarrow> phase \<Rightarrow> bool" where
  "is_completed d p \<longleftrightarrow> JStr (ph_id p) \<in> set (completed_phase_ids (d_events d))"

definition pending_tasks :: "doc \<Rightarrow> obj list" where
  "pending_tasks d = filter (\<lambda>t. dget t ''status'' = Some (JStr ''pending'')) (d_tasks d)"

text \<open>What is left when the loop finds no phase to act on.\<close>

definition finish_plan :: "int \<Rightarrow> phase list \<Rightarrow> work \<Rightarrow> decision" where
  "finish_plan now phases w =
     (if list_all (is_completed (w_doc w)) phases then
        if pending_tasks (w_doc w) = [] then
          let w1 = delta_event now EVENT_PLAN_COMPLETED [] (delta_status STATUS_DONE (require_all w)) in
          decided ((result APlanDone (PlanSlug (d_slug (w_doc w))))\<lparr>tr_body :=
              Some (CompletedNote (commit_count (d_events (w_doc w1))))\<rparr>) w1
        else decided (result AIdle (TasksPending (length (pending_tasks (w_doc w))))) w
      else decided (result AIdle NothingDispatchable) w)"

definition dispatch_next :: "tick_env \<Rightarrow> int \<Rightarrow> work \<Rightarrow> pdb \<Rightarrow> decision res \<times> pdb" where
  "dispatch_next env now w db =
     (case te_plan env of
        None \<Rightarrow> (Inl (FileNotFoundErr (d_slug (w_doc w))), db)
      | Some text \<Rightarrow>
          (case parse_sessions_index (d_slug (w_doc w)) text of
             Inl e \<Rightarrow> (Inl e, db)
           | Inr [] \<Rightarrow> (Inr (decided (result AError NoIndex) w), db)
           | Inr (p0 # ps) \<Rightarrow>
               (case d_config (w_doc w) of
                  None \<Rightarrow> (Inl (KeyErr ''config''), db)
                | Some c \<Rightarrow>
                    (case find (\<lambda>p. \<not> is_completed (w_doc w) p \<and> \<not> phase_has_open_blocker (w_doc w) (ph_id p)) (p0 # ps) of
                       None \<Rightarrow> (Inr (finish_plan now (p0 # ps) w), db)
                     | Some p \<Rightarrow>
                         (case config_num (w_doc w) ''max_attempts_per_phase'' DEFAULT_MAX_ATTEMPTS of
                            Inl e \<Rightarrow> (Inl e, db)
                          | Inr m \<Rightarrow> dispatch_phase env now m p w db)))))"

text \<open>From the answered blockers on.\<close>

definition decide_quiescent :: "tick_env \<Rightarrow> int \<Rightarrow> work \<Rightarrow> pdb \<Rightarrow> decision res \<times> pdb" where
  "decide_quiescent env now w db =
     (case consume_answers now w of
        Some (r, w') \<Rightarrow> (Inr (decided r w'), db)
      | None \<Rightarrow>
          if d_status (w_doc w) \<in> set TERMINAL_STATUSES
          then (Inr (decided (result AIdle (TerminalStatus (d_status (w_doc w)))) w), db)
          else case d_claim (w_doc w) of
            Some (f # fs) \<Rightarrow>
              (Inr (decided (result AIdle (InFlight (jget (f # fs) ''phase_id'') (jget (f # fs) ''lease_expires''))) w), db)
          | _ \<Rightarrow>
              (case open_blockers (w_doc w) of
                 b # _ \<Rightarrow> (Inr (decided (result AIdle (PinnedBy (sget b ''id''))) w), db)
               | [] \<Rightarrow> dispatch_next env now w db))"

text \<open>From the stalled heartbeat on, when no death was found.\<close>

definition decide_live :: "tick_env \<Rightarrow> int \<Rightarrow> work \<Rightarrow> pdb \<Rightarrow> decision res \<times> pdb" where
  "decide_live env now w db =
     (case detect_stalled now w of
        Inl e \<Rightarrow> (Inl e, db)
      | Inr (Some (r, w')) \<Rightarrow> (Inr (decided r w'), db)
      | Inr None \<Rightarrow>
          (case escalate env now w of
             Inl e \<Rightarrow> (Inl e, db)
           | Inr (Some (r, w')) \<Rightarrow> (Inr (decided r w'), db)
           | Inr None \<Rightarrow> decide_quiescent env now w db))"

definition decide_work :: "tick_env \<Rightarrow> int \<Rightarrow> work \<Rightarrow> pdb \<Rightarrow> decision res \<times> pdb" where
  "decide_work env now w db =
     (case d_claim (w_doc w) of
        Some (f # fs) \<Rightarrow>
          if lease_expired now (f # fs)
          then (case decide_lease_expired env now (f # fs) w db of (dc, db') \<Rightarrow> (Inr dc, db'))
          else (case claim_pid (f # fs) of
                  Some pid \<Rightarrow>
                    if \<not> claim_worker_alive (te_os env) (f # fs) (Some (d_slug (w_doc w)))
                    then (case decide_worker_dead env now (f # fs) pid w db of (dc, db') \<Rightarrow> (Inr dc, db'))
                    else decide_live env now w db
                | None \<Rightarrow> decide_live env now w db)
      | _ \<Rightarrow> decide_live env now w db)"

text \<open>The snapshot, the emitters and the chain.\<close>

definition tick_decide :: "tick_env \<Rightarrow> int \<Rightarrow> string \<Rightarrow> pdb \<Rightarrow> decision res \<times> pdb" where
  "tick_decide env now slug db =
     (case snapshot_with_preconditions db slug of
        Inl e \<Rightarrow> (Inl e, db)
      | Inr (d, observed) \<Rightarrow>
          decide_work env now
            (emit_all env now \<lparr>w_doc = d, w_delta = empty_delta observed, w_side = []\<rparr>) db)"

section \<open>Commit\<close>

record outcome =
  o_result :: tick_result
  o_stops :: "(jval \<times> jval) list"
  o_signals :: "(int \<times> os_signal) list"
  o_inbox :: "inbox_event list"

definition quiet_outcome :: "tick_result \<Rightarrow> outcome" where
  "quiet_outcome r = \<lparr>o_result = r, o_stops = [], o_signals = [], o_inbox = []\<rparr>"

definition run_post :: "tick_env \<Rightarrow> int \<Rightarrow> string \<Rightarrow> post \<Rightarrow> outcome \<times> pdb \<Rightarrow> outcome \<times> pdb" where
  "run_post env now slug p st =
     (case st of (out, db) \<Rightarrow>
        (case p of
           PostStop token phase \<Rightarrow> (out\<lparr>o_stops := o_stops out @ [(token, phase)]\<rparr>, db)
         | PostReapQuiet pgid \<Rightarrow>
             (out\<lparr>o_signals := o_signals out @ snd (reap_orphan_pgroup (te_os env) pgid (Some slug))\<rparr>, db)
         | PostReapRecord pgid phase pid \<Rightarrow>
             (case reap_orphan_pgroup (te_os env) pgid (Some slug) of
                (reap, sent) \<Rightarrow>
                  (out\<lparr>o_signals := o_signals out @ sent\<rparr>,
                   snd (op_append_events slug
                     [mk_event now EVENT_PHASE_ORPHAN_REAPED
                        [(''phase'', phase), (''pid'', JInt pid), (''signaled'', opt_str (signaled reap)),
                         (''cmdline_mismatch'', JBool (cmdline_mismatch reap))]] None None db)))))"

text \<open>\<open>_apply\<close>: a tick that decided to write nothing opens no transaction.\<close>

definition apply_delta :: "tick_env \<Rightarrow> int \<Rightarrow> string \<Rightarrow> tick_delta \<Rightarrow> pdb \<Rightarrow> string option res \<times> pdb" where
  "apply_delta env now slug dl db =
     (if delta_is_empty dl then (Inr None, db) else apply_tick_delta now (te_fresh env) slug (dl_pre dl) dl db)"

definition tick_commit :: "tick_env \<Rightarrow> int \<Rightarrow> string \<Rightarrow> decision \<Rightarrow> pdb \<Rightarrow> outcome res \<times> pdb" where
  "tick_commit env now slug dc db =
     (let dl = w_delta (dc_work dc) in
      case apply_delta env now slug dl db of
        (Inl (TickConflict c), db') \<Rightarrow> (Inr (quiet_outcome (result AIdle ConcurrentWrite)), db')
      | (Inl e, db') \<Rightarrow> (Inl e, db')
      | (Inr token, db') \<Rightarrow>
          (let r = dc_result dc;
               r1 = (if tr_action r = ADispatch
                     then r\<lparr>tr_token := opt_str token, tr_detail := Dispatched
                          (case tr_phase r of JStr s \<Rightarrow> s | _ \<Rightarrow> []) (case token of Some t \<Rightarrow> t | None \<Rightarrow> [])\<rparr> else r);
               r2 = r1\<lparr>tr_side := w_side (dc_work dc), tr_worktree := get_worktree (w_doc (dc_work dc))\<rparr>
           in case fold (run_post env now slug) (dc_post dc) (quiet_outcome r2, db') of
                (out, db'') \<Rightarrow> (Inr (out\<lparr>o_inbox := dl_inbox dl\<rparr>), db'')))"

definition tick :: "(pdb \<Rightarrow> pdb) \<Rightarrow> tick_env \<Rightarrow> int \<Rightarrow> string \<Rightarrow> pdb \<Rightarrow> outcome res \<times> pdb" where
  "tick others env now slug db =
     (if \<not> plan_exists db slug then (Inr (quiet_outcome (result AIdle NoState)), db)
      else case tick_decide env now slug db of
        (Inl e, db') \<Rightarrow> (Inl e, db')
      | (Inr dc, db') \<Rightarrow> tick_commit env now slug dc (others db'))"

end
