(* ===== verification/Supervisor_Props.thy ===== *)
theory Supervisor_Props
  imports Supervisor Store_Examples
begin

text \<open>
  What a tick does, for every interference: the frame of the four emitters (they mark and log,
  and decide nothing), when a phase is dispatched and in which state the store then is, when the
  plan is declared done, what a discarded tick leaves behind, and that a plan with work to do is
  dispatched.
\<close>

section \<open>The frame of the emitters\<close>

definition EMIT_MARKS :: "string list" where
  "EMIT_MARKS = [''stalled_notified'', ''stuck_tool_emitted_at'', ''cpu_samples'', ''worker_idle_notified'',
     ''worker_idle_notified_at'']"

definition EMIT_TYPES :: "string list" where
  "EMIT_TYPES = [EVENT_STALLED_CLAIM_NOTIFIED, EVENT_STUCK_BLOCKER_REPINGED, EVENT_TOOL_STUCK, EVENT_WORKER_IDLE]"

definition same_head :: "doc \<Rightarrow> doc \<Rightarrow> bool" where
  "same_head d d' \<longleftrightarrow> d_slug d' = d_slug d \<and> d_status d' = d_status d \<and> d_config d' = d_config d
     \<and> d_phases d' = d_phases d \<and> d_tasks d' = d_tasks d \<and> d_worktree d' = d_worktree d"

definition same_decision :: "tick_delta \<Rightarrow> tick_delta \<Rightarrow> bool" where
  "same_decision dl dl' \<longleftrightarrow> dl_claim_phase dl' = dl_claim_phase dl \<and> dl_release dl' = dl_release dl
     \<and> dl_status dl' = dl_status dl \<and> dl_observed dl' = dl_observed dl
     \<and> pre_claim (dl_pre dl') = pre_claim (dl_pre dl)
     \<and> pre_max_event_id (dl_pre dl') = pre_max_event_id (dl_pre dl) \<and> pre_status (dl_pre dl') = pre_status (dl_pre dl)"

definition agrees_off :: "string list \<Rightarrow> obj \<Rightarrow> obj \<Rightarrow> bool" where
  "agrees_off ks d d' \<longleftrightarrow> (\<forall>k. k \<notin> set ks \<longrightarrow> dget d' k = dget d k)"

definition logs :: "work \<Rightarrow> work \<Rightarrow> bool" where
  "logs w w' \<longleftrightarrow> (\<exists>evs. d_events (w_doc w') = d_events (w_doc w) @ evs
     \<and> dl_events (w_delta w') = dl_events (w_delta w) @ evs \<and> (\<forall>e\<in>set evs. \<exists>ty\<in>set EMIT_TYPES. ev_is ty e))"

definition emits :: "work \<Rightarrow> work \<Rightarrow> bool" where
  "emits w w' \<longleftrightarrow> same_head (w_doc w) (w_doc w') \<and> same_decision (w_delta w) (w_delta w') \<and> logs w w'
     \<and> rel_option (agrees_off EMIT_MARKS) (d_claim (w_doc w)) (d_claim (w_doc w'))
     \<and> list_all2 (agrees_off [''last_repinged_at'']) (d_blockers (w_doc w)) (d_blockers (w_doc w'))
     \<and> (delta_ok (w_delta w) \<longrightarrow> delta_ok (w_delta w'))"

lemma agrees_off_refl [simp]: "agrees_off ks d d"
  by (simp add: agrees_off_def)

lemma logs_refl: "logs w w"
  by (auto simp: logs_def)

lemma logs_trans: "logs w1 w2 \<Longrightarrow> logs w2 w3 \<Longrightarrow> logs w1 w3"
  unfolding logs_def by (elim exE conjE) (rule exI, auto)

lemma emits_refl [simp]: "emits w w"
  by (simp add: emits_def same_head_def same_decision_def logs_refl option.rel_refl list.rel_refl)

lemma emits_trans:
  assumes "emits w1 w2" "emits w2 w3"
  shows "emits w1 w3"
proof -
  have a: "transp (agrees_off ks)" for ks by (auto simp: transp_def agrees_off_def)
  have "rel_option (agrees_off EMIT_MARKS) (d_claim (w_doc w1)) (d_claim (w_doc w3))"
    using assms option.rel_transp[OF a] unfolding emits_def transp_def by blast
  moreover have "list_all2 (agrees_off [''last_repinged_at'']) (d_blockers (w_doc w1)) (d_blockers (w_doc w3))"
    using assms list.rel_transp[OF a] unfolding emits_def transp_def by blast
  moreover have "same_head (w_doc w1) (w_doc w3)" using assms by (simp add: emits_def same_head_def)
  moreover have "same_decision (w_delta w1) (w_delta w3)" using assms by (simp add: emits_def same_decision_def)
  moreover have "logs w1 w3" using assms logs_trans by (auto simp: emits_def)
  ultimately show ?thesis using assms unfolding emits_def by blast
qed

lemma emits_fold: "(\<And>x w. emits w (f x w)) \<Longrightarrow> emits w (fold f xs w)"
  by (induction xs arbitrary: w) (auto intro: emits_trans)

text \<open>The primitives.\<close>

lemma emits_event:
  assumes "ty \<in> set EMIT_TYPES"
  shows "emits w (delta_event now ty flds w)"
  using assms
  by (auto simp: emits_def same_head_def same_decision_def logs_def delta_event_def carry_events_def mk_event_def
      delta_ok_def option.rel_refl list.rel_refl)

lemma emits_side: "emits w (add_side n w)"
  by (simp add: emits_def same_head_def same_decision_def logs_def add_side_def option.rel_refl list.rel_refl)

lemma emits_inbox: "emits w (add_inbox ty ds w)"
  by (simp add: emits_def same_head_def same_decision_def logs_def add_inbox_def delta_ok_def option.rel_refl
      list.rel_refl)

lemma emits_field: "emits w (require_claim_field k w)"
  by (simp add: emits_def same_head_def same_decision_def logs_def require_claim_field_def require_def delta_ok_def
      option.rel_refl list.rel_refl)

lemma emits_require_blocker: "emits w (require_blocker b w)"
  by (simp add: emits_def same_head_def same_decision_def logs_def require_blocker_def require_def delta_ok_def
      option.rel_refl list.rel_refl split: option.split)

lemma emits_put:
  assumes "d_claim (w_doc w) = Some claim" "agrees_off EMIT_MARKS claim claim'"
  shows "emits w (put_claim claim' (set_claim_updates t flds w))"
  using assms
  by (simp add: emits_def same_head_def same_decision_def logs_def put_claim_def set_claim_updates_def delta_ok_def
      list.rel_refl distinct_dupd)

lemma update_ball:
  "\<forall>(x, y)\<in>set l. P y \<Longrightarrow> P v \<Longrightarrow> \<forall>(x, y)\<in>set (AList.update b v l). P y"
  by (induction l) auto

lemma emits_stamp_blocker:
  assumes "set (map fst flds) \<subseteq> {''last_repinged_at''}"
  shows "emits w (stamp_blocker b flds w)"
proof -
  have r: "map_of (rev flds) k = None" if "k \<noteq> ''last_repinged_at''" for k
    using assms that by (auto simp: map_of_eq_None_iff)
  have u: "agrees_off [''last_repinged_at''] bl (dupd bl flds)" for bl
    by (simp add: agrees_off_def map_of_dupd map_add_def r)
  have "list_all2 (agrees_off [''last_repinged_at'']) bs (upd_first P (\<lambda>bl. dupd bl flds) bs)" for P bs
    by (induction bs) (auto simp: u list.rel_refl)
  moreover have "delta_ok (w_delta w) \<Longrightarrow> delta_ok (w_delta (stamp_blocker b flds w))"
  proof -
    assume ok: "delta_ok (w_delta w)"
    let ?old = "case map_of (dl_blocker_updates (w_delta w)) b of None \<Rightarrow> [] | Some u \<Rightarrow> u"
    have old: "''id'' \<notin> set (map fst ?old)"
    proof (cases "map_of (dl_blocker_updates (w_delta w)) b")
      case (Some u)
      from map_of_SomeD[OF this] ok show ?thesis using Some unfolding delta_ok_def by fastforce
    qed simp
    have "map_of (rev flds) ''id'' = None" by (rule r) simp
    moreover have "map_of ?old ''id'' = None" using old by (simp only: map_of_eq_None_iff set_map not_False_eq_True)
    ultimately have "map_of (dupd ?old flds) ''id'' = None"
      unfolding map_of_dupd by (simp only: map_add_def option.case)
    then have n: "''id'' \<notin> set (map fst (dupd ?old flds))"
      by (simp only: map_of_eq_None_iff set_map not_False_eq_True)
    from ok have "\<forall>(x, u)\<in>set (dl_blocker_updates (w_delta w)). ''id'' \<notin> set (map fst u)"
      by (simp add: delta_ok_def)
    from update_ball[OF this n, of b] ok
    show "delta_ok (w_delta (stamp_blocker b flds w))"
      unfolding delta_ok_def stamp_blocker_def by simp
  qed
  ultimately show ?thesis
    by (simp add: emits_def same_head_def same_decision_def logs_def stamp_blocker_def option.rel_refl)
qed

text \<open>The emitters.\<close>

lemma emits_stalled_claim: "emits w (emit_stalled_claim_notify now w)"
proof -
  have st: "emits w (stamp_claim claim [(''stalled_notified'', JBool True)] w)"
    if "d_claim (w_doc w) = Some claim" for claim w
    unfolding stamp_claim_def using that by (rule emits_put) (simp add: agrees_off_def EMIT_MARKS_def)
  have cl: "d_claim (w_doc (require_claim_field k w)) = d_claim (w_doc w)" for k w
    by (simp add: require_claim_field_def require_def)
  show ?thesis
    unfolding emit_stalled_claim_notify_def Let_def
    by (auto split: option.split intro!: emits_refl emits_trans[OF _ emits_inbox] emits_trans[OF _ emits_side]
        emits_trans[OF _ emits_event] emits_trans[OF _ st] emits_trans[OF _ emits_field] simp: cl EMIT_TYPES_def)
qed

lemma emits_reping: "emits w (reping_blocker now r w)"
  unfolding reping_blocker_def Let_def
  by (auto split: option.split prod.split intro!: emits_refl emits_trans[OF _ emits_inbox] emits_trans[OF _ emits_side]
      emits_trans[OF _ emits_event] emits_trans[OF _ emits_stamp_blocker] emits_require_blocker simp: EMIT_TYPES_def)

lemma emits_repings: "emits w (emit_stuck_blocker_repings now w)"
  unfolding emit_stuck_blocker_repings_def by (rule emits_fold) (rule emits_reping)

lemma claim_of_require [simp]: "d_claim (w_doc (require_claim_field k w)) = d_claim (w_doc w)"
  by (simp add: require_claim_field_def require_def)

lemma emits_record:
  assumes "d_claim (w_doc w) = Some claim" "agrees_off EMIT_MARKS claim claim'"
  shows "emits w (record_claim claim' names w)"
  unfolding record_claim_def by (rule emits_put[OF assms])

lemma emits_stuck_step: "emits w (stuck_tool_step cfg now pid age d w)"
proof -
  have m: "agrees_off EMIT_MARKS claim (mark_tool_stuck_emitted claim p x)" for claim p x
    by (simp add: agrees_off_def mark_tool_stuck_emitted_def EMIT_MARKS_def)
  have "emits w (report_stuck_tool now pid claim d w)" if "d_claim (w_doc w) = Some claim" for claim
    unfolding report_stuck_tool_def Let_def
    by (rule emits_trans[OF _ emits_inbox], rule emits_trans[OF _ emits_event], rule emits_trans[OF _ emits_record[OF _ m]])
      (auto intro!: emits_trans[OF _ emits_field] simp: that EMIT_TYPES_def)
  then show ?thesis unfolding stuck_tool_step_def by (auto split: option.split)
qed

lemma emits_stuck_tool: "emits w (emit_stuck_tool cfg os now w)"
  unfolding emit_stuck_tool_def by (auto split: option.split intro!: emits_fold emits_stuck_step)

lemma sample_worker_emits:
  assumes "sample_worker cfg os now pid claim w = (claim', w')" "d_claim (w_doc w) = Some claim"
  shows "emits w w' \<and> d_claim (w_doc w') = Some claim'"
proof (cases "tree_cpu_seconds pid (capture_ps_snapshot os)")
  case None
  then show ?thesis using assms by (simp add: sample_worker_def)
next
  case (Some cpu)
  let ?c = "append_cpu_sample claim cpu now (tc_idle_window cfg * 60 + tc_idle_gap cfg)"
  have m: "agrees_off EMIT_MARKS claim ?c" by (simp add: agrees_off_def append_cpu_sample_def EMIT_MARKS_def Let_def)
  have w': "w' = record_claim ?c [''cpu_samples''] (require_claim_field ''cpu_samples'' w)" "claim' = ?c"
    using assms(1) Some by (auto simp: sample_worker_def Let_def)
  have "emits w w'" unfolding w' by (rule emits_trans[OF emits_field emits_record[OF _ m]]) (simp add: assms(2))
  then show ?thesis by (simp add: w' record_claim_def put_claim_def)
qed

lemma emits_worker_idle: "emits w (emit_worker_idle cfg os now w)"
proof -
  have rep: "emits w (report_worker_idle now pid claim w)" if "d_claim (w_doc w) = Some claim" for claim pid w
  proof -
    have m: "agrees_off EMIT_MARKS claim (mark_worker_idle_emitted claim now)"
      by (simp add: agrees_off_def mark_worker_idle_emitted_def EMIT_MARKS_def)
    show ?thesis
      unfolding report_worker_idle_def Let_def
      by (rule emits_trans[OF _ emits_inbox], rule emits_trans[OF _ emits_side], rule emits_trans[OF _ emits_event],
          rule emits_trans[OF _ emits_record[OF _ m]])
        (auto intro!: emits_trans[OF _ emits_field] simp: that EMIT_TYPES_def)
  qed
  show ?thesis
  proof (cases "d_claim (w_doc w)")
    case (Some claim0)
    show ?thesis
    proof (cases "claim_pid claim0")
      case (Some pid)
      obtain c w1 where s: "sample_worker cfg os now pid claim0 w = (c, w1)" by force
      from sample_worker_emits[OF s \<open>d_claim (w_doc w) = Some claim0\<close>] have "emits w w1" "d_claim (w_doc w1) = Some c" by auto
      then show ?thesis
        using \<open>d_claim (w_doc w) = Some claim0\<close> Some s emits_trans[OF _ rep]
        by (simp add: emit_worker_idle_def)
    qed (simp add: emit_worker_idle_def Some)
  qed (simp add: emit_worker_idle_def)
qed

lemma emits_all: "emits w (emit_all env now w)"
  unfolding emit_all_def
  by (intro emits_trans[OF _ emits_worker_idle] emits_trans[OF _ emits_stuck_tool] emits_trans[OF _ emits_repings]
      emits_stalled_claim)

section \<open>What the emitted events leave alone\<close>

lemma emitted_others:
  assumes "\<exists>ty\<in>set EMIT_TYPES. ev_is ty e"
  shows "\<not> ev_is EVENT_PHASE_COMPLETED e" "\<not> resets_attempts p e" "\<not> starts_phase p e" "\<not> forgives p e"
  using assms by (auto simp: EMIT_TYPES_def resets_attempts_def starts_phase_def forgives_def)

lemma completed_append:
  "completed_phase_ids (xs @ ys) = completed_phase_ids xs @ completed_phase_ids ys"
  by (simp add: completed_phase_ids_def)

lemma completed_emitted:
  assumes "\<forall>e\<in>set evs. \<exists>ty\<in>set EMIT_TYPES. ev_is ty e"
  shows "completed_phase_ids evs = []"
proof -
  have "\<not> ev_is EVENT_PHASE_COMPLETED e" if "e \<in> set evs" for e
    using assms that emitted_others(1) by blast
  then show ?thesis by (simp add: completed_phase_ids_def)
qed

lemma attempts_emitted:
  assumes "\<forall>e\<in>set evs. \<exists>ty\<in>set EMIT_TYPES. ev_is ty e"
  shows "attempts_for_phase (xs @ evs) p = attempts_for_phase xs p"
  using assms
proof (induction evs rule: rev_induct)
  case (snoc e evs)
  then have "\<exists>ty\<in>set EMIT_TYPES. ev_is ty e" by simp
  from emitted_others(2-4)[OF this] have "attempts_for_phase ((xs @ evs) @ [e]) p = attempts_for_phase (xs @ evs) p"
    by (intro attempts_other)
  with snoc show ?case by simp
qed simp

lemma agrees_open: "agrees_off [''last_repinged_at''] b b' \<Longrightarrow> is_open b' = is_open b"
  by (simp add: agrees_off_def is_open_def jget_def)

lemma agrees_answered: "agrees_off [''last_repinged_at''] b b' \<Longrightarrow> is_answered b' = is_answered b"
  by (simp add: is_answered_def agrees_open) (simp add: agrees_off_def dtrue_def)

lemma none_related:
  assumes "list_all2 (agrees_off [''last_repinged_at'']) bs bs'"
  shows "filter is_open bs' = [] \<longleftrightarrow> filter is_open bs = []" "filter is_answered bs' = [] \<longleftrightarrow> filter is_answered bs = []"
  using assms by (induction rule: list_all2_induct) (auto simp: agrees_open agrees_answered)

text \<open>What a decision read through the emitters reads from the snapshot.\<close>

lemma emits_reads:
  assumes "emits w w'"
  shows "d_slug (w_doc w') = d_slug (w_doc w)" "d_status (w_doc w') = d_status (w_doc w)"
    "d_config (w_doc w') = d_config (w_doc w)" "d_phases (w_doc w') = d_phases (w_doc w)"
    "d_tasks (w_doc w') = d_tasks (w_doc w)"
    "is_completed (w_doc w') = is_completed (w_doc w)"
    "attempts_for_phase (d_events (w_doc w')) p = attempts_for_phase (d_events (w_doc w)) p"
    "d_claim (w_doc w') = None \<longleftrightarrow> d_claim (w_doc w) = None"
    "open_blockers (w_doc w') = [] \<longleftrightarrow> open_blockers (w_doc w) = []"
    "filter is_answered (d_blockers (w_doc w')) = [] \<longleftrightarrow> filter is_answered (d_blockers (w_doc w)) = []"
proof -
  from assms obtain evs where e: "d_events (w_doc w') = d_events (w_doc w) @ evs"
    "\<forall>e\<in>set evs. \<exists>ty\<in>set EMIT_TYPES. ev_is ty e"
    by (auto simp: emits_def logs_def)
  show "is_completed (w_doc w') = is_completed (w_doc w)"
    by (rule ext) (simp add: is_completed_def e(1) completed_append completed_emitted[OF e(2)])
  show "attempts_for_phase (d_events (w_doc w')) p = attempts_for_phase (d_events (w_doc w)) p"
    by (simp add: e(1) attempts_emitted[OF e(2)])
  have "list_all2 (agrees_off [''last_repinged_at'']) (d_blockers (w_doc w)) (d_blockers (w_doc w'))"
    using assms by (simp add: emits_def)
  from none_related[OF this]
  show "open_blockers (w_doc w') = [] \<longleftrightarrow> open_blockers (w_doc w) = []"
    "filter is_answered (d_blockers (w_doc w')) = [] \<longleftrightarrow> filter is_answered (d_blockers (w_doc w)) = []"
    by (simp_all add: open_blockers_def)
  have "rel_option (agrees_off EMIT_MARKS) (d_claim (w_doc w)) (d_claim (w_doc w'))" using assms by (simp add: emits_def)
  then show "d_claim (w_doc w') = None \<longleftrightarrow> d_claim (w_doc w) = None"
    by (cases "d_claim (w_doc w)"; cases "d_claim (w_doc w')") auto
qed (use assms in \<open>simp_all add: emits_def same_head_def\<close>)

section \<open>The branches by their action\<close>

lemma result_action [simp]: "tr_action (result a dt) = a"
  by (simp add: result_def)

lemma detect_stalled_action: "detect_stalled now w = Inr (Some (r, w')) \<Longrightarrow> tr_action r = AStalled"
  by (auto simp: detect_stalled_def bind_res_Inr Let_def split: option.splits if_splits)

lemma escalate_action: "escalate env now w = Inr (Some (r, w')) \<Longrightarrow> tr_action r = AEscalate"
  by (auto simp: escalate_def escalate_blocker_def bind_res_Inr Let_def split: if_splits)

lemma consume_action: "consume_answers now w = Some (r, w') \<Longrightarrow> tr_action r = ABlockerResumed"
  by (auto simp: consume_answers_def Let_def split: prod.splits list.splits)

lemma consume_None: "consume_answers now w = None \<longleftrightarrow> filter is_answered (d_blockers (w_doc w)) = []"
  by (auto simp: consume_answers_def process_answered_blockers_def Let_def split: list.splits)

lemma lease_expired_action: "tr_action (dc_result (fst (decide_lease_expired env now c w db))) = ALeaseExpired"
  by (simp add: decide_lease_expired_def Let_def split: prod.split)

lemma worker_dead_action: "tr_action (dc_result (fst (decide_worker_dead env now c pid w db))) = AWorkerDead"
  by (simp add: decide_worker_dead_def Let_def split: prod.split)

lemma finish_plan_action [simp]: "tr_action (dc_result (finish_plan now ps w)) \<noteq> ADispatch"
  by (simp add: finish_plan_def decided_def Let_def)

lemma decide_work_late:
  assumes "decide_work env now w db = (Inr dc, db')"
    "tr_action (dc_result dc) \<in> {ADispatch, APlanDone, AHalt, AError}"
  shows "decide_quiescent env now w db = (Inr dc, db')"
proof -
  have "decide_live env now w db = (Inr dc, db')"
    using assms lease_expired_action[of env now] worker_dead_action[of env now]
    unfolding decide_work_def
    by (auto split: option.splits list.splits if_splits prod.splits) (metis action.distinct fst_conv)+
  then show ?thesis
    using assms(2) detect_stalled_action escalate_action unfolding decide_live_def
    by (auto simp: decided_def split: sum.splits option.splits)
qed

lemma decide_quiescent_late:
  assumes "decide_quiescent env now w db = (Inr dc, db')"
    "tr_action (dc_result dc) \<in> {ADispatch, APlanDone, AHalt, AError}"
  shows "dispatch_next env now w db = (Inr dc, db') \<and> d_status (w_doc w) \<notin> set TERMINAL_STATUSES
    \<and> (d_claim (w_doc w) = None \<or> d_claim (w_doc w) = Some []) \<and> open_blockers (w_doc w) = []
    \<and> filter is_answered (d_blockers (w_doc w)) = []"
  using assms consume_action consume_None[of now w] unfolding decide_quiescent_def
  by (auto simp: decided_def split: option.splits list.splits if_splits)

section \<open>The dispatch\<close>

text \<open>The snapshot as the tick starts on it.\<close>

definition start_work :: "doc \<Rightarrow> tick_pre \<Rightarrow> work" where
  "start_work d obs = \<lparr>w_doc = d, w_delta = empty_delta obs, w_side = []\<rparr>"

definition resumed_work :: "int \<Rightarrow> bool \<Rightarrow> work \<Rightarrow> work" where
  "resumed_work now r w = (if r then add_side QuotaResumedNote (delta_event now EVENT_QUOTA_RESUMED [] w) else w)"

lemma dispatch_next_dispatch:
  assumes "dispatch_next env now w db = (Inr dc, db')" "tr_action (dc_result dc) = ADispatch"
    and no: "open_blockers (w_doc w) = []"
  shows "\<exists>src ps p m g lease. te_plan env = Some src \<and> parse_sessions_index (d_slug (w_doc w)) src = Inr ps
    \<and> find (\<lambda>p. \<not> is_completed (w_doc w) p) ps = Some p
    \<and> config_num (w_doc w) ''max_attempts_per_phase'' DEFAULT_MAX_ATTEMPTS = Inr m
    \<and> of_nat (attempts_for_phase (d_events (w_doc w)) (ph_id p)) < m
    \<and> gate_decision (te_store env) (d_slug (w_doc w)) now db = (g, db') \<and> g_dispatch g
    \<and> dc = decided ((result ADispatch NoInfo)\<lparr>tr_phase := JStr (ph_id p)\<rparr>)
        (claim_for now p lease (resumed_work now (g_resumed g) w))"
proof -
  have nb: "\<not> phase_has_open_blocker (w_doc w) q" for q using no by (simp add: phase_has_open_blocker_def)
  have pick: "find (\<lambda>p. \<not> is_completed (w_doc w) p \<and> \<not> phase_has_open_blocker (w_doc w) (ph_id p)) qs
      = find (\<lambda>p. \<not> is_completed (w_doc w) p) qs" for qs
    by (simp add: nb)
  from assms(1,2) obtain src p0 ps p m where
    t: "te_plan env = Some src" "parse_sessions_index (d_slug (w_doc w)) src = Inr (p0 # ps)"
      "find (\<lambda>p. \<not> is_completed (w_doc w) p) (p0 # ps) = Some p"
      "config_num (w_doc w) ''max_attempts_per_phase'' DEFAULT_MAX_ATTEMPTS = Inr m" and
    dp: "dispatch_phase env now m p w db = (Inr dc, db')"
    unfolding dispatch_next_def pick
    by (auto simp: decided_def simp del: find.simps split: option.splits sum.splits list.splits)
  obtain g dbg where g: "gate_decision (te_store env) (d_slug (w_doc w)) now db = (g, dbg)" by force
  from dp assms(2) g show ?thesis
    unfolding dispatch_phase_def Let_def g prod.case resumed_work_def[symmetric]
    using t by (auto simp: decided_def split: if_splits sum.splits)
qed

lemma decide_frame: "decide_in_txn slug now db = (g, db') \<Longrightarrow> db' = db\<lparr>t_quota := t_quota db'\<rparr>"
  unfolding decide_in_txn_def by (auto split: option.splits if_splits)

lemma gate_frame: "gate_decision h slug now db = (g, db') \<Longrightarrow> db' = db\<lparr>t_quota := t_quota db'\<rparr>"
  unfolding gate_decision_def by (cases h) (auto split: if_splits dest: decide_frame)

lemma assert_quota [simp]: "assert_preconditions (db\<lparr>t_quota := q\<rparr>) slug p = assert_preconditions db slug p"
proof -
  let ?db = "db\<lparr>t_quota := q\<rparr>"
  have r: "read_claim ?db slug = read_claim db slug" by (simp add: read_claim_def)
  have m: "max_event_id ?db slug = max_event_id db slug" by (simp add: max_event_id_def plan_events_def)
  have b: "blocker_state ?db slug = blocker_state db slug" by (rule ext) (simp add: blocker_state_def)
  have "check_claim ?db slug w = check_claim db slug w" for w
    by (cases w) (simp_all add: check_claim_def r)
  moreover have "check_claim_fields ?db slug flds = check_claim_fields db slug flds" for flds
    by (simp add: check_claim_fields_def r)
  moreover have "check_events ?db slug i = check_events db slug i" for i
    by (cases i) (simp_all add: check_events_def m)
  moreover have "check_blockers ?db slug bs = check_blockers db slug bs" for bs
    by (simp add: check_blockers_def b)
  moreover have "check_status ?db slug st = check_status db slug st" for st
    by (simp add: check_status_def)
  ultimately show ?thesis by (simp add: assert_preconditions_def)
qed

lemma commit_dispatch:
  assumes "dl_claim_phase dl = Some p" "apply_tick_delta now fresh slug pre dl db = (Inr t, db')"
  shows "\<exists>token. t = Some token \<and> holder db' slug = Some (JStr token, JStr p)"
proof -
  from assms obtain db3 tok where "t = Some tok" "claim_in_txn now fresh slug dl p db3 = (Inr tok, db')"
    by (elim apply_tick_delta_InrE) auto
  then show ?thesis
    by (auto simp: claim_in_txn_eq Let_def holder_def claim_row_of_def write_claim_def claim_row_def CLAIM_SCALARS_def
        dispatched_claim_def jget_def)
qed

lemma snapshot_slug: "snapshot db slug = Inr d \<Longrightarrow> d_slug d = slug"
  by (auto simp: snapshot_def bind_res_Inr snapshot_in_txn_def split: option.splits)

lemma commit_Inr_dispatch:
  assumes "tick_commit env now slug dc db = (Inr out, db')"
    "dc = decided ((result ADispatch NoInfo)\<lparr>tr_phase := JStr p\<rparr>) w" "dl_claim_phase (w_delta w) = Some p"
    "tr_action (o_result out) = ADispatch"
  shows "\<exists>token. tr_phase (o_result out) = JStr p \<and> tr_token (o_result out) = JStr token
    \<and> holder db' slug = Some (JStr token, JStr p) \<and> o_signals out = [] \<and> o_stops out = []
    \<and> assert_preconditions db slug (dl_pre (w_delta w)) = Inr ()"
proof -
  have ne: "\<not> delta_is_empty (w_delta w)" using assms(3) by (simp add: delta_is_empty_def)
  obtain r db1 where a: "apply_tick_delta now (te_fresh env) slug (dl_pre (w_delta w)) (w_delta w) db = (r, db1)" by force
  then have ap: "apply_delta env now slug (w_delta (dc_work dc)) db = (r, db1)"
    using ne assms(2) by (simp add: apply_delta_def decided_def)
  show ?thesis
  proof (cases r)
    case (Inl e)
    then show ?thesis
      using assms(1,4) ap unfolding tick_commit_def Let_def
      by (cases e) (auto simp: quiet_outcome_def)
  next
    case (Inr t)
    with a have b: "apply_tick_delta now (te_fresh env) slug (dl_pre (w_delta w)) (w_delta w) db = (Inr t, db1)" by simp
    from commit_dispatch[OF assms(3) b] obtain token where
      t: "t = Some token" "holder db1 slug = Some (JStr token, JStr p)" by blast
    have pre: "assert_preconditions db slug (dl_pre (w_delta w)) = Inr ()"
      using b by (elim apply_tick_delta_InrE)
    show ?thesis
      using assms(1,2) ap Inr t pre unfolding tick_commit_def Let_def
      by (auto simp: decided_def quiet_outcome_def result_def)
  qed
qed

lemma claim_for_phase [simp]: "dl_claim_phase (w_delta (claim_for now p lease w)) = Some (ph_id p)"
  by (simp add: claim_for_def Let_def)

lemma apply_tick_Inl: "apply_tick_delta now fresh slug pre dl db = (Inl e, db') \<Longrightarrow> db' = db"
  unfolding apply_tick_delta_def by (rule plan_txn_Inl)

lemma run_posts_result:
  "fold (run_post env now slug) ps (out0, db) = (out, db') \<Longrightarrow> o_result out = o_result out0"
proof (induction ps arbitrary: out0 db)
  case (Cons p ps)
  obtain out1 db1 where "run_post env now slug p (out0, db) = (out1, db1)" by force
  moreover from this have "o_result out1 = o_result out0"
    by (auto simp: run_post_def split: post.splits prod.splits)
  ultimately show ?case using Cons by auto
qed simp

lemma commit_action:
  assumes "tick_commit env now slug dc db = (Inr out, db')"
  shows "tr_action (o_result out) = tr_action (dc_result dc) \<or> (out = quiet_outcome (result AIdle ConcurrentWrite) \<and> db' = db)"
proof -
  obtain r db1 where ap: "apply_delta env now slug (w_delta (dc_work dc)) db = (r, db1)" by force
  show ?thesis
  proof (cases r)
    case (Inl e)
    have "db1 = db"
      using ap Inl apply_tick_Inl by (auto simp: apply_delta_def split: if_splits)
    then show ?thesis using assms ap Inl unfolding tick_commit_def Let_def by (cases e) auto
  next
    case (Inr t)
    then show ?thesis
      using assms ap unfolding tick_commit_def Let_def
      by (auto simp: quiet_outcome_def split: prod.splits if_splits dest!: run_posts_result)
  qed
qed

lemma start_work_eq: "\<lparr>w_doc = d, w_delta = empty_delta obs, w_side = []\<rparr> = start_work d obs"
  by (simp add: start_work_def)

lemma tick_InrE:
  assumes "tick others env now slug db = (Inr out, db')" "tr_action (o_result out) \<in> {ADispatch, APlanDone, AHalt, AError}"
  obtains dc dbq d obs w where "tick_commit env now slug dc (others dbq) = (Inr out, db')"
    "snapshot_with_preconditions db slug = Inr (d, obs)" "snapshot db slug = Inr d" "d_slug d = slug"
    "w = emit_all env now (start_work d obs)" "emits (start_work d obs) w"
    "decide_work env now w db = (Inr dc, dbq)" "tr_action (dc_result dc) = tr_action (o_result out)"
proof -
  from assms obtain dc dbq where dec: "tick_decide env now slug db = (Inr dc, dbq)"
    and com: "tick_commit env now slug dc (others dbq) = (Inr out, db')"
    by (auto simp: tick_def quiet_outcome_def split: if_splits prod.splits sum.splits)
  from commit_action[OF com] assms(2) have act: "tr_action (dc_result dc) = tr_action (o_result out)"
    by (auto simp: quiet_outcome_def)
  from dec obtain d obs where s: "snapshot_with_preconditions db slug = Inr (d, obs)"
    "decide_work env now (emit_all env now (start_work d obs)) db = (Inr dc, dbq)"
    by (auto simp: tick_decide_def start_work_eq split: sum.splits)
  from s(1) have sn: "snapshot db slug = Inr d" by (auto simp: snapshot_with_preconditions_def bind_res_Inr)
  show thesis by (rule that[OF com s(1) sn snapshot_slug[OF sn] refl emits_all s(2) act])
qed

lemma pre_of_claim_for:
  "pre_claim (dl_pre (w_delta (claim_for now p l w))) = pre_claim (dl_observed (w_delta w))"
  "pre_max_event_id (dl_pre (w_delta (claim_for now p l w))) = pre_max_event_id (dl_observed (w_delta w))"
  "pre_status (dl_pre (w_delta (claim_for now p l w))) = pre_status (dl_observed (w_delta w))"
  by (simp_all add: claim_for_def Let_def require_all_def require_status_def require_event_log_def require_claim_def
      require_def)

lemma resumed_observed [simp]: "dl_observed (w_delta (resumed_work now r w)) = dl_observed (w_delta w)"
  by (simp add: resumed_work_def add_side_def delta_event_def carry_events_def)

lemma claim_gone_identity:
  assumes "emits (start_work d obs) w" "d_claim (w_doc w) = None \<or> d_claim (w_doc w) = Some []"
  shows "claim_identity (d_claim d) \<in> {None, Some (JNull, JNull)}"
proof -
  have "rel_option (agrees_off EMIT_MARKS) (d_claim d) (d_claim (w_doc w))"
    using assms(1) by (simp add: emits_def start_work_def)
  then show ?thesis
    using assms(2) by (cases "d_claim d") (auto simp: claim_identity_def agrees_off_def jget_def EMIT_MARKS_def)
qed

text \<open>
  C1 A dispatch is sound. Whatever other processes do while the tick decides, when it reports a
  dispatch the snapshot it judged was of a plan that is neither paused, halted nor done, with no
  live claim, no open blocker and no answer left to consume; the phase is the first of the plan
  file's table that is not complete, with attempts left; the quota gate let this plan pass. At
  the commit the preconditions on the claim, the history and the status held in the very
  database written to, and the claim row now holds exactly the reported token and phase. A
  dispatching tick signals no process.
\<close>

theorem tick_dispatch_sound:
  assumes "tick others env now slug db = (Inr out, db')" and "tr_action (o_result out) = ADispatch"
  shows "\<exists>d src ps p token m q. snapshot db slug = Inr d
    \<and> d_status d \<notin> set TERMINAL_STATUSES \<and> claim_identity (d_claim d) \<in> {None, Some (JNull, JNull)}
    \<and> open_blockers d = [] \<and> filter is_answered (d_blockers d) = []
    \<and> te_plan env = Some src \<and> parse_sessions_index slug src = Inr ps
    \<and> find (\<lambda>p. \<not> is_completed d p) ps = Some p
    \<and> config_num d ''max_attempts_per_phase'' DEFAULT_MAX_ATTEMPTS = Inr m
    \<and> of_nat (attempts_for_phase (d_events d) (ph_id p)) < m
    \<and> g_dispatch (fst (gate_decision (te_store env) slug now db))
    \<and> claim_identity (read_claim (others (db\<lparr>t_quota := q\<rparr>)) slug) = claim_identity (d_claim d)
    \<and> max_event_id (others (db\<lparr>t_quota := q\<rparr>)) slug = max_event_id db slug
    \<and> tr_phase (o_result out) = JStr (ph_id p) \<and> tr_token (o_result out) = JStr token
    \<and> holder db' slug = Some (JStr token, JStr (ph_id p))
    \<and> o_signals out = [] \<and> o_stops out = []"
proof -
  from assms(2) have a: "tr_action (o_result out) \<in> {ADispatch, APlanDone, AHalt, AError}" by simp
  from assms(1) a obtain dc dbq d obs w where
    com: "tick_commit env now slug dc (others dbq) = (Inr out, db')" and
    sp: "snapshot_with_preconditions db slug = Inr (d, obs)" and sn: "snapshot db slug = Inr d" and
    sl: "d_slug d = slug" and em: "emits (start_work d obs) w" and
    dw: "decide_work env now w db = (Inr dc, dbq)" and act: "tr_action (dc_result dc) = tr_action (o_result out)"
    by (elim tick_InrE) blast
  note rd = emits_reads[OF em, unfolded start_work_def, simplified]
  have a2: "tr_action (dc_result dc) \<in> {ADispatch, APlanDone, AHalt, AError}" using act assms(2) by simp
  from decide_quiescent_late[OF decide_work_late[OF dw a2] a2] have
    q: "dispatch_next env now w db = (Inr dc, dbq)" "d_status d \<notin> set TERMINAL_STATUSES"
      "open_blockers d = []" "filter is_answered (d_blockers d) = []" "open_blockers (w_doc w) = []" and
    nc: "d_claim (w_doc w) = None \<or> d_claim (w_doc w) = Some []"
    using rd by auto
  from dispatch_next_dispatch[OF q(1) _ q(5)] act assms(2) obtain src ps p m g lease where
    t: "te_plan env = Some src" "parse_sessions_index slug src = Inr ps" "find (\<lambda>p. \<not> is_completed d p) ps = Some p"
      "config_num (w_doc w) ''max_attempts_per_phase'' DEFAULT_MAX_ATTEMPTS = Inr m"
      "of_nat (attempts_for_phase (d_events d) (ph_id p)) < m"
      "gate_decision (te_store env) slug now db = (g, dbq)" "g_dispatch g" and
    dc: "dc = decided ((result ADispatch NoInfo)\<lparr>tr_phase := JStr (ph_id p)\<rparr>) (claim_for now p lease (resumed_work now (g_resumed g) w))"
    using rd sl by auto
  have m: "config_num d ''max_attempts_per_phase'' DEFAULT_MAX_ATTEMPTS = Inr m" using t(4) rd(3) by (simp add: config_num_def)
  from commit_Inr_dispatch[OF com dc claim_for_phase assms(2)] obtain token where
    c: "tr_phase (o_result out) = JStr (ph_id p)" "tr_token (o_result out) = JStr token"
      "holder db' slug = Some (JStr token, JStr (ph_id p))" "o_signals out = []" "o_stops out = []" and
    pre: "assert_preconditions (others dbq) slug (dl_pre (w_delta (claim_for now p lease (resumed_work now (g_resumed g) w)))) = Inr ()"
    by blast
  have obs: "dl_observed (w_delta w) = obs" using em by (simp add: emits_def same_decision_def start_work_def empty_delta_def)
  have o2: "pre_claim obs = Some (claim_identity (d_claim d))" "pre_max_event_id obs = Some (max_event_id db slug)"
    using sp by (auto simp: snapshot_with_preconditions_def bind_res_Inr)
  have cm: "claim_identity (read_claim (others dbq) slug) = claim_identity (d_claim d)"
    "max_event_id (others dbq) slug = max_event_id db slug"
    using pre by (auto simp: assert_preconditions_def bind_res_Inr check_claim_def check_events_def pre_of_claim_for obs o2
        conflict_def split: if_splits)
  from gate_frame[OF t(6)] cm have cm': "\<exists>q. claim_identity (read_claim (others (db\<lparr>t_quota := q\<rparr>)) slug) = claim_identity (d_claim d)
      \<and> max_event_id (others (db\<lparr>t_quota := q\<rparr>)) slug = max_event_id db slug" by metis
  show ?thesis
    using sn q(2-4) claim_gone_identity[OF em nc] t(1-3,5-7) m c cm' by fastforce
qed

section \<open>Progress\<close>

lemma emit_all_quiet:
  assumes "d_claim d = None" "open_blockers d = []"
  shows "emit_all env now (start_work d obs) = start_work d obs"
proof -
  have "filter (needs_reping now) (d_blockers d) = []"
    using assms(2) by (auto simp: filter_empty_conv open_blockers_def needs_reping_def)
  then have "stuck_blocker_repings now d = []" by (simp add: stuck_blocker_repings_def)
  then show ?thesis
    using assms(1)
    by (simp add: emit_all_def emit_worker_idle_def emit_stuck_tool_def emit_stuck_blocker_repings_def
        emit_stalled_claim_notify_def start_work_def)
qed

definition ready :: "tick_env \<Rightarrow> int \<Rightarrow> string \<Rightarrow> pdb \<Rightarrow> phase \<Rightarrow> bool" where
  "ready env now slug db p \<longleftrightarrow> (\<exists>d src ps m lease. snapshot db slug = Inr d
     \<and> d_status d \<notin> set TERMINAL_STATUSES \<and> d_claim d = None
     \<and> open_blockers d = [] \<and> filter is_answered (d_blockers d) = []
     \<and> te_plan env = Some src \<and> parse_sessions_index slug src = Inr ps
     \<and> find (\<lambda>p. \<not> is_completed d p) ps = Some p
     \<and> config_num d ''max_attempts_per_phase'' DEFAULT_MAX_ATTEMPTS = Inr m
     \<and> of_nat (attempts_for_phase (d_events d) (ph_id p)) < m
     \<and> lease_ttl_for_phase d (ph_id p) = Inr lease
     \<and> g_dispatch (fst (gate_decision (te_store env) slug now db)))"

lemma resumed_doc:
  "d_config (w_doc (resumed_work now r w)) = d_config (w_doc w)"
  "d_phases (w_doc (resumed_work now r w)) = d_phases (w_doc w)"
  "dl_claim_updates (w_delta (resumed_work now r w)) = dl_claim_updates (w_delta w)"
  "dl_blocker_updates (w_delta (resumed_work now r w)) = dl_blocker_updates (w_delta w)"
  "dl_pre (w_delta (resumed_work now r w)) = dl_pre (w_delta w)"
  by (simp_all add: resumed_work_def add_side_def delta_event_def carry_events_def)

lemma resumed_lease: "lease_ttl_for_phase (w_doc (resumed_work now r w)) q = lease_ttl_for_phase (w_doc w) q"
proof -
  have "config_get (w_doc (resumed_work now r w)) = config_get (w_doc w)"
    by (rule ext) (simp add: config_get_def resumed_doc)
  then show ?thesis by (simp only: lease_ttl_for_phase_def resumed_doc)
qed

lemma ready_decides:
  assumes "ready env now slug db p"
  shows "\<exists>d obs lease g dbq. snapshot_with_preconditions db slug = Inr (d, obs)
    \<and> gate_decision (te_store env) slug now db = (g, dbq)
    \<and> tick_decide env now slug db = (Inr (decided ((result ADispatch NoInfo)\<lparr>tr_phase := JStr (ph_id p)\<rparr>)
        (claim_for now p lease (resumed_work now (g_resumed g) (start_work d obs)))), dbq)"
proof -
  from assms obtain d src ps m lease where
    r: "snapshot db slug = Inr d" "d_status d \<notin> set TERMINAL_STATUSES" "d_claim d = None"
      "open_blockers d = []" "filter is_answered (d_blockers d) = []" "te_plan env = Some src"
      "parse_sessions_index slug src = Inr ps" "find (\<lambda>p. \<not> is_completed d p) ps = Some p"
      "config_num d ''max_attempts_per_phase'' DEFAULT_MAX_ATTEMPTS = Inr m"
      "of_nat (attempts_for_phase (d_events d) (ph_id p)) < m" "lease_ttl_for_phase d (ph_id p) = Inr lease"
      "g_dispatch (fst (gate_decision (te_store env) slug now db))"
    unfolding ready_def by blast
  obtain obs where o1: "snapshot_with_preconditions db slug = Inr (d, obs)"
    using r(1) by (auto simp: snapshot_with_preconditions_def)
  obtain g dbq where g: "gate_decision (te_store env) slug now db = (g, dbq)" by force
  let ?w = "start_work d obs"
  have w: "w_doc ?w = d" by (simp add: start_work_def)
  have cfg: "d_config d \<noteq> None" using r(9) by (auto simp: config_num_def split: option.splits)
  have nb: "\<not> phase_has_open_blocker d q" for q using r(4) by (simp add: phase_has_open_blocker_def)
  have pick: "find (\<lambda>p. \<not> is_completed d p \<and> \<not> phase_has_open_blocker d (ph_id p)) qs
      = find (\<lambda>p. \<not> is_completed d p) qs" for qs
    by (simp add: nb)
  have ps: "ps \<noteq> []" using r(8) by auto
  have "lease_ttl_for_phase (w_doc (resumed_work now (g_resumed g) ?w)) (ph_id p) = Inr lease"
    using r(11) by (simp add: resumed_lease w)
  then have "dispatch_phase env now m p ?w db = (Inr (decided ((result ADispatch NoInfo)\<lparr>tr_phase := JStr (ph_id p)\<rparr>)
      (claim_for now p lease (resumed_work now (g_resumed g) ?w))), dbq)"
    using r(10,12) g snapshot_slug[OF r(1)]
    by (simp add: dispatch_phase_def w resumed_work_def[symmetric] Let_def)
  moreover have "dispatch_next env now ?w db = dispatch_phase env now m p ?w db"
    using r(6-9) cfg ps snapshot_slug[OF r(1)]
    unfolding dispatch_next_def w pick by (cases ps) (auto simp del: find.simps)
  moreover have "consume_answers now ?w = None" using r(5) by (simp add: consume_None w)
  moreover have "escalate env now ?w = Inr None" using r(4) cfg by (auto simp: escalate_def w)
  moreover have "detect_stalled now ?w = Inr None" using r(3) by (simp add: detect_stalled_def w)
  ultimately have "decide_work env now ?w db = (Inr (decided ((result ADispatch NoInfo)\<lparr>tr_phase := JStr (ph_id p)\<rparr>)
      (claim_for now p lease (resumed_work now (g_resumed g) ?w))), dbq)"
    using r(2-4) by (simp add: decide_work_def decide_live_def decide_quiescent_def w)
  then have "tick_decide env now slug db = (Inr (decided ((result ADispatch NoInfo)\<lparr>tr_phase := JStr (ph_id p)\<rparr>)
      (claim_for now p lease (resumed_work now (g_resumed g) ?w))), dbq)"
    using o1 by (simp add: tick_decide_def start_work_eq emit_all_quiet[OF r(3,4)])
  with o1 g show ?thesis by blast
qed

lemma apply_claim_only:
  assumes "assert_preconditions db slug pre = Inr ()" "slug_re_match slug" "has_plan db slug"
    "dl_claim_updates dl = []" "dl_blocker_updates dl = []" "dl_claim_phase dl = Some p"
  shows "\<exists>token db'. apply_tick_delta now fresh slug pre dl db = (Inr (Some token), db')"
proof -
  have rel: "(if dl_release dl then modify (delete_claim slug) else ret ())
      = modify (if dl_release dl then delete_claim slug else id)"
    by (auto simp: modify_def ret_def)
  have st: "(case dl_status dl of None \<Rightarrow> ret ()
                     | Some s \<Rightarrow> modify (update_plan slug (set_cols [(''status'', SVal (JStr s))])))
      = modify (case dl_status dl of None \<Rightarrow> id | Some s \<Rightarrow> update_plan slug (set_cols [(''status'', SVal (JStr s))]))"
    by (auto simp: modify_def ret_def split: option.split)
  show ?thesis
    using assms
    unfolding apply_tick_delta_def plan_txn_Inr rel st
    by (simp add: andthen_def modify_def ret_def claim_in_txn_eq Let_def)
qed

lemma ready_dispatches:
  assumes "db_ok db" "ready env now slug db p"
  shows "\<exists>out db' token. tick id env now slug db = (Inr out, db') \<and> tr_action (o_result out) = ADispatch
    \<and> tr_phase (o_result out) = JStr (ph_id p) \<and> tr_token (o_result out) = JStr token
    \<and> holder db' slug = Some (JStr token, JStr (ph_id p))"
proof -
  from ready_decides[OF assms(2)] obtain d obs lease g dbq where
    sp: "snapshot_with_preconditions db slug = Inr (d, obs)" and g: "gate_decision (te_store env) slug now db = (g, dbq)" and
    td: "tick_decide env now slug db = (Inr (decided ((result ADispatch NoInfo)\<lparr>tr_phase := JStr (ph_id p)\<rparr>)
        (claim_for now p lease (resumed_work now (g_resumed g) (start_work d obs)))), dbq)" by blast
  let ?w = "claim_for now p lease (resumed_work now (g_resumed g) (start_work d obs))"
  from sp have sn: "snapshot_in_txn db slug = Inr d" and sl: "slug_re_match slug"
    by (auto simp: snapshot_with_preconditions_def snapshot_def bind_res_Inr)
  from snapshot_in_txn_reads[OF sn] have hp: "has_plan db slug" by auto
  have obs: "dl_observed (w_delta (resumed_work now (g_resumed g) (start_work d obs))) = obs"
    by (simp add: start_work_def empty_delta_def)
  have "pre_within (dl_pre (w_delta ?w)) obs"
    by (simp add: pre_within_def pre_of_claim_for obs)
      (simp add: claim_for_def Let_def require_all_def require_status_def require_event_log_def require_claim_def
        require_def resumed_doc start_work_def empty_delta_def no_pre_def)
  from observed_preconditions_hold[OF assms(1) sp this]
  have pre: "assert_preconditions dbq slug (dl_pre (w_delta ?w)) = Inr ()"
    using gate_frame[OF g] by (metis assert_quota)
  have "t_plans dbq = t_plans db" by (subst gate_frame[OF g]) simp
  then have hq: "has_plan dbq slug" using hp by simp
  have "dl_claim_updates (w_delta ?w) = []" "dl_blocker_updates (w_delta ?w) = []"
    by (simp_all add: claim_for_def Let_def require_all_def require_status_def require_event_log_def require_claim_def
        require_def resumed_doc start_work_def empty_delta_def)
  from apply_claim_only[OF pre sl hq this claim_for_phase] obtain token db' where
    ap: "apply_tick_delta now (te_fresh env) slug (dl_pre (w_delta ?w)) (w_delta ?w) dbq = (Inr (Some token), db')" by blast
  have "\<not> delta_is_empty (w_delta ?w)" by (simp add: delta_is_empty_def)
  then have "\<exists>out. tick id env now slug db = (Inr out, db') \<and> tr_action (o_result out) = ADispatch"
    using td hp ap by (simp add: tick_def plan_exists_def sl tick_commit_def apply_delta_def decided_def quiet_outcome_def)
  then obtain out where out: "tick id env now slug db = (Inr out, db')" "tr_action (o_result out) = ADispatch" by blast
  then have com: "tick_commit env now slug (decided ((result ADispatch NoInfo)\<lparr>tr_phase := JStr (ph_id p)\<rparr>) ?w) dbq = (Inr out, db')"
    using td hp by (simp add: tick_def plan_exists_def sl)
  from commit_Inr_dispatch[OF com refl claim_for_phase out(2)] out show ?thesis by blast
qed

text \<open>
  C2 Progress. A plan that is ready for a phase is dispatched: when its status is not terminal, it
  has no claim, no open and no unconsumed blocker, its table names a phase still to do with
  attempts and a lease to give, and the quota gate lets it pass, then one tick that nobody
  disturbs claims that phase, and the claim row holds the new token.
\<close>

theorem tick_progress:
  assumes "db_ok db" and "ready env now slug db p"
  shows "\<exists>out db' token. tick id env now slug db = (Inr out, db') \<and> tr_action (o_result out) = ADispatch
    \<and> tr_phase (o_result out) = JStr (ph_id p) \<and> tr_token (o_result out) = JStr token
    \<and> holder db' slug = Some (JStr token, JStr (ph_id p))"
  by (rule ready_dispatches[OF assms])

lemma example_snapshot: "snapshot example_db ''w1'' = Inr (empty_state 0 ''w1'' ''plans'')"
proof -
  have e: "example_db = insert_events ''w1'' (d_events (empty_state 0 ''w1'' ''plans''))
      (write_claim ''w1'' None (empty_db\<lparr>t_plans := [(''w1'', head_row (empty_state 0 ''w1'' ''plans''))]\<rparr>))"
    unfolding example_db_def using w1_slug by (subst create_plain) (simp_all add: empty_state_def)
  show ?thesis
    using w1_slug
    by (simp add: e snapshot_def validate_slug_def guard_res_def snapshot_in_txn_def write_claim_def empty_db_def
        head_row_def empty_state_def PLAN_SCALARS_def PLAN_JSON_def iso_def read_claim_def read_blockers_def
        read_tasks_def read_events_def plan_events_def rows_of_def insert_events_def)
qed

definition example_env :: tick_env where
  "example_env = \<lparr>te_cfg = \<lparr>tc_stuck_threshold = 300, tc_stuck_cpu = 5, tc_idle_window = 10, tc_idle_gap = 60,
       tc_idle_cpu = 1, tc_idle_samples = 3, tc_coolant = False, tc_notify = night_spec\<rparr>,
     te_os = example_os, te_logs = (\<lambda>_. None), te_zones = (\<lambda>_ _. None),
     te_plan = Some (render_index [example_phase]), te_store = StoreOk, te_local = minutes 600, te_fresh = ''abc''\<rparr>"

lemma example_ready: "ready example_env 7 ''w1'' example_db example_phase"
proof -
  let ?d = "empty_state 0 ''w1'' ''plans''"
  have "parse_sessions_index ''w1'' (render_index [example_phase]) = Inr [example_phase]" by code_simp
  moreover have "find (\<lambda>p. \<not> is_completed ?d p) [example_phase] = Some example_phase"
    by (simp add: is_completed_def completed_phase_ids_def empty_state_def)
  moreover have "config_num ?d ''max_attempts_per_phase'' DEFAULT_MAX_ATTEMPTS = Inr 3"
    by (simp add: config_num_def empty_state_def DEFAULT_MAX_ATTEMPTS_def)
  moreover have "lease_ttl_for_phase ?d (ph_id example_phase) = Inr 60"
    by (simp add: lease_ttl_for_phase_def empty_state_def config_get_def to_int_def DEFAULT_LEASE_TTL_MIN_def)
  moreover have "t_quota example_db = None"
    unfolding example_db_def using w1_slug by (subst create_plain) (simp_all add: empty_state_def write_claim_def empty_db_def)
  moreover have "d_status ?d \<notin> set TERMINAL_STATUSES" by (simp add: empty_state_def TERMINAL_STATUSES_def)
  moreover have "attempts_for_phase (d_events ?d) q = 0" for q
    by (simp add: attempts_for_phase_def since_floor_def empty_state_def)
  ultimately show ?thesis
    unfolding ready_def example_snapshot
    by (intro exI[of _ ?d] exI[of _ "render_index [example_phase]"] exI[of _ "[example_phase]"] exI[of _ 3] exI[of _ 60])
      (simp add: example_env_def open_blockers_def decide_in_txn_def DISPATCH_def, simp add: empty_state_def)
qed

theorem tick_progress_witness:
  "\<exists>out db' token. tick id example_env 7 ''w1'' example_db = (Inr out, db')
     \<and> holder db' ''w1'' = Some (JStr token, JStr ''a'')"
  using tick_progress[OF example_db_ok example_ready] by (auto simp: example_phase_def)

theorem tick_dispatch_sound_witness:
  "\<exists>out db' token. tick id example_env 7 ''w1'' example_db = (Inr out, db') \<and> o_signals out = []
     \<and> holder db' ''w1'' = Some (JStr token, tr_phase (o_result out))"
proof -
  obtain out db' where t: "tick id example_env 7 ''w1'' example_db = (Inr out, db')" "tr_action (o_result out) = ADispatch"
    using ready_dispatches[OF example_db_ok example_ready] by blast
  from tick_dispatch_sound[OF t] t(1) show ?thesis by (metis (no_types, lifting))
qed

end
