(* ===== verification/Supervisor_Ends.thy ===== *)
theory Supervisor_Ends
  imports Supervisor_Props
begin

text \<open>
  How a tick declares a plan done, and the facts about the commit that the releases share.
\<close>

section \<open>The commit\<close>

lemma apply_claim_updates_plans:
  "apply_claim_updates slug t flds db = (Inr (), db') \<Longrightarrow> t_plans db' = t_plans db"
  by (auto simp: apply_claim_updates_def update_claim_def split: option.splits if_splits)

lemma apply_all_blockers_plans:
  "apply_all_blockers slug bs db = (Inr (), db') \<Longrightarrow> t_plans db' = t_plans db \<and> t_claims db' = t_claims db"
proof (induction slug bs arbitrary: db rule: apply_all_blockers.induct)
  case (2 slug b flds rest)
  then obtain db1 where "apply_blocker_updates slug b flds db = (Inr (), db1)" "apply_all_blockers slug rest db1 = (Inr (), db')"
    by (auto simp: andthen_Inr)
  moreover from this have "t_plans db1 = t_plans db \<and> t_claims db1 = t_claims db"
    by (auto simp: apply_blocker_updates_def update_blockers_def split: if_splits)
  ultimately show ?case using 2 by simp
qed (simp add: ret_def)

lemma commit_status:
  assumes "apply_tick_delta now fresh slug pre dl db = (Inr t, db')" "dl_status dl = Some s" "dl_claim_phase dl = None"
  shows "\<exists>r. map_of (t_plans db') slug = Some r \<and> r ''status'' = SVal (JStr s)"
proof -
  from assms(1) obtain db1 db2 where
    hp: "has_plan db slug" and
    cu: "(if dl_claim_updates dl = [] then ret ()
      else apply_claim_updates slug (dl_claim_token dl) (dl_claim_updates dl)) (update_plan slug bump_version db) = (Inr (), db1)" and
    bu: "apply_all_blockers slug (dl_blocker_updates dl) db1 = (Inr (), db2)" and
    f: "(case dl_claim_phase dl of None \<Rightarrow> t = None \<and> db' = plain_writes slug dl db2
      | Some p \<Rightarrow> \<exists>tok. t = Some tok \<and> claim_in_txn now fresh slug dl p (plain_writes slug dl db2) = (Inr tok, db'))"
    by (elim apply_tick_delta_InrE)
  have "t_plans db1 = t_plans (update_plan slug bump_version db)"
    using cu apply_claim_updates_plans by (auto simp: ret_def split: if_splits)
  then have "has_plan db2 slug"
    using apply_all_blockers_plans[OF bu] hp by (simp add: update_plan_def map_of_map_entry split: option.splits)
  moreover have "db' = plain_writes slug dl db2" using f assms(3) by simp
  ultimately show ?thesis
    using assms(2) by (auto simp: plain_writes_def update_plan_def map_of_map_entry delete_claim_def set_cols_def)
qed

lemma commit_release:
  assumes "apply_tick_delta now fresh slug pre dl db = (Inr t, db')" "dl_release dl" "dl_claim_phase dl = None"
  shows "holder db' slug = None"
proof -
  from assms obtain db2 where "db' = plain_writes slug dl db2" by (elim apply_tick_delta_InrE) auto
  then show ?thesis
    using assms(2) by (auto simp: plain_writes_def holder_def claim_row_of_def delete_claim_def update_plan_def
        split: option.split)
qed

lemma run_post_holder: "holder (snd (run_post env now slug p (out, db))) slug = None \<longleftrightarrow> holder db slug = None"
proof -
  have "holder (snd (op_append_events slug evs None None db)) slug = holder db slug" for evs
    by (auto simp: op_append_events_def plan_txn_def write_txn_def andthen_def bump_def check_token_def ret_def modify_def
        holder_def claim_row_of_def update_plan_def validate_slug_def guard_res_def)
  then show ?thesis by (auto simp: run_post_def split: post.split prod.split)
qed

lemma run_posts_holder:
  "fold (run_post env now slug) ps (out0, db) = (out, db') \<Longrightarrow> holder db' slug = None \<longleftrightarrow> holder db slug = None"
proof (induction ps arbitrary: out0 db)
  case (Cons p ps)
  obtain out1 db1 where "run_post env now slug p (out0, db) = (out1, db1)" by force
  with Cons run_post_holder[of env now slug p out0 db] show ?case by auto
qed simp

section \<open>Plan done\<close>

lemma dispatch_phase_action: "dispatch_phase env now m p w db = (Inr dc, db') \<Longrightarrow> tr_action (dc_result dc) \<noteq> APlanDone"
  by (auto simp: dispatch_phase_def Let_def decided_def split: if_splits prod.splits sum.splits)

lemma dispatch_next_done:
  assumes "dispatch_next env now w db = (Inr dc, db')" "tr_action (dc_result dc) = APlanDone"
  shows "\<exists>src ps. te_plan env = Some src \<and> parse_sessions_index (d_slug (w_doc w)) src = Inr ps \<and> ps \<noteq> []
    \<and> list_all (is_completed (w_doc w)) ps \<and> pending_tasks (w_doc w) = []
    \<and> dl_status (w_delta (dc_work dc)) = Some STATUS_DONE
    \<and> dl_claim_phase (w_delta (dc_work dc)) = dl_claim_phase (w_delta w)
    \<and> dc_post dc = [] \<and> db' = db"
proof -
  from assms obtain src p0 ps where t: "te_plan env = Some src" "parse_sessions_index (d_slug (w_doc w)) src = Inr (p0 # ps)"
    "dc = finish_plan now (p0 # ps) w" "db' = db"
    unfolding dispatch_next_def
    by (auto simp: decided_def simp del: find.simps dest: dispatch_phase_action split: option.splits sum.splits list.splits)
  with assms(2) have "list_all (is_completed (w_doc w)) (p0 # ps)" "pending_tasks (w_doc w) = []"
    by (auto simp: finish_plan_def decided_def split: if_splits)
  with t show ?thesis
    by (auto simp: finish_plan_def decided_def Let_def delta_event_def carry_events_def delta_status_def require_all_def
        require_status_def require_event_log_def require_claim_def require_def)
qed

text \<open>
  C3 A plan is declared done only when it is. When a tick reports a plan as done, the snapshot it
  judged was of a plan with a non-empty table all of whose phases have a completion event, no
  spawned task pending, no open blocker, no claim, and a status that was not terminal; and after
  the commit the plan's row carries the status done.
\<close>

theorem tick_plan_done_sound:
  assumes "tick others env now slug db = (Inr out, db')" and "tr_action (o_result out) = APlanDone"
  shows "\<exists>d src ps r. snapshot db slug = Inr d \<and> d_status d \<notin> set TERMINAL_STATUSES
    \<and> claim_identity (d_claim d) \<in> {None, Some (JNull, JNull)} \<and> open_blockers d = []
    \<and> te_plan env = Some src \<and> parse_sessions_index slug src = Inr ps \<and> ps \<noteq> []
    \<and> list_all (is_completed d) ps \<and> pending_tasks d = []
    \<and> map_of (t_plans db') slug = Some r \<and> r ''status'' = SVal (JStr STATUS_DONE)"
proof -
  from assms(2) have a: "tr_action (o_result out) \<in> {ADispatch, APlanDone, AHalt, AError}" by simp
  from assms(1) a obtain dc dbq d obs w where
    com: "tick_commit env now slug dc (others dbq) = (Inr out, db')" and
    sn: "snapshot db slug = Inr d" and sl: "d_slug d = slug" and em: "emits (start_work d obs) w" and
    dw: "decide_work env now w db = (Inr dc, dbq)" and act: "tr_action (dc_result dc) = tr_action (o_result out)"
    by (elim tick_InrE) blast
  note rd = emits_reads[OF em, unfolded start_work_def, simplified]
  have a2: "tr_action (dc_result dc) \<in> {ADispatch, APlanDone, AHalt, AError}" using act assms(2) by simp
  from decide_quiescent_late[OF decide_work_late[OF dw a2] a2] have
    q: "dispatch_next env now w db = (Inr dc, dbq)" "d_status d \<notin> set TERMINAL_STATUSES" "open_blockers d = []" and
    nc: "d_claim (w_doc w) = None \<or> d_claim (w_doc w) = Some []"
    using rd by auto
  have none: "dl_claim_phase (w_delta w) = None"
    using em by (simp add: emits_def same_decision_def start_work_def empty_delta_def)
  from dispatch_next_done[OF q(1)] act assms(2) none obtain src ps where
    t: "te_plan env = Some src" "parse_sessions_index slug src = Inr ps" "ps \<noteq> []" "list_all (is_completed d) ps"
      "pending_tasks d = []" and
    dl: "dl_status (w_delta (dc_work dc)) = Some STATUS_DONE" "dl_claim_phase (w_delta (dc_work dc)) = None" "dc_post dc = []"
    using rd sl by (auto simp: pending_tasks_def)
  have ne: "\<not> delta_is_empty (w_delta (dc_work dc))" using dl(1) by (simp add: delta_is_empty_def)
  obtain r db1 where ap: "apply_tick_delta now (te_fresh env) slug (dl_pre (w_delta (dc_work dc))) (w_delta (dc_work dc)) (others dbq) = (r, db1)" by force
  have "\<exists>t. r = Inr t \<and> db' = db1"
  proof (cases r)
    case (Inl e)
    then show ?thesis
      using com ap ne assms(2) unfolding tick_commit_def Let_def by (cases e) (auto simp: apply_delta_def quiet_outcome_def)
  next
    case (Inr t)
    then show ?thesis using com ap ne dl(3) unfolding tick_commit_def Let_def by (auto simp: apply_delta_def)
  qed
  then obtain t where "apply_tick_delta now (te_fresh env) slug (dl_pre (w_delta (dc_work dc))) (w_delta (dc_work dc)) (others dbq) = (Inr t, db')"
    using ap by auto
  from commit_status[OF this dl(1,2)] sn q(2,3) claim_gone_identity[OF em nc] t show ?thesis by blast
qed

lemma apply_no_claim:
  assumes "assert_preconditions db slug pre = Inr ()" "slug_re_match slug" "has_plan db slug"
    "dl_claim_updates dl = []" "dl_blocker_updates dl = []" "dl_claim_phase dl = None"
  shows "\<exists>db'. apply_tick_delta now fresh slug pre dl db = (Inr None, db')"
proof -
  have rel: "(if dl_release dl then modify (delete_claim slug) else ret ())
      = modify (if dl_release dl then delete_claim slug else id)"
    by (auto simp: modify_def ret_def)
  have st: "(case dl_status dl of None \<Rightarrow> ret ()
                     | Some s \<Rightarrow> modify (update_plan slug (set_cols [(''status'', SVal (JStr s))])))
      = modify (case dl_status dl of None \<Rightarrow> id | Some s \<Rightarrow> update_plan slug (set_cols [(''status'', SVal (JStr s))]))"
    by (auto simp: modify_def ret_def split: option.split)
  show ?thesis
    using assms unfolding apply_tick_delta_def plan_txn_Inr rel st by (simp add: andthen_def modify_def ret_def)
qed

definition done_doc :: doc where
  "done_doc = append_event 3 EVENT_PHASE_COMPLETED [(''phase'', JStr ''a'')] (empty_state 0 ''w1'' ''plans'')"

definition done_db :: pdb where
  "done_db = run_op (OpCreate done_doc) empty_db"

lemma done_db_ok: "db_ok done_db"
  unfolding done_db_def
  by (rule store_log.step_inv[OF empty_db_ok db_step.run])
    (simp add: doc_ok_def done_doc_def empty_state_def append_event_def)

lemma done_snapshot:
  "\<exists>d. snapshot done_db ''w1'' = Inr d \<and> d_status d = JStr STATUS_RUNNING \<and> d_claim d = None \<and> d_blockers d = []
     \<and> d_tasks d = [] \<and> d_slug d = ''w1'' \<and> d_config d = d_config (empty_state 0 ''w1'' ''plans'')
     \<and> is_completed d example_phase"
proof -
  have f: "d_slug done_doc = ''w1''" "d_blockers done_doc = []" "d_tasks done_doc = []" "d_claim done_doc = None"
    "d_events done_doc = [mk_event 3 EVENT_PHASE_COMPLETED [(''phase'', JStr ''a'')]]"
    by (simp_all add: done_doc_def append_event_def empty_state_def)
  have e: "done_db = insert_events ''w1'' (d_events done_doc)
      (write_claim ''w1'' None (empty_db\<lparr>t_plans := [(''w1'', head_row done_doc)]\<rparr>))"
    unfolding done_db_def using w1_slug f by (subst create_plain) simp_all
  have "\<exists>x. read_events done_db ''w1'' = [x] \<and> ev_is EVENT_PHASE_COMPLETED x \<and> dget x ''phase'' = Some (JStr ''a'')"
    unfolding e f
    by (simp add: read_events_def insert_events_def insert_event_def plan_events_def write_claim_def empty_db_def event_from_row_def
        event_payload_def mk_event_def jget_def dwithout_def json_or_null_def)
  then have c: "\<exists>x. read_events done_db ''w1'' = [x] \<and> completed_phase_ids [x] = [JStr ''a'']"
    by (auto simp: completed_phase_ids_def)
  obtain r where r: "map_of (t_plans done_db) ''w1'' = Some r" "r = head_row done_doc" by (simp add: e write_claim_def)
  have n: "read_claim done_db ''w1'' = None" "read_blockers done_db ''w1'' = []" "read_tasks done_db ''w1'' = []"
    by (simp_all add: e read_claim_def read_blockers_def read_tasks_def rows_of_def write_claim_def empty_db_def)
  obtain d where d: "snapshot done_db ''w1'' = Inr d"
    using w1_slug r by (simp add: snapshot_def validate_slug_def guard_res_def snapshot_in_txn_def)
  then have di: "snapshot_in_txn done_db ''w1'' = Inr d" by (auto simp: snapshot_def bind_res_Inr)
  from snapshot_in_txn_reads[OF di] r n c have "d_claim d = None" "d_blockers d = []" "d_tasks d = []"
    "d_slug d = ''w1''" "completed_phase_ids (d_events d) = [JStr ''a'']" "d_status d = JStr STATUS_RUNNING"
    by (auto simp: head_row_def done_doc_def append_event_def empty_state_def)
  moreover have "d_config d = d_config (empty_state 0 ''w1'' ''plans'')"
    using di r by (auto simp: snapshot_in_txn_def head_row_def done_doc_def append_event_def empty_state_def)
  ultimately show ?thesis using d by (simp add: is_completed_def example_phase_def)
qed

lemma commit_ok:
  assumes "apply_delta env now slug (w_delta (dc_work dc)) db = (Inr t, db')" "dc_post dc = []"
  shows "\<exists>out. tick_commit env now slug dc db = (Inr out, db') \<and> tr_action (o_result out) = tr_action (dc_result dc)"
  using assms by (simp add: tick_commit_def Let_def quiet_outcome_def)

lemma done_run: "\<exists>out db'. tick id example_env 7 ''w1'' done_db = (Inr out, db') \<and> tr_action (o_result out) = APlanDone"
proof -
  obtain d where d: "snapshot done_db ''w1'' = Inr d" "d_status d = JStr STATUS_RUNNING" "d_claim d = None"
    "d_blockers d = []" "d_tasks d = []" "d_slug d = ''w1''" "d_config d = d_config (empty_state 0 ''w1'' ''plans'')"
    "is_completed d example_phase" using done_snapshot by blast
  obtain obs where o1: "snapshot_with_preconditions done_db ''w1'' = Inr (d, obs)"
    using d(1) by (auto simp: snapshot_with_preconditions_def)
  let ?w = "start_work d obs"
  have ob: "open_blockers d = []" using d(4) by (simp add: open_blockers_def)
  have w: "w_doc ?w = d" by (simp add: start_work_def)
  have cfg: "d_config d \<noteq> None" using d(7) by (simp add: empty_state_def)
  have p: "parse_sessions_index ''w1'' (render_index [example_phase]) = Inr [example_phase]" by code_simp
  have "dispatch_next example_env 7 ?w done_db = (Inr (finish_plan 7 [example_phase] ?w), done_db)"
    using p d(6,8) cfg by (auto simp: dispatch_next_def w example_env_def)
  moreover have "consume_answers 7 ?w = None" using d(4) by (simp add: consume_None w)
  moreover have "escalate example_env 7 ?w = Inr None" using ob cfg by (auto simp: escalate_def w)
  moreover have "detect_stalled 7 ?w = Inr None" using d(3) by (simp add: detect_stalled_def w)
  ultimately have dec: "tick_decide example_env 7 ''w1'' done_db = (Inr (finish_plan 7 [example_phase] ?w), done_db)"
    using o1 d(2,3) ob
    by (simp add: tick_decide_def start_work_eq emit_all_quiet[OF d(3) ob] decide_work_def decide_live_def
        decide_quiescent_def w TERMINAL_STATUSES_def)
  let ?dl = "w_delta (dc_work (finish_plan 7 [example_phase] ?w))"
  have f: "finish_plan 7 [example_phase] ?w = decided ((result APlanDone (PlanSlug ''w1''))\<lparr>tr_body :=
      Some (CompletedNote (commit_count (d_events (w_doc (dc_work (finish_plan 7 [example_phase] ?w))))))\<rparr>)
      (delta_event 7 EVENT_PLAN_COMPLETED [] (delta_status STATUS_DONE (require_all ?w)))"
    using d(5,6,8) by (simp add: finish_plan_def w pending_tasks_def Let_def decided_def)
  have dl: "dl_claim_updates ?dl = []" "dl_blocker_updates ?dl = []" "dl_claim_phase ?dl = None" "pre_within (dl_pre ?dl) obs"
    "\<not> delta_is_empty ?dl" "dl_status ?dl = Some STATUS_DONE"
    by (subst f, simp add: decided_def delta_event_def carry_events_def delta_status_def require_all_def require_status_def
        require_event_log_def require_claim_def require_def start_work_def empty_delta_def pre_within_def no_pre_def
        delta_is_empty_def)+
  have hp: "has_plan done_db ''w1''" using d(1) by (auto simp: snapshot_def bind_res_Inr dest: snapshot_in_txn_reads)
  from apply_no_claim[OF observed_preconditions_hold[OF done_db_ok o1 dl(4)] w1_slug hp dl(1-3)] obtain db' where
    "apply_tick_delta 7 (te_fresh example_env) ''w1'' (dl_pre ?dl) ?dl done_db = (Inr None, db')" by blast
  then have "apply_delta example_env 7 ''w1'' ?dl done_db = (Inr None, db')" using dl(5) by (simp add: apply_delta_def)
  moreover have "dc_post (finish_plan 7 [example_phase] ?w) = []"
    "tr_action (dc_result (finish_plan 7 [example_phase] ?w)) = APlanDone" by (subst f, simp add: decided_def)+
  ultimately obtain out where
    "tick_commit example_env 7 ''w1'' (finish_plan 7 [example_phase] ?w) done_db = (Inr out, db')"
    "tr_action (o_result out) = APlanDone" using commit_ok by metis
  then show ?thesis using dec hp w1_slug by (auto simp: tick_def plan_exists_def)
qed

theorem tick_plan_done_sound_witness:
  "\<exists>out db' r. tick id example_env 7 ''w1'' done_db = (Inr out, db') \<and> map_of (t_plans db') ''w1'' = Some r
     \<and> r ''status'' = SVal (JStr STATUS_DONE)"
proof -
  obtain out db' where t: "tick id example_env 7 ''w1'' done_db = (Inr out, db')" "tr_action (o_result out) = APlanDone"
    using done_run by blast
  from tick_plan_done_sound[OF t] t(1) show ?thesis by blast
qed

end
