(* ===== verification/Supervisor_Release.thy ===== *)
theory Supervisor_Release
  imports Supervisor_Ends
begin

text \<open>
  On what evidence a tick releases a claim and whom it signals then, that every other decision
  keeps the claim, and what is left of a tick whose facts moved while it decided.
\<close>

section \<open>The evidence of a death\<close>

lemma agrees_off_jget: "agrees_off ks c c' \<Longrightarrow> k \<notin> set ks \<Longrightarrow> jget c' k = jget c k \<and> dget c' k = dget c k"
  by (simp add: agrees_off_def jget_def)

lemma evidence_agrees:
  assumes "agrees_off EMIT_MARKS c c'"
  shows "lease_expired now c' = lease_expired now c" "claim_pid c' = claim_pid c" "group_of c' pid = group_of c pid"
    "claim_worker_alive os c' m = claim_worker_alive os c m" "claim_identity (Some c') = claim_identity (Some c)"
proof -
  have k: "dget c' k = dget c k" if "k \<in> {''lease_expires'', ''pid'', ''pgid'', ''claimed_by'', ''phase_id''}" for k
    using agrees_off_jget[OF assms, of k] that by (auto simp: EMIT_MARKS_def)
  show "lease_expired now c' = lease_expired now c" "claim_pid c' = claim_pid c" "group_of c' pid = group_of c pid"
    "claim_worker_alive os c' m = claim_worker_alive os c m" "claim_identity (Some c') = claim_identity (Some c)"
    by (simp_all add: lease_expired_def time_field_def claim_pid_def group_of_def iget_def claim_worker_alive_def
        claim_identity_def jget_def k)
qed

lemma decide_live_action:
  assumes "decide_live env now w db = (Inr dc, db')"
  shows "tr_action (dc_result dc) \<notin> {ALeaseExpired, AWorkerDead}"
proof -
  have dp: "dispatch_phase env now m p w db = (Inr dc, db') \<Longrightarrow> tr_action (dc_result dc) \<notin> {ALeaseExpired, AWorkerDead}" for m p
    by (auto simp: dispatch_phase_def Let_def decided_def split: if_splits prod.splits sum.splits)
  have "tr_action (dc_result (finish_plan now ps w)) \<notin> {ALeaseExpired, AWorkerDead}" for ps
    by (simp add: finish_plan_def decided_def Let_def)
  with dp have "dispatch_next env now w db = (Inr dc, db') \<Longrightarrow> tr_action (dc_result dc) \<notin> {ALeaseExpired, AWorkerDead}"
    unfolding dispatch_next_def by (auto simp: decided_def simp del: find.simps split: option.splits sum.splits list.splits)
  with consume_action have "decide_quiescent env now w db = (Inr dc, db') \<Longrightarrow> tr_action (dc_result dc) \<notin> {ALeaseExpired, AWorkerDead}"
    unfolding decide_quiescent_def by (auto simp: decided_def split: option.splits list.splits if_splits)
  with assms detect_stalled_action escalate_action show ?thesis
    unfolding decide_live_def by (auto simp: decided_def split: sum.splits option.splits)
qed

text \<open>What the two death branches have in common.\<close>

definition post_group :: "post \<Rightarrow> int option" where
  "post_group p = (case p of PostStop _ _ \<Rightarrow> None | PostReapRecord g _ _ \<Rightarrow> Some g | PostReapQuiet g \<Rightarrow> Some g)"

lemma post_group_simps [simp]:
  "post_group (PostStop t p) = None" "post_group (PostReapRecord g ph pid) = Some g" "post_group (PostReapQuiet g) = Some g"
  by (simp_all add: post_group_def)

definition releases :: "obj \<Rightarrow> work \<Rightarrow> decision \<Rightarrow> bool" where
  "releases claim w dc \<longleftrightarrow> dl_release (w_delta (dc_work dc))
     \<and> dl_claim_phase (w_delta (dc_work dc)) = dl_claim_phase (w_delta w)
     \<and> pre_claim (dl_pre (w_delta (dc_work dc))) = pre_claim (dl_observed (w_delta w))
     \<and> (\<forall>p\<in>set (dc_post dc). \<forall>g. post_group p = Some g \<longrightarrow> (\<exists>pid. claim_pid claim = Some pid \<and> g = group_of claim pid))"

lemma harvest_frame:
  "harvest_quota env now claim w db = (sig, w', db') \<Longrightarrow>
     dl_claim_phase (w_delta w') = dl_claim_phase (w_delta w) \<and> dl_release (w_delta w') = dl_release (w_delta w)
     \<and> dl_pre (w_delta w') = dl_pre (w_delta w) \<and> dl_observed (w_delta w') = dl_observed (w_delta w)"
  by (auto simp: harvest_quota_def add_side_def carry_events_def split: option.splits prod.splits)

lemmas delta_prims = set_release_def delta_event_def carry_events_def require_claim_field_def require_claim_def require_def

lemma stop_post_group: "p \<in> set (stop_post env claim) \<Longrightarrow> post_group p = None"
  by (auto simp: stop_post_def post_group_def split: if_splits)

lemma lease_expired_releases: "releases claim w (fst (decide_lease_expired env now claim w db))"
proof -
  obtain sig w2 db2 where h: "harvest_quota env now claim (set_release (delta_event now EVENT_LEASE_EXPIRED
      [(''phase'', jget claim ''phase_id''), (''claimed_by'', jget claim ''claimed_by'')]
      (require_claim_field ''lease_expires'' (require_claim w)))) db = (sig, w2, db2)" by (metis prod_cases3)
  have dc: "dc_work (fst (decide_lease_expired env now claim w db)) = w2"
    "dc_post (fst (decide_lease_expired env now claim w db)) = stop_post env claim @
      (case claim_pid claim of None \<Rightarrow> []
       | Some pid \<Rightarrow> [PostReapRecord (group_of claim pid) (jget claim ''phase_id'') pid])"
    using h by (simp_all add: decide_lease_expired_def Let_def)
  show ?thesis
    unfolding releases_def dc using harvest_frame[OF h]
    by (cases "claim_pid claim") (auto simp: delta_prims stop_post_group)
qed

lemma worker_dead_releases:
  assumes "claim_pid claim = Some pid"
  shows "releases claim w (fst (decide_worker_dead env now claim pid w db))"
proof -
  obtain sig w2 db2 where h: "harvest_quota env now claim w db = (sig, w2, db2)" by (metis prod_cases3)
  then have dc: "dc_work (fst (decide_worker_dead env now claim pid w db)) =
      set_release (delta_event now EVENT_PHASE_WORKER_DEAD [(''phase'', jget claim ''phase_id''), (''pid'', JInt pid)] (require_claim w2))"
    "dc_post (fst (decide_worker_dead env now claim pid w db)) = stop_post env claim @ [PostReapQuiet (group_of claim pid)]"
    by (simp_all add: decide_worker_dead_def Let_def)
  show ?thesis
    unfolding releases_def dc using harvest_frame[OF h] assms
    by (auto simp: delta_prims stop_post_group)
qed

lemma death_frame:
  "\<exists>q. snd (decide_lease_expired env now claim w db) = db\<lparr>t_quota := q\<rparr>"
  "\<exists>q. snd (decide_worker_dead env now claim pid w db) = db\<lparr>t_quota := q\<rparr>"
proof -
  have h: "\<exists>q. snd (snd (harvest_quota env now claim w db)) = db\<lparr>t_quota := q\<rparr>" for w
    by (auto simp: harvest_quota_def record_quota_death_def record_quota_pause_def Let_def
        intro: exI[of _ "t_quota db"] split: option.split)
  then show "\<exists>q. snd (decide_lease_expired env now claim w db) = db\<lparr>t_quota := q\<rparr>"
    "\<exists>q. snd (decide_worker_dead env now claim pid w db) = db\<lparr>t_quota := q\<rparr>"
    unfolding decide_lease_expired_def decide_worker_dead_def Let_def case_prod_beta by simp_all
qed

lemma decide_work_death:
  assumes "decide_work env now w db = (Inr dc, db')" "tr_action (dc_result dc) \<in> {ALeaseExpired, AWorkerDead}"
  obtains claim where "d_claim (w_doc w) = Some claim" "releases claim w dc"
    "if tr_action (dc_result dc) = ALeaseExpired then lease_expired now claim
     else \<exists>pid. claim_pid claim = Some pid \<and> \<not> claim_worker_alive (te_os env) claim (Some (d_slug (w_doc w)))"
    "\<exists>q. db' = db\<lparr>t_quota := q\<rparr>"
proof -
  from assms(1,2) decide_live_action obtain f fs where c: "d_claim (w_doc w) = Some (f # fs)"
    unfolding decide_work_def by (fastforce split: option.splits list.splits)
  show thesis
  proof (cases "lease_expired now (f # fs)")
    case True
    then have "dc = fst (decide_lease_expired env now (f # fs) w db)" "db' = snd (decide_lease_expired env now (f # fs) w db)"
      using assms(1) c by (auto simp: decide_work_def split: prod.splits)
    with c True death_frame show thesis by (intro that) (simp_all add: lease_expired_releases lease_expired_action)
  next
    case False
    with assms c decide_live_action obtain pid where pid: "claim_pid (f # fs) = Some pid"
      "\<not> claim_worker_alive (te_os env) (f # fs) (Some (d_slug (w_doc w)))"
      "dc = fst (decide_worker_dead env now (f # fs) pid w db)" "db' = snd (decide_worker_dead env now (f # fs) pid w db)"
      unfolding decide_work_def by (fastforce split: option.splits if_splits prod.splits)
    have "\<exists>pid. claim_pid (f # fs) = Some pid \<and> \<not> claim_worker_alive (te_os env) (f # fs) (Some (d_slug (w_doc w)))"
      using pid(1,2) by blast
    then show thesis
      using that[OF c] worker_dead_releases[OF pid(1)] worker_dead_action[of env now "f # fs" pid w db]
        death_frame(2) by (simp add: pid(3,4))
  qed
qed

lemma tick_InrE2:
  assumes "tick others env now slug db = (Inr out, db')" "tr_action (o_result out) \<noteq> AIdle"
  obtains dc dbq d obs w where "tick_commit env now slug dc (others dbq) = (Inr out, db')"
    "snapshot_with_preconditions db slug = Inr (d, obs)" "snapshot db slug = Inr d" "d_slug d = slug"
    "w = emit_all env now (start_work d obs)" "emits (start_work d obs) w"
    "decide_work env now w db = (Inr dc, dbq)" "tr_action (dc_result dc) = tr_action (o_result out)"
proof -
  from assms obtain dc dbq where dec: "tick_decide env now slug db = (Inr dc, dbq)"
    and com: "tick_commit env now slug dc (others dbq) = (Inr out, db')"
    by (auto simp: tick_def quiet_outcome_def result_def split: if_splits prod.splits sum.splits)
  from commit_action[OF com] assms(2) have act: "tr_action (dc_result dc) = tr_action (o_result out)"
    by (auto simp: quiet_outcome_def result_def)
  from dec obtain d obs where s: "snapshot_with_preconditions db slug = Inr (d, obs)"
    "decide_work env now (emit_all env now (start_work d obs)) db = (Inr dc, dbq)"
    by (auto simp: tick_decide_def start_work_eq split: sum.splits)
  from s(1) have sn: "snapshot db slug = Inr d" by (auto simp: snapshot_with_preconditions_def bind_res_Inr)
  show thesis by (rule that[OF com s(1) sn snapshot_slug[OF sn] refl emits_all s(2) act])
qed

section \<open>The commit of a release\<close>

lemma reap_needs_marker:
  assumes "(g, s) \<in> set (snd (reap_orphan_pgroup os pgid (Some m)))"
  shows "own_pgid os \<noteq> Some g \<and> (\<exists>cmd\<in>set (pgroup_member_cmdlines os g). cmdline_marker_present cmd m)"
  using assms by (auto simp: reap_orphan_pgroup_def Let_def list_ex_iff split: if_splits prod.splits option.splits)

lemma commit_applied:
  assumes "tick_commit env now slug dc db = (Inr out, db')" "tr_action (o_result out) \<noteq> AIdle"
    "\<not> delta_is_empty (w_delta (dc_work dc))"
  obtains t r db1 out1 where
    "apply_tick_delta now (te_fresh env) slug (dl_pre (w_delta (dc_work dc))) (w_delta (dc_work dc)) db = (Inr t, db1)"
    "fold (run_post env now slug) (dc_post dc) (quiet_outcome r, db1) = (out1, db')"
    "o_signals out = o_signals out1"
proof -
  obtain r db1 where ap: "apply_tick_delta now (te_fresh env) slug (dl_pre (w_delta (dc_work dc))) (w_delta (dc_work dc)) db = (r, db1)" by force
  show thesis
  proof (cases r)
    case (Inl e)
    then show thesis
      using assms ap unfolding tick_commit_def Let_def by (cases e) (auto simp: apply_delta_def quiet_outcome_def)
  next
    case (Inr t)
    then show thesis
      using assms ap that unfolding tick_commit_def Let_def by (auto simp: apply_delta_def split: prod.splits)
  qed
qed

lemma posts_signals:
  assumes "fold (run_post env now slug) ps (out0, db) = (out, db')" "(g, s) \<in> set (o_signals out)"
  shows "(g, s) \<in> set (o_signals out0)
    \<or> (\<exists>p\<in>set ps. post_group p = Some g) \<and> (g, s) \<in> set (snd (reap_orphan_pgroup (te_os env) g (Some slug)))"
  using assms
proof (induction ps arbitrary: out0 db)
  case (Cons p ps)
  obtain out1 db1 where r: "run_post env now slug p (out0, db) = (out1, db1)" by force
  moreover from r have "(g, s) \<in> set (o_signals out1) \<Longrightarrow> (g, s) \<in> set (o_signals out0) \<or> post_group p = Some g
      \<and> (g, s) \<in> set (snd (reap_orphan_pgroup (te_os env) g (Some slug)))"
    by (auto simp: run_post_def split: post.splits prod.splits dest: reap_target)
      (metis reap_target snd_conv)+
  ultimately show ?case using Cons by auto
qed simp


section \<open>Decisions that move no claim\<close>

text \<open>A delta that moves no claim: no release, no new claim, and only marks on the live one.\<close>

definition moves_no_claim :: "work \<Rightarrow> bool" where
  "moves_no_claim w \<longleftrightarrow> \<not> dl_release (w_delta w) \<and> dl_claim_phase (w_delta w) = None
     \<and> distinct (map fst (dl_claim_updates (w_delta w)))
     \<and> set (map fst (dl_claim_updates (w_delta w))) \<subseteq> set EMIT_MARKS"

lemma plain_prims [simp]:
  "moves_no_claim (carry_events evs w) = moves_no_claim w"
  "moves_no_claim (delta_event now ty flds w) = moves_no_claim w"
  "moves_no_claim (add_side n w) = moves_no_claim w"
  "moves_no_claim (add_inbox ty ds w) = moves_no_claim w"
  "moves_no_claim (require f w) = moves_no_claim w"
  "moves_no_claim (require_claim w) = moves_no_claim w"
  "moves_no_claim (require_claim_field k w) = moves_no_claim w"
  "moves_no_claim (require_event_log w) = moves_no_claim w"
  "moves_no_claim (require_status w) = moves_no_claim w"
  "moves_no_claim (require_blocker b w) = moves_no_claim w"
  "moves_no_claim (require_all w) = moves_no_claim w"
  "moves_no_claim (stamp_blocker b flds w) = moves_no_claim w"
  "moves_no_claim (set_status s w) = moves_no_claim w"
  "moves_no_claim (delta_status s w) = moves_no_claim w"
  by (simp_all add: moves_no_claim_def carry_events_def delta_event_def add_side_def add_inbox_def require_def
      require_claim_def require_claim_field_def require_event_log_def require_status_def require_blocker_def
      require_all_def stamp_blocker_def set_status_def delta_status_def)

lemma dupd_key_set: "set (map fst (dupd d e)) = set (map fst d) \<union> set (map fst e)"
proof (induction d e rule: dupd.induct)
  case (2 d k v e)
  then show ?case by (auto simp: dom_update)
qed simp

lemma plain_stamp [simp]: "set (map fst flds) \<subseteq> set EMIT_MARKS \<Longrightarrow> moves_no_claim w \<Longrightarrow> moves_no_claim (stamp_claim c flds w)"
  using dupd_key_set[of "dl_claim_updates (w_delta w)" flds]
  by (simp add: moves_no_claim_def stamp_claim_def put_claim_def set_claim_updates_def distinct_dupd)

lemma plain_record [simp]: "set names \<subseteq> set EMIT_MARKS \<Longrightarrow> moves_no_claim w \<Longrightarrow> moves_no_claim (record_claim c names w)"
  using dupd_key_set[of "dl_claim_updates (w_delta w)" "map (\<lambda>n. (n, jget c n)) names"]
  by (simp add: moves_no_claim_def record_claim_def put_claim_def set_claim_updates_def image_image distinct_dupd)

lemma plain_fold: "(\<And>x w. moves_no_claim w \<Longrightarrow> moves_no_claim (f x w)) \<Longrightarrow> moves_no_claim w \<Longrightarrow> moves_no_claim (fold f xs w)"
  by (induction xs arbitrary: w) auto

lemma plain_emit_all: "moves_no_claim w \<Longrightarrow> moves_no_claim (emit_all env now w)"
proof -
  have 1: "moves_no_claim w \<Longrightarrow> moves_no_claim (emit_stalled_claim_notify now w)" for w
    by (simp add: emit_stalled_claim_notify_def Let_def EMIT_MARKS_def split: option.split)
  have 2: "moves_no_claim w \<Longrightarrow> moves_no_claim (emit_stuck_blocker_repings now w)" for w
    unfolding emit_stuck_blocker_repings_def
    by (rule plain_fold) (simp_all add: reping_blocker_def Let_def split: option.split prod.split)
  have 3: "moves_no_claim w \<Longrightarrow> moves_no_claim (emit_stuck_tool cfg os now w)" for cfg os w
    unfolding emit_stuck_tool_def
    by (auto split: option.split intro!: plain_fold
        simp: stuck_tool_step_def report_stuck_tool_def Let_def EMIT_MARKS_def)
  have 4: "moves_no_claim w \<Longrightarrow> moves_no_claim (emit_worker_idle cfg os now w)" for cfg os w
    unfolding emit_worker_idle_def
    by (auto split: option.split prod.split
        simp: sample_worker_def report_worker_idle_def Let_def EMIT_MARKS_def)
  show "moves_no_claim w \<Longrightarrow> moves_no_claim (emit_all env now w)"
    unfolding emit_all_def by (intro 1 2 3 4)
qed

lemma plain_consume: "consume_answers now w = Some (r, w') \<Longrightarrow> moves_no_claim w \<Longrightarrow> moves_no_claim w'"
proof -
  have "moves_no_claim w \<Longrightarrow> moves_no_claim (consume_blocker now e w)" for e w
    by (cases e) (simp add: consume_blocker_def)
  then have "moves_no_claim w \<Longrightarrow> moves_no_claim (fold (consume_blocker now) es w)" for es w
    by (rule plain_fold)
  then show "consume_answers now w = Some (r, w') \<Longrightarrow> moves_no_claim w \<Longrightarrow> moves_no_claim w'"
    by (auto simp: consume_answers_def Let_def simp del: fold_Nil fold_Cons split: prod.splits list.splits option.splits)
qed

lemma plain_decisions:
  assumes "decide_live env now w db = (Inr dc, db')" "moves_no_claim w" "tr_action (dc_result dc) \<noteq> ADispatch"
  shows "moves_no_claim (dc_work dc) \<and> dc_post dc = []"
proof -
  have st: "detect_stalled now w = Inr (Some (r, w')) \<Longrightarrow> moves_no_claim w'" for r w'
    using assms(2) by (auto simp: detect_stalled_def bind_res_Inr Let_def EMIT_MARKS_def split: option.splits if_splits)
  have es: "escalate env now w = Inr (Some (r, w')) \<Longrightarrow> moves_no_claim w'" for r w'
    using assms(2) by (auto simp: escalate_def escalate_blocker_def bind_res_Inr Let_def split: if_splits)
  have dp: "dispatch_phase env now m p w db = (Inr dc, db') \<Longrightarrow> moves_no_claim (dc_work dc) \<and> dc_post dc = []" for m p
    using assms(2,3) by (auto simp: dispatch_phase_def Let_def decided_def split: if_splits prod.splits sum.splits)
  have fp: "moves_no_claim (dc_work (finish_plan now ps w)) \<and> dc_post (finish_plan now ps w) = []" for ps
    using assms(2) by (simp add: finish_plan_def decided_def Let_def)
  have dn: "dispatch_next env now w db = (Inr dc, db') \<Longrightarrow> moves_no_claim (dc_work dc) \<and> dc_post dc = []"
    unfolding dispatch_next_def using dp fp assms(2)
    by (auto simp: decided_def simp del: find.simps split: option.splits sum.splits list.splits)
  have dq: "decide_quiescent env now w db = (Inr dc, db') \<Longrightarrow> moves_no_claim (dc_work dc) \<and> dc_post dc = []"
    unfolding decide_quiescent_def using dn assms(2) plain_consume
    by (auto simp: decided_def split: option.splits list.splits if_splits)
  show ?thesis
    using assms(1) st es dq unfolding decide_live_def by (auto simp: decided_def split: sum.splits option.splits)
qed

lemma decide_live_frame:
  assumes "decide_live env now w db = (Inr dc, dbq)"
  shows "\<exists>q. dbq = db\<lparr>t_quota := q\<rparr>"
proof -
  have same: "\<exists>q. db = db\<lparr>t_quota := q\<rparr>" by (intro exI[of _ "t_quota db"]) simp
  have dp: "dispatch_phase env now m p w db = (Inr dc, dbq) \<Longrightarrow> \<exists>q. dbq = db\<lparr>t_quota := q\<rparr>" for m p
    using same gate_frame[of "te_store env" "d_slug (w_doc w)" now db]
    by (auto simp: dispatch_phase_def Let_def split: if_splits prod.splits sum.splits)
  then have "dispatch_next env now w db = (Inr dc, dbq) \<Longrightarrow> \<exists>q. dbq = db\<lparr>t_quota := q\<rparr>"
    using same unfolding dispatch_next_def by (auto simp del: find.simps split: option.splits sum.splits list.splits)
  then have "decide_quiescent env now w db = (Inr dc, dbq) \<Longrightarrow> \<exists>q. dbq = db\<lparr>t_quota := q\<rparr>"
    using same unfolding decide_quiescent_def by (auto split: option.splits list.splits if_splits)
  then show ?thesis
    using assms same unfolding decide_live_def by (auto split: sum.splits option.splits)
qed

lemma decide_work_live:
  assumes "decide_work env now w db = (Inr dc, dbq)" "tr_action (dc_result dc) \<notin> {ALeaseExpired, AWorkerDead}"
  shows "decide_live env now w db = (Inr dc, dbq)"
proof -
  have 1: "decide_lease_expired env now c w db \<noteq> (dc, dbq)" for c
    using assms(2) lease_expired_action[of env now c w db] by force
  have 2: "decide_worker_dead env now c pid w db \<noteq> (dc, dbq)" for c pid
    using assms(2) worker_dead_action[of env now c pid w db] by force
  show ?thesis
    using assms(1) 1 2 unfolding decide_work_def by (auto split: option.splits list.splits if_splits prod.splits)
qed

lemma decide_work_frame: "decide_work env now w db = (Inr dc, dbq) \<Longrightarrow> \<exists>q. dbq = db\<lparr>t_quota := q\<rparr>"
  by (cases "tr_action (dc_result dc) \<in> {ALeaseExpired, AWorkerDead}")
    (blast elim: decide_work_death, blast dest: decide_work_live decide_live_frame)

lemma holder_marks:
  assumes "apply_claim_updates slug t flds db = (Inr (), db')" "distinct (map fst flds)" "set (map fst flds) \<subseteq> set EMIT_MARKS"
  shows "holder db' slug = holder db slug"
proof -
  have "dget flds ''claimed_by'' = None" "dget flds ''phase_id'' = None"
    using assms(3) by (auto simp: map_of_eq_None_iff EMIT_MARKS_def)
  then show ?thesis
    using assms(1) by (auto simp: apply_claim_updates_def holder_update_claim[OF spares_assignments[OF assms(2)]]
        split: option.splits if_splits)
qed

lemma apply_keeps_holder:
  assumes "apply_tick_delta now fresh slug pre (w_delta w) db = (Inr t, db')" "moves_no_claim w"
  shows "holder db' slug = holder db slug"
proof -
  let ?dl = "w_delta w"
  from assms(1) obtain db1 db2 where
    cu: "(if dl_claim_updates ?dl = [] then ret ()
      else apply_claim_updates slug (dl_claim_token ?dl) (dl_claim_updates ?dl)) (update_plan slug bump_version db) = (Inr (), db1)" and
    bu: "apply_all_blockers slug (dl_blocker_updates ?dl) db1 = (Inr (), db2)" and
    f: "(case dl_claim_phase ?dl of None \<Rightarrow> t = None \<and> db' = plain_writes slug ?dl db2
      | Some p \<Rightarrow> \<exists>tok. t = Some tok \<and> claim_in_txn now fresh slug ?dl p (plain_writes slug ?dl db2) = (Inr tok, db'))"
    by (elim apply_tick_delta_InrE)
  have "holder db1 slug = holder (update_plan slug bump_version db) slug"
    using cu assms(2) holder_marks by (auto simp: moves_no_claim_def ret_def split: if_splits)
  moreover have "holder db2 slug = holder db1 slug"
    using apply_all_blockers_plans[OF bu] by (simp add: holder_def claim_row_of_def)
  moreover have "holder (plain_writes slug ?dl db2) slug = holder db2 slug"
    using assms(2) by (simp add: moves_no_claim_def plain_writes_def holder_def claim_row_of_def update_plan_def split: option.split)
  ultimately show ?thesis
    using f assms(2) by (simp add: moves_no_claim_def holder_def claim_row_of_def update_plan_def)
qed

section \<open>What other decisions leave alone\<close>

text \<open>
  Nothing but a dispatch or a death moves a claim. A tick that reports anything else (a stalled
  worker, an escalated or an answered blocker, a halted or finished plan, nothing to do) leaves
  the plan's claim with whom the other processes left it, and signals nobody.
\<close>

theorem tick_keeps_claim:
  assumes "tick others env now slug db = (Inr out, db')" and "has_plan db slug" and "slug_re_match slug"
    and "tr_action (o_result out) \<notin> {ADispatch, ALeaseExpired, AWorkerDead}"
  shows "\<exists>q. holder db' slug = holder (others (db\<lparr>t_quota := q\<rparr>)) slug \<and> o_signals out = [] \<and> o_stops out = []"
proof -
  obtain dc dbq where dec: "tick_decide env now slug db = (Inr dc, dbq)"
    and com: "tick_commit env now slug dc (others dbq) = (Inr out, db')"
    using assms(1-3) by (auto simp: tick_def plan_exists_def split: prod.splits sum.splits)
  from dec obtain d obs where dw: "decide_work env now (emit_all env now (start_work d obs)) db = (Inr dc, dbq)"
    by (auto simp: tick_decide_def start_work_eq split: sum.splits)
  obtain q where q: "dbq = db\<lparr>t_quota := q\<rparr>" using decide_work_frame[OF dw] by blast
  have "holder db' slug = holder (others dbq) slug \<and> o_signals out = [] \<and> o_stops out = []"
  proof (cases "out = quiet_outcome (result AIdle ConcurrentWrite) \<and> db' = others dbq")
    case True
    then show ?thesis by (simp add: quiet_outcome_def)
  next
    case False
    then have act: "tr_action (dc_result dc) = tr_action (o_result out)" using commit_action[OF com] by auto
    have "moves_no_claim (start_work d obs)" by (simp add: moves_no_claim_def start_work_def empty_delta_def)
    then have m: "moves_no_claim (emit_all env now (start_work d obs))" by (rule plain_emit_all)
    have a: "tr_action (dc_result dc) \<notin> {ALeaseExpired, AWorkerDead}" "tr_action (dc_result dc) \<noteq> ADispatch"
      using act assms(4) by auto
    from plain_decisions[OF decide_work_live[OF dw a(1)] m a(2)] have pd: "moves_no_claim (dc_work dc)" "dc_post dc = []"
      by auto
    obtain r db1 where ap: "apply_delta env now slug (w_delta (dc_work dc)) (others dbq) = (r, db1)" by force
    then show ?thesis
    proof (cases r)
      case (Inl e)
      have "db1 = others dbq" using ap Inl apply_tick_Inl by (auto simp: apply_delta_def split: if_splits)
      then show ?thesis using com ap Inl False unfolding tick_commit_def Let_def by (cases e) auto
    next
      case (Inr t)
      then have "db' = db1" "o_signals out = [] \<and> o_stops out = []"
        using com ap pd(2) unfolding tick_commit_def Let_def by (auto simp: quiet_outcome_def)
      then show ?thesis
        using ap Inr apply_keeps_holder[OF _ pd(1)] by (auto simp: apply_delta_def split: if_splits)
    qed
  qed
  with q show ?thesis by blast
qed

text \<open>
  C9 All or nothing. What a tick decided is written only to a database in which every fact the
  decision required still holds; otherwise the tick reports the concurrent write, leaves the
  database exactly as the other processes left it, sends no signal and tells the inbox nothing.
\<close>

theorem tick_discards_on_conflict:
  assumes "tick_decide env now slug db = (Inr dc, dbq)" and "has_plan db slug" and "slug_re_match slug"
    and "\<not> delta_is_empty (w_delta (dc_work dc))"
    and "tick others env now slug db = (Inr out, db')"
  shows "assert_preconditions (others dbq) slug (dl_pre (w_delta (dc_work dc))) = Inr ()
           \<and> tr_action (o_result out) = tr_action (dc_result dc)
         \<or> out = quiet_outcome (result AIdle ConcurrentWrite) \<and> db' = others dbq"
proof -
  have com: "tick_commit env now slug dc (others dbq) = (Inr out, db')"
    using assms(1-3,5) by (simp add: tick_def plan_exists_def)
  obtain r db1 where ap: "apply_tick_delta now (te_fresh env) slug (dl_pre (w_delta (dc_work dc))) (w_delta (dc_work dc)) (others dbq) = (r, db1)"
    by force
  show ?thesis
  proof (cases r)
    case (Inl e)
    then show ?thesis
      using com ap assms(4) apply_tick_Inl[of now "te_fresh env" slug "dl_pre (w_delta (dc_work dc))"]
      unfolding tick_commit_def Let_def by (cases e) (auto simp: apply_delta_def)
  next
    case (Inr t)
    from ap Inr have "assert_preconditions (others dbq) slug (dl_pre (w_delta (dc_work dc))) = Inr ()"
      by (auto elim: apply_tick_delta_InrE)
    moreover have "out \<noteq> quiet_outcome (result AIdle ConcurrentWrite) \<Longrightarrow> ?thesis"
      using commit_action[OF com] calculation by auto
    moreover have "tr_action (o_result out) = tr_action (dc_result dc)"
      using com ap Inr assms(4) unfolding tick_commit_def Let_def
      by (auto simp: apply_delta_def quiet_outcome_def split: prod.splits if_splits dest!: run_posts_result)
    ultimately show ?thesis by blast
  qed
qed

section \<open>Runs\<close>

text \<open>A held claim past its lease, whose worker's group is still there and carries the marker.\<close>

definition late_doc :: doc where
  "late_doc = held_doc\<lparr>d_claim := map_option (\<lambda>c. dset ''pid'' (JInt 42) c) (d_claim held_doc)\<rparr>"

definition late_db :: pdb where
  "late_db = run_op (OpCreate late_doc) empty_db"

definition late_env :: tick_env where
  "late_env = example_env\<lparr>te_os := stubborn_os\<rparr>"

lemma late_run:
  "\<exists>out db'. tick id late_env (minutes 40) ''w1'' late_db = (Inr out, db')
     \<and> tr_action (o_result out) = ALeaseExpired \<and> o_signals out = (42, Term) # replicate 20 (42, Probe) @ [(42, Kill)]"
proof -
  have "case fst (tick id late_env (minutes 40) ''w1'' late_db) of Inl _ \<Rightarrow> False
    | Inr out \<Rightarrow> tr_action (o_result out) = ALeaseExpired \<and> o_signals out = (42, Term) # replicate 20 (42, Probe) @ [(42, Kill)]"
    by code_simp
  then show ?thesis by (cases "tick id late_env (minutes 40) ''w1'' late_db") (auto split: sum.splits)
qed


text \<open>A claim past its first heartbeat, silent for twenty minutes with its process alive.\<close>

definition silent_doc :: doc where
  "silent_doc = held_doc\<lparr>d_claim := map_option (\<lambda>c. dset ''last_heartbeat_at'' (iso (minutes 1)) c) (d_claim held_doc)\<rparr>"

definition silent_db :: pdb where
  "silent_db = run_op (OpCreate silent_doc) empty_db"

theorem tick_keeps_claim_witness:
  "\<exists>out db'. tick id example_env (minutes 27) ''w1'' silent_db = (Inr out, db') \<and> tr_action (o_result out) = AStalled
     \<and> holder db' ''w1'' = Some (JStr ''session-abc'', JStr ''a'')"
proof -
  have "case fst (tick id example_env (minutes 27) ''w1'' silent_db) of Inl _ \<Rightarrow> False
    | Inr out \<Rightarrow> tr_action (o_result out) = AStalled"
    by code_simp
  then obtain out db' where t: "tick id example_env (minutes 27) ''w1'' silent_db = (Inr out, db')"
    "tr_action (o_result out) = AStalled"
    by (cases "tick id example_env (minutes 27) ''w1'' silent_db") (auto split: sum.splits)
  have h: "has_plan silent_db ''w1''" "holder silent_db ''w1'' = Some (JStr ''session-abc'', JStr ''a'')" by code_simp+
  have "holder (silent_db\<lparr>t_quota := q\<rparr>) ''w1'' = holder silent_db ''w1''" for q
    by (simp add: holder_def claim_row_of_def)
  with tick_keeps_claim[OF t(1) h(1) w1_slug] t h(2) show ?thesis by auto
qed

text \<open>The plan was free when the tick looked; another process claims its phase before the commit.\<close>

theorem tick_discards_on_conflict_witness:
  "\<exists>out. tick (\<lambda>_. held_db) example_env 7 ''w1'' example_db = (Inr out, held_db)
     \<and> tr_action (o_result out) = AIdle \<and> o_inbox out = []"
proof -
  have "case fst (tick_decide example_env 7 ''w1'' example_db) of Inl _ \<Rightarrow> False
    | Inr dc \<Rightarrow> \<not> delta_is_empty (w_delta (dc_work dc)) \<and> tr_action (dc_result dc) = ADispatch
       \<and> assert_preconditions held_db ''w1'' (dl_pre (w_delta (dc_work dc))) = Inl (TickConflict ClaimMoved)"
    by code_simp
  then obtain dc dbq where d: "tick_decide example_env 7 ''w1'' example_db = (Inr dc, dbq)"
    "\<not> delta_is_empty (w_delta (dc_work dc))" "tr_action (dc_result dc) = ADispatch"
    "assert_preconditions held_db ''w1'' (dl_pre (w_delta (dc_work dc))) = Inl (TickConflict ClaimMoved)"
    by (cases "tick_decide example_env 7 ''w1'' example_db") (auto split: sum.splits)
  have "case fst (tick (\<lambda>_. held_db) example_env 7 ''w1'' example_db) of Inl _ \<Rightarrow> False | Inr _ \<Rightarrow> True" by code_simp
  then obtain out db' where t: "tick (\<lambda>_. held_db) example_env 7 ''w1'' example_db = (Inr out, db')"
    by (cases "tick (\<lambda>_. held_db) example_env 7 ''w1'' example_db") (auto split: sum.splits)
  have "has_plan example_db ''w1''" by code_simp
  from tick_discards_on_conflict[OF d(1) this w1_slug d(2) t] d(3,4) t show ?thesis
    by (auto simp: quiet_outcome_def result_def)
qed

end
