(* ===== verification/Plan_Queue.thy ===== *)
theory Plan_Queue
  imports Tick_Apply
begin

text \<open>
  The plan queue of a project (\<open>queue.py\<close>, and \<open>_cmd_queue_add_worker\<close> of \<open>cli.py\<close>): what is
  pending, what has left it, and the operations that move an entry from one to the other. The
  table \<open>queue\<close> is kept in rowid order like every table of the model, and its \<open>id\<close> is the rowid:
  a tail insert takes the next AUTOINCREMENT value, a front insert one below the minimum.
\<close>

section \<open>Entries and rows\<close>

definition ENTRY_COLUMNS :: "string list" where
  "ENTRY_COLUMNS = [''slug'', ''added_at'', ''added_by'', ''batch_id'']"

definition OUTCOME_POPPED :: string where "OUTCOME_POPPED = ''popped''"
definition OUTCOME_ABSORBED :: string where "OUTCOME_ABSORBED = ''absorbed''"
definition OUTCOME_ABANDONED :: string where "OUTCOME_ABANDONED = ''abandoned''"
definition OUTCOME_REMOVED :: string where "OUTCOME_REMOVED = ''removed''"

definition opt_col :: "string \<Rightarrow> sqlv \<Rightarrow> obj" where
  "opt_col k v = (if v = SNull then [] else [(k, scalar_of v)])"

definition row_to_entry :: "('a) queue_row_scheme \<Rightarrow> obj" where
  "row_to_entry r =
     dupd ((''slug'', JStr (qr_slug r)) # opt_col ''added_at'' (qr_added_at r)
             @ opt_col ''added_by'' (qr_added_by r) @ opt_col ''batch_id'' (qr_batch_id r))
       (json_obj (qr_extra r))"

text \<open>\<open>_entry_values\<close> under the given id.\<close>

definition entry_row :: "int \<Rightarrow> string \<Rightarrow> obj \<Rightarrow> queue_row" where
  "entry_row i slug entry =
     \<lparr>qr_id = i, qr_slug = slug, qr_added_at = sql_scalar (jget entry ''added_at''),
      qr_added_by = sql_scalar (jget entry ''added_by''), qr_batch_id = sql_scalar (jget entry ''batch_id''),
      qr_extra = json_or_null (dwithout ENTRY_COLUMNS entry)\<rparr>"

section \<open>Reads\<close>

definition pending :: "pdb \<Rightarrow> obj list" where
  "pending db = map row_to_entry (t_queue db)"

definition left_queue :: "pdb \<Rightarrow> obj list" where
  "left_queue db = map (\<lambda>r. dset ''outcome'' (scalar_of (hr_outcome r))
     (dset ''ended_at'' (scalar_of (hr_ended_at r)) (row_to_entry r))) (t_history db)"

section \<open>Steps inside a transaction\<close>

definition add_row :: "queue_row \<Rightarrow> pdb \<Rightarrow> pdb" where
  "add_row r db = db\<lparr>t_queue := insort_key qr_id r (t_queue db), t_qseq := max (t_qseq db) (qr_id r)\<rparr>"

definition front_id :: "pdb \<Rightarrow> int" where
  "front_id db = (case map qr_id (t_queue db) of [] \<Rightarrow> 1 | i # is \<Rightarrow> fold min is i - 1)"

definition insert_in_txn :: "bool \<Rightarrow> obj \<Rightarrow> nat txn" where
  "insert_in_txn front entry = (\<lambda>db.
     case dget entry ''slug'' of
       None \<Rightarrow> (Inl (KeyErr ''slug''), db)
     | Some (JStr slug) \<Rightarrow>
         (case validate_slug slug of
            Inl e \<Rightarrow> (Inl e, db)
          | Inr _ \<Rightarrow>
              (case index_of slug (map qr_slug (t_queue db)) of
                 Some i \<Rightarrow> (Inl (AlreadyQueued slug (i + 1)), db)
               | None \<Rightarrow>
                   if front then (Inr 1, add_row (entry_row (front_id db) slug entry) db)
                   else (Inr (length (t_queue db) + 1), add_row (entry_row (t_qseq db + 1) slug entry) db)))
     | Some _ \<Rightarrow> (Inl (InvalidSlug []), db))"

definition to_history :: "int \<Rightarrow> string \<Rightarrow> obj \<Rightarrow> string \<Rightarrow> pdb \<Rightarrow> pdb" where
  "to_history now slug entry outcome db =
     db\<lparr>t_history := t_history db @
          [queue_row.extend (entry_row (t_hseq db + 1) slug entry)
             (history_row.fields (sql_scalar (iso now)) (SVal (JStr outcome)))],
        t_hseq := t_hseq db + 1\<rparr>"

definition delete_row :: "int \<Rightarrow> pdb \<Rightarrow> pdb" where
  "delete_row i db = db\<lparr>t_queue := filter (\<lambda>r. qr_id r \<noteq> i) (t_queue db)\<rparr>"

text \<open>
  \<open>pop_head_in_txn\<close>; \<open>extra\<close> is merged over the entry on its way to the history and, as the
  callers use it, does not rename the plan.
\<close>

definition pop_head_in_txn :: "int \<Rightarrow> string \<Rightarrow> string \<Rightarrow> obj \<Rightarrow> bool txn" where
  "pop_head_in_txn now slug outcome extra = (\<lambda>db.
     case t_queue db of
       [] \<Rightarrow> (Inr False, db)
     | r # _ \<Rightarrow>
         if qr_slug r \<noteq> slug then (Inr False, db)
         else (Inr True, to_history now slug (dupd (row_to_entry r) extra) outcome (delete_row (qr_id r) db)))"

definition remove_in_txn :: "int \<Rightarrow> string \<Rightarrow> bool txn" where
  "remove_in_txn now slug = (\<lambda>db.
     case find (\<lambda>r. qr_slug r = slug) (t_queue db) of
       None \<Rightarrow> (Inr False, db)
     | Some r \<Rightarrow> (Inr True, to_history now slug (row_to_entry r) OUTCOME_REMOVED (delete_row (qr_id r) db)))"

section \<open>Whole operations\<close>

fun insert_all :: "bool \<Rightarrow> obj list \<Rightarrow> nat list txn" where
  "insert_all front [] = ret []"
| "insert_all front (e # es) =
     andthen (insert_in_txn front e) (\<lambda>i. andthen (insert_all front es) (\<lambda>is. ret (i # is)))"

definition add_many :: "bool \<Rightarrow> obj list \<Rightarrow> nat list txn" where
  "add_many front entries = write_txn
     (if front then andthen (insert_all True (rev entries)) (\<lambda>_. ret [1 ..< length entries + 1])
      else insert_all False entries)"

definition queue_add :: "obj \<Rightarrow> nat txn" where
  "queue_add entry = andthen (add_many False [entry]) (\<lambda>is. ret (hd is))"

definition queue_remove :: "int \<Rightarrow> string \<Rightarrow> bool txn" where
  "queue_remove now slug = write_txn (remove_in_txn now slug)"

definition pop_head_if :: "int \<Rightarrow> string \<Rightarrow> string \<Rightarrow> obj \<Rightarrow> bool txn" where
  "pop_head_if now slug outcome extra = write_txn (pop_head_in_txn now slug outcome extra)"

section \<open>The worker's add\<close>

datatype add_outcome = CapReached | AlreadyPending nat | AlreadyRunning | AlreadyRan | Queued nat

definition from_source :: "string \<Rightarrow> string \<Rightarrow> obj \<Rightarrow> bool" where
  "from_source plan phase e \<longleftrightarrow> dget e ''source_plan'' = Some (JStr plan) \<and> dget e ''source_phase'' = Some (JStr phase)"

definition worker_entry :: "int \<Rightarrow> string \<Rightarrow> string \<Rightarrow> string \<Rightarrow> string \<Rightarrow> jval \<Rightarrow> obj" where
  "worker_entry now slug plan phase fp reason =
     [(''slug'', JStr slug), (''added_at'', iso now), (''added_by'', JStr ''worker''),
      (''position_at_add'', JStr ''tail''), (''source_plan'', JStr plan), (''source_phase'', JStr phase),
      (''source_token_fp'', JStr fp), (''reason'', reason)]"

text \<open>
  The transaction of \<open>_cmd_queue_add_worker\<close>: the count of what this phase has queued so far,
  pending and gone, against the cap; then the three idempotency checks; then the insert.
\<close>

definition worker_add :: "int \<Rightarrow> bool \<Rightarrow> rat \<Rightarrow> string \<Rightarrow> string \<Rightarrow> string \<Rightarrow> string \<Rightarrow> jval \<Rightarrow> add_outcome txn" where
  "worker_add now running cap slug plan phase fp reason = write_txn (\<lambda>db.
     let queued = length (filter (from_source plan phase) (pending db @ left_queue db)) in
     if of_nat queued \<ge> cap then (Inr CapReached, db)
     else case index_of slug (map qr_slug (t_queue db)) of
       Some i \<Rightarrow> (Inr (AlreadyPending (i + 1)), db)
     | None \<Rightarrow>
         if running then (Inr AlreadyRunning, db)
         else if slug \<in> set (map qr_slug (t_history db)) then (Inr AlreadyRan, db)
         else andthen (insert_in_txn False (worker_entry now slug plan phase fp reason)) (\<lambda>i. ret (Queued i)) db)"

end
