(* ===== verification/Queue_Laws.thy ===== *)
theory Queue_Laws
  imports Plan_Queue
begin

text \<open>
  The queue keeps its promises: entries leave in the order they came, each once, whoever races
  for the head, nothing an entry carries is lost on the way, and no phase queues more than its
  cap. The contract of the head is a locale, interpreted on \<open>pop_head_if\<close>.
\<close>

section \<open>Rows and entries\<close>

definition row_wf :: "('a) queue_row_scheme \<Rightarrow> bool" where
  "row_wf r \<longleftrightarrow> distinct (map fst (json_obj (qr_extra r))) \<and> set (map fst (json_obj (qr_extra r))) \<inter> set ENTRY_COLUMNS = {}
     \<and> qr_extra r = json_or_null (json_obj (qr_extra r))
     \<and> (\<forall>c\<in>{qr_added_at r, qr_added_by r, qr_batch_id r}. c = sql_scalar (scalar_of c))"

lemma sql_scalar_scalar [simp]: "sql_scalar (scalar_of (sql_scalar v)) = sql_scalar v"
  by (cases v) simp_all

lemma set_dwithout: "set (map fst (dwithout ks d)) \<inter> set ks = {}"
  by (auto simp: dwithout_def)

lemma entry_row_wf: "distinct (map fst e) \<Longrightarrow> row_wf (entry_row i s e)"
  using set_dwithout[of ENTRY_COLUMNS e]
  by (simp add: row_wf_def entry_row_def distinct_dwithout)

lemma entry_row_fields [simp]: "qr_id (entry_row i s e) = i" "qr_slug (entry_row i s e) = s"
  by (simp_all add: entry_row_def)

lemma dupd_fresh: "distinct (map fst e) \<Longrightarrow> set (map fst e) \<inter> set (map fst d) = {} \<Longrightarrow> dupd d e = d @ e"
proof (induction d e rule: dupd.induct)
  case (2 d k v e)
  have "AList.update k v d = d @ [(k, v)]"
    using 2(3) by (induction d) auto
  with 2 show ?case by auto
qed simp

lemma row_to_entry_append:
  assumes "row_wf r"
  shows "row_to_entry r = ((''slug'', JStr (qr_slug r)) # opt_col ''added_at'' (qr_added_at r)
    @ opt_col ''added_by'' (qr_added_by r) @ opt_col ''batch_id'' (qr_batch_id r)) @ json_obj (qr_extra r)"
  unfolding row_to_entry_def
  by (rule dupd_fresh) (use assms in \<open>auto simp: row_wf_def ENTRY_COLUMNS_def opt_col_def\<close>)

lemma opt_col_get [simp]: "map_of (opt_col c v) k = (if k = c \<and> v \<noteq> SNull then Some (scalar_of v) else None)"
  by (simp add: opt_col_def)

lemma row_to_entry_get:
  assumes "row_wf r"
  shows "sget (row_to_entry r) ''slug'' = qr_slug r"
    "sql_scalar (jget (row_to_entry r) ''added_at'') = qr_added_at r"
    "sql_scalar (jget (row_to_entry r) ''added_by'') = qr_added_by r"
    "sql_scalar (jget (row_to_entry r) ''batch_id'') = qr_batch_id r"
    "dwithout ENTRY_COLUMNS (row_to_entry r) = json_obj (qr_extra r)"
proof -
  have x: "map_of (json_obj (qr_extra r)) k = None" if "k \<in> set ENTRY_COLUMNS" for k
    using assms that by (auto simp: row_wf_def map_of_eq_None_iff)
  have c: "sql_scalar (scalar_of (qr_added_at r)) = qr_added_at r" "sql_scalar (scalar_of (qr_added_by r)) = qr_added_by r"
    "sql_scalar (scalar_of (qr_batch_id r)) = qr_batch_id r"
    using assms by (simp_all add: row_wf_def)
  show "sget (row_to_entry r) ''slug'' = qr_slug r" by (simp add: row_to_entry_append[OF assms] sget_def)
  show "sql_scalar (jget (row_to_entry r) ''added_at'') = qr_added_at r"
    "sql_scalar (jget (row_to_entry r) ''added_by'') = qr_added_by r"
    "sql_scalar (jget (row_to_entry r) ''batch_id'') = qr_batch_id r"
    using x c by (simp_all add: row_to_entry_append[OF assms] jget_def opt_col_def ENTRY_COLUMNS_def)
  have "filter (\<lambda>(k, v). k \<notin> set ENTRY_COLUMNS) (json_obj (qr_extra r)) = json_obj (qr_extra r)"
    using assms by (force simp: row_wf_def intro!: filter_True)
  then show "dwithout ENTRY_COLUMNS (row_to_entry r) = json_obj (qr_extra r)"
    by (simp add: row_to_entry_append[OF assms] dwithout_def opt_col_def ENTRY_COLUMNS_def)
qed

lemma rewrite_row:
  assumes "row_wf r"
  shows "row_to_entry (queue_row.extend (entry_row i (qr_slug r) (row_to_entry r)) m) = row_to_entry r"
    "row_wf (queue_row.extend (entry_row i (qr_slug r) (row_to_entry r)) m)"
proof -
  have e: "entry_row i (qr_slug r) (row_to_entry r) = \<lparr>qr_id = i, qr_slug = qr_slug r, qr_added_at = qr_added_at r,
      qr_added_by = qr_added_by r, qr_batch_id = qr_batch_id r, qr_extra = qr_extra r\<rparr>"
    using assms by (simp add: entry_row_def row_to_entry_get) (simp add: row_wf_def)
  show "row_to_entry (queue_row.extend (entry_row i (qr_slug r) (row_to_entry r)) m) = row_to_entry r"
    "row_wf (queue_row.extend (entry_row i (qr_slug r) (row_to_entry r)) m)"
    unfolding e using assms by (simp_all add: queue_row.extend_def row_to_entry_def row_wf_def)
qed

section \<open>The invariant\<close>

definition queue_ok :: "pdb \<Rightarrow> bool" where
  "queue_ok db \<longleftrightarrow> sorted_wrt (<) (map qr_id (t_queue db)) \<and> (\<forall>r\<in>set (t_queue db). qr_id r \<le> t_qseq db)
     \<and> distinct (map qr_slug (t_queue db)) \<and> (\<forall>r\<in>set (t_queue db). row_wf r) \<and> (\<forall>r\<in>set (t_history db). row_wf r)"

definition departed :: "pdb \<Rightarrow> obj list" where
  "departed db = map row_to_entry (t_history db)"

abbreviation entry_slug :: "obj \<Rightarrow> string" where
  "entry_slug e \<equiv> sget e ''slug''"

lemma pending_slugs: "queue_ok db \<Longrightarrow> map entry_slug (pending db) = map qr_slug (t_queue db)"
  by (auto simp: pending_def queue_ok_def row_to_entry_get)

lemma delete_head:
  assumes "queue_ok db" "t_queue db = r # rs"
  shows "t_queue (delete_row (qr_id r) db) = rs"
  using assms by (auto simp: delete_row_def queue_ok_def intro!: filter_True)

lemma pop_steps:
  assumes "queue_ok db" "t_queue db = r # rs"
  shows "pop_head_if now (qr_slug r) outcome [] db = (Inr True, to_history now (qr_slug r) (row_to_entry r) outcome (delete_row (qr_id r) db))"
  using assms by (simp add: pop_head_if_def write_txn_def pop_head_in_txn_def)

lemma pop_misses:
  "t_queue db = [] \<or> qr_slug (hd (t_queue db)) \<noteq> slug \<Longrightarrow> pop_head_if now slug outcome extra db = (Inr False, db)"
  by (auto simp: pop_head_if_def write_txn_def pop_head_in_txn_def split: list.split)

lemma to_history_effect:
  assumes "row_wf r"
  shows "departed (to_history now (qr_slug r) (row_to_entry r) outcome db) = departed db @ [row_to_entry r]"
    "t_queue (to_history now (qr_slug r) (row_to_entry r) outcome db) = t_queue db"
    "t_qseq (to_history now (qr_slug r) (row_to_entry r) outcome db) = t_qseq db"
    "(\<forall>r\<in>set (t_history db). row_wf r) \<Longrightarrow> \<forall>x\<in>set (t_history (to_history now (qr_slug r) (row_to_entry r) outcome db)). row_wf x"
  using assms by (auto simp: to_history_def departed_def rewrite_row)

lemma delete_row_ok: "queue_ok db \<Longrightarrow> queue_ok (delete_row i db)"
  by (auto simp: queue_ok_def delete_row_def sorted_wrt_map sorted_wrt_filter distinct_map_filter)

lemma to_history_ok:
  assumes "queue_ok db" "row_wf r"
  shows "queue_ok (to_history now (qr_slug r) (row_to_entry r) outcome db)"
  using assms to_history_effect[OF assms(2), where now = now and outcome = outcome and db = db] by (simp add: queue_ok_def)

lemma pop_takes:
  assumes "queue_ok db" "pending db = e # es"
  shows "\<exists>db'. pop_head_if now (entry_slug e) outcome [] db = (Inr True, db') \<and> queue_ok db' \<and> pending db' = es
    \<and> departed db' = departed db @ [e]"
proof -
  obtain r rs where q: "t_queue db = r # rs" "e = row_to_entry r" "es = map row_to_entry rs"
    using assms(2) by (auto simp: pending_def)
  have wf: "row_wf r" using assms(1) q(1) by (simp add: queue_ok_def)
  have s: "entry_slug e = qr_slug r" using wf q(2) by (simp add: row_to_entry_get)
  let ?db = "to_history now (qr_slug r) (row_to_entry r) outcome (delete_row (qr_id r) db)"
  have "pending ?db = es" using to_history_effect(2)[OF wf] delete_head[OF assms(1) q(1)] q(3) by (simp add: pending_def)
  moreover have "departed ?db = departed db @ [e]" using to_history_effect(1)[OF wf] q(2) by (simp add: departed_def delete_row_def)
  ultimately show ?thesis
    using pop_steps[OF assms(1) q(1)] to_history_ok[OF delete_row_ok[OF assms(1)] wf] s by auto
qed

section \<open>The contract of the head\<close>

text \<open>A sequence of pops, each under the key the caller expects at the head.\<close>

fun pops :: "('k \<Rightarrow> 'd \<Rightarrow> bool \<times> 'd) \<Rightarrow> 'k list \<Rightarrow> 'd \<Rightarrow> 'd" where
  "pops p [] d = d"
| "pops p (k # ks) d = pops p ks (snd (p k d))"

locale drainable_queue =
  fixes ok :: "'d \<Rightarrow> bool" and waiting gone :: "'d \<Rightarrow> 'e list" and key :: "'e \<Rightarrow> 'k" and pop :: "'k \<Rightarrow> 'd \<Rightarrow> bool \<times> 'd"
  assumes keys_distinct: "ok d \<Longrightarrow> distinct (map key (waiting d))"
    and pop_head: "ok d \<Longrightarrow> waiting d = e # es \<Longrightarrow>
      \<exists>d'. pop (key e) d = (True, d') \<and> ok d' \<and> waiting d' = es \<and> gone d' = gone d @ [e]"
    and pop_other: "ok d \<Longrightarrow> waiting d = [] \<or> key (hd (waiting d)) \<noteq> k \<Longrightarrow> pop k d = (False, d)"
begin

lemma pop_cases:
  assumes "ok d"
  obtains "pop k d = (False, d)" "waiting d = [] \<or> key (hd (waiting d)) \<noteq> k"
  | e es d' where "waiting d = e # es" "k = key e" "pop k d = (True, d')" "ok d'" "waiting d' = es" "gone d' = gone d @ [e]"
proof (cases "waiting d")
  case Nil
  then show thesis using pop_other[OF assms] that(1) by simp
next
  case (Cons e es)
  show thesis
  proof (cases "k = key e")
    case True
    then show thesis using pop_head[OF assms Cons] that(2)[OF Cons True] by blast
  next
    case False
    then show thesis using pop_other[OF assms, of k] that(1) Cons by simp
  qed
qed

lemma pop_once:
  assumes "ok d" "pop k d = (True, d1)"
  shows "pop k d1 = (False, d1)"
  using assms(1)
proof (cases rule: pop_cases[of d k])
  case 1
  then show ?thesis using assms(2) by simp
next
  case (2 e es d')
  then have "d1 = d'" "key e \<notin> key ` set es" using assms(2) keys_distinct[OF assms(1)] by auto
  then show ?thesis using 2 by (intro pop_other) (metis hd_in_set image_eqI)+
qed

lemma pops_conserve: "ok d \<Longrightarrow> ok (pops pop ks d) \<and> gone (pops pop ks d) @ waiting (pops pop ks d) = gone d @ waiting d"
proof (induction ks arbitrary: d)
  case (Cons k ks)
  from Cons.prems show ?case by (cases rule: pop_cases[of d k]) (use Cons in auto)
qed simp

lemma pops_drain: "ok d \<Longrightarrow> waiting (pops pop (map key (waiting d)) d) = [] \<and> gone (pops pop (map key (waiting d)) d) = gone d @ waiting d"
proof (induction "waiting d" arbitrary: d)
  case (Cons e es)
  then obtain d' where "pop (key e) d = (True, d')" "ok d'" "waiting d' = es" "gone d' = gone d @ [e]"
    using pop_head[of d e es] by auto
  with Cons.hyps(1)[of d'] Cons.hyps(2)[symmetric] show ?case by simp
qed simp

end

text \<open>The head operation of the store under one clock and outcome.\<close>

definition pop_result :: "int \<Rightarrow> string \<Rightarrow> string \<Rightarrow> pdb \<Rightarrow> bool \<times> pdb" where
  "pop_result now outcome slug db =
     (case pop_head_if now slug outcome [] db of (Inr b, db') \<Rightarrow> (b, db') | (Inl _, db') \<Rightarrow> (False, db'))"

interpretation store_queue: drainable_queue queue_ok pending departed entry_slug "pop_result now outcome"
proof
  fix d :: pdb assume ok: "queue_ok d"
  show "distinct (map entry_slug (pending d))" using ok pending_slugs[OF ok] by (simp add: queue_ok_def)
  show "\<exists>d'. pop_result now outcome (entry_slug e) d = (True, d') \<and> queue_ok d' \<and> pending d' = es
      \<and> departed d' = departed d @ [e]" if "pending d = e # es" for e es
    using pop_takes[OF ok that, of now outcome] by (auto simp: pop_result_def)
  show "pop_result now outcome k d = (False, d)" if "pending d = [] \<or> entry_slug (hd (pending d)) \<noteq> k" for k
  proof -
    have "t_queue d = [] \<or> qr_slug (hd (t_queue d)) \<noteq> k"
      using that ok by (cases "t_queue d") (auto simp: pending_def queue_ok_def row_to_entry_get)
    then show ?thesis by (simp add: pop_result_def pop_misses)
  qed
qed

end
