(* ===== verification/Queue_Props.thy ===== *)
theory Queue_Props
  imports Queue_Laws
begin

text \<open>The properties of the queue: order, single exit, round trip of an entry, and the worker's cap.\<close>

section \<open>Inserts\<close>

definition stored :: "obj \<Rightarrow> obj" where
  "stored e = row_to_entry (entry_row 0 (entry_slug e) e)"

lemma stored_row: "row_to_entry (entry_row i s e) = row_to_entry (entry_row j s e)"
  by (simp add: row_to_entry_def entry_row_def)

lemma insort_tail: "(\<forall>y\<in>set xs. f y < f x) \<Longrightarrow> insort_key f (x :: 'a) xs = xs @ [x]" for f :: "'a \<Rightarrow> int"
  by (induction xs) auto

lemma fold_min_le: "x \<in> set (i # is) \<Longrightarrow> fold min is i \<le> (x::int)"
proof (induction "is" arbitrary: i x)
  case (Cons j js)
  from Cons.prems consider "x = i" | "x = j" | "x \<in> set js" by auto
  then show ?case
  proof cases
    case 3
    then show ?thesis using Cons.IH[of x "min j i"] by simp
  qed (use Cons.IH[of "min j i" "min j i"] in simp_all)
qed simp

lemma front_id_less:
  assumes "r \<in> set (t_queue db)"
  shows "front_id db < qr_id r"
proof -
  from assms obtain i "is" where m: "map qr_id (t_queue db) = i # is" by (cases "map qr_id (t_queue db)") auto
  then have "qr_id r \<in> set (i # is)" using assms by (metis image_eqI list.set_map)
  from fold_min_le[OF this] m show ?thesis by (simp add: front_id_def)
qed

lemma insert_effect:
  assumes "queue_ok db" "distinct (map fst e)" "insert_in_txn front e db = (Inr i, db')"
  shows "queue_ok db' \<and> departed db' = departed db
    \<and> pending db' = (if front then stored e # pending db else pending db @ [stored e])
    \<and> i = (if front then 1 else length (pending db) + 1)"
proof -
  from assms(3) obtain slug where s: "dget e ''slug'' = Some (JStr slug)" "slug \<notin> qr_slug ` set (t_queue db)"
    and r: "(i, db') = (if front then (1, add_row (entry_row (front_id db) slug e) db)
      else (length (t_queue db) + 1, add_row (entry_row (t_qseq db + 1) slug e) db))"
    by (auto simp: insert_in_txn_def index_of_None split: option.splits jval.splits sum.splits if_splits)
  have es: "entry_slug e = slug" using s by (simp add: sget_def)
  have st: "row_to_entry (entry_row j slug e) = stored e" for j
    unfolding stored_def es by (rule stored_row)
  have wf: "row_wf (entry_row j slug e)" for j using assms(2) by (rule entry_row_wf)
  have srt: "sorted_wrt (<) (map qr_id (t_queue db))" and le: "\<forall>r\<in>set (t_queue db). qr_id r \<le> t_qseq db"
    and d: "distinct (map qr_slug (t_queue db))"
    using assms(1) by (simp_all add: queue_ok_def)
  have f: "insort_key qr_id (entry_row (front_id db) slug e) (t_queue db) = entry_row (front_id db) slug e # t_queue db"
    using front_id_less by (intro insort_is_Cons) (auto intro: less_imp_le)
  have t: "insort_key qr_id (entry_row (t_qseq db + 1) slug e) (t_queue db) = t_queue db @ [entry_row (t_qseq db + 1) slug e]"
    using le by (intro insort_tail) force
  have "queue_ok db'"
  proof (cases front)
    case True
    have "sorted_wrt (<) (map qr_id (entry_row (front_id db) slug e # t_queue db))"
      using srt front_id_less by simp
    then show ?thesis using assms(1) r s(2) wf le d f True by (auto simp: queue_ok_def add_row_def)
  next
    case False
    have "sorted_wrt (<) (map qr_id (t_queue db @ [entry_row (t_qseq db + 1) slug e]))"
      using srt le by (force simp: sorted_wrt_append)
    then show ?thesis using assms(1) r s(2) wf le d t False by (force simp: queue_ok_def add_row_def)
  qed
  then show ?thesis
    using r f t st by (auto simp: pending_def departed_def add_row_def split: if_splits)
qed

lemma insert_all_effect:
  assumes "queue_ok db" "\<forall>e\<in>set es. distinct (map fst e)" "insert_all front es db = (Inr is, db')"
  shows "queue_ok db' \<and> departed db' = departed db
    \<and> pending db' = (if front then rev (map stored es) @ pending db else pending db @ map stored es)
    \<and> (\<not> front \<longrightarrow> is = [length (pending db) + 1 ..< length (pending db) + 1 + length es])"
  using assms
proof (induction es arbitrary: db "is")
  case (Cons e es)
  then obtain i js db1 where s: "insert_in_txn front e db = (Inr i, db1)" "insert_all front es db1 = (Inr js, db')" "is = i # js"
    by (auto simp: andthen_Inr ret_def)
  with Cons.prems insert_effect[of db e front i db1] Cons.IH[of db1 js] show ?case
    by (auto simp: upt_conv_Cons simp del: upt_Suc)
qed (simp add: ret_def)

text \<open>
  Order of a batch. A batch that was added is there as a block in the caller's order, at the head
  when it was front-loaded and at the tail otherwise, the entries already queued keep their order,
  and the positions returned are the true ones.
\<close>

theorem add_many_order:
  assumes "queue_ok db" and "\<forall>e\<in>set es. distinct (map fst e)" and "add_many front es db = (Inr is, db')"
  shows "queue_ok db' \<and> departed db' = departed db
    \<and> pending db' = (if front then map stored es @ pending db else pending db @ map stored es)
    \<and> length is = length es \<and> (\<forall>k<length es. 0 < is ! k \<and> pending db' ! (is ! k - 1) = stored (es ! k))"
proof (cases front)
  case True
  from assms(3) obtain js where j: "insert_all True (rev es) db = (Inr js, db')" and i: "is = [1 ..< length es + 1]"
    by (auto simp: True add_many_def write_txn_def andthen_Inr ret_def split: prod.splits sum.splits)
  from insert_all_effect[OF assms(1) _ j] assms(2) have
    "queue_ok db'" "departed db' = departed db" "pending db' = map stored es @ pending db"
    by (auto simp: rev_map[symmetric])
  with True i show ?thesis by (simp add: nth_append del: upt_Suc)
next
  case False
  from assms(3) have j: "insert_all False es db = (Inr is, db')"
    by (auto simp: False add_many_def write_txn_def split: prod.splits sum.splits)
  from insert_all_effect[OF assms(1,2) j] False show ?thesis by (auto simp: nth_append simp del: upt_Suc)
qed

text \<open>
  Round trip of an entry. What a caller queued is what a reader of the queue sees under every
  key: a column that was null is absent instead, which reads the same.
\<close>

theorem queue_entry_roundtrip:
  assumes "distinct (map fst e)" and "dget e ''slug'' = Some (JStr s)"
    and "\<forall>c\<in>{''added_at'', ''added_by'', ''batch_id''}. \<forall>b. dget e c \<noteq> Some (JBool b)"
  shows "jget (stored e) k = jget e k"
proof -
  have wf: "row_wf (entry_row 0 s e)" using assms(1) by (rule entry_row_wf)
  have es: "entry_slug e = s" using assms(2) by (simp add: sget_def)
  have sc: "scalar_of (sql_scalar v) = v" if "\<forall>b. v \<noteq> JBool b" for v using that by (cases v) auto
  have col: "scalar_of (sql_scalar (jget e c)) = jget e c" if "c \<in> {''added_at'', ''added_by'', ''batch_id''}" for c
    using assms(3) that by (intro sc) (auto simp: jget_def split: option.splits)
  have nul: "sql_scalar v = SNull \<longleftrightarrow> v = JNull" for v by (cases v) auto
  have x: "map_of (dwithout ENTRY_COLUMNS e) k = (if k \<in> set ENTRY_COLUMNS then None else dget e k)"
    by (simp add: map_of_dwithout)
  have lk: "map_of (stored e) k = map_of (((''slug'', JStr s) # opt_col ''added_at'' (sql_scalar (jget e ''added_at''))
      @ opt_col ''added_by'' (sql_scalar (jget e ''added_by'')) @ opt_col ''batch_id'' (sql_scalar (jget e ''batch_id'')))
      @ dwithout ENTRY_COLUMNS e) k"
    unfolding stored_def es row_to_entry_append[OF wf] by (simp add: entry_row_def)
  consider "k = ''slug''" | "k \<in> {''added_at'', ''added_by'', ''batch_id''}" | "k \<notin> set ENTRY_COLUMNS"
    by (auto simp: ENTRY_COLUMNS_def)
  then show ?thesis
  proof cases
    case 1
    then show ?thesis using lk assms(2) by (simp add: jget_def)
  next
    case 2
    then have "map_of (stored e) k = (if jget e k = JNull then None else Some (jget e k))"
      using lk col by (elim insertE emptyE) (simp_all add: nul map_of_dwithout map_add_def ENTRY_COLUMNS_def)
    then show ?thesis by (simp add: jget_def[of "stored e"])
  next
    case 3
    then have "map_of (stored e) k = dget e k" using lk by (simp add: map_of_dwithout map_add_def ENTRY_COLUMNS_def)
    then show ?thesis by (simp add: jget_def)
  qed
qed

section \<open>Leaving\<close>


section \<open>The cap\<close>

definition spent :: "string \<Rightarrow> string \<Rightarrow> pdb \<Rightarrow> nat" where
  "spent plan phase db = length (filter (from_source plan phase) (pending db @ departed db))"

lemma from_source_left:
  "length (filter (from_source p f) (left_queue db)) = length (filter (from_source p f) (departed db))"
proof -
  have "from_source p f (dset ''outcome'' a (dset ''ended_at'' b e)) = from_source p f e" for a b e
    by (simp add: from_source_def)
  then show ?thesis by (simp add: left_queue_def departed_def filter_map comp_def)
qed

lemma from_source_stored: "distinct (map fst e) \<Longrightarrow> from_source p f (stored e) = from_source p f e"
  using row_to_entry_append[OF entry_row_wf[of e 0 "entry_slug e"]]
  by (auto simp: from_source_def stored_def entry_row_def map_of_dwithout ENTRY_COLUMNS_def opt_col_def)

text \<open>What happens to a queue: operators add, ticks pop, operators remove, workers add.\<close>

datatype queue_op =
    QAdd bool "obj list"
  | QPop string string
  | QRemove string
  | QWorker bool nat string string string string jval

fun run_queue_op :: "int \<Rightarrow> queue_op \<Rightarrow> pdb \<Rightarrow> pdb" where
  "run_queue_op now (QAdd front es) db = snd (add_many front es db)"
| "run_queue_op now (QPop slug outcome) db = snd (pop_head_if now slug outcome [] db)"
| "run_queue_op now (QRemove slug) db = snd (queue_remove now slug db)"
| "run_queue_op now (QWorker running cap slug plan phase fp reason) db =
     snd (worker_add now running (of_nat cap) slug plan phase fp reason db)"

text \<open>The operations as they are called: an operator's entries name no source; every worker meets the cap \<open>n\<close>.\<close>

fun queue_op_ok :: "nat \<Rightarrow> queue_op \<Rightarrow> bool" where
  "queue_op_ok n (QAdd front es) \<longleftrightarrow> (\<forall>e\<in>set es. distinct (map fst e) \<and> jget e ''source_plan'' = JNull)"
| "queue_op_ok n (QWorker running cap slug plan phase fp reason) \<longleftrightarrow> cap = n"
| "queue_op_ok n _ \<longleftrightarrow> True"

lemma add_spent:
  assumes "queue_ok db" "\<forall>e\<in>set es. distinct (map fst e) \<and> jget e ''source_plan'' = JNull"
  shows "queue_ok (snd (add_many front es db)) \<and> spent p f (snd (add_many front es db)) = spent p f db"
proof (cases "fst (add_many front es db)")
  case (Inl x)
  then have "snd (add_many front es db) = db" by (auto simp: add_many_def write_txn_def split: prod.splits sum.splits)
  then show ?thesis using assms(1) by simp
next
  case (Inr i)
  then have a: "add_many front es db = (Inr i, snd (add_many front es db))" by (metis prod.collapse)
  have "filter (from_source p f) (map stored es) = []"
    using assms(2) by (auto simp: filter_empty_conv from_source_stored) (auto simp: from_source_def jget_def)
  with add_many_order[OF assms(1) _ a] assms(2) show ?thesis by (auto simp: spent_def)
qed

lemma pop_spent:
  assumes "queue_ok db"
  shows "queue_ok (snd (pop_head_if now slug outcome [] db)) \<and> spent p f (snd (pop_head_if now slug outcome [] db)) = spent p f db"
proof -
  have "snd (pop_head_if now slug outcome [] db) = pops (pop_result now outcome) [slug] db"
    by (auto simp: pop_result_def split: prod.split sum.split)
  with store_queue.pops_conserve[OF assms, of now outcome "[slug]"] show ?thesis
    by (simp add: spent_def del: filter_append pops.simps) (metis filter_append length_append add.commute)
qed

lemma filter_one_out:
  "distinct (map g l) \<Longrightarrow> r \<in> set l \<Longrightarrow>
     length (filter P (filter (\<lambda>x. g x \<noteq> g r) l)) + (if P r then 1 else 0) = length (filter P l)"
proof (induction l)
  case (Cons x l)
  show ?case
  proof (cases "x = r")
    case True
    then have "filter (\<lambda>x. g x \<noteq> g r) l = l" using Cons.prems(1) by (intro filter_True ballI) (metis distinct.simps(2) image_eqI list.set_map list.simps(9))
    then show ?thesis using True by simp
  next
    case False
    then have "r \<in> set l" "g x \<noteq> g r" using Cons.prems by auto
    then show ?thesis using Cons by simp
  qed
qed simp

lemma remove_spent:
  assumes "queue_ok db"
  shows "queue_ok (snd (queue_remove now slug db)) \<and> spent p f (snd (queue_remove now slug db)) = spent p f db"
proof (cases "find (\<lambda>r. qr_slug r = slug) (t_queue db)")
  case None
  then show ?thesis using assms by (simp add: queue_remove_def write_txn_def remove_in_txn_def)
next
  case (Some r)
  then have r: "r \<in> set (t_queue db)" "qr_slug r = slug" by (auto simp: find_Some_iff)
  then have wf: "row_wf r" using assms by (simp add: queue_ok_def)
  let ?db = "to_history now (qr_slug r) (row_to_entry r) OUTCOME_REMOVED (delete_row (qr_id r) db)"
  have e: "snd (queue_remove now slug db) = ?db"
    using Some r(2) by (simp add: queue_remove_def write_txn_def remove_in_txn_def)
  have "distinct (map qr_id (t_queue db))" using assms by (simp add: queue_ok_def strict_sorted_iff)
  from filter_one_out[OF this r(1), of "from_source p f \<circ> row_to_entry"]
  have "spent p f ?db = spent p f db"
    using to_history_effect(1,2)[OF wf]
    by (cases "from_source p f (row_to_entry r)") (simp_all add: spent_def pending_def delete_row_def departed_def filter_map comp_def)
  with e to_history_ok[OF delete_row_ok[OF assms] wf] show ?thesis by simp
qed

lemma worker_add_spent:
  assumes "queue_ok db"
  shows "queue_ok (snd (worker_add now running (of_nat n) slug plan phase fp reason db))
    \<and> (spent p f (snd (worker_add now running (of_nat n) slug plan phase fp reason db)) = spent p f db
       \<or> p = plan \<and> f = phase \<and> spent p f db < n
         \<and> spent p f (snd (worker_add now running (of_nat n) slug plan phase fp reason db)) = spent p f db + 1)"
proof -
  let ?e = "worker_entry now slug plan phase fp reason"
  let ?r = "worker_add now running (of_nat n) slug plan phase fp reason db"
  have d: "distinct (map fst ?e)" by (simp add: worker_entry_def)
  let ?ins = "andthen (insert_in_txn False ?e) (\<lambda>i. ret (Queued i))"
  have eq: "?r = (if n \<le> spent plan phase db then (Inr CapReached, db)
      else case index_of slug (map qr_slug (t_queue db)) of
        Some i \<Rightarrow> (Inr (AlreadyPending (i + 1)), db)
      | None \<Rightarrow> if running then (Inr AlreadyRunning, db)
          else if slug \<in> set (map qr_slug (t_history db)) then (Inr AlreadyRan, db) else write_txn ?ins db)"
    by (simp add: worker_add_def write_txn_def Let_def spent_def from_source_left split: option.split)
  have w: "snd (write_txn ?ins db) = db \<or> (\<exists>i. insert_in_txn False ?e db = (Inr i, snd (write_txn ?ins db)))"
    by (cases "insert_in_txn False ?e db") (auto simp: write_txn_def andthen_def ret_def split: sum.split)
  have "snd ?r = db \<or> spent plan phase db < n \<and> (\<exists>i. insert_in_txn False ?e db = (Inr i, snd ?r))"
    unfolding eq using w by (simp split: option.split)
  then consider "snd ?r = db" | i where "spent plan phase db < n" "insert_in_txn False ?e db = (Inr i, snd ?r)"
    by blast
  then show ?thesis
  proof cases
    case 1
    then show ?thesis using assms by simp
  next
    case 2
    from insert_effect[OF assms d 2(2)] have
      q: "queue_ok (snd ?r)" "departed (snd ?r) = departed db" "pending (snd ?r) = pending db @ [stored ?e]" by auto
    have "from_source p f (stored ?e) \<longleftrightarrow> p = plan \<and> f = phase"
      using from_source_stored[OF d] by (auto simp: from_source_def worker_entry_def)
    with q 2(1) show ?thesis by (auto simp: spent_def)
  qed
qed

text \<open>
  The cap holds for good. Under every sequence of adds, pops, removes and worker calls, the
  entries a phase has ever queued, pending and gone alike, stay within the cap its calls are
  checked against, and the invariant of the queue tables is kept.
\<close>

theorem queue_cap_kept:
  assumes "queue_ok db" and "\<forall>op\<in>set ops. queue_op_ok n op" and "spent plan phase db \<le> n"
  shows "queue_ok (fold (run_queue_op now) ops db) \<and> spent plan phase (fold (run_queue_op now) ops db) \<le> n"
  using assms
proof (induction ops arbitrary: db)
  case (Cons op ops)
  have "queue_ok (run_queue_op now op db) \<and> spent plan phase (run_queue_op now op db) \<le> n"
  proof (cases op)
    case (QAdd front es)
    then show ?thesis using Cons.prems add_spent[of db es front] by simp
  next
    case (QPop slug outcome)
    then show ?thesis using Cons.prems pop_spent by simp
  next
    case (QRemove slug)
    then show ?thesis using Cons.prems remove_spent by simp
  next
    case (QWorker running cap slug pl ph fp reason)
    then show ?thesis using Cons.prems worker_add_spent[of db now running n slug pl ph fp reason plan phase] by auto
  qed
  then show ?case using Cons by simp
qed simp

section \<open>Examples\<close>

definition plain_entry :: "string \<Rightarrow> obj" where
  "plain_entry s = [(''slug'', JStr s), (''added_at'', iso 0), (''added_by'', JStr ''operator''), (''reason'', JNull)]"

definition two_queued :: pdb where
  "two_queued = snd (add_many False [plain_entry ''w1'', plain_entry ''w2''] empty_db)"

lemma empty_queue_ok: "queue_ok empty_db"
  by (simp add: queue_ok_def empty_db_def)

lemma two_queued_ok: "queue_ok two_queued" "map entry_slug (pending two_queued) = [''w1'', ''w2'']" "departed two_queued = []"
  by code_simp+

theorem add_many_order_witness:
  "\<exists>db'. add_many True [plain_entry ''w3'', plain_entry ''w4''] two_queued = (Inr [1, 2], db')
     \<and> pending db' = map stored [plain_entry ''w3'', plain_entry ''w4''] @ pending two_queued"
proof -
  let ?es = "[plain_entry ''w3'', plain_entry ''w4'']"
  have "fst (add_many True ?es two_queued) = Inr [1, 2]" by code_simp
  then obtain db' where a: "add_many True ?es two_queued = (Inr [1, 2], db')" by (metis prod.collapse)
  have "\<forall>e\<in>set ?es. distinct (map fst e)" by (simp add: plain_entry_def)
  from add_many_order[OF two_queued_ok(1) this a] a show ?thesis by auto
qed

theorem queue_entry_roundtrip_witness:
  "jget (stored (plain_entry ''w1'')) ''added_by'' = JStr ''operator''"
  using queue_entry_roundtrip[of "plain_entry ''w1''" "''w1''" "''added_by''"]
  by (simp add: plain_entry_def jget_def iso_def)


theorem queue_cap_kept_witness:
  "spent ''p'' ''a'' (fold (run_queue_op 5) [QWorker False 1 ''w3'' ''p'' ''a'' ''fp'' JNull, QPop ''w1'' OUTCOME_POPPED,
     QWorker False 1 ''w4'' ''p'' ''a'' ''fp'' JNull] two_queued) \<le> 1"
proof -
  have "spent ''p'' ''a'' two_queued \<le> 1" by code_simp
  from queue_cap_kept[OF two_queued_ok(1) _ this, of "[QWorker False 1 ''w3'' ''p'' ''a'' ''fp'' JNull,
     QPop ''w1'' OUTCOME_POPPED, QWorker False 1 ''w4'' ''p'' ''a'' ''fp'' JNull]" 5]
  show ?thesis by simp
qed

end
