(* ===== verification/Sweep.thy ===== *)
theory Sweep
  imports Supervisor_Release
begin

text \<open>
  \<open>sweep_zombie_states\<close> (\<open>supervisor.py\<close>): the backstop that ends the unregistered plans of a
  project that are stuck at running with no worker. \<open>others s\<close> is what other processes write
  between the read of plan \<open>s\<close> and the apply; the signals of the reap are sent in between too.
\<close>

record sweep_result =
  sr_slug :: string
  sr_reaped :: bool
  sr_terminalized :: bool

record sweep_state =
  ss_db :: pdb
  ss_results :: "sweep_result list"
  ss_signals :: "(int \<times> os_signal) list"
  ss_stops :: "(jval \<times> jval) list"

text \<open>The exceptions a read or an apply of one plan is skipped on; any other ends the sweep.\<close>

definition degradable :: "pyerr \<Rightarrow> bool" where
  "degradable e = (case e of DbBusy \<Rightarrow> True | IntegrityErr \<Rightarrow> True | FileNotFoundErr _ \<Rightarrow> True | FileExistsErr _ \<Rightarrow> True
     | ValueErr _ \<Rightarrow> True | InvalidSlug _ \<Rightarrow> True | _ \<Rightarrow> False)"

definition zombie_pre :: "tick_pre \<Rightarrow> tick_pre" where
  "zombie_pre obs = no_pre\<lparr>pre_claim := pre_claim obs, pre_status := pre_status obs\<rparr>"

definition zombie_delta :: "int \<Rightarrow> doc \<Rightarrow> tick_pre \<Rightarrow> tick_delta" where
  "zombie_delta now d obs = (empty_delta obs)
     \<lparr>dl_release := (d_claim d \<notin> {None, Some []}), dl_status := Some STATUS_HALTED,
      dl_events := [mk_event now EVENT_PLAN_ABANDONED [(''reason'', JStr ''zombie_sweep'')]]\<rparr>"

definition zombie_stops :: "bool \<Rightarrow> doc \<Rightarrow> (jval \<times> jval) list" where
  "zombie_stops coolant d =
     (case d_claim d of
        None \<Rightarrow> []
      | Some c \<Rightarrow> if coolant \<and> dtrue c ''claimed_by'' \<and> dtrue c ''phase_id''
          then [(jget c ''claimed_by'', jget c ''phase_id'')] else [])"

definition reaped :: "(reap_result \<times> (int \<times> os_signal) list) option \<Rightarrow> bool" where
  "reaped r = (case r of None \<Rightarrow> False | Some (res, _) \<Rightarrow> signaled res \<noteq> None)"

definition reap_sent :: "(reap_result \<times> (int \<times> os_signal) list) option \<Rightarrow> (int \<times> os_signal) list" where
  "reap_sent r = (case r of None \<Rightarrow> [] | Some (_, sent) \<Rightarrow> sent)"

text \<open>One turn of the loop.\<close>

definition sweep_one ::
    "(string \<Rightarrow> pdb \<Rightarrow> pdb) \<Rightarrow> os_view \<Rightarrow> bool \<Rightarrow> int \<Rightarrow> string \<Rightarrow> bool \<Rightarrow> string \<Rightarrow> sweep_state \<Rightarrow> sweep_state res" where
  "sweep_one others os coolant now fresh dry_run slug ss =
     (case snapshot_with_preconditions (ss_db ss) slug of
        Inl e \<Rightarrow> if degradable e then Inr ss else Inl e
      | Inr (d, obs) \<Rightarrow>
          if \<not> is_zombie_state os d then Inr ss
          else if dry_run then Inr (ss\<lparr>ss_results := ss_results ss @ [\<lparr>sr_slug = slug, sr_reaped = False, sr_terminalized = False\<rparr>]\<rparr>)
          else
            let reap = reap_claim os d; ss1 = ss\<lparr>ss_signals := ss_signals ss @ reap_sent reap\<rparr> in
            (case apply_tick_delta now fresh slug (zombie_pre obs) (zombie_delta now d obs) (others slug (ss_db ss)) of
               (Inl (TickConflict _), db') \<Rightarrow> Inr (ss1\<lparr>ss_db := db'\<rparr>)
             | (Inl e, db') \<Rightarrow> if degradable e then Inr (ss1\<lparr>ss_db := db'\<rparr>) else Inl e
             | (Inr _, db') \<Rightarrow> Inr (ss1\<lparr>ss_db := db', ss_stops := ss_stops ss @ zombie_stops coolant d,
                 ss_results := ss_results ss @ [\<lparr>sr_slug = slug, sr_reaped = reaped reap, sr_terminalized = True\<rparr>]\<rparr>)))"

fun sweep_all ::
    "(string \<Rightarrow> sweep_state \<Rightarrow> sweep_state res) \<Rightarrow> string list \<Rightarrow> sweep_state \<Rightarrow> sweep_state res" where
  "sweep_all step [] ss = Inr ss"
| "sweep_all step (s # rest) ss = bind_res (step s ss) (sweep_all step rest)"

definition sweep_zombie_states ::
    "(string \<Rightarrow> pdb \<Rightarrow> pdb) \<Rightarrow> os_view \<Rightarrow> bool \<Rightarrow> int \<Rightarrow> string \<Rightarrow> bool \<Rightarrow> string set \<Rightarrow> pdb \<Rightarrow> sweep_state res" where
  "sweep_zombie_states others os coolant now fresh dry_run registered db =
     sweep_all (sweep_one others os coolant now fresh dry_run)
       (filter (\<lambda>s. s \<notin> registered) (plan_slugs db))
       \<lparr>ss_db = db, ss_results = [], ss_signals = [], ss_stops = []\<rparr>"

section \<open>What the sweep may touch\<close>

text \<open>Nobody else writes.\<close>

definition alone :: "string \<Rightarrow> pdb \<Rightarrow> pdb" where
  "alone s db = db"

lemma same_plan_snapshot: "same_plan s db db' \<Longrightarrow> snapshot db' s = snapshot db s"
  by (auto simp: snapshot_def snapshot_in_txn_def same_plan_def read_claim_def read_blockers_def
      read_tasks_def read_events_def split: option.splits)

lemma zombie_delta_ok: "delta_ok (zombie_delta now d obs)"
  by (simp add: zombie_delta_def delta_ok_def empty_delta_def)

definition zombie :: "os_view \<Rightarrow> pdb \<Rightarrow> string \<Rightarrow> bool" where
  "zombie os db s \<longleftrightarrow> (\<exists>d. snapshot db s = Inr d \<and> is_zombie_state os d)"

definition ended :: "pdb \<Rightarrow> string \<Rightarrow> bool" where
  "ended db s \<longleftrightarrow> holder db s \<in> {None, Some (JNull, JNull)}
     \<and> (\<exists>r. map_of (t_plans db) s = Some r \<and> r ''status'' = SVal (JStr STATUS_HALTED))"

lemma ended_same_plan: "same_plan s db db' \<Longrightarrow> ended db' s = ended db s"
  by (simp add: ended_def same_plan_def holder_def claim_row_of_def)

lemma zombie_same_plan: "same_plan s db db' \<Longrightarrow> zombie os db' s = zombie os db s"
  by (simp add: zombie_def same_plan_snapshot)

text \<open>Who a reap may signal: a group with a member that carries the plan's marker, never the caller's.\<close>

definition signals_only :: "os_view \<Rightarrow> string set \<Rightarrow> (int \<times> os_signal) list \<Rightarrow> bool" where
  "signals_only os S sent \<longleftrightarrow> (\<forall>(g, x)\<in>set sent. own_pgid os \<noteq> Some g
     \<and> (\<exists>s\<in>S. \<exists>cmd\<in>set (pgroup_member_cmdlines os g). cmdline_marker_present cmd s))"

lemma reap_signals_plan: "signals_only os {d_slug d} (reap_sent (reap_claim os d))"
proof -
  have "reap_sent (reap_claim os d) = [] \<or> (\<exists>g. reap_sent (reap_claim os d) = snd (reap_orphan_pgroup os g (Some (d_slug d))))"
    by (auto simp: reap_sent_def reap_claim_def split: option.splits if_splits) (metis snd_conv)+
  moreover have "signals_only os {d_slug d} (snd (reap_orphan_pgroup os g (Some (d_slug d))))" for g
    unfolding signals_only_def using reap_target[of _ _ os g "Some (d_slug d)"] reap_needs_marker[of _ _ os _ "d_slug d"]
    by blast
  moreover have "signals_only os {d_slug d} []" by (simp add: signals_only_def)
  ultimately show ?thesis by metis
qed

lemma sweep_one_effect:
  assumes "db_ok (ss_db ss)"
  shows "\<exists>ss'. sweep_one alone os coolant now fresh False s ss = Inr ss' \<and> step_ok s (ss_db ss) (ss_db ss')
    \<and> (if zombie os (ss_db ss) s then ended (ss_db ss') s else ss_db ss' = ss_db ss)
    \<and> (\<exists>sent. ss_signals ss' = ss_signals ss @ sent \<and> signals_only os {s} sent
         \<and> (\<not> zombie os (ss_db ss) s \<longrightarrow> sent = []))"
proof (cases "zombie os (ss_db ss) s")
  case False
  have "snapshot_with_preconditions (ss_db ss) s = Inl e \<Longrightarrow> degradable e" for e
    by (auto simp: snapshot_with_preconditions_def bind_res_Inl snapshot_def snapshot_in_txn_def validate_slug_Inl
        degradable_def split: option.splits)
  with False have "sweep_one alone os coolant now fresh False s ss = Inr ss"
    by (auto simp: sweep_one_def zombie_def snapshot_with_preconditions_def bind_res_Inr split: sum.split prod.split)
  then show ?thesis using False assms by (simp add: step_ok_refl signals_only_def)
next
  case True
  then obtain d where d: "snapshot (ss_db ss) s = Inr d" "is_zombie_state os d" by (auto simp: zombie_def)
  then obtain obs where o: "snapshot_with_preconditions (ss_db ss) s = Inr (d, obs)"
    by (auto simp: snapshot_with_preconditions_def)
  have sl: "slug_re_match s" "has_plan (ss_db ss) s" "d_slug d = s"
    using d(1) snapshot_slug[OF d(1)] by (auto simp: snapshot_def bind_res_Inr dest: snapshot_in_txn_reads)
  let ?dl = "zombie_delta now d obs"
  have pw: "pre_within (zombie_pre obs) obs" by (simp add: pre_within_def zombie_pre_def no_pre_def)
  have "dl_claim_updates ?dl = []" "dl_blocker_updates ?dl = []" "dl_claim_phase ?dl = None"
    by (simp_all add: zombie_delta_def empty_delta_def)
  from apply_no_claim[OF observed_preconditions_hold[OF assms o pw] sl(1,2) this] obtain db' where
    ap: "apply_tick_delta now fresh s (zombie_pre obs) ?dl (ss_db ss) = (Inr None, db')" by blast
  have st: "step_ok s (ss_db ss) db'"
    using apply_tick_delta_step[OF assms zombie_delta_ok, of s now fresh "zombie_pre obs" now d obs] ap by simp
  have nc: "dl_claim_phase ?dl = None" and ds: "dl_status ?dl = Some STATUS_HALTED" by (simp_all add: zombie_delta_def empty_delta_def)
  have "holder db' s \<in> {None, Some (JNull, JNull)}"
  proof (cases "d_claim d \<in> {None, Some []}")
    case False
    then have "dl_release ?dl" by (simp add: zombie_delta_def)
    from commit_release[OF ap this nc] show ?thesis by simp
  next
    case True
    from ap obtain db2 where "moves_no_claim \<lparr>w_doc = d, w_delta = ?dl, w_side = []\<rparr>"
      using True by (auto simp: moves_no_claim_def zombie_delta_def empty_delta_def)
    from apply_keeps_holder[OF _ this, of now fresh s "zombie_pre obs" "ss_db ss" None db'] ap
    have h: "holder db' s = holder (ss_db ss) s" by simp
    have "claim_identity (read_claim (ss_db ss) s) \<in> {None, Some (JNull, JNull)}"
      using True d(1) by (auto simp: snapshot_def bind_res_Inr claim_identity_def jget_def dest!: snapshot_in_txn_reads)
    then show ?thesis using h read_claim_identity[OF assms, of s] by simp
  qed
  with commit_status[OF ap ds nc] have e: "ended db' s" by (auto simp: ended_def)
  have "\<exists>ss'. sweep_one alone os coolant now fresh False s ss = Inr ss' \<and> ss_db ss' = db'
      \<and> ss_signals ss' = ss_signals ss @ reap_sent (reap_claim os d)"
    using o d(2) ap by (simp add: sweep_one_def Let_def alone_def)
  with st e True reap_signals_plan[of os d] sl(3) show ?thesis by auto
qed

lemma step_keeps: "step_ok s db db' \<Longrightarrow> t \<noteq> s \<Longrightarrow> same_plan t db db'"
  by (simp add: step_ok_def)

lemma sweep_all_effect:
  assumes "db_ok (ss_db ss)" "distinct ss_list"
  shows "\<exists>ss'. sweep_all (sweep_one alone os coolant now fresh False) ss_list ss = Inr ss' \<and> db_ok (ss_db ss')
    \<and> (\<forall>t. if t \<in> set ss_list \<and> zombie os (ss_db ss) t then ended (ss_db ss') t else same_plan t (ss_db ss) (ss_db ss'))
    \<and> (\<exists>sent. ss_signals ss' = ss_signals ss @ sent \<and> signals_only os {t \<in> set ss_list. zombie os (ss_db ss) t} sent)"
  using assms
proof (induction ss_list arbitrary: ss)
  case Nil
  then show ?case by (simp add: signals_only_def)
next
  case (Cons s rest)
  obtain ss1 sent where one: "sweep_one alone os coolant now fresh False s ss = Inr ss1" "step_ok s (ss_db ss) (ss_db ss1)"
    "if zombie os (ss_db ss) s then ended (ss_db ss1) s else ss_db ss1 = ss_db ss"
    "ss_signals ss1 = ss_signals ss @ sent" "signals_only os {s} sent" "\<not> zombie os (ss_db ss) s \<longrightarrow> sent = []"
    using sweep_one_effect[OF Cons.prems(1), of os coolant now fresh s] by blast
  have z: "zombie os (ss_db ss1) t = zombie os (ss_db ss) t" if "t \<noteq> s" for t
    using zombie_same_plan[OF step_keeps[OF one(2) that]] .
  have dr: "distinct rest" using Cons.prems(2) by simp
  obtain ss' sent' where rest: "sweep_all (sweep_one alone os coolant now fresh False) rest ss1 = Inr ss'" "db_ok (ss_db ss')"
    "\<forall>t. if t \<in> set rest \<and> zombie os (ss_db ss1) t then ended (ss_db ss') t else same_plan t (ss_db ss1) (ss_db ss')"
    "ss_signals ss' = ss_signals ss1 @ sent'" "signals_only os {t \<in> set rest. zombie os (ss_db ss1) t} sent'"
    using Cons.IH[OF step_ok_db_ok[OF one(2)] dr] by blast
  have ns: "s \<notin> set rest" using Cons.prems(2) by simp
  have "if t \<in> set (s # rest) \<and> zombie os (ss_db ss) t then ended (ss_db ss') t else same_plan t (ss_db ss) (ss_db ss')" for t
  proof (cases "t = s")
    case True
    then have "same_plan s (ss_db ss1) (ss_db ss')" using rest(3) ns by auto
    with one(3) True show ?thesis using ended_same_plan same_plan_trans by (auto split: if_splits)
  next
    case False
    then have "same_plan t (ss_db ss) (ss_db ss1)" using step_keeps[OF one(2)] by simp
    with rest(3) False z[OF False] show ?thesis using same_plan_trans by (metis set_ConsD list.set_intros(2))
  qed
  moreover have "signals_only os {t \<in> set (s # rest). zombie os (ss_db ss) t} (sent @ sent')"
  proof -
    have "{t \<in> set rest. zombie os (ss_db ss1) t} \<subseteq> {t \<in> set (s # rest). zombie os (ss_db ss) t}"
    proof
      fix t assume t: "t \<in> {t \<in> set rest. zombie os (ss_db ss1) t}"
      then have "t \<noteq> s" using ns by auto
      from z[OF this] t show "t \<in> {t \<in> set (s # rest). zombie os (ss_db ss) t}" by simp
    qed
    with rest(5) have "signals_only os {t \<in> set (s # rest). zombie os (ss_db ss) t} sent'"
      unfolding signals_only_def by blast
    moreover have "signals_only os {t \<in> set (s # rest). zombie os (ss_db ss) t} sent"
      using one(5,6) by (cases "zombie os (ss_db ss) s") (auto simp: signals_only_def)
    ultimately show ?thesis by (auto simp: signals_only_def)
  qed
  ultimately show ?case using one(1,4) rest(1,2,4) by auto
qed

text \<open>
  C17 The sweep ends the zombies and nothing else. Undisturbed it always returns; afterwards every
  unregistered plan that was stuck at running without a live worker is halted and holds no
  claim, every other plan of the project, registered ones above all, has exactly the rows it had,
  and every signal sent went to a group that is not the caller's and has a member that carries
  the marker of one of those zombies.
\<close>

theorem sweep_exact:
  assumes "db_ok db"
  shows "\<exists>ss. sweep_zombie_states alone os coolant now fresh False registered db = Inr ss \<and> db_ok (ss_db ss)
    \<and> (\<forall>s. if s \<in> set (plan_slugs db) \<and> s \<notin> registered \<and> zombie os db s then ended (ss_db ss) s
           else same_plan s db (ss_db ss))
    \<and> signals_only os {s \<in> set (plan_slugs db). s \<notin> registered \<and> zombie os db s} (ss_signals ss)"
proof -
  let ?ss = "\<lparr>ss_db = db, ss_results = [], ss_signals = [], ss_stops = []\<rparr>"
  have "distinct (filter (\<lambda>s. s \<notin> registered) (plan_slugs db))"
    using assms by (simp add: plan_slugs_def db_ok_def plans_ok_def)
  from sweep_all_effect[of ?ss, OF _ this, of os coolant now fresh] assms show ?thesis
    by (auto simp: sweep_zombie_states_def cong: if_cong)
qed

theorem sweep_exact_witness:
  "\<exists>ss. sweep_zombie_states alone example_os False 9 ''f'' False {} example_db = Inr ss \<and> ended (ss_db ss) ''w1''"
proof -
  have z: "''w1'' \<in> set (plan_slugs example_db)" "zombie example_os example_db ''w1''"
    using example_snapshot by (auto simp: zombie_def is_zombie_state_def empty_state_def plan_slugs_def) code_simp
  from sweep_exact[OF example_db_ok, of example_os False 9 "''f''" "{}"] obtain ss where
    s: "sweep_zombie_states alone example_os False 9 ''f'' False {} example_db = Inr ss"
    "\<forall>s. if s \<in> set (plan_slugs example_db) \<and> s \<notin> {} \<and> zombie example_os example_db s then ended (ss_db ss) s
       else same_plan s example_db (ss_db ss)" by blast
  from s(2)[rule_format, of "''w1''"] z s(1) show ?thesis by simp
qed

end
