(* ===== verification/Replies.thy ===== *)
theory Replies
  imports Store_Steps Blockers
begin

text \<open>
  How a text the operator sends is matched to one open blocker: the reply grammar and the router
  (\<open>notify_base.py\<close>), the walk over the registered plans (\<open>state_locator.py\<close>), the answer command
  (\<open>cmd_answer\<close> of \<open>cli.py\<close>) and the two pollers (\<open>notify_imessage_inbound.py\<close>,
  \<open>notify_discord_inbound.py\<close>).

  The stores of a host are a map from project roots to databases; a proj whose configuration or
  store cannot be read has none. The messages of a chat are an input.
\<close>

section \<open>Grammar and router\<close>

definition is_digit_text :: "string \<Rightarrow> bool" where
  "is_digit_text w \<longleftrightarrow> (case w of [c] \<Rightarrow> is_digit c | _ \<Rightarrow> False)"

text \<open>\<open>REPLY_RE\<close>: one digit, or a slug, blanks and one digit, with blanks around.\<close>

definition parse_reply :: "string \<Rightarrow> (string option \<times> nat) option" where
  "parse_reply body =
     (case split_ws 2 body of
        [d] \<Rightarrow> if is_digit_text d then Some (None, nat_of_digits d) else None
      | [s, d] \<Rightarrow> if slug_pattern s \<and> is_digit_text d then Some (Some s, nat_of_digits d) else None
      | _ \<Rightarrow> None)"

record open_blocker =
  ob_root :: string
  ob_slug :: string
  ob_id :: string
  ob_options :: nat
  ob_notified :: "int option"

definition sorted_desc :: "('a \<Rightarrow> 'b::linorder) \<Rightarrow> 'a list \<Rightarrow> 'a list" where
  "sorted_desc f xs = rev (sort_key f (rev xs))"

definition pick_by_last_pinged :: "open_blocker list \<Rightarrow> nat \<Rightarrow> open_blocker option" where
  "pick_by_last_pinged obs idx =
     (case sorted_desc ob_notified (filter (\<lambda>b. idx < ob_options b) obs) of
        [] \<Rightarrow> None
      | [b] \<Rightarrow> Some b
      | b # b' # _ \<Rightarrow> if ob_notified b = ob_notified b' then None else Some b)"

definition route_reply :: "string \<Rightarrow> open_blocker list \<Rightarrow> (open_blocker \<times> nat) option" where
  "route_reply body obs =
     (case parse_reply body of
        None \<Rightarrow> None
      | Some (Some s, digit) \<Rightarrow> map_option (\<lambda>b. (b, digit)) (find (\<lambda>b. ob_slug b = s) obs)
      | Some (None, digit) \<Rightarrow>
          (case obs of
             [] \<Rightarrow> None
           | [b] \<Rightarrow> Some (b, digit)
           | _ \<Rightarrow> map_option (\<lambda>b. (b, digit)) (pick_by_last_pinged obs digit)))"

section \<open>The locator\<close>

record plan_entry =
  pe_root :: string
  pe_slug :: string

type_synonym stores = "string \<Rightarrow> pdb option"

definition last_blocked_ts :: "doc \<Rightarrow> string \<Rightarrow> int option" where
  "last_blocked_ts d bid =
     (case find_last (\<lambda>e. ev_is EVENT_PHASE_BLOCKED e \<and> dget e ''blocker_id'' = Some (JStr bid)) (d_events d) of
        None \<Rightarrow> None
      | Some e \<Rightarrow> parse_iso (jget e ''ts''))"

definition hydrate_open_blockers :: "doc \<Rightarrow> plan_entry \<Rightarrow> open_blocker list" where
  "hydrate_open_blockers d entry =
     map (\<lambda>b. \<lparr>ob_root = pe_root entry, ob_slug = pe_slug entry, ob_id = sget b ''id'',
        ob_options = length (blocker_options b), ob_notified = last_blocked_ts d (sget b ''id'')\<rparr>)
       (open_blockers d)"

text \<open>\<open>registry.load_entry_state\<close> and the reads of \<open>_load_open_blockers\<close>: nothing on any failure.\<close>

definition load_entry_state :: "stores \<Rightarrow> plan_entry \<Rightarrow> doc option" where
  "load_entry_state sts entry =
     (case sts (pe_root entry) of
        None \<Rightarrow> None
      | Some db \<Rightarrow> (case snapshot db (pe_slug entry) of Inl _ \<Rightarrow> None | Inr d \<Rightarrow> Some d))"

definition load_open_blockers :: "stores \<Rightarrow> plan_entry \<Rightarrow> open_blocker list" where
  "load_open_blockers sts entry =
     (case load_entry_state sts entry of None \<Rightarrow> [] | Some d \<Rightarrow> hydrate_open_blockers d entry)"

datatype located = Found string string string nat | Ambiguous "open_blocker list" | NotFound

definition all_open :: "stores \<Rightarrow> plan_entry list \<Rightarrow> open_blocker list" where
  "all_open sts entries = concat (map (load_open_blockers sts) entries)"

definition find_blocker_for_reply :: "stores \<Rightarrow> plan_entry list \<Rightarrow> string \<Rightarrow> located" where
  "find_blocker_for_reply sts entries body =
     (let obs = all_open sts entries in
      case route_reply body obs of
        Some (b, idx) \<Rightarrow> Found (ob_root b) (ob_slug b) (ob_id b) idx
      | None \<Rightarrow>
          (case parse_reply body of
             Some (None, idx) \<Rightarrow>
               (case filter (\<lambda>b. idx < ob_options b) obs of
                  [] \<Rightarrow> NotFound
                | eligible \<Rightarrow> Ambiguous eligible)
           | _ \<Rightarrow> NotFound))"

section \<open>Answering\<close>

text \<open>The write of an answer into the store of a project.\<close>

definition answer_in_store :: "int \<Rightarrow> string \<Rightarrow> string \<Rightarrow> string \<Rightarrow> nat \<Rightarrow> stores \<Rightarrow> jval res \<times> stores" where
  "answer_in_store now proj slug bid idx sts =
     (case sts proj of
        None \<Rightarrow> (Inl (FileNotFoundErr proj), sts)
      | Some db \<Rightarrow>
          (case op_answer_blocker now slug bid (show_nat idx) db of
             (r, db') \<Rightarrow> (r, sts(proj \<mapsto> db'))))"

datatype answer_exit = Answered string jval | ExitAmbiguous "open_blocker list" | ExitUnknown | ExitFailed pyerr

text \<open>\<open>cmd_answer\<close> without \<open>--blocker\<close>; the plan option is put in front of the text.\<close>

definition cmd_answer :: "int \<Rightarrow> plan_entry list \<Rightarrow> string option \<Rightarrow> string option \<Rightarrow> string \<Rightarrow> stores \<Rightarrow> answer_exit \<times> stores" where
  "cmd_answer now registered project plan answer sts =
     (let entries = (case project of None \<Rightarrow> registered | Some proj \<Rightarrow> filter (\<lambda>e. pe_root e = proj) registered);
          body = (case plan of None \<Rightarrow> answer | Some p \<Rightarrow> p @ '' '' @ answer)
      in case find_blocker_for_reply sts entries body of
           Ambiguous cands \<Rightarrow> (ExitAmbiguous cands, sts)
         | NotFound \<Rightarrow> (ExitUnknown, sts)
         | Found proj slug bid idx \<Rightarrow>
             (case answer_in_store now proj slug bid idx sts of
                (Inl e, sts') \<Rightarrow> (ExitFailed e, sts')
              | (Inr v, sts') \<Rightarrow> (Answered bid v, sts')))"

text \<open>\<open>_answer_blocker_direct\<close>: \<open>--blocker\<close> names the blocker, \<open>--plan\<close> and \<open>--project\<close> the plan.\<close>

definition answer_blocker_direct :: "int \<Rightarrow> string option \<Rightarrow> string option \<Rightarrow> string \<Rightarrow> string \<Rightarrow> stores \<Rightarrow> answer_exit \<times> stores" where
  "answer_blocker_direct now project plan bid answer sts =
     (case (plan, project) of
        (Some slug, Some proj) \<Rightarrow>
          (if \<not> slug_re_match slug then (ExitUnknown, sts)
           else case sts proj of
             None \<Rightarrow> (ExitUnknown, sts)
           | Some db \<Rightarrow>
               (case op_answer_blocker now slug bid answer db of
                  (Inl (FileNotFoundErr f), db') \<Rightarrow> (ExitUnknown, sts(proj \<mapsto> db'))
                | (Inl (KeyErr k), db') \<Rightarrow> (ExitUnknown, sts(proj \<mapsto> db'))
                | (Inl e, db') \<Rightarrow> (ExitFailed e, sts(proj \<mapsto> db'))
                | (Inr v, db') \<Rightarrow> (Answered bid v, sts(proj \<mapsto> db'))))
      | _ \<Rightarrow> (ExitUnknown, sts))"

section \<open>The iMessage poller\<close>

text \<open>\<open>_decode_attributed_body\<close>: bytes are characters; strict UTF-8 as \<open>bytes.decode\<close> checks it.\<close>

definition ATTR_BODY_START :: string where
  "ATTR_BODY_START = [CHR 0x01, CHR 0x2B]"

definition ATTR_BODY_MAX_SIZE :: nat where
  "ATTR_BODY_MAX_SIZE = 65536"

fun after_first :: "string \<Rightarrow> string \<Rightarrow> string option" where
  "after_first p [] = (if p = [] then Some [] else None)"
| "after_first p (c # cs) = (if prefix p (c # cs) then Some (drop (length p) (c # cs)) else after_first p cs)"

definition byte :: "char \<Rightarrow> nat" where
  "byte c = of_char c"

definition byte_in :: "nat \<Rightarrow> nat \<Rightarrow> char \<Rightarrow> bool" where
  "byte_in lo hi c \<longleftrightarrow> lo \<le> byte c \<and> byte c \<le> hi"

text \<open>The length of the well-formed sequence at the head of a text, with 0 for none.\<close>

definition utf8_step :: "string \<Rightarrow> nat" where
  "utf8_step s =
     (case s of
        [] \<Rightarrow> 0
      | a # r \<Rightarrow>
          if byte a < 0x80 then 1
          else if byte_in 0xC2 0xDF a then (case r of b # _ \<Rightarrow> if byte_in 0x80 0xBF b then 2 else 0 | _ \<Rightarrow> 0)
          else if byte_in 0xE0 0xEF a then
            (case r of b # c # _ \<Rightarrow>
               if byte_in (if byte a = 0xE0 then 0xA0 else 0x80) (if byte a = 0xED then 0x9F else 0xBF) b
                  \<and> byte_in 0x80 0xBF c then 3 else 0
             | _ \<Rightarrow> 0)
          else if byte_in 0xF0 0xF4 a then
            (case r of b # c # d # _ \<Rightarrow>
               if byte_in (if byte a = 0xF0 then 0x90 else 0x80) (if byte a = 0xF4 then 0x8F else 0xBF) b
                  \<and> byte_in 0x80 0xBF c \<and> byte_in 0x80 0xBF d then 4 else 0
             | _ \<Rightarrow> 0)
          else 0)"

function utf8_ok :: "string \<Rightarrow> bool" where
  "utf8_ok s = (if s = [] then True else if utf8_step s = 0 then False else utf8_ok (drop (utf8_step s) s))"
  by auto
termination by (relation "measure length") auto

declare utf8_ok.simps [simp del]

definition body_length :: "string \<Rightarrow> (nat \<times> string) option" where
  "body_length s =
     (case s of
        [] \<Rightarrow> None
      | h # cur \<Rightarrow>
          if byte h \<le> 0x80 then Some (byte h, cur)
          else if byte h = 0x81 then
            (case cur of a # b # cur' \<Rightarrow> Some (byte a + 256 * byte b, cur') | _ \<Rightarrow> None)
          else None)"

definition decode_attributed_body :: "string \<Rightarrow> string option" where
  "decode_attributed_body blob =
     (if blob = [] \<or> length blob > ATTR_BODY_MAX_SIZE then None
      else case after_first ATTR_BODY_START blob of
        None \<Rightarrow> None
      | Some cur \<Rightarrow>
          (case body_length cur of
             None \<Rightarrow> None
           | Some (n, cur') \<Rightarrow>
               if n > length cur' \<or> \<not> utf8_ok (take n cur') then None else Some (take n cur')))"

text \<open>\<open>decoded.replace(_NS_ATTACHMENT_CHAR, "")\<close>\<close>

fun without_attachments :: "string \<Rightarrow> string" where
  "without_attachments (a # b # c # s) =
     (if byte a = 0xEF \<and> byte b = 0xBF \<and> byte c = 0xBC then without_attachments s
      else a # without_attachments (b # c # s))"
| "without_attachments s = s"

record chat_row =
  cr_rowid :: int
  cr_chat :: string
  cr_associated :: int
  cr_text :: "string option"
  cr_blob :: "string option"
  cr_from_me :: bool

definition POLL_BATCH_LIMIT :: nat where
  "POLL_BATCH_LIMIT = 500"

text \<open>The rows the poll reads.\<close>

definition new_rows :: "chat_row list \<Rightarrow> int \<Rightarrow> string \<Rightarrow> chat_row list" where
  "new_rows chat last_rowid self_chat =
     take POLL_BATCH_LIMIT (sort_key cr_rowid (filter (\<lambda>m. cr_rowid m > last_rowid
       \<and> (cr_text m \<noteq> None \<or> cr_blob m \<noteq> None) \<and> cr_associated m = 0 \<and> cr_chat m = self_chat) chat))"

definition row_body :: "chat_row \<Rightarrow> string option" where
  "row_body m =
     (case cr_text m of
        Some t \<Rightarrow> Some t
      | None \<Rightarrow> (case cr_blob m of
          None \<Rightarrow> None
        | Some blob \<Rightarrow> map_option without_attachments (decode_attributed_body blob)))"

record poll_state =
  po_stores :: stores
  po_ticks :: "(string \<times> string) list"

definition poll_row :: "int \<Rightarrow> (string \<Rightarrow> bool) \<Rightarrow> plan_entry list \<Rightarrow> int \<Rightarrow> chat_row \<Rightarrow> poll_state \<Rightarrow> poll_state" where
  "poll_row now auto_tick entries outbound_floor m st =
     (if cr_from_me m \<and> cr_rowid m \<le> outbound_floor then st
      else case row_body m of
        None \<Rightarrow> st
      | Some body \<Rightarrow>
          if body = [] then st
          else case find_blocker_for_reply (po_stores st) entries body of
            Found proj slug bid idx \<Rightarrow>
              (case answer_in_store now proj slug bid idx (po_stores st) of
                 (Inl e, sts) \<Rightarrow> st\<lparr>po_stores := sts\<rparr>
               | (Inr v, sts) \<Rightarrow> st\<lparr>po_stores := sts,
                   po_ticks := po_ticks st @ (if auto_tick proj then [(proj, slug)] else [])\<rparr>)
          | _ \<Rightarrow> st)"

definition poll_once ::
    "int \<Rightarrow> (string \<Rightarrow> bool) \<Rightarrow> plan_entry list \<Rightarrow> chat_row list \<Rightarrow> int \<Rightarrow> string \<Rightarrow> int \<Rightarrow> stores \<Rightarrow> int \<times> poll_state" where
  "poll_once now auto_tick entries chat last_rowid self_chat outbound_floor sts =
     (let rows = new_rows chat last_rowid self_chat in
      (if rows = [] then last_rowid else cr_rowid (last rows),
       fold (poll_row now auto_tick entries outbound_floor) rows \<lparr>po_stores = sts, po_ticks = []\<rparr>))"

section \<open>The Discord poller\<close>

record discord_msg =
  dm_id :: string
  dm_author :: string
  dm_ref :: "string option"
  dm_content :: string

definition discord_message_id :: "obj \<Rightarrow> string option" where
  "discord_message_id b =
     (case dget b ''notify_metadata'' of
        Some (JObj meta) \<Rightarrow> (case dget meta ''discord'' of
          Some (JObj m) \<Rightarrow> (case dget m ''message_id'' of Some (JStr i) \<Rightarrow> Some i | _ \<Rightarrow> None)
        | _ \<Rightarrow> None)
      | _ \<Rightarrow> None)"

definition find_blocker_by_message :: "stores \<Rightarrow> plan_entry list \<Rightarrow> string \<Rightarrow> (plan_entry \<times> string) option" where
  "find_blocker_by_message sts entries mid =
     find (\<lambda>_. True) (concat (map (\<lambda>e. case load_entry_state sts e of
         None \<Rightarrow> []
       | Some d \<Rightarrow> map (\<lambda>b. (e, sget b ''id'')) (filter (\<lambda>b. discord_message_id b = Some mid) (open_blockers d))) entries))"

text \<open>The target of a message: project, plan, blocker, and the text to answer with.\<close>

definition route_message :: "stores \<Rightarrow> plan_entry list \<Rightarrow> discord_msg \<Rightarrow> (string \<times> string \<times> string \<times> string) option" where
  "route_message sts entries m =
     (case (case dm_ref m of None \<Rightarrow> None | Some [] \<Rightarrow> None | Some r \<Rightarrow> find_blocker_by_message sts entries r) of
        Some (e, bid) \<Rightarrow> Some (pe_root e, pe_slug e, bid, strip (dm_content m))
      | None \<Rightarrow>
          (case find_blocker_for_reply sts entries (dm_content m) of
             Found proj slug bid idx \<Rightarrow> Some (proj, slug, bid, show_nat idx)
           | _ \<Rightarrow> None))"

text \<open>\<open>_cli_dispatch\<close>: the answer command is run for the project and the plan of the target.\<close>

definition cli_dispatch :: "int \<Rightarrow> plan_entry list \<Rightarrow> string \<times> string \<times> string \<times> string \<Rightarrow> stores \<Rightarrow> answer_exit \<times> stores" where
  "cli_dispatch now entries reply sts =
     (case reply of (proj, slug, bid, answer) \<Rightarrow> cmd_answer now entries (Some proj) (Some slug) answer sts)"

definition discord_step :: "int \<Rightarrow> string \<Rightarrow> plan_entry list \<Rightarrow> discord_msg \<Rightarrow>
    stores \<times> (string \<times> string \<times> string \<times> string) list \<Rightarrow> stores \<times> (string \<times> string \<times> string \<times> string) list" where
  "discord_step now me entries m st =
     (case st of (sts, replies) \<Rightarrow>
        if dm_author m = me then (sts, replies)
        else case route_message sts entries m of
          None \<Rightarrow> (sts, replies)
        | Some r \<Rightarrow>
            (case cli_dispatch now entries r sts of
               (Answered _ _, sts') \<Rightarrow> (sts', replies @ [r])
             | (_, sts') \<Rightarrow> (sts', replies)))"

text \<open>One poll: the replies that were dispatched, and the cursor after it.\<close>

definition discord_poll :: "int \<Rightarrow> string \<Rightarrow> plan_entry list \<Rightarrow> discord_msg list \<Rightarrow> string option \<Rightarrow> stores \<Rightarrow>
    (string \<times> string \<times> string \<times> string) list \<times> string option \<times> stores" where
  "discord_poll now me entries messages cursor sts =
     (case fold (discord_step now me entries) messages (sts, []) of
        (sts', replies) \<Rightarrow> (replies, (if messages = [] then cursor else Some (dm_id (last messages))), sts'))"

end
