(* ===== verification/Replies_Props.thy ===== *)
theory Replies_Props
  imports Replies
begin

text \<open>
  The router picks the blocker the operator meant, or none: the grammar as the regular
  expression writes it, the rule for a bare digit, and the decoder of message bodies. The
  Discord path, which hands the answer to the command line, is shown to lose the blocker.
\<close>

section \<open>Words of a text\<close>

definition blank :: "string \<Rightarrow> bool" where
  "blank w \<longleftrightarrow> list_all is_space w"

definition is_word :: "string \<Rightarrow> bool" where
  "is_word u \<longleftrightarrow> u \<noteq> [] \<and> list_all (\<lambda>c. \<not> is_space c) u"

lemma lstrip_blank: "blank w \<Longrightarrow> lstrip (w @ s) = lstrip s"
  by (induction w) (auto simp: blank_def lstrip_def)

lemma lstrip_word: "is_word u \<Longrightarrow> lstrip (u @ r) = u @ r"
  by (cases u) (auto simp: is_word_def lstrip_def)

lemma split_ws_blank: "blank w \<Longrightarrow> split_ws n w = []"
proof -
  assume "blank w"
  then have "lstrip w = []" by (simp add: lstrip_def blank_def list_all_iff)
  then show "split_ws n w = []" by (simp add: split_ws.simps)
qed

lemma take_word: "is_word u \<Longrightarrow> r = [] \<or> is_space (hd r) \<Longrightarrow> takeWhile (\<lambda>c. \<not> is_space c) (u @ r) = u
    \<and> dropWhile (\<lambda>c. \<not> is_space c) (u @ r) = r"
  by (cases r) (auto simp: is_word_def list_all_iff takeWhile_append2 dropWhile_append2)

lemma split_ws_word:
  assumes "blank w" "is_word u" "r = [] \<or> is_space (hd r)"
  shows "split_ws (Suc m) (w @ u @ r) = u # split_ws m r"
proof -
  have l: "lstrip (w @ u @ r) = u @ r" using lstrip_blank[OF assms(1)] lstrip_word[OF assms(2)] by simp
  have "u @ r \<noteq> []" using assms(2) by (simp add: is_word_def)
  then obtain a x where ax: "u @ r = a # x" by (cases "u @ r") auto
  note t = take_word[OF assms(2,3), unfolded ax]
  have "lstrip (w @ u @ r) = a # x" using l ax by simp
  then show ?thesis
    unfolding split_ws.simps[of "Suc m"] by (simp only: list.case nat.case conjunct1[OF t] conjunct2[OF t])
qed

lemma lstrip_parts: "\<exists>w. s = w @ lstrip s \<and> blank w \<and> (lstrip s = [] \<or> \<not> is_space (hd (lstrip s)))"
proof (intro exI conjI)
  show "s = takeWhile is_space s @ lstrip s" by (simp add: lstrip_def)
  show "blank (takeWhile is_space s)" by (auto simp: blank_def list_all_iff dest: set_takeWhileD)
  show "lstrip s = [] \<or> \<not> is_space (hd (lstrip s))" using hd_dropWhile[of is_space s] by (auto simp: lstrip_def)
qed

lemma split_ws_Cons:
  assumes "split_ws (Suc m) s = u # us"
  obtains w r where "s = w @ u @ r" "blank w" "is_word u" "r = [] \<or> is_space (hd r)" "us = split_ws m r"
proof -
  obtain w where w: "s = w @ lstrip s" "blank w" "lstrip s = [] \<or> \<not> is_space (hd (lstrip s))" using lstrip_parts by blast
  let ?t = "lstrip s"
  have ne: "?t \<noteq> []" using assms by (auto simp: split_ws.simps)
  then have "split_ws (Suc m) s = takeWhile (\<lambda>c. \<not> is_space c) ?t # split_ws m (dropWhile (\<lambda>c. \<not> is_space c) ?t)"
    by (subst split_ws.simps) (simp split: list.split)
  with assms have u: "u = takeWhile (\<lambda>c. \<not> is_space c) ?t" "us = split_ws m (dropWhile (\<lambda>c. \<not> is_space c) ?t)" by auto
  have "s = w @ u @ dropWhile (\<lambda>c. \<not> is_space c) ?t" using w(1) u(1) by simp
  moreover have "is_word u" using u(1) ne w(3) by (cases ?t) (auto simp: is_word_def list_all_iff dest: set_takeWhileD)
  moreover have "dropWhile (\<lambda>c. \<not> is_space c) ?t = [] \<or> is_space (hd (dropWhile (\<lambda>c. \<not> is_space c) ?t))"
    using hd_dropWhile[of "\<lambda>c. \<not> is_space c" ?t] by blast
  ultimately show thesis using that w(2) u(2) by blast
qed

lemma split_ws_Nil: "split_ws n s = [] \<Longrightarrow> blank s"
proof -
  assume a: "split_ws n s = []"
  have "lstrip s = []" using a by (cases "lstrip s"; cases n) (auto simp: split_ws.simps)
  then show "blank s" using lstrip_parts[of s] by auto
qed

lemma slug_is_word: "slug_pattern s \<Longrightarrow> is_word s"
proof -
  have "\<not> is_space c" if "is_slug_char c" for c
    using that by (auto simp: is_slug_char_def SLUG_CHARS_def is_space_def)
  then show "slug_pattern s \<Longrightarrow> is_word s"
    by (auto simp: slug_pattern_def is_word_def is_slug_head_def list_all_iff split: list.splits)
qed

lemma digit_is_word: "is_digit c \<Longrightarrow> is_word [c]"
  by (simp add: is_word_def digit_not_space)

lemma digit_text: "is_digit_text d \<longleftrightarrow> (\<exists>c. d = [c] \<and> is_digit c)"
  by (auto simp: is_digit_text_def split: list.splits)

section \<open>The grammar\<close>

lemma reply_words:
  "parse_reply body = Some (so, n) \<longleftrightarrow>
     (\<exists>w c w'. blank w \<and> is_digit c \<and> n = digit_val c \<and> blank w'
        \<and> (case so of
             None \<Rightarrow> body = w @ [c] @ w'
           | Some s \<Rightarrow> slug_pattern s \<and> (\<exists>v. v \<noteq> [] \<and> blank v \<and> body = w @ s @ v @ [c] @ w')))"
  (is "?l = ?r")
proof
  assume ?l
  then consider (bare) d where "split_ws 2 body = [d]" "is_digit_text d" "so = None" "n = nat_of_digits d"
    | (slug) s d where "split_ws 2 body = [s, d]" "is_digit_text d" "slug_pattern s" "so = Some s" "n = nat_of_digits d"
    by (auto simp: parse_reply_def split: list.splits if_splits)
  then show ?r
  proof cases
    case bare
    then obtain c where c: "d = [c]" "is_digit c" using digit_text by blast
    have "split_ws (Suc 1) body = d # []" using bare(1) by (simp add: numeral_2_eq_2)
    then obtain w r where w: "body = w @ d @ r" "blank w" "[] = split_ws 1 r" by (rule split_ws_Cons) simp
    then have "blank r" using split_ws_Nil by metis
    with w c bare show ?thesis by (auto simp: nat_of_digits_def intro!: exI[of _ w])
  next
    case slug
    then obtain c where c: "d = [c]" "is_digit c" using digit_text by blast
    have "split_ws (Suc 1) body = s # [d]" using slug(1) by (simp add: numeral_2_eq_2)
    then obtain w r where w: "body = w @ s @ r" "blank w" "r = [] \<or> is_space (hd r)" "[d] = split_ws 1 r"
      by (rule split_ws_Cons) simp
    from w(4) have "split_ws (Suc 0) r = d # []" by simp
    then obtain v r' where v: "r = v @ d @ r'" "blank v" "[] = split_ws 0 r'" by (rule split_ws_Cons) simp
    then have "blank r'" using split_ws_Nil by metis
    moreover have "v \<noteq> []" using w(3) v(1) c digit_not_space by auto
    moreover have "body = w @ s @ v @ [c] @ r'" using w(1) v(1) c(1) by simp
    ultimately show ?thesis using w(2) v(2) c slug(3-5)
      by (intro exI[of _ w] exI[of _ c] exI[of _ r']) (auto simp: nat_of_digits_def)
  qed
next
  assume ?r
  then obtain w c w' where b: "blank w" "is_digit c" "n = digit_val c" "blank w'" and
    s: "case so of None \<Rightarrow> body = w @ [c] @ w'
        | Some s \<Rightarrow> slug_pattern s \<and> (\<exists>v. v \<noteq> [] \<and> blank v \<and> body = w @ s @ v @ [c] @ w')" by blast
  have hd': "w' = [] \<or> is_space (hd w')" using b(4) by (cases w') (auto simp: blank_def)
  show ?l
  proof (cases so)
    case None
    then have "split_ws (Suc 1) body = [[c]]"
      using split_ws_word[OF b(1) digit_is_word[OF b(2)] hd', of 1] split_ws_blank[OF b(4)] s by simp
    then show ?thesis using b None by (simp add: parse_reply_def numeral_2_eq_2 is_digit_text_def nat_of_digits_def)
  next
    case (Some sl)
    with s obtain v where v: "slug_pattern sl" "v \<noteq> []" "blank v" "body = w @ sl @ v @ [c] @ w'" by auto
    have h: "v @ [c] @ w' = [] \<or> is_space (hd (v @ [c] @ w'))" using v(2,3) by (cases v) (auto simp: blank_def)
    have "split_ws (Suc 1) body = sl # split_ws 1 (v @ [c] @ w')"
      using split_ws_word[OF b(1) slug_is_word[OF v(1)] h, of 1] v(4) by simp
    moreover have "split_ws (Suc 0) (v @ [c] @ w') = [[c]]"
      using split_ws_word[OF v(3) digit_is_word[OF b(2)] hd', of 0] split_ws_blank[OF b(4)] by simp
    ultimately show ?thesis using b v Some by (simp add: parse_reply_def numeral_2_eq_2 is_digit_text_def nat_of_digits_def)
  qed
qed

text \<open>
  The grammar is the regular expression. A reply is understood exactly when it is blanks, an
  optional slug followed by at least one blank, one digit, and blanks; and what is read out of
  it are that slug and that digit.
\<close>

theorem reply_grammar:
  "parse_reply body = Some (so, n) \<longleftrightarrow>
     (\<exists>w c w'. blank w \<and> is_digit c \<and> n = digit_val c \<and> blank w'
        \<and> (case so of
             None \<Rightarrow> body = w @ [c] @ w'
           | Some s \<Rightarrow> slug_pattern s \<and> (\<exists>v. v \<noteq> [] \<and> blank v \<and> body = w @ s @ v @ [c] @ w')))"
  by (rule reply_words)

section \<open>The router\<close>

lemma set_sorted_desc [simp]: "set (sorted_desc f xs) = set xs"
  by (simp add: sorted_desc_def)

lemma sorted_desc_head:
  assumes "sorted_desc f xs = b # ys"
  shows "\<forall>y\<in>set ys. f y \<le> f b" "ys = y # zs \<Longrightarrow> \<forall>z\<in>set zs. f z \<le> f y"
proof -
  have "sorted (map f (rev (sorted_desc f xs)))" by (simp add: sorted_desc_def)
  then have "sorted (map f (rev ys) @ [f b])" by (simp add: assms)
  then show "\<forall>y\<in>set ys. f y \<le> f b" "ys = y # zs \<Longrightarrow> \<forall>z\<in>set zs. f z \<le> f y"
    by (auto simp: sorted_append)
qed

lemma picked_latest:
  assumes "pick_by_last_pinged obs idx = Some b"
  shows "b \<in> set obs \<and> idx < ob_options b
    \<and> (\<forall>b'\<in>set obs. idx < ob_options b' \<longrightarrow> b' = b \<or> ob_notified b' < ob_notified b)"
proof -
  let ?e = "filter (\<lambda>b. idx < ob_options b) obs"
  from assms obtain rest where r: "sorted_desc ob_notified ?e = b # rest"
    "rest = [] \<or> ob_notified b \<noteq> ob_notified (hd rest)"
    by (auto simp: pick_by_last_pinged_def split: list.splits if_splits)
  have s: "set ?e = insert b (set rest)" using r(1) by (metis set_sorted_desc list.simps(15))
  have "ob_notified x < ob_notified b" if "x \<in> set rest" for x
  proof -
    obtain y zs where y: "rest = y # zs" using \<open>x \<in> set rest\<close> by (cases rest) auto
    with sorted_desc_head[OF r(1)] that have "ob_notified x \<le> ob_notified y" "ob_notified y \<le> ob_notified b" by auto
    with r(2) y show ?thesis by auto
  qed
  with s show ?thesis by auto
qed

lemma all_open_is_open:
  assumes "b \<in> set (all_open sts entries)"
  shows "\<exists>e\<in>set entries. \<exists>d. load_entry_state sts e = Some d \<and> pe_root e = ob_root b \<and> pe_slug e = ob_slug b
    \<and> (\<exists>bl\<in>set (open_blockers d). sget bl ''id'' = ob_id b \<and> length (blocker_options bl) = ob_options b)"
proof -
  from assms obtain e where e: "e \<in> set entries" "b \<in> set (load_open_blockers sts e)" by (auto simp: all_open_def)
  then obtain d where d: "load_entry_state sts e = Some d" "b \<in> set (hydrate_open_blockers d e)"
    by (cases "load_entry_state sts e") (auto simp: load_open_blockers_def)
  then show ?thesis using e(1) by (intro bexI[of _ e] exI[of _ d]) (auto simp: hydrate_open_blockers_def)
qed

text \<open>
  C18 A reply goes to the blocker it names or to none. What the locator finds is a blocker that is
  open in the store of one of the registered plans; a reply with a slug goes to that plan; a bare
  digit goes to the only open blocker there is, or else to one that has the option and was
  announced strictly later than every other open blocker that has it.
\<close>

theorem reply_routes_right:
  assumes "find_blocker_for_reply sts entries body = Found proj slug bid idx"
  shows "\<exists>b so. parse_reply body = Some (so, idx) \<and> b \<in> set (all_open sts entries)
    \<and> ob_root b = proj \<and> ob_slug b = slug \<and> ob_id b = bid
    \<and> (\<exists>e\<in>set entries. \<exists>d. load_entry_state sts e = Some d \<and> pe_root e = proj \<and> pe_slug e = slug
         \<and> (\<exists>bl\<in>set (open_blockers d). sget bl ''id'' = bid))
    \<and> (case so of Some s \<Rightarrow> slug = s
       | None \<Rightarrow> all_open sts entries = [b] \<or> idx < ob_options b
           \<and> (\<forall>b'\<in>set (all_open sts entries). idx < ob_options b' \<longrightarrow> b' = b \<or> ob_notified b' < ob_notified b))"
proof -
  from assms obtain b where r: "route_reply body (all_open sts entries) = Some (b, idx)"
    and f: "proj = ob_root b" "slug = ob_slug b" "bid = ob_id b"
    by (auto simp: find_blocker_for_reply_def Let_def split: option.splits prod.splits list.splits)
  from r obtain so where so: "parse_reply body = Some (so, idx)"
    by (auto simp: route_reply_def split: option.splits prod.splits list.splits)
  have c: "b \<in> set (all_open sts entries) \<and> (case so of Some s \<Rightarrow> ob_slug b = s
       | None \<Rightarrow> all_open sts entries = [b] \<or> idx < ob_options b
           \<and> (\<forall>b'\<in>set (all_open sts entries). idx < ob_options b' \<longrightarrow> b' = b \<or> ob_notified b' < ob_notified b))"
  proof (cases so)
    case (Some s)
    then show ?thesis using r so by (auto simp: route_reply_def find_Some_iff)
  next
    case None
    then consider "all_open sts entries = [b]" | "pick_by_last_pinged (all_open sts entries) idx = Some b"
      using r so by (auto simp: route_reply_def split: list.splits)
    then show ?thesis using None picked_latest by cases auto
  qed
  from all_open_is_open[of b sts entries] c so f show ?thesis by (cases so) auto
qed

section \<open>Message bodies\<close>

definition encode_length :: "nat \<Rightarrow> string" where
  "encode_length n = (if n \<le> 128 then [char_of n] else [char_of (0x81::nat), char_of (n mod 256), char_of (n div 256)])"

lemma byte_char_of [simp]: "byte (char_of n) = n mod 256"
  by (simp add: byte_def)

lemma body_length_encoded: "n < 65536 \<Longrightarrow> body_length (encode_length n @ r) = Some (n, r)"
  by (auto simp: body_length_def encode_length_def split: list.split)

lemma after_first_skip:
  assumes "\<not> sublist pat (p @ butlast pat)" "pat \<noteq> []"
  shows "after_first pat (p @ pat @ r) = Some r"
  using assms(1)
proof (induction p)
  case Nil
  then show ?case using assms(2) by (cases pat) auto
next
  case (Cons c p)
  have "\<not> prefix pat (c # p @ pat @ r)"
  proof
    assume "prefix pat (c # p @ pat @ r)"
    then have t: "pat = take (length pat) (c # p @ pat @ r)" by (metis append_eq_conv_conj prefix_def)
    moreover have "take (length pat) (c # p @ pat @ r) = take (length pat) ((c # p) @ butlast pat)"
      using assms(2) by (simp add: take_Cons' butlast_conv_take take_append del: take_append) (simp add: min_def)
    ultimately have "prefix pat ((c # p) @ butlast pat)" by (metis take_is_prefix)
    with Cons.prems show False using prefix_imp_sublist by blast
  qed
  moreover have "\<not> sublist pat (p @ butlast pat)" using Cons.prems by (simp add: sublist_Cons_right)
  ultimately show ?case using Cons.IH by simp
qed

text \<open>
  C19 Message bodies are read as they were written, and nothing else is. A well-formed text of less
  than 64 KiB, framed in a blob by the start mark and its length, is decoded to exactly that text
  as long as the start mark does not occur before; and whatever is decoded from any blob is a
  contiguous part of it and well-formed UTF-8.
\<close>

theorem attributed_body_roundtrip:
  assumes "utf8_ok t" and "length t < 65536" and "\<not> sublist ATTR_BODY_START (pre @ butlast ATTR_BODY_START)"
    and "length (pre @ ATTR_BODY_START @ encode_length (length t) @ t @ post) \<le> ATTR_BODY_MAX_SIZE"
  shows "decode_attributed_body (pre @ ATTR_BODY_START @ encode_length (length t) @ t @ post) = Some t
    \<and> (decode_attributed_body blob = Some u \<longrightarrow> sublist u blob \<and> utf8_ok u)"
proof
  have ne: "ATTR_BODY_START \<noteq> []" by (simp add: ATTR_BODY_START_def)
  show "decode_attributed_body (pre @ ATTR_BODY_START @ encode_length (length t) @ t @ post) = Some t"
    using assms(1,4) ne after_first_skip[OF assms(3) ne] body_length_encoded[OF assms(2)]
    by (simp add: decode_attributed_body_def)
  have tail: "after_first p x = Some y \<Longrightarrow> suffix y x" for p x y
    by (induction x) (auto split: if_splits intro: suffix_ConsI suffix_drop)
  have len: "body_length x = Some (n, y) \<Longrightarrow> suffix y x" for x n y
    by (auto simp: body_length_def suffix_def split: list.splits if_splits)
  show "decode_attributed_body blob = Some u \<longrightarrow> sublist u blob \<and> utf8_ok u"
  proof
    assume "decode_attributed_body blob = Some u"
    then obtain cur n cur' where c: "after_first ATTR_BODY_START blob = Some cur" "body_length cur = Some (n, cur')"
      "u = take n cur'" "utf8_ok u"
      by (auto simp: decode_attributed_body_def split: if_splits option.splits prod.splits)
    have "sublist u cur'" using c(3) by (simp add: sublist_take)
    moreover have "sublist cur' blob" using tail[OF c(1)] len[OF c(2)] by (meson suffix_imp_sublist suffix_order.trans)
    ultimately show "sublist u blob \<and> utf8_ok u" using c(4) sublist_order.order_trans by blast
  qed
qed

theorem attributed_body_roundtrip_witness:
  "decode_attributed_body (''xy'' @ ATTR_BODY_START @ encode_length (length ''w1 2'') @ ''w1 2'' @ ''zz'') = Some ''w1 2''"
proof -
  have "utf8_ok ''w1 2''" by code_simp
  moreover have "\<not> sublist ATTR_BODY_START (''xy'' @ butlast ATTR_BODY_START)" by code_simp
  moreover have "length (''xy'' @ ATTR_BODY_START @ encode_length (length ''w1 2'') @ ''w1 2'' @ ''zz'') \<le> ATTR_BODY_MAX_SIZE"
    by (simp add: ATTR_BODY_MAX_SIZE_def ATTR_BODY_START_def encode_length_def)
  moreover note attributed_body_roundtrip[of "''w1 2''" "''xy''" "''zz''"]
  ultimately show ?thesis by simp
qed

section \<open>The Discord path\<close>

lemma parse_named:
  assumes "slug_pattern s" "idx < 10"
  shows "parse_reply (s @ '' '' @ show_nat idx) = Some (Some s, idx)"
proof -
  have d: "show_nat idx = [DIGITS ! idx]" using assms(2) by (simp add: show_nat.simps)
  have "is_digit (DIGITS ! idx)" "digit_val (DIGITS ! idx) = idx" using DIGITS_nth[OF assms(2)] by auto
  then show ?thesis
    unfolding reply_words using assms(1) by (intro exI[of _ "[]"] exI[of _ "DIGITS ! idx"]) (auto simp: d blank_def is_space_def)
qed

lemma all_open_single:
  "load_entry_state sts e = Some d \<Longrightarrow> all_open sts [e] = hydrate_open_blockers d e"
  by (simp add: all_open_def load_open_blockers_def)

text \<open>
  The Discord path forgets the blocker. The poller works out which blocker a message answers and
  then runs the answer command with the project and the plan alone: whatever blocker the message
  was found to answer, the command resolves the plan's first open blocker.
\<close>

theorem discord_answers_first_open:
  assumes "filter (\<lambda>e. pe_root e = proj) entries = [e]" and "pe_slug e = slug" and "slug_pattern slug" and "idx < 10"
    and "load_entry_state sts e = Some d" and "open_blockers d = b # bs"
  shows "cli_dispatch now entries (proj, slug, bid, show_nat idx) sts =
    (case answer_in_store now proj slug (sget b ''id'') idx sts of
       (Inl err, sts') \<Rightarrow> (ExitFailed err, sts')
     | (Inr v, sts') \<Rightarrow> (Answered (sget b ''id'') v, sts'))"
proof -
  have r: "pe_root e = proj" using assms(1) by (auto dest: filter_eq_ConsD)
  have "route_reply (slug @ '' '' @ show_nat idx) (all_open sts [e]) =
      Some (\<lparr>ob_root = proj, ob_slug = slug, ob_id = sget b ''id'', ob_options = length (blocker_options b),
        ob_notified = last_blocked_ts d (sget b ''id'')\<rparr>, idx)"
    unfolding route_reply_def parse_named[OF assms(3,4)] all_open_single[OF assms(5)]
    using r assms(2,6) by (simp add: hydrate_open_blockers_def)
  then have "find_blocker_for_reply sts [e] (slug @ '' '' @ show_nat idx) = Found proj slug (sget b ''id'') idx"
    by (simp add: find_blocker_for_reply_def)
  then show ?thesis by (simp add: cli_dispatch_def cmd_answer_def assms(1))
qed

text \<open>A plan with two open blockers, and a Discord reply to the message of the second.\<close>

definition two_questions_db :: pdb where
  "two_questions_db = run_op (OpCreate ((empty_state 0 ''w1'' ''plans'')\<lparr>d_blockers :=
     [[(''id'', JStr ''q-1''), (''phase_id'', JStr ''a''), (''question'', JStr ''x?''), (''options'', JList [JStr ''y'', JStr ''n'']),
       (''answer'', JNull)],
      [(''id'', JStr ''q-2''), (''phase_id'', JStr ''b''), (''question'', JStr ''z?''), (''options'', JList [JStr ''u'', JStr ''v'']),
       (''answer'', JNull),
       (''notify_metadata'', JObj [(''discord'', JObj [(''message_id'', JStr ''77'')])])]]\<rparr>)) empty_db"

definition one_plan :: "plan_entry list" where
  "one_plan = [\<lparr>pe_root = ''/p'', pe_slug = ''w1''\<rparr>]"

definition two_questions :: stores where
  "two_questions p = (if p = ''/p'' then Some two_questions_db else None)"

definition discord_reply :: discord_msg where
  "discord_reply = \<lparr>dm_id = ''90'', dm_author = ''me'', dm_ref = Some ''77'', dm_content = ''1''\<rparr>"

theorem discord_answers_first_open_witness:
  "route_message two_questions one_plan discord_reply = Some (''/p'', ''w1'', ''q-2'', ''1'')
   \<and> fst (cli_dispatch 5 one_plan (''/p'', ''w1'', ''q-2'', ''1'') two_questions) = Answered ''q-1'' (JStr ''n'')"
proof -
  have r: "route_message two_questions one_plan discord_reply = Some (''/p'', ''w1'', ''q-2'', ''1'')" by code_simp
  let ?e = "\<lparr>pe_root = ''/p'', pe_slug = ''w1''\<rparr>"
  have l: "case load_entry_state two_questions ?e of None \<Rightarrow> False | Some d \<Rightarrow>
    (case open_blockers d of [] \<Rightarrow> False | b # bs \<Rightarrow> sget b ''id'' = ''q-1'')" by code_simp
  then obtain d b bs where d: "load_entry_state two_questions ?e = Some d" "open_blockers d = b # bs" "sget b ''id'' = ''q-1''"
    by (auto split: option.splits list.splits)
  have "slug_pattern ''w1''" "show_nat 1 = ''1''" by code_simp+
  moreover have "fst (answer_in_store 5 ''/p'' ''w1'' ''q-1'' 1 two_questions) = Inr (JStr ''n'')" by code_simp
  ultimately have "fst (cli_dispatch 5 one_plan (''/p'', ''w1'', ''q-2'', ''1'') two_questions) = Answered ''q-1'' (JStr ''n'')"
    using discord_answers_first_open[of "''/p''" one_plan ?e "''w1''" 1 two_questions d b bs 5 "''q-2''"] d
    by (auto simp: one_plan_def split: prod.splits sum.splits)
  with r show ?thesis by simp
qed

theorem reply_routes_right_witness:
  "find_blocker_for_reply two_questions one_plan ''w1 1'' = Found ''/p'' ''w1'' ''q-1'' 1
   \<and> (\<exists>b so. parse_reply ''w1 1'' = Some (so, 1) \<and> b \<in> set (all_open two_questions one_plan) \<and> ob_id b = ''q-1'')"
proof -
  have f: "find_blocker_for_reply two_questions one_plan ''w1 1'' = Found ''/p'' ''w1'' ''q-1'' 1" by code_simp
  from reply_routes_right[OF f] obtain b so where
    "parse_reply ''w1 1'' = Some (so, 1)" "b \<in> set (all_open two_questions one_plan)" "ob_id b = ''q-1''" by blast
  with f show ?thesis by blast
qed

end
