(* ===== verification/Cmd_World.thy ===== *)
theory Cmd_World
  imports Sweep
begin

text \<open>
  What a command of \<open>cli.py\<close> runs in. A command is a sequence of transactions on the project
  database with foreign work in between; it ends with an exit code or an exception. The world
  holds the database, what other processes will write before each further transaction of this
  command (\<open>w_script\<close>, consumed one step per transaction), the transactions the command made
  (\<open>w_trace\<close>: the database each found and left, for the statements) and the effects outside the
  database in their order. Every interleaving of the command with other processes is some script.

  Answers of \<open>git\<close>, of the verify command and of the process table are inputs.
\<close>

section \<open>Exit codes and effects\<close>

datatype exit_code = OK | GENERIC | INVALID_SLUG | BAD_SHA | CLAIM_MISMATCH | SPAWN_CAP | UNKNOWN_TASK
  | STATUS_TRANSITION | INVALID_VALUE | REPAIR_DECLINED | WORKTREE_SETUP_FAILED | QUEUE_CAP

datatype effect =
    CoolantStop string string string
  | Signals "(int \<times> os_signal) list"
  | InboxWrite string
  | Sent notice
  | PostTick
  | Git "string list"
  | RanVerify
  | StartedDaemon int
  | SpawnedWorker string string "(string \<times> string) list option"
  | CoolantStart string string string
  | WroteFile string string
  | DeletedFile string
  | RanTests string
  | Gh "string list"

record world =
  w_db :: pdb
  w_script :: "(pdb \<Rightarrow> pdb) list"
  w_trace :: "(pdb \<times> pdb) list"
  w_fx :: "effect list"

type_synonym ('s, 'a) comp = "'s \<Rightarrow> 'a res \<times> 's"

type_synonym 'a cmd = "(world, 'a) comp"

section \<open>Sequencing\<close>

text \<open>Over any state: the commands on a project and the walks over a host use the same combinators.\<close>

definition cret :: "'a \<Rightarrow> ('s, 'a) comp" where
  "cret x = (\<lambda>w. (Inr x, w))"

definition craise :: "pyerr \<Rightarrow> ('s, 'a) comp" where
  "craise e = (\<lambda>w. (Inl e, w))"

definition cbind :: "('s, 'a) comp \<Rightarrow> ('a \<Rightarrow> ('s, 'b) comp) \<Rightarrow> ('s, 'b) comp" where
  "cbind m f = (\<lambda>w. case m w of (Inl e, w') \<Rightarrow> (Inl e, w') | (Inr x, w') \<Rightarrow> f x w')"

definition clift :: "'a res \<Rightarrow> ('s, 'a) comp" where
  "clift r = (\<lambda>w. (r, w))"

definition emit :: "effect \<Rightarrow> unit cmd" where
  "emit fx = (\<lambda>w. (Inr (), w\<lparr>w_fx := w_fx w @ [fx]\<rparr>))"

definition emit_if :: "bool \<Rightarrow> effect \<Rightarrow> unit cmd" where
  "emit_if b fx = (if b then emit fx else cret ())"

text \<open>\<open>try ... except\<close>: the handler decides which exceptions it takes.\<close>

definition ccatch :: "('s, 'a) comp \<Rightarrow> (pyerr \<Rightarrow> ('s, 'a) comp option) \<Rightarrow> ('s, 'a) comp" where
  "ccatch m h = (\<lambda>w. case m w of
     (Inl e, w') \<Rightarrow> (case h e of None \<Rightarrow> (Inl e, w') | Some k \<Rightarrow> k w')
   | r \<Rightarrow> r)"

text \<open>One transaction: first the other processes have their turn.\<close>

definition settle :: "world \<Rightarrow> world" where
  "settle w = (case w_script w of [] \<Rightarrow> w | f # fs \<Rightarrow> w\<lparr>w_db := f (w_db w), w_script := fs\<rparr>)"

definition transact :: "'a txn \<Rightarrow> 'a cmd" where
  "transact t = (\<lambda>w. case t (w_db (settle w)) of (r, db) \<Rightarrow>
     (r, (settle w)\<lparr>w_db := db, w_trace := w_trace w @ [(w_db (settle w), db)]\<rparr>))"

definition read_plan :: "string \<Rightarrow> doc cmd" where
  "read_plan slug = transact (\<lambda>db. (snapshot db slug, db))"

section \<open>Inputs of a command\<close>

text \<open>A finished process: exit code, standard output, standard error.\<close>

record proc =
  p_rc :: int
  p_out :: string
  p_err :: string

record cmd_config =
  cc_root :: string
  cc_verify_required :: bool
  cc_verify_command :: "string option"
  cc_test_command :: "string option"
  cc_simplify_threshold :: "obj option"
  cc_span_ceiling :: rat
  cc_keep_remote :: bool
  cc_coolant :: bool
  cc_tick_on_action :: bool

text \<open>
  \<open>ce_git\<close> answers a \<open>git\<close> command line, with \<open>None\<close> for \<open>TimeoutExpired\<close> (only where the call
  has a timeout); \<open>ce_verify\<close> is the run of the verify command, \<open>ce_plan\<close> the text of the master
  plan, \<open>ce_busy\<close> says that a wait for the write lock with a budget runs out.
\<close>

record cmd_env =
  ce_cfg :: cmd_config
  ce_now :: int
  ce_os :: os_view
  ce_git :: "string list \<Rightarrow> proc option"
  ce_verify :: "proc option"
  ce_plan :: "string option"
  ce_logs :: "jval \<Rightarrow> string option"
  ce_zones :: "string option \<Rightarrow> int \<Rightarrow> zone option"
  ce_busy :: bool

definition run_git :: "cmd_env \<Rightarrow> string list \<Rightarrow> proc cmd" where
  "run_git env argv = cbind (emit (Git argv)) (\<lambda>_.
     case ce_git env argv of None \<Rightarrow> craise (RuntimeErr ''TimeoutExpired'') | Some p \<Rightarrow> cret p)"

definition post_action_tick :: "cmd_env \<Rightarrow> unit cmd" where
  "post_action_tick env = emit_if (cc_tick_on_action (ce_cfg env)) PostTick"

definition emit_coolant_stop :: "cmd_env \<Rightarrow> string \<Rightarrow> string \<Rightarrow> string \<Rightarrow> unit cmd" where
  "emit_coolant_stop env plan phase token =
     emit_if (cc_coolant (ce_cfg env) \<and> token \<noteq> [] \<and> phase \<noteq> []) (CoolantStop token plan phase)"

section \<open>Git\<close>

definition resolve_ref :: "cmd_env \<Rightarrow> string \<Rightarrow> string \<Rightarrow> string option cmd" where
  "resolve_ref env dir ref =
     cbind (run_git env [''-C'', dir, ''rev-parse'', ''--verify'', ref @ ''^{commit}'']) (\<lambda>p.
       cret (if p_rc p \<noteq> 0 then None else Some (strip (p_out p))))"

text \<open>The message of the first unknown commit.\<close>

fun verify_commit_shas :: "cmd_env \<Rightarrow> string \<Rightarrow> string list \<Rightarrow> string option cmd" where
  "verify_commit_shas env dir [] = cret None"
| "verify_commit_shas env dir (sha # shas) =
     cbind (run_git env [''-C'', dir, ''cat-file'', ''-e'', sha]) (\<lambda>p.
       if p_rc p \<noteq> 0 then cret (Some sha) else verify_commit_shas env dir shas)"

text \<open>One line of \<open>git diff --numstat\<close>: files and lines it adds to the count.\<close>

definition numstat_count :: "string \<Rightarrow> int option" where
  "numstat_count s = (if s = ''-'' then Some 0 else int_of_text s)"

definition numstat_line :: "string \<Rightarrow> nat \<times> int \<Rightarrow> nat \<times> int" where
  "numstat_line line acc =
     (case acc of (files, lns) \<Rightarrow>
        (case split_on (CHR 0x09) line of
           a # d # _ # _ \<Rightarrow>
             (case (numstat_count a, numstat_count d) of
                (Some added, Some deleted) \<Rightarrow> (files + 1, lns + (added + deleted))
              | _ \<Rightarrow> (files + 1, lns))
         | _ \<Rightarrow> (files, lns)))"

definition compute_phase_diff :: "cmd_env \<Rightarrow> string \<Rightarrow> string \<Rightarrow> (nat \<times> int) cmd" where
  "compute_phase_diff env dir base_sha =
     cbind (run_git env [''-C'', dir, ''diff'', ''--numstat'', base_sha @ ''..HEAD'']) (\<lambda>p.
       let out = strip (p_out p) in
       cret (if p_rc p \<noteq> 0 \<or> out = [] then (0, 0) else fold numstat_line (split_lines out) (0, 0)))"

definition last_component :: "string \<Rightarrow> string" where
  "last_component ref = last (split_on (CHR 0x2F) ref)"

definition resolve_default_branch :: "cmd_env \<Rightarrow> string option cmd" where
  "resolve_default_branch env =
     cbind (run_git env [''-C'', cc_root (ce_cfg env), ''symbolic-ref'', ''refs/remotes/origin/HEAD'']) (\<lambda>p.
       let ref = strip (p_out p) in
       cret (if p_rc p \<noteq> 0 \<or> CHR 0x2F \<notin> set ref then None else Some (last_component ref)))"

definition branch_reachable_from_origin :: "cmd_env \<Rightarrow> string \<Rightarrow> (bool \<times> string) cmd" where
  "branch_reachable_from_origin env branch =
     cbind (resolve_default_branch env) (\<lambda>dflt.
       case dflt of
         None \<Rightarrow> cret (True, ''no origin remote configured'')
       | Some b \<Rightarrow>
           cbind (run_git env [''-C'', cc_root (ce_cfg env), ''merge-base'', ''--is-ancestor'', branch, ''origin/'' @ b]) (\<lambda>p.
             cret (if p_rc p = 0 then (True, [])
                   else if p_rc p = 1 then (False, ''branch ahead of origin/'' @ b)
                   else (False, ''git merge-base failed: '' @
                     (if strip (p_err p) = [] then ''unknown'' else strip (p_err p))))))"

definition commits_ahead_of_origin :: "cmd_env \<Rightarrow> string \<Rightarrow> string list cmd" where
  "commits_ahead_of_origin env branch =
     cbind (resolve_default_branch env) (\<lambda>dflt.
       case dflt of
         None \<Rightarrow> cret []
       | Some b \<Rightarrow>
           cbind (run_git env [''-C'', cc_root (ce_cfg env), ''log'', ''--format=%h'', ''origin/'' @ b @ ''..'' @ branch]) (\<lambda>p.
             cret (if p_rc p \<noteq> 0 then [] else filter (\<lambda>l. l \<noteq> []) (split_lines (p_out p)))))"

text \<open>Worktree, local branch, remote branch: whether each is gone, and what \<open>git\<close> said.\<close>

definition remove_worktree_and_branch ::
    "cmd_env \<Rightarrow> string \<Rightarrow> string \<Rightarrow> bool \<Rightarrow> bool \<Rightarrow>
       ((bool \<times> string) \<times> (bool \<times> string) \<times> (bool \<times> string)) cmd" where
  "remove_worktree_and_branch env path branch delete_branch delete_remote =
     (let git = (\<lambda>argv. run_git env ([''-C'', cc_root (ce_cfg env)] @ argv)) in
      cbind (git [''worktree'', ''remove'', ''--force'', path]) (\<lambda>wt.
        let wt_pair = (p_rc wt = 0, strip (p_err wt)) in
        if \<not> delete_branch then cret (wt_pair, (True, []), (True, []))
        else cbind (git [''branch'', ''-D'', branch]) (\<lambda>br.
          let br_pair = (p_rc br = 0, strip (p_err br)) in
          if \<not> delete_remote then cret (wt_pair, br_pair, (True, []))
          else cbind (git [''remote'', ''get-url'', ''origin'']) (\<lambda>og.
            if p_rc og \<noteq> 0 then cret (wt_pair, br_pair, (True, ''no origin remote configured''))
            else cbind (git [''push'', ''origin'', ''--delete'', branch]) (\<lambda>rm.
              cret (wt_pair, br_pair,
                (p_rc rm = 0 \<or> sublist ''remote ref does not exist'' (p_err rm), strip (p_err rm))))))))"

section \<open>The worktree of a finished plan\<close>

text \<open>\<open>data.get("worktree")\<close>: a null is as good as absent.\<close>

definition worktree_record :: "doc \<Rightarrow> jval option" where
  "worktree_record d = (case get_worktree d of Some JNull \<Rightarrow> None | wt \<Rightarrow> wt)"

definition need_key :: "jval \<Rightarrow> string \<Rightarrow> string res" where
  "need_key v k = (case v of
     JObj o' \<Rightarrow> (case dget o' k of Some (JStr s) \<Rightarrow> Inr s | Some _ \<Rightarrow> Inl (RuntimeErr ''TypeError'') | None \<Rightarrow> Inl (KeyErr k))
   | _ \<Rightarrow> Inl (RuntimeErr ''TypeError''))"

text \<open>Whether every phase of the master plan is completed; a plan that cannot be read is not.\<close>

definition all_phases_done :: "cmd_env \<Rightarrow> doc \<Rightarrow> bool" where
  "all_phases_done env d =
     (case ce_plan env of
        None \<Rightarrow> False
      | Some t \<Rightarrow>
          (case parse_sessions_index (d_slug d) t of
             Inl e \<Rightarrow> False
           | Inr phases \<Rightarrow> phases \<noteq> [] \<and> list_all (is_completed d) phases))"

definition maybe_cleanup_worktree :: "cmd_env \<Rightarrow> string \<Rightarrow> bool \<Rightarrow> doc \<Rightarrow> doc cmd" where
  "maybe_cleanup_worktree env trigger require_done d =
     (case worktree_record d of
        None \<Rightarrow> cret d
      | Some wt \<Rightarrow>
          if require_done \<and> \<not> all_phases_done env d then cret d
          else
            cbind (clift (need_key wt ''branch'')) (\<lambda>branch.
            cbind (branch_reachable_from_origin env branch) (\<lambda>(reachable, reason).
              if \<not> reachable then
                cbind (commits_ahead_of_origin env branch) (\<lambda>ahead.
                cbind (clift (need_key wt ''path'')) (\<lambda>path.
                  cret (append_event (ce_now env) EVENT_WORKTREE_RETAINED_AHEAD
                    [(''path'', JStr path), (''branch'', JStr branch), (''reason'', JStr reason),
                     (''ahead_commits'', JList (map JStr ahead)), (''trigger'', JStr trigger)] d)))
              else
                cbind (clift (need_key wt ''path'')) (\<lambda>path.
                cbind (remove_worktree_and_branch env path branch True (\<not> cc_keep_remote (ce_cfg env)))
                  (\<lambda>((wt_ok, wt_err), (br_ok, br_err), (rm_ok, rm_err)).
                  cret ((append_event (ce_now env) EVENT_WORKTREE_CLEANED
                    [(''path'', JStr path), (''branch'', JStr branch), (''worktree_removed'', JBool wt_ok),
                     (''branch_removed'', JBool br_ok), (''remote_branch_removed'', JBool rm_ok),
                     (''worktree_error'', JStr wt_err), (''branch_error'', JStr br_err),
                     (''remote_branch_error'', JStr rm_err), (''trigger'', JStr trigger)] d)\<lparr>d_worktree := Some JNull\<rparr>))))))"

definition persist_worktree_cleanup :: "doc \<Rightarrow> nat \<Rightarrow> string list \<Rightarrow> unit cmd" where
  "persist_worktree_cleanup d recorded remove_fields =
     (let new_events = drop recorded (d_events d);
          flds = (if d_worktree d = Some JNull then [(''worktree'', JNull)] else [])
      in if flds = [] \<and> new_events = [] \<and> remove_fields = [] then cret ()
         else transact (op_set_fields (d_slug d) flds remove_fields new_events))"

section \<open>The claim check of the worker commands\<close>

definition translate_claim_mismatch :: "exit_code cmd \<Rightarrow> exit_code cmd" where
  "translate_claim_mismatch m = ccatch m (\<lambda>e. case e of ClaimMismatch _ \<Rightarrow> Some (cret CLAIM_MISMATCH) | _ \<Rightarrow> None)"

end
