(* ===== verification/Commands.thy ===== *)
theory Commands
  imports Cmd_World
begin

text \<open>
  The commands of \<open>cli.py\<close> that change one plan: the operator's (pause, resume, retry,
  extend-lease, release-claim, force-complete) and the worker's (heartbeat, activity,
  quiet-span, spawn, task-done, verify, attest, complete, block, and the two reports of the
  heartbeat daemon). Each is the whole handler; \<open>run_command\<close> is the dispatch at the end of
  \<open>main\<close>. An option that was not given has the default of its parser, the empty string for a text.
\<close>

section \<open>Operator: status\<close>

definition cmd_pause :: "cmd_env \<Rightarrow> string \<Rightarrow> string \<Rightarrow> exit_code cmd" where
  "cmd_pause env slug reason =
     cbind (read_plan slug) (\<lambda>d.
       if d_status d = JStr STATUS_DONE then cret STATUS_TRANSITION
       else if d_status d = JStr STATUS_PAUSED then cret OK
       else cbind (transact (op_set_status slug STATUS_PAUSED
              [mk_event (ce_now env) EVENT_PAUSED [(''reason'', JStr reason)]] None None)) (\<lambda>_. cret OK))"

definition cmd_resume :: "cmd_env \<Rightarrow> string \<Rightarrow> exit_code cmd" where
  "cmd_resume env slug =
     cbind (read_plan slug) (\<lambda>d.
       if d_status d = JStr STATUS_RUNNING then cret OK
       else if d_status d \<in> {JStr STATUS_HALTED, JStr STATUS_HALTED_REPLAN} then cret STATUS_TRANSITION
       else if d_status d = JStr STATUS_DONE then cret STATUS_TRANSITION
       else cbind (transact (op_set_status slug STATUS_RUNNING
              [mk_event (ce_now env) EVENT_RESUMED []] None None)) (\<lambda>_. cret OK))"

text \<open>\<open>args.phase or st.most_recent_halted_phase(data)\<close>\<close>

definition retry_phase :: "string \<Rightarrow> doc \<Rightarrow> jval" where
  "retry_phase phase d =
     (if phase \<noteq> [] then JStr phase
      else case most_recent_halted_phase (d_events d) of None \<Rightarrow> JNull | Some v \<Rightarrow> v)"

definition cmd_retry :: "cmd_env \<Rightarrow> string \<Rightarrow> string \<Rightarrow> exit_code cmd" where
  "cmd_retry env slug phase =
     cbind (read_plan slug) (\<lambda>d.
       if d_status d = JStr STATUS_DONE then cret STATUS_TRANSITION
       else case retry_phase phase d of
         JNull \<Rightarrow> cret STATUS_TRANSITION
       | JStr p \<Rightarrow>
           (case validate_slug p of
              Inl _ \<Rightarrow> cret INVALID_SLUG
            | Inr _ \<Rightarrow> cbind (transact (op_set_status slug STATUS_RUNNING
                [mk_event (ce_now env) EVENT_RETRY_REQUESTED [(''phase'', JStr p)]] None None)) (\<lambda>_. cret OK))
       | _ \<Rightarrow> craise (RuntimeErr ''TypeError''))"

section \<open>Operator: the claim\<close>

definition cmd_extend_lease :: "cmd_env \<Rightarrow> string \<Rightarrow> int \<Rightarrow> exit_code cmd" where
  "cmd_extend_lease env slug mins =
     (if mins \<le> 0 then cret INVALID_VALUE
      else cbind (read_plan slug) (\<lambda>d.
        case d_claim d of
          None \<Rightarrow> cret STATUS_TRANSITION
        | Some claim \<Rightarrow>
            ccatch (cbind (transact (op_extend_lease (ce_now env) slug (sget claim ''phase_id'') mins)) (\<lambda>_. cret OK))
              (\<lambda>e. case e of ClaimMismatch _ \<Rightarrow> Some (cret STATUS_TRANSITION) | _ \<Rightarrow> None)))"

definition release_fields :: "obj \<Rightarrow> bool \<Rightarrow> string \<Rightarrow> obj" where
  "release_fields claim force reason =
     [(''phase'', jget claim ''phase_id''), (''token'', jget claim ''claimed_by''), (''forced'', JBool force),
      (''released_by_operator'', JBool True)] @ (if reason = [] then [] else [(''reason'', JStr reason)])"

definition reaped_event :: "int \<Rightarrow> obj \<Rightarrow> int \<Rightarrow> reap_result \<Rightarrow> obj" where
  "reaped_event now claim pid r =
     mk_event now EVENT_PHASE_ORPHAN_REAPED
       [(''phase'', jget claim ''phase_id''), (''pid'', JInt pid), (''signaled'', opt_str (signaled r)),
        (''cmdline_mismatch'', JBool (cmdline_mismatch r))]"

definition cmd_release_claim :: "cmd_env \<Rightarrow> string \<Rightarrow> bool \<Rightarrow> string \<Rightarrow> bool \<Rightarrow> exit_code cmd" where
  "cmd_release_claim env slug force reason reset_attempts =
     cbind (read_plan slug) (\<lambda>d.
       case d_claim d of
         None \<Rightarrow> cret OK
       | Some claim \<Rightarrow>
           cbind (clift (claim_is_stalled (ce_now env) d claim)) (\<lambda>stalled.
             if d_status d = JStr STATUS_RUNNING \<and> \<not> stalled \<and> \<not> force then cret STATUS_TRANSITION
             else
               cbind (case claim_pid claim of
                        None \<Rightarrow> cret []
                      | Some pid \<Rightarrow>
                          (case reap_orphan_pgroup (ce_os env) (group_of claim pid) (Some (d_slug d)) of
                             (r, sent) \<Rightarrow> cbind (emit (Signals sent)) (\<lambda>_. cret [reaped_event (ce_now env) claim pid r])))
                 (\<lambda>reap_events.
               cbind (transact (op_release_claim slug None None
                   ([mk_event (ce_now env) EVENT_CLAIM_FORCE_RELEASED (release_fields claim force reason)] @ reap_events
                    @ (if reset_attempts then [mk_event (ce_now env) EVENT_ATTEMPTS_RESET
                         [(''phase'', jget claim ''phase_id''), (''operator'', JBool True)]] else []))))
                 (\<lambda>_.
               cbind (emit_coolant_stop env slug (sget claim ''phase_id'') (sget claim ''claimed_by'')) (\<lambda>_. cret OK)))))"

section \<open>Worker: tasks\<close>

definition spawned_by :: "string \<Rightarrow> obj \<Rightarrow> bool" where
  "spawned_by phase t \<longleftrightarrow> dget t ''spawned_by_phase'' = Some (JStr phase)"

definition cmd_spawn :: "cmd_env \<Rightarrow> string \<Rightarrow> string \<Rightarrow> string \<Rightarrow> string \<Rightarrow> string \<Rightarrow> string \<Rightarrow> exit_code cmd" where
  "cmd_spawn env slug token phase source title description =
     translate_claim_mismatch (cbind (read_plan slug) (\<lambda>d.
       cbind (clift (assert_claim_match (d_claim d) token phase)) (\<lambda>_.
       cbind (clift (config_num d ''max_spawns_per_phase'' DEFAULT_MAX_SPAWNS_PER_PHASE)) (\<lambda>cap.
         if of_nat (length (filter (spawned_by phase) (d_tasks d))) \<ge> cap then cret SPAWN_CAP
         else cbind (transact (op_spawn_task (ce_now env) slug
           [(''source'', JStr source), (''spawned_by_phase'', JStr phase), (''title'', JStr title),
            (''description'', JStr description), (''depends_on_phases'', JList [JStr phase]),
            (''spawned_at'', iso (ce_now env))]
           ''pending'' (Some token) (Some phase))) (\<lambda>_. cret OK)))))"

text \<open>The phase half of the compare-and-set: the phase that spawned the task, when it is a text.\<close>

definition spawning_phase :: "obj \<Rightarrow> string option" where
  "spawning_phase t = (case dget t ''spawned_by_phase'' of Some (JStr p) \<Rightarrow> Some p | _ \<Rightarrow> None)"

definition cmd_task_done :: "cmd_env \<Rightarrow> string \<Rightarrow> string \<Rightarrow> string \<Rightarrow> bool \<Rightarrow> string list \<Rightarrow> exit_code cmd" where
  "cmd_task_done env slug task_id token force commits =
     translate_claim_mismatch (
       if force \<and> token \<noteq> [] then cret CLAIM_MISMATCH
       else cbind (read_plan slug) (\<lambda>d.
         case find (\<lambda>t. dget t ''id'' = Some (JStr task_id)) (d_tasks d) of
           None \<Rightarrow> cret UNKNOWN_TASK
         | Some t \<Rightarrow>
             if dget t ''status'' = Some (JStr ''done'') then cret OK
             else if \<not> force \<and> token = [] then cret CLAIM_MISMATCH
             else cbind (transact (op_complete_task (ce_now env) slug task_id
                 (if force then None else Some token) (if force then None else spawning_phase t)
                 [mk_event (ce_now env) EVENT_TASK_COMPLETED
                   [(''task'', JStr task_id), (''commits'', JList (map JStr commits)), (''forced'', JBool force)]]))
               (\<lambda>_. cbind (post_action_tick env) (\<lambda>_. cret OK))))"

section \<open>Worker: attestations and completion\<close>

abbreviation ATTESTATION_VERIFY :: string where "ATTESTATION_VERIFY \<equiv> ''verify''"
abbreviation ATTESTATION_SIMPLIFY :: string where "ATTESTATION_SIMPLIFY \<equiv> ''simplify''"

definition resolved_verify_command :: "cmd_config \<Rightarrow> string option" where
  "resolved_verify_command cfg =
     (case cc_verify_command cfg of Some (c # cs) \<Rightarrow> Some (c # cs) | _ \<Rightarrow> cc_test_command cfg)"

definition simplify_threshold_or_default :: "cmd_config \<Rightarrow> int \<times> int" where
  "simplify_threshold_or_default cfg =
     (case cc_simplify_threshold cfg of
        None \<Rightarrow> (1, 30)
      | Some t \<Rightarrow> (case iget t ''files'' of None \<Rightarrow> 1 | Some n \<Rightarrow> n, case iget t ''lines'' of None \<Rightarrow> 30 | Some n \<Rightarrow> n))"

text \<open>The text of the git root of a claim.\<close>

definition git_root_of :: "cmd_env \<Rightarrow> doc \<Rightarrow> string" where
  "git_root_of env d = (case claim_git_root (cc_root (ce_cfg env)) d of JStr s \<Rightarrow> s | _ \<Rightarrow> [])"

text \<open>The base of the diff: the worktree's, or what the claim recorded; empty for none.\<close>

definition claim_base_sha :: "obj \<Rightarrow> doc \<Rightarrow> string" where
  "claim_base_sha claim d =
     (case worktree_record d of
        Some (JObj (f # fs)) \<Rightarrow> sget (f # fs) ''base_ref''
      | _ \<Rightarrow> sget claim ''head_sha_at_claim'')"

definition stale_stamp :: "doc \<Rightarrow> string \<Rightarrow> string \<Rightarrow> bool" where
  "stale_stamp d gate head \<longleftrightarrow>
     attestation_commit_sha (d_claim d) gate = JNull \<or> attestation_commit_sha (d_claim d) gate \<noteq> JStr head"

text \<open>A gate refuses: the refusal is logged unless a stamp has arrived meanwhile.\<close>

definition refuse_gate :: "cmd_env \<Rightarrow> string \<Rightarrow> string \<Rightarrow> string \<Rightarrow> string \<Rightarrow> exit_code option cmd" where
  "refuse_gate env slug phase gate head =
     cbind (transact (op_refuse_attestation (ce_now env) slug phase gate head)) (\<lambda>(stamped, emitted).
     cbind (emit_if emitted (InboxWrite ''attestation_refused'')) (\<lambda>_. cret (Some STATUS_TRANSITION)))"

definition verify_gate :: "cmd_env \<Rightarrow> string \<Rightarrow> string \<Rightarrow> doc \<Rightarrow> string \<Rightarrow> exit_code option cmd" where
  "verify_gate env slug phase d head =
     (if stale_stamp d ATTESTATION_VERIFY head then refuse_gate env slug phase ATTESTATION_VERIFY head else cret None)"

definition simplify_gate :: "cmd_env \<Rightarrow> string \<Rightarrow> string \<Rightarrow> doc \<Rightarrow> string \<Rightarrow> exit_code option cmd" where
  "simplify_gate env slug phase d head =
     (let base = claim_base_sha (case d_claim d of None \<Rightarrow> [] | Some c \<Rightarrow> c) d in
      if base = [] then cret None
      else cbind (compute_phase_diff env (git_root_of env d) base) (\<lambda>(files, lns).
        if (int files > fst (simplify_threshold_or_default (ce_cfg env))
            \<or> lns > snd (simplify_threshold_or_default (ce_cfg env)))
           \<and> stale_stamp d ATTESTATION_SIMPLIFY head
        then refuse_gate env slug phase ATTESTATION_SIMPLIFY head
        else cret None))"

text \<open>The quality gates: the code of a refusal, or none.\<close>

definition quality_gates :: "cmd_env \<Rightarrow> string \<Rightarrow> string \<Rightarrow> bool \<Rightarrow> bool \<Rightarrow> doc \<Rightarrow> exit_code option cmd" where
  "quality_gates env slug phase skip_verify skip_simplify d =
     (let verify_active = (\<not> skip_verify \<and> cc_verify_required (ce_cfg env)) in
      if \<not> verify_active \<and> skip_simplify then cret None
      else cbind (resolve_ref env (git_root_of env d) ''HEAD'') (\<lambda>h.
        let head = (case h of None \<Rightarrow> [] | Some s \<Rightarrow> s) in
        cbind (if verify_active then verify_gate env slug phase d head else cret None) (\<lambda>refused.
          if refused \<noteq> None then cret refused
          else if skip_simplify then cret None
          else simplify_gate env slug phase d head)))"

definition completion_events :: "cmd_env \<Rightarrow> string \<Rightarrow> string list \<Rightarrow> bool \<Rightarrow> bool \<Rightarrow> obj list" where
  "completion_events env phase commits skip_verify skip_simplify =
     [mk_event (ce_now env) EVENT_PHASE_COMPLETED [(''phase'', JStr phase), (''commits'', JList (map JStr commits))]]
     @ (if skip_verify then [mk_event (ce_now env) EVENT_OPERATOR_SKIP_VERIFY
          [(''phase'', JStr phase), (''operator'', JBool True)]] else [])
     @ (if skip_simplify then [mk_event (ce_now env) EVENT_OPERATOR_SKIP_SIMPLIFY
          [(''phase'', JStr phase), (''operator'', JBool True)]] else [])
     @ (if \<not> cc_verify_required (ce_cfg env) then [mk_event (ce_now env) EVENT_VERIFY_POLICY_SKIPPED
          [(''phase'', JStr phase)]] else [])"

definition cleanup_after :: "cmd_env \<Rightarrow> string \<Rightarrow> doc \<Rightarrow> unit cmd" where
  "cleanup_after env trigger d =
     cbind (maybe_cleanup_worktree env trigger True d) (\<lambda>d'. persist_worktree_cleanup d' (length (d_events d)) [])"

definition cmd_complete :: "cmd_env \<Rightarrow> string \<Rightarrow> string \<Rightarrow> string \<Rightarrow> string list \<Rightarrow> bool \<Rightarrow> bool \<Rightarrow> exit_code cmd" where
  "cmd_complete env slug token phase commits skip_verify skip_simplify =
     translate_claim_mismatch (
       cbind (verify_commit_shas env (cc_root (ce_cfg env)) commits) (\<lambda>bad.
       if bad \<noteq> None then cret BAD_SHA
       else cbind (read_plan slug) (\<lambda>d.
         cbind (clift (assert_claim_match (d_claim d) token phase)) (\<lambda>_.
         cbind (quality_gates env slug phase skip_verify skip_simplify d) (\<lambda>refused.
         case refused of Some code \<Rightarrow> cret code
         | None \<Rightarrow>
             cbind (transact (op_release_claim slug (Some token) (Some phase)
               (completion_events env phase commits skip_verify skip_simplify))) (\<lambda>_.
             cbind (emit_coolant_stop env slug phase token) (\<lambda>_.
             cbind (if worktree_record d \<noteq> None
                    then cbind (read_plan slug) (cleanup_after env ''complete'')
                    else cret ()) (\<lambda>_.
             cbind (post_action_tick env) (\<lambda>_. cret OK)))))))))"

definition force_events :: "cmd_env \<Rightarrow> string \<Rightarrow> string list \<Rightarrow> string \<Rightarrow> obj list" where
  "force_events env phase commits reason =
     [mk_event (ce_now env) EVENT_OPERATOR_FORCE_COMPLETE
        [(''phase'', JStr phase), (''commits'', JList (map JStr commits)), (''reason'', JStr reason),
         (''operator'', JBool True)],
      mk_event (ce_now env) EVENT_PHASE_COMPLETED [(''phase'', JStr phase), (''commits'', JList (map JStr commits))]]"

definition cmd_force_complete :: "cmd_env \<Rightarrow> string \<Rightarrow> string \<Rightarrow> string list \<Rightarrow> string \<Rightarrow> bool \<Rightarrow> exit_code cmd" where
  "cmd_force_complete env slug phase commits reason really =
     (case validate_slug phase of
        Inl _ \<Rightarrow> cret INVALID_SLUG
      | Inr _ \<Rightarrow>
          (case (case ce_plan env of None \<Rightarrow> Inl (FileNotFoundErr slug) | Some t \<Rightarrow> parse_sessions_index slug t) of
             Inl _ \<Rightarrow> cret UNKNOWN_TASK
           | Inr phases \<Rightarrow>
               if phase \<notin> set (map ph_id phases) then cret UNKNOWN_TASK
               else cbind (verify_commit_shas env (cc_root (ce_cfg env)) commits) (\<lambda>bad.
                 if bad \<noteq> None then cret BAD_SHA
                 else cbind (read_plan slug) (\<lambda>d.
                   let on_phase = (case d_claim d of None \<Rightarrow> False | Some c \<Rightarrow> dget c ''phase_id'' = Some (JStr phase));
                       events = force_events env phase commits reason
                   in if JStr phase \<in> set (completed_phase_ids (d_events d)) then cret STATUS_TRANSITION
                      else if latest_event (d_events d) EVENT_PHASE_STARTED (Some phase) = None \<and> \<not> on_phase \<and> \<not> really
                      then cret STATUS_TRANSITION
                      else
                        cbind (if on_phase
                               then (case reap_claim (ce_os env) d of None \<Rightarrow> cret () | Some (_, sent) \<Rightarrow> emit (Signals sent))
                               else cret ()) (\<lambda>_.
                        cbind (if on_phase
                               then cbind (transact (op_release_claim slug None None events)) (\<lambda>_.
                                 emit_coolant_stop env slug phase (case d_claim d of None \<Rightarrow> [] | Some c \<Rightarrow> sget c ''claimed_by''))
                               else transact (op_append_events slug events None None)) (\<lambda>_.
                        cbind (cleanup_after env ''force-complete''
                          (d\<lparr>d_claim := (if on_phase then None else d_claim d), d_events := d_events d @ events\<rparr>)) (\<lambda>_.
                        cbind (post_action_tick env) (\<lambda>_. cret OK))))))))"

section \<open>Worker: the live claim\<close>

definition cmd_heartbeat :: "cmd_env \<Rightarrow> string \<Rightarrow> string \<Rightarrow> string \<Rightarrow> exit_code cmd" where
  "cmd_heartbeat env slug token phase =
     translate_claim_mismatch (cbind (transact (op_heartbeat (ce_now env) slug token phase)) (\<lambda>_. cret OK))"

definition cmd_activity :: "cmd_env \<Rightarrow> string \<Rightarrow> string \<Rightarrow> string \<Rightarrow> bool \<Rightarrow> bool \<Rightarrow> exit_code cmd" where
  "cmd_activity env slug token phase start_bash end_bash =
     translate_claim_mismatch (
       if \<not> start_bash \<and> \<not> end_bash then cret INVALID_VALUE
       else cbind (transact (op_activity (ce_busy env) (ce_now env) slug token phase (if start_bash then ''start'' else ''end'')))
         (\<lambda>_. cret OK))"

text \<open>What \<open>quiet-span\<close> is asked for: to end the span, or to declare one.\<close>

datatype span_request = EndSpan string "int option" | DeclareSpan string "int option"

text \<open>The span to stamp (\<open>JNull\<close> to clear it), or a refusal.\<close>

definition span_of_request :: "cmd_env \<Rightarrow> span_request \<Rightarrow> jval option" where
  "span_of_request env rq =
     (case rq of
        EndSpan reason mins \<Rightarrow> if reason \<noteq> [] \<or> mins \<noteq> None then None else Some JNull
      | DeclareSpan reason mins \<Rightarrow>
          if reason = [] then None
          else (case mins of
                  None \<Rightarrow> None
                | Some m \<Rightarrow> if m \<le> 0 then None
                    else Some (JObj (build_quiet_span (take 200 reason) (of_int m) (ce_now env) (cc_span_ceiling (ce_cfg env))))))"

definition cmd_quiet_span :: "cmd_env \<Rightarrow> string \<Rightarrow> string \<Rightarrow> string \<Rightarrow> span_request \<Rightarrow> exit_code cmd" where
  "cmd_quiet_span env slug token phase rq =
     translate_claim_mismatch (
       case validate_slug phase of
         Inl _ \<Rightarrow> cret INVALID_SLUG
       | Inr _ \<Rightarrow>
           (case span_of_request env rq of
              None \<Rightarrow> cret INVALID_VALUE
            | Some qs \<Rightarrow>
                cbind (transact (op_stamp_claim_fields slug token [(''quiet_span'', qs)] (Some phase) None [])) (\<lambda>_. cret OK)))"

definition cmd_block ::
    "cmd_env \<Rightarrow> string \<Rightarrow> string \<Rightarrow> string \<Rightarrow> string \<Rightarrow> string list \<Rightarrow> string \<Rightarrow> string \<Rightarrow> exit_code cmd" where
  "cmd_block env slug token phase question options context ty =
     translate_claim_mismatch (
       cbind (transact (op_add_blocker (ce_now env) slug phase question options context ty (Some token) (Some phase)))
         (\<lambda>bid.
       cbind (emit_coolant_stop env slug phase token) (\<lambda>_.
       cbind (emit (Sent (BlockerNote bid question options))) (\<lambda>_.
       cbind (post_action_tick env) (\<lambda>_. cret OK)))))"

definition cmd_verify :: "cmd_env \<Rightarrow> string \<Rightarrow> string \<Rightarrow> string \<Rightarrow> exit_code cmd" where
  "cmd_verify env slug token phase =
     translate_claim_mismatch (
       case resolved_verify_command (ce_cfg env) of
         None \<Rightarrow> cret GENERIC
       | Some [] \<Rightarrow> cret GENERIC
       | Some (c # cs) \<Rightarrow>
           cbind (read_plan slug) (\<lambda>d.
           cbind (if token \<noteq> [] then clift (assert_claim_match (d_claim d) token phase) else cret ()) (\<lambda>_.
           cbind (resolve_ref env (git_root_of env d) ''HEAD'') (\<lambda>h.
           case h of
             None \<Rightarrow> cret GENERIC
           | Some [] \<Rightarrow> cret GENERIC
           | Some (a # as) \<Rightarrow>
               cbind (emit RanVerify) (\<lambda>_.
               case ce_verify env of
                 None \<Rightarrow> cret GENERIC
               | Some p \<Rightarrow>
                   if p_rc p \<noteq> 0 then cret GENERIC
                   else cbind (transact (op_stamp_attestation (ce_now env) slug
                       (if token = [] then None else Some token) (Some phase) ATTESTATION_VERIFY (a # as)
                       [mk_event (ce_now env) EVENT_VERIFY_STAMPED
                         [(''phase'', JStr phase), (''commit_sha'', JStr (a # as))]])) (\<lambda>_. cret OK))))))"

definition cmd_attest :: "cmd_env \<Rightarrow> string \<Rightarrow> string \<Rightarrow> string \<Rightarrow> bool \<Rightarrow> exit_code cmd" where
  "cmd_attest env slug token phase simplify =
     translate_claim_mismatch (
       if \<not> simplify then cret GENERIC
       else cbind (read_plan slug) (\<lambda>d.
         cbind (resolve_ref env (git_root_of env d) ''HEAD'') (\<lambda>h.
         case h of
           None \<Rightarrow> cret GENERIC
         | Some [] \<Rightarrow> cret GENERIC
         | Some (a # as) \<Rightarrow>
             cbind (transact (op_stamp_attestation (ce_now env) slug (Some token) (Some phase) ATTESTATION_SIMPLIFY (a # as)
               [mk_event (ce_now env) EVENT_SIMPLIFY_STAMPED
                 [(''phase'', JStr phase), (''commit_sha'', JStr (a # as))]])) (\<lambda>_. cret OK))))"

section \<open>The reports of the heartbeat daemon\<close>

text \<open>A write with a budget: busy is an outcome, everything else is as it is.\<close>

definition bounded :: "cmd_env \<Rightarrow> 'a txn \<Rightarrow> 'a option cmd" where
  "bounded env t = ccatch (cbind (transact (locked (ce_busy env) t)) (\<lambda>x. cret (Some x)))
     (\<lambda>e. if e = DbBusy then Some (cret None) else None)"

definition cmd_notify_heartbeat_failure :: "cmd_env \<Rightarrow> string \<Rightarrow> string \<Rightarrow> string \<Rightarrow> string \<Rightarrow> exit_code cmd" where
  "cmd_notify_heartbeat_failure env slug token phase log_path =
     translate_claim_mismatch (
       cbind (bounded env (op_stamp_claim_fields slug token [(''heartbeat_loop_failing_notified'', JBool True)] (Some phase)
           (Some ''heartbeat_loop_failing_notified'')
           [mk_event (ce_now env) EVENT_HEARTBEAT_LOOP_FAILING
             [(''phase'', JStr phase), (''log_path'', JStr log_path)]])) (\<lambda>first.
       case first of
         None \<Rightarrow> cret OK
       | Some False \<Rightarrow> cret OK
       | Some True \<Rightarrow>
           cbind (emit (InboxWrite ''heartbeat_loop_failing'')) (\<lambda>_.
           cbind (emit (Sent (HeartbeatLoopFailingNote phase log_path))) (\<lambda>_. cret OK))))"

definition death_report_event :: "cmd_env \<Rightarrow> string \<Rightarrow> obj \<Rightarrow> obj" where
  "death_report_event env phase claim =
     mk_event (ce_now env) EVENT_PHASE_WORKER_DEAD_REPORTED
       [(''phase'', JStr phase), (''pid'', jget claim ''pid''), (''log_path'', jget claim ''log_path''),
        (''reporter'', JStr ''heartbeat_daemon'')]"

text \<open>The classification of the worker's log: the events to add and the notice to send.\<close>

definition classify_death :: "cmd_env \<Rightarrow> string \<Rightarrow> string \<Rightarrow> obj \<Rightarrow> (obj list \<times> notice) cmd" where
  "classify_death env token phase claim =
     (case classify_log_tail (ce_logs env) (jget claim ''log_path'') of
        None \<Rightarrow> cret ([], WorkerDeadReportedNote phase (jget claim ''pid'') (jget claim ''log_path''))
      | Some qm \<Rightarrow> transact (\<lambda>db.
          case record_quota_death (ce_zones env) (ce_now env) qm (JStr phase) (JStr token) db of
            (until, evs, db') \<Rightarrow> (Inr (evs, quota_pause_notification (qm_line qm) until), db')))"

text \<open>What the snapshot may fail with and be skipped (\<open>DEGRADABLE_ERRORS\<close> and \<open>ValueError\<close>).\<close>

definition unreadable :: "pyerr \<Rightarrow> bool" where
  "unreadable e = degradable e"

definition report_group :: "obj \<Rightarrow> int option" where
  "report_group claim =
     (case iget claim ''pgid'' of
        Some g \<Rightarrow> if g \<noteq> 0 then Some g else claim_pid claim
      | None \<Rightarrow> claim_pid claim)"

definition cmd_notify_worker_dead :: "cmd_env \<Rightarrow> string \<Rightarrow> string \<Rightarrow> string \<Rightarrow> exit_code cmd" where
  "cmd_notify_worker_dead env slug token phase =
     translate_claim_mismatch (
       cbind (clift (validate_slug slug)) (\<lambda>_.
       cbind (ccatch (cbind (read_plan slug) (\<lambda>d. cret (Some d)))
           (\<lambda>e. if unreadable e then Some (cret None) else None)) (\<lambda>read.
       case read of
         None \<Rightarrow> cret OK
       | Some d \<Rightarrow>
           cbind (clift (assert_claim_match (d_claim d) token phase)) (\<lambda>_.
           let claim = (case d_claim d of None \<Rightarrow> [] | Some c \<Rightarrow> c) in
           if worker_death_already_reported claim then cret OK
           else
             cbind (classify_death env token phase claim) (\<lambda>(evs, note).
             cbind (bounded env (op_release_claim slug (Some token) (Some phase) (death_report_event env phase claim # evs)))
               (\<lambda>released.
             if released = None then cret OK
             else
               cbind (emit_coolant_stop env slug phase token) (\<lambda>_.
               cbind (emit (InboxWrite ''phase_worker_dead_reported'')) (\<lambda>_.
               cbind (emit (Sent note)) (\<lambda>_.
               cbind (case report_group claim of
                        None \<Rightarrow> cret ()
                      | Some pgid \<Rightarrow> emit (Signals (snd (reap_orphan_pgroup (ce_os env) pgid (Some slug))))) (\<lambda>_.
                 cret OK))))))))))"

section \<open>Dispatch\<close>

datatype command =
    Pause string
  | Resume
  | Retry string
  | ExtendLease int
  | ReleaseClaim bool string bool
  | Spawn string string string string string
  | TaskDone string string bool "string list"
  | Complete string string "string list" bool bool
  | ForceComplete string "string list" string bool
  | Heartbeat string string
  | Activity string string bool bool
  | QuietSpan string string span_request
  | Block string string string "string list" string string
  | Verify string string
  | Attest string string bool
  | NotifyHeartbeatFailure string string string
  | NotifyWorkerDead string string

definition dispatchers :: "cmd_env \<Rightarrow> string \<Rightarrow> command \<Rightarrow> exit_code cmd" where
  "dispatchers env slug c =
     (case c of
        Pause reason \<Rightarrow> cmd_pause env slug reason
      | Resume \<Rightarrow> cmd_resume env slug
      | Retry phase \<Rightarrow> cmd_retry env slug phase
      | ExtendLease mins \<Rightarrow> cmd_extend_lease env slug mins
      | ReleaseClaim force reason reset \<Rightarrow> cmd_release_claim env slug force reason reset
      | Spawn token phase source title description \<Rightarrow> cmd_spawn env slug token phase source title description
      | TaskDone task token force commits \<Rightarrow> cmd_task_done env slug task token force commits
      | Complete token phase commits skip_verify skip_simplify \<Rightarrow>
          cmd_complete env slug token phase commits skip_verify skip_simplify
      | ForceComplete phase commits reason really \<Rightarrow> cmd_force_complete env slug phase commits reason really
      | Heartbeat token phase \<Rightarrow> cmd_heartbeat env slug token phase
      | Activity token phase start_bash end_bash \<Rightarrow> cmd_activity env slug token phase start_bash end_bash
      | QuietSpan token phase rq \<Rightarrow> cmd_quiet_span env slug token phase rq
      | Block token phase question options context ty \<Rightarrow> cmd_block env slug token phase question options context ty
      | Verify token phase \<Rightarrow> cmd_verify env slug token phase
      | Attest token phase simplify \<Rightarrow> cmd_attest env slug token phase simplify
      | NotifyHeartbeatFailure token phase log_path \<Rightarrow> cmd_notify_heartbeat_failure env slug token phase log_path
      | NotifyWorkerDead token phase \<Rightarrow> cmd_notify_worker_dead env slug token phase)"

definition run_command :: "cmd_env \<Rightarrow> string \<Rightarrow> command \<Rightarrow> exit_code cmd" where
  "run_command env slug c =
     (case validate_slug slug of
        Inl _ \<Rightarrow> cret INVALID_SLUG
      | Inr _ \<Rightarrow> dispatchers env slug c)"

end
