(* ===== verification/Cmd_Frame.thy ===== *)
theory Cmd_Frame
  imports Commands Store_Steps Supervisor_Props
begin

text \<open>
  What every command keeps, however it is interleaved: a contract between databases that each
  store operation satisfies (a locale) carries over to every command. It is interpreted twice,
  as the invariant with the append-only history, and as the frame of the other plans.
\<close>

section \<open>Running a command\<close>

named_theorems cmd_simps \<open>results of the parts of a command\<close>

lemma cret_run [cmd_simps, simp]: "cret x w = (Inr x, w)"
  and craise_run [cmd_simps, simp]: "craise e w = (Inl e, w)"
  and clift_run [cmd_simps, simp]: "clift r w = (r, w)"
  and emit_run [cmd_simps, simp]: "emit fx w = (Inr (), w\<lparr>w_fx := w_fx w @ [fx]\<rparr>)"
  by (simp_all add: cret_def craise_def clift_def emit_def)

lemma cbind_Inr: "cbind m f w = (Inr y, w') \<longleftrightarrow> (\<exists>x w1. m w = (Inr x, w1) \<and> f x w1 = (Inr y, w'))"
  by (auto simp: cbind_def split: prod.splits sum.splits)

lemma cbind_Inl: "cbind m f w = (Inl e, w') \<longleftrightarrow> m w = (Inl e, w') \<or> (\<exists>x w1. m w = (Inr x, w1) \<and> f x w1 = (Inl e, w'))"
  by (auto simp: cbind_def split: prod.splits sum.splits)

lemma cbindE:
  assumes "cbind m f w = (Inr y, w')"
  obtains x w1 where "m w = (Inr x, w1)" "f x w1 = (Inr y, w')"
  using assms by (auto simp: cbind_Inr)

lemma cbind_run [simp]: "m w = (Inr x, w1) \<Longrightarrow> cbind m f w = f x w1"
  by (simp add: cbind_def)

lemma transact_run: "transact t w = (r, w') \<longleftrightarrow> (\<exists>db. t (w_db (settle w)) = (r, db)
     \<and> w' = (settle w)\<lparr>w_db := db, w_trace := w_trace w @ [(w_db (settle w), db)]\<rparr>)"
  by (auto simp: transact_def split: prod.splits)

lemma read_plan_run: "read_plan slug w = (r, w') \<longleftrightarrow> snapshot (w_db (settle w)) slug = r
     \<and> w' = (settle w)\<lparr>w_trace := w_trace w @ [(w_db (settle w), w_db (settle w))]\<rparr>"
  by (auto simp: read_plan_def transact_def)

lemma settle_alone: "w_script w = [] \<Longrightarrow> settle w = w"
  by (simp add: settle_def)

lemma settle_fx [simp]: "w_fx (settle w) = w_fx w"
  by (cases "w_script w") (simp_all add: settle_def)

lemma settle_update_fx [simp]:
  "w_db (settle (w\<lparr>w_fx := fx\<rparr>)) = w_db (settle w)" "w_script (settle (w\<lparr>w_fx := fx\<rparr>)) = w_script (settle w)"
  by (cases "w_script w"; simp add: settle_def)+

section \<open>Transactions of a command\<close>

text \<open>
  Every transaction the command makes relates the database it found to the one it left by \<open>P\<close>;
  and when the steps of the other processes do so too, the whole run is a sequence of \<open>P\<close>-steps.
\<close>

definition fair :: "(pdb \<Rightarrow> pdb \<Rightarrow> bool) \<Rightarrow> world \<Rightarrow> bool" where
  "fair P w \<longleftrightarrow> (\<forall>f\<in>set (w_script w). \<forall>db. P db (f db))"

definition ran :: "(pdb \<Rightarrow> pdb \<Rightarrow> bool) \<Rightarrow> world \<Rightarrow> world \<Rightarrow> bool" where
  "ran P w w' \<longleftrightarrow> (\<exists>new. w_trace w' = w_trace w @ new \<and> (\<forall>(a, b)\<in>set new. P a b))
     \<and> (fair P w \<longrightarrow> P\<^sup>*\<^sup>* (w_db w) (w_db w') \<and> fair P w')"

definition own :: "(pdb \<Rightarrow> pdb \<Rightarrow> bool) \<Rightarrow> (world \<Rightarrow> 'a \<times> world) \<Rightarrow> bool" where
  "own P m \<longleftrightarrow> (\<forall>w. ran P w (snd (m w)))"

lemma ran_refl: "ran P w w" and ran_fx: "ran P w (w\<lparr>w_fx := fx\<rparr>)"
  by (simp_all add: ran_def fair_def)

lemma ran_trans: "ran P w w1 \<Longrightarrow> ran P w1 w2 \<Longrightarrow> ran P w w2"
  unfolding ran_def by (fastforce intro: rtranclp_trans)

lemma ownI: "(\<And>w. ran P w (snd (m w))) \<Longrightarrow> own P m"
  by (simp add: own_def)

lemma ownD: "own P m \<Longrightarrow> m w = (r, w') \<Longrightarrow> ran P w w'"
  by (metis own_def snd_conv)

lemma own_cret: "own P (cret x)" and own_craise: "own P (craise e)" and own_clift: "own P (clift r)"
  and own_emit: "own P (emit fx)"
  by (simp_all add: own_def ran_refl ran_fx)

lemma own_cbind:
  assumes "own P m" "\<And>x. own P (f x)"
  shows "own P (cbind m f)"
proof (rule ownI)
  fix w
  obtain r w1 where m: "m w = (r, w1)" by (cases "m w")
  show "ran P w (snd (cbind m f w))"
    using ownD[OF assms(1) m] assms(2) m ran_trans by (cases r) (auto simp: cbind_def own_def)
qed

lemma own_ccatch:
  assumes "own P m" "\<And>e k. h e = Some k \<Longrightarrow> own P k"
  shows "own P (ccatch m h)"
proof (rule ownI)
  fix w
  obtain r w1 where m: "m w = (r, w1)" by (cases "m w")
  show "ran P w (snd (ccatch m h w))"
  proof (cases r)
    case (Inl e)
    then show ?thesis
      using ownD[OF assms(1) m] assms(2)[of e] m ran_trans by (cases "h e") (auto simp: ccatch_def own_def)
  qed (use ownD[OF assms(1) m] m in \<open>simp add: ccatch_def\<close>)
qed

lemma settle_fair: "fair P w \<Longrightarrow> P\<^sup>*\<^sup>* (w_db w) (w_db (settle w)) \<and> fair P (settle w)"
  by (cases "w_script w") (simp_all add: settle_def fair_def r_into_rtranclp)

lemma settle_trace [simp]: "w_trace (settle w) = w_trace w"
  by (cases "w_script w") (simp_all add: settle_def)

lemma own_transact: "(\<And>db. P db (snd (t db))) \<Longrightarrow> own P (transact t)"
proof (rule ownI)
  fix w assume t: "\<And>db. P db (snd (t db))"
  obtain r db where d: "t (w_db (settle w)) = (r, db)" by (cases "t (w_db (settle w))")
  have "P (w_db (settle w)) db" using t[of "w_db (settle w)"] d by simp
  then show "ran P w (snd (transact t w))"
    using settle_fair[of P w] d unfolding ran_def
    by (auto simp: transact_def fair_def intro: rtranclp.rtrancl_into_rtrancl)
qed

lemma own_git: "own P (run_git env argv)" and own_tick: "own P (post_action_tick env)"
  and own_stop: "own P (emit_coolant_stop env pl ph t)" and own_emit_if: "own P (emit_if b fx)"
  by (auto simp: run_git_def post_action_tick_def emit_coolant_stop_def emit_if_def
      intro!: own_cret own_craise own_emit own_cbind split: option.split if_split)

lemma own_shas: "own P (verify_commit_shas env dir shas)"
proof (induction shas)
  case Nil
  show ?case by (subst verify_commit_shas.simps(1)) (rule own_cret)
qed (auto intro!: own_cret own_cbind own_git)

lemma own_resolve: "own P (resolve_ref env dir ref)" and own_diff: "own P (compute_phase_diff env dir base)"
  by (auto simp: resolve_ref_def compute_phase_diff_def Let_def intro!: own_cret own_cbind own_git)

lemma own_translate: "own P m \<Longrightarrow> own P (translate_claim_mismatch m)"
  unfolding translate_claim_mismatch_def by (rule own_ccatch) (auto intro: own_cret split: pyerr.splits)

lemma own_bounded: "(\<And>db. P db (snd (locked (ce_busy env) t db))) \<Longrightarrow> own P (bounded env t)"
  unfolding bounded_def by (rule own_ccatch) (auto intro!: own_cret own_cbind own_transact split: if_splits)

lemma own_maybe: "own P (maybe_cleanup_worktree env trigger b d)"
proof -
  have d: "own P (resolve_default_branch env)"
    by (auto simp: resolve_default_branch_def Let_def intro!: own_cret own_cbind own_git)
  have "own P (branch_reachable_from_origin env br)" "own P (commits_ahead_of_origin env br)"
    "own P (remove_worktree_and_branch env path br x y)" for br path x y
    by (auto simp: branch_reachable_from_origin_def commits_ahead_of_origin_def remove_worktree_and_branch_def Let_def
        intro!: own_cret own_cbind own_git d split: option.split)
  then show ?thesis
    unfolding maybe_cleanup_worktree_def
    by (auto intro!: own_cret own_clift own_cbind split: option.split prod.split)
qed

lemmas own_intros = own_cret own_craise own_clift own_emit own_cbind own_git own_tick own_stop own_emit_if own_shas
  own_resolve own_diff own_translate own_maybe

lemma maybe_cleanup_slug:
  "maybe_cleanup_worktree env trigger b d w = (Inr d', w') \<Longrightarrow> d_slug d' = d_slug d"
  unfolding maybe_cleanup_worktree_def
  by (auto simp: cbind_Inr append_event_def split: option.splits if_splits prod.splits)

section \<open>A contract of the store carries over to the commands\<close>

locale store_contract =
  fixes R :: "pdb \<Rightarrow> pdb \<Rightarrow> bool" and slug :: string
  assumes R_refl: "R db db"
    and R_trans: "R db db1 \<Longrightarrow> R db1 db2 \<Longrightarrow> R db db2"
    and R_op: "op_args_ok op \<Longrightarrow> op_slug op = slug \<Longrightarrow> R db (run_op op db)"
    and R_quota: "R db (db\<lparr>t_quota := q\<rparr>)"
begin

definition obeys :: "(pdb \<Rightarrow> 'a \<times> pdb) \<Rightarrow> bool" where
  "obeys t \<longleftrightarrow> (\<forall>db. R db (snd (t db)))"

abbreviation follows :: "(world \<Rightarrow> 'a \<times> world) \<Rightarrow> bool" where
  "follows m \<equiv> own R m"

lemma f_transact: "obeys t \<Longrightarrow> follows (transact t)"
  by (rule own_transact) (simp add: obeys_def)

lemma follows_run: "follows m \<Longrightarrow> fair R w \<Longrightarrow> m w = (r, w') \<Longrightarrow> R (w_db w) (w_db w')"
proof -
  have "R\<^sup>*\<^sup>* db db' \<Longrightarrow> R db db'" for db db'
    by (induction rule: rtranclp_induct) (auto intro: R_refl R_trans)
  then show "follows m \<Longrightarrow> fair R w \<Longrightarrow> m w = (r, w') \<Longrightarrow> R (w_db w) (w_db w')"
    using ownD ran_def by metis
qed

lemma f_read_plan: "follows (read_plan s)"
  unfolding read_plan_def by (rule f_transact) (simp add: obeys_def R_refl)

lemma obeys_locked: "obeys t \<Longrightarrow> obeys (locked b t)"
  by (simp add: obeys_def locked_def fail_def R_refl)

lemma obeys_ops:
  "obeys (op_heartbeat now slug token phase)"
  "obeys (op_activity busy now slug token phase action)"
  "distinct (map fst flds) \<Longrightarrow> obeys (op_stamp_claim_fields slug token flds ph u evs)"
  "obeys (op_append_events slug evs tk ph)"
  "obeys (op_release_claim slug tk ph evs)"
  "obeys (op_stamp_attestation now slug tk ph kind sha evs)"
  "obeys (op_refuse_attestation now slug phase gate sha)"
  "obeys (op_extend_lease now slug phase mins)"
  "obeys (op_add_blocker now slug phase q os c ty tk ph)"
  "obeys (op_spawn_task now slug task status tk ph)"
  "obeys (op_complete_task now slug task_id tk ph evs)"
  "obeys (op_set_status slug status evs tk ph)"
  "obeys (op_set_fields slug flds remove evs)"
  unfolding obeys_def
  using R_op[of "OpHeartbeat now slug token phase"] R_op[of "OpActivity busy now slug token phase action"]
    R_op[of "OpStampClaim slug token flds ph u evs"] R_op[of "OpAppendEvents slug evs tk ph"]
    R_op[of "OpReleaseClaim slug tk ph evs"] R_op[of "OpStampAttestation now slug tk ph kind sha evs"]
    R_op[of "OpRefuseAttestation now slug phase gate sha"] R_op[of "OpExtendLease now slug phase mins"]
    R_op[of "OpAddBlocker now slug phase q os c ty tk ph"] R_op[of "OpSpawnTask now slug task status tk ph"]
    R_op[of "OpCompleteTask now slug task_id tk ph evs"] R_op[of "OpSetStatus slug status evs tk ph"]
    R_op[of "OpSetFields slug flds remove evs"]
  by simp_all

lemma obeys_quota:
  "obeys (\<lambda>db. case record_quota_death zs now qm p t db of (until, evs, db') \<Rightarrow> (g until evs, db'))"
  by (auto simp: obeys_def record_quota_death_def record_quota_pause_def Let_def intro: R_quota split: prod.split)

lemmas follows_intros = own_intros f_transact f_read_plan obeys_locked

lemmas command_splits = option.split prod.split if_split sum.split jval.split list.split

lemma f_bounded: "obeys t \<Longrightarrow> follows (bounded env t)"
  by (rule own_bounded) (meson obeys_def obeys_locked)

lemma f_cleanup:
  assumes d: "d_slug d = slug"
  shows "follows (cleanup_after env trigger d)"
proof (rule ownI)
  fix w
  obtain r w1 where m: "maybe_cleanup_worktree env trigger True d w = (r, w1)" by fastforce
  show "ran R w (snd (cleanup_after env trigger d w))"
  proof (cases r)
    case (Inr d')
    then have slug: "d_slug d' = slug" using maybe_cleanup_slug m d by simp
    have p: "follows (persist_worktree_cleanup d' (length (d_events d)) [])"
      unfolding persist_worktree_cleanup_def Let_def slug
      by (auto intro!: follows_intros obeys_ops)
    then have "ran R w1 (snd (persist_worktree_cleanup d' (length (d_events d)) [] w1))" by (simp add: own_def)
    then show ?thesis using ran_trans[OF ownD[OF own_maybe m]] m Inr by (simp add: cleanup_after_def cbind_def)
  qed (use ownD[OF own_maybe m] m in \<open>simp add: cleanup_after_def cbind_def\<close>)
qed

lemmas command_intros = follows_intros obeys_ops f_bounded

lemma f_operator:
  "follows (cmd_pause env slug reason)" "follows (cmd_resume env slug)" "follows (cmd_retry env slug phase)"
  "follows (cmd_release_claim env slug force reason reset)"
  by (auto simp: cmd_pause_def cmd_resume_def cmd_retry_def cmd_release_claim_def
      intro!: command_intros split: command_splits)

lemma f_extend: "follows (cmd_extend_lease env slug mins)"
  unfolding cmd_extend_lease_def
  by (auto intro!: command_intros own_ccatch split: command_splits pyerr.splits)

lemma f_tasks:
  "follows (cmd_spawn env slug token phase source title description)"
  "follows (cmd_task_done env slug task_id token force commits)"
  by (auto simp: cmd_spawn_def cmd_task_done_def intro!: command_intros split: command_splits)

lemma f_worker:
  "follows (cmd_heartbeat env slug token phase)" "follows (cmd_activity env slug token phase a b)"
  "follows (cmd_quiet_span env slug token phase rq)" "follows (cmd_block env slug token phase q os c ty)"
  "follows (cmd_verify env slug token phase)" "follows (cmd_attest env slug token phase b)"
  "follows (cmd_notify_heartbeat_failure env slug token phase log_path)"
  by (auto simp: cmd_heartbeat_def cmd_activity_def cmd_quiet_span_def cmd_block_def cmd_verify_def cmd_attest_def
      cmd_notify_heartbeat_failure_def intro!: command_intros split: command_splits bool.split)

lemma f_dead: "follows (cmd_notify_worker_dead env slug token phase)"
proof -
  have c: "follows (classify_death env token phase claim)" for claim
    by (auto simp: classify_death_def intro!: command_intros obeys_quota split: command_splits)
  have r: "follows (ccatch (cbind (read_plan slug) (\<lambda>d. cret (Some d))) (\<lambda>e. if unreadable e then Some (cret None) else None))"
    by (rule own_ccatch) (auto intro!: command_intros split: if_splits)
  show ?thesis
    by (auto simp: cmd_notify_worker_dead_def Let_def intro!: command_intros c r split: command_splits)
qed

lemma f_gates: "follows (quality_gates env slug phase sv ss d)"
proof -
  have r: "follows (refuse_gate env slug phase gate head)" for gate head
    by (auto simp: refuse_gate_def emit_if_def intro!: command_intros split: command_splits)
  show ?thesis
    by (auto simp: quality_gates_def verify_gate_def simplify_gate_def Let_def intro!: command_intros r split: command_splits)
qed

definition mine :: "doc \<Rightarrow> bool" where
  "mine d \<longleftrightarrow> d_slug d = slug"

lemma mine_update [simp]: "mine (d\<lparr>d_claim := c\<rparr>) = mine d" "mine (d\<lparr>d_events := e\<rparr>) = mine d"
  by (simp_all add: mine_def)

lemma f_read_then:
  assumes "\<And>d. mine d \<Longrightarrow> follows (f d)"
  shows "follows (cbind (read_plan slug) f)"
proof (rule ownI)
  fix w
  obtain r w1 where m: "read_plan slug w = (r, w1)" by fastforce
  show "ran R w (snd (cbind (read_plan slug) f w))"
  proof (cases r)
    case (Inr d)
    then have "mine d" using m by (auto simp: read_plan_run mine_def dest: snapshot_slug)
    then show ?thesis
      using assms ownD[OF f_read_plan m] m Inr ran_trans by (auto simp: cbind_def own_def)
  qed (use ownD[OF f_read_plan m] m in \<open>simp add: cbind_def\<close>)
qed

lemma f_mine_cleanup: "mine d \<Longrightarrow> follows (cleanup_after env trigger d)"
  unfolding mine_def by (rule f_cleanup)

lemma f_complete: "follows (cmd_complete env slug token phase commits sv ss)"
  by (auto simp: cmd_complete_def intro!: f_read_then f_mine_cleanup command_intros f_gates split: command_splits)

lemma f_force: "follows (cmd_force_complete env slug phase commits reason really)"
  by (auto simp: cmd_force_complete_def Let_def intro!: f_read_then f_mine_cleanup command_intros split: command_splits)

lemma command_follows: "follows (run_command env slug c)"
  by (cases c) (auto simp: run_command_def dispatchers_def
      intro!: own_cret f_operator f_extend f_tasks f_worker f_dead f_complete f_force split: sum.split)

end

section \<open>The two contracts\<close>

text \<open>The invariant is kept and every history only grows at its end, with fresh ids.\<close>

definition store_grows :: "pdb \<Rightarrow> pdb \<Rightarrow> bool" where
  "store_grows db db' \<longleftrightarrow> (db_ok db \<longrightarrow> db_ok db' \<and> (\<forall>s. history_grows db db' s) \<and> t_seq db \<le> t_seq db')"

definition frames :: "string \<Rightarrow> pdb \<Rightarrow> pdb \<Rightarrow> bool" where
  "frames slug db db' \<longleftrightarrow> (db_ok db \<longrightarrow> db_ok db' \<and> (\<forall>s. s \<noteq> slug \<longrightarrow> same_plan s db db'))"

lemma quota_row_ok: "db_ok (db\<lparr>t_quota := q\<rparr>) = db_ok db" "history (db\<lparr>t_quota := q\<rparr>) s = history db s"
  "same_plan s db (db\<lparr>t_quota := q\<rparr>)"
proof -
  have h: "history (db\<lparr>t_quota := q\<rparr>) s = history db s" "plan_events (db\<lparr>t_quota := q\<rparr>) s = plan_events db s" for s
    by (simp_all add: history_def plan_events_def)
  then show "db_ok (db\<lparr>t_quota := q\<rparr>) = db_ok db" "history (db\<lparr>t_quota := q\<rparr>) s = history db s"
    "same_plan s db (db\<lparr>t_quota := q\<rparr>)"
    by (simp_all add: db_ok_def plans_ok_def claims_ok_def events_ok_def same_plan_def)
qed

interpretation command_log: store_contract store_grows slug for slug
proof
  fix db db1 db2 q op
  show "store_grows db db" by (simp add: store_grows_def history_grows_def)
  show "store_grows db db2" if "store_grows db db1" "store_grows db1 db2"
    using that unfolding store_grows_def by (meson history_grows_trans order_trans)
  show "store_grows db (run_op op db)" if "op_args_ok op"
    using run_op_grows[OF _ that] by (auto simp: store_grows_def grows_ok_def)
  show "store_grows db (db\<lparr>t_quota := q\<rparr>)"
    by (simp add: store_grows_def history_grows_def quota_row_ok)
qed

interpretation command_frame: store_contract "frames slug" slug for slug
proof
  fix db db1 db2 q op
  show "frames slug db db" by (simp add: frames_def)
  show "frames slug db db2" if "frames slug db db1" "frames slug db1 db2"
    using that unfolding frames_def by (meson same_plan_trans)
  show "frames slug db (run_op op db)" if "op_args_ok op" "op_slug op = slug"
    using run_op_grows[OF _ that(1)] that(2) by (auto simp: frames_def grows_ok_def)
  show "frames slug db (db\<lparr>t_quota := q\<rparr>)"
    by (simp add: frames_def quota_row_ok)
qed


end
