(* ===== verification/Cmd_Worker.thy ===== *)
theory Cmd_Worker
  imports Cmd_Frame
begin

text \<open>
  What the worker's commands promise: a phase is completed only through the quality gates and
  only by the holder of the claim, a question and the release of its phase are one write, a
  death report releases only the claim it is about, and a refused command writes nothing.
\<close>

section \<open>Events as they are read back\<close>

definition proper_event :: "obj \<Rightarrow> bool" where
  "proper_event e \<longleftrightarrow> distinct (map fst e) \<and> dget e ''ts'' \<notin> {None, Some (JBool True), Some (JBool False)}
     \<and> dget e ''type'' \<notin> {None, Some (JBool True), Some (JBool False)}"

definition reads_as :: "obj \<Rightarrow> obj \<Rightarrow> bool" where
  "reads_as e x \<longleftrightarrow> (\<forall>k. k \<noteq> ''id'' \<longrightarrow> dget x k = dget e k)"

lemma mk_event_proper:
  "distinct (map fst flds) \<Longrightarrow> set (map fst flds) \<inter> {''ts'', ''type''} = {} \<Longrightarrow> proper_event (mk_event now ty flds)"
  by (auto simp: proper_event_def mk_event_def iso_def)

lemma inserted_event_reads:
  assumes "proper_event e"
  shows "\<exists>x. read_events (insert_event slug db e) slug = read_events db slug @ [x] \<and> reads_as e x"
proof -
  let ?r = "\<lparr>er_id = t_seq db + 1, er_slug = slug, er_ts = sql_scalar (jget e ''ts''),
            er_type = sql_scalar (jget e ''type''), er_payload = event_payload e\<rparr>"
  have "dget (event_from_row ?r) k = dget e k" if "k \<noteq> ''id''" for k
    using assms that
    by (intro event_roundtrip) (auto simp: proper_event_def split: option.splits jval.splits)
  then show ?thesis by (simp add: read_events_def reads_as_def)
qed

lemma inserted_events_read:
  "list_all proper_event evs \<Longrightarrow>
     \<exists>new. read_events (insert_events slug evs db) slug = read_events db slug @ new \<and> list_all2 reads_as evs new"
proof (induction evs arbitrary: db)
  case (Cons e evs)
  from inserted_event_reads[of e slug db] Cons.prems obtain x where
    x: "read_events (insert_event slug db e) slug = read_events db slug @ [x]" "reads_as e x" by auto
  from Cons.IH[of "insert_event slug db e"] Cons.prems obtain new where
    "read_events (insert_events slug evs (insert_event slug db e)) slug = read_events (insert_event slug db e) slug @ new"
    "list_all2 reads_as evs new" by auto
  then show ?case using x by (intro exI[of _ "x # new"]) (simp add: insert_events_def)
qed (simp add: insert_events_def)

lemma reads_as_is: "reads_as e x \<Longrightarrow> k \<noteq> ''id'' \<Longrightarrow> dget x k = dget e k"
  by (simp add: reads_as_def)

lemma completed_read:
  assumes "list_all proper_event evs" "e \<in> set evs" "ev_is EVENT_PHASE_COMPLETED e" "ev_phase p e"
  shows "JStr p \<in> set (completed_phase_ids (read_events (insert_events slug evs db) slug))"
proof -
  obtain new where n: "read_events (insert_events slug evs db) slug = read_events db slug @ new" "list_all2 reads_as evs new"
    using inserted_events_read[OF assms(1)] by blast
  from assms(2) n(2) obtain x where "x \<in> set new" "reads_as e x"
    by (metis in_set_conv_nth list_all2_conv_all_nth)
  then show ?thesis using assms(3,4) n(1)
    by (auto simp: completed_phase_ids_def reads_as_def image_iff intro!: bexI[of _ x])
qed

section \<open>A release that is accepted\<close>

definition released_db :: "string \<Rightarrow> obj list \<Rightarrow> pdb \<Rightarrow> pdb" where
  "released_db slug evs db = insert_events slug evs (delete_claim slug (update_plan slug bump_version db))"

lemma release_op_Inr:
  "op_release_claim slug tk ph evs db = (Inr c, db') \<Longrightarrow> db' = released_db slug evs db \<and> c = read_claim db slug"
  by (auto simp: op_release_claim_def plan_txn_Inr andthen_Inr release_in_txn_def modify_def ret_def Let_def released_db_def
      split: if_splits)

lemma release_accepted:
  assumes "db_ok db" "op_release_claim slug (Some t) (Some p) evs db = (Inr c, db')"
  shows "holder db slug = Some (JStr t, JStr p) \<and> db' = released_db slug evs db"
proof -
  have "\<exists>e. op_release_claim slug (Some t) (Some p) evs db = (Inl e, db)" if "holder db slug \<noteq> Some (JStr t, JStr p)"
    unfolding op_release_claim_def by (rule refuses_plan_txn[OF _ assms(1) that]) auto
  then show ?thesis using assms(2) release_op_Inr[OF assms(2)] by fastforce
qed

lemma released_unheld [simp]: "holder (released_db slug evs db) slug = None"
  by (simp add: released_db_def holder_def claim_row_of_def delete_claim_def)

section \<open>Commands that only read\<close>

text \<open>A part of a command that ran without a transaction.\<close>

definition idle :: "world \<Rightarrow> world \<Rightarrow> bool" where
  "idle w w' \<longleftrightarrow> w_db w' = w_db w \<and> w_script w' = w_script w"

lemma idle_refl [simp]: "idle w w" and idle_fx [simp]: "idle w (w\<lparr>w_fx := fx\<rparr>)"
  and idle_tr [simp]: "idle w (w\<lparr>w_trace := tr\<rparr>)"
  and idle_trans: "idle w w1 \<Longrightarrow> idle w1 w2 \<Longrightarrow> idle w w2"
  by (simp_all add: idle_def)

lemma idle_settle: "idle w w' \<Longrightarrow> w_db (settle w') = w_db (settle w) \<and> w_script (settle w') = w_script (settle w)"
  by (simp add: idle_def settle_def split: list.split)

lemma git_idle: "run_git env argv w = (r, w') \<Longrightarrow> idle w w'"
  by (auto simp: run_git_def cbind_def split: option.splits)

lemma emit_if_idle: "emit_if b fx w = (r, w') \<Longrightarrow> idle w w' \<and> r = Inr ()"
  by (auto simp: emit_if_def split: if_splits)

lemma coolant_idle: "emit_coolant_stop env p ph t w = (r, w') \<Longrightarrow> idle w w' \<and> r = Inr ()"
  and tick_idle: "post_action_tick env w = (r, w') \<Longrightarrow> idle w w' \<and> r = Inr ()"
  unfolding emit_coolant_stop_def post_action_tick_def by (erule emit_if_idle)+

definition git_ok :: "cmd_env \<Rightarrow> string list \<Rightarrow> bool" where
  "git_ok env argv \<longleftrightarrow> (\<exists>p. ce_git env argv = Some p \<and> p_rc p = 0)"

lemma git_answer: "run_git env argv w = (Inr p, w') \<Longrightarrow> ce_git env argv = Some p"
  by (auto simp: run_git_def cbind_def split: option.splits)

text \<open>The answer to \<open>rev-parse HEAD\<close> in the claim's git root, empty when there is none.\<close>

definition head_of :: "cmd_env \<Rightarrow> doc \<Rightarrow> string" where
  "head_of env d =
     (case ce_git env [''-C'', git_root_of env d, ''rev-parse'', ''--verify'', ''HEAD^{commit}''] of
        Some p \<Rightarrow> if p_rc p = 0 then strip (p_out p) else []
      | None \<Rightarrow> [])"

definition diff_of :: "cmd_env \<Rightarrow> doc \<Rightarrow> string \<Rightarrow> nat \<times> int" where
  "diff_of env d base =
     (case ce_git env [''-C'', git_root_of env d, ''diff'', ''--numstat'', base @ ''..HEAD''] of
        Some p \<Rightarrow> if p_rc p \<noteq> 0 \<or> strip (p_out p) = [] then (0, 0)
                   else fold numstat_line (split_lines (strip (p_out p))) (0, 0)
      | None \<Rightarrow> (0, 0))"

lemma resolve_head:
  "resolve_ref env (git_root_of env d) ''HEAD'' w = (Inr h, w') \<Longrightarrow>
     idle w w' \<and> (case h of None \<Rightarrow> [] | Some s \<Rightarrow> s) = head_of env d"
  by (auto simp: resolve_ref_def cbind_Inr head_of_def split: option.splits dest: git_idle git_answer)

lemma phase_diff:
  "compute_phase_diff env (git_root_of env d) base w = (Inr fl, w') \<Longrightarrow> idle w w' \<and> diff_of env d base = fl"
  by (auto simp: compute_phase_diff_def cbind_Inr diff_of_def Let_def dest: git_idle git_answer)

lemma shas_verified:
  "verify_commit_shas env dir shas w = (Inr None, w') \<Longrightarrow>
     idle w w' \<and> (\<forall>sha\<in>set shas. git_ok env [''-C'', dir, ''cat-file'', ''-e'', sha])"
proof (induction shas arbitrary: w)
  case (Cons sha shas)
  from Cons.prems obtain p w1 where p: "run_git env [''-C'', dir, ''cat-file'', ''-e'', sha] w = (Inr p, w1)"
    "p_rc p = 0" "verify_commit_shas env dir shas w1 = (Inr None, w')"
    by (auto simp: cbind_Inr split: if_splits)
  then show ?case using Cons.IH git_idle[OF p(1)] git_answer[OF p(1)] by (auto simp: git_ok_def intro: idle_trans)
qed simp

section \<open>Completion\<close>

definition too_big :: "cmd_env \<Rightarrow> nat \<times> int \<Rightarrow> bool" where
  "too_big env fl \<longleftrightarrow> int (fst fl) > fst (simplify_threshold_or_default (ce_cfg env))
     \<or> snd fl > snd (simplify_threshold_or_default (ce_cfg env))"

definition stamped :: "doc \<Rightarrow> string \<Rightarrow> string \<Rightarrow> bool" where
  "stamped d gate sha \<longleftrightarrow> attestation_commit_sha (d_claim d) gate = JStr sha"

lemma gates_pass:
  assumes "quality_gates env slug phase sv ss d w = (Inr None, w')" "d_claim d = Some claim"
  shows "idle w w' \<and> (cc_verify_required (ce_cfg env) \<and> \<not> sv \<longrightarrow> stamped d ATTESTATION_VERIFY (head_of env d))
    \<and> (\<not> ss \<and> claim_base_sha claim d \<noteq> [] \<and> too_big env (diff_of env d (claim_base_sha claim d))
         \<longrightarrow> stamped d ATTESTATION_SIMPLIFY (head_of env d))"
proof (cases "(sv \<or> \<not> cc_verify_required (ce_cfg env)) \<and> ss")
  case True
  then show ?thesis using assms(1) by (auto simp: quality_gates_def split: if_splits)
next
  case False
  have no: "refuse_gate env slug phase gate head w = (Inr None, w1) \<Longrightarrow> Q" for gate head w w1 Q
    by (auto simp: refuse_gate_def cbind_Inr)
  let ?hd = "\<lambda>h. case h of None \<Rightarrow> [] | Some s \<Rightarrow> s"
  from assms(1) False obtain h w1 where r: "resolve_ref env (git_root_of env d) ''HEAD'' w = (Inr h, w1)" and
    g: "cbind (if \<not> sv \<and> cc_verify_required (ce_cfg env) then verify_gate env slug phase d (?hd h) else cret None)
          (\<lambda>refused. if refused \<noteq> None then cret refused else if ss then cret None
            else simplify_gate env slug phase d (?hd h)) w1 = (Inr None, w')"
    by (auto simp: quality_gates_def Let_def cbind_Inr)
  have h: "idle w w1" "?hd h = head_of env d" using resolve_head[OF r] by simp_all
  from g obtain w2 where
    v: "(if \<not> sv \<and> cc_verify_required (ce_cfg env) then verify_gate env slug phase d (head_of env d) else cret None) w1
          = (Inr None, w2)" and
    s: "(if ss then cret None else simplify_gate env slug phase d (head_of env d)) w2 = (Inr None, w')"
    unfolding h(2) by (subst (asm) cbind_Inr) (auto split: if_splits)
  have "idle w1 w2 \<and> (cc_verify_required (ce_cfg env) \<and> \<not> sv \<longrightarrow> stamped d ATTESTATION_VERIFY (head_of env d))"
    using v by (auto simp: verify_gate_def stale_stamp_def stamped_def split: if_splits elim: no)
  moreover have "idle w2 w' \<and> (\<not> ss \<and> claim_base_sha claim d \<noteq> [] \<and> too_big env (diff_of env d (claim_base_sha claim d))
         \<longrightarrow> stamped d ATTESTATION_SIMPLIFY (head_of env d))"
    using s assms(2)
    by (auto simp: simplify_gate_def Let_def cbind_Inr too_big_def stale_stamp_def stamped_def split: if_splits
        dest!: phase_diff elim: no) 
  ultimately show ?thesis using h(1) by (meson idle_trans)
qed

text \<open>The database a command reads first, and the one its next transaction finds.\<close>

definition at_read :: "world \<Rightarrow> pdb" where
  "at_read w = w_db (settle w)"

definition at_write :: "world \<Rightarrow> pdb" where
  "at_write w = w_db (settle (settle w))"

lemma idle_reads: "idle w w' \<Longrightarrow> at_read w' = at_read w" "idle w w' \<Longrightarrow> at_write w' = at_write w"
  "idle (settle w) w' \<Longrightarrow> at_read w' = at_write w"
  using idle_settle[of w w'] idle_settle[of "settle w" w'] idle_settle[of "settle w" "settle w'"]
  by (simp_all add: at_read_def at_write_def idle_def)

lemma completion_proper: "list_all proper_event (completion_events env phase commits sv ss)"
  by (auto simp: completion_events_def intro!: mk_event_proper)

lemma completion_done:
  "JStr phase \<in> set (completed_phase_ids (read_events (released_db slug (completion_events env phase commits sv ss) db) slug))"
  unfolding released_db_def
  by (rule completed_read[OF completion_proper, of "mk_event (ce_now env) EVENT_PHASE_COMPLETED
      [(''phase'', JStr phase), (''commits'', JList (map JStr commits))]"])
    (simp_all add: completion_events_def mk_event_def)

lemma translate_OK: "translate_claim_mismatch m w = (Inr OK, w') \<longleftrightarrow> m w = (Inr OK, w')"
  by (auto simp: translate_claim_mismatch_def ccatch_def split: prod.splits sum.splits option.splits pyerr.splits)

lemma transact_release:
  assumes "transact (op_release_claim slug (Some t) (Some p) evs) w = (Inr c, w')" "db_ok (at_read w)"
  shows "holder (at_read w) slug = Some (JStr t, JStr p) \<and> w_db w' = released_db slug evs (at_read w)
    \<and> w_fx w' = w_fx w \<and> w_script w' = w_script (settle w)"
  using assms release_accepted[of "at_read w"] by (auto simp: transact_run at_read_def)

lemma gates_refuse: "quality_gates env slug phase sv ss d w = (Inr (Some code), w') \<Longrightarrow> code = STATUS_TRANSITION"
  by (auto simp: quality_gates_def verify_gate_def simplify_gate_def refuse_gate_def Let_def cbind_Inr split: if_splits)

definition after_completion :: "cmd_env \<Rightarrow> string \<Rightarrow> string \<Rightarrow> string \<Rightarrow> doc \<Rightarrow> exit_code cmd" where
  "after_completion env slug phase token d =
     cbind (emit_coolant_stop env slug phase token) (\<lambda>_.
     cbind (if worktree_record d \<noteq> None then cbind (read_plan slug) (cleanup_after env ''complete'') else cret ()) (\<lambda>_.
     cbind (post_action_tick env) (\<lambda>_. cret OK)))"

lemma complete_stages:
  assumes "cmd_complete env slug token phase commits sv ss w = (Inr OK, w')"
  obtains w1 w2 d w3 cl w4 where
    "verify_commit_shas env (cc_root (ce_cfg env)) commits w = (Inr None, w1)" "idle (settle w1) w2"
    "snapshot (at_read w1) slug = Inr d" "assert_claim_match (d_claim d) token phase = Inr ()"
    "quality_gates env slug phase sv ss d w2 = (Inr None, w3)"
    "transact (op_release_claim slug (Some token) (Some phase) (completion_events env phase commits sv ss)) w3 = (Inr cl, w4)"
    "after_completion env slug phase token d w4 = (Inr OK, w')"
proof -
  let ?op = "op_release_claim slug (Some token) (Some phase) (completion_events env phase commits sv ss)"
  let ?finish = "after_completion env slug phase token"
  let ?go = "\<lambda>d. cbind (clift (assert_claim_match (d_claim d) token phase)) (\<lambda>_.
         cbind (quality_gates env slug phase sv ss d) (\<lambda>refused.
         case refused of Some code \<Rightarrow> cret code | None \<Rightarrow> cbind (transact ?op) (\<lambda>_. ?finish d)))"
  have "cbind (verify_commit_shas env (cc_root (ce_cfg env)) commits) (\<lambda>bad.
       if bad \<noteq> None then cret BAD_SHA else cbind (read_plan slug) ?go) w = (Inr OK, w')"
    using assms unfolding cmd_complete_def translate_OK after_completion_def .
  then obtain bad w1 where b: "verify_commit_shas env (cc_root (ce_cfg env)) commits w = (Inr bad, w1)"
    "(if bad \<noteq> None then cret BAD_SHA else cbind (read_plan slug) ?go) w1 = (Inr OK, w')"
    by (rule cbindE)
  then have 1: "verify_commit_shas env (cc_root (ce_cfg env)) commits w = (Inr None, w1)"
    and "cbind (read_plan slug) ?go w1 = (Inr OK, w')" by (auto split: if_splits)
  from this(2) obtain d w2 where "read_plan slug w1 = (Inr d, w2)" "?go d w2 = (Inr OK, w')" by (rule cbindE)
  then have d: "snapshot (w_db (settle w1)) slug = Inr d" and w2: "idle (settle w1) w2" and "?go d w2 = (Inr OK, w')"
    by (simp_all add: read_plan_run)
  from this(3) obtain u w3 where "clift (assert_claim_match (d_claim d) token phase) w2 = (Inr u, w3)" and
    "cbind (quality_gates env slug phase sv ss d) (\<lambda>refused.
         case refused of Some code \<Rightarrow> cret code | None \<Rightarrow> cbind (transact ?op) (\<lambda>_. ?finish d)) w3 = (Inr OK, w')"
    by (rule cbindE)
  then have m: "assert_claim_match (d_claim d) token phase = Inr ()" and w3: "w3 = w2" and
    "cbind (quality_gates env slug phase sv ss d) (\<lambda>refused.
         case refused of Some code \<Rightarrow> cret code | None \<Rightarrow> cbind (transact ?op) (\<lambda>_. ?finish d)) w3 = (Inr OK, w')"
    by simp_all
  from this(3) obtain refused w4 where g: "quality_gates env slug phase sv ss d w3 = (Inr refused, w4)" and
    q: "(case refused of Some code \<Rightarrow> cret code | None \<Rightarrow> cbind (transact ?op) (\<lambda>_. ?finish d)) w4 = (Inr OK, w')"
    by (rule cbindE)
  have "refused = None" using q gates_refuse[of env slug phase sv ss d w3 _ w4] g by (cases refused) auto
  then obtain cl w5 where "transact ?op w4 = (Inr cl, w5)" "?finish d w5 = (Inr OK, w')" using q by (auto elim: cbindE)
  then show thesis using that 1 w2 d m g \<open>refused = None\<close> w3 by (simp add: at_read_def)
qed


section \<open>Claims of others\<close>

text \<open>The token and the phase a worker's command carries.\<close>

fun worker_call :: "command \<Rightarrow> (string \<times> string) option" where
  "worker_call (Spawn t p _ _ _) = Some (t, p)"
| "worker_call (Complete t p _ _ _) = Some (t, p)"
| "worker_call (Heartbeat t p) = Some (t, p)"
| "worker_call (Activity t p _ _) = Some (t, p)"
| "worker_call (QuietSpan t p _) = Some (t, p)"
| "worker_call (Block t p _ _ _ _) = Some (t, p)"
| "worker_call (Verify t p) = (if t = [] then None else Some (t, p))"
| "worker_call (Attest t p _) = Some (t, p)"
| "worker_call (NotifyHeartbeatFailure t p _) = Some (t, p)"
| "worker_call (NotifyWorkerDead t p) = Some (t, p)"
| "worker_call _ = None"

text \<open>A transaction changes the claims only where it found the claim held by the caller.\<close>

definition own_claim_only :: "string \<Rightarrow> string \<Rightarrow> string \<Rightarrow> pdb \<Rightarrow> pdb \<Rightarrow> bool" where
  "own_claim_only slug t p a b \<longleftrightarrow>
     (db_ok a \<and> holder a slug \<noteq> Some (JStr t, JStr p) \<longrightarrow> t_claims b = t_claims a)"

lemma plan_txn_claims:
  assumes "\<And>db. t_claims (snd (m db)) = t_claims db"
  shows "t_claims (snd (plan_txn slug m db)) = t_claims db"
proof (cases "plan_txn slug m db")
  case (Pair r db')
  show ?thesis
  proof (cases r)
    case (Inr x)
    then have "m (update_plan slug bump_version db) = (Inr x, db')" using Pair by (simp add: plan_txn_Inr)
    then show ?thesis using assms[of "update_plan slug bump_version db"] Pair by (simp add: update_plan_def)
  qed (use Pair in \<open>auto dest: plan_txn_Inl\<close>)
qed

lemma refused_own: "refuses slug t p m \<Longrightarrow> own_claim_only slug t p db (snd (plan_txn slug m db))"
  unfolding own_claim_only_def using refuses_plan_txn by fastforce

lemma own_claim_ops:
  "own_claim_only slug t p db (snd (op_heartbeat now slug t p db))"
  "own_claim_only slug t p db (snd (op_stamp_claim_fields slug t flds (Some p) u evs db))"
  "own_claim_only slug t p db (snd (op_release_claim slug (Some t) (Some p) evs db))"
  "own_claim_only slug t p db (snd (op_stamp_attestation now slug (Some t) (Some p) kind sha evs db))"
  "own_claim_only slug t p db (snd (op_spawn_task now slug task st (Some t) (Some p) db))"
  "own_claim_only slug t p db (snd (op_add_blocker now slug ph q os c ty (Some t) (Some p) db))"
  by (auto simp: op_heartbeat_def op_stamp_claim_fields_def op_release_claim_def op_stamp_attestation_def
      op_spawn_task_def op_add_blocker_def intro!: refused_own)

lemma own_claim_free:
  "own_claim_only slug t p db (snd (op_set_fields s flds remove evs db))"
  "own_claim_only slug t p db (snd (op_refuse_attestation now s ph gate sha db))"
proof -
  have "t_claims (snd (op_set_fields s flds remove evs db)) = t_claims db"
    unfolding op_set_fields_def
    by (intro plan_txn_claims)
      (simp add: andthen_def modify_def set_head_fields_def update_plan_def split: option.split sum.split)
  then show "own_claim_only slug t p db (snd (op_set_fields s flds remove evs db))" by (simp add: own_claim_only_def)
  have "t_claims (snd (op_refuse_attestation now s ph gate sha db)) = t_claims db"
    unfolding op_refuse_attestation_def by (intro plan_txn_claims) (simp add: Let_def)
  then show "own_claim_only slug t p db (snd (op_refuse_attestation now s ph gate sha db))" by (simp add: own_claim_only_def)
qed

lemma own_claim_activity:
  assumes "a = ''start'' \<or> a = ''end''"
  shows "own_claim_only slug t p db (snd (op_activity busy now slug t p a db))"
proof (cases busy)
  case True
  then show ?thesis by (simp add: own_claim_only_def op_activity_def locked_def fail_def)
next
  case False
  then show ?thesis using refuses_activity[of db slug t p a now] assms by (auto simp: own_claim_only_def)
qed

lemma own_claim_refl: "own_claim_only slug t p db db"
  by (simp add: own_claim_only_def)

lemma own_claim_locked: "(\<And>db. own_claim_only slug t p db (snd (m db))) \<Longrightarrow> own_claim_only slug t p db (snd (locked b m db))"
  by (simp add: locked_def fail_def own_claim_refl)

lemmas own_claim = own_claim_ops own_claim_free own_claim_activity own_claim_refl own_claim_locked

lemma own_claim_read: "own (own_claim_only slug t p) (read_plan s)"
  unfolding read_plan_def by (rule own_transact) (simp add: own_claim_refl)

lemma own_claim_transact: "(\<And>db. own_claim_only slug t p db (snd (m db))) \<Longrightarrow> own (own_claim_only slug t p) (transact m)"
  by (rule own_transact)

lemma own_claim_gates: "own (own_claim_only slug t p) (quality_gates env slug ph sv ss d)"
  by (auto simp: quality_gates_def verify_gate_def simplify_gate_def refuse_gate_def Let_def
      intro!: own_intros own_claim_transact own_claim split: option.split prod.split if_split)

lemma own_claim_cleanup: "own (own_claim_only slug t p) (cleanup_after env trigger d)"
  by (auto simp: cleanup_after_def persist_worktree_cleanup_def Let_def intro!: own_intros own_claim_transact own_claim)

lemma own_claim_quota:
  "own_claim_only slug t p db (snd (case record_quota_death zs now qm ph tk db of (until, evs, db') \<Rightarrow> (g until evs, db')))"
  by (auto simp: own_claim_only_def record_quota_death_def record_quota_pause_def Let_def split: prod.split)

lemmas worker_intros = own_intros own_claim_read own_claim_transact own_claim own_claim_gates own_claim_cleanup own_bounded

lemma worker_complete: "own (own_claim_only slug t p) (cmd_complete env slug t p commits sv ss)"
  by (auto simp: cmd_complete_def intro!: worker_intros split: option.split if_split)

lemma worker_report: "own (own_claim_only slug t p) (cmd_notify_worker_dead env slug t p)"
proof -
  have c: "own (own_claim_only slug t p) (classify_death env t p claim)" for claim
    by (auto simp: classify_death_def intro!: worker_intros own_claim_quota split: option.split)
  have r: "own (own_claim_only slug t p)
      (ccatch (cbind (read_plan slug) (\<lambda>d. cret (Some d))) (\<lambda>e. if unreadable e then Some (cret None) else None))"
    by (rule own_ccatch) (auto intro!: worker_intros split: if_splits)
  show ?thesis
    by (auto simp: cmd_notify_worker_dead_def Let_def intro!: worker_intros c r split: option.split prod.split if_split)
qed

lemma worker_others:
  "own (own_claim_only slug t p) (cmd_spawn env slug t p source title description)"
  "own (own_claim_only slug t p) (cmd_heartbeat env slug t p)"
  "own (own_claim_only slug t p) (cmd_activity env slug t p x y)"
  "own (own_claim_only slug t p) (cmd_quiet_span env slug t p rq)"
  "own (own_claim_only slug t p) (cmd_block env slug t p q os c ty)"
  "own (own_claim_only slug t p) (cmd_attest env slug t p x)"
  "own (own_claim_only slug t p) (cmd_notify_heartbeat_failure env slug t p lp)"
  "t \<noteq> [] \<Longrightarrow> own (own_claim_only slug t p) (cmd_verify env slug t p)"
  by (auto simp: cmd_spawn_def cmd_heartbeat_def cmd_activity_def cmd_quiet_span_def cmd_block_def cmd_attest_def
      cmd_notify_heartbeat_failure_def cmd_verify_def
      intro!: worker_intros split: option.split prod.split if_split sum.split list.split bool.split)

lemma worker_run:
  assumes "worker_call c = Some (t, p)"
  shows "own (own_claim_only slug t p) (run_command env slug c)"
proof -
  have "own (own_claim_only slug t p) (dispatchers env slug c)"
    using assms by (cases c) (auto simp: dispatchers_def intro: worker_complete worker_report worker_others split: if_splits)
  then show ?thesis by (auto simp: run_command_def intro: own_cret split: sum.split)
qed

text \<open>
  No worker command touches the claim of another worker. Each transaction it makes that changes the claims
  table at all found the plan held under exactly the token and the phase the command carries, in
  the database of that very transaction; so a command that comes late, after the supervisor
  has dispatched somebody else, leaves that claim alone.
\<close>

theorem worker_commands_touch_own_claim:
  assumes "worker_call c = Some (t, p)" and "run_command env slug c w = (r, w')" and "w_trace w = []"
    and "(a, b) \<in> set (w_trace w')" and "db_ok a" and "holder a slug \<noteq> Some (JStr t, JStr p)"
  shows "t_claims b = t_claims a"
  using ownD[OF worker_run[OF assms(1)] assms(2)] assms(3-6) by (auto simp: ran_def own_claim_only_def)

end
