(* ===== verification/Cmd_Block.thy ===== *)
theory Cmd_Block
  imports Cmd_Worker
begin

text \<open>
  A worker that stops to ask: the question and the release are one write. Also the daemon's
  death report and the number of tasks a phase may spawn.
\<close>

section \<open>Asking\<close>

lemma read_written_blocker:
  assumes "write_blockers slug [b] db = (Inr (), db')"
  shows "db' = db\<lparr>t_blockers := t_blockers db @ [(slug, blocker_row b)]\<rparr>"
  using assms by (auto split: if_splits)

definition asked :: "int \<Rightarrow> string \<Rightarrow> string \<Rightarrow> string \<Rightarrow> string list \<Rightarrow> string \<Rightarrow> string \<Rightarrow> obj" where
  "asked now bid phase question options context ty =
     [(''id'', JStr bid), (''phase_id'', JStr phase), (''type'', JStr ty),
              (''question'', JStr question), (''options'', JList (map JStr options)),
              (''context'', JStr context), (''asked_at'', iso now), (''answer'', JNull),
              (''answered_at'', JNull)]"

definition question_read :: "string \<Rightarrow> string \<Rightarrow> string \<Rightarrow> string list \<Rightarrow> obj \<Rightarrow> bool" where
  "question_read bid phase question options b \<longleftrightarrow>
     is_open b \<and> dget b ''id'' = Some (JStr bid) \<and> dget b ''phase_id'' = Some (JStr phase)
     \<and> dget b ''question'' = Some (JStr question) \<and> dget b ''options'' = Some (JList (map JStr options))"

lemma asked_reads: "question_read bid phase question options (read_blocker_row (blocker_row (asked now bid phase question options context ty)))"
  by (simp add: question_read_def read_blocker_row_def blocker_row_def asked_def BLOCKER_ALWAYS_def BLOCKER_OPTIONAL_def
      blocker_key_def blocker_value_def BLOCKER_JSON_def jget_def is_open_def iso_def)

lemma add_blocker_accepted:
  assumes "op_add_blocker now slug phase q os c ty (Some t) (Some p) db = (Inr bid, db')" "db_ok db"
  shows "holder db slug = Some (JStr t, JStr p) \<and> holder db' slug = None
    \<and> (\<exists>b. read_blockers db' slug = read_blockers db slug @ [b] \<and> question_read bid phase q os b)"
proof -
  have h: "holder db slug = Some (JStr t, JStr p)"
  proof (rule ccontr)
    assume "holder db slug \<noteq> Some (JStr t, JStr p)"
    then have "\<exists>e. op_add_blocker now slug phase q os c ty (Some t) (Some p) db = (Inl e, db)"
      unfolding op_add_blocker_def by (intro refuses_plan_txn[OF _ assms(2)]) auto
    then show False using assms(1) by simp
  qed
  let ?db = "update_plan slug bump_version db"
  from assms(1) obtain db1 where
    w: "write_blockers slug [asked now bid phase q os c ty] (delete_claim slug ?db) = (Inr (), db1)" and
    e: "db' = insert_events slug [mk_event now EVENT_PHASE_BLOCKED
              [(''phase'', JStr phase), (''blocker_id'', JStr bid), (''question'', JStr q)]] db1"
    by (auto simp: op_add_blocker_def plan_txn_Inr andthen_Inr release_in_txn_def Let_def query_def modify_def ret_def asked_def
        simp del: write_blockers.simps split: if_splits)
  have "read_blockers db' slug = read_blockers db slug @ [read_blocker_row (blocker_row (asked now bid phase q os c ty))]"
    unfolding e read_written_blocker[OF w] by (simp add: read_blockers_def rows_of_def delete_claim_def)
  moreover have "holder db' slug = None"
    unfolding e read_written_blocker[OF w] by (simp add: holder_def claim_row_of_def delete_claim_def)
  ultimately show ?thesis using h asked_reads by blast
qed

lemma coolant_result: "emit_coolant_stop env p ph t w = (Inr (), snd (emit_coolant_stop env p ph t w))"
  and tick_result: "post_action_tick env w = (Inr (), snd (post_action_tick env w))"
  by (simp_all add: emit_coolant_stop_def post_action_tick_def emit_if_def)

text \<open>
  Asking is all or nothing. When \<open>block\<close> succeeds, the caller held the plan at the write, the
  claim is gone and the question stands last among the plan's blockers, open, as it was put; in every
  other outcome the database is as the transaction found it, nobody was told and no tick was
  started. A plan never loses the claim without the question on record.
\<close>

theorem block_all_or_nothing:
  assumes "cmd_block env slug token phase q os c ty w = (r, w')" "db_ok (at_read w)"
  shows "(r = Inr OK \<and> holder (at_read w) slug = Some (JStr token, JStr phase) \<and> holder (w_db w') slug = None
        \<and> (\<exists>bid b. read_blockers (w_db w') slug = read_blockers (at_read w) slug @ [b] \<and> question_read bid phase q os b
             \<and> Sent (BlockerNote bid q os) \<in> set (w_fx w')))
    \<or> (r \<noteq> Inr OK \<and> w_db w' = at_read w \<and> w_fx w' = w_fx w)"
proof -
  let ?op = "op_add_blocker (ce_now env) slug phase q os c ty (Some token) (Some phase)"
  obtain r1 w1 where t: "transact ?op w = (r1, w1)" by fastforce
  then obtain db where op: "?op (at_read w) = (r1, db)" and w1: "w_db w1 = db" "w_fx w1 = w_fx w"
    by (auto simp: transact_run at_read_def)
  show ?thesis
  proof (cases r1)
    case (Inl e)
    then have "db = at_read w" using op unfolding op_add_blocker_def by (auto dest: plan_txn_Inl)
    moreover have "r \<noteq> Inr OK \<and> w' = w1"
      using assms(1) t Inl by (auto simp: cmd_block_def translate_claim_mismatch_def ccatch_def cbind_def split: pyerr.splits)
    ultimately show ?thesis using w1 by simp
  next
    case (Inr bid)
    let ?w2 = "snd (emit_coolant_stop env slug phase token w1)"
    let ?w3 = "?w2\<lparr>w_fx := w_fx ?w2 @ [Sent (BlockerNote bid q os)]\<rparr>"
    have fin: "r = Inr OK" "w' = snd (post_action_tick env ?w3)"
      using assms(1) t Inr coolant_result[of env slug phase token w1] tick_result[of env ?w3]
      by (auto simp: cmd_block_def translate_claim_mismatch_def ccatch_def cbind_def split: prod.splits)
    have "w_db w' = db" "Sent (BlockerNote bid q os) \<in> set (w_fx w')"
      unfolding fin(2) using w1 by (auto simp: emit_coolant_stop_def post_action_tick_def emit_if_def)
    then show ?thesis using add_blocker_accepted[OF op[unfolded Inr] assms(2)] fin(1) by auto
  qed
qed

section \<open>Spawning\<close>

definition spawned_count :: "pdb \<Rightarrow> string \<Rightarrow> string \<Rightarrow> nat" where
  "spawned_count db slug phase = length (filter (spawned_by phase) (read_tasks db slug))"

lemma check_token_reads: "check_token slug tk ph db = (Inr u, db') \<Longrightarrow> db' = db"
  by (cases tk) (auto simp: check_token_def require_token_def andthen_def ret_def split: option.splits if_splits)

lemma spawn_accepted:
  assumes "op_spawn_task now slug task st tk ph db = (Inr tid, db')"
    and "dget task ''spawned_by_phase'' = Some (JStr phase)" "distinct (map fst task)"
  shows "spawned_count db' slug phase = spawned_count db slug phase + 1"
proof -
  let ?t = "dset ''status'' (JStr st) (dset ''id'' (JStr tid) task)"
  let ?db = "update_plan slug bump_version db"
  from assms(1) obtain db0 where c: "check_token slug tk ph ?db = (Inr (), db0)" and
    "(andthen (query (\<lambda>db. ''task-'' @ show_nat (length (rows_of (t_tasks db) slug) + 1)))
       (\<lambda>task_id. andthen
         (write_tasks slug [dset ''status'' (JStr st) (dset ''id'' (JStr task_id) task)])
       (\<lambda>_. andthen
         (modify (insert_events slug
            [mk_event now EVENT_TASK_SPAWNED
              [(''task'', JStr task_id), (''source'', jget task ''source''),
               (''spawned_by_phase'', jget task ''spawned_by_phase'')]]))
       (\<lambda>_. ret task_id)))) db0 = (Inr tid, db')"
    unfolding op_spawn_task_def plan_txn_Inr andthen_Inr[of "check_token _ _ _"] by auto
  then obtain db1 where w: "write_tasks slug [?t] db0 = (Inr (), db1)" and e: "\<exists>evs. db' = insert_events slug evs db1"
    unfolding andthen_Inr query_def modify_def ret_def by (auto simp del: write_tasks.simps)
  have db0: "db0 = ?db" by (rule check_token_reads[OF c])
  have "db1 = ?db\<lparr>t_tasks := t_tasks db @ [(slug, task_row ?t)]\<rparr>" using w db0 by (auto split: if_splits)
  then have "read_tasks db' slug = read_tasks db slug @ [read_task_row (task_row ?t)]"
    using e by (auto simp: read_tasks_def rows_of_def)
  moreover have "spawned_by phase (read_task_row (task_row ?t))"
  proof -
    have "map_of (rev (dwithout [''id'', ''status''] ?t)) = map_of (dwithout [''id'', ''status''] ?t)"
      by (rule map_of_rev_keys) (simp add: assms(3) distinct_dwithout distinct_update)
    then show ?thesis
      using assms(2) by (simp add: spawned_by_def read_task_row_def task_row_def map_of_dupd map_of_dwithout)
  qed
  ultimately show ?thesis by (simp add: spawned_count_def)
qed

text \<open>
  The cap on spawned tasks. A spawn that succeeds found fewer tasks of its phase than the cap when
  it looked, and adds exactly one to those it finds when it writes; so alone it never takes a
  phase over its cap.
\<close>

theorem spawn_cap:
  assumes "cmd_spawn env slug token phase source title description w = (Inr OK, w')"
  shows "\<exists>d cap. snapshot (at_read w) slug = Inr d
    \<and> config_num d ''max_spawns_per_phase'' DEFAULT_MAX_SPAWNS_PER_PHASE = Inr cap
    \<and> of_nat (spawned_count (at_read w) slug phase) < cap
    \<and> spawned_count (w_db w') slug phase = spawned_count (at_write w) slug phase + 1
    \<and> (w_script w = [] \<longrightarrow> of_nat (spawned_count (w_db w') slug phase) < cap + 1)"
proof -
  let ?task = "[(''source'', JStr source), (''spawned_by_phase'', JStr phase), (''title'', JStr title),
            (''description'', JStr description), (''depends_on_phases'', JList [JStr phase]),
            (''spawned_at'', iso (ce_now env))]"
  let ?op = "op_spawn_task (ce_now env) slug ?task ''pending'' (Some token) (Some phase)"
  let ?w2 = "(settle w)\<lparr>w_trace := w_trace w @ [(w_db (settle w), w_db (settle w))]\<rparr>"
  have "\<exists>d cap tid. snapshot (at_read w) slug = Inr d
    \<and> config_num d ''max_spawns_per_phase'' DEFAULT_MAX_SPAWNS_PER_PHASE = Inr cap
    \<and> of_nat (length (filter (spawned_by phase) (d_tasks d))) < cap \<and> transact ?op ?w2 = (Inr tid, w')"
    using assms unfolding cmd_spawn_def translate_OK
    by (auto simp: read_plan_run at_read_def not_le elim!: cbindE split: if_splits)
  then obtain d cap tid where d: "snapshot (at_read w) slug = Inr d"
    and c: "config_num d ''max_spawns_per_phase'' DEFAULT_MAX_SPAWNS_PER_PHASE = Inr cap"
    and n: "of_nat (length (filter (spawned_by phase) (d_tasks d))) < cap"
    and t: "transact ?op ?w2 = (Inr tid, w')" by blast
  have "d_tasks d = read_tasks (at_read w) slug"
    using d snapshot_in_txn_reads by (auto simp: snapshot_def bind_res_Inr)
  then have n: "of_nat (spawned_count (at_read w) slug phase) < cap" using n by (simp add: spawned_count_def)
  have r: "at_read ?w2 = at_write w" by (rule idle_reads(3)) simp
  from t have "?op (at_write w) = (Inr tid, w_db w')" unfolding r[symmetric] by (auto simp: transact_run at_read_def)
  from spawn_accepted[OF this, of phase] have s: "spawned_count (w_db w') slug phase = spawned_count (at_write w) slug phase + 1"
    by simp
  have "at_write w = at_read w" if "w_script w = []" using that by (simp add: at_read_def at_write_def settle_alone)
  then show ?thesis using d c n s by fastforce
qed

end
