(* ===== verification/Cmd_Operator.thy ===== *)
theory Cmd_Operator
  imports Cmd_Block
begin

text \<open>
  The operator's commands: the moves of the status, the release of a claim and who may be
  signalled by it.
\<close>

section \<open>The status\<close>

definition status_of :: "pdb \<Rightarrow> string \<Rightarrow> jval option" where
  "status_of db slug = map_option (\<lambda>r. scalar_of (r ''status'')) (map_of (t_plans db) slug)"

lemma snapshot_reads:
  assumes "snapshot db slug = Inr d"
  shows "status_of db slug = Some (d_status d)" "d_events d = read_events db slug" "d_claim d = read_claim db slug"
    "d_blockers d = read_blockers db slug" "d_slug d = slug"
proof -
  have "snapshot_in_txn db slug = Inr d" using assms by (simp add: snapshot_def bind_res_Inr)
  from snapshot_in_txn_reads[OF this] show "status_of db slug = Some (d_status d)" "d_events d = read_events db slug"
    "d_claim d = read_claim db slug" "d_blockers d = read_blockers db slug" "d_slug d = slug"
    by (auto simp: status_of_def)
qed

lemma set_status_accepted:
  assumes "op_set_status slug st [e] None None db = (Inr u, db')"
  shows "status_of db' slug = Some (JStr st) \<and> t_claims db' = t_claims db
    \<and> (proper_event e \<longrightarrow> (\<exists>x. read_events db' slug = read_events db slug @ [x] \<and> reads_as e x))"
proof -
  let ?db = "update_plan slug (set_cols [(''status'', SVal (JStr st))]) (update_plan slug bump_version db)"
  from assms have p: "has_plan db slug" and db': "db' = insert_events slug [e] ?db"
    by (auto simp: op_set_status_def plan_txn_Inr andthen_Inr modify_def ret_def)
  have "read_events ?db slug = read_events db slug"
    by (simp add: read_events_def plan_events_def update_plan_def)
  then have "\<exists>x. read_events db' slug = read_events db slug @ [x] \<and> reads_as e x" if "proper_event e"
    using inserted_event_reads[OF that, of slug ?db] unfolding db' by (simp add: insert_events_def)
  moreover have "status_of db' slug = Some (JStr st)" "t_claims db' = t_claims db"
    using p unfolding db' by (auto simp: status_of_def update_plan_def map_of_map_entry set_cols_def)
  ultimately show ?thesis by blast
qed

lemma transact_alone:
  "w_script w = [] \<Longrightarrow> transact t w = (r, w') \<Longrightarrow> t (w_db w) = (r, w_db w') \<and> w_script w' = []"
  by (auto simp: transact_run settle_alone)

lemma read_alone:
  "w_script w = [] \<Longrightarrow> snapshot (w_db w) slug = Inr d \<Longrightarrow>
     \<exists>w1. read_plan slug w = (Inr d, w1) \<and> w_db w1 = w_db w \<and> w_script w1 = [] \<and> w_fx w1 = w_fx w"
  by (auto simp: read_plan_run settle_alone)

lemma retry_resets:
  assumes "op_set_status slug st [mk_event now EVENT_RETRY_REQUESTED [(''phase'', JStr p)]] None None db = (Inr u, db')"
  shows "attempts_for_phase (read_events db' slug) p = 0"
proof -
  let ?e = "mk_event now EVENT_RETRY_REQUESTED [(''phase'', JStr p)]"
  have "proper_event ?e" by (rule mk_event_proper) auto
  then obtain x where x: "read_events db' slug = read_events db slug @ [x]" "reads_as ?e x"
    using set_status_accepted[OF assms] by blast
  have "resets_attempts p x"
    using reads_as_is[OF x(2), of "''type''"] reads_as_is[OF x(2), of "''phase''"] by (simp add: resets_attempts_def mk_event_def)
  then show ?thesis unfolding x(1) by (rule attempts_reset)
qed

lemma run_dispatch: "snapshot db slug = Inr d \<Longrightarrow> run_command env slug c w = dispatchers env slug c w"
  by (auto simp: run_command_def snapshot_def bind_res_Inr validate_slug_def guard_res_def)

lemma status_tail:
  assumes "w_script w1 = []" "cbind (transact (op_set_status slug s [e] None None)) (\<lambda>_. cret OK) w1 = (r, w')"
  shows "t_claims (w_db w') = t_claims (w_db w1) \<and> (\<forall>code. r = Inr code \<longrightarrow> code = OK
      \<and> status_of (w_db w') slug = Some (JStr s) \<and> op_set_status slug s [e] None None (w_db w1) = (Inr (), w_db w'))"
proof -
  let ?op = "op_set_status slug s [e] None None"
  obtain r1 w2 where t: "transact ?op w1 = (r1, w2)" by fastforce
  note op = transact_alone[OF assms(1) t, THEN conjunct1]
  have "t_claims (snd (?op (w_db w1))) = t_claims (w_db w1)"
    unfolding op_set_status_def by (intro plan_txn_claims) (simp add: andthen_def ret_def modify_def update_plan_def)
  then show ?thesis
    using assms(2) t op set_status_accepted[of slug s e "w_db w1"] by (cases r1) (auto simp: cbind_def)
qed

text \<open>
  The operator's moves. Undisturbed, a plan that is done is left exactly as it is by pause, resume
  and retry; a halted plan is not resumed, only retried; a pause or a resume that succeeds leaves the plan
  paused or running, and a retry leaves it running with no attempt counted against the phase
  it names. None of the three touches the claim.
\<close>

theorem operator_status_moves:
  assumes "w_script w = []" "snapshot (w_db w) slug = Inr d"
    and "c = Pause reason \<or> c = Resume \<or> c = Retry phase" and "run_command env slug c w = (r, w')"
  shows "(d_status d = JStr STATUS_DONE \<longrightarrow> r = Inr STATUS_TRANSITION \<and> w_db w' = w_db w)
    \<and> (d_status d \<in> {JStr STATUS_HALTED, JStr STATUS_HALTED_REPLAN} \<and> c = Resume \<longrightarrow> r = Inr STATUS_TRANSITION \<and> w_db w' = w_db w)
    \<and> (r = Inr OK \<and> c = Pause reason \<longrightarrow> status_of (w_db w') slug = Some (JStr STATUS_PAUSED))
    \<and> (r = Inr OK \<and> c = Resume \<longrightarrow> status_of (w_db w') slug = Some (JStr STATUS_RUNNING))
    \<and> (r = Inr OK \<and> c = Retry phase \<longrightarrow> status_of (w_db w') slug = Some (JStr STATUS_RUNNING)
         \<and> (\<exists>p. retry_phase phase d = JStr p \<and> attempts_for_phase (read_events (w_db w') slug) p = 0))
    \<and> t_claims (w_db w') = t_claims (w_db w)"
proof -
  obtain w1 where w1: "read_plan slug w = (Inr d, w1)" "w_db w1 = w_db w" "w_script w1 = []"
    using read_alone[OF assms(1,2)] by blast
  have v: "dispatchers env slug c w = (r, w')"
    using assms(4) run_dispatch[OF assms(2)] by simp
  note tail = status_tail[OF w1(3), unfolded w1(2)] and st = snapshot_reads(1)[OF assms(2)]
  from assms(3) show ?thesis
  proof (elim disjE)
    assume c: "c = Pause reason"
    then show ?thesis using v w1 st by (auto simp: dispatchers_def cmd_pause_def split: if_splits dest: tail)
  next
    assume c: "c = Resume"
    then show ?thesis using v w1 st by (auto simp: dispatchers_def cmd_resume_def split: if_splits dest: tail)
  next
    assume c: "c = Retry phase"
    then show ?thesis
      using v w1 st by (cases "retry_phase phase d")
        (auto simp: dispatchers_def cmd_retry_def split: if_splits sum.splits dest: tail intro: retry_resets)
  qed
qed

section \<open>Releasing a claim by hand\<close>

lemma operator_release_accepted:
  assumes "op_release_claim slug None None evs db = (Inr c, db')" "list_all proper_event evs"
  shows "holder db' slug = None
    \<and> (\<exists>new. read_events db' slug = read_events db slug @ new \<and> list_all2 reads_as evs new)"
proof -
  let ?db = "delete_claim slug (update_plan slug bump_version db)"
  have db': "db' = insert_events slug evs ?db" using release_op_Inr[OF assms(1)] by (simp add: released_db_def)
  have "read_events ?db slug = read_events db slug"
    by (simp add: read_events_def plan_events_def delete_claim_def update_plan_def)
  then show ?thesis using inserted_events_read[OF assms(2), of slug ?db] release_op_Inr[OF assms(1)]
    unfolding db' by auto
qed

definition reap_step :: "cmd_env \<Rightarrow> doc \<Rightarrow> obj \<Rightarrow> obj list cmd" where
  "reap_step env d claim =
     (case claim_pid claim of
        None \<Rightarrow> cret []
      | Some pid \<Rightarrow>
          (case reap_orphan_pgroup (ce_os env) (group_of claim pid) (Some (d_slug d)) of
             (r, sent) \<Rightarrow> cbind (emit (Signals sent)) (\<lambda>_. cret [reaped_event (ce_now env) claim pid r])))"

lemma reap_step_run:
  "reap_step env d claim w = (Inr evs, w') \<Longrightarrow> idle w w' \<and> list_all proper_event evs
     \<and> (\<forall>e\<in>set evs. ev_is EVENT_PHASE_ORPHAN_REAPED e)"
  by (auto simp: reap_step_def cbind_def reaped_event_def intro!: mk_event_proper split: option.splits prod.splits)
    (auto simp: mk_event_def)

text \<open>The events of a release by hand.\<close>

definition release_events :: "cmd_env \<Rightarrow> obj \<Rightarrow> bool \<Rightarrow> string \<Rightarrow> bool \<Rightarrow> obj list \<Rightarrow> obj list" where
  "release_events env claim force reason reset reap_events =
     [mk_event (ce_now env) EVENT_CLAIM_FORCE_RELEASED (release_fields claim force reason)] @ reap_events
     @ (if reset then [mk_event (ce_now env) EVENT_ATTEMPTS_RESET
          [(''phase'', jget claim ''phase_id''), (''operator'', JBool True)]] else [])"

lemma release_events_proper: "list_all proper_event revs \<Longrightarrow> list_all proper_event (release_events env claim force reason reset revs)"
  by (auto simp: release_events_def release_fields_def intro!: mk_event_proper)

lemma release_stages:
  assumes "cmd_release_claim env slug force reason reset w = (Inr OK, w')"
    and "snapshot (at_read w) slug = Inr d" "d_claim d = Some claim"
  obtains stalled w2 revs w3 c w4 where "claim_is_stalled (ce_now env) d claim = Inr stalled"
    "force \<or> stalled \<or> d_status d \<noteq> JStr STATUS_RUNNING" "idle (settle w) w2" "reap_step env d claim w2 = (Inr revs, w3)"
    "transact (op_release_claim slug None None (release_events env claim force reason reset revs)) w3 = (Inr c, w4)"
    "w_db w' = w_db w4"
proof -
  let ?w2 = "(settle w)\<lparr>w_trace := w_trace w @ [(w_db (settle w), w_db (settle w))]\<rparr>"
  from assms obtain stalled where s: "claim_is_stalled (ce_now env) d claim = Inr stalled"
    "force \<or> stalled \<or> d_status d \<noteq> JStr STATUS_RUNNING"
    and rest: "cbind (reap_step env d claim) (\<lambda>revs.
       cbind (transact (op_release_claim slug None None (release_events env claim force reason reset revs))) (\<lambda>_.
       cbind (emit_coolant_stop env slug (sget claim ''phase_id'') (sget claim ''claimed_by'')) (\<lambda>_. cret OK))) ?w2 = (Inr OK, w')"
    unfolding cmd_release_claim_def reap_step_def[symmetric] release_events_def[symmetric]
    by (auto simp: cbind_Inr[of "read_plan slug"] cbind_Inr[of "clift _"] read_plan_run at_read_def split: if_splits)
  from rest obtain revs w3 c w4 where r: "reap_step env d claim ?w2 = (Inr revs, w3)"
    "transact (op_release_claim slug None None (release_events env claim force reason reset revs)) w3 = (Inr c, w4)"
    "cbind (emit_coolant_stop env slug (sget claim ''phase_id'') (sget claim ''claimed_by'')) (\<lambda>_. cret OK) w4 = (Inr OK, w')"
    by (auto elim!: cbindE)
  moreover have "w_db w' = w_db w4" using r(3) by (auto simp: cbind_Inr idle_def dest!: coolant_idle)
  ultimately show thesis using that s by (metis idle_tr)
qed

text \<open>
  Releasing a claim by hand. It succeeds on a live claim only with \<open>--force\<close>, or when the plan is
  not running, or when the heartbeat is stale; afterwards the plan has no claim, the release is
  logged with the claim it was decided on, and with \<open>--reset-attempts\<close> no attempt counts against
  the phase of that claim. (What is deleted is the claim the write finds, whichever it is.)
\<close>

theorem release_claim_guarded:
  assumes "cmd_release_claim env slug force reason reset w = (Inr OK, w')"
    and "snapshot (at_read w) slug = Inr d" "d_claim d = Some claim"
  shows "(force \<or> d_status d \<noteq> JStr STATUS_RUNNING \<or> claim_is_stalled (ce_now env) d claim = Inr True)
    \<and> holder (w_db w') slug = None
    \<and> (\<exists>x new. read_events (w_db w') slug = read_events (at_write w) slug @ x # new
         \<and> ev_is EVENT_CLAIM_FORCE_RELEASED x \<and> dget x ''phase'' = Some (jget claim ''phase_id'')
         \<and> dget x ''token'' = Some (jget claim ''claimed_by'') \<and> dget x ''forced'' = Some (JBool force))
    \<and> (reset \<and> dget claim ''phase_id'' = Some (JStr p) \<longrightarrow> attempts_for_phase (read_events (w_db w') slug) p = 0)"
proof -
  from assms obtain stalled w2 revs w3 c w4 where s: "claim_is_stalled (ce_now env) d claim = Inr stalled"
    "force \<or> stalled \<or> d_status d \<noteq> JStr STATUS_RUNNING" and i: "idle (settle w) w2"
    and rp: "reap_step env d claim w2 = (Inr revs, w3)"
    and t: "transact (op_release_claim slug None None (release_events env claim force reason reset revs)) w3 = (Inr c, w4)"
    and w': "w_db w' = w_db w4" by (rule release_stages)
  let ?evs = "release_events env claim force reason reset revs"
  note run = reap_step_run[OF rp]
  have r: "at_read w3 = at_write w" using i run idle_trans idle_reads(3) by metis
  from t have "op_release_claim slug None None ?evs (at_write w) = (Inr c, w_db w4)"
    unfolding r[symmetric] by (auto simp: transact_run at_read_def)
  from operator_release_accepted[OF this release_events_proper] run obtain new where
    h: "holder (w_db w4) slug = None" and new: "read_events (w_db w4) slug = read_events (at_write w) slug @ new"
    "list_all2 reads_as ?evs new" by auto
  from new(2) obtain x xs where x: "new = x # xs"
    "reads_as (mk_event (ce_now env) EVENT_CLAIM_FORCE_RELEASED (release_fields claim force reason)) x"
    by (auto simp: release_events_def list_all2_Cons1)
  have "attempts_for_phase (read_events (w_db w4) slug) p = 0" if "reset" "dget claim ''phase_id'' = Some (JStr p)"
  proof -
    let ?e = "mk_event (ce_now env) EVENT_ATTEMPTS_RESET [(''phase'', jget claim ''phase_id''), (''operator'', JBool True)]"
    from new(2) that(1) obtain ys y where y: "new = ys @ [y]" "reads_as ?e y"
      by (auto simp: release_events_def list_all2_append1 list_all2_Cons1)
    have "resets_attempts p y"
      using reads_as_is[OF y(2), of "''type''"] reads_as_is[OF y(2), of "''phase''"] that(2)
      by (simp add: resets_attempts_def mk_event_def jget_def)
    then show ?thesis using new(1) y(1) attempts_reset[of p y "read_events (at_write w) slug @ ys"] by simp
  qed
  moreover have "ev_is EVENT_CLAIM_FORCE_RELEASED x \<and> dget x ''phase'' = Some (jget claim ''phase_id'')
      \<and> dget x ''token'' = Some (jget claim ''claimed_by'') \<and> dget x ''forced'' = Some (JBool force)"
    using x(2) by (simp add: reads_as_def mk_event_def release_fields_def)
  ultimately show ?thesis using s h new(1) x(1) unfolding w' by auto
qed

end
