(* ===== verification/Cmd_Examples.thy ===== *)
theory Cmd_Examples
  imports Cmd_Operator Store_Examples
begin

text \<open>Concrete runs of commands on the example stores, alone and raced by another process.\<close>

definition tab :: string where
  "tab = [CHR 0x09]"

definition example_git :: "string list \<Rightarrow> proc option" where
  "example_git argv =
     (if List.member argv ''rev-parse'' then Some \<lparr>p_rc = 0, p_out = ''c0ffee'', p_err = []\<rparr>
      else if List.member argv ''diff'' then Some \<lparr>p_rc = 0, p_out = ''3'' @ tab @ ''2'' @ tab @ ''a.py'', p_err = []\<rparr>
      else Some \<lparr>p_rc = 0, p_out = [], p_err = []\<rparr>)"

definition no_zone :: "string option \<Rightarrow> int \<Rightarrow> zone option" where
  "no_zone s t = None"

definition no_log :: "jval \<Rightarrow> string option" where
  "no_log v = None"

definition example_cfg :: cmd_config where
  "example_cfg = \<lparr>cc_root = ''/p'', cc_verify_required = True, cc_verify_command = Some ''make check'',
     cc_test_command = None, cc_simplify_threshold = None, cc_span_ceiling = 45, cc_keep_remote = False,
     cc_coolant = True, cc_tick_on_action = True\<rparr>"

definition example_cmd_env :: cmd_env where
  "example_cmd_env = \<lparr>ce_cfg = example_cfg, ce_now = 7000000, ce_os = example_os, ce_git = example_git,
     ce_verify = Some \<lparr>p_rc = 0, p_out = [], p_err = []\<rparr>, ce_plan = None, ce_logs = no_log, ce_zones = no_zone,
     ce_busy = False\<rparr>"

text \<open>A world without other processes, and one where \<open>f\<close> happens between the first two transactions.\<close>

definition calm :: "pdb \<Rightarrow> world" where
  "calm db = \<lparr>w_db = db, w_script = [], w_trace = [], w_fx = []\<rparr>"

definition raced :: "(pdb \<Rightarrow> pdb) \<Rightarrow> pdb \<Rightarrow> world" where
  "raced f db = \<lparr>w_db = db, w_script = [alone [], f], w_trace = [], w_fx = []\<rparr>"

text \<open>The claim of the example store is released and the supervisor dispatches another worker.\<close>

definition redispatch :: "pdb \<Rightarrow> pdb" where
  "redispatch db = snd (apply_tick_delta 8000000 ''def'' ''w1'' no_pre dispatch_delta
     (snd (op_release_claim ''w1'' None None [] db)))"

lemma calm_simps [simp]: "w_db (calm db) = db" "w_script (calm db) = []" "w_trace (calm db) = []" "at_read (calm db) = db"
  "at_write (calm db) = db" "settle (calm db) = calm db"
  by (simp_all add: calm_def at_read_def at_write_def settle_alone)

lemma raced_simps [simp]: "w_db (raced f db) = db" "w_trace (raced f db) = []" "at_read (raced f db) = db" "at_write (raced f db) = f db"
  by (simp_all add: raced_def at_read_def at_write_def settle_def alone_def)

lemma fst_run: "fst (m w) = r \<Longrightarrow> \<exists>w'. m w = (r, w')"
  by (metis prod.collapse)

lemma run_keeps_ok: "db_ok (w_db w) \<Longrightarrow> w_script w = [] \<Longrightarrow> run_command env slug c w = (r, w') \<Longrightarrow> db_ok (w_db w')"
  using command_log.follows_run[OF command_log.command_follows, of w env slug c r w'] by (simp add: fair_def store_grows_def)


lemma redispatch_ok: "db_ok (redispatch held_db)"
proof -
  have "db_ok (snd (op_release_claim ''w1'' None None [] held_db))"
    by (rule step_ok_db_ok[OF op_release_claim_step[OF held_db_ok]])
  moreover have "delta_ok dispatch_delta" by (simp add: delta_ok_def dispatch_delta_def empty_delta_def)
  ultimately show ?thesis unfolding redispatch_def by (rule step_ok_db_ok[OF apply_tick_delta_step])
qed

lemma redispatch_holder: "holder (redispatch held_db) ''w1'' = Some (JStr ''session-def'', JStr ''a'')"
  by code_simp

lemma heartbeat_trace:
  assumes "slug_re_match slug" "run_command env slug (Heartbeat t p) w = (r, w')"
  shows "\<exists>b. w_trace w' = w_trace w @ [(at_read w, b)]"
  using assms
  by (auto simp: run_command_def dispatchers_def validate_slug_def guard_res_def cmd_heartbeat_def translate_claim_mismatch_def
      ccatch_def cbind_def transact_def at_read_def split: prod.splits sum.splits option.splits pyerr.splits)

theorem worker_commands_touch_own_claim_witness:
  "\<exists>w' b. run_command example_cmd_env ''w1'' (Heartbeat ''session-abc'' ''a'') (calm (redispatch held_db)) = (Inr CLAIM_MISMATCH, w')
     \<and> w_trace w' = [(redispatch held_db, b)] \<and> t_claims b = t_claims (redispatch held_db)"
proof -
  let ?m = "run_command example_cmd_env ''w1'' (Heartbeat ''session-abc'' ''a'')"
  have "fst (?m (calm (redispatch held_db))) = Inr CLAIM_MISMATCH" by code_simp
  then obtain w' where r: "?m (calm (redispatch held_db)) = (Inr CLAIM_MISMATCH, w')" using fst_run[of ?m] by blast
  obtain b where b: "w_trace w' = [(redispatch held_db, b)]" using heartbeat_trace[OF w1_slug r] by auto
  from worker_commands_touch_own_claim[OF _ r, of "''session-abc''" "''a''" "redispatch held_db" b] r b show ?thesis
    using redispatch_ok redispatch_holder by auto
qed

text \<open>The example store after a \<open>verify\<close>.\<close>

definition verified_db :: pdb where
  "verified_db = w_db (snd (run_command example_cmd_env ''w1'' (Verify ''session-abc'' ''a'') (calm held_db)))"


theorem block_all_or_nothing_witness:
  "\<exists>w' bid b. cmd_block example_cmd_env ''w1'' ''session-abc'' ''a'' ''which?'' [''x'', ''y''] [] ''input'' (calm held_db) = (Inr OK, w')
     \<and> holder (w_db w') ''w1'' = None \<and> read_blockers (w_db w') ''w1'' = read_blockers held_db ''w1'' @ [b]
     \<and> question_read bid ''a'' ''which?'' [''x'', ''y''] b"
proof -
  let ?m = "cmd_block example_cmd_env ''w1'' ''session-abc'' ''a'' ''which?'' [''x'', ''y''] [] ''input''"
  have "fst (?m (calm held_db)) = Inr OK" by code_simp
  then obtain w' where r: "?m (calm held_db) = (Inr OK, w')" using fst_run[of ?m] by blast
  from block_all_or_nothing[OF r] r show ?thesis by (auto simp: held_db_ok)
qed

text \<open>One spawn allowed, and the same worker spawning twice at once.\<close>

definition capped_db :: pdb where
  "capped_db = snd (op_set_fields ''w1'' [(''config'', JObj [(''max_spawns_per_phase'', JInt 1)])] [] [] held_db)"

definition rival :: "pdb \<Rightarrow> pdb" where
  "rival db = w_db (snd (cmd_spawn example_cmd_env ''w1'' ''session-abc'' ''a'' ''manual'' ''rival'' [] (calm db)))"

theorem spawn_cap_witness:
  "\<exists>w' d cap. cmd_spawn example_cmd_env ''w1'' ''session-abc'' ''a'' ''manual'' ''mine'' [] (raced rival capped_db) = (Inr OK, w')
     \<and> snapshot capped_db ''w1'' = Inr d \<and> config_num d ''max_spawns_per_phase'' DEFAULT_MAX_SPAWNS_PER_PHASE = Inr cap
     \<and> of_nat (spawned_count capped_db ''w1'' ''a'') < cap \<and> spawned_count (w_db w') ''w1'' ''a'' = 2"
proof -
  let ?m = "cmd_spawn example_cmd_env ''w1'' ''session-abc'' ''a'' ''manual'' ''mine'' []"
  have "fst (?m (raced rival capped_db)) = Inr OK" by code_simp
  then obtain w' where r: "?m (raced rival capped_db) = (Inr OK, w')" using fst_run[of ?m] by blast
  have "spawned_count (rival capped_db) ''w1'' ''a'' = 1" by code_simp
  with spawn_cap[OF r] r show ?thesis by auto
qed

definition halted_db :: pdb where
  "halted_db = snd (op_set_status ''w1'' STATUS_HALTED [] None None held_db)"

theorem operator_status_moves_witness:
  "\<exists>w' d. run_command example_cmd_env ''w1'' (Retry ''a'') (calm halted_db) = (Inr OK, w') \<and> snapshot halted_db ''w1'' = Inr d
     \<and> status_of (w_db w') ''w1'' = Some (JStr STATUS_RUNNING) \<and> attempts_for_phase (read_events (w_db w') ''w1'') ''a'' = 0"
proof -
  let ?m = "run_command example_cmd_env ''w1'' (Retry ''a'')"
  have "fst (?m (calm halted_db)) = Inr OK" by code_simp
  then obtain w' where r: "?m (calm halted_db) = (Inr OK, w')" using fst_run[of ?m] by blast
  have "\<not> isl (snapshot halted_db ''w1'')" by code_simp
  then obtain d where d: "snapshot (w_db (calm halted_db)) ''w1'' = Inr d" by (cases "snapshot halted_db ''w1''") auto
  from operator_status_moves[OF _ d _ r, of _ "''a''"] r d show ?thesis by (auto simp: retry_phase_def)
qed

theorem release_claim_guarded_witness:
  "\<exists>w' x new. cmd_release_claim example_cmd_env ''w1'' True ''stuck'' True (raced redispatch held_db) = (Inr OK, w')
     \<and> holder (redispatch held_db) ''w1'' = Some (JStr ''session-def'', JStr ''a'') \<and> holder (w_db w') ''w1'' = None
     \<and> read_events (w_db w') ''w1'' = read_events (redispatch held_db) ''w1'' @ x # new
     \<and> dget x ''token'' = Some (JStr ''session-abc'')"
proof -
  let ?m = "cmd_release_claim example_cmd_env ''w1'' True ''stuck'' True"
  have "fst (?m (raced redispatch held_db)) = Inr OK" by code_simp
  then obtain w' where r: "?m (raced redispatch held_db) = (Inr OK, w')" using fst_run[of ?m] by blast
  have "(case snapshot held_db ''w1'' of Inr d \<Rightarrow> map_option (\<lambda>c. jget c ''claimed_by'') (d_claim d) | _ \<Rightarrow> None) = Some (JStr ''session-abc'')"
    by code_simp
  then obtain d c where d: "snapshot (at_read (raced redispatch held_db)) ''w1'' = Inr d" "d_claim d = Some c"
    "jget c ''claimed_by'' = JStr ''session-abc''"
    by (cases "snapshot held_db ''w1''") auto
  from release_claim_guarded[OF r d(1,2), of "''a''"] r d(3) redispatch_holder show ?thesis by auto
qed

end
