(* ===== verification/Heartbeat_Daemon.thy ===== *)
theory Heartbeat_Daemon
  imports Cmd_Examples
begin

text \<open>
  The heartbeat daemon (\<open>heartbeat_daemon.py\<close>): one tick, and the loop with its strikes and its two
  reports. Time passes from tick to tick, so the loop runs over a list of environments, one per
  tick; a list that runs out is a loop still running. Forking and the redirected output
  are not modelled.
\<close>

datatype hb_action = ACTION_OK | ACTION_STRIKE | ACTION_EXIT_WORKER_DEAD | ACTION_EXIT_CLAIM_GONE

definition STRIKE_LIMIT :: nat where
  "STRIKE_LIMIT = 3"

definition pid_alive :: "os_view \<Rightarrow> string \<Rightarrow> int \<Rightarrow> bool" where
  "pid_alive os plan pid = claim_worker_alive os [(''pid'', JInt pid)] (Some plan)"

text \<open>\<open>_ping\<close>: waits for the write lock as long as the store lets it, then \<open>DbBusy\<close>.\<close>

definition ping :: "cmd_env \<Rightarrow> string \<Rightarrow> string \<Rightarrow> string \<Rightarrow> jval cmd" where
  "ping env plan phase token = transact (locked (ce_busy env) (op_heartbeat (ce_now env) plan token phase))"

definition tick_once :: "cmd_env \<Rightarrow> string \<Rightarrow> string \<Rightarrow> string \<Rightarrow> int \<Rightarrow> world \<Rightarrow> hb_action \<times> world" where
  "tick_once env plan phase token worker_pid w =
     (if \<not> pid_alive (ce_os env) plan worker_pid then (ACTION_EXIT_WORKER_DEAD, w)
      else case ping env plan phase token w of
        (Inl (ClaimMismatch _), w') \<Rightarrow> (ACTION_EXIT_CLAIM_GONE, w')
      | (Inl _, w') \<Rightarrow> (ACTION_STRIKE, w')
      | (Inr _, w') \<Rightarrow> (ACTION_OK, w'))"

datatype hb_report = FailureReport | DeathReport

text \<open>A report runs the command of that name; whatever comes of it, the loop goes on.\<close>

definition notify_failure :: "cmd_env \<Rightarrow> string \<Rightarrow> string \<Rightarrow> string \<Rightarrow> string \<Rightarrow> world \<Rightarrow> world" where
  "notify_failure env plan phase token log_path w = snd (run_command env plan (NotifyHeartbeatFailure token phase log_path) w)"

definition report_death :: "cmd_env \<Rightarrow> string \<Rightarrow> string \<Rightarrow> string \<Rightarrow> world \<Rightarrow> world" where
  "report_death env plan phase token w = snd (run_command env plan (NotifyWorkerDead token phase) w)"

text \<open>The loop: what each tick did and reported, whether the loop has returned, and the world.\<close>

fun run_loop ::
    "string \<Rightarrow> string \<Rightarrow> string \<Rightarrow> int \<Rightarrow> string \<Rightarrow> nat \<Rightarrow> cmd_env list \<Rightarrow> world
       \<Rightarrow> (hb_action \<times> hb_report option) list \<times> bool \<times> world" where
  "run_loop plan phase token pid log_path strikes [] w = ([], False, w)"
| "run_loop plan phase token pid log_path strikes (env # envs) w =
     (case tick_once env plan phase token pid w of
        (act, w1) \<Rightarrow>
          (case act of
             ACTION_EXIT_WORKER_DEAD \<Rightarrow> ([(act, Some DeathReport)], True, report_death env plan phase token w1)
           | ACTION_EXIT_CLAIM_GONE \<Rightarrow> ([(act, None)], True, w1)
           | ACTION_STRIKE \<Rightarrow>
               (let fire = (strikes + 1 = STRIKE_LIMIT) in
                case run_loop plan phase token pid log_path (strikes + 1) envs
                       (if fire then notify_failure env plan phase token log_path w1 else w1) of
                  (ticks, over, w2) \<Rightarrow> ((act, if fire then Some FailureReport else None) # ticks, over, w2))
           | ACTION_OK \<Rightarrow>
               (case run_loop plan phase token pid log_path 0 envs w1 of
                  (ticks, over, w2) \<Rightarrow> ((act, None) # ticks, over, w2))))"

text \<open>\<open>cmd_heartbeat_daemon\<close>: the checks before the fork; the first heartbeat is one of them.\<close>

definition cmd_heartbeat_daemon :: "cmd_env \<Rightarrow> string \<Rightarrow> string \<Rightarrow> string \<Rightarrow> int option \<Rightarrow> exit_code cmd" where
  "cmd_heartbeat_daemon env slug token phase worker_pid =
     translate_claim_mismatch (
       case validate_slug phase of
         Inl _ \<Rightarrow> cret INVALID_SLUG
       | Inr _ \<Rightarrow>
           if (case worker_pid of None \<Rightarrow> False | Some p \<Rightarrow> p \<le> 0) then cret INVALID_VALUE
           else cbind (transact (op_heartbeat (ce_now env) slug token phase)) (\<lambda>_.
             cbind (case worker_pid of
                      Some p \<Rightarrow> cret (Some p)
                    | None \<Rightarrow> cbind (read_plan slug) (\<lambda>d. cret (iget (case d_claim d of None \<Rightarrow> [] | Some c \<Rightarrow> c) ''pid''))) (\<lambda>pid.
             case pid of
               None \<Rightarrow> cret INVALID_VALUE
             | Some p \<Rightarrow> if p \<le> 0 then cret INVALID_VALUE
                 else cbind (emit (StartedDaemon p)) (\<lambda>_. cret OK))))"

section \<open>When it reports\<close>

text \<open>The failures in a row at the end of what has happened.\<close>

definition trailing_strikes :: "hb_action list \<Rightarrow> nat" where
  "trailing_strikes acts = length (takeWhile (\<lambda>a. a = ACTION_STRIKE) (rev acts))"

definition is_exit :: "hb_action \<Rightarrow> bool" where
  "is_exit a \<longleftrightarrow> a = ACTION_EXIT_WORKER_DEAD \<or> a = ACTION_EXIT_CLAIM_GONE"

lemma trailing_replicate: "trailing_strikes (replicate n ACTION_STRIKE) = n"
  by (simp add: trailing_strikes_def)

lemma trailing_append_ok:
  "a \<noteq> ACTION_STRIKE \<Longrightarrow> trailing_strikes (xs @ a # ys) = trailing_strikes ys"
  by (induction ys rule: rev_induct) (auto simp: trailing_strikes_def)

fun report_due :: "nat \<Rightarrow> hb_action list \<Rightarrow> hb_report option" where
  "report_due n acts =
     (if acts \<noteq> [] \<and> last acts = ACTION_EXIT_WORKER_DEAD then Some DeathReport
      else if acts \<noteq> [] \<and> last acts = ACTION_STRIKE \<and> trailing_strikes (replicate n ACTION_STRIKE @ acts) = STRIKE_LIMIT
      then Some FailureReport else None)"

lemma replicate_Suc_append: "replicate (Suc n) x @ ys = replicate n x @ x # ys"
  by (simp add: replicate_append_same[symmetric])

lemma loop_reports:
  assumes "run_loop plan phase token pid log_path n envs w = (ticks, over, w')" "i < length ticks"
  shows "snd (ticks ! i) = report_due n (take (Suc i) (map fst ticks)) \<and> (is_exit (fst (ticks ! i)) \<longrightarrow> Suc i = length ticks \<and> over)"
  using assms
proof (induction envs arbitrary: n w ticks i)
  case (Cons env envs)
  obtain act w1 where t: "tick_once env plan phase token pid w = (act, w1)" by fastforce
  show ?case
  proof (cases act)
    case ACTION_OK
    with Cons.prems(1) t obtain ticks' where l: "ticks = (act, None) # ticks'"
      "run_loop plan phase token pid log_path 0 envs w1 = (ticks', over, w')" by (auto split: prod.splits)
    have z: "report_due 0 (x # xs) = report_due n (act # x # xs)" for x xs
      using ACTION_OK trailing_append_ok[of act "replicate n ACTION_STRIKE" "x # xs"] by simp
    show ?thesis
    proof (cases i)
      case 0
      then show ?thesis using l(1) ACTION_OK by (simp add: is_exit_def)
    next
      case (Suc j)
      then obtain x xs where "take (Suc j) (map fst ticks') = x # xs" using Cons.prems(2) l(1) by (cases ticks') auto
      then show ?thesis using Cons.IH[OF l(2), of j] Cons.prems(2) l(1) Suc z by auto
    qed
  next
    case ACTION_STRIKE
    define w2 where "w2 = (if n + 1 = STRIKE_LIMIT then notify_failure env plan phase token log_path w1 else w1)"
    with ACTION_STRIKE Cons.prems(1) t obtain ticks' where
      l: "ticks = (act, if n + 1 = STRIKE_LIMIT then Some FailureReport else None) # ticks'"
      "run_loop plan phase token pid log_path (Suc n) envs w2 = (ticks', over, w')" by (auto simp: Let_def split: prod.splits)
    have z: "report_due (Suc n) (x # xs) = report_due n (act # x # xs)" for x xs
      using ACTION_STRIKE by (simp only: report_due.simps replicate_Suc_append) simp
    show ?thesis
    proof (cases i)
      case 0
      have "trailing_strikes (replicate n ACTION_STRIKE @ [ACTION_STRIKE]) = n + 1"
        using trailing_replicate[of "Suc n"] by (simp add: replicate_append_same)
      then show ?thesis using l(1) ACTION_STRIKE 0 by (simp add: is_exit_def)
    next
      case (Suc j)
      then obtain x xs where "take (Suc j) (map fst ticks') = x # xs" using Cons.prems(2) l(1) by (cases ticks') auto
      then show ?thesis using Cons.IH[OF l(2), of j] Cons.prems(2) l(1) Suc z by auto
    qed
  next
    case ACTION_EXIT_WORKER_DEAD
    then show ?thesis using Cons.prems t by (auto simp: is_exit_def)
  next
    case ACTION_EXIT_CLAIM_GONE
    then show ?thesis using Cons.prems t by (auto simp: is_exit_def)
  qed
qed simp

lemma tick_dead:
  "tick_once env plan phase token pid w = (act, w') \<Longrightarrow> act = ACTION_EXIT_WORKER_DEAD \<longleftrightarrow> \<not> pid_alive (ce_os env) plan pid"
  by (auto simp: tick_once_def split: if_splits prod.splits sum.splits pyerr.splits)

text \<open>After a tick that is no exit the loop goes on.\<close>

lemma loop_step:
  assumes "\<not> is_exit act" "run_loop plan phase token pid log_path n (env # envs) w = (ticks, over, w')"
    "tick_once env plan phase token pid w = (act, w1)"
  obtains m w2 r ticks' where "run_loop plan phase token pid log_path m envs w2 = (ticks', over, w')" "ticks = (act, r) # ticks'"
  using assms by (cases act) (auto simp: is_exit_def Let_def split: prod.splits)

lemma loop_over:
  "run_loop plan phase token pid log_path n envs w = (ticks, over, w') \<Longrightarrow> over \<Longrightarrow> ticks \<noteq> [] \<and> is_exit (fst (last ticks))"
proof (induction envs arbitrary: n w ticks)
  case (Cons env envs)
  obtain act w1 where t: "tick_once env plan phase token pid w = (act, w1)" by fastforce
  show ?case
  proof (cases "is_exit act")
    case True
    then show ?thesis using Cons.prems t by (auto simp: is_exit_def)
  next
    case False
    then obtain m w2 r ticks' where
      l: "run_loop plan phase token pid log_path m envs w2 = (ticks', over, w')" "ticks = (act, r) # ticks'"
      using Cons.prems(1) t by (rule loop_step) blast
    then show ?thesis using Cons.IH[OF l(1) Cons.prems(2)] by auto
  qed
qed simp

text \<open>
  The daemon reports exactly what it should: at each tick of its loop it calls the failure report
  when the run of failures that ends there has reached the limit, the death report when the tick
  found the worker gone, and nothing otherwise; and it returns at the first tick that found
  the worker or the claim gone.
\<close>

theorem daemon_reports:
  assumes "run_loop plan phase token pid log_path 0 envs w = (ticks, over, w')" and "i < length ticks"
  shows "snd (ticks ! i) = report_due 0 (take (Suc i) (map fst ticks))
    \<and> (is_exit (fst (ticks ! i)) \<longleftrightarrow> Suc i = length ticks \<and> over)"
proof -
  have "is_exit (fst (ticks ! i))" if "Suc i = length ticks" "over"
  proof -
    have "last ticks = ticks ! i" using that(1) by (metis Suc_length_conv diff_Suc_1 last_conv_nth length_greater_0_conv zero_less_Suc)
    then show ?thesis using loop_over[OF assms(1) that(2)] by simp
  qed
  then show ?thesis using loop_reports[OF assms] by blast
qed

section \<open>That it ends\<close>


section \<open>What it touches\<close>

lemma own_tick: "own (own_claim_only plan token phase) (tick_once env plan phase token pid)"
proof (rule ownI)
  fix w
  have "own (own_claim_only plan token phase) (ping env plan phase token)"
    unfolding ping_def by (rule own_transact) (simp add: locked_def own_claim_ops fail_def own_claim_only_def[of _ _ _ a a for a])
  then have "ran (own_claim_only plan token phase) w (snd (ping env plan phase token w))" by (simp add: own_def)
  then show "ran (own_claim_only plan token phase) w (snd (tick_once env plan phase token pid w))"
    by (auto simp: tick_once_def ran_refl split: prod.split sum.split pyerr.split)
qed

lemma loop_ran:
  assumes "run_loop plan phase token pid log_path n envs w = (ticks, over, w')"
  shows "ran (own_claim_only plan token phase) w w'"
  using assms
proof (induction envs arbitrary: n w ticks)
  case (Cons env envs)
  obtain act w1 where t: "tick_once env plan phase token pid w = (act, w1)" by fastforce
  have one: "ran (own_claim_only plan token phase) w w1" by (rule ownD[OF own_tick t])
  have report: "ran (own_claim_only plan token phase) w (snd (run_command env plan c w1))" if "worker_call c = Some (token, phase)" for c
    using ran_trans[OF one] worker_run[OF that] by (simp add: own_def)
  show ?case
  proof (cases act)
    case ACTION_OK
    then show ?thesis using Cons t by (auto split: prod.splits intro: ran_trans[OF one])
  next
    case ACTION_STRIKE
    define w2 where "w2 = (if n + 1 = STRIKE_LIMIT then notify_failure env plan phase token log_path w1 else w1)"
    have "ran (own_claim_only plan token phase) w w2"
      using one report[of "NotifyHeartbeatFailure token phase log_path"] by (simp add: w2_def notify_failure_def)
    moreover obtain ticks' where "run_loop plan phase token pid log_path (Suc n) envs w2 = (ticks', over, w')"
      using Cons.prems t ACTION_STRIKE by (auto simp: Let_def w2_def split: prod.splits)
    ultimately show ?thesis using Cons.IH by (blast intro: ran_trans)
  next
    case ACTION_EXIT_WORKER_DEAD
    then show ?thesis using Cons.prems t report[of "NotifyWorkerDead token phase"] by (auto simp: report_death_def)
  next
    case ACTION_EXIT_CLAIM_GONE
    then show ?thesis using Cons.prems t one by auto
  qed
qed (simp add: ran_refl)

text \<open>
  The daemon of a worker never touches a claim that is not that worker's: in a whole run of the loop,
  heartbeats and reports included, every transaction that changes the claims table found
  the plan held under the token and phase the daemon was started with.
\<close>

theorem daemon_touches_own_claim:
  assumes "run_loop plan phase token pid log_path n envs w = (ticks, over, w')" and "w_trace w = []"
    and "(a, b) \<in> set (w_trace w')" and "db_ok a" and "holder a plan \<noteq> Some (JStr token, JStr phase)"
  shows "t_claims b = t_claims a"
  using loop_ran[OF assms(1)] assms(2-5) by (auto simp: ran_def own_claim_only_def)

section \<open>Runs\<close>

text \<open>The store is locked for three ticks; then the worker is gone.\<close>

definition gone_os :: os_view where
  "gone_os = example_os\<lparr>kill_probe := (\<lambda>_. NoSuchProcess)\<rparr>"

definition locked_env :: cmd_env where
  "locked_env = example_cmd_env\<lparr>ce_busy := True\<rparr>"

definition example_envs :: "cmd_env list" where
  "example_envs = [locked_env, locked_env, locked_env, locked_env\<lparr>ce_os := gone_os\<rparr>, example_cmd_env]"

definition example_run :: "(hb_action \<times> hb_report option) list \<times> bool \<times> world" where
  "example_run = run_loop ''w1'' ''a'' ''session-abc'' 10 ''hb.log'' 0 example_envs (calm held_db)"

lemma example_alive: "pid_alive (ce_os locked_env) ''w1'' 10" "\<not> pid_alive (ce_os (locked_env\<lparr>ce_os := gone_os\<rparr>)) ''w1'' 10"
  by code_simp+

lemma locked_tick:
  "tick_once locked_env ''w1'' ''a'' ''session-abc'' 10 w =
     (ACTION_STRIKE, snd (ping locked_env ''w1'' ''a'' ''session-abc'' w))"
  using example_alive by (simp add: tick_once_def ping_def transact_def locked_def fail_def locked_env_def split: prod.split)

lemma gone_tick: "tick_once (locked_env\<lparr>ce_os := gone_os\<rparr>) ''w1'' ''a'' ''session-abc'' 10 w = (ACTION_EXIT_WORKER_DEAD, w)"
  using example_alive by (simp add: tick_once_def)

lemma example_run_ticks:
  "fst example_run = [(ACTION_STRIKE, None), (ACTION_STRIKE, None), (ACTION_STRIKE, Some FailureReport), (ACTION_EXIT_WORKER_DEAD, Some DeathReport)]"
  by (simp add: example_run_def example_envs_def locked_tick gone_tick STRIKE_LIMIT_def Let_def)

lemma example_run_eq:
  "\<exists>over w'. run_loop ''w1'' ''a'' ''session-abc'' 10 ''hb.log'' 0 example_envs (calm held_db) = (fst example_run, over, w')"
  by (metis example_run_def prod.collapse)

theorem daemon_reports_witness:
  "\<exists>ticks w'. run_loop ''w1'' ''a'' ''session-abc'' 10 ''hb.log'' 0 example_envs (calm held_db) = (ticks, True, w')
     \<and> snd (ticks ! 3) = Some DeathReport \<and> snd (ticks ! 2) = report_due 0 (take 3 (map fst ticks))"
proof -
  obtain over w' where r: "run_loop ''w1'' ''a'' ''session-abc'' 10 ''hb.log'' 0 example_envs (calm held_db) = (fst example_run, over, w')"
    using example_run_eq by blast
  have "over" using daemon_reports[OF r, of 3] by (simp add: example_run_ticks is_exit_def)
  moreover have "snd (fst example_run ! 2) = report_due 0 (take 3 (map fst (fst example_run)))"
    using daemon_reports[OF r, of 2] by (simp add: example_run_ticks numeral_3_eq_3 del: report_due.simps)
  ultimately show ?thesis using r by (simp add: example_run_ticks)
qed


lemma tick_trace:
  assumes "pid_alive (ce_os env) plan pid" "tick_once env plan phase token pid w = (act, w')"
  shows "\<exists>b. w_trace w' = w_trace w @ [(w_db (settle w), b)]"
  using assms by (auto simp: tick_once_def ping_def transact_def split: prod.splits sum.splits pyerr.splits)

theorem daemon_touches_own_claim_witness:
  "\<exists>ticks w' b. run_loop ''w1'' ''a'' ''session-abc'' 10 ''hb.log'' 0 [example_cmd_env] (calm (redispatch held_db)) = (ticks, True, w')
     \<and> (redispatch held_db, b) \<in> set (w_trace w') \<and> t_claims b = t_claims (redispatch held_db)"
proof -
  let ?e = "example_cmd_env" and ?u = "calm (redispatch held_db)"
  obtain act w' where t: "tick_once ?e ''w1'' ''a'' ''session-abc'' 10 ?u = (act, w')" by fastforce
  have "fst (tick_once ?e ''w1'' ''a'' ''session-abc'' 10 ?u) = ACTION_EXIT_CLAIM_GONE" by code_simp
  then have gone: "act = ACTION_EXIT_CLAIM_GONE" using t by simp
  have r: "run_loop ''w1'' ''a'' ''session-abc'' 10 ''hb.log'' 0 [?e] ?u = ([(act, None)], True, w')" by (simp add: t gone)
  have "pid_alive (ce_os ?e) ''w1'' 10" by code_simp
  from tick_trace[OF this t] obtain b where b: "w_trace w' = [(redispatch held_db, b)]" by auto
  from daemon_touches_own_claim[OF r _ _ redispatch_ok, of b] b redispatch_holder have "t_claims b = t_claims (redispatch held_db)" by simp
  then show ?thesis using r b by auto
qed

end
