(* ===== verification/Templates.thy ===== *)
theory Templates
  imports Slugs
begin

text \<open>
  Command lines of workers (\<open>dispatch.py\<close>): what the code uses of \<open>shlex\<close> and of \<open>str.format\<close>,
  the rendering of the dispatch template, and why a rendered value is always exactly one
  shell word.
\<close>

section \<open>Shell words\<close>

definition quote1 :: char where "quote1 = CHR 0x27"
definition quote2 :: char where "quote2 = CHR 0x22"
definition backslash :: char where "backslash = CHR 0x5C"

definition SAFE_CHARS :: string where
  "SAFE_CHARS = ''abcdefghijklmnopqrstuvwxyzABCDEFGHIJKLMNOPQRSTUVWXYZ0123456789_@%+=:,./-''"

definition shlex_quote :: "string \<Rightarrow> string" where
  "shlex_quote s =
     (if s = [] then [quote1, quote1]
      else if set s \<subseteq> set SAFE_CHARS then s
      else quote1 # concat (map (\<lambda>c. if c = quote1 then [quote1, quote2, quote1, quote2, quote1] else [c]) s) @ [quote1])"

definition sh_blank :: "char \<Rightarrow> bool" where
  "sh_blank c \<longleftrightarrow> c \<in> {CHR '' '', CHR 0x09, CHR 0x0D, CHR 0x0A}"

text \<open>
  \<open>shlex.split\<close>: between words, in a word, in a quotation, after a backslash in a word or in a
  double quotation. \<open>q\<close> says that the word had a quotation, \<open>tok\<close> is the word so far. \<open>None\<close> is the
  \<open>ValueError\<close> of a quotation or an escape that does not end.
\<close>

datatype sh_state = Blank | InWord | InQuote char | EscWord | EscQuote

fun sh_words :: "sh_state \<Rightarrow> bool \<Rightarrow> string \<Rightarrow> string \<Rightarrow> string list option" where
  "sh_words Blank q tok [] = Some []"
| "sh_words Blank q tok (c # cs) =
     (if sh_blank c then sh_words Blank False [] cs
      else if c = backslash then sh_words EscWord False [] cs
      else if c = quote1 \<or> c = quote2 then sh_words (InQuote c) True [] cs
      else sh_words InWord False [c] cs)"
| "sh_words InWord q tok [] = Some (if tok = [] \<and> \<not> q then [] else [tok])"
| "sh_words InWord q tok (c # cs) =
     (if sh_blank c
      then (if tok = [] \<and> \<not> q then sh_words Blank False [] cs
            else map_option ((#) tok) (sh_words Blank False [] cs))
      else if c = quote1 \<or> c = quote2 then sh_words (InQuote c) True tok cs
      else if c = backslash then sh_words EscWord q tok cs
      else sh_words InWord q (tok @ [c]) cs)"
| "sh_words (InQuote k) q tok [] = None"
| "sh_words (InQuote k) q tok (c # cs) =
     (if c = k then sh_words InWord True tok cs
      else if c = backslash \<and> k = quote2 then sh_words EscQuote True tok cs
      else sh_words (InQuote k) True (tok @ [c]) cs)"
| "sh_words EscWord q tok [] = None"
| "sh_words EscWord q tok (c # cs) = sh_words InWord q (tok @ [c]) cs"
| "sh_words EscQuote q tok [] = None"
| "sh_words EscQuote q tok (c # cs) =
     sh_words (InQuote quote2) True (tok @ (if c = backslash \<or> c = quote2 then [] else [backslash]) @ [c]) cs"

definition shlex_split :: "string \<Rightarrow> string list option" where
  "shlex_split s = sh_words Blank False [] s"

section \<open>Templates\<close>

text \<open>
  \<open>string.Formatter().parse\<close>: literal text and replacement fields, a field with the text between
  its braces; \<open>None\<close> for the \<open>ValueError\<close> of an unbalanced brace.
\<close>

datatype piece = Lit string | Field string

fun field_text :: "nat \<Rightarrow> string \<Rightarrow> (string \<times> string) option" where
  "field_text n [] = None"
| "field_text n (c # cs) =
     (if c = CHR ''}''
      then (case n of 0 \<Rightarrow> Some ([], cs) | Suc m \<Rightarrow> map_option (map_prod ((#) c) id) (field_text m cs))
      else map_option (map_prod ((#) c) id) (field_text (if c = CHR ''{'' then Suc n else n) cs))"

lemma field_text_shorter: "field_text n s = Some (f, rest) \<Longrightarrow> length rest < length s"
  by (induction n s arbitrary: f rest rule: field_text.induct)
    (auto split: if_splits nat.splits simp: less_Suc_eq)

function (sequential) parse_template :: "string \<Rightarrow> piece list option" where
  "parse_template [] = Some []"
| "parse_template (c # cs) =
     (if c = CHR ''{'' then
        (case cs of
           d # ds \<Rightarrow> if d = CHR ''{'' then map_option ((#) (Lit [c])) (parse_template ds)
             else (case field_text 0 cs of
                     None \<Rightarrow> None
                   | Some (f, rest) \<Rightarrow> map_option ((#) (Field f)) (parse_template rest))
         | [] \<Rightarrow> None)
      else if c = CHR ''}'' then
        (case cs of
           d # ds \<Rightarrow> if d = CHR ''}'' then map_option ((#) (Lit [c])) (parse_template ds) else None
         | [] \<Rightarrow> None)
      else map_option ((#) (Lit [c])) (parse_template cs))"
  by pat_completeness auto
termination
  by (relation "measure length") (auto simp del: field_text.simps dest!: field_text_shorter)

declare parse_template.simps [simp del]

text \<open>The name of a field, without conversion, format specification, attribute or index.\<close>

definition field_name :: "string \<Rightarrow> string" where
  "field_name f = takeWhile (\<lambda>c. c \<notin> {CHR ''!'', CHR '':''}) f"

definition template_uses_session_id :: "string \<Rightarrow> bool" where
  "template_uses_session_id tmpl =
     (case parse_template tmpl of
        None \<Rightarrow> False
      | Some ps \<Rightarrow> list_ex (\<lambda>p. case p of Field f \<Rightarrow> field_name f = ''session_id'' | Lit _ \<Rightarrow> False) ps)"

text \<open>
  \<open>cmd_tmpl.format(...)\<close>. A field that is just a placeholder has its quoted value; one with a conversion
  or a specification behind the name is left to \<open>fmt\<close>, the rest of Python's format
  language; an unknown name is a \<open>KeyError\<close>.
\<close>

definition NAME_ENDS :: string where
  "NAME_ENDS = ''!:.[''"

type_synonym formatter = "string \<Rightarrow> string \<Rightarrow> string res"

definition render_field :: "formatter \<Rightarrow> (string \<times> string) list \<Rightarrow> string \<Rightarrow> string res" where
  "render_field fmt vals f =
     (let name = takeWhile (\<lambda>c. c \<notin> set NAME_ENDS) f in
      case map_of vals name of
        None \<Rightarrow> Inl (KeyErr name)
      | Some v \<Rightarrow> if name = f then Inr (shlex_quote v) else fmt (drop (length name) f) (shlex_quote v))"

fun render_pieces :: "formatter \<Rightarrow> (string \<times> string) list \<Rightarrow> piece list \<Rightarrow> string res" where
  "render_pieces fmt vals [] = Inr []"
| "render_pieces fmt vals (Lit l # ps) = bind_res (render_pieces fmt vals ps) (\<lambda>r. Inr (l @ r))"
| "render_pieces fmt vals (Field f # ps) =
     bind_res (render_field fmt vals f) (\<lambda>v. bind_res (render_pieces fmt vals ps) (\<lambda>r. Inr (v @ r)))"

definition render_command :: "formatter \<Rightarrow> string \<Rightarrow> (string \<times> string) list \<Rightarrow> string res" where
  "render_command fmt tmpl vals =
     (case parse_template tmpl of
        None \<Rightarrow> Inl (ValueErr ''unbalanced brace'')
      | Some ps \<Rightarrow> render_pieces fmt vals ps)"

definition placeholder_values ::
    "string \<Rightarrow> string \<Rightarrow> string \<Rightarrow> string \<Rightarrow> string \<Rightarrow> string \<Rightarrow> (string \<times> string) list" where
  "placeholder_values plan_slug phase_id token proj state_file session_id =
     [(''plan_slug'', plan_slug), (''phase_id'', phase_id), (''token'', token), (''project'', proj),
      (''state_file'', state_file), (''session_id'', session_id)]"

text \<open>\<open>resolved_model\<close>: the value of the first \<open>--model\<close> flag.\<close>

fun model_of :: "string list \<Rightarrow> string option" where
  "model_of [] = None"
| "model_of (w # ws) =
     (if w = ''--model'' \<and> ws \<noteq> [] then Some (hd ws)
      else if prefix ''--model='' w then Some (drop 8 w)
      else model_of ws)"

definition resolved_model :: "string \<Rightarrow> string option" where
  "resolved_model tmpl = (case shlex_split tmpl of None \<Rightarrow> None | Some ws \<Rightarrow> model_of ws)"

section \<open>A quoted value is one word\<close>

lemma quotes_special [simp]: "\<not> sh_blank quote1" "\<not> sh_blank quote2" "quote1 \<noteq> backslash" "quote2 \<noteq> backslash" "quote1 \<noteq> quote2"
    "quote2 \<noteq> quote1" "backslash \<noteq> quote1" "backslash \<noteq> quote2"
  by (simp_all add: sh_blank_def quote1_def quote2_def backslash_def)

lemma safe_plain: "c \<in> set SAFE_CHARS \<Longrightarrow> \<not> sh_blank c \<and> c \<noteq> quote1 \<and> c \<noteq> quote2 \<and> c \<noteq> backslash"
  unfolding SAFE_CHARS_def sh_blank_def quote1_def quote2_def backslash_def by auto

definition word_stop :: "string \<Rightarrow> bool" where
  "word_stop rest \<longleftrightarrow> (case rest of [] \<Rightarrow> True | c # _ \<Rightarrow> sh_blank c)"

lemma words_stop: "word_stop rest \<Longrightarrow> tok \<noteq> [] \<or> q \<Longrightarrow>
    sh_words InWord q tok rest = map_option ((#) tok) (sh_words Blank False [] rest)"
  by (cases rest) (auto simp: word_stop_def)

lemma words_safe: "set s \<subseteq> set SAFE_CHARS \<Longrightarrow> sh_words InWord q tok (s @ rest) = sh_words InWord q (tok @ s) rest"
  by (induction s arbitrary: tok) (auto dest: safe_plain)

lemma words_quoted:
  "sh_words (InQuote quote1) True tok
     (concat (map (\<lambda>c. if c = quote1 then [quote1, quote2, quote1, quote2, quote1] else [c]) s) @ quote1 # rest)
   = sh_words InWord True (tok @ s) rest"
  by (induction s arbitrary: tok) auto

lemma words_quote:
  assumes "word_stop rest"
  shows "sh_words Blank False [] (shlex_quote s @ rest) = map_option ((#) s) (sh_words Blank False [] rest)"
proof (cases "s = [] \<or> \<not> set s \<subseteq> set SAFE_CHARS")
  case True
  then have "shlex_quote s @ rest = quote1 # concat (map (\<lambda>c. if c = quote1 then [quote1, quote2, quote1, quote2, quote1] else [c]) s) @ quote1 # rest"
    by (auto simp: shlex_quote_def)
  then show ?thesis using words_quoted[of "[]" s rest] words_stop[OF assms, of s True] by simp
next
  case False
  then obtain c cs where s: "s = c # cs" "c \<in> set SAFE_CHARS" "set cs \<subseteq> set SAFE_CHARS" by (cases s) auto
  with False have "shlex_quote s = s" by (simp add: shlex_quote_def)
  then show ?thesis using s words_safe[OF s(3), of False "[c]" rest] words_stop[OF assms, of s False] safe_plain[OF s(2)] by auto
qed

lemma shell_words_join:
  "shlex_split (join_with (CHR '' '') (map shlex_quote ws)) = Some ws"
proof -
  have stop: "word_stop (CHR '' '' # r)" "sh_words Blank False [] (CHR '' '' # r) = sh_words Blank False [] r" for r
    by (simp_all add: word_stop_def sh_blank_def)
  have "sh_words Blank False [] (join_with (CHR '' '') (map shlex_quote ws)) = Some ws"
  proof (induction ws rule: induct_list012)
    case (2 w)
    then show ?case using words_quote[of "[]" w] by (simp add: word_stop_def)
  next
    case (3 v w ws)
    then show ?case using words_quote[OF stop(1), of v] stop(2) by simp
  qed simp
  then show ?thesis by (simp add: shlex_split_def)
qed

section \<open>Rendered templates\<close>

text \<open>A word of a simple template: plain text, or one placeholder.\<close>

datatype tword = Plain string | Place string

fun tword_text :: "tword \<Rightarrow> string" where
  "tword_text (Plain s) = s"
| "tword_text (Place n) = CHR ''{'' # n @ [CHR ''}'']"

fun tword_value :: "(string \<times> string) list \<Rightarrow> tword \<Rightarrow> string" where
  "tword_value vals (Plain s) = s"
| "tword_value vals (Place n) = (case map_of vals n of None \<Rightarrow> [] | Some v \<Rightarrow> v)"

fun tword_ok :: "(string \<times> string) list \<Rightarrow> tword \<Rightarrow> bool" where
  "tword_ok vals (Plain s) = (s \<noteq> [] \<and> set s \<subseteq> set SAFE_CHARS)"
| "tword_ok vals (Place n) = (n \<in> fst ` set vals \<and> set n \<inter> ({CHR ''{'', CHR ''}''} \<union> set NAME_ENDS) = {})"

definition simple_template :: "tword list \<Rightarrow> string" where
  "simple_template ws = join_with (CHR '' '') (map tword_text ws)"

lemma field_text_plain: "set n \<inter> {CHR ''{'', CHR ''}''} = {} \<Longrightarrow> field_text 0 (n @ CHR ''}'' # rest) = Some (n, rest)"
  by (induction n) auto

lemma parse_plain: "set s \<inter> {CHR ''{'', CHR ''}''} = {} \<Longrightarrow>
    parse_template (s @ rest) = map_option ((@) (map (\<lambda>c. Lit [c]) s)) (parse_template rest)"
  by (induction s; cases "parse_template rest") (auto simp: parse_template.simps(2))

lemma parse_place:
  assumes "set n \<inter> {CHR ''{'', CHR ''}''} = {}"
  shows "parse_template (CHR ''{'' # n @ CHR ''}'' # rest) = map_option ((#) (Field n)) (parse_template rest)"
proof -
  obtain d ds where d: "n @ CHR ''}'' # rest = d # ds" "d \<noteq> CHR ''{''" using assms by (cases n) auto
  then show ?thesis using field_text_plain[OF assms, of rest]
    by (subst parse_template.simps(2)) simp
qed

lemma safe_no_brace: "set s \<subseteq> set SAFE_CHARS \<Longrightarrow> set s \<inter> {CHR ''{'', CHR ''}''} = {}"
  unfolding SAFE_CHARS_def by auto

definition tword_pieces :: "tword \<Rightarrow> piece list" where
  "tword_pieces w = (case w of Plain s \<Rightarrow> map (\<lambda>c. Lit [c]) s | Place n \<Rightarrow> [Field n])"

lemma parse_tword:
  "tword_ok vals w \<Longrightarrow> parse_template (tword_text w @ rest) = map_option ((@) (tword_pieces w)) (parse_template rest)"
proof (cases w)
  case (Place n)
  assume "tword_ok vals w"
  then have "set n \<inter> {CHR ''{'', CHR ''}''} = {}" using Place by auto
  from parse_place[OF this, of rest] show ?thesis using Place by (cases "parse_template rest") (simp_all add: tword_pieces_def)
next
  case (Plain s)
  assume "tword_ok vals w"
  then have "set s \<subseteq> set SAFE_CHARS" using Plain by simp
  from parse_plain[OF safe_no_brace[OF this], of rest] show ?thesis using Plain by (simp add: tword_pieces_def)
qed

lemma render_append: "render_pieces fmt vals (ps @ qs) =
    bind_res (render_pieces fmt vals ps) (\<lambda>a. bind_res (render_pieces fmt vals qs) (\<lambda>b. Inr (a @ b)))"
  by (induction fmt vals ps rule: render_pieces.induct) (auto simp: bind_res_def split: sum.splits)

lemma render_tword:
  assumes "tword_ok vals w"
  shows "render_pieces fmt vals (tword_pieces w) = Inr (shlex_quote (tword_value vals w))"
proof (cases w)
  case (Plain s)
  have "render_pieces fmt vals (map (\<lambda>c. Lit [c]) s) = Inr s" for s by (induction s) simp_all
  then show ?thesis using assms Plain by (simp add: tword_pieces_def shlex_quote_def)
next
  case (Place n)
  then have n: "n \<in> fst ` set vals" "set n \<inter> ({CHR ''{'', CHR ''}''} \<union> set NAME_ENDS) = {}"
    using assms by simp_all
  have t: "takeWhile (\<lambda>c. c \<notin> set NAME_ENDS) n = n"
    unfolding takeWhile_eq_all_conv using n(2) by blast
  obtain v where v: "map_of vals n = Some v" using n(1) by (metis map_of_eq_None_iff option.exhaust)
  have "render_field fmt vals n = Inr (shlex_quote v)" by (simp add: render_field_def t v)
  then show ?thesis using Place v by (simp add: tword_pieces_def)
qed

lemma render_simple:
  assumes "list_all (tword_ok vals) ws"
  shows "render_command fmt (simple_template ws) vals = Inr (join_with (CHR '' '') (map (shlex_quote \<circ> tword_value vals) ws))"
proof -
  define ps where "ps = (\<lambda>ws. case ws of [] \<Rightarrow> [] | w # vs \<Rightarrow> tword_pieces w @ concat (map (\<lambda>v. Lit '' '' # tword_pieces v) vs))"
  have p: "parse_template (simple_template ws) = Some (ps ws)" using assms
  proof (induction ws rule: induct_list012)
    case 1
    then show ?case by (simp add: simple_template_def ps_def parse_template.simps)
  next
    case (2 w)
    then show ?case using parse_tword[of vals w "[]"] by (simp add: simple_template_def ps_def parse_template.simps(1))
  next
    case (3 v w ws)
    then have "parse_template (CHR '' '' # simple_template (w # ws)) = Some (Lit '' '' # ps (w # ws))"
      by (simp add: parse_template.simps(2))
    then show ?case using parse_tword[of vals v "CHR '' '' # simple_template (w # ws)"] 3(3) by (simp add: simple_template_def ps_def)
  qed
  have "render_pieces fmt vals (ps ws) = Inr (join_with (CHR '' '') (map (shlex_quote \<circ> tword_value vals) ws))" using assms
  proof (induction ws rule: induct_list012)
    case (3 v w ws)
    have "ps (v # w # ws) = tword_pieces v @ [Lit '' ''] @ ps (w # ws)" by (simp add: ps_def)
    then show ?case using 3 by (simp add: render_append render_tword)
  qed (simp_all add: ps_def render_tword)
  then show ?thesis using p by (simp add: render_command_def)
qed


end
