(* ===== verification/Dispatch.thy ===== *)
theory Dispatch
  imports Commands Templates
begin

text \<open>
  Starting the worker of a phase the tick has just claimed (\<open>dispatch.py\<close>): the context of an
  earlier attempt, the worker's environment and command, the start itself with the wait for a fast
  failure, and the four ways it ends: the process is stamped on the claim, or the claim is
  released again as an exhausted quota, as a failure of the host (the plan is paused), or as a
  plain failure.

  The start of the process (\<open>Popen\<close> and the wait) is an input, and so are the files that exist
  and the environment of the supervisor.
\<close>

abbreviation EVENT_DISPATCH_FAILED :: string where "EVENT_DISPATCH_FAILED \<equiv> ''dispatch_failed''"
abbreviation EVENT_WORKTREE_MISSING :: string where "EVENT_WORKTREE_MISSING \<equiv> ''worktree_missing''"

section \<open>Inputs\<close>

text \<open>\<open>Spawned pid rc\<close>: started; \<open>rc\<close> is the exit code of a worker that ended during the wait.\<close>

datatype spawn_outcome = SpawnNotFound string | SpawnRaises pyerr | Spawned int "int option"

record dispatch_env =
  de_env :: cmd_env
  de_command :: string
  de_kind :: string
  de_path :: string
  de_bash_max :: int
  de_environ :: "(string \<times> string) list"
  de_fresh :: string
  de_fmt :: formatter
  de_state_file :: string
  de_log_dir :: string
  de_exists :: "string \<Rightarrow> bool"
  de_spawn :: spawn_outcome

section \<open>The worker's environment\<close>

text \<open>\<open>None\<close> inherits the supervisor's.\<close>

definition build_worker_env ::
    "string \<Rightarrow> string \<Rightarrow> int \<Rightarrow> (string \<times> string) list \<Rightarrow> string option \<Rightarrow> string option \<Rightarrow> string option
       \<Rightarrow> (string \<times> string) list option" where
  "build_worker_env proj path bash_max environ plan_slug phase_id token =
     (let inject = (plan_slug \<noteq> None \<or> phase_id \<noteq> None \<or> token \<noteq> None);
          str_of = (\<lambda>v. case v of None \<Rightarrow> [] | Some s \<Rightarrow> s);
          env1 = (if path = [] then environ else AList.update ''PATH'' path environ);
          env2 = AList.update ''CLU_PROJECT'' proj (AList.update ''CLU_TOKEN'' (str_of token)
                   (AList.update ''CLU_PHASE'' (str_of phase_id) (AList.update ''CLU_PLAN'' (str_of plan_slug) env1)))
      in if path = [] \<and> \<not> inject then None
         else if \<not> inject then Some env1
         else Some (if map_of env2 ''BASH_MAX_TIMEOUT_MS'' = None
                    then AList.update ''BASH_MAX_TIMEOUT_MS'' (show_int bash_max) env2 else env2))"

section \<open>Failures of the host\<close>

definition blanks_rest :: "string \<Rightarrow> string option" where
  "blanks_rest s = (case s of c # cs \<Rightarrow> if is_space c then Some (lstrip cs) else None | [] \<Rightarrow> None)"

definition rate_limit_at :: "string \<Rightarrow> string option" where
  "rate_limit_at s =
     (case ci_rest ''rate'' s of
        None \<Rightarrow> None
      | Some r \<Rightarrow>
          (case r of
             c # cs \<Rightarrow>
               if (is_space c \<or> c = CHR ''_'' \<or> c = CHR ''-'') \<and> ci_rest ''limit'' cs \<noteq> None
               then ci_rest ''limit'' cs else ci_rest ''limit'' r
           | [] \<Rightarrow> None))"

definition spaced :: "string \<Rightarrow> string list \<Rightarrow> string \<Rightarrow> string option" where
  "spaced w ws s =
     fold (\<lambda>v r. case r of None \<Rightarrow> None
             | Some r' \<Rightarrow> (case blanks_rest r' of None \<Rightarrow> None | Some r'' \<Rightarrow> ci_rest v r''))
       ws (ci_rest w s)"

definition found_in :: "(string \<Rightarrow> string option) \<Rightarrow> string \<Rightarrow> bool" where
  "found_in pat s \<longleftrightarrow> search_from pat s \<noteq> None"

definition match_systemic_signature :: "string option \<Rightarrow> int \<Rightarrow> string option" where
  "match_systemic_signature content rc =
     (let tail = read_log_tail content in
      if rc = 127 \<and> found_in (ci_rest ''command not found'') tail then Some ''missing_binary''
      else if found_in rate_limit_at tail \<or> found_in (ci_rest ''ratelimiterror'') tail then Some ''rate_limit''
      else if found_in (spaced ''401'' [''unauthorized'']) tail \<or> found_in (ci_rest ''authenticationerror'') tail
           \<or> found_in (spaced ''invalid'' [''api'', ''key'']) tail then Some ''auth_failure''
      else None)"

section \<open>The context of an earlier attempt\<close>

definition TERMINATION_REASONS :: "(string \<times> string) list" where
  "TERMINATION_REASONS =
     [(EVENT_LEASE_EXPIRED, ''lease expired (worker didn'' @ [quote1] @ ''t callback in time)''),
      (EVENT_CLAIM_FORCE_RELEASED, ''operator force-released the claim''),
      (EVENT_PHASE_BLOCKED, ''worker blocked on a question''),
      (EVENT_DISPATCH_FAILED, ''previous dispatch failed''),
      (EVENT_SYSTEMIC_FAILURE, ''systemic failure (rate-limit, auth, missing binary)''),
      (EVENT_PHASE_WORKER_DEAD_REPORTED,
       ''worker process died mid-phase (heartbeat daemon reported it) '' @ [CHR 0xE2, CHR 0x80, CHR 0x94] @
       '' the likely cause is ending the turn to wait on a background task or Monitor, which `claude --print` never resumes; run long steps in the foreground'')]"

definition last_termination_reason :: "doc \<Rightarrow> string \<Rightarrow> string option" where
  "last_termination_reason d phase =
     (case find_last (\<lambda>e. dget e ''phase'' = Some (JStr phase) \<and> sget e ''type'' \<in> set (map fst TERMINATION_REASONS)) (d_events d) of
        None \<Rightarrow> None
      | Some e \<Rightarrow> map_of TERMINATION_REASONS (sget e ''type''))"

definition run_git_safe :: "cmd_env \<Rightarrow> string \<Rightarrow> string list \<Rightarrow> string option cmd" where
  "run_git_safe env dir argv =
     cbind (emit (Git ([''-C'', dir] @ argv))) (\<lambda>_.
       cret (case ce_git env ([''-C'', dir] @ argv) of
               None \<Rightarrow> None
             | Some p \<Rightarrow> if p_rc p = 0 then Some (p_out p) else None))"

definition fence :: string where "fence = ''```''"
definition dash :: string where "dash = [CHR 0xE2, CHR 0x80, CHR 0x94]"

definition fenced :: "string \<Rightarrow> string \<Rightarrow> string" where
  "fenced title body = ''### '' @ title @ [newline] @ fence @ [newline] @ rstrip body @ [newline] @ fence"

definition paragraphs :: "string list \<Rightarrow> string" where
  "paragraphs ps = concat (map (\<lambda>p. p @ [newline, newline]) (butlast ps)) @ (if ps = [] then [] else last ps) @ [newline]"

definition prev_attempt_context ::
    "cmd_env \<Rightarrow> string \<Rightarrow> string \<Rightarrow> int \<Rightarrow> string option \<Rightarrow> string cmd" where
  "prev_attempt_context env path base_ref attempt reason =
     cbind (run_git_safe env path [''status'', ''--short'']) (\<lambda>status.
     cbind (run_git_safe env path [''diff'', ''--stat'', ''HEAD'']) (\<lambda>diff_stat.
     cbind (run_git_safe env path [''log'', ''--oneline'', ''HEAD'', CHR 0x5E # base_ref]) (\<lambda>commits.
       cret (paragraphs (
         [''## Previous attempt state (attempt '' @ show_int attempt @ '')'']
         @ (case reason of None \<Rightarrow> [] | Some [] \<Rightarrow> [] | Some r \<Rightarrow> [''Prior attempt ended: '' @ r])
         @ (case status of
              None \<Rightarrow> [''(git status unavailable)'']
            | Some s \<Rightarrow> if strip s = [] then [''Worktree is clean '' @ dash @ '' no uncommitted changes from prior attempts.'']
                else [fenced ''Uncommitted changes'' s])
         @ (case diff_stat of None \<Rightarrow> [] | Some s \<Rightarrow> if strip s = [] then [] else [fenced ''Diff stat'' s])
         @ (case commits of
              None \<Rightarrow> [''(commit log unavailable)'']
            | Some s \<Rightarrow> if strip s = [] then [''No commits landed by prior attempts.'']
                else [fenced ''Commits landed by prior attempts'' s])
         @ [''You may keep, continue, or reset these edits '' @ dash @
            '' decide based on whether they align with the sub-plan. Reset is `git reset --hard '' @ base_ref @
            '' && git clean -fd`. Otherwise inspect and continue.''])))))"

definition context_path :: "dispatch_env \<Rightarrow> string \<Rightarrow> string \<Rightarrow> string" where
  "context_path de slug phase = de_log_dir de @ ''/attempt-context.'' @ slug @ ''.'' @ phase @ ''.md''"

text \<open>\<open>int(claim.get("attempts", 1))\<close>\<close>

definition claim_attempts :: "obj \<Rightarrow> int res" where
  "claim_attempts claim =
     (case dget claim ''attempts'' of
        None \<Rightarrow> Inr 1
      | Some (JInt n) \<Rightarrow> Inr n
      | Some (JBool b) \<Rightarrow> Inr (of_bool b)
      | Some _ \<Rightarrow> Inl (RuntimeErr ''TypeError''))"

definition maybe_write_attempt_context :: "dispatch_env \<Rightarrow> string \<Rightarrow> string \<Rightarrow> jval \<Rightarrow> unit cmd" where
  "maybe_write_attempt_context de slug phase worktree =
     cbind (ccatch (cbind (read_plan slug) (\<lambda>d. cret (Some d))) (\<lambda>e. if degradable e then Some (cret None) else None)) (\<lambda>read.
       case read of
         None \<Rightarrow> cret ()
       | Some d \<Rightarrow>
           cbind (clift (claim_attempts (case d_claim d of None \<Rightarrow> [] | Some c \<Rightarrow> c))) (\<lambda>attempts.
             let base_ref = (case worktree of JObj o' \<Rightarrow> sget o' ''base_ref'' | _ \<Rightarrow> []) in
             if attempts \<le> 1 \<or> base_ref = []
             then emit_if (de_exists de (context_path de slug phase)) (DeletedFile (context_path de slug phase))
             else
               cbind (clift (need_key worktree ''path'')) (\<lambda>path.
               cbind (prev_attempt_context (de_env de) path base_ref attempts (last_termination_reason d phase)) (\<lambda>content.
                 emit (WroteFile (context_path de slug phase) content)))))"

definition worktree_alive :: "dispatch_env \<Rightarrow> string \<Rightarrow> bool cmd" where
  "worktree_alive de path =
     (if \<not> de_exists de path then cret False
      else cbind (run_git (de_env de) [''-C'', path, ''rev-parse'', ''--git-dir'']) (\<lambda>p. cret (p_rc p = 0)))"

section \<open>Recording a failure\<close>

text \<open>A write waits for the lock within the budget of the store.\<close>

definition store_write :: "dispatch_env \<Rightarrow> 'a txn \<Rightarrow> 'a cmd" where
  "store_write de t = transact (locked (ce_busy (de_env de)) t)"

definition on_mismatch :: "unit cmd \<Rightarrow> unit cmd \<Rightarrow> unit cmd" where
  "on_mismatch m k = ccatch m (\<lambda>e. case e of ClaimMismatch _ \<Rightarrow> Some k | _ \<Rightarrow> None)"

definition tolerant :: "unit cmd \<Rightarrow> bool cmd" where
  "tolerant m = ccatch (cbind m (\<lambda>_. cret True)) (\<lambda>e. if degradable e then Some (cret False) else None)"

definition release_recording :: "dispatch_env \<Rightarrow> string \<Rightarrow> string option \<Rightarrow> string \<Rightarrow> obj list \<Rightarrow> unit cmd" where
  "release_recording de slug token phase evs =
     on_mismatch (cbind (store_write de (op_release_claim slug token (Some phase) evs)) (\<lambda>_. cret ()))
       (store_write de (op_append_events slug evs None None))"

definition pause_recording :: "dispatch_env \<Rightarrow> string \<Rightarrow> string option \<Rightarrow> string \<Rightarrow> obj \<Rightarrow> unit cmd" where
  "pause_recording de slug token phase e =
     on_mismatch (store_write de (op_set_status slug STATUS_PAUSED [e] token (Some phase)))
       (store_write de (op_set_status slug STATUS_PAUSED [e] None None))"

definition failure_event :: "dispatch_env \<Rightarrow> string \<Rightarrow> string \<Rightarrow> string option \<Rightarrow> obj \<Rightarrow> obj" where
  "failure_event de ty phase token flds =
     mk_event (ce_now (de_env de)) ty ([(''phase'', JStr phase), (''token'', opt_str token)] @ flds)"

definition release_with_failure :: "dispatch_env \<Rightarrow> string \<Rightarrow> string option \<Rightarrow> string \<Rightarrow> string \<Rightarrow> unit cmd" where
  "release_with_failure de slug token phase reason =
     cbind (tolerant (release_recording de slug token phase
       [failure_event de EVENT_DISPATCH_FAILED phase token [(''reason'', JStr reason)]])) (\<lambda>_. cret ())"

definition pause_and_halt :: "dispatch_env \<Rightarrow> string \<Rightarrow> string option \<Rightarrow> string \<Rightarrow> string \<Rightarrow> obj \<Rightarrow> notice \<Rightarrow> unit cmd" where
  "pause_and_halt de slug token phase ty flds note =
     cbind (tolerant (pause_recording de slug token phase (failure_event de ty phase token flds))) (\<lambda>ok.
       emit_if ok (Sent note))"

definition pause_for_missing_worktree :: "dispatch_env \<Rightarrow> string \<Rightarrow> string option \<Rightarrow> string \<Rightarrow> string \<Rightarrow> unit cmd" where
  "pause_for_missing_worktree de slug token phase path =
     pause_and_halt de slug token phase EVENT_WORKTREE_MISSING [(''worktree_path'', JStr path)] (WorktreeMissingNote path)"

definition pause_for_systemic_failure ::
    "dispatch_env \<Rightarrow> string \<Rightarrow> string option \<Rightarrow> string \<Rightarrow> string \<Rightarrow> string \<Rightarrow> unit cmd" where
  "pause_for_systemic_failure de slug token phase signature log_path =
     pause_and_halt de slug token phase EVENT_SYSTEMIC_FAILURE
       [(''signature'', JStr signature), (''log_path'', JStr log_path)] (SystemicFailureNote phase signature)"

definition record_quota_fast_fail :: "dispatch_env \<Rightarrow> string \<Rightarrow> string option \<Rightarrow> string \<Rightarrow> string \<Rightarrow> bool cmd" where
  "record_quota_fast_fail de slug token phase log_path =
     (case classify_log_tail (ce_logs (de_env de)) (JStr log_path) of
        None \<Rightarrow> cret False
      | Some qm \<Rightarrow>
          ccatch
            (cbind (store_write de (\<lambda>db. case record_quota_death (ce_zones (de_env de)) (ce_now (de_env de)) qm (JStr phase) (opt_str token) db of
                 (until, evs, db') \<Rightarrow> (Inr (until, evs), db'))) (\<lambda>(until, evs).
             cbind (release_recording de slug token phase evs) (\<lambda>_.
             cbind (emit (Sent (quota_pause_notification (qm_line qm) until))) (\<lambda>_. cret True))))
            (\<lambda>e. if degradable e then Some (cret False) else None))"

text \<open>Best effort: a claim that has moved on, or a store that cannot be written, drops the stamp.\<close>

definition stamp_pid :: "dispatch_env \<Rightarrow> string \<Rightarrow> string option \<Rightarrow> int \<Rightarrow> string \<Rightarrow> string option \<Rightarrow> unit cmd" where
  "stamp_pid de slug token pid log_path session_id =
     (case token of
        None \<Rightarrow> cret ()
      | Some t \<Rightarrow>
          cbind (tolerant (on_mismatch
            (cbind (store_write de (op_stamp_claim_fields slug t
                ([(''pid'', JInt pid), (''pgid'', JInt pid), (''log_path'', JStr log_path)]
                 @ (case session_id of None \<Rightarrow> [] | Some s \<Rightarrow> [(''session_id'', JStr s)])) None None []))
              (\<lambda>_. cret ())) (cret ()))) (\<lambda>_. cret ()))"

section \<open>Dispatch\<close>

definition log_path_of :: "dispatch_env \<Rightarrow> string \<Rightarrow> string option \<Rightarrow> string" where
  "log_path_of de phase token =
     de_log_dir de @ ''/'' @ phase @ ''.'' @ (case token of None \<Rightarrow> ''None'' | Some t \<Rightarrow> t) @ ''.log''"

text \<open>What follows the wait on the started worker.\<close>

definition fast_fail :: "dispatch_env \<Rightarrow> string \<Rightarrow> string option \<Rightarrow> string \<Rightarrow> string \<Rightarrow> int \<Rightarrow> bool cmd" where
  "fast_fail de slug token phase log_path rc =
     cbind (record_quota_fast_fail de slug token phase log_path) (\<lambda>quota.
       if quota then cret False
       else
         (case match_systemic_signature (ce_logs (de_env de) (JStr log_path)) rc of
            Some signature \<Rightarrow>
              cbind (pause_for_systemic_failure de slug token phase signature log_path) (\<lambda>_. cret False)
          | None \<Rightarrow>
              cbind (release_with_failure de slug token phase 
                (''worker exited rc='' @ show_int rc @ '' within 0.5s (see '' @ log_path @ '')'')) (\<lambda>_. cret False)))"

text \<open>The start itself, in the directory \<open>cwd\<close>.\<close>

definition start_worker ::
    "dispatch_env \<Rightarrow> string \<Rightarrow> string option \<Rightarrow> string \<Rightarrow> bool \<Rightarrow> string \<Rightarrow> string \<Rightarrow> string \<Rightarrow> string option \<Rightarrow> bool cmd" where
  "start_worker de slug token phase in_worktree cwd cmd log_path session_id =
     (case de_spawn de of
        SpawnRaises e \<Rightarrow> craise e
      | SpawnNotFound msg \<Rightarrow>
          if in_worktree
          then cbind (pause_for_missing_worktree de slug token phase cwd) (\<lambda>_. cret False)
          else cbind (release_with_failure de slug token phase (''Popen FileNotFoundError: '' @ msg)) (\<lambda>_. cret False)
      | Spawned pid rc \<Rightarrow>
          cbind (emit (SpawnedWorker cmd cwd
            (build_worker_env (cc_root (ce_cfg (de_env de))) (de_path de) (de_bash_max de) (de_environ de)
               (Some slug) (Some phase) token))) (\<lambda>_.
          if rc \<notin> {None, Some 0} then fast_fail de slug token phase log_path (the rc)
          else
            cbind (stamp_pid de slug token pid log_path session_id) (\<lambda>_.
            cbind (emit_if (cc_coolant (ce_cfg (de_env de)))
              (CoolantStart (case token of None \<Rightarrow> [] | Some t \<Rightarrow> t) slug phase)) (\<lambda>_. cret True))))"

text \<open>The command, the context of an earlier attempt and the check of the worktree come before it.\<close>

definition launch :: "dispatch_env \<Rightarrow> string \<Rightarrow> string option \<Rightarrow> string \<Rightarrow> jval option \<Rightarrow> bool cmd" where
  "launch de slug token phase worktree =
     (let session_id = (if template_uses_session_id (de_command de) then Some (de_fresh de) else None);
          cfg = ce_cfg (de_env de)
      in cbind (clift (render_command (de_fmt de) (de_command de)
           (placeholder_values slug phase (case token of None \<Rightarrow> [] | Some t \<Rightarrow> t) (cc_root cfg) (de_state_file de)
              (case session_id of None \<Rightarrow> [] | Some s \<Rightarrow> s)))) (\<lambda>cmd.
         cbind (case worktree of None \<Rightarrow> cret () | Some wt \<Rightarrow> maybe_write_attempt_context de slug phase wt) (\<lambda>_.
         cbind (case worktree of None \<Rightarrow> cret [] | Some wt \<Rightarrow> clift (need_key wt ''path'')) (\<lambda>path.
         cbind (if worktree = None then cret True else worktree_alive de path) (\<lambda>alive.
         if \<not> alive
         then cbind (pause_for_missing_worktree de slug token phase path) (\<lambda>_. cret False)
         else start_worker de slug token phase (worktree \<noteq> None) (if worktree = None then cc_root cfg else path)
           cmd (log_path_of de phase token) session_id)))))"

definition dispatch_for_tick :: "dispatch_env \<Rightarrow> string \<Rightarrow> tick_result \<Rightarrow> bool cmd" where
  "dispatch_for_tick de slug r =
     (case tr_phase r of
        JStr phase \<Rightarrow>
          (let token = (case tr_token r of JStr t \<Rightarrow> Some t | _ \<Rightarrow> None);
               worktree = (case tr_worktree r of Some v \<Rightarrow> if truthy v then Some v else None | None \<Rightarrow> None)
           in if tr_action r \<noteq> ADispatch \<or> phase = [] then cret False
              else if de_command de = []
              then cbind (release_with_failure de slug token phase ''no dispatch.command in .orchestrator.json'') (\<lambda>_. cret False)
              else if de_kind de \<noteq> ''shell'' then craise (ValueErr ''unknown dispatch kind'')
              else launch de slug token phase worktree)
      | _ \<Rightarrow> cret False)"

end
