(* ===== verification/Dispatch_Props.thy ===== *)
theory Dispatch_Props
  imports Dispatch Cmd_Operator
begin

text \<open>
  What a dispatch leaves behind: a claim stamped with the process that was started, or no claim
  and the failure on record; what a failure costs the phase; and whose claim it may touch.
\<close>

section \<open>Accepted transactions of the holder\<close>

definition owns :: "pdb \<Rightarrow> string \<Rightarrow> string \<Rightarrow> string \<Rightarrow> bool" where
  "owns db slug t p \<longleftrightarrow> db_ok db \<and> has_plan db slug \<and> slug_re_match slug \<and> holder db slug = Some (JStr t, JStr p)"

text \<open>The claim is gone and the events are on record, as they read back.\<close>

definition gave_up :: "string \<Rightarrow> obj list \<Rightarrow> pdb \<Rightarrow> pdb \<Rightarrow> bool" where
  "gave_up slug evs db db' \<longleftrightarrow> holder db' slug = None
     \<and> (\<exists>new. read_events db' slug = read_events db slug @ new \<and> list_all2 reads_as evs new)"

lemma read_events_released: "read_events (released_db slug evs db) slug = read_events (insert_events slug evs (db\<lparr>t_claims := c\<rparr>)) slug"
proof -
  have same: "read_events (insert_events slug evs a) slug = read_events (insert_events slug evs b) slug"
    if "t_events a = t_events b" "t_seq a = t_seq b" for a b :: pdb and evs
    using that
  proof (induction evs arbitrary: a b)
    case (Cons e evs)
    have "t_events (insert_event slug a e) = t_events (insert_event slug b e)" "t_seq (insert_event slug a e) = t_seq (insert_event slug b e)"
      using Cons.prems by (simp_all add: insert_event_def)
    then show ?case using Cons.IH[of "insert_event slug a e" "insert_event slug b e"] by (simp add: insert_events_def)
  qed (simp add: insert_events_def read_events_def plan_events_def)
  show ?thesis unfolding released_db_def by (rule same) (simp_all add: delete_claim_def update_plan_def)
qed

lemma released_gave_up:
  assumes "list_all proper_event evs"
  shows "gave_up slug evs db (released_db slug evs db)"
  using inserted_events_read[OF assms, of slug "db\<lparr>t_claims := t_claims db\<rparr>"] read_events_released[of slug evs db "t_claims db"]
  by (auto simp: gave_up_def)

lemma owned_claim:
  assumes "owns db slug t p"
  shows "\<exists>c. read_claim db slug = Some c \<and> jget c ''claimed_by'' = JStr t \<and> jget c ''phase_id'' = JStr p"
proof -
  have "claim_identity (read_claim db slug) = Some (JStr t, JStr p)"
    using assms read_claim_identity by (simp add: owns_def)
  then show ?thesis by (cases "read_claim db slug") (auto simp: claim_identity_def)
qed

lemma bump_same [simp]: "read_claim (update_plan slug f db) s = read_claim db s"
  "claim_row_of (update_plan slug f db) s = claim_row_of db s"
  by (simp_all add: read_claim_def claim_row_of_def update_plan_def)

lemma release_owned:
  assumes "owns db slug t p"
  shows "\<exists>c. op_release_claim slug (Some t) (Some p) evs db = (Inr c, released_db slug evs db)"
  using owned_claim[OF assms] assms
  by (auto simp: op_release_claim_def plan_txn_Inr andthen_Inr release_in_txn_def Let_def modify_def ret_def released_db_def owns_def)

lemma pause_owned:
  assumes "owns db slug t p" "proper_event e"
  shows "\<exists>db'. op_set_status slug st [e] (Some t) (Some p) db = (Inr (), db') \<and> gave_up slug [e] db db' \<and> status_of db' slug = Some (JStr st)"
proof -
  let ?db = "update_plan slug (set_cols [(''status'', SVal (JStr st))]) (delete_claim slug (update_plan slug bump_version db))"
  have "op_set_status slug st [e] (Some t) (Some p) db = (Inr (), insert_events slug [e] ?db)"
    using owned_claim[OF assms(1)] assms(1)
    by (auto simp: op_set_status_def plan_txn_Inr andthen_Inr release_in_txn_def Let_def modify_def ret_def owns_def)
  moreover have "read_events ?db slug = read_events db slug"
    by (simp add: read_events_def plan_events_def update_plan_def delete_claim_def)
  then have "gave_up slug [e] db (insert_events slug [e] ?db)"
    using inserted_events_read[of "[e]" slug ?db] assms(2)
    by (auto simp: gave_up_def holder_def claim_row_of_def delete_claim_def update_plan_def)
  moreover have "status_of (insert_events slug [e] ?db) slug = Some (JStr st)"
    using assms(1) by (auto simp: status_of_def update_plan_def map_of_map_entry set_cols_def owns_def delete_claim_def)
  ultimately show ?thesis by blast
qed

lemma stamp_owned:
  assumes "owns db slug t p" "distinct (map fst flds)" "set (map fst flds) \<inter> {''claimed_by'', ''phase_id''} = {}"
  shows "\<exists>db' c. op_stamp_claim_fields slug t flds None None [] db = (Inr True, db') \<and> holder db' slug = Some (JStr t, JStr p)
    \<and> read_claim db' slug = Some c \<and> (\<forall>k v. dget flds k = Some v \<longrightarrow> dget c k = stored_field k v)"
proof -
  let ?db = "update_plan slug bump_version db"
  obtain r where r: "claim_row_of db slug = Some r" using assms(1) by (auto simp: owns_def holder_def)
  have ok: "claim_row_ok r" using assms(1) r db_ok_claim_row by (auto simp: owns_def)
  have cas: "cas_row t (Some p) r" using holder_cas[OF _ r] assms(1) by (simp add: owns_def)
  then have "cas_row t None r" by (simp add: cas_row_def)
  then have "op_stamp_claim_fields slug t flds None None [] db = (Inr True, insert_events slug [] (update_claim slug (claim_assignments r flds) ?db))"
    using assms(1) r
    by (auto simp: op_stamp_claim_fields_def plan_txn_Inr andthen_Inr require_token_def modify_def ret_def owns_def)
  moreover have h: "holder ?db slug = Some (JStr t, JStr p)" using assms(1) by (simp add: owns_def holder_def)
  have "spares_identity (claim_assignments r flds)"
    using assms(3) by (intro spares_assignments) (auto simp: map_of_eq_None_iff assms(2))
  then have "holder (insert_events slug [] (update_claim slug (claim_assignments r flds) ?db)) slug = Some (JStr t, JStr p)"
    using h by (simp add: holder_update_claim)
  moreover have "read_claim (insert_events slug [] (update_claim slug (claim_assignments r flds) ?db)) slug
      = Some (read_claim_row (set_cols (claim_assignments r flds) r))"
    using r by (simp add: read_claim_def claim_row_of_def update_claim_def map_of_map_entry insert_events_def update_plan_def)
  moreover have "dget (read_claim_row (set_cols (claim_assignments r flds) r)) k = stored_field k v" if "dget flds k = Some v" for k v
    using claim_assignments_merge[OF ok assms(2), of k] that by simp
  ultimately show ?thesis by blast
qed

lemma quota_owned:
  assumes "owns db slug t p" "record_quota_death zs now qm ph tk db = (until, evs, db')"
  shows "owns db' slug t p \<and> read_events db' slug = read_events db slug"
proof -
  obtain q where db': "db' = db\<lparr>t_quota := q\<rparr>" using assms(2) by (auto simp: record_quota_death_def record_quota_pause_def Let_def)
  show ?thesis using assms(1) quota_row_ok(1) unfolding db'
    by (simp add: owns_def holder_def claim_row_of_def read_events_def plan_events_def)
qed

section \<open>Parts of a dispatch, alone\<close>

definition alone_with :: "world \<Rightarrow> dispatch_env \<Rightarrow> bool" where
  "alone_with w de \<longleftrightarrow> w_script w = [] \<and> \<not> ce_busy (de_env de)"

lemma store_write_run:
  assumes "alone_with w de" "t (w_db w) = (r, db)"
  shows "\<exists>w1. store_write de t w = (r, w1) \<and> w_db w1 = db \<and> alone_with w1 de"
  using assms by (auto simp: store_write_def alone_with_def transact_run locked_def settle_alone)

lemma release_run:
  assumes "alone_with w de" "owns (w_db w) slug t p" "list_all proper_event evs"
  shows "\<exists>w1. release_recording de slug (Some t) p evs w = (Inr (), w1) \<and> gave_up slug evs (w_db w) (w_db w1) \<and> alone_with w1 de"
proof -
  obtain c where "op_release_claim slug (Some t) (Some p) evs (w_db w) = (Inr c, released_db slug evs (w_db w))"
    using release_owned[OF assms(2)] by blast
  from store_write_run[where t="op_release_claim slug (Some t) (Some p) evs", OF assms(1) this]
  obtain w1 where "store_write de (op_release_claim slug (Some t) (Some p) evs) w = (Inr c, w1)"
    "w_db w1 = released_db slug evs (w_db w)" "alone_with w1 de" by blast
  then show ?thesis using released_gave_up[OF assms(3)] by (simp add: release_recording_def on_mismatch_def ccatch_def)
qed

lemma failure_event_proper:
  "distinct (map fst flds) \<Longrightarrow> set (map fst flds) \<inter> {''ts'', ''type'', ''phase'', ''token''} = {} \<Longrightarrow>
     proper_event (failure_event de ty p tk flds)"
  unfolding failure_event_def by (rule mk_event_proper) auto

lemma release_failure_run:
  assumes "alone_with w de" "owns (w_db w) slug t p"
  shows "\<exists>w1. release_with_failure de slug (Some t) p reason w = (Inr (), w1)
    \<and> gave_up slug [failure_event de EVENT_DISPATCH_FAILED p (Some t) [(''reason'', JStr reason)]] (w_db w) (w_db w1)"
proof -
  let ?e = "failure_event de EVENT_DISPATCH_FAILED p (Some t) [(''reason'', JStr reason)]"
  have "list_all proper_event [?e]" by (simp add: failure_event_proper)
  from release_run[OF assms this] show ?thesis
    by (auto simp: release_with_failure_def tolerant_def ccatch_def)
qed

lemma pause_run:
  assumes "alone_with w de" "owns (w_db w) slug t p"
    "distinct (map fst flds)" "set (map fst flds) \<inter> {''ts'', ''type'', ''phase'', ''token''} = {}"
  shows "\<exists>w1. pause_and_halt de slug (Some t) p ty flds note w = (Inr (), w1)
    \<and> gave_up slug [failure_event de ty p (Some t) flds] (w_db w) (w_db w1) \<and> status_of (w_db w1) slug = Some (JStr STATUS_PAUSED)"
proof -
  let ?e = "failure_event de ty p (Some t) flds"
  obtain db' where o: "op_set_status slug STATUS_PAUSED [?e] (Some t) (Some p) (w_db w) = (Inr (), db')" and
    g: "gave_up slug [?e] (w_db w) db'" "status_of db' slug = Some (JStr STATUS_PAUSED)"
    using pause_owned[OF assms(2) failure_event_proper[OF assms(3,4)]] by blast
  from store_write_run[where t="op_set_status slug STATUS_PAUSED [?e] (Some t) (Some p)", OF assms(1) o]
  obtain w1 where "store_write de (op_set_status slug STATUS_PAUSED [?e] (Some t) (Some p)) w = (Inr (), w1)" "w_db w1 = db'" by blast
  then show ?thesis using g
    by (simp add: pause_and_halt_def tolerant_def pause_recording_def on_mismatch_def ccatch_def emit_if_def)
qed

definition quota_found :: "dispatch_env \<Rightarrow> string \<Rightarrow> bool" where
  "quota_found de log_path \<longleftrightarrow> classify_log_tail (ce_logs (de_env de)) (JStr log_path) \<noteq> None"

lemma gave_up_same: "read_events db slug = read_events db1 slug \<Longrightarrow> gave_up slug evs db db' = gave_up slug evs db1 db'"
  by (simp add: gave_up_def)

lemma quota_run:
  assumes "alone_with w de" "owns (w_db w) slug t p"
  shows "if quota_found de log_path
    then \<exists>w1 (qm :: quota_match) e. record_quota_fast_fail de slug (Some t) p log_path w = (Inr True, w1)
      \<and> gave_up slug [failure_event de EVENT_QUOTA_DEATH p (Some t)
            [(''signature'', JStr (qm_signature qm)), (''line'', JStr (qm_line qm))], e] (w_db w) (w_db w1)
      \<and> dget e ''type'' = Some (JStr EVENT_QUOTA_PAUSED)
    else record_quota_fast_fail de slug (Some t) p log_path w = (Inr False, w)"
proof (cases "classify_log_tail (ce_logs (de_env de)) (JStr log_path)")
  case None
  then show ?thesis by (simp add: quota_found_def record_quota_fast_fail_def)
next
  case (Some qm)
  define rec where "rec = record_quota_death (ce_zones (de_env de)) (ce_now (de_env de)) qm (JStr p) (JStr t)"
  obtain until evs db1 where r: "rec (w_db w) = (until, evs, db1)" by (metis prod_cases3)
  let ?e = "failure_event de EVENT_QUOTA_DEATH p (Some t) [(''signature'', JStr (qm_signature qm)), (''line'', JStr (qm_line qm))]"
  obtain e where evs: "evs = [?e, e]" "e = mk_event (ce_now (de_env de)) EVENT_QUOTA_PAUSED
              [(''paused_until'', iso_or_none until), (''signature'', JStr (qm_signature qm))]"
    using r by (auto simp: rec_def record_quota_death_def failure_event_def split: prod.splits)
  have ok: "list_all proper_event evs" unfolding evs by (simp add: failure_event_proper mk_event_proper)
  let ?t = "\<lambda>db. case rec db of (until, evs, db') \<Rightarrow> (Inr (until, evs), db')"
  have "?t (w_db w) = (Inr (until, evs), db1)" by (simp add: r)
  from store_write_run[where t="?t", OF assms(1) this] obtain w1 where
    w1: "store_write de ?t w = (Inr (until, evs), w1)" "w_db w1 = db1" "alone_with w1 de" by blast
  have o1: "owns (w_db w1) slug t p" "read_events (w_db w1) slug = read_events (w_db w) slug"
    using quota_owned[OF assms(2)] r w1(2) by (auto simp: rec_def)
  from release_run[OF w1(3) o1(1) ok] obtain w2 where
    w2: "release_recording de slug (Some t) p evs w1 = (Inr (), w2)" "gave_up slug evs (w_db w1) (w_db w2)" by blast
  have "record_quota_fast_fail de slug (Some t) p log_path w
      = (Inr True, w2\<lparr>w_fx := w_fx w2 @ [Sent (quota_pause_notification (qm_line qm) until)]\<rparr>)"
    using Some w1(1) w2(1) by (simp add: record_quota_fast_fail_def ccatch_def rec_def)
  moreover have "gave_up slug evs (w_db w) (w_db w2)" using w2(2) gave_up_same[OF o1(2)] by simp
  moreover have "dget e ''type'' = Some (JStr EVENT_QUOTA_PAUSED)" unfolding evs(2) by (simp add: mk_event_def)
  ultimately show ?thesis using Some unfolding evs(1) by (simp add: quota_found_def) blast
qed

section \<open>What a failure costs\<close>

lemma reads_as_kind:
  assumes "reads_as e x"
  shows "forgives p x = forgives p e" "starts_phase p x = starts_phase p e" "resets_attempts p x = resets_attempts p e"
    "jget x ''token'' = jget e ''token''"
  using reads_as_is[OF assms, of "''type''"] reads_as_is[OF assms, of "''phase''"] reads_as_is[OF assms, of "''token''"]
  by (simp_all add: forgives_def starts_phase_def resets_attempts_def dtrue_def jget_def)

text \<open>The starts of a phase that still count once the token \<open>t\<close> is forgiven.\<close>

definition attempts_without :: "string \<Rightarrow> obj list \<Rightarrow> string \<Rightarrow> nat" where
  "attempts_without t evs p =
     length (filter (\<lambda>s. starts_phase p s \<and> jget s ''claimed_by'' \<notin>
         insert (JStr t) (set (forgiven_tokens p (since_floor (resets_attempts p) evs))))
       (since_floor (resets_attempts p) evs))"

lemma failure_event_kind:
  "forgives p (failure_event de ty p (Some t) flds) \<longleftrightarrow> ty \<in> {EVENT_SYSTEMIC_FAILURE, EVENT_QUOTA_DEATH} \<and> t \<noteq> []"
  "starts_phase p (failure_event de ty p (Some t) flds) \<longleftrightarrow> ty = EVENT_PHASE_STARTED"
  "resets_attempts p (failure_event de ty p (Some t) flds) \<longleftrightarrow> ty \<in> {EVENT_RETRY_REQUESTED, EVENT_ATTEMPTS_RESET}"
  "jget (failure_event de ty p (Some t) flds) ''token'' = JStr t"
  by (auto simp: failure_event_def mk_event_def forgives_def starts_phase_def resets_attempts_def dtrue_def jget_def)

lemma gave_up_attempts:
  assumes "gave_up slug (failure_event de ty p (Some t) flds # evs) db db'" "t \<noteq> []"
    "\<forall>e\<in>set evs. dget e ''type'' = Some (JStr EVENT_QUOTA_PAUSED)"
    "ty \<notin> {EVENT_PHASE_STARTED, EVENT_RETRY_REQUESTED, EVENT_ATTEMPTS_RESET}"
  shows "attempts_for_phase (read_events db' slug) p =
    (if ty \<in> {EVENT_SYSTEMIC_FAILURE, EVENT_QUOTA_DEATH} then attempts_without t (read_events db slug) p
     else attempts_for_phase (read_events db slug) p)"
proof -
  obtain x xs where n: "read_events db' slug = read_events db slug @ x # xs" "reads_as (failure_event de ty p (Some t) flds) x"
    "list_all2 reads_as evs xs"
    using assms(1) by (auto simp: gave_up_def list_all2_Cons1)
  have "attempts_for_phase (ys @ xs) p = attempts_for_phase ys p" for ys
    using n(3) assms(3)
  proof (induction evs xs arbitrary: ys rule: list_all2_induct)
    case (Cons e es x xs)
    have "dget x ''type'' = Some (JStr EVENT_QUOTA_PAUSED)" using reads_as_is[OF Cons.hyps(1), of "''type''"] Cons.prems by simp
    then have "attempts_for_phase (ys @ [x]) p = attempts_for_phase ys p"
      by (intro attempts_other) (auto simp: forgives_def starts_phase_def resets_attempts_def)
    then show ?case using Cons.IH[of "ys @ [x]"] Cons.prems by simp
  qed simp
  from this[of "read_events db slug @ [x]"] have "attempts_for_phase (read_events db' slug) p = attempts_for_phase (read_events db slug @ [x]) p"
    using n(1) by simp
  then show ?thesis
    using attempts_forgive[of p x "read_events db slug"] attempts_other[of p x "read_events db slug"] assms(2,4)
    by (simp add: reads_as_kind[OF n(2)] failure_event_kind attempts_without_def)
qed

lemma fast_fail_run:
  assumes "alone_with w de" "owns (w_db w) slug t p" "t \<noteq> []"
  shows "case fast_fail de slug (Some t) p log_path rc w of (r, w') \<Rightarrow>
      r = Inr False \<and> holder (w_db w') slug = None
      \<and> attempts_for_phase (read_events (w_db w') slug) p =
          (if quota_found de log_path \<or> match_systemic_signature (ce_logs (de_env de) (JStr log_path)) rc \<noteq> None
           then attempts_without t (read_events (w_db w) slug) p else attempts_for_phase (read_events (w_db w) slug) p)"
proof (cases "quota_found de log_path")
  case True
  then obtain w1 flds e where w1: "record_quota_fast_fail de slug (Some t) p log_path w = (Inr True, w1)"
    "gave_up slug [failure_event de EVENT_QUOTA_DEATH p (Some t) flds, e] (w_db w) (w_db w1)" "dget e ''type'' = Some (JStr EVENT_QUOTA_PAUSED)"
    using quota_run[OF assms(1,2), of log_path] by auto
  then show ?thesis using True gave_up_attempts[OF w1(2) assms(3)] by (simp add: fast_fail_def gave_up_def)
next
  case False
  then have q: "record_quota_fast_fail de slug (Some t) p log_path w = (Inr False, w)" using quota_run[OF assms(1,2), of log_path] by simp
  show ?thesis
  proof (cases "match_systemic_signature (ce_logs (de_env de) (JStr log_path)) rc")
    case None
    from release_failure_run[OF assms(1,2)] obtain w1 where
      w1: "release_with_failure de slug (Some t) p (''worker exited rc='' @ show_int rc @ '' within 0.5s (see '' @ log_path @ '')'') w = (Inr (), w1)"
      "gave_up slug [failure_event de EVENT_DISPATCH_FAILED p (Some t)
          [(''reason'', JStr (''worker exited rc='' @ show_int rc @ '' within 0.5s (see '' @ log_path @ '')''))]] (w_db w) (w_db w1)" by blast
    then show ?thesis using q None False gave_up_attempts[OF w1(2) assms(3)] by (simp add: fast_fail_def gave_up_def)
  next
    case (Some sig)
    from pause_run[OF assms(1,2), of "[(''signature'', JStr sig), (''log_path'', JStr log_path)]" EVENT_SYSTEMIC_FAILURE "SystemicFailureNote p sig"]
    obtain w1 where w1: "pause_for_systemic_failure de slug (Some t) p sig log_path w = (Inr (), w1)"
      "gave_up slug [failure_event de EVENT_SYSTEMIC_FAILURE p (Some t) [(''signature'', JStr sig), (''log_path'', JStr log_path)]] (w_db w) (w_db w1)"
      by (auto simp: pause_for_systemic_failure_def)
    then show ?thesis using q Some False gave_up_attempts[OF w1(2) assms(3)] by (simp add: fast_fail_def gave_up_def)
  qed
qed

text \<open>
  What a failed start costs. When the worker that was just started dies at once, the claim is released, and
  the attempt is forgiven exactly when the log shows an exhausted quota or a failure of the
  host: then no start under this token counts against the phase any more, otherwise it
  counts as before. A worktree that is missing also releases the claim and pauses the plan,
  but the attempt does count.
\<close>

theorem failed_start_budget:
  assumes "alone_with w de" "owns (w_db w) slug t p" "t \<noteq> []"
  shows "(case fast_fail de slug (Some t) p log_path rc w of (r, w') \<Rightarrow>
      r = Inr False \<and> holder (w_db w') slug = None
      \<and> attempts_for_phase (read_events (w_db w') slug) p =
          (if quota_found de log_path \<or> match_systemic_signature (ce_logs (de_env de) (JStr log_path)) rc \<noteq> None
           then attempts_without t (read_events (w_db w) slug) p else attempts_for_phase (read_events (w_db w) slug) p))
    \<and> (case pause_for_missing_worktree de slug (Some t) p path w of (r, w') \<Rightarrow>
      holder (w_db w') slug = None \<and> status_of (w_db w') slug = Some (JStr STATUS_PAUSED)
      \<and> attempts_for_phase (read_events (w_db w') slug) p = attempts_for_phase (read_events (w_db w) slug) p)"
proof (rule conjI[rotated])
  show "case pause_for_missing_worktree de slug (Some t) p path w of (r, w') \<Rightarrow>
      holder (w_db w') slug = None \<and> status_of (w_db w') slug = Some (JStr STATUS_PAUSED)
      \<and> attempts_for_phase (read_events (w_db w') slug) p = attempts_for_phase (read_events (w_db w) slug) p"
  proof -
    from pause_run[OF assms(1,2), of "[(''worktree_path'', JStr path)]" EVENT_WORKTREE_MISSING "WorktreeMissingNote path"]
    obtain w1 where w1: "pause_for_missing_worktree de slug (Some t) p path w = (Inr (), w1)"
      "gave_up slug [failure_event de EVENT_WORKTREE_MISSING p (Some t) [(''worktree_path'', JStr path)]] (w_db w) (w_db w1)"
      "status_of (w_db w1) slug = Some (JStr STATUS_PAUSED)" by (auto simp: pause_for_missing_worktree_def)
    then show ?thesis using gave_up_attempts[OF w1(2) assms(3)] by (simp add: gave_up_def)
  qed
qed (rule fast_fail_run[OF assms])

section \<open>The whole dispatch, alone\<close>

text \<open>A part that, with nobody else around, leaves the database as it is.\<close>

definition still :: "'a cmd \<Rightarrow> bool" where
  "still m \<longleftrightarrow> (\<forall>w r w'. w_script w = [] \<longrightarrow> m w = (r, w') \<longrightarrow> idle w w')"

lemma stillD:
  assumes "still m" "w_script w = []" "m w = (r, w')"
  shows "w_db w' = w_db w \<and> w_script w' = []"
proof -
  have "idle w w'" using assms unfolding still_def by blast
  then show ?thesis using assms(2) by (simp add: idle_def)
qed

lemma still_read: "still (read_plan slug)"
  by (auto simp: still_def read_plan_run settle_alone)

lemma still_git: "still (run_git env argv)"
  by (auto simp: still_def dest: git_idle)

lemma still_basic: "still (cret x)" "still (craise e)" "still (clift v)" "still (emit fx)" "still (emit_if b fx)"
  by (auto simp: still_def emit_if_def split: if_splits)

lemma still_cbind:
  assumes "still m" "\<And>x. still (f x)"
  shows "still (cbind m f)"
  unfolding still_def
proof (intro allI impI)
  fix w r w' assume w: "w_script w = []" "cbind m f w = (r, w')"
  obtain r1 w1 where m: "m w = (r1, w1)" by fastforce
  have i: "idle w w1" using assms(1) m w(1) by (simp add: still_def)
  show "idle w w'"
  proof (cases r1)
    case (Inr x)
    then have "f x w1 = (r, w')" "w_script w1 = []" using w m i by (simp_all add: cbind_def idle_def)
    then have "idle w1 w'" using assms(2) by (simp add: still_def)
    with i show ?thesis by (rule idle_trans)
  qed (use w m i in \<open>simp add: cbind_def\<close>)
qed

lemma still_ccatch:
  assumes "still m" "\<And>e k. h e = Some k \<Longrightarrow> still k"
  shows "still (ccatch m h)"
  unfolding still_def
proof (intro allI impI)
  fix w r w' assume w: "w_script w = []" "ccatch m h w = (r, w')"
  obtain r1 w1 where m: "m w = (r1, w1)" by fastforce
  have i: "idle w w1" using assms(1) m w(1) by (simp add: still_def)
  show "idle w w'"
  proof (cases "\<exists>e k. r1 = Inl e \<and> h e = Some k")
    case True
    then obtain e k where "r1 = Inl e" "h e = Some k" by blast
    then have "k w1 = (r, w')" "w_script w1 = []" "still k" using w m i assms(2) by (simp_all add: ccatch_def idle_def)
    then have "idle w1 w'" by (simp add: still_def)
    with i show ?thesis by (rule idle_trans)
  qed (use w m i in \<open>auto simp: ccatch_def split: sum.splits option.splits\<close>)
qed

lemmas still_intros = still_basic still_read still_git still_cbind still_ccatch

lemma still_context: "still (maybe_write_attempt_context de slug p wt)"
  unfolding maybe_write_attempt_context_def prev_attempt_context_def run_git_safe_def Let_def
  by (auto intro!: still_intros split: option.split if_split if_splits)

lemma still_alive: "still (worktree_alive de path)"
  by (auto simp: worktree_alive_def intro!: still_intros)

definition claims_process :: "pdb \<Rightarrow> string \<Rightarrow> int \<Rightarrow> string \<Rightarrow> bool" where
  "claims_process db slug pid log_path \<longleftrightarrow> (\<exists>c. read_claim db slug = Some c \<and> dget c ''pid'' = Some (JInt pid)
     \<and> dget c ''pgid'' = Some (JInt pid) \<and> dget c ''log_path'' = Some (JStr log_path))"

lemma stamp_run:
  assumes "alone_with w de" "owns (w_db w) slug t p"
  shows "\<exists>w1. stamp_pid de slug (Some t) pid log_path sid w = (Inr (), w1) \<and> holder (w_db w1) slug = Some (JStr t, JStr p)
    \<and> claims_process (w_db w1) slug pid log_path \<and> w_script w1 = []"
proof -
  let ?flds = "[(''pid'', JInt pid), (''pgid'', JInt pid), (''log_path'', JStr log_path)]
                 @ (case sid of None \<Rightarrow> [] | Some s \<Rightarrow> [(''session_id'', JStr s)])"
  have "distinct (map fst ?flds)" "set (map fst ?flds) \<inter> {''claimed_by'', ''phase_id''} = {}" by (auto split: option.split)
  from stamp_owned[OF assms(2) this] obtain db' c where
    o: "op_stamp_claim_fields slug t ?flds None None [] (w_db w) = (Inr True, db')" and
    h: "holder db' slug = Some (JStr t, JStr p)" "read_claim db' slug = Some c" and
    f: "\<forall>k v. dget ?flds k = Some v \<longrightarrow> dget c k = stored_field k v" by blast
  have "claims_process db' slug pid log_path"
    using h(2) f[rule_format, of "''pid''"] f[rule_format, of "''pgid''"] f[rule_format, of "''log_path''"]
    by (simp add: claims_process_def stored_field_def)
  moreover from store_write_run[where t="op_stamp_claim_fields slug t ?flds None None []", OF assms(1) o]
  obtain w1 where "store_write de (op_stamp_claim_fields slug t ?flds None None []) w = (Inr True, w1)" "w_db w1 = db'" "w_script w1 = []"
    by (auto simp: alone_with_def)
  ultimately show ?thesis using h(1) by (simp add: stamp_pid_def tolerant_def on_mismatch_def ccatch_def)
qed

lemma start_run:
  assumes "alone_with w de" "owns (w_db w) slug t p" "t \<noteq> []"
    and "start_worker de slug (Some t) p in_wt cwd cmd log_path sid w = (Inr b, w')"
  shows "if b then \<exists>pid rc. de_spawn de = Spawned pid rc \<and> rc \<in> {None, Some 0}
      \<and> holder (w_db w') slug = Some (JStr t, JStr p) \<and> claims_process (w_db w') slug pid log_path
    else holder (w_db w') slug = None"
proof (cases "de_spawn de")
  case (SpawnNotFound msg)
  show ?thesis
    using assms(4) SpawnNotFound release_failure_run[OF assms(1,2), of "''Popen FileNotFoundError: '' @ msg"]
      pause_run[OF assms(1,2), of "[(''worktree_path'', JStr cwd)]" EVENT_WORKTREE_MISSING "WorktreeMissingNote cwd"]
    by (auto simp: start_worker_def gave_up_def pause_for_missing_worktree_def split: if_splits)
next
  case (SpawnRaises e)
  then show ?thesis using assms(4) by (simp add: start_worker_def)
next
  case (Spawned pid rc)
  define w4 where "w4 = w\<lparr>w_fx := w_fx w @ [SpawnedWorker cmd cwd
      (build_worker_env (cc_root (ce_cfg (de_env de))) (de_path de) (de_bash_max de) (de_environ de) (Some slug) (Some p) (Some t))]\<rparr>"
  have w4: "alone_with w4 de" "owns (w_db w4) slug t p" using assms(1,2) by (simp_all add: w4_def alone_with_def)
  show ?thesis
  proof (cases "rc \<in> {None, Some 0}")
    case False
    then have "fast_fail de slug (Some t) p log_path (the rc) w4 = (Inr b, w')" using assms(4) Spawned by (simp add: start_worker_def w4_def)
    then show ?thesis using fast_fail_run[OF w4 assms(3), of log_path "the rc"] by simp
  next
    case True
    from stamp_run[OF w4, of pid log_path sid] obtain w5 where w5: "stamp_pid de slug (Some t) pid log_path sid w4 = (Inr (), w5)"
      "holder (w_db w5) slug = Some (JStr t, JStr p)" "claims_process (w_db w5) slug pid log_path" by blast
    then have "b \<and> w_db w' = w_db w5"
      using assms(4) Spawned True by (auto simp: start_worker_def w4_def[symmetric] emit_if_def split: if_splits)
    then show ?thesis using w5 Spawned True by auto
  qed
qed

lemma launch_run:
  assumes "alone_with w de" "owns (w_db w) slug t p" "t \<noteq> []"
    and "launch de slug (Some t) p worktree w = (Inr b, w')"
  shows "if b then \<exists>pid rc. de_spawn de = Spawned pid rc \<and> rc \<in> {None, Some 0}
      \<and> holder (w_db w') slug = Some (JStr t, JStr p) \<and> claims_process (w_db w') slug pid (log_path_of de p (Some t))
    else holder (w_db w') slug = None"
proof -
  have sc: "w_script w = []" using assms(1) by (simp add: alone_with_def)
  obtain cmd u path alive w0 w1 w2 w3 where
    0: "w = w0" and
    1: "(case worktree of None \<Rightarrow> cret () | Some wt \<Rightarrow> maybe_write_attempt_context de slug p wt) w0 = (Inr u, w1)" and
    2: "(case worktree of None \<Rightarrow> cret [] | Some wt \<Rightarrow> clift (need_key wt ''path'')) w1 = (Inr path, w2)" and
    3: "(if worktree = None then cret True else worktree_alive de path) w2 = (Inr alive, w3)" and
    4: "(if \<not> alive then cbind (pause_for_missing_worktree de slug (Some t) p path) (\<lambda>_. cret False)
         else start_worker de slug (Some t) p (worktree \<noteq> None) (if worktree = None then cc_root (ce_cfg (de_env de)) else path)
           cmd (log_path_of de p (Some t)) (if template_uses_session_id (de_command de) then Some (de_fresh de) else None)) w3 = (Inr b, w')"
    using assms(4) unfolding launch_def Let_def cbind_Inr clift_run prod.inject by blast
  have s: "still (case worktree of None \<Rightarrow> cret () | Some wt \<Rightarrow> maybe_write_attempt_context de slug p wt)"
    "still (case worktree of None \<Rightarrow> cret [] | Some wt \<Rightarrow> clift (need_key wt ''path''))"
    "still (if worktree = None then cret True else worktree_alive de path)"
    by (auto intro: still_intros still_context still_alive split: option.split)
  have "w_db w1 = w_db w \<and> w_script w1 = []" using stillD[OF s(1) sc] 0 1 by blast
  moreover from this have "w_db w2 = w_db w1 \<and> w_script w2 = []" using stillD[OF s(2) _ 2] by blast
  moreover from this have "w_db w3 = w_db w2 \<and> w_script w3 = []" using stillD[OF s(3) _ 3] by blast
  ultimately have w3: "alone_with w3 de" "owns (w_db w3) slug t p" using assms(1,2) by (simp_all add: alone_with_def)
  show ?thesis
  proof (cases alive)
    case False
    then show ?thesis
      using 4 pause_run[OF w3, of "[(''worktree_path'', JStr path)]" EVENT_WORKTREE_MISSING "WorktreeMissingNote path"]
      by (auto simp: gave_up_def pause_for_missing_worktree_def)
  next
    case True
    have "start_worker de slug (Some t) p (worktree \<noteq> None) (if worktree = None then cc_root (ce_cfg (de_env de)) else path)
           cmd (log_path_of de p (Some t)) (if template_uses_session_id (de_command de) then Some (de_fresh de) else None) w3 = (Inr b, w')"
      using 4 True by simp
    from start_run[OF w3 assms(3) this] show ?thesis .
  qed
qed

text \<open>
  C13 No claim without a worker. Alone, a dispatch that returns leaves the claim the tick has just made in one of
  two shapes: it reports success, the claim still carries its token and phase, and the
  process it names, as process and as group, with the log, is the one that was started and
  did not fail at once; or it reports a failure and the claim is gone, so that the
  next tick may try again. The claim can only be left behind unstamped by an exception.
\<close>

theorem dispatch_settles_claim:
  assumes "alone_with w de" "owns (w_db w) slug t p" "p \<noteq> []" "t \<noteq> []"
    and "tr_action r = ADispatch" "tr_phase r = JStr p" "tr_token r = JStr t"
    and "dispatch_for_tick de slug r w = (Inr b, w')"
  shows "if b then \<exists>pid rc. de_spawn de = Spawned pid rc \<and> rc \<in> {None, Some 0}
      \<and> holder (w_db w') slug = Some (JStr t, JStr p) \<and> claims_process (w_db w') slug pid (log_path_of de p (Some t))
    else holder (w_db w') slug = None"
proof (cases "de_command de = [] \<or> de_kind de \<noteq> ''shell''")
  case True
  then show ?thesis
    using assms(3,5-8) release_failure_run[OF assms(1,2), of "''no dispatch.command in .orchestrator.json''"]
    by (auto simp: dispatch_for_tick_def Let_def gave_up_def split: if_splits)
next
  case False
  then have "launch de slug (Some t) p (case tr_worktree r of Some v \<Rightarrow> if truthy v then Some v else None | None \<Rightarrow> None) w = (Inr b, w')"
    using assms(3,5-8) by (simp add: dispatch_for_tick_def Let_def)
  from launch_run[OF assms(1,2,4) this] show ?thesis .
qed

section \<open>Whose claim it may touch\<close>

definition own_token_only :: "string \<Rightarrow> string \<Rightarrow> pdb \<Rightarrow> pdb \<Rightarrow> bool" where
  "own_token_only slug t a b \<longleftrightarrow> (db_ok a \<and> (\<forall>p. holder a slug \<noteq> Some (JStr t, p)) \<longrightarrow> t_claims b = t_claims a)"

lemma token_of_claim: "own_claim_only slug t p a b \<Longrightarrow> own_token_only slug t a b"
  by (auto simp: own_token_only_def own_claim_only_def)

lemma token_refl: "own_token_only slug t db db"
  by (simp add: own_token_only_def)

lemma token_locked: "(\<And>db. own_token_only slug t db (snd (m db))) \<Longrightarrow> own_token_only slug t db (snd (locked b m db))"
  by (simp add: locked_def fail_def token_refl)

lemma token_stamp: "own_token_only slug t db (snd (op_stamp_claim_fields slug t flds None None [] db))"
proof (cases "op_stamp_claim_fields slug t flds None None [] db")
  case (Pair r db')
  show ?thesis
  proof (cases r)
    case (Inl e)
    then show ?thesis using Pair by (auto simp: op_stamp_claim_fields_def token_refl dest: plan_txn_Inl)
  next
    case (Inr x)
    then obtain row where "claim_row_of db slug = Some row" "cas_row t None row"
      using Pair by (auto simp: op_stamp_claim_fields_def plan_txn_Inr andthen_Inr require_token_def split: option.splits if_splits)
    then show ?thesis by (auto simp: own_token_only_def holder_def cas_row_def)
  qed
qed

lemma token_pause: "own_token_only slug t db (snd (op_set_status slug st evs (Some t) (Some p) db))"
proof (rule token_of_claim)
  show "own_claim_only slug t p db (snd (op_set_status slug st evs (Some t) (Some p) db))"
    unfolding op_set_status_def by (rule refused_own) auto
qed

lemma token_free:
  "own_token_only slug t db (snd (op_append_events slug evs None None db))"
  "own_token_only slug t db (snd (op_set_status slug st evs None None db))"
proof -
  have "t_claims (snd (op_append_events slug evs None None db)) = t_claims db"
    unfolding op_append_events_def by (intro plan_txn_claims) (simp add: andthen_def check_token_def ret_def modify_def)
  then show "own_token_only slug t db (snd (op_append_events slug evs None None db))" by (simp add: own_token_only_def)
  have "t_claims (snd (op_set_status slug st evs None None db)) = t_claims db"
    unfolding op_set_status_def by (intro plan_txn_claims) (simp add: andthen_def ret_def modify_def update_plan_def)
  then show "own_token_only slug t db (snd (op_set_status slug st evs None None db))" by (simp add: own_token_only_def)
qed

lemma token_quota: "own_token_only slug t db (snd (case record_quota_death zs now qm ph tk db of (until, evs, db') \<Rightarrow> (g until evs, db')))"
  by (rule token_of_claim[OF own_claim_quota])

lemmas own_token = token_refl token_stamp token_pause token_free token_quota token_of_claim[OF own_claim_ops(3)]

lemma own_write: "(\<And>db. own_token_only slug t db (snd (m db))) \<Longrightarrow> own (own_token_only slug t) (store_write de m)"
  unfolding store_write_def by (rule own_transact) (rule token_locked)

lemma own_read_token: "own (own_token_only slug t) (read_plan s)"
  unfolding read_plan_def by (rule own_transact) (simp add: token_refl)

lemma own_tolerant: "own P m \<Longrightarrow> own P (tolerant m)"
  unfolding tolerant_def by (intro own_ccatch own_intros) (auto intro: own_intros split: if_splits)

lemma own_on_mismatch: "own P m \<Longrightarrow> own P k \<Longrightarrow> own P (on_mismatch m k)"
  unfolding on_mismatch_def by (rule own_ccatch) (auto split: pyerr.splits)

lemma own_mode_if: "own P m \<Longrightarrow> own P m' \<Longrightarrow> own P (if b then m else m')"
  by simp

lemmas own_dispatch_intros = own_intros own_write own_token own_read_token own_tolerant own_on_mismatch

lemma own_release_failure: "own (own_token_only slug t) (release_with_failure de slug (Some t) p reason)"
  and own_pause_missing: "own (own_token_only slug t) (pause_for_missing_worktree de slug (Some t) p path)"
  and own_pause_systemic: "own (own_token_only slug t) (pause_for_systemic_failure de slug (Some t) p sig log_path)"
  and own_stamp_pid: "own (own_token_only slug t) (stamp_pid de slug (Some t) pid log_path sid)"
  by (auto simp: release_with_failure_def release_recording_def pause_for_missing_worktree_def pause_for_systemic_failure_def
      pause_and_halt_def pause_recording_def stamp_pid_def intro!: own_dispatch_intros)

lemma own_quota_fail: "own (own_token_only slug t) (record_quota_fast_fail de slug (Some t) p log_path)"
  unfolding record_quota_fast_fail_def release_recording_def
  by (auto intro!: own_ccatch own_dispatch_intros split: option.split prod.split if_splits)

lemma own_context: "own (own_token_only slug t) (maybe_write_attempt_context de slug p wt)"
  unfolding maybe_write_attempt_context_def prev_attempt_context_def run_git_safe_def Let_def
  by (auto intro!: own_ccatch own_dispatch_intros split: option.split if_split if_splits)

lemma own_launch: "own (own_token_only slug t) (launch de slug (Some t) p worktree)"
proof -
  have "own (own_token_only slug t) (fast_fail de slug (Some t) p log_path rc)" for log_path rc
    unfolding fast_fail_def
    by (auto intro!: own_dispatch_intros own_quota_fail own_release_failure own_pause_systemic split: option.split)
  then have "own (own_token_only slug t) (start_worker de slug (Some t) p in_wt cwd cmd log_path sid)" for in_wt cwd cmd log_path sid
    unfolding start_worker_def
    by (auto intro!: own_dispatch_intros own_release_failure own_pause_missing own_stamp_pid split: spawn_outcome.split if_split)
  then show ?thesis
    unfolding launch_def Let_def worktree_alive_def
    by (auto intro!: own_dispatch_intros own_context own_pause_missing split: option.split if_split)
qed

text \<open>
  A dispatch touches only the claim it was made for. Whatever other processes do in between, every
  transaction of a dispatch that changes the claims table at all found the plan held under
  the token of that dispatch; a claim that has meanwhile gone to somebody else is neither
  stamped with the new process nor released by its failure.
\<close>

theorem dispatch_touches_own_claim:
  assumes "tr_token r = JStr t" and "dispatch_for_tick de slug r w = (res, w')" and "w_trace w = []"
    and "(a, b) \<in> set (w_trace w')" and "db_ok a" and "\<forall>p. holder a slug \<noteq> Some (JStr t, p)"
  shows "t_claims b = t_claims a"
proof -
  have "own (own_token_only slug t) (dispatch_for_tick de slug r)"
    unfolding dispatch_for_tick_def Let_def
    using assms(1) by (auto intro!: own_dispatch_intros own_release_failure own_launch split: jval.split)
  from ownD[OF this assms(2)] show ?thesis using assms(3-6) by (auto simp: ran_def own_token_only_def)
qed

end
