(* ===== verification/Dispatch_Examples.thy ===== *)
theory Dispatch_Examples
  imports Dispatch_Props Cmd_Examples
begin

text \<open>Concrete dispatches: of the plan the example store holds, and of one that has gone to another worker.\<close>

definition no_format :: formatter where
  "no_format spec v = Inl (ValueErr spec)"

definition example_dispatch :: dispatch_env where
  "example_dispatch = \<lparr>de_env = example_cmd_env, de_command = ''run.sh {plan_slug} {phase_id}'', de_kind = ''shell'',
     de_path = [], de_bash_max = 1800000, de_environ = [(''HOME'', ''/h'')], de_fresh = ''f00d'', de_fmt = no_format,
     de_state_file = ''/p/w1.state.json'', de_log_dir = ''/p/logs'', de_exists = (\<lambda>_. True), de_spawn = Spawned 42 None\<rparr>"

definition claimed :: tick_result where
  "claimed = (result ADispatch NoInfo)\<lparr>tr_phase := JStr ''a'', tr_token := JStr ''session-abc''\<rparr>"

lemma held_owned: "owns held_db ''w1'' ''session-abc'' ''a''"
  using held_db_ok held_reads w1_slug by (simp add: owns_def)

lemma example_alone: "alone_with (calm db) example_dispatch"
  by (simp add: alone_with_def example_dispatch_def example_cmd_env_def calm_def)


lemma start_succeeds:
  assumes "alone_with w de" "owns (w_db w) slug t p" "de_spawn de = Spawned pid None"
  shows "\<exists>w'. start_worker de slug (Some t) p in_wt cwd cmd log_path sid w = (Inr True, w')"
proof -
  define w1 where "w1 = w\<lparr>w_fx := w_fx w @ [SpawnedWorker cmd cwd
      (build_worker_env (cc_root (ce_cfg (de_env de))) (de_path de) (de_bash_max de) (de_environ de) (Some slug) (Some p) (Some t))]\<rparr>"
  have "alone_with w1 de" "owns (w_db w1) slug t p" using assms(1,2) by (simp_all add: w1_def alone_with_def)
  from stamp_run[OF this, of pid log_path sid] obtain w2 where "stamp_pid de slug (Some t) pid log_path sid w1 = (Inr (), w2)" by blast
  then show ?thesis using assms(3) by (simp add: start_worker_def w1_def[symmetric] emit_if_def)
qed

lemma example_render: "render_command no_format ''run.sh {plan_slug} {phase_id}'' (placeholder_values ''w1'' ''a'' t r s i) =
    Inr ''run.sh w1 a''"
  using render_simple[of "placeholder_values ''w1'' ''a'' t r s i" "[Plain ''run.sh'', Place ''plan_slug'', Place ''phase_id'']" no_format]
  by (simp add: simple_template_def placeholder_values_def NAME_ENDS_def SAFE_CHARS_def shlex_quote_def)

theorem dispatch_settles_claim_witness:
  "\<exists>w'. dispatch_for_tick example_dispatch ''w1'' claimed (calm held_db) = (Inr True, w')
     \<and> holder (w_db w') ''w1'' = Some (JStr ''session-abc'', JStr ''a'') \<and> claims_process (w_db w') ''w1'' 42 ''/p/logs/a.session-abc.log''"
proof -
  have e: "de_command example_dispatch = ''run.sh {plan_slug} {phase_id}''" "de_fmt example_dispatch = no_format"
    "de_kind example_dispatch = ''shell''" "de_spawn example_dispatch = Spawned 42 None"
    by (simp_all add: example_dispatch_def)
  obtain w' where "launch example_dispatch ''w1'' (Some ''session-abc'') ''a'' None (calm held_db) = (Inr True, w')"
    using start_succeeds[OF example_alone _ e(4), of held_db "''w1''" "''session-abc''" "''a''"] held_owned
    by (simp add: launch_def Let_def e example_render) blast
  then have r: "dispatch_for_tick example_dispatch ''w1'' claimed (calm held_db) = (Inr True, w')"
    by (simp add: dispatch_for_tick_def claimed_def result_def e Let_def)
  have "log_path_of example_dispatch ''a'' (Some ''session-abc'') = ''/p/logs/a.session-abc.log''"
    by (simp add: log_path_of_def example_dispatch_def)
  then show ?thesis
    using e(4) dispatch_settles_claim[OF example_alone, of held_db "''w1''" "''session-abc''" "''a''" claimed True w'] held_owned r
    by (auto simp: claimed_def result_def)
qed

theorem failed_start_budget_witness:
  "\<exists>w'. fast_fail example_dispatch ''w1'' (Some ''session-abc'') ''a'' ''/p/logs/a.log'' 1 (calm held_db) = (Inr False, w')
     \<and> holder (w_db w') ''w1'' = None
     \<and> attempts_for_phase (read_events (w_db w') ''w1'') ''a'' = attempts_for_phase (read_events held_db ''w1'') ''a''"
proof -
  let ?m = "fast_fail example_dispatch ''w1'' (Some ''session-abc'') ''a'' ''/p/logs/a.log'' 1"
  obtain r w' where r: "?m (calm held_db) = (r, w')" by fastforce
  have "\<not> quota_found example_dispatch ''/p/logs/a.log''"
    "match_systemic_signature (ce_logs (de_env example_dispatch) (JStr ''/p/logs/a.log'')) 1 = None"
    by code_simp+
  then show ?thesis
    using conjunct1[OF failed_start_budget[OF example_alone, of held_db "''w1''" "''session-abc''" "''a''" "''/p/logs/a.log''" 1]] held_owned r
    by simp
qed

text \<open>A dispatch that comes late, without a command: its release is refused.\<close>

definition late_dispatch :: dispatch_env where
  "late_dispatch = example_dispatch\<lparr>de_command := []\<rparr>"

lemma redispatch_mismatch:
  "\<exists>x. \<forall>evs. fst (op_release_claim ''w1'' (Some ''session-abc'') (Some ''a'') evs (redispatch held_db)) = Inl (ClaimMismatch x)"
proof -
  have n: "holder (redispatch held_db) ''w1'' \<noteq> Some (JStr ''session-abc'', JStr ''a'')" using redispatch_holder by simp
  have "has_plan (redispatch held_db) ''w1''" by code_simp
  then show ?thesis
    using n w1_slug unfolding read_claim_identity[OF redispatch_ok, symmetric]
    by (cases "read_claim (redispatch held_db) ''w1''")
      (auto simp: op_release_claim_def plan_txn_def write_txn_def andthen_def bump_def validate_slug_def guard_res_def
        release_in_txn_def claim_identity_def claim_mismatch_def Let_def split: option.splits)
qed

lemma refused_trace:
  assumes "\<not> ce_busy (de_env de)" "release_with_failure de slug (Some t) p reason w = (r, w')"
    and "\<And>evs. op_release_claim slug (Some t) (Some p) evs (w_db (settle w)) = (Inl (ClaimMismatch x), w_db (settle w))"
  shows "(w_db (settle w), w_db (settle w)) \<in> set (w_trace w')"
proof -
  let ?evs = "[failure_event de EVENT_DISPATCH_FAILED p (Some t) [(''reason'', JStr reason)]]"
  let ?w1 = "(settle w)\<lparr>w_trace := w_trace w @ [(w_db (settle w), w_db (settle w))]\<rparr>"
  have "store_write de (op_release_claim slug (Some t) (Some p) ?evs) w = (Inl (ClaimMismatch x), ?w1)"
    using assms(1,3) by (simp add: store_write_def transact_def locked_def)
  then have "release_recording de slug (Some t) p ?evs w = store_write de (op_append_events slug ?evs None None) ?w1"
    by (simp add: release_recording_def on_mismatch_def ccatch_def cbind_def)
  moreover obtain r2 w2 where w2: "store_write de (op_append_events slug ?evs None None) ?w1 = (r2, w2)" by fastforce
  then have "\<exists>ab. w_trace w2 = w_trace ?w1 @ [ab]" by (auto simp: store_write_def transact_run)
  ultimately show ?thesis
    using assms(2) w2
    by (cases r2) (auto simp: release_with_failure_def tolerant_def ccatch_def cbind_def split: if_splits option.splits)
qed

theorem dispatch_touches_own_claim_witness:
  "\<exists>r w' b. dispatch_for_tick late_dispatch ''w1'' claimed (calm (redispatch held_db)) = (r, w')
     \<and> (redispatch held_db, b) \<in> set (w_trace w') \<and> t_claims b = t_claims (redispatch held_db)"
proof -
  let ?db = "redispatch held_db"
  obtain x where x: "\<And>evs. fst (op_release_claim ''w1'' (Some ''session-abc'') (Some ''a'') evs ?db) = Inl (ClaimMismatch x)"
    using redispatch_mismatch by blast
  have op: "op_release_claim ''w1'' (Some ''session-abc'') (Some ''a'') evs ?db = (Inl (ClaimMismatch x), ?db)" for evs
    using x[of evs] by (cases "op_release_claim ''w1'' (Some ''session-abc'') (Some ''a'') evs ?db")
      (auto simp: op_release_claim_def dest: plan_txn_Inl)
  obtain r w' where r: "dispatch_for_tick late_dispatch ''w1'' claimed (calm ?db) = (r, w')" by fastforce
  obtain r1 w1 where r1: "release_with_failure late_dispatch ''w1'' (Some ''session-abc'') ''a'' ''no dispatch.command in .orchestrator.json'' (calm ?db) = (r1, w1)"
    by fastforce
  have "w_trace w' = w_trace w1"
    using r r1 by (cases r1) (auto simp: dispatch_for_tick_def claimed_def result_def late_dispatch_def cbind_def Let_def)
  then have "(?db, ?db) \<in> set (w_trace w')"
    using refused_trace[OF _ r1, of x] op by (simp add: late_dispatch_def example_dispatch_def example_cmd_env_def)
  from dispatch_touches_own_claim[OF _ r _ this redispatch_ok, of "''session-abc''"] this r show ?thesis
    using redispatch_holder by (auto simp: claimed_def)
qed

end
