(* ===== verification/Config.thy ===== *)
theory Config
  imports Notify
begin

text \<open>
  The configuration of a project (\<open>config.py\<close>): the validation of each field of
  \<open>.orchestrator.json\<close>, the machine-wide file whose notification channels every project
  inherits, and the watched directories.

  A file is what \<open>json.loads\<close> makes of it. A text in it is a \<open>JStr\<close>, whether or not it reads as
  a timestamp; infinite numbers and NaN have no representation. The expansion of \<open>~\<close>, the
  resolution of paths and the reading of a text as a float are inputs.
\<close>

section \<open>Inputs and errors\<close>

datatype json_file = NoFile | NotText | NotJson | Json jval

abbreviation ConfigError :: pyerr where "ConfigError \<equiv> ValueErr ''ConfigError''"
abbreviation JSONDecodeError :: pyerr where "JSONDecodeError \<equiv> ValueErr ''JSONDecodeError''"
abbreviation UnicodeDecodeError :: pyerr where "UnicodeDecodeError \<equiv> ValueErr ''UnicodeDecodeError''"
abbreviation AttributeError :: pyerr where "AttributeError \<equiv> RuntimeErr ''AttributeError''"
abbreviation PyTypeError :: pyerr where "PyTypeError \<equiv> RuntimeErr ''TypeError''"
abbreviation PyOverflowError :: pyerr where "PyOverflowError \<equiv> RuntimeErr ''OverflowError''"

record config_env =
  cf_expanduser :: "string \<Rightarrow> string"
  cf_resolve :: "string \<Rightarrow> string option"
  cf_float :: "string \<Rightarrow> rat option"
  cf_global :: json_file

section \<open>Dynamic access\<close>

text \<open>\<open>x.get(k, d)\<close> on a value that may be anything, and \<open>x or {}\<close>.\<close>

fun get_or :: "jval \<Rightarrow> string \<Rightarrow> jval \<Rightarrow> jval res" where
  "get_or (JObj o') k d = Inr (case dget o' k of None \<Rightarrow> d | Some v \<Rightarrow> v)"
| "get_or _ k d = Inl AttributeError"

definition or_empty :: "jval \<Rightarrow> jval" where
  "or_empty v = (if truthy v then v else JObj [])"

text \<open>\<open>for c in x\<close>: a text gives its characters, a dictionary its keys.\<close>

fun iter_json :: "jval \<Rightarrow> jval list res" where
  "iter_json (JList vs) = Inr vs"
| "iter_json (JStr s) = Inr (map (\<lambda>c. JStr [c]) s)"
| "iter_json (JObj o') = Inr (map (\<lambda>(k, _). JStr k) o')"
| "iter_json _ = Inl PyTypeError"

definition hashable :: "jval \<Rightarrow> bool" where
  "hashable v \<longleftrightarrow> (case v of JList _ \<Rightarrow> False | JObj _ \<Rightarrow> False | _ \<Rightarrow> True)"

fun map_res :: "('a \<Rightarrow> 'b res) \<Rightarrow> 'a list \<Rightarrow> 'b list res" where
  "map_res f [] = Inr []"
| "map_res f (x # xs) = bind_res (f x) (\<lambda>y. bind_res (map_res f xs) (\<lambda>ys. Inr (y # ys)))"

text \<open>\<open>float(n)\<close>: the largest finite double is \<open>2 ^ 1024 - 2 ^ 971\<close>, and half a step above it overflows.\<close>

definition float_of_int :: "int \<Rightarrow> rat res" where
  "float_of_int n = (if abs n < 2 ^ 1024 - 2 ^ 970 then Inr (of_int n) else Inl PyOverflowError)"

section \<open>One field at a time\<close>

record channel_spec =
  cs_kind :: string
  cs_kinds :: "jval list option"
  cs_enabled :: bool
  cs_params :: obj

definition KNOWN_KINDS :: "string list" where
  "KNOWN_KINDS = [''imessage'', ''discord'']"

definition KIND_REQUIRED :: "(string \<times> string list) list" where
  "KIND_REQUIRED = [(''imessage'', [''to'']), (''discord'', [''bot_token'', ''user_id''])]"

definition required_fields :: "string \<Rightarrow> string list" where
  "required_fields kind = (case map_of KIND_REQUIRED kind of None \<Rightarrow> [] | Some ks \<Rightarrow> ks)"

definition frozenset_of :: "jval option \<Rightarrow> jval list option res" where
  "frozenset_of kinds_raw =
     (case kinds_raw of
        None \<Rightarrow> Inr None
      | Some JNull \<Rightarrow> Inr None
      | Some v \<Rightarrow> bind_res (iter_json v) (\<lambda>vs. if list_all hashable vs then Inr (Some vs) else Inl PyTypeError))"

definition validate_channel :: "jval \<Rightarrow> channel_spec res" where
  "validate_channel raw =
     (case raw of
        JObj o' \<Rightarrow>
          (case dget o' ''kind'' of
             Some (JStr kind) \<Rightarrow>
               if kind \<notin> set KNOWN_KINDS then Inl ConfigError
               else
                 (let enabled = (case dget o' ''enabled'' of None \<Rightarrow> True | Some v \<Rightarrow> truthy v)
                  in if enabled \<and> list_ex (\<lambda>k. \<not> dtrue o' k) (required_fields kind) then Inl ConfigError
                     else bind_res (frozenset_of (dget o' ''kinds'')) (\<lambda>kinds.
                       Inr \<lparr>cs_kind = kind, cs_kinds = kinds, cs_enabled = enabled,
                            cs_params = dwithout [''kind'', ''kinds'', ''enabled''] o'\<rparr>))
           | Some v \<Rightarrow> if hashable v then Inl ConfigError else Inl PyTypeError
           | None \<Rightarrow> Inl ConfigError)
      | _ \<Rightarrow> Inl AttributeError)"

text \<open>A text field that may be absent or null.\<close>

fun opt_text :: "jval \<Rightarrow> string option res" where
  "opt_text JNull = Inr None"
| "opt_text (JStr s) = Inr (Some s)"
| "opt_text _ = Inl ConfigError"

fun is_int :: "jval \<Rightarrow> bool" where
  "is_int (JInt _) = True"
| "is_int (JBool _) = True"
| "is_int _ = False"

fun int_value :: "jval \<Rightarrow> int" where
  "int_value (JInt n) = n"
| "int_value (JBool b) = of_bool b"
| "int_value _ = 0"

fun validate_bool :: "jval \<Rightarrow> bool res" where
  "validate_bool (JBool b) = Inr b"
| "validate_bool _ = Inl ConfigError"

definition threshold_ok :: "obj \<Rightarrow> string \<Rightarrow> bool" where
  "threshold_ok o' k = (case dget o' k of None \<Rightarrow> False | Some v \<Rightarrow> is_int v \<and> int_value v \<ge> 0)"

fun validate_threshold :: "jval \<Rightarrow> obj option res" where
  "validate_threshold JNull = Inr None"
| "validate_threshold (JObj o') =
     (if threshold_ok o' ''files'' \<and> threshold_ok o' ''lines'' then Inr (Some o') else Inl ConfigError)"
| "validate_threshold _ = Inl ConfigError"

record quality_spec =
  qs_verify_command :: "string option"
  qs_simplify_threshold :: "obj option"
  qs_verify_required :: bool

definition validate_quality :: "jval \<Rightarrow> quality_spec res" where
  "validate_quality raw =
     bind_res (get_or raw ''quality'' JNull) (\<lambda>q0. let q = or_empty q0 in
     bind_res (get_or q ''verify_command'' JNull) (\<lambda>vc0.
     bind_res (opt_text vc0) (\<lambda>vc.
     bind_res (get_or q ''simplify_threshold'' JNull) (\<lambda>st0.
     bind_res (validate_threshold st0) (\<lambda>th.
     bind_res (get_or q ''verify_required'' (JBool True)) (\<lambda>vr0.
     bind_res (validate_bool vr0) (\<lambda>vr.
       Inr \<lparr>qs_verify_command = vc, qs_simplify_threshold = th, qs_verify_required = vr\<rparr>)))))))"

record coolant_spec =
  co_enabled :: bool
  co_script_dir :: "string option"

definition validate_coolant :: "jval \<Rightarrow> coolant_spec res" where
  "validate_coolant raw =
     bind_res (get_or raw ''coolant'' JNull) (\<lambda>b0. let block = or_empty b0 in
     bind_res (get_or block ''enabled'' (JBool True)) (\<lambda>en0.
     bind_res (validate_bool en0) (\<lambda>en.
     bind_res (get_or block ''script_dir'' JNull) (\<lambda>sd0.
     bind_res (opt_text sd0) (\<lambda>sd.
       Inr \<lparr>co_enabled = en, co_script_dir = sd\<rparr>)))))"

text \<open>\<open>float(val)\<close>, with \<open>None\<close> for the \<open>TypeError\<close> or \<open>ValueError\<close> that falls back to the default.\<close>

definition lease_float :: "config_env \<Rightarrow> jval \<Rightarrow> rat option res" where
  "lease_float env v =
     (case v of
        JFloat r \<Rightarrow> Inr (Some r)
      | JInt n \<Rightarrow> bind_res (float_of_int n) (\<lambda>r. Inr (Some r))
      | JBool b \<Rightarrow> Inr (Some (of_bool b))
      | JStr s \<Rightarrow> Inr (cf_float env s)
      | _ \<Rightarrow> Inr None)"

definition validate_lease_ttl_scale :: "config_env \<Rightarrow> jval \<Rightarrow> rat res" where
  "validate_lease_ttl_scale env raw =
     bind_res (get_or raw ''lease_ttl_scale'' (JFloat (1 / 2))) (\<lambda>v.
     bind_res (lease_float env v) (\<lambda>x.
       Inr (case x of None \<Rightarrow> 1 / 2 | Some r \<Rightarrow> if r < 0 then 1 / 2 else r)))"

definition SHIP_MODES :: "string list" where
  "SHIP_MODES = [''direct'', ''as_pr'']"

definition validate_ship_mode :: "jval \<Rightarrow> string res" where
  "validate_ship_mode disp =
     bind_res (get_or disp ''ship_mode'' (JStr ''direct'')) (\<lambda>v.
       case v of JStr s \<Rightarrow> if s \<in> set SHIP_MODES then Inr s else Inl ConfigError | _ \<Rightarrow> Inl ConfigError)"

definition validate_bool_field :: "jval \<Rightarrow> string \<Rightarrow> bool \<Rightarrow> bool res" where
  "validate_bool_field raw name dflt = bind_res (get_or raw name (JBool dflt)) validate_bool"

definition int_from :: "int \<Rightarrow> jval \<Rightarrow> int res" where
  "int_from least v = (case v of JInt n \<Rightarrow> if n < least then Inl ConfigError else Inr n | _ \<Rightarrow> Inl ConfigError)"

definition validate_non_negative_int :: "jval \<Rightarrow> string \<Rightarrow> int \<Rightarrow> int res" where
  "validate_non_negative_int raw key dflt = bind_res (get_or raw key (JInt dflt)) (int_from 0)"

definition validate_positive_int :: "jval \<Rightarrow> string \<Rightarrow> int \<Rightarrow> int res" where
  "validate_positive_int raw key dflt = bind_res (get_or raw key (JInt dflt)) (int_from 1)"

fun positive_number :: "jval \<Rightarrow> rat res" where
  "positive_number (JInt n) = (if n \<le> 0 then Inl ConfigError else float_of_int n)"
| "positive_number (JFloat r) = (if r \<le> 0 then Inl ConfigError else Inr r)"
| "positive_number _ = Inl ConfigError"

definition validate_positive_float :: "jval \<Rightarrow> string \<Rightarrow> rat \<Rightarrow> rat res" where
  "validate_positive_float raw key dflt = bind_res (get_or raw key (JFloat dflt)) positive_number"

fun parse_quiet_hours :: "jval \<Rightarrow> (jval \<times> jval) option" where
  "parse_quiet_hours (JList [a, b]) = Some (a, b)"
| "parse_quiet_hours _ = None"

section \<open>The machine-wide file\<close>

definition read_global_config :: "json_file \<Rightarrow> jval res" where
  "read_global_config f =
     (case f of NotText \<Rightarrow> Inl UnicodeDecodeError | Json (JObj o') \<Rightarrow> Inr (JObj o') | _ \<Rightarrow> Inr (JObj []))"

text \<open>The part that may fail, and the fallback.\<close>

definition global_notify_block :: "jval \<Rightarrow> (channel_spec list \<times> (jval \<times> jval) option) res" where
  "global_notify_block raw =
     bind_res (get_or raw ''notify'' (JObj [])) (\<lambda>nr.
     bind_res (get_or nr ''channels'' (JList [])) (\<lambda>cs.
     bind_res (iter_json cs) (\<lambda>vs.
     bind_res (map_res validate_channel vs) (\<lambda>channels.
     bind_res (get_or nr ''quiet_hours'' JNull) (\<lambda>q.
       Inr (channels, parse_quiet_hours q))))))"

definition load_global_notify :: "json_file \<Rightarrow> (channel_spec list \<times> (jval \<times> jval) option) res" where
  "load_global_notify f =
     bind_res (read_global_config f) (\<lambda>raw.
       case global_notify_block raw of
         Inr r \<Rightarrow> Inr r
       | Inl e \<Rightarrow> if e \<in> {ConfigError, AttributeError, PyTypeError} then Inr ([], None) else Inl e)"

definition session_dir_of :: "config_env \<Rightarrow> jval \<Rightarrow> string option" where
  "session_dir_of env e =
     (case e of
        JStr s \<Rightarrow> if take 1 (cf_expanduser env s) \<noteq> [CHR 0x2F] then None else cf_resolve env (cf_expanduser env s)
      | _ \<Rightarrow> None)"

fun add_new :: "string \<Rightarrow> string list \<Rightarrow> string list" where
  "add_new d out = (if d \<in> set out then out else out @ [d])"

definition load_session_dirs :: "config_env \<Rightarrow> string list res" where
  "load_session_dirs env =
     bind_res (read_global_config (cf_global env)) (\<lambda>raw.
     bind_res (get_or raw ''session_dirs'' (JList [])) (\<lambda>entries.
       Inr (case entries of JList vs \<Rightarrow> fold add_new (List.map_filter (session_dir_of env) vs) [] | _ \<Rightarrow> [])))"

section \<open>The project's file\<close>

record project_config =
  pc_root :: string
  pc_plan_dir :: jval
  pc_dispatch_kind :: jval
  pc_dispatch_command :: jval
  pc_dispatch_path :: string
  pc_ship_mode :: string
  pc_bash_max :: int
  pc_channels :: "channel_spec list"
  pc_quiet_hours :: "(jval \<times> jval) option"
  pc_inbound_auto_tick :: bool
  pc_test_command :: "jval option"
  pc_auto_archive :: bool
  pc_keep_remote :: bool
  pc_tick_on_action :: bool
  pc_quality :: quality_spec
  pc_coolant :: coolant_spec
  pc_lease_ttl_scale :: rat
  pc_stuck_tool :: int
  pc_stuck_tool_cpu :: int
  pc_idle_window :: rat
  pc_idle_gap :: rat
  pc_idle_delta :: rat
  pc_idle_samples :: int
  pc_span_ceiling :: int

definition QUIET_SPAN_CEILING_DEFAULT_MINUTES :: int where
  "QUIET_SPAN_CEILING_DEFAULT_MINUTES = 45"

definition default_config :: "string \<Rightarrow> project_config" where
  "default_config dir =
     \<lparr>pc_root = dir, pc_plan_dir = JStr ''plans'', pc_dispatch_kind = JStr ''shell'', pc_dispatch_command = JStr [],
      pc_dispatch_path = [], pc_ship_mode = ''direct'', pc_bash_max = 1800000, pc_channels = [],
      pc_quiet_hours = None, pc_inbound_auto_tick = True, pc_test_command = None, pc_auto_archive = True,
      pc_keep_remote = False, pc_tick_on_action = True,
      pc_quality = \<lparr>qs_verify_command = None, qs_simplify_threshold = None, qs_verify_required = True\<rparr>,
      pc_coolant = \<lparr>co_enabled = True, co_script_dir = None\<rparr>, pc_lease_ttl_scale = 1 / 2,
      pc_stuck_tool = 300, pc_stuck_tool_cpu = 5, pc_idle_window = 10, pc_idle_gap = 60, pc_idle_delta = 1,
      pc_idle_samples = 3, pc_span_ceiling = QUIET_SPAN_CEILING_DEFAULT_MINUTES\<rparr>"

text \<open>\<open>disp.get("path", "") or ""\<close>, each segment with \<open>~\<close> expanded.\<close>

definition dispatch_path :: "config_env \<Rightarrow> jval \<Rightarrow> string res" where
  "dispatch_path env disp =
     bind_res (get_or disp ''path'' (JStr [])) (\<lambda>v.
       if \<not> truthy v then Inr []
       else case v of
         JStr s \<Rightarrow> Inr (join_with (CHR 0x3A) (map (cf_expanduser env) (split_on (CHR 0x3A) s)))
       | _ \<Rightarrow> Inl AttributeError)"

definition channels_raw :: "jval \<Rightarrow> jval res" where
  "channels_raw notify_raw =
     bind_res (get_or notify_raw ''channels'' JNull) (\<lambda>v.
       if v \<noteq> JNull then Inr v
       else
         bind_res (get_or notify_raw ''imessage'' JNull) (\<lambda>im.
         bind_res (get_or (or_empty im) ''to'' JNull) (\<lambda>legacy.
           Inr (JList (if truthy legacy
                       then [JObj [(''kind'', JStr ''imessage''), (''to'', legacy), (''enabled'', JBool True)]]
                       else [])))))"

text \<open>The project's channels override the inherited ones of the same kind.\<close>

definition merge_channels :: "channel_spec list \<Rightarrow> channel_spec list \<Rightarrow> channel_spec list" where
  "merge_channels global_channels local_channels =
     filter (\<lambda>g. cs_kind g \<notin> cs_kind ` set local_channels) global_channels @ local_channels"

record notify_part =
  np_channels :: "channel_spec list"
  np_quiet :: "(jval \<times> jval) option"
  np_auto :: bool

definition load_notify :: "config_env \<Rightarrow> jval \<Rightarrow> jval \<Rightarrow> jval \<Rightarrow> notify_part res" where
  "load_notify env notify_raw quiet raw_channels =
     bind_res (iter_json raw_channels) (\<lambda>vs.
     bind_res (map_res validate_channel vs) (\<lambda>local_channels.
     bind_res (load_global_notify (cf_global env)) (\<lambda>(global_channels, global_quiet).
     bind_res (get_or notify_raw ''inbound_auto_tick'' (JBool True)) (\<lambda>auto_tick.
       Inr \<lparr>np_channels = merge_channels global_channels local_channels,
            np_quiet = (case parse_quiet_hours quiet of None \<Rightarrow> global_quiet | Some q \<Rightarrow> Some q),
            np_auto = truthy auto_tick\<rparr>))))"

definition load_fields :: "config_env \<Rightarrow> string \<Rightarrow> jval \<Rightarrow> project_config res" where
  "load_fields env dir raw =
     bind_res (get_or raw ''dispatch'' (JObj [])) (\<lambda>disp.
     bind_res (get_or raw ''notify'' (JObj [])) (\<lambda>notify_raw.
     bind_res (get_or notify_raw ''quiet_hours'' JNull) (\<lambda>quiet.
     bind_res (dispatch_path env disp) (\<lambda>path.
     bind_res (channels_raw notify_raw) (\<lambda>chs.
     bind_res (load_notify env notify_raw quiet chs) (\<lambda>np.
     bind_res (get_or raw ''plan_dir'' (JStr ''plans'')) (\<lambda>plan_dir.
     bind_res (get_or disp ''kind'' (JStr ''shell'')) (\<lambda>kind.
     bind_res (get_or disp ''command'' (JStr [])) (\<lambda>command.
     bind_res (validate_ship_mode disp) (\<lambda>ship.
     bind_res (validate_non_negative_int disp ''bash_max_timeout_ms'' 1800000) (\<lambda>bash.
     bind_res (get_or raw ''test_command'' JNull) (\<lambda>test.
     bind_res (validate_bool_field raw ''auto_archive'' True) (\<lambda>archive.
     bind_res (validate_bool_field raw ''keep_remote_branches'' False) (\<lambda>keep.
     bind_res (validate_bool_field raw ''tick_on_action'' True) (\<lambda>tick.
     bind_res (validate_quality raw) (\<lambda>quality.
     bind_res (validate_coolant raw) (\<lambda>coolant.
     bind_res (validate_lease_ttl_scale env raw) (\<lambda>scale.
     bind_res (validate_non_negative_int raw ''stuck_tool_threshold_seconds'' 300) (\<lambda>stuck.
     bind_res (validate_non_negative_int raw ''stuck_tool_cpu_threshold_seconds'' 5) (\<lambda>stuck_cpu.
     bind_res (validate_positive_float raw ''worker_idle_window_minutes'' 10) (\<lambda>window.
     bind_res (validate_positive_float raw ''worker_idle_max_sample_gap_seconds'' 60) (\<lambda>gap.
     bind_res (validate_positive_float raw ''worker_idle_cpu_delta_threshold_seconds'' 1) (\<lambda>delta.
     bind_res (validate_positive_int raw ''worker_idle_min_samples'' 3) (\<lambda>samples.
     bind_res (validate_non_negative_int raw ''worker_quiet_span_ceiling_minutes'' QUIET_SPAN_CEILING_DEFAULT_MINUTES) (\<lambda>ceiling.
       Inr \<lparr>pc_root = dir, pc_plan_dir = plan_dir, pc_dispatch_kind = kind, pc_dispatch_command = command,
            pc_dispatch_path = path, pc_ship_mode = ship, pc_bash_max = bash, pc_channels = np_channels np,
            pc_quiet_hours = np_quiet np, pc_inbound_auto_tick = np_auto np,
            pc_test_command = (if truthy test then Some test else None), pc_auto_archive = archive,
            pc_keep_remote = keep, pc_tick_on_action = tick, pc_quality = quality, pc_coolant = coolant,
            pc_lease_ttl_scale = scale, pc_stuck_tool = stuck, pc_stuck_tool_cpu = stuck_cpu, pc_idle_window = window,
            pc_idle_gap = gap, pc_idle_delta = delta, pc_idle_samples = samples, pc_span_ceiling = ceiling\<rparr>)))))))))))))))))))))))))"

definition load_project_config :: "config_env \<Rightarrow> string \<Rightarrow> json_file \<Rightarrow> project_config res" where
  "load_project_config env dir f =
     (case f of
        NoFile \<Rightarrow> Inr (default_config dir)
      | NotText \<Rightarrow> Inl UnicodeDecodeError
      | NotJson \<Rightarrow> Inl JSONDecodeError
      | Json raw \<Rightarrow> load_fields env dir raw)"

definition resolved_verify_command :: "project_config \<Rightarrow> jval option" where
  "resolved_verify_command c =
     (case qs_verify_command (pc_quality c) of
        Some (x # xs) \<Rightarrow> Some (JStr (x # xs)) | _ \<Rightarrow> pc_test_command c)"

definition simplify_threshold_or_default :: "project_config \<Rightarrow> int \<times> int" where
  "simplify_threshold_or_default c =
     (case qs_simplify_threshold (pc_quality c) of
        None \<Rightarrow> (1, 30)
      | Some t \<Rightarrow> (case dget t ''files'' of None \<Rightarrow> 1 | Some v \<Rightarrow> int_value v, case dget t ''lines'' of None \<Rightarrow> 30 | Some v \<Rightarrow> int_value v))"

end
