(* ===== verification/Config_Props.thy ===== *)
theory Config_Props
  imports Config
begin

text \<open>
  What the loaders of the configuration promise: a schema the project's file is accepted by, the
  types and ranges of what is returned, and the inheritance of notification channels.
\<close>

section \<open>Success and failure\<close>

definition succeeds :: "'a res \<Rightarrow> bool" where
  "succeeds m \<longleftrightarrow> \<not> isl m"

lemma succeeds_simps [simp]: "succeeds (Inr x)" "\<not> succeeds (Inl e)"
  by (simp_all add: succeeds_def)

lemma isr_bind [simp]: "succeeds (bind_res m f) \<longleftrightarrow> succeeds m \<and> succeeds (f (projr m))"
  by (cases m) auto

lemma isr_map_res [simp]: "succeeds (map_res f xs) \<longleftrightarrow> list_all (\<lambda>x. succeeds (f x)) xs"
  by (induction xs) auto

lemma get_or_obj: "succeeds (get_or v k d) \<longleftrightarrow> (\<exists>o'. v = JObj o')"
  by (cases v) auto

lemma map_res_Inr: "map_res f xs = Inr ys \<Longrightarrow> list_all2 (\<lambda>x y. f x = Inr y) xs ys"
  by (induction xs arbitrary: ys) (auto simp: bind_res_Inr)

lemma map_res_Inl: "map_res f xs = Inl e \<Longrightarrow> \<exists>x\<in>set xs. f x = Inl e"
  by (induction xs) (auto simp: bind_res_Inl)

section \<open>The schema\<close>

definition field_ok :: "obj \<Rightarrow> string \<Rightarrow> (jval \<Rightarrow> bool) \<Rightarrow> bool" where
  "field_ok o' k P \<longleftrightarrow> (case dget o' k of None \<Rightarrow> True | Some v \<Rightarrow> P v)"

text \<open>A part that is an object and, where \<open>falsy\<close> says so, may be null, false, empty or zero.\<close>

definition part_ok :: "bool \<Rightarrow> (obj \<Rightarrow> bool) \<Rightarrow> jval \<Rightarrow> bool" where
  "part_ok falsy P v \<longleftrightarrow> (if falsy \<and> \<not> truthy v then P [] else (case v of JObj o' \<Rightarrow> P o' | _ \<Rightarrow> False))"

definition part_or_absent :: "obj \<Rightarrow> string \<Rightarrow> bool \<Rightarrow> (obj \<Rightarrow> bool) \<Rightarrow> bool" where
  "part_or_absent o' k falsy P \<longleftrightarrow> part_ok falsy P (case dget o' k of None \<Rightarrow> JObj [] | Some v \<Rightarrow> v)"

definition is_threshold :: "jval \<Rightarrow> bool" where
  "is_threshold v \<longleftrightarrow> v = JNull \<or> (\<exists>t. v = JObj t \<and> threshold_ok t ''files'' \<and> threshold_ok t ''lines'')"
definition is_bool :: "jval \<Rightarrow> bool" where "is_bool v \<longleftrightarrow> (\<exists>b. v = JBool b)"
definition is_text_or_null :: "jval \<Rightarrow> bool" where "is_text_or_null v \<longleftrightarrow> v = JNull \<or> (\<exists>s. v = JStr s)"
definition is_count :: "int \<Rightarrow> jval \<Rightarrow> bool" where "is_count least v \<longleftrightarrow> (\<exists>n. v = JInt n \<and> least \<le> n)"
definition fits_float :: "int \<Rightarrow> bool" where "fits_float n \<longleftrightarrow> abs n < 2 ^ 1024 - 2 ^ 970"
definition is_positive :: "jval \<Rightarrow> bool" where
  "is_positive v \<longleftrightarrow> (\<exists>n. v = JInt n \<and> 0 < n \<and> fits_float n) \<or> (\<exists>r. v = JFloat r \<and> 0 < r)"

text \<open>A collection that can be iterated over, every element as \<open>P\<close> says.\<close>

definition each_ok :: "(jval \<Rightarrow> bool) \<Rightarrow> jval \<Rightarrow> bool" where
  "each_ok P v \<longleftrightarrow> (case iter_json v of Inl _ \<Rightarrow> False | Inr vs \<Rightarrow> list_all P vs)"

definition channel_ok :: "jval \<Rightarrow> bool" where
  "channel_ok v \<longleftrightarrow> (\<exists>o' kind. v = JObj o' \<and> dget o' ''kind'' = Some (JStr kind) \<and> kind \<in> {''imessage'', ''discord''}
     \<and> (field_ok o' ''enabled'' truthy \<longrightarrow>
          (if kind = ''imessage'' then dtrue o' ''to'' else dtrue o' ''bot_token'' \<and> dtrue o' ''user_id''))
     \<and> field_ok o' ''kinds'' (\<lambda>k. k = JNull \<or> each_ok hashable k))"

definition notify_ok :: "obj \<Rightarrow> bool" where
  "notify_ok n \<longleftrightarrow>
     (if field_ok n ''channels'' (\<lambda>v. v = JNull)
      then part_or_absent n ''imessage'' True (\<lambda>_. True)
      else field_ok n ''channels'' (each_ok channel_ok))"

definition dispatch_ok :: "obj \<Rightarrow> bool" where
  "dispatch_ok d \<longleftrightarrow> field_ok d ''path'' (\<lambda>v. truthy v \<longrightarrow> (\<exists>s. v = JStr s))
     \<and> field_ok d ''ship_mode'' (\<lambda>v. v \<in> {JStr ''direct'', JStr ''as_pr''})
     \<and> field_ok d ''bash_max_timeout_ms'' (is_count 0)"

definition quality_ok :: "obj \<Rightarrow> bool" where
  "quality_ok q \<longleftrightarrow> field_ok q ''verify_command'' is_text_or_null
     \<and> field_ok q ''simplify_threshold'' is_threshold
     \<and> field_ok q ''verify_required'' is_bool"

definition coolant_ok :: "obj \<Rightarrow> bool" where
  "coolant_ok c \<longleftrightarrow> field_ok c ''enabled'' is_bool \<and> field_ok c ''script_dir'' is_text_or_null"

definition schema_ok :: "jval \<Rightarrow> bool" where
  "schema_ok raw \<longleftrightarrow> (\<exists>o'. raw = JObj o'
     \<and> part_or_absent o' ''dispatch'' False dispatch_ok
     \<and> part_or_absent o' ''notify'' False notify_ok
     \<and> part_or_absent o' ''quality'' True quality_ok
     \<and> part_or_absent o' ''coolant'' True coolant_ok
     \<and> field_ok o' ''auto_archive'' is_bool \<and> field_ok o' ''keep_remote_branches'' is_bool
     \<and> field_ok o' ''tick_on_action'' is_bool
     \<and> field_ok o' ''lease_ttl_scale'' (\<lambda>v. \<forall>n. v = JInt n \<longrightarrow> fits_float n)
     \<and> field_ok o' ''stuck_tool_threshold_seconds'' (is_count 0)
     \<and> field_ok o' ''stuck_tool_cpu_threshold_seconds'' (is_count 0)
     \<and> field_ok o' ''worker_idle_window_minutes'' is_positive
     \<and> field_ok o' ''worker_idle_max_sample_gap_seconds'' is_positive
     \<and> field_ok o' ''worker_idle_cpu_delta_threshold_seconds'' is_positive
     \<and> field_ok o' ''worker_idle_min_samples'' (is_count 1)
     \<and> field_ok o' ''worker_quiet_span_ceiling_minutes'' (is_count 0))"

section \<open>The validators against the schema\<close>

named_theorems ok_simps \<open>when a validator succeeds\<close>

lemma isr_frozenset [ok_simps]:
  "succeeds (frozenset_of (dget o' k)) \<longleftrightarrow> field_ok o' k (\<lambda>v. v = JNull \<or> each_ok hashable v)"
  by (auto simp: frozenset_of_def field_ok_def each_ok_def split: option.splits jval.splits sum.splits)

lemma isr_channel [ok_simps]: "succeeds (validate_channel v) \<longleftrightarrow> channel_ok v"
proof (cases "\<exists>o' kind. v = JObj o' \<and> dget o' ''kind'' = Some (JStr kind)")
  case True
  then obtain o' kind where v: "v = JObj o'" "dget o' ''kind'' = Some (JStr kind)" by auto
  show ?thesis
    using v isr_frozenset[of o' "''kinds''"]
    by (auto simp: validate_channel_def channel_ok_def KNOWN_KINDS_def KIND_REQUIRED_def required_fields_def Let_def
        field_ok_def split: option.splits)
next
  case False
  then show ?thesis
    by (auto simp: validate_channel_def channel_ok_def split: jval.splits option.splits)
qed

lemma isr_int_from [simp]: "succeeds (int_from l v) \<longleftrightarrow> is_count l v"
  by (cases v) (auto simp: int_from_def is_count_def)

lemma isr_float_of_int [simp]: "succeeds (float_of_int n) \<longleftrightarrow> fits_float n"
  by (auto simp: float_of_int_def fits_float_def)

lemma isr_positive_number [simp]: "succeeds (positive_number v) \<longleftrightarrow> is_positive v"
  by (cases v) (auto simp: is_positive_def not_le)

lemma isr_opt_text [simp]: "succeeds (opt_text v) \<longleftrightarrow> is_text_or_null v"
  by (cases v) (auto simp: is_text_or_null_def)

lemma isr_validate_bool [simp]: "succeeds (validate_bool v) \<longleftrightarrow> is_bool v"
  by (cases v) (auto simp: is_bool_def)

lemma isr_threshold [simp]:
  "succeeds (validate_threshold v) \<longleftrightarrow> is_threshold v"
  by (cases v) (auto simp: is_threshold_def)

lemma isr_int_fields [ok_simps]:
  "succeeds (validate_non_negative_int (JObj o') k d) \<longleftrightarrow> (if d < 0 then \<exists>v. dget o' k = Some v \<and> is_count 0 v else field_ok o' k (is_count 0))"
  "succeeds (validate_positive_int (JObj o') k d) \<longleftrightarrow> (if d < 1 then \<exists>v. dget o' k = Some v \<and> is_count 1 v else field_ok o' k (is_count 1))"
  by (auto simp: validate_non_negative_int_def validate_positive_int_def field_ok_def is_count_def split: option.splits)

lemma isr_positive_field [ok_simps]: "0 < d \<Longrightarrow> succeeds (validate_positive_float (JObj o') k d) \<longleftrightarrow> field_ok o' k is_positive"
  by (auto simp: validate_positive_float_def field_ok_def is_positive_def split: option.splits)

lemma isr_bool_field [ok_simps]: "succeeds (validate_bool_field (JObj o') k d) \<longleftrightarrow> field_ok o' k is_bool"
  by (auto simp: validate_bool_field_def field_ok_def is_bool_def split: option.splits)

lemma isr_ship_mode [ok_simps]:
  "succeeds (validate_ship_mode (JObj o')) \<longleftrightarrow> field_ok o' ''ship_mode'' (\<lambda>v. v \<in> {JStr ''direct'', JStr ''as_pr''})"
  by (auto simp: validate_ship_mode_def field_ok_def SHIP_MODES_def split: option.splits jval.splits)

lemma isr_scale [ok_simps]:
  "succeeds (validate_lease_ttl_scale env (JObj o')) \<longleftrightarrow> field_ok o' ''lease_ttl_scale'' (\<lambda>v. \<forall>n. v = JInt n \<longrightarrow> fits_float n)"
  by (auto simp: validate_lease_ttl_scale_def lease_float_def field_ok_def split: option.splits jval.splits)

lemma or_empty_part: "(\<exists>x. or_empty v = JObj x \<and> P x) \<longleftrightarrow> part_ok True P v"
  by (auto simp: or_empty_def part_ok_def split: jval.splits)

lemma field_default: "P d \<Longrightarrow> P (case dget o' k of None \<Rightarrow> d | Some v \<Rightarrow> v) \<longleftrightarrow> field_ok o' k P"
  by (simp add: field_ok_def split: option.split)

lemmas field_defaults =
  field_default[of is_text_or_null JNull, simplified is_text_or_null_def[of JNull] simp_thms]
  field_default[of is_bool "JBool b" for b, simplified is_bool_def[of "JBool _"] jval.inject simp_thms]
  field_default[of is_threshold JNull, simplified is_threshold_def[of JNull] simp_thms]

lemma isr_quality [ok_simps]: "succeeds (validate_quality (JObj o')) \<longleftrightarrow> part_or_absent o' ''quality'' True quality_ok"
proof -
  let ?q = "or_empty (case dget o' ''quality'' of None \<Rightarrow> JNull | Some v \<Rightarrow> v)"
  have "succeeds (validate_quality (JObj o')) \<longleftrightarrow> (\<exists>x. ?q = JObj x \<and> quality_ok x)"
    by (cases ?q) (simp_all add: validate_quality_def Let_def quality_ok_def field_defaults conj_ac)
  also have "\<dots> \<longleftrightarrow> part_or_absent o' ''quality'' True quality_ok"
    by (cases "dget o' ''quality''") (simp_all add: or_empty_part part_or_absent_def part_ok_def)
  finally show ?thesis .
qed

lemma isr_coolant [ok_simps]: "succeeds (validate_coolant (JObj o')) \<longleftrightarrow> part_or_absent o' ''coolant'' True coolant_ok"
proof -
  let ?q = "or_empty (case dget o' ''coolant'' of None \<Rightarrow> JNull | Some v \<Rightarrow> v)"
  have "succeeds (validate_coolant (JObj o')) \<longleftrightarrow> (\<exists>x. ?q = JObj x \<and> coolant_ok x)"
    by (cases ?q) (simp_all add: validate_coolant_def Let_def coolant_ok_def field_defaults conj_ac)
  also have "\<dots> \<longleftrightarrow> part_or_absent o' ''coolant'' True coolant_ok"
    by (cases "dget o' ''coolant''") (simp_all add: or_empty_part part_or_absent_def part_ok_def)
  finally show ?thesis .
qed

lemma isr_path [ok_simps]: "succeeds (dispatch_path env (JObj d)) \<longleftrightarrow> field_ok d ''path'' (\<lambda>v. truthy v \<longrightarrow> (\<exists>s. v = JStr s))"
  by (auto simp: dispatch_path_def field_ok_def split: option.splits jval.splits)

section \<open>The loaders\<close>

lemma channel_errors: "validate_channel v = Inl e \<Longrightarrow> e \<in> {ConfigError, AttributeError, PyTypeError}"
  by (auto simp: validate_channel_def frozenset_of_def bind_res_Inl Let_def
      split: jval.splits option.splits if_splits elim!: iter_json.elims)

lemma get_or_errors: "get_or v k d = Inl e \<Longrightarrow> e = AttributeError"
  by (cases v) auto

lemma iter_json_errors: "iter_json v = Inl e \<Longrightarrow> e = PyTypeError"
  by (cases v) auto

lemma global_block_errors: "global_notify_block raw = Inl e \<Longrightarrow> e \<in> {ConfigError, AttributeError, PyTypeError}"
  unfolding global_notify_block_def
  by (auto simp: bind_res_Inl dest!: get_or_errors iter_json_errors map_res_Inl channel_errors)

lemma global_fails_open: "succeeds (load_global_notify f) \<longleftrightarrow> f \<noteq> NotText"
proof (cases "read_global_config f")
  case (Inl e)
  then show ?thesis by (auto simp: load_global_notify_def read_global_config_def split: json_file.splits jval.splits)
next
  case (Inr raw)
  then have "f \<noteq> NotText" by (auto simp: read_global_config_def)
  with Inr global_block_errors[of raw] show ?thesis
    by (cases "global_notify_block raw") (auto simp: load_global_notify_def)
qed

lemma succeeds_notify [ok_simps]:
  "succeeds (load_notify env (JObj n) q chs) \<longleftrightarrow> each_ok channel_ok chs \<and> cf_global env \<noteq> NotText"
  by (cases "iter_json chs") (auto simp: load_notify_def each_ok_def isr_channel global_fails_open split: prod.split)

lemma channels_raw_legacy:
  "field_ok n ''channels'' (\<lambda>v. v = JNull) \<Longrightarrow> succeeds (channels_raw (JObj n)) \<longleftrightarrow> part_or_absent n ''imessage'' True (\<lambda>_. True)"
  by (auto simp: channels_raw_def field_ok_def part_or_absent_def part_ok_def or_empty_def
      split: option.splits jval.splits if_splits)

lemma legacy_channel_ok: "field_ok n ''channels'' (\<lambda>v. v = JNull) \<Longrightarrow> succeeds (channels_raw (JObj n)) \<Longrightarrow>
   each_ok channel_ok (projr (channels_raw (JObj n)))"
  by (cases "get_or (or_empty (case dget n ''imessage'' of None \<Rightarrow> JNull | Some v \<Rightarrow> v)) ''to'' JNull")
    (auto simp: channels_raw_def field_ok_def each_ok_def channel_ok_def dtrue_def
      split: option.splits)

lemma channels_raw_given:
  "\<not> field_ok n ''channels'' (\<lambda>v. v = JNull) \<Longrightarrow> channels_raw (JObj n) = Inr (the (dget n ''channels''))"
  by (auto simp: channels_raw_def field_ok_def split: option.splits)

lemma channels_given_ok: "\<not> field_ok n ''channels'' (\<lambda>v. v = JNull) \<Longrightarrow>
   field_ok n ''channels'' P \<longleftrightarrow> P (the (dget n ''channels''))"
  by (auto simp: field_ok_def split: option.splits)

lemma succeeds_channels:
  "succeeds (channels_raw (JObj n)) \<and> each_ok channel_ok (projr (channels_raw (JObj n))) \<longleftrightarrow> notify_ok n"
  by (cases "field_ok n ''channels'' (\<lambda>v. v = JNull)")
    (auto simp: notify_ok_def channels_raw_legacy channels_raw_given channels_given_ok legacy_channel_ok)

lemma get_or_falls: "succeeds (get_or v k d) \<longleftrightarrow> (\<exists>x. v = JObj x)"
  by (rule get_or_obj)

text \<open>
  The schema of the project file, exactly. A file is accepted if and only if it is absent, or it is an
  object in which every field that is present is of the stated shape and range, nested parts
  included, and the machine-wide file is at least text. Whatever else the machine-wide file
  holds does not matter.
\<close>

theorem config_schema:
  "succeeds (load_project_config env dir f) \<longleftrightarrow>
     (case f of NoFile \<Rightarrow> True | Json raw \<Rightarrow> schema_ok raw \<and> cf_global env \<noteq> NotText | _ \<Rightarrow> False)"
proof (cases f)
  case (Json raw)
  show ?thesis
  proof (cases "\<exists>o' d n. raw = JObj o' \<and> (case dget o' ''dispatch'' of None \<Rightarrow> JObj [] | Some v \<Rightarrow> v) = JObj d
      \<and> (case dget o' ''notify'' of None \<Rightarrow> JObj [] | Some v \<Rightarrow> v) = JObj n")
    case True
    then obtain o' d n where raw: "raw = JObj o'"
      and d: "(case dget o' ''dispatch'' of None \<Rightarrow> JObj [] | Some v \<Rightarrow> v) = JObj d"
      and n: "(case dget o' ''notify'' of None \<Rightarrow> JObj [] | Some v \<Rightarrow> v) = JObj n" by blast
    have "succeeds (load_project_config env dir f) \<longleftrightarrow>
        dispatch_ok d \<and> notify_ok n \<and> cf_global env \<noteq> NotText
        \<and> part_or_absent o' ''quality'' True quality_ok
        \<and> part_or_absent o' ''coolant'' True coolant_ok
        \<and> field_ok o' ''auto_archive'' is_bool \<and> field_ok o' ''keep_remote_branches'' is_bool
        \<and> field_ok o' ''tick_on_action'' is_bool
        \<and> field_ok o' ''lease_ttl_scale'' (\<lambda>v. \<forall>n. v = JInt n \<longrightarrow> fits_float n)
        \<and> field_ok o' ''stuck_tool_threshold_seconds'' (is_count 0)
        \<and> field_ok o' ''stuck_tool_cpu_threshold_seconds'' (is_count 0)
        \<and> field_ok o' ''worker_idle_window_minutes'' is_positive
        \<and> field_ok o' ''worker_idle_max_sample_gap_seconds'' is_positive
        \<and> field_ok o' ''worker_idle_cpu_delta_threshold_seconds'' is_positive
        \<and> field_ok o' ''worker_idle_min_samples'' (is_count 1)
        \<and> field_ok o' ''worker_quiet_span_ceiling_minutes'' (is_count 0)"
      by (simp add: Json raw load_project_config_def load_fields_def d n ok_simps dispatch_ok_def
          QUIET_SPAN_CEILING_DEFAULT_MINUTES_def succeeds_channels[symmetric] conj_ac)
    then show ?thesis by (simp add: Json raw schema_ok_def part_or_absent_def[of _ _ False] part_ok_def d n conj_ac)
  next
    case False
    have "\<not> succeeds (load_fields env dir raw)"
      unfolding load_fields_def using False
      by (auto simp: get_or_falls)
    moreover have "\<not> schema_ok raw"
      using False by (auto simp: schema_ok_def part_or_absent_def[of _ _ False] part_ok_def split: jval.splits)
    ultimately show ?thesis by (simp add: Json load_project_config_def)
  qed
qed (simp_all add: load_project_config_def)

section \<open>Types and ranges\<close>

definition channel_typed :: "channel_spec \<Rightarrow> bool" where
  "channel_typed ch \<longleftrightarrow> cs_kind ch \<in> {''imessage'', ''discord''}
     \<and> (cs_enabled ch \<longrightarrow> (\<forall>k\<in>set (required_fields (cs_kind ch)). dtrue (cs_params ch) k))
     \<and> (case cs_kinds ch of None \<Rightarrow> True | Some ks \<Rightarrow> list_all hashable ks)"

lemma frozenset_typed: "frozenset_of x = Inr ks \<Longrightarrow> (case ks of None \<Rightarrow> True | Some vs \<Rightarrow> list_all hashable vs)"
  by (auto simp: frozenset_of_def bind_res_Inr split: option.split_asm jval.split_asm if_split_asm)

lemma validate_channel_typed:
  assumes "validate_channel v = Inr ch"
  shows "channel_typed ch"
proof -
  have "succeeds (validate_channel v)" using assms by simp
  then obtain o' kind where v: "v = JObj o'" "dget o' ''kind'' = Some (JStr kind)" by (auto simp: isr_channel channel_ok_def)
  from assms v have k: "kind \<in> set KNOWN_KINDS" by (auto split: if_split_asm simp: validate_channel_def)
  let ?en = "case dget o' ''enabled'' of None \<Rightarrow> True | Some v \<Rightarrow> truthy v"
  from assms v k obtain ks where ch: "frozenset_of (dget o' ''kinds'') = Inr ks"
      "ch = \<lparr>cs_kind = kind, cs_kinds = ks, cs_enabled = ?en, cs_params = dwithout [''kind'', ''kinds'', ''enabled''] o'\<rparr>"
    and req: "\<not> (?en \<and> list_ex (\<lambda>k. \<not> dtrue o' k) (required_fields kind))"
    unfolding validate_channel_def Let_def by (simp add: bind_res_Inr split: if_split_asm) blast
  have "dtrue (dwithout [''kind'', ''kinds'', ''enabled''] o') x" if "?en" "x \<in> set (required_fields kind)" for x
  proof -
    have "x \<notin> {''kind'', ''kinds'', ''enabled''}"
      using that(2) k by (simp add: KNOWN_KINDS_def KIND_REQUIRED_def required_fields_def split: if_split_asm) blast
    moreover have "dtrue o' x" using req that by (auto simp: list_ex_iff)
    ultimately show ?thesis by (simp add: dtrue_def map_of_dwithout)
  qed
  then show ?thesis using k frozenset_typed[OF ch(1)] ch(2) by (simp add: channel_typed_def KNOWN_KINDS_def)
qed

lemma map_res_typed: "map_res validate_channel vs = Inr chs \<Longrightarrow> list_all channel_typed chs"
  by (induction vs arbitrary: chs) (auto simp: bind_res_Inr validate_channel_typed)

lemma global_block_typed: "global_notify_block raw = Inr (chs, q) \<Longrightarrow> list_all channel_typed chs"
  unfolding global_notify_block_def by (auto simp: bind_res_Inr intro: map_res_typed)

lemma global_typed:
  assumes "load_global_notify f = Inr (chs, q)" shows "list_all channel_typed chs"
proof -
  from assms obtain raw where "read_global_config f = Inr raw" by (auto simp: load_global_notify_def bind_res_Inr)
  with assms show ?thesis
    by (cases "global_notify_block raw")
      (auto simp: load_global_notify_def dest: global_block_typed split: if_split_asm)
qed

lemma list_all_filter: "list_all P xs \<Longrightarrow> list_all P (filter Q xs)"
  by (induction xs) auto

lemma notify_parts:
  assumes "load_notify env nr q chs = Inr np"
  obtains vs l g gq where "iter_json chs = Inr vs" "map_res validate_channel vs = Inr l"
    "load_global_notify (cf_global env) = Inr (g, gq)" "np_channels np = merge_channels g l"
    "np_quiet np = (case parse_quiet_hours q of None \<Rightarrow> gq | Some q \<Rightarrow> Some q)"
    "\<exists>a. get_or nr ''inbound_auto_tick'' (JBool True) = Inr a \<and> np_auto np = truthy a"
proof -
  from assms obtain vs l gg where parts: "iter_json chs = Inr vs" "map_res validate_channel vs = Inr l"
      "load_global_notify (cf_global env) = Inr gg"
    and rest: "(case gg of (g, gq) \<Rightarrow> bind_res (get_or nr ''inbound_auto_tick'' (JBool True)) (\<lambda>auto_tick.
       Inr \<lparr>np_channels = merge_channels g l,
            np_quiet = (case parse_quiet_hours q of None \<Rightarrow> gq | Some q \<Rightarrow> Some q), np_auto = truthy auto_tick\<rparr>)) = Inr np"
    unfolding load_notify_def bind_res_Inr by blast
  obtain g gq where "gg = (g, gq)" by (cases gg)
  with parts rest show ?thesis by (auto simp: bind_res_Inr intro!: that)
qed

lemma notify_typed: "load_notify env nr q chs = Inr np \<Longrightarrow> list_all channel_typed (np_channels np)"
  by (erule notify_parts) (simp add: merge_channels_def list_all_filter map_res_typed global_typed)

lemma int_from_range: "int_from l v = Inr n \<Longrightarrow> l \<le> n"
  by (cases v) (auto simp: int_from_def split: if_split_asm)

lemma int_field_range:
  "validate_non_negative_int v k d = Inr n \<Longrightarrow> 0 \<le> n" "validate_positive_int v k d = Inr n \<Longrightarrow> 1 \<le> n"
  by (auto simp: validate_non_negative_int_def validate_positive_int_def bind_res_Inr dest: int_from_range)

lemma positive_number_range: "positive_number v = Inr r \<Longrightarrow> 0 < r"
  by (cases v) (auto simp: float_of_int_def split: if_split_asm)

lemma float_field_range: "validate_positive_float v k d = Inr r \<Longrightarrow> 0 < r"
  by (auto simp: validate_positive_float_def bind_res_Inr positive_number_range)

lemma scale_range: "validate_lease_ttl_scale env v = Inr r \<Longrightarrow> 0 \<le> r"
  by (auto simp: validate_lease_ttl_scale_def bind_res_Inr split: option.splits if_splits)

lemma ship_mode_range:
  assumes "validate_ship_mode v = Inr m" shows "m \<in> set SHIP_MODES"
proof -
  from assms obtain x where "(case x of JStr s \<Rightarrow> if s \<in> set SHIP_MODES then Inr s else Inl ConfigError | _ \<Rightarrow> Inl ConfigError) = Inr m"
    unfolding validate_ship_mode_def bind_res_Inr by blast
  then show ?thesis by (cases x) (auto split: if_split_asm)
qed

lemma threshold_range: "validate_threshold v = Inr (Some t) \<Longrightarrow> threshold_ok t ''files'' \<and> threshold_ok t ''lines''"
  by (cases v) (auto split: if_splits)

lemma quality_range: "validate_quality v = Inr q \<Longrightarrow> qs_simplify_threshold q = Some t \<Longrightarrow>
   threshold_ok t ''files'' \<and> threshold_ok t ''lines''"
  by (auto simp: validate_quality_def bind_res_Inr Let_def dest: threshold_range)

lemma load_fields_typed:
  assumes "load_fields env dir raw = Inr c"
  shows "list_all channel_typed (pc_channels c)" "pc_ship_mode c \<in> set SHIP_MODES" "0 \<le> pc_bash_max c"
    "0 \<le> pc_lease_ttl_scale c" "0 \<le> pc_stuck_tool c" "0 \<le> pc_stuck_tool_cpu c" "0 < pc_idle_window c"
    "0 < pc_idle_gap c" "0 < pc_idle_delta c" "1 \<le> pc_idle_samples c" "0 \<le> pc_span_ceiling c"
    "qs_simplify_threshold (pc_quality c) = Some t \<Longrightarrow> threshold_ok t ''files'' \<and> threshold_ok t ''lines''"
  using assms unfolding load_fields_def bind_res_Inr
  by (elim exE conjE; clarsimp simp: notify_typed int_field_range float_field_range scale_range ship_mode_range quality_range)+


section \<open>Inheritance\<close>

lemma merge_kind: "filter (\<lambda>ch. cs_kind ch = k) (merge_channels g l) =
   (if k \<in> cs_kind ` set l then filter (\<lambda>ch. cs_kind ch = k) l else filter (\<lambda>ch. cs_kind ch = k) g)"
  proof (cases "k \<in> cs_kind ` set l")
  case False
  then have "filter (\<lambda>ch. cs_kind ch = k) l = []" by (auto simp: filter_empty_conv)
  moreover have "filter (\<lambda>ch. cs_kind ch \<notin> cs_kind ` set l \<and> cs_kind ch = k) g = filter (\<lambda>ch. cs_kind ch = k) g"
    using False by (intro filter_cong) auto
  ultimately show ?thesis using False by (simp add: merge_channels_def)
qed (auto simp: merge_channels_def filter_empty_conv)

lemma merge_Nil [simp]: "merge_channels [] l = l"
  by (simp add: merge_channels_def)

lemma notify_without_global:
  assumes "load_notify env nr q chs = Inr np"
  shows "\<exists>np0 g gq. load_notify (env\<lparr>cf_global := NoFile\<rparr>) nr q chs = Inr np0 \<and> load_global_notify (cf_global env) = Inr (g, gq)
     \<and> np = np0\<lparr>np_channels := merge_channels g (np_channels np0),
               np_quiet := (case np_quiet np0 of None \<Rightarrow> gq | Some q' \<Rightarrow> Some q')\<rparr>"
proof -
  have none: "load_global_notify NoFile = Inr ([], None)"
    by (simp add: load_global_notify_def read_global_config_def global_notify_block_def)
  from assms show ?thesis
    by (rule notify_parts) (auto simp: load_notify_def none case_prod_beta split: option.split)
qed

lemma global_only_notify:
  "dispatch_path (env\<lparr>cf_global := x\<rparr>) = dispatch_path env"
  "validate_lease_ttl_scale (env\<lparr>cf_global := x\<rparr>) = validate_lease_ttl_scale env"
  by (auto simp: dispatch_path_def validate_lease_ttl_scale_def lease_float_def fun_eq_iff
      intro!: arg_cong2[of _ _ _ _ bind_res] split: jval.splits)

text \<open>
  The machine-wide file is only a base. A configuration loaded with it differs from the one
  loaded without it in nothing but the channels and the quiet hours: of every kind the project
  names at all, by a channel or by a mask that turns it off, the project's channels are used
  and no inherited one; of every other kind the inherited ones; the inherited quiet hours apply
  only where the project sets none.
\<close>

theorem config_inherits:
  assumes "load_fields env dir raw = Inr c"
  shows "\<exists>own g gq. load_fields (env\<lparr>cf_global := NoFile\<rparr>) dir raw = Inr own \<and> load_global_notify (cf_global env) = Inr (g, gq)
    \<and> c = own\<lparr>pc_channels := pc_channels c, pc_quiet_hours := pc_quiet_hours c\<rparr>
    \<and> pc_quiet_hours c = (if pc_quiet_hours own \<noteq> None then pc_quiet_hours own else gq)
    \<and> (\<forall>k. filter (\<lambda>ch. cs_kind ch = k) (pc_channels c) =
         filter (\<lambda>ch. cs_kind ch = k) (if k \<in> cs_kind ` set (pc_channels own) then pc_channels own else g))"
proof -
  from assms obtain nr q chs np where np: "load_notify env nr q chs = Inr np"
    and pick: "\<And>np0. load_notify (env\<lparr>cf_global := NoFile\<rparr>) nr q chs = Inr np0 \<Longrightarrow>
      load_fields (env\<lparr>cf_global := NoFile\<rparr>) dir raw =
        Inr (c\<lparr>pc_channels := np_channels np0, pc_quiet_hours := np_quiet np0, pc_inbound_auto_tick := np_auto np0\<rparr>)"
    and c: "pc_channels c = np_channels np" "pc_quiet_hours c = np_quiet np" "pc_inbound_auto_tick c = np_auto np"
    unfolding load_fields_def bind_res_Inr global_only_notify
    by (elim exE conjE) (auto simp: bind_res_def)
  from notify_without_global[OF np] obtain np0 g gq where
    n0: "load_notify (env\<lparr>cf_global := NoFile\<rparr>) nr q chs = Inr np0" and g: "load_global_notify (cf_global env) = Inr (g, gq)"
    and eq: "np = np0\<lparr>np_channels := merge_channels g (np_channels np0),
               np_quiet := (case np_quiet np0 of None \<Rightarrow> gq | Some q' \<Rightarrow> Some q')\<rparr>" by blast
  show ?thesis
    using pick[OF n0] g c eq by (auto simp: merge_kind split: option.splits)
qed

section \<open>A project and a machine\<close>

definition machine_file :: json_file where
  "machine_file = Json (JObj [(''notify'', JObj
     [(''channels'', JList [JObj [(''kind'', JStr ''imessage''), (''to'', JStr ''+1'')],
                            JObj [(''kind'', JStr ''discord''), (''bot_token'', JStr ''b''), (''user_id'', JStr ''u'')]]),
      (''quiet_hours'', JList [JStr ''22:00'', JStr ''08:00''])])])"

definition project_file :: jval where
  "project_file = JObj [(''notify'', JObj [(''channels'', JList [JObj [(''kind'', JStr ''discord''), (''enabled'', JBool False)]])]),
     (''worker_idle_min_samples'', JInt 5)]"

definition machine_env :: config_env where
  "machine_env = \<lparr>cf_expanduser = (\<lambda>s. s), cf_resolve = Some, cf_float = (\<lambda>_. None), cf_global = machine_file\<rparr>"

lemma loaded_channels:
  "map_option (map cs_kind \<circ> pc_channels) (case load_fields machine_env ''/p'' project_file of Inr c \<Rightarrow> Some c | Inl _ \<Rightarrow> None)
   = Some [''imessage'', ''discord'']"
  by code_simp

lemma loaded: obtains c where "load_fields machine_env ''/p'' project_file = Inr c" "map cs_kind (pc_channels c) = [''imessage'', ''discord'']"
  using loaded_channels that by (auto split: sum.splits)


theorem config_inherits_witness:
  "\<exists>c own. load_fields machine_env ''/p'' project_file = Inr c \<and> map cs_kind (pc_channels c) = [''imessage'', ''discord'']
     \<and> filter (\<lambda>ch. cs_kind ch = ''discord'') (pc_channels c) = filter (\<lambda>ch. cs_kind ch = ''discord'') (pc_channels own)
     \<and> load_fields (machine_env\<lparr>cf_global := NoFile\<rparr>) ''/p'' project_file = Inr own \<and> map cs_kind (pc_channels own) = [''discord'']"
proof -
  obtain c where c: "load_fields machine_env ''/p'' project_file = Inr c" "map cs_kind (pc_channels c) = [''imessage'', ''discord'']"
    by (rule loaded)
  from config_inherits[OF c(1)] obtain own g where
    own: "load_fields (machine_env\<lparr>cf_global := NoFile\<rparr>) ''/p'' project_file = Inr own" and
    ch: "\<And>k. filter (\<lambda>ch. cs_kind ch = k) (pc_channels c) =
         filter (\<lambda>ch. cs_kind ch = k) (if k \<in> cs_kind ` set (pc_channels own) then pc_channels own else g)" by blast
  have "map_option (map cs_kind \<circ> pc_channels)
      (case load_fields (machine_env\<lparr>cf_global := NoFile\<rparr>) ''/p'' project_file of Inr c \<Rightarrow> Some c | Inl _ \<Rightarrow> None) = Some [''discord'']"
    by code_simp
  then have k: "map cs_kind (pc_channels own) = [''discord'']" by (simp add: own)
  then have "''discord'' \<in> cs_kind ` set (pc_channels own)" by (metis list.set_intros(1) set_map)
  then show ?thesis using c own k ch[of "''discord''"] by auto
qed

end
