(* ===== verification/Host_Tables.thy ===== *)
theory Host_Tables
  imports Replies
begin

text \<open>
  The tables every project of a host shares (\<open>registry.py\<close>, \<open>inbox.py\<close>): the registry of known
  plans and the inbox of events a session shows once. Both live in one database; a table is the
  list of its rows in the order of its row ids. Random event ids, the resolution of paths and
  the directories that exist are inputs, and a reader that finds the database unreadable is
  handed \<open>None\<close>.
\<close>

record reg_row = plan_entry +
  re_at :: jval

record inbox_row =
  ib_id :: nat
  ib_event_id :: string
  ib_ts :: jval
  ib_type :: string
  ib_slug :: string
  ib_root :: string
  ib_summary :: string
  ib_details :: obj
  ib_processed :: bool
  ib_processed_at :: "jval option"

text \<open>\<open>h_next\<close> is the counter of the autoincrement key.\<close>

record host =
  h_registry :: "reg_row list"
  h_inbox :: "inbox_row list"
  h_next :: nat

section \<open>The registry\<close>

definition reg_key :: "reg_row \<Rightarrow> string \<times> string" where
  "reg_key r = (pe_root r, pe_slug r)"

definition entries :: "host option \<Rightarrow> reg_row list" where
  "entries h = (case h of None \<Rightarrow> [] | Some h' \<Rightarrow> h_registry h')"

definition entries_for_project :: "(string \<Rightarrow> string) \<Rightarrow> string \<Rightarrow> host option \<Rightarrow> reg_row list" where
  "entries_for_project resolve dir h = filter (\<lambda>r. resolve (pe_root r) = resolve dir) (entries h)"

text \<open>\<open>INSERT OR IGNORE\<close> against the primary key.\<close>

definition register :: "(string \<Rightarrow> string) \<Rightarrow> (string \<Rightarrow> bool) \<Rightarrow> int \<Rightarrow> string \<Rightarrow> string \<Rightarrow> host \<Rightarrow> bool res \<times> host" where
  "register resolve is_dir now dir slug h =
     (if \<not> slug_re_match slug then (Inl (InvalidSlug slug), h)
      else let d = resolve dir in
        if \<not> is_dir d then (Inl (FileNotFoundErr d), h)
        else if (d, slug) \<in> set (map reg_key (h_registry h)) then (Inr False, h)
        else (Inr True, h\<lparr>h_registry := h_registry h @ [\<lparr>pe_root = d, pe_slug = slug, re_at = iso now\<rparr>]\<rparr>))"

definition unregister :: "(string \<Rightarrow> string) \<Rightarrow> string \<Rightarrow> string \<Rightarrow> host \<Rightarrow> bool \<times> host" where
  "unregister resolve dir slug h =
     (let left = filter (\<lambda>r. reg_key r \<noteq> (resolve dir, slug)) (h_registry h)
      in (length left < length (h_registry h), h\<lparr>h_registry := left\<rparr>))"

definition unregister_many :: "(string \<times> string) list \<Rightarrow> host \<Rightarrow> nat \<times> host" where
  "unregister_many targets h =
     (let left = filter (\<lambda>r. reg_key r \<notin> set targets) (h_registry h)
      in (length (h_registry h) - length left, h\<lparr>h_registry := left\<rparr>))"

section \<open>The inbox\<close>

definition SCHEMA_VERSION :: int where
  "SCHEMA_VERSION = 1"

definition payload :: "inbox_row \<Rightarrow> obj" where
  "payload r =
     [(''id'', JStr (ib_event_id r)), (''schema_version'', JInt SCHEMA_VERSION), (''type'', JStr (ib_type r)),
      (''plan_slug'', JStr (ib_slug r)), (''project_root'', JStr (ib_root r)), (''timestamp'', ib_ts r),
      (''summary'', JStr (ib_summary r)), (''details'', JObj (ib_details r))]"

text \<open>The event id is unique: a collision of the four random bytes fails the insert.\<close>

definition write_event ::
    "(string \<Rightarrow> string) \<Rightarrow> int \<Rightarrow> string \<Rightarrow> string \<Rightarrow> string \<Rightarrow> string \<Rightarrow> string \<Rightarrow> obj option \<Rightarrow> host \<Rightarrow> string res \<times> host" where
  "write_event resolve now random ty slug dir summary details h =
     (let event_id = ''evt-'' @ random in
      if event_id \<in> set (map ib_event_id (h_inbox h)) then (Inl IntegrityErr, h)
      else (Inr event_id, h\<lparr>h_next := Suc (h_next h), h_inbox := h_inbox h @
        [\<lparr>ib_id = h_next h, ib_event_id = event_id, ib_ts = iso now, ib_type = ty, ib_slug = slug,
          ib_root = resolve dir, ib_summary = summary,
          ib_details = (case details of None \<Rightarrow> [] | Some d \<Rightarrow> d), ib_processed = False, ib_processed_at = None\<rparr>]\<rparr>))"

definition unread :: "inbox_row list \<Rightarrow> inbox_row list" where
  "unread = filter (\<lambda>r. \<not> ib_processed r)"

definition unread_of :: "string \<Rightarrow> inbox_row list \<Rightarrow> inbox_row list" where
  "unread_of dir rows = filter (\<lambda>r. ib_root r = dir) (unread rows)"

definition read_unprocessed :: "host option \<Rightarrow> obj list" where
  "read_unprocessed h = (case h of None \<Rightarrow> [] | Some h' \<Rightarrow> map payload (unread (h_inbox h')))"

definition list_for_project :: "(string \<Rightarrow> string) \<Rightarrow> string \<Rightarrow> host option \<Rightarrow> obj list" where
  "list_for_project resolve dir h =
     (case h of None \<Rightarrow> [] | Some h' \<Rightarrow> map payload (unread_of (resolve dir) (h_inbox h')))"

text \<open>\<open>UPDATE ... SET processed = 1 WHERE ... AND processed = 0\<close>\<close>

definition flag_rows :: "int \<Rightarrow> (inbox_row \<Rightarrow> bool) \<Rightarrow> inbox_row list \<Rightarrow> inbox_row list" where
  "flag_rows now P rows =
     map (\<lambda>r. if P r \<and> \<not> ib_processed r then r\<lparr>ib_processed := True, ib_processed_at := Some (iso now)\<rparr> else r) rows"

definition mark_processed :: "int \<Rightarrow> string \<Rightarrow> host \<Rightarrow> host" where
  "mark_processed now event_id h = h\<lparr>h_inbox := flag_rows now (\<lambda>r. ib_event_id r = event_id) (h_inbox h)\<rparr>"

text \<open>\<open>rows[-limit:] if limit > 0 else []\<close>\<close>

definition newest :: "int \<Rightarrow> 'a list \<Rightarrow> 'a list" where
  "newest limit rows = (if limit > 0 then drop (length rows - nat limit) rows else [])"

definition claim_for_project :: "(string \<Rightarrow> string) \<Rightarrow> int \<Rightarrow> string \<Rightarrow> int \<Rightarrow> host \<Rightarrow> obj list \<times> host" where
  "claim_for_project resolve now dir limit h =
     (let rows = unread_of (resolve dir) (h_inbox h);
          claimed = newest limit rows
      in (map payload rows, h\<lparr>h_inbox := flag_rows now (\<lambda>r. ib_id r \<in> ib_id ` set claimed) (h_inbox h)\<rparr>))"

section \<open>The host under every interleaving\<close>

text \<open>One transaction of some process on the host.\<close>

datatype host_op =
    Register string string int
  | Unregister string string
  | UnregisterMany "(string \<times> string) list"
  | WriteEvent int string string string string string "obj option"
  | MarkProcessed int string
  | ClaimEvents int string int

definition host_step :: "(string \<Rightarrow> string) \<Rightarrow> (string \<Rightarrow> bool) \<Rightarrow> host_op \<Rightarrow> host \<Rightarrow> host" where
  "host_step resolve is_dir op h =
     (case op of
        Register dir slug now \<Rightarrow> snd (register resolve is_dir now dir slug h)
      | Unregister dir slug \<Rightarrow> snd (unregister resolve dir slug h)
      | UnregisterMany targets \<Rightarrow> snd (unregister_many targets h)
      | WriteEvent now random ty slug dir summary details \<Rightarrow> snd (write_event resolve now random ty slug dir summary details h)
      | MarkProcessed now event_id \<Rightarrow> mark_processed now event_id h
      | ClaimEvents now dir limit \<Rightarrow> snd (claim_for_project resolve now dir limit h))"

definition empty_host :: host where
  "empty_host = \<lparr>h_registry = [], h_inbox = [], h_next = 1\<rparr>"

definition host_ok :: "host \<Rightarrow> bool" where
  "host_ok h \<longleftrightarrow> distinct (map reg_key (h_registry h))
     \<and> (\<forall>r\<in>set (h_registry h). slug_re_match (pe_slug r))
     \<and> sorted_wrt (<) (map ib_id (h_inbox h)) \<and> (\<forall>r\<in>set (h_inbox h). ib_id r < h_next h)
     \<and> distinct (map ib_event_id (h_inbox h))
     \<and> (\<forall>r\<in>set (h_inbox h). ib_processed r = (ib_processed_at r \<noteq> None))"

lemma flag_rows_keys [simp]:
  "map ib_id (flag_rows now P rows) = map ib_id rows"
  "map ib_event_id (flag_rows now P rows) = map ib_event_id rows"
  "map ib_root (flag_rows now P rows) = map ib_root rows"
  "length (flag_rows now P rows) = length rows"
  by (simp_all add: flag_rows_def)

lemma host_ok_empty: "host_ok empty_host"
  by (simp add: host_ok_def empty_host_def)

lemma flag_rows_row:
  "r \<in> set (flag_rows now P rows) \<Longrightarrow>
   \<exists>r0\<in>set rows. ib_id r = ib_id r0 \<and> (r = r0 \<or> ib_processed r \<and> ib_processed_at r \<noteq> None)"
  by (auto simp: flag_rows_def)

lemma host_ok_flag:
  assumes "host_ok h" shows "host_ok (h\<lparr>h_inbox := flag_rows now P (h_inbox h)\<rparr>)"
proof -
  have "\<forall>r\<in>set (flag_rows now P (h_inbox h)). ib_id r < h_next h \<and> ib_processed r = (ib_processed_at r \<noteq> None)"
  proof
    fix r assume "r \<in> set (flag_rows now P (h_inbox h))"
    from flag_rows_row[OF this] assms show "ib_id r < h_next h \<and> ib_processed r = (ib_processed_at r \<noteq> None)"
      unfolding host_ok_def by metis
  qed
  with assms show ?thesis by (simp add: host_ok_def)
qed

lemma host_ok_prune: "host_ok h \<Longrightarrow> host_ok (h\<lparr>h_registry := filter P (h_registry h)\<rparr>)"
  by (auto simp: host_ok_def distinct_map_filter)

lemma host_ok_register: "host_ok h \<Longrightarrow> host_ok (snd (register resolve is_dir now dir slug h))"
  by (auto simp: host_ok_def register_def Let_def reg_key_def)

lemma host_ok_write: "host_ok h \<Longrightarrow> host_ok (snd (write_event resolve now random ty slug dir summary details h))"
  by (auto simp: host_ok_def write_event_def Let_def sorted_wrt_append)

lemma host_step_ok: "host_ok h \<Longrightarrow> host_ok (host_step resolve is_dir op h)"
  by (cases op)
    (simp_all add: host_step_def host_ok_register unregister_def unregister_many_def Let_def host_ok_prune
      host_ok_write mark_processed_def claim_for_project_def host_ok_flag)

lemma host_run_ok: "host_ok h \<Longrightarrow> host_ok (fold (host_step resolve is_dir) ops h)"
  by (induction ops arbitrary: h) (simp_all add: host_step_ok)

end
