(* ===== verification/Session_Start.thy ===== *)
theory Session_Start
  imports Host_Tables
begin

text \<open>
  The hook that runs when a session starts (\<open>hooks/clu_session_start.py\<close>): one walk over the
  registered plans, and the text the session is given, whose part on open blockers is cut to the
  room that is left. Lengths and cuts count code points, of which a text here holds the UTF-8
  bytes.
\<close>

section \<open>Code points\<close>

definition is_cont :: "char \<Rightarrow> bool" where
  "is_cont c \<longleftrightarrow> 128 \<le> (of_char c :: nat) \<and> (of_char c :: nat) < 192"

definition text_len :: "string \<Rightarrow> nat" where
  "text_len s = length (filter (\<lambda>c. \<not> is_cont c) s)"

text \<open>\<open>s[:n]\<close>\<close>

fun text_take :: "nat \<Rightarrow> string \<Rightarrow> string" where
  "text_take n [] = []"
| "text_take n (c # cs) =
     (if is_cont c then c # text_take n cs else case n of 0 \<Rightarrow> [] | Suc m \<Rightarrow> c # text_take m cs)"

lemma text_len_append [simp]: "text_len (s @ t) = text_len s + text_len t"
  by (simp add: text_len_def)

lemma text_len_Nil [simp]: "text_len [] = 0"
  by (simp add: text_len_def)

lemma text_len_take: "text_len (text_take n s) \<le> n"
proof (induction n s rule: text_take.induct)
  case (2 n c cs)
  then show ?case by (cases n) (auto simp: text_len_def)
qed simp

lemma text_len_rstrip: "text_len (rstrip s) \<le> text_len s"
proof -
  have "rev s = takeWhile is_space (rev s) @ dropWhile is_space (rev s)" by simp
  then have "s = rstrip s @ rev (takeWhile is_space (rev s))"
    by (metis rev_append rev_rev_ident rstrip_def)
  then show ?thesis by (metis text_len_append le_add1)
qed

fun join_lines :: "string list \<Rightarrow> string" where
  "join_lines ls = join_with newline ls"

section \<open>What is said\<close>

definition INSTRUCTION :: string where
  "INSTRUCTION =
     ''## clu operator dashboard'' @ [newline, newline] @
     ''This session was started in a clu-managed environment. To receive live wedge events (`tool_stuck`, `phase_blocked`, '' @
     ''`attestation_refused`, `stalled_claim_notified`) across every registered plan on this host, arm a persistent '' @
     ''Monitor now '' @ [CHR 0xE2, CHR 0x80, CHR 0x94] @
     '' unless one is already in flight from a prior session (prior Monitors survive `/clear` and `/compact` '' @
     ''per #69 findings):'' @ [newline, newline] @ ''```'' @ [newline] @ ''Monitor('' @ [newline] @ ''    command='' @
     [CHR 0x22] @ ''clu watch --all --operator'' @ [CHR 0x22] @ '','' @ [newline] @ ''    persistent=True,'' @
     [newline] @ ''    description='' @ [CHR 0x22] @ ''clu operator dashboard'' @ [CHR 0x22] @ '','' @ [newline] @
     '')'' @ [newline] @ ''```'' @ [newline, newline] @
     ''Wedge events stream as they happen. The operator-approval checkpoint from user-level CLAUDE.md still '' @
     ''applies '' @ [CHR 0xE2, CHR 0x80, CHR 0x94] @
     '' never auto-run `kill`, `clu release-claim`, or `clu force-complete` against a surfaced wedge; investigate, '' @
     ''recommend, and wait for explicit operator approval before any destructive action.'' @ [newline]"

definition TRUNC_MARKER :: string where
  "TRUNC_MARKER =
     '' '' @ [CHR 0xE2, CHR 0x80, CHR 0xA6] @ ''(truncated)''"

definition BLOCKER_SECTION_HEADER :: string where
  "BLOCKER_SECTION_HEADER =
     [newline] @ ''## Open blockers awaiting a reply'' @ [newline, newline]"

definition BLOCKER_REPLY_INSTRUCTION :: string where
  "BLOCKER_REPLY_INSTRUCTION =
     [newline] @ ''To answer one, run via Bash:'' @ [newline] @ ''```'' @ [newline] @
     ''clu answer --project . --plan <slug> --blocker <q-N> <answer>'' @ [newline] @ ''```'' @ [newline] @
     ''`<answer>` is an option number (0-indexed) or free text. When more than one blocker is open, ask the '' @
     ''operator which one they mean and pass that blocker'' @ [CHR 0x27] @ ''s `--blocker <q-N>` '' @
     [CHR 0xE2, CHR 0x80, CHR 0x94] @ '' never guess.'' @ [newline]"

definition TASK_LIST_PROTOCOL_INSTRUCTION :: string where
  "TASK_LIST_PROTOCOL_INSTRUCTION =
     ''## clu task-list protocol'' @ [newline, newline] @
     ''If `TaskCreate` / `TaskUpdate` are unavailable (not in the default toolset on Opus 4.8 / Sonnet 5 / '' @
     ''Fable 5 / Mythos 5 and newer, per Claude Code 2.1.233), tell the operator once '' @
     [CHR 0xE2, CHR 0x80, CHR 0x94] @
     '' set `CLAUDE_CODE_ENABLE_TODO_TOOLS=1` in `~/.claude/settings.json` and restart '' @
     [CHR 0xE2, CHR 0x80, CHR 0x94] @
     '' then handle the lines below as plain text: surface blockers, halts, and plan completion directly rather '' @
     ''than dropping them.'' @ [newline, newline] @ ''The `--task-list` Monitor stream emits two line shapes:'' @
     [newline, newline] @ ''- `TASK_CREATE task=<id> [parent=<slug>] status=pending` '' @
     [CHR 0xE2, CHR 0x80, CHR 0x94] @
     '' bootstrap lines at startup, one per plan + phase. The parent line (`task=<slug>`, no `parent=` field) '' @
     ''is the plan itself. Child lines (`task=<slug>/<phase>`) carry `parent=<slug>`.'' @ [newline] @
     ''- `TASK_UPDATE task=<id> [parent=<slug>] status=<state> msg='' @ [CHR 0x22] @ ''<one-liner>'' @ [CHR 0x22] @
     ''` '' @ [CHR 0xE2, CHR 0x80, CHR 0x94] @
     '' fired on state transitions. `parent=` present on phase-scoped events, absent on plan-scoped events.'' @
     [newline, newline] @
     ''**On TASK_CREATE bootstrap batch:** call `TaskCreate` with all tasks at `status=pending`. Signal hierarchy '' @
     ''in `subject`:'' @ [newline] @ ''- Parent (`task=<slug>`, no `parent=`): `subject = <slug>`'' @ [newline] @
     ''- Child (`task=<slug>/<phase>`, with `parent=<slug>`): `subject = '' @ [CHR 0x22, CHR 0xE2, CHR 0x94, CHR 0x94] @
     '' <phase>'' @ [CHR 0x22] @ ''` '' @ [CHR 0xE2, CHR 0x80, CHR 0x94] @
     '' U+2514 box-drawing char + space + phase id.'' @ [newline, newline] @
     ''**On each TASK_UPDATE:** call `TaskUpdate` matching by `task=`. **Do NOT re-set subject** '' @
     [CHR 0xE2, CHR 0x80, CHR 0x94] @ '' only update `status` and `description`. Re-setting the subject strips the `'' @
     [CHR 0xE2, CHR 0x94, CHR 0x94] @ '' ` glyph and visually un-nests the tree.'' @ [newline, newline] @
     ''**Teardown:** when a `TASK_UPDATE task=<slug> status=completed` arrives with NO `parent=` field (plan-scoped), '' @
     ''call `TaskStop`. Paused plans are NOT teardown triggers '' @ [CHR 0xE2, CHR 0x80, CHR 0x94] @
     '' the operator may resume them.'' @ [newline, newline] @
     ''**Out-of-order arrivals:** if `TASK_UPDATE` arrives before its `TASK_CREATE` (race, rare), buffer ~1s '' @
     ''and retry. If still no match, create on-the-fly using the same nesting convention (`'' @
     [CHR 0xE2, CHR 0x94, CHR 0x94] @ '' <phase>` if `parent=` present).'' @ [newline]"

definition MAX_BLOCKERS :: nat where "MAX_BLOCKERS = 10"
definition MAX_CONTEXT_CHARS :: int where "MAX_CONTEXT_CHARS = 9500"
definition MAX_QUESTION_CHARS :: nat where "MAX_QUESTION_CHARS = 280"
definition MAX_OPTIONS_CHARS :: nat where "MAX_OPTIONS_CHARS = 600"
definition BLOCKER_FOOTER_RESERVE :: int where "BLOCKER_FOOTER_RESERVE = 180"

section \<open>The walk\<close>

text \<open>The fields of a blocker row are texts, as the store's operations write them.\<close>

record shown_blocker =
  sb_slug :: string
  sb_phase :: string
  sb_id :: string
  sb_question :: string
  sb_options :: "string list"

definition text_of :: "jval \<Rightarrow> string" where
  "text_of v = (case v of JStr s \<Rightarrow> s | _ \<Rightarrow> [])"

definition shown_of :: "string \<Rightarrow> obj \<Rightarrow> shown_blocker" where
  "shown_of slug b =
     \<lparr>sb_slug = slug, sb_phase = sget b ''phase_id'', sb_id = sget b ''id'', sb_question = sget b ''question'',
      sb_options = map text_of (blocker_options b)\<rparr>"

text \<open>One pass: whether a plan is live or unreadable, the running plans and the open blockers of the
  current directory.\<close>

fun scan_entries ::
    "(string \<Rightarrow> string) \<Rightarrow> string \<Rightarrow> stores \<Rightarrow> reg_row list \<Rightarrow> bool \<times> string list \<times> shown_blocker list" where
  "scan_entries resolve cwd sts [] = (False, [], [])"
| "scan_entries resolve cwd sts (e # es) =
     (case scan_entries resolve cwd sts es of (live, slugs, bs) \<Rightarrow>
        (case load_entry_state sts (plan_entry.truncate e) of
           None \<Rightarrow> (True, slugs, bs)
         | Some d \<Rightarrow>
             (let here = (resolve (pe_root e) = resolve cwd) in
              (live \<or> d_status d \<notin> set TERMINAL_STATUSES,
               (if d_status d = JStr STATUS_RUNNING \<and> here then [pe_slug e] else []) @ slugs,
               (if here then map (shown_of (pe_slug e)) (open_blockers d) else []) @ bs))))"

section \<open>The text\<close>

definition per_plan_block :: "string \<Rightarrow> string" where
  "per_plan_block slug =
     ''```'' @ [newline] @ ''Monitor('' @ [newline] @
     ''    command='' @ [CHR 0x22] @ ''clu watch --project . --plan '' @ slug @ '' --task-list'' @ [CHR 0x22] @ '','' @ [newline] @
     ''    persistent=True,'' @ [newline] @ ''    timeout_ms=3600000,'' @ [newline] @
     ''    description='' @ [CHR 0x22] @ ''clu '' @ slug @ '' phase progress'' @ [CHR 0x22] @ '','' @ [newline] @
     '')'' @ [newline] @ ''```'' @ [newline]"

definition per_plan_intro :: string where
  "per_plan_intro =
     ''## clu per-plan task-list Monitors'' @
     [newline, newline] @
     ''The following plans are active in this project. Arm one persistent Monitor per plan now '' @
     [CHR 0xE2, CHR 0x80, CHR 0x94] @
     '' skip any whose Monitor is already in flight (prior Monitors survive `/clear` and `/compact` per #69):'' @
     [newline, newline]"

definition per_plan_arming_block :: "string list \<Rightarrow> string" where
  "per_plan_arming_block slugs = per_plan_intro @ join_lines (map per_plan_block slugs) @ [newline]"

definition cut_to :: "nat \<Rightarrow> string \<Rightarrow> string" where
  "cut_to n s = (if text_len s > n then rstrip (text_take n s) @ TRUNC_MARKER else s)"

fun numbered :: "nat \<Rightarrow> string list \<Rightarrow> string list" where
  "numbered i [] = []"
| "numbered i (x # xs) = (''  ['' @ show_nat i @ ''] '' @ x) # numbered (Suc i) xs"

definition render_blocker_template :: "shown_blocker \<Rightarrow> string \<Rightarrow> string \<Rightarrow> string" where
  "render_blocker_template b question options =
     ''Plan `'' @ sb_slug b @ ''`, phase `'' @ sb_phase b @ ''`, blocker `'' @ sb_id b @ ''`:'' @ [newline] @
     ''Question: '' @ question @ [newline] @ ''Options:'' @ [newline] @ options @ [newline]"

definition render_blocker :: "shown_blocker \<Rightarrow> string" where
  "render_blocker b =
     render_blocker_template b (cut_to MAX_QUESTION_CHARS (sb_question b))
       (cut_to MAX_OPTIONS_CHARS
          (if sb_options b = [] then ''  (no preset options '' @ [CHR 0xE2, CHR 0x80, CHR 0x94] @ '' answer with free text)''
           else join_lines (numbered 0 (sb_options b))))"

text \<open>The entries that fit; the first is cut rather than dropped.\<close>

fun fit_entries :: "int \<Rightarrow> bool \<Rightarrow> string list \<Rightarrow> string list" where
  "fit_entries room first [] = []"
| "fit_entries room first (e # es) =
     (if int (text_len e) \<le> room then e # fit_entries (room - int (text_len e)) False es
      else if \<not> first then []
      else let e' = rstrip (text_take (nat (room - int (text_len TRUNC_MARKER))) e) @ TRUNC_MARKER
           in e' # fit_entries (room - int (text_len e')) False es)"

definition not_shown_footer :: "nat \<Rightarrow> string" where
  "not_shown_footer n =
     (if n = 0 then []
      else newline # ''... and '' @ show_nat n @ '' more open blocker(s) not shown '' @ [CHR 0xE2, CHR 0x80, CHR 0x94] @
        '' run `clu blockers list --project . --plan <slug>` for the rest.'' @ [newline])"

definition blockers_block :: "shown_blocker list \<Rightarrow> int \<Rightarrow> string" where
  "blockers_block bs budget =
     (if bs = [] then []
      else
        (let room = budget - int (text_len BLOCKER_SECTION_HEADER) - int (text_len BLOCKER_REPLY_INSTRUCTION) - BLOCKER_FOOTER_RESERVE;
             parts = fit_entries room True (map render_blocker (take MAX_BLOCKERS bs))
         in BLOCKER_SECTION_HEADER @ join_lines parts @ not_shown_footer (length bs - length parts) @ BLOCKER_REPLY_INSTRUCTION))"

definition context_base :: "string list \<Rightarrow> string" where
  "context_base slugs =
     INSTRUCTION @ (if slugs = [] then [] else per_plan_arming_block slugs @ TASK_LIST_PROTOCOL_INSTRUCTION)"

definition session_context :: "bool \<times> string list \<times> shown_blocker list \<Rightarrow> string option" where
  "session_context scan =
     (case scan of (live, slugs, bs) \<Rightarrow>
        if \<not> (live \<or> slugs \<noteq> [] \<or> bs \<noteq> []) then None
        else Some (context_base slugs @
               (if bs = [] then [] else blockers_block bs (MAX_CONTEXT_CHARS - int (text_len (context_base slugs))))))"

section \<open>The bound\<close>

lemma fixed_lengths:
  "text_len TRUNC_MARKER = 13" "text_len BLOCKER_SECTION_HEADER = 36" "text_len BLOCKER_REPLY_INSTRUCTION = 287"
  by code_simp+

lemma show_nat_length: "n < 10 ^ Suc k \<Longrightarrow> length (show_nat n) \<le> Suc k"
proof (induction k arbitrary: n)
  case (Suc k)
  then show ?case by (subst show_nat.simps) auto
qed (simp add: show_nat.simps)

lemma text_len_le: "text_len s \<le> length s"
  by (simp add: text_len_def)

lemma footer_length:
  assumes "n < 10 ^ 20" shows "text_len (not_shown_footer n) \<le> 127"
proof -
  have "text_len ''... and '' = 8" "text_len '' more open blocker(s) not shown '' = 32"
    "text_len ([CHR 0xE2, CHR 0x80, CHR 0x94]) = 1" "text_len [newline] = 1"
    "text_len '' run `clu blockers list --project . --plan <slug>` for the rest.'' = 64" by code_simp+
  moreover have "text_len (show_nat n) \<le> 20" using text_len_le[of "show_nat n"] show_nat_length[of n 19] assms by simp
  moreover have "not_shown_footer n = (if n = 0 then [] else [newline] @ ''... and '' @ show_nat n @ '' more open blocker(s) not shown ''
     @ [CHR 0xE2, CHR 0x80, CHR 0x94] @ '' run `clu blockers list --project . --plan <slug>` for the rest.'' @ [newline])"
    by (simp add: not_shown_footer_def)
  ultimately show ?thesis by (simp only: text_len_append split: if_split) simp
qed

lemma fit_rest: "int (sum_list (map text_len (fit_entries room False es))) \<le> max 0 room"
proof (induction es arbitrary: room)
  case (Cons e es)
  from Cons[of "room - int (text_len e)"] show ?case by (cases "int (text_len e) \<le> room") simp_all
qed simp

lemma fit_bound: "int (sum_list (map text_len (fit_entries room True es))) \<le> max 13 room"
proof (cases es)
  case (Cons e es')
  show ?thesis
  proof (cases "int (text_len e) \<le> room")
    case True
    then show ?thesis using fit_rest[of "room - int (text_len e)" es'] by (simp add: Cons)
  next
    case False
    let ?e = "rstrip (text_take (nat (room - 13)) e) @ TRUNC_MARKER"
    have "text_len ?e \<le> nat (room - 13) + 13"
      using le_trans[OF text_len_rstrip text_len_take, of "nat (room - 13)" e] by (simp add: fixed_lengths)
    then show ?thesis using False fit_rest[of "room - int (text_len ?e)" es']
      by (simp add: Cons Let_def fixed_lengths)
  qed
qed simp

lemma fit_count: "length (fit_entries room first es) \<le> length es"
  by (induction room first es rule: fit_entries.induct) (auto simp: Let_def)

lemma join_lines_length: "text_len (join_lines ls) \<le> sum_list (map text_len ls) + (length ls - 1)"
proof (induction ls rule: induct_list012)
  case (3 x y zs)
  have "text_len [newline] = 1" by code_simp
  then have "text_len (join_lines (x # y # zs)) = text_len x + (1 + text_len (join_lines (y # zs)))"
    using text_len_append[of "[newline]" "join_lines (y # zs)"] by simp
  with 3(2) show ?case by simp
qed simp_all

lemma join_lines_least: "sum_list (map text_len ls) \<le> text_len (join_lines ls)"
  by (induction ls rule: induct_list012) (simp_all add: text_len_def)

lemma blockers_block_length:
  assumes "length bs < 10 ^ 20" shows "int (text_len (blockers_block bs budget)) \<le> max 472 budget"
proof (cases "bs = []")
  case False
  let ?room = "budget - 503"
  let ?parts = "fit_entries ?room True (map render_blocker (take MAX_BLOCKERS bs))"
  have block: "blockers_block bs budget =
      BLOCKER_SECTION_HEADER @ join_lines ?parts @ not_shown_footer (length bs - length ?parts) @ BLOCKER_REPLY_INSTRUCTION"
    using False by (simp add: blockers_block_def Let_def fixed_lengths BLOCKER_FOOTER_RESERVE_def)
  have "length ?parts \<le> 10" using fit_count[of ?room True "map render_blocker (take MAX_BLOCKERS bs)"] by (simp add: MAX_BLOCKERS_def)
  moreover have "text_len (not_shown_footer (length bs - length ?parts)) \<le> 127" using assms by (intro footer_length) simp
  ultimately show ?thesis
    unfolding block text_len_append fixed_lengths
    using join_lines_length[of ?parts] fit_bound[of ?room "map render_blocker (take MAX_BLOCKERS bs)"] by linarith
qed (simp add: blockers_block_def)

text \<open>
  The budget of the session's context. Whatever the blockers hold, the context stays within its ceiling as far as
  the parts before it leave room: it is never longer than the ceiling or than those parts and
  472 characters, whichever is more; and the instruction how to answer is never cut
  off. The parts before it grow with the number of running plans and are not bounded.
\<close>

theorem context_budget:
  assumes "session_context (live, slugs, bs) = Some ctx" "length bs < 10 ^ 20"
  shows "int (text_len ctx) \<le> max MAX_CONTEXT_CHARS (int (text_len (context_base slugs)) + 472)
    \<and> (bs \<noteq> [] \<longrightarrow> suffix BLOCKER_REPLY_INSTRUCTION ctx)"
proof -
  let ?budget = "MAX_CONTEXT_CHARS - int (text_len (context_base slugs))"
  from assms(1) have ctx: "ctx = context_base slugs @ (if bs = [] then [] else blockers_block bs ?budget)"
    by (auto simp: session_context_def split: if_splits)
  have "suffix BLOCKER_REPLY_INSTRUCTION (blockers_block bs ?budget)" if "bs \<noteq> []"
    using that by (simp add: blockers_block_def Let_def suffix_def)
  then have "bs \<noteq> [] \<longrightarrow> suffix BLOCKER_REPLY_INSTRUCTION ctx" unfolding ctx by (auto intro: suffix_appendI)
  moreover have "int (text_len ctx) \<le> max MAX_CONTEXT_CHARS (int (text_len (context_base slugs)) + 472)"
    unfolding ctx using blockers_block_length[OF assms(2), of ?budget] by auto
  ultimately show ?thesis by blast
qed

text \<open>With 60 running plans the parts before the blockers are past the ceiling on their own.\<close>

theorem context_budget_witness:
  "\<exists>ctx. session_context (True, replicate 60 ''plan-of-mine'', [\<lparr>sb_slug = ''p'', sb_phase = ''1'', sb_id = ''q-1'', sb_question = ''?'', sb_options = []\<rparr>]) = Some ctx
     \<and> int (text_len ctx) > MAX_CONTEXT_CHARS \<and> suffix BLOCKER_REPLY_INSTRUCTION ctx"
proof -
  let ?bs = "[\<lparr>sb_slug = ''p'', sb_phase = ''1'', sb_id = ''q-1'', sb_question = ''?'', sb_options = []\<rparr>]"
  obtain ctx where ctx: "session_context (True, replicate 60 ''plan-of-mine'', ?bs) = Some ctx"
    "ctx = context_base (replicate 60 ''plan-of-mine'') @
      blockers_block ?bs (MAX_CONTEXT_CHARS - int (text_len (context_base (replicate 60 ''plan-of-mine''))))"
    by (simp add: session_context_def)
  have "text_len (per_plan_block ''plan-of-mine'') = 184" by code_simp
  then have "60 * 184 \<le> text_len (join_lines (map per_plan_block (replicate 60 ''plan-of-mine'')))"
    using join_lines_least[of "map per_plan_block (replicate 60 ''plan-of-mine'')"] by (simp add: sum_list_replicate del: replicate.simps)
  then have "int (text_len (context_base (replicate 60 ''plan-of-mine''))) > MAX_CONTEXT_CHARS"
    unfolding context_base_def per_plan_arming_block_def MAX_CONTEXT_CHARS_def by simp
  then have "int (text_len ctx) > MAX_CONTEXT_CHARS" unfolding ctx(2) text_len_append by linarith
  with context_budget[OF ctx(1)] ctx(1) show ?thesis by auto
qed

end
