(* ===== verification/Host_Props.thy ===== *)
theory Host_Props
  imports Host_Tables
begin

text \<open>
  What the inbox promises to the sessions of a host: under every interleaving of their claims with
  writers, an event is shown at most once and none is lost, and the backlog of a project drains
  from its newest events to its oldest.
\<close>

section \<open>What is shown\<close>

text \<open>The event ids a session renders: the newest \<open>limit\<close> of what its claim returned.\<close>

definition shown :: "(string \<Rightarrow> string) \<Rightarrow> host_op \<Rightarrow> host \<Rightarrow> string list" where
  "shown resolve op h =
     (case op of
        ClaimEvents now dir limit \<Rightarrow> map (\<lambda>e. sget e ''id'') (newest limit (fst (claim_for_project resolve now dir limit h)))
      | _ \<Rightarrow> [])"

fun shown_in :: "(string \<Rightarrow> string) \<Rightarrow> (string \<Rightarrow> bool) \<Rightarrow> host_op list \<Rightarrow> host \<Rightarrow> string list" where
  "shown_in resolve is_dir [] h = []"
| "shown_in resolve is_dir (op # ops) h = shown resolve op h @ shown_in resolve is_dir ops (host_step resolve is_dir op h)"

definition done_events :: "host \<Rightarrow> string set" where
  "done_events h = ib_event_id ` {r \<in> set (h_inbox h). ib_processed r}"

definition marks :: "host_op \<Rightarrow> string set" where
  "marks op = (case op of MarkProcessed now event_id \<Rightarrow> {event_id} | _ \<Rightarrow> {})"

lemma marks_iff: "e \<in> marks op \<longleftrightarrow> (\<exists>now. op = MarkProcessed now e)"
  by (cases op) (auto simp: marks_def)

lemma newest_map: "newest limit (map f xs) = map f (newest limit xs)"
  by (simp add: newest_def drop_map)

lemma set_newest: "set (newest limit xs) \<subseteq> set xs"
  by (auto simp: newest_def dest: in_set_dropD)

lemma distinct_newest: "distinct xs \<Longrightarrow> distinct (newest limit xs)"
  by (simp add: newest_def)

lemma sget_payload [simp]: "sget (payload r) ''id'' = ib_event_id r"
  by (simp add: sget_def payload_def)

lemma shown_claim:
  "shown resolve (ClaimEvents now dir limit) h = map ib_event_id (newest limit (unread_of (resolve dir) (h_inbox h)))"
  by (simp add: shown_def claim_for_project_def Let_def newest_map comp_def)

lemma set_unread_of: "set (unread_of dir rows) = {r \<in> set rows. \<not> ib_processed r \<and> ib_root r = dir}"
  by (auto simp: unread_of_def unread_def)

lemma ids_inj: "host_ok h \<Longrightarrow> inj_on ib_id (set (h_inbox h))"
  unfolding host_ok_def by (metis distinct_map strict_sorted_iff)

lemma events_inj: "host_ok h \<Longrightarrow> inj_on ib_event_id (set (h_inbox h))"
  by (simp add: host_ok_def distinct_map)

lemma done_flag:
  "done_events (h\<lparr>h_inbox := flag_rows now P (h_inbox h)\<rparr>)
   = done_events h \<union> ib_event_id ` {r \<in> set (h_inbox h). P r \<and> \<not> ib_processed r}"
proof -
  let ?f = "\<lambda>r. if P r \<and> \<not> ib_processed r then r\<lparr>ib_processed := True, ib_processed_at := Some (iso now)\<rparr> else r"
  have f: "ib_event_id (?f r) = ib_event_id r" "ib_processed (?f r) \<longleftrightarrow> ib_processed r \<or> P r" for r by auto
  have "{x \<in> ?f ` S. ib_processed x} = ?f ` {r \<in> S. ib_processed (?f r)}" for S by blast
  then have "done_events (h\<lparr>h_inbox := flag_rows now P (h_inbox h)\<rparr>) = ib_event_id ` ?f ` {r \<in> set (h_inbox h). ib_processed (?f r)}"
    by (simp only: done_events_def flag_rows_def set_map) simp
  also have "\<dots> = ib_event_id ` {r \<in> set (h_inbox h). ib_processed r \<or> P r}"
    by (simp only: image_image f)
  finally show ?thesis by (auto simp: done_events_def)
qed

lemma shown_fresh:
  assumes "host_ok h"
  shows "distinct (shown resolve op h) \<and> set (shown resolve op h) \<inter> done_events h = {}"
proof (cases op)
  case (ClaimEvents now dir limit)
  let ?rows = "unread_of (resolve dir) (h_inbox h)"
  have sub: "set (newest limit ?rows) \<subseteq> {r \<in> set (h_inbox h). \<not> ib_processed r}"
    using set_newest[of limit ?rows] by (auto simp: set_unread_of)
  have "distinct (h_inbox h)" using assms by (simp add: host_ok_def distinct_map)
  then have "distinct ?rows" by (simp add: unread_of_def unread_def)
  then have "distinct (map ib_event_id (newest limit ?rows))"
    using events_inj[OF assms] sub by (auto simp: distinct_map distinct_newest inj_on_def)
  moreover have "ib_event_id r \<notin> done_events h" if "r \<in> set (newest limit ?rows)" for r
    using that sub events_inj[OF assms] by (auto simp: done_events_def inj_on_def)
  ultimately show ?thesis by (auto simp: ClaimEvents shown_claim)
qed (simp_all add: shown_def)

lemma claimed_rows:
  assumes "host_ok h"
  shows "{r \<in> set (h_inbox h). ib_id r \<in> ib_id ` set (newest limit (unread_of dir (h_inbox h))) \<and> \<not> ib_processed r}
    = set (newest limit (unread_of dir (h_inbox h)))"
proof -
  have "set (newest limit (unread_of dir (h_inbox h))) \<subseteq> {r \<in> set (h_inbox h). \<not> ib_processed r}"
    using set_newest[of limit "unread_of dir (h_inbox h)"] by (auto simp: set_unread_of)
  then show ?thesis using ids_inj[OF assms] by (auto simp: inj_on_def)
qed

lemma done_step:
  assumes "host_ok h"
  shows "done_events (host_step resolve is_dir op h) \<subseteq> done_events h \<union> set (shown resolve op h) \<union> marks op
    \<and> done_events h \<union> set (shown resolve op h) \<subseteq> done_events (host_step resolve is_dir op h)"
proof (cases op)
  case (ClaimEvents now dir limit)
  then show ?thesis
    by (simp add: host_step_def claim_for_project_def Let_def done_flag claimed_rows[OF assms] shown_claim)
next
  case (WriteEvent now random ty slug dir summary details)
  then show ?thesis
    by (auto simp: host_step_def write_event_def Let_def shown_def done_events_def)
next
  case (MarkProcessed now event_id)
  then show ?thesis by (auto simp: host_step_def mark_processed_def shown_def done_flag marks_def)
next
  case (Register dir slug now)
  then show ?thesis by (auto simp: host_step_def register_def Let_def shown_def done_events_def)
next
  case (Unregister dir slug)
  then show ?thesis by (auto simp: host_step_def unregister_def Let_def shown_def done_events_def)
next
  case (UnregisterMany targets)
  then show ?thesis by (auto simp: host_step_def unregister_many_def Let_def shown_def done_events_def)
qed

lemma shown_in_fresh:
  "host_ok h \<Longrightarrow> distinct (shown_in resolve is_dir ops h) \<and> set (shown_in resolve is_dir ops h) \<inter> done_events h = {}"
proof (induction ops arbitrary: h)
  case (Cons op ops)
  let ?h = "host_step resolve is_dir op h"
  from Cons.IH[OF host_step_ok[OF Cons.prems]] shown_fresh[OF Cons.prems, of resolve op] done_step[OF Cons.prems, of resolve is_dir op]
  show ?case by (simp; blast)
qed simp

lemma processed_run:
  "host_ok h \<Longrightarrow> done_events (fold (host_step resolve is_dir) ops h)
     \<subseteq> done_events h \<union> set (shown_in resolve is_dir ops h) \<union> \<Union> (marks ` set ops)
   \<and> done_events h \<union> set (shown_in resolve is_dir ops h) \<subseteq> done_events (fold (host_step resolve is_dir) ops h)"
proof (induction ops arbitrary: h)
  case (Cons op ops)
  from Cons.IH[OF host_step_ok[OF Cons.prems, of resolve is_dir op]] done_step[OF Cons.prems, of resolve is_dir op]
  show ?case by (simp; blast)
qed simp

lemma inbox_kept:
  "\<exists>new. map ib_event_id (h_inbox (fold (host_step resolve is_dir) ops h)) = map ib_event_id (h_inbox h) @ new"
proof (induction ops arbitrary: h)
  case (Cons op ops)
  have "\<exists>new. map ib_event_id (h_inbox (host_step resolve is_dir op h)) = map ib_event_id (h_inbox h) @ new"
    by (cases op)
      (simp_all add: host_step_def register_def unregister_def unregister_many_def write_event_def mark_processed_def
        claim_for_project_def Let_def)
  with Cons.IH[of "host_step resolve is_dir op h"] show ?case by fastforce
qed simp

text \<open>
  C29 Every event is shown once. Whatever operations the processes of a host interleave, from any
  reachable state of the tables: no event id is shown twice, none is shown that an earlier
  session had already been shown, and at the end every event that was ever in the inbox is still
  there and is either unread, or was done before, or was shown, or was marked by name.
\<close>

theorem inbox_shown_once:
  assumes "host_ok h"
  shows "let h' = fold (host_step resolve is_dir) ops h; sh = shown_in resolve is_dir ops h in
    distinct sh \<and> set sh \<inter> done_events h = {} \<and> host_ok h'
    \<and> ib_event_id ` set (h_inbox h) \<subseteq> ib_event_id ` set (h_inbox h')
    \<and> (\<forall>r\<in>set (h_inbox h'). if ib_processed r
         then ib_event_id r \<in> done_events h \<union> set sh \<or> (\<exists>now. MarkProcessed now (ib_event_id r) \<in> set ops)
         else ib_event_id r \<notin> set sh)"
proof -
  let ?h = "fold (host_step resolve is_dir) ops h" and ?sh = "shown_in resolve is_dir ops h"
  have ok: "host_ok ?h" by (rule host_run_ok[OF assms])
  have "ib_event_id r \<in> done_events h \<union> set ?sh \<or> (\<exists>now. MarkProcessed now (ib_event_id r) \<in> set ops)"
    if "r \<in> set (h_inbox ?h)" "ib_processed r" for r
  proof -
    have "ib_event_id r \<in> done_events ?h" using that by (auto simp: done_events_def)
    with processed_run[OF assms, of resolve is_dir ops] have "ib_event_id r \<in> done_events h \<union> set ?sh \<union> \<Union> (marks ` set ops)" by blast
    then show ?thesis by (auto simp: marks_iff)
  qed
  moreover have "ib_event_id r \<notin> set ?sh" if "r \<in> set (h_inbox ?h)" "\<not> ib_processed r" for r
  proof
    assume "ib_event_id r \<in> set ?sh"
    then have "ib_event_id r \<in> done_events ?h" using processed_run[OF assms, of resolve is_dir ops] by blast
    then show False using that events_inj[OF ok] by (auto simp: done_events_def inj_on_def)
  qed
  moreover have "ib_event_id ` set (h_inbox h) \<subseteq> ib_event_id ` set (h_inbox ?h)"
    using inbox_kept[of resolve is_dir ops h] by (metis set_append set_map sup_ge1)
  ultimately show ?thesis using shown_in_fresh[OF assms, of resolve is_dir ops] ok by (simp add: Let_def)
qed

section \<open>Draining\<close>

lemma filter_flag_others:
  assumes "distinct (map ib_id rows)" "us = unread_of dir rows" "us = as @ bs"
  shows "unread_of dir (flag_rows now (\<lambda>r. ib_id r \<in> ib_id ` set bs) rows) = as"
proof -
  have inj: "inj_on ib_id (set rows)" using assms(1) by (simp add: distinct_map)
  have "set bs \<subseteq> set (unread_of dir rows)" using assms(2,3) by (metis set_append sup_ge2)
  then have sub: "set bs \<subseteq> set rows" by (auto simp: set_unread_of)
  have dis: "distinct (as @ bs)"
    using assms by (metis distinct_filter distinct_map unread_def unread_of_def)
  have flip: "ib_id r \<in> ib_id ` set bs \<longleftrightarrow> r \<in> set bs" if "r \<in> set rows" for r
    using that sub inj by (auto simp: inj_on_def)
  have *: "unread_of dir (flag_rows now P rs) = filter (\<lambda>r. \<not> P r) (unread_of dir rs)" for P rs
    by (induction rs) (auto simp: unread_of_def unread_def flag_rows_def)
  have "filter (\<lambda>r. ib_id r \<notin> ib_id ` set bs) (unread_of dir rows) = filter (\<lambda>r. r \<notin> set bs) (unread_of dir rows)"
    by (rule filter_cong) (auto simp: flip set_unread_of)
  also have "\<dots> = filter (\<lambda>r. r \<notin> set bs) (as @ bs)" using assms(2,3) by simp
  also have "\<dots> = as" using dis by (auto simp: filter_empty_conv filter_id_conv)
  finally show ?thesis by (simp add: *)
qed

lemma claim_leaves_older:
  assumes "host_ok h" "0 < limit"
  shows "unread_of (resolve dir) (h_inbox (snd (claim_for_project resolve now dir limit h)))
    = take (length (unread_of (resolve dir) (h_inbox h)) - nat limit) (unread_of (resolve dir) (h_inbox h))"
proof -
  let ?us = "unread_of (resolve dir) (h_inbox h)"
  have d: "distinct (map ib_id (h_inbox h))" using assms(1) by (simp add: host_ok_def strict_sorted_iff)
  have "?us = take (length ?us - nat limit) ?us @ newest limit ?us" using assms(2) by (simp add: newest_def)
  from filter_flag_others[OF d refl this] show ?thesis by (simp add: claim_for_project_def Let_def)
qed

text \<open>
  The backlog drains. A project's sessions that claim \<open>limit\<close> events at a time, with no new events in
  between, are shown the unread events in blocks from the newest to the oldest: after \<open>k\<close> claims
  exactly the oldest \<open>n - k * limit\<close> are unread, so nothing is left after \<open>n / limit\<close> claims rounded up.
\<close>

theorem inbox_drains:
  assumes "host_ok h" "0 < limit"
  shows "unread_of (resolve dir) (h_inbox (fold (host_step resolve is_dir) (replicate k (ClaimEvents now dir limit)) h))
    = take (length (unread_of (resolve dir) (h_inbox h)) - k * nat limit) (unread_of (resolve dir) (h_inbox h))"
  using assms(1)
proof (induction k arbitrary: h)
  case (Suc k)
  let ?h = "host_step resolve is_dir (ClaimEvents now dir limit) h"
  have "unread_of (resolve dir) (h_inbox ?h)
    = take (length (unread_of (resolve dir) (h_inbox h)) - nat limit) (unread_of (resolve dir) (h_inbox h))"
    using claim_leaves_older[OF Suc.prems assms(2)] by (simp add: host_step_def)
  moreover have "take (min n (n - l) - k * l) xs = take (n - (l + k * l)) xs" for n l :: nat and xs :: "inbox_row list"
    by (simp add: diff_diff_left)
  ultimately show ?case
    using Suc.IH[OF host_step_ok[OF Suc.prems, of resolve is_dir "ClaimEvents now dir limit"]]
    by (simp add: diff_diff_left)
qed simp

section \<open>Two sessions\<close>

definition two_events :: host where
  "two_events = fold (host_step (\<lambda>d. d) (\<lambda>_. True))
     [WriteEvent 0 ''aa'' ''blocker'' ''p'' ''/x'' ''one'' None, WriteEvent 0 ''bb'' ''blocker'' ''p'' ''/x'' ''two'' None] empty_host"

lemma two_events_ok: "host_ok two_events"
  unfolding two_events_def by (rule host_run_ok) (rule host_ok_empty)

theorem inbox_shown_once_witness:
  "let ops = [ClaimEvents 0 ''/x'' 1, ClaimEvents 0 ''/x'' 20, ClaimEvents 0 ''/x'' 20];
       sh = shown_in (\<lambda>d. d) (\<lambda>_. True) ops two_events
   in sh = [''evt-bb'', ''evt-aa''] \<and> distinct sh"
proof -
  have "shown_in (\<lambda>d. d) (\<lambda>_. True) [ClaimEvents 0 ''/x'' 1, ClaimEvents 0 ''/x'' 20, ClaimEvents 0 ''/x'' 20] two_events
    = [''evt-bb'', ''evt-aa'']" by code_simp
  with inbox_shown_once[OF two_events_ok, of "\<lambda>d. d" "\<lambda>_. True" "[ClaimEvents 0 ''/x'' 1, ClaimEvents 0 ''/x'' 20, ClaimEvents 0 ''/x'' 20]"]
  show ?thesis by (simp add: Let_def)
qed

theorem inbox_drains_witness:
  "length (unread_of ''/x'' (h_inbox two_events)) = 2
   \<and> unread_of ''/x'' (h_inbox (fold (host_step (\<lambda>d. d) (\<lambda>_. True)) (replicate 2 (ClaimEvents 0 ''/x'' 1)) two_events)) = []"
proof -
  have "length (unread_of ''/x'' (h_inbox two_events)) = 2" by code_simp
  then show ?thesis
    using inbox_drains[OF two_events_ok, of 1 "\<lambda>d. d" "''/x''" "\<lambda>_. True" 2 0] by simp
qed

end
