(* ===== verification/Inbox_Surface.thy ===== *)
theory Inbox_Surface
  imports Session_Start Host_Props Cmd_World
begin

text \<open>
  The hook that runs on every prompt (\<open>hooks/clu_inbox_surface.py\<close>): the open blockers of the
  project, then its unread events, which are claimed by being rendered, then one instruction for
  each class of trouble among them. The root of the repository, the rendering of a timestamp and
  the tables are inputs; a host database that cannot be opened ends the hook silently.
\<close>

definition MAX_EVENTS :: nat where "MAX_EVENTS = 20"

definition SECTION_HEADER :: string where
  "SECTION_HEADER =
     [newline] @ ''## Active blockers'' @ [newline, newline]"

definition REPLY_INSTRUCTION :: string where
  "REPLY_INSTRUCTION =
     [newline] @ ''If the user'' @ [CHR 0x27] @
     ''s next message reads as a reply to one of these blockers (letter, number, or natural pick), call `clu '' @
     ''answer --plan <slug> <answer>` via Bash. If multiple blockers are open and the reply is ambiguous, ask '' @
     ''the user which plan they mean '' @ [CHR 0xE2, CHR 0x80, CHR 0x94] @ '' don'' @ [CHR 0x27] @ ''t guess.'' @
     [newline]"

definition TOOL_STUCK_INSTRUCTION :: string where
  "TOOL_STUCK_INSTRUCTION =
     [newline] @ ''## Stuck-tool events'' @ [newline, newline] @ ''One or more clu workers have a Bash tool that'' @
     [CHR 0x27] @
     ''s been running with near-zero CPU for several minutes (TOOL_STUCK events above). Investigate autonomously: '' @
     ''walk the worker'' @ [CHR 0x27] @
     ''s process tree via `ps -p <worker_pid>` then `pgrep -P <worker_pid>` to find the wedged subprocess, '' @
     ''and synthesize a kill recommendation naming the specific PIDs. Surface the recommendation proactively '' @
     ''so the operator sees it without asking. **Do NOT run `kill`, `clu release-claim`, or `clu force-complete` '' @
     ''until the operator explicitly approves** '' @ [CHR 0xE2, CHR 0x80, CHR 0x94] @
     '' the operator-approval checkpoint in user-level CLAUDE.md mandates this for any destructive intervention.'' @
     [newline]"

definition ATTESTATION_REFUSED_INSTRUCTION :: string where
  "ATTESTATION_REFUSED_INSTRUCTION =
     [newline] @ ''## Attestation gate refusal'' @ [newline, newline] @
     ''One or more clu workers hit the verify or simplify attestation gate (`attestation_refused` events above). '' @
     ''The worker'' @ [CHR 0x27] @ ''s claim is still live '' @ [CHR 0xE2, CHR 0x80, CHR 0x94] @
     '' the gate refused with `STATUS_TRANSITION` and left the claim in place so the worker can stamp + retry. '' @
     ''Investigate autonomously: read the per-worker log at `<project>/plans/.orchestrator/logs/<phase>.<token>.log`, '' @
     ''check `git log` on the worker'' @ [CHR 0x27] @
     ''s branch, compare the `stamped_at` SHA in the event payload to the worker'' @ [CHR 0x27] @
     ''s current HEAD. Recommend the fix proactively '' @ [CHR 0xE2, CHR 0x80, CHR 0x94] @
     '' typically `clu verify` to re-stamp (when the verify command would now pass), `clu attest --simplify` '' @
     ''to confirm a narrow diff, OR `clu complete --skip-verify` / `--skip-simplify` when the gate is a false '' @
     ''positive. **Do NOT run any of these until the operator explicitly approves** '' @
     [CHR 0xE2, CHR 0x80, CHR 0x94] @
     '' every bypass is an audit-event the operator owns the decision on, per the operator-approval checkpoint '' @
     ''in user-level CLAUDE.md.'' @ [newline]"

definition STALLED_CLAIM_INSTRUCTION :: string where
  "STALLED_CLAIM_INSTRUCTION =
     [newline] @ ''## Stalled-claim events'' @ [newline, newline] @
     ''One or more clu plans have a live claim whose lease expired without a `clu complete` (`stalled_claim` '' @
     ''events above). The worker is either dead or has uncommitted work on disk it never reported. Investigate '' @
     ''autonomously: read the per-worker log at `<project>/plans/.orchestrator/logs/<phase>.<token>.log` for '' @
     ''the claim'' @ [CHR 0x27] @
     ''s token, run `ps -p <pid>` against the `claimed_by.pid` in the event payload, check `git status` and '' @
     ''`git log` in the project / worktree for uncommitted work the worker may have written. Recommend a recovery '' @
     ''path '' @ [CHR 0xE2, CHR 0x80, CHR 0x94] @
     '' `clu force-complete --plan <P> --phase <X> --commit <sha>` if work is on disk, `clu release-claim` '' @
     ''if the worker is dead with nothing recoverable, or `clu retry` if the worker exited cleanly and the '' @
     ''phase should re-dispatch from scratch. **Do NOT run any of these until the operator explicitly approves** '' @
     [CHR 0xE2, CHR 0x80, CHR 0x94] @ '' every recovery path mutates state the operator owns.'' @ [newline]"

definition WORKER_DEAD_REPORTED_INSTRUCTION :: string where
  "WORKER_DEAD_REPORTED_INSTRUCTION =
     [newline] @ ''## Worker-death reports'' @ [newline, newline] @
     ''The heartbeat daemon detected a worker PID dead mid-phase (`phase_worker_dead_reported` events above) '' @
     ''and reported it within ~120s. The claim is being released for redispatch by death-recovery '' @
     [CHR 0xE2, CHR 0x80, CHR 0x94] @ '' if the recovery half hasn'' @ [CHR 0x27] @
     ''t run yet, the claim may still be live. Investigate autonomously: read the post-mortem log named in '' @
     ''the event'' @ [CHR 0x27] @
     ''s `log_path`, then check `git status` / `git log` in the project / worktree for uncommitted work the '' @
     ''dead worker left on disk. If the phase re-dispatched cleanly, nothing is needed. If a claim is stranded, '' @
     ''recommend `clu release-claim --plan <P> --phase <X>` (nothing recoverable) or `clu force-complete --plan '' @
     ''<P> --phase <X> --commit <sha>` (work on disk). **Do NOT run any of these until the operator explicitly '' @
     ''approves** '' @ [CHR 0xE2, CHR 0x80, CHR 0x94] @ '' every recovery path mutates state the operator owns.'' @
     [newline]"

section \<open>Sections\<close>

definition WEDGE_INSTRUCTION_BLOCKS :: "(string \<times> string) list" where
  "WEDGE_INSTRUCTION_BLOCKS =
     [(''tool_stuck'', TOOL_STUCK_INSTRUCTION),
      (''attestation_refused'', ATTESTATION_REFUSED_INSTRUCTION),
      (''stalled_claim'', STALLED_CLAIM_INSTRUCTION),
      (''phase_worker_dead_reported'', WORKER_DEAD_REPORTED_INSTRUCTION)]"

definition has_event_type :: "obj list \<Rightarrow> string \<Rightarrow> bool" where
  "has_event_type evs ty \<longleftrightarrow> list_ex (\<lambda>e. dget e ''type'' = Some (JStr ty)) evs"

definition wedge_sections :: "obj list \<Rightarrow> string list" where
  "wedge_sections evs = map snd (filter (\<lambda>(ty, block). has_event_type evs ty) WEDGE_INSTRUCTION_BLOCKS)"

text \<open>\<open>git rev-parse --show-toplevel\<close>, with \<open>None\<close> when it could not be run.\<close>

definition resolve_project_root :: "proc option \<Rightarrow> string \<Rightarrow> string" where
  "resolve_project_root git cwd =
     (case git of Some p \<Rightarrow> if p_rc p = 0 \<and> strip (p_out p) \<noteq> [] then strip (p_out p) else cwd | None \<Rightarrow> cwd)"

definition format_event :: "(jval \<Rightarrow> string) \<Rightarrow> obj \<Rightarrow> string" where
  "format_event show_ts e =
     ''  ['' @ show_ts (jget e ''timestamp'') @ ''] '' @ sget e ''plan_slug'' @ '' / '' @ sget e ''type'' @ '': '' @ sget e ''summary''"

definition older_footer :: "nat \<Rightarrow> string" where
  "older_footer n =
     ''  (+ '' @ show_nat n @ '' older events, still unread '' @ [CHR 0xE2, CHR 0x80, CHR 0x94] @ '' they surface on a later turn)''"

definition context_lines :: "(jval \<Rightarrow> string) \<Rightarrow> obj list \<Rightarrow> string list" where
  "context_lines show_ts evs =
     (let truncated_count = length evs - MAX_EVENTS
      in ''clu inbox (unprocessed):'' # map (format_event show_ts) (newest (int MAX_EVENTS) evs)
         @ (if truncated_count > 0 then [older_footer truncated_count] else []))"

definition truncated_footer :: string where
  "truncated_footer = newline # ''  (truncated)''"

definition build_context :: "(jval \<Rightarrow> string) \<Rightarrow> obj list \<Rightarrow> string" where
  "build_context show_ts evs =
     (if evs = [] then []
      else
        (let out = join_lines (context_lines show_ts evs)
         in if int (text_len out) > MAX_CONTEXT_CHARS
            then text_take (nat (MAX_CONTEXT_CHARS - int (text_len truncated_footer))) out @ truncated_footer else out))"

definition open_blockers_with_details ::
    "(string \<Rightarrow> string) \<Rightarrow> stores \<Rightarrow> reg_row list \<Rightarrow> string \<Rightarrow> shown_blocker list" where
  "open_blockers_with_details resolve sts rows project_root =
     concat (map (\<lambda>r. case load_entry_state sts (plan_entry.truncate r) of
         None \<Rightarrow> [] | Some d \<Rightarrow> map (shown_of (pe_slug r)) (open_blockers d))
       (filter (\<lambda>r. resolve (pe_root r) = resolve project_root) rows))"

definition build_blockers_section :: "shown_blocker list \<Rightarrow> string" where
  "build_blockers_section bs =
     (if bs = [] then []
      else SECTION_HEADER
        @ join_lines (map (\<lambda>b. render_blocker_template b (sb_question b) (join_lines (numbered 0 (sb_options b)))) (take MAX_BLOCKERS bs))
        @ (if length bs > MAX_BLOCKERS
           then newline # ''... +'' @ show_nat (length bs - MAX_BLOCKERS) @ '' more open blockers '' @ [CHR 0xE2, CHR 0x80, CHR 0x94]
                @ '' see `clu list` for the full set.'' else [])
        @ REPLY_INSTRUCTION)"

fun join_sections :: "string list \<Rightarrow> string" where
  "join_sections [] = []"
| "join_sections [s] = s"
| "join_sections (s # t # ss) = s @ [newline, newline] @ join_sections (t # ss)"

section \<open>The hook\<close>

definition surface ::
    "(string \<Rightarrow> string) \<Rightarrow> (jval \<Rightarrow> string) \<Rightarrow> int \<Rightarrow> stores \<Rightarrow> string \<Rightarrow> host option \<Rightarrow> string option \<times> host option" where
  "surface resolve show_ts now sts project_root h =
     (case h of
        None \<Rightarrow> (None, None)
      | Some h0 \<Rightarrow>
          (let blockers_section = build_blockers_section (open_blockers_with_details resolve sts (entries h) project_root);
               (evs, h1) = claim_for_project resolve now project_root (int MAX_EVENTS) h0;
               parts = filter (\<lambda>s. s \<noteq> []) (build_context show_ts evs # blockers_section # wedge_sections evs)
           in (if parts = [] then None else Some (join_sections parts), Some h1)))"

section \<open>The account of the unread events\<close>

lemma join_with_member: "x \<in> set ls \<Longrightarrow> sublist x (join_with c ls)"
proof (induction c ls rule: join_with.induct)
  case (3 c y z zs)
  show ?case
  proof (cases "x = y")
    case True
    then show ?thesis by (simp add: sublist_appendI)
  next
    case False
    with 3 have "sublist x (join_with c (z # zs))" by simp
    then show ?thesis by (auto simp: sublist_append sublist_Cons_right intro: sublist_append_leftI)
  qed
qed auto

lemma join_with_Cons_ne: "x \<noteq> [] \<Longrightarrow> join_with c (x # xs) \<noteq> []"
  by (cases xs) auto

text \<open>
  Shown is claimed, unread is counted. When the list of events fits the ceiling of the context, the prompt contains
  the line of every event the hook marked as read, and if others remain unread it says
  exactly how many.
\<close>

theorem surface_accounts:
  assumes "host_ok h" "surface resolve show_ts now sts root_dir (Some h) = (out, Some h')"
    and "unread_of (resolve root_dir) (h_inbox h) \<noteq> []"
    and "int (text_len (join_lines (context_lines show_ts (map payload (unread_of (resolve root_dir) (h_inbox h)))))) \<le> MAX_CONTEXT_CHARS"
  shows "\<exists>ctx rest. out = Some (ctx @ rest)
    \<and> (\<forall>r\<in>set (unread_of (resolve root_dir) (h_inbox h)).
         r \<notin> set (unread_of (resolve root_dir) (h_inbox h')) \<longrightarrow> sublist (format_event show_ts (payload r)) ctx)
    \<and> (unread_of (resolve root_dir) (h_inbox h') \<noteq> [] \<longrightarrow>
         sublist (older_footer (length (unread_of (resolve root_dir) (h_inbox h')))) ctx)"
proof -
  let ?us = "unread_of (resolve root_dir) (h_inbox h)"
  let ?ctx = "join_lines (context_lines show_ts (map payload ?us))"
  have h': "h' = snd (claim_for_project resolve now root_dir (int MAX_EVENTS) h)"
    using assms(2) by (auto simp: surface_def Let_def split: prod.splits)
  have left: "unread_of (resolve root_dir) (h_inbox h') = take (length ?us - MAX_EVENTS) ?us"
    using claim_leaves_older[OF assms(1), of "int MAX_EVENTS" resolve root_dir now] by (simp add: h' MAX_EVENTS_def)
  have ctx: "build_context show_ts (map payload ?us) = ?ctx"
    using assms(3,4) by (simp add: build_context_def)
  have "?ctx \<noteq> []" by (simp add: context_lines_def Let_def join_with_Cons_ne)
  then obtain rest where out: "out = Some (?ctx @ rest)"
    using assms(2) ctx
    by (cases "filter (\<lambda>s. s \<noteq> []) (build_blockers_section (open_blockers_with_details resolve sts (h_registry h) root_dir)
         # wedge_sections (map payload ?us))")
      (auto simp: surface_def Let_def claim_for_project_def entries_def)
  have "sublist (format_event show_ts (payload r)) ?ctx"
    if "r \<in> set ?us" "r \<notin> set (unread_of (resolve root_dir) (h_inbox h'))" for r
  proof -
    have "r \<in> set (newest (int MAX_EVENTS) ?us)"
      using that left by (metis MAX_EVENTS_def Un_iff append_take_drop_id nat_int newest_def of_nat_0_less_iff set_append zero_less_numeral)
    then have "format_event show_ts (payload r) \<in> set (context_lines show_ts (map payload ?us))"
      by (auto simp: context_lines_def Let_def newest_map)
    then show ?thesis by (simp add: join_with_member)
  qed
  moreover have "sublist (older_footer (length (unread_of (resolve root_dir) (h_inbox h')))) ?ctx"
    if "unread_of (resolve root_dir) (h_inbox h') \<noteq> []"
  proof -
    have "length (unread_of (resolve root_dir) (h_inbox h')) = length ?us - MAX_EVENTS" "0 < length ?us - MAX_EVENTS"
      using that left by auto
    then have "older_footer (length (unread_of (resolve root_dir) (h_inbox h'))) \<in> set (context_lines show_ts (map payload ?us))"
      by (simp add: context_lines_def Let_def)
    then show ?thesis by (simp add: join_with_member)
  qed
  ultimately show ?thesis using out by blast
qed

theorem surface_accounts_witness:
  "\<exists>out h'. surface (\<lambda>d. d) (\<lambda>_. ''t'') 0 (\<lambda>_. None) ''/x'' (Some two_events) = (Some out, Some h')
     \<and> unread_of ''/x'' (h_inbox h') = [] \<and> out \<noteq> []"
proof -
  obtain out h' where s: "surface (\<lambda>d. d) (\<lambda>_. ''t'') 0 (\<lambda>_. None) ''/x'' (Some two_events) = (out, Some h')"
    by (cases "claim_for_project (\<lambda>d. d) 0 ''/x'' (int MAX_EVENTS) two_events") (auto simp: surface_def Let_def)
  then have h': "h' = snd (claim_for_project (\<lambda>d. d) 0 ''/x'' (int MAX_EVENTS) two_events)"
    by (auto simp: surface_def Let_def split: prod.splits)
  have "length (unread_of ''/x'' (h_inbox two_events)) = 2" by code_simp
  then have u: "unread_of ''/x'' (h_inbox two_events) \<noteq> []" "unread_of ''/x'' (h_inbox h') = []"
    using claim_leaves_older[OF two_events_ok, of "int MAX_EVENTS" "\<lambda>d. d" "''/x''" 0] by (auto simp: h' MAX_EVENTS_def)
  have "int (text_len (join_lines (context_lines (\<lambda>_. ''t'') (map payload (unread_of ''/x'' (h_inbox two_events)))))) \<le> MAX_CONTEXT_CHARS"
    by code_simp
  with surface_accounts[OF two_events_ok s] u obtain ctx rest where
    "out = Some (ctx @ rest)" "\<forall>r\<in>set (unread_of ''/x'' (h_inbox two_events)). sublist (format_event (\<lambda>_. ''t'') (payload r)) ctx" by auto
  moreover obtain r where "r \<in> set (unread_of ''/x'' (h_inbox two_events))" using u(1) by (meson list.set_sel(1))
  ultimately have "out = Some (ctx @ rest)" "ctx @ rest \<noteq> []" by (auto simp: format_event_def)
  then show ?thesis using s u(2) by auto
qed

end
