(* ===== verification/Fleet.thy ===== *)
theory Fleet
  imports Session_Start
begin

text \<open>
  The summary of every plan of a host that bare \<open>clu\<close> prints (\<open>fleet.py\<close>): one line of a plan
  from its rows, the age in words, and the aligned table. Ages are exact quotients.
\<close>

record plan_summary =
  ps_slug :: string
  ps_root :: string
  ps_status :: jval
  ps_phase :: "jval option"
  ps_open :: nat
  ps_age :: "rat option"
  ps_worktree :: bool

definition STATUS_STALLED :: string where "STATUS_STALLED = ''stalled''"
definition STATUS_MISSING :: string where "STATUS_MISSING = ''missing''"

text \<open>\<open>(now - ts).total_seconds()\<close> of the last event, nothing when its timestamp does not read.\<close>

definition last_age :: "int \<Rightarrow> obj list \<Rightarrow> rat option" where
  "last_age now evs =
     (if evs = [] then None
      else map_option (\<lambda>t. of_int (now - t) / of_int usec) (parse_iso (jget (last evs) ''ts'')))"

definition summarize_plan :: "int \<Rightarrow> stores \<Rightarrow> plan_entry \<Rightarrow> plan_summary option res" where
  "summarize_plan now sts entry =
     (case load_entry_state sts entry of
        None \<Rightarrow> Inr None
      | Some d \<Rightarrow>
          (let claim = (case d_claim d of None \<Rightarrow> [] | Some c \<Rightarrow> c)
           in bind_res (if claim = [] then Inr False else claim_is_stalled now d claim) (\<lambda>stalled.
              bind_res (if claim = [] then Inr None
                        else case dget claim ''phase_id'' of None \<Rightarrow> Inl (KeyErr ''phase_id'') | Some p \<Rightarrow> Inr (Some p)) (\<lambda>phase.
                Inr (Some \<lparr>ps_slug = pe_slug entry, ps_root = pe_root entry,
                  ps_status = (if stalled then JStr STATUS_STALLED else d_status d), ps_phase = phase,
                  ps_open = length (open_blockers d), ps_age = last_age now (d_events d),
                  ps_worktree = (get_worktree d \<noteq> None)\<rparr>)))))"

text \<open>\<open>f"{x:.1f}"\<close> of a number that is not negative.\<close>

definition show_tenths :: "rat \<Rightarrow> string" where
  "show_tenths x = (let n = nat (round_half_even (x * 10)) in show_nat (n div 10) @ ''.'' @ show_nat (n mod 10))"

definition truncate_int :: "rat \<Rightarrow> int" where
  "truncate_int x = (if x < 0 then - \<lfloor>- x\<rfloor> else \<lfloor>x\<rfloor>)"

definition humanize_age :: "rat option \<Rightarrow> string" where
  "humanize_age age =
     (case age of
        None \<Rightarrow> ''-''
      | Some s \<Rightarrow>
          if s < 60 then show_int (truncate_int s) @ ''s''
          else if s / 60 < 60 then show_int (truncate_int (s / 60)) @ ''m''
          else if s / 3600 < 24 then show_tenths (s / 3600) @ ''h''
          else show_tenths (s / 3600 / 24) @ ''d'')"

definition HEADER :: "string list" where
  "HEADER = [''PLAN'', ''STATUS'', ''PHASE'', ''BLOCKERS'', ''LAST'', ''WT'']"

definition or_dash :: "string \<Rightarrow> string" where
  "or_dash s = (if s = [] then ''-'' else s)"

definition plan_row :: "string \<Rightarrow> plan_summary option \<Rightarrow> string list" where
  "plan_row slug s =
     (case s of
        None \<Rightarrow> [slug, STATUS_MISSING, ''-'', ''-'', ''-'', ''-'']
      | Some p \<Rightarrow> [ps_slug p, text_of (ps_status p), or_dash (case ps_phase p of None \<Rightarrow> [] | Some v \<Rightarrow> text_of v),
          show_nat (ps_open p), humanize_age (ps_age p), if ps_worktree p then ''yes'' else ''-''])"

text \<open>\<open>f"{cell:<w}"\<close>\<close>

definition pad :: "nat \<Rightarrow> string \<Rightarrow> string" where
  "pad w s = s @ replicate (w - text_len s) (CHR '' '')"

fun join_cells :: "string list \<Rightarrow> string" where
  "join_cells [] = []"
| "join_cells [c] = c"
| "join_cells (c # d # cs) = c @ ''  '' @ join_cells (d # cs)"

definition widths :: "string list list \<Rightarrow> nat list" where
  "widths rows = map (\<lambda>i. Max (set (map (\<lambda>r. text_len (r ! i)) (HEADER # rows)))) [0..<length HEADER]"

definition table_line :: "nat list \<Rightarrow> string list \<Rightarrow> string" where
  "table_line ws r = join_cells (map2 pad ws r)"

definition render_rows :: "string list list \<Rightarrow> string" where
  "render_rows rows = join_lines (map (table_line (widths rows)) (HEADER # rows)) @ [newline]"

definition render_fleet :: "int \<Rightarrow> stores \<Rightarrow> plan_entry list \<Rightarrow> string res" where
  "render_fleet now sts es =
     (if es = [] then Inr (''No plans registered. Run `clu init` or `clu register` to add one.'' @ [newline])
      else
        (case those (map (\<lambda>e. case summarize_plan now sts e of Inl _ \<Rightarrow> None | Inr s \<Rightarrow> Some (plan_row (pe_slug e) s)) es) of
           Some rows \<Rightarrow> Inr (render_rows rows)
         | None \<Rightarrow> Inl (hd (List.map_filter (\<lambda>e. case summarize_plan now sts e of Inl x \<Rightarrow> Some x | Inr _ \<Rightarrow> None) es))))"

section \<open>Alignment\<close>

lemma text_len_pad: "text_len s \<le> w \<Longrightarrow> text_len (pad w s) = w"
proof -
  have "text_len (replicate n (CHR '' '')) = n" for n
    by (induction n) (simp_all add: text_len_def is_cont_def)
  then show "text_len s \<le> w \<Longrightarrow> text_len (pad w s) = w" by (simp add: pad_def)
qed

lemma width_covers:
  assumes "r \<in> set (HEADER # rows)" "i < 6"
  shows "text_len (r ! i) \<le> widths rows ! i"
proof -
  have "length HEADER = 6" by (simp add: HEADER_def)
  then have "widths rows ! i = Max (set (map (\<lambda>r. text_len (r ! i)) (HEADER # rows)))"
    using assms(2) unfolding widths_def by (subst nth_map) simp_all
  then show ?thesis using assms(1) by (simp only: set_map) (rule Max_ge, auto)
qed

lemma length_plan_row: "length (plan_row slug s) = 6"
  by (simp add: plan_row_def split: option.split)

text \<open>
  The columns of the fleet table line up: in every line, the header included, the cell of column
  \<open>i\<close> is padded to the same width, and no cell is cut.
\<close>

theorem fleet_columns:
  assumes "\<forall>r\<in>set rows. length r = 6" "r \<in> set (HEADER # rows)" "i < 6"
  shows "text_len (map2 pad (widths rows) r ! i) = widths rows ! i \<and> prefix (r ! i) (map2 pad (widths rows) r ! i)"
proof -
  have "length r = 6" "length (widths rows) = 6" using assms(1,2) by (auto simp: HEADER_def widths_def)
  then have "map2 pad (widths rows) r ! i = pad (widths rows ! i) (r ! i)" using assms(3) by simp
  then show ?thesis using text_len_pad[OF width_covers[OF assms(2,3)]] by (simp add: pad_def)
qed

end
