(* ===== verification/Cross_Plan.thy ===== *)
theory Cross_Plan
  imports Dispatch Host_Tables Queue_Props
begin

text \<open>
  What a tick of a whole project does (\<open>cross_plan_rules.py\<close>, \<open>dry_merge.py\<close>, and the tick, archive
  and unregister handlers of \<open>cli.py\<close>): the tick of each registered plan with the dispatch it
  decided, then a chain of rules over all of them of which the first that acts ends the chain. The
  state is the world of a command with the host's tables beside it. Transactions on the project's
  database interleave with other processes as everywhere; the host's do not.
\<close>

section \<open>The state and the inputs\<close>

record project =
  pj_world :: world
  pj_host :: host

type_synonym 'a walk = "(project, 'a) comp"

definition on_world :: "'a cmd \<Rightarrow> 'a walk" where
  "on_world m = (\<lambda>p. case m (pj_world p) of (r, w) \<Rightarrow> (r, p\<lparr>pj_world := w\<rparr>))"

definition on_host :: "(host \<Rightarrow> 'a res \<times> host) \<Rightarrow> 'a walk" where
  "on_host f = (\<lambda>p. case f (pj_host p) of (r, h) \<Rightarrow> (r, p\<lparr>pj_host := h\<rparr>))"

abbreviation CalledProcessError :: pyerr where "CalledProcessError \<equiv> RuntimeErr ''CalledProcessError''"
abbreviation TimeoutExpired :: pyerr where "TimeoutExpired \<equiv> RuntimeErr ''TimeoutExpired''"

text \<open>
  \<open>xe_plan_file\<close> says which master plans exist, \<open>xe_sub_files\<close> lists the files \<open><slug>-*.md\<close>;
  \<open>xe_tests\<close> is the run of the test command (\<open>None\<close>: timed out), \<open>xe_tmpdir\<close> the fresh directory,
  \<open>xe_stamp\<close> the minute of a follow-up plan's name; \<open>xe_queue_ok\<close> says that the queue reads.
\<close>

record xp_env =
  xe_env :: cmd_env
  xe_plan_dir :: string
  xe_ship_mode :: string
  xe_auto_archive :: bool
  xe_plan_file :: "string \<Rightarrow> bool"
  xe_sub_files :: "string \<Rightarrow> string list"
  xe_stamp :: string
  xe_tmpdir :: string
  xe_tests :: "proc option"
  xe_queue_ok :: bool
  xe_tick :: "string \<Rightarrow> tick_env"
  xe_dispatch :: "string \<Rightarrow> dispatch_env"
  xe_resolve :: "string \<Rightarrow> string"
  xe_is_dir :: "string \<Rightarrow> bool"

abbreviation xe_now :: "xp_env \<Rightarrow> int" where "xe_now xe \<equiv> ce_now (xe_env xe)"
abbreviation xe_root :: "xp_env \<Rightarrow> string" where "xe_root xe \<equiv> cc_root (ce_cfg (xe_env xe))"

definition run_checked :: "cmd_env \<Rightarrow> string list \<Rightarrow> proc cmd" where
  "run_checked env argv =
     cbind (run_git env argv) (\<lambda>p. if p_rc p \<noteq> 0 then craise CalledProcessError else cret p)"

definition path_in :: "xp_env \<Rightarrow> string \<Rightarrow> string" where
  "path_in xe name = xe_root xe @ ''/'' @ xe_plan_dir xe @ ''/'' @ name"

definition gives :: "'a cmd \<Rightarrow> (pyerr \<Rightarrow> bool) \<Rightarrow> 'a option cmd" where
  "gives m skips = ccatch (cbind m (\<lambda>x. cret (Some x))) (\<lambda>e. if skips e then Some (cret None) else None)"

section \<open>One plan\<close>

definition tick_cmd :: "tick_env \<Rightarrow> int \<Rightarrow> string \<Rightarrow> outcome cmd" where
  "tick_cmd te now slug =
     cbind (transact (\<lambda>db. (Inr (plan_exists db slug), db))) (\<lambda>there.
       if \<not> there then cret (quiet_outcome (result AIdle NoState))
       else cbind (transact (tick_decide te now slug)) (\<lambda>dc. transact (tick_commit te now slug dc)))"

fun emit_each :: "effect list \<Rightarrow> unit cmd" where
  "emit_each [] = cret ()"
| "emit_each (e # es) = cbind (emit e) (\<lambda>_. emit_each es)"

definition jtext :: "jval \<Rightarrow> string" where
  "jtext v = (case v of JStr s \<Rightarrow> s | _ \<Rightarrow> [])"

definition tick_effects :: "string \<Rightarrow> outcome \<Rightarrow> effect list" where
  "tick_effects slug out =
     map (\<lambda>(token, phase). CoolantStop (jtext token) slug (jtext phase)) (o_stops out)
     @ (if o_signals out = [] then [] else [Signals (o_signals out)])
     @ map (InboxWrite \<circ> ie_type) (o_inbox out)"

definition notifies_action :: "action \<Rightarrow> bool" where
  "notifies_action a \<longleftrightarrow> a \<in> {AStalled, AWorkerDead, APlanDone, AHalt}"

definition result_notices :: "tick_result \<Rightarrow> effect list" where
  "result_notices r =
     (case tr_body r of
        Some n \<Rightarrow> if notifies_action (tr_action r) then [InboxWrite (notice_kind n), Sent n] else []
      | None \<Rightarrow> [])
     @ map Sent (tr_side r)"

definition tick_one_plan :: "xp_env \<Rightarrow> bool \<Rightarrow> string \<Rightarrow> tick_result cmd" where
  "tick_one_plan xe dispatch slug =
     cbind (tick_cmd (xe_tick xe slug) (xe_now xe) slug) (\<lambda>out.
     cbind (emit_each (tick_effects slug out)) (\<lambda>_.
     let r = o_result out in
     cbind (if dispatch \<and> tr_action r = ADispatch then dispatch_for_tick (xe_dispatch xe slug) slug r else cret False) (\<lambda>_.
     cbind (emit_each (result_notices r)) (\<lambda>_. cret r))))"

section \<open>The plans of a project\<close>

definition try_load :: "string \<Rightarrow> doc option cmd" where
  "try_load slug =
     cbind (transact (\<lambda>db. (Inr (plan_exists db slug), db))) (\<lambda>there.
       if \<not> there then cret None else gives (read_plan slug) degradable)"

fun load_plans :: "string list \<Rightarrow> (string \<times> doc) list cmd" where
  "load_plans [] = cret []"
| "load_plans (s # ss) =
     cbind (try_load s) (\<lambda>d. cbind (load_plans ss) (\<lambda>rest.
       cret ((case d of None \<Rightarrow> [] | Some d \<Rightarrow> [(s, d)]) @ rest)))"

definition load_plans_for_project :: "xp_env \<Rightarrow> (string \<times> doc) list walk" where
  "load_plans_for_project xe =
     (\<lambda>p. on_world (load_plans (map pe_slug (entries_for_project (xe_resolve xe) (xe_root xe) (Some (pj_host p))))) p)"

definition has_claim :: "doc \<Rightarrow> bool" where
  "has_claim d \<longleftrightarrow> d_claim d \<notin> {None, Some []}"

definition is_plan_active :: "doc \<Rightarrow> bool" where
  "is_plan_active d \<longleftrightarrow> has_claim d \<or> d_status d = JStr STATUS_RUNNING"

text \<open>\<open>bool(st.get_worktree(data))\<close>\<close>

definition has_worktree :: "doc \<Rightarrow> bool" where
  "has_worktree d \<longleftrightarrow> (case get_worktree d of None \<Rightarrow> False | Some v \<Rightarrow> truthy v)"

record rule_result =
  rr_name :: string
  rr_fields :: "(string \<times> obj) list"
  rr_events :: "(string \<times> (string \<times> obj) list) list"
  rr_notifies :: "notice list"

definition acted :: "string \<Rightarrow> notice list \<Rightarrow> rule_result" where
  "acted name ns = \<lparr>rr_name = name, rr_fields = [], rr_events = [], rr_notifies = ns\<rparr>"

section \<open>Queue advancement\<close>

definition FREEZE_STATUSES :: "jval list" where
  "FREEZE_STATUSES = [JStr STATUS_HALTED, JStr STATUS_HALTED_REPLAN, JStr STATUS_PAUSED]"


definition queue_advancement :: string where "queue_advancement = ''queue_advancement''"

definition fresh_plan :: "xp_env \<Rightarrow> obj \<Rightarrow> string \<Rightarrow> doc" where
  "fresh_plan xe head slug =
     (let d = empty_state (xe_now xe) slug (xe_plan_dir xe);
          d1 = (if dtrue head ''batch_id'' then d\<lparr>d_batch_id := jget head ''batch_id''\<rparr> else d)
      in append_event (xe_now xe) EVENT_QUEUE_POPPED
           [(''slug'', JStr slug), (''added_at'', jget head ''added_at''),
            (''added_by'', case dget head ''added_by'' of None \<Rightarrow> JStr ''operator'' | Some v \<Rightarrow> v), (''position'', JInt 1)] d1)"

text \<open>Transaction one: the head into the history and the plan's rows, or nothing.\<close>

definition pop_and_create :: "int \<Rightarrow> string \<Rightarrow> doc \<Rightarrow> bool txn" where
  "pop_and_create now slug fresh = write_txn (\<lambda>db.
     case pop_head_in_txn now slug OUTCOME_POPPED [] db of
       (Inl e, db1) \<Rightarrow> (Inl e, db1)
     | (Inr False, db1) \<Rightarrow> (Inr False, db1)
     | (Inr True, db1) \<Rightarrow>
         (case create_in_txn fresh db1 of
            (Inl (FileExistsErr _), db2) \<Rightarrow> (Inr True, db2)
          | (Inl e, db2) \<Rightarrow> (Inl e, db2)
          | (Inr _, db2) \<Rightarrow> (Inr True, db2)))"

definition skip_head :: "xp_env \<Rightarrow> string \<Rightarrow> string \<Rightarrow> notice list \<Rightarrow> rule_result option cmd" where
  "skip_head xe slug outcome ns =
     cbind (transact (locked (ce_busy (xe_env xe)) (pop_head_if (xe_now xe) slug outcome []))) (\<lambda>popped.
       cret (if popped then Some (acted queue_advancement ns) else None))"

definition pop_head :: "xp_env \<Rightarrow> obj \<Rightarrow> string \<Rightarrow> rule_result option walk" where
  "pop_head xe head slug =
     cbind (on_world (transact (locked (ce_busy (xe_env xe)) (pop_and_create (xe_now xe) slug (fresh_plan xe head slug))))) (\<lambda>popped.
       if \<not> popped then cret None
       else
         cbind (on_host (register (xe_resolve xe) (xe_is_dir xe) (xe_now xe) (xe_root xe) slug)) (\<lambda>_.
         cbind (on_world (tick_one_plan xe True slug)) (\<lambda>_. cret (Some (acted queue_advancement [])))))"

definition queue_advancement_rule :: "xp_env \<Rightarrow> (string \<times> doc) list \<Rightarrow> rule_result option walk" where
  "queue_advancement_rule xe plans =
     (if list_ex (has_claim \<circ> snd) plans \<or> \<not> xe_queue_ok xe then cret None
      else
        cbind (on_world (transact (\<lambda>db. (Inr (pending db), db)))) (\<lambda>entries.
          case entries of
            [] \<Rightarrow> cret None
          | head # _ \<Rightarrow>
              (let slug = sget head ''slug'' in
               if \<not> slug_re_match slug then cret None
               else
                 cbind (on_world (try_load slug)) (\<lambda>existing.
                   let status = map_option d_status existing; registered = (slug \<in> set (map fst plans)) in
                   if registered \<and> status \<in> Some ` set FREEZE_STATUSES then cret None
                   else if registered \<and> status \<in> {Some (JStr STATUS_DONE), Some (JStr STATUS_RUNNING)}
                   then on_world (skip_head xe slug OUTCOME_ABSORBED [])
                   else if \<not> xe_plan_file xe slug
                   then on_world (skip_head xe slug OUTCOME_ABANDONED [QueueSkippedNote slug])
                   else pop_head xe head slug))))"

section \<open>Worktree conflicts\<close>

definition conflicting :: "(string \<times> doc) list \<Rightarrow> string list" where
  "conflicting plans = map fst (filter (\<lambda>(s, d). \<not> has_worktree d \<and> is_plan_active d) plans)"

text \<open>\<open>set(state.get("in_conflict_with") or [])\<close>\<close>

definition in_conflict_with :: "doc \<Rightarrow> string list" where
  "in_conflict_with d =
     (case dget (d_extra d) ''in_conflict_with'' of Some (JList vs) \<Rightarrow> map jtext vs | _ \<Rightarrow> [])"

definition target_set :: "(string \<times> doc) list \<Rightarrow> string \<Rightarrow> string set" where
  "target_set plans s = (if s \<in> set (conflicting plans) then set (conflicting plans) - {s} else {})"

text \<open>\<open>a < b\<close> of two texts.\<close>

fun str_less :: "string \<Rightarrow> string \<Rightarrow> bool" where
  "str_less [] [] = False"
| "str_less [] (y # ys) = True"
| "str_less (x # xs) [] = False"
| "str_less (x # xs) (y # ys) = ((of_char x :: nat) < of_char y \<or> (x = y \<and> str_less xs ys))"

fun str_insort :: "string \<Rightarrow> string list \<Rightarrow> string list" where
  "str_insort x [] = [x]"
| "str_insort x (y # ys) = (if x = y then y # ys else if str_less x y then x # y # ys else y # str_insort x ys)"

text \<open>\<open>sorted(set)\<close> of the names of a list.\<close>

definition str_sorted :: "string list \<Rightarrow> string list" where
  "str_sorted xs = fold str_insort xs []"

definition targets :: "(string \<times> doc) list \<Rightarrow> string \<Rightarrow> string list" where
  "targets plans s = (if s \<in> set (conflicting plans) then str_sorted (filter (\<lambda>x. x \<noteq> s) (conflicting plans)) else [])"

text \<open>The plans whose set has changed, with the new partners to warn about.\<close>

definition conflict_changes :: "(string \<times> doc) list \<Rightarrow> (string \<times> string list \<times> string list) list" where
  "conflict_changes plans =
     map (\<lambda>(s, d). (s, targets plans s, filter (\<lambda>x. x \<notin> set (in_conflict_with d) \<and> str_less s x) (targets plans s)))
       (filter (\<lambda>(s, d). set (targets plans s) \<noteq> set (in_conflict_with d)) plans)"

definition worktree_conflict_result :: "xp_env \<Rightarrow> (string \<times> doc) list \<Rightarrow> rule_result option" where
  "worktree_conflict_result xe plans =
     (let cs = conflict_changes plans in
      if cs = [] then None
      else Some \<lparr>rr_name = ''worktree_conflict'',
        rr_fields = map (\<lambda>(s, ts, ws). (s, [(''in_conflict_with'', JList (map JStr ts))])) cs,
        rr_events = map (\<lambda>(s, ts, ws). (s, map (\<lambda>x. (EVENT_WORKTREE_CONFLICT_WARNING, [(''other_slug'', JStr x)])) ws)) cs,
        rr_notifies = concat (map (\<lambda>(s, ts, ws). map (WorktreeConflictNote s) ws) cs)\<rparr>)"

definition worktree_conflict_rule :: "xp_env \<Rightarrow> (string \<times> doc) list \<Rightarrow> rule_result option walk" where
  "worktree_conflict_rule xe plans = cret (worktree_conflict_result xe plans)"

section \<open>The dry merge\<close>

datatype merge_outcome = Clean | TextualConflict | SuiteFailed

record merge_result =
  mr_outcome :: merge_outcome
  mr_conflict_files :: "string list"
  mr_test_exit_code :: "int option"
  mr_stderr_tail :: string
  mr_merged_branches :: "string list"
  mr_base_sha :: string

definition STDERR_TAIL_CHARS :: nat where "STDERR_TAIL_CHARS = 2000"

definition merged_as :: "merge_outcome \<Rightarrow> string list \<Rightarrow> string \<Rightarrow> merge_result" where
  "merged_as oc branches base =
     \<lparr>mr_outcome = oc, mr_conflict_files = [], mr_test_exit_code = None, mr_stderr_tail = [],
      mr_merged_branches = branches, mr_base_sha = base\<rparr>"

text \<open>The conflict files of the first branch that does not merge.\<close>

fun merge_branches :: "cmd_env \<Rightarrow> string \<Rightarrow> string list \<Rightarrow> string list option cmd" where
  "merge_branches env dir [] = cret None"
| "merge_branches env dir (b # bs) =
     cbind (run_git env [''-C'', dir, ''merge'', ''--no-ff'', ''--no-edit'', b]) (\<lambda>p.
       if p_rc p \<noteq> 0
       then cbind (run_git env [''-C'', dir, ''diff'', ''--name-only'', ''--diff-filter=U'']) (\<lambda>q.
              cret (Some (if strip (p_out q) = [] then [] else split_lines (strip (p_out q)))))
       else merge_branches env dir bs)"

definition run_tests :: "xp_env \<Rightarrow> string list \<Rightarrow> string \<Rightarrow> string option \<Rightarrow> merge_result cmd" where
  "run_tests xe branches base test_command =
     (case test_command of
        None \<Rightarrow> cret (merged_as Clean branches base)
      | Some c \<Rightarrow>
          cbind (emit (RanTests c)) (\<lambda>_.
            cret (case xe_tests xe of
                None \<Rightarrow> (merged_as SuiteFailed branches base)\<lparr>mr_test_exit_code := Some (- 1), mr_stderr_tail := ''<timeout after 300s>''\<rparr>
              | Some p \<Rightarrow>
                  if p_rc p = 0 then merged_as Clean branches base
                  else (merged_as SuiteFailed branches base)\<lparr>mr_test_exit_code := Some (p_rc p),
                    mr_stderr_tail := newest (int STDERR_TAIL_CHARS) (if p_err p = [] then p_out p else p_err p)\<rparr>)))"

text \<open>\<open>try ... finally\<close>: the teardown runs on every path and fails none.\<close>

definition finally_do :: "'a cmd \<Rightarrow> unit cmd \<Rightarrow> 'a cmd" where
  "finally_do m fin = (\<lambda>w. case m w of (r, w1) \<Rightarrow> (case fin w1 of (_, w2) \<Rightarrow> (r, w2)))"

definition teardown :: "xp_env \<Rightarrow> unit cmd" where
  "teardown xe = cbind (run_git (xe_env xe) [''-C'', xe_root xe, ''worktree'', ''remove'', ''--force'', xe_tmpdir xe]) (\<lambda>_. cret ())"

definition attempt_merge :: "xp_env \<Rightarrow> string \<Rightarrow> string list \<Rightarrow> string option \<Rightarrow> merge_result cmd" where
  "attempt_merge xe base_ref branches test_command =
     cbind (run_checked (xe_env xe) [''-C'', xe_root xe, ''rev-parse'', base_ref]) (\<lambda>p.
       let base = strip (p_out p) in
       finally_do
         (cbind (run_checked (xe_env xe) [''-C'', xe_root xe, ''worktree'', ''add'', ''--detach'', xe_tmpdir xe, base]) (\<lambda>_.
          cbind (merge_branches (xe_env xe) (xe_tmpdir xe) branches) (\<lambda>conflict.
            case conflict of
              Some files \<Rightarrow> cret ((merged_as TextualConflict branches base)\<lparr>mr_conflict_files := files\<rparr>)
            | None \<Rightarrow> run_tests xe branches base test_command)))
         (teardown xe))"

section \<open>The merge gate\<close>

definition outcome_text :: "merge_outcome \<Rightarrow> string" where
  "outcome_text oc = (case oc of Clean \<Rightarrow> ''clean'' | TextualConflict \<Rightarrow> ''textual_conflict'' | SuiteFailed \<Rightarrow> ''suite_failed'')"

definition git_rev_parse :: "xp_env \<Rightarrow> string \<Rightarrow> string cmd" where
  "git_rev_parse xe branch =
     cbind (run_checked (xe_env xe) [''-C'', xe_root xe, ''rev-parse'', branch]) (\<lambda>p. cret (strip (p_out p)))"

definition branch_of :: "doc \<Rightarrow> string res" where
  "branch_of d = (case get_worktree d of None \<Rightarrow> Inl (RuntimeErr ''TypeError'') | Some wt \<Rightarrow> need_key wt ''branch'')"

text \<open>\<open>eligible\<close>: the groups of finished plans of one batch with a worktree, in order of first appearance.\<close>

definition batch_of :: "doc \<Rightarrow> string option" where
  "batch_of d =
     (if d_status d = JStr STATUS_DONE \<and> has_worktree d
      then (case d_batch_id d of JStr (c # cs) \<Rightarrow> Some (c # cs) | _ \<Rightarrow> None) else None)"

definition batches :: "(string \<times> doc) list \<Rightarrow> (string \<times> (string \<times> doc) list) list" where
  "batches plans =
     map (\<lambda>b. (b, filter (\<lambda>p. batch_of (snd p) = Some b) plans))
       (rev (fold (\<lambda>b acc. if b \<in> set acc then acc else b # acc)
          (List.map_filter (batch_of \<circ> snd) plans) []))"

fun live_pairs :: "xp_env \<Rightarrow> (string \<times> doc) list \<Rightarrow> (string \<times> doc \<times> string \<times> string) list cmd" where
  "live_pairs xe [] = cret []"
| "live_pairs xe ((s, d) # rest) =
     cbind (clift (branch_of d)) (\<lambda>branch.
     cbind (gives (git_rev_parse xe branch) (\<lambda>e. e = CalledProcessError)) (\<lambda>sha.
     cbind (live_pairs xe rest) (\<lambda>ps.
       cret ((case sha of None \<Rightarrow> [] | Some x \<Rightarrow> [(s, d, branch, x)]) @ ps))))"

text \<open>\<open>"|".join(sorted(shas))\<close>; a sha may occur twice.\<close>

fun sha_insort :: "string \<Rightarrow> string list \<Rightarrow> string list" where
  "sha_insort x [] = [x]"
| "sha_insort x (y # ys) = (if str_less y x then y # sha_insort x ys else x # y # ys)"

definition sha_key_of :: "string list \<Rightarrow> string" where
  "sha_key_of shas = join_with CHR ''|'' (fold sha_insort shas [])"

text \<open>\<open>state.get("gate_result", {}).get("sha_key")\<close>\<close>

definition gated_with :: "doc \<Rightarrow> jval option" where
  "gated_with d = (case dget (d_extra d) ''gate_result'' of Some (JObj g) \<Rightarrow> dget g ''sha_key'' | _ \<Rightarrow> None)"

definition follow_up_slug :: "xp_env \<Rightarrow> string \<Rightarrow> string" where
  "follow_up_slug xe bid = ''merge-resolve-'' @ bid @ ''-'' @ xe_stamp xe"

definition ticked :: "string \<Rightarrow> string" where
  "ticked f = ''`'' @ f @ ''`''"

fun comma_list :: "string list \<Rightarrow> string" where
  "comma_list [] = []"
| "comma_list [x] = x"
| "comma_list (x # y # ys) = x @ '', '' @ comma_list (y # ys)"

definition write_followup_plan_pair :: "xp_env \<Rightarrow> string \<Rightarrow> merge_result \<Rightarrow> string list \<Rightarrow> string cmd" where
  "write_followup_plan_pair xe bid res siblings =
     (let slug = follow_up_slug xe bid; sub_slug = slug @ ''-fix''; nl = [newline];
          dash = [CHR 0xE2, CHR 0x80, CHR 0x94];
          conflict_section = (if mr_conflict_files res = [] then []
            else nl @ ''## Conflict files'' @ nl @ nl @ join_with newline (map (\<lambda>f. ''- '' @ ticked f) (mr_conflict_files res)) @ nl);
          stderr_section = (if mr_stderr_tail res = [] then []
            else nl @ ''## Test output (tail)'' @ nl @ nl @ ''```'' @ nl @ mr_stderr_tail res @ nl @ ''```'' @ nl);
          files_str = (if mr_conflict_files res \<noteq> [] then comma_list (map ticked (mr_conflict_files res))
            else if mr_outcome res = SuiteFailed then ''the failing tests'' else ''the conflicting files'')
      in cbind (emit (WroteFile (path_in xe (slug @ ''.md''))
           (''# '' @ slug @ '' '' @ dash @ '' resolve merge conflicts for batch '' @ bid @ nl @ nl
            @ ''Branches: '' @ comma_list siblings @ nl @ conflict_section @ stderr_section
            @ nl @ ''## Sessions index'' @ nl @ nl
            @ ''| Session | Plan file | Scope | Effort |'' @ nl @ ''|---|---|---|---|'' @ nl
            @ ''| fix | `'' @ sub_slug @ ''.md` | Resolve conflicts and fix failing tests | 1h |'' @ nl))) (\<lambda>_.
         cbind (emit (WroteFile (path_in xe (sub_slug @ ''.md''))
           (''# '' @ sub_slug @ '' '' @ dash @ '' fix conflicts for batch '' @ bid @ nl @ nl
            @ ''Resolve conflicts in '' @ files_str @ '' and/or fix failing tests.'' @ nl
            @ ''Commit + push. `clu complete --plan '' @ slug @ '' --phase fix --token <T>`.'' @ nl))) (\<lambda>_.
           cret (path_in xe (slug @ ''.md'')))))"

definition gate_fields :: "xp_env \<Rightarrow> string \<Rightarrow> string \<Rightarrow> merge_result \<Rightarrow> obj" where
  "gate_fields xe sha_key bid res =
     [(''sha_key'', JStr sha_key), (''ts'', iso (xe_now xe)), (''batch_id'', JStr bid), (''outcome'', JStr (outcome_text (mr_outcome res)))]"

definition gate_batch :: "xp_env \<Rightarrow> string \<Rightarrow> (string \<times> doc) list \<Rightarrow> rule_result option cmd" where
  "gate_batch xe bid grp =
     (if length grp < 2 then cret None
      else
        cbind (live_pairs xe grp) (\<lambda>pairs.
          let shas = map (\<lambda>(s, d, b, x). x) pairs; slugs = map fst pairs; sha_key = sha_key_of shas;
              stamp = (\<lambda>g. map (\<lambda>s. (s, [(''gate_result'', JObj g)])) slugs) in
          if length pairs < 2 \<or> list_ex (\<lambda>(s, d, b, x). gated_with d = Some (JStr sha_key)) pairs then cret None
          else
            cbind (attempt_merge xe ''main'' (map (\<lambda>(s, d, b, x). b) pairs) (cc_test_command (ce_cfg (xe_env xe)))) (\<lambda>res.
              if mr_outcome res = Clean
              then cret (Some \<lparr>rr_name = ''dry_merge_gate'', rr_fields = stamp (gate_fields xe sha_key bid res), rr_events = [],
                     rr_notifies = [GateCleanNote bid slugs]\<rparr>)
              else
                cbind (write_followup_plan_pair xe bid res slugs) (\<lambda>master.
                  cret (Some \<lparr>rr_name = ''dry_merge_gate'',
                    rr_fields = stamp (gate_fields xe sha_key bid res @ [(''follow_up_plan'', JStr (follow_up_slug xe bid @ ''.md''))]),
                    rr_events = [], rr_notifies = [GateDirtyNote bid (outcome_text (mr_outcome res)) master]\<rparr>)))))"

fun first_some :: "('b \<Rightarrow> 'r option cmd) \<Rightarrow> 'b list \<Rightarrow> 'r option cmd" where
  "first_some f [] = cret None"
| "first_some f (x # xs) = cbind (f x) (\<lambda>r. case r of None \<Rightarrow> first_some f xs | Some y \<Rightarrow> cret (Some y))"

definition dry_merge_gate_rule :: "xp_env \<Rightarrow> (string \<times> doc) list \<Rightarrow> rule_result option walk" where
  "dry_merge_gate_rule xe plans = on_world (first_some (\<lambda>(bid, grp). gate_batch xe bid grp) (batches plans))"

section \<open>Ready to ship\<close>

definition is_branch_merged_into :: "cmd_env \<Rightarrow> string \<Rightarrow> bool cmd" where
  "is_branch_merged_into env branch =
     (let argv = [''-C'', cc_root (ce_cfg env), ''merge-base'', ''--is-ancestor'', branch, ''origin/main'']
      in cbind (emit (Git argv)) (\<lambda>_. cret (case ce_git env argv of None \<Rightarrow> False | Some p \<Rightarrow> p_rc p = 0)))"

text \<open>\<open>(state.get("ready_to_ship_announced") or {}).get("branch_sha")\<close>\<close>

definition announced_sha :: "doc \<Rightarrow> jval option" where
  "announced_sha d = (case dget (d_extra d) ''ready_to_ship_announced'' of Some (JObj a) \<Rightarrow> dget a ''branch_sha'' | _ \<Rightarrow> None)"

text \<open>The tip to announce, if there is one.\<close>

definition to_announce :: "xp_env \<Rightarrow> doc \<Rightarrow> string option cmd" where
  "to_announce xe d =
     (if d_status d \<noteq> JStr STATUS_DONE \<or> \<not> has_worktree d then cret None
      else
        cbind (clift (branch_of d)) (\<lambda>branch.
        cbind (is_branch_merged_into (xe_env xe) branch) (\<lambda>merged.
          if merged \<or> dtrue (d_extra d) ''ship_pending'' then cret None
          else
            cbind (run_git (xe_env xe) [''-C'', xe_root xe, ''rev-parse'', ''--verify'', branch]) (\<lambda>p.
              cret (if p_rc p \<noteq> 0 \<or> announced_sha d = Some (JStr (strip (p_out p))) then None
                    else Some (strip (p_out p)))))))"

fun announceable :: "xp_env \<Rightarrow> (string \<times> doc) list \<Rightarrow> (string \<times> string) list cmd" where
  "announceable xe [] = cret []"
| "announceable xe ((s, d) # rest) =
     cbind (to_announce xe d) (\<lambda>sha. cbind (announceable xe rest) (\<lambda>more.
       cret ((case sha of None \<Rightarrow> [] | Some x \<Rightarrow> [(s, x)]) @ more)))"

definition ready_to_ship_rule :: "xp_env \<Rightarrow> (string \<times> doc) list \<Rightarrow> rule_result option walk" where
  "ready_to_ship_rule xe plans =
     cbind (on_world (announceable xe plans)) (\<lambda>es.
       cret (if es = [] then None
             else Some \<lparr>rr_name = ''ready_to_ship'',
               rr_fields = map (\<lambda>(s, x). (s, [(''ready_to_ship_announced'', JObj [(''branch_sha'', JStr x)])])) es,
               rr_events = [], rr_notifies = [ReadyToShipNote (map fst es)]\<rparr>))"

section \<open>Archiving\<close>

definition archive_sources :: "xp_env \<Rightarrow> string \<Rightarrow> string list" where
  "archive_sources xe slug = (if xe_plan_file xe slug then [path_in xe (slug @ ''.md'')] else []) @ xe_sub_files xe slug"

text \<open>\<open>git mv\<close>, its failure kept for after the write.\<close>

definition move_plan_files :: "xp_env \<Rightarrow> string \<Rightarrow> bool res cmd" where
  "move_plan_files xe slug =
     (if archive_sources xe slug = [] then cret (Inr False)
      else ccatch (cbind (run_checked (xe_env xe) (''mv'' # archive_sources xe slug @ [path_in xe (''archive/'' @ slug)])) (\<lambda>_. cret (Inr True)))
             (\<lambda>e. if e \<in> {CalledProcessError, TimeoutExpired} then Some (cret (Inl e)) else None))"

definition archive_message :: "string \<Rightarrow> bool \<Rightarrow> string" where
  "archive_message slug unreg =
     (if unreg then ''chore: auto-archive '' @ slug @ '' (post-merge cleanup)'' else ''chore: archive '' @ slug)"

definition archive_in_world :: "xp_env \<Rightarrow> string \<Rightarrow> bool \<Rightarrow> (jval option \<times> jval option \<times> bool) cmd" where
  "archive_in_world xe slug unreg =
     cbind (read_plan slug) (\<lambda>d.
     cbind (maybe_cleanup_worktree (xe_env xe) ''archive'' False d) (\<lambda>d'.
     cbind (move_plan_files xe slug) (\<lambda>moved.
     cbind (persist_worktree_cleanup d' (length (d_events d)) [''ship_pending'', ''ready_to_ship_announced'']) (\<lambda>_.
     cbind (transact (op_archive_events (xe_now xe) slug)) (\<lambda>_.
     cbind (clift moved) (\<lambda>m.
     cbind (if m then cbind (run_checked (xe_env xe) [''-C'', xe_root xe, ''commit'', ''-m'', archive_message slug unreg]) (\<lambda>_. cret ())
            else cret ()) (\<lambda>_.
       cret (worktree_record d, worktree_record d', m))))))))"

definition perform_archive :: "xp_env \<Rightarrow> string \<Rightarrow> bool \<Rightarrow> (jval option \<times> jval option \<times> bool) walk" where
  "perform_archive xe slug unreg =
     cbind (on_world (archive_in_world xe slug unreg)) (\<lambda>r.
     cbind (if unreg then on_host (\<lambda>h. case unregister (xe_resolve xe) (xe_root xe) slug h of (b, h') \<Rightarrow> (Inr b, h')) else cret False) (\<lambda>_.
       cret r))"

fun archive_first :: "xp_env \<Rightarrow> (string \<times> doc) list \<Rightarrow> rule_result option walk" where
  "archive_first xe [] = cret None"
| "archive_first xe ((s, d) # rest) =
     (if d_status d \<noteq> JStr STATUS_DONE \<or> \<not> has_worktree d then archive_first xe rest
      else
        cbind (on_world (clift (branch_of d))) (\<lambda>branch.
        cbind (on_world (is_branch_merged_into (xe_env xe) branch)) (\<lambda>merged.
          if \<not> merged then archive_first xe rest
          else
            cbind (ccatch (cbind (perform_archive xe s True) (\<lambda>_. cret True)) (\<lambda>e. Some (cret False))) (\<lambda>ok.
              if ok then cret (Some (acted ''auto_archive'' [PlanAutoArchivedNote s branch])) else archive_first xe rest))))"

definition auto_archive_rule :: "xp_env \<Rightarrow> (string \<times> doc) list \<Rightarrow> rule_result option walk" where
  "auto_archive_rule xe plans = (if xe_auto_archive xe then archive_first xe plans else cret None)"

definition cmd_archive :: "xp_env \<Rightarrow> string \<Rightarrow> exit_code walk" where
  "cmd_archive xe slug =
     (if \<not> slug_re_match slug then cret INVALID_SLUG
      else
        cbind (on_world (transact (\<lambda>db. (Inr (plan_exists db slug), db)))) (\<lambda>there.
          if \<not> there then cret UNKNOWN_TASK
          else
            cbind (on_world (read_plan slug)) (\<lambda>d.
              if d_status d = JStr STATUS_RUNNING then cret STATUS_TRANSITION
              else ccatch (cbind (perform_archive xe slug False) (\<lambda>_. cret OK))
                     (\<lambda>e. if e \<in> {CalledProcessError, TimeoutExpired} then Some (cret GENERIC) else None))))"

section \<open>The chain\<close>

definition RULES :: "(xp_env \<Rightarrow> (string \<times> doc) list \<Rightarrow> rule_result option walk) list" where
  "RULES = [queue_advancement_rule, worktree_conflict_rule, dry_merge_gate_rule, ready_to_ship_rule, auto_archive_rule]"

text \<open>\<open>_apply\<close>: one transaction for each plan with fields or events.\<close>

definition apply_paths :: "rule_result \<Rightarrow> string list" where
  "apply_paths r = remdups (map fst (rr_fields r) @ map fst (filter (\<lambda>(s, es). es \<noteq> []) (rr_events r)))"

definition fields_for :: "rule_result \<Rightarrow> string \<Rightarrow> obj" where
  "fields_for r s = (case map_of (rr_fields r) s of None \<Rightarrow> [] | Some o' \<Rightarrow> o')"

definition events_for :: "int \<Rightarrow> rule_result \<Rightarrow> string \<Rightarrow> obj list" where
  "events_for now r s =
     (case map_of (rr_events r) s of None \<Rightarrow> [] | Some es \<Rightarrow> map (\<lambda>(ty, flds). mk_event now ty flds) es)"

fun apply_to :: "xp_env \<Rightarrow> rule_result \<Rightarrow> string list \<Rightarrow> unit cmd" where
  "apply_to xe r [] = cret ()"
| "apply_to xe r (s # ss) =
     cbind (transact (locked (ce_busy (xe_env xe)) (op_set_fields s (fields_for r s) [] (events_for (xe_now xe) r s)))) (\<lambda>_. apply_to xe r ss)"

definition apply_result :: "xp_env \<Rightarrow> rule_result \<Rightarrow> unit cmd" where
  "apply_result xe r = apply_to xe r (apply_paths r)"

fun run_rules :: "(xp_env \<Rightarrow> (string \<times> doc) list \<Rightarrow> rule_result option walk) list \<Rightarrow> xp_env \<Rightarrow> (string \<times> doc) list \<Rightarrow> rule_result option walk" where
  "run_rules [] xe plans = cret None"
| "run_rules (rule # rules) xe plans =
     cbind (rule xe plans) (\<lambda>r.
       case r of
         None \<Rightarrow> run_rules rules xe plans
       | Some x \<Rightarrow> cbind (on_world (apply_result xe x)) (\<lambda>_. cret (Some x)))"

definition post_loop :: "xp_env \<Rightarrow> unit walk" where
  "post_loop xe =
     cbind (load_plans_for_project xe) (\<lambda>plans.
     cbind (run_rules RULES xe plans) (\<lambda>r.
       on_world (emit_each (case r of None \<Rightarrow> [] | Some x \<Rightarrow> map Sent (rr_notifies x)))))"

text \<open>\<open>except Exception\<close>\<close>

definition swallow :: "('s, unit) comp \<Rightarrow> ('s, unit) comp" where
  "swallow m = ccatch m (\<lambda>_. Some (cret ()))"

fun tick_each :: "xp_env \<Rightarrow> bool \<Rightarrow> string list \<Rightarrow> unit walk" where
  "tick_each xe dispatch [] = cret ()"
| "tick_each xe dispatch (s # ss) =
     cbind (swallow (on_world (cbind (tick_one_plan xe dispatch s) (\<lambda>_. cret ())))) (\<lambda>_. tick_each xe dispatch ss)"

text \<open>\<open>clu tick\<close>: of one plan, or of every plan of the project and then the chain.\<close>

definition cmd_tick :: "xp_env \<Rightarrow> string option \<Rightarrow> bool \<Rightarrow> exit_code walk" where
  "cmd_tick xe plan dry =
     (case plan of
        Some slug \<Rightarrow>
          if \<not> slug_re_match slug then cret INVALID_SLUG
          else cbind (on_world (tick_one_plan xe (\<not> dry) slug)) (\<lambda>_. cret OK)
      | None \<Rightarrow>
          (\<lambda>p. cbind (tick_each xe (\<not> dry)
                  (map pe_slug (entries_for_project (xe_resolve xe) (xe_root xe) (Some (pj_host p))))) (\<lambda>_.
               cbind (swallow (post_loop xe)) (\<lambda>_. cret OK)) p))"

section \<open>Unregistering\<close>

definition terminalize_for_unregister :: "xp_env \<Rightarrow> string \<Rightarrow> unit cmd" where
  "terminalize_for_unregister xe slug =
     cbind (read_plan slug) (\<lambda>d.
       if d_status d \<in> set TERMINAL_STATUSES then cret ()
       else
         (let reap = reap_claim (ce_os (xe_env xe)) d; claim = (case d_claim d of None \<Rightarrow> [] | Some c \<Rightarrow> c);
              opt = (\<lambda>k. case dget claim k of Some (JStr t) \<Rightarrow> Some t | _ \<Rightarrow> None)
          in cbind (emit_if (reap_sent reap \<noteq> []) (Signals (reap_sent reap))) (\<lambda>_.
             cbind (transact (locked (ce_busy (xe_env xe)) (op_set_status slug STATUS_HALTED
                [mk_event (xe_now xe) EVENT_PLAN_ABANDONED [(''reason'', JStr ''unregister'')]] (opt ''claimed_by'') (opt ''phase_id'')))) (\<lambda>_.
               if claim = [] then cret ()
               else emit_coolant_stop (xe_env xe) slug (sget claim ''phase_id'') (sget claim ''claimed_by'')))))"

definition cmd_unregister_one :: "xp_env \<Rightarrow> string \<Rightarrow> exit_code walk" where
  "cmd_unregister_one xe slug =
     (if \<not> slug_re_match slug then cret INVALID_SLUG
      else
        cbind (on_world (transact (\<lambda>db. (Inr (plan_exists db slug), db)))) (\<lambda>there.
        cbind (on_world (if there
             then cbind (gives (terminalize_for_unregister xe slug) (\<lambda>e. degradable e \<or> (case e of ClaimMismatch _ \<Rightarrow> True | _ \<Rightarrow> False))) (\<lambda>_. cret ())
             else cret ())) (\<lambda>_.
        cbind (on_host (\<lambda>h. case unregister (xe_resolve xe) (xe_root xe) slug h of (b, h') \<Rightarrow> (Inr b, h'))) (\<lambda>_. cret OK))))"

datatype entry_health = ProjectGone | ConfigUnreadable | NoMaster | MasterPresent

text \<open>What \<open>--all-archived\<close> takes out; a project that is there but does not load is left to the operator.\<close>

definition archived_entries :: "(reg_row \<Rightarrow> entry_health) \<Rightarrow> reg_row list \<Rightarrow> (string \<times> string) list" where
  "archived_entries health rows = map reg_key (filter (\<lambda>r. health r \<in> {ProjectGone, NoMaster}) rows)"

definition cmd_unregister_all_archived :: "(reg_row \<Rightarrow> entry_health) \<Rightarrow> bool \<Rightarrow> host \<Rightarrow> exit_code \<times> host" where
  "cmd_unregister_all_archived health dry_run h =
     (let gone = archived_entries health (entries (Some h))
      in (OK, if gone = [] \<or> dry_run then h else snd (unregister_many gone h)))"

definition cmd_register :: "xp_env \<Rightarrow> string \<Rightarrow> exit_code walk" where
  "cmd_register xe slug =
     cbind (on_host (register (xe_resolve xe) (xe_is_dir xe) (xe_now xe) (xe_root xe) slug)) (\<lambda>_. cret OK)"

end
