(* ===== verification/Cross_Frame.thy ===== *)
theory Cross_Frame
  imports Cross_Plan Dispatch_Props
begin

text \<open>
  What a tick of a project keeps, however it is interleaved: the invariant of the store with the
  append-only histories, and the integrity of the host's tables. The contract of a command
  (\<open>store_contract\<close>, interpreted as \<open>command_log\<close>) is extended to the tick's own transactions and
  to those of the queue.
\<close>

section \<open>The delta of a tick\<close>

abbreviation sound_delta :: "work \<Rightarrow> bool" where
  "sound_delta w \<equiv> delta_ok (w_delta w)"

named_theorems delta_simps \<open>what leaves the updates of a delta alone\<close>

lemma delta_plain [delta_simps]:
  "sound_delta (delta_event now ty flds w) = sound_delta w" "sound_delta (set_status st w) = sound_delta w"
  "sound_delta (delta_status st w) = sound_delta w" "sound_delta (set_release w) = sound_delta w"
  "sound_delta (require_claim w) = sound_delta w" "sound_delta (require_claim_field k w) = sound_delta w"
  "sound_delta (require_status w) = sound_delta w" "sound_delta (require_event_log w) = sound_delta w"
  "sound_delta (require_blocker b w) = sound_delta w" "sound_delta (add_side n w) = sound_delta w"
  "sound_delta (carry_events evs w) = sound_delta w"
  by (simp_all add: delta_ok_def delta_event_def carry_events_def set_status_def delta_status_def set_release_def
      require_claim_def require_claim_field_def require_status_def require_event_log_def require_blocker_def
      require_def add_side_def split: option.split)

lemma delta_stamp_claim [delta_simps]: "sound_delta w \<Longrightarrow> sound_delta (stamp_claim claim flds w)"
  by (simp add: stamp_claim_def put_claim_def set_claim_updates_def delta_ok_def distinct_dupd)

lemma delta_stamp_blocker:
  assumes "sound_delta w" "''id'' \<notin> set (map fst flds)"
  shows "sound_delta (stamp_blocker b flds w)"
proof -
  let ?old = "case map_of (dl_blocker_updates (w_delta w)) b of None \<Rightarrow> [] | Some u \<Rightarrow> u"
  have "''id'' \<notin> set (map fst ?old)"
  proof (cases "map_of (dl_blocker_updates (w_delta w)) b")
    case (Some u)
    from map_of_SomeD[OF this] assms(1) show ?thesis using Some unfolding delta_ok_def by fastforce
  qed simp
  then have "map_of ?old ''id'' = None" by (simp only: map_of_eq_None_iff set_map not_False_eq_True)
  moreover have "map_of (rev flds) ''id'' = None" using assms(2) by (simp add: map_of_eq_None_iff)
  ultimately have "map_of (dupd ?old flds) ''id'' = None" unfolding map_of_dupd by (simp only: map_add_def option.case)
  then have n: "''id'' \<notin> set (map fst (dupd ?old flds))" by (simp only: map_of_eq_None_iff set_map not_False_eq_True)
  from assms(1) have "\<forall>(x, u)\<in>set (dl_blocker_updates (w_delta w)). ''id'' \<notin> set (map fst u)" by (simp add: delta_ok_def)
  from update_ball[OF this n, of b] assms(1) show ?thesis unfolding delta_ok_def stamp_blocker_def by simp
qed

lemma delta_consume [delta_simps]: "sound_delta w \<Longrightarrow> sound_delta (consume_blocker now e w)"
  by (cases e) (auto simp: consume_blocker_def delta_plain intro!: delta_stamp_blocker)

lemma delta_consume_all: "sound_delta w \<Longrightarrow> sound_delta (fold (consume_blocker now) es w)"
  by (induction es arbitrary: w) (simp_all add: delta_consume)

lemma delta_answers: "consume_answers now w = Some (r, w') \<Longrightarrow> sound_delta w \<Longrightarrow> sound_delta w'"
  by (auto simp: consume_answers_def Let_def delta_plain delta_consume_all delta_consume
      split: prod.splits list.splits option.splits)

lemma delta_require_all [delta_simps]: "sound_delta (require_all w) = sound_delta w"
  by (simp add: require_all_def delta_plain)

lemma delta_claim_for [delta_simps]: "sound_delta (claim_for now p lease w) = sound_delta w"
proof -
  have "sound_delta (claim_for now p lease w) = sound_delta (require_all w)" by (simp add: claim_for_def Let_def delta_ok_def)
  then show ?thesis by (simp add: delta_require_all)
qed

text \<open>A decision with a sound delta that wrote at most the pause row.\<close>

definition decides :: "work \<Rightarrow> pdb \<Rightarrow> decision res \<times> pdb \<Rightarrow> bool" where
  "decides w db r \<longleftrightarrow> (\<exists>q. snd r = db\<lparr>t_quota := q\<rparr>)
     \<and> (sound_delta w \<longrightarrow> (\<forall>dc. fst r = Inr dc \<longrightarrow> sound_delta (dc_work dc)))"

lemma decides_same: "(\<And>dc. x = Inr dc \<Longrightarrow> sound_delta w \<Longrightarrow> sound_delta (dc_work dc)) \<Longrightarrow> decides w db (x, db)"
  by (auto simp: decides_def intro: exI[of _ "t_quota db"])

lemma quota_death_frame: "record_quota_death zs now qm p t db = (until, evs, db') \<Longrightarrow> \<exists>q. db' = db\<lparr>t_quota := q\<rparr>"
  by (auto simp: record_quota_death_def record_quota_pause_def Let_def split: prod.splits)

lemma harvest_delta:
  assumes "harvest_quota env now claim w db = (sig, w', db')"
  shows "(\<exists>q. db' = db\<lparr>t_quota := q\<rparr>) \<and> (sound_delta w \<longrightarrow> sound_delta w')"
proof (cases "classify_log_tail (te_logs env) (jget claim ''log_path'')")
  case None
  then show ?thesis using assms by (auto simp: harvest_quota_def intro: exI[of _ "t_quota db"])
next
  case (Some qm)
  then show ?thesis using assms quota_death_frame
    by (auto simp: harvest_quota_def delta_plain split: prod.splits)
qed

lemma decides_expired: "decides w db (case decide_lease_expired env now claim w db of (dc, db') \<Rightarrow> (Inr dc, db'))"
  unfolding decide_lease_expired_def Let_def
  by (auto simp: decides_def delta_plain dest!: harvest_delta split: prod.splits)

lemma decides_dead: "decides w db (case decide_worker_dead env now claim pid w db of (dc, db') \<Rightarrow> (Inr dc, db'))"
  unfolding decide_worker_dead_def Let_def
  by (auto simp: decides_def delta_plain dest!: harvest_delta split: prod.splits)

lemma decides_finish: "sound_delta w \<Longrightarrow> sound_delta (dc_work (finish_plan now ps w))"
  by (simp add: finish_plan_def decided_def Let_def delta_simps)

lemma decides_phase: "decides w db (dispatch_phase env now m p w db)"
proof -
  obtain g db' where g: "gate_decision (te_store env) (d_slug (w_doc w)) now db = (g, db')" by fastforce
  from gate_frame[OF g] show ?thesis
    by (auto simp: dispatch_phase_def Let_def g decides_def decided_def delta_simps
        intro: exI[of _ "t_quota db"] exI[of _ "t_quota db'"] split: sum.split)
qed

lemma decides_next: "decides w db (dispatch_next env now w db)"
  unfolding dispatch_next_def
  by (auto intro!: decides_same decides_phase decides_finish simp: decided_def split: option.split sum.split list.split)

lemma decides_quiescent: "decides w db (decide_quiescent env now w db)"
  unfolding decide_quiescent_def
  by (auto intro!: decides_same decides_next dest: delta_answers simp: decided_def split: option.split list.split)

lemma delta_stalled: "detect_stalled now w = Inr (Some (r, w')) \<Longrightarrow> sound_delta w \<Longrightarrow> sound_delta w'"
  by (auto simp: detect_stalled_def bind_res_Inr Let_def delta_simps split: option.splits if_splits)

lemma delta_escalate: "escalate env now w = Inr (Some (r, w')) \<Longrightarrow> sound_delta w \<Longrightarrow> sound_delta w'"
  by (auto simp: escalate_def bind_res_Inr escalate_blocker_def Let_def delta_simps split: if_splits)

lemma decides_live: "decides w db (decide_live env now w db)"
  unfolding decide_live_def
  by (auto intro!: decides_same decides_quiescent dest: delta_stalled delta_escalate simp: decided_def
      split: sum.split option.split)

lemma decides_work: "decides w db (decide_work env now w db)"
  unfolding decide_work_def
  by (simp add: decides_live decides_expired decides_dead split: option.split list.split)

lemma decides_tick:
  assumes "tick_decide env now slug db = (r, db')"
  shows "(\<exists>q. db' = db\<lparr>t_quota := q\<rparr>) \<and> (\<forall>dc. r = Inr dc \<longrightarrow> sound_delta (dc_work dc))"
proof (cases "snapshot_with_preconditions db slug")
  case (Inl e)
  then show ?thesis using assms by (auto simp: tick_decide_def intro: exI[of _ "t_quota db"])
next
  case (Inr dp)
  obtain d obs where dp: "dp = (d, obs)" by (cases dp)
  let ?w = "emit_all env now \<lparr>w_doc = d, w_delta = empty_delta obs, w_side = []\<rparr>"
  have "sound_delta ?w" using emits_all[of "\<lparr>w_doc = d, w_delta = empty_delta obs, w_side = []\<rparr>" env now]
    by (simp add: emits_def delta_ok_def empty_delta_def)
  moreover have "decide_work env now ?w db = (r, db')" using assms Inr dp by (simp add: tick_decide_def)
  ultimately show ?thesis using decides_work[of ?w db env now] by (simp add: decides_def)
qed

section \<open>Binding with what is known of the value\<close>

lemma own_cbind_val:
  assumes "own P m" "\<And>w x w1. m w = (Inr x, w1) \<Longrightarrow> Q x" "\<And>x. Q x \<Longrightarrow> own P (f x)"
  shows "own P (cbind m f)"
proof (rule ownI)
  fix w
  obtain r w1 where m: "m w = (r, w1)" by (cases "m w")
  show "ran P w (snd (cbind m f w))"
    using ownD[OF assms(1) m] assms(2,3) m ran_trans by (cases r) (auto simp: cbind_def own_def)
qed

section \<open>The tick of one plan\<close>

abbreviation log_obeys :: "'a txn \<Rightarrow> bool" where "log_obeys \<equiv> command_log.obeys"

lemma grows_trans: "store_grows a b \<Longrightarrow> store_grows b c \<Longrightarrow> store_grows a c"
  by (rule command_log.R_trans)

lemma grows_refl: "store_grows a a"
  by (rule command_log.R_refl)

lemma post_grows: "store_grows db (snd (run_post env now slug p (out, db)))"
proof (cases p)
  case (PostReapRecord pgid phase pid)
  have "store_grows db (snd (op_append_events slug evs None None db))" for evs
    using command_log.obeys_ops(4)[of slug evs None None] by (simp add: command_log.obeys_def)
  then show ?thesis using PostReapRecord by (auto simp: run_post_def split: prod.split)
qed (simp_all add: run_post_def grows_refl)

lemma posts_grow: "store_grows db (snd (fold (run_post env now slug) ps (out, db)))"
proof (induction ps arbitrary: out db)
  case (Cons p ps)
  obtain out' db' where r: "run_post env now slug p (out, db) = (out', db')" by fastforce
  then have "store_grows db db'" using post_grows[of db env now slug p out] by simp
  then show ?case using Cons[of db' out'] r grows_trans by simp
qed (simp add: grows_refl)

lemma apply_grows: "sound_delta w \<Longrightarrow> store_grows db (snd (apply_delta env now slug (w_delta w) db))"
  using command_log.R_op[of "OpTick now (te_fresh env) slug (dl_pre (w_delta w)) (w_delta w)" slug]
  by (simp add: apply_delta_def grows_refl)

lemma commit_obeys: "sound_delta (dc_work dc) \<Longrightarrow> log_obeys (tick_commit te now slug dc)"
  unfolding command_log.obeys_def
proof
  fix db assume s: "sound_delta (dc_work dc)"
  obtain r db1 where a: "apply_delta te now slug (w_delta (dc_work dc)) db = (r, db1)" by fastforce
  have 1: "store_grows db db1" using apply_grows[OF s, of db te now slug] a by simp
  show "store_grows db (snd (tick_commit te now slug dc db))"
  proof (cases r)
    case (Inl e)
    then show ?thesis using a 1 by (cases e) (simp_all add: tick_commit_def)
  next
    case (Inr tk)
    have "store_grows db1 (snd (fold (run_post te now slug) ps (out, db1)))" for ps out by (rule posts_grow)
    then show ?thesis using a 1 Inr grows_trans[OF 1]
      by (simp add: tick_commit_def Let_def split_beta)
  qed
qed

lemma decide_obeys: "log_obeys (tick_decide te now slug)"
  unfolding command_log.obeys_def
proof
  fix db
  obtain r db' where "tick_decide te now slug db = (r, db')" by fastforce
  with decides_tick[OF this] command_log.R_quota show "store_grows db (snd (tick_decide te now slug db))" by auto
qed

lemma own_pure: "own store_grows (transact (\<lambda>db. (f db, db)))"
  by (rule own_transact) (simp add: grows_refl)

lemma own_tick_cmd: "own store_grows (tick_cmd te now slug)"
proof -
  have "own store_grows (cbind (transact (tick_decide te now slug)) (\<lambda>dc. transact (tick_commit te now slug dc)))"
  proof (rule own_cbind_val)
    show "own store_grows (transact (tick_decide te now slug))" by (rule command_log.f_transact[OF decide_obeys])
    show "sound_delta (dc_work dc)" if "transact (tick_decide te now slug) w = (Inr dc, w1)" for w dc w1
      using that decides_tick by (fastforce simp: transact_run)
    show "own store_grows (transact (tick_commit te now slug dc))" if "sound_delta (dc_work dc)" for dc
      by (rule command_log.f_transact[OF commit_obeys[OF that]])
  qed
  then show ?thesis unfolding tick_cmd_def by (auto intro!: own_cbind own_pure own_cret)
qed

lemma own_emit_each: "own P (emit_each es)"
proof (induction es)
  case Nil
  show ?case by (subst emit_each.simps) (rule own_cret)
next
  case (Cons e es)
  then show ?case unfolding emit_each.simps by (intro own_cbind own_emit)
qed

section \<open>A dispatch\<close>

lemma log_write: "log_obeys t \<Longrightarrow> own store_grows (store_write de t)"
  unfolding store_write_def by (intro command_log.f_transact command_log.obeys_locked)

lemmas log_intros = own_intros log_write command_log.f_read_plan command_log.obeys_ops command_log.obeys_quota
  own_tolerant own_on_mismatch own_pure

lemma log_release: "own store_grows (release_with_failure de slug token p reason)"
  and log_missing: "own store_grows (pause_for_missing_worktree de slug token p path)"
  and log_systemic: "own store_grows (pause_for_systemic_failure de slug token p sig log_path)"
  and log_stamp: "own store_grows (stamp_pid de slug token pid log_path sid)"
  by (auto simp: release_with_failure_def release_recording_def pause_for_missing_worktree_def pause_for_systemic_failure_def
      pause_and_halt_def pause_recording_def stamp_pid_def intro!: log_intros split: option.split)

lemma log_quota: "own store_grows (record_quota_fast_fail de slug token p log_path)"
  unfolding record_quota_fast_fail_def release_recording_def
  by (auto intro!: own_ccatch log_intros split: option.split prod.split if_splits)

lemma log_context: "own store_grows (maybe_write_attempt_context de slug p wt)"
  unfolding maybe_write_attempt_context_def prev_attempt_context_def run_git_safe_def Let_def
  by (auto intro!: own_ccatch log_intros split: option.split if_split if_splits)

lemma log_launch: "own store_grows (launch de slug token p worktree)"
proof -
  have "own store_grows (fast_fail de slug token p log_path rc)" for log_path rc
    unfolding fast_fail_def
    by (auto intro!: log_intros log_quota log_release log_systemic split: option.split)
  then have "own store_grows (start_worker de slug token p in_wt cwd cmd log_path sid)" for in_wt cwd cmd log_path sid
    unfolding start_worker_def
    by (auto intro!: log_intros log_release log_missing log_stamp split: spawn_outcome.split if_split)
  then show ?thesis
    unfolding launch_def Let_def worktree_alive_def
    by (auto intro!: log_intros log_context log_missing split: option.split if_split)
qed

lemma log_dispatch: "own store_grows (dispatch_for_tick de slug r)"
  unfolding dispatch_for_tick_def Let_def
  by (auto intro!: log_intros log_release log_launch split: jval.split)

lemma log_tick_one: "own store_grows (tick_one_plan xe dispatch slug)"
  unfolding tick_one_plan_def Let_def
  by (auto intro!: own_cbind own_tick_cmd own_emit_each log_dispatch own_cret)

section \<open>The queue\<close>

lemma queue_tables_grow:
  assumes "t_plans db' = t_plans db" "t_claims db' = t_claims db" "t_blockers db' = t_blockers db" "t_tasks db' = t_tasks db"
    "t_events db' = t_events db" "t_archive db' = t_archive db" "t_seq db' = t_seq db"
  shows "store_grows db db'"
proof -
  have h: "history db' s = history db s" "plan_events db' s = plan_events db s" for s
    by (simp_all add: history_def plan_events_def assms)
  have "db_ok db' = db_ok db" using h(1) by (simp add: db_ok_def plans_ok_def claims_ok_def events_ok_def assms)
  then show ?thesis by (simp add: store_grows_def history_grows_def h assms)
qed

lemma pop_grows: "store_grows db (snd (pop_head_in_txn now slug outcome extra db))"
proof -
  have "store_grows db (to_history now slug e outcome (delete_row i db))" for e i
    by (rule queue_tables_grow) (simp_all add: to_history_def delete_row_def)
  then show ?thesis by (simp add: pop_head_in_txn_def grows_refl split: list.split)
qed

lemma pop_if_obeys: "log_obeys (pop_head_if now slug outcome extra)"
  unfolding command_log.obeys_def pop_head_if_def write_txn_def
  using pop_grows by (auto simp: grows_refl split: prod.split sum.split) (metis snd_conv)

lemma fresh_plan_ok: "doc_ok (fresh_plan xe head slug)" "d_slug (fresh_plan xe head slug) = slug"
  "d_claim (fresh_plan xe head slug) = None" "d_blockers (fresh_plan xe head slug) = []" "d_tasks (fresh_plan xe head slug) = []"
  by (simp_all add: fresh_plan_def Let_def doc_ok_def append_event_def empty_state_def)

lemma create_bare:
  assumes "doc_ok d" "d_blockers d = []" "d_tasks d = []" "create_in_txn d db = (r, db')"
  shows "db' = db \<or> (r = Inr () \<and> store_grows db db')"
proof (cases r)
  case (Inl e)
  have "insert_plan d db = (Inl IntegrityErr, db) \<or> (\<exists>db'. insert_plan d db = (Inr (), db'))"
    by (simp add: insert_plan_def Let_def assms(2,3))
  then show ?thesis using assms(4) Inl unfolding create_in_txn_def by (cases "validate_slug (d_slug d)") auto
next
  case (Inr u)
  then have "insert_plan d db = (Inr (), db')" "slug_re_match (d_slug d)" using assms(4) create_in_txn_Inr by auto
  then have "db_ok db \<Longrightarrow> grows_ok (d_slug d) db db'" using insert_plan_grows[OF _ assms(1)] by blast
  then show ?thesis using Inr by (auto simp: store_grows_def grows_ok_def)
qed

lemma pop_create_obeys: "log_obeys (pop_and_create now slug (fresh_plan xe head slug))"
  unfolding command_log.obeys_def
proof
  fix db
  let ?f = "fresh_plan xe head slug"
  obtain r db1 where p: "pop_head_in_txn now slug OUTCOME_POPPED [] db = (r, db1)" by fastforce
  have 1: "store_grows db db1" using pop_grows[of db now slug OUTCOME_POPPED "[]"] p by simp
  obtain q db2 where c: "create_in_txn ?f db1 = (q, db2)" by fastforce
  have "store_grows db1 db2"
    using create_bare[OF fresh_plan_ok(1) fresh_plan_ok(4) fresh_plan_ok(5) c] grows_refl by auto
  from grows_trans[OF 1 this] have 2: "store_grows db db2" .
  show "store_grows db (snd (pop_and_create now slug ?f db))"
  proof (cases r)
    case (Inr b)
    show ?thesis
    proof (cases b)
      case True
      then show ?thesis using p Inr c 1 2 grows_refl[of db]
        by (cases q) (auto simp: pop_and_create_def write_txn_def split: pyerr.split)
    qed (use p Inr 1 in \<open>simp add: pop_and_create_def write_txn_def\<close>)
  qed (use p grows_refl in \<open>simp add: pop_and_create_def write_txn_def\<close>)
qed

section \<open>The rules, on the project's database\<close>

lemma log_locked: "log_obeys t \<Longrightarrow> own store_grows (transact (locked b t))"
  by (intro command_log.f_transact command_log.obeys_locked)

lemma log_gives: "own P m \<Longrightarrow> own P (gives m skips)"
  unfolding gives_def by (rule own_ccatch) (auto intro!: own_cbind own_cret split: if_splits)

lemma log_try_load: "own store_grows (try_load slug)"
  unfolding try_load_def by (auto intro!: log_intros log_gives)

lemma log_load: "own store_grows (load_plans ss)"
proof (induction ss)
  case (Cons s ss)
  then show ?case unfolding load_plans.simps by (intro own_cbind log_try_load own_cret)
qed (simp only: load_plans.simps own_cret)

lemma log_skip: "own store_grows (skip_head xe slug outcome ns)"
  unfolding skip_head_def by (intro own_cbind own_cret log_locked pop_if_obeys)

lemma log_checked: "own P (run_checked env argv)"
  unfolding run_checked_def by (intro own_cbind own_git) (auto intro: own_cret own_craise)

lemma log_merge: "own P (merge_branches env dir bs)"
proof (induction bs)
  case (Cons b bs)
  then show ?case unfolding merge_branches.simps by (auto intro!: own_cbind own_git own_cret)
qed (simp only: merge_branches.simps own_cret)

lemma own_finally: "own P m \<Longrightarrow> own P fin \<Longrightarrow> own P (finally_do m fin)"
proof (rule ownI)
  fix w assume m: "own P m" "own P fin"
  obtain r w1 q w2 where r: "m w = (r, w1)" "fin w1 = (q, w2)" by fastforce
  show "ran P w (snd (finally_do m fin w))"
    using ran_trans[OF ownD[OF m(1) r(1)] ownD[OF m(2) r(2)]] by (simp add: finally_do_def r)
qed

lemma log_attempt: "own P (attempt_merge xe base bs tc)"
proof -
  have "own P (run_tests xe b s tc)" for b s
    unfolding run_tests_def by (cases tc) (auto intro!: own_cbind own_emit own_cret simp del: emit_run)
  then show ?thesis
    unfolding attempt_merge_def Let_def teardown_def
    by (intro own_cbind own_finally log_checked log_merge own_git own_cret) (auto intro: own_cret split: option.split)
qed

lemma log_pairs: "own P (live_pairs xe grp)"
proof (induction xe grp rule: live_pairs.induct)
  case (2 xe s d rest)
  then show ?case unfolding live_pairs.simps git_rev_parse_def
    by (intro own_cbind own_clift log_gives log_checked own_cret) auto
qed (simp only: live_pairs.simps own_cret)

lemma log_gate: "own P (gate_batch xe bid grp)"
proof -
  have "own P (write_followup_plan_pair xe b res sib)" for b res sib
    unfolding write_followup_plan_pair_def Let_def by (intro own_cbind own_emit own_cret)
  then show ?thesis
    unfolding gate_batch_def Let_def
    by (auto intro!: own_cbind log_pairs own_cret log_attempt simp del: emit_run cret_run)
qed

lemma log_first_some: "(\<And>x. own P (f x)) \<Longrightarrow> own P (first_some f xs)"
proof (induction xs)
  case (Cons x xs)
  then show ?case unfolding first_some.simps by (intro own_cbind) (auto intro: own_cret split: option.split)
qed (simp only: first_some.simps own_cret)

lemma log_merged: "own P (is_branch_merged_into env b)"
  unfolding is_branch_merged_into_def Let_def by (intro own_cbind own_emit own_cret)

lemma log_announceable: "own P (announceable xe plans)"
proof (induction xe plans rule: announceable.induct)
  case (2 xe s d rest)
  have "own P (to_announce xe d)"
    unfolding to_announce_def
    by (rule own_mode_if[OF own_cret]) (intro own_cbind own_clift log_merged own_mode_if own_cret own_git)
  with 2 show ?case unfolding announceable.simps by (intro own_cbind own_cret)
qed (simp only: announceable.simps own_cret)

lemma log_persist: "own store_grows (persist_worktree_cleanup d n flds)"
  unfolding persist_worktree_cleanup_def Let_def
  by (intro own_mode_if own_cret command_log.f_transact command_log.obeys_ops)

lemma log_archive_op: "own store_grows (transact (op_archive_events now slug))"
  using command_log.R_op[of "OpArchive now slug" slug] by (intro own_transact) simp

lemma log_archive: "own store_grows (archive_in_world xe slug unreg)"
proof -
  have "own store_grows (move_plan_files xe slug)"
    unfolding move_plan_files_def
    by (intro own_mode_if own_cret own_ccatch own_cbind log_checked) (auto intro: own_cret split: if_splits)
  then show ?thesis
    unfolding archive_in_world_def
    by (intro own_cbind command_log.f_read_plan own_maybe log_persist log_archive_op own_clift own_mode_if log_checked own_cret)
qed

lemma log_apply: "own store_grows (apply_to xe r ss)"
proof (induction ss)
  case (Cons s ss)
  then show ?case unfolding apply_to.simps by (intro own_cbind log_locked command_log.obeys_ops)
qed (simp only: apply_to.simps own_cret)

section \<open>Walks\<close>

text \<open>A walk whose transactions keep the store and that keeps the host's tables sound.\<close>

definition sound_walk :: "'a walk \<Rightarrow> bool" where
  "sound_walk m \<longleftrightarrow> (\<forall>p r p'. m p = (r, p') \<longrightarrow>
     ran store_grows (pj_world p) (pj_world p') \<and> (host_ok (pj_host p) \<longrightarrow> host_ok (pj_host p')))"

lemma walk_world: "own store_grows m \<Longrightarrow> sound_walk (on_world m)"
  by (auto simp: sound_walk_def on_world_def dest: ownD split: prod.splits)

lemma walk_host: "(\<And>h. host_ok h \<Longrightarrow> host_ok (snd (f h))) \<Longrightarrow> sound_walk (on_host f)"
  by (auto simp: sound_walk_def on_host_def ran_refl split: prod.splits) (metis snd_conv)

lemma walk_basic: "sound_walk (cret x)" "sound_walk (craise e)" "sound_walk (clift v)"
  by (simp_all add: sound_walk_def ran_refl cret_def craise_def clift_def)

lemma walk_cbind:
  assumes "sound_walk m" "\<And>x. sound_walk (f x)"
  shows "sound_walk (cbind m f)"
  unfolding sound_walk_def
proof (intro allI impI)
  fix p r p' assume r: "cbind m f p = (r, p')"
  obtain q p1 where m: "m p = (q, p1)" by fastforce
  have 1: "ran store_grows (pj_world p) (pj_world p1)" "host_ok (pj_host p) \<longrightarrow> host_ok (pj_host p1)"
    using assms(1) m by (auto simp: sound_walk_def)
  show "ran store_grows (pj_world p) (pj_world p') \<and> (host_ok (pj_host p) \<longrightarrow> host_ok (pj_host p'))"
  proof (cases q)
    case (Inr x)
    then have "f x p1 = (r, p')" using r m by (simp add: cbind_def)
    then show ?thesis using assms(2)[of x] 1 ran_trans unfolding sound_walk_def by blast
  qed (use r m 1 in \<open>simp add: cbind_def\<close>)
qed

lemma walk_ccatch:
  assumes "sound_walk m" "\<And>e k. h e = Some k \<Longrightarrow> sound_walk k"
  shows "sound_walk (ccatch m h)"
  unfolding sound_walk_def
proof (intro allI impI)
  fix p r p' assume r: "ccatch m h p = (r, p')"
  obtain q p1 where m: "m p = (q, p1)" by fastforce
  have 1: "ran store_grows (pj_world p) (pj_world p1)" "host_ok (pj_host p) \<longrightarrow> host_ok (pj_host p1)"
    using assms(1) m by (auto simp: sound_walk_def)
  show "ran store_grows (pj_world p) (pj_world p') \<and> (host_ok (pj_host p) \<longrightarrow> host_ok (pj_host p'))"
  proof (cases "\<exists>e k. q = Inl e \<and> h e = Some k")
    case True
    then obtain e k where k: "q = Inl e" "h e = Some k" by blast
    then have "k p1 = (r, p')" using r m by (simp add: ccatch_def)
    then show ?thesis using assms(2)[OF k(2)] 1 ran_trans unfolding sound_walk_def by blast
  next
    case False
    then have "p' = p1" using r m by (auto simp: ccatch_def split: sum.splits option.splits)
    then show ?thesis using 1 by simp
  qed
qed

lemma walk_host_ops:
  "sound_walk (on_host (register resolve is_dir now dir slug))"
  "sound_walk (on_host (\<lambda>h. case unregister resolve dir slug h of (b, h') \<Rightarrow> (Inr b, h')))"
  by (rule walk_host, simp add: host_ok_register)
    (rule walk_host, simp add: unregister_def Let_def host_ok_prune)

lemmas walk_intros = walk_basic walk_world walk_host_ops walk_cbind

lemma walk_archive: "sound_walk (perform_archive xe slug unreg)"
  unfolding perform_archive_def by (auto intro!: walk_intros log_archive simp del: cret_run)

lemma walk_queue: "sound_walk (queue_advancement_rule xe plans)"
proof -
  have "sound_walk (pop_head xe head slug)" for head slug
    unfolding pop_head_def
    by (auto intro!: walk_intros log_locked pop_create_obeys log_tick_one simp del: cret_run)
  then show ?thesis
    unfolding queue_advancement_rule_def Let_def
    by (auto intro!: walk_intros log_skip log_try_load own_pure simp del: cret_run split: list.split)
qed

lemma walk_archive_first: "sound_walk (archive_first xe plans)"
proof (induction xe plans rule: archive_first.induct)
  case (2 xe s d rest)
  have "sound_walk (ccatch (cbind (perform_archive xe s True) (\<lambda>_. cret True)) (\<lambda>e. Some (cret False)))"
    by (rule walk_ccatch) (auto intro: walk_intros walk_archive simp del: cret_run)
  with 2 show ?case unfolding archive_first.simps
    by (auto intro!: walk_intros log_merged own_clift simp del: cret_run)
qed (simp only: archive_first.simps walk_basic)

lemma rules_sound: "rule \<in> set RULES \<Longrightarrow> sound_walk (rule xe plans)"
proof -
  have "sound_walk (first_rule xe plans)" if "first_rule \<in> {worktree_conflict_rule, dry_merge_gate_rule, ready_to_ship_rule, auto_archive_rule}" for first_rule
    using that
    by (auto simp: worktree_conflict_rule_def dry_merge_gate_rule_def ready_to_ship_rule_def auto_archive_rule_def
        intro!: walk_intros log_first_some log_gate log_announceable walk_archive_first simp del: cret_run)
  then show "rule \<in> set RULES \<Longrightarrow> sound_walk (rule xe plans)" using walk_queue by (auto simp: RULES_def)
qed

lemma walk_run_rules: "(\<And>rule. rule \<in> set rules \<Longrightarrow> sound_walk (rule xe plans)) \<Longrightarrow> sound_walk (run_rules rules xe plans)"
proof (induction rules)
  case (Cons rule rules)
  then show ?case unfolding run_rules.simps apply_result_def
    by (auto intro!: walk_cbind walk_world log_apply walk_basic split: option.split simp del: cret_run)
qed (simp only: run_rules.simps walk_basic)

lemma walk_swallow: "sound_walk m \<Longrightarrow> sound_walk (swallow m)"
  unfolding swallow_def by (rule walk_ccatch) (auto intro: walk_basic simp del: cret_run)

lemma walk_post: "sound_walk (post_loop xe)"
proof -
  have "sound_walk (load_plans_for_project xe)"
    unfolding load_plans_for_project_def sound_walk_def
    using walk_world[OF log_load] unfolding sound_walk_def by blast
  then show ?thesis
    unfolding post_loop_def
    by (intro walk_cbind walk_world own_emit_each walk_run_rules rules_sound)
qed

lemma walk_each: "sound_walk (tick_each xe dispatch ss)"
proof (induction ss)
  case (Cons s ss)
  then show ?case unfolding tick_each.simps
    by (intro walk_cbind walk_swallow walk_world own_cbind log_tick_one own_cret)
qed (simp only: tick_each.simps walk_basic)

lemma walk_cmd_tick: "sound_walk (cmd_tick xe plan dry)"
proof (cases plan)
  case None
  have "sound_walk (cbind (tick_each xe (\<not> dry) ss) (\<lambda>_. cbind (swallow (post_loop xe)) (\<lambda>_. cret OK)))" for ss
    by (intro walk_cbind walk_each walk_swallow walk_post walk_basic)
  then show ?thesis using None unfolding cmd_tick_def sound_walk_def by (simp only: option.case) blast
next
  case (Some s)
  have "sound_walk (cbind (on_world (tick_one_plan xe (\<not> dry) s)) (\<lambda>_. cret OK))"
    by (intro walk_cbind walk_world log_tick_one walk_basic)
  then show ?thesis using Some unfolding cmd_tick_def by (simp only: option.case) (auto intro: walk_basic simp del: cret_run)
qed

text \<open>
  A tick of a project, with everything it sets off (the ticks of its plans, the dispatches, the queue
  pop that creates a plan and registers it, the merge gate, the announcements, the archive),
  keeps the store invariant and only adds to the end of every plan's history, whatever other
  processes write in between as long as they do so too; and it keeps the integrity of the
  host's tables.
\<close>

theorem project_tick_keeps_store:
  assumes "db_ok (w_db (pj_world p))" "host_ok (pj_host p)"
    and "\<forall>f\<in>set (w_script (pj_world p)). \<forall>db. store_grows db (f db)"
    and "cmd_tick xe plan dry p = (r, p')"
  shows "db_ok (w_db (pj_world p')) \<and> host_ok (pj_host p')
    \<and> prefix (history (w_db (pj_world p)) s) (history (w_db (pj_world p')) s)"
proof -
  have r: "ran store_grows (pj_world p) (pj_world p')" "host_ok (pj_host p')"
    using walk_cmd_tick assms(2,4) unfolding sound_walk_def by blast+
  have "store_grows\<^sup>*\<^sup>* db db' \<Longrightarrow> store_grows db db'" for db db'
    by (induction rule: rtranclp_induct) (auto intro: grows_refl grows_trans)
  then have "store_grows (w_db (pj_world p)) (w_db (pj_world p'))"
    using r(1) assms(3) unfolding ran_def fair_def by blast
  then show ?thesis using assms(1) r(2) by (auto simp: store_grows_def history_grows_def prefix_def)
qed

end
