(* ===== verification/Cross_Props.thy ===== *)
theory Cross_Props
  imports Cross_Frame Queue_Props
begin

text \<open>
  What the cross-plan rules promise: the pop of the queue loses nothing, the conflict sets
  settle in one step and every pair is warned about once, the dry merge stays in its scratch
  worktree and cleans it up, only one rule of the chain acts, and a registry row goes only after
  an archive has succeeded.
\<close>

section \<open>The pop\<close>

lemma moved_other_tables:
  "t_plans (to_history now s e oc (delete_row i db)) = t_plans db" "t_claims (to_history now s e oc (delete_row i db)) = t_claims db"
  "t_blockers (to_history now s e oc (delete_row i db)) = t_blockers db" "t_tasks (to_history now s e oc (delete_row i db)) = t_tasks db"
  "t_events (to_history now s e oc (delete_row i db)) = t_events db" "t_archive (to_history now s e oc (delete_row i db)) = t_archive db"
  "t_seq (to_history now s e oc (delete_row i db)) = t_seq db"
  by (simp_all add: to_history_def delete_row_def)

lemma no_plan_no_rows:
  assumes "db_ok db" "\<not> has_plan db s"
  shows "holder db s = None" "read_events db s = []"
proof -
  have "s \<notin> set (map fst (t_claims db))" using assms by (auto simp: db_ok_def claims_ok_def map_of_eq_None_iff)
  then show "holder db s = None" by (simp add: holder_def claim_row_of_def map_of_eq_None_iff)
  show "read_events db s = []" using assms
    by (auto simp: read_events_def plan_events_def filter_empty_conv db_ok_def events_ok_def map_of_eq_None_iff)
qed

lemma create_fresh:
  assumes "db_ok db" "slug_re_match s" "\<not> has_plan db s"
  shows "\<exists>db'. create_in_txn (fresh_plan xe e s) db = (Inr (), db') \<and> status_of db' s = Some (JStr STATUS_RUNNING)
    \<and> holder db' s = None \<and> (\<exists>x. read_events db' s = [x] \<and> ev_is EVENT_QUEUE_POPPED x)
    \<and> t_queue db' = t_queue db \<and> t_history db' = t_history db \<and> t_qseq db' = t_qseq db"
proof -
  let ?f = "fresh_plan xe e s"
  let ?db = "delete_claim s (db\<lparr>t_plans := t_plans db @ [(s, head_row ?f)]\<rparr>)"
  obtain ev where ev: "d_events ?f = [ev]" "dget ev ''type'' = Some (JStr EVENT_QUEUE_POPPED)" "proper_event ev"
    by (auto simp: fresh_plan_def Let_def append_event_def empty_state_def mk_event_def proper_event_def iso_def)
  have ins: "create_in_txn ?f db = (Inr (), insert_event s ?db ev)"
    using assms by (simp add: create_in_txn_def validate_slug_def guard_res_def insert_plan_def Let_def fresh_plan_ok ev(1)
        write_claim_def delete_claim_def insert_events_def)
  obtain x where x: "read_events (insert_event s ?db ev) s = read_events ?db s @ [x]" "reads_as ev x"
    using inserted_event_reads[OF ev(3)] by blast
  have "read_events ?db s = []" using no_plan_no_rows(2)[OF assms(1,3)] by (simp add: read_events_def plan_events_def delete_claim_def)
  moreover have "ev_is EVENT_QUEUE_POPPED x" using reads_as_is[OF x(2), of "''type''"] ev(2) by simp
  moreover have "status_of (insert_event s ?db ev) s = Some (JStr STATUS_RUNNING)"
    using assms(3) by (auto simp: status_of_def insert_event_def delete_claim_def map_add_def head_row_def fresh_plan_def Let_def
        append_event_def empty_state_def)
  moreover have "holder (insert_event s ?db ev) s = None"
    by (simp add: holder_def claim_row_of_def insert_event_def delete_claim_def)
  ultimately show ?thesis using ins x(1) by (auto simp: insert_event_def delete_claim_def)
qed

text \<open>What stands under \<open>k\<close> after its pop: the plan that was there, or a fresh running one.\<close>

definition came_alive :: "string \<Rightarrow> pdb \<Rightarrow> pdb \<Rightarrow> bool" where
  "came_alive k db db' \<longleftrightarrow>
     (if has_plan db k then same_plan k db db'
      else status_of db' k = Some (JStr STATUS_RUNNING) \<and> holder db' k = None
        \<and> (\<exists>x. read_events db' k = [x] \<and> ev_is EVENT_QUEUE_POPPED x))"

lemma pop_in_txn:
  assumes "queue_ok db"
  shows "case pop_head_in_txn now k oc [] db of (r, db') \<Rightarrow>
      if pending db \<noteq> [] \<and> k = entry_slug (hd (pending db))
      then r = Inr True \<and> queue_ok db' \<and> pending db' = tl (pending db) \<and> departed db' = departed db @ [hd (pending db)]
        \<and> (\<exists>e i. db' = to_history now k e oc (delete_row i db))
      else r = Inr False \<and> db' = db"
proof (cases "t_queue db")
  case Nil
  then show ?thesis by (simp add: pop_head_in_txn_def pending_def)
next
  case (Cons r rs)
  have wf: "row_wf r" using assms Cons by (simp add: queue_ok_def)
  have s: "entry_slug (hd (pending db)) = qr_slug r" "pending db \<noteq> []" using wf Cons by (simp_all add: pending_def row_to_entry_get)
  show ?thesis
  proof (cases "k = qr_slug r")
    case True
    from pop_takes[OF assms, of "hd (pending db)" "tl (pending db)" now oc] s Cons True show ?thesis
      by (auto simp: pop_head_if_def write_txn_def pop_head_in_txn_def)
  qed (use Cons s in \<open>simp add: pop_head_in_txn_def\<close>)
qed


section \<open>Conflict sets\<close>

lemma set_str_insort: "set (str_insort x ys) = insert x (set ys)"
  by (induction ys) auto

lemma set_str_sorted: "set (str_sorted xs) = set xs"
proof -
  have "set (fold str_insort xs ys) = set xs \<union> set ys" for ys
    by (induction xs arbitrary: ys) (auto simp: set_str_insort)
  then show ?thesis by (simp add: str_sorted_def)
qed

lemma set_targets: "set (targets plans s) = target_set plans s"
  by (auto simp: targets_def target_set_def set_str_sorted)

lemma str_less_linear: "str_less a b \<or> a = b \<or> str_less b a"
  by (induction a b rule: str_less.induct) auto

lemma str_less_asym: "str_less a b \<Longrightarrow> \<not> str_less b a \<and> a \<noteq> b"
  by (induction a b rule: str_less.induct) auto

text \<open>What the rule leaves in the documents.\<close>

definition with_conflicts :: "xp_env \<Rightarrow> (string \<times> doc) list \<Rightarrow> (string \<times> doc) list" where
  "with_conflicts xe plans =
     (case worktree_conflict_result xe plans of
        None \<Rightarrow> plans
      | Some r \<Rightarrow> map (\<lambda>(s, d). (s, d\<lparr>d_extra := dupd (d_extra d) (fields_for r s)\<rparr>)) plans)"

definition conflict_notices :: "xp_env \<Rightarrow> (string \<times> doc) list \<Rightarrow> notice list" where
  "conflict_notices xe plans = (case worktree_conflict_result xe plans of None \<Rightarrow> [] | Some r \<Rightarrow> rr_notifies r)"

lemma distinct_str_sorted: "distinct xs \<Longrightarrow> distinct (str_sorted xs)"
proof -
  have ins: "distinct (str_insort x ys)" if "x \<notin> set ys" "distinct ys" for x ys
    using that by (induction ys) (auto simp: set_str_insort)
  have "distinct xs \<Longrightarrow> distinct ys \<Longrightarrow> set xs \<inter> set ys = {} \<Longrightarrow> distinct (fold str_insort xs ys)" for ys
  proof (induction xs arbitrary: ys)
    case (Cons a xs)
    then have "distinct (str_insort a ys)" "set xs \<inter> set (str_insort a ys) = {}" by (auto simp: set_str_insort intro: ins)
    with Cons show ?case by simp
  qed simp
  then show "distinct xs \<Longrightarrow> distinct (str_sorted xs)" by (simp add: str_sorted_def)
qed

lemma distinct_conflicting: "distinct (map fst plans) \<Longrightarrow> distinct (conflicting plans)"
  by (simp add: conflicting_def distinct_map_filter)

lemma distinct_targets: "distinct (map fst plans) \<Longrightarrow> distinct (targets plans s)"
  by (simp add: targets_def distinct_str_sorted distinct_conflicting)

lemma change_of:
  "(s, ts, ws) \<in> set (conflict_changes plans) \<longleftrightarrow> (\<exists>d. (s, d) \<in> set plans \<and> set (targets plans s) \<noteq> set (in_conflict_with d)
     \<and> ts = targets plans s \<and> ws = filter (\<lambda>x. x \<notin> set (in_conflict_with d) \<and> str_less s x) (targets plans s))"
  by (auto simp: conflict_changes_def)

lemma changed_slugs: "map fst (conflict_changes plans) = map fst (filter (\<lambda>(s, d). set (targets plans s) \<noteq> set (in_conflict_with d)) plans)"
  by (simp add: conflict_changes_def case_prod_beta comp_def)

lemma changed_field:
  assumes "distinct (map fst plans)" "(s, d) \<in> set plans"
  shows "map_of (map (\<lambda>(s, ts, ws). (s, [(''in_conflict_with'', JList (map JStr ts))])) (conflict_changes plans)) s
    = (if set (targets plans s) \<noteq> set (in_conflict_with d) then Some [(''in_conflict_with'', JList (map JStr (targets plans s)))] else None)"
proof -
  let ?m = "map (\<lambda>(s, ts, ws). (s, [(''in_conflict_with'', JList (map JStr ts))])) (conflict_changes plans)"
  have k: "map fst ?m = map fst (conflict_changes plans)" by (simp add: case_prod_beta comp_def)
  have dm: "distinct (map fst ?m)" unfolding k changed_slugs using assms(1) by (simp add: distinct_map_filter)
  have d: "d' = d" if "(s, d') \<in> set plans" for d' using eq_key_imp_eq_value[OF assms(1)] assms(2) that by metis
  show ?thesis
  proof (cases "set (targets plans s) \<noteq> set (in_conflict_with d)")
    case True
    then have "(s, targets plans s, filter (\<lambda>x. x \<notin> set (in_conflict_with d) \<and> str_less s x) (targets plans s)) \<in> set (conflict_changes plans)"
      using assms(2) change_of by blast
    then have "(s, [(''in_conflict_with'', JList (map JStr (targets plans s)))]) \<in> set ?m" by force
    with dm True show ?thesis by simp
  next
    case False
    then have "s \<notin> set (map fst (conflict_changes plans))" using d unfolding changed_slugs by auto
    then have "s \<notin> set (map fst ?m)" using k by simp
    then have "map_of ?m s = None" by (simp only: map_of_eq_None_iff set_map not_False_eq_True)
    with False show ?thesis by simp
  qed
qed

lemma with_conflicts_doc:
  assumes "distinct (map fst plans)" "(s, d') \<in> set (with_conflicts xe plans)"
  shows "set (in_conflict_with d') = target_set plans s"
    "\<exists>d. (s, d) \<in> set plans \<and> has_worktree d' = has_worktree d \<and> is_plan_active d' = is_plan_active d"
proof -
  show "\<exists>d. (s, d) \<in> set plans \<and> has_worktree d' = has_worktree d \<and> is_plan_active d' = is_plan_active d"
    using assms(2) by (auto simp: with_conflicts_def has_worktree_def get_worktree_def is_plan_active_def has_claim_def split: option.splits)
  show "set (in_conflict_with d') = target_set plans s"
  proof (cases "conflict_changes plans = []")
    case True
    then have "(s, d') \<in> set plans" using assms(2) by (simp add: with_conflicts_def worktree_conflict_result_def)
    moreover from this have "set (targets plans s) = set (in_conflict_with d')"
      using True by (auto simp: conflict_changes_def filter_empty_conv)
    ultimately show ?thesis by (simp add: set_targets)
  next
    case False
    then obtain d where d: "(s, d) \<in> set plans" and d': "d' = d\<lparr>d_extra := dupd (d_extra d)
        (case map_of (map (\<lambda>(s, ts, ws). (s, [(''in_conflict_with'', JList (map JStr ts))])) (conflict_changes plans)) s of None \<Rightarrow> [] | Some o' \<Rightarrow> o')\<rparr>"
      using assms(2) by (auto simp: with_conflicts_def worktree_conflict_result_def fields_for_def Let_def)
    have j: "jtext ` JStr ` A = A" for A by (simp add: image_image jtext_def)
    show ?thesis
      unfolding d' changed_field[OF assms(1) d] set_targets[symmetric]
      by (simp add: in_conflict_with_def map_of_dupd j image_image[symmetric] del: image_image)
  qed
qed

lemma with_conflicts_slugs: "map fst (with_conflicts xe plans) = map fst plans"
  by (simp add: with_conflicts_def case_prod_beta comp_def split: option.split)

lemma conflicting_kept: "conflicting (with_conflicts xe plans) = conflicting plans"
proof -
  have "conflicting (map (\<lambda>(s, d). (s, d\<lparr>d_extra := f s d\<rparr>)) plans) = conflicting plans" for f
    by (induction plans) (auto simp: conflicting_def has_worktree_def get_worktree_def is_plan_active_def has_claim_def)
  then show ?thesis by (simp add: with_conflicts_def split: option.split)
qed

lemma notices_are: "conflict_notices xe plans = concat (map (\<lambda>(s, ts, ws). map (WorktreeConflictNote s) ws) (conflict_changes plans))"
  by (simp add: conflict_notices_def worktree_conflict_result_def Let_def)

lemma distinct_notices:
  "distinct (map fst cs) \<Longrightarrow> \<forall>(s, ts, ws)\<in>set cs. distinct ws \<Longrightarrow>
     distinct (concat (map (\<lambda>(s, ts, ws). map (WorktreeConflictNote s) ws) cs))"
  by (induction cs) (force simp: distinct_map inj_on_def)+

text \<open>
  C25 Conflicts settle, and each pair is reported once. Two plans that are active in the same checkout (neither has a worktree)
  are in each other's conflict set once the rule has run, and no others; running it again on
  the result changes nothing. A tick warns exactly about the conflicting pairs the smaller
  name had not listed yet, each in one order only and once.
\<close>

theorem conflicts_settle:
  assumes "distinct (map fst plans)"
  shows "(\<forall>p\<in>set (with_conflicts xe plans). set (in_conflict_with (snd p)) =
        (if fst p \<in> set (conflicting plans) then set (conflicting plans) - {fst p} else {}))
    \<and> worktree_conflict_result xe (with_conflicts xe plans) = None
    \<and> distinct (conflict_notices xe plans)
    \<and> set (conflict_notices xe plans) = {WorktreeConflictNote s t | s t d. (s, d) \<in> set plans \<and> s \<in> set (conflicting plans)
        \<and> t \<in> set (conflicting plans) \<and> str_less s t \<and> t \<notin> set (in_conflict_with d)}"
proof (intro conjI)
  show "\<forall>p\<in>set (with_conflicts xe plans). set (in_conflict_with (snd p)) =
      (if fst p \<in> set (conflicting plans) then set (conflicting plans) - {fst p} else {})"
    using with_conflicts_doc(1)[OF assms] by (auto simp: target_set_def split: if_splits)
  have "set (targets (with_conflicts xe plans) s) = set (in_conflict_with d)" if "(s, d) \<in> set (with_conflicts xe plans)" for s d
    using with_conflicts_doc(1)[OF assms that] unfolding set_targets by (simp add: target_set_def conflicting_kept)
  then have "conflict_changes (with_conflicts xe plans) = []" by (auto simp: conflict_changes_def filter_empty_conv)
  then show "worktree_conflict_result xe (with_conflicts xe plans) = None" by (simp add: worktree_conflict_result_def)
  show "distinct (conflict_notices xe plans)" unfolding notices_are
  proof (rule distinct_notices)
    show "distinct (map fst (conflict_changes plans))" unfolding changed_slugs using assms by (simp add: distinct_map_filter)
    show "\<forall>(s, ts, ws)\<in>set (conflict_changes plans). distinct ws" using assms change_of by (auto simp: distinct_targets)
  qed
  have "(WorktreeConflictNote s t \<in> set (conflict_notices xe plans)) \<longleftrightarrow> (\<exists>d. (s, d) \<in> set plans \<and> t \<in> target_set plans s
      \<and> t \<notin> set (in_conflict_with d) \<and> str_less s t)" for s t
  proof -
    have "WorktreeConflictNote s t \<in> set (conflict_notices xe plans) \<longleftrightarrow> (\<exists>ts ws. (s, ts, ws) \<in> set (conflict_changes plans) \<and> t \<in> set ws)"
      unfolding notices_are by force
    also have "\<dots> \<longleftrightarrow> (\<exists>d. (s, d) \<in> set plans \<and> set (targets plans s) \<noteq> set (in_conflict_with d)
        \<and> t \<in> set (filter (\<lambda>x. x \<notin> set (in_conflict_with d) \<and> str_less s x) (targets plans s)))"
      unfolding change_of by blast
    finally show ?thesis unfolding set_targets[symmetric] by auto
  qed
  note pair = this
  have n: "\<exists>s t. n = WorktreeConflictNote s t" if "n \<in> set (conflict_notices xe plans)" for n
    using that unfolding notices_are by auto
  have t: "t \<in> target_set plans s \<and> t \<notin> X \<and> str_less s t \<longleftrightarrow> s \<in> set (conflicting plans) \<and> t \<in> set (conflicting plans) \<and> str_less s t \<and> t \<notin> X"
    for s t X using str_less_asym[of s t] unfolding target_set_def by auto
  show "set (conflict_notices xe plans) = {WorktreeConflictNote s t | s t d. (s, d) \<in> set plans \<and> s \<in> set (conflicting plans)
        \<and> t \<in> set (conflicting plans) \<and> str_less s t \<and> t \<notin> set (in_conflict_with d)}" (is "?A = ?B")
  proof (rule set_eqI)
    fix m
    have "m \<in> ?A \<longleftrightarrow> (\<exists>s t. m = WorktreeConflictNote s t \<and> WorktreeConflictNote s t \<in> ?A)" using n by blast
    also have "\<dots> \<longleftrightarrow> m \<in> ?B" unfolding pair t by blast
    finally show "m \<in> ?A \<longleftrightarrow> m \<in> ?B" .
  qed
qed

end
