(* ===== verification/Cross_Ends.thy ===== *)
theory Cross_Ends
  imports Cross_Frame Cmd_Operator
begin

text \<open>
  The ends of the cross-plan chain: the trial merge stays in its scratch worktree, a tick of
  the chain is a tick of the supervisor, at most one rule writes, and what an archive leaves when
  it succeeds and when a git step fails.
\<close>

section \<open>Parts that only have effects\<close>

definition adds :: "(effect \<Rightarrow> bool) \<Rightarrow> 'a cmd \<Rightarrow> bool" where
  "adds P m \<longleftrightarrow> (\<forall>w r w'. m w = (r, w') \<longrightarrow>
     (\<exists>new. w_fx w' = w_fx w @ new \<and> list_all P new) \<and> w_db w' = w_db w \<and> w_script w' = w_script w \<and> w_trace w' = w_trace w)"

lemma addsD:
  assumes "adds P m" "m w = (r, w')"
  obtains new where "w_fx w' = w_fx w @ new" "list_all P new" "w_db w' = w_db w" "w_script w' = w_script w" "w_trace w' = w_trace w"
  using assms unfolding adds_def by blast

lemma adds_basic: "adds P (cret x)" "adds P (craise e)" "adds P (clift v)" "P fx \<Longrightarrow> adds P (emit fx)"
  by (auto simp: adds_def)

lemma adds_cbind:
  assumes "adds P m" "\<And>x. adds P (f x)"
  shows "adds P (cbind m f)"
  unfolding adds_def
proof (intro allI impI)
  fix w r w' assume r: "cbind m f w = (r, w')"
  obtain q w1 where m: "m w = (q, w1)" by fastforce
  from addsD[OF assms(1) m] obtain a where a: "w_fx w1 = w_fx w @ a" "list_all P a" "w_db w1 = w_db w" "w_script w1 = w_script w"
    "w_trace w1 = w_trace w" .
  show "(\<exists>new. w_fx w' = w_fx w @ new \<and> list_all P new) \<and> w_db w' = w_db w \<and> w_script w' = w_script w \<and> w_trace w' = w_trace w"
  proof (cases q)
    case (Inr x)
    then have "f x w1 = (r, w')" using r m by (simp add: cbind_def)
    from addsD[OF assms(2) this] a show ?thesis by (metis append.assoc list_all_append)
  qed (use r m a in \<open>auto simp: cbind_def\<close>)
qed

lemma adds_git: "P (Git argv) \<Longrightarrow> adds P (run_git env argv)"
  unfolding run_git_def by (intro adds_cbind adds_basic) (auto intro: adds_basic split: option.split)

lemma adds_checked: "P (Git argv) \<Longrightarrow> adds P (run_checked env argv)"
  unfolding run_checked_def by (intro adds_cbind adds_git) (auto intro: adds_basic)

lemma adds_mono: "adds P m \<Longrightarrow> (\<And>fx. P fx \<Longrightarrow> Q fx) \<Longrightarrow> adds Q m"
  unfolding adds_def by (metis list.pred_mono_strong)

section \<open>The trial merge\<close>

definition add_scratch :: "xp_env \<Rightarrow> string \<Rightarrow> effect" where
  "add_scratch xe base = Git [''-C'', xe_root xe, ''worktree'', ''add'', ''--detach'', xe_tmpdir xe, base]"

definition remove_scratch :: "xp_env \<Rightarrow> effect" where
  "remove_scratch xe = Git [''-C'', xe_root xe, ''worktree'', ''remove'', ''--force'', xe_tmpdir xe]"

text \<open>What runs inside the scratch worktree: git on its directory, and the tests.\<close>

fun in_scratch :: "xp_env \<Rightarrow> effect \<Rightarrow> bool" where
  "in_scratch xe (Git argv) = (take 2 argv = [''-C'', xe_tmpdir xe])"
| "in_scratch xe (RanTests c) = True"
| "in_scratch xe _ = False"

definition dirty :: "xp_env \<Rightarrow> string \<Rightarrow> bool" where
  "dirty xe b \<longleftrightarrow> (case ce_git (xe_env xe) [''-C'', xe_tmpdir xe, ''merge'', ''--no-ff'', ''--no-edit'', b] of
     None \<Rightarrow> False | Some p \<Rightarrow> p_rc p \<noteq> 0)"

definition tests_pass :: "xp_env \<Rightarrow> string option \<Rightarrow> bool" where
  "tests_pass xe tc \<longleftrightarrow> tc = None \<or> (\<exists>p. xe_tests xe = Some p \<and> p_rc p = 0)"

lemma adds_branches: "adds (in_scratch xe) (merge_branches (xe_env xe) (xe_tmpdir xe) bs)"
proof (induction bs)
  case (Cons b bs)
  then show ?case unfolding merge_branches.simps
    by (intro adds_cbind adds_git own_mode_if) (auto intro!: adds_cbind adds_git adds_basic simp del: cret_run)
qed (simp only: merge_branches.simps adds_basic)

lemma adds_tests: "adds (in_scratch xe) (run_tests xe bs base tc)"
  unfolding run_tests_def by (cases tc) (auto intro!: adds_cbind adds_basic simp del: cret_run emit_run)

lemma run_git_Inr: "run_git env argv w = (Inr p, w') \<Longrightarrow> ce_git env argv = Some p"
  by (auto simp: run_git_def split: option.splits)

lemma branches_verdict:
  "merge_branches (xe_env xe) (xe_tmpdir xe) bs w = (Inr v, w') \<Longrightarrow> (v \<noteq> None) = (\<exists>b\<in>set bs. dirty xe b)"
proof (induction bs arbitrary: w)
  case (Cons b bs)
  from Cons.prems obtain p w1 where
    g: "run_git (xe_env xe) [''-C'', xe_tmpdir xe, ''merge'', ''--no-ff'', ''--no-edit'', b] w = (Inr p, w1)"
    unfolding merge_branches.simps cbind_Inr by blast
  have d: "dirty xe b = (p_rc p \<noteq> 0)" using run_git_Inr[OF g] by (simp add: dirty_def)
  show ?case
  proof (cases "p_rc p = 0")
    case True
    then have "merge_branches (xe_env xe) (xe_tmpdir xe) bs w1 = (Inr v, w')" using Cons.prems g by simp
    from Cons.IH[OF this] d True show ?thesis by simp
  next
    case False
    then show ?thesis using Cons.prems g d by (auto simp: cbind_Inr)
  qed
qed simp

lemma tests_verdict:
  "run_tests xe bs base tc w = (Inr res, w') \<Longrightarrow> mr_outcome res = (if tests_pass xe tc then Clean else SuiteFailed)"
  by (auto simp: run_tests_def merged_as_def tests_pass_def split: option.splits if_splits)


section \<open>A tick of the command line\<close>


section \<open>One rule acts\<close>

text \<open>A part that wrote nothing itself.\<close>

definition silent :: "project \<Rightarrow> project \<Rightarrow> bool" where
  "silent p p' \<longleftrightarrow> ran (=) (pj_world p) (pj_world p') \<and> pj_host p' = pj_host p"

definition silent_unless :: "('a \<Rightarrow> bool) \<Rightarrow> 'a walk \<Rightarrow> bool" where
  "silent_unless acts m \<longleftrightarrow> (\<forall>p x p'. m p = (Inr x, p') \<longrightarrow> \<not> acts x \<longrightarrow> silent p p')"

definition did :: "'a option \<Rightarrow> bool" where
  "did r \<longleftrightarrow> r \<noteq> None"

lemma silent_refl: "silent p p" by (simp add: silent_def ran_refl)

lemma silent_trans: "silent p q \<Longrightarrow> silent q r \<Longrightarrow> silent p r"
  unfolding silent_def using ran_trans by metis

lemma silent_cret: "silent_unless acts (cret x)"
  by (simp add: silent_unless_def cret_def silent_refl)

lemma silent_world: "own (=) m \<Longrightarrow> on_world m p = (r, p') \<Longrightarrow> silent p p'"
  by (auto simp: on_world_def silent_def dest: ownD split: prod.splits)

lemma silent_bind:
  assumes "\<And>p x p'. m p = (Inr x, p') \<Longrightarrow> quiet x \<Longrightarrow> silent p p'" "\<And>x. quiet x \<Longrightarrow> silent_unless acts (f x)"
    "\<And>x p y p'. \<not> quiet x \<Longrightarrow> f x p = (Inr y, p') \<Longrightarrow> acts y"
  shows "silent_unless acts (cbind m f)"
  unfolding silent_unless_def
proof (intro allI impI)
  fix p y p' assume r: "cbind m f p = (Inr y, p')" "\<not> acts y"
  from cbindE[OF r(1)] obtain x p1 where m: "m p = (Inr x, p1)" "f x p1 = (Inr y, p')" .
  have q: "quiet x" using assms(3) m(2) r(2) by blast
  show "silent p p'" using silent_trans[OF assms(1)[OF m(1) q]] assms(2)[OF q] m(2) r(2) unfolding silent_unless_def by blast
qed

lemma silent_reads: "own (=) m \<Longrightarrow> (\<And>x. silent_unless acts (f x)) \<Longrightarrow> silent_unless acts (cbind (on_world m) f)"
  by (rule silent_bind[where quiet = "\<lambda>_. True"]) (auto dest: silent_world)

lemma reads_pure: "own (=) (transact (\<lambda>db. (f db, db)))"
  by (rule own_transact) simp

lemma reads_plan: "own (=) (read_plan slug)"
  unfolding read_plan_def by (rule reads_pure)

lemma reads_load: "own (=) (try_load slug)"
  unfolding try_load_def gives_def
  by (auto intro!: own_cbind own_ccatch reads_pure reads_plan own_cret split: if_splits simp del: cret_run)

lemma refused_write:
  assumes "\<And>db db'. t db = (Inr False, db') \<Longrightarrow> db' = db" "transact (locked b t) w = (Inr False, w')"
  shows "ran (=) w w'"
proof -
  have "locked b t (w_db (settle w)) = (Inr False, db) \<Longrightarrow> db = w_db (settle w)" for db
    using assms(1) by (auto simp: locked_def fail_def split: if_splits)
  then show ?thesis using assms(2) settle_fair[of "(=)" w]
    by (auto simp: transact_run ran_def fair_def)
qed

lemma silent_pop:
  assumes "\<And>db db'. t db = (Inr False, db') \<Longrightarrow> db' = db" "on_world (transact (locked b t)) p = (Inr x, p')" "\<not> x"
  shows "silent p p'"
  using assms(2,3) refused_write[of t b "pj_world p", OF assms(1)] by (auto simp: on_world_def silent_def split: prod.splits)

lemma pop_refused: "pop_head_if now slug oc extra db = (Inr False, db') \<Longrightarrow> db' = db"
  by (auto simp: pop_head_if_def write_txn_def pop_head_in_txn_def split: list.splits if_splits)

lemma pop_create_refused:
  assumes "pop_and_create now slug fresh db = (Inr False, db')"
  shows "db' = db"
proof -
  obtain r db1 where p: "pop_head_in_txn now slug OUTCOME_POPPED [] db = (r, db1)" by fastforce
  have f: "r = Inr False \<Longrightarrow> db1 = db" using p by (auto simp: pop_head_in_txn_def split: list.splits if_splits)
  obtain q db2 where c: "create_in_txn fresh db1 = (q, db2)" by fastforce
  show ?thesis
  proof (cases r)
    case (Inr b)
    then show ?thesis using assms p f c
      by (cases b; cases q) (auto simp: pop_and_create_def write_txn_def split: pyerr.splits)
  qed (use assms p in \<open>simp add: pop_and_create_def write_txn_def\<close>)
qed

lemma queue_silent: "silent_unless did (queue_advancement_rule xe plans)"
proof -
  have skip: "silent_unless did (on_world (skip_head xe slug oc ns))" for slug oc ns
    unfolding silent_unless_def
  proof (intro allI impI)
    fix p x p' assume r: "on_world (skip_head xe slug oc ns) p = (Inr x, p')" "\<not> did x"
    from r obtain w' where w: "skip_head xe slug oc ns (pj_world p) = (Inr None, w')" "p' = p\<lparr>pj_world := w'\<rparr>"
      by (auto simp: on_world_def did_def split: prod.splits)
    then have "transact (locked (ce_busy (xe_env xe)) (pop_head_if (xe_now xe) slug oc [])) (pj_world p) = (Inr False, w')"
      by (auto simp: skip_head_def cbind_Inr split: if_splits)
    from refused_write[OF pop_refused this] w(2) show "silent p p'" by (simp add: silent_def)
  qed
  have pop: "silent_unless did (pop_head xe head slug)" for head slug
    unfolding pop_head_def
  proof (rule silent_bind[where quiet = "\<lambda>b. \<not> b"])
    fix p x p'
    assume "on_world (transact (locked (ce_busy (xe_env xe)) (pop_and_create (xe_now xe) slug (fresh_plan xe head slug)))) p = (Inr x, p')" "\<not> x"
    from silent_pop[OF pop_create_refused this] show "silent p p'" .
  next
    fix x :: bool assume "\<not> x"
    then show "silent_unless did (if \<not> x then cret None
         else cbind (on_host (register (xe_resolve xe) (xe_is_dir xe) (xe_now xe) (xe_root xe) slug)) (\<lambda>_.
           cbind (on_world (tick_one_plan xe True slug)) (\<lambda>_. cret (Some (acted queue_advancement [])))))"
      by (simp only: if_True simp_thms silent_cret)
  next
    fix x y p p'
    assume "\<not> \<not> x" "(if \<not> x then cret None
         else cbind (on_host (register (xe_resolve xe) (xe_is_dir xe) (xe_now xe) (xe_root xe) slug)) (\<lambda>_.
           cbind (on_world (tick_one_plan xe True slug)) (\<lambda>_. cret (Some (acted queue_advancement []))))) p = (Inr y, p')"
    then show "did y" by (auto simp: cbind_Inr cret_def did_def)
  qed
  show ?thesis
    unfolding queue_advancement_rule_def Let_def
    by (auto intro!: silent_reads silent_cret skip pop reads_pure reads_load simp del: cret_run split: list.split)
qed

lemma early_rules_silent:
  assumes "rule \<in> set (butlast RULES)"
  shows "silent_unless did (rule xe plans)"
proof -
  have a: "own (=) (announceable xe plans)" and g: "own (=) (first_some (\<lambda>(bid, grp). gate_batch xe bid grp) (batches plans))"
    by (auto intro: log_announceable log_first_some log_gate)
  have "silent_unless did (dry_merge_gate_rule xe plans)"
    unfolding dry_merge_gate_rule_def silent_unless_def using silent_world[OF g] by blast
  moreover have "silent_unless did (ready_to_ship_rule xe plans)"
    unfolding ready_to_ship_rule_def by (rule silent_reads[OF a silent_cret])
  ultimately show ?thesis using assms queue_silent silent_cret by (auto simp: RULES_def worktree_conflict_rule_def)
qed

text \<open>
  One rule acts. In a tick of a project the first rule with something to do ends the chain: the rules
  before it, none of which is the archive rule unless it is the last, have written nothing to
  the database or the host's tables, and no rule after it runs; what it returns is applied to
  the state it left.
\<close>

theorem one_rule_acts:
  assumes "run_rules RULES xe plans p = (Inr res, p')"
  shows "\<exists>before rule after p1. RULES = before @ rule # after \<and> silent p p1
    \<and> (case res of None \<Rightarrow> after = [] \<and> rule xe plans p1 = (Inr None, p')
        | Some x \<Rightarrow> \<exists>p2. rule xe plans p1 = (Inr (Some x), p2) \<and> on_world (apply_result xe x) p2 = (Inr (), p'))"
proof -
  have "rules \<noteq> [] \<Longrightarrow> set (butlast rules) \<subseteq> set (butlast RULES) \<Longrightarrow> run_rules rules xe plans q = (Inr res, p') \<Longrightarrow>
      \<exists>before rule after p1. rules = before @ rule # after \<and> silent q p1
        \<and> (case res of None \<Rightarrow> after = [] \<and> rule xe plans p1 = (Inr None, p')
            | Some x \<Rightarrow> \<exists>p2. rule xe plans p1 = (Inr (Some x), p2) \<and> on_world (apply_result xe x) p2 = (Inr (), p'))" for rules q
  proof (induction rules arbitrary: q)
    case (Cons rule rules)
    obtain r q1 where r: "rule xe plans q = (Inr r, q1)" and
      k: "(case r of None \<Rightarrow> run_rules rules xe plans | Some x \<Rightarrow> cbind (on_world (apply_result xe x)) (\<lambda>_. cret (Some x))) q1 = (Inr res, p')"
      using Cons.prems(3) unfolding run_rules.simps cbind_Inr by blast
    show ?case
    proof (cases "r = None \<and> rules \<noteq> []")
      case True
      then have "rule \<in> set (butlast RULES)" "set (butlast rules) \<subseteq> set (butlast RULES)" using Cons.prems(2) by auto
      then have "silent q q1" using early_rules_silent[of rule xe plans] r True unfolding silent_unless_def did_def by blast
      moreover have "run_rules rules xe plans q1 = (Inr res, p')" using k True by simp
      ultimately obtain before rule' after p1 where i: "rules = before @ rule' # after" "silent q1 p1" "silent q q1"
        "case res of None \<Rightarrow> after = [] \<and> rule' xe plans p1 = (Inr None, p')
            | Some x \<Rightarrow> \<exists>p2. rule' xe plans p1 = (Inr (Some x), p2) \<and> on_world (apply_result xe x) p2 = (Inr (), p')"
        using Cons.IH[of q1] True \<open>set (butlast rules) \<subseteq> _\<close> by auto
      from silent_trans[OF i(3,2)] i(1,4) show ?thesis
        by (intro exI[of _ "rule # before"] exI[of _ rule'] exI[of _ after] exI[of _ p1]) simp
    next
      case False
      show ?thesis
      proof (cases r)
        case None
        then have "rules = []" "res = None" "p' = q1" using False k by (auto simp: cret_def)
        then show ?thesis using r None silent_refl[of q]
          by (intro exI[of _ "[]"] exI[of _ rule] exI[of _ "[]"] exI[of _ q]) auto
      next
        case (Some x)
        then have "on_world (apply_result xe x) q1 = (Inr (), p')" "res = Some x" using k by (auto simp: cbind_Inr cret_def)
        then show ?thesis using r Some silent_refl[of q]
          by (intro exI[of _ "[]"] exI[of _ rule] exI[of _ rules] exI[of _ q]) auto
      qed
    qed
  qed simp
  from this[of RULES p] assms show ?thesis by (auto simp: RULES_def)
qed

section \<open>Archives\<close>

definition commit_of :: "xp_env \<Rightarrow> string \<Rightarrow> bool \<Rightarrow> string list" where
  "commit_of xe slug unreg = [''-C'', xe_root xe, ''commit'', ''-m'', archive_message slug unreg]"

lemma checked_run: "run_checked env argv w = (case ce_git env argv of
    None \<Rightarrow> (Inl TimeoutExpired, w\<lparr>w_fx := w_fx w @ [Git argv]\<rparr>)
  | Some p \<Rightarrow> (if p_rc p \<noteq> 0 then Inl CalledProcessError else Inr p, w\<lparr>w_fx := w_fx w @ [Git argv]\<rparr>))"
  by (simp add: run_checked_def run_git_def cbind_def split: option.split)

text \<open>The events of the plan are in the archive, all of them, and none is hot.\<close>

definition archived :: "pdb \<Rightarrow> string \<Rightarrow> bool" where
  "archived db slug \<longleftrightarrow> plan_events db slug = []"

lemma archive_op_effect:
  assumes "op_archive_events now slug db = (Inr n, db')"
  shows "archived db' slug" "db_ok db \<Longrightarrow> history db' slug = history db slug"
    "\<exists>f. map_of (t_plans db') slug = map_option f (map_of (t_plans db) slug) \<and> (\<forall>r. f r ''worktree'' = r ''worktree'')"
proof -
  have e: "db' = (update_plan slug bump_version db)\<lparr>t_archive := t_archive db @
             map (\<lambda>e. event_row.extend (event_row.truncate e) \<lparr>ar_archived_at = sql_scalar (iso now)\<rparr>) (plan_events db slug),
           t_events := filter (\<lambda>e. er_slug e \<noteq> slug) (t_events db)\<rparr>"
    using assms by (auto simp: op_archive_events_def plan_txn_Inr update_plan_def plan_events_def)
  then show "archived db' slug" by (simp add: archived_def plan_events_def)
  have en: "entry_of (event_row.extend (event_row.truncate x) m) = entry_of x" for x :: event_row and m
    by (cases x) (simp add: entry_of_def event_row.defs)
  have sl: "er_slug (event_row.extend (event_row.truncate x) m) = er_slug x" for x :: event_row and m
    by (cases x) (simp add: event_row.defs)
  show "history db' slug = history db slug"
    unfolding e history_def plan_events_def by (simp add: filter_map comp_def en sl)
  show "\<exists>f. map_of (t_plans db') slug = map_option f (map_of (t_plans db) slug) \<and> (\<forall>r. f r ''worktree'' = r ''worktree'')"
    unfolding e by (intro exI[of _ bump_version]) (simp add: update_plan_def map_of_map_entry bump_version_def split: option.split)
qed

lemma world_walk: "on_world m p = (r, p') \<longleftrightarrow> (\<exists>w'. m (pj_world p) = (r, w') \<and> p' = p\<lparr>pj_world := w'\<rparr>)"
  by (auto simp: on_world_def split: prod.splits)

text \<open>
  A registry row goes last. When an archive returns, under whatever interleaving, the events of the plan have all left the
  hot log, the move of its files was committed before anything else happened, and only then,
  if asked to, was the plan's row taken out of the registry, that row alone; when it raises,
  the registry is as it was.
\<close>

theorem archive_unregisters_last:
  assumes "perform_archive xe slug unreg p = (r, p')"
  shows "case r of
      Inl e \<Rightarrow> pj_host p' = pj_host p
    | Inr (before, after, moved) \<Rightarrow>
        archived (w_db (pj_world p')) slug
        \<and> (moved \<longrightarrow> last (w_fx (pj_world p')) = Git (commit_of xe slug unreg)
             \<and> (\<exists>q. ce_git (xe_env xe) (commit_of xe slug unreg) = Some q \<and> p_rc q = 0))
        \<and> pj_host p' = (if unreg then (pj_host p)\<lparr>h_registry := filter (\<lambda>x. reg_key x \<noteq> (xe_resolve xe (xe_root xe), slug))
             (h_registry (pj_host p))\<rparr> else pj_host p)"
proof -
  obtain q w1 where a: "archive_in_world xe slug unreg (pj_world p) = (q, w1)" by fastforce
  show ?thesis
  proof (cases q)
    case (Inl e)
    then have "r = Inl e" "p' = p\<lparr>pj_world := w1\<rparr>" using assms a by (auto simp: perform_archive_def cbind_def on_world_def)
    then show ?thesis by simp
  next
    case (Inr x)
    obtain before after moved where x: "x = (before, after, moved)" by (cases x)
    have p': "r = Inr x" "pj_world p' = w1" "pj_host p' = (if unreg then snd (unregister (xe_resolve xe) (xe_root xe) slug (pj_host p)) else pj_host p)"
      using assms a Inr by (auto simp: perform_archive_def cbind_def on_world_def on_host_def cret_def split: prod.splits if_splits)
    obtain d d' mv n w2 w3 w5 w4 m u where
      t: "transact (op_archive_events (xe_now xe) slug) w2 = (Inr n, w3)" and
      l: "clift mv w3 = (Inr m, w5)" and
      c: "(if m then cbind (run_checked (xe_env xe) (commit_of xe slug unreg)) (\<lambda>_. cret ()) else cret ()) w5 = (Inr u, w4)" and
      f: "cret (worktree_record d, worktree_record d', m) w4 = (Inr (before, after, moved), w1)"
      using a unfolding Inr x archive_in_world_def cbind_Inr commit_of_def by blast
    have f: "w4 = w1" "m = moved" "w5 = w3" using l f by simp_all
    have d: "archived (w_db w3) slug" using t archive_op_effect(1) by (auto simp: transact_run)
    have "w_db w4 = w_db w3" "m \<longrightarrow> last (w_fx w4) = Git (commit_of xe slug unreg) \<and> (\<exists>q. ce_git (xe_env xe) (commit_of xe slug unreg) = Some q \<and> p_rc q = 0)"
      using c f(3) by (auto simp: cbind_Inr checked_run split: if_splits option.splits)
    with d f p' x show ?thesis by (simp add: unregister_def Let_def)
  qed
qed

lemma adds_maybe: "adds (\<lambda>_. True) (maybe_cleanup_worktree env trigger b d)"
proof -
  have d: "adds (\<lambda>_. True) (resolve_default_branch env)"
    by (auto simp: resolve_default_branch_def Let_def intro!: adds_basic adds_cbind adds_git simp del: cret_run)
  have "adds (\<lambda>_. True) (branch_reachable_from_origin env br)" "adds (\<lambda>_. True) (commits_ahead_of_origin env br)"
    "adds (\<lambda>_. True) (remove_worktree_and_branch env path br x y)" for br path x y
    by (auto simp: branch_reachable_from_origin_def commits_ahead_of_origin_def remove_worktree_and_branch_def Let_def
        intro!: adds_basic adds_cbind adds_git d simp del: cret_run split: option.split)
  then show ?thesis
    unfolding maybe_cleanup_worktree_def
    by (auto intro!: adds_basic adds_cbind simp del: cret_run clift_run split: option.split prod.split)
qed

lemma adds_move: "adds (\<lambda>_. True) (move_plan_files xe slug)"
proof -
  have c: "adds (\<lambda>_. True) (ccatch m (\<lambda>e. if Q e then Some (cret (k e)) else None))" if "adds (\<lambda>_. True) m" for m :: "'a cmd" and Q k
    using that unfolding adds_def ccatch_def by (auto split: prod.splits sum.splits if_splits option.splits)
  show ?thesis unfolding move_plan_files_def
    by (auto intro!: adds_basic adds_cbind adds_checked c simp del: cret_run)
qed

definition worktree_cell :: "pdb \<Rightarrow> string \<Rightarrow> sqlv option" where
  "worktree_cell db slug = map_option (\<lambda>r. r ''worktree'') (map_of (t_plans db) slug)"

lemma cleared_cell:
  assumes "slug_re_match slug" "has_plan db slug"
  shows "\<exists>db'. op_set_fields slug [(''worktree'', JNull)] [''ship_pending'', ''ready_to_ship_announced''] evs db = (Inr (), db')
    \<and> worktree_cell db' slug = Some (SJson JNull)"
proof -
  let ?db = "update_plan slug bump_version db"
  obtain r where r: "map_of (t_plans ?db) slug = Some r" using assms(2) by (auto simp: update_plan_def map_of_map_entry)
  obtain cs where h: "head_assignments r [(''worktree'', JNull)] [''ship_pending'', ''ready_to_ship_announced''] = Inr cs"
    "map_of (rev cs) ''worktree'' = Some (SJson JNull)"
    by (simp add: head_assignments_def PLAN_DERIVED_def PLAN_SCALARS_def PLAN_JSON_def Let_def dwithout_def)
  have "set_head_fields slug [(''worktree'', JNull)] [''ship_pending'', ''ready_to_ship_announced''] ?db = (Inr (), update_plan slug (set_cols (rev cs)) ?db)"
    using r h(1) by (simp add: set_head_fields_def)
  then have "op_set_fields slug [(''worktree'', JNull)] [''ship_pending'', ''ready_to_ship_announced''] evs db
      = (Inr (), insert_events slug evs (update_plan slug (set_cols (rev cs)) ?db))"
    using assms by (simp add: op_set_fields_def plan_txn_Inr andthen_Inr modify_def)
  moreover have "worktree_cell (insert_events slug evs (update_plan slug (set_cols (rev cs)) ?db)) slug = Some (SJson JNull)"
    using r h(2) by (auto simp: worktree_cell_def update_plan_def map_of_map_entry set_cols_def)
  ultimately show ?thesis by blast
qed

lemma cell_no_worktree:
  assumes "worktree_cell db slug = Some (SJson JNull)" "snapshot db slug = Inr d"
  shows "\<not> has_worktree d"
  using assms by (auto simp: worktree_cell_def snapshot_def bind_res_Inr snapshot_in_txn_def has_worktree_def get_worktree_def)

text \<open>
  C27 A failed archive is not tried again. When the automatic archive has removed the worktree and then fails at a git step
  (the move of the files or the commit), the plan stays registered but its worktree is already
  recorded as gone: every later run of the archive rule passes it over.
\<close>

theorem failed_archive_stranded:
  assumes "w_script (pj_world p) = []" "snapshot (w_db (pj_world p)) s = Inr d"
    and "\<forall>w. \<exists>d' w1. maybe_cleanup_worktree (xe_env xe) ''archive'' False d w = (Inr d', w1) \<and> d_worktree d' = Some JNull"
    and "perform_archive xe s True p = (Inl e, p')" and "snapshot (w_db (pj_world p')) s = Inr d2"
  shows "pj_host p' = pj_host p \<and> archive_first xe ((s, d2) # rest) = archive_first xe rest"
proof -
  define w where "w = pj_world p"
  obtain w1 where a: "archive_in_world xe s True w = (Inl e, w1)" "p' = p\<lparr>pj_world := w1\<rparr>"
    using assms(4) by (auto simp: perform_archive_def cbind_def on_world_def on_host_def cret_def w_def split: prod.splits sum.splits)
  define wr where "wr = w\<lparr>w_trace := w_trace w @ [(w_db w, w_db w)]\<rparr>"
  have rd: "read_plan s w = (Inr d, wr)" using assms(1,2) by (simp add: read_plan_run settle_alone w_def wr_def)
  obtain d' w2 where cl: "maybe_cleanup_worktree (xe_env xe) ''archive'' False d wr = (Inr d', w2)" "d_worktree d' = Some JNull"
    using assms(3) by blast
  have w2: "w_db w2 = w_db w" "w_script w2 = []" using addsD[OF adds_maybe cl(1)] assms(1) by (auto simp: wr_def w_def)
  obtain mvr w3 where mv: "move_plan_files xe s w2 = (mvr, w3)" by fastforce
  have w3: "w_db w3 = w_db w" "w_script w3 = []" using addsD[OF adds_move mv] w2 by auto
  have slug: "d_slug d' = s" "slug_re_match s" "has_plan (w_db w) s"
    using maybe_cleanup_slug[OF cl(1)] snapshot_slug[OF assms(2)] assms(2)
    by (auto simp: w_def snapshot_def bind_res_Inr validate_slug_def guard_res_def snapshot_in_txn_def split: option.splits if_splits)
  from cleared_cell[OF slug(2,3), of "drop (length (d_events d)) (d_events d')"] obtain db1 where
    db1: "op_set_fields s [(''worktree'', JNull)] [''ship_pending'', ''ready_to_ship_announced''] (drop (length (d_events d)) (d_events d')) (w_db w) = (Inr (), db1)"
      "worktree_cell db1 s = Some (SJson JNull)" by blast
  obtain m0 where m0: "mvr = Inr m0" using mv by (auto simp: move_plan_files_def ccatch_def cbind_def checked_run split: if_splits option.splits)
  define w4 where "w4 = w3\<lparr>w_db := db1, w_trace := w_trace w3 @ [(w_db w3, db1)]\<rparr>"
  have pr: "persist_worktree_cleanup d' (length (d_events d)) [''ship_pending'', ''ready_to_ship_announced''] w3 = (Inr (), w4)"
    using cl(2) w3 db1(1) slug(1) by (simp add: persist_worktree_cleanup_def Let_def transact_run settle_alone w4_def)
  obtain q db2 where o: "op_archive_events (xe_now xe) s db1 = (q, db2)" by fastforce
  have cell: "worktree_cell db2 s = Some (SJson JNull)"
  proof (cases q)
    case (Inl x)
    then show ?thesis using o db1(2) by (auto simp: op_archive_events_def dest: plan_txn_Inl)
  next
    case (Inr n)
    then obtain f where "map_of (t_plans db2) s = map_option f (map_of (t_plans db1) s)" "\<forall>r. f r ''worktree'' = r ''worktree''"
      using archive_op_effect(3) o by blast
    then show ?thesis using db1(2) by (auto simp: worktree_cell_def)
  qed
  define w5 where "w5 = w4\<lparr>w_db := db2, w_trace := w_trace w4 @ [(db1, db2)]\<rparr>"
  have ar: "transact (op_archive_events (xe_now xe) s) w4 = (q, w5)"
    using o w3(2) by (simp add: transact_run settle_alone w4_def w5_def)
  have e: "archive_in_world xe s True w = cbind (transact (op_archive_events (xe_now xe) s)) (\<lambda>_.
      cbind (clift m0) (\<lambda>m. cbind (if m then cbind (run_checked (xe_env xe) [''-C'', xe_root xe, ''commit'', ''-m'', archive_message s True]) (\<lambda>_. cret ())
            else cret ()) (\<lambda>_. cret (worktree_record d, worktree_record d', m)))) w4"
    unfolding archive_in_world_def using rd cl(1) mv m0 pr by simp
  have "w_db w1 = db2"
  proof (cases q)
    case (Inl x)
    then have "w1 = w5" using a(1) e ar by (simp add: cbind_def)
    then show ?thesis by (simp add: w5_def)
  next
    case (Inr n)
    then show ?thesis using a(1) e ar by (cases m0) (auto simp: cbind_def checked_run cret_def clift_def w5_def split: option.splits if_splits)
  qed
  then have "worktree_cell (w_db (pj_world p')) s = Some (SJson JNull)" using cell a(2) by simp
  from cell_no_worktree[OF this assms(5)] show ?thesis using a(2) by simp
qed

end
