(* ===== verification/Cross_Examples.thy ===== *)
theory Cross_Examples
  imports Cross_Props Cross_Ends Dispatch_Examples
begin

text \<open>Concrete projects: two plans in one checkout, a queue of two, and an archive whose commit fails.\<close>

text \<open>A git that knows \<open>origin/main\<close> and refuses to commit.\<close>

definition refusing_git :: "string list \<Rightarrow> proc option" where
  "refusing_git argv =
     Some \<lparr>p_rc = (if List.member argv ''commit'' then 1 else 0),
       p_out = (if List.member argv ''symbolic-ref'' then ''refs/remotes/origin/main'' else ''c0ffee''), p_err = []\<rparr>"

definition example_xp :: xp_env where
  "example_xp = \<lparr>xe_env = example_cmd_env\<lparr>ce_git := refusing_git\<rparr>, xe_plan_dir = ''plans'', xe_ship_mode = ''operator'',
     xe_auto_archive = True, xe_plan_file = (\<lambda>s. s = ''w1''), xe_sub_files = (\<lambda>_. []), xe_stamp = ''2026-01-01-0000'', xe_tmpdir = ''/tmp/m'',
     xe_tests = None, xe_queue_ok = True, xe_tick = (\<lambda>_. example_env), xe_dispatch = (\<lambda>_. example_dispatch),
     xe_resolve = (\<lambda>d. d), xe_is_dir = (\<lambda>_. True)\<rparr>"

definition example_project :: "pdb \<Rightarrow> project" where
  "example_project db = \<lparr>pj_world = calm db, pj_host = snd (register (\<lambda>d. d) (\<lambda>_. True) 5 ''/p'' ''w1'' empty_host)\<rparr>"

lemma example_host_ok: "host_ok (pj_host (example_project db))"
  by (simp add: example_project_def host_ok_register host_ok_empty)

theorem project_tick_keeps_store_witness:
  "case cmd_tick example_xp None False (example_project held_db) of (r, p') \<Rightarrow>
     db_ok (w_db (pj_world p')) \<and> host_ok (pj_host p') \<and> prefix (history held_db ''w1'') (history (w_db (pj_world p')) ''w1'')"
proof -
  obtain r p' where r: "cmd_tick example_xp None False (example_project held_db) = (r, p')" by fastforce
  have "pj_world (example_project held_db) = calm held_db" by (simp add: example_project_def)
  with project_tick_keeps_store[OF _ example_host_ok _ r, of "''w1''"] show ?thesis
    unfolding r prod.case by (simp add: held_db_ok)
qed

text \<open>The queue of two: the head comes alive.\<close>

lemma two_queued_db_ok: "db_ok two_queued"
proof -
  have "t_plans two_queued = []" "t_claims two_queued = []" "t_blockers two_queued = []" "t_tasks two_queued = []"
    "t_events two_queued = []" "t_archive two_queued = []" "t_seq two_queued = 0" by code_simp+
  then show ?thesis
    by (simp add: db_ok_def plans_ok_def claims_ok_def keys_ok_def events_ok_def history_def plan_events_def)
qed


definition two_running :: "(string \<times> doc) list" where
  "two_running = [(''w2'', empty_state 0 ''w2'' ''plans''), (''w1'', empty_state 0 ''w1'' ''plans'')]"

theorem conflicts_settle_witness:
  "WorktreeConflictNote ''w1'' ''w2'' \<in> set (conflict_notices example_xp two_running)
   \<and> WorktreeConflictNote ''w2'' ''w1'' \<notin> set (conflict_notices example_xp two_running)"
proof -
  have d: "distinct (map fst two_running)" by (simp add: two_running_def)
  have c: "set (conflicting two_running) = {''w1'', ''w2''}"
    by (auto simp: conflicting_def two_running_def empty_state_def has_worktree_def get_worktree_def is_plan_active_def)
  have n: "in_conflict_with (empty_state 0 s ''plans'') = []" for s by (simp add: in_conflict_with_def empty_state_def)
  have l: "str_less ''w1'' ''w2''" "\<not> str_less ''w2'' ''w1''" by code_simp+
  have "set (conflict_notices example_xp two_running) = {WorktreeConflictNote s t | s t d. (s, d) \<in> set two_running \<and> s \<in> set (conflicting two_running)
        \<and> t \<in> set (conflicting two_running) \<and> str_less s t \<and> t \<notin> set (in_conflict_with d)}"
    using conflicts_settle[OF d, of example_xp] by blast
  then show ?thesis unfolding c using l n by (auto simp: two_running_def)
qed


text \<open>With nothing to do the chain writes nothing.\<close>

theorem one_rule_acts_witness:
  "\<exists>p1 p'. run_rules RULES example_xp [] (example_project empty_db) = (Inr None, p') \<and> silent (example_project empty_db) p1
     \<and> auto_archive_rule example_xp [] p1 = (Inr None, p')"
proof -
  have "fst (run_rules RULES example_xp [] (example_project empty_db)) = Inr None"
    by (simp add: RULES_def queue_advancement_rule_def example_xp_def example_project_def cbind_def on_world_def cret_def transact_def
        pending_def empty_db_def worktree_conflict_rule_def worktree_conflict_result_def conflict_changes_def dry_merge_gate_rule_def
        batches_def List.map_filter_def ready_to_ship_rule_def auto_archive_rule_def)
  then obtain p' where r: "run_rules RULES example_xp [] (example_project empty_db) = (Inr None, p')" by (metis prod.collapse)
  from one_rule_acts[OF r] obtain before rule after p1 where
    1: "RULES = before @ rule # after" "silent (example_project empty_db) p1" "after = []" "rule example_xp [] p1 = (Inr None, p')" by auto
  have "rule = last RULES" using 1(1,3) by (metis last_snoc)
  then have "rule = auto_archive_rule" by (simp add: RULES_def)
  with 1 r show ?thesis by blast
qed

text \<open>A finished plan whose branch is merged.\<close>

definition shipped_doc :: doc where
  "shipped_doc = (empty_state 0 ''w1'' ''plans'')\<lparr>d_status := JStr STATUS_DONE,
     d_worktree := Some (JObj [(''path'', JStr ''/wt''), (''branch'', JStr ''b1'')])\<rparr>"

definition shipped_db :: pdb where
  "shipped_db = run_op (OpCreate shipped_doc) empty_db"

lemma shipped_reads: "has_plan shipped_db ''w1''" "\<exists>d. snapshot shipped_db ''w1'' = Inr d \<and> d_worktree d = d_worktree shipped_doc
    \<and> d_status d = JStr STATUS_DONE \<and> d_slug d = ''w1''"
proof -
  have e: "shipped_db = insert_events ''w1'' [] (write_claim ''w1'' None (empty_db\<lparr>t_plans := [(''w1'', head_row shipped_doc)]\<rparr>))"
    unfolding shipped_db_def using w1_slug by (subst create_plain) (simp_all add: shipped_doc_def empty_state_def)
  show "has_plan shipped_db ''w1''" by (simp add: e write_claim_def delete_claim_def)
  show "\<exists>d. snapshot shipped_db ''w1'' = Inr d \<and> d_worktree d = d_worktree shipped_doc
    \<and> d_status d = JStr STATUS_DONE \<and> d_slug d = ''w1''"
    using w1_slug
    by (simp add: e write_claim_def delete_claim_def snapshot_def validate_slug_def guard_res_def snapshot_in_txn_def head_row_def
        shipped_doc_def empty_state_def insert_events_def)
qed

lemma tick_on_shipped: "plan_exists shipped_db ''w1''"
  using shipped_reads(1) w1_slug by (auto simp: plan_exists_def)


lemma cleaned_up:
  assumes "d_worktree d = d_worktree shipped_doc"
  shows "\<forall>w. \<exists>d' w1. maybe_cleanup_worktree (xe_env example_xp) ''archive'' False d w = (Inr d', w1) \<and> d_worktree d' = Some JNull"
proof
  fix w
  have g: "\<exists>p. run_git (xe_env example_xp) argv w = (Inr p, w\<lparr>w_fx := w_fx w @ [Git argv]\<rparr>) \<and> refusing_git argv = Some p" for argv w
    by (simp add: run_git_def example_xp_def refusing_git_def)
  show "\<exists>d' w1. maybe_cleanup_worktree (xe_env example_xp) ''archive'' False d w = (Inr d', w1) \<and> d_worktree d' = Some JNull"
    using assms
    by (simp add: maybe_cleanup_worktree_def worktree_record_def get_worktree_def shipped_doc_def need_key_def cbind_def
        branch_reachable_from_origin_def resolve_default_branch_def remove_worktree_and_branch_def run_git_def
        example_xp_def example_cmd_env_def example_cfg_def refusing_git_def strip_def append_event_def Let_def)
qed

theorem failed_archive_stranded_witness:
  "case perform_archive example_xp ''w1'' True (example_project shipped_db) of (r, p') \<Rightarrow>
     r = Inl CalledProcessError \<and> pj_host p' = pj_host (example_project shipped_db)
     \<and> (\<exists>d2. snapshot (w_db (pj_world p')) ''w1'' = Inr d2 \<and> archive_first example_xp [(''w1'', d2)] = archive_first example_xp [])"
proof -
  have f: "fst (perform_archive example_xp ''w1'' True (example_project shipped_db)) = Inl CalledProcessError" by code_simp
  obtain p' where r: "perform_archive example_xp ''w1'' True (example_project shipped_db) = (Inl CalledProcessError, p')"
    using f by (metis prod.collapse)
  obtain d where d: "snapshot shipped_db ''w1'' = Inr d" "d_worktree d = d_worktree shipped_doc" using shipped_reads(2) by blast
  have w: "w_script (pj_world (example_project shipped_db)) = []" "w_db (pj_world (example_project shipped_db)) = shipped_db"
    by (simp_all add: example_project_def)
  have "case_sum (\<lambda>_. False) (\<lambda>_. True) (snapshot (w_db (pj_world (snd (perform_archive example_xp ''w1'' True (example_project shipped_db))))) ''w1'')"
    by code_simp
  then obtain d2 where d2: "snapshot (w_db (pj_world p')) ''w1'' = Inr d2" using r by (auto split: sum.splits)
  from failed_archive_stranded[OF w(1) _ cleaned_up[OF d(2)] r d2, of "[]"] d(1) w(2) d2 r show ?thesis by auto
qed

text \<open>The same archive where git commits.\<close>

definition committing_xp :: xp_env where
  "committing_xp = example_xp\<lparr>xe_env := example_cmd_env\<rparr>"

theorem archive_unregisters_last_witness:
  "\<exists>p' x. perform_archive committing_xp ''w1'' True (example_project shipped_db) = (Inr x, p')
     \<and> archived (w_db (pj_world p')) ''w1'' \<and> h_registry (pj_host p') = []"
proof -
  have "case_sum (\<lambda>_. False) (\<lambda>_. True) (fst (perform_archive committing_xp ''w1'' True (example_project shipped_db)))" by code_simp
  then obtain x p' where r: "perform_archive committing_xp ''w1'' True (example_project shipped_db) = (Inr x, p')"
    by (cases "perform_archive committing_xp ''w1'' True (example_project shipped_db)") (auto split: sum.splits)
  obtain before after moved where x: "x = (before, after, moved)" by (cases x)
  have reg: "h_registry (pj_host (example_project shipped_db)) = [\<lparr>pe_root = ''/p'', pe_slug = ''w1'', re_at = iso 5\<rparr>]"
    using w1_slug by (simp add: example_project_def register_def empty_host_def)
  from archive_unregisters_last[OF r] show ?thesis
    using r reg unfolding x by (simp add: reg_key_def committing_xp_def example_xp_def example_cmd_env_def example_cfg_def)
qed

end
