(* ===== verification/Tick_All.thy ===== *)
theory Tick_All
  imports Cross_Examples
begin

text \<open>
  The tick of the whole host (\<open>cmd_tick_all\<close> of \<open>cli.py\<close>): every registered plan is ticked, a failure of
  one stopping none; then, project by project, the cross-plan chain and the sweep for zombies. The
  set of registered plans the sweep spares is read once, before any chain runs.
\<close>

section \<open>The sweep as the command runs it\<close>

definition is_tick_conflict :: "pyerr \<Rightarrow> bool" where
  "is_tick_conflict e = (case e of TickConflict _ \<Rightarrow> True | _ \<Rightarrow> False)"

definition sweep_one_cmd :: "xp_env \<Rightarrow> string \<Rightarrow> string \<Rightarrow> unit cmd" where
  "sweep_one_cmd xe fresh slug =
     cbind (gives (transact (\<lambda>db. (snapshot_with_preconditions db slug, db))) degradable) (\<lambda>seen.
       case seen of
         None \<Rightarrow> cret ()
       | Some (d, obs) \<Rightarrow>
           if \<not> is_zombie_state (ce_os (xe_env xe)) d then cret ()
           else
             (let reap = reap_claim (ce_os (xe_env xe)) d in
              cbind (emit_if (reap_sent reap \<noteq> []) (Signals (reap_sent reap))) (\<lambda>_.
              cbind (gives (transact (apply_tick_delta (xe_now xe) fresh slug (zombie_pre obs) (zombie_delta (xe_now xe) d obs)))
                       (\<lambda>e. is_tick_conflict e \<or> degradable e)) (\<lambda>applied.
                emit_each (if applied = None then []
                  else map (\<lambda>(token, phase). CoolantStop (jtext token) slug (jtext phase))
                         (zombie_stops (cc_coolant (ce_cfg (xe_env xe))) d))))))"

fun sweep_each :: "xp_env \<Rightarrow> string \<Rightarrow> string list \<Rightarrow> unit cmd" where
  "sweep_each xe fresh [] = cret ()"
| "sweep_each xe fresh (s # ss) = cbind (sweep_one_cmd xe fresh s) (\<lambda>_. sweep_each xe fresh ss)"

definition sweep_cmd :: "xp_env \<Rightarrow> string \<Rightarrow> string list \<Rightarrow> unit cmd" where
  "sweep_cmd xe fresh registered =
     cbind (transact (\<lambda>db. (Inr (plan_slugs db), db))) (\<lambda>slugs.
       sweep_each xe fresh (filter (\<lambda>s. s \<notin> set registered) slugs))"

section \<open>Many projects\<close>

text \<open>The worlds of the projects by their resolved root, and the host they share.\<close>

record hub =
  hb_worlds :: "string \<Rightarrow> world"
  hb_host :: host

text \<open>\<open>ae_xp\<close>: the configuration and environment of a project (\<open>None\<close>: it does not load); \<open>ae_resolve\<close> fails
  with an \<open>OSError\<close> as \<open>None\<close>; \<open>ae_fresh\<close> is a fresh identifier.\<close>

record all_env =
  ae_xp :: "string \<Rightarrow> xp_env option"
  ae_resolve :: "string \<Rightarrow> string option"
  ae_fresh :: string

definition in_project :: "string \<Rightarrow> 'a walk \<Rightarrow> (hub, 'a) comp" where
  "in_project dir m = (\<lambda>h. case m \<lparr>pj_world = hb_worlds h dir, pj_host = hb_host h\<rparr> of
     (r, p) \<Rightarrow> (r, h\<lparr>hb_worlds := (hb_worlds h)(dir := pj_world p), hb_host := pj_host p\<rparr>))"

definition with_config :: "all_env \<Rightarrow> string \<Rightarrow> (xp_env \<Rightarrow> unit walk) \<Rightarrow> (hub, unit) comp" where
  "with_config ae dir f =
     (case ae_xp ae dir of
        None \<Rightarrow> craise (RuntimeErr ''ConfigError'')
      | Some xe \<Rightarrow> in_project (case ae_resolve ae dir of None \<Rightarrow> dir | Some r \<Rightarrow> r) (f xe))"

fun tick_rows :: "all_env \<Rightarrow> reg_row list \<Rightarrow> (hub, unit) comp" where
  "tick_rows ae [] = cret ()"
| "tick_rows ae (r # rs) =
     cbind (swallow (with_config ae (pe_root r) (\<lambda>xe.
       on_world (cbind (tick_one_plan xe True (pe_slug r)) (\<lambda>_. cret ()))))) (\<lambda>_. tick_rows ae rs)"

text \<open>The registered slugs of each project, in order of first appearance.\<close>

fun add_slug :: "string \<Rightarrow> string \<Rightarrow> (string \<times> string list) list \<Rightarrow> (string \<times> string list) list" where
  "add_slug dir slug [] = [(dir, [slug])]"
| "add_slug dir slug ((p, ss) # rest) = (if p = dir then (p, ss @ [slug]) # rest else (p, ss) # add_slug dir slug rest)"

definition slugs_by_project :: "all_env \<Rightarrow> reg_row list \<Rightarrow> (string \<times> string list) list" where
  "slugs_by_project ae rows =
     fold (\<lambda>r acc. case ae_resolve ae (pe_root r) of None \<Rightarrow> acc | Some p \<Rightarrow> add_slug p (pe_slug r) acc) rows []"

text \<open>Paths are compared by their components.\<close>

fun parts_less :: "string list \<Rightarrow> string list \<Rightarrow> bool" where
  "parts_less [] [] = False"
| "parts_less [] (y # ys) = True"
| "parts_less (x # xs) [] = False"
| "parts_less (x # xs) (y # ys) = (str_less x y \<or> (x = y \<and> parts_less xs ys))"

fun path_insort :: "string \<times> string list \<Rightarrow> (string \<times> string list) list \<Rightarrow> (string \<times> string list) list" where
  "path_insort x [] = [x]"
| "path_insort x (y # ys) =
     (if parts_less (split_on CHR ''/'' (fst x)) (split_on CHR ''/'' (fst y)) then x # y # ys else y # path_insort x ys)"

definition by_path :: "(string \<times> string list) list \<Rightarrow> (string \<times> string list) list" where
  "by_path xs = fold path_insort xs []"

definition post_project :: "xp_env \<Rightarrow> string \<Rightarrow> string list \<Rightarrow> unit walk" where
  "post_project xe fresh slugs = cbind (post_loop xe) (\<lambda>_. on_world (sweep_cmd xe fresh slugs))"

fun post_each :: "all_env \<Rightarrow> (string \<times> string list) list \<Rightarrow> (hub, unit) comp" where
  "post_each ae [] = cret ()"
| "post_each ae ((dir, slugs) # rest) =
     cbind (swallow (with_config ae dir (\<lambda>xe. post_project xe (ae_fresh ae) slugs))) (\<lambda>_. post_each ae rest)"

definition cmd_tick_all :: "all_env \<Rightarrow> (hub, exit_code) comp" where
  "cmd_tick_all ae =
     (\<lambda>h. cbind (tick_rows ae (entries (Some (hb_host h)))) (\<lambda>_ h1.
        cbind (post_each ae (by_path (slugs_by_project ae (entries (Some (hb_host h1)))))) (\<lambda>_. cret OK) h1) h)"

section \<open>The sweep is the sweep\<close>

lemma gives_Inr: "m w = (Inr x, w') \<Longrightarrow> gives m skips w = (Inr (Some x), w')"
  by (simp add: gives_def ccatch_def)

lemma gives_skip: "m w = (Inl e, w') \<Longrightarrow> skips e \<Longrightarrow> gives m skips w = (Inr None, w')"
  by (simp add: gives_def ccatch_def cbind_def)

lemma emit_each_quiet: "\<exists>w'. emit_each es w = (Inr (), w') \<and> w_db w' = w_db w \<and> w_script w' = w_script w"
proof (induction es arbitrary: w)
  case (Cons e es)
  from Cons[of "w\<lparr>w_fx := w_fx w @ [e]\<rparr>"] show ?case by simp
qed simp

lemma sweep_one_refines:
  assumes "sweep_one alone (ce_os (xe_env xe)) coolant (xe_now xe) fresh False s ss = Inr ss'" "ss_db ss = w_db w" "w_script w = []"
  shows "\<exists>w'. sweep_one_cmd xe fresh s w = (Inr (), w') \<and> w_db w' = ss_db ss' \<and> w_script w' = []"
proof -
  let ?os = "ce_os (xe_env xe)"
  let ?seen = "gives (transact (\<lambda>db. (snapshot_with_preconditions db s, db))) degradable"
  define w1 where "w1 = w\<lparr>w_trace := w_trace w @ [(w_db w, w_db w)]\<rparr>"
  have t: "transact (\<lambda>db. (snapshot_with_preconditions db s, db)) w = (snapshot_with_preconditions (w_db w) s, w1)"
    using assms(3) by (simp add: transact_def settle_def w1_def)
  have w1: "w_db w1 = w_db w" "w_script w1 = []" using assms(3) by (simp_all add: w1_def)
  show ?thesis
  proof (cases "snapshot_with_preconditions (w_db w) s")
    case (Inl e)
    then have "degradable e" "ss' = ss" using assms(1,2) by (auto simp: sweep_one_def split: if_splits)
    moreover from this have "?seen w = (Inr None, w1)" using t Inl by (intro gives_skip) simp_all
    ultimately show ?thesis using w1 assms(2) by (simp add: sweep_one_cmd_def)
  next
    case (Inr dp)
    obtain d obs where dp: "dp = (d, obs)" by (cases dp)
    have seen: "?seen w = (Inr (Some (d, obs)), w1)" using t Inr dp by (intro gives_Inr) simp
    show ?thesis
    proof (cases "is_zombie_state ?os d")
      case False
      then show ?thesis using assms Inr dp seen w1 by (simp add: sweep_one_def sweep_one_cmd_def)
    next
      case True
      obtain q db' where a: "apply_tick_delta (xe_now xe) fresh s (zombie_pre obs) (zombie_delta (xe_now xe) d obs) (w_db w) = (q, db')" by fastforce
      define w2 where "w2 = snd (emit_if (reap_sent (reap_claim ?os d) \<noteq> []) (Signals (reap_sent (reap_claim ?os d))) w1)"
      have e: "emit_if (reap_sent (reap_claim ?os d) \<noteq> []) (Signals (reap_sent (reap_claim ?os d))) w1 = (Inr (), w2)"
        "w_db w2 = w_db w" "w_script w2 = []"
        using w1 by (auto simp: w2_def emit_if_def)
      define w3 where "w3 = w2\<lparr>w_db := db', w_trace := w_trace w2 @ [(w_db w2, db')]\<rparr>"
      have ta: "transact (apply_tick_delta (xe_now xe) fresh s (zombie_pre obs) (zombie_delta (xe_now xe) d obs)) w2 = (q, w3)"
        using e a by (simp add: transact_def settle_def w3_def)
      have db': "w_db w3 = db'" "w_script w3 = []" using e by (simp_all add: w3_def)
      have res: "ss_db ss' = db' \<and> (\<forall>err. q = Inl err \<longrightarrow> is_tick_conflict err \<or> degradable err)"
        using assms(1,2) Inr dp True a
        by (cases q) (auto simp: sweep_one_def Let_def alone_def is_tick_conflict_def split: pyerr.splits if_splits)
      let ?wr = "transact (apply_tick_delta (xe_now xe) fresh s (zombie_pre obs) (zombie_delta (xe_now xe) d obs))"
      let ?skips = "\<lambda>e. is_tick_conflict e \<or> degradable e"
      have "\<exists>ap. gives ?wr ?skips w2 = (Inr ap, w3)"
      proof (cases q)
        case (Inl err)
        then show ?thesis using gives_skip[of ?wr w2 err w3 ?skips] ta res by auto
      next
        case (Inr x)
        then show ?thesis using gives_Inr[of ?wr w2 x w3 ?skips] ta by auto
      qed
      then obtain ap where g: "gives ?wr ?skips w2 = (Inr ap, w3)" by blast
      obtain w4 where w4: "emit_each (if ap = None then []
          else map (\<lambda>(token, phase). CoolantStop (jtext token) s (jtext phase)) (zombie_stops (cc_coolant (ce_cfg (xe_env xe))) d)) w3 = (Inr (), w4)"
        "w_db w4 = db'" "w_script w4 = []"
        using emit_each_quiet[of _ w3] db' by metis
      have "sweep_one_cmd xe fresh s w = (Inr (), w4)"
        using seen True e(1) g w4(1) by (simp add: sweep_one_cmd_def Let_def)
      then show ?thesis using w4 res by auto
    qed
  qed
qed

end
