(* ===== verification/Tick_All_Props.thy ===== *)
theory Tick_All_Props
  imports Tick_All
begin

text \<open>
  The host's tick always ends with zero and keeps every project's store; and its sweep judges by a
  list of registered plans that is older than the queue pop of the same tick.
\<close>

section \<open>Every project's store\<close>

definition sound_all :: "(hub, 'a) comp \<Rightarrow> bool" where
  "sound_all m \<longleftrightarrow> (\<forall>h r h'. m h = (r, h') \<longrightarrow>
     (\<forall>d. ran store_grows (hb_worlds h d) (hb_worlds h' d)) \<and> (host_ok (hb_host h) \<longrightarrow> host_ok (hb_host h')))"

lemma all_basic: "sound_all (cret x)" "sound_all (craise e)"
  by (simp_all add: sound_all_def cret_def craise_def ran_refl)

lemma all_cbind:
  assumes "sound_all m" "\<And>x. sound_all (f x)" shows "sound_all (cbind m f)"
  unfolding sound_all_def
proof (intro allI impI)
  fix h r h' assume r: "cbind m f h = (r, h')"
  obtain q h1 where m: "m h = (q, h1)" by fastforce
  have 1: "\<forall>d. ran store_grows (hb_worlds h d) (hb_worlds h1 d)" "host_ok (hb_host h) \<longrightarrow> host_ok (hb_host h1)"
    using assms(1) m unfolding sound_all_def by blast+
  show "(\<forall>d. ran store_grows (hb_worlds h d) (hb_worlds h' d)) \<and> (host_ok (hb_host h) \<longrightarrow> host_ok (hb_host h'))"
  proof (cases q)
    case (Inr x)
    then have "f x h1 = (r, h')" using r m by (simp add: cbind_def)
    then show ?thesis using assms(2)[of x] 1 ran_trans unfolding sound_all_def by blast
  qed (use r m 1 in \<open>simp add: cbind_def\<close>)
qed

lemma all_project: "sound_walk m \<Longrightarrow> sound_all (in_project d m)"
  unfolding sound_all_def sound_walk_def in_project_def
  by (auto simp: ran_refl split: prod.splits) (metis project.select_convs)+

lemma all_swallow: "sound_all m \<Longrightarrow> sound_all (swallow m)"
  unfolding sound_all_def swallow_def ccatch_def cret_def by (auto split: prod.splits sum.splits)

lemma all_config: "(\<And>xe. sound_walk (f xe)) \<Longrightarrow> sound_all (with_config ae d f)"
  unfolding with_config_def by (auto intro: all_basic all_project split: option.split)

lemma log_sweep: "own store_grows (sweep_cmd xe fresh registered)"
proof -
  have apply_obeys: "log_obeys (apply_tick_delta now fresh s pre (zombie_delta now d obs))" for now s pre d obs
    using command_log.R_op[of "OpTick now fresh s pre (zombie_delta now d obs)" s] zombie_delta_ok
    unfolding command_log.obeys_def by simp
  have one: "own store_grows (sweep_one_cmd xe fresh s)" for s
    unfolding sweep_one_cmd_def gives_def Let_def
    by (auto intro!: own_cbind own_ccatch own_pure own_cret own_emit_if own_emit_each command_log.f_transact apply_obeys
        split: option.split if_splits simp del: cret_run)
  have "own store_grows (sweep_each xe fresh ss)" for ss
  proof (induction ss)
    case (Cons s ss)
    then show ?case unfolding sweep_each.simps by (intro own_cbind one)
  qed (simp only: sweep_each.simps own_cret)
  then show ?thesis unfolding sweep_cmd_def by (intro own_cbind own_pure)
qed

lemma all_tick_rows: "sound_all (tick_rows ae rows)"
proof (induction rows)
  case (Cons r rows)
  then show ?case unfolding tick_rows.simps
    by (intro all_cbind all_swallow all_config walk_world own_cbind log_tick_one own_cret)
qed (simp only: tick_rows.simps all_basic)

lemma walk_post_project: "sound_walk (post_project xe fresh slugs)"
  unfolding post_project_def by (intro walk_cbind walk_post walk_world log_sweep)

lemma all_post_each: "sound_all (post_each ae ps)"
proof (induction ps)
  case (Cons p ps)
  then show ?case by (cases p) (simp only: post_each.simps, intro all_cbind all_swallow all_config walk_post_project)
qed (simp only: post_each.simps all_basic)

lemma swallow_returns: "\<exists>h'. swallow m h = (Inr (), h')"
proof -
  obtain r h' where "m h = (r, h')" by fastforce
  then show ?thesis by (cases r) (simp_all add: swallow_def ccatch_def cret_def)
qed

lemma tick_rows_returns: "\<exists>h'. tick_rows ae rows h = (Inr (), h')"
proof (induction rows arbitrary: h)
  case (Cons r rows)
  let ?m = "with_config ae (pe_root r) (\<lambda>xe. on_world (cbind (tick_one_plan xe True (pe_slug r)) (\<lambda>_. cret ())))"
  obtain h1 where "swallow ?m h = (Inr (), h1)" using swallow_returns[of ?m h] by blast
  then show ?case using Cons[of h1] by simp
qed (simp add: cret_def)

lemma post_each_returns: "\<exists>h'. post_each ae ps h = (Inr (), h')"
proof (induction ps arbitrary: h)
  case (Cons p ps)
  obtain d slugs where p: "p = (d, slugs)" by fastforce
  let ?m = "with_config ae d (\<lambda>xe. post_project xe (ae_fresh ae) slugs)"
  obtain h1 where "swallow ?m h = (Inr (), h1)" using swallow_returns[of ?m h] by blast
  then show ?case using Cons[of h1] p by simp
qed (simp add: cret_def)

text \<open>
  C31 The host's tick poisons nothing. Whatever fails on the way, a configuration that does not load, a store that
  is busy, a rule that raises, the command ends with zero after a turn for every row; every
  project's store keeps its invariant, every plan's history only grows at its end, and the host's
  tables keep their integrity, whatever other processes write in between as long as they do so too.
\<close>

theorem tick_all_keeps_stores:
  assumes "\<And>d. db_ok (w_db (hb_worlds h d))" "host_ok (hb_host h)"
    and "\<And>d f db. f \<in> set (w_script (hb_worlds h d)) \<Longrightarrow> store_grows db (f db)"
    and "cmd_tick_all ae h = (r, h')"
  shows "r = Inr OK \<and> host_ok (hb_host h') \<and> db_ok (w_db (hb_worlds h' d))
    \<and> prefix (history (w_db (hb_worlds h d)) s) (history (w_db (hb_worlds h' d)) s)"
proof -
  obtain h1 where t: "tick_rows ae (entries (Some (hb_host h))) h = (Inr (), h1)" using tick_rows_returns by blast
  let ?ps = "by_path (slugs_by_project ae (entries (Some (hb_host h1))))"
  obtain h2 where p: "post_each ae ?ps h1 = (Inr (), h2)" using post_each_returns by blast
  have r: "r = Inr OK" "h' = h2" using assms(4) t p by (simp_all add: cmd_tick_all_def cret_def)
  have a: "ran store_grows (hb_worlds h d) (hb_worlds h1 d)" "host_ok (hb_host h1)"
    using all_tick_rows t assms(2) unfolding sound_all_def by blast+
  have b: "ran store_grows (hb_worlds h1 d) (hb_worlds h' d)" "host_ok (hb_host h')"
    using all_post_each p a(2) r unfolding sound_all_def by blast+
  have "store_grows\<^sup>*\<^sup>* db db' \<Longrightarrow> store_grows db db'" for db db'
    by (induction rule: rtranclp_induct) (auto intro: grows_refl grows_trans)
  moreover have "ran store_grows (hb_worlds h d) (hb_worlds h' d)" using a(1) b(1) by (rule ran_trans)
  ultimately have "store_grows (w_db (hb_worlds h d)) (w_db (hb_worlds h' d))"
    using assms(3) unfolding ran_def fair_def by blast
  then show ?thesis using assms(1) b(2) r(1) by (auto simp: store_grows_def history_grows_def prefix_def)
qed

section \<open>The popped plan and the sweep\<close>

lemma sweep_each_refines:
  assumes "sweep_all (sweep_one alone (ce_os (xe_env xe)) coolant (xe_now xe) fresh False) slugs ss = Inr ss'" "ss_db ss = w_db w" "w_script w = []"
  shows "\<exists>w'. sweep_each xe fresh slugs w = (Inr (), w') \<and> w_db w' = ss_db ss'"
  using assms
proof (induction slugs arbitrary: ss w)
  case (Cons s slugs)
  obtain ss1 where s1: "sweep_one alone (ce_os (xe_env xe)) coolant (xe_now xe) fresh False s ss = Inr ss1"
    "sweep_all (sweep_one alone (ce_os (xe_env xe)) coolant (xe_now xe) fresh False) slugs ss1 = Inr ss'"
    using Cons.prems(1) by (auto simp: bind_res_Inr)
  from sweep_one_refines[OF s1(1) Cons.prems(2,3)] obtain w1 where
    w1: "sweep_one_cmd xe fresh s w = (Inr (), w1)" "w_db w1 = ss_db ss1" "w_script w1 = []" by blast
  from Cons.IH[OF s1(2) w1(2)[symmetric] w1(3)] w1(1) show ?case by simp
qed simp

lemma sweep_cmd_effect:
  assumes "db_ok (w_db w)" "w_script w = []"
  obtains w' where "sweep_cmd xe fresh registered w = (Inr (), w')"
    "\<And>s. if s \<in> set (plan_slugs (w_db w)) \<and> s \<notin> set registered \<and> zombie (ce_os (xe_env xe)) (w_db w) s
      then ended (w_db w') s else same_plan s (w_db w) (w_db w')"
proof -
  let ?slugs = "filter (\<lambda>s. s \<notin> set registered) (plan_slugs (w_db w))"
  let ?ss = "\<lparr>ss_db = w_db w, ss_results = [], ss_signals = [], ss_stops = []\<rparr>"
  let ?w = "w\<lparr>w_trace := w_trace w @ [(w_db w, w_db w)]\<rparr>"
  have t: "transact (\<lambda>db. (Inr (plan_slugs db), db)) w = (Inr (plan_slugs (w_db w)), ?w)"
    using assms(2) by (simp add: transact_def settle_def)
  have dist: "distinct ?slugs" using assms(1) by (simp add: plan_slugs_def db_ok_def plans_ok_def)
  obtain ss' where ss': "sweep_all (sweep_one alone (ce_os (xe_env xe)) False (xe_now xe) fresh False) ?slugs ?ss = Inr ss'"
    "\<forall>t. if t \<in> set ?slugs \<and> zombie (ce_os (xe_env xe)) (ss_db ?ss) t then ended (ss_db ss') t else same_plan t (ss_db ?ss) (ss_db ss')"
    using sweep_all_effect[of ?ss, OF _ dist, of "ce_os (xe_env xe)" False "xe_now xe" fresh] assms(1) by auto
  obtain w' where w': "sweep_each xe fresh ?slugs ?w = (Inr (), w')" "w_db w' = ss_db ss'"
    using sweep_each_refines[OF ss'(1), of ?w] assms(2) by auto
  have "sweep_cmd xe fresh registered w = (Inr (), w')" using t w'(1) by (simp add: sweep_cmd_def)
  moreover have "if s \<in> set (plan_slugs (w_db w)) \<and> s \<notin> set registered \<and> zombie (ce_os (xe_env xe)) (w_db w) s
      then ended (w_db w') s else same_plan s (w_db w) (w_db w')" for s
    using ss'(2)[rule_format, of s] w'(2) by (auto split: if_splits)
  ultimately show ?thesis by (rule that)
qed


end
