(* ===== verification/Tick_All_Examples.thy ===== *)
theory Tick_All_Examples
  imports Tick_All_Props
begin

text \<open>A host with one project, and a queue popped while a quota pause holds.\<close>

definition example_hub :: "pdb \<Rightarrow> hub" where
  "example_hub db = \<lparr>hb_worlds = (\<lambda>_. calm db), hb_host = pj_host (example_project db)\<rparr>"

definition example_all :: all_env where
  "example_all = \<lparr>ae_xp = (\<lambda>d. if d = ''/p'' then Some example_xp else None), ae_resolve = Some, ae_fresh = ''f00d''\<rparr>"

theorem tick_all_keeps_stores_witness:
  "case cmd_tick_all example_all (example_hub held_db) of (r, h') \<Rightarrow>
     r = Inr OK \<and> host_ok (hb_host h') \<and> db_ok (w_db (hb_worlds h' ''/p''))
     \<and> prefix (history held_db ''w1'') (history (w_db (hb_worlds h' ''/p'')) ''w1'')"
proof -
  obtain r h' where r: "cmd_tick_all example_all (example_hub held_db) = (r, h')" by fastforce
  have h: "hb_worlds (example_hub held_db) = (\<lambda>_. calm held_db)" "hb_host (example_hub held_db) = pj_host (example_project held_db)"
    by (simp_all add: example_hub_def)
  from tick_all_keeps_stores[OF _ _ _ r, of "''/p''" "''w1''"] show ?thesis
    unfolding r prod.case h by (simp add: held_db_ok example_host_ok)
qed

definition paused_queue :: pdb where
  "paused_queue = two_queued\<lparr>t_quota := Some (pause_row None \<lparr>qm_signature = ''session_limit'', qm_line = ''no reset''\<rparr> 5)\<rparr>"

lemma paused_queue_ok: "db_ok paused_queue"
  using two_queued_db_ok
  by (simp add: paused_queue_def db_ok_def plans_ok_def claims_ok_def keys_ok_def events_ok_def history_def plan_events_def)

definition popped :: project where
  "popped = snd (post_loop example_xp (example_project paused_queue))"

lemma popped_run: "post_loop example_xp (example_project paused_queue) = (Inr (), popped)"
proof -
  have "fst (post_loop example_xp (example_project paused_queue)) = Inr ()" by code_simp
  then show ?thesis unfolding popped_def by (metis prod.collapse)
qed


end
