(* ===== verification/Message_Text.thy ===== *)
theory Message_Text
  imports Session_Start Notify
begin

text \<open>
  The texts that are sent: the blocker bodies of \<open>state_blocker.py\<close> with their numbered, cut
  options and the compact form past the limit, and the bodies that \<open>notify.py\<close> renders for each
  kind. Texts are the bytes of their UTF-8 encoding; lengths and cuts count code points.
\<close>

abbreviation EM_DASH :: string where "EM_DASH \<equiv> [CHR 0xE2, CHR 0x80, CHR 0x94]"
abbreviation ELLIPSIS :: string where "ELLIPSIS \<equiv> [CHR 0xE2, CHR 0x80, CHR 0xA6]"
abbreviation ARROW :: string where "ARROW \<equiv> [CHR 0xE2, CHR 0x86, CHR 0x92]"

section \<open>Cuts\<close>

definition BLOCKER_BODY_SOFT_LIMIT :: nat where "BLOCKER_BODY_SOFT_LIMIT = 800"
definition QUESTION_TRUNCATE :: nat where "QUESTION_TRUNCATE = 200"
definition OPTION_TRUNCATE :: nat where "OPTION_TRUNCATE = 80"

text \<open>What stands before the last blank of a text (\<open>None\<close>: there is no blank).\<close>

definition before_last_space :: "string \<Rightarrow> string option" where
  "before_last_space s =
     (case dropWhile (\<lambda>c. c \<noteq> CHR 0x20) (rev s) of [] \<Rightarrow> None | _ # r \<Rightarrow> Some (rev r))"

text \<open>\<open>s[:s.rfind(' ', 0, n - 1)]\<close>, or all \<open>n - 1\<close> characters when the blank is missing or the first.\<close>

definition truncate_at_word :: "string \<Rightarrow> nat \<Rightarrow> string" where
  "truncate_at_word s max_len =
     (if text_len s \<le> max_len then s
      else let t = text_take (max_len - 1) s;
               cut = (case before_last_space t of None \<Rightarrow> t | Some [] \<Rightarrow> t | Some (c # cs) \<Rightarrow> c # cs)
           in rstrip cut @ ELLIPSIS)"

fun option_lines :: "nat \<Rightarrow> nat \<Rightarrow> string list \<Rightarrow> string list" where
  "option_lines limit i [] = []"
| "option_lines limit i (o' # os) =
     (''['' @ show_nat i @ ''] '' @ truncate_at_word o' limit) # option_lines limit (Suc i) os"

definition render_option_block :: "string list \<Rightarrow> nat \<Rightarrow> string" where
  "render_option_block options per_option_limit = join_lines (option_lines per_option_limit 0 options)"

fun raw_option_lines :: "nat \<Rightarrow> string list \<Rightarrow> string list" where
  "raw_option_lines i [] = []"
| "raw_option_lines i (o' # os) = (''['' @ show_nat i @ ''] '' @ o') # raw_option_lines (Suc i) os"

section \<open>The blocker bodies\<close>

definition answer_command :: "string \<Rightarrow> string" where
  "answer_command plan = ''clu answer --plan '' @ plan @ '' <choice>''"

definition long_body :: "string \<Rightarrow> string \<Rightarrow> string \<Rightarrow> string \<Rightarrow> string list \<Rightarrow> string" where
  "long_body plan blocker_id phase q options =
     [CHR 0xE2, CHR 0x9D, CHR 0x93] @ '' '' @ plan @ ''/'' @ blocker_id @ '' ['' @ phase @ '']'' @ [newline] @ q @
     [newline] @ (if options = [] then [] else render_option_block options OPTION_TRUNCATE @ [newline]) @ [newline] @
     ''Reply: `'' @ plan @ '' <number>` or just the number if this is the only open question.'' @ [newline] @
     ''Terminal: '' @ answer_command plan"

definition compact_body :: "string \<Rightarrow> string \<Rightarrow> string \<Rightarrow> string \<Rightarrow> nat \<Rightarrow> string" where
  "compact_body plan blocker_id phase q n =
     [CHR 0xE2, CHR 0x9D, CHR 0x93] @ '' '' @ plan @ ''/'' @ blocker_id @ '' ['' @ phase @ '']'' @ [newline] @ q @
     [newline, newline] @ show_nat n @ '' '' @ (if n = 1 then ''option'' else ''options'') @ ''. Run `'' @
     answer_command plan @ ''` to answer.''"

definition blocker_body :: "string \<Rightarrow> string \<Rightarrow> string \<Rightarrow> string \<Rightarrow> string list \<Rightarrow> string" where
  "blocker_body plan blocker_id phase question options =
     (let q = truncate_at_word question QUESTION_TRUNCATE;
          body = long_body plan blocker_id phase q options
      in if text_len body \<le> BLOCKER_BODY_SOFT_LIMIT then body
         else compact_body plan blocker_id phase q (length options))"

definition render_stalled :: "string \<Rightarrow> string \<Rightarrow> int \<Rightarrow> string" where
  "render_stalled plan phase age =
     [CHR 0xE2, CHR 0x9A, CHR 0xA0, CHR 0xEF, CHR 0xB8, CHR 0x8F] @ ''  '' @ plan @ ''/'' @ phase @ '' stalled '' @
     EM_DASH @ '' no heartbeat for '' @ show_int (age div minutes 1) @ '' min.''"

definition render_halted :: "string \<Rightarrow> string \<Rightarrow> nat \<Rightarrow> string" where
  "render_halted plan phase attempts =
     [CHR 0xF0, CHR 0x9F, CHR 0x9B, CHR 0x91] @ '' '' @ plan @ ''/'' @ phase @ '' halted '' @ EM_DASH @ '' '' @
     show_nat attempts @ '' attempts. `clu retry --plan '' @ plan @ ''` to resume.''"

definition render_worker_dead :: "string \<Rightarrow> string \<Rightarrow> int \<Rightarrow> string" where
  "render_worker_dead plan phase pid =
     [CHR 0xF0, CHR 0x9F, CHR 0x92, CHR 0x80] @ '' '' @ plan @ ''/'' @ phase @ '' worker died (pid='' @ show_int pid @
     '') '' @ EM_DASH @ '' claim released, will re-dispatch next tick.''"

definition render_stuck_blocker :: "string \<Rightarrow> string \<Rightarrow> string \<Rightarrow> string \<Rightarrow> string list \<Rightarrow> int \<Rightarrow> string" where
  "render_stuck_blocker plan blocker_id phase question options age_min =
     [CHR 0xE2, CHR 0x8F, CHR 0xB0] @ '' '' @ plan @ ''/'' @ blocker_id @ '' still open ('' @ show_int age_min @
     ''min) ['' @ phase @ '']'' @ [newline] @ question @ [newline] @ join_lines (raw_option_lines 0 options) @
     [newline, newline] @ ''Reply: `'' @ plan @ '' <number>`.''"

section \<open>The other bodies\<close>

definition render_completed :: "string \<Rightarrow> nat \<Rightarrow> string" where
  "render_completed plan commits =
     [CHR 0xE2, CHR 0x9C, CHR 0x85] @ '' '' @ plan @ '' done '' @ EM_DASH @ '' '' @ show_nat commits @ '' commit(s).''"

definition render_queue_skipped :: "string \<Rightarrow> string \<Rightarrow> string" where
  "render_queue_skipped slug reason =
     [CHR 0xE2, CHR 0x8F, CHR 0xAD, CHR 0xEF, CHR 0xB8, CHR 0x8F] @ ''  queue skipped '' @ slug @ '' '' @ EM_DASH @
     '' '' @ reason @ ''.''"

definition render_stalled_claim :: "string \<Rightarrow> string \<Rightarrow> int \<Rightarrow> string" where
  "render_stalled_claim plan phase age_min =
     [CHR 0xF0, CHR 0x9F, CHR 0x90, CHR 0x8C] @ '' '' @ plan @ ''/'' @ phase @ '' claim stalled ('' @ show_int age_min @
     ''min past lease).'' @ [newline] @ ''Worker is unresponsive. Run `clu release-claim --plan '' @ plan @
     '' --phase '' @ phase @ ''` to free it, or `clu retry` if you'' @ [CHR 0x27] @ ''ve fixed the underlying cause.''"

definition render_heartbeat_loop_failing :: "string \<Rightarrow> string \<Rightarrow> string \<Rightarrow> string" where
  "render_heartbeat_loop_failing plan phase log_path =
     [CHR 0xF0, CHR 0x9F, CHR 0x92, CHR 0x94] @ '' '' @ plan @ ''/'' @ phase @
     '': heartbeat loop failing (3+ consecutive errors).'' @ [newline] @ ''Worker may be wedged '' @ EM_DASH @
     '' `clu heartbeat` is exiting non-zero silently.'' @ [newline] @ ''Inspect the sidecar log: '' @ log_path @
     [newline] @ ''Run `clu release-claim --plan '' @ plan @ '' --phase '' @ phase @ ''` to free it.''"

definition render_worker_idle :: "string \<Rightarrow> string \<Rightarrow> int \<Rightarrow> rat \<Rightarrow> string" where
  "render_worker_idle plan phase pid low =
     [CHR 0xF0, CHR 0x9F, CHR 0x98, CHR 0xB4] @ '' '' @ plan @ ''/'' @ phase @ '' (pid '' @ show_int pid @
     ''): worker idle for ~'' @ show_int (round_half_even low) @ ''min.'' @ [newline] @
     ''No active Bash tool, and its process tree burned almost no CPU across the whole window.'' @ [newline] @
     ''Investigate: `kill -0 '' @ show_int pid @ ''` confirms alive; `ps -p '' @ show_int pid @ ''` for CPU; `lsof -p '' @
     show_int pid @ '' -i` for sockets.'' @ [newline] @ ''If wedged: `clu release-claim --plan '' @ plan @ '' --phase '' @
     phase @ ''` to free it.''"

definition render_worker_dead_reported :: "string \<Rightarrow> string \<Rightarrow> int option \<Rightarrow> string option \<Rightarrow> string" where
  "render_worker_dead_reported plan phase pid log_path =
     [CHR 0xF0, CHR 0x9F, CHR 0x92, CHR 0x80] @ '' '' @ plan @ ''/'' @ phase @ '' (pid '' @
     (case pid of None \<Rightarrow> ''None'' | Some p \<Rightarrow> show_int p) @
     ''): heartbeat daemon detected the worker dead mid-phase.'' @
     (case log_path of None \<Rightarrow> [] | Some [] \<Rightarrow> [] | Some p \<Rightarrow> newline # ''Post-mortem log: '' @ p) @
     [newline] @ ''The claim will be released for redispatch (death-recovery). If it isn'' @ [CHR 0x27] @
     ''t, free it: `clu release-claim --plan '' @ plan @ '' --phase '' @ phase @ ''`.''"

definition render_systemic_failure :: "string \<Rightarrow> string \<Rightarrow> string \<Rightarrow> string" where
  "render_systemic_failure plan phase signature =
     [CHR 0xF0, CHR 0x9F, CHR 0x9A, CHR 0xA8] @ '' '' @ plan @ ''/'' @ phase @ '' paused '' @ EM_DASH @
     '' systemic failure: '' @ signature @ ''. Run `clu resume --plan '' @ plan @ ''` once cleared.''"

definition render_worktree_missing :: "string \<Rightarrow> string \<Rightarrow> string" where
  "render_worktree_missing plan path =
     [CHR 0xF0, CHR 0x9F, CHR 0x8C, CHR 0xB3] @ '' '' @ plan @ '' paused '' @ EM_DASH @ '' worktree missing at '' @ path @
     ''. Restore the dir (e.g. `git worktree add`) or edit state.worktree, then `clu resume --plan '' @ plan @ ''`.''"

definition comma_join :: "string list \<Rightarrow> string" where
  "comma_join xs = concat (case xs of [] \<Rightarrow> [] | y # ys \<Rightarrow> y # map (\<lambda>z. '', '' @ z) ys)"

definition render_gate_clean :: "string \<Rightarrow> string list \<Rightarrow> string" where
  "render_gate_clean batch slugs =
     ''Batch '' @ batch @ '' dry-merge clean: '' @ comma_join slugs"

definition render_gate_dirty :: "string \<Rightarrow> string \<Rightarrow> string \<Rightarrow> string" where
  "render_gate_dirty batch outcome path =
     ''Batch '' @ batch @ '' dry-merge DIRTY ('' @ outcome @ ''). Follow-up: '' @ path"

definition render_plan_auto_archived :: "string \<Rightarrow> string \<Rightarrow> string" where
  "render_plan_auto_archived slug branch =
     ''Auto-archived '' @ slug @ '' (branch '' @ branch @ '' merged to origin/main)''"

definition render_ready_to_ship :: "string list \<Rightarrow> string \<Rightarrow> string" where
  "render_ready_to_ship slugs mode =
     (let flag = (if mode = ''as_pr'' then ''--as-pr'' else ''--direct'');
          label = (if mode = ''as_pr'' then '' (PR mode)'' else []);
          (head, cmd) =
            (case slugs of
               [slug] \<Rightarrow>
                 (''READY TO SHIP'' @ label @ '': '' @ slug, ''clu ship --plan '' @ slug @ '' '' @ flag @ '' --yes'')
             | _ \<Rightarrow>
                 (''READY TO SHIP'' @ label @ '': '' @ show_nat (length slugs) @ '' plan(s) '' @ EM_DASH @ '' '' @ comma_join slugs,
                  ''clu ship --all-done '' @ flag @ '' --yes''))
      in head @ [newline] @ ''Run: '' @ cmd)"

text \<open>The local wall clock as minutes of the day: \<open>strftime("%I:%M%p").lstrip("0").lower()\<close>.\<close>

definition clock12 :: "nat \<Rightarrow> string" where
  "clock12 m =
     (let h = m div 60; n = m mod 60 in
      show_nat (if h mod 12 = 0 then 12 else h mod 12) @ '':'' @ (if n < 10 then ''0'' else []) @ show_nat n
        @ (if h < 12 then ''am'' else ''pm''))"

definition render_quota_paused :: "string \<Rightarrow> string \<Rightarrow> nat \<Rightarrow> string \<Rightarrow> string" where
  "render_quota_paused plan line minute zone_name =
     [CHR 0xE2, CHR 0x8F, CHR 0xB8, CHR 0xEF, CHR 0xB8, CHR 0x8F] @ '' Quota pause '' @ EM_DASH @ '' '' @ plan @ '': '' @
     line @ [newline] @ ''Auto-resumes ~'' @ clock12 minute @ '' '' @ zone_name @
     '' (reset + ~2min). No action needed.''"

definition render_quota_stuck :: "string \<Rightarrow> string \<Rightarrow> string" where
  "render_quota_stuck plan line =
     [CHR 0xF0, CHR 0x9F, CHR 0x9A, CHR 0xAB] @ '' Quota pause STUCK '' @ EM_DASH @ '' '' @ plan @ '': '' @ line @
     [newline] @ ''Reset time didn'' @ [CHR 0x27] @ ''t parse '' @ EM_DASH @
     '' no auto-resume. Clear it once quota returns: clu quota clear''"

definition render_quota_resumed :: "string \<Rightarrow> string" where
  "render_quota_resumed plan =
     [CHR 0xE2, CHR 0x96, CHR 0xB6, CHR 0xEF, CHR 0xB8, CHR 0x8F] @ '' Quota resumed '' @ EM_DASH @ '' '' @ plan @
     '': canary survived, dispatching normally.''"

definition render_worktree_conflict :: "string \<Rightarrow> string \<Rightarrow> string \<Rightarrow> string" where
  "render_worktree_conflict project a b =
     [CHR 0xF0, CHR 0x9F, CHR 0x8C, CHR 0xB3] @ '' '' @ a @ '' '' @ [CHR 0xE2, CHR 0x9F, CHR 0xB7] @ '' '' @ b @
     '' in '' @ project @ '' '' @ EM_DASH @
     '' both active without a worktree. Concurrent edits will collide. Pause one (`clu pause`) or rerun init '' @
     ''with `--worktree`.''"

section \<open>Bounds\<close>

lemma text_len_cut: "text_len (rstrip t @ ELLIPSIS) \<le> Suc (text_len t)"
proof -
  have "text_len ELLIPSIS = 1" by code_simp
  then show ?thesis using text_len_rstrip[of t] by simp
qed

lemma before_last_space_len:
  assumes "before_last_space t = Some s" shows "text_len s \<le> text_len t"
proof -
  obtain c r where r: "dropWhile (\<lambda>c. c \<noteq> CHR 0x20) (rev t) = c # r" "s = rev r"
    using assms by (auto simp: before_last_space_def split: list.splits)
  have "rev t = takeWhile (\<lambda>c. c \<noteq> CHR 0x20) (rev t) @ c # r" using r(1) by (metis takeWhile_dropWhile_id)
  then have "t = rev r @ rev (takeWhile (\<lambda>c. c \<noteq> CHR 0x20) (rev t) @ [c])" by (metis append.assoc append_Cons append_Nil rev_append rev_rev_ident)
  then have "text_len t = text_len s + text_len (rev (takeWhile (\<lambda>c. c \<noteq> CHR 0x20) (rev t) @ [c]))"
    using r(2) text_len_append by metis
  then show ?thesis by simp
qed

lemma truncate_at_word_len:
  assumes "0 < n" shows "text_len (truncate_at_word s n) \<le> n"
proof (cases "text_len s \<le> n")
  case False
  let ?t = "text_take (n - 1) s"
  obtain cut where c: "truncate_at_word s n = rstrip cut @ ELLIPSIS" "text_len cut \<le> text_len ?t"
    using False before_last_space_len[of ?t]
    by (fastforce simp: truncate_at_word_def Let_def split: option.split list.split)
  have "text_len ?t \<le> n - 1" by (rule text_len_take)
  with c text_len_cut[of cut] assms show ?thesis unfolding c(1) by linarith
qed (simp add: truncate_at_word_def)

lemma answer_command_len: "text_len (answer_command plan) = 27 + text_len plan"
proof -
  have "text_len ''clu answer --plan '' = 18" "text_len '' <choice>'' = 9" by code_simp+
  then show ?thesis unfolding answer_command_def text_len_append by simp
qed

lemma compact_body_len:
  assumes "n < 10 ^ 20"
  shows "text_len (compact_body plan blocker_id phase q n)
    \<le> 2 * text_len plan + text_len blocker_id + text_len phase + text_len q + 85"
proof -
  have "text_len (show_nat n) \<le> 20" using text_len_le[of "show_nat n"] show_nat_length[of n 19] assms by simp
  moreover have "text_len [CHR 0xE2, CHR 0x9D, CHR 0x93] = 1" "text_len ''options'' = 7" "text_len ''option'' = 6"
    "text_len '' to answer.'' = 11" "text_len ''. Run `'' = 7" "text_len '' '' = 1" "text_len ''/'' = 1"
    "text_len '' ['' = 2" "text_len '']'' = 1" "text_len [newline] = 1" "text_len [newline, newline] = 2" "text_len ''` to answer.'' = 12"
    by code_simp+
  ultimately show ?thesis
    unfolding compact_body_def text_len_append answer_command_len by (cases "n = 1") simp_all
qed

lemma slug_length:
  assumes "slug_re_match s" shows "text_len s \<le> 65"
  using assms
proof (cases rule: slug_re_cases)
  case 1
  then show ?thesis using text_len_le[of s] by (auto simp: slug_pattern_def split: list.splits)
next
  case (2 t)
  then show ?thesis using text_len_le[of s] by (auto simp: slug_pattern_def split: list.splits)
qed

text \<open>
  C40 The size of a blocker message. Whatever the question and the options hold, the body of a blocker
  of a plan and a phase with valid names fits the limit of the message channels, and it always
  carries the command that answers it; past the limit the options are replaced by their number,
  never the command.
\<close>

theorem blocker_body_fits:
  assumes "slug_re_match plan" "slug_re_match phase" "text_len blocker_id \<le> 64" "length options < 10 ^ 20"
  shows "text_len (blocker_body plan blocker_id phase question options) \<le> BLOCKER_BODY_SOFT_LIMIT
    \<and> sublist (answer_command plan) (blocker_body plan blocker_id phase question options)"
proof -
  let ?q = "truncate_at_word question QUESTION_TRUNCATE"
  have "text_len ?q \<le> 200" using truncate_at_word_len[of QUESTION_TRUNCATE question] by (simp add: QUESTION_TRUNCATE_def)
  then have "text_len (compact_body plan blocker_id phase ?q (length options)) \<le> BLOCKER_BODY_SOFT_LIMIT"
    using compact_body_len[OF assms(4), of plan blocker_id phase ?q] slug_length[OF assms(1)] slug_length[OF assms(2)] assms(3)
    by (simp add: BLOCKER_BODY_SOFT_LIMIT_def)
  moreover have "sublist (answer_command plan) (long_body plan blocker_id phase ?q options)"
    unfolding long_body_def by (rule suffix_imp_sublist, simp only: append_assoc[symmetric] suffix_def, blast)
  moreover have "sublist (answer_command plan) (compact_body plan blocker_id phase ?q (length options))"
    unfolding compact_body_def by (simp only: append_assoc[symmetric] sublist_def) blast
  ultimately show ?thesis by (simp add: blocker_body_def Let_def)
qed

theorem blocker_body_fits_witness:
  "text_len (blocker_body ''web'' ''q-1'' ''login'' ''Which?'' (replicate 40 ''another option'')) \<le> BLOCKER_BODY_SOFT_LIMIT
   \<and> sublist (answer_command ''web'') (blocker_body ''web'' ''q-1'' ''login'' ''Which?'' (replicate 40 ''another option''))"
  by (rule blocker_body_fits) (simp_all add: text_len_def is_cont_def slug_eval)

end
