(* ===== verification/Watch_Text.thy ===== *)
theory Watch_Text
  imports Message_Text Plan_Parser Dispatch
begin

text \<open>
  The lines of the event stream (\<open>watch.py\<close>): which events are shown in which mode, the formatter
  of each event type, the task records with their escaped message, and the lines a stream starts
  with. \<open>sh\<close> prints the values that are neither texts, integers, booleans nor null (floats,
  timestamps and containers), as Python's \<open>str\<close> does.
\<close>

abbreviation EVENT_QUEUE_APPENDED :: string where "EVENT_QUEUE_APPENDED \<equiv> ''queue_appended''"
abbreviation EVENT_QUEUE_REJECTED :: string where "EVENT_QUEUE_REJECTED \<equiv> ''queue_rejected''"
abbreviation EVENT_WORKTREE_ATTACHED :: string where "EVENT_WORKTREE_ATTACHED \<equiv> ''worktree_attached''"

section \<open>What is shown\<close>

definition DEFAULT_VISIBLE :: "string list" where
  "DEFAULT_VISIBLE =
    [EVENT_PHASE_STARTED, EVENT_PHASE_COMPLETED, EVENT_PHASE_BLOCKED, EVENT_BLOCKER_ANSWERED,
     EVENT_BLOCKER_CONSUMED, EVENT_BLOCKER_SLA_EXCEEDED, EVENT_PHASE_MAX_ATTEMPTS, EVENT_PHASE_STALLED,
     EVENT_TASK_SPAWNED, EVENT_TASK_COMPLETED, EVENT_PLAN_COMPLETED, EVENT_DISPATCH_FAILED, EVENT_SYSTEMIC_FAILURE,
     EVENT_PAUSED, EVENT_RESUMED, EVENT_RETRY_REQUESTED, EVENT_QUEUE_POPPED, EVENT_WORKTREE_MISSING,
     EVENT_WORKTREE_CONFLICT_WARNING, EVENT_TOOL_STUCK, EVENT_QUEUE_APPENDED, EVENT_QUEUE_REJECTED,
     EVENT_ATTESTATION_REFUSED, EVENT_PHASE_WORKER_DEAD, EVENT_PHASE_WORKER_DEAD_REPORTED]"

definition VERBOSE_ONLY :: "string list" where
  "VERBOSE_ONLY =
    [EVENT_LEASE_EXPIRED, EVENT_LEASE_EXTENDED, EVENT_PHASE_ORPHAN_REAPED, EVENT_CLAIM_FORCE_RELEASED,
     EVENT_ATTEMPTS_RESET, EVENT_STUCK_BLOCKER_REPINGED, EVENT_STALLED_CLAIM_NOTIFIED, EVENT_HEARTBEAT_LOOP_FAILING,
     EVENT_WORKTREE_ATTACHED, EVENT_WORKTREE_CLEANED, EVENT_WORKTREE_RETAINED_AHEAD]"

definition OPERATOR_VISIBLE :: "string list" where
  "OPERATOR_VISIBLE =
    [EVENT_TOOL_STUCK, EVENT_PHASE_BLOCKED, EVENT_ATTESTATION_REFUSED, EVENT_STALLED_CLAIM_NOTIFIED,
     EVENT_HEARTBEAT_LOOP_FAILING, EVENT_PHASE_WORKER_DEAD, EVENT_WORKER_IDLE, EVENT_PHASE_WORKER_DEAD_REPORTED]"

section \<open>Values in a text\<close>

definition py_str :: "(jval \<Rightarrow> string) \<Rightarrow> jval \<Rightarrow> string" where
  "py_str sh v =
     (case v of JNull \<Rightarrow> ''None'' | JBool b \<Rightarrow> if b then ''True'' else ''False''
      | JInt i \<Rightarrow> show_int i | JStr s \<Rightarrow> s | _ \<Rightarrow> sh v)"

text \<open>\<open>f"{e.get(k, d)}"\<close>\<close>

definition fld_or :: "(jval \<Rightarrow> string) \<Rightarrow> obj \<Rightarrow> string \<Rightarrow> string \<Rightarrow> string" where
  "fld_or sh e k d = (case dget e k of None \<Rightarrow> d | Some v \<Rightarrow> py_str sh v)"

abbreviation fld :: "(jval \<Rightarrow> string) \<Rightarrow> obj \<Rightarrow> string \<Rightarrow> string" where
  "fld sh e k \<equiv> fld_or sh e k ''?''"

text \<open>
  Nothing of a value that counts as false; the text itself, cut to \<open>n\<close> characters; a container
  that is short enough is printed, a number has no length.
\<close>

definition trunc :: "(jval \<Rightarrow> string) \<Rightarrow> jval \<Rightarrow> nat \<Rightarrow> string res" where
  "trunc sh v n =
     (let cut = (\<lambda>s. if text_len s \<le> n then s else text_take (n - 1) s @ ELLIPSIS) in
      if \<not> truthy v then Inr []
      else case v of
        JStr s \<Rightarrow> Inr (cut s)
      | JTime t \<Rightarrow> Inr (cut (sh v))
      | JList vs \<Rightarrow> if length vs \<le> n then Inr (sh v) else Inl (RuntimeErr ''TypeError'')
      | JObj d \<Rightarrow> if length d \<le> n then Inr (sh v) else Inl (RuntimeErr ''TypeError'')
      | _ \<Rightarrow> Inl (RuntimeErr ''TypeError''))"

text \<open>\<open>v[:7]\<close>\<close>

definition first7 :: "(jval \<Rightarrow> string) \<Rightarrow> jval \<Rightarrow> string res" where
  "first7 sh v =
     (case v of
        JStr s \<Rightarrow> Inr (text_take 7 s)
      | JTime t \<Rightarrow> Inr (text_take 7 (sh v))
      | JList vs \<Rightarrow> Inr (sh (JList (take 7 vs)))
      | _ \<Rightarrow> Inl (RuntimeErr ''TypeError''))"

definition phase_prefix :: "(jval \<Rightarrow> string) \<Rightarrow> string \<Rightarrow> obj \<Rightarrow> string" where
  "phase_prefix sh slug e = (if dtrue e ''phase'' then slug @ ''/'' @ fld sh e ''phase'' else slug)"

text \<open>\<open>x + (f" ({...})" if e.get(k) else "")\<close>\<close>

definition in_parens :: "obj \<Rightarrow> string \<Rightarrow> string res \<Rightarrow> string res" where
  "in_parens e k shown = (if dtrue e k then bind_res shown (\<lambda>s. Inr ('' ('' @ s @ '')'')) else Inr [])"

section \<open>The formatters\<close>

definition answer_line :: "string \<Rightarrow> string \<Rightarrow> string" where
  "answer_line slug bid = ''Answer: clu answer --project . --plan '' @ slug @ '' --blocker '' @ bid @ '' <answer>''"

definition fmt_blocked :: "(jval \<Rightarrow> string) \<Rightarrow> string \<Rightarrow> obj \<Rightarrow> obj option \<Rightarrow> string res" where
  "fmt_blocked sh slug e blocker =
     (let bid = fld sh e ''blocker_id'' in
      bind_res (trunc sh (jget e ''question'') 100) (\<lambda>q.
        let first = phase_prefix sh slug e @ '': BLOCKED '' @ bid @ (if q = [] then [] else '' '' @ EM_DASH @ '' '' @ q) in
        case blocker of
          None \<Rightarrow> Inr first
        | Some b \<Rightarrow>
            let opts = render_option_block (map text_of (blocker_options b)) OPTION_TRUNCATE in
            Inr (join_lines ([first] @ (if opts = [] then [] else [opts]) @ [answer_line slug bid]))))"

definition fmt_attest_refused :: "(jval \<Rightarrow> string) \<Rightarrow> string \<Rightarrow> obj \<Rightarrow> string res" where
  "fmt_attest_refused sh slug e =
     (let gate = fld sh e ''gate'';
          stamped = (if dtrue e ''stamped_at'' then jget e ''stamped_at'' else JStr ''never'');
          head = (if dtrue e ''head_sha'' then jget e ''head_sha'' else JStr ''?'')
      in bind_res (first7 sh head) (\<lambda>head7.
         bind_res (if stamped \<noteq> JStr ''never'' then first7 sh stamped else Inr ''never'') (\<lambda>stamped7.
           Inr (phase_prefix sh slug e @ '': ATTESTATION REFUSED ('' @ gate @ '' gate) stamped='' @ stamped7
             @ '' head='' @ head7))))"

definition FORMATTERS :: "(jval \<Rightarrow> string) \<Rightarrow> (string \<times> (string \<Rightarrow> obj \<Rightarrow> string res)) list" where
  "FORMATTERS sh =
     [(EVENT_PHASE_STARTED, \<lambda>slug e.
        Inr (phase_prefix sh slug e @ '': started (attempt '' @ fld_or sh e ''attempts'' ''1'' @ '')'')),
      (EVENT_PHASE_COMPLETED, \<lambda>slug e.
        Inr (phase_prefix sh slug e @ '': completed'')),
      (EVENT_PHASE_BLOCKED, \<lambda>slug e.
        fmt_blocked sh slug e None),
      (EVENT_BLOCKER_ANSWERED, \<lambda>slug e.
        bind_res (trunc sh (jget e ''answer'') 100) (\<lambda>t. Inr (phase_prefix sh slug e @ '': answer received for '' @ fld sh e ''blocker_id'' @ '': '' @ t))),
      (EVENT_BLOCKER_CONSUMED, \<lambda>slug e.
        Inr (slug @ '': blocker '' @ fld sh e ''blocker_id'' @ '' consumed '' @ EM_DASH @ '' phase resuming'')),
      (EVENT_BLOCKER_SLA_EXCEEDED, \<lambda>slug e.
        Inr (slug @ '': blocker '' @ fld sh e ''blocker_id'' @ '' SLA exceeded ('' @ fld sh e ''age_hours'' @ ''h)'')),
      (EVENT_PHASE_MAX_ATTEMPTS, \<lambda>slug e.
        Inr (phase_prefix sh slug e @ '': HALTED max attempts ('' @ fld sh e ''attempts'' @ '')'')),
      (EVENT_PHASE_STALLED, \<lambda>slug e.
        Inr (phase_prefix sh slug e @ '': stalled ('' @ fld sh e ''age_seconds'' @ ''s since last heartbeat)'')),
      (EVENT_TASK_SPAWNED, \<lambda>slug e.
        Inr (phase_prefix sh slug e @ '': spawned task '' @ fld sh e ''task'')),
      (EVENT_TASK_COMPLETED, \<lambda>slug e.
        Inr (slug @ '': task '' @ fld sh e ''task'' @ '' done'')),
      (EVENT_PLAN_COMPLETED, \<lambda>slug e.
        Inr (slug @ '': PLAN DONE'')),
      (EVENT_PLAN_ABANDONED, \<lambda>slug e.
        bind_res (in_parens e ''reason'' (Inr (fld sh e ''reason''))) (\<lambda>t. Inr (slug @ '': ABANDONED'' @ t))),
      (EVENT_DISPATCH_FAILED, \<lambda>slug e.
        bind_res (trunc sh (jget e ''reason'') 100) (\<lambda>t. Inr (phase_prefix sh slug e @ '': dispatch failed '' @ EM_DASH @ '' '' @ t))),
      (EVENT_SYSTEMIC_FAILURE, \<lambda>slug e.
        bind_res (trunc sh (jget e ''signature'') 100) (\<lambda>t. Inr (slug @ '': SYSTEMIC FAILURE '' @ EM_DASH @ '' '' @ t))),
      (EVENT_PAUSED, \<lambda>slug e.
        bind_res (in_parens e ''reason'' (trunc sh (jget e ''reason'') 100)) (\<lambda>t. Inr (slug @ '': paused'' @ t))),
      (EVENT_RESUMED, \<lambda>slug e.
        Inr (slug @ '': resumed'')),
      (EVENT_RETRY_REQUESTED, \<lambda>slug e.
        Inr (phase_prefix sh slug e @ '': retry requested'')),
      (EVENT_QUEUE_POPPED, \<lambda>slug e.
        Inr (slug @ '': popped '' @ fld sh e ''slug'' @ '' from queue (by '' @ fld sh e ''added_by'' @ '')'')),
      (EVENT_WORKTREE_MISSING, \<lambda>slug e.
        Inr (slug @ '': WORKTREE MISSING '' @ EM_DASH @ '' '' @ fld sh e ''worktree_path'')),
      (EVENT_WORKTREE_CONFLICT_WARNING, \<lambda>slug e.
        Inr (slug @ '': worktree conflict with '' @ fld sh e ''other_slug'' @ '' '' @ EM_DASH @
        '' both plans share project without isolated worktrees'')),
      (EVENT_LEASE_EXPIRED, \<lambda>slug e.
        Inr (phase_prefix sh slug e @ '': lease expired'')),
      (EVENT_PHASE_ORPHAN_REAPED, \<lambda>slug e.
        Inr (phase_prefix sh slug e @ '': orphan reaped pid='' @ fld sh e ''pid'' @ '' signaled='' @ fld sh e ''signaled'')),
      (EVENT_LEASE_EXTENDED, \<lambda>slug e.
        Inr (phase_prefix sh slug e @ '': lease extended by '' @ fld sh e ''extended_by_minutes'' @ ''min '' @ ARROW @ '' '' @
        fld sh e ''new_expires'')),
      (EVENT_CLAIM_FORCE_RELEASED, \<lambda>slug e.
        Inr (phase_prefix sh slug e @ '': claim force-released'' @ (if dtrue e ''forced'' then '' (forced)'' else []))),
      (EVENT_ATTEMPTS_RESET, \<lambda>slug e.
        Inr (phase_prefix sh slug e @ '': attempts reset'')),
      (EVENT_STUCK_BLOCKER_REPINGED, \<lambda>slug e.
        Inr (phase_prefix sh slug e @ '': blocker '' @ fld sh e ''blocker_id'' @ '' re-pinged ('' @ fld sh e ''age_min'' @
        ''min open)'')),
      (EVENT_STALLED_CLAIM_NOTIFIED, \<lambda>slug e.
        Inr (phase_prefix sh slug e @ '': stalled claim notification sent ('' @ fld sh e ''stalled_min'' @ ''min past lease)'')),
      (EVENT_HEARTBEAT_LOOP_FAILING, \<lambda>slug e.
        bind_res (trunc sh (case dget e ''log_path'' of None \<Rightarrow> JStr ''?'' | Some v \<Rightarrow> v) 60) (\<lambda>t. Inr (phase_prefix sh slug e @ '': HEARTBEAT LOOP FAILING log='' @ t))),
      (EVENT_WORKTREE_ATTACHED, \<lambda>slug e.
        Inr (slug @ '': worktree attached at '' @ fld sh e ''path'' @ '' (branch '' @ fld sh e ''branch'' @ '')'')),
      (EVENT_WORKTREE_CLEANED, \<lambda>slug e.
        Inr (slug @ '': worktree cleaned '' @ EM_DASH @ '' '' @ fld sh e ''path'' @ '' (trigger='' @ fld sh e ''trigger'' @
        '')'')),
      (EVENT_WORKTREE_RETAINED_AHEAD, \<lambda>slug e.
        Inr (slug @ '': worktree retained (branch ahead) '' @ EM_DASH @ '' '' @ fld sh e ''path'')),
      (EVENT_TOOL_STUCK, \<lambda>slug e.
        bind_res (trunc sh (jget e ''command'') 80) (\<lambda>t. Inr (phase_prefix sh slug e @ '': STUCK TOOL pid='' @ fld sh e ''descendant_pid'' @ '' elapsed='' @
        fld sh e ''elapsed_seconds'' @ ''s cmd='' @ t))),
      (EVENT_QUEUE_APPENDED, \<lambda>slug e.
        Inr (slug @ '': queued '' @ fld sh e ''slug'' @ '' from phase '' @ fld sh e ''source_phase'')),
      (EVENT_QUEUE_REJECTED, \<lambda>slug e.
        Inr (slug @ '': queue rejected '' @ fld sh e ''slug'' @ '' from phase '' @ fld sh e ''source_phase'' @ '' ('' @
        fld sh e ''reason'' @ '')'')),
      (EVENT_PHASE_WORKER_DEAD, \<lambda>slug e.
        Inr (phase_prefix sh slug e @ '': WORKER DEAD pid='' @ fld sh e ''pid'')),
      (EVENT_ATTESTATION_REFUSED, \<lambda>slug e.
        fmt_attest_refused sh slug e),
      (EVENT_WORKER_IDLE, \<lambda>slug e.
        Inr (phase_prefix sh slug e @ '': WORKER IDLE pid='' @ fld sh e ''pid'' @ '' low_cpu='' @ fld sh e ''low_cpu_minutes'' @
        ''min'')),
      (EVENT_PHASE_WORKER_DEAD_REPORTED, \<lambda>slug e.
        Inr (phase_prefix sh slug e @ '': WORKER DEAD (daemon) pid='' @ fld sh e ''pid''))]"

text \<open>
  \<open>project_event\<close>: \<open>Inr None\<close> when the event is not shown. An event whose type is not a text is
  malformed and is not shown.
\<close>

definition project_event ::
    "(jval \<Rightarrow> string) \<Rightarrow> obj \<Rightarrow> string \<Rightarrow> bool \<Rightarrow> bool \<Rightarrow> obj option \<Rightarrow> string option res" where
  "project_event sh event plan_slug verbose operator blocker =
     (case jget event ''type'' of
        JStr t \<Rightarrow>
          if operator \<and> t \<notin> set OPERATOR_VISIBLE then Inr None
          else if \<not> operator \<and> t \<in> set VERBOSE_ONLY \<and> \<not> verbose then Inr None
          else if t = EVENT_PHASE_BLOCKED then bind_res (fmt_blocked sh plan_slug event blocker) (Inr \<circ> Some)
          else (case map_of (FORMATTERS sh) t of
                  None \<Rightarrow> Inr None
                | Some fmt \<Rightarrow> bind_res (fmt plan_slug event) (Inr \<circ> Some))
      | _ \<Rightarrow> Inr None)"

section \<open>Task records\<close>

definition TASK_STATUS_MAP :: "(string \<times> string) list" where
  "TASK_STATUS_MAP =
     [(EVENT_PHASE_STARTED, ''in_progress''), (EVENT_PHASE_COMPLETED, ''completed''), (EVENT_PHASE_BLOCKED, ''in_progress''),
      (EVENT_PHASE_MAX_ATTEMPTS, ''in_progress''), (EVENT_SYSTEMIC_FAILURE, ''in_progress''),
      (EVENT_PLAN_COMPLETED, ''completed''), (EVENT_PAUSED, ''in_progress''), (EVENT_RESUMED, ''in_progress''),
      (EVENT_PHASE_STALLED, ''in_progress''), (EVENT_ATTESTATION_REFUSED, ''in_progress''),
      (EVENT_PHASE_WORKER_DEAD, ''in_progress''), (EVENT_PHASE_WORKER_DEAD_REPORTED, ''in_progress'')]"

definition TASK_VERBOSE_STATUS_MAP :: "(string \<times> string) list" where
  "TASK_VERBOSE_STATUS_MAP =
     map (\<lambda>t. (t, ''in_progress''))
       [EVENT_LEASE_EXTENDED, EVENT_LEASE_EXPIRED, EVENT_CLAIM_FORCE_RELEASED, EVENT_ATTEMPTS_RESET,
        EVENT_STUCK_BLOCKER_REPINGED, EVENT_STALLED_CLAIM_NOTIFIED, EVENT_WORKTREE_ATTACHED]"

definition PLAN_SCOPED_EVENTS :: "string list" where
  "PLAN_SCOPED_EVENTS = [EVENT_PLAN_COMPLETED, EVENT_PAUSED, EVENT_RESUMED]"

text \<open>\<open>s.replace(c, t)\<close> for a single character.\<close>

definition replace_char :: "char \<Rightarrow> string \<Rightarrow> string \<Rightarrow> string" where
  "replace_char c t s = concat (map (\<lambda>x. if x = c then t else [x]) s)"

abbreviation BACKSLASH :: char where "BACKSLASH \<equiv> CHR 0x5C"
abbreviation QUOTE :: char where "QUOTE \<equiv> CHR 0x22"

definition escape_msg :: "string \<Rightarrow> string" where
  "escape_msg s =
     replace_char (CHR 0x0D) [BACKSLASH, CHR ''r'']
       (replace_char newline [BACKSLASH, CHR ''n'']
         (replace_char QUOTE [BACKSLASH, QUOTE]
           (replace_char BACKSLASH [BACKSLASH, BACKSLASH] s)))"

definition task_line :: "string \<Rightarrow> string \<Rightarrow> string option \<Rightarrow> string \<Rightarrow> string option \<Rightarrow> string" where
  "task_line verb task_id parent status msg =
     verb @ '' task='' @ task_id
     @ (case parent of None \<Rightarrow> [] | Some [] \<Rightarrow> [] | Some p \<Rightarrow> '' parent='' @ p)
     @ '' status='' @ status
     @ (case msg of None \<Rightarrow> [] | Some m \<Rightarrow> '' msg='' @ [QUOTE] @ m @ [QUOTE])"

text \<open>A field that counts as false is the empty text.\<close>

definition field_or_empty :: "obj \<Rightarrow> string \<Rightarrow> jval" where
  "field_or_empty e k = (if dtrue e k then jget e k else JStr [])"

definition task_msg_for :: "(jval \<Rightarrow> string) \<Rightarrow> obj \<Rightarrow> string \<Rightarrow> string res" where
  "task_msg_for sh event t =
     (if t = EVENT_PHASE_STARTED then Inr (''started (attempt '' @ fld_or sh event ''attempts'' ''1'' @ '')'')
      else if t = EVENT_PHASE_COMPLETED then Inr ''completed''
      else if t = EVENT_PHASE_BLOCKED then
        bind_res (trunc sh (field_or_empty event ''question'') 100) (\<lambda>q.
          Inr (''BLOCKED '' @ fld sh event ''blocker_id'' @ (if q = [] then [] else '' '' @ EM_DASH @ '' '' @ q)))
      else if t = EVENT_PHASE_MAX_ATTEMPTS then Inr (''HALTED (max attempts on '' @ fld sh event ''phase'' @ '')'')
      else if t = EVENT_SYSTEMIC_FAILURE then
        bind_res (trunc sh (field_or_empty event ''signature'') 100) (\<lambda>sig.
          Inr (''SYSTEMIC FAILURE '' @ EM_DASH @ '' '' @ sig))
      else if t = EVENT_PLAN_COMPLETED then Inr ''plan done''
      else if t = EVENT_PAUSED then
        bind_res (trunc sh (field_or_empty event ''reason'') 100) (\<lambda>reason.
          Inr (if reason = [] then ''paused'' else ''paused '' @ EM_DASH @ '' '' @ reason))
      else if t = EVENT_RESUMED then Inr ''resumed''
      else if t = EVENT_PHASE_STALLED then Inr ''stalled''
      else Inr (replace_char CHR ''_'' '' '' t))"

definition task_status :: "bool \<Rightarrow> string \<Rightarrow> string option" where
  "task_status verbose t =
     (case map_of TASK_STATUS_MAP t of
        Some status \<Rightarrow> Some status
      | None \<Rightarrow> if verbose then map_of TASK_VERBOSE_STATUS_MAP t else None)"

definition project_event_task :: "(jval \<Rightarrow> string) \<Rightarrow> obj \<Rightarrow> string \<Rightarrow> bool \<Rightarrow> string option res" where
  "project_event_task sh event plan_slug verbose =
     (case jget event ''type'' of
        JStr t \<Rightarrow>
          (case task_status verbose t of
             None \<Rightarrow> Inr None
           | Some status \<Rightarrow>
               bind_res (task_msg_for sh event t) (\<lambda>m.
                 Inr (Some (if t \<in> set PLAN_SCOPED_EVENTS
                   then task_line ''TASK_UPDATE'' plan_slug None status (Some (escape_msg m))
                   else task_line ''TASK_UPDATE'' (plan_slug @ ''/'' @ fld sh event ''phase'') (Some plan_slug) status
                          (Some (escape_msg m))))))
      | JList vs \<Rightarrow> Inl (RuntimeErr ''TypeError'')
      | JObj d \<Rightarrow> Inl (RuntimeErr ''TypeError'')
      | _ \<Rightarrow> Inr None)"

section \<open>The lines a stream starts with\<close>

definition snapshot_line :: "(jval \<Rightarrow> string) \<Rightarrow> doc \<Rightarrow> string" where
  "snapshot_line sh d =
     ''[snapshot] '' @ d_slug d @ '': '' @ py_str sh (d_status d) @ '', active=''
     @ (case d_claim d of None \<Rightarrow> ''none'' | Some c \<Rightarrow> if c = [] then ''none'' else py_str sh (jget c ''phase_id''))"

text \<open>
  One watched plan: what the snapshot of the store gave (\<open>None\<close>: it could not be read, whatever
  the reason) and the text of its master plan (\<open>None\<close>: there is no such file).
\<close>

definition bootstrap_plan :: "(jval \<Rightarrow> string) \<Rightarrow> string \<Rightarrow> doc option \<Rightarrow> string option \<Rightarrow> string list res" where
  "bootstrap_plan sh slug data plan_text =
     (case plan_text of
        None \<Rightarrow> Inr []
      | Some t \<Rightarrow>
          bind_res (parse_sessions_index slug t) (\<lambda>phases.
            Inr (task_line ''TASK_CREATE'' slug None ''pending'' None
                 # map (\<lambda>p. task_line ''TASK_CREATE'' (slug @ ''/'' @ ph_id p) (Some slug) ''pending'' None) phases
                 @ (case data of
                      None \<Rightarrow> []
                    | Some d \<Rightarrow>
                        (case d_claim d of
                           Some (f # fs) \<Rightarrow>
                             if d_status d = JStr STATUS_RUNNING
                             then [task_line ''TASK_UPDATE'' slug None ''in_progress'' (Some ''bootstrap: plan running''),
                                   task_line ''TASK_UPDATE'' (slug @ ''/'' @ py_str sh (jget (f # fs) ''phase_id'')) (Some slug)
                                     ''in_progress'' (Some ''bootstrap: already active'')]
                             else []
                         | _ \<Rightarrow> [])))))"

text \<open>A plan is named by its key, the project and the slug; \<open>present\<close> is \<open>plan_store.exists_for_path\<close>.\<close>

fun bootstrap_task_list ::
    "(jval \<Rightarrow> string) \<Rightarrow> ('p \<times> string \<Rightarrow> bool) \<Rightarrow> ('p \<times> string \<Rightarrow> doc option) \<Rightarrow> ('p \<times> string \<Rightarrow> string option)
       \<Rightarrow> ('p \<times> string) list \<Rightarrow> string list res" where
  "bootstrap_task_list sh present data plan_text [] = Inr []"
| "bootstrap_task_list sh present data plan_text (k # ks) =
     bind_res (if \<not> present k \<or> snd k = [] then Inr [] else bootstrap_plan sh (snd k) (data k) (plan_text k)) (\<lambda>ls.
       bind_res (bootstrap_task_list sh present data plan_text ks) (\<lambda>rest. Inr (ls @ rest)))"

section \<open>Reading a task record\<close>

text \<open>What a reader of a task record does with its message: up to the first quote that is not escaped.\<close>

definition unescaped :: "char \<Rightarrow> char" where
  "unescaped c = (if c = CHR ''n'' then newline else if c = CHR ''r'' then CHR 0x0D else c)"

fun read_quoted :: "string \<Rightarrow> (string \<times> string) option" where
  "read_quoted [] = None"
| "read_quoted (c # cs) =
     (if c = QUOTE then Some ([], cs)
      else if c = BACKSLASH then
        (case cs of [] \<Rightarrow> None | d # ds \<Rightarrow> map_option (\<lambda>(m, rest). (unescaped d # m, rest)) (read_quoted ds))
      else map_option (\<lambda>(m, rest). (c # m, rest)) (read_quoted cs))"

definition escaped_char :: "char \<Rightarrow> string" where
  "escaped_char c =
     (if c = BACKSLASH then [BACKSLASH, BACKSLASH] else if c = QUOTE then [BACKSLASH, QUOTE]
      else if c = newline then [BACKSLASH, CHR ''n''] else if c = CHR 0x0D then [BACKSLASH, CHR ''r''] else [c])"

lemma replace_char_simps [simp]:
  "replace_char c t [] = []" "replace_char c t (x # s) = (if x = c then t else [x]) @ replace_char c t s"
  "replace_char c t (s @ s') = replace_char c t s @ replace_char c t s'"
  by (simp_all add: replace_char_def)

lemma escape_msg_chars: "escape_msg s = concat (map escaped_char s)"
  by (induction s) (auto simp: escape_msg_def escaped_char_def newline_def)

lemma read_escaped: "read_quoted (escape_msg m @ QUOTE # rest) = Some (m, rest)"
  by (induction m) (auto simp: escape_msg_chars escaped_char_def unescaped_def newline_def)

lemma escape_one_line: "newline \<notin> set (escape_msg m)"
  by (auto simp: escape_msg_chars escaped_char_def newline_def)

lemma task_status_plain: "task_status verbose t = Some status \<Longrightarrow> status \<in> {''in_progress'', ''completed''}"
  by (auto simp: task_status_def TASK_STATUS_MAP_def TASK_VERBOSE_STATUS_MAP_def split: option.splits if_splits)

lemma task_line_one_line:
  "newline \<notin> set (task_line ''TASK_UPDATE'' task_id parent status (Some (escape_msg m)))"
  if "newline \<notin> set task_id" "newline \<notin> set (case parent of None \<Rightarrow> [] | Some p \<Rightarrow> p)" "status \<in> {''in_progress'', ''completed''}"
  using that escape_one_line[of m]
  by (auto simp: task_line_def newline_def split: option.splits list.splits)

text \<open>
  A task record is one line and carries its message intact. The record of an event is a single line
  when the names of its plan and phase are, whatever the question, the reason or the signature
  holds; and a reader that stops at the first quote not escaped reads back exactly the message.
\<close>

theorem task_record_roundtrip:
  assumes "project_event_task sh e slug verbose = Inr (Some line)"
    and "newline \<notin> set slug" "newline \<notin> set (fld sh e ''phase'')"
  shows "newline \<notin> set line
    \<and> (\<exists>t m pre. jget e ''type'' = JStr t \<and> task_msg_for sh e t = Inr m
         \<and> line = pre @ '' msg='' @ [QUOTE] @ escape_msg m @ [QUOTE]
         \<and> read_quoted (escape_msg m @ [QUOTE]) = Some (m, []))"
proof -
  obtain t where t: "jget e ''type'' = JStr t" using assms(1) by (cases "jget e ''type''") (auto simp: project_event_task_def)
  obtain status where s: "task_status verbose t = Some status"
    using assms(1) by (cases "task_status verbose t") (auto simp: project_event_task_def t)
  obtain m where m: "task_msg_for sh e t = Inr m"
    using assms(1) by (cases "task_msg_for sh e t") (auto simp: project_event_task_def t s)
  obtain task_id parent where line: "line = task_line ''TASK_UPDATE'' task_id parent status (Some (escape_msg m))"
    "newline \<notin> set task_id" "newline \<notin> set (case parent of None \<Rightarrow> [] | Some p \<Rightarrow> p)"
  proof (cases "t \<in> set PLAN_SCOPED_EVENTS")
    case True
    with that[of slug None] assms show ?thesis by (simp add: project_event_task_def t s m)
  next
    case False
    with that[of "slug @ ''/'' @ fld sh e ''phase''" "Some slug"] assms show ?thesis
      by (simp add: project_event_task_def t s m newline_def)
  qed
  have "newline \<notin> set line" unfolding line(1) by (rule task_line_one_line[OF line(2,3) task_status_plain[OF s]])
  moreover obtain pre where "line = pre @ '' msg='' @ [QUOTE] @ escape_msg m @ [QUOTE]"
    unfolding line(1) task_line_def option.case(2) append_assoc[symmetric] by blast
  ultimately show ?thesis using t m read_escaped[of m "[]"] by blast
qed

definition blocked_event :: obj where
  "blocked_event = [(''type'', JStr EVENT_PHASE_BLOCKED), (''phase'', JStr ''login''), (''blocker_id'', JStr ''q-1''),
     (''question'', JStr (''Use '' @ [QUOTE] @ ''x'' @ [QUOTE] @ [newline] @ ''or y?''))]"

theorem task_record_roundtrip_witness:
  "\<exists>line. project_event_task (\<lambda>_. []) blocked_event ''web'' False = Inr (Some line) \<and> newline \<notin> set line"
proof -
  have "case project_event_task (\<lambda>_. []) blocked_event ''web'' False of Inr (Some line) \<Rightarrow> True | _ \<Rightarrow> False" by code_simp
  then obtain line where l: "project_event_task (\<lambda>_. []) blocked_event ''web'' False = Inr (Some line)"
    by (auto split: sum.splits option.splits)
  have "newline \<notin> set ''web''" "newline \<notin> set (fld (\<lambda>_. []) blocked_event ''phase'')" by code_simp+
  from task_record_roundtrip[OF l this] l show ?thesis by blast
qed

section \<open>What is shown, exactly\<close>

lemma dom_formatters: "fst ` set (FORMATTERS sh) = fst ` set (FORMATTERS sh')"
  by (simp add: FORMATTERS_def)

text \<open>
  Which events reach the reader. Unless a field cannot be printed, an event is shown in operator mode exactly when
  it is one of the interrupting types, all of which have a formatter; in the default mode when its
  type has a formatter and is not a verbose one; with \<open>--verbose\<close> whenever it has a formatter.
\<close>

theorem shown_exactly:
  assumes "jget e ''type'' = JStr t"
  shows "project_event sh e slug verbose operator blocker = Inr None \<longleftrightarrow>
    (if operator then t \<notin> set OPERATOR_VISIBLE
     else t \<notin> fst ` set (FORMATTERS sh) \<or> t \<in> set VERBOSE_ONLY \<and> \<not> verbose)"
proof -
  have some: "bind_res r (Inr \<circ> Some) \<noteq> Inr None" for r :: "string res" by (cases r) auto
  have op: "t \<in> fst ` set (FORMATTERS sh)" if "t \<in> set OPERATOR_VISIBLE"
    using that by (auto simp: OPERATOR_VISIBLE_def FORMATTERS_def)
  have blocked: "EVENT_PHASE_BLOCKED \<in> fst ` set (FORMATTERS sh)" "EVENT_PHASE_BLOCKED \<notin> set VERBOSE_ONLY"
    by (simp_all add: FORMATTERS_def VERBOSE_ONLY_def)
  have fmt: "map_of (FORMATTERS sh) t = None \<longleftrightarrow> t \<notin> fst ` set (FORMATTERS sh)" by (rule map_of_eq_None_iff)
  show ?thesis
  proof (cases "t = EVENT_PHASE_BLOCKED")
    case True
    then show ?thesis using some[of "fmt_blocked sh slug e blocker"] blocked by (simp add: project_event_def assms)
  next
    case False
    then show ?thesis using some op fmt
      by (cases "map_of (FORMATTERS sh) t") (auto simp: project_event_def assms)
  qed
qed

text \<open>The set the module documents as the default view is not consulted: these two types are shown
  by default and are not in it.\<close>

theorem shown_exactly_witness:
  "project_event sh [(''type'', JStr EVENT_PLAN_ABANDONED)] ''web'' False False None \<noteq> Inr None
   \<and> EVENT_PLAN_ABANDONED \<notin> set DEFAULT_VISIBLE
   \<and> project_event sh [(''type'', JStr EVENT_WORKER_IDLE)] ''web'' False False None \<noteq> Inr None
   \<and> EVENT_WORKER_IDLE \<notin> set DEFAULT_VISIBLE
   \<and> project_event sh [(''type'', JStr EVENT_LEASE_EXPIRED)] ''web'' False False None = Inr None"
  using shown_exactly[of "[(''type'', JStr EVENT_PLAN_ABANDONED)]" EVENT_PLAN_ABANDONED sh "''web''" False False None]
    shown_exactly[of "[(''type'', JStr EVENT_WORKER_IDLE)]" EVENT_WORKER_IDLE sh "''web''" False False None]
    shown_exactly[of "[(''type'', JStr EVENT_LEASE_EXPIRED)]" EVENT_LEASE_EXPIRED sh "''web''" False False None]
  by (simp add: jget_def FORMATTERS_def VERBOSE_ONLY_def DEFAULT_VISIBLE_def)

end
