(* ===== verification/Watch_Stream.thy ===== *)
theory Watch_Stream
  imports Watch_Text Sweep Cmd_World
begin

text \<open>
  The event stream (\<open>watch.stream_loop\<close>): one cursor per watched plan, one held connection per
  project database whose \<open>data_version\<close> says whether anything was committed since the last frame,
  and frames that fetch, render and print what is new. A plan is named by its key, the project's
  orchestrator directory and the slug. What the store answers a poll (\<open>poll_view\<close>) is an input of
  each frame, faults included; \<open>KeyboardInterrupt\<close> and \<open>max_ticks\<close> end the list of run_frames. A printed
  line is kept with the plan and the event it was printed for.
\<close>

section \<open>State and views\<close>

type_synonym watch_key = "string \<times> string"

record sline =
  sl_key :: watch_key
  sl_event :: obj
  sl_text :: string

text \<open>\<open>st_readers\<close>: the open connections, each with the last \<open>data_version\<close> it saw (\<open>None\<close>: invalidated).\<close>

record stream =
  st_cursors :: "(watch_key \<times> int) list"
  st_readers :: "(string \<times> int option) list"
  st_moved :: "(string \<times> bool) list"
  st_head :: "string list"
  st_out :: "sline list"

record watch_opts =
  wo_json :: bool
  wo_task_list :: bool
  wo_verbose :: bool
  wo_operator :: bool

record poll_view =
  pv_open :: "pyerr option"
  pv_version :: "int res"
  pv_events :: "pdb res"
  pv_snap :: "doc res"

text \<open>The exceptions a poll retries on, and the ones it gives the plan up for (the first clause wins).\<close>

definition retry_error :: "pyerr \<Rightarrow> bool" where
  "retry_error e \<longleftrightarrow> e = DbBusy"

definition skip_error :: "pyerr \<Rightarrow> bool" where
  "skip_error e \<longleftrightarrow> \<not> retry_error e \<and> degradable e"

definition event_id :: "obj \<Rightarrow> int" where
  "event_id e = (case iget e ''id'' of Some i \<Rightarrow> i | None \<Rightarrow> 0)"

definition max_id :: "obj list \<Rightarrow> int" where
  "max_id es = (if es = [] then 0 else Max (set (map event_id es)))"

section \<open>The connection of a project\<close>

text \<open>\<open>_ProjectReader(orch_dir)\<close>: opened and primed with the current \<open>data_version\<close>.\<close>

definition open_reader :: "string \<Rightarrow> poll_view \<Rightarrow> (stream, unit) comp" where
  "open_reader orch v = (\<lambda>s.
     case map_of (st_readers s) orch of
       Some _ \<Rightarrow> (Inr (), s)
     | None \<Rightarrow>
         (case pv_open v of
            Some e \<Rightarrow> (Inl e, s)
          | None \<Rightarrow>
              (case pv_version v of
                 Inl e \<Rightarrow> (Inl e, s)
               | Inr n \<Rightarrow> (Inr (), s\<lparr>st_readers := AList.update orch (Some n) (st_readers s)\<rparr>))))"

definition changed_since_last_frame :: "string \<Rightarrow> poll_view \<Rightarrow> (stream, bool) comp" where
  "changed_since_last_frame orch v = (\<lambda>s.
     case pv_version v of
       Inl e \<Rightarrow> (Inl e, s)
     | Inr n \<Rightarrow> (Inr (map_of (st_readers s) orch \<noteq> Some (Some n)), s\<lparr>st_readers := AList.update orch (Some n) (st_readers s)\<rparr>))"

text \<open>One reading per project and frame.\<close>

definition project_moved :: "string \<Rightarrow> poll_view \<Rightarrow> (stream, bool) comp" where
  "project_moved orch v = (\<lambda>s.
     case map_of (st_moved s) orch of
       Some b \<Rightarrow> (Inr b, s)
     | None \<Rightarrow> cbind (changed_since_last_frame orch v) (\<lambda>b s. (Inr b, s\<lparr>st_moved := AList.update orch b (st_moved s)\<rparr>)) s)"

definition invalidate :: "string \<Rightarrow> stream \<Rightarrow> stream" where
  "invalidate orch s = s\<lparr>st_readers := AList.map_entry orch (\<lambda>_. None) (st_readers s)\<rparr>"

definition forget_moved :: "string \<Rightarrow> stream \<Rightarrow> stream" where
  "forget_moved orch s = s\<lparr>st_moved := AList.delete orch (st_moved s)\<rparr>"

definition drop_plan :: "watch_key \<Rightarrow> stream \<Rightarrow> stream" where
  "drop_plan k s = s\<lparr>st_readers := AList.delete (fst k) (st_readers s), st_cursors := AList.delete k (st_cursors s)\<rparr>"

definition cursor :: "stream \<Rightarrow> watch_key \<Rightarrow> int" where
  "cursor s k = (case map_of (st_cursors s) k of Some c \<Rightarrow> c | None \<Rightarrow> 0)"

section \<open>One poll\<close>

text \<open>The new events of a plan; \<open>None\<close> when there is nothing to deliver in this frame.\<close>

definition try_fetch :: "watch_key \<Rightarrow> poll_view \<Rightarrow> (stream, obj list option) comp" where
  "try_fetch k v =
     cbind (open_reader (fst k) v) (\<lambda>_.
     cbind (project_moved (fst k) v) (\<lambda>moved s.
       if \<not> moved then (Inr None, s)
       else (case pv_events v of
               Inl e \<Rightarrow> (Inl e, s)
             | Inr db \<Rightarrow> (Inr (Some (events_after db (snd k) (cursor s k))), s))))"

definition fetch :: "watch_key \<Rightarrow> poll_view \<Rightarrow> (stream, obj list option) comp" where
  "fetch k v = ccatch (try_fetch k v) (\<lambda>e.
     if retry_error e then Some (\<lambda>s. (Inr None, forget_moved (fst k) (invalidate (fst k) s)))
     else if skip_error e then Some (\<lambda>s. (Inr None, drop_plan k (forget_moved (fst k) s)))
     else None)"

definition blocker_for_event :: "poll_view \<Rightarrow> obj \<Rightarrow> obj option res" where
  "blocker_for_event v e =
     (if \<not> dtrue e ''blocker_id'' then Inr None
      else case pv_snap v of
        Inl err \<Rightarrow> if retry_error err \<or> skip_error err then Inr None else Inl err
      | Inr d \<Rightarrow> Inr (find (\<lambda>b. dget b ''id'' = dget e ''blocker_id'') (d_blockers d)))"

definition event_line ::
    "(jval \<Rightarrow> string) \<Rightarrow> (jval \<Rightarrow> string) \<Rightarrow> watch_opts \<Rightarrow> watch_key \<Rightarrow> poll_view \<Rightarrow> obj \<Rightarrow> string option res" where
  "event_line sh dumps opts k v e =
     bind_res
       (if wo_task_list opts then project_event_task sh e (snd k) (wo_verbose opts)
        else bind_res (if jget e ''type'' = JStr EVENT_PHASE_BLOCKED \<and> \<not> wo_json opts then blocker_for_event v e else Inr None) (\<lambda>b.
          project_event sh e (snd k) (wo_verbose opts) (wo_operator opts) b))
       (\<lambda>l. Inr (if l \<noteq> None \<and> wo_json opts
                 then Some (dumps (JObj [(''ts'', jget e ''ts''), (''slug'', JStr (snd k)), (''event'', JObj e)])) else l))"

fun deliver ::
    "(jval \<Rightarrow> string) \<Rightarrow> (jval \<Rightarrow> string) \<Rightarrow> watch_opts \<Rightarrow> watch_key \<Rightarrow> poll_view \<Rightarrow> obj list \<Rightarrow> (stream, unit) comp" where
  "deliver sh dumps opts k v [] = cret ()"
| "deliver sh dumps opts k v (e # es) =
     cbind (clift (event_line sh dumps opts k v e)) (\<lambda>l.
     cbind (\<lambda>s. (Inr (), case l of None \<Rightarrow> s | Some t \<Rightarrow> s\<lparr>st_out := st_out s @ [\<lparr>sl_key = k, sl_event = e, sl_text = t\<rparr>]\<rparr>)) (\<lambda>_.
       deliver sh dumps opts k v es))"

definition advance :: "watch_key \<Rightarrow> obj list \<Rightarrow> stream \<Rightarrow> stream" where
  "advance k es s = s\<lparr>st_cursors := AList.update k (max (cursor s k) (max_id es)) (st_cursors s)\<rparr>"

definition poll_plan ::
    "(jval \<Rightarrow> string) \<Rightarrow> (jval \<Rightarrow> string) \<Rightarrow> watch_opts \<Rightarrow> (watch_key \<Rightarrow> poll_view) \<Rightarrow> watch_key \<Rightarrow> (stream, unit) comp" where
  "poll_plan sh dumps opts views k =
     cbind (fetch k (views k)) (\<lambda>found.
       case found of
         None \<Rightarrow> cret ()
       | Some es \<Rightarrow> cbind (deliver sh dumps opts k (views k) es) (\<lambda>_ s. (Inr (), advance k es s)))"

section \<open>Frames\<close>

fun poll_each ::
    "(jval \<Rightarrow> string) \<Rightarrow> (jval \<Rightarrow> string) \<Rightarrow> watch_opts \<Rightarrow> (watch_key \<Rightarrow> poll_view) \<Rightarrow> watch_key list \<Rightarrow> (stream, unit) comp" where
  "poll_each sh dumps opts views [] = cret ()"
| "poll_each sh dumps opts views (k # ks) =
     cbind (poll_plan sh dumps opts views k) (\<lambda>_. poll_each sh dumps opts views ks)"

definition frame ::
    "(jval \<Rightarrow> string) \<Rightarrow> (jval \<Rightarrow> string) \<Rightarrow> watch_opts \<Rightarrow> (watch_key \<Rightarrow> poll_view) \<Rightarrow> (stream, unit) comp" where
  "frame sh dumps opts views =
     (\<lambda>s. poll_each sh dumps opts views (map fst (st_cursors s)) (s\<lparr>st_moved := []\<rparr>))"

fun run_frames ::
    "(jval \<Rightarrow> string) \<Rightarrow> (jval \<Rightarrow> string) \<Rightarrow> watch_opts \<Rightarrow> (watch_key \<Rightarrow> poll_view) list \<Rightarrow> (stream, unit) comp" where
  "run_frames sh dumps opts [] = cret ()"
| "run_frames sh dumps opts (v # vs) = cbind (frame sh dumps opts v) (\<lambda>_. run_frames sh dumps opts vs)"

section \<open>The start\<close>

text \<open>The first snapshot of each plan; a plan whose first read fails is not watched.\<close>

definition baseline_read :: "watch_key \<Rightarrow> poll_view \<Rightarrow> (stream, doc option) comp" where
  "baseline_read k v =
     ccatch (cbind (clift (validate_slug (snd k))) (\<lambda>_.
             cbind (open_reader (fst k) v) (\<lambda>_.
             cbind (clift (pv_snap v)) (\<lambda>d. cret (Some d)))))
       (\<lambda>e. if retry_error e \<or> skip_error e then Some (cret None) else None)"

fun baseline :: "(watch_key \<Rightarrow> poll_view) \<Rightarrow> watch_key list \<Rightarrow> (stream, (watch_key \<times> doc) list) comp" where
  "baseline views [] = cret []"
| "baseline views (k # ks) =
     cbind (baseline_read k (views k)) (\<lambda>found.
       case found of
         None \<Rightarrow> baseline views ks
       | Some d \<Rightarrow>
           cbind (\<lambda>s. (Inr (), s\<lparr>st_cursors := AList.update k (max_id (d_events d)) (st_cursors s)\<rparr>)) (\<lambda>_.
           cbind (baseline views ks) (\<lambda>rest. cret ((k, d) # rest))))"

definition new_stream :: stream where
  "new_stream = \<lparr>st_cursors = [], st_readers = [], st_moved = [], st_head = [], st_out = []\<rparr>"

text \<open>
  The whole stream: the baseline, the task tree, the snapshot lines, the frames. \<open>present\<close>,
  \<open>fresh\<close> and \<open>plan_text\<close> are what the task tree finds for a plan: whether it
  exists, its snapshot and its master plan.
\<close>

definition stream_loop ::
    "(jval \<Rightarrow> string) \<Rightarrow> (jval \<Rightarrow> string) \<Rightarrow> watch_opts \<Rightarrow> (watch_key \<Rightarrow> bool) \<Rightarrow> (watch_key \<Rightarrow> doc option)
       \<Rightarrow> (watch_key \<Rightarrow> string option)
       \<Rightarrow> (watch_key \<Rightarrow> poll_view) \<Rightarrow> (watch_key \<Rightarrow> poll_view) list \<Rightarrow> watch_key list \<Rightarrow> (stream, exit_code) comp" where
  "stream_loop sh dumps opts present fresh plan_text start vs keys =
     cbind (baseline start keys) (\<lambda>found.
     cbind (\<lambda>s. (if wo_task_list opts
                 then bootstrap_task_list sh present fresh plan_text (map fst (st_cursors s)) else Inr [], s)) (\<lambda>tree.
     cbind (\<lambda>s. (Inr (), s\<lparr>st_head := tree @ (if wo_operator opts then [] else map (\<lambda>(k, d). snapshot_line sh d) found)\<rparr>)) (\<lambda>_.
     cbind (run_frames sh dumps opts vs) (\<lambda>_. cret OK))))"

end
