(* ===== verification/Watch_Props.thy ===== *)
theory Watch_Props
  imports Watch_Stream
begin

text \<open>
  The stream delivers what the log holds: for every watched plan the printed events are the shown
  ones after the baseline, in order and each once, whatever the store answers the polls; a frame
  without faults on a project that moved catches up. And the two ways the code loses sight of
  events: a poll that fails as busy is forgotten when the next plan of the project is polled in the
  same frame, and a plan that is busy at the first read is never watched.
\<close>

section \<open>Rows and cursors\<close>

definition ids_ok :: "event_row list \<Rightarrow> bool" where
  "ids_ok rs \<longleftrightarrow> sorted_wrt (<) (map er_id rs) \<and> list_all (\<lambda>r. 0 < er_id r) rs"

definition top_id :: "event_row list \<Rightarrow> int" where
  "top_id rs = (if rs = [] then 0 else er_id (last rs))"

lemma event_id_row [simp]: "event_id (event_from_row r) = er_id r"
  by (simp add: event_id_def event_from_row_def iget_def)

lemma ids_ok_take: "ids_ok rs \<Longrightarrow> ids_ok (take n rs)" "ids_ok rs \<Longrightarrow> ids_ok (drop n rs)"
  by (auto simp: ids_ok_def sorted_wrt_take sorted_wrt_drop take_map[symmetric] drop_map[symmetric] list_all_iff
      dest: in_set_takeD in_set_dropD)

lemma ids_ok_append: "ids_ok (xs @ ys) \<longleftrightarrow> ids_ok xs \<and> ids_ok ys \<and> (\<forall>x\<in>set xs. \<forall>y\<in>set ys. er_id x < er_id y)"
  by (auto simp: ids_ok_def sorted_wrt_append)

lemma max_id_rows: "ids_ok rs \<Longrightarrow> max_id (map event_from_row rs) = top_id rs"
proof (induction rs rule: rev_induct)
  case (snoc r rs)
  have "\<forall>x\<in>er_id ` set rs. x < er_id r" using snoc.prems by (auto simp: ids_ok_append)
  then have "Max (insert (er_id r) (er_id ` set rs)) = er_id r" by (intro Max_eqI) (auto simp: less_imp_le)
  then show ?case by (simp add: max_id_def top_id_def image_image)
qed (simp add: max_id_def top_id_def)

lemma top_id_bound: "ids_ok rs \<Longrightarrow> r \<in> set rs \<Longrightarrow> er_id r \<le> top_id rs"
  by (induction rs rule: rev_induct) (auto simp: ids_ok_append top_id_def less_imp_le)

lemma after_top:
  assumes "ids_ok (xs @ ys)" shows "filter (\<lambda>r. er_id r > top_id xs) (xs @ ys) = ys"
proof -
  have "filter (\<lambda>r. er_id r > top_id xs) xs = []"
    using top_id_bound[of xs] assms by (auto simp: filter_empty_conv ids_ok_append not_less)
  moreover have "er_id y > top_id xs" if "y \<in> set ys" for y
    using that assms last_in_set[of xs] by (auto simp: top_id_def ids_ok_append) (auto simp: ids_ok_def list_all_iff)
  ultimately show ?thesis by (simp add: filter_id_conv)
qed

lemma top_id_append: "ids_ok (xs @ ys) \<Longrightarrow> max (top_id xs) (top_id ys) = top_id (xs @ ys)"
proof (cases "ys = []")
  case False
  assume ok: "ids_ok (xs @ ys)"
  then have "top_id xs < er_id (last ys)"
    using last_in_set[of xs] last_in_set[OF False] by (auto simp: top_id_def ids_ok_append) (auto simp: ids_ok_def list_all_iff)
  then show ?thesis using False by (simp add: top_id_def)
qed (auto simp: top_id_def ids_ok_append ids_ok_def list_all_iff dest: last_in_set intro!: max_absorb1)

section \<open>What is printed for a plan\<close>

definition printed :: "stream \<Rightarrow> watch_key \<Rightarrow> obj list" where
  "printed s k = map sl_event (filter (\<lambda>l. sl_key l = k) (st_out s))"

text \<open>Whether an event is shown does not depend on the blocker record that is looked up for it.\<close>

definition is_shown :: "(jval \<Rightarrow> string) \<Rightarrow> watch_opts \<Rightarrow> string \<Rightarrow> obj \<Rightarrow> bool" where
  "is_shown sh opts slug e =
     (if wo_task_list opts then project_event_task sh e slug (wo_verbose opts) \<noteq> Inr None
      else project_event sh e slug (wo_verbose opts) (wo_operator opts) None \<noteq> Inr None)"

lemma shown_without_record:
  "project_event sh e slug verbose operator b = Inr None \<longleftrightarrow> project_event sh e slug verbose operator None = Inr None"
proof (cases "jget e ''type''")
  case (JStr t)
  have some: "bind_res r (Inr \<circ> Some) \<noteq> Inr None" for r :: "string res" by (cases r) auto
  show ?thesis using some[of "fmt_blocked sh slug e b"] some[of "fmt_blocked sh slug e None"]
    by (auto simp: project_event_def JStr split: option.splits)
qed (simp_all add: project_event_def)

lemma event_line_shown:
  assumes "event_line sh dumps opts k v e = Inr l" shows "l \<noteq> None \<longleftrightarrow> is_shown sh opts (snd k) e"
proof (cases "wo_task_list opts")
  case True
  then show ?thesis using assms by (auto simp: event_line_def is_shown_def bind_res_Inr)
next
  case False
  then obtain b r where "project_event sh e (snd k) (wo_verbose opts) (wo_operator opts) b = Inr r" "l \<noteq> None \<longleftrightarrow> r \<noteq> None"
    using assms by (auto simp: event_line_def bind_res_Inr)
  then show ?thesis using shown_without_record[of sh e "snd k" "wo_verbose opts" "wo_operator opts" b] False
    by (auto simp: is_shown_def)
qed

lemma deliver_prints:
  assumes "deliver sh dumps opts k v es s = (Inr u, s')"
  shows "printed s' k' = printed s k' @ (if k' = k then filter (is_shown sh opts (snd k)) es else [])
    \<and> st_cursors s' = st_cursors s \<and> st_readers s' = st_readers s \<and> st_moved s' = st_moved s"
  using assms
proof (induction es arbitrary: s)
  case (Cons e es)
  obtain l where l: "event_line sh dumps opts k v e = Inr l"
    using Cons.prems by (cases "event_line sh dumps opts k v e") (auto simp: cbind_def clift_def)
  let ?s = "case l of None \<Rightarrow> s | Some t \<Rightarrow> s\<lparr>st_out := st_out s @ [\<lparr>sl_key = k, sl_event = e, sl_text = t\<rparr>]\<rparr>"
  have "deliver sh dumps opts k v es ?s = (Inr u, s')" using Cons.prems l by (simp add: cbind_def clift_def)
  from Cons.IH[OF this] event_line_shown[OF l] show ?case by (auto simp: printed_def split: option.splits)
qed (simp add: cret_def)

section \<open>One poll\<close>

lemma open_reader_same:
  assumes "open_reader orch v s = (r, s')"
  shows "st_out s' = st_out s \<and> st_cursors s' = st_cursors s \<and> st_moved s' = st_moved s"
  using assms by (auto simp: open_reader_def split: option.splits sum.splits)

lemma project_moved_same:
  assumes "project_moved orch v s = (r, s')" shows "st_out s' = st_out s \<and> st_cursors s' = st_cursors s"
  using assms by (auto simp: project_moved_def changed_since_last_frame_def cbind_def split: option.splits sum.splits)

lemma try_fetch_result:
  assumes "try_fetch k v s = (r, s')"
  shows "st_out s' = st_out s \<and> st_cursors s' = st_cursors s
    \<and> (\<forall>es. r = Inr (Some es) \<longrightarrow> (\<exists>db. pv_events v = Inr db \<and> es = events_after db (snd k) (cursor s k)))"
proof -
  obtain r1 s1 where o1: "open_reader (fst k) v s = (r1, s1)" by fastforce
  obtain r2 s2 where o2: "project_moved (fst k) v s1 = (r2, s2)" by fastforce
  note same = open_reader_same[OF o1] project_moved_same[OF o2]
  show ?thesis
  proof (cases r1)
    case Inl
    then show ?thesis using assms o1 same by (auto simp: try_fetch_def cbind_def)
  next
    case (Inr a)
    then show ?thesis using assms o1 o2 same
      by (cases r2) (auto simp: try_fetch_def cbind_def cursor_def split: sum.splits if_splits)
  qed
qed

lemma fetch_result:
  assumes "fetch k v s = (Inr r, s')"
  shows "st_out s' = st_out s" "r = None \<Longrightarrow> st_cursors s' \<in> {st_cursors s, AList.delete k (st_cursors s)}"
    "r = Some es \<Longrightarrow> st_cursors s' = st_cursors s \<and> (\<exists>db. pv_events v = Inr db \<and> es = events_after db (snd k) (cursor s k))"
proof -
  obtain r1 s1 where t: "try_fetch k v s = (r1, s1)" by fastforce
  note f = try_fetch_result[OF t]
  show "st_out s' = st_out s" "r = None \<Longrightarrow> st_cursors s' \<in> {st_cursors s, AList.delete k (st_cursors s)}"
    "r = Some es \<Longrightarrow> st_cursors s' = st_cursors s \<and> (\<exists>db. pv_events v = Inr db \<and> es = events_after db (snd k) (cursor s k))"
    using assms f by (auto simp: fetch_def ccatch_def t forget_moved_def invalidate_def drop_plan_def
      split: sum.splits if_splits)
qed

lemma poll_plan_cases:
  assumes "poll_plan sh dumps opts views k s = (Inr u, s')"
  obtains (idle) "st_out s' = st_out s" "st_cursors s' \<in> {st_cursors s, AList.delete k (st_cursors s)}"
  | (read) db where "pv_events (views k) = Inr db"
      "\<And>k'. printed s' k' = printed s k' @ (if k' = k then filter (is_shown sh opts (snd k)) (events_after db (snd k) (cursor s k)) else [])"
      "st_cursors s' = AList.update k (max (cursor s k) (max_id (events_after db (snd k) (cursor s k)))) (st_cursors s)"
proof -
  obtain r s1 where f: "fetch k (views k) s = (Inr r, s1)"
    using assms by (cases "fetch k (views k) s") (auto simp: poll_plan_def cbind_def split: sum.splits)
  show ?thesis
  proof (cases r)
    case None
    then show ?thesis using idle fetch_result(1,2)[OF f] assms f by (auto simp: poll_plan_def cbind_def cret_def)
  next
    case (Some es)
    obtain s2 where d: "deliver sh dumps opts k (views k) es s1 = (Inr (), s2)" "s' = advance k es s2"
      using assms f Some by (cases "deliver sh dumps opts k (views k) es s1") (auto simp: poll_plan_def cbind_def split: sum.splits)
    obtain db where db: "pv_events (views k) = Inr db" "es = events_after db (snd k) (cursor s k)" "st_cursors s1 = st_cursors s"
      using fetch_result(3)[OF f Some] by blast
    have "printed s1 k' = printed s k'" for k' using fetch_result(1)[OF f] by (simp add: printed_def)
    with deliver_prints[OF d(1)] db read[OF db(1)] show ?thesis
      by (auto simp: d(2) advance_def cursor_def printed_def)
  qed
qed

section \<open>Every event once, in order\<close>

text \<open>\<open>L\<close> is the live log of each plan; from frame to frame it grows at its end, and a poll that is
  answered sees it.\<close>

inductive log_run :: "(watch_key \<Rightarrow> event_row list) \<Rightarrow> (watch_key \<Rightarrow> poll_view) list \<Rightarrow> (watch_key \<Rightarrow> event_row list) \<Rightarrow> bool" where
  log_stop: "log_run L [] L"
| log_step: "log_run M vs L' \<Longrightarrow> (\<And>k. prefix (L k) (M k)) \<Longrightarrow> (\<And>k. ids_ok (M k))
    \<Longrightarrow> (\<And>k db. pv_events (v k) = Inr db \<Longrightarrow> plan_events db (snd k) = M k) \<Longrightarrow> log_run L (v # vs) L'"

inductive_cases log_runE: "log_run L (v # vs) L'"

text \<open>The plan's cursor stands behind its first \<open>n\<close> rows, and what lies between them and the baseline is printed.\<close>

definition tracked ::
    "(jval \<Rightarrow> string) \<Rightarrow> watch_opts \<Rightarrow> (watch_key \<Rightarrow> nat) \<Rightarrow> (watch_key \<Rightarrow> event_row list) \<Rightarrow> stream \<Rightarrow> watch_key \<Rightarrow> bool" where
  "tracked sh opts base L s k \<longleftrightarrow>
     (\<exists>n\<ge>base k. n \<le> length (L k)
        \<and> printed s k = filter (is_shown sh opts (snd k)) (map event_from_row (drop (base k) (take n (L k))))
        \<and> (\<forall>c. map_of (st_cursors s) k = Some c \<longrightarrow> c = top_id (take n (L k))))"

lemma tracked_grows:
  assumes "tracked sh opts base L s k" "prefix (L k) (M k)" "st_out s' = st_out s" "st_cursors s' = st_cursors s"
  shows "tracked sh opts base M s' k"
proof -
  obtain zs where zs: "M k = L k @ zs" using assms(2) by (auto simp: prefix_def)
  have same: "printed s' k = printed s k" using assms(3) by (simp add: printed_def)
  obtain n where "base k \<le> n" "n \<le> length (L k)"
    "printed s k = filter (is_shown sh opts (snd k)) (map event_from_row (drop (base k) (take n (L k))))"
    "\<forall>c. map_of (st_cursors s) k = Some c \<longrightarrow> c = top_id (take n (L k))"
    using assms(1) unfolding tracked_def by blast
  then show ?thesis unfolding tracked_def same assms(4) zs by (intro exI[of _ n]) simp
qed

lemma tracked_printed:
  assumes "tracked sh opts base L s k" "printed s' k = printed s k"
    "\<And>c. map_of (st_cursors s') k = Some c \<Longrightarrow> map_of (st_cursors s) k = Some c"
  shows "tracked sh opts base L s' k"
  using assms by (auto simp: tracked_def)

lemma poll_plan_tracked:
  assumes "poll_plan sh dumps opts views k s = (Inr u, s')" "\<And>j. tracked sh opts base M s j" "\<And>j. ids_ok (M j)"
    and "\<And>j db. pv_events (views j) = Inr db \<Longrightarrow> plan_events db (snd j) = M j" "k \<in> fst ` set (st_cursors s)"
  shows "tracked sh opts base M s' j"
  using assms(1)
proof (cases rule: poll_plan_cases)
  case idle
  then show ?thesis
    by (intro tracked_printed[OF assms(2)]) (auto simp: printed_def split: if_splits)
next
  case (read db)
  show ?thesis
  proof (cases "j = k")
    case True
    obtain n where n: "n \<ge> base k" "n \<le> length (M k)"
      "printed s k = filter (is_shown sh opts (snd k)) (map event_from_row (drop (base k) (take n (M k))))"
      "cursor s k = top_id (take n (M k))"
      using assms(2)[of k] assms(5) by (auto simp: tracked_def cursor_def dest!: weak_map_of_SomeI split: option.splits)
    have rows: "plan_events db (snd k) = take n (M k) @ drop n (M k)" using assms(4)[OF read(1)] by simp
    then have new: "events_after db (snd k) (cursor s k) = map event_from_row (drop n (M k))"
      using after_top[of "take n (M k)" "drop n (M k)"] assms(3)[of k] by (simp add: events_after_def n(4))
    have all: "drop (base k) (M k) = drop (base k) (take n (M k)) @ drop n (M k)"
      using n(1,2) by (metis append_take_drop_id drop_append drop_take length_take min.absorb2 diff_is_0_eq drop_0)
    have "max (top_id (take n (M k))) (top_id (drop n (M k))) = top_id (M k)"
      using top_id_append[of "take n (M k)" "drop n (M k)"] assms(3)[of k] by simp
    then have "map_of (st_cursors s') k = Some (top_id (M k))"
      using max_id_rows[OF ids_ok_take(2)[OF assms(3)], of n k] n(4) by (simp add: read(3) new[unfolded n(4)])
    moreover have "printed s' k = filter (is_shown sh opts (snd k)) (map event_from_row (drop (base k) (M k)))"
      unfolding read(2) new n(3) all by simp
    ultimately show ?thesis unfolding True tracked_def using n(1,2) by (intro exI[of _ "length (M k)"]) auto
  next
    case False
    then show ?thesis by (intro tracked_printed[OF assms(2)]) (auto simp: read(2,3))
  qed
qed

lemma keys_delete: "fst ` set (AList.delete k al) = fst ` set al - {k}"
  by (metis delete_keys list.set_map set_removeAll)

lemma poll_plan_keys:
  assumes "poll_plan sh dumps opts views k s = (Inr u, s')"
  shows "fst ` set (st_cursors s) - {k} \<subseteq> fst ` set (st_cursors s')"
    "distinct (map fst (st_cursors s)) \<Longrightarrow> distinct (map fst (st_cursors s'))"
proof -
  have "fst ` set (st_cursors s) - {k} \<subseteq> fst ` set (st_cursors s')
    \<and> (distinct (map fst (st_cursors s)) \<longrightarrow> distinct (map fst (st_cursors s')))"
    using assms
  proof (cases rule: poll_plan_cases)
    case idle
    then consider "st_cursors s' = st_cursors s" | "st_cursors s' = AList.delete k (st_cursors s)" by blast
    then show ?thesis
    proof cases
      case 2
      show ?thesis unfolding 2 keys_delete by (simp add: distinct_delete)
    qed simp
  next
    case (read db)
    show ?thesis unfolding read(3) dom_update by (simp add: distinct_update subset_insertI2 Diff_subset)
  qed
  then show "fst ` set (st_cursors s) - {k} \<subseteq> fst ` set (st_cursors s')"
    "distinct (map fst (st_cursors s)) \<Longrightarrow> distinct (map fst (st_cursors s'))" by blast+
qed

lemma poll_each_tracked:
  assumes "poll_each sh dumps opts views ks s = (Inr u, s')" "\<And>j. tracked sh opts base M s j" "\<And>j. ids_ok (M j)"
    and "\<And>j db. pv_events (views j) = Inr db \<Longrightarrow> plan_events db (snd j) = M j"
    and "distinct ks" "set ks \<subseteq> fst ` set (st_cursors s)" "distinct (map fst (st_cursors s))"
  shows "tracked sh opts base M s' j \<and> distinct (map fst (st_cursors s'))"
  using assms(1,2,5-7)
proof (induction ks arbitrary: s)
  case (Cons k ks)
  obtain s1 where p: "poll_plan sh dumps opts views k s = (Inr (), s1)" "poll_each sh dumps opts views ks s1 = (Inr u, s')"
    using Cons.prems(1) by (cases "poll_plan sh dumps opts views k s") (auto simp: cbind_def split: sum.splits)
  have k: "k \<in> fst ` set (st_cursors s)" using Cons.prems(4) by simp
  show ?case
    by (rule Cons.IH[OF p(2) poll_plan_tracked[OF p(1) Cons.prems(2) assms(3,4) k]])
      (use Cons.prems poll_plan_keys[OF p(1)] in auto)
qed (simp add: cret_def)

lemma frames_tracked:
  assumes "log_run L vs L'" "run_frames sh dumps opts vs s = (Inr u, s')" "\<And>j. tracked sh opts base L s j" "distinct (map fst (st_cursors s))"
  shows "tracked sh opts base L' s' j"
  using assms
proof (induction arbitrary: s rule: log_run.induct)
  case (log_step M vs L' L v)
  obtain s1 where f: "poll_each sh dumps opts v (map fst (st_cursors s)) (s\<lparr>st_moved := []\<rparr>) = (Inr (), s1)"
    "run_frames sh dumps opts vs s1 = (Inr u, s')"
    using log_step.prems(1) by (cases "frame sh dumps opts v s") (auto simp: cbind_def frame_def split: sum.splits)
  have "tracked sh opts base M (s\<lparr>st_moved := []\<rparr>) j" for j
    by (rule tracked_grows[OF log_step.prems(2) log_step.hyps(2)]) simp_all
  note p = poll_each_tracked[OF f(1) this log_step.hyps(3,4)]
  show ?case by (rule log_step.IH[OF f(2)]) (use p log_step.prems(3) in auto)
qed (simp add: cret_def)

lemma baseline_read_result:
  assumes "baseline_read k v s = (Inr r, s')"
  shows "st_out s' = st_out s \<and> st_cursors s' = st_cursors s \<and> (\<forall>d. r = Some d \<longrightarrow> pv_snap v = Inr d)"
proof -
  obtain r1 s1 where o: "open_reader (fst k) v s = (r1, s1)" by fastforce
  show ?thesis using assms open_reader_same[OF o]
    by (auto simp: baseline_read_def ccatch_def cbind_def clift_def cret_def o validate_slug_def guard_res_def
      split: sum.splits if_splits prod.splits)
qed

lemma baseline_result:
  assumes "baseline views ks s = (Inr found, s')"
  shows "st_out s' = st_out s \<and> (distinct (map fst (st_cursors s)) \<longrightarrow> distinct (map fst (st_cursors s')))
    \<and> (\<forall>k c. map_of (st_cursors s') k = Some c \<longrightarrow>
         map_of (st_cursors s) k = Some c \<or> (\<exists>d. pv_snap (views k) = Inr d \<and> c = max_id (d_events d)))"
  using assms
proof (induction ks arbitrary: s found)
  case (Cons k ks)
  obtain r s1 where b: "baseline_read k (views k) s = (Inr r, s1)"
    using Cons.prems by (cases "baseline_read k (views k) s") (auto simp: cbind_def split: sum.splits)
  note read = baseline_read_result[OF b]
  show ?case
  proof (cases r)
    case None
    then have "baseline views ks s1 = (Inr found, s')" using Cons.prems b by (simp add: cbind_def)
    from Cons.IH[OF this] read show ?thesis by simp
  next
    case (Some d)
    let ?s = "s1\<lparr>st_cursors := AList.update k (max_id (d_events d)) (st_cursors s1)\<rparr>"
    obtain rest where "baseline views ks ?s = (Inr rest, s')"
      using Cons.prems b Some by (auto simp: cbind_def cret_def split: prod.splits sum.splits)
    from Cons.IH[OF this] read Some show ?thesis by (auto simp: distinct_update split: if_splits)
  qed
qed (simp add: cret_def)

text \<open>
  C36 Exactly once, in order. Whatever the polls are answered, busy and broken stores included, what a
  stream has printed for a plan are the shown ones of the first \<open>m\<close> events that its log gained
  since the first snapshot, in the order of the log and each once: nothing is skipped before
  something later, nothing is printed twice and no history is replayed. The log may only grow.
\<close>

theorem stream_in_order:
  assumes "stream_loop sh dumps opts present fresh plan_text start vs keys new_stream = (Inr code, s)"
    and "log_run L vs L'" and "\<And>k. ids_ok (L k)"
    and "\<And>k d. pv_snap (start k) = Inr d \<Longrightarrow> d_events d = map event_from_row (L k)"
  shows "code = OK \<and> (\<exists>m. printed s k =
    filter (is_shown sh opts (snd k)) (map event_from_row (take m (drop (length (L k)) (L' k)))))"
proof -
  obtain found s1 where b: "baseline start keys new_stream = (Inr found, s1)"
    using assms(1) by (cases "baseline start keys new_stream") (auto simp: stream_loop_def cbind_def split: sum.splits)
  obtain head where f: "run_frames sh dumps opts vs (s1\<lparr>st_head := head\<rparr>) = (Inr (), s)" and ok: "code = OK"
    using assms(1) b by (auto simp: stream_loop_def cbind_def cret_def split: prod.splits sum.splits)
  note base = baseline_result[OF b]
  have "tracked sh opts (\<lambda>k. length (L k)) L (s1\<lparr>st_head := head\<rparr>) j" for j
  proof -
    have "c = top_id (L j)" if cur: "map_of (st_cursors s1) j = Some c" for c
    proof -
      have "map_of (st_cursors new_stream) j \<noteq> Some c" by (simp add: new_stream_def)
      then obtain d where "pv_snap (start j) = Inr d" "c = max_id (d_events d)"
        using base[THEN conjunct2, THEN conjunct2, rule_format, OF cur] by blast
      then show ?thesis using assms(4)[of j d] max_id_rows[OF assms(3), of j] by simp
    qed
    then show ?thesis
      unfolding tracked_def using base by (intro exI[of _ "length (L j)"]) (simp add: printed_def new_stream_def)
  qed
  then have "tracked sh opts (\<lambda>k. length (L k)) L' s k"
    by (rule frames_tracked[OF assms(2) f]) (use base in \<open>simp add: new_stream_def\<close>)
  then obtain n where "printed s k = filter (is_shown sh opts (snd k)) (map event_from_row (drop (length (L k)) (take n (L' k))))"
    unfolding tracked_def by blast
  then show ?thesis using ok by (auto simp: drop_take)
qed

section \<open>Catching up\<close>

text \<open>A frame in which every poll is answered; the readings of one project agree.\<close>

definition calm :: "(watch_key \<Rightarrow> poll_view) \<Rightarrow> (string \<Rightarrow> int) \<Rightarrow> (watch_key \<Rightarrow> pdb) \<Rightarrow> bool" where
  "calm views ver dbs \<longleftrightarrow> (\<forall>j. views j = \<lparr>pv_open = None, pv_version = Inr (ver (fst j)), pv_events = Inr (dbs j), pv_snap = pv_snap (views j)\<rparr>)"

text \<open>The project's connection is open and will report that something was committed.\<close>

definition due :: "(string \<Rightarrow> int) \<Rightarrow> stream \<Rightarrow> string \<Rightarrow> bool" where
  "due ver s orch \<longleftrightarrow> map_of (st_readers s) orch \<noteq> None
     \<and> (case map_of (st_moved s) orch of Some b \<Rightarrow> b | None \<Rightarrow> map_of (st_readers s) orch \<noteq> Some (Some (ver orch)))"

lemma calm_view:
  assumes "calm views ver dbs"
  shows "pv_open (views k) = None" "pv_version (views k) = Inr (ver (fst k))" "pv_events (views k) = Inr (dbs k)"
  using assms by (metis calm_def poll_view.select_convs)+

lemma calm_open:
  assumes "calm views ver dbs"
  shows "open_reader (fst k) (views k) s = (Inr (), if map_of (st_readers s) (fst k) = None
      then s\<lparr>st_readers := AList.update (fst k) (Some (ver (fst k))) (st_readers s)\<rparr> else s)"
  by (simp add: open_reader_def calm_view[OF assms] split: option.split)

lemma calm_moved:
  assumes "calm views ver dbs" "map_of (st_readers s) (fst k) \<noteq> None"
  obtains s' where "project_moved (fst k) (views k) s = (Inr (due ver s (fst k)), s')" "st_cursors s' = st_cursors s"
    "due ver s' (fst k) = due ver s (fst k)"
    "\<And>orch. orch \<noteq> fst k \<Longrightarrow> due ver s' orch = due ver s orch"
proof (cases "map_of (st_moved s) (fst k)")
  case None
  let ?b = "map_of (st_readers s) (fst k) \<noteq> Some (Some (ver (fst k)))"
  let ?s = "s\<lparr>st_readers := AList.update (fst k) (Some (ver (fst k))) (st_readers s), st_moved := AList.update (fst k) ?b (st_moved s)\<rparr>"
  have "project_moved (fst k) (views k) s = (Inr (due ver s (fst k)), ?s)"
    using None assms(2) by (simp add: project_moved_def changed_since_last_frame_def calm_view[OF assms(1)] cbind_def due_def)
  then show ?thesis using None assms(2) by (intro that[of ?s]) (simp_all add: due_def split: option.split)
next
  case (Some b)
  then have "project_moved (fst k) (views k) s = (Inr (due ver s (fst k)), s)"
    using assms(2) by (simp add: project_moved_def due_def)
  then show ?thesis by (intro that) simp_all
qed

lemma calm_fetch:
  assumes "calm views ver dbs"
  obtains r s' where "fetch k (views k) s = (Inr r, s')" "st_cursors s' = st_cursors s" "\<And>orch. due ver s orch \<Longrightarrow> due ver s' orch"
    "due ver s (fst k) \<Longrightarrow> r = Some (events_after (dbs k) (snd k) (cursor s k))"
proof -
  let ?s = "if map_of (st_readers s) (fst k) = None then s\<lparr>st_readers := AList.update (fst k) (Some (ver (fst k))) (st_readers s)\<rparr> else s"
  have opened: "map_of (st_readers ?s) (fst k) \<noteq> None" "st_cursors ?s = st_cursors s" by auto
  have keeps: "due ver ?s orch" if "due ver s orch" for orch
    using that by (auto simp: due_def split: option.split)
  obtain s' where m: "project_moved (fst k) (views k) ?s = (Inr (due ver ?s (fst k)), s')" "st_cursors s' = st_cursors ?s"
    "due ver s' (fst k) = due ver ?s (fst k)" "\<And>orch. orch \<noteq> fst k \<Longrightarrow> due ver s' orch = due ver ?s orch"
    using calm_moved[OF assms opened(1)] by blast
  let ?r = "if due ver ?s (fst k) then Some (events_after (dbs k) (snd k) (cursor s k)) else None"
  have "try_fetch k (views k) s = (Inr ?r, s')"
    using m(1,2) opened(2) by (simp add: try_fetch_def cbind_def calm_open[OF assms] calm_view[OF assms] cursor_def)
  then have "fetch k (views k) s = (Inr ?r, s')" by (simp add: fetch_def ccatch_def)
  moreover have "due ver s' orch" if "due ver s orch" for orch using keeps[OF that] m(3,4) by (cases "orch = fst k") auto
  ultimately show ?thesis using m(2) opened(2) keeps[of "fst k"] by (intro that[of ?r s']) auto
qed

lemma calm_poll:
  assumes "calm views ver dbs" "poll_plan sh dumps opts views j s = (Inr u, s')" "due ver s (fst k)"
  shows "due ver s' (fst k)"
    "j \<noteq> k \<Longrightarrow> printed s' k = printed s k \<and> map_of (st_cursors s') k = map_of (st_cursors s) k"
    "j = k \<Longrightarrow> printed s' k = printed s k @ filter (is_shown sh opts (snd k)) (events_after (dbs k) (snd k) (cursor s k))"
proof -
  obtain r s1 where f: "fetch j (views j) s = (Inr r, s1)" "st_cursors s1 = st_cursors s" "\<And>orch. due ver s orch \<Longrightarrow> due ver s1 orch"
    "due ver s (fst j) \<Longrightarrow> r = Some (events_after (dbs j) (snd j) (cursor s j))"
    using calm_fetch[OF assms(1)] by blast
  have out: "printed s1 i = printed s i" for i using fetch_result(1)[OF f(1)] by (simp add: printed_def)
  have "due ver s' (fst k)
    \<and> (j \<noteq> k \<longrightarrow> printed s' k = printed s k \<and> map_of (st_cursors s') k = map_of (st_cursors s) k)
    \<and> (j = k \<longrightarrow> printed s' k = printed s k @ filter (is_shown sh opts (snd k)) (events_after (dbs k) (snd k) (cursor s k)))"
  proof (cases r)
    case None
    then have "s' = s1" using assms(2) f(1) by (simp add: poll_plan_def cbind_def cret_def)
    then show ?thesis using f(2-4) assms(3) None out by auto
  next
    case (Some es)
    obtain s2 where d: "deliver sh dumps opts j (views j) es s1 = (Inr (), s2)" "s' = advance j es s2"
      using assms(2) f(1) Some by (cases "deliver sh dumps opts j (views j) es s1") (auto simp: poll_plan_def cbind_def split: sum.splits)
    have "due ver s' (fst k) = due ver s1 (fst k)" using deliver_prints[OF d(1)]
      by (simp add: d(2) advance_def due_def split: option.split)
    moreover have "printed s' k = printed s2 k" by (simp add: d(2) advance_def printed_def)
    moreover have "j \<noteq> k \<longrightarrow> map_of (st_cursors s') k = map_of (st_cursors s2) k" by (simp add: d(2) advance_def)
    ultimately show ?thesis using deliver_prints[OF d(1), of k] f(2-4) assms(3) Some out by auto
  qed
  then show "due ver s' (fst k)"
    "j \<noteq> k \<Longrightarrow> printed s' k = printed s k \<and> map_of (st_cursors s') k = map_of (st_cursors s) k"
    "j = k \<Longrightarrow> printed s' k = printed s k @ filter (is_shown sh opts (snd k)) (events_after (dbs k) (snd k) (cursor s k))"
    by blast+
qed

lemma calm_poll_each:
  assumes "calm views ver dbs" "poll_each sh dumps opts views ks s = (Inr u, s')" "due ver s (fst k)" "distinct ks"
  shows "printed s' k = printed s k
    @ (if k \<in> set ks then filter (is_shown sh opts (snd k)) (events_after (dbs k) (snd k) (cursor s k)) else [])"
  using assms(2-4)
proof (induction ks arbitrary: s)
  case (Cons j ks)
  obtain s1 where p: "poll_plan sh dumps opts views j s = (Inr (), s1)" "poll_each sh dumps opts views ks s1 = (Inr u, s')"
    using Cons.prems(1) by (cases "poll_plan sh dumps opts views j s") (auto simp: cbind_def split: sum.splits)
  note c = calm_poll[OF assms(1) p(1) Cons.prems(2)]
  have "distinct ks" using Cons.prems(3) by simp
  from Cons.IH[OF p(2) c(1) this] c(2,3) Cons.prems(3) show ?case by (cases "j = k") (auto simp: cursor_def)
qed (simp add: cret_def)

text \<open>
  The stream catches up. In a frame in which every poll is answered, a watched plan whose project's
  database was committed to since the last reading gets all the events past its cursor printed,
  whichever plan of the project is polled first.
\<close>

theorem stream_catches_up:
  assumes "frame sh dumps opts views s = (Inr u, s')" "calm views ver dbs" "distinct (map fst (st_cursors s))"
    and "map_of (st_cursors s) k = Some c" "map_of (st_readers s) (fst k) = Some seen" "seen \<noteq> Some (ver (fst k))"
  shows "printed s' k = printed s k @ filter (is_shown sh opts (snd k)) (events_after (dbs k) (snd k) c)"
proof -
  have "due ver (s\<lparr>st_moved := []\<rparr>) (fst k)" using assms(5,6) by (simp add: due_def)
  moreover have "k \<in> set (map fst (st_cursors s))" using assms(4) by (force dest: map_of_SomeD)
  ultimately show ?thesis
    using calm_poll_each[OF assms(2) assms(1)[unfolded frame_def] _ assms(3)] assms(4) by (simp add: printed_def cursor_def)
qed

section \<open>A poll that is forgotten\<close>

lemma idle_poll:
  assumes "map_of (st_readers s) (fst k) = Some (Some n)" "pv_version (v k) = Inr n"
    and "map_of (st_moved s) (fst k) \<in> {None, Some False}"
  obtains s' where "poll_plan sh dumps opts v k s = (Inr (), s')" "st_out s' = st_out s" "st_cursors s' = st_cursors s"
    "map_of (st_readers s') (fst k) = Some (Some n)" "map_of (st_moved s') (fst k) = Some False"
proof -
  have o1: "open_reader (fst k) (v k) s = (Inr (), s)" using assms(1) by (simp add: open_reader_def)
  show ?thesis
  proof (cases "map_of (st_moved s) (fst k)")
    case None
    let ?s = "s\<lparr>st_readers := AList.update (fst k) (Some n) (st_readers s), st_moved := AList.update (fst k) False (st_moved s)\<rparr>"
    have "project_moved (fst k) (v k) s = (Inr False, ?s)"
      using None assms(1,2) by (simp add: project_moved_def changed_since_last_frame_def cbind_def)
    then have "poll_plan sh dumps opts v k s = (Inr (), ?s)"
      by (simp add: poll_plan_def fetch_def ccatch_def try_fetch_def cbind_def o1 cret_def)
    then show ?thesis by (rule that) simp_all
  next
    case (Some b)
    then have "project_moved (fst k) (v k) s = (Inr False, s)" using assms(3) by (simp add: project_moved_def)
    then have "poll_plan sh dumps opts v k s = (Inr (), s)"
      by (simp add: poll_plan_def fetch_def ccatch_def try_fetch_def cbind_def o1 cret_def)
    then show ?thesis by (rule that) (use Some assms in simp_all)
  qed
qed

lemma idle_each:
  assumes "\<forall>k\<in>set ks. fst k = p \<and> pv_version (v k) = Inr n"
    and "map_of (st_readers s) p = Some (Some n)" "map_of (st_moved s) p \<in> {None, Some False}"
  shows "\<exists>s'. poll_each sh dumps opts v ks s = (Inr (), s') \<and> st_out s' = st_out s \<and> st_cursors s' = st_cursors s
    \<and> map_of (st_readers s') p = Some (Some n)"
  using assms
proof (induction ks arbitrary: s)
  case (Cons k ks)
  have k: "fst k = p" "pv_version (v k) = Inr n" using Cons.prems(1) by auto
  obtain s1 where s1: "poll_plan sh dumps opts v k s = (Inr (), s1)" "st_out s1 = st_out s" "st_cursors s1 = st_cursors s"
    "map_of (st_readers s1) p = Some (Some n)" "map_of (st_moved s1) p = Some False"
    using idle_poll[of s k n v sh dumps opts] Cons.prems(2,3) k by auto
  have "\<exists>s'. poll_each sh dumps opts v ks s1 = (Inr (), s') \<and> st_out s' = st_out s1 \<and> st_cursors s' = st_cursors s1
      \<and> map_of (st_readers s') p = Some (Some n)"
    by (rule Cons.IH) (use Cons.prems(1) s1 in auto)
  then show ?case using s1 by (auto simp: cbind_def)
qed (simp add: cret_def)

lemma idle_frames:
  assumes "\<forall>v\<in>set vs. \<forall>k\<in>fst ` set (st_cursors s). pv_version (v k) = Inr n" "\<forall>k\<in>fst ` set (st_cursors s). fst k = p"
    and "map_of (st_readers s) p = Some (Some n)"
  shows "\<exists>s'. run_frames sh dumps opts vs s = (Inr (), s') \<and> st_out s' = st_out s \<and> st_cursors s' = st_cursors s"
  using assms
proof (induction vs arbitrary: s)
  case (Cons v vs)
  have "\<forall>k\<in>set (map fst (st_cursors s)). fst k = p \<and> pv_version (v k) = Inr n" using Cons.prems(1,2) by auto
  from idle_each[OF this, of "s\<lparr>st_moved := []\<rparr>" sh dumps opts] Cons.prems(3)
  obtain s1 where s1: "frame sh dumps opts v s = (Inr (), s1)" "st_out s1 = st_out s" "st_cursors s1 = st_cursors s"
    "map_of (st_readers s1) p = Some (Some n)" by (auto simp: frame_def)
  have "\<exists>s'. run_frames sh dumps opts vs s1 = (Inr (), s') \<and> st_out s' = st_out s1 \<and> st_cursors s' = st_cursors s1"
    by (rule Cons.IH) (use Cons.prems(1,2) s1 in auto)
  then show ?case using s1 by (auto simp: cbind_def)
qed (simp add: cret_def)

lemma busy_poll:
  assumes "map_of (st_readers s) (fst k) = Some x" "map_of (st_moved s) (fst k) = None"
    and "pv_version (v k) = Inr n" "pv_events (v k) = Inl DbBusy" "x \<noteq> Some n"
  obtains s' where "poll_plan sh dumps opts v k s = (Inr (), s')" "st_out s' = st_out s" "st_cursors s' = st_cursors s"
    "map_of (st_readers s') (fst k) = Some None" "map_of (st_moved s') (fst k) = None"
proof -
  let ?s = "s\<lparr>st_readers := AList.update (fst k) (Some n) (st_readers s), st_moved := AList.update (fst k) True (st_moved s)\<rparr>"
  have "open_reader (fst k) (v k) s = (Inr (), s)" "project_moved (fst k) (v k) s = (Inr True, ?s)"
    using assms by (simp_all add: open_reader_def project_moved_def changed_since_last_frame_def cbind_def)
  then have "poll_plan sh dumps opts v k s = (Inr (), forget_moved (fst k) (invalidate (fst k) ?s))"
    using assms(4) by (simp add: poll_plan_def fetch_def ccatch_def try_fetch_def cbind_def cret_def retry_error_def)
  then show ?thesis by (rule that) (simp_all add: forget_moved_def invalidate_def map_of_map_entry)
qed

text \<open>
  C39 A busy poll is forgotten. When the poll of one plan fails as busy and the next plan of the same project is
  polled in the same frame, the second poll takes the forced reading for itself: the first plan's
  pending events are not fetched by any later frame until something else is committed to that
  database, however long that takes, although the failed poll was to be repeated.
\<close>

theorem retry_forgotten:
  assumes "st_cursors s = [(k1, c1), (k2, c2)]" "k1 \<noteq> k2" "fst k1 = fst k2"
    and "map_of (st_readers s) (fst k1) = Some x" "x \<noteq> Some n"
    and "pv_version (v k1) = Inr n" "pv_events (v k1) = Inl DbBusy" "pv_version (v k2) = Inr n" "pv_events (v k2) = Inr db"
    and "frame sh dumps opts v s = (Inr (), s1)" "\<forall>w\<in>set vs. pv_version (w k1) = Inr n \<and> pv_version (w k2) = Inr n"
  shows "\<exists>s2. run_frames sh dumps opts vs s1 = (Inr (), s2) \<and> printed s2 k1 = printed s k1 \<and> map_of (st_cursors s2) k1 = Some c1"
proof -
  let ?s = "s\<lparr>st_moved := []\<rparr>"
  obtain t where t: "poll_plan sh dumps opts v k1 ?s = (Inr (), t)" "st_out t = st_out s" "st_cursors t = st_cursors s"
    "map_of (st_readers t) (fst k1) = Some None" "map_of (st_moved t) (fst k1) = None"
    using busy_poll[of ?s k1 x v n sh dumps opts] assms(4-7) by auto
  have p2: "poll_plan sh dumps opts v k2 t = (Inr (), s1)"
    using assms(1,10) t(1) by (auto simp: frame_def cbind_def cret_def split: prod.splits sum.splits)
  let ?t = "t\<lparr>st_readers := AList.update (fst k2) (Some n) (st_readers t), st_moved := AList.update (fst k2) True (st_moved t)\<rparr>"
  have "open_reader (fst k2) (v k2) t = (Inr (), t)" "project_moved (fst k2) (v k2) t = (Inr True, ?t)"
    using assms(3,8) t(4,5) by (simp_all add: open_reader_def project_moved_def changed_since_last_frame_def cbind_def)
  then have f: "fetch k2 (v k2) t = (Inr (Some (events_after db (snd k2) (cursor t k2))), ?t)"
    using assms(9) by (simp add: fetch_def ccatch_def try_fetch_def cbind_def cursor_def)
  obtain t2 where d: "deliver sh dumps opts k2 (v k2) (events_after db (snd k2) (cursor t k2)) ?t = (Inr (), t2)"
    "s1 = advance k2 (events_after db (snd k2) (cursor t k2)) t2"
    using p2 f by (cases "deliver sh dumps opts k2 (v k2) (events_after db (snd k2) (cursor t k2)) ?t")
      (auto simp: poll_plan_def cbind_def split: sum.splits)
  note dp = deliver_prints[OF d(1)]
  have s1: "map_of (st_readers s1) (fst k1) = Some (Some n)" "printed s1 k1 = printed s k1"
    "fst ` set (st_cursors s1) = {k1, k2}" "map_of (st_cursors s1) k1 = Some c1"
    using dp[of k1] t(2,3) assms(1-3) by (auto simp: d(2) advance_def printed_def dom_update)
  have "\<exists>s2. run_frames sh dumps opts vs s1 = (Inr (), s2) \<and> st_out s2 = st_out s1 \<and> st_cursors s2 = st_cursors s1"
    by (rule idle_frames[OF _ _ s1(1)]) (use assms(3,11) s1(3) in auto)
  then show ?thesis using s1 by (auto simp: printed_def)
qed

text \<open>A plan whose first snapshot is refused as busy gets no cursor, and no frame looks at it.\<close>

lemma busy_start_unwatched:
  assumes "slug_re_match (snd k)" "pv_open (views k) = None" "pv_version (views k) = Inr n" "pv_snap (views k) = Inl DbBusy"
  shows "\<exists>s'. baseline views [k] s = (Inr [], s') \<and> st_cursors s' = st_cursors s"
proof -
  obtain s1 where o1: "open_reader (fst k) (views k) s = (Inr (), s1)"
    using assms(2,3) by (cases "map_of (st_readers s) (fst k)") (auto simp: open_reader_def)
  then have "baseline_read k (views k) s = (Inr None, s1)"
    using assms by (simp add: baseline_read_def ccatch_def cbind_def clift_def cret_def validate_slug_def guard_res_def retry_error_def)
  then show ?thesis using open_reader_same[OF o1] by (simp add: cbind_def cret_def)
qed

section \<open>Concrete streams\<close>

definition started_row :: "int \<Rightarrow> string \<Rightarrow> event_row" where
  "started_row i slug =
     \<lparr>er_id = i, er_slug = slug, er_ts = SVal (JTime 0), er_type = SVal (JStr EVENT_PHASE_STARTED), er_payload = SNull\<rparr>"

definition log_db :: "event_row list \<Rightarrow> pdb" where
  "log_db rs = empty_db\<lparr>t_events := rs\<rparr>"

definition answered :: "int \<Rightarrow> pdb \<Rightarrow> poll_view" where
  "answered n db = \<lparr>pv_open = None, pv_version = Inr n, pv_events = Inr db, pv_snap = Inl DbBusy\<rparr>"

definition text_mode :: watch_opts where
  "text_mode = \<lparr>wo_json = False, wo_task_list = False, wo_verbose = False, wo_operator = False\<rparr>"

abbreviation plan_a :: watch_key where "plan_a \<equiv> (''proj'', ''a'')"
abbreviation plan_b :: watch_key where "plan_b \<equiv> (''proj'', ''b'')"

definition busy_view :: "int \<Rightarrow> poll_view" where
  "busy_view n = \<lparr>pv_open = None, pv_version = Inr n, pv_events = Inl DbBusy, pv_snap = Inl DbBusy\<rparr>"

text \<open>The store is busy for one frame, then shows the event that was added since the first snapshot.\<close>

definition start_view :: "watch_key \<Rightarrow> poll_view" where
  "start_view k = (busy_view 1)\<lparr>pv_snap := (if k = plan_a
     then Inr ((empty_state 0 ''a'' ''plans'')\<lparr>d_events := [event_from_row (started_row 1 ''a'')]\<rparr>) else Inl DbBusy)\<rparr>"

definition later_view :: "watch_key \<Rightarrow> poll_view" where
  "later_view k = (if k = plan_a then answered 2 (log_db [started_row 1 ''a'', started_row 2 ''a'']) else busy_view 2)"

definition rows_upto :: "int list \<Rightarrow> watch_key \<Rightarrow> event_row list" where
  "rows_upto is k = (if k = plan_a then map (\<lambda>i. started_row i ''a'') is else [])"

definition example_stream :: "exit_code res \<times> stream" where
  "example_stream = stream_loop (\<lambda>_. []) (\<lambda>_. []) text_mode (\<lambda>_. True) (\<lambda>_. None) (\<lambda>_. None) start_view
     [\<lambda>_. busy_view 2, later_view] [plan_a] new_stream"

lemma example_log: "log_run (rows_upto [1]) [\<lambda>_. busy_view 2, later_view] (rows_upto [1, 2])"
  by (intro log_step[where M = "rows_upto [1]"] log_step[where M = "rows_upto [1, 2]"] log_stop)
    (auto simp: rows_upto_def ids_ok_def started_row_def busy_view_def later_view_def answered_def log_db_def plan_events_def split: if_splits)

theorem stream_in_order_witness:
  "\<exists>s m. example_stream = (Inr OK, s)
     \<and> printed s plan_a = filter (is_shown (\<lambda>_. []) text_mode ''a'') (map event_from_row (take m [started_row 2 ''a'']))
     \<and> length (printed s plan_a) = 1"
proof -
  have "fst example_stream = Inr OK \<and> length (printed (snd example_stream) plan_a) = 1" by code_simp
  then obtain s where s: "example_stream = (Inr OK, s)" "length (printed s plan_a) = 1"
    by (metis prod.collapse)
  have "ids_ok (rows_upto [1] k)" for k by (simp add: rows_upto_def ids_ok_def started_row_def)
  moreover have "d_events d = map event_from_row (rows_upto [1] k)" if "pv_snap (start_view k) = Inr d" for k d
    using that by (auto simp: start_view_def rows_upto_def busy_view_def split: if_splits)
  ultimately show ?thesis
    using stream_in_order[OF s(1)[unfolded example_stream_def] example_log, of plan_a] s by (auto simp: rows_upto_def)
qed

definition open_stream :: stream where
  "open_stream = new_stream\<lparr>st_cursors := [(plan_a, 1), (plan_b, 0)], st_readers := [(''proj'', Some 1)]\<rparr>"

definition both_view :: "watch_key \<Rightarrow> poll_view" where
  "both_view k = answered 2 (log_db [started_row 1 ''a'', started_row 2 ''a'', started_row 3 ''b''])"

theorem stream_catches_up_witness:
  "\<exists>s. frame (\<lambda>_. []) (\<lambda>_. []) text_mode both_view open_stream = (Inr (), s)
     \<and> printed s plan_a = [event_from_row (started_row 2 ''a'')]"
proof -
  have "fst (frame (\<lambda>_. []) (\<lambda>_. []) text_mode both_view open_stream) = Inr ()" by code_simp
  then obtain s where s: "frame (\<lambda>_. []) (\<lambda>_. []) text_mode both_view open_stream = (Inr (), s)"
    by (cases "frame (\<lambda>_. []) (\<lambda>_. []) text_mode both_view open_stream") auto
  have "calm both_view (\<lambda>_. 2) (\<lambda>_. log_db [started_row 1 ''a'', started_row 2 ''a'', started_row 3 ''b''])"
    by (simp add: calm_def both_view_def answered_def)
  moreover have "filter (is_shown (\<lambda>_. []) text_mode ''a'')
      (events_after (log_db [started_row 1 ''a'', started_row 2 ''a'', started_row 3 ''b'']) ''a'' 1) = [event_from_row (started_row 2 ''a'')]"
    by code_simp
  ultimately show ?thesis
    using stream_catches_up[OF s, of "\<lambda>_. 2" "\<lambda>_. log_db [started_row 1 ''a'', started_row 2 ''a'', started_row 3 ''b'']" plan_a 1 "Some 1"] s
    by (simp add: open_stream_def new_stream_def printed_def)
qed

text \<open>Plan \<open>a\<close> has an event waiting, its poll is busy, the one of \<open>b\<close> is answered; a hundred frames later
  nothing of \<open>a\<close> is printed.\<close>

definition busy_first :: "watch_key \<Rightarrow> poll_view" where
  "busy_first k = (if k = plan_a then busy_view 2 else both_view k)"

theorem retry_forgotten_witness:
  "\<exists>s1 s2. frame (\<lambda>_. []) (\<lambda>_. []) text_mode busy_first open_stream = (Inr (), s1)
     \<and> run_frames (\<lambda>_. []) (\<lambda>_. []) text_mode (replicate 100 both_view) s1 = (Inr (), s2)
     \<and> printed s2 plan_a = []
     \<and> events_after (log_db [started_row 1 ''a'', started_row 2 ''a'', started_row 3 ''b'']) ''a'' 1 \<noteq> []"
proof -
  have "fst (frame (\<lambda>_. []) (\<lambda>_. []) text_mode busy_first open_stream) = Inr ()" by code_simp
  then obtain s1 where s1: "frame (\<lambda>_. []) (\<lambda>_. []) text_mode busy_first open_stream = (Inr (), s1)"
    by (cases "frame (\<lambda>_. []) (\<lambda>_. []) text_mode busy_first open_stream") auto
  have "events_after (log_db [started_row 1 ''a'', started_row 2 ''a'', started_row 3 ''b'']) ''a'' 1 \<noteq> []" by code_simp
  with retry_forgotten[OF _ _ _ _ _ _ _ _ _ s1, of plan_a 1 plan_b 0 "Some 1" 2 _ "replicate 100 both_view"] s1
  show ?thesis
    by (auto simp: open_stream_def new_stream_def printed_def busy_first_def busy_view_def both_view_def answered_def)
qed

end
