(* ===== verification/Ship.thy ===== *)
theory Ship
  imports Cross_Ends
begin

text \<open>
  Landing finished work (\<open>clu validate\<close> and \<open>clu ship\<close> of \<open>cli.py\<close>): the trial merge on demand, the
  direct mode, which merges a plan's branch into \<open>main\<close> and pushes it, and the mode that opens a
  pull request instead. Both ask git the same question before and after they changed something, so
  the answers are a function of what was done before (\<open>sv_at\<close>).
\<close>

section \<open>Inputs\<close>

datatype gh_answer = GhMissing | GhTimeout | GhDone proc

text \<open>
  \<open>sv_at\<close> gives the environment after some effects, \<open>sv_gh\<close> the answers of \<open>gh\<close>; \<open>sv_view_url\<close> is the
  \<open>url\<close> of the JSON object a text holds (\<open>None\<close>: it holds none, or an empty one), \<open>sv_plan_md\<close> the text
  of a master plan and \<open>sv_is_dir\<close> says that the project directory is there.
\<close>

record ship_env =
  sv_at :: "effect list \<Rightarrow> xp_env"
  sv_gh :: "effect list \<Rightarrow> string list \<Rightarrow> gh_answer"
  sv_view_url :: "string \<Rightarrow> string option"
  sv_plan_md :: "string \<Rightarrow> string option"
  sv_is_dir :: bool

record ship_args =
  sa_check :: bool
  sa_yes :: bool

definition asking :: "ship_env \<Rightarrow> (xp_env \<Rightarrow> 'a cmd) \<Rightarrow> 'a cmd" where
  "asking se f = (\<lambda>w. f (sv_at se (w_fx w)) w)"

text \<open>\<open>git -C <root> ...\<close>, the exit code being looked at by the caller.\<close>

definition ship_git :: "ship_env \<Rightarrow> string list \<Rightarrow> proc cmd" where
  "ship_git se argv = asking se (\<lambda>xe. run_git (xe_env xe) ([''-C'', xe_root xe] @ argv))"

definition run_gh :: "ship_env \<Rightarrow> string list \<Rightarrow> proc cmd" where
  "run_gh se argv = (\<lambda>w. cbind (emit (Gh argv)) (\<lambda>_.
     case sv_gh se (w_fx w) argv of
       GhMissing \<Rightarrow> craise (FileNotFoundErr ''gh'')
     | GhTimeout \<Rightarrow> craise TimeoutExpired
     | GhDone p \<Rightarrow> cret p) w)"

definition unmerged :: "ship_env \<Rightarrow> string \<Rightarrow> bool cmd" where
  "unmerged se branch = cbind (asking se (\<lambda>xe. is_branch_merged_into (xe_env xe) branch)) (\<lambda>merged. cret (\<not> merged))"

definition local_branch_exists :: "cmd_env \<Rightarrow> string \<Rightarrow> bool cmd" where
  "local_branch_exists env branch =
     (let argv = [''-C'', cc_root (ce_cfg env), ''rev-parse'', ''--verify'', ''refs/heads/'' @ branch]
      in cbind (emit (Git argv)) (\<lambda>_. cret (case ce_git env argv of None \<Rightarrow> False | Some p \<Rightarrow> p_rc p = 0)))"

definition trial_merge :: "ship_env \<Rightarrow> string \<Rightarrow> merge_result cmd" where
  "trial_merge se branch =
     asking se (\<lambda>xe. attempt_merge xe ''main'' [branch] (cc_test_command (ce_cfg (xe_env xe))))"

section \<open>clu validate\<close>

datatype validate_target = Branches string | Batch string | NoTarget

definition parsed_branches :: "string \<Rightarrow> string list" where
  "parsed_branches s = filter (\<lambda>b. b \<noteq> []) (map strip (split_on CHR '','' s))"

fun known_branches :: "ship_env \<Rightarrow> (string \<times> doc) list \<Rightarrow> string list cmd" where
  "known_branches se [] = cret []"
| "known_branches se ((s, d) # rest) =
     cbind (clift (branch_of d)) (\<lambda>branch.
     cbind (ship_git se [''rev-parse'', ''--verify'', branch]) (\<lambda>p.
     cbind (known_branches se rest) (\<lambda>bs. cret ((if p_rc p = 0 then [branch] else []) @ bs))))"

definition in_batch :: "string \<Rightarrow> string \<times> doc \<Rightarrow> bool" where
  "in_batch batch = (\<lambda>(s, d). d_status d = JStr STATUS_DONE \<and> d_batch_id d = JStr batch \<and> worktree_record d \<noteq> None)"

definition batch_branches :: "ship_env \<Rightarrow> string \<Rightarrow> string list walk" where
  "batch_branches se batch =
     (\<lambda>p. cbind (load_plans_for_project (sv_at se (w_fx (pj_world p)))) (\<lambda>plans.
        on_world (known_branches se (filter (in_batch batch) plans))) p)"

definition validate_branches :: "ship_env \<Rightarrow> string \<Rightarrow> bool \<Rightarrow> string list \<Rightarrow> exit_code cmd" where
  "validate_branches se base_ref no_suite branches =
     cbind (asking se (\<lambda>xe. attempt_merge xe base_ref branches
        (if no_suite then None else cc_test_command (ce_cfg (xe_env xe))))) (\<lambda>res.
       cret (if mr_outcome res = Clean then OK else GENERIC))"

definition cmd_validate :: "ship_env \<Rightarrow> validate_target \<Rightarrow> string \<Rightarrow> bool \<Rightarrow> exit_code walk" where
  "cmd_validate se target base_ref no_suite =
     (if \<not> sv_is_dir se then cret GENERIC
      else case target of
        Branches s \<Rightarrow>
          if length (parsed_branches s) < 2 then cret GENERIC
          else on_world (validate_branches se base_ref no_suite (parsed_branches s))
      | Batch batch \<Rightarrow>
          if \<not> slug_re_match batch then cret INVALID_SLUG
          else cbind (batch_branches se batch) (\<lambda>branches.
            if length branches < 2 then cret GENERIC
            else on_world (validate_branches se base_ref no_suite branches))
      | NoTarget \<Rightarrow> cret GENERIC)"

section \<open>Direct mode\<close>

text \<open>The lines of \<open>git status --porcelain\<close> that are not about untracked files.\<close>

definition dirty_lines :: "string \<Rightarrow> string list" where
  "dirty_lines out = filter (\<lambda>l. \<not> prefix ''??'' l) (split_lines out)"

definition checkout_dirty :: "ship_env \<Rightarrow> bool cmd" where
  "checkout_dirty se =
     cbind (asking se (\<lambda>xe. run_checked (xe_env xe) [''-C'', xe_root xe, ''status'', ''--porcelain''])) (\<lambda>p.
       cret (dirty_lines (p_out p) \<noteq> []))"

text \<open>What both single-plan modes refuse first; the branch to ship otherwise.\<close>

definition ship_gate :: "ship_env \<Rightarrow> string \<Rightarrow> (exit_code + string) cmd" where
  "ship_gate se slug =
     (if \<not> slug_re_match slug then cret (Inl INVALID_SLUG)
      else if \<not> sv_is_dir se then cret (Inl GENERIC)
      else
        cbind (transact (\<lambda>db. (Inr (plan_exists db slug), db))) (\<lambda>there.
          if \<not> there then cret (Inl UNKNOWN_TASK)
          else
            cbind (read_plan slug) (\<lambda>d.
              if d_status d \<noteq> JStr STATUS_DONE then cret (Inl STATUS_TRANSITION)
              else (case worktree_record d of
                      None \<Rightarrow> cret (Inl GENERIC)
                    | Some wt \<Rightarrow>
                        cbind (clift (need_key wt ''branch'')) (\<lambda>branch.
                        cbind (unmerged se branch) (\<lambda>open'.
                          cret (if open' then Inr branch else Inl GENERIC)))))))"

text \<open>The merge into \<open>main\<close>: fast-forward, else a merge commit.\<close>

definition merge_into_main :: "ship_env \<Rightarrow> string \<Rightarrow> bool cmd" where
  "merge_into_main se branch =
     cbind (ship_git se [''checkout'', ''main'']) (\<lambda>co.
       if p_rc co \<noteq> 0 then cret False
       else
         cbind (ship_git se [''merge'', ''--ff-only'', branch]) (\<lambda>ff.
           if p_rc ff = 0 then cret True
           else cbind (ship_git se [''merge'', ''--no-ff'', ''--no-edit'', branch]) (\<lambda>m. cret (p_rc m = 0))))"

definition push_branch :: "ship_env \<Rightarrow> string \<Rightarrow> bool \<Rightarrow> unit cmd" where
  "push_branch se branch keep_remote_branches =
     (if keep_remote_branches then cbind (ship_git se [''push'', ''origin'', branch]) (\<lambda>_. cret ()) else cret ())"

definition ship_apply_one_direct :: "ship_env \<Rightarrow> string \<Rightarrow> bool \<Rightarrow> bool cmd" where
  "ship_apply_one_direct se branch keep_remote_branches =
     cbind (merge_into_main se branch) (\<lambda>merged.
       if \<not> merged then cret False
       else
         cbind (ship_git se [''push'', ''origin'', ''main'']) (\<lambda>p.
           if p_rc p \<noteq> 0 then cret False
           else
             cbind (push_branch se branch keep_remote_branches) (\<lambda>_.
             cbind (unmerged se branch) (\<lambda>open'. cret (\<not> open')))))"

definition keeps_remote :: "ship_env \<Rightarrow> world \<Rightarrow> bool" where
  "keeps_remote se w = cc_keep_remote (ce_cfg (xe_env (sv_at se (w_fx w))))"

definition apply_direct :: "ship_env \<Rightarrow> string \<Rightarrow> exit_code cmd" where
  "apply_direct se branch =
     (\<lambda>w. cbind (ship_apply_one_direct se branch (keeps_remote se w)) (\<lambda>ok.
        if \<not> ok then cret GENERIC
        else cbind (asking se (\<lambda>xe. post_action_tick (xe_env xe))) (\<lambda>_. cret OK)) w)"

definition cmd_ship_direct_plan :: "ship_env \<Rightarrow> ship_args \<Rightarrow> string \<Rightarrow> exit_code cmd" where
  "cmd_ship_direct_plan se args slug =
     cbind (ship_gate se slug) (\<lambda>g.
       case g of
         Inl code \<Rightarrow> cret code
       | Inr branch \<Rightarrow>
           cbind (checkout_dirty se) (\<lambda>is_dirty.
             if is_dirty then cret GENERIC
             else
               cbind (trial_merge se branch) (\<lambda>res.
                 if mr_outcome res \<noteq> Clean then cret GENERIC
                 else if sa_check args \<or> \<not> sa_yes args then cret OK
                 else apply_direct se branch)))"

section \<open>All finished plans\<close>

fun ship_eligible :: "ship_env \<Rightarrow> (string \<times> doc) list \<Rightarrow> (string \<times> string) list cmd" where
  "ship_eligible se [] = cret []"
| "ship_eligible se ((s, d) # rest) =
     (if d_status d \<noteq> JStr STATUS_DONE \<or> worktree_record d = None then ship_eligible se rest
      else
        cbind (clift (branch_of d)) (\<lambda>branch.
        cbind (asking se (\<lambda>xe. local_branch_exists (xe_env xe) branch)) (\<lambda>there.
          if \<not> there then ship_eligible se rest
          else
            cbind (unmerged se branch) (\<lambda>open'.
            cbind (ship_eligible se rest) (\<lambda>more. cret ((if open' then [(s, branch)] else []) @ more))))))"

text \<open>The plans whose trial merge is not clean.\<close>

fun validate_each :: "ship_env \<Rightarrow> (string \<times> string) list \<Rightarrow> string list cmd" where
  "validate_each se [] = cret []"
| "validate_each se ((s, branch) # rest) =
     cbind (trial_merge se branch) (\<lambda>res.
     cbind (validate_each se rest) (\<lambda>bad. cret ((if mr_outcome res = Clean then [] else [s]) @ bad)))"

text \<open>The outcome of each plan that was tried.\<close>

fun apply_each :: "(string \<Rightarrow> string \<Rightarrow> bool cmd) \<Rightarrow> string list \<Rightarrow> (string \<times> string) list \<Rightarrow> (string \<times> bool) list cmd" where
  "apply_each step bad [] = cret []"
| "apply_each step bad ((s, branch) # rest) =
     (if s \<in> set bad then apply_each step bad rest
      else cbind (step s branch) (\<lambda>ok. cbind (apply_each step bad rest) (\<lambda>more. cret ((s, ok) # more))))"

definition batch_code :: "string list \<Rightarrow> (string \<times> bool) list \<Rightarrow> exit_code" where
  "batch_code bad outcomes = (if bad \<noteq> [] \<or> list_ex (\<lambda>(s, ok). \<not> ok) outcomes then GENERIC else OK)"

definition apply_all_direct :: "ship_env \<Rightarrow> string list \<Rightarrow> (string \<times> string) list \<Rightarrow> exit_code cmd" where
  "apply_all_direct se bad eligible =
     (\<lambda>w. cbind (apply_each (\<lambda>s branch. ship_apply_one_direct se branch (keeps_remote se w)) bad eligible) (\<lambda>outcomes.
          cbind (if list_ex snd outcomes then asking se (\<lambda>xe. post_action_tick (xe_env xe)) else cret ()) (\<lambda>_.
            cret (batch_code bad outcomes))) w)"

definition ship_batch :: "ship_env \<Rightarrow> ship_args \<Rightarrow> (string list \<Rightarrow> (string \<times> string) list \<Rightarrow> exit_code cmd) \<Rightarrow> exit_code walk" where
  "ship_batch se args apply_all =
     (\<lambda>p. cbind (load_plans_for_project (sv_at se (w_fx (pj_world p)))) (\<lambda>plans.
        on_world (cbind (ship_eligible se plans) (\<lambda>eligible.
          if eligible = [] then cret OK
          else
            cbind (validate_each se eligible) (\<lambda>bad.
              if sa_check args then cret (if bad = [] then OK else GENERIC)
              else if \<not> sa_yes args then cret OK
              else apply_all bad eligible)))) p)"

definition cmd_ship_direct_all_done :: "ship_env \<Rightarrow> ship_args \<Rightarrow> exit_code walk" where
  "cmd_ship_direct_all_done se args =
     (if \<not> sv_is_dir se then cret GENERIC
      else cbind (on_world (checkout_dirty se)) (\<lambda>is_dirty.
        if is_dirty then cret GENERIC else ship_batch se args (apply_all_direct se)))"

section \<open>Pull requests\<close>

text \<open>Whether \<open>gh\<close> is installed and authenticated; only its absence at the first call is caught.\<close>

definition gh_preflight :: "ship_env \<Rightarrow> bool cmd" where
  "gh_preflight se =
     cbind (ccatch (cbind (run_gh se [''gh'', ''--version'']) (\<lambda>p. cret (Some p)))
        (\<lambda>e. case e of FileNotFoundErr _ \<Rightarrow> Some (cret None) | _ \<Rightarrow> None)) (\<lambda>version.
       case version of
         None \<Rightarrow> cret False
       | Some p \<Rightarrow>
           if p_rc p \<noteq> 0 then cret False
           else cbind (run_gh se [''gh'', ''auth'', ''status'']) (\<lambda>q. cret (p_rc q = 0)))"

definition pr_title :: "string \<Rightarrow> string option \<Rightarrow> string" where
  "pr_title slug md =
     (let fallback = ''clu-ship: '' @ slug;
          title = (case md of
              None \<Rightarrow> []
            | Some t \<Rightarrow> (case split_lines t of [] \<Rightarrow> [] | l # _ \<Rightarrow> strip (dropWhile (\<lambda>c. c \<in> {CHR ''#'', CHR '' ''}) l)))
      in if title = [] then fallback else title)"

definition pr_command :: "ship_env \<Rightarrow> xp_env \<Rightarrow> string \<Rightarrow> string \<Rightarrow> string list" where
  "pr_command se xe branch slug =
     [''gh'', ''pr'', ''create'', ''--title'', pr_title slug (sv_plan_md se slug), ''--head'', branch, ''--base'', ''main'']
     @ (case sv_plan_md se slug of
          Some t \<Rightarrow> [''--body-file'', path_in xe (slug @ ''.md'')]
        | None \<Rightarrow> [''--body'', ''Worker ship for plan '' @ [CHR 0x27] @ slug @ [CHR 0x27] @ ''.''])"

definition mentions :: "string \<Rightarrow> string \<Rightarrow> bool" where
  "mentions word s = sublist word (map lower_char s)"

text \<open>The address of the pull request, opened now or found open (\<open>None\<close>: neither).\<close>

definition gh_create_pr :: "ship_env \<Rightarrow> string \<Rightarrow> string \<Rightarrow> string option cmd" where
  "gh_create_pr se branch slug =
     cbind (asking se (\<lambda>xe. run_gh se (pr_command se xe branch slug))) (\<lambda>p.
       if p_rc p = 0
       then cret (Some (if strip (p_out p) = [] then [] else last (split_lines (strip (p_out p)))))
       else if mentions ''already'' (p_err p @ p_out p) \<or> mentions ''exists'' (p_err p @ p_out p)
       then cbind (run_gh se [''gh'', ''pr'', ''view'', branch, ''--json'', ''url'']) (\<lambda>v.
              cret (if p_rc v = 0 then sv_view_url se (p_out v) else None))
       else cret None)"

definition ship_pending_stamp :: "int \<Rightarrow> string \<Rightarrow> obj" where
  "ship_pending_stamp now url =
     [(''ship_pending'', JObj [(''mode'', JStr ''as_pr''), (''pr_url'', JStr url), (''ts'', iso now)])]"

definition ship_apply_one_as_pr :: "ship_env \<Rightarrow> string \<Rightarrow> string \<Rightarrow> bool cmd" where
  "ship_apply_one_as_pr se slug branch =
     cbind (ship_git se [''push'', ''--set-upstream'', ''origin'', branch]) (\<lambda>p.
       if p_rc p \<noteq> 0 then cret False
       else
         cbind (gh_create_pr se branch slug) (\<lambda>url.
           case url of
             None \<Rightarrow> cret False
           | Some u \<Rightarrow>
               cbind (asking se (\<lambda>xe. transact (locked (ce_busy (xe_env xe))
                  (op_set_fields slug (ship_pending_stamp (xe_now xe) u) [] [])))) (\<lambda>_. cret True)))"

definition cmd_ship_as_pr_plan :: "ship_env \<Rightarrow> ship_args \<Rightarrow> string \<Rightarrow> exit_code cmd" where
  "cmd_ship_as_pr_plan se args slug =
     cbind (ship_gate se slug) (\<lambda>g.
       case g of
         Inl code \<Rightarrow> cret code
       | Inr branch \<Rightarrow>
           cbind (trial_merge se branch) (\<lambda>res.
             if mr_outcome res \<noteq> Clean then cret GENERIC
             else if sa_check args \<or> \<not> sa_yes args then cret OK
             else
               cbind (gh_preflight se) (\<lambda>ready.
                 if \<not> ready then cret GENERIC
                 else cbind (ship_apply_one_as_pr se slug branch) (\<lambda>ok. cret (if ok then OK else GENERIC)))))"

definition apply_all_as_pr :: "ship_env \<Rightarrow> string list \<Rightarrow> (string \<times> string) list \<Rightarrow> exit_code cmd" where
  "apply_all_as_pr se bad eligible =
     cbind (gh_preflight se) (\<lambda>ready.
       if \<not> ready then cret GENERIC
       else cbind (apply_each (ship_apply_one_as_pr se) bad eligible) (\<lambda>outcomes. cret (batch_code bad outcomes)))"

definition cmd_ship_as_pr_all_done :: "ship_env \<Rightarrow> ship_args \<Rightarrow> exit_code walk" where
  "cmd_ship_as_pr_all_done se args = (if \<not> sv_is_dir se then cret GENERIC else ship_batch se args (apply_all_as_pr se))"

section \<open>clu ship\<close>

text \<open>\<open>target\<close> is a plan, or \<open>None\<close> for \<open>--all-done\<close>; \<open>flag\<close> the mode named on the command line.\<close>

definition cmd_ship :: "ship_env \<Rightarrow> ship_args \<Rightarrow> string option \<Rightarrow> string option \<Rightarrow> exit_code walk" where
  "cmd_ship se args flag target =
     (\<lambda>p. (if flag = None \<and> \<not> sv_is_dir se then cret GENERIC
           else
             let mode = (case flag of Some m \<Rightarrow> m | None \<Rightarrow> xe_ship_mode (sv_at se (w_fx (pj_world p))))
             in if mode = ''as_pr''
                then (case target of None \<Rightarrow> cmd_ship_as_pr_all_done se args | Some slug \<Rightarrow> on_world (cmd_ship_as_pr_plan se args slug))
                else (case target of None \<Rightarrow> cmd_ship_direct_all_done se args | Some slug \<Rightarrow> on_world (cmd_ship_direct_plan se args slug))) p)"

end
