(* ===== verification/Ship_Props.thy ===== *)
theory Ship_Props
  imports Ship
begin

text \<open>
  What \<open>clu ship\<close> promises: nothing is merged into \<open>main\<close> or pushed before every gate was passed,
  a zero exit code means that the branch is in \<open>origin/main\<close>, and the pull-request mode marks a
  plan as shipping only when its branch is pushed and its pull request exists.
\<close>

section \<open>The effects of a command\<close>

definition makes :: "(effect \<Rightarrow> bool) \<Rightarrow> 'a cmd \<Rightarrow> bool" where
  "makes P m \<longleftrightarrow> (\<forall>w r w'. m w = (r, w') \<longrightarrow> (\<exists>new. w_fx w' = w_fx w @ new \<and> list_all P new))"

lemma makesD: "makes P m \<Longrightarrow> m w = (r, w') \<Longrightarrow> \<exists>new. w_fx w' = w_fx w @ new \<and> list_all P new"
  unfolding makes_def by blast

lemma makes_adds: "adds P m \<Longrightarrow> makes P m"
  unfolding makes_def adds_def by blast

lemma makes_basic: "makes P (cret x)" "makes P (craise e)" "makes P (clift v)" "P fx \<Longrightarrow> makes P (emit fx)" "makes P (transact t)"
proof -
  show "makes P (transact t)" by (auto simp: makes_def transact_run settle_def split: list.splits)
qed (intro makes_adds adds_basic; assumption?)+

lemma makes_cbind:
  assumes "makes P m" "\<And>x. makes P (f x)"
  shows "makes P (cbind m f)"
  unfolding makes_def
proof (intro allI impI)
  fix w r w' assume r: "cbind m f w = (r, w')"
  obtain q w1 where m: "m w = (q, w1)" by fastforce
  obtain a where a: "w_fx w1 = w_fx w @ a" "list_all P a" using makesD[OF assms(1) m] by blast
  show "\<exists>new. w_fx w' = w_fx w @ new \<and> list_all P new"
  proof (cases q)
    case (Inr x)
    then have "f x w1 = (r, w')" using r m by (simp add: cbind_def)
    from makesD[OF assms(2) this] a show ?thesis by (metis append.assoc list_all_append)
  qed (use r m a in \<open>auto simp: cbind_def\<close>)
qed

lemma makes_asking: "(\<And>fx. makes P (f (sv_at se fx))) \<Longrightarrow> makes P (asking se f)"
  unfolding makes_def asking_def by blast

lemma makes_git: "P (Git argv) \<Longrightarrow> makes P (run_git env argv)" "P (Git argv) \<Longrightarrow> makes P (run_checked env argv)"
  by (intro makes_adds adds_git adds_checked; assumption)+

lemma makes_read: "makes P (read_plan slug)"
  unfolding read_plan_def by (rule makes_basic)

section \<open>Landing\<close>

text \<open>The first step of a merge into \<open>main\<close>, and every publication.\<close>

fun lands :: "effect \<Rightarrow> bool" where
  "lands (Git argv) = (drop 2 argv = [''checkout'', ''main''] \<or> take 1 (drop 2 argv) = [''push''])"
| "lands _ = False"

abbreviation harmless :: "effect \<Rightarrow> bool" where "harmless fx \<equiv> \<not> lands fx"

lemma makes_finally:
  assumes "makes P m" "makes P fin" shows "makes P (finally_do m fin)"
  unfolding makes_def
proof (intro allI impI)
  fix w r w' assume f: "finally_do m fin w = (r, w')"
  obtain q w1 where m: "m w = (q, w1)" by fastforce
  obtain u w2 where n: "fin w1 = (u, w2)" by fastforce
  have "w' = w2" using f m n by (simp add: finally_do_def)
  with makesD[OF assms(1) m] makesD[OF assms(2) n] show "\<exists>new. w_fx w' = w_fx w @ new \<and> list_all P new" by auto
qed

lemma harmless_branches: "makes harmless (merge_branches env dir bs)"
proof (induction bs)
  case Nil
  show ?case by (subst merge_branches.simps) (rule makes_basic)
next
  case (Cons b bs)
  then show ?case unfolding merge_branches.simps
    by (intro makes_cbind makes_git) (auto intro!: makes_cbind makes_git makes_basic simp del: cret_run)
qed

lemma harmless_tests: "makes harmless (run_tests xe bs base tc)"
  unfolding run_tests_def by (cases tc) (auto intro!: makes_cbind makes_basic simp del: cret_run emit_run)

lemma harmless_merge: "makes harmless (attempt_merge xe base_ref bs tc)"
proof -
  have "makes harmless (teardown xe)" unfolding teardown_def by (intro makes_cbind makes_git makes_basic) simp
  then show ?thesis unfolding attempt_merge_def Let_def
    by (intro makes_cbind makes_git makes_finally) (auto intro: harmless_tests harmless_branches makes_basic split: option.split)
qed

lemma harmless_unmerged: "makes harmless (unmerged se branch)"
  unfolding unmerged_def
  by (intro makes_cbind makes_asking makes_basic) (auto simp: is_branch_merged_into_def Let_def intro!: makes_cbind makes_basic simp del: cret_run emit_run)

lemma harmless_gate: "makes harmless (ship_gate se slug)"
  unfolding ship_gate_def
  by (auto intro!: makes_cbind makes_basic makes_read harmless_unmerged split: option.split if_split simp del: cret_run clift_run)

lemma harmless_dirty: "makes harmless (checkout_dirty se)"
  unfolding checkout_dirty_def by (intro makes_cbind makes_asking makes_git makes_basic) simp

lemma harmless_trial: "makes harmless (trial_merge se branch)"
  unfolding trial_merge_def by (intro makes_asking harmless_merge)

section \<open>Answers\<close>

definition says_yes :: "ship_env \<Rightarrow> effect list \<Rightarrow> string list \<Rightarrow> bool" where
  "says_yes se fx argv \<longleftrightarrow>
     (case ce_git (xe_env (sv_at se fx)) ([''-C'', xe_root (sv_at se fx)] @ argv) of None \<Rightarrow> False | Some p \<Rightarrow> p_rc p = 0)"

lemma ship_git_Inr:
  assumes "ship_git se argv w = (Inr p, w')"
  shows "says_yes se (w_fx w) argv \<longleftrightarrow> p_rc p = 0" "w_fx w' = w_fx w @ [Git ([''-C'', xe_root (sv_at se (w_fx w))] @ argv)]"
  using assms by (auto simp: ship_git_def asking_def run_git_def says_yes_def split: option.splits)

lemma unmerged_Inr:
  assumes "unmerged se branch w = (Inr b, w')"
  shows "b \<longleftrightarrow> \<not> says_yes se (w_fx w) [''merge-base'', ''--is-ancestor'', branch, ''origin/main'']"
    "w_fx w' = w_fx w @ [Git ([''-C'', xe_root (sv_at se (w_fx w))] @ [''merge-base'', ''--is-ancestor'', branch, ''origin/main''])]"
  using assms by (auto simp: unmerged_def asking_def is_branch_merged_into_def says_yes_def Let_def split: option.splits)

lemma ship_git_grows: "ship_git se argv w = (Inr p, w') \<Longrightarrow> strict_prefix (w_fx w) (w_fx w')"
  using ship_git_Inr(2) by (auto intro: strict_prefixI')

lemma unmerged_grows: "unmerged se branch w = (Inr b, w') \<Longrightarrow> strict_prefix (w_fx w) (w_fx w')"
  using unmerged_Inr(2) by (auto intro: strict_prefixI')

text \<open>
  The branch is in: a merge into \<open>main\<close> succeeded, then the push of \<open>main\<close>, and after it git found the
  branch in \<open>origin/main\<close>.
\<close>

definition landed :: "ship_env \<Rightarrow> string \<Rightarrow> effect list \<Rightarrow> effect list \<Rightarrow> bool" where
  "landed se branch fx0 fx \<longleftrightarrow>
     (\<exists>a b c. prefix fx0 a \<and> strict_prefix a b \<and> strict_prefix b c \<and> strict_prefix c fx
        \<and> (says_yes se a [''merge'', ''--ff-only'', branch] \<or> says_yes se a [''merge'', ''--no-ff'', ''--no-edit'', branch])
        \<and> says_yes se b [''push'', ''origin'', ''main'']
        \<and> says_yes se c [''merge-base'', ''--is-ancestor'', branch, ''origin/main''])"

lemma landed_later: "landed se branch fx0 fx \<Longrightarrow> prefix fx fx' \<Longrightarrow> landed se branch fx0 fx'"
  unfolding landed_def by (blast intro: prefix_order.less_le_trans)

lemma merge_into_main_True:
  assumes "merge_into_main se branch w = (Inr True, w')"
  obtains a where "prefix (w_fx w) a" "strict_prefix a (w_fx w')"
    "says_yes se a [''merge'', ''--ff-only'', branch] \<or> says_yes se a [''merge'', ''--no-ff'', ''--no-edit'', branch]"
proof -
  obtain co w1 where co: "ship_git se [''checkout'', ''main''] w = (Inr co, w1)"
    using assms unfolding merge_into_main_def cbind_Inr by blast
  with assms have "cbind (ship_git se [''merge'', ''--ff-only'', branch]) (\<lambda>ff.
      if p_rc ff = 0 then cret True
      else cbind (ship_git se [''merge'', ''--no-ff'', ''--no-edit'', branch]) (\<lambda>m. cret (p_rc m = 0))) w1 = (Inr True, w')"
    unfolding merge_into_main_def by (simp split: if_splits)
  then obtain ff w2 where ff: "ship_git se [''merge'', ''--ff-only'', branch] w1 = (Inr ff, w2)"
    and rest: "(if p_rc ff = 0 then cret True
      else cbind (ship_git se [''merge'', ''--no-ff'', ''--no-edit'', branch]) (\<lambda>m. cret (p_rc m = 0))) w2 = (Inr True, w')"
    unfolding cbind_Inr by blast
  have fx: "strict_prefix (w_fx w) (w_fx w1)" "strict_prefix (w_fx w1) (w_fx w2)"
    using ship_git_grows co ff by blast+
  show ?thesis
  proof (cases "p_rc ff = 0")
    case True
    then have "w' = w2" using rest by simp
    with True fx show ?thesis using ship_git_Inr(1)[OF ff] by (intro that[of "w_fx w1"]) auto
  next
    case False
    then obtain m where m: "ship_git se [''merge'', ''--no-ff'', ''--no-edit'', branch] w2 = (Inr m, w')" "p_rc m = 0"
      using rest by (auto simp: cbind_Inr)
    have "prefix (w_fx w) (w_fx w2)" using fx by (meson prefix_order.le_less_trans prefix_order.less_imp_le)
    then show ?thesis using ship_git_Inr(1)[OF m(1)] ship_git_grows[OF m(1)] m(2) by (intro that[of "w_fx w2"]) auto
  qed
qed

lemma push_branch_grows: "push_branch se branch keep w = (r, w') \<Longrightarrow> prefix (w_fx w) (w_fx w')"
  by (auto simp: push_branch_def cbind_def ship_git_def asking_def run_git_def split: if_splits prod.splits sum.splits option.splits)

lemma apply_one_lands:
  assumes "ship_apply_one_direct se branch keep w = (Inr True, w')"
  shows "landed se branch (w_fx w) (w_fx w')"
proof -
  from assms obtain m w1 where m: "merge_into_main se branch w = (Inr m, w1)"
    and rest: "(if \<not> m then cret False else cbind (ship_git se [''push'', ''origin'', ''main'']) (\<lambda>p.
        if p_rc p \<noteq> 0 then cret False
        else cbind (push_branch se branch keep) (\<lambda>_. cbind (unmerged se branch) (\<lambda>open'. cret (\<not> open'))))) w1 = (Inr True, w')"
    unfolding ship_apply_one_direct_def cbind_Inr by blast
  have mt: "m" using rest by (cases m) simp_all
  with rest obtain p w2 where p: "ship_git se [''push'', ''origin'', ''main''] w1 = (Inr p, w2)"
    and rest2: "(if p_rc p \<noteq> 0 then cret False
        else cbind (push_branch se branch keep) (\<lambda>_. cbind (unmerged se branch) (\<lambda>open'. cret (\<not> open')))) w2 = (Inr True, w')"
    unfolding cbind_Inr by (auto simp: cbind_Inr)
  have p0: "p_rc p = 0" using rest2 by (cases "p_rc p = 0") simp_all
  with rest2 obtain u w3 b where k: "push_branch se branch keep w2 = (Inr u, w3)" "unmerged se branch w3 = (Inr b, w')" "\<not> b"
    by (auto simp: cbind_Inr)
  obtain a where a: "prefix (w_fx w) a" "strict_prefix a (w_fx w1)"
    "says_yes se a [''merge'', ''--ff-only'', branch] \<or> says_yes se a [''merge'', ''--no-ff'', ''--no-edit'', branch]"
    using merge_into_main_True[of se branch w w1] m mt by auto
  have "strict_prefix (w_fx w1) (w_fx w3)"
    using ship_git_grows[OF p] push_branch_grows[OF k(1)] by (rule prefix_order.less_le_trans)
  moreover have "strict_prefix (w_fx w3) (w_fx w')" by (rule unmerged_grows[OF k(2)])
  ultimately show ?thesis unfolding landed_def
    using a ship_git_Inr(1)[OF p] p0 unmerged_Inr(1)[OF k(2)] k(3) by blast
qed

section \<open>The single-plan ship\<close>

lemma gate_passed:
  assumes "ship_gate se slug w = (Inr (Inr branch), w')"
  shows "\<exists>db d wt. (db, db) \<in> set (w_trace w') \<and> snapshot db slug = Inr d \<and> d_status d = JStr STATUS_DONE
    \<and> worktree_record d = Some wt \<and> need_key wt ''branch'' = Inr branch"
  using assms unfolding ship_gate_def
  by (auto simp: cbind_Inr read_plan_run transact_run unmerged_def asking_def is_branch_merged_into_def Let_def
      split: if_splits option.splits)

definition gates_passed :: "ship_env \<Rightarrow> string \<Rightarrow> string \<Rightarrow> world \<Rightarrow> world \<Rightarrow> bool" where
  "gates_passed se slug branch w w' \<longleftrightarrow>
     (\<exists>w1 w2 res. ship_gate se slug w = (Inr (Inr branch), w1) \<and> checkout_dirty se w1 = (Inr False, w2)
        \<and> trial_merge se branch w2 = (Inr res, w') \<and> mr_outcome res = Clean)"

lemma gate_refuses: "ship_gate se slug w = (Inr (Inl code), w') \<Longrightarrow> code \<noteq> OK"
  unfolding ship_gate_def by (auto simp: cbind_Inr split: if_splits option.splits)

lemma direct_plan_cases:
  assumes "cmd_ship_direct_plan se args slug w = (r, w')"
  obtains (early) new where "w_fx w' = w_fx w @ new" "list_all harmless new" "r = Inr OK \<Longrightarrow> sa_check args \<or> \<not> sa_yes args"
  | (applied) branch w3 before where "gates_passed se slug branch w w3" "w_fx w3 = w_fx w @ before" "list_all harmless before"
      "sa_yes args" "\<not> sa_check args" "apply_direct se branch w3 = (r, w')"
proof -
  obtain g w1 where g: "ship_gate se slug w = (g, w1)" by fastforce
  obtain a where a: "w_fx w1 = w_fx w @ a" "list_all harmless a" using makesD[OF harmless_gate g] by blast
  show ?thesis
  proof (cases "\<exists>branch. g = Inr (Inr branch)")
    case False
    then have "w' = w1" "r \<noteq> Inr OK"
      using assms g gate_refuses[of se slug w _ w1] by (auto simp: cmd_ship_direct_plan_def cbind_def split: sum.splits)
    with a show ?thesis by (intro early[of a]) auto
  next
    case True
    then obtain branch where b: "g = Inr (Inr branch)" by blast
    obtain dr w2 where d: "checkout_dirty se w1 = (dr, w2)" by fastforce
    obtain a2 where a2: "w_fx w2 = w_fx w1 @ a2" "list_all harmless a2" using makesD[OF harmless_dirty d] by blast
    show ?thesis
    proof (cases "dr = Inr False")
      case False
      then have "w' = w2" "r \<noteq> Inr OK" using assms g b d by (auto simp: cmd_ship_direct_plan_def cbind_def split: sum.splits)
      with a a2 show ?thesis by (intro early[of "a @ a2"]) auto
    next
      case clean: True
      obtain m w3 where m: "trial_merge se branch w2 = (m, w3)" by fastforce
      obtain a3 where a3: "w_fx w3 = w_fx w2 @ a3" "list_all harmless a3" using makesD[OF harmless_trial m] by blast
      have run: "(case m of Inl e \<Rightarrow> (Inl e, w3) | Inr res \<Rightarrow>
          (if mr_outcome res \<noteq> Clean then cret GENERIC else if sa_check args \<or> \<not> sa_yes args then cret OK
           else apply_direct se branch) w3) = (r, w')"
        using assms g b d clean m by (simp add: cmd_ship_direct_plan_def cbind_def)
      show ?thesis
      proof (cases "(\<exists>res. m = Inr res \<and> mr_outcome res = Clean) \<and> sa_yes args \<and> \<not> sa_check args")
        case True
        then have "apply_direct se branch w3 = (r, w')" using run by auto
        moreover have "gates_passed se slug branch w w3" unfolding gates_passed_def using g b d clean m True by blast
        ultimately show ?thesis using True a a2 a3 by (intro applied[of branch w3 "a @ a2 @ a3"]) auto
      next
        case False
        then have "w' = w3" "r = Inr OK \<longrightarrow> sa_check args \<or> \<not> sa_yes args"
          using run by (auto split: sum.splits if_splits)
        with a a2 a3 show ?thesis by (intro early[of "a @ a2 @ a3"]) auto
      qed
    qed
  qed
qed

lemma apply_direct_OK:
  assumes "apply_direct se branch w = (Inr OK, w')" shows "landed se branch (w_fx w) (w_fx w')"
proof -
  obtain ok w1 where o: "ship_apply_one_direct se branch (keeps_remote se w) w = (Inr ok, w1)"
    and rest: "(if \<not> ok then cret GENERIC else cbind (asking se (\<lambda>xe. post_action_tick (xe_env xe))) (\<lambda>_. cret OK)) w1 = (Inr OK, w')"
    using assms unfolding apply_direct_def cbind_Inr by blast
  have ok: "ok" using rest by (cases ok) simp_all
  have "prefix (w_fx w1) (w_fx w')"
    using rest ok by (auto simp: cbind_Inr asking_def post_action_tick_def emit_if_def split: if_splits)
  then show ?thesis using apply_one_lands[of se branch "keeps_remote se w" w w1] o ok by (auto intro: landed_later)
qed

lemma apply_direct_grows: "apply_direct se branch w = (r, w') \<Longrightarrow> prefix (w_fx w) (w_fx w')"
proof -
  have git: "makes (\<lambda>_. True) (ship_git se argv)" for argv unfolding ship_git_def by (intro makes_asking makes_git) simp
  have un: "makes (\<lambda>_. True) (unmerged se b)" for b using harmless_unmerged[of se b] unfolding makes_def list_all_iff by blast
  have push: "makes (\<lambda>_. True) (push_branch se b keep)" for b keep
    unfolding push_branch_def by (auto intro: makes_cbind git makes_basic)
  have merge: "makes (\<lambda>_. True) (merge_into_main se b)" for b
    unfolding merge_into_main_def by (intro makes_cbind git) (auto intro!: makes_cbind git makes_basic simp del: cret_run)
  have one: "makes (\<lambda>_. True) (ship_apply_one_direct se b keep)" for b keep
    unfolding ship_apply_one_direct_def
    by (intro makes_cbind merge) (auto intro!: makes_cbind git push un makes_basic simp del: cret_run)
  have tick: "makes (\<lambda>_. True) (asking se (\<lambda>xe. post_action_tick (xe_env xe)))"
    by (intro makes_asking) (auto simp: post_action_tick_def emit_if_def intro!: makes_basic simp del: cret_run)
  have "makes (\<lambda>_. True) (cbind (ship_apply_one_direct se branch keep) (\<lambda>ok.
      if \<not> ok then cret GENERIC else cbind (asking se (\<lambda>xe. post_action_tick (xe_env xe))) (\<lambda>_. cret OK)))" for keep
    by (intro makes_cbind one) (auto intro!: makes_cbind tick makes_basic simp del: cret_run)
  from makesD[OF this, of "keeps_remote se w" w r w'] show "apply_direct se branch w = (r, w') \<Longrightarrow> prefix (w_fx w) (w_fx w')"
    unfolding apply_direct_def by auto
qed


section \<open>The pull-request mode\<close>

text \<open>An effect that leaves \<open>main\<close> alone, here and at the origin.\<close>

fun spares_main :: "effect \<Rightarrow> bool" where
  "spares_main (Git argv) = (drop 2 argv \<noteq> [''checkout'', ''main''] \<and> drop 2 argv \<noteq> [''push'', ''origin'', ''main''])"
| "spares_main _ = True"

lemma harmless_spares: "harmless fx \<Longrightarrow> spares_main fx"
  by (cases fx) auto

lemma spares: "makes harmless m \<Longrightarrow> makes spares_main m"
  unfolding makes_def using harmless_spares by (metis list.pred_mono_strong)

lemma spares_gh: "makes spares_main (run_gh se argv)"
proof -
  have "makes spares_main (cbind (emit (Gh argv)) (\<lambda>_. case a of GhMissing \<Rightarrow> craise (FileNotFoundErr ''gh'')
      | GhTimeout \<Rightarrow> craise TimeoutExpired | GhDone p \<Rightarrow> cret p))" for a
    by (auto intro!: makes_cbind makes_basic split: gh_answer.split simp del: cret_run craise_run emit_run)
  then show ?thesis unfolding run_gh_def makes_def by blast
qed

lemma makes_ccatch:
  assumes "makes P m" "\<And>e k. h e = Some k \<Longrightarrow> makes P k" shows "makes P (ccatch m h)"
  unfolding makes_def
proof (intro allI impI)
  fix w r w' assume c: "ccatch m h w = (r, w')"
  obtain q w1 where m: "m w = (q, w1)" by fastforce
  obtain a where a: "w_fx w1 = w_fx w @ a" "list_all P a" using makesD[OF assms(1) m] by blast
  show "\<exists>new. w_fx w' = w_fx w @ new \<and> list_all P new"
  proof (cases "\<exists>e k. q = Inl e \<and> h e = Some k")
    case True
    then obtain e k where k: "q = Inl e" "h e = Some k" by blast
    then have "k w1 = (r, w')" using c m by (simp add: ccatch_def)
    from makesD[OF assms(2)[OF k(2)] this] a show ?thesis by auto
  next
    case False
    then have "w' = w1" using c m by (auto simp: ccatch_def split: sum.splits option.splits)
    with a show ?thesis by blast
  qed
qed

lemma spares_preflight: "makes spares_main (gh_preflight se)"
  unfolding gh_preflight_def
  by (intro makes_cbind makes_ccatch spares_gh) (auto intro!: makes_cbind spares_gh makes_basic split: option.split pyerr.splits simp del: cret_run)

lemma spares_create: "makes spares_main (gh_create_pr se branch slug)"
  unfolding gh_create_pr_def
  by (intro makes_cbind makes_asking spares_gh) (auto intro!: makes_cbind spares_gh makes_basic simp del: cret_run)

lemma spares_apply: "makes spares_main (ship_apply_one_as_pr se slug branch)"
proof -
  have "makes spares_main (ship_git se [''push'', ''--set-upstream'', ''origin'', branch])"
    unfolding ship_git_def by (intro makes_asking makes_git) simp
  then show ?thesis unfolding ship_apply_one_as_pr_def
    by (auto intro!: makes_cbind makes_asking spares_create makes_basic split: option.split simp del: cret_run)
qed

lemma spares_pr_plan: "makes spares_main (cmd_ship_as_pr_plan se args slug)"
  unfolding cmd_ship_as_pr_plan_def
  by (auto intro!: makes_cbind spares[OF harmless_gate] spares[OF harmless_trial] spares_preflight spares_apply makes_basic
      split: sum.split simp del: cret_run)

lemma own_adds:
  assumes "adds Q m" shows "own P m"
proof (rule ownI)
  fix w
  obtain r w' where m: "m w = (r, w')" by fastforce
  from addsD[OF assms m] obtain new where "w_db w' = w_db w" "w_script w' = w_script w" "w_trace w' = w_trace w" .
  then show "ran P w (snd (m w))" by (simp add: m ran_def fair_def)
qed

lemma own_asking: "(\<And>fx. own P (f (sv_at se fx))) \<Longrightarrow> own P (asking se f)"
  by (simp add: own_def asking_def)

lemma adds_finally:
  assumes "adds P m" "adds P fin" shows "adds P (finally_do m fin)"
  unfolding adds_def
proof (intro allI impI)
  fix w r w' assume f: "finally_do m fin w = (r, w')"
  obtain q w1 where m: "m w = (q, w1)" by fastforce
  obtain u w2 where n: "fin w1 = (u, w2)" by fastforce
  have w2: "w' = w2" using f m n by (simp add: finally_do_def)
  from addsD[OF assms(1) m] obtain a where "w_fx w1 = w_fx w @ a" "list_all P a" "w_db w1 = w_db w" "w_script w1 = w_script w"
    "w_trace w1 = w_trace w" .
  moreover from addsD[OF assms(2) n] obtain b where "w_fx w2 = w_fx w1 @ b" "list_all P b" "w_db w2 = w_db w1"
    "w_script w2 = w_script w1" "w_trace w2 = w_trace w1" .
  ultimately show "(\<exists>new. w_fx w' = w_fx w @ new \<and> list_all P new) \<and> w_db w' = w_db w \<and> w_script w' = w_script w \<and> w_trace w' = w_trace w"
    unfolding w2 by auto
qed

lemma own_merge: "own P (attempt_merge xe base_ref bs tc)"
proof -
  have t: "adds (\<lambda>_. True) (teardown xe)" unfolding teardown_def by (intro adds_cbind adds_git adds_basic) simp
  have "adds (\<lambda>_. True) (merge_branches env dir cs)" for env dir cs
  proof (induction cs)
    case Nil
    show ?case by (subst merge_branches.simps) (rule adds_basic)
  next
    case (Cons c cs)
    then show ?case unfolding merge_branches.simps
      by (intro adds_cbind adds_git) (auto intro!: adds_cbind adds_git adds_basic simp del: cret_run)
  qed
  moreover have "adds (\<lambda>_. True) (run_tests xe bs base tc)" for base by (rule adds_mono[OF adds_tests]) simp
  ultimately have "adds (\<lambda>_. True) (attempt_merge xe base_ref bs tc)" unfolding attempt_merge_def Let_def
    by (intro adds_cbind adds_checked adds_finally t) (auto intro: adds_basic split: option.split)
  then show ?thesis by (rule own_adds)
qed

lemma reads_unmerged: "own P (unmerged se branch)"
  unfolding unmerged_def is_branch_merged_into_def Let_def
  by (intro own_cbind own_asking own_emit own_cret)

lemma reads_gate: "(\<And>db. P db db) \<Longrightarrow> own P (ship_gate se slug)"
  unfolding ship_gate_def read_plan_def
  by (auto intro!: own_cbind own_cret own_clift own_transact reads_unmerged split: option.split simp del: cret_run clift_run)

lemma reads_trial: "own P (trial_merge se branch)"
  unfolding trial_merge_def by (intro own_asking own_merge)

lemma own_gh: "own P (run_gh se argv)"
proof -
  have "own P (cbind (emit (Gh argv)) (\<lambda>_. case a of GhMissing \<Rightarrow> craise (FileNotFoundErr ''gh'')
      | GhTimeout \<Rightarrow> craise TimeoutExpired | GhDone p \<Rightarrow> cret p))" for a
    by (auto intro!: own_cbind own_emit own_cret own_craise split: gh_answer.split simp del: cret_run craise_run emit_run)
  then show ?thesis unfolding run_gh_def own_def by simp
qed

lemma own_preflight: "own P (gh_preflight se)"
  unfolding gh_preflight_def
  by (intro own_cbind own_ccatch own_gh) (auto intro!: own_cbind own_gh own_cret split: option.split pyerr.splits simp del: cret_run)

lemma own_create: "own P (gh_create_pr se branch slug)"
  unfolding gh_create_pr_def
  by (intro own_cbind own_asking own_gh) (auto intro!: own_cbind own_gh own_cret simp del: cret_run)

text \<open>The branch was pushed and \<open>gh\<close> gave the address of its pull request.\<close>

definition opened :: "ship_env \<Rightarrow> string \<Rightarrow> string \<Rightarrow> string \<Rightarrow> bool" where
  "opened se slug branch url \<longleftrightarrow>
     (\<exists>v v1 p v'. ship_git se [''push'', ''--set-upstream'', ''origin'', branch] v = (Inr p, v1) \<and> p_rc p = 0
        \<and> gh_create_pr se branch slug v1 = (Inr (Some url), v'))"

definition marks :: "ship_env \<Rightarrow> string \<Rightarrow> pdb \<Rightarrow> pdb \<Rightarrow> bool" where
  "marks se slug a b \<longleftrightarrow> a = b \<or> (\<exists>branch url now. opened se slug branch url
     \<and> op_set_fields slug (ship_pending_stamp now url) [] [] a = (Inr (), b))"

lemma marks_same: "marks se slug db db"
  by (simp add: marks_def)

lemma set_fields_marks:
  assumes "opened se slug branch url"
  shows "marks se slug db (snd (locked b (op_set_fields slug (ship_pending_stamp now url) [] []) db))"
proof -
  obtain r db' where r: "op_set_fields slug (ship_pending_stamp now url) [] [] db = (r, db')" by fastforce
  show ?thesis
  proof (cases r)
    case (Inl e)
    then have "db' = db" using r by (auto simp: op_set_fields_def plan_txn_def write_txn_def split: sum.splits prod.splits)
    then show ?thesis using r by (simp add: locked_def fail_def marks_same)
  next
    case (Inr u)
    then show ?thesis using r assms by (auto simp: locked_def fail_def marks_def)
  qed
qed

lemma apply_pr_marks: "own (marks se slug) (ship_apply_one_as_pr se slug branch)"
proof (rule ownI)
  fix w
  let ?rest = "\<lambda>url. case url of
      None \<Rightarrow> cret False
    | Some u \<Rightarrow> cbind (asking se (\<lambda>xe. transact (locked (ce_busy (xe_env xe))
        (op_set_fields slug (ship_pending_stamp (xe_now xe) u) [] [])))) (\<lambda>_. cret True)"
  have git: "own (marks se slug) (ship_git se argv)" for argv
    unfolding ship_git_def by (intro own_asking own_git)
  have stamp: "own (marks se slug) (?rest (Some url))" if "opened se slug branch url" for url
    using set_fields_marks[OF that] by (auto intro!: own_cbind own_asking own_transact own_cret simp del: cret_run)
  obtain pr w1 where p: "ship_git se [''push'', ''--set-upstream'', ''origin'', branch] w = (pr, w1)" by fastforce
  note g1 = ownD[OF git p]
  show "ran (marks se slug) w (snd (ship_apply_one_as_pr se slug branch w))"
  proof (cases "\<exists>p. pr = Inr p \<and> p_rc p = 0")
    case False
    then have "snd (ship_apply_one_as_pr se slug branch w) = w1"
      using p by (auto simp: ship_apply_one_as_pr_def cbind_def split: sum.splits)
    then show ?thesis using g1 by simp
  next
    case True
    then obtain q where q: "pr = Inr q" "p_rc q = 0" by blast
    obtain u w2 where c: "gh_create_pr se branch slug w1 = (u, w2)" by fastforce
    note g2 = ran_trans[OF g1 ownD[OF own_create c]]
    show ?thesis
    proof (cases "\<exists>url. u = Inr (Some url)")
      case False
      then have "snd (ship_apply_one_as_pr se slug branch w) = w2"
        using p q c by (auto simp: ship_apply_one_as_pr_def cbind_def split: sum.splits option.splits)
      then show ?thesis using g2 by simp
    next
      case True
      then obtain url where url: "u = Inr (Some url)" by blast
      have "opened se slug branch url" unfolding opened_def using p q c url by blast
      moreover have "snd (ship_apply_one_as_pr se slug branch w) = snd (?rest (Some url) w2)"
        using p q c url by (simp add: ship_apply_one_as_pr_def)
      ultimately show ?thesis using ran_trans[OF g2] stamp by (simp add: own_def)
    qed
  qed
qed

text \<open>
  A pull request never touches \<open>main\<close>, and a plan is marked as shipping only with one. Whatever git and \<open>gh\<close> answer and
  whatever other processes do, the command neither checks out nor pushes \<open>main\<close>; every transaction of
  its own either leaves the database as it found it or sets the plan's \<open>ship_pending\<close> to the address of
  a pull request that \<open>gh\<close> gave after the push of the branch was accepted; and without \<open>--yes\<close>, or with
  \<open>--check\<close>, it writes nothing.
\<close>

theorem ship_pr_marks:
  assumes "cmd_ship_as_pr_plan se args slug w = (r, w')"
  shows "(\<exists>new. w_fx w' = w_fx w @ new \<and> list_all spares_main new)
    \<and> (\<exists>new. w_trace w' = w_trace w @ new \<and> (\<forall>(a, b)\<in>set new. marks se slug a b
        \<and> (sa_check args \<or> \<not> sa_yes args \<longrightarrow> a = b)))"
proof -
  let ?P = "\<lambda>a b. marks se slug a b \<and> (sa_check args \<or> \<not> sa_yes args \<longrightarrow> a = b)"
  have refl: "?P db db" for db by (simp add: marks_same)
  have applying: "own ?P (ship_apply_one_as_pr se slug branch)" if "\<not> (sa_check args \<or> \<not> sa_yes args)" for branch
    using apply_pr_marks[of se slug branch] that by simp
  have "own ?P (cmd_ship_as_pr_plan se args slug)"
    unfolding cmd_ship_as_pr_plan_def
    by (auto intro!: own_cbind reads_gate reads_trial own_preflight applying own_cret refl marks_same apply_pr_marks split: sum.split simp del: cret_run)
  from ownD[OF this assms] obtain new where "w_trace w' = w_trace w @ new" "\<forall>(a, b)\<in>set new. ?P a b"
    unfolding ran_def by blast
  then show ?thesis using makesD[OF spares_pr_plan assms] by blast
qed

end
