(* ===== verification/Ship_Examples.thy ===== *)
theory Ship_Examples
  imports Ship_Props Cross_Examples
begin

text \<open>Concrete ships of a finished plan: one that goes through, one that opens a pull request.\<close>

text \<open>A git for which \<open>origin/main\<close> has the branch only after a push.\<close>

definition shipping_git :: "effect list \<Rightarrow> string list \<Rightarrow> proc option" where
  "shipping_git fx argv =
     Some \<lparr>p_rc = (if List.member argv ''merge-base'' \<and> \<not> list_ex (\<lambda>e. case e of Git a \<Rightarrow> List.member a ''push'' | _ \<Rightarrow> False) fx
                    then 1 else 0), p_out = [], p_err = []\<rparr>"

definition shipping :: ship_env where
  "shipping = \<lparr>sv_at = (\<lambda>fx. example_xp\<lparr>xe_env := example_cmd_env\<lparr>ce_git := shipping_git fx\<rparr>, xe_tests := Some \<lparr>p_rc = 0, p_out = [], p_err = []\<rparr>\<rparr>),
     sv_gh = (\<lambda>fx argv. GhDone \<lparr>p_rc = 0, p_out = ''url'', p_err = []\<rparr>), sv_view_url = (\<lambda>_. None), sv_plan_md = (\<lambda>_. None),
     sv_is_dir = True\<rparr>"

abbreviation go :: ship_args where "go \<equiv> \<lparr>sa_check = False, sa_yes = True\<rparr>"


theorem ship_pr_marks_witness:
  "case cmd_ship_as_pr_plan shipping go ''w1'' (calm shipped_db) of (r, w') \<Rightarrow>
     list_all spares_main (w_fx w') \<and> list_all (\<lambda>(a, b). marks shipping ''w1'' a b) (w_trace w')"
proof -
  obtain r w' where r: "cmd_ship_as_pr_plan shipping go ''w1'' (calm shipped_db) = (r, w')" by fastforce
  have "w_fx (calm shipped_db) = [] \<and> w_trace (calm shipped_db) = []" by (simp add: calm_def)
  with ship_pr_marks[OF r] show ?thesis unfolding r by (auto simp: list_all_iff)
qed

text \<open>The steps of that run: \<open>gh\<close> is ready, gives an address, and the plan's row takes the mark.\<close>

lemma shipping_opens:
  "fst (gh_preflight shipping (calm shipped_db)) = Inr True"
  "fst (gh_create_pr shipping ''b'' ''w1'' (calm shipped_db)) = Inr (Some ''url'')"
  "fst (op_set_fields ''w1'' (ship_pending_stamp 0 ''url'') [] [] shipped_db) = Inr ()"
  by code_simp+

end
