(* ===== verification/Worktree_Cmds.thy ===== *)
theory Worktree_Cmds
  imports Cross_Ends
begin

text \<open>
  The commands that give a plan its start and its worktree (\<open>cli.py\<close>): \<open>clu init\<close> with the worktree it
  may set up and tear down again, \<open>clu worktree attach\<close> and \<open>reattach\<close>, and \<open>clu worktree gc\<close>.
\<close>

section \<open>Setting a worktree up\<close>

text \<open>\<open>ia_worktree\<close>: \<open>None\<close> without \<open>--worktree\<close>, \<open>Some None\<close> for the default place, else the place.\<close>

record init_args =
  ia_worktree :: "string option option"
  ia_branch :: "string option"
  ia_base_ref :: "string option"
  ia_lease :: "int option"
  ia_stalled :: "int option"
  ia_attempts :: "int option"

text \<open>
  \<open>ie_exists\<close>: the paths there are; \<open>ie_mkdir_ok\<close>: the directory of the database can be made; \<open>ie_plan\<close>: the
  text of the master plan; \<open>ie_raw\<close>: the JSON object in \<open>.orchestrator.json\<close>, \<open>None\<close> where there is none
  to read; \<open>ie_dumps\<close> prints one.
\<close>

record init_env =
  ie_xp :: xp_env
  ie_exists :: "string \<Rightarrow> bool"
  ie_mkdir_ok :: bool
  ie_plan :: "string option"
  ie_scale :: rat
  ie_raw :: "obj option"
  ie_dumps :: "obj \<Rightarrow> string"

definition or_else :: "string option \<Rightarrow> string \<Rightarrow> string" where
  "or_else s dflt = (case s of None \<Rightarrow> dflt | Some x \<Rightarrow> if x = [] then dflt else x)"

definition init_git :: "init_env \<Rightarrow> string list \<Rightarrow> proc cmd" where
  "init_git ie argv = run_git (xe_env (ie_xp ie)) ([''-C'', xe_root (ie_xp ie)] @ argv)"

definition worktree_place :: "init_env \<Rightarrow> string option \<Rightarrow> string \<Rightarrow> string" where
  "worktree_place ie given slug = (case given of None \<Rightarrow> xe_root (ie_xp ie) @ ''-'' @ slug | Some p \<Rightarrow> p)"

record worktree_rec =
  wr_path :: string
  wr_branch :: string
  wr_base :: string

definition worktree_obj :: "worktree_rec \<Rightarrow> jval" where
  "worktree_obj wr = JObj [(''path'', JStr (wr_path wr)), (''branch'', JStr (wr_branch wr)), (''base_ref'', JStr (wr_base wr))]"

definition setup_worktree :: "init_env \<Rightarrow> init_args \<Rightarrow> string option \<Rightarrow> string \<Rightarrow> (exit_code + worktree_rec) cmd" where
  "setup_worktree ie args given slug =
     (let path = worktree_place ie given slug; branch = or_else (ia_branch args) (''clu/'' @ slug) in
      cbind (init_git ie [''rev-parse'', ''--git-dir'']) (\<lambda>p.
        if p_rc p \<noteq> 0 then cret (Inl WORKTREE_SETUP_FAILED)
        else
          cbind (resolve_ref (xe_env (ie_xp ie)) (xe_root (ie_xp ie)) (or_else (ia_base_ref args) ''HEAD'')) (\<lambda>base.
            case base of
              None \<Rightarrow> cret (Inl WORKTREE_SETUP_FAILED)
            | Some sha \<Rightarrow>
                cbind (init_git ie [''rev-parse'', ''--verify'', ''refs/heads/'' @ branch]) (\<lambda>q.
                  if p_rc q = 0 \<or> ie_exists ie path then cret (Inl WORKTREE_SETUP_FAILED)
                  else
                    cbind (init_git ie [''worktree'', ''add'', ''-b'', branch, path, sha]) (\<lambda>a.
                      cret (if p_rc a \<noteq> 0 then Inl WORKTREE_SETUP_FAILED
                            else Inr \<lparr>wr_path = path, wr_branch = branch, wr_base = sha\<rparr>))))))"

definition rollback_worktree :: "init_env \<Rightarrow> worktree_rec option \<Rightarrow> unit cmd" where
  "rollback_worktree ie wr = (case wr of
     None \<Rightarrow> cret ()
   | Some r \<Rightarrow>
       cbind (remove_worktree_and_branch (xe_env (ie_xp ie)) (wr_path r) (wr_branch r) True False) (\<lambda>_. cret ()))"

section \<open>clu init\<close>

definition init_overrides :: "init_args \<Rightarrow> obj" where
  "init_overrides args =
     (case ia_lease args of None \<Rightarrow> [] | Some n \<Rightarrow> [(''lease_ttl_minutes'', JInt n)])
     @ (case ia_stalled args of None \<Rightarrow> [] | Some n \<Rightarrow> [(''stalled_heartbeat_minutes'', JInt n)])
     @ (case ia_attempts args of None \<Rightarrow> [] | Some n \<Rightarrow> [(''max_attempts_per_phase'', JInt n)])"

text \<open>A phase whose table row states an effort gets a lease of its own, never below the global one.\<close>

definition phase_lease :: "init_env \<Rightarrow> int \<Rightarrow> phase \<Rightarrow> int option" where
  "phase_lease ie dflt ph =
     map_option (\<lambda>m. max dflt (round_half_even (of_int m * ie_scale ie))) (parse_effort_minutes (ph_effort ph))"

definition phase_record :: "init_env \<Rightarrow> int \<Rightarrow> phase \<Rightarrow> obj" where
  "phase_record ie dflt ph =
     (''id'', JStr (ph_id ph)) # (case phase_lease ie dflt ph of None \<Rightarrow> [] | Some n \<Rightarrow> [(''lease_ttl_minutes'', JInt n)])"

definition init_lease :: "init_args \<Rightarrow> int" where
  "init_lease args = (case ia_lease args of None \<Rightarrow> DEFAULT_LEASE_TTL_MIN | Some n \<Rightarrow> n)"

definition init_doc :: "init_env \<Rightarrow> init_args \<Rightarrow> string \<Rightarrow> phase list \<Rightarrow> worktree_rec option \<Rightarrow> doc" where
  "init_doc ie args slug phases wr =
     (let d = empty_state (xe_now (ie_xp ie)) slug (xe_plan_dir (ie_xp ie));
          d1 = d\<lparr>d_config := map_option (\<lambda>c. dupd c (init_overrides args)) (d_config d)\<rparr>;
          d2 = (if phases = [] then d1 else d1\<lparr>d_phases := Some (map (phase_record ie (init_lease args)) phases)\<rparr>)
      in (case wr of None \<Rightarrow> d2 | Some r \<Rightarrow> d2\<lparr>d_worktree := Some (worktree_obj r)\<rparr>))"

text \<open>The \<open>try\<close> block: whether the plan is new.\<close>

definition create_plan :: "init_env \<Rightarrow> init_args \<Rightarrow> string \<Rightarrow> worktree_rec option \<Rightarrow> bool cmd" where
  "create_plan ie args slug wr =
     cbind (clift (case ie_plan ie of None \<Rightarrow> Inr [] | Some t \<Rightarrow> parse_sessions_index slug t)) (\<lambda>phases.
       ccatch (cbind (transact (locked (ce_busy (xe_env (ie_xp ie))) (create (init_doc ie args slug phases wr)))) (\<lambda>_. cret True))
         (\<lambda>e. case e of
            FileExistsErr _ \<Rightarrow> Some (cbind (rollback_worktree ie wr) (\<lambda>_. cret False))
          | _ \<Rightarrow> None))"

definition quality_stub :: "obj \<Rightarrow> obj option" where
  "quality_stub raw =
     (if dget raw ''quality'' \<noteq> None then None
      else Some (raw @ [(''quality'', JObj [(''verify_required'', JBool True)])]))"

definition ensure_quality_stub :: "init_env \<Rightarrow> unit cmd" where
  "ensure_quality_stub ie =
     (case ie_raw ie of
        None \<Rightarrow> cret ()
      | Some raw \<Rightarrow>
          (case quality_stub raw of
             None \<Rightarrow> cret ()
           | Some raw' \<Rightarrow> emit (WroteFile (xe_root (ie_xp ie) @ ''/.orchestrator.json'') (ie_dumps ie raw' @ [CHR 0x0A]))))"

definition active_no_worktree_siblings :: "string \<Rightarrow> (string \<times> doc) list \<Rightarrow> string list" where
  "active_no_worktree_siblings slug plans =
     map fst (filter (\<lambda>(s, d). s \<noteq> slug \<and> \<not> has_worktree d \<and> is_plan_active d) plans)"

definition init_hint :: "init_env \<Rightarrow> string \<Rightarrow> bool \<Rightarrow> string list walk" where
  "init_hint ie slug has_wt =
     (if has_wt then cret []
      else cbind (load_plans_for_project (ie_xp ie)) (\<lambda>plans. cret (active_no_worktree_siblings slug plans)))"

definition init_values_ok :: "init_args \<Rightarrow> bool" where
  "init_values_ok args = list_all (\<lambda>v. case v of None \<Rightarrow> True | Some n \<Rightarrow> n > 0) [ia_lease args, ia_stalled args, ia_attempts args]"

definition maybe_setup :: "init_env \<Rightarrow> init_args \<Rightarrow> string \<Rightarrow> (exit_code + worktree_rec option) cmd" where
  "maybe_setup ie args slug =
     (case ia_worktree args of
        None \<Rightarrow> cret (Inr None)
      | Some given \<Rightarrow> cbind (setup_worktree ie args given slug) (\<lambda>s. cret (map_sum id Some s)))"

text \<open>With the code, the siblings the hint names.\<close>

definition cmd_init :: "init_env \<Rightarrow> init_args \<Rightarrow> string \<Rightarrow> (exit_code \<times> string list) walk" where
  "cmd_init ie args slug =
     (if \<not> slug_re_match slug then cret (INVALID_SLUG, [])
      else if \<not> init_values_ok args then cret (INVALID_VALUE, [])
      else
        cbind (on_world (maybe_setup ie args slug)) (\<lambda>s.
          case s of
            Inl code \<Rightarrow> cret (code, [])
          | Inr wr \<Rightarrow>
              if \<not> ie_mkdir_ok ie then craise (RuntimeErr ''OSError'')
              else
                cbind (on_world (ccatch (create_plan ie args slug wr)
                    (\<lambda>e. Some (cbind (rollback_worktree ie wr) (\<lambda>_. craise e))))) (\<lambda>created.
                  if \<not> created then cret (GENERIC, [])
                  else
                    cbind (on_host (register (xe_resolve (ie_xp ie)) (xe_is_dir (ie_xp ie)) (xe_now (ie_xp ie)) (xe_root (ie_xp ie)) slug)) (\<lambda>_.
                    cbind (on_world (ensure_quality_stub ie)) (\<lambda>_.
                    cbind (init_hint ie slug (wr \<noteq> None)) (\<lambda>siblings. cret (OK, siblings)))))))"

section \<open>Attaching a worktree\<close>

abbreviation EVENT_WORKTREE_ATTACHED :: string where "EVENT_WORKTREE_ATTACHED \<equiv> ''worktree_attached''"

definition attach_preamble :: "dispatch_env \<Rightarrow> string \<Rightarrow> string \<Rightarrow> exit_code option cmd" where
  "attach_preamble de slug path =
     (if \<not> slug_re_match slug then cret (Some INVALID_SLUG)
      else
        cbind (transact (\<lambda>db. (Inr (plan_exists db slug), db))) (\<lambda>there.
          if \<not> there then cret (Some UNKNOWN_TASK)
          else cbind (worktree_alive de path) (\<lambda>alive. cret (if alive then None else Some GENERIC))))"

definition cmd_worktree_reattach :: "dispatch_env \<Rightarrow> string \<Rightarrow> string \<Rightarrow> exit_code cmd" where
  "cmd_worktree_reattach de slug path =
     cbind (attach_preamble de slug path) (\<lambda>stop.
       case stop of
         Some code \<Rightarrow> cret code
       | None \<Rightarrow>
           cbind (read_plan slug) (\<lambda>d.
             case worktree_record d of
               None \<Rightarrow> cret STATUS_TRANSITION
             | Some (JObj wt) \<Rightarrow>
                 cbind (clift (need_key (JObj wt) ''path'')) (\<lambda>_.
                 cbind (store_write de (op_set_worktree slug (JObj (dset ''path'' (JStr path) wt)) [])) (\<lambda>_.
                 cbind (clift (need_key (JObj wt) ''branch'')) (\<lambda>_. cret OK)))
             | Some _ \<Rightarrow> craise (RuntimeErr ''TypeError'')))"

definition autodetect_branch_and_base_ref :: "dispatch_env \<Rightarrow> string \<Rightarrow> (string \<times> string) cmd" where
  "autodetect_branch_and_base_ref de path =
     cbind (run_git (de_env de) [''-C'', path, ''branch'', ''--show-current'']) (\<lambda>b.
     cbind (run_git (de_env de) [''-C'', path, ''rev-parse'', ''HEAD'']) (\<lambda>h.
       cret (strip (p_out b), strip (p_out h))))"

definition cmd_worktree_attach :: "dispatch_env \<Rightarrow> string \<Rightarrow> string \<Rightarrow> exit_code cmd" where
  "cmd_worktree_attach de slug path =
     cbind (attach_preamble de slug path) (\<lambda>stop.
       case stop of
         Some code \<Rightarrow> cret code
       | None \<Rightarrow>
           cbind (autodetect_branch_and_base_ref de path) (\<lambda>(branch, sha).
             if branch = [] \<or> sha = [] then cret GENERIC
             else
               cbind (read_plan slug) (\<lambda>d.
                 if worktree_record d \<noteq> None then cret STATUS_TRANSITION
                 else
                   (let wr = [(''path'', JStr path), (''branch'', JStr branch), (''base_ref'', JStr sha)] in
                    cbind (store_write de (op_set_worktree slug (JObj wr) [mk_event (ce_now (de_env de)) EVENT_WORKTREE_ATTACHED wr])) (\<lambda>_.
                      cret OK)))))"

section \<open>Collecting worktrees\<close>

record gc_args =
  ga_confirm :: bool
  ga_archived :: bool
  ga_delete_branch :: bool

definition GC_ELIGIBLE_STATUSES :: "string list" where
  "GC_ELIGIBLE_STATUSES = [STATUS_DONE, STATUS_HALTED, STATUS_HALTED_REPLAN]"

definition gc_eligible :: "doc \<Rightarrow> bool" where
  "gc_eligible d \<longleftrightarrow> d_status d \<in> set (map JStr GC_ELIGIBLE_STATUSES)"

text \<open>\<open>if not wt\<close>: an empty object counts as none.\<close>

definition gc_worktree :: "doc \<Rightarrow> jval option" where
  "gc_worktree d = (case worktree_record d of Some (JObj []) \<Rightarrow> None | wt \<Rightarrow> wt)"

definition gc_candidates :: "xp_env \<Rightarrow> gc_args \<Rightarrow> (string \<times> doc) list \<Rightarrow> (string \<times> jval) list" where
  "gc_candidates xe args plans =
     List.map_filter (\<lambda>(s, d). case gc_worktree d of
         None \<Rightarrow> None
       | Some wt \<Rightarrow> if gc_eligible d \<and> (xe_plan_file xe s \<or> ga_archived args) then Some (s, wt) else None) plans"

text \<open>Whether the plan may lose its worktree now; an unreadable plan is skipped.\<close>

definition gc_still_eligible :: "string \<Rightarrow> bool cmd" where
  "gc_still_eligible slug =
     cbind (transact (\<lambda>db. (Inr (plan_exists db slug), db))) (\<lambda>there.
       if \<not> there then cret True
       else cbind (gives (read_plan slug) degradable) (\<lambda>d. cret (case d of None \<Rightarrow> False | Some d \<Rightarrow> gc_eligible d)))"

text \<open>Whether the worktree is gone.\<close>

definition gc_one :: "xp_env \<Rightarrow> gc_args \<Rightarrow> string \<Rightarrow> jval \<Rightarrow> bool cmd" where
  "gc_one xe args slug wt =
     cbind (gc_still_eligible slug) (\<lambda>go.
       if \<not> go then cret False
       else
         cbind (clift (need_key wt ''branch'')) (\<lambda>branch.
         cbind (branch_reachable_from_origin (xe_env xe) branch) (\<lambda>(reachable, reason).
         cbind (clift (need_key wt ''path'')) (\<lambda>path.
           if \<not> reachable then cret False
           else
             cbind (remove_worktree_and_branch (xe_env xe) path branch (ga_delete_branch args)
                 (ga_delete_branch args \<and> \<not> cc_keep_remote (ce_cfg (xe_env xe)))) (\<lambda>(wt_pair, br_pair, rm_pair).
               cret (fst wt_pair))))))"

fun gc_each :: "xp_env \<Rightarrow> gc_args \<Rightarrow> (string \<times> jval) list \<Rightarrow> nat cmd" where
  "gc_each xe args [] = cret 0"
| "gc_each xe args ((slug, wt) # rest) =
     cbind (gc_one xe args slug wt) (\<lambda>gone.
     cbind (gc_each xe args rest) (\<lambda>n. cret (if gone then n + 1 else n)))"

text \<open>The list is printed with path and branch of every candidate, so both must be there.\<close>

fun gc_list :: "(string \<times> jval) list \<Rightarrow> unit res" where
  "gc_list [] = Inr ()"
| "gc_list ((slug, wt) # rest) =
     bind_res (need_key wt ''path'') (\<lambda>_. bind_res (need_key wt ''branch'') (\<lambda>_. gc_list rest))"

text \<open>With the code, how many worktrees are gone of how many.\<close>

definition cmd_worktree_gc :: "xp_env \<Rightarrow> gc_args \<Rightarrow> (exit_code \<times> nat \<times> nat) walk" where
  "cmd_worktree_gc xe args =
     cbind (load_plans_for_project xe) (\<lambda>plans.
       let cands = gc_candidates xe args plans in
       cbind (clift (gc_list cands)) (\<lambda>_.
         if cands = [] \<or> \<not> ga_confirm args then cret (OK, 0, length cands)
         else cbind (on_world (gc_each xe args cands)) (\<lambda>n. cret (OK, n, length cands))))"

end
