(* ===== verification/Worktree_Props.thy ===== *)
theory Worktree_Props
  imports Worktree_Cmds Ship_Props
begin

text \<open>
  What \<open>clu init\<close> and \<open>clu worktree gc\<close> promise: a plan with its worktree or nothing of either, and no
  worktree taken from a plan that was not seen finished and published.
\<close>

section \<open>Runs that only ask git\<close>

abbreviation plus :: "effect list \<Rightarrow> world \<Rightarrow> world" where
  "plus fx w \<equiv> w\<lparr>w_fx := w_fx w @ fx\<rparr>"

definition git_answers :: "cmd_env \<Rightarrow> bool" where
  "git_answers env \<longleftrightarrow> (\<forall>argv. ce_git env argv \<noteq> None)"

lemma git_run: "git_answers env \<Longrightarrow> \<exists>q. ce_git env argv = Some q \<and> run_git env argv w = (Inr q, plus [Git argv] w)"
  unfolding git_answers_def run_git_def by (cases "ce_git env argv") (auto, metis option.discI)

definition add_argv :: "init_env \<Rightarrow> worktree_rec \<Rightarrow> string list" where
  "add_argv ie r = [''-C'', xe_root (ie_xp ie), ''worktree'', ''add'', ''-b'', wr_branch r, wr_path r, wr_base r]"

text \<open>The worktree was added.\<close>

definition was_added :: "init_env \<Rightarrow> effect list \<Rightarrow> worktree_rec \<Rightarrow> bool" where
  "was_added ie fx r \<longleftrightarrow> Git (add_argv ie r) \<in> set fx \<and> (\<exists>q. ce_git (xe_env (ie_xp ie)) (add_argv ie r) = Some q \<and> p_rc q = 0)"

definition removal :: "init_env \<Rightarrow> worktree_rec \<Rightarrow> effect list" where
  "removal ie r = [Git [''-C'', xe_root (ie_xp ie), ''worktree'', ''remove'', ''--force'', wr_path r],
     Git [''-C'', xe_root (ie_xp ie), ''branch'', ''-D'', wr_branch r]]"

lemma added_append: "was_added ie (a @ b) r \<longleftrightarrow> was_added ie a r \<or> was_added ie b r"
  by (auto simp: was_added_def)

lemma added_none:
  "\<not> was_added ie [] r" "\<not> was_added ie [Git [''-C'', d, ''rev-parse'', x]] r" "\<not> was_added ie [Git [''-C'', d, ''rev-parse'', x, y]] r"
  "\<not> was_added ie [WroteFile f c] r" "\<not> was_added ie (removal ie r') r"
  by (simp_all add: was_added_def add_argv_def removal_def)

lemma added_add:
  "was_added ie [Git [''-C'', xe_root (ie_xp ie), ''worktree'', ''add'', ''-b'', b, p, s]] r \<longleftrightarrow>
     r = \<lparr>wr_path = p, wr_branch = b, wr_base = s\<rparr> \<and> (\<exists>q. ce_git (xe_env (ie_xp ie)) (add_argv ie r) = Some q \<and> p_rc q = 0)"
  by (cases r) (auto simp: was_added_def add_argv_def)

lemma setup_result:
  assumes "git_answers (xe_env (ie_xp ie))"
  obtains s fx where "setup_worktree ie args given slug w = (Inr s, plus fx w)" "\<And>r. was_added ie fx r \<longleftrightarrow> s = Inr r"
proof -
  let ?env = "xe_env (ie_xp ie)" and ?d = "xe_root (ie_xp ie)"
  let ?path = "worktree_place ie given slug" and ?branch = "or_else (ia_branch args) (''clu/'' @ slug)"
  let ?ref = "or_else (ia_base_ref args) ''HEAD''"
  note run = git_run[OF assms]
  obtain q1 where q1: "init_git ie [''rev-parse'', ''--git-dir''] w = (Inr q1, plus [Git [''-C'', ?d, ''rev-parse'', ''--git-dir'']] w)"
    using run unfolding init_git_def by (metis append_Cons append_Nil)
  let ?w1 = "plus [Git [''-C'', ?d, ''rev-parse'', ''--git-dir'']] w"
  show thesis
  proof (cases "p_rc q1 = 0")
    case False
    then show thesis using q1 by (intro that[of "Inl WORKTREE_SETUP_FAILED"]) (auto simp: setup_worktree_def Let_def added_none)
  next
    case ok1: True
    let ?a2 = "[''-C'', ?d, ''rev-parse'', ''--verify'', ?ref @ ''^{commit}'']"
    obtain base where q2: "resolve_ref ?env ?d ?ref ?w1 = (Inr base, plus [Git ?a2] ?w1)"
      using run[of ?a2 ?w1] by (auto simp: resolve_ref_def)
    let ?w2 = "plus [Git ?a2] ?w1"
    show thesis
    proof (cases base)
      case None
      then show thesis using q1 q2 ok1
        by (intro that[of "Inl WORKTREE_SETUP_FAILED" "[Git [''-C'', ?d, ''rev-parse'', ''--git-dir''], Git ?a2]"])
          (auto simp: setup_worktree_def Let_def was_added_def add_argv_def)
    next
      case (Some sha)
      let ?a3 = "[''-C'', ?d, ''rev-parse'', ''--verify'', ''refs/heads/'' @ ?branch]"
      obtain q3 where q3: "init_git ie [''rev-parse'', ''--verify'', ''refs/heads/'' @ ?branch] ?w2 = (Inr q3, plus [Git ?a3] ?w2)"
        using run[of ?a3 ?w2] by (auto simp: init_git_def)
      let ?w3 = "plus [Git ?a3] ?w2"
      show thesis
      proof (cases "p_rc q3 = 0 \<or> ie_exists ie ?path")
        case True
        then show thesis using q1 q2 q3 ok1 Some
          by (intro that[of "Inl WORKTREE_SETUP_FAILED" "[Git [''-C'', ?d, ''rev-parse'', ''--git-dir''], Git ?a2, Git ?a3]"])
            (auto simp: setup_worktree_def Let_def was_added_def add_argv_def)
      next
        case False
        let ?r = "\<lparr>wr_path = ?path, wr_branch = ?branch, wr_base = sha\<rparr>"
        have arg: "[''-C'', ?d] @ [''worktree'', ''add'', ''-b'', ?branch, ?path, sha] = add_argv ie ?r" by (simp add: add_argv_def)
        obtain q4 where q4: "ce_git ?env (add_argv ie ?r) = Some q4" "init_git ie [''worktree'', ''add'', ''-b'', ?branch, ?path, sha] ?w3
            = (Inr q4, plus [Git (add_argv ie ?r)] ?w3)"
          using run[of "add_argv ie ?r" ?w3] unfolding init_git_def arg by auto
        let ?fx = "[Git [''-C'', ?d, ''rev-parse'', ''--git-dir''], Git ?a2, Git ?a3, Git (add_argv ie ?r)]"
        let ?s = "if p_rc q4 \<noteq> 0 then Inl WORKTREE_SETUP_FAILED else Inr ?r :: exit_code + worktree_rec"
        have eq: "add_argv ie r = add_argv ie ?r \<longleftrightarrow> r = ?r" for r by (cases r) (auto simp: add_argv_def)
        have "setup_worktree ie args given slug w = (Inr ?s, plus ?fx w)"
          using q1 q2 q3 q4 ok1 False Some by (simp add: setup_worktree_def Let_def)
        moreover have "was_added ie ?fx r \<longleftrightarrow> ?s = Inr r" for r
          using q4(1) eq[of r] by (auto simp: was_added_def) (simp_all add: add_argv_def)
        ultimately show thesis by (rule that)
      qed
    qed
  qed
qed

lemma rollback_result:
  assumes "git_answers (xe_env (ie_xp ie))"
  shows "rollback_worktree ie wr w = (Inr (), plus (case wr of None \<Rightarrow> [] | Some r \<Rightarrow> removal ie r) w)"
proof (cases wr)
  case None
  then show ?thesis by (simp add: rollback_worktree_def)
next
  case (Some r)
  let ?d = "xe_root (ie_xp ie)"
  let ?a = "[''-C'', ?d, ''worktree'', ''remove'', ''--force'', wr_path r]" and ?b = "[''-C'', ?d, ''branch'', ''-D'', wr_branch r]"
  obtain q where q: "run_git (xe_env (ie_xp ie)) ?a w = (Inr q, plus [Git ?a] w)" using git_run[OF assms] by blast
  obtain q' where q': "run_git (xe_env (ie_xp ie)) ?b (plus [Git ?a] w) = (Inr q', plus [Git ?b] (plus [Git ?a] w))"
    using git_run[OF assms] by blast
  show ?thesis using Some q q' by (simp add: rollback_worktree_def remove_worktree_and_branch_def Let_def removal_def)
qed

section \<open>A plan with its worktree, or neither\<close>

lemma create_refused: "locked b (create d) db = (Inl e, db') \<Longrightarrow> db' = db"
  by (auto simp: locked_def fail_def create_def write_txn_def split: if_splits prod.splits sum.splits)

text \<open>How the \<open>try\<close> block of \<open>init\<close> ends: the plan is there, or what was set up is taken down.\<close>

abbreviation guarded_create :: "init_env \<Rightarrow> init_args \<Rightarrow> string \<Rightarrow> worktree_rec option \<Rightarrow> bool cmd" where
  "guarded_create ie args slug wr \<equiv> ccatch (create_plan ie args slug wr) (\<lambda>e. Some (cbind (rollback_worktree ie wr) (\<lambda>_. craise e)))"

lemma guarded_result:
  assumes "git_answers (xe_env (ie_xp ie))" "guarded_create ie args slug wr w = (r, w')"
  shows "(\<exists>phases a b. r = Inr True \<and> create (init_doc ie args slug phases wr) a = (Inr (), b)
        \<and> w_trace w' = w_trace w @ [(a, b)] \<and> w_fx w' = w_fx w)
    \<or> (r \<noteq> Inr True \<and> (\<exists>new. w_trace w' = w_trace w @ new \<and> list_all (\<lambda>(a, b). a = b) new)
        \<and> w_fx w' = w_fx w @ (case wr of None \<Rightarrow> [] | Some x \<Rightarrow> removal ie x))"
proof (cases "case ie_plan ie of None \<Rightarrow> Inr [] | Some t \<Rightarrow> parse_sessions_index slug t")
  case (Inl e)
  then show ?thesis using assms(2)
    by (auto simp: create_plan_def ccatch_def cbind_def craise_def clift_def rollback_result[OF assms(1)])
next
  case (Inr phases)
  let ?b = "ce_busy (xe_env (ie_xp ie))" and ?d = "init_doc ie args slug phases wr"
  obtain q db where q: "locked ?b (create ?d) (w_db (settle w)) = (q, db)" by fastforce
  let ?w = "(settle w)\<lparr>w_db := db, w_trace := w_trace w @ [(w_db (settle w), db)]\<rparr>"
  have t: "transact (locked ?b (create ?d)) w = (q, ?w)" using q by (auto simp: transact_run)
  show ?thesis
  proof (cases q)
    case (Inr u)
    then have "r = Inr True" "w' = ?w" using assms(2) \<open>_ = Inr phases\<close> t
      by (simp_all add: create_plan_def ccatch_def cbind_def cret_def clift_def)
    moreover have "create ?d (w_db (settle w)) = (Inr (), db)"
      using q Inr by (auto simp: locked_def fail_def split: if_splits)
    ultimately show ?thesis by auto
  next
    case (Inl e)
    then have "db = w_db (settle w)" using create_refused q by blast
    then have "list_all (\<lambda>(a, b). a = b) [(w_db (settle w), db)]" by simp
    moreover have "r \<noteq> Inr True \<and> w' = plus (case wr of None \<Rightarrow> [] | Some x \<Rightarrow> removal ie x) ?w"
      using assms(2) Inl t \<open>_ = Inr phases\<close>
      by (cases e) (auto simp: create_plan_def ccatch_def cbind_def cret_def craise_def clift_def rollback_result[OF assms(1)])
    ultimately show ?thesis by fastforce
  qed
qed

text \<open>What runs after the plan is there asks git nothing and writes nothing into the database.\<close>

definition only_files :: "effect \<Rightarrow> bool" where
  "only_files fx \<longleftrightarrow> (case fx of WroteFile _ _ \<Rightarrow> True | _ \<Rightarrow> False)"

lemma files_after: "list_all only_files fx \<Longrightarrow> was_added ie (before @ fx) r \<longleftrightarrow> was_added ie before r"
  by (auto simp: was_added_def only_files_def list_all_iff split: effect.splits)

lemma files_stub: "makes only_files (ensure_quality_stub ie)" "own (=) (ensure_quality_stub ie)"
  by (auto simp: ensure_quality_stub_def only_files_def intro!: makes_basic own_cret own_emit split: option.split simp del: cret_run emit_run)

lemma files_load: "makes only_files (load_plans ss)" "own (=) (load_plans ss)"
proof (induction ss)
  case (Cons s ss)
  { case 1
    show ?case unfolding load_plans.simps try_load_def gives_def
      by (intro makes_cbind makes_basic Cons) (auto intro!: makes_cbind makes_basic makes_ccatch makes_read split: if_splits simp del: cret_run)
  next
    case 2
    show ?case unfolding load_plans.simps by (intro own_cbind reads_load own_cret Cons) }
qed (simp_all only: load_plans.simps makes_basic own_cret)

text \<open>The two ways an \<open>init\<close> ends.\<close>

definition plan_made :: "init_env \<Rightarrow> init_args \<Rightarrow> string \<Rightarrow> world \<Rightarrow> world \<Rightarrow> bool" where
  "plan_made ie args slug w w' \<longleftrightarrow> (\<exists>phases wr a b reads fx.
     create (init_doc ie args slug phases wr) a = (Inr (), b)
     \<and> w_trace w' = w_trace w @ (a, b) # reads \<and> list_all (\<lambda>(x, y). x = y) reads
     \<and> w_fx w' = w_fx w @ fx \<and> (\<forall>x. was_added ie fx x \<longleftrightarrow> wr = Some x)
     \<and> (\<forall>x. set (removal ie x) \<inter> set fx = {}))"

definition nothing_left :: "init_env \<Rightarrow> world \<Rightarrow> world \<Rightarrow> bool" where
  "nothing_left ie w w' \<longleftrightarrow> (\<exists>reads fx. w_trace w' = w_trace w @ reads \<and> list_all (\<lambda>(x, y). x = y) reads
     \<and> w_fx w' = w_fx w @ fx \<and> (\<forall>x. was_added ie fx x \<longrightarrow> suffix (removal ie x) fx))"

lemma after_reads:
  assumes "makes only_files m" "own (=) m" "m w = (r, w')"
  obtains fx reads where "w_fx w' = w_fx w @ fx" "list_all only_files fx" "w_trace w' = w_trace w @ reads" "list_all (\<lambda>(x, y). x = y) reads"
proof -
  obtain fx where "w_fx w' = w_fx w @ fx" "list_all only_files fx" using makesD[OF assms(1,3)] by blast
  moreover obtain reads where "w_trace w' = w_trace w @ reads" "\<forall>(x, y)\<in>set reads. x = y"
    using ownD[OF assms(2,3)] unfolding ran_def by blast
  ultimately show ?thesis using that by (auto simp: list_all_iff)
qed

lemma hint_reads:
  assumes "init_hint ie slug b p = (r, p')"
  obtains fx reads where "w_fx (pj_world p') = w_fx (pj_world p) @ fx" "list_all only_files fx"
    "w_trace (pj_world p') = w_trace (pj_world p) @ reads" "list_all (\<lambda>(x, y). x = y) reads" "pj_host p' = pj_host p"
proof (cases b)
  case True
  then show ?thesis using assms that[of "[]" "[]"] by (auto simp: init_hint_def cret_def)
next
  case False
  then obtain q w' where l: "load_plans (map pe_slug (entries_for_project (xe_resolve (ie_xp ie)) (xe_root (ie_xp ie)) (Some (pj_host p)))) (pj_world p) = (q, w')"
    "p' = p\<lparr>pj_world := w'\<rparr>"
    using assms by (auto simp: init_hint_def load_plans_for_project_def on_world_def cbind_def cret_def split: prod.splits sum.splits)
  from after_reads[OF files_load l(1)] that l(2) show ?thesis by auto
qed

text \<open>The way on from a plan that is there.\<close>

lemma finish_reads:
  assumes "cbind (on_host h) (\<lambda>_. cbind (on_world (ensure_quality_stub ie)) (\<lambda>_.
      cbind (init_hint ie slug b) (\<lambda>siblings. cret (OK, siblings)))) p = (r, p')"
  obtains fx reads where "w_fx (pj_world p') = w_fx (pj_world p) @ fx" "list_all only_files fx"
    "w_trace (pj_world p') = w_trace (pj_world p) @ reads" "list_all (\<lambda>(x, y). x = y) reads"
proof -
  obtain q h' where h: "h (pj_host p) = (q, h')" by fastforce
  let ?p1 = "p\<lparr>pj_host := h'\<rparr>"
  show thesis
  proof (cases q)
    case (Inl e)
    then show thesis using assms h that[of "[]" "[]"] by (auto simp: cbind_def on_host_def)
  next
    case (Inr x)
    obtain u w2 where s: "ensure_quality_stub ie (pj_world ?p1) = (u, w2)" by fastforce
    from after_reads[OF files_stub s] obtain f1 t1 where 1: "w_fx w2 = w_fx (pj_world p) @ f1" "list_all only_files f1"
      "w_trace w2 = w_trace (pj_world p) @ t1" "list_all (\<lambda>(x, y). x = y) t1" by auto
    have "u = Inr ()" using s by (auto simp: ensure_quality_stub_def split: option.splits)
    then have "cbind (init_hint ie slug b) (\<lambda>siblings. cret (OK, siblings)) (?p1\<lparr>pj_world := w2\<rparr>) = (r, p')"
      using assms h Inr s by (simp add: cbind_def on_host_def on_world_def)
    then obtain v where "init_hint ie slug b (?p1\<lparr>pj_world := w2\<rparr>) = (v, p')"
      by (auto simp: cbind_def cret_def split: prod.splits sum.splits)
    then obtain f2 t2 where "w_fx (pj_world p') = w_fx w2 @ f2" "list_all only_files f2"
      "w_trace (pj_world p') = w_trace w2 @ t2" "list_all (\<lambda>(x, y). x = y) t2" by (rule hint_reads) simp
    with 1 that[of "f1 @ f2" "t1 @ t2"] show thesis by auto
  qed
qed


section \<open>Whose worktree is collected\<close>

definition rm_argv :: "xp_env \<Rightarrow> string \<Rightarrow> string list" where
  "rm_argv xe path = [''-C'', xe_root xe, ''worktree'', ''remove'', ''--force'', path]"

text \<open>There is no default branch of \<open>origin\<close>, or git finds the branch in it.\<close>

definition published :: "cmd_env \<Rightarrow> string \<Rightarrow> bool" where
  "published env branch \<longleftrightarrow> (\<exists>p. ce_git env [''-C'', cc_root (ce_cfg env), ''symbolic-ref'', ''refs/remotes/origin/HEAD''] = Some p
     \<and> (p_rc p \<noteq> 0 \<or> CHR 0x2F \<notin> set (strip (p_out p))
        \<or> (\<exists>q. ce_git env [''-C'', cc_root (ce_cfg env), ''merge-base'', ''--is-ancestor'', branch,
              ''origin/'' @ last_component (strip (p_out p))] = Some q \<and> p_rc q = 0)))"

lemma default_run:
  assumes "resolve_default_branch env w = (Inr b, w1)"
  shows "\<exists>p. ce_git env [''-C'', cc_root (ce_cfg env), ''symbolic-ref'', ''refs/remotes/origin/HEAD''] = Some p
    \<and> b = (if p_rc p \<noteq> 0 \<or> CHR 0x2F \<notin> set (strip (p_out p)) then None else Some (last_component (strip (p_out p))))"
proof -
  obtain p w2 where g: "run_git env [''-C'', cc_root (ce_cfg env), ''symbolic-ref'', ''refs/remotes/origin/HEAD''] w = (Inr p, w2)"
    and b: "b = (if p_rc p \<noteq> 0 \<or> CHR 0x2F \<notin> set (strip (p_out p)) then None else Some (last_component (strip (p_out p))))"
    using assms unfolding resolve_default_branch_def Let_def cbind_Inr by (auto simp: cret_def)
  from run_git_Inr[OF g] b show ?thesis by blast
qed

lemma reachable_published:
  assumes "branch_reachable_from_origin env branch w = (Inr (True, reason), w')"
  shows "published env branch"
proof -
  obtain b w1 where b: "resolve_default_branch env w = (Inr b, w1)"
    and r: "(case b of None \<Rightarrow> cret (True, ''no origin remote configured'')
       | Some b \<Rightarrow> cbind (run_git env [''-C'', cc_root (ce_cfg env), ''merge-base'', ''--is-ancestor'', branch, ''origin/'' @ b]) (\<lambda>p.
             cret (if p_rc p = 0 then (True, []) else if p_rc p = 1 then (False, ''branch ahead of origin/'' @ b)
                   else (False, ''git merge-base failed: '' @ (if strip (p_err p) = [] then ''unknown'' else strip (p_err p)))))) w1
        = (Inr (True, reason), w')"
    using assms unfolding branch_reachable_from_origin_def cbind_Inr by blast
  from default_run[OF b] obtain p where p: "ce_git env [''-C'', cc_root (ce_cfg env), ''symbolic-ref'', ''refs/remotes/origin/HEAD''] = Some p"
    "b = (if p_rc p \<noteq> 0 \<or> CHR 0x2F \<notin> set (strip (p_out p)) then None else Some (last_component (strip (p_out p))))" by blast
  show ?thesis
  proof (cases b)
    case None
    then show ?thesis using p by (auto simp: published_def split: if_splits)
  next
    case (Some dflt)
    from r obtain q w2 where q: "run_git env [''-C'', cc_root (ce_cfg env), ''merge-base'', ''--is-ancestor'', branch, ''origin/'' @ dflt] w1 = (Inr q, w2)"
      and x: "cret (if p_rc q = 0 then (True, []) else if p_rc q = 1 then (False, ''branch ahead of origin/'' @ dflt)
                   else (False, ''git merge-base failed: '' @ (if strip (p_err q) = [] then ''unknown'' else strip (p_err q)))) w2
        = (Inr (True, reason), w')"
      unfolding Some option.case cbind_Inr by blast
    have "p_rc q = 0" using x by (cases "p_rc q = 0"; cases "p_rc q = 1") (simp_all add: cret_def)
    moreover have "dflt = last_component (strip (p_out p))" using p(2) Some by (simp split: if_splits)
    ultimately show ?thesis using run_git_Inr[OF q] p(1) unfolding published_def by blast
  qed
qed

lemma same_pairs: "\<forall>(x, y)\<in>set ps. x = y \<Longrightarrow> ps = map (\<lambda>a. (a, a)) (map fst ps)"
  by (induction ps) auto

lemma reads_seen:
  assumes "own (=) m" "m w = (r, w')"
  obtains seen where "w_trace w' = w_trace w @ map (\<lambda>a. (a, a)) seen"
proof -
  obtain new where "w_trace w' = w_trace w @ new" "\<forall>(x, y)\<in>set new. x = y" using ownD[OF assms] unfolding ran_def by blast
  then show ?thesis using same_pairs that by metis
qed

definition may_go :: "string \<Rightarrow> pdb \<Rightarrow> bool" where
  "may_go slug a \<longleftrightarrow> \<not> plan_exists a slug \<or> (\<exists>d. snapshot a slug = Inr d \<and> gc_eligible d)"

lemma still_eligible_seen:
  assumes "gc_still_eligible slug w = (r, w')"
  shows "w_fx w' = w_fx w \<and> (\<exists>seen. w_trace w' = w_trace w @ map (\<lambda>a. (a, a)) seen
     \<and> (r = Inr True \<longrightarrow> (\<exists>a\<in>set seen. may_go slug a)))"
proof -
  let ?a = "w_db (settle w)"
  let ?w1 = "(settle w)\<lparr>w_trace := w_trace w @ [(?a, ?a)]\<rparr>"
  have t: "transact (\<lambda>db. (Inr (plan_exists db slug), db)) w = (Inr (plan_exists ?a slug), ?w1)" by (simp add: transact_run)
  show ?thesis
  proof (cases "plan_exists ?a slug")
    case False
    then have "r = Inr True" "w' = ?w1" using assms t by (simp_all add: gc_still_eligible_def cbind_def cret_def)
    then show ?thesis using False by (intro conjI exI[of _ "[?a]"]) (auto simp: may_go_def)
  next
    case True
    let ?b = "w_db (settle ?w1)"
    have "read_plan slug ?w1 = (snapshot ?b slug, (settle ?w1)\<lparr>w_trace := w_trace ?w1 @ [(?b, ?b)]\<rparr>)"
      by (simp add: read_plan_run)
    then have "w' = (settle ?w1)\<lparr>w_trace := w_trace ?w1 @ [(?b, ?b)]\<rparr> \<and> (r = Inr True \<longrightarrow> may_go slug ?b)"
      using assms t True
      by (cases "snapshot ?b slug") (auto simp: gc_still_eligible_def gives_def cbind_def ccatch_def cret_def may_go_def split: if_splits)
    then show ?thesis by (intro conjI exI[of _ "[?a, ?b]"]) auto
  qed
qed

text \<open>What a removal needs: the record, the published branch and a reading that says finished.\<close>

definition earned :: "xp_env \<Rightarrow> gc_args \<Rightarrow> (string \<times> jval) list \<Rightarrow> effect list \<Rightarrow> pdb list \<Rightarrow> bool" where
  "earned xe args cands fx seen \<longleftrightarrow> (\<forall>path. Git (rm_argv xe path) \<in> set fx \<longrightarrow>
     (\<exists>(slug, wt)\<in>set cands. \<exists>branch. need_key wt ''path'' = Inr path \<and> need_key wt ''branch'' = Inr branch
        \<and> published (xe_env xe) branch \<and> (\<exists>a\<in>set seen. may_go slug a)))
   \<and> (\<not> ga_delete_branch args \<longrightarrow> (\<forall>b. Git [''-C'', xe_root xe, ''branch'', ''-D'', b] \<notin> set fx))"

lemma gc_asks:
  assumes "branch_reachable_from_origin (xe_env xe) branch w = (r, w')"
  obtains fx where "w_fx w' = w_fx w @ fx" "w_trace w' = w_trace w" "earned xe args cands fx seen"
proof -
  let ?P = "\<lambda>e. (\<forall>path. e \<noteq> Git (rm_argv xe path)) \<and> (\<forall>b. e \<noteq> Git [''-C'', xe_root xe, ''branch'', ''-D'', b])"
  have "adds ?P (branch_reachable_from_origin (xe_env xe) branch)"
    unfolding branch_reachable_from_origin_def resolve_default_branch_def Let_def rm_argv_def
    by (auto intro!: adds_cbind adds_git adds_basic split: option.split simp del: cret_run)
  from addsD[OF this assms] obtain fx where "w_fx w' = w_fx w @ fx" "list_all ?P fx" "w_trace w' = w_trace w" by blast
  then show ?thesis using that by (fastforce simp: earned_def list_all_iff)
qed

lemma gc_removes:
  assumes "remove_worktree_and_branch (xe_env xe) path branch (ga_delete_branch args) x w = (r, w')"
  obtains fx where "w_fx w' = w_fx w @ fx" "w_trace w' = w_trace w" "\<And>p. Git (rm_argv xe p) \<in> set fx \<Longrightarrow> p = path"
    "\<not> ga_delete_branch args \<Longrightarrow> \<forall>b. Git [''-C'', xe_root xe, ''branch'', ''-D'', b] \<notin> set fx"
proof -
  let ?P = "\<lambda>e. (\<forall>p. e = Git (rm_argv xe p) \<longrightarrow> p = path) \<and> (\<not> ga_delete_branch args \<longrightarrow> (\<forall>b. e \<noteq> Git [''-C'', xe_root xe, ''branch'', ''-D'', b]))"
  have "adds ?P (remove_worktree_and_branch (xe_env xe) path branch (ga_delete_branch args) x)"
    unfolding remove_worktree_and_branch_def Let_def rm_argv_def
    by (auto intro!: adds_cbind adds_git adds_basic simp del: cret_run)
  from addsD[OF this assms] obtain fx where "w_fx w' = w_fx w @ fx" "list_all ?P fx" "w_trace w' = w_trace w" by blast
  then show ?thesis using that by (fastforce simp: list_all_iff)
qed

lemma earned_less:
  assumes "earned xe args A fx seen" "set A \<subseteq> set B" "set seen \<subseteq> set seen'"
  shows "earned xe args B fx seen'"
  unfolding earned_def
proof (intro conjI allI impI)
  fix path assume "Git (rm_argv xe path) \<in> set fx"
  with assms(1) obtain c branch where c: "c \<in> set A" "need_key (snd c) ''path'' = Inr path" "need_key (snd c) ''branch'' = Inr branch"
    "published (xe_env xe) branch" "\<exists>a\<in>set seen. may_go (fst c) a" unfolding earned_def by fastforce
  then show "\<exists>(slug, wt)\<in>set B. \<exists>branch. need_key wt ''path'' = Inr path \<and> need_key wt ''branch'' = Inr branch
      \<and> published (xe_env xe) branch \<and> (\<exists>a\<in>set seen'. may_go slug a)"
    using assms(2,3) by (intro bexI[of _ c]) (auto simp: split_beta)
qed (use assms(1) in \<open>simp add: earned_def\<close>)

lemma earned_both: "earned xe args A fx seen \<Longrightarrow> earned xe args A fy seen \<Longrightarrow> earned xe args A (fx @ fy) seen"
  by (simp add: earned_def)

lemma earned_join:
  assumes "earned xe args A fx seen" "earned xe args B fy seen'" shows "earned xe args (A @ B) (fx @ fy) (seen @ seen')"
  by (intro earned_both earned_less[OF assms(1)] earned_less[OF assms(2)]) auto

definition one_earned :: "xp_env \<Rightarrow> gc_args \<Rightarrow> (string \<times> jval) list \<Rightarrow> world \<Rightarrow> world \<Rightarrow> bool" where
  "one_earned xe args cands w w' \<longleftrightarrow> (\<exists>fx seen. w_fx w' = w_fx w @ fx \<and> w_trace w' = w_trace w @ map (\<lambda>a. (a, a)) seen
     \<and> earned xe args cands fx seen)"

lemma gc_one_earned:
  assumes "gc_one xe args slug wt w = (r, w')"
  shows "one_earned xe args [(slug, wt)] w w'"
proof -
  obtain g w1 where g: "gc_still_eligible slug w = (g, w1)" by fastforce
  from still_eligible_seen[OF g] obtain seen where
    s: "w_fx w1 = w_fx w" "w_trace w1 = w_trace w @ map (\<lambda>a. (a, a)) seen" "g = Inr True \<Longrightarrow> \<exists>a\<in>set seen. may_go slug a" by blast
  have none: "earned xe args cands [] seen" for cands by (simp add: earned_def)
  show ?thesis
  proof (cases "g = Inr True \<and> (\<exists>b. need_key wt ''branch'' = Inr b)")
    case False
    then have "w' = w1" using assms g
      by (cases g; cases "need_key wt ''branch''") (auto simp: gc_one_def cbind_def clift_def cret_def split: if_splits)
    then show ?thesis unfolding one_earned_def using s none by (intro exI[of _ "[]"] exI[of _ seen]) simp
  next
    case True
    then obtain branch where b: "need_key wt ''branch'' = Inr branch" by blast
    obtain q w2 where q: "branch_reachable_from_origin (xe_env xe) branch w1 = (q, w2)" by fastforce
    from gc_asks[OF q] obtain f1 where f1: "w_fx w2 = w_fx w1 @ f1" "w_trace w2 = w_trace w1" "earned xe args [(slug, wt)] f1 seen" by metis
    show ?thesis
    proof (cases "\<exists>reason path. q = Inr (True, reason) \<and> need_key wt ''path'' = Inr path")
      case False
      then have "w' = w2" using assms g True b q
        by (cases q; cases "need_key wt ''path''") (auto simp: gc_one_def cbind_def clift_def cret_def split: if_splits prod.splits)
      then show ?thesis unfolding one_earned_def using s f1 by (intro exI[of _ f1] exI[of _ seen]) simp
    next
      case yes: True
      then obtain reason path where p: "q = Inr (True, reason)" "need_key wt ''path'' = Inr path" by blast
      obtain u where "remove_worktree_and_branch (xe_env xe) path branch (ga_delete_branch args)
          (ga_delete_branch args \<and> \<not> cc_keep_remote (ce_cfg (xe_env xe))) w2 = (u, w')"
        using assms g True b q p
        by (auto simp: gc_one_def cbind_def clift_def cret_def split: prod.splits sum.splits)
      from gc_removes[OF this] obtain f2 where f2: "w_fx w' = w_fx w2 @ f2" "w_trace w' = w_trace w2"
        "\<And>p. Git (rm_argv xe p) \<in> set f2 \<Longrightarrow> p = path"
        "\<not> ga_delete_branch args \<Longrightarrow> \<forall>b. Git [''-C'', xe_root xe, ''branch'', ''-D'', b] \<notin> set f2" by blast
      have "published (xe_env xe) branch" using reachable_published q p(1) by blast
      then have "earned xe args [(slug, wt)] f2 seen" using f2(3,4) p(2) b s(3) True unfolding earned_def by auto
      with f1(3) have "earned xe args [(slug, wt)] (f1 @ f2) seen" by (rule earned_both)
      then show ?thesis unfolding one_earned_def using s f1 f2 by (intro exI[of _ "f1 @ f2"] exI[of _ seen]) simp
    qed
  qed
qed

lemma earned_trans:
  assumes "one_earned xe args A w w1" "one_earned xe args B w1 w'" shows "one_earned xe args (A @ B) w w'"
proof -
  from assms obtain fx s1 fy s2 where "w_fx w1 = w_fx w @ fx" "w_trace w1 = w_trace w @ map (\<lambda>a. (a, a)) s1" "earned xe args A fx s1"
    "w_fx w' = w_fx w1 @ fy" "w_trace w' = w_trace w1 @ map (\<lambda>a. (a, a)) s2" "earned xe args B fy s2"
    unfolding one_earned_def by blast
  then show ?thesis unfolding one_earned_def using earned_join[of xe args A fx s1 B fy s2]
    by (intro exI[of _ "fx @ fy"] exI[of _ "s1 @ s2"]) simp
qed

lemma earned_stop: "one_earned xe args A w w' \<Longrightarrow> one_earned xe args (A @ B) w w'"
  unfolding one_earned_def using earned_less[of xe args A _ _ "A @ B"] by fastforce

lemma gc_each_earned: "gc_each xe args cands w = (r, w') \<Longrightarrow> one_earned xe args cands w w'"
proof (induction cands arbitrary: w r)
  case Nil
  then have "w' = w" by (simp add: cret_def)
  then show ?case unfolding one_earned_def by (intro exI[of _ "[]"]) (simp add: earned_def)
next
  case (Cons c cands)
  obtain slug wt where c: "c = (slug, wt)" by fastforce
  obtain q w1 where q: "gc_one xe args slug wt w = (q, w1)" by fastforce
  note one = gc_one_earned[OF q]
  show ?case
  proof (cases q)
    case (Inl e)
    then have "w' = w1" using Cons.prems c q by (simp add: cbind_def)
    then show ?thesis using earned_stop[OF one, of cands] c by simp
  next
    case (Inr gone)
    obtain n where "gc_each xe args cands w1 = (n, w')"
      using Cons.prems c q Inr by (auto simp: cbind_def cret_def split: prod.splits sum.splits)
    from earned_trans[OF one Cons.IH[OF this]] c show ?thesis by simp
  qed
qed

text \<open>What the listing holds was read.\<close>

lemma try_load_seen:
  assumes "try_load slug w = (r, w')"
  shows "w_fx w' = w_fx w \<and> (\<exists>seen. w_trace w' = w_trace w @ map (\<lambda>a. (a, a)) seen
    \<and> (\<forall>d. r = Inr (Some d) \<longrightarrow> (\<exists>a\<in>set seen. snapshot a slug = Inr d)))"
proof -
  let ?a = "w_db (settle w)"
  let ?w1 = "(settle w)\<lparr>w_trace := w_trace w @ [(?a, ?a)]\<rparr>"
  have t: "transact (\<lambda>db. (Inr (plan_exists db slug), db)) w = (Inr (plan_exists ?a slug), ?w1)" by (simp add: transact_run)
  show ?thesis
  proof (cases "plan_exists ?a slug")
    case False
    then have "r = Inr None" "w' = ?w1" using assms t by (simp_all add: try_load_def cbind_def cret_def)
    then show ?thesis by (intro conjI exI[of _ "[?a]"]) auto
  next
    case True
    let ?b = "w_db (settle ?w1)"
    have "read_plan slug ?w1 = (snapshot ?b slug, (settle ?w1)\<lparr>w_trace := w_trace ?w1 @ [(?b, ?b)]\<rparr>)"
      by (simp add: read_plan_run)
    then have "w' = (settle ?w1)\<lparr>w_trace := w_trace ?w1 @ [(?b, ?b)]\<rparr> \<and> (\<forall>d. r = Inr (Some d) \<longrightarrow> snapshot ?b slug = Inr d)"
      using assms t True
      by (cases "snapshot ?b slug") (auto simp: try_load_def gives_def cbind_def ccatch_def cret_def split: if_splits)
    then show ?thesis by (intro conjI exI[of _ "[?a, ?b]"]) auto
  qed
qed

lemma load_plans_seen:
  "load_plans ss w = (r, w') \<Longrightarrow> w_fx w' = w_fx w \<and> (\<exists>seen. w_trace w' = w_trace w @ map (\<lambda>a. (a, a)) seen
    \<and> (\<forall>plans. r = Inr plans \<longrightarrow> (\<forall>(s, d)\<in>set plans. \<exists>a\<in>set seen. snapshot a s = Inr d)))"
proof (induction ss arbitrary: w r)
  case (Cons s ss)
  obtain q w1 where q: "try_load s w = (q, w1)" by fastforce
  from try_load_seen[OF q] obtain s1 where s1: "w_fx w1 = w_fx w" "w_trace w1 = w_trace w @ map (\<lambda>a. (a, a)) s1"
    "\<And>d. q = Inr (Some d) \<Longrightarrow> \<exists>a\<in>set s1. snapshot a s = Inr d" by blast
  show ?case
  proof (cases q)
    case (Inl e)
    then show ?thesis using Cons.prems q s1 by (auto simp: cbind_def)
  next
    case (Inr d)
    obtain v where v: "load_plans ss w1 = (v, w')"
      using Cons.prems q Inr by (auto simp: cbind_def cret_def split: prod.splits sum.splits)
    from Cons.IH[OF v] obtain s2 where s2: "w_fx w' = w_fx w1" "w_trace w' = w_trace w1 @ map (\<lambda>a. (a, a)) s2"
      "\<And>plans. v = Inr plans \<Longrightarrow> \<forall>(s, d)\<in>set plans. \<exists>a\<in>set s2. snapshot a s = Inr d" by blast
    have "\<forall>(s, d)\<in>set plans. \<exists>a\<in>set (s1 @ s2). snapshot a s = Inr d" if h: "r = Inr plans" for plans
    proof -
      obtain rest where rest: "v = Inr rest" "plans = (case d of None \<Rightarrow> [] | Some d \<Rightarrow> [(s, d)]) @ rest"
        using Cons.prems q Inr v h by (cases v) (auto simp: cbind_def cret_def)
      show ?thesis using s1(3) s2(3)[OF rest(1)] rest(2) Inr by (cases d) auto
    qed
    then show ?thesis using s1 s2 by (intro conjI exI[of _ "s1 @ s2"]) auto
  qed
qed (simp add: cret_def)


end
