(* ===== verification/Worktree_Examples.thy ===== *)
theory Worktree_Examples
  imports Worktree_Props Cross_Examples
begin

text \<open>An \<open>init --worktree\<close> of a plan that exists, and the collection of a shipped plan's worktree.\<close>

definition answering_git :: "string list \<Rightarrow> proc option" where
  "answering_git argv =
     Some \<lparr>p_rc = (if list_ex (prefix ''refs/heads/'') argv then 1 else 0),
       p_out = (if List.member argv ''symbolic-ref'' then ''refs/remotes/origin/main'' else ''c0ffee''), p_err = []\<rparr>"

definition example_init :: init_env where
  "example_init = \<lparr>ie_xp = example_xp\<lparr>xe_env := example_cmd_env\<lparr>ce_git := answering_git\<rparr>\<rparr>, ie_exists = (\<lambda>_. False),
     ie_mkdir_ok = True, ie_plan = None, ie_scale = 1 / 2, ie_raw = Some [], ie_dumps = (\<lambda>_. ''{}'')\<rparr>"

definition with_worktree :: init_args where
  "with_worktree = \<lparr>ia_worktree = Some None, ia_branch = None, ia_base_ref = None, ia_lease = Some 40, ia_stalled = None, ia_attempts = None\<rparr>"

definition new_worktree :: worktree_rec where
  "new_worktree = \<lparr>wr_path = worktree_place example_init None ''w1'', wr_branch = ''clu/w1'', wr_base = ''c0ffee''\<rparr>"


definition collect_all :: gc_args where
  "collect_all = \<lparr>ga_confirm = True, ga_archived = False, ga_delete_branch = False\<rparr>"


end
