(* ===== verification/Queue_Cmds.thy ===== *)
theory Queue_Cmds
  imports Worktree_Cmds
begin

text \<open>
  The commands on the queue and on the quota pause of a project (\<open>clu queue add\<close>, \<open>remove\<close> and
  \<open>clu quota clear\<close> of \<open>cli.py\<close>). A worker's add is three steps: the claim is compared in a reading, the
  queue's tables are written in a transaction of their own, and the event that records the outcome
  is written under the token.
\<close>

section \<open>The worker's add\<close>

record queue_args =
  qa_slugs :: "string list"
  qa_token :: "string option"
  qa_plan :: "string option"
  qa_phase :: "string option"
  qa_front :: bool
  qa_batch :: "string option"
  qa_reason :: "string option"

text \<open>\<open>qe_fp\<close>: the first eight digits of the SHA-256 of a text.\<close>

record queue_env =
  qe_xp :: xp_env
  qe_fp :: "string \<Rightarrow> string"

abbreviation qe_env :: "queue_env \<Rightarrow> cmd_env" where "qe_env qe \<equiv> xe_env (qe_xp qe)"
abbreviation qe_now :: "queue_env \<Rightarrow> int" where "qe_now qe \<equiv> xe_now (qe_xp qe)"

abbreviation EVENT_QUEUE_APPENDED :: string where "EVENT_QUEUE_APPENDED \<equiv> ''queue_appended''"
abbreviation EVENT_QUEUE_REJECTED :: string where "EVENT_QUEUE_REJECTED \<equiv> ''queue_rejected''"

fun slug_is_running :: "string \<Rightarrow> reg_row list \<Rightarrow> bool cmd" where
  "slug_is_running slug [] = cret False"
| "slug_is_running slug (r # rs) =
     cbind (try_load slug) (\<lambda>d. if (case d of None \<Rightarrow> False | Some d \<Rightarrow> has_claim d) then cret True else slug_is_running slug rs)"

text \<open>The registered rows the test looks at.\<close>

definition rows_of :: "string \<Rightarrow> string \<Rightarrow> host \<Rightarrow> reg_row list" where
  "rows_of slug dir h = filter (\<lambda>r. pe_slug r = slug \<and> pe_root r = dir) (entries (Some h))"

definition queue_write :: "queue_env \<Rightarrow> 'a txn \<Rightarrow> 'a cmd" where
  "queue_write qe t = transact (locked (ce_busy (qe_env qe)) t)"

definition log_outcome :: "queue_env \<Rightarrow> string \<Rightarrow> string \<Rightarrow> string \<Rightarrow> string \<Rightarrow> obj \<Rightarrow> unit cmd" where
  "log_outcome qe token plan phase ty flds =
     queue_write qe (op_append_events plan [mk_event (qe_now qe) ty flds] (Some token) (Some phase))"

definition reject_add :: "queue_env \<Rightarrow> string \<Rightarrow> string \<Rightarrow> string \<Rightarrow> string \<Rightarrow> string \<Rightarrow> unit cmd" where
  "reject_add qe token plan phase slug reason =
     log_outcome qe token plan phase EVENT_QUEUE_REJECTED
       [(''slug'', JStr slug), (''source_phase'', JStr phase), (''reason'', JStr reason)]"

definition appended_fields :: "queue_env \<Rightarrow> string \<Rightarrow> string \<Rightarrow> string \<Rightarrow> string option \<Rightarrow> obj" where
  "appended_fields qe token phase slug reason =
     [(''slug'', JStr slug), (''source_phase'', JStr phase), (''token_fp'', JStr (qe_fp qe token))]
     @ (case reason of None \<Rightarrow> [] | Some r \<Rightarrow> [(''reason'', JStr r)])"

text \<open>What follows the transaction on the queue.\<close>

definition after_add :: "queue_env \<Rightarrow> string \<Rightarrow> string \<Rightarrow> string \<Rightarrow> string \<Rightarrow> string option \<Rightarrow> add_outcome \<Rightarrow> exit_code cmd" where
  "after_add qe token plan phase slug reason out =
     (case out of
        CapReached \<Rightarrow> cbind (reject_add qe token plan phase slug ''cap'') (\<lambda>_. cret QUEUE_CAP)
      | AlreadyPending i \<Rightarrow> cret OK
      | AlreadyRunning \<Rightarrow> cret OK
      | AlreadyRan \<Rightarrow> cret STATUS_TRANSITION
      | Queued i \<Rightarrow>
          cbind (log_outcome qe token plan phase EVENT_QUEUE_APPENDED (appended_fields qe token phase slug reason)) (\<lambda>_. cret OK))"

definition add_to_queue :: "queue_env \<Rightarrow> bool \<Rightarrow> rat \<Rightarrow> string \<Rightarrow> string \<Rightarrow> string \<Rightarrow> string \<Rightarrow> string option \<Rightarrow> add_outcome option cmd" where
  "add_to_queue qe running cap token plan phase slug reason =
     gives (queue_write qe (worker_add (qe_now qe) running cap slug plan phase (qe_fp qe token)
       (case reason of None \<Rightarrow> JNull | Some r \<Rightarrow> JStr r))) degradable"

text \<open>The step that writes the queue, and what is made of its outcome.\<close>

definition add_step :: "queue_env \<Rightarrow> bool \<Rightarrow> rat \<Rightarrow> string \<Rightarrow> string \<Rightarrow> string \<Rightarrow> string \<Rightarrow> string option \<Rightarrow> exit_code cmd" where
  "add_step qe running cap token plan phase slug reason =
     cbind (add_to_queue qe running cap token plan phase slug reason) (\<lambda>out.
       case out of None \<Rightarrow> cret GENERIC | Some out \<Rightarrow> after_add qe token plan phase slug reason out)"

definition queue_add_worker :: "queue_env \<Rightarrow> host \<Rightarrow> string \<Rightarrow> string \<Rightarrow> string \<Rightarrow> string \<Rightarrow> string option \<Rightarrow> exit_code cmd" where
  "queue_add_worker qe h token plan phase slug reason =
     translate_claim_mismatch (
       if \<not> slug_re_match slug \<or> \<not> slug_re_match plan \<or> \<not> slug_re_match phase then cret INVALID_SLUG
       else
         cbind (transact (\<lambda>db. (Inr (plan_exists db plan), db))) (\<lambda>there.
           if \<not> there then cret UNKNOWN_TASK
           else
             cbind (read_plan plan) (\<lambda>d.
             cbind (clift (assert_claim_match (d_claim d) token phase)) (\<lambda>_.
               if \<not> xe_plan_file (qe_xp qe) slug
               then cbind (reject_add qe token plan phase slug ''missing_plan_file'') (\<lambda>_. cret UNKNOWN_TASK)
               else
                 cbind (clift (config_num d ''max_queue_adds_per_phase'' DEFAULT_MAX_QUEUE_ADDS_PER_PHASE)) (\<lambda>cap.
                 cbind (slug_is_running slug (rows_of slug (xe_root (qe_xp qe)) h)) (\<lambda>running.
                   add_step qe running cap token plan phase slug reason))))))"

section \<open>The operator's add\<close>

definition operator_entry :: "queue_env \<Rightarrow> queue_args \<Rightarrow> string \<Rightarrow> obj" where
  "operator_entry qe args slug =
     [(''slug'', JStr slug), (''added_at'', iso (qe_now qe)), (''added_by'', JStr ''operator''),
      (''position_at_add'', JStr (if qa_front args then ''front'' else ''tail'')),
      (''source_plan'', JNull), (''source_phase'', JNull), (''source_token_fp'', JNull),
      (''reason'', case qa_reason args of None \<Rightarrow> JNull | Some r \<Rightarrow> JStr r),
      (''batch_id'', case qa_batch args of None \<Rightarrow> JNull | Some b \<Rightarrow> JStr b)]"

definition queue_add_operator :: "queue_env \<Rightarrow> host \<Rightarrow> queue_args \<Rightarrow> exit_code cmd" where
  "queue_add_operator qe h args =
     (if \<not> list_all slug_re_match (qa_slugs args) then cret INVALID_SLUG
      else if (case qa_batch args of None \<Rightarrow> False | Some b \<Rightarrow> \<not> slug_re_match b) then cret INVALID_SLUG
      else if \<not> distinct (qa_slugs args) then cret STATUS_TRANSITION
      else if xe_root (qe_xp qe) \<notin> set (map (\<lambda>r. xe_resolve (qe_xp qe) (pe_root r)) (entries (Some h))) then cret GENERIC
      else if \<not> list_all (xe_plan_file (qe_xp qe)) (qa_slugs args) then cret UNKNOWN_TASK
      else
        cbind (ccatch (cbind (queue_write qe (add_many (qa_front args) (map (operator_entry qe args) (qa_slugs args)))) (\<lambda>_. cret OK))
            (\<lambda>e. case e of
               AlreadyQueued _ _ \<Rightarrow> Some (cret STATUS_TRANSITION)
             | _ \<Rightarrow> if degradable e then Some (cret GENERIC) else None)) (\<lambda>code.
          if code \<noteq> OK then cret code
          else cbind (post_action_tick (qe_env qe)) (\<lambda>_. cret OK)))"

definition cmd_queue_add :: "queue_env \<Rightarrow> queue_args \<Rightarrow> exit_code walk" where
  "cmd_queue_add qe args = (\<lambda>p.
     (case qa_token args of
        Some token \<Rightarrow>
          (case (qa_plan args, qa_phase args, qa_slugs args) of
             (Some plan, Some phase, [slug]) \<Rightarrow>
               if qa_front args \<or> qa_batch args \<noteq> None then cret GENERIC
               else on_world (queue_add_worker qe (pj_host p) token plan phase slug (qa_reason args))
           | _ \<Rightarrow> cret GENERIC)
      | None \<Rightarrow>
          if qa_plan args \<noteq> None \<or> qa_phase args \<noteq> None then cret GENERIC
          else on_world (queue_add_operator qe (pj_host p) args)) p)"

section \<open>Removing, and the end of a pause\<close>

definition cmd_queue_remove :: "queue_env \<Rightarrow> string \<Rightarrow> exit_code cmd" where
  "cmd_queue_remove qe slug =
     (if \<not> slug_re_match slug then cret INVALID_SLUG
      else
        cbind (gives (queue_write qe (queue_remove (qe_now qe) slug)) degradable) (\<lambda>removed.
          cret (case removed of None \<Rightarrow> GENERIC | Some b \<Rightarrow> if b then OK else UNKNOWN_TASK)))"

definition cmd_quota_clear :: "queue_env \<Rightarrow> exit_code cmd" where
  "cmd_quota_clear qe =
     cbind (gives (queue_write qe (\<lambda>db. case clear_pause db of (row, db') \<Rightarrow> (Inr row, db'))) degradable) (\<lambda>cleared.
       cret (case cleared of None \<Rightarrow> GENERIC | Some _ \<Rightarrow> OK))"

end
