(* ===== verification/Queue_Cmds_Props.thy ===== *)
theory Queue_Cmds_Props
  imports Queue_Cmds Worktree_Props
begin

text \<open>
  What a worker's \<open>clu queue add\<close> writes, under every interleaving: the queue and the log are two
  transactions, and only the second one is under the token.
\<close>

lemma reads_running: "own (=) (slug_is_running slug rs)"
proof (induction rs)
  case (Cons r rs)
  then show ?case unfolding slug_is_running.simps by (auto intro!: own_cbind reads_load own_cret simp del: cret_run)
qed (simp only: slug_is_running.simps own_cret)

text \<open>The event that records the outcome: written under the token, or not at all.\<close>

definition logged :: "queue_env \<Rightarrow> string \<Rightarrow> string \<Rightarrow> string \<Rightarrow> string \<Rightarrow> obj \<Rightarrow> pdb \<Rightarrow> pdb \<Rightarrow> bool" where
  "logged qe token plan phase ty flds c d \<longleftrightarrow>
     op_append_events plan [mk_event (qe_now qe) ty flds] (Some token) (Some phase) c = (Inr (), d)"

lemma outcome_run:
  assumes "log_outcome qe token plan phase ty flds w = (q, w')"
  obtains c d where "w_trace w' = w_trace w @ [(c, d)]" "q = Inr () \<Longrightarrow> logged qe token plan phase ty flds c d" "\<And>e. q = Inl e \<Longrightarrow> d = c"
    "t_queue d = t_queue c"
proof -
  let ?t = "op_append_events plan [mk_event (qe_now qe) ty flds] (Some token) (Some phase)"
  let ?c = "w_db (settle w)"
  obtain d where r: "locked (ce_busy (qe_env qe)) ?t ?c = (q, d)" "w_trace w' = w_trace w @ [(?c, d)]"
    using assms by (auto simp: log_outcome_def queue_write_def transact_run)
  have "\<exists>v d'. ?t ?c = (v, d')" by fastforce
  then obtain v d' where v: "?t ?c = (v, d')" by blast
  have e: "d' = ?c" if "v = Inl e" for e
    using v that unfolding op_append_events_def by (auto dest: plan_txn_Inl)
  have t: "t_queue d' = t_queue ?c"
  proof (cases v)
    case (Inr u)
    then show ?thesis using v unfolding op_append_events_def
      by (auto simp: plan_txn_def write_txn_def andthen_def check_token_def require_token_def bump_def update_plan_def modify_def insert_events_def ret_def
          guard_res_def split: if_splits sum.splits prod.splits option.splits)
  qed (simp add: e)
  show thesis
  proof (cases "ce_busy (qe_env qe)")
    case True
    then show thesis using r that[of ?c d] by (auto simp: locked_def fail_def)
  next
    case False
    then have "q = v" "d = d'" using r(1) v by (simp_all add: locked_def)
    then show thesis using r(2) v e t that[of ?c d] by (cases v) (auto simp: logged_def)
  qed
qed

lemma add_alone:
  assumes "worker_add now running cap slug plan phase fp reason a = (v, b)" "\<And>i. v \<noteq> Inr (Queued i)"
  shows "b = a"
proof (cases v)
  case (Inl e)
  then show ?thesis using assms(1) by (auto simp: worker_add_def write_txn_def split: prod.splits sum.splits)
next
  case (Inr out)
  then show ?thesis using assms
    by (auto simp: worker_add_def write_txn_def Let_def andthen_def ret_def split: prod.splits sum.splits if_splits option.splits)
qed

lemma add_run:
  assumes "add_to_queue qe running cap token plan phase slug reason w = (v, w')"
  obtains a b where "w_trace w' = w_trace w @ [(a, b)]" "v \<in> Inr ` Some ` range Queued \<or> b = a"
    "\<And>i. v = Inr (Some (Queued i)) \<Longrightarrow> worker_add (qe_now qe) running cap slug plan phase (qe_fp qe token)
       (case reason of None \<Rightarrow> JNull | Some x \<Rightarrow> JStr x) a = (Inr (Queued i), b)"
proof -
  let ?t = "worker_add (qe_now qe) running cap slug plan phase (qe_fp qe token) (case reason of None \<Rightarrow> JNull | Some x \<Rightarrow> JStr x)"
  let ?a = "w_db (settle w)"
  obtain u b where r: "queue_write qe ?t w = (u, (settle w)\<lparr>w_db := b, w_trace := w_trace w @ [(?a, b)]\<rparr>)"
    "locked (ce_busy (qe_env qe)) ?t ?a = (u, b)"
    by (cases "locked (ce_busy (qe_env qe)) ?t ?a") (auto simp: queue_write_def transact_run)
  have w': "w' = (settle w)\<lparr>w_db := b, w_trace := w_trace w @ [(?a, b)]\<rparr>"
    "v = Inr (Some x) \<longleftrightarrow> u = Inr x" for x
    using assms r(1) by (auto simp: add_to_queue_def gives_def ccatch_def cbind_def cret_def split: sum.splits if_splits)
  have "b = ?a" if "\<And>i. u \<noteq> Inr (Queued i)"
  proof (cases "ce_busy (qe_env qe)")
    case True
    then show ?thesis using r(2) by (simp add: locked_def fail_def)
  next
    case False
    then have "?t ?a = (u, b)" using r(2) by (simp add: locked_def)
    from add_alone[OF this that] show ?thesis .
  qed
  moreover have "?t ?a = (Inr (Queued i), b)" if "u = Inr (Queued i)" for i
    using r(2) that by (auto simp: locked_def fail_def split: if_splits)
  ultimately show thesis using that[of ?a b] w' by auto
qed

abbreviation quiet_queue :: "(pdb \<times> pdb) list \<Rightarrow> bool" where
  "quiet_queue \<equiv> list_all (\<lambda>(a, b). t_queue b = t_queue a)"

lemma quiet_reads: "quiet_queue (map (\<lambda>a. (a, a)) xs)"
  by (simp add: list_all_iff)

lemma add_step_trail:
  assumes "add_step qe running cap token plan phase slug reason w = (q, w')"
  shows "\<exists>more. w_trace w' = w_trace w @ more \<and> (quiet_queue more
    \<or> (\<exists>a b c d i. more = [(a, b), (c, d)]
        \<and> worker_add (qe_now qe) running cap slug plan phase (qe_fp qe token)
            (case reason of None \<Rightarrow> JNull | Some x \<Rightarrow> JStr x) a = (Inr (Queued i), b)
        \<and> (if q = Inr OK then logged qe token plan phase EVENT_QUEUE_APPENDED (appended_fields qe token phase slug reason) c d
           else d = c \<and> q \<in> range Inl)))"
proof -
  obtain v w1 where v: "add_to_queue qe running cap token plan phase slug reason w = (v, w1)" by fastforce
  have rest: "(case v of Inl e \<Rightarrow> (Inl e, w1) | Inr None \<Rightarrow> (Inr GENERIC, w1)
      | Inr (Some out) \<Rightarrow> after_add qe token plan phase slug reason out w1) = (q, w')"
    using assms v by (auto simp: add_step_def cbind_def cret_def split: sum.splits option.splits)
  from add_run[OF v] obtain a b where ab: "w_trace w1 = w_trace w @ [(a, b)]" "v \<in> Inr ` Some ` range Queued \<or> b = a"
    "\<And>i. v = Inr (Some (Queued i)) \<Longrightarrow> worker_add (qe_now qe) running cap slug plan phase (qe_fp qe token)
       (case reason of None \<Rightarrow> JNull | Some x \<Rightarrow> JStr x) a = (Inr (Queued i), b)" by blast
  show ?thesis
  proof (cases "v \<in> Inr ` Some ` range Queued")
    case False
    then have "b = a" using ab(2) by blast
    have "w' = w1 \<or> (\<exists>z. reject_add qe token plan phase slug ''cap'' w1 = (z, w'))"
      using rest False
      by (auto simp: after_add_def cbind_def cret_def split: sum.splits option.splits add_outcome.splits prod.splits)
    then obtain more where "w_trace w' = w_trace w1 @ more" "quiet_queue more"
      unfolding reject_add_def by (elim disjE exE outcome_run) auto
    with ab(1) \<open>b = a\<close> show ?thesis by (intro exI[of _ "(a, b) # more"]) simp
  next
    case True
    then obtain i where i: "v = Inr (Some (Queued i))" by blast
    let ?lg = "log_outcome qe token plan phase EVENT_QUEUE_APPENDED (appended_fields qe token phase slug reason)"
    obtain z where z: "?lg w1 = (z, w')" "q = (case z of Inl e \<Rightarrow> Inl e | Inr _ \<Rightarrow> Inr OK)"
      using rest i by (auto simp: after_add_def cbind_def cret_def split: prod.splits sum.splits)
    from z(1) obtain c e where ce: "w_trace w' = w_trace w1 @ [(c, e)]"
      "z = Inr () \<Longrightarrow> logged qe token plan phase EVENT_QUEUE_APPENDED (appended_fields qe token phase slug reason) c e"
      "\<And>x. z = Inl x \<Longrightarrow> e = c" by (rule outcome_run) blast
    have "if q = Inr OK then logged qe token plan phase EVENT_QUEUE_APPENDED (appended_fields qe token phase slug reason) c e
        else e = c \<and> q \<in> range Inl"
      using z(2) ce(2,3) by (cases z) auto
    with ab(1) ce(1) ab(3)[OF i] show ?thesis by (intro exI[of _ "[(a, b), (c, e)]"]) auto
  qed
qed

lemma translated:
  "translate_claim_mismatch m w = (r, w') \<Longrightarrow> \<exists>q. m w = (q, w') \<and> (q = Inr OK \<longleftrightarrow> r = Inr OK)
     \<and> (q \<in> range Inl \<longrightarrow> r \<in> insert (Inr CLAIM_MISMATCH) (range Inl))"
  by (cases "m w") (auto simp: translate_claim_mismatch_def ccatch_def cret_def split: sum.splits pyerr.splits)

text \<open>The command up to that step only reads, or rejects.\<close>

lemma worker_add_cases:
  assumes "queue_add_worker qe h token plan phase slug reason w = (r, w')"
  obtains (quiet) new where "w_trace w' = w_trace w @ new" "quiet_queue new"
  | (adds) reads x dc cap running w1 q where "w_trace w1 = w_trace w @ map (\<lambda>a. (a, a)) reads" "x \<in> set reads" "snapshot x plan = Inr dc"
      "assert_claim_match (d_claim dc) token phase = Inr ()"
      "config_num dc ''max_queue_adds_per_phase'' DEFAULT_MAX_QUEUE_ADDS_PER_PHASE = Inr cap"
      "add_step qe running cap token plan phase slug reason w1 = (q, w')"
      "q = Inr OK \<longleftrightarrow> r = Inr OK" "q \<in> range Inl \<Longrightarrow> r \<in> insert (Inr CLAIM_MISMATCH) (range Inl)"
proof -
  let ?body = "if \<not> slug_re_match slug \<or> \<not> slug_re_match plan \<or> \<not> slug_re_match phase then cret INVALID_SLUG
       else
         cbind (transact (\<lambda>db. (Inr (plan_exists db plan), db))) (\<lambda>there.
           if \<not> there then cret UNKNOWN_TASK
           else
             cbind (read_plan plan) (\<lambda>d.
             cbind (clift (assert_claim_match (d_claim d) token phase)) (\<lambda>_.
               if \<not> xe_plan_file (qe_xp qe) slug
               then cbind (reject_add qe token plan phase slug ''missing_plan_file'') (\<lambda>_. cret UNKNOWN_TASK)
               else
                 cbind (clift (config_num d ''max_queue_adds_per_phase'' DEFAULT_MAX_QUEUE_ADDS_PER_PHASE)) (\<lambda>cap.
                 cbind (slug_is_running slug (rows_of slug (xe_root (qe_xp qe)) h)) (\<lambda>running.
                   add_step qe running cap token plan phase slug reason)))))"
  obtain q where q: "?body w = (q, w')" "q = Inr OK \<longleftrightarrow> r = Inr OK" "q \<in> range Inl \<Longrightarrow> r \<in> insert (Inr CLAIM_MISMATCH) (range Inl)"
    using translated[OF assms[unfolded queue_add_worker_def]] by blast
  let ?a = "w_db (settle w)"
  let ?w1 = "(settle w)\<lparr>w_trace := w_trace w @ [(?a, ?a)]\<rparr>"
  have t: "transact (\<lambda>db. (Inr (plan_exists db plan), db)) w = (Inr (plan_exists ?a plan), ?w1)" by (simp add: transact_run)
  let ?b = "w_db (settle ?w1)"
  let ?w2 = "(settle ?w1)\<lparr>w_trace := w_trace ?w1 @ [(?b, ?b)]\<rparr>"
  have rd: "read_plan plan ?w1 = (snapshot ?b plan, ?w2)" by (simp add: read_plan_run)
  have w2: "w_trace ?w2 = w_trace w @ map (\<lambda>a. (a, a)) [?a, ?b]" by simp
  show thesis
  proof (cases "slug_re_match slug \<and> slug_re_match plan \<and> slug_re_match phase \<and> plan_exists ?a plan
      \<and> (\<exists>d. snapshot ?b plan = Inr d \<and> assert_claim_match (d_claim d) token phase = Inr ())")
    case False
    then have "w' = w \<or> w' = ?w1 \<or> w' = ?w2" using q(1) t rd
      by (cases "snapshot ?b plan") (auto simp: cbind_def cret_def clift_def split: if_splits sum.splits)
    then show thesis using quiet[of "[]"] quiet[of "[(?a, ?a)]"] quiet[of "map (\<lambda>a. (a, a)) [?a, ?b]"] w2 by auto
  next
    case True
    then obtain d where d: "snapshot ?b plan = Inr d" "assert_claim_match (d_claim d) token phase = Inr ()" by blast
    have on: "slug_re_match slug" "slug_re_match plan" "slug_re_match phase" "plan_exists ?a plan" using True by blast+
    have body: "(if \<not> xe_plan_file (qe_xp qe) slug
        then cbind (reject_add qe token plan phase slug ''missing_plan_file'') (\<lambda>_. cret UNKNOWN_TASK)
        else cbind (clift (config_num d ''max_queue_adds_per_phase'' DEFAULT_MAX_QUEUE_ADDS_PER_PHASE)) (\<lambda>cap.
             cbind (slug_is_running slug (rows_of slug (xe_root (qe_xp qe)) h)) (\<lambda>running.
               add_step qe running cap token plan phase slug reason))) ?w2 = (q, w')"
      using q(1) t rd d on by (simp add: cbind_def clift_def)
    show thesis
    proof (cases "xe_plan_file (qe_xp qe) slug")
      case False
      then obtain v where "reject_add qe token plan phase slug ''missing_plan_file'' ?w2 = (v, w')"
        using body by (auto simp: cbind_def cret_def split: prod.splits sum.splits)
      then obtain c e where "w_trace w' = w_trace ?w2 @ [(c, e)]" "t_queue e = t_queue c"
        unfolding reject_add_def by (rule outcome_run)
      then show thesis using w2 quiet[of "map (\<lambda>a. (a, a)) [?a, ?b] @ [(c, e)]"] by auto
    next
      case there: True
      show thesis
      proof (cases "config_num d ''max_queue_adds_per_phase'' DEFAULT_MAX_QUEUE_ADDS_PER_PHASE")
        case (Inl e)
        then have "w' = ?w2" using body there by (auto simp: cbind_def clift_def)
        then show thesis using quiet[of "map (\<lambda>a. (a, a)) [?a, ?b]"] w2 by auto
      next
        case cap: (Inr cap)
        obtain u w3 where u: "slug_is_running slug (rows_of slug (xe_root (qe_xp qe)) h) ?w2 = (u, w3)" by fastforce
        from reads_seen[where m = "slug_is_running slug (rows_of slug (xe_root (qe_xp qe)) h)", OF reads_running u] obtain seen where "w_trace w3 = w_trace ?w2 @ map (\<lambda>a. (a, a)) seen" .
        then have w3: "w_trace w3 = w_trace w @ map (\<lambda>a. (a, a)) (?a # ?b # seen)" by simp
        show thesis
        proof (cases u)
          case (Inl e)
          then have "w' = w3" using body there cap u by (auto simp: cbind_def clift_def)
          with w3 have "w_trace w' = w_trace w @ map (\<lambda>a. (a, a)) (?a # ?b # seen)" by simp
          then show thesis using quiet_reads by (rule quiet)
        next
          case (Inr running)
          then have "add_step qe running cap token plan phase slug reason w3 = (q, w')"
            using body there cap u by (simp add: cbind_def clift_def)
          then show thesis using adds[OF w3 _ d cap _ q(2,3)] by simp
        qed
      qed
    qed
  qed
qed

text \<open>
  C16 What a worker's \<open>queue add\<close> leaves. Whatever other processes do in between, either no transaction of the
  command changes the queue; or exactly one does, after the claim was seen to match and within the
  cap read with it, and it is followed by the transaction of the log: a zero exit code means that
  the event was written under the claim, and with any other end the plan is queued and nothing
  records it, so a worker whose claim was taken over in between is told of the mismatch although its
  plan was queued.
\<close>

theorem queue_add_is_logged:
  assumes "queue_add_worker qe h token plan phase slug reason w = (r, w')"
  shows "\<exists>new. w_trace w' = w_trace w @ new \<and>
     (list_all (\<lambda>(a, b). t_queue b = t_queue a) new
      \<or> (\<exists>reads a b c d x dc cap running i. new = map (\<lambda>a. (a, a)) reads @ [(a, b), (c, d)]
          \<and> x \<in> set reads \<and> snapshot x plan = Inr dc \<and> assert_claim_match (d_claim dc) token phase = Inr ()
          \<and> config_num dc ''max_queue_adds_per_phase'' DEFAULT_MAX_QUEUE_ADDS_PER_PHASE = Inr cap
          \<and> worker_add (qe_now qe) running cap slug plan phase (qe_fp qe token)
              (case reason of None \<Rightarrow> JNull | Some x \<Rightarrow> JStr x) a = (Inr (Queued i), b)
          \<and> (if r = Inr OK then logged qe token plan phase EVENT_QUEUE_APPENDED (appended_fields qe token phase slug reason) c d
             else d = c \<and> r \<in> insert (Inr CLAIM_MISMATCH) (range Inl))))"
  using assms
proof (cases rule: worker_add_cases)
  case (quiet new)
  then show ?thesis by blast
next
  case (adds reads x dc cap running w1 q)
  from add_step_trail[OF adds(6)] obtain more where m: "w_trace w' = w_trace w1 @ more" "quiet_queue more
    \<or> (\<exists>a b c d i. more = [(a, b), (c, d)]
        \<and> worker_add (qe_now qe) running cap slug plan phase (qe_fp qe token)
            (case reason of None \<Rightarrow> JNull | Some x \<Rightarrow> JStr x) a = (Inr (Queued i), b)
        \<and> (if q = Inr OK then logged qe token plan phase EVENT_QUEUE_APPENDED (appended_fields qe token phase slug reason) c d
           else d = c \<and> q \<in> range Inl))" by blast
  have t: "w_trace w' = w_trace w @ map (\<lambda>a. (a, a)) reads @ more" using adds(1) m(1) by simp
  show ?thesis
  proof (cases "quiet_queue more")
    case True
    then show ?thesis using t quiet_reads[of reads] by (intro exI[of _ "map (\<lambda>a. (a, a)) reads @ more"]) (simp add: list_all_append)
  next
    case False
    then obtain a b c d i where w: "more = [(a, b), (c, d)]"
      "worker_add (qe_now qe) running cap slug plan phase (qe_fp qe token)
         (case reason of None \<Rightarrow> JNull | Some x \<Rightarrow> JStr x) a = (Inr (Queued i), b)"
      "if q = Inr OK then logged qe token plan phase EVENT_QUEUE_APPENDED (appended_fields qe token phase slug reason) c d
       else d = c \<and> q \<in> range Inl" using m(2) by blast
    have "if r = Inr OK then logged qe token plan phase EVENT_QUEUE_APPENDED (appended_fields qe token phase slug reason) c d
        else d = c \<and> r \<in> insert (Inr CLAIM_MISMATCH) (range Inl)"
      using w(3) adds(7,8) by (cases "q = Inr OK") simp_all
    with t w(1,2) adds(2-5) show ?thesis by blast
  qed
qed

end
