(* ===== verification/Queue_Cmds_Examples.thy ===== *)
theory Queue_Cmds_Examples
  imports Queue_Cmds_Props Cross_Examples
begin

text \<open>A worker chains a plan while its phase is released and dispatched anew: the plan is queued, the worker is refused.\<close>

definition example_queue :: queue_env where
  "example_queue = \<lparr>qe_xp = example_xp\<lparr>xe_plan_file := (\<lambda>_. True)\<rparr>, qe_fp = (\<lambda>_. ''01234567'')\<rparr>"

definition overtaken :: world where
  "overtaken = \<lparr>w_db = held_db, w_script = [alone [], alone [], alone [], redispatch], w_trace = [], w_fx = []\<rparr>"

definition chained :: "exit_code res \<times> world" where
  "chained = queue_add_worker example_queue empty_host ''session-abc'' ''w1'' ''a'' ''w2'' None overtaken"

theorem queue_add_is_logged_witness:
  "\<exists>w' reads a b c i. chained = (Inr CLAIM_MISMATCH, w') \<and> map qr_slug (t_queue (w_db w')) = [''w2'']
     \<and> w_trace w' = map (\<lambda>a. (a, a)) reads @ [(a, b), (c, c)]
     \<and> (\<exists>running cap. worker_add 7000000 running cap ''w2'' ''w1'' ''a'' ''01234567'' JNull a = (Inr (Queued i), b))"
proof -
  have "case chained of (r, w') \<Rightarrow> r = Inr CLAIM_MISMATCH \<and> map qr_slug (t_queue (w_db w')) = [''w2'']
    \<and> list_ex (\<lambda>(a, b). length (t_queue b) \<noteq> length (t_queue a)) (w_trace w')" by code_simp
  then obtain w' where r: "chained = (Inr CLAIM_MISMATCH, w')" "map qr_slug (t_queue (w_db w')) = [''w2'']"
    "list_ex (\<lambda>(a, b). length (t_queue b) \<noteq> length (t_queue a)) (w_trace w')" by (cases chained) auto
  have e: "w_trace overtaken = []" "qe_now example_queue = 7000000" "qe_fp example_queue ''session-abc'' = ''01234567''"
    by (simp_all add: overtaken_def example_queue_def example_xp_def example_cmd_env_def)
  obtain new where new: "w_trace w' = new"
    "list_all (\<lambda>(a, b). t_queue b = t_queue a) new
      \<or> (\<exists>reads a b c d i. new = map (\<lambda>a. (a, a)) reads @ [(a, b), (c, d)] \<and> d = c
          \<and> (\<exists>running cap. worker_add 7000000 running cap ''w2'' ''w1'' ''a'' ''01234567'' JNull a = (Inr (Queued i), b)))"
    using queue_add_is_logged[OF r(1)[unfolded chained_def]] e by fastforce
  have "\<not> list_all (\<lambda>(a, b). t_queue b = t_queue a) new" using r(3) new(1) by (fastforce simp: list_ex_iff list_all_iff)
  with new(2) obtain reads a b c i running cap where "new = map (\<lambda>a. (a, a)) reads @ [(a, b), (c, c)]"
    "worker_add 7000000 running cap ''w2'' ''w1'' ''a'' ''01234567'' JNull a = (Inr (Queued i), b)" by blast
  with new(1) r(1,2) show ?thesis by (intro exI[of _ w']) auto
qed

end
