(* ===== verification/Web_Feed.thy ===== *)
theory Web_Feed
  imports Session_Start Cmd_World Config
begin

text \<open>
  The activity feed of the dashboard (\<open>/api/feed\<close> of \<open>webserver.py\<close>): which transcript a request may
  read (with the locator of \<open>top.py\<close>), the window of complete lines that one poll consumes, and the
  events a record gives. Files are their bytes.
\<close>

section \<open>One poll of a transcript\<close>

definition FEED_BACKFILL_BYTES :: nat where "FEED_BACKFILL_BYTES = 64 * 1024"
definition FEED_READ_CAP :: nat where "FEED_READ_CAP = 256 * 1024"
definition FEED_TEXT_CAP :: nat where "FEED_TEXT_CAP = 2000"

text \<open>\<open>json.loads\<close> of bytes: a value, a \<open>JSONDecodeError\<close>, or bytes that are no UTF-8.\<close>

datatype loaded = Loaded jval | BadJson | BadText

text \<open>\<open>bytes.strip\<close>\<close>

definition is_blank_byte :: "char \<Rightarrow> bool" where
  "is_blank_byte c \<longleftrightarrow> c \<in> {CHR 0x09, CHR 0x0A, CHR 0x0B, CHR 0x0C, CHR 0x0D, CHR 0x20}"

definition strip_bytes :: "string \<Rightarrow> string" where
  "strip_bytes s = rev (dropWhile is_blank_byte (rev (dropWhile is_blank_byte s)))"

fun read_records :: "(string \<Rightarrow> loaded) \<Rightarrow> string list \<Rightarrow> jval list res" where
  "read_records loads [] = Inr []"
| "read_records loads (raw # rest) =
     (let s = strip_bytes raw in
      if s = [] then read_records loads rest
      else (case loads s of
              Loaded v \<Rightarrow> bind_res (read_records loads rest) (\<lambda>vs. Inr (v # vs))
            | BadJson \<Rightarrow> read_records loads rest
            | BadText \<Rightarrow> Inl UnicodeDecodeError))"

text \<open>\<open>buf.rfind\<close>, as the length of the part up to the last line feed (0: there is none).\<close>

definition upto_last_newline :: "string \<Rightarrow> nat" where
  "upto_last_newline buf = length (rev (dropWhile (\<lambda>c. c \<noteq> newline) (rev buf)))"

definition read_feed_window :: "(string \<Rightarrow> loaded) \<Rightarrow> string \<Rightarrow> int \<Rightarrow> (jval list \<times> int \<times> bool) res" where
  "read_feed_window loads content cursor =
     (let size = int (length content);
          reset = cursor > size;
          backfill = cursor < 0 \<or> reset;
          cur = (if backfill then max 0 (size - int FEED_BACKFILL_BYTES) else cursor);
          buf = take FEED_READ_CAP (drop (nat cur) content)
      in (case (if backfill \<and> cur > 0 then map_option Suc (index_of newline buf) else Some 0) of
            None \<Rightarrow> Inr ([], cur, reset)
          | Some skip \<Rightarrow>
              (let upto = upto_last_newline buf in
               if upto \<le> skip then Inr ([], cur + int skip, reset)
               else bind_res (read_records loads (split_on newline (drop skip (take upto buf)))) (\<lambda>records.
                 Inr (records, cur + int upto, reset)))))"

section \<open>What a record says\<close>

record feed_event =
  fe_ts :: jval
  fe_kind :: string
  fe_text :: string

text \<open>The ellipsis in UTF-8.\<close>

definition ellipsis :: string where
  "ellipsis = [CHR 0xE2, CHR 0x80, CHR 0xA6]"

definition truncate_feed :: "string \<Rightarrow> string" where
  "truncate_feed text = (if text_len text \<le> FEED_TEXT_CAP then text else text_take (FEED_TEXT_CAP - 1) text @ ellipsis)"

definition jobj :: "jval \<Rightarrow> obj" where
  "jobj v = (case v of JObj d \<Rightarrow> d | _ \<Rightarrow> [])"

definition objects_of :: "jval list \<Rightarrow> obj list" where
  "objects_of vs = List.map_filter (\<lambda>v. case v of JObj d \<Rightarrow> Some d | _ \<Rightarrow> None) vs"

definition content_blocks :: "obj \<Rightarrow> obj list" where
  "content_blocks message = (case jget message ''content'' of
     JStr s \<Rightarrow> [[(''type'', JStr ''text''), (''text'', JStr s)]]
   | JList vs \<Rightarrow> objects_of vs
   | _ \<Rightarrow> [])"


definition result_text :: "obj \<Rightarrow> string" where
  "result_text block = (case jget block ''content'' of
     JStr s \<Rightarrow> s
   | JList vs \<Rightarrow> join_with (CHR '' '') (List.map_filter
       (\<lambda>b. if jget b ''type'' = JStr ''text'' then (case jget b ''text'' of JStr s \<Rightarrow> Some s | _ \<Rightarrow> None) else None) (objects_of vs))
   | _ \<Rightarrow> [])"

definition WRITE_TOOLS :: "string list" where
  "WRITE_TOOLS = [''Edit'', ''Write'', ''MultiEdit'', ''NotebookEdit'']"

definition AGENT_TOOLS :: "string list" where
  "AGENT_TOOLS = [''Agent'', ''Task'']"

definition feed_emit :: "jval \<Rightarrow> string \<Rightarrow> jval \<Rightarrow> feed_event list" where
  "feed_emit ts kind text = (case text of
     JStr s \<Rightarrow> if strip s = [] then [] else [\<lparr>fe_ts = ts, fe_kind = kind, fe_text = truncate_feed s\<rparr>]
   | _ \<Rightarrow> [])"

text \<open>\<open>v in frozenset(...)\<close> of texts: a value without a hash raises.\<close>

definition in_names :: "jval \<Rightarrow> string list \<Rightarrow> bool res" where
  "in_names v names = (if hashable v then Inr (v \<in> set (map JStr names)) else Inl PyTypeError)"

definition assistant_event :: "jval \<Rightarrow> obj \<Rightarrow> feed_event list res" where
  "assistant_event ts block =
     (if jget block ''type'' = JStr ''text'' then Inr (feed_emit ts ''say'' (jget block ''text''))
      else if jget block ''type'' = JStr ''tool_use'' then
        (let inp = jobj (jget block ''input''); name = jget block ''name'' in
         if name = JStr ''Bash'' then Inr (feed_emit ts ''tool'' (jget inp ''command''))
         else
           bind_res (in_names name WRITE_TOOLS) (\<lambda>writes.
             if writes then Inr (feed_emit ts ''write'' (jget inp ''file_path''))
             else
               bind_res (in_names name AGENT_TOOLS) (\<lambda>agent.
                 Inr (if agent then feed_emit ts ''agent'' (if dtrue inp ''subagent_type'' then jget inp ''subagent_type'' else jget inp ''description'')
                      else []))))
      else Inr [])"

definition user_event :: "jval \<Rightarrow> obj \<Rightarrow> feed_event list" where
  "user_event ts block = (if jget block ''type'' = JStr ''tool_result'' then feed_emit ts ''result'' (JStr (result_text block)) else [])"

definition record_events :: "jval \<Rightarrow> feed_event list res" where
  "record_events rec = (case rec of
     JObj r \<Rightarrow>
       (let ts = jget r ''timestamp''; message = jobj (jget r ''message'') in
        if jget r ''type'' = JStr ''assistant'' then
          bind_res (map_res (assistant_event ts) (content_blocks message)) (\<lambda>evs. Inr (concat evs))
        else if jget r ''type'' = JStr ''user'' then Inr (concat (map (user_event ts) (content_blocks message)))
        else Inr [])
   | _ \<Rightarrow> Inr [])"

section \<open>Which transcript\<close>

text \<open>A transcript of a directory: its name without \<open>.jsonl\<close>, its age in seconds, its bytes if they can be read.\<close>

record tfile =
  tf_sid :: string
  tf_age :: rat
  tf_bytes :: "string option"

definition char_between :: "char \<Rightarrow> char \<Rightarrow> char \<Rightarrow> bool" where
  "char_between lo hi c \<longleftrightarrow> lo \<le> c \<and> c \<le> hi"

definition is_ascii_alnum :: "char \<Rightarrow> bool" where
  "is_ascii_alnum c \<longleftrightarrow> is_digit c \<or> char_between (CHR ''a'') (CHR ''z'') c \<or> char_between (CHR ''A'') (CHR ''Z'') c"

text \<open>A character outside ASCII becomes one dash, so the continuation bytes of its encoding become nothing.\<close>

definition encode_project_dir :: "string \<Rightarrow> string" where
  "encode_project_dir cwd = map (\<lambda>c. if is_ascii_alnum c \<or> c = CHR ''-'' then c else CHR ''-'') (filter (\<lambda>c. \<not> is_cont c) cwd)"

definition IDENTITY_SCAN_LINES :: nat where "IDENTITY_SCAN_LINES = 200"
definition SESSION_FRESH_SECONDS :: rat where "SESSION_FRESH_SECONDS = 300"

text \<open>
  The first record with a \<open>cwd\<close>, and whether it is of a sidechain. The file is read as text with the
  undecodable bytes replaced: \<open>texts\<close> is \<open>json.loads\<close> of such a line, \<open>None\<close> for a \<open>JSONDecodeError\<close>. A
  record that is no object has no \<open>get\<close>.
\<close>

fun identity_of :: "(string \<Rightarrow> jval option) \<Rightarrow> string list \<Rightarrow> (jval \<times> bool) res" where
  "identity_of texts [] = Inr (JNull, False)"
| "identity_of texts (line # rest) =
     (case texts line of
        Some (JObj r) \<Rightarrow> if dtrue r ''cwd'' then Inr (jget r ''cwd'', dtrue r ''isSidechain'') else identity_of texts rest
      | Some _ \<Rightarrow> Inl AttributeError
      | None \<Rightarrow> identity_of texts rest)"

definition confirms :: "(string \<Rightarrow> jval option) \<Rightarrow> string \<Rightarrow> tfile \<Rightarrow> bool res" where
  "confirms texts cwd f =
     (case tf_bytes f of
        None \<Rightarrow> Inr False
      | Some b \<Rightarrow>
          bind_res (identity_of texts (take IDENTITY_SCAN_LINES (split_on newline b))) (\<lambda>(file_cwd, side).
            Inr (file_cwd = JStr cwd \<and> \<not> side)))"

fun first_confirmed :: "(string \<Rightarrow> jval option) \<Rightarrow> string \<Rightarrow> tfile list \<Rightarrow> tfile option res" where
  "first_confirmed texts cwd [] = Inr None"
| "first_confirmed texts cwd (f # fs) =
     bind_res (confirms texts cwd f) (\<lambda>yes. if yes then Inr (Some f) else first_confirmed texts cwd fs)"

text \<open>Newest first; of equally old ones the one with the greater name.\<close>

fun newer :: "tfile \<Rightarrow> tfile \<Rightarrow> bool" where
  "newer f g \<longleftrightarrow> tf_age f < tf_age g \<or> tf_age f = tf_age g \<and> lexordp (<) (tf_sid g) (tf_sid f)"

fun insert_newest :: "tfile \<Rightarrow> tfile list \<Rightarrow> tfile list" where
  "insert_newest f [] = [f]"
| "insert_newest f (g # gs) = (if newer g f then g # insert_newest f gs else f # g # gs)"

definition newest_first :: "tfile list \<Rightarrow> tfile list" where
  "newest_first fs = foldr insert_newest fs []"

text \<open>
  \<open>fv_dirs\<close>: the transcripts by encoded directory; \<open>fv_entries\<close> and \<open>fv_stores\<close>: the registry and the
  stores of its projects; \<open>fv_resolve\<close>: \<open>Path.resolve\<close>.
\<close>

record feed_view =
  fv_dirs :: "string \<Rightarrow> tfile list"
  fv_entries :: "plan_entry list"
  fv_stores :: stores
  fv_resolve :: "string \<Rightarrow> string"
  fv_loads :: "string \<Rightarrow> loaded"
  fv_texts :: "string \<Rightarrow> jval option"

definition locate_transcript :: "feed_view \<Rightarrow> string \<Rightarrow> jval \<Rightarrow> tfile option res" where
  "locate_transcript fv cwd session_id =
     (let fs = fv_dirs fv (encode_project_dir cwd);
          fallback = first_confirmed (fv_texts fv) cwd (newest_first fs)
      in (case session_id of
            JStr sid \<Rightarrow>
              if sid = [] then fallback
              else (case find (\<lambda>f. tf_sid f = sid) fs of
                      None \<Rightarrow> fallback
                    | Some f \<Rightarrow> bind_res (confirms (fv_texts fv) cwd f) (\<lambda>yes. if yes then Inr (Some f) else fallback))
          | _ \<Rightarrow> fallback))"

definition matches_project_filter :: "feed_view \<Rightarrow> string \<Rightarrow> string option \<Rightarrow> bool" where
  "matches_project_filter fv dir project_filter =
     (case project_filter of None \<Rightarrow> True | Some p \<Rightarrow> fv_resolve fv dir = fv_resolve fv p)"

definition project_entries :: "feed_view \<Rightarrow> string \<Rightarrow> string option \<Rightarrow> plan_entry list" where
  "project_entries fv proj project_filter =
     filter (\<lambda>e. last_component (pe_root e) = proj \<and> matches_project_filter fv (pe_root e) project_filter) (fv_entries fv)"

text \<open>The directory a live claim works in.\<close>

definition claim_cwd :: "plan_entry \<Rightarrow> doc \<Rightarrow> string" where
  "claim_cwd e d = (case worktree_record d of
     Some (JObj wt) \<Rightarrow> if dtrue wt ''path'' then sget wt ''path'' else pe_root e
   | _ \<Rightarrow> pe_root e)"

definition on_phase :: "doc \<Rightarrow> string \<Rightarrow> obj option" where
  "on_phase d phase = (case d_claim d of
     Some c \<Rightarrow> if c \<noteq> [] \<and> jget c ''phase_id'' = JStr phase then Some c else None
   | None \<Rightarrow> None)"

fun resolve_entries :: "feed_view \<Rightarrow> string \<Rightarrow> plan_entry list \<Rightarrow> tfile option res" where
  "resolve_entries fv phase [] = Inr None"
| "resolve_entries fv phase (e # es) =
     (case load_entry_state (fv_stores fv) e of
        None \<Rightarrow> resolve_entries fv phase es
      | Some d \<Rightarrow>
          (case on_phase d phase of
             None \<Rightarrow> resolve_entries fv phase es
           | Some c \<Rightarrow>
               bind_res (locate_transcript fv (claim_cwd e d) (jget c ''session_id'')) (\<lambda>t.
                 case t of None \<Rightarrow> resolve_entries fv phase es | Some f \<Rightarrow> Inr (Some f))))"

definition resolve_feed_transcript :: "feed_view \<Rightarrow> string \<Rightarrow> string \<Rightarrow> string \<Rightarrow> string option \<Rightarrow> tfile option res" where
  "resolve_feed_transcript fv plan proj phase project_filter =
     resolve_entries fv phase (filter (\<lambda>e. pe_slug e = plan) (project_entries fv proj project_filter))"

fun resolve_roots :: "feed_view \<Rightarrow> string \<Rightarrow> string list \<Rightarrow> tfile option res" where
  "resolve_roots fv sid [] = Inr None"
| "resolve_roots fv sid (r # rs) =
     (case find (\<lambda>f. tf_sid f = sid) (fv_dirs fv (encode_project_dir r)) of
        None \<Rightarrow> resolve_roots fv sid rs
      | Some f \<Rightarrow>
          if tf_age f < SESSION_FRESH_SECONDS
          then bind_res (confirms (fv_texts fv) r f) (\<lambda>yes. if yes then Inr (Some f) else resolve_roots fv sid rs)
          else resolve_roots fv sid rs)"

definition session_roots :: "feed_view \<Rightarrow> string \<Rightarrow> string option \<Rightarrow> string list \<Rightarrow> string list" where
  "session_roots fv proj project_filter session_dirs =
     map pe_root (project_entries fv proj project_filter)
     @ filter (\<lambda>d. last_component d = proj \<and> matches_project_filter fv d project_filter) session_dirs"

definition resolve_session_transcript :: "feed_view \<Rightarrow> string \<Rightarrow> string \<Rightarrow> string option \<Rightarrow> string list \<Rightarrow> tfile option res" where
  "resolve_session_transcript fv proj sid project_filter session_dirs =
     resolve_roots fv sid (session_roots fv proj project_filter session_dirs)"

section \<open>One request\<close>

type_synonym http_query = "(string \<times> string list) list"

datatype feed_answer = FeedOk "feed_event list" int string bool | BadRequest | NoSuchFeed

definition query_first :: "http_query \<Rightarrow> string \<Rightarrow> string \<Rightarrow> string" where
  "query_first q k dflt = (case map_of q k of Some (v # _) \<Rightarrow> v | _ \<Rightarrow> dflt)"

definition feed_resolved :: "feed_view \<Rightarrow> http_query \<Rightarrow> string option \<Rightarrow> string list \<Rightarrow> tfile option option res" where
  "feed_resolved fv q project_filter session_dirs =
     (let proj = query_first q ''proj'' []; sid = query_first q ''sid'' [];
          plan = query_first q ''plan'' []; phase = query_first q ''phase'' [] in
      if sid \<noteq> [] then
        (if \<not> slug_re_match sid then Inr None
         else bind_res (resolve_session_transcript fv proj sid project_filter session_dirs) (\<lambda>t. Inr (Some t)))
      else if \<not> slug_re_match plan \<or> \<not> slug_re_match phase then Inr None
      else bind_res (resolve_feed_transcript fv plan proj phase project_filter) (\<lambda>t. Inr (Some t)))"

definition feed_json :: "feed_view \<Rightarrow> http_query \<Rightarrow> string option \<Rightarrow> string list \<Rightarrow> feed_answer res" where
  "feed_json fv q project_filter session_dirs =
     (case int_of_text (query_first q ''cursor'' ''-1'') of
        None \<Rightarrow> Inr BadRequest
      | Some cursor \<Rightarrow>
          bind_res (feed_resolved fv q project_filter session_dirs) (\<lambda>t.
            case t of
              None \<Rightarrow> Inr BadRequest
            | Some None \<Rightarrow> Inr NoSuchFeed
            | Some (Some f) \<Rightarrow>
                (let tid = query_first q ''tid'' [];
                     reset = (tid \<noteq> [] \<and> tid \<noteq> tf_sid f)
                 in (case tf_bytes f of
                       None \<Rightarrow> Inr NoSuchFeed
                     | Some b \<Rightarrow>
                         bind_res (read_feed_window (fv_loads fv) b (if reset then -1 else cursor)) (\<lambda>(records, cur, shrank).
                         bind_res (map_res record_events records) (\<lambda>evs.
                           Inr (FeedOk (concat evs) cur (tf_sid f) (reset \<or> shrank))))))))"

end
