(* ===== verification/Web_Feed_Props.thy ===== *)
theory Web_Feed_Props
  imports Web_Feed
begin

text \<open>
  What the feed of the dashboard delivers: over the polls of a growing transcript every complete line once
  and in order, and only from a transcript that is confirmed to be the asked one.
\<close>

section \<open>Lines\<close>

lemma split_on_concat: "split_on c (x @ c # y) = split_on c x @ split_on c y"
proof (induction x)
  case (Cons a x)
  then show ?case
    by (cases "split_on c x") auto
qed simp

lemma read_records_append:
  "read_records loads (xs @ ys) =
     bind_res (read_records loads xs) (\<lambda>vs. bind_res (read_records loads ys) (\<lambda>ws. Inr (vs @ ws)))"
  by (induction loads xs rule: read_records.induct)
    (auto simp: Let_def bind_res_def split: loaded.splits sum.splits)

lemma strip_no_bytes [simp]: "strip_bytes [] = []"
  by (simp add: strip_bytes_def)

lemma read_no_bytes [simp]: "read_records loads [[]] = Inr []"
  by simp

text \<open>A part of a file that is empty or ends with a line feed.\<close>

definition whole_lines :: "string \<Rightarrow> bool" where
  "whole_lines s \<longleftrightarrow> s = [] \<or> last s = newline"

definition records_of :: "(string \<Rightarrow> loaded) \<Rightarrow> string \<Rightarrow> jval list res" where
  "records_of loads s = read_records loads (split_on newline s)"

lemma records_of_Nil [simp]: "records_of loads [] = Inr []"
  by (simp add: records_of_def)

lemma records_of_append:
  assumes "whole_lines s"
  shows "records_of loads (s @ t) = bind_res (records_of loads s) (\<lambda>vs. bind_res (records_of loads t) (\<lambda>ws. Inr (vs @ ws)))"
proof (cases "s = []")
  case True
  then show ?thesis
    by (auto simp: records_of_def bind_res_def split: sum.splits)
next
  case False
  then obtain a where s: "s = a @ [newline]"
    using assms by (metis append_butlast_last_id whole_lines_def)
  show ?thesis
    using split_on_concat[of newline a t] split_on_concat[of newline a "[]"]
    by (simp add: records_of_def s read_records_append bind_res_def split: sum.splits)
qed

lemma whole_append: "whole_lines s \<Longrightarrow> whole_lines t \<Longrightarrow> whole_lines (s @ t)"
  by (cases "t = []") (auto simp: whole_lines_def)

lemma upto_split: "b = take (upto_last_newline b) b @ rev (takeWhile (\<lambda>c. c \<noteq> newline) (rev b))"
  and upto_take: "take (upto_last_newline b) b = rev (dropWhile (\<lambda>c. c \<noteq> newline) (rev b))"
proof -
  let ?d = "rev (dropWhile (\<lambda>c. c \<noteq> newline) (rev b))" and ?t = "rev (takeWhile (\<lambda>c. c \<noteq> newline) (rev b))"
  have b: "b = ?d @ ?t"
    by (metis rev_append rev_rev_ident takeWhile_dropWhile_id)
  then have "take (length ?d) b = ?d"
    by (metis append_eq_conv_conj)
  then show "b = take (upto_last_newline b) b @ ?t" "take (upto_last_newline b) b = ?d"
    using b by (simp_all add: upto_last_newline_def)
qed

lemma upto_le: "upto_last_newline b \<le> length b"
  by (metis length_append le_add1 length_take min_def nat_le_linear upto_split upto_last_newline_def upto_take)

lemma upto_whole: "whole_lines (take (upto_last_newline b) b)"
proof (cases "dropWhile (\<lambda>c. c \<noteq> newline) (rev b) = []")
  case False
  then show ?thesis
    using hd_dropWhile[OF False] by (simp add: upto_take whole_lines_def last_rev)
qed (simp add: upto_take whole_lines_def)

lemma upto_0: "upto_last_newline b = 0 \<longleftrightarrow> newline \<notin> set b"
  by (auto simp: upto_last_newline_def dropWhile_eq_Nil_conv)

text \<open>Of a longer buffer more lines are complete.\<close>

lemma upto_longer: "\<exists>m. take (upto_last_newline (b @ t)) (b @ t) = take (upto_last_newline b) b @ m"
proof -
  let ?P = "\<lambda>c. c \<noteq> newline"
  have "dropWhile ?P (rev t @ rev b) = (if newline \<in> set t then dropWhile ?P (rev t) @ rev b else dropWhile ?P (rev b))"
    using dropWhile_append2[of "rev t" ?P "rev b"] by (auto simp: dropWhile_append1)
  then show ?thesis
    unfolding upto_take
    by (auto simp: rev_append) (metis rev_append rev_rev_ident takeWhile_dropWhile_id append.assoc)
qed

section \<open>One poll\<close>

abbreviation window :: "string \<Rightarrow> nat \<Rightarrow> string" where
  "window c cur \<equiv> take FEED_READ_CAP (drop cur c)"

abbreviation complete_part :: "string \<Rightarrow> nat \<Rightarrow> string" where
  "complete_part c cur \<equiv> take (upto_last_newline (window c cur)) (window c cur)"

lemma poll_inside:
  assumes "cur \<le> length c"
  shows "read_feed_window loads c (int cur) =
    bind_res (records_of loads (complete_part c cur)) (\<lambda>vs. Inr (vs, int (cur + upto_last_newline (window c cur)), False))"
  using assms by (cases "upto_last_newline (window c cur)")
    (simp_all add: read_feed_window_def Let_def records_of_def algebra_simps)

lemma complete_is_part: "take (cur + upto_last_newline (window c cur)) c = take cur c @ complete_part c cur"
proof -
  have "take (upto_last_newline (window c cur)) (window c cur) = take (upto_last_newline (window c cur)) (drop cur c)"
    using upto_le[of "window c cur"] by (simp add: min_absorb1)
  then show ?thesis
    by (simp add: take_add)
qed

section \<open>A client's polls\<close>

text \<open>Each poll reads the file as it is then; the client keeps the cursor.\<close>

fun polls :: "(string \<Rightarrow> loaded) \<Rightarrow> string list \<Rightarrow> int \<Rightarrow> (jval list \<times> int) res" where
  "polls loads [] cur = Inr ([], cur)"
| "polls loads (c # cs) cur =
     bind_res (read_feed_window loads c cur) (\<lambda>(vs, cur', reset).
       bind_res (polls loads cs cur') (\<lambda>(ws, final). Inr (vs @ ws, final)))"

fun grows :: "string \<Rightarrow> string list \<Rightarrow> bool" where
  "grows s [] \<longleftrightarrow> True"
| "grows s (c # cs) \<longleftrightarrow> take (length s) c = s \<and> grows c cs"

lemma grows_longer: "grows s cs \<Longrightarrow> \<exists>t. last (s # cs) = s @ t"
proof (induction s cs rule: grows.induct)
  case (2 s c cs)
  then obtain t where "last (c # cs) = c @ t"
    by auto
  moreover have "c = s @ drop (length s) c"
    using 2(2) by (metis append_take_drop_id grows.simps(2))
  ultimately show ?case
    by (metis append.assoc last.simps list.distinct(1))
qed simp

text \<open>The bytes between two cursors.\<close>

definition span_of :: "string \<Rightarrow> int \<Rightarrow> int \<Rightarrow> string" where
  "span_of s i j = drop (nat i) (take (nat j) s)"

lemma span_of_append: "j \<le> int (length s) \<Longrightarrow> span_of (s @ t) i j = span_of s i j"
  by (simp add: span_of_def)

lemma span_of_join:
  assumes "0 \<le> i" "i \<le> j" "j \<le> k" "k \<le> int (length s)"
  shows "span_of s i k = span_of s i j @ span_of s j k"
proof -
  have "take (nat k) s = take (nat j) s @ drop (nat j) (take (nat k) s)"
    using assms by (metis append_take_drop_id min_absorb1 nat_mono take_take)
  then have "drop (nat i) (take (nat k) s) = drop (nat i) (take (nat j) s @ drop (nat j) (take (nat k) s))"
    by metis
  then show ?thesis
    using assms by (simp add: span_of_def)
qed

lemma poll_span:
  assumes "0 \<le> cur" "cur \<le> int (length c)" "read_feed_window loads c cur = Inr (vs, cur', reset)"
  shows "cur \<le> cur'" "cur' \<le> int (length c)" "records_of loads (span_of c cur cur') = Inr vs"
    "whole_lines (span_of c cur cur')" "\<not> reset"
proof -
  let ?n = "nat cur" and ?b = "window c (nat cur)"
  have r: "read_feed_window loads c (int ?n) = Inr (vs, cur', reset)" and n: "?n \<le> length c"
    using assms by simp_all
  from r have run: "records_of loads (complete_part c ?n) = Inr vs" and cur': "cur' = int (?n + upto_last_newline ?b)" and "\<not> reset"
    unfolding poll_inside[OF n] by (simp_all add: bind_res_def split: sum.splits del: take_take int_nat_eq)
  have "length ?b \<le> length c - ?n"
    by simp
  then have bound: "?n + upto_last_newline ?b \<le> length c"
    using upto_le[of ?b] n by linarith
  have "span_of c cur cur' = complete_part c ?n"
    unfolding span_of_def cur' nat_int complete_is_part using n by (simp del: take_take)
  then show "records_of loads (span_of c cur cur') = Inr vs" "whole_lines (span_of c cur cur')"
    using run upto_whole[of ?b] by (simp_all del: take_take)
  show "cur \<le> cur'" "cur' \<le> int (length c)" "\<not> reset"
    using bound assms(1) \<open>\<not> reset\<close> cur' by simp_all
qed

text \<open>
  C37 C1. The polls of a transcript that is only appended to deliver the records of exactly the bytes between
  the client's first and last cursor, each once and in order, and those bytes are whole lines: no line
  is dropped, delivered twice, or delivered before its end is written.
\<close>

theorem feed_exactly_once:
  assumes "grows s cs" "0 \<le> cur" "cur \<le> int (length s)" "polls loads cs cur = Inr (vs, final)"
  shows "cur \<le> final \<and> final \<le> int (length (last (s # cs)))
    \<and> records_of loads (span_of (last (s # cs)) cur final) = Inr vs
    \<and> whole_lines (span_of (last (s # cs)) cur final)"
  using assms
proof (induction cs arbitrary: s cur vs)
  case Nil
  then show ?case
    by (simp add: span_of_def whole_lines_def)
next
  case (Cons c cs)
  from Cons.prems(4) obtain us mid reset ws where
    first: "read_feed_window loads c cur = Inr (us, mid, reset)" and rest: "polls loads cs mid = Inr (ws, final)"
    and vs: "vs = us @ ws"
    by (auto simp: bind_res_def split: sum.splits)
  have "length s \<le> length c"
    using Cons.prems(1) by (metis grows.simps(2) length_take min.cobounded1)
  then have "cur \<le> int (length c)"
    using Cons.prems(3) by linarith
  note one = poll_span[OF Cons.prems(2) this first]
  have "grows c cs" "0 \<le> mid"
    using Cons.prems(1,2) one(1) by simp_all
  note later = Cons.IH[OF this one(2) rest]
  obtain t where t: "last (c # cs) = c @ t"
    using grows_longer[OF \<open>grows c cs\<close>] by blast
  have cut: "span_of (last (c # cs)) cur final = span_of c cur mid @ span_of (last (c # cs)) mid final"
    using span_of_join[of cur mid final "last (c # cs)"] later one(1,2) Cons.prems(2)
      span_of_append[OF one(2), of t cur] unfolding t by simp
  have "records_of loads (span_of (last (c # cs)) cur final) = Inr vs"
    unfolding cut records_of_append[OF one(4)] using one(3) later by (simp add: vs)
  moreover have "whole_lines (span_of (last (c # cs)) cur final)"
    unfolding cut using whole_append[OF one(4)] later by blast
  ultimately show ?case
    using later one(1) by auto
qed

section \<open>A feed that stands still\<close>

text \<open>A line longer than a poll reads.\<close>

definition long_line :: "string \<Rightarrow> nat \<Rightarrow> bool" where
  "long_line s cur \<longleftrightarrow> cur + FEED_READ_CAP \<le> length s \<and> newline \<notin> set (window s cur)"

text \<open>A complete line that is no UTF-8.\<close>

definition undecodable :: "(string \<Rightarrow> loaded) \<Rightarrow> string \<Rightarrow> nat \<Rightarrow> bool" where
  "undecodable loads s cur \<longleftrightarrow>
     list_ex (\<lambda>l. strip_bytes l \<noteq> [] \<and> loads (strip_bytes l) = BadText) (split_on newline (complete_part s cur))"

lemma read_undecodable:
  "list_ex (\<lambda>l. strip_bytes l \<noteq> [] \<and> loads (strip_bytes l) = BadText) ls
    \<longleftrightarrow> read_records loads ls = Inl UnicodeDecodeError"
  by (induction loads ls rule: read_records.induct)
    (auto simp: Let_def bind_res_def split: loaded.splits sum.splits)

lemma window_grows:
  assumes "take (length s) c = s" "cur \<le> length s"
  shows "\<exists>t. window c cur = window s cur @ t"
proof -
  have "drop cur c = drop cur s @ drop (length s) c"
    using assms by (metis append_take_drop_id drop_append diff_is_0_eq drop0)
  then show ?thesis
    by (simp add: take_append)
qed

lemma undecodable_grows:
  assumes "take (length s) c = s" "cur \<le> length s" "undecodable loads s cur"
  shows "undecodable loads c cur"
proof -
  obtain t where t: "window c cur = window s cur @ t"
    using window_grows[OF assms(1,2)] by blast
  obtain m where m: "complete_part c cur = complete_part s cur @ m"
    using upto_longer[of "window s cur" t] unfolding t by blast
  have "records_of loads (complete_part s cur) = Inl UnicodeDecodeError"
    using assms(3) unfolding undecodable_def read_undecodable records_of_def .
  then have "records_of loads (complete_part c cur) = Inl UnicodeDecodeError"
    unfolding m records_of_append[OF upto_whole] by simp
  then show ?thesis
    unfolding undecodable_def read_undecodable records_of_def .
qed

lemma long_line_grows:
  assumes "take (length s) c = s" "long_line s cur"
  shows "long_line c cur"
proof -
  have len: "length s \<le> length c"
    using assms(1) by (metis length_take min.cobounded1)
  have "drop cur c = drop cur s @ drop (length s) c"
    using assms by (metis append_take_drop_id drop_append diff_is_0_eq drop0 long_line_def add_leE)
  then have "window c cur = window s cur"
    using assms(2) by (simp add: long_line_def)
  then show ?thesis
    using assms(2) len by (simp add: long_line_def)
qed

text \<open>
  C1. A line longer than one poll reads, or a complete line that is not UTF-8, stops the feed for good:
  from there on no poll of the growing file delivers anything or moves the cursor, with the long line
  because no line feed is in sight, with the other because every poll raises.
\<close>

theorem feed_wedged:
  assumes "grows s cs" "cs \<noteq> []" "cur \<le> length s" "long_line s cur \<or> undecodable loads s cur"
  shows "polls loads cs (int cur) =
    (if long_line s cur then Inr ([], int cur) else Inl UnicodeDecodeError)"
  using assms
proof (induction cs arbitrary: s)
  case (Cons c cs)
  have pre: "take (length s) c = s" and rest: "grows c cs"
    using Cons.prems(1) by simp_all
  have len: "cur \<le> length c"
    using Cons.prems(3) pre by (metis length_take min.cobounded1 order_trans)
  show ?case
  proof (cases "long_line s cur")
    case True
    then have long: "long_line c cur"
      by (rule long_line_grows[OF pre])
    then have "upto_last_newline (window c cur) = 0"
      by (simp add: upto_0 long_line_def)
    then have "read_feed_window loads c (int cur) = Inr ([], int cur, False)"
      unfolding poll_inside[OF len] by simp
    moreover have "polls loads cs (int cur) = Inr ([], int cur)"
      using Cons.IH[OF rest _ len] long by (cases cs) auto
    ultimately show ?thesis
      using True by simp
  next
    case False
    then have "undecodable loads c cur"
      using Cons.prems(4) undecodable_grows[OF pre Cons.prems(3)] by blast
    then have "records_of loads (complete_part c cur) = Inl UnicodeDecodeError"
      unfolding undecodable_def read_undecodable records_of_def .
    then show ?thesis
      using False by (simp add: poll_inside[OF len])
  qed
qed simp

section \<open>Which transcript is served\<close>

lemma first_confirmed_sound: "first_confirmed texts cwd fs = Inr (Some f) \<Longrightarrow> f \<in> set fs \<and> confirms texts cwd f = Inr True"
  by (induction texts cwd fs rule: first_confirmed.induct) (auto simp: bind_res_def split: sum.splits if_splits)

lemma set_insert_newest: "set (insert_newest f gs) = insert f (set gs)"
  by (induction gs) auto

lemma set_newest_first [simp]: "set (newest_first fs) = set fs"
  by (induction fs) (simp_all add: newest_first_def set_insert_newest)

text \<open>A transcript of the directory whose records say so.\<close>

definition confirmed_in :: "feed_view \<Rightarrow> string \<Rightarrow> tfile \<Rightarrow> bool" where
  "confirmed_in fv cwd f \<longleftrightarrow> f \<in> set (fv_dirs fv (encode_project_dir cwd)) \<and> confirms (fv_texts fv) cwd f = Inr True"

lemma find_in: "find P xs = Some x \<Longrightarrow> x \<in> set xs \<and> P x"
  by (auto simp: find_Some_iff)

lemma locate_sound: "locate_transcript fv cwd sid = Inr (Some f) \<Longrightarrow> confirmed_in fv cwd f"
  by (auto simp: locate_transcript_def Let_def confirmed_in_def bind_res_def
      dest!: first_confirmed_sound find_in split: jval.splits option.splits sum.splits if_splits)

lemma resolve_entries_sound:
  "resolve_entries fv phase es = Inr (Some f) \<Longrightarrow>
    \<exists>e\<in>set es. \<exists>d c. load_entry_state (fv_stores fv) e = Some d \<and> on_phase d phase = Some c \<and> confirmed_in fv (claim_cwd e d) f"
  by (induction fv phase es rule: resolve_entries.induct)
    (auto simp: bind_res_def dest!: locate_sound split: option.splits sum.splits)

lemma resolve_roots_sound:
  "resolve_roots fv sid rs = Inr (Some f) \<Longrightarrow>
    \<exists>r\<in>set rs. tf_sid f = sid \<and> tf_age f < SESSION_FRESH_SECONDS \<and> confirmed_in fv r f"
  by (induction fv sid rs rule: resolve_roots.induct)
    (auto simp: bind_res_def confirmed_in_def dest!: find_in split: option.splits sum.splits if_splits)

text \<open>What a request may be given: by session id, or by plan and phase.\<close>

definition serves_session :: "feed_view \<Rightarrow> http_query \<Rightarrow> string option \<Rightarrow> string list \<Rightarrow> tfile \<Rightarrow> bool" where
  "serves_session fv q filt dirs f \<longleftrightarrow>
     tf_sid f = query_first q ''sid'' [] \<and> slug_re_match (tf_sid f) \<and> tf_age f < SESSION_FRESH_SECONDS
     \<and> list_ex (\<lambda>r. last_component r = query_first q ''proj'' [] \<and> matches_project_filter fv r filt \<and> confirmed_in fv r f)
         (map pe_root (fv_entries fv) @ dirs)"

definition serves_claim :: "feed_view \<Rightarrow> http_query \<Rightarrow> string option \<Rightarrow> tfile \<Rightarrow> bool" where
  "serves_claim fv q filt f \<longleftrightarrow>
     list_ex (\<lambda>e. pe_slug e = query_first q ''plan'' [] \<and> last_component (pe_root e) = query_first q ''proj'' []
         \<and> matches_project_filter fv (pe_root e) filt
         \<and> (case load_entry_state (fv_stores fv) e of
              None \<Rightarrow> False
            | Some d \<Rightarrow> on_phase d (query_first q ''phase'' []) \<noteq> None \<and> confirmed_in fv (claim_cwd e d) f))
       (fv_entries fv)"

lemma session_resolved:
  assumes "resolve_session_transcript fv (query_first q ''proj'' []) (query_first q ''sid'' []) filt dirs = Inr (Some f)"
    "slug_re_match (query_first q ''sid'' [])"
  shows "serves_session fv q filt dirs f"
  using resolve_roots_sound[OF assms(1)[unfolded resolve_session_transcript_def]] assms(2)
  by (force simp: serves_session_def session_roots_def project_entries_def list_ex_iff)

lemma claim_resolved:
  assumes "resolve_feed_transcript fv (query_first q ''plan'' []) (query_first q ''proj'' []) (query_first q ''phase'' []) filt = Inr (Some f)"
  shows "serves_claim fv q filt f"
  using resolve_entries_sound[OF assms[unfolded resolve_feed_transcript_def]]
  by (fastforce simp: serves_claim_def project_entries_def list_ex_iff)

text \<open>
  C1. Events are served only out of a transcript of the project asked for, inside the \<open>--project\<close> filter,
  whose own records name the directory: with \<open>sid\<close> the fresh transcript of exactly that session, else
  the transcript of the directory in which a live claim of the plan works on the phase; the answer
  names it.
\<close>

theorem feed_serves_asked:
  assumes "feed_json fv q filt dirs = Inr (FeedOk evs cur tid reset)"
  shows "\<exists>f. tf_sid f = tid \<and>
    (if query_first q ''sid'' [] \<noteq> [] then serves_session fv q filt dirs f else serves_claim fv q filt f)"
proof -
  from assms obtain f where f: "feed_resolved fv q filt dirs = Inr (Some (Some f))" and "tf_sid f = tid"
    by (auto simp: feed_json_def Let_def bind_res_def split: option.splits sum.splits)
  moreover have "if query_first q ''sid'' [] \<noteq> [] then serves_session fv q filt dirs f else serves_claim fv q filt f"
    using f by (auto simp: feed_resolved_def Let_def bind_res_def split: if_splits sum.splits
        intro: session_resolved claim_resolved)
  ultimately show ?thesis
    by blast
qed

end
