(* ===== verification/Top_Rows.thy ===== *)
theory Top_Rows
  imports Web_Feed
begin

text \<open>
  The rows of the dashboard (\<open>top.py\<close>): the tail of a transcript, the last activity in it, and one row per
  running or blocked plan and per fresh session of the scanned directories. A row is a dictionary; ages
  are in seconds.
\<close>

section \<open>The tail of a transcript\<close>

definition TAIL_CHUNK :: nat where "TAIL_CHUNK = 64 * 1024"
definition TAIL_WANT :: nat where "TAIL_WANT = 60"

text \<open>Where the part that is read begins: chunk by chunk from the end until it holds more line feeds than wanted.\<close>

function tail_start :: "string \<Rightarrow> nat \<Rightarrow> nat" where
  "tail_start content pos =
     (if pos = 0 \<or> TAIL_WANT < count_list (drop pos content) newline then pos
      else tail_start content (pos - TAIL_CHUNK))"
  by pat_completeness auto

termination
  by (relation "measure snd") (auto simp: TAIL_CHUNK_def)

definition tail_lines :: "string \<Rightarrow> string list" where
  "tail_lines content =
     (let pos = tail_start content (length content); lines = split_on newline (drop pos content) in
      if pos > 0 then tl lines else lines)"

definition last_of :: "nat \<Rightarrow> 'a list \<Rightarrow> 'a list" where
  "last_of n xs = drop (length xs - n) xs"

definition tail_records :: "(string \<Rightarrow> loaded) \<Rightarrow> string option \<Rightarrow> jval list res" where
  "tail_records loads bytes = (case bytes of
     None \<Rightarrow> Inr []
   | Some content \<Rightarrow> bind_res (read_records loads (tail_lines content)) (\<lambda>rs. Inr (last_of TAIL_WANT rs)))"

section \<open>The last activity\<close>

record activity =
  av_command :: jval
  av_write :: jval
  av_write_ts :: jval
  av_text :: jval
  av_ts :: jval
  av_tokens :: jval
  av_bash :: jval
  av_results :: "jval list"

definition no_activity :: activity where
  "no_activity = \<lparr>av_command = JNull, av_write = JNull, av_write_ts = JNull, av_text = JNull, av_ts = JNull,
     av_tokens = JNull, av_bash = JNull, av_results = []\<rparr>"

definition assistant_block :: "jval \<Rightarrow> obj \<Rightarrow> activity \<Rightarrow> activity res" where
  "assistant_block ts block a =
     (let btype = jget block ''type''; tx = jget block ''text''; name = jget block ''name''; inp = jobj (jget block ''input'') in
      if btype = JStr ''text'' \<and> (case tx of JStr _ \<Rightarrow> True | _ \<Rightarrow> False) then Inr (a\<lparr>av_text := tx\<rparr>)
      else if btype = JStr ''tool_use'' then
        (if name = JStr ''Bash'' then Inr (a\<lparr>av_command := jget inp ''command'', av_bash := jget block ''id''\<rparr>)
         else bind_res (in_names name WRITE_TOOLS) (\<lambda>writes.
           Inr (if writes then a\<lparr>av_write := jget inp ''file_path'', av_write_ts := ts\<rparr> else a)))
      else Inr a)"

definition user_block :: "obj \<Rightarrow> activity \<Rightarrow> activity res" where
  "user_block block a =
     (let i = jget block ''tool_use_id'' in
      if jget block ''type'' = JStr ''tool_result'' \<and> truthy i
      then (if hashable i then Inr (a\<lparr>av_results := i # av_results a\<rparr>) else Inl PyTypeError)
      else Inr a)"

fun fold_res :: "('a \<Rightarrow> 'b \<Rightarrow> 'b res) \<Rightarrow> 'a list \<Rightarrow> 'b \<Rightarrow> 'b res" where
  "fold_res f [] b = Inr b"
| "fold_res f (x # xs) b = bind_res (f x b) (fold_res f xs)"

definition see_record :: "jval \<Rightarrow> activity \<Rightarrow> activity res" where
  "see_record rec a = (case rec of
     JObj r \<Rightarrow>
       (let ts = jget r ''timestamp''; a1 = (if truthy ts then a\<lparr>av_ts := ts\<rparr> else a); message = jobj (jget r ''message'') in
        if jget r ''type'' = JStr ''assistant'' then
          fold_res (assistant_block ts) (content_blocks message)
            (case jget message ''usage'' of JObj u \<Rightarrow> a1\<lparr>av_tokens := JObj u\<rparr> | _ \<Rightarrow> a1)
        else if jget r ''type'' = JStr ''user'' then fold_res user_block (content_blocks message) a1
        else Inr a1)
   | _ \<Rightarrow> Inr a)"

definition extract_activity :: "jval list \<Rightarrow> activity res" where
  "extract_activity records = fold_res see_record records no_activity"

text \<open>\<open>last_bash_id not in result_ids\<close>\<close>

definition command_running :: "activity \<Rightarrow> bool res" where
  "command_running a =
     (if av_bash a = JNull then Inr False
      else if hashable (av_bash a) then Inr (av_bash a \<notin> set (av_results a))
      else Inl PyTypeError)"

section \<open>Rows\<close>

text \<open>
  \<open>tv_iso\<close>: \<open>parse_iso\<close> of a text in a transcript, \<open>None\<close> where it raises \<open>ValueError\<close> or gives a time without a zone.
\<close>

record top_view =
  tv_feed :: feed_view
  tv_os :: os_view
  tv_now :: int
  tv_iso :: "string \<Rightarrow> int option"

definition secs :: "int \<Rightarrow> jval" where
  "secs t = JFloat (of_int t / of_int usec)"

definition iso_of :: "top_view \<Rightarrow> jval \<Rightarrow> int option res" where
  "iso_of tv ts =
     (if \<not> truthy ts then Inr None
      else case ts of JTime t \<Rightarrow> Inr (Some t) | JStr s \<Rightarrow> Inr (tv_iso tv s) | _ \<Rightarrow> Inl AttributeError)"

definition or_null :: "('a \<Rightarrow> jval) \<Rightarrow> 'a option \<Rightarrow> jval" where
  "or_null f x = (case x of None \<Rightarrow> JNull | Some y \<Rightarrow> f y)"

definition age_seconds :: "top_view \<Rightarrow> jval \<Rightarrow> jval res" where
  "age_seconds tv ts = bind_res (iso_of tv ts) (\<lambda>t. Inr (or_null (\<lambda>t. secs (tv_now tv - t)) t))"

definition remaining_seconds :: "top_view \<Rightarrow> jval \<Rightarrow> jval res" where
  "remaining_seconds tv ts = bind_res (iso_of tv ts) (\<lambda>t. Inr (or_null (\<lambda>t. secs (t - tv_now tv)) t))"

definition base_row :: "top_view \<Rightarrow> activity \<Rightarrow> obj res" where
  "base_row tv a =
     bind_res (command_running a) (\<lambda>running.
     bind_res (age_seconds tv (av_write_ts a)) (\<lambda>write_age.
     bind_res (age_seconds tv (av_ts a)) (\<lambda>age.
       Inr [(''last_command'', av_command a), (''command_running'', JBool running), (''last_write'', av_write a),
            (''last_write_seconds'', write_age), (''last_text'', av_text a), (''last_activity_seconds'', age),
            (''tokens'', av_tokens a)])))"

definition assemble_row :: "top_view \<Rightarrow> obj \<Rightarrow> activity \<Rightarrow> obj res" where
  "assemble_row tv claim a =
     bind_res (age_seconds tv (jget claim ''started_at'')) (\<lambda>ran.
     bind_res (base_row tv a) (\<lambda>base.
     bind_res (remaining_seconds tv (jget claim ''lease_expires'')) (\<lambda>lease.
       Inr ([(''phase_id'', jget claim ''phase_id''), (''ran_seconds'', ran),
             (''heartbeat_age_seconds'', or_null secs (heartbeat_age (tv_now tv) claim)),
             (''alive'', JBool (claim_worker_alive (tv_os tv) claim None))]
            @ base
            @ [(''attempts'', jget claim ''attempts''), (''lease_remaining_seconds'', lease),
               (''stuck'', JBool (jget claim ''stuck_tool_emitted_at'' \<noteq> JNull))]))))"

definition assemble_blocked_row :: "top_view \<Rightarrow> obj \<Rightarrow> obj res" where
  "assemble_blocked_row tv b =
     bind_res (base_row tv no_activity) (\<lambda>base.
     bind_res (age_seconds tv (jget b ''asked_at'')) (\<lambda>asked.
       Inr ([(''phase_id'', jget b ''phase_id''), (''ran_seconds'', JNull), (''heartbeat_age_seconds'', JNull), (''alive'', JBool False)]
            @ base
            @ [(''attempts'', JNull), (''lease_remaining_seconds'', JNull), (''stuck'', JBool False),
               (''blocked'', JBool True), (''blocker_question'', jget b ''question''), (''blocked_seconds'', asked)])))"

definition name_or :: "obj \<Rightarrow> string \<Rightarrow> string \<Rightarrow> jval \<Rightarrow> jval" where
  "name_or r ty k old = (if jget r ''type'' = JStr ty \<and> dtrue r k then jget r k else old)"

fun session_titles :: "jval list \<Rightarrow> jval \<times> jval \<times> jval \<Rightarrow> jval \<times> jval \<times> jval" where
  "session_titles [] t = t"
| "session_titles (v # rest) (custom, ai, prompt) =
     session_titles rest (case v of
         JObj r \<Rightarrow> (name_or r ''custom-title'' ''customTitle'' custom, name_or r ''ai-title'' ''aiTitle'' ai,
                   name_or r ''last-prompt'' ''lastPrompt'' prompt)
       | _ \<Rightarrow> (custom, ai, prompt))"

definition session_name :: "jval list \<Rightarrow> string \<Rightarrow> string \<Rightarrow> jval" where
  "session_name records proj sid =
     (case session_titles records (JNull, JNull, JNull) of (custom, ai, prompt) \<Rightarrow>
        if truthy custom then custom else if truthy ai then ai else if truthy prompt then prompt
        else JStr (proj @ '':'' @ text_take 8 sid))"

definition assemble_session_row :: "top_view \<Rightarrow> string \<Rightarrow> jval \<Rightarrow> activity \<Rightarrow> obj res" where
  "assemble_session_row tv sid name a =
     bind_res (base_row tv a) (\<lambda>base.
       Inr ([(''phase_id'', JNull), (''ran_seconds'', JNull), (''heartbeat_age_seconds'', JNull), (''alive'', JNull)]
            @ base
            @ [(''attempts'', JNull), (''lease_remaining_seconds'', JNull), (''stuck'', JBool False),
               (''max_attempts'', JNull), (''phase_total'', JNull), (''phase_index'', JNull),
               (''session'', JBool True), (''session_name'', name), (''session_id'', JStr sid)]))"

section \<open>The sessions of the scanned directories\<close>

text \<open>The transcripts of live workers: paths as directory and name, and the session ids of the claims.\<close>

record claimed_files =
  cl_paths :: "(string \<times> string) list"
  cl_sids :: "jval list"

definition is_claimed :: "claimed_files \<Rightarrow> string \<Rightarrow> tfile \<Rightarrow> bool" where
  "is_claimed cl dir f \<longleftrightarrow> (encode_project_dir dir, tf_sid f) \<in> set (cl_paths cl) \<or> JStr (tf_sid f) \<in> set (cl_sids cl)"

text \<open>\<open>None\<close>: the file is passed over.\<close>

definition session_row :: "top_view \<Rightarrow> claimed_files \<Rightarrow> string \<Rightarrow> tfile \<Rightarrow> (rat \<times> obj) option res" where
  "session_row tv cl dir f =
     (if is_claimed cl dir f \<or> SESSION_FRESH_SECONDS \<le> tf_age f then Inr None
      else
        bind_res (confirms (fv_texts (tv_feed tv)) dir f) (\<lambda>yes.
          if \<not> yes then Inr None
          else
            bind_res (tail_records (fv_loads (tv_feed tv)) (tf_bytes f)) (\<lambda>records.
            bind_res (extract_activity records) (\<lambda>a.
            bind_res (assemble_session_row tv (tf_sid f) (session_name records (last_component dir) (tf_sid f)) a) (\<lambda>row.
              Inr (Some (tf_age f, row @ [(''plan'', JNull), (''project'', JStr (last_component dir))])))))))"

definition scan_dir :: "top_view \<Rightarrow> claimed_files \<Rightarrow> string \<Rightarrow> (rat \<times> obj) list res" where
  "scan_dir tv cl dir =
     bind_res (map_res (session_row tv cl dir) (fv_dirs (tv_feed tv) (encode_project_dir dir))) (\<lambda>rows.
       Inr (List.map_filter id rows))"

definition gather_session_rows :: "top_view \<Rightarrow> string list \<Rightarrow> claimed_files \<Rightarrow> obj list res" where
  "gather_session_rows tv dirs cl =
     bind_res (map_res (scan_dir tv cl) dirs) (\<lambda>scored. Inr (map snd (sort_key fst (concat scored))))"

section \<open>All rows\<close>

definition phase_ids :: "doc \<Rightarrow> jval list" where
  "phase_ids d = (case d_phases d of None \<Rightarrow> [] | Some ps \<Rightarrow> map (\<lambda>p. jget p ''id'') ps)"

definition plan_keys :: "plan_entry \<Rightarrow> doc \<Rightarrow> obj \<Rightarrow> obj" where
  "plan_keys e d row =
     row @ [(''plan'', JStr (pe_slug e)), (''project'', JStr (last_component (pe_root e))),
            (''max_attempts'', (case d_config d of
                None \<Rightarrow> JInt DEFAULT_MAX_ATTEMPTS
              | Some c \<Rightarrow> (case dget c ''max_attempts_per_phase'' of None \<Rightarrow> JInt DEFAULT_MAX_ATTEMPTS | Some v \<Rightarrow> v))),
            (''phase_total'', if phase_ids d = [] then JNull else JInt (int (length (phase_ids d)))),
            (''phase_index'', or_null (\<lambda>i. JInt (int i + 1)) (index_of (jget row ''phase_id'') (phase_ids d)))]"

text \<open>\<open>claim.get("session_id")\<close> where it is truthy, and the transcript of the worker.\<close>

definition claim_sids :: "obj \<Rightarrow> jval list" where
  "claim_sids claim = (if dtrue claim ''session_id'' then [jget claim ''session_id''] else [])"

definition worker_row :: "top_view \<Rightarrow> plan_entry \<Rightarrow> doc \<Rightarrow> obj \<Rightarrow> (obj \<times> claimed_files) res" where
  "worker_row tv e d claim =
     (let cwd = claim_cwd e d in
      bind_res (locate_transcript (tv_feed tv) cwd (jget claim ''session_id'')) (\<lambda>t.
      bind_res (case t of None \<Rightarrow> Inr [] | Some f \<Rightarrow> tail_records (fv_loads (tv_feed tv)) (tf_bytes f)) (\<lambda>records.
      bind_res (extract_activity records) (\<lambda>a.
      bind_res (assemble_row tv claim a) (\<lambda>row.
        Inr (plan_keys e d row,
             \<lparr>cl_paths = (case t of None \<Rightarrow> [] | Some f \<Rightarrow> [(encode_project_dir cwd, tf_sid f)]), cl_sids = claim_sids claim\<rparr>))))))"

definition nothing_claimed :: claimed_files where
  "nothing_claimed = \<lparr>cl_paths = [], cl_sids = []\<rparr>"

definition plan_row_of :: "top_view \<Rightarrow> plan_entry \<Rightarrow> (obj option \<times> claimed_files) res" where
  "plan_row_of tv e =
     (case load_entry_state (fv_stores (tv_feed tv)) e of
        None \<Rightarrow> Inr (None, nothing_claimed)
      | Some d \<Rightarrow>
          (case d_claim d of
             Some (k # c) \<Rightarrow> bind_res (worker_row tv e d (k # c)) (\<lambda>(row, cl). Inr (Some row, cl))
           | _ \<Rightarrow>
               (case open_blockers d of
                  [] \<Rightarrow> Inr (None, nothing_claimed)
                | b # _ \<Rightarrow> bind_res (assemble_blocked_row tv b) (\<lambda>row. Inr (Some (plan_keys e d row), nothing_claimed)))))"

definition in_scope :: "top_view \<Rightarrow> string option \<Rightarrow> plan_entry list" where
  "in_scope tv filt = filter (\<lambda>e. matches_project_filter (tv_feed tv) (pe_root e) filt) (fv_entries (tv_feed tv))"

definition scan_roots :: "top_view \<Rightarrow> string option \<Rightarrow> string list \<Rightarrow> string list" where
  "scan_roots tv filt session_dirs =
     remdups (map pe_root (in_scope tv filt) @ filter (\<lambda>d. matches_project_filter (tv_feed tv) d filt) session_dirs)"

definition all_claimed :: "claimed_files list \<Rightarrow> claimed_files" where
  "all_claimed cls = \<lparr>cl_paths = concat (map cl_paths cls), cl_sids = concat (map cl_sids cls)\<rparr>"

definition row_tier :: "obj \<Rightarrow> nat" where
  "row_tier r = (if dtrue r ''blocked'' then 0 else if dtrue r ''session'' then 2 else 1)"

definition gather_rows :: "top_view \<Rightarrow> string option \<Rightarrow> string list \<Rightarrow> obj list res" where
  "gather_rows tv filt session_dirs =
     bind_res (map_res (plan_row_of tv) (in_scope tv filt)) (\<lambda>plans.
     bind_res (gather_session_rows tv (scan_roots tv filt session_dirs) (all_claimed (map snd plans))) (\<lambda>sessions.
       Inr (sort_key row_tier (List.map_filter fst plans @ sessions))))"

end
