(* ===== verification/Top_Rows_Props.thy ===== *)
theory Top_Rows_Props
  imports Top_Rows Web_Feed_Props Config_Props
begin

text \<open>
  The dashboard's rows: the tail of a transcript is the end of what it records, every row carries the keys
  its readers subscript, a listed session can be streamed by the feed, and one bad transcript is enough
  for there to be no rows.
\<close>

section \<open>The tail\<close>

lemma length_split: "length (split_on c s) = count_list s c + 1"
proof (induction s)
  case (Cons a s)
  then show ?case
    by (cases "split_on c s") auto
qed simp

lemma tail_start_cases: "tail_start content pos = 0 \<or> TAIL_WANT < count_list (drop (tail_start content pos) content) newline"
  by (induction content pos rule: tail_start.induct) (metis tail_start.elims)

lemma tail_start_0 [simp]: "tail_start content 0 = 0"
  by simp

declare tail_start.simps [simp del]

lemma last_split_whole: "whole_lines s \<Longrightarrow> last (split_on newline s) = []"
proof -
  assume "whole_lines s"
  then consider "s = []" | a where "s = a @ newline # []"
    by (metis append_butlast_last_id whole_lines_def)
  then show ?thesis
    by cases (simp_all add: split_on_concat)
qed

text \<open>The tail's lines are the last ones of the file, and enough of them.\<close>

lemma tail_lines_last:
  obtains front where "split_on newline c = front @ tail_lines c"
    "front = [] \<or> TAIL_WANT < length (tail_lines c)"
proof (cases "tail_start c (length c) = 0")
  case True
  then show ?thesis
    using that[of "[]"] by (simp add: tail_lines_def)
next
  case False
  let ?p = "tail_start c (length c)"
  have many: "TAIL_WANT < count_list (drop ?p c) newline"
    using tail_start_cases[of c "length c"] False by simp
  then have "newline \<in> set (drop ?p c)"
    by (metis count_list_0_iff gr_implies_not0)
  then obtain x y where xy: "drop ?p c = x @ newline # y" "newline \<notin> set x"
    by (meson split_list_first)
  have "c = (take ?p c @ x) @ newline # y"
    using xy(1) by (metis append.assoc append_take_drop_id)
  then have cut: "split_on newline c = split_on newline (take ?p c @ x) @ split_on newline y"
    by (metis split_on_concat)
  have lines: "tail_lines c = split_on newline y"
    using False xy by (simp add: tail_lines_def split_on_append)
  have "TAIL_WANT < count_list y newline + 1"
    using many xy by (simp add: count_list_0_iff)
  then show ?thesis
    using that cut by (simp add: lines length_split)
qed

text \<open>A line that is one record.\<close>

definition one_record :: "(string \<Rightarrow> loaded) \<Rightarrow> string \<Rightarrow> bool" where
  "one_record loads l \<longleftrightarrow> strip_bytes l \<noteq> [] \<and> (case loads (strip_bytes l) of Loaded _ \<Rightarrow> True | _ \<Rightarrow> False)"

definition all_records :: "(string \<Rightarrow> loaded) \<Rightarrow> string \<Rightarrow> bool" where
  "all_records loads s \<longleftrightarrow> whole_lines s \<and> list_all (one_record loads) (butlast (split_on newline s))"

lemma read_one_each:
  "list_all (one_record loads) ls \<Longrightarrow> read_records loads ls = Inr vs \<Longrightarrow> length vs = length ls"
  by (induction ls arbitrary: vs) (auto simp: one_record_def Let_def bind_res_def split: loaded.splits sum.splits)

lemma last_of_append: "n \<le> length ys \<Longrightarrow> last_of n (xs @ ys) = last_of n ys"
  by (simp add: last_of_def)

text \<open>
  C1. The records taken from the end of a transcript are the last ones it holds, at most sixty, whatever
  the lengths of its lines; and where every line is a record they are exactly the last sixty.
\<close>

theorem tail_is_the_end:
  assumes "records_of loads c = Inr vs"
  shows "\<exists>rs. tail_records loads (Some c) = Inr rs \<and> rs = last_of (length rs) vs \<and> length rs \<le> TAIL_WANT
    \<and> (all_records loads c \<longrightarrow> rs = last_of TAIL_WANT vs)"
proof -
  obtain front where cut: "split_on newline c = front @ tail_lines c" and much: "front = [] \<or> TAIL_WANT < length (tail_lines c)"
    by (rule tail_lines_last)
  from assms obtain us ws where us: "read_records loads front = Inr us" and ws: "read_records loads (tail_lines c) = Inr ws"
    and vs: "vs = us @ ws"
    by (auto simp: records_of_def cut read_records_append bind_res_def split: sum.splits)
  let ?rs = "last_of TAIL_WANT ws"
  have "?rs = last_of TAIL_WANT vs" if "all_records loads c"
  proof (cases "front = []")
    case True
    then show ?thesis
      using us by (simp add: vs)
  next
    case False
    then have ne: "tail_lines c \<noteq> []" and long: "TAIL_WANT < length (tail_lines c)"
      using much by auto
    have "last (tail_lines c) = []"
      using that last_split_whole[of c] ne by (simp add: all_records_def cut)
    then have "read_records loads (butlast (tail_lines c) @ [[]]) = Inr ws"
      using ne ws by (metis append_butlast_last_id)
    then have "read_records loads (butlast (tail_lines c)) = Inr ws"
      by (simp add: read_records_append bind_res_def split: sum.splits)
    moreover have "list_all (one_record loads) (butlast (tail_lines c))"
      using that ne by (simp add: all_records_def cut butlast_append)
    ultimately have "TAIL_WANT \<le> length ws"
      using read_one_each long by fastforce
    then show ?thesis
      by (simp add: vs last_of_append)
  qed
  moreover have "?rs = last_of (length ?rs) vs" "length ?rs \<le> TAIL_WANT"
    by (auto simp: last_of_def vs)
  ultimately show ?thesis
    using ws by (simp add: tail_records_def)
qed

section \<open>What a row carries\<close>

lemma map_res_to: "map_res f xs = Inr ys \<Longrightarrow> x \<in> set xs \<Longrightarrow> \<exists>y\<in>set ys. f x = Inr y"
  by (drule map_res_Inr) (auto simp: list_all2_conv_all_nth in_set_conv_nth)

lemma map_res_from:
  assumes "map_res f xs = Inr ys" "y \<in> set ys" shows "\<exists>x\<in>set xs. f x = Inr y"
proof -
  from assms(2) obtain i where i: "i < length ys" "y = ys ! i"
    by (auto simp: in_set_conv_nth)
  with map_res_Inr[OF assms(1)] have "i < length xs" "f (xs ! i) = Inr y"
    by (auto simp: list_all2_conv_all_nth)
  then show ?thesis
    by (meson nth_mem)
qed

lemma base_row_keys: "base_row tv a = Inr base \<Longrightarrow> map fst base =
    [''last_command'', ''command_running'', ''last_write'', ''last_write_seconds'', ''last_text'', ''last_activity_seconds'', ''tokens'']"
  by (auto simp: base_row_def bind_res_def split: sum.splits)

definition CLAIM_KEYS :: "string list" where
  "CLAIM_KEYS =
     [''phase_id'', ''ran_seconds'', ''heartbeat_age_seconds'', ''alive'',
      ''last_command'', ''command_running'', ''last_write'', ''last_write_seconds'', ''last_text'', ''last_activity_seconds'', ''tokens'',
      ''attempts'', ''lease_remaining_seconds'', ''stuck'']"

definition PLAN_KEYS :: "string list" where
  "PLAN_KEYS = [''plan'', ''project'', ''max_attempts'', ''phase_total'', ''phase_index'']"

lemma assemble_row_keys: "assemble_row tv claim a = Inr row \<Longrightarrow> map fst row = CLAIM_KEYS"
  by (auto simp: assemble_row_def CLAIM_KEYS_def bind_res_def dest!: base_row_keys split: sum.splits)

lemma blocked_row_keys: "assemble_blocked_row tv b = Inr row \<Longrightarrow>
    map fst row = CLAIM_KEYS @ [''blocked'', ''blocker_question'', ''blocked_seconds'']"
  by (auto simp: assemble_blocked_row_def CLAIM_KEYS_def bind_res_def dest!: base_row_keys split: sum.splits)

lemma session_row_keys: "assemble_session_row tv sid name a = Inr row \<Longrightarrow>
    map fst row = CLAIM_KEYS @ [''max_attempts'', ''phase_total'', ''phase_index'', ''session'', ''session_name'', ''session_id'']"
  by (auto simp: assemble_session_row_def CLAIM_KEYS_def bind_res_def dest!: base_row_keys split: sum.splits)

lemma plan_keys_keys: "map fst (plan_keys e d row) = map fst row @ PLAN_KEYS"
  by (simp add: plan_keys_def PLAN_KEYS_def)

text \<open>The three kinds of rows, by their keys.\<close>

definition worker_shape :: "obj \<Rightarrow> bool" where
  "worker_shape r \<longleftrightarrow> map fst r = CLAIM_KEYS @ PLAN_KEYS"

definition blocked_shape :: "obj \<Rightarrow> bool" where
  "blocked_shape r \<longleftrightarrow> map fst r = CLAIM_KEYS @ [''blocked'', ''blocker_question'', ''blocked_seconds''] @ PLAN_KEYS"

definition session_shape :: "obj \<Rightarrow> bool" where
  "session_shape r \<longleftrightarrow>
     map fst r = CLAIM_KEYS @ [''max_attempts'', ''phase_total'', ''phase_index'', ''session'', ''session_name'', ''session_id'', ''plan'', ''project'']"

lemma plan_row_shape: "plan_row_of tv e = Inr (Some row, cl) \<Longrightarrow> worker_shape row \<or> blocked_shape row"
  by (auto simp: plan_row_of_def worker_row_def worker_shape_def blocked_shape_def bind_res_def Let_def plan_keys_keys
      dest!: assemble_row_keys blocked_row_keys split: option.splits list.splits sum.splits prod.splits)

lemma listed_session:
  assumes "session_row tv cl dir f = Inr (Some (age, row))"
  shows "session_shape row" "\<not> is_claimed cl dir f" "tf_age f < SESSION_FRESH_SECONDS"
    "confirms (fv_texts (tv_feed tv)) dir f = Inr True"
    "jget row ''session_id'' = JStr (tf_sid f)" "jget row ''project'' = JStr (last_component dir)" "age = tf_age f"
  using assms
  by (auto simp: session_row_def session_shape_def bind_res_def assemble_session_row_def base_row_def jget_def CLAIM_KEYS_def
      split: sum.splits if_splits)

text \<open>Where a row comes from.\<close>

lemma gathered:
  assumes "gather_rows tv filt dirs = Inr rows" "r \<in> set rows"
  obtains (plan) e cl where "e \<in> set (in_scope tv filt)" "plan_row_of tv e = Inr (Some r, cl)"
  | (session) plans dir f age where "map_res (plan_row_of tv) (in_scope tv filt) = Inr plans" "dir \<in> set (scan_roots tv filt dirs)"
      "f \<in> set (fv_dirs (tv_feed tv) (encode_project_dir dir))"
      "session_row tv (all_claimed (map snd plans)) dir f = Inr (Some (age, r))"
proof -
  from assms(1) obtain plans scored where plans: "map_res (plan_row_of tv) (in_scope tv filt) = Inr plans"
    and scored: "map_res (scan_dir tv (all_claimed (map snd plans))) (scan_roots tv filt dirs) = Inr scored"
    and rows: "rows = sort_key row_tier (List.map_filter fst plans @ map snd (sort_key fst (concat scored)))"
    by (auto simp: gather_rows_def gather_session_rows_def bind_res_def split: sum.splits)
  from assms(2) consider cl where "(Some r, cl) \<in> set plans" | s age where "s \<in> set scored" "(age, r) \<in> set s"
    by (auto simp: rows map_filter_def)
  then show ?thesis
  proof cases
    case 1
    then show ?thesis
      using map_res_from[OF plans] plan by blast
  next
    case 2
    then obtain dir where "dir \<in> set (scan_roots tv filt dirs)" and scan: "scan_dir tv (all_claimed (map snd plans)) dir = Inr s"
      using map_res_from[OF scored] by blast
    moreover from scan obtain found where
      found: "map_res (session_row tv (all_claimed (map snd plans)) dir) (fv_dirs (tv_feed tv) (encode_project_dir dir)) = Inr found"
      and s: "s = List.map_filter id found"
      by (auto simp: scan_dir_def bind_res_def split: sum.splits)
    moreover have "Some (age, r) \<in> set found"
      using 2(2) by (auto simp: s map_filter_def)
    ultimately show ?thesis
      using map_res_from[OF found] session[OF plans] by blast
  qed
qed

lemma keys_dtrue: "k \<notin> set (map fst r) \<Longrightarrow> \<not> dtrue r k"
  unfolding dtrue_def jget_def using map_of_eq_None_iff[of r k] by simp

text \<open>
  C1. Every row of the dashboard has one of three shapes, and in each all the keys that the readers of a
  row subscript are there: a worker's, a blocked plan's or a session's; the blocked ones come first and
  the sessions last.
\<close>

theorem rows_have_shape:
  assumes "gather_rows tv filt dirs = Inr rows"
  shows "list_all (\<lambda>r. worker_shape r \<or> blocked_shape r \<or> session_shape r) rows
    \<and> list_all (\<lambda>r. set (CLAIM_KEYS @ PLAN_KEYS) \<subseteq> set (map fst r)) rows
    \<and> sorted (map row_tier rows)"
proof -
  have shape: "worker_shape r \<or> blocked_shape r \<or> session_shape r" if "r \<in> set rows" for r
    using gathered[OF assms that] plan_row_shape listed_session(1) by metis
  have "set (CLAIM_KEYS @ PLAN_KEYS) \<subseteq> set (map fst r)" if "r \<in> set rows" for r
    using shape[OF that] unfolding worker_shape_def blocked_shape_def session_shape_def
    by (elim disjE) (simp_all add: PLAN_KEYS_def CLAIM_KEYS_def del: set_map)
  moreover have "sorted (map row_tier rows)"
    using assms by (auto simp: gather_rows_def bind_res_def split: sum.splits)
  ultimately show ?thesis
    using shape by (auto simp: list_all_iff simp del: set_map)
qed

section \<open>What is listed can be streamed\<close>

lemma confirms_defined: "confirms texts cwd f = Inr b \<Longrightarrow> \<exists>b'. confirms texts cwd' f = Inr b'"
  by (auto simp: confirms_def bind_res_def split: option.splits sum.splits prod.splits)

lemma claimed_confirmed:
  assumes "map_res (plan_row_of tv) es = Inr plans" "(d, sid) \<in> set (cl_paths (all_claimed (map snd plans)))"
  shows "\<exists>cwd f. encode_project_dir cwd = d \<and> tf_sid f = sid \<and> confirmed_in (tv_feed tv) cwd f"
proof -
  from assms(2) obtain row cl where "(row, cl) \<in> set plans" and d: "(d, sid) \<in> set (cl_paths cl)"
    by (auto simp: all_claimed_def)
  with map_res_from[OF assms(1)] obtain e where "plan_row_of tv e = Inr (row, cl)"
    by blast
  with d show ?thesis
    by (auto simp: plan_row_of_def worker_row_def nothing_claimed_def bind_res_def Let_def
        dest!: locate_sound split: option.splits list.splits sum.splits prod.splits) blast+
qed

text \<open>No two files of a directory have one name.\<close>

definition names_differ :: "feed_view \<Rightarrow> string list \<Rightarrow> bool" where
  "names_differ fv dirs \<longleftrightarrow> list_all (\<lambda>dir. distinct (map tf_sid (fv_dirs fv (encode_project_dir dir)))) dirs"

lemma scanned_confirms:
  assumes "gather_rows tv filt dirs = Inr rows" "map_res (plan_row_of tv) (in_scope tv filt) = Inr plans"
    and "dir \<in> set (scan_roots tv filt dirs)" "f \<in> set (fv_dirs (tv_feed tv) (encode_project_dir dir))"
    and "tf_age f < SESSION_FRESH_SECONDS" "JStr (tf_sid f) \<notin> set (cl_sids (all_claimed (map snd plans)))"
    and "names_differ (tv_feed tv) (scan_roots tv filt dirs)"
  shows "\<exists>b. confirms (fv_texts (tv_feed tv)) dir f = Inr b"
proof (cases "is_claimed (all_claimed (map snd plans)) dir f")
  case True
  then have "(encode_project_dir dir, tf_sid f) \<in> set (cl_paths (all_claimed (map snd plans)))"
    using assms(6) by (simp add: is_claimed_def)
  then obtain cwd g where enc: "encode_project_dir cwd = encode_project_dir dir" and "tf_sid g = tf_sid f"
    and g: "confirmed_in (tv_feed tv) cwd g"
    using claimed_confirmed[OF assms(2)] by blast
  moreover have "distinct (map tf_sid (fv_dirs (tv_feed tv) (encode_project_dir dir)))"
    using assms(3,7) by (simp add: names_differ_def list_all_iff)
  ultimately have "g = f"
    using assms(4) by (metis confirmed_in_def distinct_map inj_on_eq_iff)
  then show ?thesis
    using g confirms_defined unfolding confirmed_in_def by blast
next
  case False
  from assms(1,2) obtain scored where
    scored: "map_res (scan_dir tv (all_claimed (map snd plans))) (scan_roots tv filt dirs) = Inr scored"
    by (auto simp: gather_rows_def gather_session_rows_def bind_res_def split: sum.splits)
  from map_res_to[OF this assms(3)] obtain s where "scan_dir tv (all_claimed (map snd plans)) dir = Inr s"
    by blast
  then obtain found where
    "map_res (session_row tv (all_claimed (map snd plans)) dir) (fv_dirs (tv_feed tv) (encode_project_dir dir)) = Inr found"
    by (auto simp: scan_dir_def bind_res_def split: sum.splits)
  from map_res_to[OF this assms(4)] obtain y where "session_row tv (all_claimed (map snd plans)) dir f = Inr y"
    by blast
  then show ?thesis
    using False assms(5) by (auto simp: session_row_def bind_res_def split: sum.splits)
qed

lemma resolve_roots_found:
  assumes "\<And>r f. r \<in> set rs \<Longrightarrow> find (\<lambda>f. tf_sid f = sid) (fv_dirs fv (encode_project_dir r)) = Some f \<Longrightarrow>
      tf_age f < SESSION_FRESH_SECONDS \<Longrightarrow> \<exists>b. confirms (fv_texts fv) r f = Inr b"
    and "r \<in> set rs" "find (\<lambda>f. tf_sid f = sid) (fv_dirs fv (encode_project_dir r)) = Some f"
    and "tf_age f < SESSION_FRESH_SECONDS" "confirms (fv_texts fv) r f = Inr True"
  shows "\<exists>g. resolve_roots fv sid rs = Inr (Some g) \<and> tf_sid g = sid"
  using assms
proof (induction rs)
  case (Cons a rs)
  show ?case
  proof (cases "find (\<lambda>f. tf_sid f = sid) (fv_dirs fv (encode_project_dir a))")
    case None
    then show ?thesis
      using Cons by auto
  next
    case (Some g)
    show ?thesis
    proof (cases "tf_age g < SESSION_FRESH_SECONDS")
      case True
      then obtain b where b: "confirms (fv_texts fv) a g = Inr b"
        using Cons.prems(1)[of a g] Some by auto
      show ?thesis
      proof (cases b)
        case True
        then show ?thesis
          using b Some \<open>tf_age g < SESSION_FRESH_SECONDS\<close> find_in[OF Some] by simp
      next
        case False
        then have "a \<noteq> r"
          using b Some Cons.prems(3,5) by auto
        then have "\<exists>h. resolve_roots fv sid rs = Inr (Some h) \<and> tf_sid h = sid"
          using Cons.IH Cons.prems by auto
        then show ?thesis
          using b Some False by simp
      qed
    next
      case False
      then have "a \<noteq> r"
        using Some Cons.prems(3,4) by auto
      then have "\<exists>h. resolve_roots fv sid rs = Inr (Some h) \<and> tf_sid h = sid"
        using Cons.IH Cons.prems by auto
      then show ?thesis
        using Some False by simp
    qed
  qed
qed simp

lemma session_roots_scanned:
  "set (session_roots (tv_feed tv) proj filt dirs) = {r \<in> set (scan_roots tv filt dirs). last_component r = proj}"
  by (auto simp: session_roots_def project_entries_def scan_roots_def in_scope_def)

lemma find_distinct: "distinct (map g xs) \<Longrightarrow> x \<in> set xs \<Longrightarrow> find (\<lambda>y. g y = g x) xs = Some x"
  by (induction xs) auto

lemma session_row_of:
  assumes "gather_rows tv filt dirs = Inr rows" "r \<in> set rows" "dtrue r ''session''"
  obtains plans dir f age where "map_res (plan_row_of tv) (in_scope tv filt) = Inr plans" "dir \<in> set (scan_roots tv filt dirs)"
      "f \<in> set (fv_dirs (tv_feed tv) (encode_project_dir dir))"
      "session_row tv (all_claimed (map snd plans)) dir f = Inr (Some (age, r))"
proof (rule gathered[OF assms(1,2)])
  fix e cl assume "plan_row_of tv e = Inr (Some r, cl)"
  then have "''session'' \<notin> set (map fst r)"
    using plan_row_shape unfolding worker_shape_def blocked_shape_def
    by (fastforce simp: CLAIM_KEYS_def PLAN_KEYS_def simp del: set_map)
  then show thesis
    using keys_dtrue assms(3) by blast
qed (rule that)


section \<open>One transcript for all\<close>

text \<open>No plan in scope has a live claim.\<close>

definition nobody_works :: "top_view \<Rightarrow> string option \<Rightarrow> bool" where
  "nobody_works tv filt \<longleftrightarrow>
     list_all (\<lambda>e. case load_entry_state (fv_stores (tv_feed tv)) e of None \<Rightarrow> True | Some d \<Rightarrow> d_claim d = None) (in_scope tv filt)"

lemma nobody_claims:
  assumes "nobody_works tv filt" "map_res (plan_row_of tv) (in_scope tv filt) = Inr plans"
  shows "\<not> is_claimed (all_claimed (map snd plans)) dir f"
proof -
  have "snd p = nothing_claimed" if p: "p \<in> set plans" for p
  proof -
    obtain e where "e \<in> set (in_scope tv filt)" and e: "plan_row_of tv e = Inr p"
      using map_res_from[OF assms(2) p] by blast
    then have "load_entry_state (fv_stores (tv_feed tv)) e = Some d \<Longrightarrow> d_claim d = None" for d
      using assms(1) by (auto simp: nobody_works_def list_all_iff split: option.splits)
    then show ?thesis
      using e by (cases "load_entry_state (fv_stores (tv_feed tv)) e")
        (force simp: plan_row_of_def bind_res_def split: list.splits sum.splits)+
  qed
  then show ?thesis
    by (auto simp: is_claimed_def all_claimed_def nothing_claimed_def)
qed

text \<open>The transcript's own fault: its identity cannot be read, or it is confirmed and its tail is no UTF-8.\<close>

definition spoiled :: "feed_view \<Rightarrow> string \<Rightarrow> tfile \<Rightarrow> bool" where
  "spoiled fv dir f \<longleftrightarrow>
     (case confirms (fv_texts fv) dir f of
        Inl _ \<Rightarrow> True
      | Inr yes \<Rightarrow> yes \<and> (case tail_records (fv_loads fv) (tf_bytes f) of Inl _ \<Rightarrow> True | Inr _ \<Rightarrow> False))"

text \<open>
  C1. One transcript among all the scanned directories is enough for the dashboard to have no rows at all:
  a fresh session whose first records hold a value that is no object, or whose tail holds a line that is
  not UTF-8 (a line the writer has half written, say), makes the gathering raise.
\<close>

theorem one_transcript_fails_all:
  assumes "nobody_works tv filt" "dir \<in> set (scan_roots tv filt dirs)"
    and "f \<in> set (fv_dirs (tv_feed tv) (encode_project_dir dir))" "tf_age f < SESSION_FRESH_SECONDS"
    and "spoiled (tv_feed tv) dir f"
  shows "\<exists>e. gather_rows tv filt dirs = Inl e"
proof (cases "gather_rows tv filt dirs")
  case (Inr rows)
  then obtain plans scored where plans: "map_res (plan_row_of tv) (in_scope tv filt) = Inr plans"
    and scored: "map_res (scan_dir tv (all_claimed (map snd plans))) (scan_roots tv filt dirs) = Inr scored"
    by (auto simp: gather_rows_def gather_session_rows_def bind_res_def split: sum.splits)
  from map_res_to[OF scored assms(2)] obtain found where
    "map_res (session_row tv (all_claimed (map snd plans)) dir) (fv_dirs (tv_feed tv) (encode_project_dir dir)) = Inr found"
    by (auto simp: scan_dir_def bind_res_def split: sum.splits)
  from map_res_to[OF this assms(3)] obtain y where "session_row tv (all_claimed (map snd plans)) dir f = Inr y"
    by blast
  then have False
    using nobody_claims[OF assms(1) plans] assms(4,5)
    by (auto simp: session_row_def spoiled_def bind_res_def split: sum.splits if_splits)
  then show ?thesis ..
qed simp

end
