(* ===== verification/Web_Server.thy ===== *)
theory Web_Server
  imports Top_Rows
begin

text \<open>
  The dashboard's server (\<open>webserver.py\<close>): from the command's flags to a configuration with its token and
  certificate, and from a request to the answer. What the standard library reads out of a request (the
  parts of the URL, the query, the cookie) is taken as read.
\<close>

section \<open>The configuration\<close>

text \<open>How \<open>openssl\<close> ends: not there, with a certificate, or with its lower-cased standard error.\<close>

datatype openssl_end = NoOpenssl | Minted | OpensslError string

text \<open>
  \<open>sh_lan_ip\<close>: the outbound address, if there is a route; \<open>sh_ip\<close>: the address a text is, with whether it is a
  loopback one; \<open>sh_token_file\<close>: the text of the token's file; \<open>sh_fresh\<close>: \<open>secrets.token_urlsafe(32)\<close>;
  \<open>sh_certs\<close>: both files of the kept certificate are there; \<open>sh_openssl\<close> by whether \<open>-addext\<close> is used; \<open>sh_loads\<close>: the
  pair of files is a certificate and its key.
\<close>

record serve_host =
  sh_lan_ip :: "string option"
  sh_ip :: "string \<Rightarrow> (string \<times> bool) option"
  sh_token_file :: "string option"
  sh_fresh :: string
  sh_config_dir :: string
  sh_certs :: bool
  sh_openssl :: "bool \<Rightarrow> string \<Rightarrow> openssl_end"
  sh_loads :: "string \<Rightarrow> string \<Rightarrow> bool"

record serve_flags =
  sf_lan :: bool
  sf_host :: "string option"
  sf_port :: int
  sf_filter :: "string option"
  sf_transcript :: bool
  sf_cert :: "string option"
  sf_key :: "string option"
  sf_http :: bool
  sf_dirs :: "string list"

record serve_config =
  sc_host :: string
  sc_port :: int
  sc_filter :: "string option"
  sc_transcript :: bool
  sc_token :: "string option"
  sc_allowlist :: "string list"
  sc_tls :: "(string \<times> string) option"
  sc_dirs :: "string list"

datatype serve_refusal = NoRoute | NoToken | HttpConflict | CertAndKey | BadBind | OpensslMissing | OpensslFailed | BadCert

definition LOOPBACK_HOSTS :: "string list" where
  "LOOPBACK_HOSTS = [''localhost'', ''127.0.0.1'', ''::1'']"

definition lower_text :: "string \<Rightarrow> string" where
  "lower_text s = map lower_char s"

definition host_allowlist_for :: "string \<Rightarrow> string list" where
  "host_allowlist_for host = lower_text host # LOOPBACK_HOSTS"

definition is_loopback :: "serve_host \<Rightarrow> string \<Rightarrow> bool" where
  "is_loopback sh bind \<longleftrightarrow>
     lower_text bind \<in> set LOOPBACK_HOSTS \<or> (case sh_ip sh bind of None \<Rightarrow> False | Some (_, loop) \<Rightarrow> loop)"

text \<open>The token, and what is written to its file.\<close>

definition load_or_create_token :: "serve_host \<Rightarrow> string \<times> string option" where
  "load_or_create_token sh =
     (let existing = (case sh_token_file sh of None \<Rightarrow> [] | Some t \<Rightarrow> strip t) in
      if existing \<noteq> [] then (existing, None) else (sh_fresh sh, Some (sh_fresh sh)))"

definition hostname_char :: "char \<Rightarrow> bool" where
  "hostname_char c \<longleftrightarrow> is_ascii_alnum c \<or> c = CHR ''.'' \<or> c = CHR ''-''"

definition san_for :: "serve_host \<Rightarrow> string \<Rightarrow> string option" where
  "san_for sh bind = (case sh_ip sh bind of
     Some (ip, _) \<Rightarrow> Some (''IP:'' @ ip @ '',DNS:localhost'')
   | None \<Rightarrow>
       if list_all hostname_char bind \<and> 1 \<le> length bind \<and> length bind \<le> 253
       then Some (''DNS:'' @ bind @ '',DNS:localhost'') else None)"

definition contains_text :: "string \<Rightarrow> string \<Rightarrow> bool" where
  "contains_text pat s \<longleftrightarrow> list_ex (\<lambda>i. take (length pat) (drop i s) = pat) [0..<length s + 1]"

definition openssl_refusal :: "openssl_end \<Rightarrow> serve_refusal option" where
  "openssl_refusal r = (case r of NoOpenssl \<Rightarrow> Some OpensslMissing | Minted \<Rightarrow> None | OpensslError _ \<Rightarrow> Some OpensslFailed)"

definition addext_unsupported :: "openssl_end \<Rightarrow> bool" where
  "addext_unsupported r = (case r of
     OpensslError err \<Rightarrow> contains_text ''addext'' err \<or> contains_text ''unknown option'' err
   | _ \<Rightarrow> False)"

definition ensure_self_signed :: "serve_host \<Rightarrow> string \<Rightarrow> serve_refusal option" where
  "ensure_self_signed sh bind =
     (if sh_certs sh then None
      else (case san_for sh bind of
              None \<Rightarrow> Some BadBind
            | Some san \<Rightarrow>
                (let r = sh_openssl sh True san in
                 if addext_unsupported r then openssl_refusal (sh_openssl sh False san) else openssl_refusal r)))"

definition build_tls_context :: "serve_host \<Rightarrow> string \<Rightarrow> string \<Rightarrow> serve_refusal + string \<times> string" where
  "build_tls_context sh cert key = (if sh_loads sh cert key then Inr (cert, key) else Inl BadCert)"

definition given :: "string option \<Rightarrow> bool" where
  "given s \<longleftrightarrow> (case s of None \<Rightarrow> False | Some x \<Rightarrow> x \<noteq> [])"

definition bind_of :: "serve_flags \<Rightarrow> serve_host \<Rightarrow> string option" where
  "bind_of sf sh = (if given (sf_host sf) then sf_host sf else if sf_lan sf then sh_lan_ip sh else Some ''127.0.0.1'')"

definition exposed :: "serve_flags \<Rightarrow> serve_host \<Rightarrow> string \<Rightarrow> bool" where
  "exposed sf sh bind \<longleftrightarrow> sf_lan sf \<or> \<not> is_loopback sh bind"

definition choose_tls :: "serve_flags \<Rightarrow> serve_host \<Rightarrow> string \<Rightarrow> serve_refusal + (string \<times> string) option" where
  "choose_tls sf sh bind =
     (if (given (sf_cert sf) \<or> given (sf_key sf)) \<and> sf_http sf then Inl HttpConflict
      else if given (sf_cert sf) \<or> given (sf_key sf) then
        (if \<not> (given (sf_cert sf) \<and> given (sf_key sf)) then Inl CertAndKey
         else map_sum id Some (build_tls_context sh (the (sf_cert sf)) (the (sf_key sf))))
      else if exposed sf sh bind \<and> \<not> sf_http sf then
        (case ensure_self_signed sh bind of
           Some no \<Rightarrow> Inl no
         | None \<Rightarrow> map_sum id Some (build_tls_context sh (sh_config_dir sh @ ''/serve_cert.pem'') (sh_config_dir sh @ ''/serve_key.pem'')))
      else Inr None)"

text \<open>With the configuration, the token written to its file.\<close>

definition build_config :: "serve_flags \<Rightarrow> serve_host \<Rightarrow> serve_refusal + serve_config \<times> string option" where
  "build_config sf sh =
     (case bind_of sf sh of
        None \<Rightarrow> Inl NoRoute
      | Some bind \<Rightarrow>
          (case (if exposed sf sh bind then map_prod Some id (load_or_create_token sh) else (None, None)) of
             (token, written) \<Rightarrow>
               if exposed sf sh bind \<and> \<not> given token then Inl NoToken
               else (case choose_tls sf sh bind of
                       Inl no \<Rightarrow> Inl no
                     | Inr tls \<Rightarrow>
                         Inr (\<lparr>sc_host = bind, sc_port = sf_port sf, sc_filter = sf_filter sf, sc_transcript = sf_transcript sf,
                               sc_token = token, sc_allowlist = host_allowlist_for bind, sc_tls = tls, sc_dirs = sf_dirs sf\<rparr>,
                              written))))"

section \<open>A request\<close>

text \<open>
  \<open>rq_url\<close>: path and query, \<open>None\<close> where \<open>urlsplit\<close> raises; \<open>rq_cookie\<close>: the value of the session cookie in a \<open>Cookie\<close>
  header that can be read.
\<close>

record request =
  rq_head :: bool
  rq_url :: "(string \<times> http_query) option"
  rq_host :: "string option"
  rq_authorization :: "string option"
  rq_cookie :: "string option"

datatype reply_body =
    Plain string
  | Page
  | Icon
  | Rows "obj list"
  | Feed "feed_event list" int string bool

record response =
  rs_code :: nat
  rs_body :: "reply_body option"
  rs_cookie :: "string option"

definition answer_with :: "request \<Rightarrow> nat \<Rightarrow> reply_body \<Rightarrow> response" where
  "answer_with rq code body = \<lparr>rs_code = code, rs_body = (if rq_head rq then None else Some body), rs_cookie = None\<rparr>"

definition hostname_of :: "string \<Rightarrow> string" where
  "hostname_of raw =
     (if take 1 raw = ''['' then (case index_of (CHR '']'') raw of None \<Rightarrow> raw | Some i \<Rightarrow> take (i - 1) (drop 1 raw))
      else if CHR '':'' \<in> set raw then rev (drop 1 (dropWhile (\<lambda>c. c \<noteq> CHR '':'') (rev raw)))
      else raw)"

definition host_allowed :: "serve_config \<Rightarrow> request \<Rightarrow> bool" where
  "host_allowed cfg rq =
     (if \<not> given (rq_host rq) then sc_token cfg = None
      else lower_text (hostname_of (the (rq_host rq))) \<in> set (sc_allowlist cfg))"

text \<open>\<open>hmac.compare_digest\<close> of texts: outside ASCII it raises.\<close>

definition is_ascii_text :: "string \<Rightarrow> bool" where
  "is_ascii_text s \<longleftrightarrow> list_all (\<lambda>c. (of_char c :: nat) < 128) s"

definition compare_digest :: "string \<Rightarrow> string \<Rightarrow> bool res" where
  "compare_digest a b = (if is_ascii_text a \<and> is_ascii_text b then Inr (a = b) else Inl PyTypeError)"

definition bearer :: "request \<Rightarrow> string option" where
  "bearer rq = (case rq_authorization rq of
     None \<Rightarrow> None
   | Some auth \<Rightarrow> if take 7 auth = ''Bearer '' then Some (drop 7 auth) else None)"

definition cookie_authed :: "request \<Rightarrow> string \<Rightarrow> bool res" where
  "cookie_authed rq token = (case rq_cookie rq of None \<Rightarrow> Inr False | Some c \<Rightarrow> compare_digest c token)"

definition authed :: "serve_config \<Rightarrow> request \<Rightarrow> bool res" where
  "authed cfg rq = (case sc_token cfg of
     None \<Rightarrow> Inr True
   | Some token \<Rightarrow>
       (case bearer rq of
          None \<Rightarrow> cookie_authed rq token
        | Some b \<Rightarrow> bind_res (compare_digest b token) (\<lambda>ok. if ok then Inr True else cookie_authed rq token)))"

text \<open>The attributes of the cookie that \<open>/login\<close> sets.\<close>

definition session_cookie :: "serve_config \<Rightarrow> string \<Rightarrow> string" where
  "session_cookie cfg token =
     ''clu_session='' @ token @ ''; HttpOnly; SameSite=Strict; Path=/'' @ (if sc_tls cfg = None then [] else ''; Secure'')"

definition handle_login :: "serve_config \<Rightarrow> request \<Rightarrow> http_query \<Rightarrow> string \<Rightarrow> response res" where
  "handle_login cfg rq q expected =
     bind_res (compare_digest (query_first q ''token'' []) expected) (\<lambda>ok.
       Inr (if ok then \<lparr>rs_code = 302, rs_body = None, rs_cookie = Some (session_cookie cfg expected)\<rparr>
            else answer_with rq 401 (Plain ''unauthorized'')))"

definition TRANSCRIPT_FIELDS :: "string list" where
  "TRANSCRIPT_FIELDS = [''last_command'', ''last_text'', ''last_write'']"

definition workers_json :: "serve_config \<Rightarrow> top_view \<Rightarrow> obj list res" where
  "workers_json cfg tv =
     bind_res (gather_rows tv (sc_filter cfg) (sc_dirs cfg)) (\<lambda>rows.
       Inr (if sc_transcript cfg then rows else map (dwithout TRANSCRIPT_FIELDS) rows))"

definition feed_response :: "serve_config \<Rightarrow> top_view \<Rightarrow> request \<Rightarrow> http_query \<Rightarrow> response res" where
  "feed_response cfg tv rq q =
     bind_res (feed_json (tv_feed tv) q (sc_filter cfg) (sc_dirs cfg)) (\<lambda>a.
       Inr (case a of
              FeedOk evs cur tid reset \<Rightarrow> answer_with rq 200 (Feed evs cur tid reset)
            | BadRequest \<Rightarrow> answer_with rq 400 (Plain ''bad request'')
            | NoSuchFeed \<Rightarrow> answer_with rq 404 (Plain ''not found'')))"

definition route :: "serve_config \<Rightarrow> top_view \<Rightarrow> request \<Rightarrow> string \<Rightarrow> http_query \<Rightarrow> response res" where
  "route cfg tv rq path q =
     (if path = ''/'' then Inr (answer_with rq 200 Page)
      else if path = ''/api/workers'' then bind_res (workers_json cfg tv) (\<lambda>rows. Inr (answer_with rq 200 (Rows rows)))
      else if path = ''/api/feed'' \<and> sc_transcript cfg then feed_response cfg tv rq q
      else Inr (answer_with rq 404 (Plain ''not found'')))"

definition gated :: "serve_config \<Rightarrow> top_view \<Rightarrow> request \<Rightarrow> response res" where
  "gated cfg tv rq =
     (if \<not> host_allowed cfg rq then Inr (answer_with rq 421 (Plain ''misdirected request''))
      else (case rq_url rq of
              None \<Rightarrow> Inl (ValueErr ''urlsplit'')
            | Some (path, q) \<Rightarrow>
                if path = ''/apple-touch-icon.png'' then Inr (answer_with rq 200 Icon)
                else if path = ''/login'' \<and> sc_token cfg \<noteq> None then handle_login cfg rq q (the (sc_token cfg))
                else bind_res (authed cfg rq) (\<lambda>ok.
                  if \<not> ok then Inr (answer_with rq 401 (Plain ''unauthorized'')) else route cfg tv rq path q)))"

definition dispatch_request :: "serve_config \<Rightarrow> top_view \<Rightarrow> request \<Rightarrow> response" where
  "dispatch_request cfg tv rq =
     (case gated cfg tv rq of Inl _ \<Rightarrow> answer_with rq 500 (Plain ''internal server error'') | Inr r \<Rightarrow> r)"

end
