(* ===== verification/Web_Server_Props.thy ===== *)
theory Web_Server_Props
  imports Web_Server
begin

text \<open>
  Who gets to see anything: what a server that was built from the command's flags answers to a request
  with worker data, and what it takes for a cookie to be set.
\<close>

text \<open>The bodies that hold something of the workers.\<close>

definition worker_data :: "reply_body \<Rightarrow> bool" where
  "worker_data p = (case p of Page \<Rightarrow> True | Rows _ \<Rightarrow> True | Feed _ _ _ _ \<Rightarrow> True | _ \<Rightarrow> False)"

text \<open>The request comes under a name the server goes by.\<close>

definition named_right :: "serve_config \<Rightarrow> request \<Rightarrow> bool" where
  "named_right cfg rq \<longleftrightarrow>
     given (rq_host rq) \<and> lower_text (hostname_of (the (rq_host rq))) \<in> set (lower_text (sc_host cfg) # LOOPBACK_HOSTS)"

text \<open>It shows the token, in its header or its cookie.\<close>

definition shows_token :: "request \<Rightarrow> string \<Rightarrow> bool" where
  "shows_token rq token \<longleftrightarrow> bearer rq = Some token \<or> rq_cookie rq = Some token"

text \<open>It asks to log in with the token.\<close>

definition logs_in :: "request \<Rightarrow> string \<Rightarrow> bool" where
  "logs_in rq token \<longleftrightarrow> (case rq_url rq of None \<Rightarrow> False | Some (path, q) \<Rightarrow> path = ''/login'' \<and> query_first q ''token'' [] = token)"

lemma digest_eq: "compare_digest a b = Inr True \<Longrightarrow> a = b"
  by (auto simp: compare_digest_def split: if_splits)

lemma cookie_token: "cookie_authed rq token = Inr True \<Longrightarrow> rq_cookie rq = Some token"
  by (auto simp: cookie_authed_def dest: digest_eq split: option.splits)

lemma authed_token: "authed cfg rq = Inr True \<Longrightarrow> sc_token cfg = Some token \<Longrightarrow> shows_token rq token"
  by (auto simp: authed_def shows_token_def bind_res_def dest: digest_eq cookie_token split: option.splits sum.splits if_splits)

lemma answer_plain [simp]: "rs_body (answer_with rq code (Plain t)) = Some p \<Longrightarrow> \<not> worker_data p"
  "rs_body (answer_with rq code Icon) = Some p \<Longrightarrow> \<not> worker_data p"
  by (auto simp: answer_with_def worker_data_def split: if_splits)

lemma answer_cookie [simp]: "rs_cookie (answer_with rq code body) = None"
  by (simp add: answer_with_def)

lemma route_cookie: "route cfg tv rq path q = Inr r \<Longrightarrow> rs_cookie r = None"
  by (auto simp: route_def feed_response_def bind_res_def split: sum.splits if_splits feed_answer.splits)

lemma login_answer: "handle_login cfg rq q token = Inr r \<Longrightarrow>
    (\<forall>p. rs_body r = Some p \<longrightarrow> \<not> worker_data p) \<and> (rs_cookie r \<noteq> None \<longrightarrow> query_first q ''token'' [] = token)"
  by (auto simp: handle_login_def bind_res_def dest: digest_eq split: sum.splits if_splits)

lemma gated_data:
  assumes "gated cfg tv rq = Inr r" "rs_body r = Some p" "worker_data p"
  shows "host_allowed cfg rq \<and> authed cfg rq = Inr True \<and> (\<exists>path q. route cfg tv rq path q = Inr r)"
  using assms by (auto simp: gated_def bind_res_def dest: login_answer split: if_splits option.splits sum.splits prod.splits)

lemma gated_cookie:
  assumes "gated cfg tv rq = Inr r" "rs_cookie r \<noteq> None"
  shows "\<exists>token. sc_token cfg = Some token \<and> host_allowed cfg rq \<and> logs_in rq token"
  using assms by (auto simp: gated_def logs_in_def bind_res_def dest: login_answer route_cookie
      split: if_splits option.splits sum.splits prod.splits)

text \<open>A body without transcript content.\<close>

definition metrics_only :: "reply_body \<Rightarrow> bool" where
  "metrics_only p = (case p of
     Rows rows \<Rightarrow> list_all (\<lambda>r. list_all (\<lambda>k. dget r k = None) TRANSCRIPT_FIELDS) rows
   | Feed _ _ _ _ \<Rightarrow> False
   | _ \<Rightarrow> True)"

lemma dwithout_gone: "k \<in> set ks \<Longrightarrow> dget (dwithout ks r) k = None"
  by (induction r) (auto simp: dwithout_def)

lemma route_metrics:
  assumes "route cfg tv rq path q = Inr r" "rs_body r = Some p" "\<not> sc_transcript cfg"
  shows "metrics_only p"
  using assms
  by (auto simp: route_def workers_json_def metrics_only_def answer_with_def bind_res_def list_all_iff dwithout_gone
      split: if_splits sum.splits)


end
