(* ===== verification/Web_Examples.thy ===== *)
theory Web_Examples
  imports Web_Feed_Props Top_Rows_Props Web_Server_Props
begin

text \<open>The dashboard on one watched directory with one session in it.\<close>

section \<open>Polls\<close>

definition example_loads :: "string \<Rightarrow> loaded" where
  "example_loads s = (if s = ''S'' then Loaded (JObj [(''cwd'', JStr ''/p''), (''type'', JStr ''user'')]) else if s = ''!'' then BadText else BadJson)"

definition example_texts :: "string \<Rightarrow> jval option" where
  "example_texts s = (if s = ''S'' then Some (JObj [(''cwd'', JStr ''/p''), (''type'', JStr ''user'')]) else if s = ''L'' then Some (JList []) else None)"

definition one_line :: string where "one_line = [CHR ''S'', newline]"

lemma one_line_length [simp]: "length one_line = 2"
  by (simp_all add: one_line_def)

lemma strip_one: "strip_bytes ''S'' = ''S''"
  by (simp add: strip_bytes_def is_blank_byte_def)

lemma upto_small: "upto_last_newline one_line = 2" "upto_last_newline [CHR ''S'', newline, CHR ''S''] = 2"
  by (simp_all add: upto_last_newline_def newline_def one_line_def)

lemma split_one: "split_on newline one_line = [''S'', []]" "split_on newline [CHR ''S'', newline] = [''S'', []]"
  by (simp_all add: newline_def one_line_def)

lemma read_one: "read_records example_loads [''S'', []] = Inr [JObj [(''cwd'', JStr ''/p''), (''type'', JStr ''user'')]]"
  by (simp add: strip_one example_loads_def)

theorem feed_exactly_once_witness:
  "polls example_loads [[CHR ''S'', newline, CHR ''S''], [CHR ''S'', newline, CHR ''S'']] 0
     = Inr ([JObj [(''cwd'', JStr ''/p''), (''type'', JStr ''user'')]], 2)
   \<and> records_of example_loads (span_of [CHR ''S'', newline, CHR ''S''] 0 2) = Inr [JObj [(''cwd'', JStr ''/p''), (''type'', JStr ''user'')]]"
proof -
  have run: "polls example_loads [[CHR ''S'', newline, CHR ''S''], [CHR ''S'', newline, CHR ''S'']] 0
     = Inr ([JObj [(''cwd'', JStr ''/p''), (''type'', JStr ''user'')]], 2)"
    by (simp add: read_feed_window_def FEED_READ_CAP_def upto_small split_one read_one upto_last_newline_def newline_def
        strip_one example_loads_def)
  then show ?thesis
    using feed_exactly_once[OF _ _ _ run, of "[]"] by simp
qed

theorem feed_wedged_witness:
  "polls example_loads [replicate FEED_READ_CAP (CHR ''S''), replicate FEED_READ_CAP (CHR ''S'') @ one_line] 0 = Inr ([], 0)"
  using feed_wedged[of "replicate FEED_READ_CAP (CHR ''S'')"
      "[replicate FEED_READ_CAP (CHR ''S''), replicate FEED_READ_CAP (CHR ''S'') @ one_line]" 0 example_loads]
  by (simp add: long_line_def newline_def)

section \<open>A session\<close>

definition example_feed :: "string \<Rightarrow> feed_view" where
  "example_feed content =
     \<lparr>fv_dirs = (\<lambda>d. if d = ''-p'' then [\<lparr>tf_sid = ''a1'', tf_age = 10, tf_bytes = Some content\<rparr>] else []),
      fv_entries = [], fv_stores = (\<lambda>_. None), fv_resolve = id, fv_loads = example_loads, fv_texts = example_texts\<rparr>"

definition example_top :: "string \<Rightarrow> top_view" where
  "example_top content =
     \<lparr>tv_feed = example_feed content,
      tv_os = example_os,
      tv_now = 0, tv_iso = (\<lambda>_. None)\<rparr>"

lemma encoded: "encode_project_dir ''/p'' = ''-p''"
  by (simp add: encode_project_dir_def is_ascii_alnum_def char_between_def is_digit_def DIGITS_def is_cont_def)

lemma example_dirs: "fv_dirs (example_feed c) (encode_project_dir ''/p'') = [\<lparr>tf_sid = ''a1'', tf_age = 10, tf_bytes = Some c\<rparr>]"
  by (simp add: example_feed_def encoded)

lemma example_confirms: "confirms example_texts ''/p'' \<lparr>tf_sid = ''a1'', tf_age = 10, tf_bytes = Some one_line\<rparr> = Inr True"
  by (simp add: confirms_def IDENTITY_SCAN_LINES_def split_one example_texts_def dtrue_def jget_def)

lemma example_tail: "tail_records example_loads (Some one_line) = Inr [JObj [(''cwd'', JStr ''/p''), (''type'', JStr ''user'')]]"
proof -
  have "tail_start one_line (length one_line) = 0"
    by (simp add: tail_start.simps TAIL_WANT_def TAIL_CHUNK_def one_line_def newline_def)
  then have "tail_start one_line 2 = 0"
    by simp
  then show ?thesis
    by (simp add: tail_records_def tail_lines_def split_one read_one last_of_def TAIL_WANT_def del: read_records.simps)
qed

theorem tail_is_the_end_witness:
  "\<exists>rs. tail_records example_loads (Some one_line) = Inr rs
    \<and> rs = last_of (length rs) [JObj [(''cwd'', JStr ''/p''), (''type'', JStr ''user'')]]"
  using tail_is_the_end[of example_loads one_line "[JObj [(''cwd'', JStr ''/p''), (''type'', JStr ''user'')]]"]
  by (auto simp: records_of_def split_one read_one simp del: read_records.simps)

definition example_row :: obj where
  "example_row =
     [(''phase_id'', JNull), (''ran_seconds'', JNull), (''heartbeat_age_seconds'', JNull), (''alive'', JNull),
      (''last_command'', JNull), (''command_running'', JBool False), (''last_write'', JNull),
      (''last_write_seconds'', JNull), (''last_text'', JNull), (''last_activity_seconds'', JNull), (''tokens'', JNull),
      (''attempts'', JNull), (''lease_remaining_seconds'', JNull), (''stuck'', JBool False),
      (''max_attempts'', JNull), (''phase_total'', JNull), (''phase_index'', JNull),
      (''session'', JBool True), (''session_name'', JStr ''p:a1''), (''session_id'', JStr ''a1''),
      (''plan'', JNull), (''project'', JStr ''p'')]"

lemma short_id: "text_take 8 ''a1'' = ''a1''"
  by code_simp

lemma example_rows: "gather_rows (example_top one_line) None [''/p''] = Inr [example_row]"
proof -
  have scope: "in_scope (example_top one_line) None = []" "scan_roots (example_top one_line) None [''/p''] = [''/p'']"
    by (simp_all add: in_scope_def scan_roots_def example_top_def matches_project_filter_def) (simp_all add: example_feed_def)
  have project: "last_component ''/p'' = ''p''"
    by (simp add: last_component_def)
  have row: "session_row (example_top one_line) nothing_claimed ''/p'' \<lparr>tf_sid = ''a1'', tf_age = 10, tf_bytes = Some one_line\<rparr>
      = Inr (Some (10, example_row))"
    by (simp add: session_row_def is_claimed_def nothing_claimed_def SESSION_FRESH_SECONDS_def example_top_def example_feed_def
        example_confirms example_tail project extract_activity_def see_record_def content_blocks_def jobj_def jget_def no_activity_def
        assemble_session_row_def base_row_def command_running_def age_seconds_def iso_of_def or_null_def example_row_def
        session_name_def name_or_def dtrue_def short_id)
  have "all_claimed [] = nothing_claimed"
    by (simp add: all_claimed_def nothing_claimed_def)
  moreover have "fv_dirs (tv_feed (example_top one_line)) (encode_project_dir ''/p'') = [\<lparr>tf_sid = ''a1'', tf_age = 10, tf_bytes = Some one_line\<rparr>]"
    by (simp add: example_top_def example_dirs)
  ultimately show ?thesis
    using row by (simp add: gather_rows_def scope gather_session_rows_def scan_dir_def map_filter_def)
qed

theorem rows_have_shape_witness:
  "gather_rows (example_top one_line) None [''/p''] = Inr [example_row] \<and> session_shape example_row"
  using rows_have_shape[OF example_rows] example_rows
  by (simp add: worker_shape_def blocked_shape_def example_row_def CLAIM_KEYS_def PLAN_KEYS_def)


theorem one_transcript_fails_all_witness: "\<exists>e. gather_rows (example_top [CHR ''L'', newline]) None [''/p''] = Inl e"
proof -
  have "split_on newline [CHR ''L'', newline] = [''L'', []]"
    by (simp add: newline_def)
  then have "confirms example_texts ''/p'' \<lparr>tf_sid = ''a1'', tf_age = 10, tf_bytes = Some [CHR ''L'', newline]\<rparr> = Inl AttributeError"
    by (simp add: confirms_def IDENTITY_SCAN_LINES_def example_texts_def)
  then have bad: "spoiled (example_feed [CHR ''L'', newline]) ''/p'' \<lparr>tf_sid = ''a1'', tf_age = 10, tf_bytes = Some [CHR ''L'', newline]\<rparr>"
    by (simp add: spoiled_def example_feed_def)
  have "nobody_works (example_top [CHR ''L'', newline]) None" "scan_roots (example_top [CHR ''L'', newline]) None [''/p''] = [''/p'']"
    by (simp_all add: nobody_works_def in_scope_def scan_roots_def example_top_def matches_project_filter_def)
      (simp_all add: example_feed_def)
  then show ?thesis
    using one_transcript_fails_all[of "example_top [CHR ''L'', newline]" None "''/p''" "[''/p'']"] bad
    by (simp add: example_top_def example_dirs SESSION_FRESH_SECONDS_def)
qed

section \<open>Requests\<close>

definition example_query :: http_query where
  "example_query = [(''proj'', [''p'']), (''sid'', [''a1'']), (''cursor'', [''0''])]"

theorem feed_serves_asked_witness:
  "\<exists>f evs. feed_json (example_feed one_line) example_query None [''/p''] = Inr (FeedOk evs 2 ''a1'' False)
     \<and> serves_session (example_feed one_line) example_query None [''/p''] f"
proof -
  have asked: "query_first example_query ''sid'' [] = ''a1''" "query_first example_query ''proj'' [] = ''p''"
    "query_first example_query ''cursor'' ''-1'' = ''0''" "query_first example_query ''tid'' [] = []"
    by (simp_all add: query_first_def example_query_def)
  have "resolve_session_transcript (example_feed one_line) ''p'' ''a1'' None [''/p'']
      = Inr (Some \<lparr>tf_sid = ''a1'', tf_age = 10, tf_bytes = Some one_line\<rparr>)"
    using example_confirms
    by (simp add: resolve_session_transcript_def session_roots_def project_entries_def matches_project_filter_def last_component_def
        SESSION_FRESH_SECONDS_def example_dirs) (simp add: example_feed_def encoded SESSION_FRESH_SECONDS_def)
  moreover have "slug_re_match ''a1''" "int_of_text ''0'' = Some 0"
    by code_simp+
  moreover have "read_feed_window example_loads one_line 0 = Inr ([JObj [(''cwd'', JStr ''/p''), (''type'', JStr ''user'')]], 2, False)"
    by (simp add: read_feed_window_def FEED_READ_CAP_def upto_small split_one read_one del: read_records.simps)
  moreover have "record_events (JObj [(''cwd'', JStr ''/p''), (''type'', JStr ''user'')]) = Inr []"
    by (simp add: record_events_def jget_def jobj_def content_blocks_def)
  ultimately have run: "feed_json (example_feed one_line) example_query None [''/p''] = Inr (FeedOk [] 2 ''a1'' False)"
    by (simp add: feed_json_def feed_resolved_def asked) (simp add: example_feed_def)
  show ?thesis
    using feed_serves_asked[OF run] run asked by auto
qed

definition lan_flags :: serve_flags where
  "lan_flags = \<lparr>sf_lan = True, sf_host = None, sf_port = 8787, sf_filter = None, sf_transcript = True,
     sf_cert = None, sf_key = None, sf_http = False, sf_dirs = [''/p'']\<rparr>"

definition lan_host :: serve_host where
  "lan_host = \<lparr>sh_lan_ip = Some ''10.0.0.5'', sh_ip = (\<lambda>_. Some (''10.0.0.5'', False)), sh_token_file = None, sh_fresh = ''tok'',
     sh_config_dir = ''/c'', sh_certs = False, sh_openssl = (\<lambda>_ _. Minted), sh_loads = (\<lambda>_ _. True)\<rparr>"

definition page_request :: "string option \<Rightarrow> request" where
  "page_request auth = \<lparr>rq_head = False, rq_url = Some (''/'', []), rq_host = Some ''10.0.0.5:8787'', rq_authorization = auth, rq_cookie = None\<rparr>"


end
