(* ===== verification/Skill_Sync.thy ===== *)
theory Skill_Sync
  imports Config Cmd_World
begin

text \<open>
  The installed copies of the bundled skills (\<open>skill_sync.py\<close>, and the refresh and the installation of
  \<open>cli.py\<close>): what lies at a skill's path, who wrote it, and the repair that brings clu's own copies up to
  date. Between the scan and each write others may change the files (\<open>sw_script\<close>).
\<close>

section \<open>Files\<close>

type_synonym path = "string list"

text \<open>
  \<open>sy_links\<close>: the paths that are symbolic links; \<open>sy_files\<close>: what reading a path gives, links followed, with
  \<open>None\<close> for a path that is there and cannot be read.
\<close>

record skill_fs =
  sy_links :: "path list"
  sy_files :: "(path \<times> string option) list"

text \<open>
  \<open>sv_bundled\<close>: the packaged text of a skill; \<open>sv_digest\<close>: its SHA-256; \<open>sv_manifest\<close>: the shipped manifest;
  \<open>sv_write_ok\<close>: writing the skill raises no \<open>OSError\<close>.
\<close>

record skill_env =
  sv_home :: path
  sv_bundled :: "string \<Rightarrow> string"
  sv_digest :: "string \<Rightarrow> string"
  sv_manifest :: json_file
  sv_write_ok :: "string \<Rightarrow> bool"

text \<open>
  \<open>sw_record\<close>: the table \<open>skills\<close> of the host database, \<open>None\<close> while it can be neither read nor written;
  \<open>sw_log\<close>: the writes so far, each with the files as it found them.
\<close>

record skill_world =
  sw_fs :: skill_fs
  sw_record :: "(string \<times> string) list option"
  sw_script :: "(skill_fs \<Rightarrow> skill_fs) list"
  sw_log :: "(string \<times> skill_fs) list"

datatype placement = PlFile | PlLink | PlAbsent | PlBroken | PlUnreadable
datatype content = InSync | Differs | UnknownContent
datatype provenance = Recognized | Foreign | NoBytes

record skill_status =
  ss_name :: string
  ss_placement :: placement
  ss_content :: content
  ss_writable :: bool
  ss_provenance :: provenance

abbreviation OSErr :: pyerr where "OSErr \<equiv> RuntimeErr ''OSError''"

definition BUNDLED_SKILLS :: "string list" where
  "BUNDLED_SKILLS = [''audit-skill'', ''brainstorm'', ''clu-monitor'', ''clu-phase'', ''clu-plan'', ''clu-reply'', ''plan'']"

definition VENDORED_SKILLS :: "string list" where
  "VENDORED_SKILLS = [''brainstorm'', ''plan'']"

definition installed_path :: "skill_env \<Rightarrow> string \<Rightarrow> path" where
  "installed_path env name = sv_home env @ [''.claude'', ''skills'', name, ''SKILL.md'']"

definition is_writable_target :: "skill_fs \<Rightarrow> path \<Rightarrow> bool" where
  "is_writable_target fs target \<longleftrightarrow>
     target \<notin> set (sy_links fs) \<and> \<not> list_ex (\<lambda>k. take k target \<in> set (sy_links fs)) [0..<length target]"

section \<open>The scan\<close>

text \<open>The fingerprints, and whether something is wrong with the manifest.\<close>

definition strings_of :: "jval list \<Rightarrow> string list" where
  "strings_of vs = List.map_filter (\<lambda>v. case v of JStr s \<Rightarrow> Some s | _ \<Rightarrow> None) vs"

definition load_manifest :: "json_file \<Rightarrow> ((string \<times> string list) list \<times> bool) res" where
  "load_manifest m = (case m of
     NoFile \<Rightarrow> Inr ([], False)
   | NotText \<Rightarrow> Inl UnicodeDecodeError
   | NotJson \<Rightarrow> Inr ([], True)
   | Json (JObj kvs) \<Rightarrow>
       Inr (List.map_filter (\<lambda>(k, v). case v of JList vs \<Rightarrow> Some (k, strings_of vs) | _ \<Rightarrow> None) kvs,
            list_ex (\<lambda>(k, v). case v of JList _ \<Rightarrow> False | _ \<Rightarrow> True) kvs)
   | Json _ \<Rightarrow> Inr ([], True))"

definition installed_record :: "skill_world \<Rightarrow> (string \<times> string) list" where
  "installed_record w = (case sw_record w of None \<Rightarrow> [] | Some r \<Rightarrow> r)"

definition classify_target :: "skill_env \<Rightarrow> skill_fs \<Rightarrow> string \<Rightarrow> placement \<times> content \<times> string option" where
  "classify_target env fs name =
     (let t = installed_path env name; link = t \<in> set (sy_links fs) in
      case map_of (sy_files fs) t of
        None \<Rightarrow> (if link then PlBroken else PlAbsent, UnknownContent, None)
      | Some None \<Rightarrow> (PlUnreadable, UnknownContent, None)
      | Some (Some b) \<Rightarrow>
          (if link then PlLink else PlFile, if b = sv_bundled env name then InSync else Differs, Some b))"

definition provenance_of :: "skill_env \<Rightarrow> string \<Rightarrow> string option \<Rightarrow> (string \<times> string) list \<Rightarrow> (string \<times> string list) list \<Rightarrow> provenance" where
  "provenance_of env name installed record manifest = (case installed of
     None \<Rightarrow> NoBytes
   | Some b \<Rightarrow>
       let d = sv_digest env b; shipped = (case map_of manifest name of None \<Rightarrow> [] | Some hs \<Rightarrow> hs) in
       if map_of record name = Some d \<or> d \<in> set shipped then Recognized else Foreign)"

definition status_of :: "skill_env \<Rightarrow> skill_world \<Rightarrow> (string \<times> string list) list \<Rightarrow> string \<Rightarrow> skill_status" where
  "status_of env w manifest name =
     (case classify_target env (sw_fs w) name of (placement, cont, installed) \<Rightarrow>
        \<lparr>ss_name = name, ss_placement = placement, ss_content = cont,
         ss_writable = is_writable_target (sw_fs w) (installed_path env name),
         ss_provenance = provenance_of env name installed (installed_record w) manifest\<rparr>)"

definition scan_skills :: "skill_env \<Rightarrow> skill_world \<Rightarrow> string list option \<Rightarrow> skill_status list res" where
  "scan_skills env w names =
     (let ns = (case names of None \<Rightarrow> BUNDLED_SKILLS | Some ns \<Rightarrow> ns) in
      if \<not> list_all (\<lambda>n. n \<in> set BUNDLED_SKILLS) ns then Inl (ValueErr ''not bundled'')
      else bind_res (load_manifest (sv_manifest env)) (\<lambda>(manifest, _). Inr (map (status_of env w manifest) ns)))"

section \<open>The repair\<close>

datatype repair_action = LeaveAlone | RefuseAs string | Rewrite

definition repair_action_of :: "skill_status \<Rightarrow> repair_action" where
  "repair_action_of s =
     (if ss_placement s = PlAbsent \<or> ss_content s = InSync then LeaveAlone
      else if ss_placement s = PlBroken then RefuseAs ''symlink''
      else if ss_placement s = PlUnreadable then RefuseAs ''unreadable''
      else if \<not> ss_writable s then RefuseAs ''symlink''
      else if ss_provenance s \<noteq> Recognized then RefuseAs ''foreign''
      else Rewrite)"

definition disturbed :: "skill_world \<Rightarrow> skill_world" where
  "disturbed w = (case sw_script w of [] \<Rightarrow> w | f # fs \<Rightarrow> w\<lparr>sw_fs := f (sw_fs w), sw_script := fs\<rparr>)"

definition replaced :: "skill_env \<Rightarrow> string \<Rightarrow> skill_fs \<Rightarrow> skill_fs" where
  "replaced env name fs =
     (let t = installed_path env name in
      \<lparr>sy_links = removeAll t (sy_links fs), sy_files = AList.update t (Some (sv_bundled env name)) (sy_files fs)\<rparr>)"

definition write_atomic :: "skill_env \<Rightarrow> string \<Rightarrow> skill_world \<Rightarrow> bool res \<times> skill_world" where
  "write_atomic env name w0 =
     (let w = disturbed w0 in
      if \<not> is_writable_target (sw_fs w) (installed_path env name) then (Inr False, w)
      else if \<not> sv_write_ok env name then (Inl OSErr, w)
      else (Inr True, w\<lparr>sw_fs := replaced env name (sw_fs w), sw_log := sw_log w @ [(name, sw_fs w)]\<rparr>))"

type_synonym repaired = "string list \<times> (string \<times> string) list"

definition and_refused :: "string \<Rightarrow> string \<Rightarrow> repaired res \<Rightarrow> repaired res" where
  "and_refused name reason r = bind_res r (\<lambda>(updated, refused). Inr (updated, (name, reason) # refused))"

definition and_updated :: "string \<Rightarrow> repaired res \<Rightarrow> repaired res" where
  "and_updated name r = bind_res r (\<lambda>(updated, refused). Inr (name # updated, refused))"

text \<open>The result, the pairs that were written, and the world.\<close>

fun repair_each :: "skill_env \<Rightarrow> skill_status list \<Rightarrow> skill_world \<Rightarrow> repaired res \<times> (string \<times> string) list \<times> skill_world" where
  "repair_each env [] w = (Inr ([], []), [], w)"
| "repair_each env (s # rest) w =
     (case repair_action_of s of
        LeaveAlone \<Rightarrow> repair_each env rest w
      | RefuseAs reason \<Rightarrow>
          (case repair_each env rest w of (r, written, w') \<Rightarrow> (and_refused (ss_name s) reason r, written, w'))
      | Rewrite \<Rightarrow>
          (case write_atomic env (ss_name s) w of
             (Inl e, w1) \<Rightarrow> (Inl e, [], w1)
           | (Inr False, w1) \<Rightarrow>
               (case repair_each env rest w1 of (r, written, w') \<Rightarrow> (and_refused (ss_name s) ''symlink'' r, written, w'))
           | (Inr True, w1) \<Rightarrow>
               (case repair_each env rest w1 of (r, written, w') \<Rightarrow>
                  (and_updated (ss_name s) r, (ss_name s, sv_digest env (sv_bundled env (ss_name s))) # written, w'))))"

definition record_installs :: "(string \<times> string) list \<Rightarrow> skill_world \<Rightarrow> unit res \<times> skill_world" where
  "record_installs pairs w =
     (if pairs = [] then (Inr (), w)
      else (case sw_record w of
              None \<Rightarrow> (Inl DbBusy, w)
            | Some r \<Rightarrow> (Inr (), w\<lparr>sw_record := Some (fold (\<lambda>(n, d). AList.update n d) pairs r)\<rparr>)))"

text \<open>The \<open>finally\<close> block records; an exception of its own takes the place of the first one.\<close>

definition repair :: "skill_env \<Rightarrow> string list option \<Rightarrow> skill_world \<Rightarrow> repaired res \<times> skill_world" where
  "repair env names w =
     (case scan_skills env w names of
        Inl e \<Rightarrow> (Inl e, w)
      | Inr ss \<Rightarrow>
          (case repair_each env ss w of (r, written, w1) \<Rightarrow>
            (case record_installs written w1 of
               (Inl e, w2) \<Rightarrow> (Inl e, w2)
             | (Inr _, w2) \<Rightarrow> (r, w2))))"

section \<open>The two callers\<close>

definition skill_degradable :: "pyerr \<Rightarrow> bool" where
  "skill_degradable e \<longleftrightarrow> e = DbBusy \<or> e = OSErr"

datatype refresh_line = RefreshFailed | RefreshLine "string list" "(string \<times> string) list"

definition refresh_bundled_skills :: "skill_env \<Rightarrow> skill_world \<Rightarrow> refresh_line option res \<times> skill_world" where
  "refresh_bundled_skills env w =
     (case repair env None w of
        (Inl e, w') \<Rightarrow> (if skill_degradable e then Inr (Some RefreshFailed) else Inl e, w')
      | (Inr (updated, refused), w') \<Rightarrow>
          (let shown = filter (\<lambda>(n, _). n \<notin> set VENDORED_SKILLS) refused in
           (Inr (if updated = [] \<and> shown = [] then None else Some (RefreshLine updated shown)), w')))"

text \<open>\<open>clu install-skill\<close>: \<open>only\<close> and \<open>--force\<close>, \<open>--dry-run\<close>.\<close>

definition target_there :: "skill_env \<Rightarrow> skill_fs \<Rightarrow> string \<Rightarrow> bool" where
  "target_there env fs name \<longleftrightarrow>
     installed_path env name \<in> set (sy_links fs) \<or> map_of (sy_files fs) (installed_path env name) \<noteq> None"

definition install_collides :: "skill_env \<Rightarrow> skill_fs \<Rightarrow> string \<Rightarrow> bool" where
  "install_collides env fs name \<longleftrightarrow> target_there env fs name \<and> installed_path env name \<notin> set (sy_links fs)"

text \<open>
  What was there at the check is unlinked first, so a write that fails has lost it; without it the write
  follows a link that is there now.
\<close>

definition removed_target :: "skill_env \<Rightarrow> string \<Rightarrow> skill_fs \<Rightarrow> skill_fs" where
  "removed_target env name fs =
     (let t = installed_path env name in
      \<lparr>sy_links = removeAll t (sy_links fs), sy_files = AList.delete t (sy_files fs)\<rparr>)"

definition overwritten :: "skill_env \<Rightarrow> string \<Rightarrow> skill_fs \<Rightarrow> skill_fs" where
  "overwritten env name fs =
     fs\<lparr>sy_files := AList.update (installed_path env name) (Some (sv_bundled env name)) (sy_files fs)\<rparr>"

definition install_one :: "skill_env \<Rightarrow> string \<times> bool \<Rightarrow> skill_world \<Rightarrow> unit res \<times> skill_world" where
  "install_one env plan w0 =
     (let w = disturbed w0; name = fst plan; fs = (if snd plan then removed_target env name (sw_fs w) else sw_fs w) in
      if snd plan \<and> \<not> target_there env (sw_fs w) name then (Inl OSErr, w)
      else if \<not> sv_write_ok env name then (Inl OSErr, w\<lparr>sw_fs := fs\<rparr>)
      else
        (let w1 = w\<lparr>sw_fs := overwritten env name fs, sw_log := sw_log w @ [(name, sw_fs w)]\<rparr> in
         case record_installs [(name, sv_digest env (sv_bundled env name))] w1 of (_, w2) \<Rightarrow> (Inr (), w2)))"

fun install_each :: "skill_env \<Rightarrow> (string \<times> bool) list \<Rightarrow> skill_world \<Rightarrow> unit res \<times> skill_world" where
  "install_each env [] w = (Inr (), w)"
| "install_each env (n # ns) w =
     (case install_one env n w of (Inl e, w1) \<Rightarrow> (Inl e, w1) | (Inr _, w1) \<Rightarrow> install_each env ns w1)"

definition cmd_install_skill :: "skill_env \<Rightarrow> string option \<Rightarrow> bool \<Rightarrow> bool \<Rightarrow> skill_world \<Rightarrow> exit_code res \<times> skill_world" where
  "cmd_install_skill env only force dry w =
     (if (case only of None \<Rightarrow> False | Some n \<Rightarrow> n \<notin> set BUNDLED_SKILLS) then (Inr GENERIC, w)
      else
        (let names = (case only of None \<Rightarrow> BUNDLED_SKILLS | Some n \<Rightarrow> [n]) in
         if \<not> force \<and> list_ex (install_collides env (sw_fs w)) names then (Inr STATUS_TRANSITION, w)
         else if dry then (Inr OK, w)
         else (case install_each env (map (\<lambda>n. (n, target_there env (sw_fs w) n)) names) w of
                 (Inl e, w') \<Rightarrow> (Inl e, w')
               | (Inr _, w') \<Rightarrow> (Inr OK, w'))))"

end
