(* ===== verification/Skill_Sync_Props.thy ===== *)
theory Skill_Sync_Props
  imports Skill_Sync
begin

text \<open>
  What the repair of the installed skills promises: it writes only copies that clu itself had written, never
  through a symbolic link, and puts every write on record; left alone it settles in one run. And what it does not:
  an edit made after the scan is overwritten.
\<close>

section \<open>Whose copy\<close>

text \<open>The digests that count as clu's own.\<close>

definition own_digest :: "skill_env \<Rightarrow> skill_world \<Rightarrow> string \<Rightarrow> string \<Rightarrow> bool" where
  "own_digest env w name d \<longleftrightarrow> map_of (installed_record w) name = Some d
     \<or> (case load_manifest (sv_manifest env) of
          Inl _ \<Rightarrow> False
        | Inr (manifest, _) \<Rightarrow> (case map_of manifest name of None \<Rightarrow> False | Some hs \<Rightarrow> d \<in> set hs))"

text \<open>A copy that is behind, and that clu wrote.\<close>

definition own_copy :: "skill_env \<Rightarrow> skill_world \<Rightarrow> string \<Rightarrow> bool" where
  "own_copy env w name \<longleftrightarrow>
     (case map_of (sy_files (sw_fs w)) (installed_path env name) of
        Some (Some b) \<Rightarrow> b \<noteq> sv_bundled env name \<and> own_digest env w name (sv_digest env b)
      | _ \<Rightarrow> False)"

lemma rewrite_own:
  assumes "load_manifest (sv_manifest env) = Inr (m, bad)"
  shows "repair_action_of (status_of env w m name) = Rewrite \<longleftrightarrow>
    own_copy env w name \<and> is_writable_target (sw_fs w) (installed_path env name)"
  using assms
  by (auto simp: repair_action_of_def status_of_def classify_target_def own_copy_def own_digest_def provenance_of_def Let_def
      split: option.splits)

lemma status_name [simp]: "ss_name (status_of env w m name) = name"
  by (simp add: status_of_def split: prod.splits)

lemma scan_statuses:
  "scan_skills env w names = Inr ss \<Longrightarrow>
    \<exists>m bad. load_manifest (sv_manifest env) = Inr (m, bad) \<and> ss = map (status_of env w m) (case names of None \<Rightarrow> BUNDLED_SKILLS | Some ns \<Rightarrow> ns)"
  by (auto simp: scan_skills_def Let_def bind_res_def split: if_splits sum.splits prod.splits)

section \<open>Every write\<close>

lemma disturbed_same [simp]: "sw_record (disturbed w) = sw_record w" "sw_log (disturbed w) = sw_log w"
  by (simp_all add: disturbed_def split: list.splits)

lemma disturbed_quiet: "sw_script w = [] \<Longrightarrow> disturbed w = w"
  by (simp add: disturbed_def)

definition safe_write :: "skill_env \<Rightarrow> string \<times> skill_fs \<Rightarrow> bool" where
  "safe_write env wr \<longleftrightarrow> is_writable_target (snd wr) (installed_path env (fst wr))"

lemma write_atomic_trail:
  "write_atomic env name w = (r, w') \<Longrightarrow>
    sw_record w' = sw_record w \<and> (if r = Inr True then \<exists>fs. sw_log w' = sw_log w @ [(name, fs)] \<and> safe_write env (name, fs) else sw_log w' = sw_log w)"
  by (auto simp: write_atomic_def Let_def safe_write_def split: if_splits)

definition refusals :: "skill_status list \<Rightarrow> (string \<times> string) list" where
  "refusals ss = List.map_filter (\<lambda>s. case repair_action_of s of RefuseAs reason \<Rightarrow> Some (ss_name s, reason) | _ \<Rightarrow> None) ss"

definition rewritten :: "skill_status list \<Rightarrow> string list" where
  "rewritten ss = map ss_name (filter (\<lambda>s. repair_action_of s = Rewrite) ss)"

lemma refusals_simps [simp]:
  "refusals [] = []"
  "refusals (s # ss) = (case repair_action_of s of RefuseAs reason \<Rightarrow> [(ss_name s, reason)] | _ \<Rightarrow> []) @ refusals ss"
  by (simp_all add: refusals_def map_filter_def split: repair_action.splits)

lemma rewritten_simps [simp]:
  "rewritten [] = []"
  "rewritten (s # ss) = (if repair_action_of s = Rewrite then [ss_name s] else []) @ rewritten ss"
  by (simp_all add: rewritten_def)

lemma set_rewritten: "set (rewritten ss) = {ss_name s | s. s \<in> set ss \<and> repair_action_of s = Rewrite}"
  by (auto simp: rewritten_def)

definition receipt :: "skill_env \<Rightarrow> string \<Rightarrow> string \<times> string" where
  "receipt env n = (n, sv_digest env (sv_bundled env n))"

definition trail_of :: "skill_env \<Rightarrow> skill_status list \<Rightarrow> skill_world \<Rightarrow> (string \<times> string) list \<Rightarrow> skill_world \<Rightarrow> (string \<times> skill_fs) list \<Rightarrow> bool" where
  "trail_of env ss w written w' new \<longleftrightarrow>
     sw_log w' = sw_log w @ new \<and> sw_record w' = sw_record w \<and> list_all (safe_write env) new
     \<and> written = map (receipt env) (map fst new) \<and> set (map fst new) \<subseteq> set (rewritten ss)"

lemma trail_Nil: "sw_log w' = sw_log w \<Longrightarrow> sw_record w' = sw_record w \<Longrightarrow> trail_of env ss w [] w' []"
  by (simp add: trail_of_def)

lemma trail_skip: "trail_of env ss w1 written w' new \<Longrightarrow> sw_log w1 = sw_log w \<Longrightarrow> sw_record w1 = sw_record w \<Longrightarrow>
    trail_of env (s # ss) w written w' new"
  by (auto simp: trail_of_def)

lemma trail_write: "trail_of env ss w1 written w' new \<Longrightarrow> sw_log w1 = sw_log w @ [(ss_name s, fs)] \<Longrightarrow> sw_record w1 = sw_record w \<Longrightarrow>
    safe_write env (ss_name s, fs) \<Longrightarrow> repair_action_of s = Rewrite \<Longrightarrow>
    trail_of env (s # ss) w (receipt env (ss_name s) # written) w' ((ss_name s, fs) # new)"
  by (auto simp: trail_of_def)

lemma repair_each_trail: "repair_each env ss w = (r, written, w') \<Longrightarrow> \<exists>new. trail_of env ss w written w' new"
proof (induction ss arbitrary: w r written w')
  case Nil
  then show ?case
    using trail_Nil[of w w] by auto
next
  case (Cons s ss)
  show ?case
  proof (cases "repair_action_of s")
    case Rewrite
    obtain a w1 where a: "write_atomic env (ss_name s) w = (a, w1)"
      by fastforce
    note wr = write_atomic_trail[OF a]
    consider (raised) e where "a = Inl e" | (unsafe) "a = Inr False" | (written) "a = Inr True"
      by (cases a) auto
    then show ?thesis
    proof cases
      case raised
      then show ?thesis
        using Cons.prems Rewrite a wr trail_Nil[of w1 w] by auto
    next
      case unsafe
      obtain r2 where "repair_each env ss w1 = (r2, written, w')"
        using Cons.prems Rewrite a unsafe by (auto split: prod.splits)
      with Cons.IH obtain new where "trail_of env ss w1 written w' new"
        by blast
      then show ?thesis
        using trail_skip[of env ss w1 written w' new w s] wr unsafe by auto
    next
      case written
      obtain r2 written2 where "repair_each env ss w1 = (r2, written2, w')" and here: "written = receipt env (ss_name s) # written2"
        using Cons.prems Rewrite a written by (auto simp: receipt_def split: prod.splits)
      with Cons.IH obtain new where "trail_of env ss w1 written2 w' new"
        by blast
      then show ?thesis
        using trail_write[OF _ _ _ _ Rewrite] wr written here by fastforce
    qed
  next
    case LeaveAlone
    then have "repair_each env ss w = (r, written, w')"
      using Cons.prems by simp
    with Cons.IH trail_skip[of env ss w written w' _ w s] show ?thesis
      by blast
  next
    case (RefuseAs reason)
    then obtain r2 where "repair_each env ss w = (r2, written, w')"
      using Cons.prems by (auto split: prod.splits)
    with Cons.IH trail_skip[of env ss w written w' _ w s] show ?thesis
      by blast
  qed
qed

definition noted :: "(string \<times> string) list \<Rightarrow> (string \<times> string) list \<Rightarrow> (string \<times> string) list" where
  "noted pairs r = fold (\<lambda>(n, d). AList.update n d) pairs r"

lemma recorded_all:
  "n \<in> set ns \<or> map_of r n = Some (snd (receipt env n)) \<Longrightarrow> map_of (noted (map (receipt env) ns) r) n = Some (snd (receipt env n))"
  unfolding noted_def by (induction ns arbitrary: r) (auto simp: receipt_def update_conv)

lemma others_recorded: "n \<notin> set ns \<Longrightarrow> map_of (noted (map (receipt env) ns) r) n = map_of r n"
  unfolding noted_def by (induction ns arbitrary: r) (auto simp: receipt_def update_conv)

lemma record_run: "sw_record w = Some r \<Longrightarrow>
    record_installs pairs w = (Inr (), if pairs = [] then w else w\<lparr>sw_record := Some (noted pairs r)\<rparr>)"
  by (simp add: record_installs_def noted_def)

text \<open>The receipts of the writes, or no host database to hold them.\<close>

definition receipts :: "skill_env \<Rightarrow> (string \<times> skill_fs) list \<Rightarrow> skill_world \<Rightarrow> bool" where
  "receipts env new w = (case sw_record w of
     None \<Rightarrow> new = []
   | Some r \<Rightarrow> list_all (\<lambda>(n, _). map_of r n = Some (sv_digest env (sv_bundled env n))) new)"


section \<open>A repair on its own\<close>

lemma removeAll_writable: "is_writable_target fs t \<Longrightarrow> removeAll t (sy_links fs) = sy_links fs"
  by (simp add: is_writable_target_def removeAll_id)

lemma replaced_links: "is_writable_target fs (installed_path env n) \<Longrightarrow> sy_links (replaced env n fs) = sy_links fs"
  by (simp add: replaced_def Let_def removeAll_writable)

lemma writable_links: "sy_links fs' = sy_links fs \<Longrightarrow> is_writable_target fs' t = is_writable_target fs t"
  by (simp add: is_writable_target_def)

lemma quiet_repair_each:
  assumes "sw_script w = []" "list_all (\<lambda>s. repair_action_of s = Rewrite \<longrightarrow>
      sv_write_ok env (ss_name s) \<and> is_writable_target (sw_fs w) (installed_path env (ss_name s))) ss"
  shows "\<exists>w'. repair_each env ss w = (Inr (rewritten ss, refusals ss),
        map (receipt env) (rewritten ss), w')
      \<and> sw_script w' = [] \<and> sw_record w' = sw_record w \<and> sy_links (sw_fs w') = sy_links (sw_fs w)
      \<and> map_of (sy_files (sw_fs w')) = (\<lambda>t. if t \<in> set (map (installed_path env) (rewritten ss))
            then Some (Some (sv_bundled env (last (butlast t)))) else map_of (sy_files (sw_fs w)) t)"
    (is "\<exists>w'. _ \<and> ?Q ss w w'")
  using assms
proof (induction ss arbitrary: w)
  case Nil
  then show ?case
    by simp
next
  case (Cons s ss)
  show ?case
  proof (cases "repair_action_of s")
    case Rewrite
    let ?n = "ss_name s"
    let ?w1 = "w\<lparr>sw_fs := replaced env ?n (sw_fs w), sw_log := sw_log w @ [(?n, sw_fs w)]\<rparr>"
    have ok: "sv_write_ok env ?n" "is_writable_target (sw_fs w) (installed_path env ?n)"
      using Cons.prems(2) Rewrite by simp_all
    then have wr: "write_atomic env ?n w = (Inr True, ?w1)"
      by (simp add: write_atomic_def disturbed_quiet[OF Cons.prems(1)])
    have links: "sy_links (sw_fs ?w1) = sy_links (sw_fs w)"
      using replaced_links[OF ok(2)] by simp
    have "list_all (\<lambda>s. repair_action_of s = Rewrite \<longrightarrow>
      sv_write_ok env (ss_name s) \<and> is_writable_target (sw_fs ?w1) (installed_path env (ss_name s))) ss"
      using Cons.prems(2) writable_links[OF links] by simp
    from Cons.IH[OF _ this] Cons.prems(1) obtain w' where
      w': "repair_each env ss ?w1 = (Inr (rewritten ss, refusals ss), map (receipt env) (rewritten ss), w')"
        "sw_script w' = []" "sw_record w' = sw_record w" "sy_links (sw_fs w') = sy_links (sw_fs w)"
        "map_of (sy_files (sw_fs w')) = (\<lambda>t. if t \<in> set (map (installed_path env) (rewritten ss))
            then Some (Some (sv_bundled env (last (butlast t)))) else map_of (sy_files (sw_fs ?w1)) t)"
      using links by auto
    have "last (butlast (installed_path env ?n)) = ?n"
      by (simp add: installed_path_def butlast_append)
    then show ?thesis
      using w' wr Rewrite
      by (intro exI[of _ w']) (auto simp: and_updated_def replaced_def receipt_def Let_def update_conv fun_eq_iff)
  next
    case (RefuseAs reason)
    obtain w' where "repair_each env ss w = (Inr (rewritten ss, refusals ss), map (receipt env) (rewritten ss), w')"
      "?Q ss w w'"
      using Cons by auto
    then show ?thesis
      using RefuseAs by (intro exI[of _ w']) (simp add: and_refused_def)
  next
    case LeaveAlone
    then show ?thesis
      using Cons by simp
  qed
qed

text \<open>
  C1. Left alone, a repair settles: the copies that were clu's own and behind are now the bundled ones, every
  other file and every link is as it was, and a second repair updates nothing and refuses the same.
\<close>

theorem repair_settles:
  assumes "sw_script w = []" "sw_record w = Some record" "list_all (sv_write_ok env) (case names of None \<Rightarrow> BUNDLED_SKILLS | Some ns \<Rightarrow> ns)"
    and "repair env names w = (Inr (updated, refused), w')"
  shows "(\<forall>n \<in> set (case names of None \<Rightarrow> BUNDLED_SKILLS | Some ns \<Rightarrow> ns).
        n \<in> set updated \<longleftrightarrow> own_copy env w n \<and> is_writable_target (sw_fs w) (installed_path env n))
    \<and> (\<forall>n \<in> set updated. map_of (sy_files (sw_fs w')) (installed_path env n) = Some (Some (sv_bundled env n)))
    \<and> (\<forall>t. t \<notin> set (map (installed_path env) updated) \<longrightarrow> map_of (sy_files (sw_fs w')) t = map_of (sy_files (sw_fs w)) t)
    \<and> sy_links (sw_fs w') = sy_links (sw_fs w)
    \<and> repair env names w' = (Inr ([], refused), w')"
proof -
  let ?ns = "case names of None \<Rightarrow> BUNDLED_SKILLS | Some ns \<Rightarrow> ns"
  obtain ss where scan: "scan_skills env w names = Inr ss"
    using assms(4) by (cases "scan_skills env w names") (auto simp: repair_def)
  obtain m bad where m: "load_manifest (sv_manifest env) = Inr (m, bad)" and ss: "ss = map (status_of env w m) ?ns"
    using scan_statuses[OF scan] by blast
  have "list_all (\<lambda>s. repair_action_of s = Rewrite \<longrightarrow>
      sv_write_ok env (ss_name s) \<and> is_writable_target (sw_fs w) (installed_path env (ss_name s))) ss"
    using assms(3) rewrite_own[OF m] by (auto simp: ss list_all_iff)
  from quiet_repair_each[OF assms(1) this] obtain w1 where
    w1: "repair_each env ss w = (Inr (rewritten ss, refusals ss), map (receipt env) (rewritten ss), w1)"
      "sw_script w1 = []" "sw_record w1 = Some record" "sy_links (sw_fs w1) = sy_links (sw_fs w)"
      "map_of (sy_files (sw_fs w1)) = (\<lambda>t. if t \<in> set (map (installed_path env) (rewritten ss))
          then Some (Some (sv_bundled env (last (butlast t)))) else map_of (sy_files (sw_fs w)) t)"
    using assms(2) by auto
  have w': "w' = snd (record_installs (map (receipt env) (rewritten ss)) w1)"
    and lists: "updated = rewritten ss" "refused = refusals ss"
    using assms(4) by (auto simp: repair_def scan w1(1) record_run[OF w1(3)])
  have same_fs: "sw_fs w' = sw_fs w1"
    by (simp add: w' record_installs_def split: option.splits)
  have rec: "map_of (installed_record w') n = map_of (installed_record w) n" if "n \<notin> set updated" for n
    using that assms(2) w1(3) lists(1) by (simp add: w' record_run[OF w1(3)] installed_record_def others_recorded)
  have up: "n \<in> set updated \<longleftrightarrow> repair_action_of (status_of env w m n) = Rewrite" if "n \<in> set ?ns" for n
    using that unfolding lists set_rewritten ss by (auto intro!: exI[of _ "status_of env w m n"])
  have new: "map_of (sy_files (sw_fs w')) (installed_path env n) = Some (Some (sv_bundled env n))" if "n \<in> set updated" for n
    using that by (simp add: same_fs w1(5) lists installed_path_def butlast_append)
  have old: "map_of (sy_files (sw_fs w')) t = map_of (sy_files (sw_fs w)) t" if "t \<notin> set (map (installed_path env) updated)" for t
    using that by (auto simp: same_fs w1(5) lists)
  have quiet: "repair_action_of (status_of env w' m n) = LeaveAlone" if "n \<in> set updated" for n
    using new[OF that] by (simp add: repair_action_of_def status_of_def classify_target_def Let_def)
  have same: "status_of env w' m n = status_of env w m n" if "n \<notin> set updated" for n
  proof -
    have "installed_path env n \<notin> set (map (installed_path env) updated)"
      using that by (auto simp: installed_path_def)
    then show ?thesis
      using old rec[OF that] w1(4)
      by (simp add: status_of_def classify_target_def provenance_of_def is_writable_target_def same_fs Let_def
          split: option.splits)
  qed
  have again: "scan_skills env w' names = Inr (map (status_of env w' m) ?ns)"
    using scan m by (auto simp: scan_skills_def Let_def split: if_splits)
  have settled: "repair_each env (map (status_of env w' m) ns) w' = (Inr ([], refusals (map (status_of env w m) ns)), [], w')"
    if "set ns \<subseteq> set ?ns" for ns
    using that
  proof (induction ns)
    case Nil
    then show ?case
      by simp
  next
    case (Cons n ns)
    show ?case
    proof (cases "n \<in> set updated")
      case True
      then show ?thesis
        using Cons quiet[OF True] up[of n] by simp
    next
      case False
      then have "repair_action_of (status_of env w m n) \<noteq> Rewrite"
        using Cons.prems up[of n] by simp
      then show ?thesis
        using Cons same[OF False]
        by (cases "repair_action_of (status_of env w m n)") (simp_all add: and_refused_def)
    qed
  qed
  have "repair env names w' = (Inr ([], refused), w')"
    using settled[OF subset_refl] by (simp add: repair_def again record_installs_def lists ss)
  then show ?thesis
    using up new old w1(4) rewrite_own[OF m] same_fs by simp
qed

section \<open>An edit after the scan\<close>

text \<open>
  C1. The bytes are not looked at again before the write: whatever somebody writes into one of clu's own copies
  between the scan and the write is overwritten and reported as updated, although it is nobody's
  but theirs.
\<close>

theorem late_edit_is_lost:
  assumes "name \<in> set BUNDLED_SKILLS" "own_copy env w name" "is_writable_target (sw_fs w) (installed_path env name)"
    and "load_manifest (sv_manifest env) = Inr (m, bad)" "sv_write_ok env name" "sw_record w = Some record"
    and "sw_script w = (\<lambda>fs. fs\<lparr>sy_files := AList.update (installed_path env name) (Some edit) (sy_files fs)\<rparr>) # rest"
  shows "\<exists>w'. repair env (Some [name]) w = (Inr ([name], []), w')
    \<and> map_of (sy_files (sw_fs w')) (installed_path env name) = Some (Some (sv_bundled env name))"
proof -
  let ?fs = "(sw_fs w)\<lparr>sy_files := AList.update (installed_path env name) (Some edit) (sy_files (sw_fs w))\<rparr>"
  have "scan_skills env w (Some [name]) = Inr [status_of env w m name]"
    using assms(1,4) by (simp add: scan_skills_def)
  moreover have "repair_action_of (status_of env w m name) = Rewrite"
    using rewrite_own[OF assms(4)] assms(2,3) by blast
  moreover have "is_writable_target ?fs (installed_path env name)"
    using assms(3) by (simp add: is_writable_target_def)
  ultimately show ?thesis
    using assms(5-7)
    by (auto simp: repair_def write_atomic_def disturbed_def record_installs_def and_updated_def replaced_def Let_def update_conv)
qed

end
