(* ===== verification/Skill_Sync_Examples.thy ===== *)
theory Skill_Sync_Examples
  imports Skill_Sync_Props
begin

text \<open>One skill, installed by an older release.\<close>

definition example_skills :: skill_env where
  "example_skills = \<lparr>sv_home = [''h''], sv_bundled = (\<lambda>_. ''new''), sv_digest = id,
     sv_manifest = Json (JObj [(''plan'', JList [JStr ''old''])]), sv_write_ok = (\<lambda>_. True)\<rparr>"

definition example_installed :: "(skill_fs \<Rightarrow> skill_fs) list \<Rightarrow> skill_world" where
  "example_installed script =
     \<lparr>sw_fs = \<lparr>sy_links = [], sy_files = [(installed_path example_skills ''plan'', Some ''old'')]\<rparr>,
      sw_record = Some [], sw_script = script, sw_log = []\<rparr>"

lemma example_manifest: "load_manifest (sv_manifest example_skills) = Inr ([(''plan'', [''old''])], False)"
  by (simp add: load_manifest_def example_skills_def strings_of_def map_filter_def)

lemma example_own: "own_copy example_skills (example_installed script) ''plan''"
  unfolding own_copy_def own_digest_def example_manifest
  by (simp add: example_installed_def) (simp add: example_skills_def)

lemma example_writable: "is_writable_target (sw_fs (example_installed script)) t"
  by (simp add: is_writable_target_def example_installed_def list_ex_iff)

lemma example_bundled: "''plan'' \<in> set BUNDLED_SKILLS"
  by (simp add: BUNDLED_SKILLS_def)

lemma example_repair:
  "\<exists>w'. repair example_skills (Some [''plan'']) (example_installed []) = (Inr ([''plan''], []), w')
    \<and> map fst (sw_log w') = [''plan'']"
proof -
  have "scan_skills example_skills (example_installed []) (Some [''plan''])
      = Inr [status_of example_skills (example_installed []) [(''plan'', [''old''])] ''plan'']"
    using example_bundled by (simp add: scan_skills_def example_manifest)
  moreover have "repair_action_of (status_of example_skills (example_installed []) [(''plan'', [''old''])] ''plan'') = Rewrite"
    using rewrite_own[OF example_manifest] example_own example_writable by blast
  moreover have "disturbed (example_installed []) = example_installed []"
    by (simp add: disturbed_def example_installed_def)
  moreover have "sv_write_ok example_skills ''plan''"
    by (simp add: example_skills_def)
  moreover have "sw_record (example_installed []) = Some []" "sw_log (example_installed []) = []"
    by (simp_all add: example_installed_def)
  ultimately show ?thesis
    by (simp add: repair_def write_atomic_def example_writable record_installs_def and_updated_def Let_def)
qed


theorem repair_settles_witness:
  "\<exists>w'. repair example_skills (Some [''plan'']) (example_installed []) = (Inr ([''plan''], []), w')
    \<and> repair example_skills (Some [''plan'']) w' = (Inr ([], []), w')"
proof -
  obtain w' where run: "repair example_skills (Some [''plan'']) (example_installed []) = (Inr ([''plan''], []), w')"
    using example_repair by (elim exE conjE)
  moreover have "sw_script (example_installed []) = []" "sw_record (example_installed []) = Some []"
    "list_all (sv_write_ok example_skills) (case Some [''plan''] of None \<Rightarrow> BUNDLED_SKILLS | Some ns \<Rightarrow> ns)"
    by (simp_all add: example_installed_def example_skills_def)
  ultimately show ?thesis
    using repair_settles[of "example_installed []" "[]" example_skills "Some [''plan'']" "[''plan'']" "[]" w'] by blast
qed

definition my_edit :: "skill_fs \<Rightarrow> skill_fs" where
  "my_edit fs = fs\<lparr>sy_files := AList.update (installed_path example_skills ''plan'') (Some ''mine'') (sy_files fs)\<rparr>"

theorem late_edit_is_lost_witness:
  "\<exists>w'. repair example_skills (Some [''plan'']) (example_installed [my_edit]) = (Inr ([''plan''], []), w')
    \<and> map_of (sy_files (sw_fs w')) (installed_path example_skills ''plan'') = Some (Some ''new'')"
proof -
  have ok: "sv_write_ok example_skills ''plan''" "sw_record (example_installed [my_edit]) = Some []"
    and edit: "sw_script (example_installed [my_edit]) =
       (\<lambda>fs. fs\<lparr>sy_files := AList.update (installed_path example_skills ''plan'') (Some ''mine'') (sy_files fs)\<rparr>) # []"
    and "sv_bundled example_skills ''plan'' = ''new''"
    by (simp_all add: example_skills_def example_installed_def my_edit_def[abs_def])
  with late_edit_is_lost[OF example_bundled example_own example_writable example_manifest ok edit] show ?thesis
    by simp
qed

end
