(* ===== verification/Spec2Isabelle.thy ===== *)
theory Spec2Isabelle
  imports Store_Examples Supervisor_Release Plan_Parser Queue_Props Sweep Replies_Props Heartbeat_Daemon Dispatch_Examples Config_Props
    Inbox_Surface Fleet Tick_All_Examples Watch_Props Ship_Examples Worktree_Examples Queue_Cmds_Examples Web_Examples Skill_Sync_Examples
begin

text \<open>
  End of Line runs plans. A plan is a Markdown document with a table of phases; a supervisor
  looks at every plan once a tick, claims the next phase for a fresh worker process, watches the
  worker through heartbeats, its process and its lease, releases the claim of a dead one, and
  relays the questions (blockers) a worker asks to the operator. All state of a project is in one
  SQLite database, written by the supervisor, the workers and the operator at once; a second
  database per host holds the registry of plans and an inbox of events. This development models
  the Python sources under \<open>src/end_of_line\<close> from the rows of that database up to the handlers of
  the command line, the cross-plan rules, the notification path, the event stream and the web
  dashboard.

  \<^bold>\<open>Foundations.\<close> \<open>Prelude\<close>: dictionaries as association lists (\<open>obj\<close>), dynamic values (\<open>jval\<close>),
  exceptions as values (\<open>pyerr\<close>, \<open>'a res\<close>), transactions, time in microseconds. \<open>Py_Text\<close>: the string
  operations used. \<open>Slugs\<close> (\<open>state.py\<close>): plan names and the command-line marker. \<open>Processes\<close>
  (\<open>state.py\<close>, \<open>supervisor.py\<close>): liveness, the process-group reaper, \<open>ps\<close> and the process tree.

  \<^bold>\<open>A plan and its store.\<close> \<open>Plan_Doc\<close>, \<open>Claims\<close>, \<open>Blockers\<close> (\<open>state.py\<close>, \<open>state_blocker.py\<close>): the plan document
  and the rules on it. \<open>Store_Tables\<close>, \<open>Plan_Store\<close>, \<open>Tick_Apply\<close> (\<open>plan_store.py\<close>, \<open>db.py\<close>): the
  tables, the row codecs, one definition per native operation, and the conditional apply at the end of a
  tick. \<open>Store_Inv\<close>: the invariant \<open>db_ok\<close> and the contract of one operation. \<open>Store_Steps\<close>: the store as a
  transition system, with the locales \<open>append_only_log\<close> (interpreted as \<open>store_log\<close>) and
  \<open>token_guarded\<close> (\<open>store_claims\<close>). \<open>Store_Examples\<close>: concrete runs. \<open>Plan_Queue\<close>, \<open>Queue_Laws\<close>,
  \<open>Queue_Props\<close> (\<open>queue.py\<close>): the queue of plans, with the locale \<open>drainable_queue\<close> interpreted on
  \<open>pop_head_if\<close>. \<open>Quota\<close> (\<open>quota.py\<close>): the pause after an exhausted quota and the gate of every dispatch.
  \<open>Plan_Parser\<close> (\<open>plan_parser.py\<close>): the table of phases.

  \<^bold>\<open>The supervisor.\<close> \<open>Supervisor\<close> (\<open>supervisor.py\<close>): one tick as snapshot, decision and apply;
  \<open>Supervisor_Props\<close> shows when a phase is dispatched, \<open>Supervisor_Ends\<close> when a plan is declared done,
  \<open>Supervisor_Release\<close> on what evidence a claim is released and what a discarded tick leaves. \<open>Sweep\<close>:
  the zombie sweep. \<open>Dispatch\<close>, \<open>Templates\<close> (\<open>dispatch.py\<close>): from the claim to the worker's process and
  the four ways a start ends; \<open>Dispatch_Props\<close>, \<open>Dispatch_Examples\<close>. \<open>Cross_Plan\<close>
  (\<open>cross_plan_rules.py\<close>, \<open>dry_merge.py\<close>, \<open>cli.py\<close>): the tick of a project and the chain of rules over
  its plans; \<open>Cross_Frame\<close>, \<open>Cross_Props\<close>, \<open>Cross_Ends\<close>, \<open>Cross_Examples\<close>. \<open>Tick_All\<close>, \<open>Tick_All_Props\<close>,
  \<open>Tick_All_Examples\<close>: the tick of the host.

  \<^bold>\<open>Commands.\<close> \<open>Cmd_World\<close>: a command is a sequence of transactions with foreign work in between
  (\<open>w_script\<close>) and effects in order (\<open>w_effects\<close>), ending with a code or an exception. \<open>Commands\<close> (\<open>cli.py\<close>):
  the handlers that change one plan. \<open>Cmd_Frame\<close>: the locale \<open>store_contract\<close>, interpreted as \<open>command_log\<close>
  (invariant and append-only history) and \<open>command_frame\<close> (other plans untouched). \<open>Cmd_Worker\<close>,
  \<open>Cmd_Block\<close>, \<open>Cmd_Operator\<close>, \<open>Cmd_Examples\<close>: what they promise. \<open>Worktree_Cmds\<close>,
  \<open>Worktree_Props\<close>, \<open>Worktree_Examples\<close>: \<open>init\<close> and the worktrees. \<open>Queue_Cmds\<close>, \<open>Queue_Cmds_Props\<close>,
  \<open>Queue_Cmds_Examples\<close>: adding to the queue. \<open>Ship\<close>, \<open>Ship_Props\<close>, \<open>Ship_Examples\<close>: landing finished
  work. \<open>Heartbeat_Daemon\<close> (\<open>heartbeat_daemon.py\<close>): the loop beside a worker. \<open>Config\<close>, \<open>Config_Props\<close>
  (\<open>config.py\<close>): the configuration.

  \<^bold>\<open>In and out.\<close> \<open>Notify\<close> (\<open>notify.py\<close>): the routing of notices; \<open>Message_Text\<close>: the texts. \<open>Replies\<close>,
  \<open>Replies_Props\<close> (\<open>notify_base.py\<close>, \<open>state_locator.py\<close>, the two inbound pollers): from a message of the
  operator to the blocker it answers. \<open>Host_Tables\<close>, \<open>Host_Props\<close> (\<open>registry.py\<close>, \<open>inbox.py\<close>): the host's
  tables. \<open>Session_Start\<close>, \<open>Inbox_Surface\<close> (\<open>hooks\<close>): what a session is told. \<open>Fleet\<close> (\<open>fleet.py\<close>): the
  overview. \<open>Watch_Text\<close>, \<open>Watch_Stream\<close>, \<open>Watch_Props\<close> (\<open>watch.py\<close>): the event stream. \<open>Top_Rows\<close>,
  \<open>Top_Rows_Props\<close> (\<open>top.py\<close>): the rows of the dashboard. \<open>Web_Feed\<close>, \<open>Web_Feed_Props\<close>, \<open>Web_Server\<close>,
  \<open>Web_Server_Props\<close>, \<open>Web_Examples\<close> (\<open>webserver.py\<close>): its feed and its server. \<open>Skill_Sync\<close>,
  \<open>Skill_Sync_Props\<close>, \<open>Skill_Sync_Examples\<close> (\<open>skill_sync.py\<close>): the installed skills.

  \<^bold>\<open>How state and operations correspond.\<close> A table is the list of its rows in the order of their row ids, a row
  maps column names to SQL values, a transaction is a function from a database to a result and a
  database. Every \<open>raise\<close>, early return and exit code of the code is a branch. What other processes do
  between two transactions is an argument: \<open>others\<close> in a tick and a sweep, \<open>w_script\<close> in a command; the
  theorems quantify over it. A tick, an operation and a command see one instant \<open>now\<close>. A loop without
  end (the heartbeat daemon, the stream) runs over a list of environments, one per round, and a list that
  runs out is a loop still running; so no fuel is chosen anywhere. \<open>tail_start\<close>, the walk over
  the process tree and the parsers are total functions with measures.

  \<^bold>\<open>Parameters.\<close> What the operating system answers (\<open>os_view\<close>), git and \<open>gh\<close>, the runs of tests and of the verify
  command, the outcome of starting a process, files and directories, environment variables, fresh
  identifiers, hashes, time zones, path resolution, JSON encoding and decoding, the parsing of floats and
  the chat services are arguments. A theorem that needs something of them names it
  (\<open>git_answers\<close>, \<open>names_differ\<close>, \<open>nobody_works\<close>), and its witness shows an instance.

  \<^bold>\<open>Modelling decisions.\<close> Floats are rationals. A text is the bytes of its UTF-8 encoding; folding of case is on
  ASCII, lengths and cuts count code points. A stored timestamp is the instant it denotes; one that does not
  parse is a text. The host's tables do not change within one walk over them. Where Python iterates over
  a set, the model takes the order of first occurrence.

  \<^bold>\<open>What the lemmas show.\<close> The invariant of the store, the append-only histories and the frame of the other plans are
  proved once for the operations and carried to ticks, commands, rules and the host's tick by
  contracts. On them rest the safety of dispatch, release, completion and shipping, the exclusion
  by tokens, the order of the queue, the delivery of events and of transcript records each once, and the
  guard of the web server. Other groups are the codecs (shell words, message bodies), the parsers against
  their grammars, the typing of configurations and rows, the bounds of messages, the termination of the
  daemon, and the ways the code falls short of its comments (the error properties).

  \<^bold>\<open>Not modelled.\<close> The curses front end (\<open>top_registry.py\<close>, \<open>top_layout.py\<close>, \<open>top_render.py\<close>, the drawing
  part of \<open>top.py\<close>) only renders the rows. Connections, pragmas, schema creation and migration of
  \<open>db.py\<close> are SQLite's; what the code relies on is that a write transaction is all or nothing. The
  backends that post to chat services, the hooks and scripts that only start another program, the
  demonstration, the installers and the parts of handlers that only print are left out, as are the argument
  parser and the doctor's checks.
\<close>

end
